(* ===== verification/Prelude.thy ===== *)
theory Prelude
  imports Main
begin

text \<open>
  Shared vocabulary of the development: the types every component uses (identifiers, instants),
  the collections of simplification rules, generic operations on result values and on tables
  (lists of rows), and the Python string operations the backend uses.

  Conventions.  A database table is the list of its rows, in insertion order; \<open>SELECT\<close> is
  \<open>filter\<close>, \<open>UPDATE ... WHERE\<close> is \<open>update_where\<close>, \<open>session.get\<close> is \<open>find\<close> on the
  primary key.  An instant is an \<open>int\<close> number of microseconds (Python's \<open>datetime\<close> resolution),
  always in UTC: the helpers \<open>_aware\<close> of the source only attach the UTC zone to a stored value
  and leave the instant unchanged.  Strings are lists of 8-bit characters.
\<close>

type_synonym uuid = nat
type_synonym time = int

text \<open>Python \<open>timedelta\<close> values, in microseconds.\<close>

definition seconds :: "int \<Rightarrow> int" where "seconds n = n * 1000000"
definition minutes :: "int \<Rightarrow> int" where "minutes n = seconds (60 * n)"
definition hours :: "int \<Rightarrow> int" where "hours n = seconds (3600 * n)"
definition days :: "int \<Rightarrow> int" where "days n = seconds (86400 * n)"

named_theorems time_simps
lemmas [time_simps] = seconds_def minutes_def hours_def days_def

subsection \<open>Results\<close>

text \<open>
  A call that may raise returns \<open>Inl\<close> of the error or \<open>Inr\<close> of its result; \<open>res_bind\<close> is
  the sequencing of statements, which stops at the first error.
\<close>

definition res_bind :: "'e + 'a \<Rightarrow> ('a \<Rightarrow> 'e + 'b) \<Rightarrow> 'e + 'b" where
  "res_bind r k = (case r of Inl e \<Rightarrow> Inl e | Inr x \<Rightarrow> k x)"

lemma res_bind_simps [simp]:
  "res_bind (Inl e) k = Inl e" "res_bind (Inr x) k = k x"
  by (simp_all add: res_bind_def)

lemma res_bind_Inr: "res_bind r k = Inr y \<longleftrightarrow> (\<exists>x. r = Inr x \<and> k x = Inr y)"
  by (cases r) auto

lemma res_bind_InrE:
  assumes "res_bind r k = Inr y"
  obtains x where "r = Inr x" and "k x = Inr y"
  using assms by (auto simp: res_bind_Inr)

lemma if_InrE:
  assumes "(if b then Inl e else r) = Inr y"
  obtains "\<not> b" and "r = Inr y"
  using assms by (auto split: if_split_asm)

lemma case_prod_eqE:
  assumes "(case x of (a, b) \<Rightarrow> f a b) = y"
  obtains a b where "x = (a, b)" and "f a b = y"
  using assms by (cases x) simp

lemma res_bind_Inl: "res_bind r k = Inl e \<longleftrightarrow> r = Inl e \<or> (\<exists>x. r = Inr x \<and> k x = Inl e)"
  by (cases r) auto

definition require :: "bool \<Rightarrow> 'e \<Rightarrow> 'e + unit" where
  "require b e = (if b then Inr () else Inl e)"

lemma require_simps [simp]:
  "require b e = Inr u \<longleftrightarrow> b" "require b e = Inl e' \<longleftrightarrow> \<not> b \<and> e' = e"
  by (auto simp: require_def)

text \<open>A Python loop that appends one checked value per element and stops at the first error.\<close>

fun traverse :: "('a \<Rightarrow> 'e + 'b) \<Rightarrow> 'a list \<Rightarrow> 'e + 'b list" where
  "traverse f [] = Inr []"
| "traverse f (x # xs) = res_bind (f x) (\<lambda>y. res_bind (traverse f xs) (\<lambda>ys. Inr (y # ys)))"

lemma traverse_Inr: "traverse f xs = Inr ys \<longleftrightarrow> list_all2 (\<lambda>x y. f x = Inr y) xs ys"
  by (induction xs arbitrary: ys) (auto simp: res_bind_Inr list_all2_Cons1)

lemma traverse_length: "traverse f xs = Inr ys \<Longrightarrow> length ys = length xs"
  by (auto simp: traverse_Inr dest: list_all2_lengthD)

lemma traverse_all:
  "traverse f xs = Inr ys \<Longrightarrow> x \<in> set xs \<Longrightarrow> \<exists>y \<in> set ys. f x = Inr y"
  by (induction xs arbitrary: ys) (auto simp: res_bind_Inr)

lemma traverse_origin:
  "traverse f xs = Inr ys \<Longrightarrow> y \<in> set ys \<Longrightarrow> \<exists>x \<in> set xs. f x = Inr y"
  by (induction xs arbitrary: ys) (auto simp: res_bind_Inr)

text \<open>Python's \<open>x or y\<close> on an optional value whose present values are truthy.\<close>

definition or_else :: "'a option \<Rightarrow> 'a \<Rightarrow> 'a" where
  "or_else x d = (case x of Some y \<Rightarrow> y | None \<Rightarrow> d)"

lemma or_else_simps [simp]: "or_else None d = d" "or_else (Some x) d = x"
  by (simp_all add: or_else_def)

text \<open>An optional field is absent or satisfies its bound.\<close>

fun given :: "('a \<Rightarrow> bool) \<Rightarrow> 'a option \<Rightarrow> bool" where
  "given P None = True"
| "given P (Some x) = P x"

definition or_opt :: "'a option \<Rightarrow> 'a option \<Rightarrow> 'a option" where
  "or_opt x y = (case x of Some z \<Rightarrow> Some z | None \<Rightarrow> y)"

lemma or_opt_simps [simp]: "or_opt None y = y" "or_opt (Some x) y = Some x"
  by (simp_all add: or_opt_def)

text \<open>A name between single quotes, as the messages of the source print it.\<close>

definition quoted :: "string \<Rightarrow> string" where
  "quoted s = CHR 0x27 # s @ [CHR 0x27]"

subsection \<open>Tables\<close>

text \<open>In-place updates of rows: the first match, or every match.\<close>

fun update_first :: "('a \<Rightarrow> bool) \<Rightarrow> ('a \<Rightarrow> 'a) \<Rightarrow> 'a list \<Rightarrow> 'a list" where
  "update_first P f [] = []"
| "update_first P f (x # xs) = (if P x then f x # xs else x # update_first P f xs)"

definition update_where :: "('a \<Rightarrow> bool) \<Rightarrow> ('a \<Rightarrow> 'a) \<Rightarrow> 'a list \<Rightarrow> 'a list" where
  "update_where P f xs = map (\<lambda>x. if P x then f x else x) xs"

lemma length_update_first [simp]: "length (update_first P f xs) = length xs"
  by (induction xs) auto

lemma update_first_nth:
  assumes "i < length xs" and "P (xs ! i)" and "\<And>j. j < i \<Longrightarrow> \<not> P (xs ! j)"
  shows "update_first P f xs = xs[i := f (xs ! i)]"
  using assms
proof (induction xs arbitrary: i)
  case Nil
  then show ?case by simp
next
  case (Cons x xs)
  show ?case
  proof (cases i)
    case 0
    with Cons.prems show ?thesis by simp
  next
    case (Suc k)
    with Cons.prems(3)[of 0] have "\<not> P x" by simp
    moreover have "update_first P f xs = xs[k := f (xs ! k)]"
      using Cons.prems Suc by (intro Cons.IH) force+
    ultimately show ?thesis using Suc by simp
  qed
qed

lemma update_first_absent: "(\<And>x. x \<in> set xs \<Longrightarrow> \<not> P x) \<Longrightarrow> update_first P f xs = xs"
  by (induction xs) auto

lemma map_update_first:
  "(\<And>x. g (f x) = g x) \<Longrightarrow> map g (update_first P f xs) = map g xs"
  by (induction xs) auto

lemma update_where_simps [simp]:
  "update_where P f [] = []"
  "update_where P f (x # xs) = (if P x then f x else x) # update_where P f xs"
  by (simp_all add: update_where_def)

lemma length_update_where [simp]: "length (update_where P f xs) = length xs"
  by (simp add: update_where_def)

lemma set_update_where:
  "set (update_where P f xs) = {x \<in> set xs. \<not> P x} \<union> f ` {x \<in> set xs. P x}"
  by (auto simp: update_where_def)

lemma map_update_where:
  "(\<And>x. P x \<Longrightarrow> g (f x) = g x) \<Longrightarrow> map g (update_where P f xs) = map g xs"
  by (auto simp: update_where_def)

lemma find_nth:
  assumes "i < length xs" and "P (xs ! i)" and "\<And>j. j < i \<Longrightarrow> \<not> P (xs ! j)"
  shows "find P xs = Some (xs ! i)"
  using assms by (auto simp: find_Some_iff)

lemma find_by_key:
  "distinct (map k xs) \<Longrightarrow> x \<in> set xs \<Longrightarrow> find (\<lambda>y. k y = k x) xs = Some x"
  by (induction xs) (auto simp: image_iff)

lemma find_SomeD: "find P xs = Some x \<Longrightarrow> x \<in> set xs \<and> P x"
  by (metis find_Some_iff nth_mem)

lemma find_NoneD: "find P xs = None \<Longrightarrow> x \<in> set xs \<Longrightarrow> \<not> P x"
  by (simp add: find_None_iff)

text \<open>Python's \<open>dict.fromkeys\<close>: the distinct elements in order of first occurrence.\<close>

fun first_occurrences :: "'a list \<Rightarrow> 'a list" where
  "first_occurrences [] = []"
| "first_occurrences (x # xs) = x # filter (\<lambda>y. y \<noteq> x) (first_occurrences xs)"

lemma set_first_occurrences [simp]: "set (first_occurrences xs) = set xs"
  by (induction xs) auto

lemma distinct_first_occurrences [simp]: "distinct (first_occurrences xs)"
  by (induction xs) auto

subsection \<open>Keyed rows\<close>

text \<open>
  A function on rows that keeps the primary key: the contract of every \<open>UPDATE\<close> of one row.  The
  components interpret it on their row operations.
\<close>

locale row_update =
  fixes key :: "'r \<Rightarrow> 'k" and f :: "'r \<Rightarrow> 'r"
  assumes key_kept: "key (f x) = key x"
begin

lemma keys_kept: "map key (update_where (\<lambda>x. key x = i) f xs) = map key xs"
  by (rule map_update_where) (rule key_kept)

lemma find_hit:
  "find (\<lambda>x. key x = i) (update_where (\<lambda>x. key x = i) f xs) = map_option f (find (\<lambda>x. key x = i) xs)"
  by (induction xs) (auto simp: key_kept)

lemma find_miss:
  "j \<noteq> i \<Longrightarrow>
    find (\<lambda>x. key x = j) (update_where (\<lambda>x. key x = i) f xs) = find (\<lambda>x. key x = j) xs"
  by (induction xs) (auto simp: key_kept)

end

end
