(* ===== verification/Enums.thy ===== *)
theory Enums
  imports Prelude
begin

text \<open>
  The string enumerations of \<^verbatim>\<open>app/models/enums.py\<close>, one datatype per class with the
  source's member names (\<open>JobStatus.QUEUED\<close> and so on), its \<open>.value\<close> strings, and the list of
  its members in declaration order.  A \<open>StrEnum\<close> class is called on a string to look a member
  up (SQLAlchemy does so for every stored column, \<open>validate_strings=True\<close>): that lookup is
  \<open>member_of_value\<close>, and the locale \<open>str_enum\<close> collects what the code relies on, namely
  that the values are pairwise different and that every member is listed.  Only the classes that
  the modelled components use are here.
\<close>

definition member_of_value :: "('a \<Rightarrow> string) \<Rightarrow> 'a list \<Rightarrow> string \<Rightarrow> 'a option" where
  "member_of_value val members s = find (\<lambda>m. val m = s) members"

locale str_enum =
  fixes val :: "'a \<Rightarrow> string"
    and members :: "'a list"
  assumes distinct_values: "distinct (map val members)"
    and members_complete: "x \<in> set members"
begin

lemma inj_val: "val x = val y \<longleftrightarrow> x = y"
  using distinct_values members_complete
  by (auto simp: distinct_map dest: inj_onD)

lemma lookup_val: "member_of_value val members (val x) = Some x"
proof (cases "member_of_value val members (val x)")
  case None
  then show ?thesis
    using members_complete by (auto simp: member_of_value_def find_None_iff)
next
  case (Some y)
  then have "val y = val x" by (auto simp: member_of_value_def dest: find_SomeD)
  with Some show ?thesis by (simp add: inj_val)
qed

lemma lookup_Some: "member_of_value val members s = Some x \<longleftrightarrow> val x = s"
proof
  assume "member_of_value val members s = Some x"
  then show "val x = s" by (auto simp: member_of_value_def dest: find_SomeD)
next
  assume "val x = s"
  then show "member_of_value val members s = Some x" using lookup_val by blast
qed

end


subsection \<open>\<open>UserRole\<close>\<close>

datatype UserRole = ADMINISTRATOR | SECURITY_OPERATOR | PENTEST_APPROVER
  | REMEDIATION_OWNER  | AUDITOR | VIEWER

fun user_role_value :: "UserRole \<Rightarrow> string" where
  "user_role_value UserRole.ADMINISTRATOR = ''administrator''"
| "user_role_value UserRole.SECURITY_OPERATOR = ''security_operator''"
| "user_role_value UserRole.PENTEST_APPROVER = ''pentest_approver''"
| "user_role_value UserRole.REMEDIATION_OWNER = ''remediation_owner''"
| "user_role_value UserRole.AUDITOR = ''auditor''"
| "user_role_value UserRole.VIEWER = ''viewer''"

definition user_role_members :: "UserRole list" where
  "user_role_members =
     [UserRole.ADMINISTRATOR, UserRole.SECURITY_OPERATOR, UserRole.PENTEST_APPROVER,
      UserRole.REMEDIATION_OWNER, UserRole.AUDITOR, UserRole.VIEWER]"

interpretation user_role: str_enum user_role_value user_role_members
proof unfold_locales
  fix x :: UserRole
  show "x \<in> set user_role_members" by (cases x) (simp_all add: user_role_members_def)
qed (simp add: user_role_members_def)

subsection \<open>\<open>PrincipalType\<close>\<close>

datatype PrincipalType = USER | SERVICE_ACCOUNT

fun principal_type_value :: "PrincipalType \<Rightarrow> string" where
  "principal_type_value PrincipalType.USER = ''user''"
| "principal_type_value PrincipalType.SERVICE_ACCOUNT = ''service_account''"

definition principal_type_members :: "PrincipalType list" where
  "principal_type_members =
     [PrincipalType.USER, PrincipalType.SERVICE_ACCOUNT]"

interpretation principal_type: str_enum principal_type_value principal_type_members
proof unfold_locales
  fix x :: PrincipalType
  show "x \<in> set principal_type_members" by (cases x) (simp_all add: principal_type_members_def)
qed (simp add: principal_type_members_def)

subsection \<open>\<open>GrantScopeType\<close>\<close>

datatype GrantScopeType = ORGANIZATION | SITE

fun grant_scope_type_value :: "GrantScopeType \<Rightarrow> string" where
  "grant_scope_type_value GrantScopeType.ORGANIZATION = ''organization''"
| "grant_scope_type_value GrantScopeType.SITE = ''site''"

definition grant_scope_type_members :: "GrantScopeType list" where
  "grant_scope_type_members =
     [GrantScopeType.ORGANIZATION, GrantScopeType.SITE]"

interpretation grant_scope_type: str_enum grant_scope_type_value grant_scope_type_members
proof unfold_locales
  fix x :: GrantScopeType
  show "x \<in> set grant_scope_type_members" by (cases x) (simp_all add: grant_scope_type_members_def)
qed (simp add: grant_scope_type_members_def)

subsection \<open>\<open>ServiceAccountStatus\<close>\<close>

datatype ServiceAccountStatus = ACTIVE | SUSPENDED

fun service_account_status_value :: "ServiceAccountStatus \<Rightarrow> string" where
  "service_account_status_value ServiceAccountStatus.ACTIVE = ''active''"
| "service_account_status_value ServiceAccountStatus.SUSPENDED = ''suspended''"

definition service_account_status_members :: "ServiceAccountStatus list" where
  "service_account_status_members =
     [ServiceAccountStatus.ACTIVE, ServiceAccountStatus.SUSPENDED]"

interpretation service_account_status: str_enum service_account_status_value service_account_status_members
proof unfold_locales
  fix x :: ServiceAccountStatus
  show "x \<in> set service_account_status_members" by (cases x) (simp_all add: service_account_status_members_def)
qed (simp add: service_account_status_members_def)

subsection \<open>\<open>BackgroundTaskStatus\<close>\<close>

datatype BackgroundTaskStatus = QUEUED | RUNNING | RETRY | COMPLETED | CANCELLED
  | DEAD_LETTER

fun background_task_status_value :: "BackgroundTaskStatus \<Rightarrow> string" where
  "background_task_status_value BackgroundTaskStatus.QUEUED = ''queued''"
| "background_task_status_value BackgroundTaskStatus.RUNNING = ''running''"
| "background_task_status_value BackgroundTaskStatus.RETRY = ''retry''"
| "background_task_status_value BackgroundTaskStatus.COMPLETED = ''completed''"
| "background_task_status_value BackgroundTaskStatus.CANCELLED = ''cancelled''"
| "background_task_status_value BackgroundTaskStatus.DEAD_LETTER = ''dead_letter''"

definition background_task_status_members :: "BackgroundTaskStatus list" where
  "background_task_status_members =
     [BackgroundTaskStatus.QUEUED, BackgroundTaskStatus.RUNNING, BackgroundTaskStatus.RETRY,
      BackgroundTaskStatus.COMPLETED, BackgroundTaskStatus.CANCELLED,
      BackgroundTaskStatus.DEAD_LETTER]"

interpretation background_task_status: str_enum background_task_status_value background_task_status_members
proof unfold_locales
  fix x :: BackgroundTaskStatus
  show "x \<in> set background_task_status_members" by (cases x) (simp_all add: background_task_status_members_def)
qed (simp add: background_task_status_members_def)

subsection \<open>\<open>AccountStatus\<close>\<close>

datatype AccountStatus = INVITED | ACTIVE | SUSPENDED | DEACTIVATED | LOCKED

fun account_status_value :: "AccountStatus \<Rightarrow> string" where
  "account_status_value AccountStatus.INVITED = ''invited''"
| "account_status_value AccountStatus.ACTIVE = ''active''"
| "account_status_value AccountStatus.SUSPENDED = ''suspended''"
| "account_status_value AccountStatus.DEACTIVATED = ''deactivated''"
| "account_status_value AccountStatus.LOCKED = ''locked''"

definition account_status_members :: "AccountStatus list" where
  "account_status_members =
     [AccountStatus.INVITED, AccountStatus.ACTIVE, AccountStatus.SUSPENDED,
      AccountStatus.DEACTIVATED, AccountStatus.LOCKED]"

interpretation account_status: str_enum account_status_value account_status_members
proof unfold_locales
  fix x :: AccountStatus
  show "x \<in> set account_status_members" by (cases x) (simp_all add: account_status_members_def)
qed (simp add: account_status_members_def)

subsection \<open>\<open>SiteAccessMode\<close>\<close>

datatype SiteAccessMode = ALL | ASSIGNED

fun site_access_mode_value :: "SiteAccessMode \<Rightarrow> string" where
  "site_access_mode_value SiteAccessMode.ALL = ''all''"
| "site_access_mode_value SiteAccessMode.ASSIGNED = ''assigned''"

definition site_access_mode_members :: "SiteAccessMode list" where
  "site_access_mode_members =
     [SiteAccessMode.ALL, SiteAccessMode.ASSIGNED]"

interpretation site_access_mode: str_enum site_access_mode_value site_access_mode_members
proof unfold_locales
  fix x :: SiteAccessMode
  show "x \<in> set site_access_mode_members" by (cases x) (simp_all add: site_access_mode_members_def)
qed (simp add: site_access_mode_members_def)

subsection \<open>\<open>ProbeStatus\<close>\<close>

datatype ProbeStatus = PENDING_ENROLLMENT | ENROLLED | DISABLED | REVOKED

fun probe_status_value :: "ProbeStatus \<Rightarrow> string" where
  "probe_status_value ProbeStatus.PENDING_ENROLLMENT = ''pending_enrollment''"
| "probe_status_value ProbeStatus.ENROLLED = ''enrolled''"
| "probe_status_value ProbeStatus.DISABLED = ''disabled''"
| "probe_status_value ProbeStatus.REVOKED = ''revoked''"

definition probe_status_members :: "ProbeStatus list" where
  "probe_status_members =
     [ProbeStatus.PENDING_ENROLLMENT, ProbeStatus.ENROLLED, ProbeStatus.DISABLED,
      ProbeStatus.REVOKED]"

interpretation probe_status: str_enum probe_status_value probe_status_members
proof unfold_locales
  fix x :: ProbeStatus
  show "x \<in> set probe_status_members" by (cases x) (simp_all add: probe_status_members_def)
qed (simp add: probe_status_members_def)

subsection \<open>\<open>JobMode\<close>\<close>

datatype JobMode = VULNERABILITY_ASSESSMENT | CONTROLLED_PENTEST | FULL_SPECTRUM

fun job_mode_value :: "JobMode \<Rightarrow> string" where
  "job_mode_value JobMode.VULNERABILITY_ASSESSMENT = ''vulnerability_assessment''"
| "job_mode_value JobMode.CONTROLLED_PENTEST = ''controlled_pentest''"
| "job_mode_value JobMode.FULL_SPECTRUM = ''full_spectrum''"

definition job_mode_members :: "JobMode list" where
  "job_mode_members =
     [JobMode.VULNERABILITY_ASSESSMENT, JobMode.CONTROLLED_PENTEST, JobMode.FULL_SPECTRUM]"

interpretation job_mode: str_enum job_mode_value job_mode_members
proof unfold_locales
  fix x :: JobMode
  show "x \<in> set job_mode_members" by (cases x) (simp_all add: job_mode_members_def)
qed (simp add: job_mode_members_def)

subsection \<open>\<open>JobStatus\<close>\<close>

datatype JobStatus = QUEUED | OFFERED | ACCEPTED | RUNNING | COMPLETED | FAILED
  | CANCELLED  | EXPIRED | REJECTED_BY_PROBE

fun job_status_value :: "JobStatus \<Rightarrow> string" where
  "job_status_value JobStatus.QUEUED = ''queued''"
| "job_status_value JobStatus.OFFERED = ''offered''"
| "job_status_value JobStatus.ACCEPTED = ''accepted''"
| "job_status_value JobStatus.RUNNING = ''running''"
| "job_status_value JobStatus.COMPLETED = ''completed''"
| "job_status_value JobStatus.FAILED = ''failed''"
| "job_status_value JobStatus.CANCELLED = ''cancelled''"
| "job_status_value JobStatus.EXPIRED = ''expired''"
| "job_status_value JobStatus.REJECTED_BY_PROBE = ''rejected_by_probe''"

definition job_status_members :: "JobStatus list" where
  "job_status_members =
     [JobStatus.QUEUED, JobStatus.OFFERED, JobStatus.ACCEPTED, JobStatus.RUNNING,
      JobStatus.COMPLETED, JobStatus.FAILED, JobStatus.CANCELLED, JobStatus.EXPIRED,
      JobStatus.REJECTED_BY_PROBE]"

interpretation job_status: str_enum job_status_value job_status_members
proof unfold_locales
  fix x :: JobStatus
  show "x \<in> set job_status_members" by (cases x) (simp_all add: job_status_members_def)
qed (simp add: job_status_members_def)

subsection \<open>\<open>AssetCriticality\<close>\<close>

datatype AssetCriticality = UNKNOWN | LOW | MODERATE | HIGH | MISSION_CRITICAL

fun asset_criticality_value :: "AssetCriticality \<Rightarrow> string" where
  "asset_criticality_value AssetCriticality.UNKNOWN = ''unknown''"
| "asset_criticality_value AssetCriticality.LOW = ''low''"
| "asset_criticality_value AssetCriticality.MODERATE = ''moderate''"
| "asset_criticality_value AssetCriticality.HIGH = ''high''"
| "asset_criticality_value AssetCriticality.MISSION_CRITICAL = ''mission_critical''"

definition asset_criticality_members :: "AssetCriticality list" where
  "asset_criticality_members =
     [AssetCriticality.UNKNOWN, AssetCriticality.LOW, AssetCriticality.MODERATE,
      AssetCriticality.HIGH, AssetCriticality.MISSION_CRITICAL]"

interpretation asset_criticality: str_enum asset_criticality_value asset_criticality_members
proof unfold_locales
  fix x :: AssetCriticality
  show "x \<in> set asset_criticality_members" by (cases x) (simp_all add: asset_criticality_members_def)
qed (simp add: asset_criticality_members_def)

subsection \<open>\<open>IdentifierType\<close>\<close>

datatype IdentifierType = IP_ADDRESS | MAC_ADDRESS | HOSTNAME | FQDN | SMB_NAME
  | SSH_HOST_KEY  | TLS_CERT_FINGERPRINT | SNMP_ENGINE_ID | CLOUD_INSTANCE_ID | AGENT_ID

fun identifier_type_value :: "IdentifierType \<Rightarrow> string" where
  "identifier_type_value IdentifierType.IP_ADDRESS = ''ip_address''"
| "identifier_type_value IdentifierType.MAC_ADDRESS = ''mac_address''"
| "identifier_type_value IdentifierType.HOSTNAME = ''hostname''"
| "identifier_type_value IdentifierType.FQDN = ''fqdn''"
| "identifier_type_value IdentifierType.SMB_NAME = ''smb_name''"
| "identifier_type_value IdentifierType.SSH_HOST_KEY = ''ssh_host_key''"
| "identifier_type_value IdentifierType.TLS_CERT_FINGERPRINT = ''tls_cert_fingerprint''"
| "identifier_type_value IdentifierType.SNMP_ENGINE_ID = ''snmp_engine_id''"
| "identifier_type_value IdentifierType.CLOUD_INSTANCE_ID = ''cloud_instance_id''"
| "identifier_type_value IdentifierType.AGENT_ID = ''agent_id''"

definition identifier_type_members :: "IdentifierType list" where
  "identifier_type_members =
     [IdentifierType.IP_ADDRESS, IdentifierType.MAC_ADDRESS, IdentifierType.HOSTNAME,
      IdentifierType.FQDN, IdentifierType.SMB_NAME, IdentifierType.SSH_HOST_KEY,
      IdentifierType.TLS_CERT_FINGERPRINT, IdentifierType.SNMP_ENGINE_ID,
      IdentifierType.CLOUD_INSTANCE_ID, IdentifierType.AGENT_ID]"

interpretation identifier_type: str_enum identifier_type_value identifier_type_members
proof unfold_locales
  fix x :: IdentifierType
  show "x \<in> set identifier_type_members" by (cases x) (simp_all add: identifier_type_members_def)
qed (simp add: identifier_type_members_def)

subsection \<open>\<open>ServiceTransport\<close>\<close>

datatype ServiceTransport = TCP | UDP | SCTP

fun service_transport_value :: "ServiceTransport \<Rightarrow> string" where
  "service_transport_value ServiceTransport.TCP = ''tcp''"
| "service_transport_value ServiceTransport.UDP = ''udp''"
| "service_transport_value ServiceTransport.SCTP = ''sctp''"

definition service_transport_members :: "ServiceTransport list" where
  "service_transport_members =
     [ServiceTransport.TCP, ServiceTransport.UDP, ServiceTransport.SCTP]"

interpretation service_transport: str_enum service_transport_value service_transport_members
proof unfold_locales
  fix x :: ServiceTransport
  show "x \<in> set service_transport_members" by (cases x) (simp_all add: service_transport_members_def)
qed (simp add: service_transport_members_def)

subsection \<open>\<open>ChangeEventType\<close>\<close>

datatype ChangeEventType = ASSET_DISCOVERED | ASSET_DISAPPEARED | IP_CHANGED
  | NEW_PORT_OPENED  | PORT_CLOSED | SERVICE_VERSION_CHANGED | NEW_FINDING
  | FINDING_RESOLVED  | FINDING_REOPENED | NEW_VULNERABILITY | CVE_SEVERITY_CHANGED
  | CVE_ADDED_TO_KEV  | EPSS_THRESHOLD_CROSSED | FINDING_VERIFIED
  | RISK_ACCEPTANCE_EXPIRED

fun change_event_type_value :: "ChangeEventType \<Rightarrow> string" where
  "change_event_type_value ChangeEventType.ASSET_DISCOVERED = ''asset_discovered''"
| "change_event_type_value ChangeEventType.ASSET_DISAPPEARED = ''asset_disappeared''"
| "change_event_type_value ChangeEventType.IP_CHANGED = ''ip_changed''"
| "change_event_type_value ChangeEventType.NEW_PORT_OPENED = ''new_port_opened''"
| "change_event_type_value ChangeEventType.PORT_CLOSED = ''port_closed''"
| "change_event_type_value ChangeEventType.SERVICE_VERSION_CHANGED = ''service_version_changed''"
| "change_event_type_value ChangeEventType.NEW_FINDING = ''new_finding''"
| "change_event_type_value ChangeEventType.FINDING_RESOLVED = ''finding_resolved''"
| "change_event_type_value ChangeEventType.FINDING_REOPENED = ''finding_reopened''"
| "change_event_type_value ChangeEventType.NEW_VULNERABILITY = ''new_vulnerability''"
| "change_event_type_value ChangeEventType.CVE_SEVERITY_CHANGED = ''cve_severity_changed''"
| "change_event_type_value ChangeEventType.CVE_ADDED_TO_KEV = ''cve_added_to_kev''"
| "change_event_type_value ChangeEventType.EPSS_THRESHOLD_CROSSED = ''epss_threshold_crossed''"
| "change_event_type_value ChangeEventType.FINDING_VERIFIED = ''finding_verified''"
| "change_event_type_value ChangeEventType.RISK_ACCEPTANCE_EXPIRED = ''risk_acceptance_expired''"

definition change_event_type_members :: "ChangeEventType list" where
  "change_event_type_members =
     [ChangeEventType.ASSET_DISCOVERED, ChangeEventType.ASSET_DISAPPEARED,
      ChangeEventType.IP_CHANGED, ChangeEventType.NEW_PORT_OPENED,
      ChangeEventType.PORT_CLOSED, ChangeEventType.SERVICE_VERSION_CHANGED,
      ChangeEventType.NEW_FINDING, ChangeEventType.FINDING_RESOLVED,
      ChangeEventType.FINDING_REOPENED, ChangeEventType.NEW_VULNERABILITY,
      ChangeEventType.CVE_SEVERITY_CHANGED, ChangeEventType.CVE_ADDED_TO_KEV,
      ChangeEventType.EPSS_THRESHOLD_CROSSED, ChangeEventType.FINDING_VERIFIED,
      ChangeEventType.RISK_ACCEPTANCE_EXPIRED]"

interpretation change_event_type: str_enum change_event_type_value change_event_type_members
proof unfold_locales
  fix x :: ChangeEventType
  show "x \<in> set change_event_type_members" by (cases x) (simp_all add: change_event_type_members_def)
qed (simp add: change_event_type_members_def)

subsection \<open>\<open>MatchConfidence\<close>\<close>

datatype MatchConfidence = HIGH | MEDIUM | LOW

fun match_confidence_value :: "MatchConfidence \<Rightarrow> string" where
  "match_confidence_value MatchConfidence.HIGH = ''high''"
| "match_confidence_value MatchConfidence.MEDIUM = ''medium''"
| "match_confidence_value MatchConfidence.LOW = ''low''"

definition match_confidence_members :: "MatchConfidence list" where
  "match_confidence_members =
     [MatchConfidence.HIGH, MatchConfidence.MEDIUM, MatchConfidence.LOW]"

interpretation match_confidence: str_enum match_confidence_value match_confidence_members
proof unfold_locales
  fix x :: MatchConfidence
  show "x \<in> set match_confidence_members" by (cases x) (simp_all add: match_confidence_members_def)
qed (simp add: match_confidence_members_def)

subsection \<open>\<open>WorkflowRunStatus\<close>\<close>

datatype WorkflowRunStatus = PENDING | RUNNING | AWAITING_APPROVAL | COMPLETED | FAILED
  | CANCELLED

fun workflow_run_status_value :: "WorkflowRunStatus \<Rightarrow> string" where
  "workflow_run_status_value WorkflowRunStatus.PENDING = ''pending''"
| "workflow_run_status_value WorkflowRunStatus.RUNNING = ''running''"
| "workflow_run_status_value WorkflowRunStatus.AWAITING_APPROVAL = ''awaiting_approval''"
| "workflow_run_status_value WorkflowRunStatus.COMPLETED = ''completed''"
| "workflow_run_status_value WorkflowRunStatus.FAILED = ''failed''"
| "workflow_run_status_value WorkflowRunStatus.CANCELLED = ''cancelled''"

definition workflow_run_status_members :: "WorkflowRunStatus list" where
  "workflow_run_status_members =
     [WorkflowRunStatus.PENDING, WorkflowRunStatus.RUNNING,
      WorkflowRunStatus.AWAITING_APPROVAL, WorkflowRunStatus.COMPLETED,
      WorkflowRunStatus.FAILED, WorkflowRunStatus.CANCELLED]"

interpretation workflow_run_status: str_enum workflow_run_status_value workflow_run_status_members
proof unfold_locales
  fix x :: WorkflowRunStatus
  show "x \<in> set workflow_run_status_members" by (cases x) (simp_all add: workflow_run_status_members_def)
qed (simp add: workflow_run_status_members_def)

subsection \<open>\<open>WorkflowStageStatus\<close>\<close>

datatype WorkflowStageStatus = PENDING | RUNNING | AWAITING_APPROVAL | COMPLETED | FAILED
  | SKIPPED  | DENIED

fun workflow_stage_status_value :: "WorkflowStageStatus \<Rightarrow> string" where
  "workflow_stage_status_value WorkflowStageStatus.PENDING = ''pending''"
| "workflow_stage_status_value WorkflowStageStatus.RUNNING = ''running''"
| "workflow_stage_status_value WorkflowStageStatus.AWAITING_APPROVAL = ''awaiting_approval''"
| "workflow_stage_status_value WorkflowStageStatus.COMPLETED = ''completed''"
| "workflow_stage_status_value WorkflowStageStatus.FAILED = ''failed''"
| "workflow_stage_status_value WorkflowStageStatus.SKIPPED = ''skipped''"
| "workflow_stage_status_value WorkflowStageStatus.DENIED = ''denied''"

definition workflow_stage_status_members :: "WorkflowStageStatus list" where
  "workflow_stage_status_members =
     [WorkflowStageStatus.PENDING, WorkflowStageStatus.RUNNING,
      WorkflowStageStatus.AWAITING_APPROVAL, WorkflowStageStatus.COMPLETED,
      WorkflowStageStatus.FAILED, WorkflowStageStatus.SKIPPED, WorkflowStageStatus.DENIED]"

interpretation workflow_stage_status: str_enum workflow_stage_status_value workflow_stage_status_members
proof unfold_locales
  fix x :: WorkflowStageStatus
  show "x \<in> set workflow_stage_status_members" by (cases x) (simp_all add: workflow_stage_status_members_def)
qed (simp add: workflow_stage_status_members_def)

subsection \<open>\<open>PentestSessionStatus\<close>\<close>

datatype PentestSessionStatus = PENDING_APPROVAL | APPROVED | REJECTED | RUNNING
  | COMPLETED  | TERMINATED | EXPIRED | CLEANUP_PENDING | CLEANED

fun pentest_session_status_value :: "PentestSessionStatus \<Rightarrow> string" where
  "pentest_session_status_value PentestSessionStatus.PENDING_APPROVAL = ''pending_approval''"
| "pentest_session_status_value PentestSessionStatus.APPROVED = ''approved''"
| "pentest_session_status_value PentestSessionStatus.REJECTED = ''rejected''"
| "pentest_session_status_value PentestSessionStatus.RUNNING = ''running''"
| "pentest_session_status_value PentestSessionStatus.COMPLETED = ''completed''"
| "pentest_session_status_value PentestSessionStatus.TERMINATED = ''terminated''"
| "pentest_session_status_value PentestSessionStatus.EXPIRED = ''expired''"
| "pentest_session_status_value PentestSessionStatus.CLEANUP_PENDING = ''cleanup_pending''"
| "pentest_session_status_value PentestSessionStatus.CLEANED = ''cleaned''"

definition pentest_session_status_members :: "PentestSessionStatus list" where
  "pentest_session_status_members =
     [PentestSessionStatus.PENDING_APPROVAL, PentestSessionStatus.APPROVED,
      PentestSessionStatus.REJECTED, PentestSessionStatus.RUNNING,
      PentestSessionStatus.COMPLETED, PentestSessionStatus.TERMINATED,
      PentestSessionStatus.EXPIRED, PentestSessionStatus.CLEANUP_PENDING,
      PentestSessionStatus.CLEANED]"

interpretation pentest_session_status: str_enum pentest_session_status_value pentest_session_status_members
proof unfold_locales
  fix x :: PentestSessionStatus
  show "x \<in> set pentest_session_status_members" by (cases x) (simp_all add: pentest_session_status_members_def)
qed (simp add: pentest_session_status_members_def)

subsection \<open>\<open>RiskAcceptanceStatus\<close>\<close>

datatype RiskAcceptanceStatus = PENDING | ACTIVE | EXPIRED | REVOKED | REJECTED

fun risk_acceptance_status_value :: "RiskAcceptanceStatus \<Rightarrow> string" where
  "risk_acceptance_status_value RiskAcceptanceStatus.PENDING = ''pending''"
| "risk_acceptance_status_value RiskAcceptanceStatus.ACTIVE = ''active''"
| "risk_acceptance_status_value RiskAcceptanceStatus.EXPIRED = ''expired''"
| "risk_acceptance_status_value RiskAcceptanceStatus.REVOKED = ''revoked''"
| "risk_acceptance_status_value RiskAcceptanceStatus.REJECTED = ''rejected''"

definition risk_acceptance_status_members :: "RiskAcceptanceStatus list" where
  "risk_acceptance_status_members =
     [RiskAcceptanceStatus.PENDING, RiskAcceptanceStatus.ACTIVE,
      RiskAcceptanceStatus.EXPIRED, RiskAcceptanceStatus.REVOKED,
      RiskAcceptanceStatus.REJECTED]"

interpretation risk_acceptance_status: str_enum risk_acceptance_status_value risk_acceptance_status_members
proof unfold_locales
  fix x :: RiskAcceptanceStatus
  show "x \<in> set risk_acceptance_status_members" by (cases x) (simp_all add: risk_acceptance_status_members_def)
qed (simp add: risk_acceptance_status_members_def)

subsection \<open>\<open>WebScanProfile\<close>\<close>

datatype WebScanProfile = PASSIVE_BASELINE | LIMITED_ACTIVE

fun web_scan_profile_value :: "WebScanProfile \<Rightarrow> string" where
  "web_scan_profile_value WebScanProfile.PASSIVE_BASELINE = ''passive_baseline''"
| "web_scan_profile_value WebScanProfile.LIMITED_ACTIVE = ''limited_active''"

definition web_scan_profile_members :: "WebScanProfile list" where
  "web_scan_profile_members =
     [WebScanProfile.PASSIVE_BASELINE, WebScanProfile.LIMITED_ACTIVE]"

interpretation web_scan_profile: str_enum web_scan_profile_value web_scan_profile_members
proof unfold_locales
  fix x :: WebScanProfile
  show "x \<in> set web_scan_profile_members" by (cases x) (simp_all add: web_scan_profile_members_def)
qed (simp add: web_scan_profile_members_def)

subsection \<open>\<open>Severity\<close>\<close>

datatype Severity = CRITICAL | HIGH | MEDIUM | LOW | INFO

fun severity_value :: "Severity \<Rightarrow> string" where
  "severity_value Severity.CRITICAL = ''critical''"
| "severity_value Severity.HIGH = ''high''"
| "severity_value Severity.MEDIUM = ''medium''"
| "severity_value Severity.LOW = ''low''"
| "severity_value Severity.INFO = ''info''"

definition severity_members :: "Severity list" where
  "severity_members =
     [Severity.CRITICAL, Severity.HIGH, Severity.MEDIUM, Severity.LOW, Severity.INFO]"

interpretation severity: str_enum severity_value severity_members
proof unfold_locales
  fix x :: Severity
  show "x \<in> set severity_members" by (cases x) (simp_all add: severity_members_def)
qed (simp add: severity_members_def)

subsection \<open>\<open>FindingType\<close>\<close>

datatype FindingType = VULNERABILITY | MISCONFIGURATION | WEAK_PROTOCOL | EXPOSED_SERVICE
  | DEFAULT_CREDENTIAL  | MISSING_PATCH | UNSUPPORTED_SOFTWARE | WEB_APPLICATION_ISSUE
  | CREDENTIALED_CONFIGURATION_ISSUE  | VALIDATED_EXPLOITABILITY | INFORMATIONAL

fun finding_type_value :: "FindingType \<Rightarrow> string" where
  "finding_type_value FindingType.VULNERABILITY = ''vulnerability''"
| "finding_type_value FindingType.MISCONFIGURATION = ''misconfiguration''"
| "finding_type_value FindingType.WEAK_PROTOCOL = ''weak_protocol''"
| "finding_type_value FindingType.EXPOSED_SERVICE = ''exposed_service''"
| "finding_type_value FindingType.DEFAULT_CREDENTIAL = ''default_credential''"
| "finding_type_value FindingType.MISSING_PATCH = ''missing_patch''"
| "finding_type_value FindingType.UNSUPPORTED_SOFTWARE = ''unsupported_software''"
| "finding_type_value FindingType.WEB_APPLICATION_ISSUE = ''web_application_issue''"
| "finding_type_value FindingType.CREDENTIALED_CONFIGURATION_ISSUE = ''credentialed_configuration_issue''"
| "finding_type_value FindingType.VALIDATED_EXPLOITABILITY = ''validated_exploitability''"
| "finding_type_value FindingType.INFORMATIONAL = ''informational''"

definition finding_type_members :: "FindingType list" where
  "finding_type_members =
     [FindingType.VULNERABILITY, FindingType.MISCONFIGURATION, FindingType.WEAK_PROTOCOL,
      FindingType.EXPOSED_SERVICE, FindingType.DEFAULT_CREDENTIAL,
      FindingType.MISSING_PATCH, FindingType.UNSUPPORTED_SOFTWARE,
      FindingType.WEB_APPLICATION_ISSUE, FindingType.CREDENTIALED_CONFIGURATION_ISSUE,
      FindingType.VALIDATED_EXPLOITABILITY, FindingType.INFORMATIONAL]"

interpretation finding_type: str_enum finding_type_value finding_type_members
proof unfold_locales
  fix x :: FindingType
  show "x \<in> set finding_type_members" by (cases x) (simp_all add: finding_type_members_def)
qed (simp add: finding_type_members_def)

subsection \<open>\<open>ValidationStatus\<close>\<close>

datatype ValidationStatus = UNVALIDATED | LIKELY | CONFIRMED_NON_EXPLOIT
  | CONFIRMED_EXPLOITABLE  | INCONCLUSIVE | NOT_APPLICABLE

fun validation_status_value :: "ValidationStatus \<Rightarrow> string" where
  "validation_status_value ValidationStatus.UNVALIDATED = ''unvalidated''"
| "validation_status_value ValidationStatus.LIKELY = ''likely''"
| "validation_status_value ValidationStatus.CONFIRMED_NON_EXPLOIT = ''confirmed_non_exploit''"
| "validation_status_value ValidationStatus.CONFIRMED_EXPLOITABLE = ''confirmed_exploitable''"
| "validation_status_value ValidationStatus.INCONCLUSIVE = ''inconclusive''"
| "validation_status_value ValidationStatus.NOT_APPLICABLE = ''not_applicable''"

definition validation_status_members :: "ValidationStatus list" where
  "validation_status_members =
     [ValidationStatus.UNVALIDATED, ValidationStatus.LIKELY,
      ValidationStatus.CONFIRMED_NON_EXPLOIT, ValidationStatus.CONFIRMED_EXPLOITABLE,
      ValidationStatus.INCONCLUSIVE, ValidationStatus.NOT_APPLICABLE]"

interpretation validation_status: str_enum validation_status_value validation_status_members
proof unfold_locales
  fix x :: ValidationStatus
  show "x \<in> set validation_status_members" by (cases x) (simp_all add: validation_status_members_def)
qed (simp add: validation_status_members_def)

subsection \<open>\<open>FindingStatus\<close>\<close>

datatype FindingStatus = NEW | TRIAGE | VALIDATED | ASSIGNED | REMEDIATION_IN_PROGRESS
  | READY_FOR_VERIFICATION  | RESOLVED | REOPENED | RISK_ACCEPTED | FALSE_POSITIVE
  | DUPLICATE  | SUPPRESSED

fun finding_status_value :: "FindingStatus \<Rightarrow> string" where
  "finding_status_value FindingStatus.NEW = ''new''"
| "finding_status_value FindingStatus.TRIAGE = ''triage''"
| "finding_status_value FindingStatus.VALIDATED = ''validated''"
| "finding_status_value FindingStatus.ASSIGNED = ''assigned''"
| "finding_status_value FindingStatus.REMEDIATION_IN_PROGRESS = ''remediation_in_progress''"
| "finding_status_value FindingStatus.READY_FOR_VERIFICATION = ''ready_for_verification''"
| "finding_status_value FindingStatus.RESOLVED = ''resolved''"
| "finding_status_value FindingStatus.REOPENED = ''reopened''"
| "finding_status_value FindingStatus.RISK_ACCEPTED = ''risk_accepted''"
| "finding_status_value FindingStatus.FALSE_POSITIVE = ''false_positive''"
| "finding_status_value FindingStatus.DUPLICATE = ''duplicate''"
| "finding_status_value FindingStatus.SUPPRESSED = ''suppressed''"

definition finding_status_members :: "FindingStatus list" where
  "finding_status_members =
     [FindingStatus.NEW, FindingStatus.TRIAGE, FindingStatus.VALIDATED,
      FindingStatus.ASSIGNED, FindingStatus.REMEDIATION_IN_PROGRESS,
      FindingStatus.READY_FOR_VERIFICATION, FindingStatus.RESOLVED, FindingStatus.REOPENED,
      FindingStatus.RISK_ACCEPTED, FindingStatus.FALSE_POSITIVE, FindingStatus.DUPLICATE,
      FindingStatus.SUPPRESSED]"

interpretation finding_status: str_enum finding_status_value finding_status_members
proof unfold_locales
  fix x :: FindingStatus
  show "x \<in> set finding_status_members" by (cases x) (simp_all add: finding_status_members_def)
qed (simp add: finding_status_members_def)

subsection \<open>\<open>CredentialProtocol\<close>\<close>

datatype CredentialProtocol = SSH | WINRM

fun credential_protocol_value :: "CredentialProtocol \<Rightarrow> string" where
  "credential_protocol_value CredentialProtocol.SSH = ''ssh''"
| "credential_protocol_value CredentialProtocol.WINRM = ''winrm''"

definition credential_protocol_members :: "CredentialProtocol list" where
  "credential_protocol_members =
     [CredentialProtocol.SSH, CredentialProtocol.WINRM]"

interpretation credential_protocol: str_enum credential_protocol_value credential_protocol_members
proof unfold_locales
  fix x :: CredentialProtocol
  show "x \<in> set credential_protocol_members" by (cases x) (simp_all add: credential_protocol_members_def)
qed (simp add: credential_protocol_members_def)

subsection \<open>\<open>SlaCalculationSource\<close>\<close>

datatype SlaCalculationSource = POLICY | SEVERITY_FALLBACK | EXCEPTION
  | RISK_ACCEPTANCE_RESUME

fun sla_calculation_source_value :: "SlaCalculationSource \<Rightarrow> string" where
  "sla_calculation_source_value SlaCalculationSource.POLICY = ''policy''"
| "sla_calculation_source_value SlaCalculationSource.SEVERITY_FALLBACK = ''severity_fallback''"
| "sla_calculation_source_value SlaCalculationSource.EXCEPTION = ''exception''"
| "sla_calculation_source_value SlaCalculationSource.RISK_ACCEPTANCE_RESUME = ''risk_acceptance_resume''"

definition sla_calculation_source_members :: "SlaCalculationSource list" where
  "sla_calculation_source_members =
     [SlaCalculationSource.POLICY, SlaCalculationSource.SEVERITY_FALLBACK,
      SlaCalculationSource.EXCEPTION, SlaCalculationSource.RISK_ACCEPTANCE_RESUME]"

interpretation sla_calculation_source: str_enum sla_calculation_source_value sla_calculation_source_members
proof unfold_locales
  fix x :: SlaCalculationSource
  show "x \<in> set sla_calculation_source_members" by (cases x) (simp_all add: sla_calculation_source_members_def)
qed (simp add: sla_calculation_source_members_def)

subsection \<open>\<open>SlaExceptionStatus\<close>\<close>

datatype SlaExceptionStatus = PENDING | APPROVED | REJECTED | CANCELLED

fun sla_exception_status_value :: "SlaExceptionStatus \<Rightarrow> string" where
  "sla_exception_status_value SlaExceptionStatus.PENDING = ''pending''"
| "sla_exception_status_value SlaExceptionStatus.APPROVED = ''approved''"
| "sla_exception_status_value SlaExceptionStatus.REJECTED = ''rejected''"
| "sla_exception_status_value SlaExceptionStatus.CANCELLED = ''cancelled''"

definition sla_exception_status_members :: "SlaExceptionStatus list" where
  "sla_exception_status_members =
     [SlaExceptionStatus.PENDING, SlaExceptionStatus.APPROVED, SlaExceptionStatus.REJECTED,
      SlaExceptionStatus.CANCELLED]"

interpretation sla_exception_status: str_enum sla_exception_status_value sla_exception_status_members
proof unfold_locales
  fix x :: SlaExceptionStatus
  show "x \<in> set sla_exception_status_members" by (cases x) (simp_all add: sla_exception_status_members_def)
qed (simp add: sla_exception_status_members_def)

subsection \<open>\<open>SlaHistoryEvent\<close>\<close>

datatype SlaHistoryEvent = CALCULATED | EXCEPTION_REQUESTED | EXCEPTION_APPROVED
  | EXCEPTION_REJECTED  | PAUSED | RESUMED | BREACHED | COMPLETED

fun sla_history_event_value :: "SlaHistoryEvent \<Rightarrow> string" where
  "sla_history_event_value SlaHistoryEvent.CALCULATED = ''calculated''"
| "sla_history_event_value SlaHistoryEvent.EXCEPTION_REQUESTED = ''exception_requested''"
| "sla_history_event_value SlaHistoryEvent.EXCEPTION_APPROVED = ''exception_approved''"
| "sla_history_event_value SlaHistoryEvent.EXCEPTION_REJECTED = ''exception_rejected''"
| "sla_history_event_value SlaHistoryEvent.PAUSED = ''paused''"
| "sla_history_event_value SlaHistoryEvent.RESUMED = ''resumed''"
| "sla_history_event_value SlaHistoryEvent.BREACHED = ''breached''"
| "sla_history_event_value SlaHistoryEvent.COMPLETED = ''completed''"

definition sla_history_event_members :: "SlaHistoryEvent list" where
  "sla_history_event_members =
     [SlaHistoryEvent.CALCULATED, SlaHistoryEvent.EXCEPTION_REQUESTED,
      SlaHistoryEvent.EXCEPTION_APPROVED, SlaHistoryEvent.EXCEPTION_REJECTED,
      SlaHistoryEvent.PAUSED, SlaHistoryEvent.RESUMED, SlaHistoryEvent.BREACHED,
      SlaHistoryEvent.COMPLETED]"

interpretation sla_history_event: str_enum sla_history_event_value sla_history_event_members
proof unfold_locales
  fix x :: SlaHistoryEvent
  show "x \<in> set sla_history_event_members" by (cases x) (simp_all add: sla_history_event_members_def)
qed (simp add: sla_history_event_members_def)

subsection \<open>\<open>RelayStatus\<close>\<close>

datatype RelayStatus = PENDING_ENROLLMENT | ENROLLED | KILLED | REVOKED

fun relay_status_value :: "RelayStatus \<Rightarrow> string" where
  "relay_status_value RelayStatus.PENDING_ENROLLMENT = ''pending_enrollment''"
| "relay_status_value RelayStatus.ENROLLED = ''enrolled''"
| "relay_status_value RelayStatus.KILLED = ''killed''"
| "relay_status_value RelayStatus.REVOKED = ''revoked''"

definition relay_status_members :: "RelayStatus list" where
  "relay_status_members =
     [RelayStatus.PENDING_ENROLLMENT, RelayStatus.ENROLLED, RelayStatus.KILLED,
      RelayStatus.REVOKED]"

interpretation relay_status: str_enum relay_status_value relay_status_members
proof unfold_locales
  fix x :: RelayStatus
  show "x \<in> set relay_status_members" by (cases x) (simp_all add: relay_status_members_def)
qed (simp add: relay_status_members_def)

end
