(* ===== verification/Workflow.thy ===== *)
theory Workflow
  imports Enums
begin

text \<open>
  The full-spectrum workflow engine, \<^verbatim>\<open>app/services/workflow.py\<close>: eleven ordered stages, of which
  the web, planning and intrusive ones are conditional, one pauses for an approval, and the tail
  (cleanup, verification, reporting) runs whatever happens before it.

  A run is the row \<open>WorkflowRun\<close>; \<open>stages_json\<close> is the list of stage dictionaries, each a record
  whose \<open>status\<close> is the member whose \<open>.value\<close> the code stores.  Stored timestamps are instants
  (the code stores their ISO text).  A stage is looked up by name and mutated in place, so
  \<open>set_stage\<close> writes the first entry with that name and \<open>set_current\<close> the first active entry.
  \<open>WorkflowError\<close> is a \<open>ValueError\<close>; \<open>STAGE_ORDER.index\<close> of an unknown name raises a plain one.
\<close>

record wf_stage =
  st_name :: string
  st_status :: WorkflowStageStatus
  st_detail :: "string option"
  st_started_at :: "time option"
  st_ended_at :: "time option"

record workflow_run =
  wr_id :: uuid
  wr_organization_id :: uuid
  wr_site_id :: uuid
  wr_network_id :: "uuid option"
  wr_scan_job_id :: "uuid option"
  wr_status :: WorkflowRunStatus
  include_web :: bool
  include_intrusive :: bool
  intrusive_approved :: bool
  stages_json :: "wf_stage list"
  wr_created_by :: "uuid option"

datatype wf_error = WorkflowError string | StageIndexError

definition STAGE_ORDER :: "string list" where
  "STAGE_ORDER =
     [''authorization_precheck'', ''discovery'', ''vulnerability_assessment'', ''web_and_tls'',
      ''candidate_validation_plan'', ''approval_gate'', ''allowlisted_validation'',
      ''evidence_collection'', ''cleanup'', ''verification_scan'', ''reporting'']"

definition APPROVAL_GATE :: string where
  "APPROVAL_GATE = ''approval_gate''"

definition TAIL :: "string list" where
  "TAIL = [''cleanup'', ''verification_scan'', ''reporting'']"

subsection \<open>Operations\<close>

definition applicable :: "string \<Rightarrow> workflow_run \<Rightarrow> bool" where
  "applicable name run =
     (if name = ''web_and_tls'' then include_web run
      else if name \<in> set [''candidate_validation_plan'', ''approval_gate'']
      then include_intrusive run
      else if name \<in> set [''allowlisted_validation'', ''evidence_collection'', ''cleanup'']
      then include_intrusive run \<and> intrusive_approved run
      else True)"

definition stage_of :: "workflow_run \<Rightarrow> string \<Rightarrow> wf_error + wf_stage" where
  "stage_of run name =
     (case find (\<lambda>s. st_name s = name) (stages_json run) of
        Some s \<Rightarrow> Inr s
      | None \<Rightarrow> Inl (WorkflowError (''unknown stage '' @ quoted name)))"

definition set_stage :: "string \<Rightarrow> (wf_stage \<Rightarrow> wf_stage) \<Rightarrow> workflow_run \<Rightarrow> workflow_run" where
  "set_stage name f run =
     run\<lparr>stages_json := update_first (\<lambda>s. st_name s = name) f (stages_json run)\<rparr>"

definition is_current :: "wf_stage \<Rightarrow> bool" where
  "is_current s \<longleftrightarrow>
     st_status s \<in> set [WorkflowStageStatus.RUNNING, WorkflowStageStatus.AWAITING_APPROVAL]"

definition current_stage :: "workflow_run \<Rightarrow> wf_stage option" where
  "current_stage run = find is_current (stages_json run)"

definition set_current :: "(wf_stage \<Rightarrow> wf_stage) \<Rightarrow> workflow_run \<Rightarrow> workflow_run" where
  "set_current f run = run\<lparr>stages_json := update_first is_current f (stages_json run)\<rparr>"

definition current_stage_name :: "workflow_run \<Rightarrow> string option" where
  "current_stage_name run = map_option st_name (current_stage run)"

definition has_failure :: "workflow_run \<Rightarrow> bool" where
  "has_failure run \<longleftrightarrow> list_ex (\<lambda>s. st_status s = WorkflowStageStatus.FAILED) (stages_json run)"

definition finalize :: "workflow_run \<Rightarrow> workflow_run" where
  "finalize run =
     run\<lparr>wr_status := (if has_failure run then WorkflowRunStatus.FAILED
                      else WorkflowRunStatus.COMPLETED)\<rparr>"

text \<open>The loop of \<open>_activate_next\<close> over the stage names after \<open>from_index\<close>.\<close>

fun activate_from :: "string list \<Rightarrow> workflow_run \<Rightarrow> time \<Rightarrow> wf_error + workflow_run" where
  "activate_from [] run now = Inr (finalize run)"
| "activate_from (name # names) run now =
     res_bind (stage_of run name) (\<lambda>stage.
       if st_status stage \<notin> set [WorkflowStageStatus.PENDING, WorkflowStageStatus.RUNNING]
       then activate_from names run now
       else if \<not> applicable (st_name stage) run
       then activate_from names
              (set_stage name (\<lambda>s. s\<lparr>st_status := WorkflowStageStatus.SKIPPED\<rparr>) run) now
       else if st_name stage = APPROVAL_GATE
       then Inr ((set_stage name (\<lambda>s. s\<lparr>st_status := WorkflowStageStatus.AWAITING_APPROVAL,
                                        st_started_at := Some now\<rparr>) run)
                   \<lparr>wr_status := WorkflowRunStatus.AWAITING_APPROVAL\<rparr>)
       else Inr ((set_stage name (\<lambda>s. s\<lparr>st_status := WorkflowStageStatus.RUNNING,
                                        st_started_at := Some now\<rparr>) run)
                   \<lparr>wr_status := WorkflowRunStatus.RUNNING\<rparr>))"

definition activate_next :: "workflow_run \<Rightarrow> int \<Rightarrow> time \<Rightarrow> wf_error + workflow_run" where
  "activate_next run from_index now = activate_from (drop (nat (from_index + 1)) STAGE_ORDER) run now"

definition create_run :: "bool \<Rightarrow> bool \<Rightarrow> wf_stage list" where
  "create_run web intrusive =
     map (\<lambda>name. \<lparr>st_name = name, st_status = WorkflowStageStatus.PENDING, st_detail = None,
                  st_started_at = None, st_ended_at = None\<rparr>) STAGE_ORDER"

definition start :: "workflow_run \<Rightarrow> time \<Rightarrow> wf_error + workflow_run" where
  "start run now = activate_next run (-1) now"

text \<open>\<open>list.index\<close>, which raises when the name is absent.\<close>

definition stage_index :: "string \<Rightarrow> wf_error + nat" where
  "stage_index name =
     (if name \<in> set STAGE_ORDER then Inr (length (takeWhile (\<lambda>n. n \<noteq> name) STAGE_ORDER))
      else Inl StageIndexError)"

text \<open>After a failure, every later pending stage outside the tail is skipped.\<close>

fun skip_non_tail :: "string list \<Rightarrow> workflow_run \<Rightarrow> wf_error + workflow_run" where
  "skip_non_tail [] run = Inr run"
| "skip_non_tail (name # names) run =
     (if name \<in> set TAIL then skip_non_tail names run
      else res_bind (stage_of run name) (\<lambda>s.
        skip_non_tail names
          (if st_status s = WorkflowStageStatus.PENDING
           then set_stage name (\<lambda>t. t\<lparr>st_status := WorkflowStageStatus.SKIPPED\<rparr>) run
           else run)))"

definition advance ::
  "workflow_run \<Rightarrow> WorkflowStageStatus \<Rightarrow> string option \<Rightarrow> time \<Rightarrow> wf_error + workflow_run" where
  "advance run outcome detail now =
     (case current_stage run of
        None \<Rightarrow> Inl (WorkflowError ''no active stage to advance'')
      | Some current \<Rightarrow>
          if st_name current = APPROVAL_GATE
          then Inl (WorkflowError ''approval gate must be decided, not advanced'')
          else if outcome \<notin> set [WorkflowStageStatus.COMPLETED, WorkflowStageStatus.FAILED]
          then Inl (WorkflowError ''advance outcome must be completed or failed'')
          else
            let run1 = set_current (\<lambda>s. s\<lparr>st_status := outcome, st_detail := detail,
                                          st_ended_at := Some now\<rparr>) run
            in res_bind (stage_index (st_name current)) (\<lambda>i.
                 res_bind (if outcome = WorkflowStageStatus.FAILED
                           then skip_non_tail (drop (i + 1) STAGE_ORDER) run1
                           else Inr run1)
                   (\<lambda>run2. activate_next run2 (int i) now)))"

definition SCAN_STAGES :: "string list" where
  "SCAN_STAGES = [''discovery'', ''vulnerability_assessment'', ''web_and_tls'']"

definition scanning_stage_active :: "workflow_run \<Rightarrow> bool" where
  "scanning_stage_active run =
     (case current_stage_name run of None \<Rightarrow> False | Some n \<Rightarrow> n \<in> set SCAN_STAGES)"

definition fail_scanning ::
  "workflow_run \<Rightarrow> string option \<Rightarrow> time \<Rightarrow> wf_error + workflow_run" where
  "fail_scanning run detail now =
     (if scanning_stage_active run then advance run WorkflowStageStatus.FAILED detail now
      else Inr run)"

definition decide_intrusive :: "workflow_run \<Rightarrow> bool \<Rightarrow> time \<Rightarrow> wf_error + workflow_run" where
  "decide_intrusive run approve now =
     res_bind (stage_of run APPROVAL_GATE) (\<lambda>gate.
       if st_status gate \<noteq> WorkflowStageStatus.AWAITING_APPROVAL
       then Inl (WorkflowError ''run is not awaiting approval'')
       else
         let run1 = (set_stage APPROVAL_GATE
                       (\<lambda>s. s\<lparr>st_ended_at := Some now,
                              st_status := (if approve then WorkflowStageStatus.COMPLETED
                                            else WorkflowStageStatus.DENIED)\<rparr>) run)
                     \<lparr>intrusive_approved := approve\<rparr>
         in res_bind (stage_index APPROVAL_GATE) (\<lambda>i. activate_next run1 (int i) now))"


subsection \<open>Runs seen by position\<close>

text \<open>
  The lemmas below speak of the stage at a position of \<open>STAGE_ORDER\<close>; a run is well formed when
  its stage list has exactly those names in that order, which \<open>create_run\<close> establishes and no
  operation changes.
\<close>

named_theorems wf_defs

definition wf_run :: "workflow_run \<Rightarrow> bool" where
  "wf_run r \<longleftrightarrow> map st_name (stages_json r) = STAGE_ORDER"

abbreviation status_at :: "workflow_run \<Rightarrow> nat \<Rightarrow> WorkflowStageStatus" where
  "status_at r i \<equiv> st_status (stages_json r ! i)"

lemma length_STAGE_ORDER [simp]: "length STAGE_ORDER = 11"
  by (simp add: STAGE_ORDER_def)

lemma distinct_STAGE_ORDER [simp]: "distinct STAGE_ORDER"
  by (simp add: STAGE_ORDER_def)

lemma less_11E:
  assumes "(i::nat) < 11"
  obtains "i = 0" | "i = 1" | "i = 2" | "i = 3" | "i = 4" | "i = 5" | "i = 6" | "i = 7" | "i = 8"
    | "i = 9" | "i = 10"
proof -
  have "i = 0 \<or> i = 1 \<or> i = 2 \<or> i = 3 \<or> i = 4 \<or> i = 5 \<or> i = 6 \<or> i = 7 \<or> i = 8 \<or> i = 9 \<or> i = 10"
    using assms by presburger
  then show ?thesis using that by blast
qed

lemma wf_run_length: "wf_run r \<Longrightarrow> length (stages_json r) = 11"
  by (metis wf_run_def length_map length_STAGE_ORDER)

lemma wf_run_name: "wf_run r \<Longrightarrow> i < 11 \<Longrightarrow> st_name (stages_json r ! i) = STAGE_ORDER ! i"
  by (metis wf_run_def wf_run_length nth_map)

lemma wf_run_name_inj:
  "wf_run r \<Longrightarrow> i < 11 \<Longrightarrow> j < 11 \<Longrightarrow> st_name (stages_json r ! j) = STAGE_ORDER ! i \<longleftrightarrow> j = i"
  by (simp add: wf_run_name nth_eq_iff_index_eq)

lemma stage_of_nth:
  assumes "wf_run r" and "i < 11"
  shows "stage_of r (STAGE_ORDER ! i) = Inr (stages_json r ! i)"
proof -
  have "find (\<lambda>s. st_name s = STAGE_ORDER ! i) (stages_json r) = Some (stages_json r ! i)"
    using assms by (intro find_nth) (auto simp: wf_run_length wf_run_name_inj)
  then show ?thesis by (simp add: stage_of_def)
qed

lemma set_stage_nth:
  assumes "wf_run r" and "i < 11"
  shows "set_stage (STAGE_ORDER ! i) f r =
    r\<lparr>stages_json := (stages_json r)[i := f (stages_json r ! i)]\<rparr>"
  using assms unfolding set_stage_def
  by (subst update_first_nth[where i = i]) (auto simp: wf_run_length wf_run_name_inj)

lemma wf_run_update:
  assumes "wf_run r" and "\<And>s. st_name (f s) = st_name s"
  shows "wf_run (r\<lparr>stages_json := (stages_json r)[i := f (stages_json r ! i)]\<rparr>)"
  using assms by (simp add: wf_run_def map_update) (metis list_update_id map_update)

lemma stage_index_nth: "i < 11 \<Longrightarrow> stage_index (STAGE_ORDER ! i) = Inr i"
  by (erule less_11E; simp add: stage_index_def STAGE_ORDER_def)

lemma drop_STAGE_ORDER: "i < 11 \<Longrightarrow> drop i STAGE_ORDER = STAGE_ORDER ! i # drop (Suc i) STAGE_ORDER"
  by (simp add: Cons_nth_drop_Suc)

lemma wf_run_simps [simp]:
  "wf_run (r\<lparr>wr_status := x\<rparr>) = wf_run r"
  "wf_run (r\<lparr>intrusive_approved := b\<rparr>) = wf_run r"
  "wf_run (finalize r) = wf_run r"
  by (simp_all add: wf_run_def finalize_def)

subsection \<open>The engine invariant\<close>

text \<open>
  \<open>settled r i\<close>: stage \<open>i\<close> is over, the always-run stages really ran, and an intrusive stage ran
  only under an approval.  \<open>waiting r i\<close>: stage \<open>i\<close> has not been reached; outside the tail it may
  have been skipped already by a failure.
\<close>

definition ran :: "workflow_run \<Rightarrow> nat \<Rightarrow> bool" where
  "ran r i \<longleftrightarrow>
     status_at r i = WorkflowStageStatus.COMPLETED \<or> status_at r i = WorkflowStageStatus.FAILED"

definition cleared :: "workflow_run \<Rightarrow> bool" where
  "cleared r \<longleftrightarrow> include_intrusive r \<and> intrusive_approved r"

definition settled :: "workflow_run \<Rightarrow> nat \<Rightarrow> bool" where
  "settled r i \<longleftrightarrow>
     (ran r i \<or> status_at r i = WorkflowStageStatus.SKIPPED
        \<or> status_at r i = WorkflowStageStatus.DENIED) \<and>
     (9 \<le> i \<longrightarrow> ran r i) \<and>
     (8 \<le> i \<longrightarrow> cleared r \<longrightarrow> ran r i) \<and>
     (6 \<le> i \<longrightarrow> i \<le> 8 \<longrightarrow> ran r i \<longrightarrow> cleared r)"

definition waiting :: "workflow_run \<Rightarrow> nat \<Rightarrow> bool" where
  "waiting r i \<longleftrightarrow> status_at r i = WorkflowStageStatus.PENDING \<or>
     (i < 8 \<and> status_at r i = WorkflowStageStatus.SKIPPED)"

definition at_boundary :: "workflow_run \<Rightarrow> nat \<Rightarrow> bool" where
  "at_boundary r j \<longleftrightarrow> wf_run r \<and> (\<forall>i<j. settled r i) \<and> (\<forall>i. j \<le> i \<longrightarrow> i < 11 \<longrightarrow> waiting r i)
     \<and> (j \<le> 5 \<longrightarrow> \<not> intrusive_approved r)"

definition active_at :: "workflow_run \<Rightarrow> nat \<Rightarrow> bool" where
  "active_at r k \<longleftrightarrow> wf_run r \<and> k < 11 \<and> (\<forall>i<k. settled r i) \<and>
     (\<forall>i. k < i \<longrightarrow> i < 11 \<longrightarrow> waiting r i) \<and>
     (k \<le> 5 \<longrightarrow> \<not> intrusive_approved r) \<and> (6 \<le> k \<longrightarrow> k \<le> 8 \<longrightarrow> cleared r) \<and>
     (if k = 5
      then status_at r k = WorkflowStageStatus.AWAITING_APPROVAL
           \<and> wr_status r = WorkflowRunStatus.AWAITING_APPROVAL
      else status_at r k = WorkflowStageStatus.RUNNING \<and> wr_status r = WorkflowRunStatus.RUNNING)"

definition finished :: "workflow_run \<Rightarrow> bool" where
  "finished r \<longleftrightarrow> wf_run r \<and> (\<forall>i<11. settled r i) \<and>
     wr_status r = (if \<exists>i<11. status_at r i = WorkflowStageStatus.FAILED
                    then WorkflowRunStatus.FAILED else WorkflowRunStatus.COMPLETED)"

definition same_plan :: "workflow_run \<Rightarrow> workflow_run \<Rightarrow> bool" where
  "same_plan r s \<longleftrightarrow> include_web s = include_web r \<and> include_intrusive s = include_intrusive r \<and>
     intrusive_approved s = intrusive_approved r"

lemmas [wf_defs] = settled_def waiting_def ran_def cleared_def

lemma gate_name [simp]: "STAGE_ORDER ! 5 = APPROVAL_GATE"
  by (simp add: STAGE_ORDER_def APPROVAL_GATE_def)

lemma gate_iff: "i < 11 \<Longrightarrow> STAGE_ORDER ! i = APPROVAL_GATE \<longleftrightarrow> i = 5"
  using nth_eq_iff_index_eq [of STAGE_ORDER i 5] by simp

lemma tail_iff: "i < 11 \<Longrightarrow> STAGE_ORDER ! i \<in> set TAIL \<longleftrightarrow> 8 \<le> i"
  by (erule less_11E; simp add: STAGE_ORDER_def TAIL_def)

lemma applicable_nth:
  "i < 11 \<Longrightarrow> applicable (STAGE_ORDER ! i) r \<longleftrightarrow>
     (if i = 3 then include_web r
      else if i = 4 \<or> i = 5 then include_intrusive r
      else if 6 \<le> i \<and> i \<le> 8 then cleared r else True)"
  by (erule less_11E; simp add: STAGE_ORDER_def applicable_def cleared_def)

lemma has_failure_iff:
  "wf_run r \<Longrightarrow> has_failure r \<longleftrightarrow> (\<exists>i<11. status_at r i = WorkflowStageStatus.FAILED)"
  unfolding has_failure_def list_ex_iff by (metis in_set_conv_nth wf_run_length)

text \<open>Replacing the status of one stage, by position.\<close>

definition with_stage :: "workflow_run \<Rightarrow> nat \<Rightarrow> (wf_stage \<Rightarrow> wf_stage) \<Rightarrow> workflow_run" where
  "with_stage r i f = r\<lparr>stages_json := (stages_json r)[i := f (stages_json r ! i)]\<rparr>"

lemma with_stage_simps [simp]:
  "include_web (with_stage r i f) = include_web r"
  "include_intrusive (with_stage r i f) = include_intrusive r"
  "intrusive_approved (with_stage r i f) = intrusive_approved r"
  "wr_status (with_stage r i f) = wr_status r"
  by (simp_all add: with_stage_def)

lemma status_with_stage:
  "wf_run r \<Longrightarrow> i < 11 \<Longrightarrow> j < 11 \<Longrightarrow>
     status_at (with_stage r i f) j = (if j = i then st_status (f (stages_json r ! i)) else status_at r j)"
  by (simp add: with_stage_def wf_run_length)

lemma wf_with_stage: "wf_run r \<Longrightarrow> (\<And>s. st_name (f s) = st_name s) \<Longrightarrow> wf_run (with_stage r i f)"
  unfolding with_stage_def by (rule wf_run_update)

lemma set_stage_at: "wf_run r \<Longrightarrow> i < 11 \<Longrightarrow> set_stage (STAGE_ORDER ! i) f r = with_stage r i f"
  by (simp add: set_stage_nth with_stage_def)

text \<open>
  The positional predicates depend on the run only through the statuses and the two intrusive
  flags, so they carry over to any run that agrees on those.
\<close>

lemma settled_cong:
  "status_at s i = status_at r i \<Longrightarrow> cleared s = cleared r \<Longrightarrow> settled s i = settled r i"
  by (simp add: settled_def ran_def)

lemma waiting_cong: "status_at s i = status_at r i \<Longrightarrow> waiting s i = waiting r i"
  by (simp add: waiting_def)

lemma at_boundary_skip:
  assumes b: "at_boundary r j" and j: "j < 11" and na: "\<not> applicable (STAGE_ORDER ! j) r"
  shows "at_boundary (with_stage r j (\<lambda>s. s\<lparr>st_status := WorkflowStageStatus.SKIPPED\<rparr>)) (Suc j)"
    (is "at_boundary ?s _")
proof -
  from b have wf: "wf_run r" by (simp add: at_boundary_def)
  have st: "status_at ?s i = (if i = j then WorkflowStageStatus.SKIPPED else status_at r i)"
    if "i < 11" for i using that wf j by (simp add: status_with_stage)
  have cl: "cleared ?s = cleared r" by (simp add: cleared_def)
  have "settled ?s i" if "i < Suc j" for i
  proof (cases "i = j")
    case True
    from na j have "j < 9" and "8 \<le> j \<Longrightarrow> \<not> cleared r" by (auto simp: applicable_nth split: if_splits)
    with True j show ?thesis by (auto simp: settled_def ran_def st cl)
  next
    case False
    with that j b show ?thesis by (auto simp: at_boundary_def settled_cong [of ?s i r] st cl)
  qed
  moreover have "waiting ?s i" if "Suc j \<le> i" "i < 11" for i
    using that b by (auto simp: at_boundary_def waiting_cong [of ?s i r] st)
  ultimately show ?thesis
    using b wf by (auto simp: at_boundary_def wf_with_stage)
qed

lemma at_boundary_pass:
  assumes b: "at_boundary r j" and j: "j < 11" and sk: "status_at r j = WorkflowStageStatus.SKIPPED"
  shows "at_boundary r (Suc j)"
proof -
  have "j < 8" using b j sk by (auto simp: at_boundary_def waiting_def)
  then have "settled r j" using sk by (simp add: settled_def ran_def)
  with b show ?thesis by (auto simp: at_boundary_def less_Suc_eq)
qed

lemma at_boundary_start:
  assumes b: "at_boundary r j" and j: "j < 11" and ap: "applicable (STAGE_ORDER ! j) r"
    and f: "f = (\<lambda>s. s\<lparr>st_status := v, st_started_at := Some now\<rparr>)"
    and v: "(v, w) = (if j = 5 then (WorkflowStageStatus.AWAITING_APPROVAL, WorkflowRunStatus.AWAITING_APPROVAL)
                  else (WorkflowStageStatus.RUNNING, WorkflowRunStatus.RUNNING))"
  shows "active_at ((with_stage r j f)\<lparr>wr_status := w\<rparr>) j" (is "active_at ?s j")
proof -
  from b have wf: "wf_run r" by (simp add: at_boundary_def)
  have st: "status_at ?s i = (if i = j then v else status_at r i)" if "i < 11" for i
    using that wf j status_with_stage [OF wf j that, of f] by (simp add: f)
  have cl: "cleared ?s = cleared r" by (simp add: cleared_def)
  have "settled ?s i" if "i < j" for i
    using that j b settled_cong [of ?s i r] st [of i] cl by (simp add: at_boundary_def)
  moreover have "waiting ?s i" if "j < i" "i < 11" for i
    using that b waiting_cong [of ?s i r] st [of i] by (simp add: at_boundary_def)
  moreover have "6 \<le> j \<Longrightarrow> j \<le> 8 \<Longrightarrow> cleared ?s"
    using ap j by (simp add: applicable_nth cl)
  moreover have "wf_run ?s" using wf by (simp add: f wf_with_stage)
  ultimately show ?thesis
    using b j v st [OF j] by (auto simp: active_at_def at_boundary_def split: if_splits)
qed

lemma at_boundary_end:
  assumes "at_boundary r 11"
  shows "finished (finalize r)"
proof -
  have st: "status_at (finalize r) i = status_at r i" for i by (simp add: finalize_def)
  have "cleared (finalize r) = cleared r" by (simp add: cleared_def finalize_def)
  then show ?thesis
    using assms has_failure_iff [of r]
    by (auto simp: finished_def at_boundary_def settled_cong [of "finalize r" _ r] st)
      (auto simp: finalize_def)
qed

subsection \<open>Every operation keeps the invariant\<close>

definition progressed :: "workflow_run \<Rightarrow> nat \<Rightarrow> bool" where
  "progressed r j \<longleftrightarrow> finished r \<or> (\<exists>k \<ge> j. active_at r k)"

lemma progressed_skip: "progressed r (Suc j) \<Longrightarrow> progressed r j"
  by (auto simp: progressed_def intro: Suc_leD)

lemma activate_from_boundary:
  "at_boundary r j \<Longrightarrow> j \<le> 11 \<Longrightarrow>
     \<exists>s. activate_from (drop j STAGE_ORDER) r now = Inr s \<and> progressed s j \<and> same_plan r s"
proof (induction "11 - j" arbitrary: j r)
  case 0
  then have "j = 11" by simp
  with 0 have "finished (finalize r)" by (simp add: at_boundary_end)
  then show ?case using \<open>j = 11\<close> by (simp add: progressed_def same_plan_def finalize_def)
next
  case (Suc d)
  then have j: "j < 11" and d: "d = 11 - Suc j" by auto
  from Suc.prems have wf: "wf_run r" and w: "waiting r j" using j by (auto simp: at_boundary_def)
  let ?n = "STAGE_ORDER ! j"
  have unfold: "activate_from (drop j STAGE_ORDER) r now =
      activate_from (?n # drop (Suc j) STAGE_ORDER) r now"
    using drop_STAGE_ORDER [OF j] by simp
  note eqs = unfold stage_of_nth [OF wf j] wf_run_name [OF wf j] set_stage_at [OF wf j]
  consider (skipped) "status_at r j = WorkflowStageStatus.SKIPPED"
    | (inapplicable) "status_at r j = WorkflowStageStatus.PENDING" "\<not> applicable ?n r"
    | (runs) "status_at r j = WorkflowStageStatus.PENDING" "applicable ?n r"
    using w by (auto simp: waiting_def)
  then show ?case
  proof cases
    case skipped
    from at_boundary_pass [OF Suc.prems(1) j skipped]
    obtain s where "activate_from (drop (Suc j) STAGE_ORDER) r now = Inr s"
      "progressed s (Suc j)" "same_plan r s"
      using Suc.hyps(1) [OF d, of r] j by auto
    then show ?thesis using skipped by (auto simp: eqs intro: progressed_skip)
  next
    case inapplicable
    let ?r = "with_stage r j (\<lambda>s. s\<lparr>st_status := WorkflowStageStatus.SKIPPED\<rparr>)"
    from at_boundary_skip [OF Suc.prems(1) j inapplicable(2)]
    obtain s where "activate_from (drop (Suc j) STAGE_ORDER) ?r now = Inr s"
      "progressed s (Suc j)" "same_plan ?r s"
      using Suc.hyps(1) [OF d, of ?r] j by auto
    then show ?thesis using inapplicable
      by (auto simp: eqs same_plan_def intro: progressed_skip)
  next
    case runs
    define v w and f :: "wf_stage \<Rightarrow> wf_stage" where
      "v = (if j = 5 then WorkflowStageStatus.AWAITING_APPROVAL else WorkflowStageStatus.RUNNING)"
      and "w = (if j = 5 then WorkflowRunStatus.AWAITING_APPROVAL else WorkflowRunStatus.RUNNING)"
      and "f = (\<lambda>s. s\<lparr>st_status := v, st_started_at := Some now\<rparr>)"
    have "active_at ((with_stage r j f)\<lparr>wr_status := w\<rparr>) j"
      by (rule at_boundary_start [OF Suc.prems(1) j runs(2) f_def]) (simp add: v_def w_def)
    moreover have "activate_from (drop j STAGE_ORDER) r now = Inr ((with_stage r j f)\<lparr>wr_status := w\<rparr>)"
      using runs set_stage_at [OF wf, of 5] by (simp add: eqs gate_iff [OF j] v_def w_def f_def)
    ultimately show ?thesis by (auto simp: progressed_def same_plan_def)
  qed
qed

lemma at_boundary_initial:
  assumes "stages_json r = create_run w i" and "\<not> intrusive_approved r"
  shows "at_boundary r 0"
proof -
  have "wf_run r" using assms by (simp add: wf_run_def create_run_def comp_def)
  moreover have "status_at r k = WorkflowStageStatus.PENDING" if "k < 11" for k
    using assms that by (simp add: create_run_def)
  ultimately show ?thesis using assms by (simp add: at_boundary_def waiting_def)
qed

lemma start_ok:
  assumes "stages_json r = create_run w i" and "\<not> intrusive_approved r"
  shows "\<exists>s. start r now = Inr s \<and> progressed s 0 \<and> same_plan r s"
  using activate_from_boundary [OF at_boundary_initial [OF assms], of now]
  by (simp add: start_def activate_next_def)

lemma skip_non_tail_boundary:
  "at_boundary r b \<Longrightarrow> b \<le> j \<Longrightarrow> j \<le> 11 \<Longrightarrow>
     \<exists>s. skip_non_tail (drop j STAGE_ORDER) r = Inr s \<and> at_boundary s b \<and> same_plan r s \<and>
       (\<forall>i<j. status_at s i = status_at r i) \<and>
       (\<forall>i. j \<le> i \<longrightarrow> i < 8 \<longrightarrow> status_at s i \<noteq> WorkflowStageStatus.PENDING)"
proof (induction "11 - j" arbitrary: j r)
  case 0
  then have "j = 11" by simp
  with 0 show ?case by (simp add: same_plan_def)
next
  case (Suc d)
  then have j: "j < 11" and d: "d = 11 - Suc j" and wf: "wf_run r" by (auto simp: at_boundary_def)
  define s where "s = (if j < 8 \<and> status_at r j = WorkflowStageStatus.PENDING
    then with_stage r j (\<lambda>t. t\<lparr>st_status := WorkflowStageStatus.SKIPPED\<rparr>) else r)"
  have st: "status_at s i = (if i = j \<and> j < 8 \<and> status_at r j = WorkflowStageStatus.PENDING
      then WorkflowStageStatus.SKIPPED else status_at r i)" if "i < 11" for i
    using that wf j by (simp add: s_def status_with_stage)
  have plan: "same_plan r s" by (simp add: s_def same_plan_def)
  have "cleared s = cleared r" and "wf_run s"
    using plan wf by (simp_all add: same_plan_def cleared_def s_def wf_with_stage)
  moreover have "settled s i = settled r i" if "i < b" for i
    using settled_cong [of s i r] st [of i] that Suc.prems j calculation by simp
  moreover have "waiting s i" if "b \<le> i" "i < 11" for i
    using st [of i] that Suc.prems by (auto simp: at_boundary_def waiting_def)
  ultimately have "at_boundary s b"
    using Suc.prems plan by (auto simp: at_boundary_def same_plan_def)
  then obtain u where u: "skip_non_tail (drop (Suc j) STAGE_ORDER) s = Inr u" "at_boundary u b" "same_plan s u"
    and below: "\<And>i. i < Suc j \<Longrightarrow> status_at u i = status_at s i"
    and above: "\<And>i. Suc j \<le> i \<Longrightarrow> i < 8 \<Longrightarrow> status_at u i \<noteq> WorkflowStageStatus.PENDING"
    using Suc.hyps(1) [OF d, of s] Suc.prems j by auto
  have later: "status_at u i \<noteq> WorkflowStageStatus.PENDING" if "j \<le> i" "i < 8" for i
    using that above [of i] below [of j] st [of j] j by (cases "i = j") auto
  have "skip_non_tail (drop j STAGE_ORDER) r = skip_non_tail (drop (Suc j) STAGE_ORDER) s"
    using j wf stage_of_nth [OF wf j]
    by (simp add: drop_STAGE_ORDER [OF j] tail_iff [OF j] s_def set_stage_at [OF wf j])
  moreover have "status_at u i = status_at r i" if "i < j" for i
    using that below [of i] st [of i] j by simp
  ultimately show ?case using u plan later by (auto simp: same_plan_def)
qed

lemma activate_skipped:
  "at_boundary r j \<Longrightarrow> j \<le> 8 \<Longrightarrow>
    (\<And>i. j \<le> i \<Longrightarrow> i < 8 \<Longrightarrow> status_at r i \<noteq> WorkflowStageStatus.PENDING) \<Longrightarrow>
    activate_from (drop j STAGE_ORDER) r now = activate_from (drop 8 STAGE_ORDER) r now \<and> at_boundary r 8"
proof (induction "8 - j" arbitrary: j)
  case (Suc d)
  then have j: "j < 11" "j < 8" and wf: "wf_run r" by (auto simp: at_boundary_def)
  have skipped: "status_at r j = WorkflowStageStatus.SKIPPED"
    using Suc.prems(1) Suc.prems(3) [of j] j by (auto simp: at_boundary_def waiting_def)
  have "activate_from (drop j STAGE_ORDER) r now = activate_from (drop (Suc j) STAGE_ORDER) r now"
    using skipped by (simp add: drop_STAGE_ORDER [OF j(1)] stage_of_nth [OF wf j(1)])
  moreover have "at_boundary r (Suc j)" by (rule at_boundary_pass [OF Suc.prems(1) j(1) skipped])
  ultimately show ?case using Suc.hyps(1) [of "Suc j"] Suc.hyps(2) Suc.prems(3) j by simp
qed simp

lemma settled_not_current: "settled r i \<Longrightarrow> \<not> is_current (stages_json r ! i)"
  by (auto simp: settled_def ran_def is_current_def)

lemma active_current:
  assumes "active_at r k"
  shows "current_stage r = Some (stages_json r ! k)" and "set_current f r = with_stage r k f"
proof -
  from assms have k: "k < length (stages_json r)" "is_current (stages_json r ! k)"
    by (auto simp: active_at_def wf_run_length is_current_def split: if_splits)
  have before: "\<not> is_current (stages_json r ! i)" if "i < k" for i
    using assms that by (simp add: active_at_def settled_not_current)
  show "current_stage r = Some (stages_json r ! k)"
    using find_nth [of k "stages_json r" is_current] k before by (simp add: current_stage_def)
  show "set_current f r = with_stage r k f"
    using update_first_nth [of k "stages_json r" is_current f] k before
    by (simp add: set_current_def with_stage_def)
qed

lemma active_to_boundary:
  assumes a: "active_at r k" and f: "\<And>s. st_name (f s) = st_name s"
    and s: "s = (with_stage r k f)\<lparr>intrusive_approved := b\<rparr>"
    and b: "k \<noteq> 5 \<Longrightarrow> b = intrusive_approved r"
    and v: "st_status (f (stages_json r ! k)) = v"
    and over: "v = WorkflowStageStatus.COMPLETED \<or> v = WorkflowStageStatus.FAILED \<or>
           (k = 5 \<and> v = WorkflowStageStatus.DENIED)"
  shows "at_boundary s (Suc k)"
proof -
  from a have wf: "wf_run r" and k: "k < 11" by (simp_all add: active_at_def)
  have st: "status_at s i = (if i = k then v else status_at r i)" if "i < 11" for i
    using that wf k v by (simp add: s status_with_stage [OF wf k that, of f, simplified v])
  have "settled s i" if "i < Suc k" for i
  proof (cases "k = 5 \<or> i = k")
    case True
    with that k a st [of i] over show ?thesis
      by (auto simp: settled_def ran_def active_at_def cleared_def s b split: if_splits)
  next
    case False
    then have "cleared s = cleared r" using b by (simp add: cleared_def s)
    then show ?thesis
      using that False k a st [of i] settled_cong [of s i r] by (simp add: active_at_def)
  qed
  moreover have "waiting s i" if "Suc k \<le> i" "i < 11" for i
    using that a st [of i] waiting_cong [of s i r] by (simp add: active_at_def)
  ultimately show ?thesis
    using a b by (auto simp: at_boundary_def active_at_def s wf_with_stage f)
qed

lemma advance_active:
  assumes a: "active_at r k" and k: "k \<noteq> 5"
    and out: "outcome = WorkflowStageStatus.COMPLETED \<or> outcome = WorkflowStageStatus.FAILED"
  shows "\<exists>s. advance r outcome detail now = Inr s \<and> progressed s (Suc k) \<and> same_plan r s \<and>
    (outcome = WorkflowStageStatus.FAILED \<longrightarrow> k < 8 \<longrightarrow> progressed s 8)"
proof -
  let ?f = "\<lambda>s. s\<lparr>st_status := outcome, st_detail := detail, st_ended_at := Some now\<rparr>"
  let ?r = "with_stage r k ?f"
  from a have wf: "wf_run r" and k11: "k < 11" by (simp_all add: active_at_def)
  have "at_boundary ?r (Suc k)"
    by (rule active_to_boundary [OF a, of ?f _ "intrusive_approved r"])
      (use out in \<open>auto simp: with_stage_def\<close>)
  then obtain u where u: "at_boundary u (Suc k)" "same_plan ?r u"
    and skip: "(if outcome = WorkflowStageStatus.FAILED
       then skip_non_tail (drop (Suc k) STAGE_ORDER) ?r else Inr ?r) = Inr u"
    and tail: "outcome = WorkflowStageStatus.FAILED \<Longrightarrow>
       \<forall>i. Suc k \<le> i \<longrightarrow> i < 8 \<longrightarrow> status_at u i \<noteq> WorkflowStageStatus.PENDING"
  proof (cases "outcome = WorkflowStageStatus.FAILED")
    case True
    with skip_non_tail_boundary [of ?r "Suc k" "Suc k"] \<open>at_boundary ?r (Suc k)\<close> k11 that
    show ?thesis by auto
  next
    case False
    with \<open>at_boundary ?r (Suc k)\<close> that [of ?r] show ?thesis by (simp add: same_plan_def)
  qed
  then obtain s where s: "activate_from (drop (Suc k) STAGE_ORDER) u now = Inr s"
      "progressed s (Suc k)" "same_plan u s"
    using activate_from_boundary [of u "Suc k" now] k11 by auto
  have "advance r outcome detail now = Inr s"
    using s(1) skip out k11
    by (auto simp add: advance_def active_current [OF a] wf_run_name [OF wf k11] gate_iff [OF k11] k
        stage_index_nth [OF k11] activate_next_def nat_add_distrib)
  moreover have "progressed s 8" if failed: "outcome = WorkflowStageStatus.FAILED" and "k < 8"
    using activate_skipped [OF u(1), of now] tail [OF failed] that s(1)
      activate_from_boundary [of u 8 now] by auto
  ultimately show ?thesis using s u by (auto simp: same_plan_def)
qed

lemma decide_active:
  assumes a: "active_at r 5"
  shows "\<exists>s. decide_intrusive r approve now = Inr s \<and> progressed s 6 \<and>
    include_web s = include_web r \<and> include_intrusive s = include_intrusive r \<and>
    intrusive_approved s = approve"
proof -
  let ?f = "\<lambda>s. s\<lparr>st_ended_at := Some now, st_status := (if approve then WorkflowStageStatus.COMPLETED
                                            else WorkflowStageStatus.DENIED)\<rparr>"
  let ?r = "(with_stage r 5 ?f)\<lparr>intrusive_approved := approve\<rparr>"
  from a have wf: "wf_run r" and st: "status_at r 5 = WorkflowStageStatus.AWAITING_APPROVAL"
    by (simp_all add: active_at_def)
  have "at_boundary ?r (Suc 5)"
    by (rule active_to_boundary [OF a, of ?f _ approve]) (auto split: if_splits)
  then obtain s where s: "activate_from (drop 6 STAGE_ORDER) ?r now = Inr s"
      "progressed s 6" "same_plan ?r s"
    using activate_from_boundary [of ?r 6 now] by auto
  moreover have "decide_intrusive r approve now = Inr s"
    using s(1) stage_of_nth [OF wf, of 5] stage_index_nth [of 5] set_stage_at [OF wf, of 5] st
    by (simp add: decide_intrusive_def activate_next_def)
  ultimately show ?thesis by (auto simp: same_plan_def)
qed

subsection \<open>Reachable runs\<close>

text \<open>
  The calls that move a stored run: \<open>advance\<close> (from the API or when a scan job ends),
  \<open>fail_scanning\<close> (dispatch failures, expired jobs) and \<open>decide_intrusive\<close>; each changes the
  run only when it returns normally.
\<close>

inductive wf_step :: "workflow_run \<Rightarrow> workflow_run \<Rightarrow> bool" where
  step_advance: "advance r outcome detail now = Inr s \<Longrightarrow> wf_step r s"
| step_fail_scanning: "scanning_stage_active r \<Longrightarrow> fail_scanning r detail now = Inr s \<Longrightarrow> wf_step r s"
| step_decide: "decide_intrusive r approve now = Inr s \<Longrightarrow> wf_step r s"

inductive wf_reachable :: "workflow_run \<Rightarrow> bool" where
  reach_start: "stages_json r = create_run w i \<Longrightarrow> \<not> intrusive_approved r \<Longrightarrow>
     start r now = Inr s \<Longrightarrow> wf_reachable s"
| reach_step: "wf_reachable r \<Longrightarrow> wf_step r s \<Longrightarrow> wf_reachable s"

inductive_cases wf_stepE: "wf_step r s"

lemma current_stage_None: "finished r \<Longrightarrow> current_stage r = None"
  by (auto simp: current_stage_def find_None_iff in_set_conv_nth wf_run_length finished_def
      settled_not_current)

lemma advance_cases:
  assumes "advance r outcome detail now = Inr s" and "finished r \<or> active_at r k"
  shows "active_at r k \<and> k \<noteq> 5 \<and> progressed s (Suc k) \<and> same_plan r s"
proof -
  have a: "active_at r k" using assms current_stage_None [of r] by (auto simp: advance_def)
  then have k: "k < 11" and wf: "wf_run r" by (simp_all add: active_at_def)
  from assms have "k \<noteq> 5" and out: "outcome = WorkflowStageStatus.COMPLETED \<or> outcome = WorkflowStageStatus.FAILED"
    by (auto simp: advance_def active_current [OF a] wf_run_name [OF wf k] split: if_splits)
  with advance_active [OF a this, of detail now] assms(1) a show ?thesis by auto
qed

lemma decide_cases:
  assumes "decide_intrusive r b now = Inr s" and "finished r \<or> active_at r k"
  shows "active_at r k \<and> k = 5 \<and> progressed s 6 \<and> include_intrusive s = include_intrusive r
     \<and> intrusive_approved s = b"
proof -
  have wf: "wf_run r" using assms by (auto simp: finished_def active_at_def)
  from assms(1) have st: "status_at r 5 = WorkflowStageStatus.AWAITING_APPROVAL"
    using stage_of_nth [OF wf, of 5] by (simp add: decide_intrusive_def split: if_splits)
  then have cur: "is_current (stages_json r ! 5)" by (simp add: is_current_def)
  then have a: "active_at r k" using assms(2) settled_not_current [of r 5] by (auto simp: finished_def)
  have "k = 5"
  proof (rule ccontr)
    assume "k \<noteq> 5"
    then have "settled r 5 \<or> waiting r 5" using a by (auto simp: active_at_def linorder_neq_iff)
    with st cur settled_not_current [of r 5] show False by (auto simp: waiting_def)
  qed
  with a decide_active [of r b now] assms(1) show ?thesis by auto
qed

lemma fail_scanning_advance:
  "scanning_stage_active r \<Longrightarrow> fail_scanning r d now = advance r WorkflowStageStatus.FAILED d now"
  by (simp add: fail_scanning_def)

lemma step_progress:
  assumes "wf_step r s" and "finished r \<or> active_at r k"
  shows "active_at r k \<and> progressed s (Suc k)"
  using assms(1)
proof (cases rule: wf_step.cases)
  case (step_advance outcome detail now)
  with advance_cases [OF _ assms(2)] show ?thesis by blast
next
  case (step_fail_scanning detail now)
  with advance_cases [OF _ assms(2)] show ?thesis by (simp add: fail_scanning_advance)
next
  case (step_decide approve now)
  from decide_cases [OF step_decide assms(2)] show ?thesis by auto
qed

lemma reachable_progressed: "wf_reachable r \<Longrightarrow> progressed r 0"
proof (induction rule: wf_reachable.induct)
  case (reach_start r w i now s)
  then show ?case using start_ok [of r w i now] by auto
next
  case (reach_step r s)
  then obtain k where "finished r \<or> active_at r k" by (auto simp: progressed_def)
  then have "progressed s (Suc k)" using step_progress reach_step.hyps by blast
  then show ?case by (auto simp: progressed_def)
qed

lemma reachable_cases:
  assumes "wf_reachable r"
  obtains "finished r" | k where "active_at r k"
  using reachable_progressed [OF assms] by (auto simp: progressed_def)

lemma steps_progress:
  "(wf_step ^^ n) r s \<Longrightarrow> progressed r k \<Longrightarrow> n > 0 \<Longrightarrow> k + n \<le> 11 \<and> progressed s (k + n)"
proof (induction n arbitrary: s)
  case 0
  then show ?case by simp
next
  case (Suc n)
  from Suc.prems(1) obtain t where t: "(wf_step ^^ n) r t" "wf_step t s" by auto
  have "progressed t (k + n)" using Suc t by (cases n) auto
  then obtain j where j: "k + n \<le> j" "finished t \<or> active_at t j" by (auto simp: progressed_def)
  from step_progress [OF t(2) j(2)] have "j < 11" "progressed s (Suc j)" by (auto simp: active_at_def)
  with j(1) show ?case by (auto simp: progressed_def)
qed

definition ended :: "workflow_run \<Rightarrow> bool" where
  "ended r \<longleftrightarrow>
     wr_status r = WorkflowRunStatus.COMPLETED \<or> wr_status r = WorkflowRunStatus.FAILED"

lemma ended_finished: "wf_reachable r \<Longrightarrow> ended r \<Longrightarrow> finished r"
  by (erule reachable_cases) (auto simp: ended_def active_at_def split: if_splits)

lemma not_ended_active: "wf_reachable r \<Longrightarrow> \<not> ended r \<Longrightarrow> \<exists>k. active_at r k"
  by (erule reachable_cases) (auto simp: ended_def finished_def split: if_splits)

definition stage_ran :: "workflow_run \<Rightarrow> string \<Rightarrow> bool" where
  "stage_ran r name \<longleftrightarrow>
     (case stage_of r name of
        Inl _ \<Rightarrow> False
      | Inr s \<Rightarrow> st_status s \<in> set [WorkflowStageStatus.COMPLETED, WorkflowStageStatus.FAILED])"

lemma stage_ran_nth: "wf_run r \<Longrightarrow> i < 11 \<Longrightarrow> stage_ran r (STAGE_ORDER ! i) \<longleftrightarrow> ran r i"
  by (simp add: stage_ran_def stage_of_nth ran_def)

lemma tail_names:
  "STAGE_ORDER ! 8 = ''cleanup''" "STAGE_ORDER ! 9 = ''verification_scan''"
  "STAGE_ORDER ! 10 = ''reporting''"
  by (simp_all add: STAGE_ORDER_def)

lemma intrusive_name_iff:
  "i < 11 \<Longrightarrow>
     STAGE_ORDER ! i \<in> set [''allowlisted_validation'', ''evidence_collection'', ''cleanup'']
     \<longleftrightarrow> 6 \<le> i \<and> i \<le> 8"
  by (erule less_11E; simp add: STAGE_ORDER_def)

lemma reachable_wf: "wf_reachable r \<Longrightarrow> wf_run r"
  by (erule reachable_cases) (simp_all add: finished_def active_at_def)

text \<open>A list of calls replayed on a run; the first call that raises stops the replay.\<close>

datatype wf_call = Advance WorkflowStageStatus | Decide bool

fun replay :: "wf_call list \<Rightarrow> workflow_run \<Rightarrow> wf_error + workflow_run" where
  "replay [] r = Inr r"
| "replay (Advance out # cs) r = res_bind (advance r out None 0) (replay cs)"
| "replay (Decide b # cs) r = res_bind (decide_intrusive r b 0) (replay cs)"

lemma reach_advance: "wf_reachable r \<Longrightarrow> advance r out d now = Inr s \<Longrightarrow> wf_reachable s"
  by (blast intro: reach_step step_advance)

lemma reach_decide: "wf_reachable r \<Longrightarrow> decide_intrusive r b now = Inr s \<Longrightarrow> wf_reachable s"
  by (blast intro: reach_step step_decide)

lemma replay_reachable: "wf_reachable r \<Longrightarrow> replay cs r = Inr s \<Longrightarrow> wf_reachable s"
  by (induction cs r rule: replay.induct)
    (auto simp: res_bind_Inr dest: reach_advance reach_decide)

definition demo_run :: "bool \<Rightarrow> bool \<Rightarrow> workflow_run" where
  "demo_run web intrusive = \<lparr>wr_id = 1, wr_organization_id = 1, wr_site_id = 1,
     wr_network_id = None, wr_scan_job_id = None, wr_status = WorkflowRunStatus.PENDING,
     include_web = web, include_intrusive = intrusive, intrusive_approved = False,
     stages_json = create_run web intrusive, wr_created_by = None\<rparr>"

definition demo_after :: "bool \<Rightarrow> bool \<Rightarrow> wf_call list \<Rightarrow> wf_error + workflow_run" where
  "demo_after web intrusive calls = res_bind (start (demo_run web intrusive) 0) (replay calls)"

lemma demo_reachable:
  assumes "demo_after w i cs = Inr s"
  shows "wf_reachable s"
proof -
  from assms obtain r where r: "start (demo_run w i) 0 = Inr r" "replay cs r = Inr s"
    by (auto simp: demo_after_def res_bind_Inr)
  have "wf_reachable r"
    by (rule reach_start [OF _ _ r(1), of w i]) (simp_all add: demo_run_def)
  then show ?thesis using r(2) by (rule replay_reachable)
qed

subsection \<open>Properties\<close>

text \<open>C2. When a run has ended (completed or failed), its verification scan and its report really
  ran (they completed or failed, they were not skipped or denied), and so did the cleanup whenever
  the intrusive part had been included and approved; and the run is FAILED exactly when one of its
  stages failed.\<close>

theorem workflow_tail_always_runs:
  assumes "wf_reachable r" and "ended r"
  shows "stage_ran r ''verification_scan'' \<and> stage_ran r ''reporting'' \<and>
    (include_intrusive r \<and> intrusive_approved r \<longrightarrow> stage_ran r ''cleanup'') \<and>
    (wr_status r = WorkflowRunStatus.FAILED \<longleftrightarrow> has_failure r)"
proof -
  have f: "finished r" using ended_finished assms by blast
  then have wf: "wf_run r" and "settled r 8" "settled r 9" "settled r 10"
    by (simp_all add: finished_def)
  then have "ran r 9" "ran r 10" "cleared r \<longrightarrow> ran r 8" by (simp_all add: settled_def)
  with f wf show ?thesis
    using stage_ran_nth [OF wf, of 8] stage_ran_nth [OF wf, of 9] stage_ran_nth [OF wf, of 10]
    by (auto simp: tail_names cleared_def finished_def has_failure_iff)
qed

theorem workflow_tail_always_runs_witness:
  "\<exists>r. demo_after False True
         [Advance WorkflowStageStatus.COMPLETED, Advance WorkflowStageStatus.COMPLETED,
          Advance WorkflowStageStatus.COMPLETED, Advance WorkflowStageStatus.COMPLETED, Decide True,
          Advance WorkflowStageStatus.FAILED, Advance WorkflowStageStatus.COMPLETED,
          Advance WorkflowStageStatus.COMPLETED, Advance WorkflowStageStatus.COMPLETED] = Inr r \<and>
       ended r \<and> stage_ran r ''cleanup'' \<and> wr_status r = WorkflowRunStatus.FAILED"
    (is "\<exists>r. ?e = Inr r \<and> _ r")
proof -
  have "case ?e of Inl _ \<Rightarrow> False | Inr r \<Rightarrow> ended r \<and> include_intrusive r \<and> intrusive_approved r \<and> has_failure r"
    by code_simp
  then obtain r where r: "?e = Inr r" "ended r" "include_intrusive r" "intrusive_approved r" "has_failure r"
    by (cases ?e) auto
  with workflow_tail_always_runs [OF demo_reachable [OF r(1)] r(2)] show ?thesis by blast
qed

text \<open>C4. No intrusive work without an approval: in every reachable run, a validation, evidence or
  cleanup stage that is running or has run belongs to a run that includes the intrusive part and
  whose approval gate was approved.\<close>

theorem workflow_intrusive_only_approved:
  assumes "wf_reachable r" and "s \<in> set (stages_json r)"
    and "st_name s \<in> set [''allowlisted_validation'', ''evidence_collection'', ''cleanup'']"
    and "st_status s \<in> set [WorkflowStageStatus.RUNNING, WorkflowStageStatus.COMPLETED, WorkflowStageStatus.FAILED]"
  shows "include_intrusive r \<and> intrusive_approved r"
proof -
  have wf: "wf_run r" using assms(1) by (rule reachable_wf)
  with assms(2) obtain i where i: "i < 11" "s = stages_json r ! i"
    by (auto simp: in_set_conv_nth wf_run_length)
  have pos: "6 \<le> i" "i \<le> 8"
    using assms(3) intrusive_name_iff [OF i(1)] wf_run_name [OF wf i(1)] i(2) by simp_all
  from assms(1) show ?thesis
  proof (cases rule: reachable_cases)
    case 1
    then have "settled r i" using i by (simp add: finished_def)
    then show ?thesis using assms(4) i pos by (auto simp: settled_def ran_def cleared_def)
  next
    case (2 k)
    consider "i < k" | "i = k" | "k < i" by linarith
    then show ?thesis
    proof cases
      case 1
      then have "settled r i" using 2 by (simp add: active_at_def)
      then show ?thesis using assms(4) i pos by (auto simp: settled_def ran_def cleared_def)
    next
      case 2
      with \<open>active_at r k\<close> pos show ?thesis by (simp add: active_at_def cleared_def)
    next
      case 3
      then have "waiting r i" using 2 i by (simp add: active_at_def)
      then show ?thesis using assms(4) i by (auto simp: waiting_def)
    qed
  qed
qed

theorem workflow_intrusive_only_approved_witness:
  "\<exists>r s. wf_reachable r \<and> s \<in> set (stages_json r) \<and> st_name s = ''allowlisted_validation'' \<and>
     st_status s = WorkflowStageStatus.RUNNING \<and> intrusive_approved r"
proof -
  let ?e = "demo_after True True
         [Advance WorkflowStageStatus.COMPLETED, Advance WorkflowStageStatus.COMPLETED,
          Advance WorkflowStageStatus.COMPLETED, Advance WorkflowStageStatus.COMPLETED,
          Advance WorkflowStageStatus.COMPLETED, Decide True]"
  have "case ?e of Inl _ \<Rightarrow> False | Inr r \<Rightarrow> list_ex (\<lambda>s. st_name s = ''allowlisted_validation'' \<and>
      st_status s = WorkflowStageStatus.RUNNING) (stages_json r)"
    by code_simp
  then obtain r s where r: "?e = Inr r" "s \<in> set (stages_json r)" "st_name s = ''allowlisted_validation''"
      "st_status s = WorkflowStageStatus.RUNNING"
    by (cases ?e) (auto simp: list_ex_iff)
  with workflow_intrusive_only_approved [OF demo_reachable [OF r(1)] r(2)] demo_reachable [OF r(1)]
  show ?thesis by auto
qed

text \<open>C23. A run is never stuck: while it has not ended it has a current stage, and either that is
  the approval gate and both decisions succeed, or advancing it succeeds with either outcome.\<close>

theorem workflow_never_stuck:
  assumes "wf_reachable r" and "\<not> ended r"
  shows "\<exists>name. current_stage_name r = Some name \<and>
    (if name = APPROVAL_GATE
     then \<forall>approve now. isl (decide_intrusive r approve now) = False
     else \<forall>detail now. isl (advance r WorkflowStageStatus.COMPLETED detail now) = False \<and>
            isl (advance r WorkflowStageStatus.FAILED detail now) = False)"
proof -
  obtain k where a: "active_at r k" using not_ended_active assms by blast
  then have k: "k < 11" and wf: "wf_run r" by (simp_all add: active_at_def)
  have name: "current_stage_name r = Some (STAGE_ORDER ! k)"
    by (simp add: current_stage_name_def active_current [OF a] wf_run_name [OF wf k])
  show ?thesis
  proof (cases "k = 5")
    case True
    with name a decide_active [of r] show ?thesis by (metis gate_name isl_def old.sum.distinct(1))
  next
    case False
    with name advance_active [OF a False] gate_iff [OF k] show ?thesis
      by (metis isl_def old.sum.distinct(1))
  qed
qed

theorem workflow_never_stuck_witness:
  "\<exists>r. demo_after False False [Advance WorkflowStageStatus.COMPLETED] = Inr r \<and>
     current_stage_name r \<noteq> None"
proof -
  let ?e = "demo_after False False [Advance WorkflowStageStatus.COMPLETED]"
  have "case ?e of Inl _ \<Rightarrow> False | Inr r \<Rightarrow> \<not> ended r" by code_simp
  then obtain r where r: "?e = Inr r" "\<not> ended r" by (cases ?e) auto
  with workflow_never_stuck [OF demo_reachable [OF r(1)] r(2)] show ?thesis by auto
qed

text \<open>C26. Every run terminates: from any reachable run at most eleven more advance, fail or decide
  calls can succeed, whatever their outcomes.\<close>

theorem workflow_terminates:
  assumes "wf_reachable r" and "(wf_step ^^ n) r s"
  shows "n \<le> 11"
  using steps_progress [OF assms(2) reachable_progressed [OF assms(1)]] by (cases n) auto

theorem workflow_terminates_witness:
  "\<exists>r s. wf_reachable r \<and> (wf_step ^^ 1) r s \<and> (1::nat) \<le> 11"
proof -
  let ?e = "demo_after False False []"
  have "case ?e of Inl _ \<Rightarrow> False
      | Inr r \<Rightarrow> \<not> isl (advance r WorkflowStageStatus.FAILED None 0)" by code_simp
  then obtain r s where r: "?e = Inr r" "advance r WorkflowStageStatus.FAILED None 0 = Inr s"
    by (cases ?e) (auto simp: isl_def, metis sum.exhaust)
  then have "(wf_step ^^ 1) r s" by (auto intro: step_advance)
  with workflow_terminates [OF demo_reachable [OF r(1)] this] demo_reachable [OF r(1)]
  show ?thesis by blast
qed

end
