(* ===== verification/PyStrings.thy ===== *)
theory PyStrings
  imports Complex_Main Prelude "HOL-Library.Char_ord" "HOL-Library.List_Lexorder"
begin

text \<open>
  The Python string operations the backend uses, on lists of 8-bit characters: decimal and
  hexadecimal rendering, \<open>lower\<close>, \<open>strip\<close>, \<open>split\<close> on one character, \<open>join\<close>, \<open>startswith\<close>, substring
  search, and the text form of a UUID.  Case and white space follow the ASCII rules (a byte above
  127 is never a letter, a digit or a blank); strings compare lexicographically by character code
  (\<open>List_Lexorder\<close>), as Python's do.
\<close>

subsection \<open>Characters\<close>

definition code :: "char \<Rightarrow> nat" where
  "code c = of_char c"

definition is_digit :: "char \<Rightarrow> bool" where
  "is_digit c \<longleftrightarrow> 48 \<le> code c \<and> code c \<le> 57"

definition is_upper :: "char \<Rightarrow> bool" where
  "is_upper c \<longleftrightarrow> 65 \<le> code c \<and> code c \<le> 90"

definition is_lower :: "char \<Rightarrow> bool" where
  "is_lower c \<longleftrightarrow> 97 \<le> code c \<and> code c \<le> 122"

definition is_alnum :: "char \<Rightarrow> bool" where
  "is_alnum c \<longleftrightarrow> is_digit c \<or> is_upper c \<or> is_lower c"

definition is_blank :: "char \<Rightarrow> bool" where
  "is_blank c \<longleftrightarrow> code c = 32 \<or> (9 \<le> code c \<and> code c \<le> 13) \<or> (28 \<le> code c \<and> code c \<le> 31)"

definition lower_char :: "char \<Rightarrow> char" where
  "lower_char c = (if is_upper c then char_of (code c + 32) else c)"

definition upper_char :: "char \<Rightarrow> char" where
  "upper_char c = (if is_lower c then char_of (code c - 32) else c)"

definition digit_char :: "nat \<Rightarrow> char" where
  "digit_char d = char_of (48 + d)"

definition digit_value :: "char \<Rightarrow> nat" where
  "digit_value c = code c - 48"

lemma code_char_of [simp]: "n < 256 \<Longrightarrow> code (char_of n) = n"
  by (simp add: code_def)

lemma digit_char_props [simp]:
  assumes "d < 10"
  shows "is_digit (digit_char d)" "digit_value (digit_char d) = d"
  using assms by (simp_all add: digit_char_def is_digit_def digit_value_def)

lemma code_inject [simp]: "code c = code d \<longleftrightarrow> c = d"
  by (simp add: code_def)

lemma lower_char_idem [simp]: "lower_char (lower_char c) = lower_char c"
proof (cases "is_upper c")
  case True
  then have "code (lower_char c) = code c + 32" by (simp add: lower_char_def is_upper_def)
  with True have "\<not> is_upper (lower_char c)" by (simp add: is_upper_def)
  then show ?thesis by (simp add: lower_char_def)
next
  case False
  then show ?thesis by (simp add: lower_char_def)
qed

subsection \<open>Whole strings\<close>

definition lower :: "string \<Rightarrow> string" where
  "lower s = map lower_char s"

definition upper :: "string \<Rightarrow> string" where
  "upper s = map upper_char s"

definition strip :: "string \<Rightarrow> string" where
  "strip s = rev (dropWhile is_blank (rev (dropWhile is_blank s)))"

definition starts_with :: "string \<Rightarrow> string \<Rightarrow> bool" where
  "starts_with p s \<longleftrightarrow> take (length p) s = p"

definition remove_prefix :: "string \<Rightarrow> string \<Rightarrow> string" where
  "remove_prefix p s = (if starts_with p s then drop (length p) s else s)"

fun contains :: "string \<Rightarrow> string \<Rightarrow> bool" where
  "contains p [] = (p = [])"
| "contains p (c # s) = (starts_with p (c # s) \<or> contains p s)"

fun split_on :: "char \<Rightarrow> string \<Rightarrow> string list" where
  "split_on c [] = [[]]"
| "split_on c (x # xs) =
     (if x = c then [] # split_on c xs
      else (case split_on c xs of [] \<Rightarrow> [[x]] | y # ys \<Rightarrow> (x # y) # ys))"

fun join_with :: "string \<Rightarrow> string list \<Rightarrow> string" where
  "join_with sep [] = []"
| "join_with sep [x] = x"
| "join_with sep (x # y # ys) = x @ sep @ join_with sep (y # ys)"

lemma lower_lower [simp]: "lower (lower s) = lower s"
  by (simp add: lower_def comp_def)

lemma length_lower [simp]: "length (lower s) = length s"
  by (simp add: lower_def)

lemma lower_append: "lower (s @ t) = lower s @ lower t"
  by (simp add: lower_def)

lemma split_on_nonempty [simp]: "split_on c s \<noteq> []"
  by (induction s) (auto split: list.splits)

lemma split_on_no_sep: "p \<in> set (split_on c s) \<Longrightarrow> c \<notin> set p"
proof (induction s arbitrary: p)
  case Nil
  then show ?case by simp
next
  case (Cons x xs)
  then show ?case by (cases "split_on c xs") (auto split: if_splits)
qed

lemma join_split: "join_with [c] (split_on c s) = s"
proof (induction s)
  case Nil
  then show ?case by simp
next
  case (Cons x xs)
  obtain y ys where s: "split_on c xs = y # ys" by (cases "split_on c xs") auto
  with Cons show ?case by (cases ys) auto
qed

lemma split_on_plain: "c \<notin> set s \<Longrightarrow> split_on c s = [s]"
  by (induction s) auto

lemma split_on_append: "c \<notin> set s \<Longrightarrow> split_on c (s @ c # t) = s # split_on c t"
  by (induction s) auto

lemma split_join:
  "ps \<noteq> [] \<Longrightarrow> (\<And>p. p \<in> set ps \<Longrightarrow> c \<notin> set p) \<Longrightarrow> split_on c (join_with [c] ps) = ps"
  by (induction "[c]" ps rule: join_with.induct) (auto simp: split_on_plain split_on_append)

lemma strip_no_blank:
  assumes "\<And>c. c \<in> set s \<Longrightarrow> \<not> is_blank c"
  shows "strip s = s"
proof -
  have "dropWhile is_blank t = t" if "set t \<subseteq> set s" for t
    using that assms by (cases t) auto
  then show ?thesis by (simp add: strip_def)
qed

text \<open>
  \<open>re.sub\<close>: the leftmost matches, one after the other.  A pattern is a function from the previous
  character and the remaining text to the length of its match here and the replacement; an empty
  match is no match.
\<close>

fun re_replace ::
  "(char option \<Rightarrow> string \<Rightarrow> (nat \<times> string) option) \<Rightarrow> char option \<Rightarrow> string \<Rightarrow> string" where
  "re_replace m prev [] = []"
| "re_replace m prev (c # s) =
     (case m prev (c # s) of
        Some (Suc n, r) \<Rightarrow> r @ re_replace m (Some ((c # s) ! n)) (drop n s)
      | _ \<Rightarrow> c # re_replace m (Some c) s)"

subsection \<open>Numbers as text\<close>

fun nat_str :: "nat \<Rightarrow> string" where
  "nat_str n = (if n < 10 then [digit_char n] else nat_str (n div 10) @ [digit_char (n mod 10)])"

declare nat_str.simps [simp del]

definition int_str :: "int \<Rightarrow> string" where
  "int_str i = (if i < 0 then CHR 0x2D # nat_str (nat (- i)) else nat_str (nat i))"

definition digits_value :: "string \<Rightarrow> nat" where
  "digits_value s = foldl (\<lambda>v c. 10 * v + digit_value c) 0 s"

text \<open>\<open>int()\<close> of a text: blanks around it, a sign, and digits that single underscores may separate.\<close>

definition py_int :: "string \<Rightarrow> int option" where
  "py_int s =
     (let t = strip s;
          body = (if t \<noteq> [] \<and> hd t \<in> {CHR ''+'', CHR 0x2D} then tl t else t);
          parts = split_on CHR 0x5F body
      in if list_all (\<lambda>p. p \<noteq> [] \<and> list_all is_digit p) parts
         then Some ((if t \<noteq> [] \<and> hd t = CHR 0x2D then -1 else 1) * int (digits_value (concat parts)))
         else None)"

lemma nat_str_digits: "c \<in> set (nat_str n) \<Longrightarrow> is_digit c"
proof (induction n rule: nat_str.induct)
  case (1 n)
  then show ?case by (cases "n < 10") (auto simp: nat_str.simps [of n])
qed

lemma nat_str_nonempty [simp]: "nat_str n \<noteq> []"
  by (subst nat_str.simps) simp

lemma digits_value_nat_str [simp]: "digits_value (nat_str n) = n"
proof (induction n rule: nat_str.induct)
  case (1 n)
  then show ?case
    by (cases "n < 10") (simp_all add: nat_str.simps [of n] digits_value_def)
qed

lemma nat_str_inject [simp]: "nat_str m = nat_str n \<longleftrightarrow> m = n"
  by (metis digits_value_nat_str)

lemma nat_str_no_leading_zero: "n > 0 \<Longrightarrow> hd (nat_str n) \<noteq> digit_char 0"
proof (induction n rule: nat_str.induct)
  case (1 n)
  show ?case
  proof (cases "n < 10")
    case True
    then have "digit_value (digit_char n) \<noteq> digit_value (digit_char 0)" using "1.prems" by simp
    then have "digit_char n \<noteq> digit_char 0" by metis
    with True show ?thesis by (simp add: nat_str.simps [of n])
  next
    case False
    with "1.IH" have "hd (nat_str (n div 10)) \<noteq> digit_char 0" by (simp add: div_greater_zero_iff)
    with False show ?thesis by (simp add: nat_str.simps [of n])
  qed
qed

lemma length_nat_str_3: "n < 1000 \<Longrightarrow> length (nat_str n) \<le> 3"
proof -
  assume "n < 1000"
  then have "n div 10 div 10 < 10" by simp
  then show ?thesis
    by (simp add: nat_str.simps [of n] nat_str.simps [of "n div 10"] nat_str.simps [of "n div 10 div 10"])
qed

subsection \<open>Hexadecimal and UUIDs\<close>

definition hex_char :: "nat \<Rightarrow> char" where
  "hex_char d = (if d < 10 then char_of (48 + d) else char_of (87 + d))"

definition hex_value :: "char \<Rightarrow> nat option" where
  "hex_value c =
     (if is_digit c then Some (code c - 48)
      else if 97 \<le> code c \<and> code c \<le> 102 then Some (code c - 87)
      else if 65 \<le> code c \<and> code c \<le> 70 then Some (code c - 55)
      else None)"

lemma hex_value_hex_char [simp]: "d < 16 \<Longrightarrow> hex_value (hex_char d) = Some d"
  by (simp add: hex_value_def hex_char_def is_digit_def)

text \<open>\<open>k\<close> hexadecimal digits, most significant first.\<close>

fun hex_digits :: "nat \<Rightarrow> nat \<Rightarrow> string" where
  "hex_digits 0 n = []"
| "hex_digits (Suc k) n = hex_digits k (n div 16) @ [hex_char (n mod 16)]"

fun hex_fold :: "nat \<Rightarrow> string \<Rightarrow> nat option" where
  "hex_fold v [] = Some v"
| "hex_fold v (c # cs) = (case hex_value c of None \<Rightarrow> None | Some d \<Rightarrow> hex_fold (16 * v + d) cs)"

lemma length_hex_digits [simp]: "length (hex_digits k n) = k"
  by (induction k arbitrary: n) auto

lemma hex_fold_append:
  "hex_fold v (s @ t) = (case hex_fold v s of None \<Rightarrow> None | Some w \<Rightarrow> hex_fold w t)"
  by (induction s arbitrary: v) (auto split: option.splits)

lemma hex_fold_digits: "n < 16 ^ k \<Longrightarrow> hex_fold v (hex_digits k n) = Some (v * 16 ^ k + n)"
proof (induction k arbitrary: n)
  case 0
  then show ?case by simp
next
  case (Suc k)
  then have "n div 16 < 16 ^ k" by (simp add: less_mult_imp_div_less)
  with Suc.IH show ?case by (simp add: hex_fold_append algebra_simps)
qed

definition uuid_str :: "uuid \<Rightarrow> string" where
  "uuid_str u =
     (let h = hex_digits 32 u
      in take 8 h @ ''-'' @ take 4 (drop 8 h) @ ''-'' @ take 4 (drop 12 h) @ ''-''
           @ take 4 (drop 16 h) @ ''-'' @ drop 20 h)"

text \<open>
  \<open>uuid.UUID(text)\<close>: the text without its optional \<open>urn:\<close> and \<open>uuid:\<close>, braces and hyphens must be
  32 hexadecimal digits; anything else raises (\<open>None\<close>).  (The sign, blanks and underscores that
  \<open>int(hex, 16)\<close> would also take inside those 32 characters are not accepted here.)
\<close>

fun drop_all :: "string \<Rightarrow> string \<Rightarrow> string" where
  "drop_all p [] = []"
| "drop_all p (c # s) =
     (if p \<noteq> [] \<and> starts_with p (c # s) then drop_all p (drop (length p - 1) s) else c # drop_all p s)"

definition strip_braces :: "string \<Rightarrow> string" where
  "strip_braces s = (let b = (\<lambda>c. c = CHR 0x7B \<or> c = CHR 0x7D)
                     in rev (dropWhile b (rev (dropWhile b s))))"

definition uuid_parse :: "string \<Rightarrow> uuid option" where
  "uuid_parse s =
     (let h = filter (\<lambda>c. c \<noteq> CHR 0x2D) (strip_braces (drop_all ''uuid:'' (drop_all ''urn:'' s)))
      in if length h = 32 then hex_fold 0 h else None)"

subsection \<open>JSON values\<close>

text \<open>
  The JSON columns of the database and the untyped dictionaries of the source.  An object keeps its
  keys in insertion order; \<open>json_get\<close> is \<open>dict.get\<close>.  Finite floating-point numbers are the rational
  they denote.
\<close>

datatype json = JNull | JBool bool | JInt int | JFloat rat | JNonFinite | JStr string
  | JList "json list" | JObj "(string \<times> json) list"

definition json_get :: "json \<Rightarrow> string \<Rightarrow> json option" where
  "json_get j k = (case j of JObj kvs \<Rightarrow> map_of kvs k | _ \<Rightarrow> None)"

text \<open>\<open>d[k] = v\<close>: an existing key keeps its position, a new one is appended.\<close>

fun dict_set :: "'k \<Rightarrow> 'v \<Rightarrow> ('k \<times> 'v) list \<Rightarrow> ('k \<times> 'v) list" where
  "dict_set k v [] = [(k, v)]"
| "dict_set k v ((k', v') # kvs) = (if k' = k then (k, v) # kvs else (k', v') # dict_set k v kvs)"

lemma map_of_dict_set [simp]: "map_of (dict_set k v kvs) = (map_of kvs)(k \<mapsto> v)"
  by (induction k v kvs rule: dict_set.induct) auto

lemma keys_dict_set: "fst ` set (dict_set k v kvs) = insert k (fst ` set kvs)"
  by (induction k v kvs rule: dict_set.induct) auto

text \<open>Python truth value.\<close>

fun truthy :: "json \<Rightarrow> bool" where
  "truthy JNull = False"
| "truthy (JBool b) = b"
| "truthy (JInt i) = (i \<noteq> 0)"
| "truthy (JFloat q) = (q \<noteq> 0)"
| "truthy JNonFinite = True"
| "truthy (JStr s) = (s \<noteq> [])"
| "truthy (JList xs) = (xs \<noteq> [])"
| "truthy (JObj kvs) = (kvs \<noteq> [])"

end
