(* ===== verification/Tasks.thy ===== *)
theory Tasks
  imports Enums PyStrings "HOL-Library.Product_Lexorder"
begin

text \<open>
  The durable task queue, \<^verbatim>\<open>app/services/background_tasks.py\<close>, and the transactions of the worker
  and scheduler processes, \<^verbatim>\<open>app/tasks/runner.py\<close>.

  \<open>task\<close> and \<open>heartbeat\<close> are the rows of the two tables and \<open>queue_db\<close> the tables.  Every operation
  is one database transaction from a table state to the next; the interleaving of workers is the
  step relation \<open>queue_step\<close>.  The rows locked by other transactions (\<open>FOR UPDATE SKIP LOCKED\<close>), the
  fresh identifier, the clock and the host's name and process number are arguments.  Handlers
  (\<open>execute_task\<close>) are not modelled: \<open>worker_settle\<close> takes the outcome of the handler.
\<close>

record task =
  bt_id :: uuid
  bt_organization_id :: "uuid option"
  bt_task_type :: string
  bt_payload :: json
  bt_idempotency_key :: string
  bt_status :: BackgroundTaskStatus
  bt_priority :: int
  bt_scheduled_at :: time
  bt_created_at :: time
  bt_attempts :: int
  bt_max_attempts :: int
  bt_lease_owner :: "string option"
  bt_lease_expires_at :: "time option"
  bt_started_at :: "time option"
  bt_completed_at :: "time option"
  bt_cancel_requested_at :: "time option"
  bt_cancelled_at :: "time option"
  bt_dead_lettered_at :: "time option"
  bt_last_error :: "string option"
  bt_result :: json
  bt_created_by_user_id :: "uuid option"

record heartbeat =
  hb_worker_id :: string
  hb_kind :: string
  hb_hostname :: string
  hb_process_id :: int
  hb_status :: string
  hb_current_task_id :: "uuid option"
  hb_started_at :: time
  hb_last_seen_at :: time
  hb_metadata :: json

record queue_db =
  tasks :: "task list"
  heartbeats :: "heartbeat list"

datatype task_error = TaskValueError string

definition CLAIMABLE :: "BackgroundTaskStatus list" where
  "CLAIMABLE = [BackgroundTaskStatus.QUEUED, BackgroundTaskStatus.RETRY]"

definition or_empty :: "json option \<Rightarrow> json" where
  "or_empty j = (case j of None \<Rightarrow> JObj [] | Some v \<Rightarrow> if truthy v then v else JObj [])"

subsection \<open>Operations\<close>

text \<open>
  \<open>enqueue_task\<close>.  The unique index on the key makes a lost race fall back on the row that won, so
  one transaction sees either the existing row or its own insertion.
\<close>

definition enqueue_task ::
  "uuid \<Rightarrow> string \<Rightarrow> string \<Rightarrow> json option \<Rightarrow> uuid option \<Rightarrow> uuid option \<Rightarrow> time option \<Rightarrow> int \<Rightarrow> int
     \<Rightarrow> time \<Rightarrow> queue_db \<Rightarrow> task_error + (queue_db \<times> task \<times> bool)" where
  "enqueue_task fresh task_type key payload org user scheduled priority max_attempts now db =
     (if key = [] \<or> length key > 255
      then Inl (TaskValueError ''idempotency_key must contain 1-255 characters'')
      else case find (\<lambda>t. bt_idempotency_key t = key) (tasks db) of
        Some existing \<Rightarrow> Inr (db, existing, False)
      | None \<Rightarrow>
          let t = \<lparr>bt_id = fresh, bt_organization_id = org, bt_task_type = task_type,
                   bt_payload = or_empty payload, bt_idempotency_key = key,
                   bt_status = BackgroundTaskStatus.QUEUED, bt_priority = priority,
                   bt_scheduled_at = or_else scheduled now, bt_created_at = now, bt_attempts = 0,
                   bt_max_attempts = max_attempts, bt_lease_owner = None,
                   bt_lease_expires_at = None, bt_started_at = None, bt_completed_at = None,
                   bt_cancel_requested_at = None, bt_cancelled_at = None,
                   bt_dead_lettered_at = None, bt_last_error = None, bt_result = JObj [],
                   bt_created_by_user_id = user\<rparr>
          in Inr (db\<lparr>tasks := tasks db @ [t]\<rparr>, t, True))"

definition queue_depth :: "queue_db \<Rightarrow> nat" where
  "queue_depth db = length (filter (\<lambda>t. bt_status t \<in> set [BackgroundTaskStatus.QUEUED,
     BackgroundTaskStatus.RETRY, BackgroundTaskStatus.RUNNING]) (tasks db))"

text \<open>The \<open>WHERE\<close> clause of the claim; a NULL lease expiry compares as false.\<close>

definition due :: "time \<Rightarrow> task \<Rightarrow> bool" where
  "due now t \<longleftrightarrow>
     (bt_status t \<in> set CLAIMABLE \<and> bt_scheduled_at t \<le> now) \<or>
     (bt_status t = BackgroundTaskStatus.RUNNING \<and>
        (case bt_lease_expires_at t of None \<Rightarrow> False | Some e \<Rightarrow> e \<le> now))"

definition claim_order :: "task \<Rightarrow> int \<times> time \<times> time" where
  "claim_order t = (bt_priority t, bt_scheduled_at t, bt_created_at t)"

definition next_due :: "uuid list \<Rightarrow> time \<Rightarrow> queue_db \<Rightarrow> task option" where
  "next_due locked now db =
     (case sort_key claim_order (filter (\<lambda>t. due now t \<and> bt_id t \<notin> set locked) (tasks db)) of
        [] \<Rightarrow> None
      | t # _ \<Rightarrow> Some t)"

definition put_task :: "uuid \<Rightarrow> (task \<Rightarrow> task) \<Rightarrow> queue_db \<Rightarrow> queue_db" where
  "put_task i f db = db\<lparr>tasks := update_where (\<lambda>t. bt_id t = i) f (tasks db)\<rparr>"

definition cancel_row :: "time \<Rightarrow> task \<Rightarrow> task" where
  "cancel_row now t = t\<lparr>bt_status := BackgroundTaskStatus.CANCELLED, bt_cancelled_at := Some now,
     bt_lease_owner := None, bt_lease_expires_at := None\<rparr>"

definition claim_row :: "string \<Rightarrow> int \<Rightarrow> time \<Rightarrow> task \<Rightarrow> task" where
  "claim_row worker lease_seconds now t =
     t\<lparr>bt_status := BackgroundTaskStatus.RUNNING, bt_attempts := bt_attempts t + 1,
       bt_started_at := Some (or_else (bt_started_at t) now), bt_lease_owner := Some worker,
       bt_lease_expires_at := Some (now + seconds lease_seconds), bt_last_error := None\<rparr>"

definition claim_next_task ::
  "string \<Rightarrow> int \<Rightarrow> uuid list \<Rightarrow> time \<Rightarrow> queue_db \<Rightarrow> queue_db \<times> task option" where
  "claim_next_task worker lease_seconds locked now db =
     (case next_due locked now db of
        None \<Rightarrow> (db, None)
      | Some t \<Rightarrow>
          if bt_cancel_requested_at t \<noteq> None
          then (put_task (bt_id t) (cancel_row now) db, None)
          else (put_task (bt_id t) (claim_row worker lease_seconds now) db,
                Some (claim_row worker lease_seconds now t)))"

text \<open>The row is the worker's: running, and leased to it.\<close>

definition held_by :: "string \<Rightarrow> task \<Rightarrow> bool" where
  "held_by worker t \<longleftrightarrow>
     bt_status t = BackgroundTaskStatus.RUNNING \<and> bt_lease_owner t = Some worker"

definition get_task :: "uuid \<Rightarrow> queue_db \<Rightarrow> task option" where
  "get_task i db = find (\<lambda>t. bt_id t = i) (tasks db)"

definition renew_row :: "int \<Rightarrow> time \<Rightarrow> task \<Rightarrow> task" where
  "renew_row lease_seconds now t = t\<lparr>bt_lease_expires_at := Some (now + seconds lease_seconds)\<rparr>"

definition renew_lease :: "uuid \<Rightarrow> string \<Rightarrow> int \<Rightarrow> time \<Rightarrow> queue_db \<Rightarrow> queue_db \<times> bool" where
  "renew_lease i worker lease_seconds now db =
     (case get_task i db of
        None \<Rightarrow> (db, False)
      | Some t \<Rightarrow>
          if held_by worker t then (put_task i (renew_row lease_seconds now) db, True)
          else (db, False))"

definition complete_row :: "json option \<Rightarrow> time \<Rightarrow> task \<Rightarrow> task" where
  "complete_row result now t =
     (if bt_cancel_requested_at t \<noteq> None
      then t\<lparr>bt_status := BackgroundTaskStatus.CANCELLED, bt_cancelled_at := Some now\<rparr>
      else t\<lparr>bt_status := BackgroundTaskStatus.COMPLETED, bt_completed_at := Some now,
             bt_result := or_empty result\<rparr>)
       \<lparr>bt_lease_owner := None, bt_lease_expires_at := None\<rparr>"

definition complete_task :: "uuid \<Rightarrow> json option \<Rightarrow> time \<Rightarrow> queue_db \<Rightarrow> queue_db" where
  "complete_task i result now = put_task i (complete_row result now)"

text \<open>An exception is its type name and its message.\<close>

definition backoff_seconds :: "int \<Rightarrow> int" where
  "backoff_seconds attempts = min 3600 (2 ^ nat (min attempts 10))"

definition fail_row :: "string \<times> string \<Rightarrow> time \<Rightarrow> task \<Rightarrow> task" where
  "fail_row err now t =
     (let t1 = t\<lparr>bt_last_error := Some (take 4096 (fst err @ '': '' @ snd err)),
                 bt_lease_owner := None, bt_lease_expires_at := None\<rparr>
      in if bt_cancel_requested_at t \<noteq> None
         then t1\<lparr>bt_status := BackgroundTaskStatus.CANCELLED, bt_cancelled_at := Some now\<rparr>
         else if bt_attempts t \<ge> bt_max_attempts t
         then t1\<lparr>bt_status := BackgroundTaskStatus.DEAD_LETTER, bt_dead_lettered_at := Some now\<rparr>
         else t1\<lparr>bt_status := BackgroundTaskStatus.RETRY,
                 bt_scheduled_at := now + seconds (backoff_seconds (bt_attempts t))\<rparr>)"

definition fail_task :: "uuid \<Rightarrow> string \<times> string \<Rightarrow> time \<Rightarrow> queue_db \<Rightarrow> queue_db" where
  "fail_task i err now = put_task i (fail_row err now)"

definition cancel_request_row :: "time \<Rightarrow> task \<Rightarrow> task" where
  "cancel_request_row now t =
     (let t1 = t\<lparr>bt_cancel_requested_at := Some (or_else (bt_cancel_requested_at t) now)\<rparr>
      in if bt_status t \<in> set CLAIMABLE then cancel_row now t1 else t1)"

definition request_cancellation :: "uuid \<Rightarrow> time \<Rightarrow> queue_db \<Rightarrow> queue_db" where
  "request_cancellation i now = put_task i (cancel_request_row now)"

definition retry_row :: "time \<Rightarrow> task \<Rightarrow> task" where
  "retry_row now t =
     t\<lparr>bt_status := BackgroundTaskStatus.QUEUED, bt_scheduled_at := now,
       bt_max_attempts := (if bt_attempts t \<ge> bt_max_attempts t then bt_attempts t + 1
                           else bt_max_attempts t),
       bt_cancel_requested_at := None, bt_cancelled_at := None,
       bt_dead_lettered_at := None, bt_completed_at := None, bt_last_error := None,
       bt_result := JObj [], bt_lease_owner := None, bt_lease_expires_at := None\<rparr>"

definition retry_task :: "uuid \<Rightarrow> time \<Rightarrow> queue_db \<Rightarrow> task_error + queue_db" where
  "retry_task i now db =
     (case get_task i db of
        None \<Rightarrow> Inr db
      | Some t \<Rightarrow>
          if bt_status t \<notin> set [BackgroundTaskStatus.DEAD_LETTER, BackgroundTaskStatus.CANCELLED]
          then Inl (TaskValueError ''Only dead-lettered or cancelled tasks can be retried'')
          else Inr (put_task i (retry_row now) db))"

definition update_heartbeat ::
  "string \<Rightarrow> string \<Rightarrow> string \<Rightarrow> uuid option \<Rightarrow> json option \<Rightarrow> string \<times> int \<Rightarrow> time \<Rightarrow> queue_db \<Rightarrow> queue_db" where
  "update_heartbeat worker kind status current metadata host now db =
     (case find (\<lambda>h. hb_worker_id h = worker) (heartbeats db) of
        None \<Rightarrow>
          db\<lparr>heartbeats := heartbeats db @
            [\<lparr>hb_worker_id = worker, hb_kind = kind, hb_hostname = fst host,
              hb_process_id = snd host, hb_status = status, hb_current_task_id = current,
              hb_started_at = now, hb_last_seen_at = now, hb_metadata = or_empty metadata\<rparr>]\<rparr>
      | Some _ \<Rightarrow>
          db\<lparr>heartbeats := update_where (\<lambda>h. hb_worker_id h = worker)
            (\<lambda>h. h\<lparr>hb_kind := kind, hb_status := status, hb_current_task_id := current,
                   hb_last_seen_at := now,
                   hb_metadata := (case metadata of None \<Rightarrow> hb_metadata h
                     | Some m \<Rightarrow> if truthy m then m else hb_metadata h)\<rparr>) (heartbeats db)\<rparr>)"

subsection \<open>The worker's and the scheduler's transactions\<close>

text \<open>The first transaction of \<open>run_worker_once\<close>.\<close>

definition worker_claim ::
  "string \<Rightarrow> int \<Rightarrow> uuid list \<Rightarrow> string \<times> int \<Rightarrow> time \<Rightarrow> queue_db \<Rightarrow> queue_db \<times> task option" where
  "worker_claim worker lease_seconds locked host now db =
     (let db1 = update_heartbeat worker ''worker'' ''claiming'' None None host now db;
          (db2, t) = claim_next_task worker lease_seconds locked now db1
      in (update_heartbeat worker ''worker'' (if t = None then ''idle'' else ''running'')
            (map_option bt_id t) None host now db2, t))"

text \<open>One round of \<open>_lease_heartbeat\<close>; the loop ends when the lease was not renewed.\<close>

definition lease_heartbeat ::
  "uuid \<Rightarrow> string \<Rightarrow> int \<Rightarrow> string \<times> int \<Rightarrow> time \<Rightarrow> queue_db \<Rightarrow> queue_db \<times> bool" where
  "lease_heartbeat i worker lease_seconds host now db =
     (let (db1, renewed) = renew_lease i worker lease_seconds now db
      in (update_heartbeat worker ''worker'' (if renewed then ''running'' else ''lease_lost'')
            (if renewed then Some i else None) None host now db1, renewed))"

text \<open>
  How the handler ended: it returned, raised \<open>PersistedTaskFailure\<close>, raised another exception, or
  was cancelled by a shutdown.  \<open>worker_settle\<close> is the fenced transaction that follows; its flag
  says whether the database writes of the handler are committed with it.
\<close>

datatype handler_outcome = Returned "json option" | Persisted "string \<times> string"
  | Raised "string \<times> string" | ShutDown

definition worker_settle ::
  "uuid \<Rightarrow> string \<Rightarrow> handler_outcome \<Rightarrow> time \<Rightarrow> queue_db \<Rightarrow> queue_db \<times> bool" where
  "worker_settle i worker outcome now db =
     (case get_task i db of
        None \<Rightarrow> (db, False)
      | Some current \<Rightarrow>
          if \<not> held_by worker current then (db, False)
          else case outcome of
            Returned result \<Rightarrow>
              if bt_cancel_requested_at current \<noteq> None then (complete_task i None now db, False)
              else (complete_task i result now db, True)
          | Persisted err \<Rightarrow> (fail_task i err now db, True)
          | Raised err \<Rightarrow> (fail_task i err now db, False)
          | ShutDown \<Rightarrow> (fail_task i (''RuntimeError'', ''worker shutting down'') now db, False))"

text \<open>The settings the scheduler reads, and its round for one organization.\<close>

record scheduler_settings =
  scheduler_enabled :: bool
  scheduler_interval_seconds :: int
  background_task_backpressure_limit :: int
  background_task_max_attempts :: int

definition sweep_key :: "uuid \<Rightarrow> int \<Rightarrow> string" where
  "sweep_key org bucket = ''scheduler:system-sweep:'' @ uuid_str org @ '':'' @ int_str bucket"

definition notify_key :: "uuid \<Rightarrow> int \<Rightarrow> string" where
  "notify_key org bucket = ''scheduler:notifications:'' @ uuid_str org @ '':'' @ int_str bucket"

text \<open>\<open>fresh n\<close> is the identifier the \<open>n\<close>-th insertion of the round draws.\<close>

fun enqueue_round ::
  "scheduler_settings \<Rightarrow> (nat \<Rightarrow> uuid) \<Rightarrow> int \<Rightarrow> time \<Rightarrow> uuid list \<Rightarrow> nat \<Rightarrow> queue_db
     \<Rightarrow> task_error + (queue_db \<times> nat)" where
  "enqueue_round cfg fresh bucket now [] created db = Inr (db, created)"
| "enqueue_round cfg fresh bucket now (org # orgs) created db =
     res_bind (enqueue_task (fresh created) ''system.sweep'' (sweep_key org bucket) None (Some org)
                 None None 10 (background_task_max_attempts cfg) now db)
       (\<lambda>(db1, _, c1).
     res_bind (enqueue_task (fresh (created + of_bool c1)) ''notifications.dispatch''
                 (notify_key org bucket) None (Some org)
                 None None 50 (background_task_max_attempts cfg) now db1)
       (\<lambda>(db2, _, c2).
          enqueue_round cfg fresh bucket now orgs (created + of_bool c1 + of_bool c2) db2))"

definition scheduler_bucket :: "scheduler_settings \<Rightarrow> time \<Rightarrow> int" where
  "scheduler_bucket cfg now = (now div seconds 1) div scheduler_interval_seconds cfg"

definition run_scheduler_once ::
  "scheduler_settings \<Rightarrow> string \<Rightarrow> bool \<Rightarrow> uuid list \<Rightarrow> (nat \<Rightarrow> uuid) \<Rightarrow> string \<times> int \<Rightarrow> time
     \<Rightarrow> queue_db \<Rightarrow> task_error + (queue_db \<times> nat)" where
  "run_scheduler_once cfg scheduler lock orgs fresh host now db =
     (let beat = (\<lambda>status meta. update_heartbeat scheduler ''scheduler'' status None meta host now)
      in if \<not> scheduler_enabled cfg then Inr (beat ''disabled'' None db, 0)
         else let db1 = beat ''electing'' None db
         in if \<not> lock then Inr (beat ''standby'' None db1, 0)
         else let depth = queue_depth db1
         in if int depth \<ge> background_task_backpressure_limit cfg
         then Inr (beat ''backpressure''
                     (Some (JObj [(''queue_depth'', JInt (int depth))])) db1, 0)
         else res_bind (enqueue_round cfg fresh (scheduler_bucket cfg now) now orgs 0 db1)
                (\<lambda>(db2, created).
                   Inr (beat ''leader'' (Some (JObj [(''queue_depth'', JInt (int depth)),
                                                   (''enqueued'', JInt (int created))])) db2,
                        created)))"

subsection \<open>Row lemmas\<close>

lemmas task_row_defs = cancel_row_def claim_row_def renew_row_def complete_row_def fail_row_def
  cancel_request_row_def retry_row_def Let_def

interpretation cancel: row_update bt_id "cancel_row now" for now
  by unfold_locales (simp add: task_row_defs)

interpretation claim: row_update bt_id "claim_row worker lease_seconds now"
  for worker lease_seconds now
  by unfold_locales (simp add: task_row_defs)

interpretation renew: row_update bt_id "renew_row lease_seconds now" for lease_seconds now
  by unfold_locales (simp add: task_row_defs)

interpretation complete: row_update bt_id "complete_row result now" for result now
  by unfold_locales (simp add: task_row_defs)

interpretation fail: row_update bt_id "fail_row err now" for err now
  by unfold_locales (simp add: task_row_defs)

interpretation cancel_request: row_update bt_id "cancel_request_row now" for now
  by unfold_locales (simp add: task_row_defs)

interpretation retry: row_update bt_id "retry_row now" for now
  by unfold_locales (simp add: task_row_defs)

text \<open>The invariant of one row.\<close>

definition task_ok :: "task \<Rightarrow> bool" where
  "task_ok t \<longleftrightarrow>
     (bt_status t = BackgroundTaskStatus.RUNNING \<longleftrightarrow> bt_lease_owner t \<noteq> None) \<and>
     (bt_lease_owner t \<noteq> None \<longleftrightarrow> bt_lease_expires_at t \<noteq> None) \<and>
     0 \<le> bt_attempts t \<and> 0 < bt_max_attempts t \<and>
     (bt_status t \<in> set CLAIMABLE \<longrightarrow>
        bt_attempts t < bt_max_attempts t \<and> bt_cancel_requested_at t = None) \<and>
     (bt_status t = BackgroundTaskStatus.RUNNING \<longrightarrow> 1 \<le> bt_attempts t \<and> bt_started_at t \<noteq> None) \<and>
     (bt_status t = BackgroundTaskStatus.COMPLETED \<longrightarrow> bt_completed_at t \<noteq> None) \<and>
     (bt_status t = BackgroundTaskStatus.CANCELLED \<longrightarrow> bt_cancelled_at t \<noteq> None) \<and>
     (bt_status t = BackgroundTaskStatus.DEAD_LETTER \<longrightarrow>
        bt_dead_lettered_at t \<noteq> None \<and> bt_max_attempts t \<le> bt_attempts t)"

definition queue_inv :: "queue_db \<Rightarrow> bool" where
  "queue_inv db \<longleftrightarrow>
     distinct (map bt_id (tasks db)) \<and> distinct (map bt_idempotency_key (tasks db)) \<and>
     distinct (map hb_worker_id (heartbeats db)) \<and> (\<forall>t \<in> set (tasks db). task_ok t)"

named_theorems task_ok_intros

lemma task_ok_cancel [task_ok_intros]: "task_ok t \<Longrightarrow> task_ok (cancel_row now t)"
  by (simp add: task_ok_def cancel_row_def CLAIMABLE_def)

lemma task_ok_claim [task_ok_intros]: "task_ok t \<Longrightarrow> task_ok (claim_row w l now t)"
  by (simp add: task_ok_def claim_row_def CLAIMABLE_def)

lemma task_ok_renew [task_ok_intros]:
  "task_ok t \<Longrightarrow> held_by w t \<Longrightarrow> task_ok (renew_row l now t)"
  by (simp add: task_ok_def renew_row_def held_by_def CLAIMABLE_def)

lemma task_ok_complete [task_ok_intros]: "task_ok t \<Longrightarrow> task_ok (complete_row r now t)"
  by (simp add: task_ok_def complete_row_def CLAIMABLE_def)

lemma task_ok_fail [task_ok_intros]: "task_ok t \<Longrightarrow> task_ok (fail_row err now t)"
  by (simp add: task_ok_def fail_row_def CLAIMABLE_def Let_def)

lemma task_ok_cancel_request [task_ok_intros]:
  "task_ok t \<Longrightarrow> task_ok (cancel_request_row now t)"
  by (cases "bt_status t \<in> set CLAIMABLE")
    (simp_all add: task_ok_def cancel_request_row_def cancel_row_def CLAIMABLE_def)

lemma task_ok_retry [task_ok_intros]: "task_ok t \<Longrightarrow> task_ok (retry_row now t)"
  by (simp add: task_ok_def retry_row_def CLAIMABLE_def)

text \<open>The idempotency key, like the primary key, is never rewritten.\<close>

lemma task_keys_kept [simp]:
  "bt_idempotency_key (cancel_row now t) = bt_idempotency_key t"
  "bt_idempotency_key (claim_row w l now t) = bt_idempotency_key t"
  "bt_idempotency_key (renew_row l now t) = bt_idempotency_key t"
  "bt_idempotency_key (complete_row r now t) = bt_idempotency_key t"
  "bt_idempotency_key (fail_row err now t) = bt_idempotency_key t"
  "bt_idempotency_key (cancel_request_row now t) = bt_idempotency_key t"
  "bt_idempotency_key (retry_row now t) = bt_idempotency_key t"
  by (simp_all add: task_row_defs)

subsection \<open>Table lemmas\<close>

lemma get_taskD: "get_task i db = Some t \<Longrightarrow> t \<in> set (tasks db) \<and> bt_id t = i"
  unfolding get_task_def by (rule find_SomeD)

lemma get_task_unique:
  "queue_inv db \<Longrightarrow> t \<in> set (tasks db) \<Longrightarrow> get_task (bt_id t) db = Some t"
  by (simp add: queue_inv_def get_task_def find_by_key)

lemma update_heartbeat_tasks [simp]: "tasks (update_heartbeat w k s c m h now db) = tasks db"
  by (simp add: update_heartbeat_def split: option.split)

lemma get_task_update_heartbeat [simp]:
  "get_task i (update_heartbeat w k s c m h now db) = get_task i db"
  by (simp add: get_task_def)

lemma distinct_heartbeats:
  "distinct (map hb_worker_id (heartbeats db)) \<Longrightarrow>
    distinct (map hb_worker_id (heartbeats (update_heartbeat w k s c m h now db)))"
  by (auto simp: update_heartbeat_def map_update_where find_None_iff split: option.split)

lemma queue_inv_update_heartbeat [task_ok_intros]:
  "queue_inv db \<Longrightarrow> queue_inv (update_heartbeat w k s c m h now db)"
  by (simp add: queue_inv_def distinct_heartbeats)

lemma put_task_simps [simp]:
  "tasks (put_task i f db) = update_where (\<lambda>t. bt_id t = i) f (tasks db)"
  "heartbeats (put_task i f db) = heartbeats db"
  by (simp_all add: put_task_def)

lemma queue_inv_put_task:
  assumes "queue_inv db" and "get_task i db = Some t"
    and "task_ok t \<Longrightarrow> task_ok (f t)" and "bt_id (f t) = i"
    and "bt_idempotency_key (f t) = bt_idempotency_key t"
  shows "queue_inv (put_task i f db)"
proof -
  have "t \<in> set (tasks db)" "bt_id t = i"
    using get_taskD [OF assms(2)] by simp_all
  have only: "x = t" if "x \<in> set (tasks db)" "bt_id x = i" for x
    using get_task_unique [OF assms(1) that(1)] assms(2) that(2) by simp
  have "map bt_id (update_where (\<lambda>t. bt_id t = i) f (tasks db)) = map bt_id (tasks db)"
    "map bt_idempotency_key (update_where (\<lambda>t. bt_id t = i) f (tasks db))
      = map bt_idempotency_key (tasks db)"
    using only assms(4,5) by (auto simp: update_where_def)
  moreover have "task_ok t"
    using assms(1) \<open>t \<in> set (tasks db)\<close> by (simp add: queue_inv_def)
  ultimately show ?thesis
    using assms(1,3) only by (auto simp: queue_inv_def set_update_where)
qed

lemma put_task_absent: "get_task i db = None \<Longrightarrow> put_task i f db = db"
  by (cases db) (auto simp: put_task_def get_task_def find_None_iff update_where_def
      intro!: map_idI)

lemma get_put_task:
  "(\<And>t. bt_id (f t) = bt_id t) \<Longrightarrow>
    get_task j (put_task i f db) = (if j = i then map_option f (get_task i db) else get_task j db)"
  using row_update.find_hit [of bt_id f i "tasks db"] row_update.find_miss [of bt_id f j i "tasks db"]
  by (simp add: get_task_def row_update_def)

subsection \<open>The transactions as a step relation\<close>

text \<open>
  Who runs a transaction, and when.  \<open>Worker w\<close> is the worker process with that identifier;
  \<open>Api\<close> stands for the handlers that enqueue, cancel and retry tasks.
\<close>

datatype actor = Worker string | Scheduler | Api

inductive queue_step :: "actor \<Rightarrow> time \<Rightarrow> queue_db \<Rightarrow> queue_db \<Rightarrow> bool" where
  enqueued: "enqueue_task fresh ty key payload org user sched prio m now db = Inr (db', t, b) \<Longrightarrow>
    fresh \<notin> bt_id ` set (tasks db) \<Longrightarrow> 0 < m \<Longrightarrow> queue_step Api now db db'"
| cancelled: "queue_step Api now db (request_cancellation i now db)"
| retried: "retry_task i now db = Inr db' \<Longrightarrow> queue_step Api now db db'"
| claimed: "worker_claim w l locked host now db = (db', r) \<Longrightarrow> queue_step (Worker w) now db db'"
| renewed: "lease_heartbeat i w l host now db = (db', b) \<Longrightarrow> queue_step (Worker w) now db db'"
| settled: "worker_settle i w out now db = (db', b) \<Longrightarrow> queue_step (Worker w) now db db'"
| beaten: "queue_step (Worker w) now db (update_heartbeat w ''worker'' s c m host now db)"
| scheduled: "run_scheduler_once cfg s lock orgs fresh host now db = Inr (db', n) \<Longrightarrow>
    inj fresh \<Longrightarrow> range fresh \<inter> bt_id ` set (tasks db) = {} \<Longrightarrow>
    0 < background_task_max_attempts cfg \<Longrightarrow> queue_step Scheduler now db db'"

inductive queue_reachable :: "queue_db \<Rightarrow> bool" where
  empty_queue: "queue_reachable \<lparr>tasks = [], heartbeats = []\<rparr>"
| queue_next: "queue_reachable db \<Longrightarrow> queue_step a now db db' \<Longrightarrow> queue_reachable db'"

subsection \<open>What each transaction does to one row\<close>

text \<open>
  \<open>row_move a now t t'\<close> is one row's part of a transaction of \<open>a\<close>: it stays, or one row operation is
  applied under that operation's guard.
\<close>

inductive row_move :: "actor \<Rightarrow> time \<Rightarrow> task \<Rightarrow> task \<Rightarrow> bool" for a now t where
  move_stay: "row_move a now t t"
| move_claim: "due now t \<Longrightarrow> bt_cancel_requested_at t = None \<Longrightarrow> a = Worker w \<Longrightarrow>
    row_move a now t (claim_row w l now t)"
| move_drop: "due now t \<Longrightarrow> bt_cancel_requested_at t \<noteq> None \<Longrightarrow> row_move a now t (cancel_row now t)"
| move_renew: "held_by w t \<Longrightarrow> a = Worker w \<Longrightarrow> row_move a now t (renew_row l now t)"
| move_complete: "held_by w t \<Longrightarrow> a = Worker w \<Longrightarrow> row_move a now t (complete_row r now t)"
| move_fail: "held_by w t \<Longrightarrow> a = Worker w \<Longrightarrow> row_move a now t (fail_row err now t)"
| move_cancel: "row_move a now t (cancel_request_row now t)"
| move_retry: "bt_status t \<in> set [BackgroundTaskStatus.DEAD_LETTER, BackgroundTaskStatus.CANCELLED] \<Longrightarrow>
    row_move a now t (retry_row now t)"

lemma row_move_ok: "row_move a now t t' \<Longrightarrow> task_ok t \<Longrightarrow> task_ok t'"
  by (induction rule: row_move.induct) (auto intro: task_ok_intros)

lemma row_move_keys:
  "row_move a now t t' \<Longrightarrow> bt_id t' = bt_id t \<and> bt_idempotency_key t' = bt_idempotency_key t"
  by (induction rule: row_move.induct)
    (simp_all add: claim.key_kept cancel.key_kept renew.key_kept complete.key_kept fail.key_kept
      cancel_request.key_kept retry.key_kept)

definition fresh_task :: "task \<Rightarrow> bool" where
  "fresh_task t \<longleftrightarrow> bt_status t = BackgroundTaskStatus.QUEUED \<and> bt_attempts t = 0 \<and>
     0 < bt_max_attempts t \<and> bt_cancel_requested_at t = None \<and>
     bt_lease_owner t = None \<and> bt_lease_expires_at t = None"

lemma fresh_task_ok: "fresh_task t \<Longrightarrow> task_ok t"
  by (simp add: fresh_task_def task_ok_def CLAIMABLE_def)

text \<open>
  \<open>table_move a now db db'\<close>: every row makes a \<open>row_move\<close>, and new rows are appended under keys that
  were not in use.
\<close>

definition table_move :: "actor \<Rightarrow> time \<Rightarrow> queue_db \<Rightarrow> queue_db \<Rightarrow> bool" where
  "table_move a now db db' \<longleftrightarrow> (\<exists>old new. tasks db' = old @ new \<and>
     list_all2 (row_move a now) (tasks db) old \<and> (\<forall>t \<in> set new. fresh_task t) \<and>
     distinct (map bt_id new) \<and> distinct (map bt_idempotency_key new) \<and>
     bt_id ` set new \<inter> bt_id ` set (tasks db) = {} \<and>
     bt_idempotency_key ` set new \<inter> bt_idempotency_key ` set (tasks db) = {})"

lemma table_move_same: "tasks db' = tasks db \<Longrightarrow> table_move a now db db'"
  unfolding table_move_def
  by (rule exI [of _ "tasks db"], rule exI [of _ "[]"]) (simp add: list_all2_same move_stay)

lemma table_move_put:
  assumes "\<And>t. t \<in> set (tasks db) \<Longrightarrow> bt_id t = i \<Longrightarrow> row_move a now t (f t)"
    and "tasks db' = update_where (\<lambda>t. bt_id t = i) f (tasks db)"
  shows "table_move a now db db'"
  unfolding table_move_def
proof (intro exI conjI)
  show "tasks db' = update_where (\<lambda>t. bt_id t = i) f (tasks db) @ []"
    using assms(2) by simp
  show "list_all2 (row_move a now) (tasks db) (update_where (\<lambda>t. bt_id t = i) f (tasks db))"
    using assms(1) by (auto simp: update_where_def list_all2_conv_all_nth move_stay)
qed simp_all

lemma table_move_keys:
  assumes "list_all2 (row_move a now) xs ys"
  shows "map bt_id ys = map bt_id xs" "map bt_idempotency_key ys = map bt_idempotency_key xs"
  using assms by (induction rule: list_all2_induct) (auto dest: row_move_keys)

lemma row_moves_ok:
  "list_all2 (row_move a now) xs ys \<Longrightarrow> \<forall>t \<in> set xs. task_ok t \<Longrightarrow> \<forall>t \<in> set ys. task_ok t"
  by (induction rule: list_all2_induct) (auto intro: row_move_ok)

lemma table_move_inv:
  assumes "table_move a now db db'" and "queue_inv db"
    and "distinct (map hb_worker_id (heartbeats db'))"
  shows "queue_inv db'"
proof -
  obtain old new where *: "tasks db' = old @ new" "list_all2 (row_move a now) (tasks db) old"
    "\<forall>t \<in> set new. fresh_task t" "distinct (map bt_id new)" "distinct (map bt_idempotency_key new)"
    "bt_id ` set new \<inter> bt_id ` set (tasks db) = {}"
    "bt_idempotency_key ` set new \<inter> bt_idempotency_key ` set (tasks db) = {}"
    using assms(1) unfolding table_move_def by blast
  have "bt_id ` set old = bt_id ` set (tasks db)"
    "bt_idempotency_key ` set old = bt_idempotency_key ` set (tasks db)"
    using table_move_keys [OF *(2)] by (metis image_set)+
  moreover have "\<forall>t \<in> set old. task_ok t"
    using row_moves_ok [OF *(2)] assms(2) by (simp add: queue_inv_def)
  ultimately show ?thesis
    using * assms(2,3) table_move_keys [OF *(2)] fresh_task_ok
    unfolding queue_inv_def by (auto simp del: map_append simp: map_append)
qed

text \<open>Transactions that only insert.\<close>

definition appended :: "queue_db \<Rightarrow> queue_db \<Rightarrow> bool" where
  "appended db db' \<longleftrightarrow> (\<exists>new. tasks db' = tasks db @ new \<and> (\<forall>t \<in> set new. fresh_task t) \<and>
     distinct (map bt_id new) \<and> distinct (map bt_idempotency_key new) \<and>
     bt_id ` set new \<inter> bt_id ` set (tasks db) = {} \<and>
     bt_idempotency_key ` set new \<inter> bt_idempotency_key ` set (tasks db) = {})"

lemma appended_move: "appended db db' \<Longrightarrow> table_move a now db db'"
  unfolding appended_def table_move_def
  apply (elim exE)
  subgoal for new
    by (rule exI [of _ "tasks db"], rule exI [of _ new]) (simp add: list_all2_same move_stay)
  done

lemma appended_refl: "tasks db' = tasks db \<Longrightarrow> appended db db'"
  unfolding appended_def by (rule exI [of _ "[]"]) simp

lemma appended_trans: "appended db1 db2 \<Longrightarrow> appended db2 db3 \<Longrightarrow> appended db1 db3"
  unfolding appended_def
  apply (elim exE)
  subgoal for n1 n2 by (rule exI [of _ "n1 @ n2"]) (auto simp: Int_Un_distrib)
  done

lemma enqueue_task_appended:
  assumes "enqueue_task fresh ty key payload org user sched prio m now db = Inr (db', t, b)"
    and "b \<Longrightarrow> fresh \<notin> bt_id ` set (tasks db)" and "0 < m"
  shows "appended db db'"
proof (cases "find (\<lambda>t. bt_idempotency_key t = key) (tasks db)")
  case None
  with assms have "tasks db' = tasks db @ [t]" "fresh_task t" "bt_id t = fresh" "b"
    "bt_idempotency_key t = key"
    by (auto simp: enqueue_task_def fresh_task_def Let_def split: if_split_asm)
  with None assms show ?thesis
    by (auto simp: appended_def find_None_iff)
next
  case (Some u)
  with assms show ?thesis
    by (auto simp: enqueue_task_def intro: appended_refl split: if_split_asm)
qed

lemma enqueue_task_ids:
  "enqueue_task fresh ty key payload org user sched prio m now db = Inr (db', t, b) \<Longrightarrow>
    bt_id ` set (tasks db') = (if b then {fresh} else {}) \<union> bt_id ` set (tasks db)"
  by (auto simp: enqueue_task_def Let_def split: if_split_asm option.splits)

lemma enqueue_round_appended:
  assumes "enqueue_round cfg fresh bucket now orgs created db = Inr (db', n)"
    and "inj fresh" and "0 < background_task_max_attempts cfg"
    and "\<And>k. created \<le> k \<Longrightarrow> fresh k \<notin> bt_id ` set (tasks db)"
  shows "appended db db'"
  using assms(1,4)
proof (induction orgs arbitrary: created db)
  case Nil
  then show ?case by (simp add: appended_refl)
next
  case (Cons org orgs)
  from Cons.prems(1) obtain db1 t1 c1 db2 t2 c2 where
    1: "enqueue_task (fresh created) ''system.sweep'' (sweep_key org bucket) None (Some org)
          None None 10 (background_task_max_attempts cfg) now db = Inr (db1, t1, c1)" and
    2: "enqueue_task (fresh (created + of_bool c1)) ''notifications.dispatch''
          (notify_key org bucket) None (Some org)
          None None 50 (background_task_max_attempts cfg) now db1 = Inr (db2, t2, c2)" and
    3: "enqueue_round cfg fresh bucket now orgs (created + of_bool c1 + of_bool c2) db2
          = Inr (db', n)"
    by (auto simp: res_bind_Inr)
  have f1: "fresh k \<notin> bt_id ` set (tasks db1)" if "created + of_bool c1 \<le> k" for k
    using enqueue_task_ids [OF 1] Cons.prems(2) [of k] that injD [OF assms(2), of k created]
    by (cases c1) auto
  have f2: "fresh k \<notin> bt_id ` set (tasks db2)" if "created + of_bool c1 + of_bool c2 \<le> k" for k
    using enqueue_task_ids [OF 2] f1 [of k] that injD [OF assms(2), of k "created + of_bool c1"]
    by (cases c2) auto
  have "appended db db1"
    using 1 Cons.prems(2) [of created] assms(3) by (rule enqueue_task_appended) simp_all
  moreover have "appended db1 db2"
    using 2 f1 [of "created + of_bool c1"] assms(3) by (rule enqueue_task_appended) simp_all
  moreover have "appended db2 db'"
    using 3 f2 by (rule Cons.IH)
  ultimately show ?case
    by (blast intro: appended_trans)
qed

subsection \<open>Every transaction is a table move\<close>

lemma next_due_SomeD:
  "next_due locked now db = Some t \<Longrightarrow> t \<in> set (tasks db) \<and> due now t \<and> bt_id t \<notin> set locked"
proof -
  let ?due = "filter (\<lambda>t. due now t \<and> bt_id t \<notin> set locked) (tasks db)"
  assume "next_due locked now db = Some t"
  then obtain ts where ts: "sort_key claim_order ?due = t # ts"
    by (auto simp: next_due_def split: list.splits)
  have "t \<in> set (sort_key claim_order ?due)"
    unfolding ts by simp
  then show ?thesis by simp
qed

text \<open>A table move that touches the one row \<open>t\<close> read before.\<close>

lemma table_move_one:
  assumes "queue_inv db" and "t \<in> set (tasks db)" and "row_move a now t (f t)"
    and "tasks db' = tasks (put_task (bt_id t) f db)"
  shows "table_move a now db db'"
proof (rule table_move_put [of db "bt_id t" a now f db'])
  show "tasks db' = update_where (\<lambda>u. bt_id u = bt_id t) f (tasks db)"
    using assms(4) by simp
next
  fix u
  assume "u \<in> set (tasks db)" "bt_id u = bt_id t"
  have "get_task (bt_id t) db = Some u"
    using get_task_unique [OF assms(1) \<open>u \<in> set (tasks db)\<close>] \<open>bt_id u = bt_id t\<close> by (simp only:)
  then have "u = t"
    using get_task_unique [OF assms(1,2)] by (simp only: option.inject)
  then show "row_move a now u (f u)"
    using assms(3) by simp
qed

lemma claim_next_task_move:
  assumes "claim_next_task w l locked now db = (db', r)" and "queue_inv db" and "a = Worker w"
  shows "table_move a now db db'"
proof (cases "next_due locked now db")
  case None
  with assms(1) show ?thesis
    by (auto simp: claim_next_task_def intro: table_move_same)
next
  case (Some t)
  note t = next_due_SomeD [OF Some]
  show ?thesis
  proof (cases "bt_cancel_requested_at t = None")
    case True
    then have "row_move a now t (claim_row w l now t)"
      using t assms(3) by (intro move_claim) simp_all
    with True Some assms t show ?thesis
      by (auto simp: claim_next_task_def intro: table_move_one)
  next
    case False
    then have "row_move a now t (cancel_row now t)"
      using t by (intro move_drop) simp_all
    with False Some assms t show ?thesis
      by (auto simp: claim_next_task_def intro: table_move_one)
  qed
qed

lemma renew_lease_move:
  assumes "renew_lease i w l now db = (db', b)" and "queue_inv db"
  shows "table_move (Worker w) now db db'"
proof (cases "\<exists>t. get_task i db = Some t \<and> held_by w t")
  case True
  then obtain t where t: "get_task i db = Some t" "held_by w t" by blast
  then have "row_move (Worker w) now t (renew_row l now t)"
    by (intro move_renew) simp_all
  with t assms get_taskD [OF t(1)] show ?thesis
    by (auto simp: renew_lease_def intro: table_move_one)
next
  case False
  with assms(1) show ?thesis
    by (auto simp: renew_lease_def intro: table_move_same split: option.splits)
qed

lemma worker_settle_move:
  assumes "worker_settle i w out now db = (db', b)" and "queue_inv db"
  shows "table_move (Worker w) now db db'"
proof (cases "\<exists>t. get_task i db = Some t \<and> held_by w t")
  case True
  then obtain t where t: "get_task i db = Some t" "held_by w t" by blast
  have "row_move (Worker w) now t (complete_row r now t)"
    "row_move (Worker w) now t (fail_row err now t)" for r err
    using t by (auto intro: move_complete move_fail)
  with t assms get_taskD [OF t(1)] show ?thesis
    by (auto simp: worker_settle_def complete_task_def fail_task_def intro: table_move_one
        split: handler_outcome.splits if_split_asm)
next
  case False
  with assms(1) show ?thesis
    by (auto simp: worker_settle_def intro: table_move_same split: option.splits)
qed

lemma retry_task_move:
  assumes "retry_task i now db = Inr db'" and "queue_inv db"
  shows "table_move a now db db'"
proof (cases "get_task i db")
  case None
  with assms show ?thesis by (auto simp: retry_task_def intro: table_move_same)
next
  case (Some t)
  with assms(1) have guard: "bt_status t \<in> set [BackgroundTaskStatus.DEAD_LETTER,
      BackgroundTaskStatus.CANCELLED]" and db': "db' = put_task i (retry_row now) db"
    by (auto simp: retry_task_def split: if_split_asm)
  have "row_move a now t (retry_row now t)"
    using guard by (rule move_retry)
  with get_taskD [OF Some] db' assms(2) show ?thesis
    by (auto intro: table_move_one)
qed

lemma run_scheduler_once_appended:
  assumes "run_scheduler_once cfg s lock orgs fresh host now db = Inr (db', n)"
    and "inj fresh" and "range fresh \<inter> bt_id ` set (tasks db) = {}"
    and "0 < background_task_max_attempts cfg"
  shows "appended db db'"
proof -
  let ?db1 = "update_heartbeat s ''scheduler'' ''electing'' None None host now db"
  consider "tasks db' = tasks db"
    | db2 where "enqueue_round cfg fresh (scheduler_bucket cfg now) now orgs 0 ?db1 = Inr (db2, n)"
        "tasks db' = tasks db2"
    using assms(1) by (auto simp: run_scheduler_once_def Let_def res_bind_Inr split: if_split_asm)
  then show ?thesis
  proof cases
    case 1
    then show ?thesis by (rule appended_refl)
  next
    case 2
    have "appended ?db1 db2"
      using 2(1) assms(2,4) by (rule enqueue_round_appended) (use assms(3) in auto)
    then show ?thesis
      using 2(2) by (simp add: appended_def)
  qed
qed

lemma queue_step_move:
  assumes "queue_step a now db db'" and "queue_inv db"
  shows "table_move a now db db'"
  using assms(1)
proof cases
  case enqueued
  then show ?thesis by (auto intro!: appended_move intro: enqueue_task_appended)
next
  case (cancelled i)
  then show ?thesis
    by (auto simp: request_cancellation_def intro: table_move_put move_cancel)
next
  case retried
  then show ?thesis using assms(2) by (simp add: retry_task_move)
next
  case (claimed w l locked host r)
  let ?db1 = "update_heartbeat w ''worker'' ''claiming'' None None host now db"
  obtain db2 where 2: "claim_next_task w l locked now ?db1 = (db2, r)" "tasks db' = tasks db2"
    using claimed by (cases "claim_next_task w l locked now ?db1") (auto simp: worker_claim_def Let_def)
  have "table_move a now ?db1 db2"
    using claim_next_task_move [OF 2(1)] claimed assms(2) by (simp add: queue_inv_update_heartbeat)
  then show ?thesis using 2(2) by (simp add: table_move_def)
next
  case (renewed i w l host b)
  obtain db1 where 1: "renew_lease i w l now db = (db1, b)" "tasks db' = tasks db1"
    using renewed by (cases "renew_lease i w l now db") (auto simp: lease_heartbeat_def Let_def)
  have "table_move a now db db1"
    using renew_lease_move [OF 1(1) assms(2)] renewed by simp
  then show ?thesis using 1(2) by (simp add: table_move_def)
next
  case settled
  then show ?thesis using assms(2) by (simp add: worker_settle_move)
next
  case beaten
  then show ?thesis by (simp add: table_move_same)
next
  case scheduled
  then show ?thesis by (simp add: appended_move run_scheduler_once_appended)
qed

subsection \<open>The invariant of reachable queues\<close>

lemma enqueue_task_heartbeats:
  "enqueue_task fresh ty key payload org user sched prio m now db = Inr (db', t, b) \<Longrightarrow>
    heartbeats db' = heartbeats db"
  by (auto simp: enqueue_task_def Let_def split: if_split_asm option.splits)

lemma enqueue_round_heartbeats:
  "enqueue_round cfg fresh bucket now orgs created db = Inr (db', n) \<Longrightarrow>
    heartbeats db' = heartbeats db"
  by (induction orgs arbitrary: created db)
    (auto simp: res_bind_Inr dest!: enqueue_task_heartbeats)

lemma queue_step_heartbeats:
  assumes "queue_step a now db db'" and "distinct (map hb_worker_id (heartbeats db))"
  shows "distinct (map hb_worker_id (heartbeats db'))"
  using assms(1)
proof cases
  case enqueued
  then show ?thesis using assms(2) by (simp add: enqueue_task_heartbeats)
next
  case cancelled
  then show ?thesis using assms(2) by (simp add: request_cancellation_def)
next
  case retried
  then show ?thesis
    using assms(2) by (auto simp: retry_task_def split: option.splits if_split_asm)
next
  case claimed
  then show ?thesis
    using assms(2)
    by (auto simp: worker_claim_def claim_next_task_def Let_def intro!: distinct_heartbeats
        split: option.splits if_split_asm prod.splits)
next
  case renewed
  then show ?thesis
    using assms(2)
    by (auto simp: lease_heartbeat_def renew_lease_def Let_def intro!: distinct_heartbeats
        split: option.splits if_split_asm prod.splits)
next
  case settled
  then show ?thesis
    using assms(2)
    by (auto simp: worker_settle_def complete_task_def fail_task_def
        split: option.splits if_split_asm handler_outcome.splits)
next
  case beaten
  then show ?thesis using assms(2) by (simp add: distinct_heartbeats)
next
  case scheduled
  then show ?thesis
    using assms(2)
    by (auto simp: run_scheduler_once_def Let_def res_bind_Inr split: if_split_asm
        intro!: distinct_heartbeats dest!: enqueue_round_heartbeats)
qed

lemma queue_step_inv: "queue_step a now db db' \<Longrightarrow> queue_inv db \<Longrightarrow> queue_inv db'"
  by (rule table_move_inv [OF queue_step_move])
    (simp_all add: queue_inv_def queue_step_heartbeats)

lemma queue_reachable_inv: "queue_reachable db \<Longrightarrow> queue_inv db"
proof (induction rule: queue_reachable.induct)
  case empty_queue
  show ?case by (simp add: queue_inv_def)
next
  case queue_next
  then show ?case by (blast intro: queue_step_inv)
qed

lemma find_moved:
  "list_all2 (row_move a now) xs ys \<Longrightarrow> find (\<lambda>t. bt_id t = i) xs = Some t \<Longrightarrow>
    \<exists>t'. find (\<lambda>t. bt_id t = i) ys = Some t' \<and> row_move a now t t'"
  by (induction rule: list_all2_induct) (auto dest: row_move_keys split: if_split_asm)

lemma find_append_Some: "find P xs = Some x \<Longrightarrow> find P (xs @ ys) = Some x"
  by (induction xs) (auto split: if_split_asm)

lemma queue_step_row:
  assumes "queue_step a now db db'" and "queue_inv db" and "get_task i db = Some t"
  obtains t' where "get_task i db' = Some t'" and "row_move a now t t'"
proof -
  obtain old new where *: "tasks db' = old @ new" "list_all2 (row_move a now) (tasks db) old"
    using queue_step_move [OF assms(1,2)] unfolding table_move_def by blast
  obtain t' where t': "find (\<lambda>t. bt_id t = i) old = Some t'" "row_move a now t t'"
    using find_moved [OF *(2)] assms(3) unfolding get_task_def by blast
  have "get_task i db' = Some t'"
    unfolding get_task_def *(1) by (rule find_append_Some) (rule t'(1))
  then show thesis using t'(2) by (rule that)
qed

text \<open>In every reachable queue, task identifiers, idempotency keys and worker identifiers are
  unique; a task is RUNNING exactly when it has a lease owner and exactly when the lease has an
  expiry; a claimable task has attempts left and no pending cancellation; a running task was
  started and counted; and the terminal states carry their timestamps, a dead-lettered task having
  used all its attempts.\<close>

theorem queue_reachable_ok:
  assumes "queue_reachable db"
  shows "distinct (map bt_id (tasks db)) \<and> distinct (map bt_idempotency_key (tasks db)) \<and>
    distinct (map hb_worker_id (heartbeats db)) \<and> (\<forall>t \<in> set (tasks db). task_ok t)"
  using queue_reachable_inv [OF assms] by (simp add: queue_inv_def)

subsection \<open>Leases\<close>

lemma row_move_lease:
  assumes "row_move a now t t'" and "held_by w t" and "bt_lease_expires_at t = Some e"
    and "a \<noteq> Worker w" and "now < e"
  shows "held_by w t' \<and> bt_lease_expires_at t' = Some e"
  using assms
  by cases (auto simp: held_by_def due_def CLAIMABLE_def cancel_request_row_def Let_def)

text \<open>What the other processes may do before the instant \<open>e\<close>.\<close>

definition others_step :: "string \<Rightarrow> time \<Rightarrow> queue_db \<Rightarrow> queue_db \<Rightarrow> bool" where
  "others_step w e db db' \<longleftrightarrow> (\<exists>a now. a \<noteq> Worker w \<and> now < e \<and> queue_step a now db db')"

lemma others_keep_lease:
  assumes "(others_step w e)\<^sup>*\<^sup>* db db'" and "queue_inv db" and "get_task i db = Some t"
    and "held_by w t" and "bt_lease_expires_at t = Some e"
  shows "queue_inv db' \<and>
    (\<exists>t'. get_task i db' = Some t' \<and> held_by w t' \<and> bt_lease_expires_at t' = Some e)"
  using assms(1)
proof (induction rule: rtranclp_induct)
  case base
  then show ?case using assms by blast
next
  case (step y z)
  then obtain a now t' where s: "a \<noteq> Worker w" "now < e" "queue_step a now y z" and inv: "queue_inv y"
    and t': "get_task i y = Some t'" "held_by w t'" "bt_lease_expires_at t' = Some e"
    unfolding others_step_def by blast
  obtain t'' where "get_task i z = Some t''" "row_move a now t' t''"
    using queue_step_row [OF s(3) inv t'(1)] .
  then show ?case
    using row_move_lease [OF _ t'(2,3) s(1,2)] queue_step_inv [OF s(3) inv] by blast
qed

lemma not_held_settle:
  "get_task i db = Some t \<Longrightarrow> \<not> held_by w t \<Longrightarrow> worker_settle i w out now db = (db, False)"
  by (simp add: worker_settle_def)

lemma not_held_renew:
  "get_task i db = Some t \<Longrightarrow> \<not> held_by w t \<Longrightarrow> renew_lease i w l now db = (db, False)"
  by (simp add: renew_lease_def)

text \<open>C6. A lease is exclusive: whatever the other workers, the scheduler and the API do before the
  expiry of a lease, in any order, the task stays running under that lease; and while it does, no
  other worker can renew it, settle it or commit the writes of its handler.\<close>

theorem lease_exclusive:
  assumes "queue_reachable db" and "get_task i db = Some t"
    and "held_by w t" and "bt_lease_expires_at t = Some e"
    and "(others_step w e)\<^sup>*\<^sup>* db db'"
  shows "(\<exists>t'. get_task i db' = Some t' \<and> held_by w t' \<and> bt_lease_expires_at t' = Some e) \<and>
    (\<forall>w' out l now. w' \<noteq> w \<longrightarrow>
       worker_settle i w' out now db' = (db', False) \<and> renew_lease i w' l now db' = (db', False))"
proof -
  obtain t' where t': "get_task i db' = Some t'" "held_by w t'" "bt_lease_expires_at t' = Some e"
    using others_keep_lease [OF assms(5) queue_reachable_inv [OF assms(1)] assms(2,3,4)] by blast
  have "\<not> held_by w' t'" if "w' \<noteq> w" for w'
    using t'(2) that by (simp add: held_by_def)
  then show ?thesis
    using t' not_held_settle [OF t'(1)] not_held_renew [OF t'(1)] by blast
qed

subsection \<open>Witness queues\<close>

definition sample_host :: "string \<times> int" where
  "sample_host = (''node'', 1)"

definition sample_queue :: queue_db where
  "sample_queue =
     (case enqueue_task 1 ''system.sweep'' ''k1'' None None None None 10 2 0
             \<lparr>tasks = [], heartbeats = []\<rparr> of
        Inl _ \<Rightarrow> \<lparr>tasks = [], heartbeats = []\<rparr>
      | Inr (db, _, _) \<Rightarrow> db)"

definition sample_claimed :: queue_db where
  "sample_claimed = fst (worker_claim ''w1'' 300 [] sample_host 5 sample_queue)"

lemma sample_queue_reachable: "queue_reachable sample_queue"
proof (rule queue_next [OF empty_queue])
  show "queue_step Api 0 \<lparr>tasks = [], heartbeats = []\<rparr> sample_queue"
    by (rule enqueued [where fresh = 1 and ty = "''system.sweep''" and key = "''k1''" and payload = None
          and org = None and user = None and sched = None and prio = 10 and m = 2 and b = True])
      (simp_all add: sample_queue_def enqueue_task_def Let_def)
qed

lemma sample_claimed_step: "queue_step (Worker ''w1'') 5 sample_queue sample_claimed"
  unfolding sample_claimed_def
  by (rule claimed [where l = 300 and locked = "[]" and host = sample_host
        and r = "snd (worker_claim ''w1'' 300 [] sample_host 5 sample_queue)"]) simp

lemma sample_claimed_reachable: "queue_reachable sample_claimed"
  using sample_queue_reachable sample_claimed_step by (rule queue_next)

lemma sample_claimed_task:
  "\<exists>t. get_task 1 sample_claimed = Some t \<and> held_by ''w1'' t \<and>
     bt_lease_expires_at t = Some 300000005"
proof -
  have "case get_task 1 sample_claimed of None \<Rightarrow> False
    | Some t \<Rightarrow> held_by ''w1'' t \<and> bt_lease_expires_at t = Some 300000005"
    by code_simp
  then show ?thesis by (auto split: option.splits)
qed

text \<open>The witness of the invariant: the table with one claimed task.\<close>

theorem queue_reachable_ok_witness: "list_all task_ok (tasks sample_claimed)"
  using queue_reachable_ok [OF sample_claimed_reachable] by (simp add: list_all_iff)

theorem lease_exclusive_witness:
  "worker_settle 1 ''w2'' (Raised (''E'', ''x'')) 8 (request_cancellation 1 7 sample_claimed)
     = (request_cancellation 1 7 sample_claimed, False)"
proof -
  obtain t where t: "get_task 1 sample_claimed = Some t" "held_by ''w1'' t"
    "bt_lease_expires_at t = Some 300000005"
    using sample_claimed_task by blast
  have "others_step ''w1'' 300000005 sample_claimed (request_cancellation 1 7 sample_claimed)"
    unfolding others_step_def by (rule exI [of _ Api], rule exI [of _ 7]) (simp add: cancelled)
  then have "(others_step ''w1'' 300000005)\<^sup>*\<^sup>* sample_claimed (request_cancellation 1 7 sample_claimed)"
    by (rule r_into_rtranclp)
  from lease_exclusive [OF sample_claimed_reachable t this] show ?thesis by simp
qed

subsection \<open>Claiming\<close>

lemma sort_key_head:
  assumes "sort_key f xs = x # ys" and "y \<in> set xs"
  shows "f x \<le> f y"
proof -
  have "sorted (map f (x # ys))"
    using sorted_sort_key [of f xs] assms(1) by simp
  moreover have "y \<in> set (x # ys)"
    using assms by (metis set_sort)
  ultimately show ?thesis by auto
qed

lemma next_due_least:
  assumes "next_due locked now db = Some t" and "u \<in> set (tasks db)" and "due now u"
    and "bt_id u \<notin> set locked"
  shows "claim_order t \<le> claim_order u"
proof -
  obtain ts where "sort_key claim_order
      (filter (\<lambda>t. due now t \<and> bt_id t \<notin> set locked) (tasks db)) = t # ts"
    using assms(1) by (auto simp: next_due_def split: list.splits)
  then show ?thesis by (rule sort_key_head) (use assms in simp)
qed

lemma next_due_None:
  "next_due locked now db = None \<longleftrightarrow>
    (\<forall>u \<in> set (tasks db). \<not> (due now u \<and> bt_id u \<notin> set locked))"
proof -
  let ?due = "filter (\<lambda>t. due now t \<and> bt_id t \<notin> set locked) (tasks db)"
  have "next_due locked now db = None \<longleftrightarrow> sort_key claim_order ?due = []"
    by (simp add: next_due_def split: list.split)
  also have "\<dots> \<longleftrightarrow> ?due = []"
    by (cases ?due) simp_all
  finally show ?thesis by (simp add: filter_empty_conv)
qed

text \<open>A claim takes the least task by (priority, scheduled time, creation time) among the due tasks
  that no other transaction has locked: that row alone is leased to the worker for the given
  time with one more attempt, or cancelled if its cancellation was requested.  When no such
  task exists, nothing changes.\<close>

theorem claim_takes_least:
  assumes "queue_reachable db" and "claim_next_task w l locked now db = (db', r)"
  shows "(case next_due locked now db of
      None \<Rightarrow> db' = db \<and> r = None \<and>
        (\<forall>u \<in> set (tasks db). due now u \<longrightarrow> bt_id u \<in> set locked)
    | Some t \<Rightarrow>
        t \<in> set (tasks db) \<and> due now t \<and> bt_id t \<notin> set locked \<and>
        (\<forall>u \<in> set (tasks db). due now u \<and> bt_id u \<notin> set locked \<longrightarrow> claim_order t \<le> claim_order u) \<and>
        r = (if bt_cancel_requested_at t = None then Some (claim_row w l now t) else None) \<and>
        get_task (bt_id t) db' = Some (if bt_cancel_requested_at t = None then claim_row w l now t
                                       else cancel_row now t) \<and>
        (\<forall>j. j \<noteq> bt_id t \<longrightarrow> get_task j db' = get_task j db))"
proof (cases "next_due locked now db")
  case None
  with assms(2) show ?thesis
    using next_due_None [of locked now db] by (auto simp: claim_next_task_def)
next
  case (Some t)
  note t = next_due_SomeD [OF Some]
  have "get_task (bt_id t) db = Some t"
    using get_task_unique [OF queue_reachable_inv [OF assms(1)]] t by blast
  with Some assms(2) t next_due_least [OF Some] show ?thesis
    by (auto simp: claim_next_task_def get_put_task claim.key_kept cancel.key_kept)
qed

theorem claim_takes_least_witness:
  "\<exists>t. get_task 1 (fst (claim_next_task ''w1'' 300 [] 5 sample_queue)) = Some t \<and>
     bt_status t = BackgroundTaskStatus.RUNNING \<and> bt_attempts t = 1"
proof -
  have n: "case next_due [] 5 sample_queue of None \<Rightarrow> False
      | Some t \<Rightarrow> bt_id t = 1 \<and> bt_cancel_requested_at t = None \<and> bt_attempts t = 0"
    by code_simp
  then obtain t where t: "next_due [] 5 sample_queue = Some t" "bt_id t = 1"
      "bt_cancel_requested_at t = None" "bt_attempts t = 0"
    by (auto split: option.splits)
  show ?thesis
    using claim_takes_least [OF sample_queue_reachable surjective_pairing [of
        "claim_next_task ''w1'' 300 [] 5 sample_queue"]] t
    by (simp add: claim_row_def)
qed

subsection \<open>Retries\<close>

lemma backoff_seconds_le:
  assumes "0 \<le> n"
  shows "backoff_seconds n = 2 ^ nat (min n 10) \<and> backoff_seconds n \<le> 1024"
proof -
  have "(2::int) ^ nat (min n 10) \<le> 2 ^ 10"
    by (rule power_increasing) (use assms in simp_all)
  then show ?thesis by (simp add: backoff_seconds_def)
qed

lemma claim_row_fields:
  "bt_attempts (claim_row w l now t) = bt_attempts t + 1"
  "bt_max_attempts (claim_row w l now t) = bt_max_attempts t"
  "bt_cancel_requested_at (claim_row w l now t) = bt_cancel_requested_at t"
  by (simp_all add: claim_row_def)

lemma fail_row_fields:
  "bt_attempts (fail_row err now t) = bt_attempts t"
  "bt_max_attempts (fail_row err now t) = bt_max_attempts t"
  "bt_cancel_requested_at (fail_row err now t) = bt_cancel_requested_at t"
  "bt_cancel_requested_at t = None \<Longrightarrow> bt_status (fail_row err now t) =
    (if bt_attempts t \<ge> bt_max_attempts t then BackgroundTaskStatus.DEAD_LETTER
     else BackgroundTaskStatus.RETRY)"
  "bt_cancel_requested_at t = None \<Longrightarrow> bt_attempts t < bt_max_attempts t \<Longrightarrow>
    bt_scheduled_at (fail_row err now t) = now + seconds (backoff_seconds (bt_attempts t))"
  by (simp_all add: fail_row_def Let_def)

text \<open>
  \<open>failing_run i n db db'\<close>: \<open>n\<close> times in a row a worker claims task \<open>i\<close> and its handler raises.
\<close>

inductive failing_run :: "uuid \<Rightarrow> nat \<Rightarrow> queue_db \<Rightarrow> queue_db \<Rightarrow> bool" for i where
  no_failure: "failing_run i 0 db db"
| one_more: "failing_run i n db db1 \<Longrightarrow>
    worker_claim w l locked host now db1 = (db2, Some c) \<Longrightarrow> bt_id c = i \<Longrightarrow>
    worker_settle i w (Raised err) now' db2 = (db3, b) \<Longrightarrow> failing_run i (Suc n) db db3"

definition failed_state :: "nat \<Rightarrow> int \<Rightarrow> task \<Rightarrow> bool" where
  "failed_state n m t \<longleftrightarrow> bt_attempts t = int n \<and> bt_max_attempts t = m \<and> int n \<le> m \<and>
     bt_cancel_requested_at t = None \<and> task_ok t \<and>
     bt_status t = (if n = 0 then BackgroundTaskStatus.QUEUED
                    else if int n < m then BackgroundTaskStatus.RETRY
                    else BackgroundTaskStatus.DEAD_LETTER)"

lemma worker_claim_Some:
  assumes "worker_claim w l locked host now db = (db', Some c)" and "queue_inv db"
  obtains t where "get_task (bt_id c) db = Some t" "due now t" "bt_cancel_requested_at t = None"
    "c = claim_row w l now t" "get_task (bt_id c) db' = Some c"
proof -
  let ?db1 = "update_heartbeat w ''worker'' ''claiming'' None None host now db"
  obtain db2 where 2: "claim_next_task w l locked now ?db1 = (db2, Some c)"
      "tasks db' = tasks db2"
    using assms(1) by (cases "claim_next_task w l locked now ?db1") (auto simp: worker_claim_def Let_def)
  obtain t where t: "next_due locked now ?db1 = Some t" "bt_cancel_requested_at t = None"
      "c = claim_row w l now t" "db2 = put_task (bt_id t) (claim_row w l now) ?db1"
    using 2(1) by (auto simp: claim_next_task_def split: option.splits if_split_asm)
  have id: "bt_id c = bt_id t" by (simp add: t(3) claim.key_kept)
  have g: "get_task (bt_id t) db = Some t" "due now t"
    using next_due_SomeD [OF t(1)] get_task_unique [OF assms(2)] by simp_all
  have "get_task (bt_id c) db' = get_task (bt_id c) db2"
    by (simp add: get_task_def 2(2))
  then have "get_task (bt_id c) db' = Some c"
    using g by (simp add: t(3,4) claim.key_kept get_put_task)
  with g t(2,3) id show thesis by (intro that [of t]) simp_all
qed

lemma failing_round:
  assumes "queue_inv db" and "get_task i db = Some t" and "failed_state n m t"
    and "worker_claim w l locked host now db = (db2, Some c)" and "bt_id c = i"
    and "worker_settle i w (Raised err) now' db2 = (db3, b)"
  shows "queue_inv db3 \<and> (\<exists>t'. get_task i db3 = Some t' \<and> failed_state (Suc n) m t' \<and>
    (bt_status t' = BackgroundTaskStatus.RETRY \<longrightarrow>
       bt_scheduled_at t' = now' + seconds (2 ^ min (Suc n) 10)))"
proof -
  obtain u where u: "get_task (bt_id c) db = Some u" "due now u" "bt_cancel_requested_at u = None"
      "c = claim_row w l now u" "get_task (bt_id c) db2 = Some c"
    using worker_claim_Some [OF assms(4,1)] .
  then have [simp]: "u = t" using assms(2,5) by simp
  have inv: "queue_inv db2" "queue_inv db3"
    using queue_step_inv [OF claimed [OF assms(4)] assms(1)]
      queue_step_inv [OF settled [OF assms(6)]] by simp_all
  have "0 < m" using assms(3) by (simp add: failed_state_def task_ok_def)
  then have lt: "int n < m"
    using u(2) assms(3) by (auto simp: due_def failed_state_def CLAIMABLE_def split: if_split_asm)
  have "held_by w c" by (simp add: u(4) held_by_def claim_row_def)
  then have "db3 = fail_task i err now' db2"
    using assms(5,6) u(5) by (simp add: worker_settle_def)
  then have g: "get_task i db3 = Some (fail_row err now' c)"
    using u(5) assms(5) by (simp add: fail_task_def get_put_task fail.key_kept)
  have "task_ok (fail_row err now' c)"
    using assms(3) u(4) by (auto simp: failed_state_def intro!: task_ok_intros)
  moreover have "nat (min (1 + int n) 10) = min (Suc n) 10" by (simp add: min_def nat_add_distrib)
  then have "backoff_seconds (1 + int n) = 2 ^ min (Suc n) 10"
    using backoff_seconds_le [of "1 + int n"] by simp
  ultimately have "failed_state (Suc n) m (fail_row err now' c) \<and>
      (bt_status (fail_row err now' c) = BackgroundTaskStatus.RETRY \<longrightarrow>
       bt_scheduled_at (fail_row err now' c) = now' + seconds (2 ^ min (Suc n) 10))"
    using assms(3) lt u(3,4)
    by (simp add: failed_state_def fail_row_fields claim_row_fields add.commute)
  with g inv(2) show ?thesis by blast
qed

lemma failing_run_state:
  assumes "failing_run i n db db'" and "queue_inv db" and "get_task i db = Some t"
    and "failed_state 0 m t"
  shows "queue_inv db' \<and> (\<exists>t'. get_task i db' = Some t' \<and> failed_state n m t')"
  using assms
proof (induction rule: failing_run.induct)
  case no_failure
  then show ?case by blast
next
  case (one_more n db db1 w l locked host now db2 c err now' db3 b)
  then obtain t1 where t1: "queue_inv db1" "get_task i db1 = Some t1" "failed_state n m t1"
    by blast
  show ?case
    using failing_round [OF t1 one_more.hyps(2,3,4)] by blast
qed


definition settled_row :: "handler_outcome \<Rightarrow> time \<Rightarrow> task \<Rightarrow> task" where
  "settled_row out now t =
     (case out of
        Returned r \<Rightarrow> complete_row (if bt_cancel_requested_at t \<noteq> None then None else r) now t
      | Persisted err \<Rightarrow> fail_row err now t
      | Raised err \<Rightarrow> fail_row err now t
      | ShutDown \<Rightarrow> fail_row (''RuntimeError'', ''worker shutting down'') now t)"

lemma worker_settle_held:
  assumes "get_task i db = Some t" and "held_by w t" and "worker_settle i w out now db = (db', c)"
  shows "get_task i db' = Some (settled_row out now t)"
    and "c = (case out of Returned r \<Rightarrow> bt_cancel_requested_at t = None
                         | Persisted err \<Rightarrow> True | _ \<Rightarrow> False)"
  using assms by (cases out; auto simp: worker_settle_def complete_task_def fail_task_def
      get_put_task complete.key_kept fail.key_kept settled_row_def split: if_split_asm)+

text \<open>How a worker settles a task it still holds: its result completes the task and commits the
  handler's writes; a failure dead-letters it when its attempts are used up and otherwise
  schedules a retry between 1 and 1024 seconds later, doubling with every attempt; a requested
  cancellation wins over both; and in every case the lease is given back.\<close>

theorem settle_outcomes:
  assumes "queue_reachable db" and "get_task i db = Some t" and "held_by w t"
    and "worker_settle i w out now db = (db', committed)"
  shows "\<exists>t'. get_task i db' = Some t' \<and> bt_lease_owner t' = None \<and> bt_attempts t' = bt_attempts t \<and>
    (if bt_cancel_requested_at t \<noteq> None
     then bt_status t' = BackgroundTaskStatus.CANCELLED \<and> (committed \<longrightarrow> (\<exists>err. out = Persisted err))
     else case out of
       Returned r \<Rightarrow> bt_status t' = BackgroundTaskStatus.COMPLETED \<and> bt_result t' = or_empty r \<and> committed
     | _ \<Rightarrow>
         (committed \<longleftrightarrow> (\<exists>err. out = Persisted err)) \<and>
         (if bt_max_attempts t \<le> bt_attempts t then bt_status t' = BackgroundTaskStatus.DEAD_LETTER
          else bt_status t' = BackgroundTaskStatus.RETRY \<and>
               bt_scheduled_at t' = now + seconds (2 ^ nat (min (bt_attempts t) 10)) \<and>
               now + seconds 2 \<le> bt_scheduled_at t' \<and> bt_scheduled_at t' \<le> now + seconds 1024))"
proof -
  have "task_ok t"
    using queue_reachable_inv [OF assms(1)] get_taskD [OF assms(2)] by (simp add: queue_inv_def)
  then have a: "1 \<le> bt_attempts t"
    using assms(3) by (simp add: task_ok_def held_by_def)
  have "(2::int) ^ 1 \<le> 2 ^ nat (min (bt_attempts t) 10)"
    by (rule power_increasing) (use a in simp_all)
  then have b: "backoff_seconds (bt_attempts t) = 2 ^ nat (min (bt_attempts t) 10)"
    "2 \<le> backoff_seconds (bt_attempts t)" "backoff_seconds (bt_attempts t) \<le> 1024"
    using backoff_seconds_le [of "bt_attempts t"] a by simp_all
  note s = worker_settle_held [OF assms(2,3,4)]
  show ?thesis
    by (rule exI [of _ "settled_row out now t"], cases out; cases "bt_cancel_requested_at t = None")
      (use s b in \<open>simp_all add: settled_row_def complete_row_def fail_row_def Let_def seconds_def\<close>)
qed

definition sample_failed :: queue_db where
  "sample_failed = fst (worker_settle 1 ''w1'' (Raised (''E'', ''x'')) 8 sample_claimed)"

lemma sample_queue_task: "\<exists>t. get_task 1 sample_queue = Some t \<and> fresh_task t \<and> bt_max_attempts t = 2"
  by (simp add: sample_queue_def enqueue_task_def Let_def get_task_def fresh_task_def)


theorem settle_outcomes_witness:
  "\<exists>t. get_task 1 sample_failed = Some t \<and> bt_scheduled_at t = 8 + seconds 2"
proof -
  obtain t where t: "get_task 1 sample_claimed = Some t" "held_by ''w1'' t"
    using sample_claimed_task by blast
  have "case get_task 1 sample_claimed of None \<Rightarrow> False
      | Some u \<Rightarrow> bt_attempts u = 1 \<and> bt_max_attempts u = 2 \<and> bt_cancel_requested_at u = None"
    by code_simp
  then have "bt_attempts t = 1" "bt_max_attempts t = 2" "bt_cancel_requested_at t = None"
    using t(1) by simp_all
  then show ?thesis
    using settle_outcomes [OF sample_claimed_reachable t surjective_pairing [of
          "worker_settle 1 ''w1'' (Raised (''E'', ''x'')) 8 sample_claimed"]]
    by (auto simp: sample_failed_def)
qed

subsection \<open>Crashing workers\<close>

text \<open>
  The claim of an expired lease does not look at \<open>max_attempts\<close>.  A table with one task, whose
  worker dies after every claim:
\<close>

fun crash_run :: "nat \<Rightarrow> queue_db" where
  "crash_run 0 = sample_queue"
| "crash_run (Suc n) = fst (worker_claim ''w1'' 300 [] sample_host (seconds (300 * int n)) (crash_run n))"

lemma crash_run_reachable: "queue_reachable (crash_run n)"
proof (induction n)
  case 0
  show ?case by (simp add: sample_queue_reachable)
next
  case (Suc n)
  have "queue_step (Worker ''w1'') (seconds (300 * int n)) (crash_run n) (crash_run (Suc n))"
    by (rule claimed [where r = "snd (worker_claim ''w1'' 300 [] sample_host (seconds (300 * int n))
          (crash_run n))"]) simp
  with Suc.IH show ?case by (rule queue_next)
qed

lemma one_row_claim:
  assumes "tasks db = [t]" and "due now t" and "bt_cancel_requested_at t = None"
  shows "tasks (fst (worker_claim w l [] host now db)) = [claim_row w l now t]"
  using assms
  by (simp add: worker_claim_def claim_next_task_def next_due_def Let_def)

lemma crash_run_state:
  "\<exists>t. tasks (crash_run (Suc n)) = [t] \<and> bt_attempts t = int (Suc n) \<and> bt_max_attempts t = 2 \<and>
    bt_status t = BackgroundTaskStatus.RUNNING \<and> bt_cancel_requested_at t = None \<and>
    bt_lease_expires_at t = Some (seconds (300 * int (Suc n)))"
proof (induction n)
  case 0
  have "\<exists>t. tasks sample_queue = [t] \<and> due 0 t \<and> bt_cancel_requested_at t = None \<and>
      bt_attempts t = 0 \<and> bt_max_attempts t = 2"
    by (simp add: sample_queue_def enqueue_task_def Let_def due_def CLAIMABLE_def)
  then show ?case
    by (auto simp: one_row_claim claim_row_def seconds_def)
next
  case (Suc n)
  then obtain t where t: "tasks (crash_run (Suc n)) = [t]" "bt_attempts t = int (Suc n)"
      "bt_max_attempts t = 2" "bt_status t = BackgroundTaskStatus.RUNNING"
      "bt_cancel_requested_at t = None" "bt_lease_expires_at t = Some (seconds (300 * int (Suc n)))"
    by blast
  then have "due (seconds (300 * int (Suc n))) t" by (simp add: due_def)
  from one_row_claim [OF t(1) this t(5), of "''w1''" 300 sample_host] t
  show ?case
    by (simp add: claim_row_def seconds_def)
qed

text \<open>The attempt limit does not bound the attempts of a task whose worker dies: for every number
  of claims there is a reachable queue in which a task with two allowed attempts has been
  attempted that often and is running once more, never dead-lettered.\<close>

theorem crashing_task_never_dead_letters:
  "\<exists>db t. queue_reachable db \<and> t \<in> set (tasks db) \<and> bt_max_attempts t = 2 \<and>
     bt_attempts t = int (Suc n) \<and> bt_status t = BackgroundTaskStatus.RUNNING"
proof -
  obtain t where "tasks (crash_run (Suc n)) = [t]" "bt_attempts t = int (Suc n)"
      "bt_max_attempts t = 2" "bt_status t = BackgroundTaskStatus.RUNNING"
    using crash_run_state by blast
  then show ?thesis
    using crash_run_reachable [of "Suc n"] by (intro exI conjI) auto
qed

subsection \<open>Life cycle\<close>

text \<open>The abstract life cycle of a task: the statuses one transaction can lead to.\<close>

fun lifecycle :: "BackgroundTaskStatus \<Rightarrow> BackgroundTaskStatus list" where
  "lifecycle BackgroundTaskStatus.QUEUED = [BackgroundTaskStatus.QUEUED,
     BackgroundTaskStatus.RUNNING, BackgroundTaskStatus.CANCELLED]"
| "lifecycle BackgroundTaskStatus.RETRY = [BackgroundTaskStatus.RETRY,
     BackgroundTaskStatus.RUNNING, BackgroundTaskStatus.CANCELLED]"
| "lifecycle BackgroundTaskStatus.RUNNING = [BackgroundTaskStatus.RUNNING,
     BackgroundTaskStatus.COMPLETED, BackgroundTaskStatus.RETRY,
     BackgroundTaskStatus.DEAD_LETTER, BackgroundTaskStatus.CANCELLED]"
| "lifecycle BackgroundTaskStatus.COMPLETED = [BackgroundTaskStatus.COMPLETED]"
| "lifecycle BackgroundTaskStatus.CANCELLED = [BackgroundTaskStatus.CANCELLED,
     BackgroundTaskStatus.QUEUED]"
| "lifecycle BackgroundTaskStatus.DEAD_LETTER = [BackgroundTaskStatus.DEAD_LETTER,
     BackgroundTaskStatus.QUEUED]"

lemma lifecycle_refl: "s \<in> set (lifecycle s)"
  by (cases s) simp_all

lemma row_move_lifecycle:
  assumes "row_move a now t t'"
  shows "bt_status t' \<in> set (lifecycle (bt_status t))"
  using assms
proof cases
  case move_cancel
  then show ?thesis
    by (cases "bt_status t") (simp_all add: cancel_request_row_def cancel_row_def CLAIMABLE_def Let_def)
qed (auto simp: lifecycle_refl due_def CLAIMABLE_def held_by_def claim_row_def cancel_row_def
    renew_row_def complete_row_def fail_row_def retry_row_def Let_def)

lemma row_move_frame:
  assumes "row_move a now t t'"
  shows "bt_payload t' = bt_payload t \<and> bt_task_type t' = bt_task_type t \<and>
    bt_organization_id t' = bt_organization_id t \<and> bt_attempts t \<le> bt_attempts t'"
  using assms by cases (simp_all add: task_row_defs)

text \<open>C33. The detailed transactions refine the abstract life cycle of a task: whatever transaction a
  worker, the scheduler or the API commits, every task survives it with a status its life cycle
  allows (COMPLETED is final), keeps its key, type, payload and organization, and never loses
  an attempt.\<close>

theorem queue_refines_lifecycle:
  assumes "queue_reachable db" and "queue_step a now db db'" and "get_task i db = Some t"
  shows "\<exists>t'. get_task i db' = Some t' \<and> bt_status t' \<in> set (lifecycle (bt_status t)) \<and>
    bt_idempotency_key t' = bt_idempotency_key t \<and> bt_task_type t' = bt_task_type t \<and>
    bt_payload t' = bt_payload t \<and> bt_organization_id t' = bt_organization_id t \<and>
    bt_attempts t \<le> bt_attempts t'"
proof -
  obtain t' where "get_task i db' = Some t'" "row_move a now t t'"
    using queue_step_row [OF assms(2) queue_reachable_inv [OF assms(1)] assms(3)] .
  then show ?thesis
    using row_move_lifecycle row_move_frame row_move_keys by blast
qed

theorem queue_refines_lifecycle_witness:
  "\<exists>t. get_task 1 sample_claimed = Some t \<and> bt_status t \<in> set (lifecycle BackgroundTaskStatus.QUEUED)"
proof -
  obtain t where t: "get_task 1 sample_queue = Some t" "fresh_task t"
    using sample_queue_task by blast
  then show ?thesis
    using queue_refines_lifecycle [OF sample_queue_reachable sample_claimed_step t(1)]
    by (auto simp: fresh_task_def)
qed

subsection \<open>The scheduler\<close>

lemma enqueue_task_has_key:
  "enqueue_task fresh ty key payload org user sched prio m now db = Inr (db', t, b) \<Longrightarrow>
    set (tasks db) \<subseteq> set (tasks db') \<and> key \<in> bt_idempotency_key ` set (tasks db')"
  by (auto simp: enqueue_task_def Let_def dest: find_SomeD split: if_split_asm option.splits)

lemma enqueue_task_again:
  "key \<in> bt_idempotency_key ` set (tasks db) \<Longrightarrow> key \<noteq> [] \<Longrightarrow> length key \<le> 255 \<Longrightarrow>
    \<exists>t. enqueue_task fresh ty key payload org user sched prio m now db = Inr (db, t, False)"
  by (auto simp: enqueue_task_def find_None_iff split: option.split)

lemma enqueue_task_valid_key:
  "enqueue_task fresh ty key payload org user sched prio m now db = Inr r \<Longrightarrow>
    key \<noteq> [] \<and> length key \<le> 255"
  by (auto simp: enqueue_task_def split: if_split_asm)

definition round_done :: "int \<Rightarrow> uuid list \<Rightarrow> queue_db \<Rightarrow> bool" where
  "round_done bucket orgs db \<longleftrightarrow> (\<forall>org \<in> set orgs. \<forall>key \<in> {sweep_key org bucket, notify_key org bucket}.
     key \<noteq> [] \<and> length key \<le> 255 \<and> key \<in> bt_idempotency_key ` set (tasks db))"

lemma enqueue_round_done:
  "enqueue_round cfg fresh bucket now orgs created db = Inr (db', n) \<Longrightarrow>
    set (tasks db) \<subseteq> set (tasks db') \<and> round_done bucket orgs db'"
proof (induction orgs arbitrary: created db)
  case Nil
  then show ?case by (simp add: round_done_def)
next
  case (Cons org orgs)
  from Cons.prems obtain db1 t1 c1 db2 t2 c2 where
    1: "enqueue_task (fresh created) ''system.sweep'' (sweep_key org bucket) None (Some org)
          None None 10 (background_task_max_attempts cfg) now db = Inr (db1, t1, c1)" and
    2: "enqueue_task (fresh (created + of_bool c1)) ''notifications.dispatch''
          (notify_key org bucket) None (Some org)
          None None 50 (background_task_max_attempts cfg) now db1 = Inr (db2, t2, c2)" and
    3: "enqueue_round cfg fresh bucket now orgs (created + of_bool c1 + of_bool c2) db2
          = Inr (db', n)"
    by (auto simp: res_bind_Inr)
  show ?case
    using Cons.IH [OF 3] enqueue_task_has_key [OF 1] enqueue_task_has_key [OF 2]
      enqueue_task_valid_key [OF 1] enqueue_task_valid_key [OF 2]
    unfolding round_done_def by (simp add: subset_iff image_iff) blast
qed

lemma enqueue_round_again:
  "round_done bucket orgs db \<Longrightarrow>
    enqueue_round cfg fresh bucket now orgs created db = Inr (db, created)"
proof (induction orgs)
  case Nil
  show ?case by simp
next
  case (Cons org orgs)
  have "\<exists>t. enqueue_task (fresh created) ''system.sweep'' (sweep_key org bucket) None (Some org)
      None None 10 (background_task_max_attempts cfg) now db = Inr (db, t, False)"
    "\<exists>t. enqueue_task (fresh created) ''notifications.dispatch'' (notify_key org bucket) None
      (Some org) None None 50 (background_task_max_attempts cfg) now db = Inr (db, t, False)"
    using Cons.prems by (auto simp: round_done_def intro!: enqueue_task_again)
  moreover have "round_done bucket orgs db"
    using Cons.prems by (simp add: round_done_def)
  ultimately show ?case
    using Cons.IH by auto
qed

text \<open>The scheduler is idempotent: a round repeated in the same interval bucket, by any scheduler
  replica, creates no task, whatever organizations among those of the first round it sees.\<close>

theorem scheduler_idempotent:
  assumes "run_scheduler_once cfg s1 True orgs fresh1 host1 now1 db = Inr (db1, n)"
    and "scheduler_enabled cfg" and "int (queue_depth db) < background_task_backpressure_limit cfg"
    and "tasks db2 = tasks db1" and "set orgs2 \<subseteq> set orgs"
    and "scheduler_bucket cfg now2 = scheduler_bucket cfg now1"
  shows "\<exists>db3. run_scheduler_once cfg s2 lock orgs2 fresh2 host2 now2 db2 = Inr (db3, 0) \<and>
    tasks db3 = tasks db1"
proof -
  have "queue_depth (update_heartbeat w k st c m h now db) = queue_depth db" for w k st c m h now
    by (simp add: queue_depth_def)
  then obtain d where d: "enqueue_round cfg fresh1 (scheduler_bucket cfg now1) now1 orgs 0
      (update_heartbeat s1 ''scheduler'' ''electing'' None None host1 now1 db) = Inr (d, n)"
      "tasks db1 = tasks d"
    using assms(1-3) by (auto simp: run_scheduler_once_def Let_def res_bind_Inr)
  have "round_done (scheduler_bucket cfg now2) orgs2
      (update_heartbeat s2 ''scheduler'' ''electing'' None None host2 now2 db2)"
    using enqueue_round_done [OF d(1)] d(2) assms(4,5,6) by (auto simp: round_done_def)
  from enqueue_round_again [OF this] show ?thesis
    using assms(2,4) by (simp add: run_scheduler_once_def Let_def)
qed

definition sample_settings :: scheduler_settings where
  "sample_settings = \<lparr>scheduler_enabled = True, scheduler_interval_seconds = 60,
     background_task_backpressure_limit = 10000, background_task_max_attempts = 5\<rparr>"

theorem scheduler_idempotent_witness:
  "\<exists>db1 n db3. run_scheduler_once sample_settings ''s1'' True [7, 9] (\<lambda>n. n + 2) sample_host 100
       sample_queue = Inr (db1, n) \<and>
     run_scheduler_once sample_settings ''s2'' True [9] (\<lambda>n. n + 9) sample_host 200 db1 = Inr (db3, 0) \<and>
     tasks db3 = tasks db1"
proof -
  have "case run_scheduler_once sample_settings ''s1'' True [7, 9] (\<lambda>n. n + 2) sample_host 100
      sample_queue of Inl _ \<Rightarrow> False | Inr _ \<Rightarrow> True"
    by code_simp
  then obtain db1 n where r: "run_scheduler_once sample_settings ''s1'' True [7, 9] (\<lambda>n. n + 2)
      sample_host 100 sample_queue = Inr (db1, n)"
    by (auto split: sum.splits)
  have "scheduler_enabled sample_settings"
    "int (queue_depth sample_queue) < background_task_backpressure_limit sample_settings"
    "scheduler_bucket sample_settings 200 = scheduler_bucket sample_settings 100"
    by code_simp+
  from scheduler_idempotent [OF r this(1,2) refl _ this(3), of "[9]"] r show ?thesis
    by fastforce
qed

end
