(* ===== verification/IpAddr.thy ===== *)
theory IpAddr
  imports PyStrings "HOL-Library.Code_Target_Nat"
begin

text \<open>
  The part of Python's standard \<open>ipaddress\<close> module (3.12) the backend uses: parsing a network with
  \<open>ip_network(text, strict=False)\<close> and an address with \<open>ip_address\<close>, their canonical text, the number
  of addresses, \<open>in\<close>, \<open>overlaps\<close>, \<open>subnet_of\<close> and \<open>is_private\<close>.  An address is a natural number; a
  network is its version, network address, prefix length and (IPv6) scope identifier.
\<close>

record ip_network =
  ip_v6 :: bool
  ip_base :: nat
  ip_prefix :: nat
  ip_scope :: "string option"

definition ip_width :: "bool \<Rightarrow> nat" where
  "ip_width v6 = (if v6 then 128 else 32)"

definition host_bits :: "ip_network \<Rightarrow> nat" where
  "host_bits n = ip_width (ip_v6 n) - ip_prefix n"

definition num_addresses :: "ip_network \<Rightarrow> nat" where
  "num_addresses n = 2 ^ host_bits n"

definition broadcast :: "ip_network \<Rightarrow> nat" where
  "broadcast n = ip_base n + (num_addresses n - 1)"

text \<open>\<open>address in network\<close>, for an address of the network's version.\<close>

definition ip_in :: "nat \<Rightarrow> ip_network \<Rightarrow> bool" where
  "ip_in a n \<longleftrightarrow> a div 2 ^ host_bits n * 2 ^ host_bits n = ip_base n"

definition ip_overlaps :: "ip_network \<Rightarrow> ip_network \<Rightarrow> bool" where
  "ip_overlaps m n \<longleftrightarrow> ip_in (ip_base m) n \<or> ip_in (broadcast m) n \<or>
     ip_in (ip_base n) m \<or> ip_in (broadcast n) m"

text \<open>
  \<open>a.subnet_of(b)\<close> compares with \<open><=\<close>, where equal addresses must also have equal scope identifiers;
  broadcast addresses carry none.
\<close>

definition subnet_of :: "ip_network \<Rightarrow> ip_network \<Rightarrow> bool" where
  "subnet_of a b \<longleftrightarrow>
     (ip_base b < ip_base a \<or> ip_base b = ip_base a \<and> ip_scope b = ip_scope a) \<and>
     broadcast a \<le> broadcast b"

subsection \<open>Private ranges\<close>

definition quad :: "nat \<Rightarrow> nat \<Rightarrow> nat \<Rightarrow> nat \<Rightarrow> nat" where
  "quad a b c d = ((a * 256 + b) * 256 + c) * 256 + d"

text \<open>An IPv6 address from its leading groups; the remaining groups are zero.\<close>

definition groups :: "nat list \<Rightarrow> nat" where
  "groups hs = foldl (\<lambda>v h. 65536 * v + h) 0 (hs @ replicate (8 - length hs) 0)"

definition v4_net :: "nat \<Rightarrow> nat \<Rightarrow> ip_network" where
  "v4_net a p = \<lparr>ip_v6 = False, ip_base = a, ip_prefix = p, ip_scope = None\<rparr>"

definition v6_net :: "nat \<Rightarrow> nat \<Rightarrow> ip_network" where
  "v6_net a p = \<lparr>ip_v6 = True, ip_base = a, ip_prefix = p, ip_scope = None\<rparr>"

definition private_networks :: "bool \<Rightarrow> ip_network list" where
  "private_networks v6 =
     (if v6 then
        [v6_net 1 128, v6_net 0 128, v6_net (groups [0, 0, 0, 0, 0, 0xFFFF]) 96,
         v6_net (groups [0x64, 0xFF9B, 1]) 48, v6_net (groups [0x100]) 64,
         v6_net (groups [0x2001]) 23, v6_net (groups [0x2001, 0xDB8]) 32,
         v6_net (groups [0x2002]) 16, v6_net (groups [0xFC00]) 7, v6_net (groups [0xFE80]) 10]
      else
        [v4_net 0 8, v4_net (quad 10 0 0 0) 8, v4_net (quad 127 0 0 0) 8,
         v4_net (quad 169 254 0 0) 16, v4_net (quad 172 16 0 0) 12, v4_net (quad 192 0 0 0) 24,
         v4_net (quad 192 0 0 170) 31, v4_net (quad 192 0 2 0) 24, v4_net (quad 192 168 0 0) 16,
         v4_net (quad 198 18 0 0) 15, v4_net (quad 198 51 100 0) 24,
         v4_net (quad 203 0 113 0) 24, v4_net (quad 240 0 0 0) 4,
         v4_net (quad 255 255 255 255) 32])"

definition private_exceptions :: "bool \<Rightarrow> ip_network list" where
  "private_exceptions v6 =
     (if v6 then
        [v6_net (groups [0x2001, 1, 0, 0, 0, 0, 0, 1]) 128,
         v6_net (groups [0x2001, 1, 0, 0, 0, 0, 0, 2]) 128, v6_net (groups [0x2001, 3]) 32,
         v6_net (groups [0x2001, 4, 0x112]) 48, v6_net (groups [0x2001, 0x20]) 28,
         v6_net (groups [0x2001, 0x30]) 28]
      else [v4_net (quad 192 0 0 9) 32, v4_net (quad 192 0 0 10) 32])"

definition is_private :: "ip_network \<Rightarrow> bool" where
  "is_private n \<longleftrightarrow>
     (\<exists>p \<in> set (private_networks (ip_v6 n)). ip_in (ip_base n) p \<and> ip_in (broadcast n) p) \<and>
     (\<forall>p \<in> set (private_exceptions (ip_v6 n)). \<not> ip_in (ip_base n) p \<and> \<not> ip_in (broadcast n) p)"

subsection \<open>Parsing\<close>

definition all_digits :: "string \<Rightarrow> bool" where
  "all_digits s \<longleftrightarrow> s \<noteq> [] \<and> list_all is_digit s"

definition parse_octet :: "string \<Rightarrow> nat option" where
  "parse_octet s =
     (if \<not> all_digits s \<or> length s > 3 \<or> (s \<noteq> ''0'' \<and> hd s = CHR ''0'') \<or> digits_value s > 255
      then None else Some (digits_value s))"

fun parse_all :: "('a \<Rightarrow> 'b option) \<Rightarrow> 'a list \<Rightarrow> 'b list option" where
  "parse_all f [] = Some []"
| "parse_all f (x # xs) =
     (case f x of None \<Rightarrow> None | Some y \<Rightarrow> map_option (Cons y) (parse_all f xs))"

definition ipv4_parse :: "string \<Rightarrow> nat option" where
  "ipv4_parse s =
     (let octets = split_on (CHR ''.'') s
      in if length octets \<noteq> 4 then None
         else map_option (foldl (\<lambda>v o'. 256 * v + o') 0) (parse_all parse_octet octets))"

text \<open>The prefix length of a netmask \<open>1...10...0\<close>.\<close>

definition netmask_prefix :: "nat \<Rightarrow> nat option" where
  "netmask_prefix m = find (\<lambda>p. m = 2 ^ 32 - 2 ^ (32 - p)) [0..<33]"

definition parse_prefix :: "bool \<Rightarrow> string \<Rightarrow> nat option" where
  "parse_prefix v6 s =
     (if all_digits s \<and> digits_value s \<le> ip_width v6 then Some (digits_value s)
      else if v6 then None
      else case ipv4_parse s of None \<Rightarrow> None
        | Some m \<Rightarrow> or_opt (netmask_prefix m) (netmask_prefix (2 ^ 32 - 1 - m)))"

definition parse_hextet :: "string \<Rightarrow> nat option" where
  "parse_hextet s = (if s = [] \<or> length s > 4 then None else hex_fold 0 s)"

fun hex_str :: "nat \<Rightarrow> string" where
  "hex_str n = (if n < 16 then [hex_char n] else hex_str (n div 16) @ [hex_char (n mod 16)])"

declare hex_str.simps [simp del]

text \<open>An IPv4 suffix is first rewritten as two hexadecimal groups.\<close>

definition ipv4_suffix :: "string list \<Rightarrow> string list option" where
  "ipv4_suffix parts =
     (if CHR ''.'' \<in> set (last parts)
      then map_option (\<lambda>v. butlast parts @ [hex_str (v div 65536), hex_str (v mod 65536)])
             (ipv4_parse (last parts))
      else Some parts)"

text \<open>The groups before and after \<open>::\<close> and the number of groups it stands for.\<close>

definition split_groups :: "string list \<Rightarrow> (string list \<times> nat \<times> string list) option" where
  "split_groups parts =
     (case filter (\<lambda>i. parts ! i = []) [1..<length parts - 1] of
        [] \<Rightarrow> if length parts \<noteq> 8 \<or> hd parts = [] \<or> last parts = [] then None
              else Some (parts, 0, [])
      | [i] \<Rightarrow>
          let hi = i - of_bool (hd parts = []);
              lo = length parts - i - 1 - of_bool (last parts = [])
          in if hd parts = [] \<and> hi \<noteq> 0 \<or> last parts = [] \<and> lo \<noteq> 0 \<or> hi + lo \<ge> 8 then None
             else Some (take hi parts, 8 - (hi + lo), drop (length parts - lo) parts)
      | _ \<Rightarrow> None)"

definition ipv6_parse :: "string \<Rightarrow> nat option" where
  "ipv6_parse s =
     (let parts = split_on (CHR '':'') s
      in if length parts < 3 then None
         else case ipv4_suffix parts of None \<Rightarrow> None
         | Some parts \<Rightarrow>
             if length parts > 9 then None
             else case split_groups parts of None \<Rightarrow> None
             | Some (hi, skipped, lo) \<Rightarrow>
                 (case (parse_all parse_hextet hi, parse_all parse_hextet lo) of
                    (Some his, Some los) \<Rightarrow>
                      Some (foldl (\<lambda>v h. 65536 * v + h) 0 (his @ replicate skipped 0 @ los))
                  | _ \<Rightarrow> None))"

definition split_scope :: "string \<Rightarrow> (string \<times> string option) option" where
  "split_scope s =
     (case split_on (CHR 0x25) s of
        [a] \<Rightarrow> Some (a, None)
      | [a, sc] \<Rightarrow> if sc = [] then None else Some (a, Some sc)
      | _ \<Rightarrow> None)"

text \<open>
  Masking the host bits makes a new address, which has no scope identifier; an address without host
  bits keeps its own.
\<close>

definition mask_network :: "bool \<Rightarrow> nat \<Rightarrow> string option \<Rightarrow> nat \<Rightarrow> ip_network" where
  "mask_network v6 a sc p =
     (let b = a div 2 ^ (ip_width v6 - p) * 2 ^ (ip_width v6 - p)
      in \<lparr>ip_v6 = v6, ip_base = b, ip_prefix = p, ip_scope = (if b = a then sc else None)\<rparr>)"

definition parse_network_as :: "bool \<Rightarrow> string \<Rightarrow> string option \<Rightarrow> ip_network option" where
  "parse_network_as v6 addr netmask =
     (let p = (case netmask of None \<Rightarrow> Some (ip_width v6) | Some m \<Rightarrow> parse_prefix v6 m);
          a = (if v6 then case split_scope addr of None \<Rightarrow> None
                 | Some (s, sc) \<Rightarrow> map_option (\<lambda>a. (a, sc)) (ipv6_parse s)
               else map_option (\<lambda>a. (a, None)) (ipv4_parse addr))
      in case (a, p) of
           (Some (a, sc), Some p) \<Rightarrow> Some (mask_network v6 a sc p)
         | _ \<Rightarrow> None)"

definition ip_network_parse :: "string \<Rightarrow> ip_network option" where
  "ip_network_parse s =
     (case split_on (CHR ''/'') s of
        [addr] \<Rightarrow> or_opt (parse_network_as False addr None) (parse_network_as True addr None)
      | [addr, m] \<Rightarrow> or_opt (parse_network_as False addr (Some m)) (parse_network_as True addr (Some m))
      | _ \<Rightarrow> None)"

text \<open>\<open>ipaddress.ip_address(text)\<close>: whether it accepts the text.\<close>

definition is_ip_address :: "string \<Rightarrow> bool" where
  "is_ip_address s \<longleftrightarrow> CHR ''/'' \<notin> set s \<and>
     (ipv4_parse s \<noteq> None \<or>
      (case split_scope s of None \<Rightarrow> False | Some (a, _) \<Rightarrow> ipv6_parse a \<noteq> None))"

subsection \<open>Canonical text\<close>

definition ipv4_str :: "nat \<Rightarrow> string" where
  "ipv4_str a = join_with ''.'' (map nat_str
     [a div 16777216 mod 256, a div 65536 mod 256, a div 256 mod 256, a mod 256])"

text \<open>The loop of \<open>_compress_hextets\<close>: the first longest run of zero groups, as start and length.\<close>

fun longest_zeros :: "nat \<Rightarrow> nat \<Rightarrow> nat \<Rightarrow> nat \<times> nat \<Rightarrow> string list \<Rightarrow> nat \<times> nat" where
  "longest_zeros i start len best [] = best"
| "longest_zeros i start len best (h # hs) =
     (if h = ''0''
      then let start' = (if len = 0 then i else start);
               len' = len + 1
           in longest_zeros (i + 1) start' len' (if len' > snd best then (start', len') else best) hs
      else longest_zeros (i + 1) start 0 best hs)"

definition compress_hextets :: "string list \<Rightarrow> string list" where
  "compress_hextets hs =
     (let (start, len) = longest_zeros 0 0 0 (0, 0) hs
      in if len \<le> 1 then hs
         else (if start = 0 then [[]] else []) @ take start hs @ [[]] @ drop (start + len) hs @
              (if start + len = length hs then [[]] else []))"

definition hextets :: "nat \<Rightarrow> nat list" where
  "hextets a = map (\<lambda>i. a div 65536 ^ i mod 65536) [7, 6, 5, 4, 3, 2, 1, 0]"

definition ipv6_str :: "nat \<Rightarrow> string" where
  "ipv6_str a = join_with '':'' (compress_hextets (map hex_str (hextets a)))"

definition address_str :: "ip_network \<Rightarrow> string" where
  "address_str n =
     (if ip_v6 n
      then ipv6_str (ip_base n) @ (case ip_scope n of None \<Rightarrow> [] | Some s \<Rightarrow> CHR 0x25 # s)
      else ipv4_str (ip_base n))"

definition network_str :: "ip_network \<Rightarrow> string" where
  "network_str n = address_str n @ ''/'' @ nat_str (ip_prefix n)"

subsection \<open>Address sets\<close>

definition wf_net :: "ip_network \<Rightarrow> bool" where
  "wf_net n \<longleftrightarrow> ip_prefix n \<le> ip_width (ip_v6 n) \<and> 2 ^ host_bits n dvd ip_base n \<and>
     ip_base n < 2 ^ ip_width (ip_v6 n) \<and>
     (case ip_scope n of None \<Rightarrow> True
      | Some s \<Rightarrow> ip_v6 n \<and> s \<noteq> [] \<and> CHR 0x25 \<notin> set s \<and> CHR ''/'' \<notin> set s)"

definition addrs :: "ip_network \<Rightarrow> nat set" where
  "addrs n = {ip_base n..broadcast n}"

lemma num_addresses_pos [simp]: "0 < num_addresses n"
  by (simp add: num_addresses_def)

lemma card_addrs: "card (addrs n) = num_addresses n"
  using num_addresses_pos [of n] by (simp add: addrs_def broadcast_def)

lemma div_block_iff:
  fixes a b k :: nat
  assumes "k dvd b" and "0 < k"
  shows "a div k * k = b \<longleftrightarrow> b \<le> a \<and> a \<le> b + (k - 1)"
proof -
  obtain q where q: "b = k * q" using assms(1) by (auto elim: dvdE)
  have "a div k * k = b \<longleftrightarrow> a div k = q" using assms(2) by (auto simp: q)
  also have "\<dots> \<longleftrightarrow> k * q \<le> a \<and> a < k * q + k"
    using assms(2) by (metis div_nat_eqI div_times_less_eq_dividend dividend_less_div_times
        mult.commute mult_Suc_right add.commute)
  also have "\<dots> \<longleftrightarrow> b \<le> a \<and> a \<le> b + (k - 1)" using assms(2) by (auto simp: q)
  finally show ?thesis .
qed

lemma ip_in_iff: "wf_net n \<Longrightarrow> ip_in a n \<longleftrightarrow> a \<in> addrs n"
  unfolding ip_in_def addrs_def broadcast_def num_addresses_def
  by (subst div_block_iff) (auto simp: wf_net_def)

lemma base_in_addrs [simp]: "ip_base n \<in> addrs n" "broadcast n \<in> addrs n"
  by (simp_all add: addrs_def broadcast_def)

lemma ip_overlaps_iff:
  assumes "wf_net m" and "wf_net n"
  shows "ip_overlaps m n \<longleftrightarrow> addrs m \<inter> addrs n \<noteq> {}"
proof -
  have "ip_overlaps m n \<longleftrightarrow> ip_base m \<in> addrs n \<or> broadcast m \<in> addrs n \<or>
      ip_base n \<in> addrs m \<or> broadcast n \<in> addrs m"
    using assms by (simp add: ip_overlaps_def ip_in_iff)
  also have "\<dots> \<longleftrightarrow> addrs m \<inter> addrs n \<noteq> {}"
  proof
    assume "addrs m \<inter> addrs n \<noteq> {}"
    then obtain a where "a \<in> addrs m" "a \<in> addrs n" by blast
    then show "ip_base m \<in> addrs n \<or> broadcast m \<in> addrs n \<or>
        ip_base n \<in> addrs m \<or> broadcast n \<in> addrs m"
      by (auto simp: addrs_def)
  qed (use base_in_addrs in blast)
  finally show ?thesis .
qed

lemma subnet_of_addrs: "subnet_of a b \<Longrightarrow> addrs a \<subseteq> addrs b"
  by (auto simp: subnet_of_def addrs_def)

lemma subnet_of_iff:
  "ip_scope a = None \<Longrightarrow> ip_scope b = None \<Longrightarrow> subnet_of a b \<longleftrightarrow> addrs a \<subseteq> addrs b"
  by (auto simp: subnet_of_def addrs_def broadcast_def)

subsection \<open>Parsed networks are well formed\<close>

lemma foldl_radix_less:
  fixes r :: nat
  shows "(\<And>d. d \<in> set ds \<Longrightarrow> d < r) \<Longrightarrow> foldl (\<lambda>v d. r * v + d) v ds < (v + 1) * r ^ length ds"
proof (induction ds arbitrary: v)
  case Nil
  then show ?case by simp
next
  case (Cons d ds)
  have d: "d < r" using Cons.prems by simp
  have "foldl (\<lambda>v d. r * v + d) (r * v + d) ds < (r * v + d + 1) * r ^ length ds"
    using Cons by simp
  also have "\<dots> \<le> (r * v + r) * r ^ length ds"
    using d by (intro mult_right_mono) simp_all
  finally show ?case by (simp add: algebra_simps)
qed

lemma parse_all_Some:
  "parse_all f xs = Some ys \<longleftrightarrow> list_all2 (\<lambda>x y. f x = Some y) xs ys"
  by (induction xs arbitrary: ys) (auto simp: list_all2_Cons1 split: option.splits)

lemma parse_all_length: "parse_all f xs = Some ys \<Longrightarrow> length ys = length xs"
  by (auto simp: parse_all_Some dest: list_all2_lengthD)

lemma parse_all_bound:
  "parse_all f xs = Some ys \<Longrightarrow> (\<And>x y. f x = Some y \<Longrightarrow> P y) \<Longrightarrow> y \<in> set ys \<Longrightarrow> P y"
  by (auto simp: parse_all_Some list_all2_conv_all_nth in_set_conv_nth)

lemma parse_all_map: "(\<And>x. x \<in> set xs \<Longrightarrow> f (g x) = Some x) \<Longrightarrow> parse_all f (map g xs) = Some xs"
  by (induction xs) auto

lemma parse_octet_less: "parse_octet s = Some v \<Longrightarrow> v < 256"
  by (auto simp: parse_octet_def split: if_split_asm)

lemma ipv4_parse_less: "ipv4_parse s = Some a \<Longrightarrow> a < 2 ^ 32"
proof -
  assume "ipv4_parse s = Some a"
  then obtain vs where vs: "parse_all parse_octet (split_on (CHR ''.'') s) = Some vs"
      "length (split_on (CHR ''.'') s) = 4" "a = foldl (\<lambda>v o'. 256 * v + o') 0 vs"
    by (auto simp: ipv4_parse_def Let_def split: if_split_asm)
  have "foldl (\<lambda>v o'. 256 * v + o') 0 vs < (0 + 1) * 256 ^ length vs"
    by (rule foldl_radix_less) (rule parse_all_bound [OF vs(1) parse_octet_less])
  then show ?thesis using vs parse_all_length [OF vs(1)] by simp
qed

lemma hex_value_less: "hex_value c = Some d \<Longrightarrow> d < 16"
  by (auto simp: hex_value_def is_digit_def split: if_split_asm)

lemma hex_fold_less: "hex_fold v s = Some w \<Longrightarrow> w < (v + 1) * 16 ^ length s"
proof (induction s arbitrary: v)
  case Nil
  then show ?case by simp
next
  case (Cons c s)
  then obtain d where d: "hex_value c = Some d" "hex_fold (16 * v + d) s = Some w"
    by (auto split: option.splits)
  have "w < (16 * v + d + 1) * 16 ^ length s" by (rule Cons.IH) (rule d(2))
  also have "\<dots> \<le> (16 * v + 16) * 16 ^ length s"
    using hex_value_less [OF d(1)] by (intro mult_right_mono) simp_all
  finally show ?case by (simp add: algebra_simps)
qed

lemma parse_hextet_less: "parse_hextet s = Some v \<Longrightarrow> v < 65536"
proof -
  assume "parse_hextet s = Some v"
  then have h: "hex_fold 0 s = Some v" "length s \<le> 4"
    by (auto simp: parse_hextet_def split: if_split_asm)
  have "v < 16 ^ length s" using hex_fold_less [OF h(1)] by simp
  also have "\<dots> \<le> 16 ^ 4" using h(2) by (intro power_increasing) simp_all
  finally show ?thesis by simp
qed

lemma split_groups_length:
  assumes "split_groups parts = Some (hi, k, lo)"
  shows "length hi + k + length lo = 8"
proof -
  have "i < length parts" if "filter (\<lambda>i. parts ! i = []) [1..<length parts - 1] = [i]" for i
  proof -
    have "i \<in> set (filter (\<lambda>i. parts ! i = []) [1..<length parts - 1])" using that by simp
    then show ?thesis by auto
  qed
  then show ?thesis
    using assms by (auto simp: split_groups_def Let_def of_bool_def split: list.splits if_split_asm)
qed

lemma ipv6_parse_less: "ipv6_parse s = Some a \<Longrightarrow> a < 2 ^ 128"
proof -
  assume "ipv6_parse s = Some a"
  then obtain parts hi k lo his los where p: "split_groups parts = Some (hi, k, lo)"
      "parse_all parse_hextet hi = Some his" "parse_all parse_hextet lo = Some los"
      "a = foldl (\<lambda>v h. 65536 * v + h) 0 (his @ replicate k 0 @ los)"
    by (auto simp: ipv6_parse_def Let_def split: if_split_asm option.splits)
  have "foldl (\<lambda>v h. 65536 * v + h) 0 (his @ replicate k 0 @ los)
      < (0 + 1) * 65536 ^ length (his @ replicate k 0 @ los)"
    using parse_all_bound [OF p(2) parse_hextet_less] parse_all_bound [OF p(3) parse_hextet_less]
    by (intro foldl_radix_less) auto
  moreover have "length (his @ replicate k 0 @ los) = 8"
    using split_groups_length [OF p(1)] parse_all_length [OF p(2)] parse_all_length [OF p(3)] by simp
  ultimately show ?thesis using p(4) by (simp only:) simp
qed

lemma netmask_prefix_le: "netmask_prefix m = Some p \<Longrightarrow> p \<le> 32"
  unfolding netmask_prefix_def by (drule find_SomeD) simp

lemma parse_prefix_le: "parse_prefix v6 s = Some p \<Longrightarrow> p \<le> ip_width v6"
  by (auto simp: parse_prefix_def ip_width_def or_opt_def dest: netmask_prefix_le
      split: if_split_asm option.splits)

lemma mask_network_wf:
  assumes "a < 2 ^ ip_width v6" and "p \<le> ip_width v6"
    and "case sc of None \<Rightarrow> True
         | Some s \<Rightarrow> v6 \<and> s \<noteq> [] \<and> CHR 0x25 \<notin> set s \<and> CHR ''/'' \<notin> set s"
  shows "wf_net (mask_network v6 a sc p)"
proof -
  have "a div 2 ^ (ip_width v6 - p) * 2 ^ (ip_width v6 - p) \<le> a" by (rule div_times_less_eq_dividend)
  then have "a div 2 ^ (ip_width v6 - p) * 2 ^ (ip_width v6 - p) < 2 ^ ip_width v6"
    using assms(1) by (rule le_less_trans)
  then show ?thesis
    using assms(2,3) by (simp add: mask_network_def wf_net_def host_bits_def Let_def split: option.splits)
qed

lemma split_scope_wf:
  assumes "split_scope s = Some (a, Some sc)"
  shows "sc \<noteq> [] \<and> CHR 0x25 \<notin> set sc \<and> set sc \<subseteq> set s"
proof -
  have "split_on (CHR 0x25) s = [a, sc]" "sc \<noteq> []"
    using assms by (auto simp: split_scope_def split: list.splits if_split_asm)
  moreover from this have "s = join_with [CHR 0x25] [a, sc]"
    using join_split [of "CHR 0x25" s] by simp
  ultimately show ?thesis
    using split_on_no_sep [of sc "CHR 0x25" s] by auto
qed

lemma parse_network_as_wf:
  assumes "parse_network_as v6 addr m = Some n" and "CHR ''/'' \<notin> set addr"
  shows "wf_net n \<and> ip_v6 n = v6"
proof -
  from assms(1) obtain a sc p where
    a: "(if v6 then case split_scope addr of None \<Rightarrow> None
           | Some (s, sc) \<Rightarrow> map_option (\<lambda>a. (a, sc)) (ipv6_parse s)
         else map_option (\<lambda>a. (a, None)) (ipv4_parse addr)) = Some (a, sc)" and
    p: "(case m of None \<Rightarrow> Some (ip_width v6) | Some m \<Rightarrow> parse_prefix v6 m) = Some p" and
    n: "n = mask_network v6 a sc p"
    by (auto simp: parse_network_as_def Let_def split: option.splits)
  have "p \<le> ip_width v6"
    using p by (auto dest: parse_prefix_le split: option.splits)
  moreover have "a < 2 ^ ip_width v6"
    using a by (auto simp: ip_width_def split: if_split_asm option.splits
        dest!: ipv4_parse_less ipv6_parse_less)
  moreover have "case sc of None \<Rightarrow> True
      | Some s \<Rightarrow> v6 \<and> s \<noteq> [] \<and> CHR 0x25 \<notin> set s \<and> CHR ''/'' \<notin> set s"
    using a assms(2) by (auto split: if_split_asm option.splits dest!: split_scope_wf)
  ultimately show ?thesis
    using n by (simp add: mask_network_wf) (simp add: mask_network_def Let_def)
qed

lemma ip_network_parse_wf: "ip_network_parse s = Some n \<Longrightarrow> wf_net n"
  using split_on_no_sep [of _ "CHR ''/''" s]
  by (fastforce simp: ip_network_parse_def or_opt_def split: list.splits option.splits
      dest: parse_network_as_wf)

subsection \<open>Round trip\<close>

lemma foldl_radix_digits:
  fixes a r :: nat
  shows "foldl (\<lambda>v d. r * v + d) v (map (\<lambda>i. a div r ^ i mod r) (rev [0..<k])) = v * r ^ k + a mod r ^ k"
proof (induction k arbitrary: v)
  case 0
  then show ?case by simp
next
  case (Suc k)
  have "a mod (r * r ^ k) = r ^ k * (a div r ^ k mod r) + a mod r ^ k"
    by (metis mod_mult2_eq mult.commute)
  with Suc.IH show ?case by (simp add: algebra_simps)
qed

lemma nat_str_all_digits: "all_digits (nat_str n)"
  by (auto simp: all_digits_def list_all_iff dest: nat_str_digits)

lemma parse_octet_nat_str: "d < 256 \<Longrightarrow> parse_octet (nat_str d) = Some d"
proof -
  assume d: "d < 256"
  have "nat_str 0 = ''0''" by code_simp
  moreover have "digit_char 0 = CHR ''0''" by code_simp
  ultimately have "nat_str d \<noteq> ''0'' \<Longrightarrow> hd (nat_str d) \<noteq> CHR ''0''"
    using nat_str_no_leading_zero [of d] by (cases "d = 0") simp_all
  with d length_nat_str_3 [of d] show ?thesis
    by (auto simp: parse_octet_def nat_str_all_digits)
qed

lemma nat_str_no: "\<not> is_digit c \<Longrightarrow> c \<notin> set (nat_str n)"
  using nat_str_digits by blast

lemma special_not_digit [simp]:
  "\<not> is_digit (CHR ''.'')" "\<not> is_digit (CHR '':'')" "\<not> is_digit (CHR ''/'')" "\<not> is_digit (CHR 0x25)"
  by code_simp+

lemma ipv4_parse_str: "a < 2 ^ 32 \<Longrightarrow> ipv4_parse (ipv4_str a) = Some a"
proof -
  assume a: "a < 2 ^ 32"
  let ?ds = "map (\<lambda>i. a div 256 ^ i mod 256) (rev [0..<4])"
  have ds: "?ds = [a div 16777216 mod 256, a div 65536 mod 256, a div 256 mod 256, a mod 256]"
    by (simp add: upt_rec)
  have s: "split_on (CHR ''.'') (ipv4_str a) = map nat_str ?ds"
    unfolding ipv4_str_def ds by (rule split_join) (auto dest: nat_str_digits)
  have "parse_all parse_octet (map nat_str ?ds) = Some ?ds"
    by (rule parse_all_map) (auto intro: parse_octet_nat_str)
  moreover have "foldl (\<lambda>v o'. 256 * v + o') 0 ?ds = a"
    using foldl_radix_digits [of 256 0 a 4] a by simp
  moreover have "length (map nat_str ?ds) = 4" by simp
  ultimately show ?thesis
    unfolding ipv4_parse_def s Let_def by (simp only: if_False option.map simp_thms)
qed

lemma colon_not_ipv4: "CHR '':'' \<in> set s \<Longrightarrow> ipv4_parse s = None"
proof (rule ccontr)
  assume c: "CHR '':'' \<in> set s" "ipv4_parse s \<noteq> None"
  then obtain vs where "parse_all parse_octet (split_on (CHR ''.'') s) = Some vs"
    by (auto simp: ipv4_parse_def Let_def split: if_split_asm)
  then have digits: "p \<in> set (split_on (CHR ''.'') s) \<Longrightarrow> all_digits p" for p
    by (auto simp: parse_all_Some list_all2_conv_all_nth in_set_conv_nth parse_octet_def
        split: if_split_asm)
  have "set (join_with ''.'' ps) \<subseteq> insert (CHR ''.'') (\<Union> (set ` set ps))" for ps
    by (induction "''.''" ps rule: join_with.induct) auto
  then have "set s \<subseteq> insert (CHR ''.'') (\<Union> (set ` set (split_on (CHR ''.'') s)))"
    by (metis join_split)
  then obtain p where "p \<in> set (split_on (CHR ''.'') s)" "CHR '':'' \<in> set p"
    using c(1) by auto
  with digits [of p] show False by (auto simp: all_digits_def list_all_iff)
qed

definition is_hex :: "char \<Rightarrow> bool" where
  "is_hex c \<longleftrightarrow> hex_value c \<noteq> None"

lemma special_not_hex [simp]:
  "\<not> is_hex (CHR ''.'')" "\<not> is_hex (CHR '':'')" "\<not> is_hex (CHR ''/'')" "\<not> is_hex (CHR 0x25)"
  by code_simp+

lemma hex_str_hex: "c \<in> set (hex_str n) \<Longrightarrow> is_hex c"
proof (induction n rule: hex_str.induct)
  case (1 n)
  then show ?case by (cases "n < 16") (auto simp: hex_str.simps [of n] is_hex_def)
qed

lemma hex_fold_hex_str: "hex_fold 0 (hex_str n) = Some n"
proof (induction n rule: hex_str.induct)
  case (1 n)
  then show ?case by (cases "n < 16") (simp_all add: hex_str.simps [of n] hex_fold_append)
qed

lemma hex_str_nonempty [simp]: "hex_str n \<noteq> []"
  by (subst hex_str.simps) simp

lemma nonempty_hex_str [simp]: "[] \<noteq> hex_str n"
  using hex_str_nonempty [of n] by metis

lemma length_hex_str_4: "n < 65536 \<Longrightarrow> length (hex_str n) \<le> 4"
proof -
  assume "n < 65536"
  then have "n div 16 div 16 div 16 < 16" by simp
  then show ?thesis
    by (simp add: hex_str.simps [of n] hex_str.simps [of "n div 16"]
        hex_str.simps [of "n div 16 div 16"] hex_str.simps [of "n div 16 div 16 div 16"])
qed

lemma parse_hextet_hex_str: "n < 65536 \<Longrightarrow> parse_hextet (hex_str n) = Some n"
  using length_hex_str_4 [of n] by (simp add: parse_hextet_def hex_fold_hex_str)

text \<open>The run found by the compression loop.\<close>

definition zero_run :: "string list \<Rightarrow> nat \<Rightarrow> nat \<Rightarrow> bool" where
  "zero_run hs s l \<longleftrightarrow> s + l \<le> length hs \<and> (\<forall>i. s \<le> i \<and> i < s + l \<longrightarrow> hs ! i = ''0'')"

lemma longest_zeros_run:
  assumes "zero_run all s l" and "i + length hs = length all" and "drop i all = hs"
    and "zero_run all (if len = 0 then i else start) len" and "len \<noteq> 0 \<Longrightarrow> start + len = i"
    and "longest_zeros i start len (s, l) hs = (s', l')"
  shows "zero_run all s' l'"
  using assms
proof (induction hs arbitrary: i start len s l)
  case Nil
  then show ?case by simp
next
  case (Cons h hs)
  have h: "all ! i = h" using Cons.prems(2,3) by (metis nth_via_drop)
  have d: "drop (i + 1) all = hs"
    using Cons.prems(3) by (metis Suc_eq_plus1 drop_Suc list.sel(3) tl_drop)
  show ?case
  proof (cases "h = ''0''")
    case False
    have "longest_zeros (i + 1) start 0 (s, l) hs = (s', l')"
      using Cons.prems(6) False by simp
    moreover have "zero_run all (if 0 = (0::nat) then i + 1 else start) 0"
      using Cons.prems(2) by (auto simp: zero_run_def)
    ultimately show ?thesis
      using Cons.IH [of s l "i + 1" 0 start] Cons.prems(1,2) d by simp
  next
    case True
    let ?start = "if len = 0 then i else start"
    have s: "?start + len = i" using Cons.prems(5) by auto
    have run: "zero_run all ?start (len + 1)"
      unfolding zero_run_def
    proof (intro conjI allI impI)
      show "?start + (len + 1) \<le> length all" using s Cons.prems(2) by simp
    next
      fix j
      assume j: "?start \<le> j \<and> j < ?start + (len + 1)"
      show "all ! j = ''0''"
      proof (cases "j = i")
        case True
        with h \<open>h = ''0''\<close> show ?thesis by simp
      next
        case False
        with j s have "j < ?start + len" by linarith
        with j Cons.prems(4) show ?thesis by (cases "len = 0") (auto simp: zero_run_def)
      qed
    qed
    obtain s1 l1 where best: "(if len + 1 > l then (?start, len + 1) else (s, l)) = (s1, l1)"
      by fastforce
    then have "zero_run all s1 l1"
      using run Cons.prems(1) by (auto split: if_split_asm)
    moreover have "longest_zeros (i + 1) ?start (len + 1) (s1, l1) hs = (s', l')"
      using Cons.prems(6) unfolding longest_zeros.simps if_P [OF True] Let_def snd_conv best .
    ultimately show ?thesis
      using Cons.IH [of s1 l1 "i + 1" "len + 1" ?start] Cons.prems(2) d run s by simp
  qed
qed

text \<open>
  Splitting and parsing the compressed groups.  There are 28 possible runs of at least two zero
  groups; each is evaluated on the eight symbolic groups.
\<close>

lemma nth_8: "length xs = 8 \<Longrightarrow> xs = [xs ! 0, xs ! 1, xs ! 2, xs ! 3, xs ! 4, xs ! 5, xs ! 6, xs ! 7]"
  by (auto simp: numeral_eq_Suc length_Suc_conv)

lemma compressed_groups:
  assumes "length hs = 8" and "[] \<notin> set hs" and "2 \<le> l" and "s + l \<le> 8"
    and "compress = (if s = 0 then [[]] else []) @ take s hs @ [[]] @ drop (s + l) hs @
      (if s + l = 8 then [[]] else [])"
  shows "split_groups compress = Some (take s hs, l, drop (s + l) hs) \<and>
    3 \<le> length compress \<and> length compress \<le> 9"
proof -
  obtain a b c d e f g h where hs: "hs = [a, b, c, d, e, f, g, h]"
    using nth_8 [OF assms(1)] by blast
  have ne: "a \<noteq> []" "b \<noteq> []" "c \<noteq> []" "d \<noteq> []" "e \<noteq> []" "f \<noteq> []" "g \<noteq> []" "h \<noteq> []"
    using assms(2) by (auto simp: hs)
  have "s = 0 \<or> s = 1 \<or> s = 2 \<or> s = 3 \<or> s = 4 \<or> s = 5 \<or> s = 6"
    "l = 2 \<or> l = 3 \<or> l = 4 \<or> l = 5 \<or> l = 6 \<or> l = 7 \<or> l = 8"
    using assms(3,4) by linarith+
  then show ?thesis
    using assms(4) unfolding assms(5) hs
    by (elim disjE) (simp_all add: split_groups_def ne upt_rec Let_def)
qed

lemma plain_groups:
  assumes "length hs = 8" and "[] \<notin> set hs"
  shows "split_groups hs = Some (take 8 hs, 0, drop (8 + 0) hs)"
proof -
  have ne: "hs ! i \<noteq> []" if "i < 8" for i
    using that assms by (metis nth_mem)
  have "filter (\<lambda>i. hs ! i = []) [1..<length hs - 1] = []"
    using assms(1) ne by (auto simp: filter_empty_conv)
  moreover have "hs \<noteq> []" using assms(1) by auto
  then have "hd hs \<noteq> []" "last hs \<noteq> []"
    using assms(2) hd_in_set last_in_set by metis+
  ultimately show ?thesis using assms(1) by (simp add: split_groups_def)
qed

lemma compress_hextets_groups:
  assumes "length hs = 8" and "[] \<notin> set hs"
  shows "\<exists>s l. zero_run hs s l \<and>
    split_groups (compress_hextets hs) = Some (take s hs, l, drop (s + l) hs) \<and>
    3 \<le> length (compress_hextets hs) \<and> length (compress_hextets hs) \<le> 9"
proof -
  obtain s l where sl: "longest_zeros 0 0 0 (0, 0) hs = (s, l)" by fastforce
  have run: "zero_run hs s l"
    by (rule longest_zeros_run [OF _ _ _ _ _ sl]) (simp_all add: zero_run_def)
  show ?thesis
  proof (cases "l \<le> 1")
    case True
    then have c: "compress_hextets hs = hs" by (simp add: compress_hextets_def sl)
    have "zero_run hs 8 0" using assms(1) by (auto simp: zero_run_def)
    with plain_groups [OF assms] assms(1) show ?thesis
      unfolding c by (intro exI [of _ 8] exI [of _ 0] conjI) simp_all
  next
    case False
    then have l: "2 \<le> l" by simp
    have "s + l \<le> 8" using run assms(1) by (simp add: zero_run_def)
    moreover have "compress_hextets hs = (if s = 0 then [[]] else []) @ take s hs @ [[]] @
        drop (s + l) hs @ (if s + l = 8 then [[]] else [])"
      using l assms(1) by (simp add: compress_hextets_def sl)
    ultimately have "split_groups (compress_hextets hs) = Some (take s hs, l, drop (s + l) hs) \<and>
        3 \<le> length (compress_hextets hs) \<and> length (compress_hextets hs) \<le> 9"
      by (rule compressed_groups [OF assms l])
    with run show ?thesis by blast
  qed
qed

lemma hex_groups_nonempty: "[] \<notin> hex_str ` set hs"
  by auto

lemma set_compress_hextets: "p \<in> set (compress_hextets hs) \<Longrightarrow> p = [] \<or> p \<in> set hs"
  by (auto simp: compress_hextets_def Let_def split: prod.splits if_split_asm
      dest: in_set_takeD in_set_dropD)

lemma length_hextets [simp]: "length (hextets a) = 8"
  by (simp add: hextets_def)

lemma hextets_less: "h \<in> set (hextets a) \<Longrightarrow> h < 65536"
  by (auto simp: hextets_def)

lemma foldl_hextets: "a < 2 ^ 128 \<Longrightarrow> foldl (\<lambda>v h. 65536 * v + h) 0 (hextets a) = a"
proof -
  have "hextets a = map (\<lambda>i. a div 65536 ^ i mod 65536) (rev [0..<8])"
    by (simp add: hextets_def upt_rec)
  then show "a < 2 ^ 128 \<Longrightarrow> ?thesis"
    using foldl_radix_digits [of 65536 0 a 8] by simp
qed

lemma parse_zero_run:
  assumes "zero_run (map hex_str hs) s l"
  shows "take s hs @ replicate l 0 @ drop (s + l) hs = hs"
proof (rule nth_equalityI)
  show len: "length (take s hs @ replicate l 0 @ drop (s + l) hs) = length hs"
    using assms by (simp add: zero_run_def)
  fix i
  assume "i < length (take s hs @ replicate l 0 @ drop (s + l) hs)"
  then have i: "i < length hs" by (simp only: len)
  have "hs ! i = 0" if "s \<le> i" "i < s + l"
  proof -
    have "hex_str 0 = ''0''" by code_simp
    then have "hex_str (hs ! i) = hex_str 0"
      using assms that i by (auto simp: zero_run_def)
    then show ?thesis by (metis hex_fold_hex_str option.inject)
  qed
  then show "(take s hs @ replicate l 0 @ drop (s + l) hs) ! i = hs ! i"
    using i assms by (auto simp: nth_append zero_run_def)
qed

lemma ipv6_str_chars: "c \<in> set (ipv6_str a) \<Longrightarrow> c = CHR '':'' \<or> is_hex c"
proof -
  have "set (join_with '':'' ps) \<subseteq> insert (CHR '':'') (\<Union> (set ` set ps))" for ps
    by (induction "'':''" ps rule: join_with.induct) auto
  then show "c \<in> set (ipv6_str a) \<Longrightarrow> ?thesis"
    unfolding ipv6_str_def by (fastforce dest: set_compress_hextets hex_str_hex)
qed

lemma ipv6_parse_str: "a < 2 ^ 128 \<Longrightarrow> ipv6_parse (ipv6_str a) = Some a"
proof -
  assume a: "a < 2 ^ 128"
  let ?hs = "map hex_str (hextets a)"
  obtain s l where sl: "zero_run ?hs s l"
      "split_groups (compress_hextets ?hs) = Some (take s ?hs, l, drop (s + l) ?hs)"
      "3 \<le> length (compress_hextets ?hs)" "length (compress_hextets ?hs) \<le> 9"
    using compress_hextets_groups [of ?hs] hex_groups_nonempty [of "hextets a"] by auto
  have plain: "CHR '':'' \<notin> set p \<and> CHR ''.'' \<notin> set p" if "p \<in> set (compress_hextets ?hs)" for p
    using set_compress_hextets [OF that] by (auto dest: hex_str_hex)
  have ne: "compress_hextets ?hs \<noteq> []" using sl(3) by auto
  have parts: "split_on (CHR '':'') (ipv6_str a) = compress_hextets ?hs"
    unfolding ipv6_str_def using ne plain by (intro split_join) auto
  have suffix: "ipv4_suffix (compress_hextets ?hs) = Some (compress_hextets ?hs)"
    using plain [OF last_in_set [OF ne]] by (simp add: ipv4_suffix_def)
  have groups: "parse_all parse_hextet (map hex_str hs) = Some hs" if "set hs \<subseteq> set (hextets a)" for hs
    using that by (intro parse_all_map parse_hextet_hex_str) (auto intro: hextets_less)
  have hi: "parse_all parse_hextet (take s ?hs) = Some (take s (hextets a))"
    using groups [of "take s (hextets a)"] by (simp add: take_map set_take_subset)
  have lo: "parse_all parse_hextet (drop (s + l) ?hs) = Some (drop (s + l) (hextets a))"
    using groups [of "drop (s + l) (hextets a)"] by (simp add: drop_map set_drop_subset)
  show ?thesis
    using sl(3,4) foldl_hextets [OF a] parse_zero_run [OF sl(1)]
    by (simp add: ipv6_parse_def parts suffix sl(2) hi lo)
qed

lemma ipv6_str_colon: "CHR '':'' \<in> set (ipv6_str a)"
proof -
  let ?hs = "map hex_str (hextets a)"
  have "3 \<le> length (compress_hextets ?hs)"
    using compress_hextets_groups [of ?hs] hex_groups_nonempty [of "hextets a"] by auto
  then obtain x y zs where "compress_hextets ?hs = x # y # zs"
    by (auto simp: numeral_eq_Suc Suc_le_length_iff)
  then show ?thesis by (simp add: ipv6_str_def)
qed

lemma ipv4_str_chars: "c \<in> set (ipv4_str a) \<Longrightarrow> c = CHR ''.'' \<or> is_digit c"
  by (auto simp: ipv4_str_def dest: nat_str_digits)

lemma parse_prefix_str: "p \<le> ip_width v6 \<Longrightarrow> parse_prefix v6 (nat_str p) = Some p"
  by (simp add: parse_prefix_def nat_str_all_digits)

lemma mask_network_wf_id:
  assumes "wf_net n"
  shows "mask_network (ip_v6 n) (ip_base n) (ip_scope n) (ip_prefix n) = n"
proof -
  have "ip_base n div 2 ^ host_bits n * 2 ^ host_bits n = ip_base n"
    using assms by (simp add: wf_net_def)
  then show ?thesis by (simp add: mask_network_def host_bits_def)
qed

lemma split_scope_str:
  "CHR 0x25 \<notin> set a \<Longrightarrow> split_scope a = Some (a, None)"
  "CHR 0x25 \<notin> set a \<Longrightarrow> CHR 0x25 \<notin> set s \<Longrightarrow> s \<noteq> [] \<Longrightarrow>
    split_scope (a @ CHR 0x25 # s) = Some (a, Some s)"
  by (simp_all add: split_scope_def split_on_plain split_on_append)

lemma address_str_no_slash: "wf_net n \<Longrightarrow> CHR ''/'' \<notin> set (address_str n)"
  by (auto simp: address_str_def wf_net_def dest: ipv4_str_chars ipv6_str_chars split: option.splits)

lemma parse_network_as_str:
  assumes "wf_net n"
  shows "parse_network_as (ip_v6 n) (address_str n) (Some (nat_str (ip_prefix n))) = Some n"
proof -
  note m = mask_network_wf_id [OF assms]
  have p: "parse_prefix (ip_v6 n) (nat_str (ip_prefix n)) = Some (ip_prefix n)"
    using assms by (intro parse_prefix_str) (simp add: wf_net_def)
  show ?thesis
  proof (cases "ip_v6 n")
    case False
    then have "ipv4_parse (ipv4_str (ip_base n)) = Some (ip_base n)" "ip_scope n = None"
      using assms ipv4_parse_str [of "ip_base n"]
      by (simp_all add: wf_net_def ip_width_def split: option.splits)
    with False m p show ?thesis by (simp add: parse_network_as_def address_str_def)
  next
    case True
    then have "ipv6_parse (ipv6_str (ip_base n)) = Some (ip_base n)"
      using assms ipv6_parse_str [of "ip_base n"] by (simp add: wf_net_def ip_width_def)
    moreover have "split_scope (address_str n) = Some (ipv6_str (ip_base n), ip_scope n)"
    proof -
      have a: "CHR 0x25 \<notin> set (ipv6_str (ip_base n))"
        by (auto dest: ipv6_str_chars)
      show ?thesis
        using True assms split_scope_str(1) [OF a] split_scope_str(2) [OF a]
        by (auto simp: address_str_def wf_net_def split: option.splits)
    qed
    ultimately show ?thesis using True m p by (simp add: parse_network_as_def)
  qed
qed

lemma ip_network_parse_str:
  assumes "wf_net n"
  shows "ip_network_parse (network_str n) = Some n"
proof -
  have "split_on (CHR ''/'') (network_str n) = [address_str n, nat_str (ip_prefix n)]"
    using address_str_no_slash [OF assms]
    by (simp add: network_str_def split_on_append split_on_plain nat_str_no)
  moreover have "parse_network_as False (address_str n) m = None" if "ip_v6 n" for m
  proof -
    have "ipv4_parse (address_str n) = None"
      by (rule colon_not_ipv4) (simp add: address_str_def that ipv6_str_colon)
    then show ?thesis by (simp add: parse_network_as_def)
  qed
  ultimately show ?thesis
    using parse_network_as_str [OF assms] by (cases "ip_v6 n") (simp_all add: ip_network_parse_def)
qed

lemma strip_ends:
  assumes "s \<noteq> []" and "\<not> is_blank (hd s)" and "\<not> is_blank (last s)"
  shows "strip s = s"
proof -
  have "dropWhile is_blank s = s" using assms(1,2) by (cases s) simp_all
  moreover have "dropWhile is_blank (rev s) = rev s"
    using assms(1,3) by (cases s rule: rev_cases) simp_all
  ultimately show ?thesis by (simp add: strip_def)
qed

lemma not_blank: "is_digit c \<or> is_hex c \<or> c = CHR '':'' \<or> c = CHR ''.'' \<Longrightarrow> \<not> is_blank c"
  by (auto simp: is_digit_def is_hex_def is_blank_def hex_value_def code_def split: if_split_asm)

lemma network_str_nonempty [simp]: "network_str n \<noteq> []"
  by (simp add: network_str_def)

lemma strip_network_str: "strip (network_str n) = network_str n"
proof (rule strip_ends)
  have ne: "ipv4_str a \<noteq> []" "ipv6_str a \<noteq> []" for a
    using ipv6_str_colon [of a] by (auto simp: ipv4_str_def)
  show "network_str n \<noteq> []" by (simp add: network_str_def)
  have "hd (network_str n) \<in> set (ipv4_str (ip_base n)) \<union> set (ipv6_str (ip_base n))"
    using ne by (simp add: network_str_def address_str_def hd_append)
  then show "\<not> is_blank (hd (network_str n))"
    by (auto intro!: not_blank dest: ipv4_str_chars ipv6_str_chars)
  have "last (network_str n) \<in> set (nat_str (ip_prefix n))"
    by (simp add: network_str_def)
  then show "\<not> is_blank (last (network_str n))"
    by (intro not_blank) (auto dest: nat_str_digits)
qed

end
