(* ===== verification/Scopes.thy ===== *)
theory Scopes
  imports IpAddr
begin

text \<open>
  Network-scope validation, \<^verbatim>\<open>app/services/scopes.py\<close>: parsing and normalizing a CIDR, the safety
  rules for an approved scope, and the overlap check within a site.  \<open>IpAddr\<close> models the standard
  library's address arithmetic; here the code's verdicts are related to sets of addresses.
\<close>

datatype scope_error = ScopeValidationError string

text \<open>The \<open>ValueError\<close> of \<open>ip_network\<close>, whose text the message repeats.\<close>

definition invalid_cidr :: "string \<Rightarrow> string" where
  "invalid_cidr cidr = ''Invalid CIDR '' @ quoted cidr @ '': '' @ quoted (strip cidr) @
     '' does not appear to be an IPv4 or IPv6 network''"

definition normalize_cidr :: "string \<Rightarrow> scope_error + ip_network" where
  "normalize_cidr cidr =
     (let candidate = strip cidr
      in if candidate = [] then Inl (ScopeValidationError ''CIDR must not be empty'')
         else case ip_network_parse candidate of
           None \<Rightarrow> Inl (ScopeValidationError (invalid_cidr cidr))
         | Some n \<Rightarrow> Inr n)"

definition validate_cidr :: "string \<Rightarrow> bool \<Rightarrow> scope_error + string" where
  "validate_cidr cidr allow_public =
     res_bind (normalize_cidr cidr) (\<lambda>network.
       if ip_prefix network = 0
       then Inl (ScopeValidationError (''Refusing to approve a default route (0.0.0.0/0 or ::/0); '' @
                                       ''specify a bounded range''))
       else if \<not> allow_public \<and> \<not> is_private network
       then Inl (ScopeValidationError (quoted (network_str network) @
                  '' is a public/globally-routable range. Public ranges are '' @
                  ''denied by default; enable '' @ quoted ''allow public addresses'' @ '' to override.''))
       else Inr (network_str network))"

definition overlap_of :: "ip_network \<Rightarrow> string \<Rightarrow> string option" where
  "overlap_of network other =
     (case normalize_cidr other of
        Inl _ \<Rightarrow> None
      | Inr other_network \<Rightarrow>
          if ip_v6 network \<noteq> ip_v6 other_network then None
          else if ip_overlaps network other_network then Some (network_str other_network)
          else None)"

definition find_overlaps :: "string \<Rightarrow> string list \<Rightarrow> scope_error + string list" where
  "find_overlaps cidr existing =
     res_bind (normalize_cidr cidr) (\<lambda>network. Inr (List.map_filter (overlap_of network) existing))"

subsection \<open>Properties\<close>

lemma normalize_cidr_wf: "normalize_cidr s = Inr n \<Longrightarrow> wf_net n"
  by (auto simp: normalize_cidr_def Let_def intro: ip_network_parse_wf
      split: if_split_asm option.splits)

lemma normalize_network_str: "wf_net n \<Longrightarrow> normalize_cidr (network_str n) = Inr n"
  by (simp add: normalize_cidr_def strip_network_str ip_network_parse_str)

text \<open>The addresses a text stands for, tagged with their version.\<close>

definition cidr_addrs :: "string \<Rightarrow> (bool \<times> nat) set" where
  "cidr_addrs s = (case normalize_cidr s of Inl _ \<Rightarrow> {} | Inr n \<Rightarrow> Pair (ip_v6 n) ` addrs n)"

lemma cidr_addrs_network_str:
  "wf_net n \<Longrightarrow> cidr_addrs (network_str n) = Pair (ip_v6 n) ` addrs n"
  by (simp add: cidr_addrs_def normalize_network_str)

text \<open>C40. A validated CIDR is canonical: it denotes the same addresses as the input, in a text that
  normalizes to the same network and validates to itself; it is never a default route, and it is a
  private range unless public addresses are allowed.\<close>

theorem validate_cidr_canonical:
  assumes "validate_cidr cidr allow_public = Inr s"
  shows "cidr_addrs s = cidr_addrs cidr \<and> cidr_addrs s \<noteq> {} \<and> validate_cidr s allow_public = Inr s \<and>
    (\<exists>n. normalize_cidr s = Inr n \<and> s = network_str n \<and> 0 < ip_prefix n \<and>
       (allow_public \<or> is_private n))"
proof -
  obtain n where n: "normalize_cidr cidr = Inr n" "0 < ip_prefix n" "allow_public \<or> is_private n"
    "s = network_str n"
    using assms by (auto simp: validate_cidr_def res_bind_Inr split: if_split_asm)
  have s: "normalize_cidr s = Inr n"
    unfolding n(4) using normalize_cidr_wf [OF n(1)] by (rule normalize_network_str)
  have "validate_cidr s allow_public = Inr s"
    using s n by (auto simp: validate_cidr_def)
  moreover have "addrs n \<noteq> {}" using base_in_addrs by blast
  ultimately show ?thesis using s n by (auto simp: cidr_addrs_def)
qed

text \<open>The overlap check is exact: the result lists, in order and in canonical form, exactly those
  parsable existing ranges that share an address with the given one; unparsable ones never
  make it fail.\<close>

theorem find_overlaps_exact:
  assumes "normalize_cidr cidr = Inr n"
  shows "find_overlaps cidr existing =
    Inr (map (\<lambda>e. network_str (projr (normalize_cidr e)))
           (filter (\<lambda>e. cidr_addrs cidr \<inter> cidr_addrs e \<noteq> {}) existing))"
proof -
  have one: "overlap_of n e = (if cidr_addrs cidr \<inter> cidr_addrs e \<noteq> {}
      then Some (network_str (projr (normalize_cidr e))) else None)" for e
  proof (cases "normalize_cidr e")
    case (Inl x)
    then show ?thesis by (simp add: overlap_of_def cidr_addrs_def)
  next
    case (Inr m)
    have "ip_overlaps n m \<longleftrightarrow> addrs n \<inter> addrs m \<noteq> {}"
      using normalize_cidr_wf [OF assms] normalize_cidr_wf [OF Inr] by (rule ip_overlaps_iff)
    with Inr assms show ?thesis by (auto simp: overlap_of_def cidr_addrs_def)
  qed
  have "List.map_filter (overlap_of n) existing =
      map (\<lambda>e. network_str (projr (normalize_cidr e)))
        (filter (\<lambda>e. cidr_addrs cidr \<inter> cidr_addrs e \<noteq> {}) existing)"
    by (induction existing) (simp_all add: one map_filter_simps)
  then show ?thesis by (simp add: find_overlaps_def assms)
qed

subsection \<open>Witnesses\<close>

lemma lan_normalizes: "normalize_cidr '' 10.20.0.5/24'' = Inr (v4_net (quad 10 20 0 0) 24)"
  by code_simp

theorem validate_cidr_canonical_witness:
  "validate_cidr ''10.20.0.5/24'' False = Inr ''10.20.0.0/24'' \<and>
   validate_cidr ''10.20.0.0/24'' False = Inr ''10.20.0.0/24''"
proof -
  have v: "validate_cidr ''10.20.0.5/24'' False = Inr ''10.20.0.0/24''" by code_simp
  with validate_cidr_canonical [OF v] show ?thesis by blast
qed

theorem find_overlaps_exact_witness:
  "find_overlaps '' 10.20.0.5/24'' [''10.0.0.0/8'', ''not a range'', ''10.21.0.0/16'']
     = Inr (map (\<lambda>e. network_str (projr (normalize_cidr e)))
         (filter (\<lambda>e. cidr_addrs '' 10.20.0.5/24'' \<inter> cidr_addrs e \<noteq> {})
            [''10.0.0.0/8'', ''not a range'', ''10.21.0.0/16'']))"
  by (rule find_overlaps_exact [OF lan_normalizes])

end
