(* ===== verification/Presets.thy ===== *)
theory Presets
  imports PyStrings "HOL-Library.Code_Target_Nat"
begin

text \<open>
  Scan presets, \<^verbatim>\<open>app/services/presets.py\<close>: the stage catalogue, the versioned built-in presets, the
  resolution of stages against the installed scanners, duration budgets, hardware tuning, and the
  validation of custom presets.  Errors are values that name the violated rule instead of its
  message.  \<open>STAGE_CATALOG[k]\<close> with an unknown key (Python's \<open>KeyError\<close>) is \<open>None\<close>.
\<close>

record stage_spec =
  ss_key :: string
  ss_scanner :: string
  ss_classification :: string
  ss_label :: string

record rate_profile =
  rp_packets_per_second :: int
  rp_concurrency :: int

record preset =
  pr_key :: string
  pr_version :: int
  pr_name :: string
  pr_use_case :: string
  pr_description :: string
  pr_stage_keys :: "string list"
  pr_rate :: rate_profile
  pr_workload_class :: string
  pr_duration_class :: string
  pr_mode :: string
  pr_web_profile :: "string option"
  pr_intrusive :: bool
  pr_active_web :: bool
  pr_uses_credentials :: bool

datatype preset_error = UnknownPreset string "int option" | NameRequired | NoStages
  | UnknownStage json | UnhashableStage json | UnsafeStage string string | NotAnInteger string
  | OutOfBounds string int int | BadSeverities | ForbiddenKeys "string list"

definition SAFE_CLASSES :: "string list" where
  "SAFE_CLASSES = [''passive'', ''safe'']"

definition stage_spec_of :: "string \<Rightarrow> string \<Rightarrow> string \<Rightarrow> string \<Rightarrow> stage_spec" where
  "stage_spec_of k s c l = \<lparr>ss_key = k, ss_scanner = s, ss_classification = c, ss_label = l\<rparr>"

definition STAGE_CATALOG :: "(string \<times> stage_spec) list" where
  "STAGE_CATALOG =
     [(''discovery'', stage_spec_of ''discovery'' ''nmap'' ''safe'' ''Host & port discovery''),
      (''service_detection'',
        stage_spec_of ''service_detection'' ''nmap'' ''safe'' ''Service/version detection''),
      (''vuln'', stage_spec_of ''vuln'' ''nuclei'' ''safe'' ''Non-intrusive vulnerability checks''),
      (''tls'', stage_spec_of ''tls'' ''testssl'' ''safe'' ''TLS configuration review''),
      (''web_passive'', stage_spec_of ''web_passive'' ''zap'' ''passive'' ''Passive web analysis'')]"

definition KNOWN_SCANNERS :: "string list" where
  "KNOWN_SCANNERS = [''nmap'', ''nuclei'', ''testssl'', ''zap'']"

definition stages :: "preset \<Rightarrow> stage_spec list option" where
  "stages p = those (map (map_of STAGE_CATALOG) (pr_stage_keys p))"

subsection \<open>Built-in presets\<close>

definition rate_of :: "int \<Rightarrow> int \<Rightarrow> rate_profile" where
  "rate_of pps c = \<lparr>rp_packets_per_second = pps, rp_concurrency = c\<rparr>"

definition quick_v1 :: preset where
  "quick_v1 = \<lparr>pr_key = ''quick'', pr_version = 1, pr_name = ''Quick Check'',
     pr_use_case = ''Frequent lightweight visibility'',
     pr_description = ''Discovery of common ports and basic service detection. Fast and light.'',
     pr_stage_keys = [''discovery'', ''service_detection''],
     pr_rate = \<lparr>rp_packets_per_second = 200, rp_concurrency = 4\<rparr>,
     pr_workload_class = ''light'',
     pr_duration_class = ''a few minutes for a small subnet'',
     pr_mode = ''vulnerability_assessment'', pr_web_profile = None,
     pr_intrusive = False, pr_active_web = False, pr_uses_credentials = False\<rparr>"

definition standard_v1 :: preset where
  "standard_v1 = \<lparr>pr_key = ''standard'', pr_version = 1, pr_name = ''Standard Security Check'',
     pr_use_case = ''Default homelab and small-business scan'',
     pr_description = ''Discovery, broader service detection, non-intrusive vulnerability checks, '' @
       ''and TLS review. No intrusive tests, active web attacks, or credentials.'',
     pr_stage_keys = [''discovery'', ''service_detection'', ''vuln'', ''tls''],
     pr_rate = \<lparr>rp_packets_per_second = 150, rp_concurrency = 4\<rparr>,
     pr_workload_class = ''moderate'',
     pr_duration_class = ''minutes to tens of minutes depending on host count'',
     pr_mode = ''vulnerability_assessment'', pr_web_profile = None,
     pr_intrusive = False, pr_active_web = False, pr_uses_credentials = False\<rparr>"

definition fragile_v1 :: preset where
  "fragile_v1 = \<lparr>pr_key = ''fragile'', pr_version = 1, pr_name = ''Fragile / IoT Safe'',
     pr_use_case = ''Printers, cameras, appliances, embedded devices'',
     pr_description = ''Conservative discovery and connection rates for delicate devices. No active '' @
       ''web attack and no intrusive checks.'',
     pr_stage_keys = [''discovery'', ''service_detection''],
     pr_rate = \<lparr>rp_packets_per_second = 20, rp_concurrency = 1\<rparr>,
     pr_workload_class = ''light'',
     pr_duration_class = ''slower by design; conservative rates'',
     pr_mode = ''vulnerability_assessment'', pr_web_profile = None,
     pr_intrusive = False, pr_active_web = False, pr_uses_credentials = False\<rparr>"

definition web_tls_v1 :: preset where
  "web_tls_v1 = \<lparr>pr_key = ''web_tls'', pr_version = 1, pr_name = ''Web and TLS Check'',
     pr_use_case = ''Known websites and internal applications'',
     pr_description = ''Scoped passive web analysis and TLS configuration review.'',
     pr_stage_keys = [''web_passive'', ''tls''],
     pr_rate = \<lparr>rp_packets_per_second = 100, rp_concurrency = 2\<rparr>,
     pr_workload_class = ''moderate'',
     pr_duration_class = ''minutes per application'',
     pr_mode = ''vulnerability_assessment'', pr_web_profile = Some ''passive_baseline'',
     pr_intrusive = False, pr_active_web = False, pr_uses_credentials = False\<rparr>"

definition deep_safe_v1 :: preset where
  "deep_safe_v1 = \<lparr>pr_key = ''deep_safe'', pr_version = 1, pr_name = ''Deep Safe Check'',
     pr_use_case = ''Planned maintenance window'',
     pr_description = ''Broader safe coverage across discovery, services, vulnerabilities, TLS, and '' @
       ''passive web. Longer, but still no exploitation.'',
     pr_stage_keys = [''discovery'', ''service_detection'', ''vuln'', ''tls'', ''web_passive''],
     pr_rate = \<lparr>rp_packets_per_second = 150, rp_concurrency = 6\<rparr>,
     pr_workload_class = ''heavy'',
     pr_duration_class = ''tens of minutes to hours for large scopes'',
     pr_mode = ''vulnerability_assessment'', pr_web_profile = Some ''passive_baseline'',
     pr_intrusive = False, pr_active_web = False, pr_uses_credentials = False\<rparr>"


text \<open>\<open>dataclasses.replace\<close> is a record update.\<close>

definition BUILTIN_PRESETS :: "preset list" where
  "BUILTIN_PRESETS =
     [quick_v1, standard_v1, fragile_v1, web_tls_v1, deep_safe_v1,
      quick_v1\<lparr>pr_version := 2, pr_rate := rate_of 1000 8\<rparr>,
      standard_v1\<lparr>pr_version := 2,
        pr_stage_keys := [''discovery'', ''service_detection'', ''vuln'', ''tls'', ''web_passive''],
        pr_rate := rate_of 1000 8\<rparr>,
      fragile_v1\<lparr>pr_version := 2, pr_rate := rate_of 50 1\<rparr>,
      web_tls_v1\<lparr>pr_version := 2, pr_rate := rate_of 500 4\<rparr>,
      deep_safe_v1\<lparr>pr_version := 2, pr_rate := rate_of 1000 8\<rparr>,
      standard_v1\<lparr>pr_version := 3,
        pr_stage_keys := [''discovery'', ''service_detection'', ''vuln'', ''tls'', ''web_passive''],
        pr_rate := rate_of 1000 8,
        pr_description := ''Fast host discovery followed by broader service detection on responsive '' @
          ''hosts, non-intrusive vulnerability checks, TLS review, and passive web '' @
          ''analysis. No intrusive tests, active web attacks, or credentials.''\<rparr>]"

text \<open>The dictionary of the loop, in insertion order; an existing key keeps its place.\<close>

fun newer :: "preset list \<Rightarrow> preset \<Rightarrow> preset list" where
  "newer [] p = [p]"
| "newer (q # qs) p =
     (if pr_key q = pr_key p then (if pr_version p > pr_version q then p else q) # qs
      else q # newer qs p)"

definition list_presets :: "preset list" where
  "list_presets = foldl newer [] BUILTIN_PRESETS"

definition max_version :: "preset \<Rightarrow> preset list \<Rightarrow> preset" where
  "max_version p ps = foldl (\<lambda>m q. if pr_version q > pr_version m then q else m) p ps"

definition get_preset :: "string \<Rightarrow> int option \<Rightarrow> preset_error + preset" where
  "get_preset key version =
     (let candidates = filter (\<lambda>p. pr_key p = key) BUILTIN_PRESETS;
          candidates = (case version of None \<Rightarrow> candidates
                          | Some v \<Rightarrow> filter (\<lambda>p. pr_version p = v) candidates)
      in case candidates of
           [] \<Rightarrow> Inl (UnknownPreset key version)
         | p # ps \<Rightarrow> Inr (max_version p ps))"

subsection \<open>Stage resolution\<close>

record skipped_stage =
  sk_stage :: string
  sk_scanner :: string
  sk_reason :: string

record resolution =
  rs_run :: "stage_spec list"
  rs_skipped :: "skipped_stage list"
  rs_blocked :: bool

definition skip_of :: "stage_spec \<Rightarrow> skipped_stage" where
  "skip_of s = \<lparr>sk_stage = ss_key s, sk_scanner = ss_scanner s,
     sk_reason = ''The '' @ quoted (ss_label s) @ '' stage needs the '' @ ss_scanner s @
       '' scanner, '' @ ''which is not installed on this Scout.''\<rparr>"

definition resolve_stages :: "preset \<Rightarrow> string list \<Rightarrow> bool \<Rightarrow> resolution option" where
  "resolve_stages p available allow_downgrade =
     map_option (\<lambda>specs.
       let skipped = map skip_of (filter (\<lambda>s. ss_scanner s \<notin> set available) specs)
       in \<lparr>rs_run = filter (\<lambda>s. ss_scanner s \<in> set available) specs, rs_skipped = skipped,
           rs_blocked = (skipped \<noteq> [] \<and> \<not> allow_downgrade)\<rparr>) (stages p)"

subsection \<open>Estimates\<close>

definition duration_for :: "preset \<Rightarrow> int \<Rightarrow> string list \<Rightarrow> int" where
  "duration_for p host_count selected =
     (let (per_block, cap) =
            (if ''nuclei'' \<in> set selected then (8 * 60 * 60, 48 * 60 * 60)
             else if pr_key p = ''fragile'' \<or> ''testssl'' \<in> set selected \<or> ''zap'' \<in> set selected
             then (4 * 60 * 60, if pr_key p = ''fragile'' then 48 * 60 * 60 else 24 * 60 * 60)
             else (3 * 60 * 60, 24 * 60 * 60));
          blocks = max 1 ((max 1 host_count + 256 - 1) div 256)
      in min cap (per_block * blocks))"

definition duration_limit_seconds :: "preset \<Rightarrow> int \<Rightarrow> string list option \<Rightarrow> int option" where
  "duration_limit_seconds p host_count scanners =
     map_option (duration_for p host_count)
       (case scanners of Some s \<Rightarrow> Some s | None \<Rightarrow> map_option (map ss_scanner) (stages p))"

definition DURATION_RANGES :: "((string \<times> string) \<times> string) list" where
  "DURATION_RANGES =
     [((''light'', ''small''), ''under a minute''), ((''light'', ''medium''), ''a few minutes''),
      ((''light'', ''large''), ''several minutes''), ((''moderate'', ''small''), ''a few minutes''),
      ((''moderate'', ''medium''), ''several to tens of minutes''),
      ((''moderate'', ''large''), ''hours for multi-subnet scopes''),
      ((''heavy'', ''small''), ''several minutes''), ((''heavy'', ''medium''), ''tens of minutes''),
      ((''heavy'', ''large''), ''hours to more than a day'')]"

definition estimate :: "preset \<Rightarrow> int \<Rightarrow> (string \<times> string) list" where
  "estimate p host_count =
     (let size = (if host_count \<le> 16 then ''small'' else if host_count \<le> 256 then ''medium''
                  else ''large'')
      in [(''workload_class'', pr_workload_class p), (''size_class'', size),
          (''duration_range'',
            or_else (map_of DURATION_RANGES (pr_workload_class p, size)) ''varies'')])"

subsection \<open>Tuning\<close>

definition recommend_tuning ::
  "preset \<Rightarrow> int \<Rightarrow> int \<Rightarrow> int option \<Rightarrow> int option \<Rightarrow> rate_profile" where
  "recommend_tuning p cpu_count memory_bytes max_pps max_concurrency =
     (let c = rp_concurrency (pr_rate p);
          c = (if cpu_count \<ge> 1 then min c (max 1 cpu_count) else c);
          c = (if memory_bytes \<noteq> 0 \<and> memory_bytes < 2 * 2 ^ 30 then min c 2 else c);
          pps = rp_packets_per_second (pr_rate p);
          c = (case max_concurrency of None \<Rightarrow> c | Some m \<Rightarrow> min c m);
          pps = (case max_pps of None \<Rightarrow> pps | Some m \<Rightarrow> min pps m)
      in rate_of (max 1 pps) (max 1 c))"

subsection \<open>Custom presets\<close>

definition CUSTOM_MAX_PPS :: int where "CUSTOM_MAX_PPS = 1000"
definition CUSTOM_MAX_CONCURRENCY :: int where "CUSTOM_MAX_CONCURRENCY = 16"

definition ALLOWED_SEVERITIES :: "string list" where
  "ALLOWED_SEVERITIES = [''info'', ''low'', ''medium'', ''high'', ''critical'']"

definition FORBIDDEN_KEYS :: "string list" where
  "FORBIDDEN_KEYS = [''command'', ''args'', ''script'', ''scripts'', ''templates'', ''template'',
     ''exec'', ''shell'']"

text \<open>Lists and objects are not hashable, so \<open>key not in STAGE_CATALOG\<close> raises for them.\<close>

definition check_stage :: "json \<Rightarrow> preset_error + string" where
  "check_stage key =
     (case key of
        JStr k \<Rightarrow>
          (case map_of STAGE_CATALOG k of
             None \<Rightarrow> Inl (UnknownStage key)
           | Some s \<Rightarrow>
               if ss_classification s \<notin> set SAFE_CLASSES
               then Inl (UnsafeStage k (ss_classification s))
               else Inr k)
      | JList _ \<Rightarrow> Inl (UnhashableStage key)
      | JObj _ \<Rightarrow> Inl (UnhashableStage key)
      | _ \<Rightarrow> Inl (UnknownStage key))"

definition bounded_int :: "json \<Rightarrow> int \<Rightarrow> int \<Rightarrow> string \<Rightarrow> preset_error + int" where
  "bounded_int v lo hi name =
     (case v of
        JInt i \<Rightarrow> if i < lo \<or> i > hi then Inl (OutOfBounds name lo hi) else Inr i
      | _ \<Rightarrow> Inl (NotAnInteger name))"

definition custom_name :: "(string \<times> json) list \<Rightarrow> preset_error + string" where
  "custom_name spec =
     (case map_of spec ''name'' of
        Some (JStr n) \<Rightarrow> if strip n = [] \<or> length n > 80 then Inl NameRequired else Inr n
      | _ \<Rightarrow> Inl NameRequired)"

definition custom_stages :: "(string \<times> json) list \<Rightarrow> preset_error + string list" where
  "custom_stages spec =
     (case map_of spec ''stage_keys'' of
        Some (JList ks) \<Rightarrow> if ks = [] then Inl NoStages else traverse check_stage ks
      | _ \<Rightarrow> Inl NoStages)"

definition custom_severities :: "(string \<times> json) list \<Rightarrow> preset_error + unit" where
  "custom_severities spec =
     (case or_else (map_of spec ''severities'') (JList (map JStr ALLOWED_SEVERITIES)) of
        JList ss \<Rightarrow> require (\<forall>s \<in> set ss. s \<in> set (map JStr ALLOWED_SEVERITIES)) BadSeverities
      | _ \<Rightarrow> Inl BadSeverities)"

definition custom_preset :: "string \<Rightarrow> string list \<Rightarrow> int \<Rightarrow> int \<Rightarrow> preset" where
  "custom_preset nm keys pps conc =
     \<lparr>pr_key = ''custom'', pr_version = 1, pr_name = strip nm,
      pr_use_case = ''Expert custom preset'',
      pr_description = ''Validated custom selection of safe stages.'',
      pr_stage_keys = keys, pr_rate = rate_of pps conc,
      pr_workload_class = ''moderate'',
      pr_duration_class = ''depends on selected stages and host count'',
      pr_mode = ''vulnerability_assessment'', pr_web_profile = None,
      pr_intrusive = False, pr_active_web = False, pr_uses_credentials = False\<rparr>"

definition validate_custom :: "(string \<times> json) list \<Rightarrow> preset_error + preset" where
  "validate_custom spec =
     res_bind (custom_name spec) (\<lambda>nm.
     res_bind (custom_stages spec) (\<lambda>keys.
     res_bind (bounded_int (or_else (map_of spec ''packets_per_second'') (JInt 100)) 1 CUSTOM_MAX_PPS
                 ''packets_per_second'') (\<lambda>pps.
     res_bind (bounded_int (or_else (map_of spec ''concurrency'') (JInt 2)) 1 CUSTOM_MAX_CONCURRENCY
                 ''concurrency'') (\<lambda>conc.
     res_bind (custom_severities spec) (\<lambda>_.
     let present = filter (\<lambda>k. k \<in> fst ` set spec) FORBIDDEN_KEYS
     in if present \<noteq> [] then Inl (ForbiddenKeys (sort present))
        else Inr (custom_preset nm keys pps conc))))))"

subsection \<open>Safety of presets\<close>

text \<open>What the safety of a preset means: known stages of a safe class, nothing active, intrusive or
  credentialed, and rates within the signed ceilings.\<close>

definition safe_preset :: "preset \<Rightarrow> bool" where
  "safe_preset p \<longleftrightarrow>
     (case stages p of None \<Rightarrow> False
      | Some ss \<Rightarrow> ss \<noteq> [] \<and> list_all (\<lambda>s. ss_classification s \<in> set SAFE_CLASSES \<and>
          ss_scanner s \<in> set KNOWN_SCANNERS) ss) \<and>
     pr_mode p = ''vulnerability_assessment'' \<and>
     pr_web_profile p \<in> {None, Some ''passive_baseline''} \<and>
     \<not> pr_intrusive p \<and> \<not> pr_active_web p \<and> \<not> pr_uses_credentials p \<and>
     1 \<le> rp_packets_per_second (pr_rate p) \<and> rp_packets_per_second (pr_rate p) \<le> CUSTOM_MAX_PPS \<and>
     1 \<le> rp_concurrency (pr_rate p) \<and> rp_concurrency (pr_rate p) \<le> CUSTOM_MAX_CONCURRENCY"

lemma max_version_in: "max_version p ps \<in> set (p # ps)"
  unfolding max_version_def by (induction ps arbitrary: p) (auto split: if_splits)

lemma max_version_greatest: "q \<in> set (p # ps) \<Longrightarrow> pr_version q \<le> pr_version (max_version p ps)"
proof -
  have "pr_version p \<le> pr_version (max_version p ps) \<and>
      (\<forall>q \<in> set ps. pr_version q \<le> pr_version (max_version p ps))"
    unfolding max_version_def by (induction ps arbitrary: p) (force split: if_splits)+
  then show "q \<in> set (p # ps) \<Longrightarrow> ?thesis" by auto
qed

lemma builtin_safe: "list_all safe_preset BUILTIN_PRESETS"
  by code_simp

text \<open>Every preset a job can run is safe: a lookup returns a built-in preset of the requested key
  and version, the newest one when no version is pinned, made of known passive or safe stages only,
  never intrusive, active or credentialed, with rates within the signed ceilings.\<close>

theorem get_preset_safe:
  assumes "get_preset key version = Inr p"
  shows "p \<in> set BUILTIN_PRESETS \<and> pr_key p = key \<and> safe_preset p \<and>
    (case version of
       Some v \<Rightarrow> pr_version p = v
     | None \<Rightarrow> \<forall>q \<in> set BUILTIN_PRESETS. pr_key q = key \<longrightarrow> pr_version q \<le> pr_version p)"
proof -
  let ?keyed = "filter (\<lambda>p. pr_key p = key) BUILTIN_PRESETS"
  obtain q qs where c: "(case version of None \<Rightarrow> ?keyed
        | Some v \<Rightarrow> filter (\<lambda>p. pr_version p = v) ?keyed) = q # qs" and p: "p = max_version q qs"
    using assms by (auto simp: get_preset_def Let_def split: list.splits)
  have "p \<in> set (q # qs)" unfolding p by (rule max_version_in)
  moreover have "set (q # qs) \<subseteq> set ?keyed"
    unfolding c [symmetric] by (auto split: option.split)
  ultimately have "p \<in> set ?keyed" by blast
  moreover have "pr_version p = v" if "version = Some v" for v
  proof -
    have "p \<in> set (filter (\<lambda>p. pr_version p = v) ?keyed)"
      using \<open>p \<in> set (q # qs)\<close> c that by simp
    then show ?thesis by simp
  qed
  moreover have "pr_version r \<le> pr_version p"
    if "version = None" "r \<in> set BUILTIN_PRESETS" "pr_key r = key" for r
  proof -
    have "r \<in> set ?keyed" using that by simp
    then have "r \<in> set (q # qs)" unfolding c [symmetric] using that(1) by simp
    then show ?thesis unfolding p by (rule max_version_greatest)
  qed
  ultimately show ?thesis
    using builtin_safe by (auto simp: list_all_iff split: option.split)
qed

theorem get_preset_safe_witness:
  "\<exists>p. get_preset ''standard'' None = Inr p \<and> safe_preset p \<and> pr_version p = 3"
proof -
  have "case get_preset ''standard'' None of Inl _ \<Rightarrow> False | Inr p \<Rightarrow> pr_version p = 3"
    by code_simp
  then obtain p where "get_preset ''standard'' None = Inr p" "pr_version p = 3"
    by (auto split: sum.splits)
  with get_preset_safe show ?thesis by blast
qed

lemma check_stage_safe:
  "check_stage key = Inr k \<Longrightarrow>
    \<exists>s. map_of STAGE_CATALOG k = Some s \<and> ss_classification s \<in> set SAFE_CLASSES"
  by (auto simp: check_stage_def split: json.splits option.splits if_split_asm)

lemma catalog_scanners: "map_of STAGE_CATALOG k = Some s \<Longrightarrow> ss_scanner s \<in> set KNOWN_SCANNERS"
proof -
  have "list_all (\<lambda>(k, s). ss_scanner s \<in> set KNOWN_SCANNERS) STAGE_CATALOG" by code_simp
  then show "map_of STAGE_CATALOG k = Some s \<Longrightarrow> ?thesis"
    by (auto simp: list_all_iff dest!: map_of_SomeD)
qed

lemma those_catalog:
  assumes "\<And>k. k \<in> set ks \<Longrightarrow> \<exists>s. map_of STAGE_CATALOG k = Some s \<and> P s"
  shows "\<exists>ss. those (map (map_of STAGE_CATALOG) ks) = Some ss \<and> list_all P ss \<and> length ss = length ks"
  using assms by (induction ks) (simp, force)

lemma bounded_int_Inr: "bounded_int v lo hi name = Inr i \<Longrightarrow> lo \<le> i \<and> i \<le> hi"
  by (auto simp: bounded_int_def split: json.splits if_split_asm)

text \<open>A custom preset is as safe as a built-in one: whatever JSON object is submitted, a preset
  that passes validation has only catalogued passive or safe stages, no active, intrusive or
  credentialed behaviour, rates within the ceilings, and came from an object without any raw
  command, script or template key.\<close>

theorem validate_custom_safe:
  assumes "validate_custom spec = Inr p"
  shows "safe_preset p \<and> pr_name p \<noteq> [] \<and> length (pr_stage_keys p) \<ge> 1 \<and>
    set FORBIDDEN_KEYS \<inter> fst ` set spec = {}"
proof -
  obtain n keys pps c where r: "custom_name spec = Inr n" "custom_stages spec = Inr keys"
      "bounded_int (or_else (map_of spec ''packets_per_second'') (JInt 100)) 1 CUSTOM_MAX_PPS
         ''packets_per_second'' = Inr pps"
      "bounded_int (or_else (map_of spec ''concurrency'') (JInt 2)) 1 CUSTOM_MAX_CONCURRENCY
         ''concurrency'' = Inr c"
    and forb: "\<not> filter (\<lambda>k. k \<in> fst ` set spec) FORBIDDEN_KEYS \<noteq> []"
    and p: "Inr (custom_preset n keys pps c) = (Inr p :: preset_error + preset)"
    using assms unfolding validate_custom_def Let_def by (elim res_bind_InrE if_InrE) (rule that)
  have p: "p = custom_preset n keys pps c" using p by simp
  have n: "strip n \<noteq> []"
    using r(1) by (auto simp: custom_name_def split: option.splits json.splits if_split_asm)
  obtain ks where keys: "traverse check_stage ks = Inr keys" "ks \<noteq> []"
    using r(2) by (auto simp: custom_stages_def split: option.splits json.splits if_split_asm)
  have "\<exists>ss. those (map (map_of STAGE_CATALOG) keys) = Some ss \<and>
      list_all (\<lambda>s. ss_classification s \<in> set SAFE_CLASSES \<and> ss_scanner s \<in> set KNOWN_SCANNERS) ss \<and>
      length ss = length keys"
  proof (rule those_catalog)
    fix k
    assume "k \<in> set keys"
    then obtain key where "check_stage key = Inr k"
      using traverse_origin [OF keys(1)] by blast
    then show "\<exists>s. map_of STAGE_CATALOG k = Some s \<and>
        (ss_classification s \<in> set SAFE_CLASSES \<and> ss_scanner s \<in> set KNOWN_SCANNERS)"
      using check_stage_safe catalog_scanners by blast
  qed
  moreover have "length keys = length ks" using keys(1) by (rule traverse_length)
  ultimately have "safe_preset p"
    using keys(2) bounded_int_Inr [OF r(3)] bounded_int_Inr [OF r(4)]
    by (auto simp: safe_preset_def stages_def p custom_preset_def rate_of_def)
  moreover have "set FORBIDDEN_KEYS \<inter> fst ` set spec = {}"
    using forb by (auto simp: filter_empty_conv)
  ultimately show ?thesis
    using n keys(2) \<open>length keys = length ks\<close> by (cases ks) (auto simp: p custom_preset_def)
qed

definition sample_custom :: "(string \<times> json) list" where
  "sample_custom = [(''name'', JStr '' Mine ''), (''stage_keys'', JList [JStr ''discovery'', JStr ''tls'']),
     (''packets_per_second'', JInt 40)]"

theorem validate_custom_safe_witness:
  "\<exists>p. validate_custom sample_custom = Inr p \<and> safe_preset p \<and> pr_name p = ''Mine''"
proof -
  have "case validate_custom sample_custom of Inl _ \<Rightarrow> False | Inr p \<Rightarrow> pr_name p = ''Mine''"
    by code_simp
  then obtain p where "validate_custom sample_custom = Inr p" "pr_name p = ''Mine''"
    by (auto split: sum.splits)
  with validate_custom_safe show ?thesis by blast
qed

text \<open>Tuning never exceeds the policy or the preset: whatever a Scout reports about its hardware,
  the recommended packet rate and concurrency lie between one and both the preset's rate and the
  policy's limits (each at least one), and a Scout with little memory runs at most two hosts in
  parallel.\<close>

theorem recommend_tuning_clamped:
  assumes "safe_preset p" and "1 \<le> max_pps" and "1 \<le> max_c"
  shows "1 \<le> rp_packets_per_second (recommend_tuning p cpus mem (Some max_pps) (Some max_c)) \<and>
    rp_packets_per_second (recommend_tuning p cpus mem (Some max_pps) (Some max_c))
      \<le> min max_pps (rp_packets_per_second (pr_rate p)) \<and>
    1 \<le> rp_concurrency (recommend_tuning p cpus mem (Some max_pps) (Some max_c)) \<and>
    rp_concurrency (recommend_tuning p cpus mem (Some max_pps) (Some max_c))
      \<le> min max_c (rp_concurrency (pr_rate p)) \<and>
    (0 < mem \<and> mem < 2 ^ 31 \<longrightarrow>
      rp_concurrency (recommend_tuning p cpus mem (Some max_pps) (Some max_c)) \<le> 2)"
proof -
  have p: "1 \<le> rp_packets_per_second (pr_rate p)" "1 \<le> rp_concurrency (pr_rate p)"
    using assms(1) by (simp_all add: safe_preset_def)
  have "rp_packets_per_second (recommend_tuning p cpus mem (Some max_pps) (Some max_c))
      = max 1 (min (rp_packets_per_second (pr_rate p)) max_pps)"
    by (simp add: recommend_tuning_def rate_of_def Let_def)
  then have "1 \<le> rp_packets_per_second (recommend_tuning p cpus mem (Some max_pps) (Some max_c)) \<and>
    rp_packets_per_second (recommend_tuning p cpus mem (Some max_pps) (Some max_c))
      \<le> min max_pps (rp_packets_per_second (pr_rate p))"
    using p(1) assms(2) by linarith
  moreover define c where "c = (let c = rp_concurrency (pr_rate p);
          c = (if cpus \<ge> 1 then min c (max 1 cpus) else c)
      in if mem \<noteq> 0 \<and> mem < 2 * 2 ^ 30 then min c 2 else c)"
  have "c \<le> rp_concurrency (pr_rate p)" "0 < mem \<and> mem < 2 ^ 31 \<longrightarrow> c \<le> 2"
    by (simp_all add: c_def Let_def min.coboundedI1)
  moreover have "rp_concurrency (recommend_tuning p cpus mem (Some max_pps) (Some max_c))
      = max 1 (min c max_c)"
    unfolding recommend_tuning_def c_def Let_def by (simp only: rate_of_def rate_profile.simps option.case)
  ultimately show ?thesis
    using p(2) assms(3) by linarith
qed

theorem recommend_tuning_clamped_witness:
  "rp_packets_per_second (recommend_tuning (quick_v1\<lparr>pr_rate := rate_of 1000 8\<rparr>) 1 0 (Some 300) (Some 4))
     \<le> min 300 1000"
proof -
  let ?p = "quick_v1\<lparr>pr_rate := rate_of 1000 8\<rparr>"
  have "safe_preset ?p" by code_simp
  moreover have "rp_packets_per_second (pr_rate ?p) = 1000" by (simp add: rate_of_def)
  ultimately show ?thesis
    using recommend_tuning_clamped [of ?p 300 4 1 0] by simp
qed

end
