(* ===== verification/Policy.thy ===== *)
theory Policy
  imports Enums Scopes Presets "HOL-Library.Product_Lexorder"
begin

text \<open>
  The tables a scan job is decided on (Scouts, networks, bindings, approved ranges, relays), the
  network helpers of \<^verbatim>\<open>app/services/networks.py\<close> and the local policy of a Scout,
  \<^verbatim>\<open>app/services/policy.py\<close>.  The rows carry the columns the modelled code reads or writes.
\<close>

record probe =
  pb_id :: uuid
  pb_organization_id :: uuid
  pb_site_id :: uuid
  pb_name :: string
  pb_status :: ProbeStatus
  pb_created_at :: time
  pb_health :: json
  pb_pentest_enabled :: bool
  pb_credentialed_scans_enabled :: bool
  pb_encryption_public_key :: "string option"

record network =
  nw_id :: uuid
  nw_organization_id :: uuid
  nw_site_id :: uuid
  nw_name :: string
  nw_description :: "string option"
  nw_enabled :: bool
  nw_is_default :: bool
  nw_policy_version :: int

record network_scout =
  sc_id :: uuid
  sc_network_id :: uuid
  sc_probe_id :: uuid
  sc_is_primary :: bool

record network_scope =
  ns_id :: uuid
  ns_organization_id :: uuid
  ns_site_id :: uuid
  ns_network_id :: "uuid option"
  ns_name :: string
  ns_cidr :: string
  ns_enabled :: bool
  ns_allow_public_addresses :: bool
  ns_expires_at :: "time option"
  ns_maximum_hosts :: "int option"
  ns_maximum_packets_per_second :: "int option"
  ns_maximum_concurrency :: "int option"
  ns_notes :: "string option"
  ns_policy_version :: int

record relay =
  rl_id :: uuid
  rl_organization_id :: uuid
  rl_site_id :: uuid
  rl_status :: RelayStatus
  rl_approved_cidrs :: "string list"
  rl_denied_cidrs :: "string list"

record net_db =
  probes :: "probe list"
  networks :: "network list"
  scouts :: "network_scout list"
  scopes :: "network_scope list"
  relays :: "relay list"

text \<open>The settings the modelled services read.\<close>

record app_settings =
  relay_scanner_probe_name :: string
  job_default_ttl_minutes :: int
  probe_offline_after_seconds :: int

subsection \<open>Networks\<close>

definition network_of :: "uuid \<Rightarrow> 'a net_db_scheme \<Rightarrow> network option" where
  "network_of i db = find (\<lambda>n. nw_id n = i) (networks db)"

text \<open>
  \<open>scalar_one_or_none\<close> raises on several rows: the outer \<open>None\<close>.
\<close>

definition one_or_none :: "'a list \<Rightarrow> 'a option option" where
  "one_or_none rows = (case rows of [] \<Rightarrow> Some None | [r] \<Rightarrow> Some (Some r) | _ \<Rightarrow> None)"

definition default_network :: "uuid \<Rightarrow> 'a net_db_scheme \<Rightarrow> network option option" where
  "default_network site db =
     one_or_none (filter (\<lambda>n. nw_site_id n = site \<and> nw_is_default n) (networks db))"

definition ensure_default_network ::
  "uuid \<Rightarrow> uuid \<Rightarrow> uuid \<Rightarrow> 'a net_db_scheme \<Rightarrow> ('a net_db_scheme \<times> network) option" where
  "ensure_default_network fresh org site db =
     map_option (\<lambda>found.
       case found of
         Some net \<Rightarrow> (db, net)
       | None \<Rightarrow>
           let net = \<lparr>nw_id = fresh, nw_organization_id = org, nw_site_id = site,
                      nw_name = ''Site network'',
                      nw_description =
                        Some (''Default network for this site'' @ [CHR 0x27] @ ''s approved ranges.''),
                      nw_enabled = True, nw_is_default = True, nw_policy_version = 1\<rparr>
           in (db\<lparr>networks := networks db @ [net]\<rparr>, net)) (default_network site db)"

text \<open>The loop of \<open>bind_all_site_probes\<close>; \<open>fresh\<close> are the identifiers of the new bindings.\<close>

fun bindings_for :: "uuid \<Rightarrow> uuid list \<Rightarrow> bool \<Rightarrow> uuid list \<Rightarrow> uuid list \<Rightarrow> network_scout list" where
  "bindings_for net existing first fresh [] = []"
| "bindings_for net existing first fresh (p # ps) =
     (if p \<in> set existing then bindings_for net existing first fresh ps
      else \<lparr>sc_id = hd fresh, sc_network_id = net, sc_probe_id = p, sc_is_primary = first\<rparr>
             # bindings_for net existing False (tl fresh) ps)"

definition bind_all_site_probes ::
  "uuid \<Rightarrow> uuid \<Rightarrow> uuid list \<Rightarrow> 'a net_db_scheme \<Rightarrow> 'a net_db_scheme" where
  "bind_all_site_probes net site fresh db =
     (let ps = map pb_id (filter (\<lambda>p. pb_site_id p = site) (probes db));
          existing = map sc_probe_id (filter (\<lambda>s. sc_network_id s = net) (scouts db))
      in db\<lparr>scouts := scouts db @ bindings_for net existing (existing = []) fresh ps\<rparr>)"

definition bind_probe_to_default_network ::
  "probe \<Rightarrow> uuid \<Rightarrow> 'a net_db_scheme \<Rightarrow> 'a net_db_scheme option" where
  "bind_probe_to_default_network p fresh db =
     (case default_network (pb_site_id p) db of
        None \<Rightarrow> None
      | Some None \<Rightarrow> Some db
      | Some (Some net) \<Rightarrow>
          (case one_or_none (filter (\<lambda>s. sc_network_id s = nw_id net \<and> sc_probe_id s = pb_id p)
                               (scouts db)) of
             None \<Rightarrow> None
           | Some (Some _) \<Rightarrow> Some db
           | Some None \<Rightarrow> Some (db\<lparr>scouts := scouts db @
               [\<lparr>sc_id = fresh, sc_network_id = nw_id net, sc_probe_id = pb_id p,
                 sc_is_primary = False\<rparr>]\<rparr>)))"

text \<open>The join of Scouts and bindings, primary bindings first, then by age of the Scout.\<close>

definition select_network_scout :: "uuid \<Rightarrow> 'a net_db_scheme \<Rightarrow> probe option" where
  "select_network_scout net db =
     (let rows = [(p, sc_is_primary s). s \<leftarrow> scouts db, p \<leftarrow> probes db,
                   sc_probe_id s = pb_id p \<and> sc_network_id s = net \<and>
                   pb_status p = ProbeStatus.ENROLLED]
      in case sort_key (\<lambda>(p, primary). (if primary then (0::nat) else 1, pb_created_at p)) rows of
           [] \<Rightarrow> None
         | (p, _) # _ \<Rightarrow> Some p)"

definition network_cidrs :: "uuid \<Rightarrow> 'a net_db_scheme \<Rightarrow> string list" where
  "network_cidrs net db =
     map ns_cidr (filter (\<lambda>s. ns_network_id s = Some net \<and> ns_enabled s) (scopes db))"

subsection \<open>The policy document\<close>

record policy_limits =
  lim_max_hosts :: int
  lim_max_parallel_hosts :: int
  lim_max_packets_per_second :: int
  lim_max_duration_seconds :: int

record policy_document =
  pd_schema_version :: int
  pd_policy_version :: int
  pd_probe_id :: uuid
  pd_site_id :: uuid
  pd_approved_cidrs :: "string list"
  pd_denied_cidrs :: "string list"
  pd_allow_public_addresses :: bool
  pd_allowed_modes :: "string list"
  pd_allowed_plugins :: "string list"
  pd_active_web_scans_allowed :: bool
  pd_credentialed_scans_allowed :: bool
  pd_limits :: policy_limits

definition duration_limit_for_hosts :: "int \<Rightarrow> int" where
  "duration_limit_for_hosts hosts =
     (let steps = max 1 ((max 1 hosts + 256 - 1) div 256)
      in min (48 * 60 * 60) (8 * 60 * 60 * steps))"

definition probe_scopes :: "probe \<Rightarrow> 'a net_db_scheme \<Rightarrow> network_scope list" where
  "probe_scopes p db =
     (let bound = [sc_network_id s. s \<leftarrow> scouts db, n \<leftarrow> networks db,
                    nw_id n = sc_network_id s \<and> sc_probe_id s = pb_id p \<and> nw_enabled n]
      in sort_key ns_cidr (filter (\<lambda>s. ns_enabled s \<and>
           (case ns_network_id s of None \<Rightarrow> False | Some n \<Rightarrow> n \<in> set bound)) (scopes db)))"

definition int_or_default :: "int option list \<Rightarrow> int \<Rightarrow> int" where
  "int_or_default vals d =
     (case filter (\<lambda>v. v > 0) (List.map_filter id vals) of
        [] \<Rightarrow> d
      | v # vs \<Rightarrow> foldl min v vs)"

definition relay_prefix :: string where
  "relay_prefix = ''Managed by relay ''"

text \<open>The relay a range is managed by, from its notes.\<close>

definition managing_relay :: "network_scope \<Rightarrow> string option" where
  "managing_relay s =
     (case ns_notes s of
        None \<Rightarrow> None
      | Some notes \<Rightarrow>
          if starts_with relay_prefix notes then Some (strip (remove_prefix relay_prefix notes))
          else None)"

definition ordinary_scopes :: "probe \<Rightarrow> app_settings \<Rightarrow> network_scope list \<Rightarrow> network_scope list" where
  "ordinary_scopes p cfg =
     filter (\<lambda>s. managing_relay s = None \<or> pb_name p = relay_scanner_probe_name cfg)"

definition denied_cidrs ::
  "probe \<Rightarrow> app_settings \<Rightarrow> network_scope list \<Rightarrow> 'a net_db_scheme \<Rightarrow> string list" where
  "denied_cidrs p cfg ss db =
     (if pb_name p = relay_scanner_probe_name cfg
      then let ids = List.map_filter uuid_parse (List.map_filter managing_relay ss)
           in sort (remdups (concat (map rl_denied_cidrs
                (filter (\<lambda>r. rl_id r \<in> set ids) (relays db)))))
      else [])"

definition build_policy_document :: "probe \<Rightarrow> app_settings \<Rightarrow> 'a net_db_scheme \<Rightarrow> policy_document" where
  "build_policy_document p cfg db =
     (let all_scopes = probe_scopes p db;
          ss = ordinary_scopes p cfg all_scopes;
          max_hosts = int_or_default (map ns_maximum_hosts ss) 256;
          credentialed = (pb_credentialed_scans_enabled p \<and>
            (case pb_encryption_public_key p of None \<Rightarrow> False | Some k \<Rightarrow> k \<noteq> []))
      in \<lparr>pd_schema_version = 1, pd_policy_version = foldr max (map ns_policy_version ss) 0,
          pd_probe_id = pb_id p, pd_site_id = pb_site_id p,
          pd_approved_cidrs = map ns_cidr ss, pd_denied_cidrs = denied_cidrs p cfg all_scopes db,
          pd_allow_public_addresses = list_ex ns_allow_public_addresses ss,
          pd_allowed_modes = ''vulnerability_assessment'' #
            (if pb_pentest_enabled p then [''controlled_pentest''] else []),
          pd_allowed_plugins = [''nmap'', ''nuclei'', ''testssl'', ''zap''] @
            (if pb_pentest_enabled p then [''metasploit''] else []) @
            (if credentialed then [''ssh_inventory'', ''winrm_inventory''] else []),
          pd_active_web_scans_allowed = pb_pentest_enabled p,
          pd_credentialed_scans_allowed = credentialed,
          pd_limits =
            \<lparr>lim_max_hosts = max_hosts,
             lim_max_parallel_hosts = int_or_default (map ns_maximum_concurrency ss) 8,
             lim_max_packets_per_second = int_or_default (map ns_maximum_packets_per_second ss) 1000,
             lim_max_duration_seconds = duration_limit_for_hosts max_hosts\<rparr>\<rparr>)"

subsection \<open>Properties\<close>

lemma foldl_min_in: "foldl min v vs \<in> set (v # (vs :: int list))"
  by (induction vs arbitrary: v) (auto simp: min_def)

lemma foldl_min_le: "w \<in> set (v # vs) \<Longrightarrow> foldl min v (vs :: int list) \<le> w"
proof (induction vs arbitrary: v w)
  case Nil
  then show ?case by simp
next
  case (Cons x vs)
  have "foldl min (min v x) vs \<le> min v x" by (rule Cons.IH) simp
  with Cons show ?case by auto
qed

lemma positive_values:
  "set (filter (\<lambda>v. v > 0) (List.map_filter id vals)) = {w. Some w \<in> set vals \<and> (0::int) < w}"
proof (induction vals)
  case Nil
  show ?case by (simp add: map_filter_simps)
next
  case (Cons v vals)
  then show ?case by (cases v) (auto simp: map_filter_simps)
qed

text \<open>The limit is the smallest positive value, or the default when there is none.\<close>

lemma int_or_default_cases:
  obtains (unset) "\<And>v. Some v \<in> set vals \<Longrightarrow> v \<le> 0" and "int_or_default vals d = d"
  | (least) v where "Some v \<in> set vals" and "0 < v" and "int_or_default vals d = v"
    and "\<And>w. Some w \<in> set vals \<Longrightarrow> 0 < w \<Longrightarrow> v \<le> w"
proof (cases "filter (\<lambda>v. v > 0) (List.map_filter id vals)")
  case Nil
  then have "{w. Some w \<in> set vals \<and> 0 < w} = {}"
    unfolding positive_values [symmetric] by simp
  then have "\<And>v. Some v \<in> set vals \<Longrightarrow> v \<le> 0" by force
  moreover have "int_or_default vals d = d" by (simp add: int_or_default_def Nil)
  ultimately show ?thesis by (rule unset)
next
  case (Cons v vs)
  let ?m = "foldl min v vs"
  have pos: "set (v # vs) = {w. Some w \<in> set vals \<and> 0 < w}"
    unfolding Cons [symmetric] by (rule positive_values)
  have "?m \<in> set (v # vs)" by (rule foldl_min_in)
  then have "Some ?m \<in> set vals" "0 < ?m" unfolding pos by simp_all
  moreover have "int_or_default vals d = ?m" by (simp add: int_or_default_def Cons)
  moreover have "?m \<le> w" if "Some w \<in> set vals" "0 < w" for w
    by (rule foldl_min_le) (use that in \<open>simp only: pos mem_Collect_eq\<close>)
  ultimately show ?thesis by (rule least)
qed

lemma int_or_default_pos: "0 < d \<Longrightarrow> 0 < int_or_default vals d"
  by (cases vals d rule: int_or_default_cases) simp_all

lemma int_or_default_le: "s \<in> set ss \<Longrightarrow> f s = Some v \<Longrightarrow> 0 < v \<Longrightarrow> int_or_default (map f ss) d \<le> v"
proof (cases "map f ss" d rule: int_or_default_cases)
  case unset
  assume "s \<in> set ss" "f s = Some v" "0 < v"
  then have "Some v \<in> set (map f ss)" by (metis image_eqI set_map)
  with unset(1) \<open>0 < v\<close> show ?thesis by fastforce
next
  case (least m)
  assume "s \<in> set ss" "f s = Some v" "0 < v"
  then have "Some v \<in> set (map f ss)" by (metis image_eqI set_map)
  with least \<open>0 < v\<close> show ?thesis by simp
qed

lemma duration_limit_for_hosts_bounds:
  "8 * 60 * 60 \<le> duration_limit_for_hosts h \<and> duration_limit_for_hosts h \<le> 48 * 60 * 60"
proof -
  have "(1::int) \<le> max 1 ((max 1 h + 256 - 1) div 256)" by simp
  then show ?thesis unfolding duration_limit_for_hosts_def Let_def by linarith
qed

lemma approved_origin:
  "c \<in> set (pd_approved_cidrs (build_policy_document p cfg db)) \<Longrightarrow>
    \<exists>s \<in> set (scopes db). ns_cidr s = c \<and> ns_enabled s \<and>
      (\<exists>n \<in> set (networks db). nw_enabled n \<and> ns_network_id s = Some (nw_id n) \<and>
         (\<exists>b \<in> set (scouts db). sc_network_id b = nw_id n \<and> sc_probe_id b = pb_id p)) \<and>
      (managing_relay s = None \<or> pb_name p = relay_scanner_probe_name cfg)"
  by (force simp: build_policy_document_def Let_def ordinary_scopes_def probe_scopes_def
      split: option.splits)

text \<open>C20. The local policy grants no more than was approved: every approved range is an enabled range
  of an enabled network the Scout is bound to, and a relay-managed one only for the relay scanner;
  pentest mode, Metasploit and active web scans need the pentest opt-in of the Scout and credentialed
  plugins its opt-in and key; and every limit is positive and at most each limit set on a granted
  range.\<close>

theorem policy_grants_only_approved:
  assumes "d = build_policy_document p cfg db"
  shows "(\<forall>c \<in> set (pd_approved_cidrs d). \<exists>s \<in> set (scopes db). ns_cidr s = c \<and> ns_enabled s \<and>
      (\<exists>n \<in> set (networks db). nw_enabled n \<and> ns_network_id s = Some (nw_id n) \<and>
         (\<exists>b \<in> set (scouts db). sc_network_id b = nw_id n \<and> sc_probe_id b = pb_id p)) \<and>
      (managing_relay s = None \<or> pb_name p = relay_scanner_probe_name cfg)) \<and>
    (''controlled_pentest'' \<in> set (pd_allowed_modes d) \<or> ''metasploit'' \<in> set (pd_allowed_plugins d) \<or>
       pd_active_web_scans_allowed d \<longrightarrow> pb_pentest_enabled p) \<and>
    (''ssh_inventory'' \<in> set (pd_allowed_plugins d) \<or> ''winrm_inventory'' \<in> set (pd_allowed_plugins d) \<longrightarrow>
       pb_credentialed_scans_enabled p \<and> pb_encryption_public_key p \<notin> {None, Some []}) \<and>
    0 < lim_max_hosts (pd_limits d) \<and> 0 < lim_max_parallel_hosts (pd_limits d) \<and>
    0 < lim_max_packets_per_second (pd_limits d) \<and>
    lim_max_duration_seconds (pd_limits d) \<le> 48 * 60 * 60 \<and>
    (\<forall>s \<in> set (ordinary_scopes p cfg (probe_scopes p db)). \<forall>v > 0.
       (ns_maximum_hosts s = Some v \<longrightarrow> lim_max_hosts (pd_limits d) \<le> v) \<and>
       (ns_maximum_concurrency s = Some v \<longrightarrow> lim_max_parallel_hosts (pd_limits d) \<le> v) \<and>
       (ns_maximum_packets_per_second s = Some v \<longrightarrow> lim_max_packets_per_second (pd_limits d) \<le> v))"
proof (intro conjI ballI allI impI)
  fix c
  assume "c \<in> set (pd_approved_cidrs d)"
  then show "\<exists>s \<in> set (scopes db). ns_cidr s = c \<and> ns_enabled s \<and>
      (\<exists>n \<in> set (networks db). nw_enabled n \<and> ns_network_id s = Some (nw_id n) \<and>
         (\<exists>b \<in> set (scouts db). sc_network_id b = nw_id n \<and> sc_probe_id b = pb_id p)) \<and>
      (managing_relay s = None \<or> pb_name p = relay_scanner_probe_name cfg)"
    unfolding assms by (rule approved_origin)
next
  assume "''controlled_pentest'' \<in> set (pd_allowed_modes d) \<or> ''metasploit'' \<in> set (pd_allowed_plugins d) \<or>
       pd_active_web_scans_allowed d"
  then show "pb_pentest_enabled p"
    by (auto simp: assms build_policy_document_def Let_def split: if_splits)
next
  assume "''ssh_inventory'' \<in> set (pd_allowed_plugins d) \<or> ''winrm_inventory'' \<in> set (pd_allowed_plugins d)"
  then show "pb_credentialed_scans_enabled p" "pb_encryption_public_key p \<notin> {None, Some []}"
    by (auto simp: assms build_policy_document_def Let_def split: if_splits option.splits)
next
  show "lim_max_duration_seconds (pd_limits d) \<le> 48 * 60 * 60"
    using duration_limit_for_hosts_bounds by (simp add: assms build_policy_document_def Let_def)
qed (auto simp: assms build_policy_document_def Let_def int_or_default_pos
    intro: int_or_default_le)


text \<open>A sample site: one private range with a host limit, one network, two bound Scouts.\<close>

definition sample_probe :: probe where
  "sample_probe = \<lparr>pb_id = 5, pb_organization_id = 1, pb_site_id = 2, pb_name = ''scout'',
     pb_status = ProbeStatus.ENROLLED, pb_created_at = 0, pb_health = JObj [],
     pb_pentest_enabled = False, pb_credentialed_scans_enabled = False,
     pb_encryption_public_key = None\<rparr>"

definition sample_scope :: network_scope where
  "sample_scope = \<lparr>ns_id = 11, ns_organization_id = 1, ns_site_id = 2, ns_network_id = Some 7,
     ns_name = ''lan'', ns_cidr = ''10.20.0.0/24'', ns_enabled = True,
     ns_allow_public_addresses = False, ns_expires_at = Some 0, ns_maximum_hosts = Some 300,
     ns_maximum_packets_per_second = None, ns_maximum_concurrency = Some 4, ns_notes = None,
     ns_policy_version = 3\<rparr>"

definition sample_networks :: "network list" where
  "sample_networks = [\<lparr>nw_id = 7, nw_organization_id = 1, nw_site_id = 2, nw_name = ''n'',
     nw_description = None, nw_enabled = True, nw_is_default = True, nw_policy_version = 1\<rparr>]"

definition sample_scouts :: "network_scout list" where
  "sample_scouts = [\<lparr>sc_id = 21, sc_network_id = 7, sc_probe_id = 5, sc_is_primary = True\<rparr>]"

definition sample_net :: net_db where
  "sample_net = \<lparr>probes = [sample_probe], networks = sample_networks, scouts = sample_scouts,
     scopes = [sample_scope], relays = []\<rparr>"

definition sample_cfg :: app_settings where
  "sample_cfg = \<lparr>relay_scanner_probe_name = ''relay-scanner'', job_default_ttl_minutes = 60,
     probe_offline_after_seconds = 90\<rparr>"

theorem policy_grants_only_approved_witness:
  "lim_max_hosts (pd_limits (build_policy_document sample_probe sample_cfg sample_net)) \<le> 300"
proof -
  have "list_ex (\<lambda>s. ns_maximum_hosts s = Some 300)
      (ordinary_scopes sample_probe sample_cfg (probe_scopes sample_probe sample_net))"
    by code_simp
  then obtain s where "s \<in> set (ordinary_scopes sample_probe sample_cfg (probe_scopes sample_probe sample_net))"
      "ns_maximum_hosts s = Some 300"
    by (auto simp: list_ex_iff)
  then show ?thesis
    using policy_grants_only_approved [OF refl, of sample_probe sample_cfg sample_net] by simp
qed

text \<open>
  The expiry of a range plays no part in the policy, which does not read the clock: the range of
  \<open>sample_scope\<close>, which expired at instant 0, is approved at any time.
\<close>

lemma expired_scope_approved:
  "ns_expires_at sample_scope = Some 0 \<and>
   pd_approved_cidrs (build_policy_document sample_probe sample_cfg sample_net) = [''10.20.0.0/24'']"
  by code_simp

end
