(* ===== verification/Jobs.thy ===== *)
theory Jobs
  imports Policy
begin

text \<open>
  Scan-job creation, \<^verbatim>\<open>app/services/jobs.py\<close>: target validation against the local policy, the concrete
  Scout workflow, the signed envelope and the stored row.  \<open>job_db\<close> adds the tables it writes to the
  network tables of \<open>Policy\<close>.

  What the service takes from elsewhere is an argument, collected in \<open>job_env\<close>: the clock, the fresh
  identifier, the signature over an envelope, and the credential vault (which credential a protocol
  resolves to, and the sealed envelope for the Scout).  Instants stay instants in the envelope instead
  of ISO text.
\<close>

record job_stage =
  st_stage :: string
  st_plugin :: string
  st_config :: json

text \<open>The limits dictionary: the policy's limits of a scan, or the session length of a pentest.\<close>

datatype job_limits = ScanLimits policy_limits | SessionLimits int

record envelope =
  en_schema_version :: int
  en_job_id :: uuid
  en_probe_id :: uuid
  en_site_id :: uuid
  en_mode :: JobMode
  en_profile_version :: int
  en_policy_version :: int
  en_not_before :: time
  en_expires_at :: time
  en_targets :: "string list"
  en_workflow :: "job_stage list"
  en_limits :: job_limits
  en_credential_envelope :: "string option"

text \<open>
  What a Scout reports while a job runs (\<open>progress_json\<close>; the fields the server reads back), and an entry
  of the failure log of a job.
\<close>

record scan_progress =
  pg_percent :: int
  pg_current_stage :: "string option"
  pg_current_plugin :: "string option"
  pg_stages_total :: int
  pg_stages_completed :: int
  pg_stages_run :: int
  pg_stages_failed :: int
  pg_stages_skipped :: int
  pg_work_units_total :: "int option"
  pg_work_units_done :: "rat option"
  pg_target_groups :: int
  pg_target_addresses :: int
  pg_elapsed_seconds :: int
  pg_eta_seconds :: "int option"

record failure_entry =
  fe_code :: string
  fe_stage :: "string option"
  fe_plugin :: "string option"
  fe_message :: "string option"
  fe_received_at :: time

record scan_job =
  sj_id :: uuid
  sj_organization_id :: uuid
  sj_site_id :: uuid
  sj_probe_id :: uuid
  sj_network_id :: "uuid option"
  sj_asset_id :: "uuid option"
  sj_mode :: JobMode
  sj_status :: JobStatus
  sj_requested_targets :: "string list"
  sj_workflow :: "job_stage list"
  sj_limits :: job_limits
  sj_policy_version :: int
  sj_envelope :: envelope
  sj_signature :: string
  sj_not_before :: time
  sj_expires_at :: time
  sj_created_by :: "uuid option"
  sj_verifies_finding_ids :: "string list"
  sj_credential_protocols :: "string list"
  sj_created_at :: time
  sj_cancel_requested_at :: "time option"
  sj_offered_at :: "time option"
  sj_accepted_at :: "time option"
  sj_started_at :: "time option"
  sj_finished_at :: "time option"
  sj_estimated_completion_at :: "time option"
  sj_error_code :: "string option"
  sj_error_message :: "string option"
  sj_progress_percent :: int
  sj_progress :: "scan_progress option"
  sj_last_progress_at :: "time option"
  sj_summary :: json
  sj_failure_log :: "failure_entry list"

record asset =
  as_id :: uuid
  as_organization_id :: uuid
  as_site_id :: uuid

record asset_identifier =
  ai_asset_id :: uuid
  ai_type :: IdentifierType
  ai_value :: string
  ai_created_at :: time

record resolved_credential =
  rc_protocol :: CredentialProtocol
  rc_record :: "uuid option"
  rc_version :: "uuid option"

record usage_audit =
  ua_organization_id :: uuid
  ua_credential_id :: uuid
  ua_secret_version_id :: uuid
  ua_asset_id :: uuid
  ua_probe_id :: uuid
  ua_scan_job_id :: uuid
  ua_protocol :: CredentialProtocol
  ua_status :: string
  ua_detail :: "string option"

record job_db = net_db +
  jobs :: "scan_job list"
  assets :: "asset list"
  identifiers :: "asset_identifier list"
  audits :: "usage_audit list"

datatype job_error = JobValidationError string | UrlValueError | HealthValueError
  | CredentialError string

record job_env =
  je_now :: time
  je_fresh :: uuid
  je_sign :: "envelope \<Rightarrow> string"
  je_resolve :: "asset \<Rightarrow> CredentialProtocol list \<Rightarrow> uuid option \<Rightarrow> string option
                   \<Rightarrow> string + resolved_credential list"
  je_seal :: "uuid \<Rightarrow> probe \<Rightarrow> time \<Rightarrow> resolved_credential list \<Rightarrow> string + string"

record job_request =
  rq_targets :: "string list"
  rq_mode :: JobMode
  rq_created_by :: "uuid option"
  rq_not_before :: "time option"
  rq_expires_at :: "time option"
  rq_web_profile :: "WebScanProfile option"
  rq_web_start_urls :: "string list"
  rq_verifies_finding_ids :: "string list"
  rq_stages :: "string list option"
  rq_network_id :: "uuid option"
  rq_asset_id :: "uuid option"
  rq_protocols :: "CredentialProtocol list"
  rq_preset_key :: "string option"
  rq_preset_version :: "int option"
  rq_include_default_workflow :: bool

subsection \<open>Targets\<close>

definition message_of :: "scope_error \<Rightarrow> string" where
  "message_of e = (case e of ScopeValidationError m \<Rightarrow> m)"

definition target_within :: "ip_network \<Rightarrow> string \<Rightarrow> bool" where
  "target_within net cidr =
     (case normalize_cidr cidr of
        Inl _ \<Rightarrow> False
      | Inr approved \<Rightarrow> ip_v6 net = ip_v6 approved \<and> subnet_of net approved)"

definition target_within_approved :: "string \<Rightarrow> string list \<Rightarrow> bool" where
  "target_within_approved target approved =
     (case normalize_cidr target of
        Inl _ \<Rightarrow> False
      | Inr net \<Rightarrow> list_ex (target_within net) approved)"

definition overlaps_denied :: "ip_network \<Rightarrow> string \<Rightarrow> bool" where
  "overlaps_denied net cidr =
     (case normalize_cidr cidr of
        Inl _ \<Rightarrow> False
      | Inr denied \<Rightarrow> ip_v6 net = ip_v6 denied \<and> ip_overlaps net denied)"

definition validate_target ::
  "string list \<Rightarrow> string list \<Rightarrow> bool \<Rightarrow> string \<Rightarrow> job_error + string" where
  "validate_target approved denied allow_public target =
     (case normalize_cidr target of
        Inl e \<Rightarrow> Inl (JobValidationError (message_of e))
      | Inr net \<Rightarrow>
          if \<not> allow_public \<and> \<not> is_private net
          then Inl (JobValidationError (''Target '' @ target @ '' is a public address''))
          else if \<not> target_within_approved target approved
          then Inl (JobValidationError (''Target '' @ target @ '' is outside the approved scope''))
          else (case find (overlaps_denied net) denied of
                  Some d \<Rightarrow> Inl (JobValidationError (''Target '' @ target @ '' overlaps denied scope '' @ d))
                | None \<Rightarrow> Inr (network_str net)))"

definition validate_targets ::
  "string list \<Rightarrow> string list \<Rightarrow> string list \<Rightarrow> bool \<Rightarrow> job_error + string list" where
  "validate_targets targets approved denied allow_public =
     (if targets = [] then Inl (JobValidationError ''At least one target is required'')
      else traverse (validate_target approved denied allow_public) targets)"

definition count_hosts :: "string list \<Rightarrow> int" where
  "count_hosts targets = sum_list (map (\<lambda>t. case normalize_cidr t of
     Inl _ \<Rightarrow> 0 | Inr n \<Rightarrow> int (num_addresses n)) targets)"

definition enforce_host_limit :: "string list \<Rightarrow> policy_limits \<Rightarrow> job_error + unit" where
  "enforce_host_limit targets limits =
     (let max_hosts = lim_max_hosts limits; requested = count_hosts targets
      in if max_hosts \<le> 0 then Inr ()
         else if requested > max_hosts
         then Inl (JobValidationError (''Job spans '' @ int_str requested @
                '' hosts, exceeding the scope limit of '' @ int_str max_hosts))
         else Inr ())"

subsection \<open>Web start URLs\<close>

text \<open>
  What the service reads of the standard library's \<open>urlsplit\<close>: the scheme and the host name of a URL
  (\<open>None\<close> when it raises).  Leading control characters and blanks and embedded tabs and line ends are
  removed first; a bracketed host must be an IPv6 address or an IP future form.
\<close>

definition until_char :: "char list \<Rightarrow> string \<Rightarrow> string" where
  "until_char cs = takeWhile (\<lambda>c. c \<notin> set cs)"

definition after_char :: "char \<Rightarrow> string \<Rightarrow> string" where
  "after_char c s = drop 1 (dropWhile (\<lambda>x. x \<noteq> c) s)"

definition scheme_char :: "char \<Rightarrow> bool" where
  "scheme_char c \<longleftrightarrow> is_alnum c \<or> c \<in> {CHR ''+'', CHR ''-'', CHR ''.''}"

definition url_scheme :: "string \<Rightarrow> string \<times> string" where
  "url_scheme url =
     (let pre = until_char [CHR '':''] url
      in if CHR '':'' \<in> set url \<and> pre \<noteq> [] \<and> (is_upper (hd pre) \<or> is_lower (hd pre)) \<and>
            list_all scheme_char pre
         then (lower pre, after_char (CHR '':'') url) else ([], url))"

definition bracketed_host_ok :: "string \<Rightarrow> bool" where
  "bracketed_host_ok host =
     (if starts_with ''v'' host
      then (let h = takeWhile (\<lambda>c. hex_value c \<noteq> None) (drop 1 host);
                rest = drop (length h + 1) host
            in h \<noteq> [] \<and> length rest \<ge> 2 \<and> hd rest = CHR ''.'')
      else CHR ''/'' \<notin> set host \<and>
           (case split_scope host of None \<Rightarrow> False | Some (a, _) \<Rightarrow> ipv6_parse a \<noteq> None))"

definition netloc_host :: "string \<Rightarrow> string" where
  "netloc_host netloc =
     (let info = last (split_on (CHR ''@'') netloc);
          host = (if CHR ''['' \<in> set info then until_char [CHR '']''] (after_char (CHR ''['') info)
                  else until_char [CHR '':''] info);
          name = until_char [CHR 0x25] host
      in lower name @ drop (length name) host)"

definition url_split :: "string \<Rightarrow> (string \<times> string) option" where
  "url_split raw =
     (let url = filter (\<lambda>c. c \<notin> {CHR 0x09, CHR 0x0A, CHR 0x0D}) (dropWhile (\<lambda>c. code c \<le> 32) raw);
          (scheme, rest) = url_scheme url;
          netloc = (if starts_with ''//'' rest
                    then until_char [CHR ''/'', CHR ''?'', CHR ''#''] (drop 2 rest) else []);
          opens = CHR ''['' \<in> set netloc; closes = CHR '']'' \<in> set netloc
      in if opens \<noteq> closes then None
         else if opens \<and>
           \<not> bracketed_host_ok (until_char [CHR '']''] (after_char (CHR ''['') netloc)) then None
         else Some (scheme, netloc_host netloc))"

definition validate_web_start_url :: "string list \<Rightarrow> string \<Rightarrow> job_error + string" where
  "validate_web_start_url approved raw =
     (case url_split raw of
        None \<Rightarrow> Inl UrlValueError
      | Some (scheme, host) \<Rightarrow>
          if scheme \<notin> {''http'', ''https''} \<or> host = []
          then Inl (JobValidationError (''Invalid web start URL '' @ quoted raw))
          else if \<not> is_ip_address host
          then Inl (JobValidationError ''Web start URLs must use an IP-literal host; DNS names are disabled'')
          else if \<not> target_within_approved host approved
          then Inl (JobValidationError (''Web start URL host '' @ quoted host @
                                        '' is outside the approved scope''))
          else Inr raw)"

definition validate_web_start_urls :: "string list \<Rightarrow> string list \<Rightarrow> job_error + string list" where
  "validate_web_start_urls urls approved = traverse (validate_web_start_url approved) urls"

subsection \<open>Workflow\<close>

definition nmap_stage_config :: "preset \<Rightarrow> json" where
  "nmap_stage_config p =
     (if pr_key p = ''quick''
      then JObj [(''port_profile'', JStr ''quick''), (''timing'', JInt 4), (''max_retries'', JInt 1),
                 (''host_timeout'', JStr ''5m''), (''max_duration_seconds'', JInt (30 * 60))]
      else if pr_key p = ''fragile''
      then JObj [(''port_profile'', JStr ''standard''), (''timing'', JInt 3), (''max_retries'', JInt 2),
                 (''host_timeout'', JStr ''15m''), (''max_duration_seconds'', JInt (3 * 60 * 60))]
      else JObj ([(''port_profile'', JStr ''standard''), (''timing'', JInt 4), (''max_retries'', JInt 1),
                  (''host_timeout'', JStr ''5m''),
                  (''max_duration_seconds'',
                    JInt (if pr_key p = ''standard'' then 60 * 60 else 90 * 60))] @
                 (if pr_key p = ''standard'' \<and> pr_version p \<ge> 3
                  then [(''discovery_strategy'', JStr ''responsive_hosts'')] else [])))"

definition nonzero_or :: "int \<Rightarrow> int \<Rightarrow> int" where
  "nonzero_or v d = (if v = 0 then d else v)"

definition build_web_stage ::
  "WebScanProfile \<Rightarrow> string list \<Rightarrow> policy_limits \<Rightarrow> bool \<Rightarrow> job_stage" where
  "build_web_stage profile urls limits auto_discover =
     (let duration_s = nonzero_or (lim_max_duration_seconds limits) 600;
          rps = nonzero_or (lim_max_packets_per_second limits) 10;
          minutes = max 1 (duration_s div 60);
          minutes = (if auto_discover then min minutes 10 else minutes);
          max_rps = (if auto_discover then 10 else 20)
      in \<lparr>st_stage = ''web'', st_plugin = ''zap'',
          st_config = JObj [(''profile'', JStr (web_scan_profile_value profile)),
            (''max_duration_minutes'', JInt minutes),
            (''requests_per_second'', JInt (min (max 1 rps) max_rps)),
            (if auto_discover then (''auto_discover'', JBool True)
             else (''start_urls'', JList (map JStr urls)))]\<rparr>)"

definition workflow_for_preset :: "preset \<Rightarrow> policy_limits \<Rightarrow> job_stage list" where
  "workflow_for_preset p limits =
     (let has = (\<lambda>k. k \<in> set (pr_stage_keys p))
      in (if has ''discovery'' \<or> has ''service_detection'' \<or> has ''tls'' \<or> has ''web_passive''
          then [\<lparr>st_stage = ''discovery'', st_plugin = ''nmap'', st_config = nmap_stage_config p\<rparr>]
          else []) @
         (if has ''vuln''
          then [\<lparr>st_stage = ''vulnerability'', st_plugin = ''nuclei'', st_config = JObj []\<rparr>] else []) @
         (if has ''tls'' then [\<lparr>st_stage = ''tls'', st_plugin = ''testssl'', st_config = JObj []\<rparr>]
          else []) @
         (if has ''web_passive''
          then [build_web_stage WebScanProfile.PASSIVE_BASELINE [] limits True] else []))"

definition inventory_stage :: "uuid option \<Rightarrow> CredentialProtocol \<Rightarrow> job_stage" where
  "inventory_stage asset protocol =
     \<lparr>st_stage = ''inventory'', st_plugin = credential_protocol_value protocol @ ''_inventory'',
      st_config = JObj [(''asset_id'',
          JStr (case asset of None \<Rightarrow> ''None'' | Some a \<Rightarrow> uuid_str a)),
        (''protocol'', JStr (credential_protocol_value protocol)), (''read_only'', JBool True)]\<rparr>"

text \<open>Python's text of a list of strings.\<close>

definition list_repr :: "string list \<Rightarrow> string" where
  "list_repr xs = ''['' @ join_with '', '' (map quoted xs) @ '']''"

definition explicit_web ::
  "policy_limits \<Rightarrow> string list \<Rightarrow> job_request \<Rightarrow> job_stage list \<Rightarrow> job_error + job_stage list" where
  "explicit_web limits approved rq workflow =
     (case rq_web_profile rq of
        None \<Rightarrow> Inr workflow
      | Some profile \<Rightarrow>
          if rq_web_start_urls rq = []
          then Inl (JobValidationError ''An explicit web assessment requires at least one start URL'')
          else res_bind (validate_web_start_urls (rq_web_start_urls rq) approved) (\<lambda>urls.
            Inr (filter (\<lambda>s. st_stage s \<noteq> ''web'') workflow @
                 [build_web_stage profile urls limits False])))"

definition restrict_stages :: "string list option \<Rightarrow> job_stage list \<Rightarrow> job_error + job_stage list" where
  "restrict_stages selection workflow =
     (case selection of
        None \<Rightarrow> Inr workflow
      | Some wanted \<Rightarrow>
          let kept = filter (\<lambda>s. st_stage s \<in> set wanted) workflow
          in if kept = []
             then Inl (JobValidationError (''No known scanner stages in '' @ list_repr wanted))
             else Inr kept)"

definition job_workflow ::
  "preset \<Rightarrow> policy_limits \<Rightarrow> string list \<Rightarrow> CredentialProtocol list \<Rightarrow> job_request
     \<Rightarrow> job_error + job_stage list" where
  "job_workflow p limits approved protocols rq =
     res_bind (explicit_web limits approved rq
                (if rq_include_default_workflow rq then workflow_for_preset p limits else [])) (\<lambda>workflow.
     res_bind (restrict_stages (rq_stages rq) workflow) (\<lambda>workflow.
     Inr (workflow @ map (inventory_stage (rq_asset_id rq)) protocols)))"

subsection \<open>Network-targeted jobs and persistence\<close>

definition job_site_id :: "probe \<Rightarrow> uuid option \<Rightarrow> 'a net_db_scheme \<Rightarrow> uuid" where
  "job_site_id p net db =
     (case net of None \<Rightarrow> pb_site_id p
      | Some i \<Rightarrow> (case network_of i db of Some n \<Rightarrow> nw_site_id n | None \<Rightarrow> pb_site_id p))"

definition ACTIVE_JOB :: "JobStatus list" where
  "ACTIVE_JOB = [JobStatus.QUEUED, JobStatus.OFFERED, JobStatus.ACCEPTED, JobStatus.RUNNING]"

definition network_has_active_job :: "uuid \<Rightarrow> 'a job_db_scheme \<Rightarrow> bool" where
  "network_has_active_job net db \<longleftrightarrow>
     (\<exists>j \<in> set (jobs db). sj_network_id j = Some net \<and> sj_status j \<in> set ACTIVE_JOB)"

definition validate_network_job ::
  "probe \<Rightarrow> uuid \<Rightarrow> 'a job_db_scheme \<Rightarrow> job_error + string list" where
  "validate_network_job p net db =
     (case network_of net db of
        None \<Rightarrow> Inl (JobValidationError ''Network not found'')
      | Some n \<Rightarrow>
          if nw_organization_id n \<noteq> pb_organization_id p
          then Inl (JobValidationError ''Network not found'')
          else if \<not> nw_enabled n then Inl (JobValidationError ''The network is disabled'')
          else if \<not> (\<exists>s \<in> set (scouts db). sc_network_id s = net \<and> sc_probe_id s = pb_id p)
          then Inl (JobValidationError ''The probe is not bound to this network'')
          else if network_has_active_job net db
          then Inl (JobValidationError ''the network is already under test'')
          else if network_cidrs net db = []
          then Inl (JobValidationError ''The network has no enabled ranges'')
          else Inr (network_cidrs net db))"

text \<open>The unique partial index admits one active job per network.\<close>

definition persist_job :: "scan_job \<Rightarrow> 'a job_db_scheme \<Rightarrow> job_error + 'a job_db_scheme" where
  "persist_job j db =
     (case sj_network_id j of
        Some net \<Rightarrow>
          if sj_status j \<in> set ACTIVE_JOB \<and> network_has_active_job net db
          then Inl (JobValidationError ''the network is already under test'')
          else Inr (db\<lparr>jobs := jobs db @ [j]\<rparr>)
      | None \<Rightarrow> Inr (db\<lparr>jobs := jobs db @ [j]\<rparr>))"

subsection \<open>Credentialed inventory\<close>

text \<open>
  The checks before credentials are resolved, and the resolution.  The result is the asset and its
  credentials, or nothing when no protocol is requested.
\<close>

definition host_of :: "string list \<Rightarrow> ip_network option" where
  "host_of targets =
     (case targets of
        [t] \<Rightarrow> (case normalize_cidr t of
                  Inr n \<Rightarrow> if num_addresses n = 1 then Some n else None
                | Inl _ \<Rightarrow> None)
      | _ \<Rightarrow> None)"

definition resolve_inventory ::
  "job_env \<Rightarrow> probe \<Rightarrow> string list \<Rightarrow> CredentialProtocol list \<Rightarrow> job_request \<Rightarrow> 'a job_db_scheme
     \<Rightarrow> job_error + (asset option \<times> resolved_credential list)" where
  "resolve_inventory env p targets protocols rq db =
     (if protocols = [] then Inr (None, [])
      else if \<not> pb_credentialed_scans_enabled p
      then Inl (JobValidationError (''Credentialed scans are not enabled on this Scout; '' @
                                    ''an administrator must opt it in''))
      else if pb_encryption_public_key p \<in> {None, Some []}
      then Inl (JobValidationError (''Scout has no credential-encryption key; '' @
                                    ''re-enroll it before credentialed scans''))
      else case rq_asset_id rq of
        None \<Rightarrow> Inl (JobValidationError ''asset_id is required for authenticated inventory'')
      | Some i \<Rightarrow>
          (case find (\<lambda>a. as_id a = i \<and> as_organization_id a = pb_organization_id p) (assets db) of
             None \<Rightarrow> Inl (JobValidationError ''Authenticated inventory asset was not found'')
           | Some a \<Rightarrow>
               if as_site_id a \<noteq> job_site_id p (rq_network_id rq) db
               then Inl (JobValidationError ''Authenticated inventory asset is outside the job site'')
               else (case host_of targets of
                 None \<Rightarrow> Inl (JobValidationError
                            ''Authenticated inventory requires exactly one host target'')
               | Some n \<Rightarrow>
                   if \<not> (\<exists>x \<in> set (identifiers db). ai_asset_id x = as_id a \<and>
                          ai_type x = IdentifierType.IP_ADDRESS \<and> ai_value x = address_str n)
                   then Inl (JobValidationError
                          ''Authenticated inventory target is not an IP of the asset'')
                   else (case je_resolve env a protocols (rq_network_id rq) (rq_preset_key rq) of
                     Inl m \<Rightarrow> Inl (JobValidationError m)
                   | Inr creds \<Rightarrow> Inr (Some a, creds)))))"

definition usage_audit_of ::
  "scan_job \<Rightarrow> asset \<Rightarrow> resolved_credential \<Rightarrow> job_error + usage_audit" where
  "usage_audit_of j a c =
     (case (rc_record c, rc_version c) of
        (Some r, Some v) \<Rightarrow>
          Inr \<lparr>ua_organization_id = sj_organization_id j, ua_credential_id = r,
               ua_secret_version_id = v, ua_asset_id = as_id a, ua_probe_id = sj_probe_id j,
               ua_scan_job_id = sj_id j, ua_protocol = rc_protocol c,
               ua_status = ''encrypted_for_job'', ua_detail = None\<rparr>
      | _ \<Rightarrow> Inl (JobValidationError ''credential resolution changed while creating the job''))"

subsection \<open>Creating jobs\<close>

text \<open>\<open>int(health.get(key, default) or default)\<close>; a value \<open>int()\<close> rejects raises.\<close>

definition int_of_json :: "json \<Rightarrow> int option" where
  "int_of_json j =
     (case j of
        JInt i \<Rightarrow> Some i
      | JBool b \<Rightarrow> Some (of_bool b)
      | JFloat q \<Rightarrow> Some (if q < 0 then \<lceil>q\<rceil> else \<lfloor>q\<rfloor>)
      | JStr s \<Rightarrow> py_int s
      | _ \<Rightarrow> None)"

definition health_int :: "json \<Rightarrow> string \<Rightarrow> int \<Rightarrow> job_error + int" where
  "health_int health key d =
     (let v = or_else (json_get health key) (JInt d)
      in if truthy v
         then (case int_of_json v of None \<Rightarrow> Inl HealthValueError | Some i \<Rightarrow> Inr i)
         else Inr d)"

definition preset_message :: "preset_error \<Rightarrow> string" where
  "preset_message e =
     (case e of
        UnknownPreset k v \<Rightarrow> ''Unknown preset '' @ quoted k @
          (case v of None \<Rightarrow> [] | Some i \<Rightarrow> if i = 0 then [] else '' v'' @ int_str i)
      | _ \<Rightarrow> [])"

definition build_job_envelope ::
  "uuid \<Rightarrow> probe \<Rightarrow> JobMode \<Rightarrow> string list \<Rightarrow> job_stage list \<Rightarrow> job_limits \<Rightarrow> int \<Rightarrow> time \<Rightarrow> time
     \<Rightarrow> string option \<Rightarrow> int \<Rightarrow> envelope" where
  "build_job_envelope job p mode targets workflow limits policy_version start end' creds version =
     \<lparr>en_schema_version = 1, en_job_id = job, en_probe_id = pb_id p, en_site_id = pb_site_id p,
      en_mode = mode, en_profile_version = version, en_policy_version = policy_version,
      en_not_before = start, en_expires_at = end', en_targets = targets, en_workflow = workflow,
      en_limits = limits, en_credential_envelope = creds\<rparr>"

text \<open>The policy's limits under the recommended tuning.\<close>

definition tuned_limits :: "policy_limits \<Rightarrow> preset \<Rightarrow> int \<Rightarrow> int \<Rightarrow> policy_limits" where
  "tuned_limits limits p cpus mem =
     (let tuning = recommend_tuning p cpus mem (Some (lim_max_packets_per_second limits))
                     (Some (lim_max_parallel_hosts limits))
      in limits\<lparr>lim_max_packets_per_second := rp_packets_per_second tuning,
                lim_max_parallel_hosts := rp_concurrency tuning\<rparr>)"

definition job_budget :: "preset \<Rightarrow> string list \<Rightarrow> job_stage list \<Rightarrow> policy_limits \<Rightarrow> policy_limits" where
  "job_budget p targets workflow limits =
     limits\<lparr>lim_max_duration_seconds :=
       min (lim_max_duration_seconds limits)
         (duration_for p (count_hosts targets)
           (filter (\<lambda>s. s \<noteq> []) (map st_plugin workflow)))\<rparr>"

definition job_ranges ::
  "probe \<Rightarrow> policy_document \<Rightarrow> uuid option \<Rightarrow> 'a job_db_scheme \<Rightarrow> job_error + string list" where
  "job_ranges p policy net db =
     (if pd_approved_cidrs policy = []
      then Inl (JobValidationError ''The probe has no approved scopes; approve a scope first'')
      else case net of
        None \<Rightarrow> Inr (pd_approved_cidrs policy)
      | Some i \<Rightarrow>
          res_bind (validate_network_job p i db) (\<lambda>ranges.
            let approved = filter (\<lambda>c. c \<in> set (pd_approved_cidrs policy)) ranges
            in if approved = []
               then Inl (JobValidationError
                      ''The selected Scout is not permitted to use this network'')
               else Inr approved))"

definition new_job ::
  "job_env \<Rightarrow> probe \<Rightarrow> envelope \<Rightarrow> job_request \<Rightarrow> CredentialProtocol list \<Rightarrow> 'a net_db_scheme \<Rightarrow> scan_job" where
  "new_job env p e rq protocols db =
     \<lparr>sj_id = en_job_id e, sj_organization_id = pb_organization_id p,
      sj_site_id = job_site_id p (rq_network_id rq) db, sj_probe_id = pb_id p,
      sj_network_id = rq_network_id rq, sj_asset_id = rq_asset_id rq, sj_mode = rq_mode rq,
      sj_status = JobStatus.QUEUED, sj_requested_targets = en_targets e,
      sj_workflow = en_workflow e, sj_limits = en_limits e, sj_policy_version = en_policy_version e,
      sj_envelope = e, sj_signature = je_sign env e, sj_not_before = en_not_before e,
      sj_expires_at = en_expires_at e, sj_created_by = rq_created_by rq,
      sj_verifies_finding_ids = rq_verifies_finding_ids rq,
      sj_credential_protocols = map credential_protocol_value protocols,
      sj_created_at = je_now env, sj_cancel_requested_at = None, sj_offered_at = None,
      sj_accepted_at = None, sj_started_at = None, sj_finished_at = None,
      sj_estimated_completion_at = None, sj_error_code = None, sj_error_message = None,
      sj_progress_percent = 0, sj_progress = None, sj_last_progress_at = None, sj_summary = JObj [],
      sj_failure_log = []\<rparr>"

definition seal_credentials ::
  "job_env \<Rightarrow> probe \<Rightarrow> time \<Rightarrow> resolved_credential list \<Rightarrow> job_error + string option" where
  "seal_credentials env p end' creds =
     (if creds = [] then Inr None
      else case je_seal env (je_fresh env) p end' creds of
        Inl m \<Rightarrow> Inl (CredentialError m)
      | Inr s \<Rightarrow> Inr (Some s))"

text \<open>\<open>create_scan_job\<close>: everything up to the signed job, and then its insertion with the audit rows.\<close>

definition prepare_scan_job ::
  "job_env \<Rightarrow> app_settings \<Rightarrow> probe \<Rightarrow> job_request \<Rightarrow> 'a job_db_scheme
     \<Rightarrow> job_error + (scan_job \<times> asset option \<times> resolved_credential list)" where
  "prepare_scan_job env cfg p rq db =
     (if rq_mode rq \<noteq> JobMode.VULNERABILITY_ASSESSMENT
      then Inl (JobValidationError (''Mode '' @ quoted (job_mode_value (rq_mode rq)) @
                                    '' is not supported yet''))
      else if rq_web_profile rq = Some WebScanProfile.LIMITED_ACTIVE \<and> \<not> pb_pentest_enabled p
      then Inl (JobValidationError (''Active ZAP is not enabled on this Scout; '' @
                                    ''an administrator must enable pentesting''))
      else
        let policy = build_policy_document p cfg db in
        res_bind (job_ranges p policy (rq_network_id rq) db) (\<lambda>approved.
        res_bind (validate_targets (rq_targets rq) approved (pd_denied_cidrs policy)
                    (pd_allow_public_addresses policy)) (\<lambda>targets.
        res_bind (enforce_host_limit targets (pd_limits policy)) (\<lambda>_.
        res_bind (case get_preset (case rq_preset_key rq of None \<Rightarrow> ''standard''
                                    | Some k \<Rightarrow> if k = [] then ''standard'' else k)
                          (rq_preset_version rq) of
                    Inl e \<Rightarrow> Inl (JobValidationError (preset_message e))
                  | Inr p \<Rightarrow> Inr p) (\<lambda>preset.
        res_bind (health_int (pb_health p) ''cpu_count'' 2) (\<lambda>cpus.
        res_bind (health_int (pb_health p) ''memory_mb'' 0) (\<lambda>mb.
        let limits = tuned_limits (pd_limits policy) preset cpus (mb * 2 ^ 20);
            protocols = first_occurrences (rq_protocols rq) in
        res_bind (resolve_inventory env p targets protocols rq db) (\<lambda>(asset, creds).
        res_bind (job_workflow preset limits approved protocols rq) (\<lambda>workflow.
        let limits = job_budget preset targets workflow limits;
            start = or_else (rq_not_before rq) (je_now env);
            window = max (job_default_ttl_minutes cfg * 60)
                       (lim_max_duration_seconds limits + 60 * 60);
            end' = or_else (rq_expires_at rq) (start + seconds window) in
        if end' \<le> start then Inl (JobValidationError ''expires_at must be after not_before'')
        else
        res_bind (seal_credentials env p end' creds) (\<lambda>sealed.
        let e = build_job_envelope (je_fresh env) p (rq_mode rq) targets workflow
                  (ScanLimits limits) (pd_policy_version policy) start end' sealed
                  (pr_version preset)
        in Inr (new_job env p e rq protocols db, asset, creds)))))))))))"

definition create_scan_job ::
  "job_env \<Rightarrow> app_settings \<Rightarrow> probe \<Rightarrow> job_request \<Rightarrow> 'a job_db_scheme
     \<Rightarrow> job_error + ('a job_db_scheme \<times> scan_job)" where
  "create_scan_job env cfg p rq db =
     res_bind (prepare_scan_job env cfg p rq db) (\<lambda>(j, asset, creds).
     res_bind (persist_job j db) (\<lambda>db1.
     res_bind (case asset of None \<Rightarrow> Inr [] | Some a \<Rightarrow> traverse (usage_audit_of j a) creds) (\<lambda>rows.
       Inr (db1\<lparr>audits := audits db1 @ rows\<rparr>, j))))"

text \<open>The request of \<open>create_pentest_job\<close>, and the one-stage job it makes.\<close>

record pentest_request =
  pq_target :: string
  pq_module :: string
  pq_payload :: "string option"
  pq_options :: "(string \<times> json) list"
  pq_max_session_seconds :: int
  pq_expires_at :: time
  pq_created_by :: "uuid option"
  pq_network_id :: "uuid option"

definition exploit_stage :: "pentest_request \<Rightarrow> job_stage" where
  "exploit_stage rq =
     \<lparr>st_stage = ''exploit'', st_plugin = ''metasploit'',
      st_config = JObj [(''module'', JStr (pq_module rq)),
        (''payload'', case pq_payload rq of None \<Rightarrow> JNull | Some s \<Rightarrow> JStr s),
        (''options'', JObj (pq_options rq)),
        (''max_session_seconds'', JInt (pq_max_session_seconds rq))]\<rparr>"

definition plain_request :: "pentest_request \<Rightarrow> job_request" where
  "plain_request rq =
     \<lparr>rq_targets = [pq_target rq], rq_mode = JobMode.CONTROLLED_PENTEST,
      rq_created_by = pq_created_by rq, rq_not_before = None,
      rq_expires_at = Some (pq_expires_at rq), rq_web_profile = None, rq_web_start_urls = [],
      rq_verifies_finding_ids = [], rq_stages = None, rq_network_id = pq_network_id rq,
      rq_asset_id = None, rq_protocols = [], rq_preset_key = None, rq_preset_version = None,
      rq_include_default_workflow = False\<rparr>"

definition create_pentest_job ::
  "job_env \<Rightarrow> app_settings \<Rightarrow> probe \<Rightarrow> pentest_request \<Rightarrow> 'a job_db_scheme
     \<Rightarrow> job_error + ('a job_db_scheme \<times> scan_job)" where
  "create_pentest_job env cfg p rq db =
     (let policy = build_policy_document p cfg db
      in case normalize_cidr (pq_target rq) of
           Inl e \<Rightarrow> Inl (JobValidationError (message_of e))
         | Inr net \<Rightarrow>
             let normalized = network_str net in
             if \<not> target_within_approved normalized (pd_approved_cidrs policy)
             then Inl (JobValidationError (''Target '' @ pq_target rq @ '' is outside the scout'' @
                         [CHR 0x27] @ ''s approved scope''))
             else
               let e = build_job_envelope (je_fresh env) p JobMode.CONTROLLED_PENTEST [normalized]
                         [exploit_stage rq] (SessionLimits (pq_max_session_seconds rq))
                         (pd_policy_version policy) (je_now env) (pq_expires_at rq) None 1;
                   j = new_job env p e (plain_request rq) [] db
               in res_bind (persist_job j db) (\<lambda>db1. Inr (db1, j)))"

subsection \<open>Targets are approved\<close>

text \<open>A text whose addresses all lie in one of the approved ranges and in none of the denied ones.\<close>

definition addresses_granted :: "string list \<Rightarrow> string list \<Rightarrow> string \<Rightarrow> bool" where
  "addresses_granted approved denied t \<longleftrightarrow>
     cidr_addrs t \<noteq> {} \<and> (\<exists>c \<in> set approved. cidr_addrs t \<subseteq> cidr_addrs c) \<and>
     (\<forall>d \<in> set denied. cidr_addrs t \<inter> cidr_addrs d = {})"

lemma target_within_addrs:
  assumes "normalize_cidr t = Inr n" and "target_within n c"
  shows "cidr_addrs t \<subseteq> cidr_addrs c"
  using assms by (auto simp: target_within_def cidr_addrs_def split: sum.splits
      dest!: subnet_of_addrs)

lemma target_within_approved_addrs:
  "target_within_approved t approved \<Longrightarrow> \<exists>c \<in> set approved. cidr_addrs t \<subseteq> cidr_addrs c"
  by (auto simp: target_within_approved_def list_ex_iff split: sum.splits
      dest: target_within_addrs)

lemma not_overlaps_denied:
  assumes "normalize_cidr t = Inr n" and "\<not> overlaps_denied n d"
  shows "cidr_addrs t \<inter> cidr_addrs d = {}"
proof (cases "normalize_cidr d")
  case (Inl e)
  then show ?thesis by (simp add: cidr_addrs_def)
next
  case (Inr m)
  have "ip_v6 n \<noteq> ip_v6 m \<or> addrs n \<inter> addrs m = {}"
    using assms(2) Inr ip_overlaps_iff [OF normalize_cidr_wf [OF assms(1)] normalize_cidr_wf [OF Inr]]
    by (auto simp: overlaps_denied_def)
  then show ?thesis using assms(1) Inr by (auto simp: cidr_addrs_def)
qed

lemma validate_target_granted:
  assumes "validate_target approved denied allow t = Inr s"
  shows "addresses_granted approved denied s" and "cidr_addrs s = cidr_addrs t"
    and "\<exists>n. normalize_cidr s = Inr n \<and> s = network_str n \<and> (allow \<or> is_private n)"
proof -
  obtain n where n: "normalize_cidr t = Inr n" "allow \<or> is_private n"
    "target_within_approved t approved" "find (overlaps_denied n) denied = None" "s = network_str n"
    using assms by (auto simp: validate_target_def split: sum.splits if_split_asm option.splits)
  note wf = normalize_cidr_wf [OF n(1)]
  have same: "cidr_addrs s = cidr_addrs t"
    unfolding n(5) cidr_addrs_network_str [OF wf] by (simp add: cidr_addrs_def n(1))
  have "addrs n \<noteq> {}" using base_in_addrs(1) [of n] by blast
  then have "cidr_addrs t \<noteq> {}"
    by (simp add: cidr_addrs_def n(1))
  moreover have "\<exists>c \<in> set approved. cidr_addrs t \<subseteq> cidr_addrs c"
    using n(3) by (rule target_within_approved_addrs)
  moreover have "\<forall>d \<in> set denied. cidr_addrs t \<inter> cidr_addrs d = {}"
    using find_NoneD [OF n(4)] not_overlaps_denied [OF n(1)] by blast
  ultimately show "addresses_granted approved denied s"
    by (simp add: addresses_granted_def same)
  show "\<exists>n. normalize_cidr s = Inr n \<and> s = network_str n \<and> (allow \<or> is_private n)"
    using normalize_network_str [OF wf] n(2,5) by blast
  show "cidr_addrs s = cidr_addrs t" by (rule same)
qed

lemma validate_targets_granted:
  assumes "validate_targets targets approved denied allow = Inr ts" and "s \<in> set ts"
  shows "addresses_granted approved denied s"
    and "\<exists>n. normalize_cidr s = Inr n \<and> s = network_str n \<and> (allow \<or> is_private n)"
    and "\<exists>t \<in> set targets. cidr_addrs s = cidr_addrs t"
proof -
  have "traverse (validate_target approved denied allow) targets = Inr ts"
    using assms(1) by (simp add: validate_targets_def split: if_split_asm)
  then obtain t where "t \<in> set targets" "validate_target approved denied allow t = Inr s"
    using assms(2) by (blast dest: traverse_origin)
  then show "addresses_granted approved denied s"
    "\<exists>n. normalize_cidr s = Inr n \<and> s = network_str n \<and> (allow \<or> is_private n)"
    "\<exists>t \<in> set targets. cidr_addrs s = cidr_addrs t"
    using validate_target_granted by blast+
qed

lemma job_ranges_approved:
  assumes "job_ranges p policy net db = Inr approved"
  shows "set approved \<subseteq> set (pd_approved_cidrs policy) \<and>
    (case net of None \<Rightarrow> True
     | Some i \<Rightarrow> set approved \<subseteq> set (network_cidrs i db) \<and> \<not> network_has_active_job i db \<and>
         (\<exists>n. network_of i db = Some n \<and> nw_enabled n \<and>
            nw_organization_id n = pb_organization_id p))"
  using assms
  by (auto simp: job_ranges_def validate_network_job_def res_bind_Inr Let_def
      split: if_split_asm option.splits)

text \<open>The steps of a successful preparation.\<close>

definition scan_policy :: "app_settings \<Rightarrow> probe \<Rightarrow> 'a net_db_scheme \<Rightarrow> policy_document" where
  "scan_policy cfg p db = build_policy_document p cfg db"

lemma map_errE:
  assumes "(case r of Inl e \<Rightarrow> Inl (f e) | Inr x \<Rightarrow> Inr x) = Inr y"
  obtains "r = Inr y"
  using assms by (cases r) auto

lemma Inr_tripleE:
  assumes "Inr (a, b, c) = (Inr (x, y, z) :: 'e + 'a \<times> 'b \<times> 'c)"
  obtains "x = a" and "y = b" and "z = c"
  using assms by simp

lemma prepare_scan_job_steps:
  assumes "prepare_scan_job env cfg p rq db = Inr (j, asset, creds)"
  obtains approved targets preset cpus mb workflow sealed start end' where
    "rq_mode rq = JobMode.VULNERABILITY_ASSESSMENT"
    and "rq_web_profile rq = Some WebScanProfile.LIMITED_ACTIVE \<Longrightarrow> pb_pentest_enabled p"
    and "job_ranges p (scan_policy cfg p db) (rq_network_id rq) db = Inr approved"
    and "validate_targets (rq_targets rq) approved (pd_denied_cidrs (scan_policy cfg p db))
           (pd_allow_public_addresses (scan_policy cfg p db)) = Inr targets"
    and "enforce_host_limit targets (pd_limits (scan_policy cfg p db)) = Inr ()"
    and "\<exists>key. get_preset key (rq_preset_version rq) = Inr preset"
    and "resolve_inventory env p targets (first_occurrences (rq_protocols rq)) rq db = Inr (asset, creds)"
    and "job_workflow preset (tuned_limits (pd_limits (scan_policy cfg p db)) preset cpus mb)
           approved (first_occurrences (rq_protocols rq)) rq = Inr workflow"
    and "start < end'"
    and "j = new_job env p (build_job_envelope (je_fresh env) p (rq_mode rq) targets workflow
           (ScanLimits (job_budget preset targets workflow
              (tuned_limits (pd_limits (scan_policy cfg p db)) preset cpus mb)))
           (pd_policy_version (scan_policy cfg p db)) start end' sealed (pr_version preset))
           rq (first_occurrences (rq_protocols rq)) db"
  using assms unfolding prepare_scan_job_def Let_def scan_policy_def [symmetric]
  apply (elim if_InrE res_bind_InrE case_prod_eqE map_errE Inr_tripleE)
  apply (rule that)
           prefer 10
           apply assumption
          apply (assumption | (rule exI, assumption) | simp)+
  done

text \<open>The policy a job is created under, and the ranges it may use.\<close>

definition usable_ranges :: "app_settings \<Rightarrow> probe \<Rightarrow> uuid option \<Rightarrow> 'a net_db_scheme \<Rightarrow> string list" where
  "usable_ranges cfg p net db =
     (case net of None \<Rightarrow> pd_approved_cidrs (scan_policy cfg p db)
      | Some i \<Rightarrow> filter (\<lambda>c. c \<in> set (pd_approved_cidrs (scan_policy cfg p db))) (network_cidrs i db))"

lemma addresses_granted_mono:
  "addresses_granted a d t \<Longrightarrow> set a \<subseteq> set a' \<Longrightarrow> addresses_granted a' d t"
  unfolding addresses_granted_def by blast

lemma create_scan_job_parts:
  assumes "create_scan_job env cfg p rq db = Inr (db', j)"
  obtains asset creds db1 rows where "prepare_scan_job env cfg p rq db = Inr (j, asset, creds)"
    and "persist_job j db = Inr db1" and "db' = db1\<lparr>audits := audits db1 @ rows\<rparr>"
  using assms unfolding create_scan_job_def
  by (elim res_bind_InrE case_prod_eqE) (auto simp: res_bind_Inr)

lemma enforce_host_limit_ok:
  "enforce_host_limit ts limits = Inr u \<Longrightarrow> 0 < lim_max_hosts limits \<Longrightarrow>
    count_hosts ts \<le> lim_max_hosts limits"
  by (auto simp: enforce_host_limit_def Let_def split: if_split_asm)

lemma policy_max_hosts_pos: "0 < lim_max_hosts (pd_limits (scan_policy cfg p db))"
  by (simp add: scan_policy_def build_policy_document_def Let_def int_or_default_pos)

text \<open>C1. A signed scan job stays in scope: every target it carries denotes addresses of the request
  that lie within one range the Scout's policy approves (and, for a network job, an enabled range of
  that network), in no denied range, and private unless the policy allows public addresses; and
  the targets together span at most the policy's number of hosts.\<close>

theorem scan_job_within_scope:
  assumes "create_scan_job env cfg p rq db = Inr (db', j)"
  shows "(\<forall>t \<in> set (sj_requested_targets j).
      addresses_granted (usable_ranges cfg p (rq_network_id rq) db)
        (pd_denied_cidrs (scan_policy cfg p db)) t \<and>
      (\<exists>r \<in> set (rq_targets rq). cidr_addrs t = cidr_addrs r) \<and>
      (\<exists>n. normalize_cidr t = Inr n \<and>
         (pd_allow_public_addresses (scan_policy cfg p db) \<or> is_private n))) \<and>
    sj_requested_targets j \<noteq> [] \<and>
    count_hosts (sj_requested_targets j) \<le> lim_max_hosts (pd_limits (scan_policy cfg p db))"
proof -
  obtain asset creds where prep: "prepare_scan_job env cfg p rq db = Inr (j, asset, creds)"
    using create_scan_job_parts [OF assms] .
  obtain approved targets where
    ranges: "job_ranges p (scan_policy cfg p db) (rq_network_id rq) db = Inr approved" and
    valid: "validate_targets (rq_targets rq) approved (pd_denied_cidrs (scan_policy cfg p db))
           (pd_allow_public_addresses (scan_policy cfg p db)) = Inr targets" and
    host: "enforce_host_limit targets (pd_limits (scan_policy cfg p db)) = Inr ()" and
    j: "sj_requested_targets j = targets"
    by (rule prepare_scan_job_steps [OF prep]) (auto simp: new_job_def build_job_envelope_def)
  have sub: "set approved \<subseteq> set (usable_ranges cfg p (rq_network_id rq) db)"
    using job_ranges_approved [OF ranges] by (auto simp: usable_ranges_def split: option.splits)
  have "targets \<noteq> []"
    using valid by (auto simp: validate_targets_def dest: traverse_length split: if_split_asm)
  moreover have "count_hosts targets \<le> lim_max_hosts (pd_limits (scan_policy cfg p db))"
    using host policy_max_hosts_pos by (rule enforce_host_limit_ok)
  ultimately show ?thesis
    unfolding j using validate_targets_granted [OF valid] addresses_granted_mono [OF _ sub] by blast
qed

lemma tuned_limits_le:
  assumes "get_preset key version = Inr preset" and "1 \<le> lim_max_packets_per_second limits"
    and "1 \<le> lim_max_parallel_hosts limits"
  shows "lim_max_packets_per_second (tuned_limits limits preset cpus mem) \<le> lim_max_packets_per_second limits \<and>
    lim_max_parallel_hosts (tuned_limits limits preset cpus mem) \<le> lim_max_parallel_hosts limits \<and>
    lim_max_hosts (tuned_limits limits preset cpus mem) = lim_max_hosts limits \<and>
    lim_max_duration_seconds (tuned_limits limits preset cpus mem) = lim_max_duration_seconds limits"
  using assms by (simp add: tuned_limits_def recommend_tuning_def rate_of_def Let_def)

lemma duration_for_shape:
  "\<exists>per cap. duration_for p h ss = min cap (per * max 1 ((max 1 h + 256 - 1) div 256)) \<and>
    3 * 60 * 60 \<le> per \<and> per \<le> 8 * 60 * 60 \<and> 24 * 60 * 60 \<le> cap \<and> cap \<le> 48 * 60 * 60"
proof -
  consider (a) "''nuclei'' \<in> set ss"
    | (b) "''nuclei'' \<notin> set ss" "pr_key p = ''fragile''"
    | (c) "''nuclei'' \<notin> set ss" "pr_key p \<noteq> ''fragile''" "''testssl'' \<in> set ss \<or> ''zap'' \<in> set ss"
    | (d) "''nuclei'' \<notin> set ss" "pr_key p \<noteq> ''fragile''" "\<not> (''testssl'' \<in> set ss \<or> ''zap'' \<in> set ss)"
    by blast
  then show ?thesis
  proof cases
    case a
    show ?thesis
      by (rule exI [of _ "8 * 60 * 60"], rule exI [of _ "48 * 60 * 60"]) (simp add: duration_for_def a)
  next
    case b
    show ?thesis
      by (rule exI [of _ "4 * 60 * 60"], rule exI [of _ "48 * 60 * 60"]) (simp add: duration_for_def b)
  next
    case c
    then show ?thesis
      by (intro exI [of _ "4 * 60 * 60"] exI [of _ "24 * 60 * 60"]) (simp add: duration_for_def)
  next
    case d
    then show ?thesis
      by (intro exI [of _ "3 * 60 * 60"] exI [of _ "24 * 60 * 60"]) (simp add: duration_for_def)
  qed
qed

lemma duration_for_bounds:
  assumes "h \<le> m"
  shows "3 * 60 * 60 \<le> duration_for p h ss \<and> duration_for p h ss \<le> duration_limit_for_hosts m"
proof -
  define b where "b h = max 1 ((max 1 h + 256 - 1) div 256)" for h :: int
  have "(max 1 h + 256 - 1) div 256 \<le> (max 1 m + 256 - 1) div 256"
    using assms by (intro zdiv_mono1) simp_all
  then have b: "1 \<le> b h" "b h \<le> b m" unfolding b_def by linarith+
  obtain per cap where s: "duration_for p h ss = min cap (per * b h)" "3 * 60 * 60 \<le> per"
      "per \<le> 8 * 60 * 60" "24 * 60 * 60 \<le> cap" "cap \<le> 48 * 60 * 60"
    using duration_for_shape [of p h ss] unfolding b_def by blast
  have "per * b h \<le> (8 * 60 * 60) * b m" using s b by (intro mult_mono) simp_all
  moreover have "per * 1 \<le> per * b h" using s(2) b(1) by (intro mult_left_mono) simp_all
  moreover have "duration_limit_for_hosts m = min (48 * 60 * 60) (8 * 60 * 60 * b m)"
    by (simp add: duration_limit_for_hosts_def b_def Let_def)
  ultimately show ?thesis using s by linarith
qed

lemma job_workflow_plugins:
  assumes "job_workflow preset limits approved protocols rq = Inr workflow" and "s \<in> set workflow"
  shows "st_plugin s \<in> {''nmap'', ''nuclei'', ''testssl'', ''zap''} \<or>
    (\<exists>c \<in> set protocols. st_plugin s = credential_protocol_value c @ ''_inventory'')"
proof -
  have web: "st_plugin (build_web_stage pr us l b) = ''zap''" for pr us l b
    by (simp add: build_web_stage_def Let_def)
  have base: "s \<in> set (workflow_for_preset preset limits) \<Longrightarrow>
      st_plugin s \<in> {''nmap'', ''nuclei'', ''testssl'', ''zap''}" for s
    by (auto simp: workflow_for_preset_def Let_def web split: if_split_asm)
  obtain w1 w2 where
    1: "explicit_web limits approved rq
          (if rq_include_default_workflow rq then workflow_for_preset preset limits else []) = Inr w1" and
    2: "restrict_stages (rq_stages rq) w1 = Inr w2"
      "workflow = w2 @ map (inventory_stage (rq_asset_id rq)) protocols"
    using assms(1) unfolding job_workflow_def by (elim res_bind_InrE) simp
  have w1: "st_plugin s \<in> {''nmap'', ''nuclei'', ''testssl'', ''zap''}" if "s \<in> set w1" for s
  proof -
    have "s \<in> set (workflow_for_preset preset limits) \<or> st_plugin s = ''zap''"
      using 1 that by (auto simp: explicit_web_def res_bind_Inr web split: option.splits if_split_asm)
    then show ?thesis
    proof
      assume "s \<in> set (workflow_for_preset preset limits)"
      then show ?thesis by (rule base)
    next
      assume "st_plugin s = ''zap''"
      then show ?thesis by simp
    qed
  qed
  have "set w2 \<subseteq> set w1"
    using 2(1) by (auto simp: restrict_stages_def Let_def split: option.splits if_split_asm)
  then show ?thesis
    using assms(2) 2(2) w1 by (auto simp: inventory_stage_def)
qed

lemma resolve_inventory_enabled:
  "resolve_inventory env p targets protocols rq db = Inr r \<Longrightarrow> protocols \<noteq> [] \<Longrightarrow>
    pb_credentialed_scans_enabled p \<and> pb_encryption_public_key p \<notin> {None, Some []}"
  by (auto simp: resolve_inventory_def split: if_split_asm)

lemma scan_policy_limits:
  "1 \<le> lim_max_packets_per_second (pd_limits (scan_policy cfg p db))"
  "1 \<le> lim_max_parallel_hosts (pd_limits (scan_policy cfg p db))"
  "lim_max_duration_seconds (pd_limits (scan_policy cfg p db)) =
     duration_limit_for_hosts (lim_max_hosts (pd_limits (scan_policy cfg p db)))"
  using int_or_default_pos [of 1000] int_or_default_pos [of 8]
  by (simp_all add: scan_policy_def build_policy_document_def Let_def int_one_le_iff_zero_less)

lemma job_plugins_allowed:
  assumes wf: "job_workflow preset lims approved protocols rq = Inr workflow"
    and inv: "resolve_inventory env p targets protocols rq db = Inr (asset, creds)" and "s \<in> set workflow"
  shows "st_plugin s \<in> set (pd_allowed_plugins (scan_policy cfg p db))"
  using job_workflow_plugins [OF wf assms(3)]
proof
  assume "st_plugin s \<in> {''nmap'', ''nuclei'', ''testssl'', ''zap''}"
  then show ?thesis by (auto simp: scan_policy_def build_policy_document_def Let_def)
next
  assume "\<exists>c \<in> set protocols. st_plugin s = credential_protocol_value c @ ''_inventory''"
  then obtain c where c: "protocols \<noteq> []" "st_plugin s = credential_protocol_value c @ ''_inventory''"
    by (cases protocols) auto
  then show ?thesis
    using resolve_inventory_enabled [OF inv c(1)]
    by (cases c) (auto simp: scan_policy_def build_policy_document_def Let_def split: option.splits)
qed


text \<open>C22. A controlled-pentest job is one Metasploit stage against one target that lies within a range
  the Scout's policy approves; it is queued with the signature of its stored envelope, whose target,
  workflow and session limit are those of the row and the request.\<close>

theorem pentest_job_in_scope:
  assumes "create_pentest_job env cfg p rq db = Inr (db', j)"
  shows "\<exists>t. sj_requested_targets j = [t] \<and> cidr_addrs t = cidr_addrs (pq_target rq) \<and>
    cidr_addrs t \<noteq> {} \<and>
    (\<exists>c \<in> set (pd_approved_cidrs (scan_policy cfg p db)). cidr_addrs t \<subseteq> cidr_addrs c) \<and>
    sj_mode j = JobMode.CONTROLLED_PENTEST \<and> sj_status j = JobStatus.QUEUED \<and>
    map st_plugin (sj_workflow j) = [''metasploit''] \<and>
    sj_limits j = SessionLimits (pq_max_session_seconds rq) \<and>
    sj_expires_at j = pq_expires_at rq \<and>
    sj_signature j = je_sign env (sj_envelope j) \<and>
    en_targets (sj_envelope j) = sj_requested_targets j \<and>
    en_workflow (sj_envelope j) = sj_workflow j \<and> en_limits (sj_envelope j) = sj_limits j"
proof -
  obtain n where n: "normalize_cidr (pq_target rq) = Inr n"
    using assms by (auto simp: create_pentest_job_def Let_def split: sum.splits)
  let ?t = "network_str n"
  have ok: "target_within_approved ?t (pd_approved_cidrs (scan_policy cfg p db))"
    and j: "j = new_job env p (build_job_envelope (je_fresh env) p JobMode.CONTROLLED_PENTEST [?t]
              [exploit_stage rq] (SessionLimits (pq_max_session_seconds rq))
              (pd_policy_version (scan_policy cfg p db)) (je_now env) (pq_expires_at rq) None 1)
              (plain_request rq) [] db"
    using assms n
    by (auto simp: create_pentest_job_def Let_def res_bind_Inr scan_policy_def split: if_split_asm)
  have same: "cidr_addrs ?t = cidr_addrs (pq_target rq)"
    unfolding cidr_addrs_network_str [OF normalize_cidr_wf [OF n]] by (simp add: cidr_addrs_def n)
  have "addrs n \<noteq> {}" using base_in_addrs(1) [of n] by blast
  then have "cidr_addrs (pq_target rq) \<noteq> {}" by (simp add: cidr_addrs_def n)
  then show ?thesis
    using same target_within_approved_addrs [OF ok]
    by (simp add: j new_job_def build_job_envelope_def plain_request_def exploit_stage_def)
qed

subsection \<open>Witnesses\<close>

definition sample_env :: job_env where
  "sample_env = \<lparr>je_now = 1000, je_fresh = 77, je_sign = (\<lambda>e. ''signed'' @ nat_str (en_job_id e)),
     je_resolve = (\<lambda>_ _ _ _. Inl ''none''), je_seal = (\<lambda>_ _ _ _. Inl ''none'')\<rparr>"

definition sample_jobs :: job_db where
  "sample_jobs = \<lparr>probes = [sample_probe], networks = sample_networks, scouts = sample_scouts,
     scopes = [sample_scope], relays = [], jobs = [], assets = [], identifiers = [], audits = []\<rparr>"

definition sample_request :: job_request where
  "sample_request = \<lparr>rq_targets = ['' 10.20.0.128/25''], rq_mode = JobMode.VULNERABILITY_ASSESSMENT,
      rq_created_by = None, rq_not_before = None, rq_expires_at = None, rq_web_profile = None,
      rq_web_start_urls = [], rq_verifies_finding_ids = [], rq_stages = None,
      rq_network_id = Some 7, rq_asset_id = None, rq_protocols = [], rq_preset_key = None,
      rq_preset_version = None, rq_include_default_workflow = True\<rparr>"

lemma sample_job_created:
  "\<exists>db' j. create_scan_job sample_env sample_cfg sample_probe sample_request sample_jobs = Inr (db', j) \<and>
     sj_requested_targets j = [''10.20.0.128/25'']"
proof -
  have "case create_scan_job sample_env sample_cfg sample_probe sample_request sample_jobs of
      Inl _ \<Rightarrow> False | Inr (_, j) \<Rightarrow> sj_requested_targets j = [''10.20.0.128/25'']"
    by code_simp
  then show ?thesis by (auto split: sum.splits prod.splits)
qed

theorem scan_job_within_scope_witness:
  "\<exists>db' j. create_scan_job sample_env sample_cfg sample_probe sample_request sample_jobs = Inr (db', j) \<and>
     addresses_granted (usable_ranges sample_cfg sample_probe (Some 7) sample_jobs)
       (pd_denied_cidrs (scan_policy sample_cfg sample_probe sample_jobs)) ''10.20.0.128/25''"
proof -
  obtain db' j where c: "create_scan_job sample_env sample_cfg sample_probe sample_request sample_jobs
      = Inr (db', j)" "sj_requested_targets j = [''10.20.0.128/25'']"
    using sample_job_created by blast
  have "rq_network_id sample_request = Some 7" by (simp add: sample_request_def)
  with c scan_job_within_scope [OF c(1)] show ?thesis by simp
qed


definition sample_pentest :: pentest_request where
  "sample_pentest = \<lparr>pq_target = ''10.20.0.9'', pq_module = ''auxiliary/scanner/ssh/ssh_version'',
     pq_payload = None, pq_options = [], pq_max_session_seconds = 600, pq_expires_at = 5000,
     pq_created_by = Some 3, pq_network_id = Some 7\<rparr>"

theorem pentest_job_in_scope_witness:
  "\<exists>db' j. create_pentest_job sample_env sample_cfg sample_probe sample_pentest sample_jobs = Inr (db', j) \<and>
     map st_plugin (sj_workflow j) = [''metasploit'']"
proof -
  have "case create_pentest_job sample_env sample_cfg sample_probe sample_pentest sample_jobs of
      Inl _ \<Rightarrow> False | Inr _ \<Rightarrow> True"
    by code_simp
  then obtain db' j where c:
    "create_pentest_job sample_env sample_cfg sample_probe sample_pentest sample_jobs = Inr (db', j)"
    by (auto split: sum.splits)
  with pentest_job_in_scope [OF c] show ?thesis by auto
qed

text \<open>
  Ranges denied by a relay bind scan targets only.  The relay scanner below may not touch 10.20.0.9:
  a scan job for it is refused, but a pentest job for it, and a scan job with a web start URL on it,
  are signed.
\<close>

definition relay_probe :: probe where
  "relay_probe = sample_probe\<lparr>pb_name := ''relay-scanner''\<rparr>"

definition relay_jobs :: job_db where
  "relay_jobs = sample_jobs\<lparr>probes := [relay_probe],
     scopes := [sample_scope\<lparr>ns_notes :=
       Some (''Managed by relay '' @ uuid_str 9)\<rparr>],
     relays := [\<lparr>rl_id = 9, rl_organization_id = 1, rl_site_id = 2,
       rl_status = RelayStatus.ENROLLED, rl_approved_cidrs = [''10.20.0.0/24''],
       rl_denied_cidrs = [''10.20.0.9'']\<rparr>]\<rparr>"

lemma relay_denies: "pd_denied_cidrs (build_policy_document relay_probe sample_cfg relay_jobs) = [''10.20.0.9'']"
  by code_simp

lemma denied_scan_refused:
  "create_scan_job sample_env sample_cfg relay_probe
     (sample_request\<lparr>rq_targets := [''10.20.0.9'']\<rparr>) relay_jobs
   = Inl (JobValidationError ''Target 10.20.0.9 overlaps denied scope 10.20.0.9'')"
  by code_simp

lemma denied_pentest_signed:
  "\<exists>db' j. create_pentest_job sample_env sample_cfg relay_probe sample_pentest relay_jobs = Inr (db', j) \<and>
     sj_requested_targets j = [''10.20.0.9/32'']"
proof -
  have "case create_pentest_job sample_env sample_cfg relay_probe sample_pentest relay_jobs of
      Inl _ \<Rightarrow> False | Inr (_, j) \<Rightarrow> sj_requested_targets j = [''10.20.0.9/32'']"
    by code_simp
  then show ?thesis by (auto split: sum.splits prod.splits)
qed

lemma denied_start_url_signed:
  "\<exists>db' j. create_scan_job sample_env sample_cfg relay_probe
     (sample_request\<lparr>rq_web_profile := Some WebScanProfile.PASSIVE_BASELINE,
        rq_web_start_urls := [''http://10.20.0.9:8080/login'']\<rparr>) relay_jobs = Inr (db', j)"
proof -
  have "case create_scan_job sample_env sample_cfg relay_probe
     (sample_request\<lparr>rq_web_profile := Some WebScanProfile.PASSIVE_BASELINE,
        rq_web_start_urls := [''http://10.20.0.9:8080/login'']\<rparr>) relay_jobs of
      Inl _ \<Rightarrow> False | Inr _ \<Rightarrow> True"
    by code_simp
  then show ?thesis by (auto split: sum.splits)
qed

end
