(* ===== verification/PentestPolicy.thy ===== *)
theory PentestPolicy
  imports PyStrings "HOL-Library.Code_Target_Nat"
begin

text \<open>
  The controlled-pentest module policy, \<^verbatim>\<open>app/services/pentest_policy.py\<close>: which Metasploit modules may be
  dispatched, with which options, and the policies of the Rules of Engagement (testing window,
  session limit, evidence retention).

  An error is the constructor of the \<open>raise\<close> that makes it, with the values its message prints.  The
  time zone database is an argument: \<open>tz v\<close> is \<open>ZoneInfo(str(v))\<close>, as the function from an instant to
  its local week day (Monday is 0) and time of day in microseconds, or \<open>None\<close> when the zone is unknown.
\<close>

subsection \<open>Module options\<close>

datatype module_error = BlockedCategory string | TooManyOptions | UnsafeOptionName string
  | OptionNotFinite string | UnsafeOptionValue string | ReservedOptions "string list"
  | ModuleDisabled string | PayloadNotPermitted string string | OptionProhibited string string
  | NotInReviewedPack string | ExploitationNotAuthorized string | NotAllowlisted string
  | ApprovalRequired string

definition is_alpha :: "char \<Rightarrow> bool" where
  "is_alpha c \<longleftrightarrow> is_upper c \<or> is_lower c"

definition option_key_ok :: "string \<Rightarrow> bool" where
  "option_key_ok s \<longleftrightarrow>
     (case s of
        [] \<Rightarrow> False
      | c # cs \<Rightarrow> is_alpha c \<and> length cs \<le> 63 \<and> list_all (\<lambda>x. is_alnum x \<or> x = CHR ''_'') cs)"

definition option_value_char :: "char \<Rightarrow> bool" where
  "option_value_char c \<longleftrightarrow> is_alnum c \<or> c \<in> set ''._:/@,+?&=%[]()-''"

definition option_value_ok :: "string \<Rightarrow> bool" where
  "option_value_ok s \<longleftrightarrow>
     (case s of
        [] \<Rightarrow> False
      | c # cs \<Rightarrow> is_alnum c \<and> length cs \<le> 1023 \<and> list_all option_value_char cs)"

definition check_option :: "string \<times> json \<Rightarrow> module_error + unit" where
  "check_option kv =
     (case kv of (key, v) \<Rightarrow>
        if \<not> option_key_ok key then Inl (UnsafeOptionName key)
        else case v of
          JBool _ \<Rightarrow> Inr ()
        | JInt _ \<Rightarrow> Inr ()
        | JFloat _ \<Rightarrow> Inr ()
        | JNonFinite \<Rightarrow> Inl (OptionNotFinite key)
        | JStr s \<Rightarrow> if option_value_ok s then Inr () else Inl (UnsafeOptionValue key)
        | _ \<Rightarrow> Inl (UnsafeOptionValue key))"

definition validate_module_options :: "(string \<times> json) list \<Rightarrow> module_error + unit" where
  "validate_module_options options =
     (if length options > 64 then Inl TooManyOptions
      else res_bind (traverse check_option options) (\<lambda>_. Inr ()))"

subsection \<open>Module policies\<close>

definition BLOCKED_CATEGORIES :: "string list" where
  "BLOCKED_CATEGORIES = [''dos'']"

definition EXPLOIT_CATEGORY :: string where
  "EXPLOIT_CATEGORY = ''exploit''"

definition EXPLOITATION_ACTION :: string where
  "EXPLOITATION_ACTION = ''exploitation''"

definition RESERVED_OPTIONS :: "string list" where
  "RESERVED_OPTIONS = [''rhosts'', ''rhost'', ''payload'']"

definition module_category :: "string \<Rightarrow> string" where
  "module_category path =
     (let m = lower (strip path)
      in if contains ''/dos/'' m then ''dos''
         else if CHR ''/'' \<in> set m then hd (split_on (CHR ''/'') m) else m)"

record module_policy =
  mp_module :: string
  mp_category :: string
  mp_enabled :: bool
  mp_mode :: string
  mp_minimum_rank :: string
  mp_allowed_payloads :: "string list"
  mp_requires_approval :: bool
  mp_cleanup_required :: bool
  mp_max_session_seconds :: int
  mp_prohibited_options :: "string list"

text \<open>The dataclass defaults.\<close>

definition ModulePolicy :: "string \<Rightarrow> string \<Rightarrow> module_policy" where
  "ModulePolicy path category =
     \<lparr>mp_module = path, mp_category = category, mp_enabled = True,
      mp_mode = ''controlled_pentest'', mp_minimum_rank = ''excellent'', mp_allowed_payloads = [],
      mp_requires_approval = True, mp_cleanup_required = False, mp_max_session_seconds = 120,
      mp_prohibited_options = [''arbitrary_command'', ''cmd'', ''command'']\<rparr>"

definition exploit_policy :: "string \<Rightarrow> module_policy" where
  "exploit_policy path =
     (ModulePolicy path EXPLOIT_CATEGORY)
       \<lparr>mp_mode := ''controlled_pentest'', mp_minimum_rank := ''great'', mp_requires_approval := True,
        mp_cleanup_required := True, mp_max_session_seconds := 300\<rparr>"

definition POLICIES :: "(string \<times> module_policy) list" where
  "POLICIES = map (\<lambda>m. (m, ModulePolicy m ''auxiliary_validation''))
     [''auxiliary/scanner/ssh/ssh_version'', ''auxiliary/scanner/http/http_version'',
      ''auxiliary/scanner/smb/smb_ms17_010'', ''auxiliary/scanner/ssl/openssl_ccs'',
      ''auxiliary/scanner/redis/redis_server'']"

definition EXPLOIT_POLICIES :: "(string \<times> module_policy) list" where
  "EXPLOIT_POLICIES =
     [(''exploit/windows/smb/ms17_010_eternalblue'',
       exploit_policy ''exploit/windows/smb/ms17_010_eternalblue'')]"

definition get_policy :: "string \<Rightarrow> module_policy option" where
  "get_policy path = map_of POLICIES path"

definition allowlisted_modules :: "string list" where
  "allowlisted_modules = sort (map fst (filter (\<lambda>(m, p). mp_enabled p) POLICIES))"

definition exploitation_permitted :: "string list \<Rightarrow> string list \<Rightarrow> bool \<Rightarrow> bool" where
  "exploitation_permitted allowed prohibited approved \<longleftrightarrow>
     approved \<and> EXPLOITATION_ACTION \<in> set (map (\<lambda>a. lower (strip a)) allowed) \<and>
     EXPLOITATION_ACTION \<notin> set (map (\<lambda>a. lower (strip a)) prohibited)"

definition payload_ok :: "string option \<Rightarrow> module_policy \<Rightarrow> bool" where
  "payload_ok payload p \<longleftrightarrow>
     (case payload of None \<Rightarrow> True | Some s \<Rightarrow> s \<in> set (mp_allowed_payloads p))"

definition reserved_used :: "(string \<times> json) list \<Rightarrow> string list" where
  "reserved_used options =
     sort (filter (\<lambda>r. r \<in> set (map (\<lambda>(k, _). lower (strip k)) options)) RESERVED_OPTIONS)"

definition validate_module_allowed ::
  "string \<Rightarrow> string option \<Rightarrow> (string \<times> json) list \<Rightarrow> bool \<Rightarrow> module_error + module_policy" where
  "validate_module_allowed path payload options allow_exploit =
     (let category = module_category path
      in if category \<in> set BLOCKED_CATEGORIES then Inl (BlockedCategory category)
         else
         res_bind (validate_module_options options) (\<lambda>_.
         if reserved_used options \<noteq> [] then Inl (ReservedOptions (reserved_used options))
         else case map_of POLICIES path of
           Some p \<Rightarrow>
             if mp_category p \<in> set BLOCKED_CATEGORIES then Inl (BlockedCategory (mp_category p))
             else if \<not> mp_enabled p then Inl (ModuleDisabled path)
             else if \<not> payload_ok payload p
             then Inl (PayloadNotPermitted (the payload) path)
             else (case find (\<lambda>x. lower x \<in> set (map (\<lambda>(k, _). lower k) options))
                          (mp_prohibited_options p) of
                     Some x \<Rightarrow> Inl (OptionProhibited x path)
                   | None \<Rightarrow> Inr p)
         | None \<Rightarrow>
             if category = EXPLOIT_CATEGORY
             then (case map_of EXPLOIT_POLICIES path of
                     None \<Rightarrow> Inl (NotInReviewedPack path)
                   | Some p \<Rightarrow>
                       if \<not> allow_exploit then Inl (ExploitationNotAuthorized path)
                       else if \<not> payload_ok payload p
                       then Inl (PayloadNotPermitted (the payload) path)
                       else Inr p)
             else Inl (NotAllowlisted path)))"

definition validate_module ::
  "string \<Rightarrow> bool \<Rightarrow> string option \<Rightarrow> (string \<times> json) list \<Rightarrow> bool \<Rightarrow> module_error + module_policy" where
  "validate_module path approved payload options allow_exploit =
     res_bind (validate_module_allowed path payload options allow_exploit) (\<lambda>p.
       if mp_requires_approval p \<and> \<not> approved then Inl (ApprovalRequired path) else Inr p)"

subsection \<open>Recommendations\<close>

definition MS17_010_CVES :: "string list" where
  "MS17_010_CVES = [''CVE-2017-0143'', ''CVE-2017-0144'', ''CVE-2017-0145'', ''CVE-2017-0146'',
     ''CVE-2017-0147'', ''CVE-2017-0148'']"

definition recommend_modules :: "string \<Rightarrow> string option \<Rightarrow> string list \<Rightarrow> string list" where
  "recommend_modules title description cve_ids =
     (let text' = lower (title @ '' '' @ or_else description []);
          cves = map (\<lambda>c. upper (strip c)) cve_ids;
          mentions = list_ex (\<lambda>k. contains k text');
          candidates =
            [(list_ex (\<lambda>c. c \<in> set MS17_010_CVES) cves, ''auxiliary/scanner/smb/smb_ms17_010''),
             (''CVE-2014-0224'' \<in> set cves, ''auxiliary/scanner/ssl/openssl_ccs''),
             (mentions [''ms17-010'', ''eternalblue'', ''smb'', ''microsoft-ds'', ''netbios''],
              ''auxiliary/scanner/smb/smb_ms17_010''),
             (mentions [''openssl'', ''ccs injection'', ''ssl'', ''tls'', ''cipher'', ''certificate''],
              ''auxiliary/scanner/ssl/openssl_ccs''),
             (contains ''redis'' text', ''auxiliary/scanner/redis/redis_server''),
             (mentions [''ssh'', ''openssh''], ''auxiliary/scanner/ssh/ssh_version''),
             (mentions [''http'', ''apache'', ''nginx'', ''iis'', ''tomcat'', ''web server''],
              ''auxiliary/scanner/http/http_version'')]
      in first_occurrences
           (filter (\<lambda>m. map_of POLICIES m \<noteq> None) (map snd (filter fst candidates))))"

subsection \<open>Policies of the Rules of Engagement\<close>

datatype roe_problem = NotAnObject | UnknownFields "string list" | BadSessionLimit | BadRetainFlag
  | UnknownTimezone json | DaysNotAList | InvalidWeekday json | LoneBound | InvalidStart json
  | InvalidEnd json

datatype roe_error = RoEValidationError roe_problem | RoEWindowError roe_problem

type_synonym local_clock = "time \<Rightarrow> nat \<times> time"

definition reject_unknown_keys :: "(string \<times> json) list \<Rightarrow> string list \<Rightarrow> roe_error + unit" where
  "reject_unknown_keys cfg allowed =
     (let unknown = sort (remdups (filter (\<lambda>k. k \<notin> set allowed) (map fst cfg)))
      in if unknown \<noteq> [] then Inl (RoEValidationError (UnknownFields unknown)) else Inr ())"

definition validate_session_policy :: "json \<Rightarrow> roe_error + unit" where
  "validate_session_policy sp =
     (if \<not> truthy sp then Inr ()
      else case sp of
        JObj cfg \<Rightarrow>
          res_bind (reject_unknown_keys cfg [''max_concurrent_sessions'']) (\<lambda>_.
            case map_of cfg ''max_concurrent_sessions'' of
              None \<Rightarrow> Inr ()
            | Some v \<Rightarrow> (case v of
                JInt n \<Rightarrow> if n < 1 then Inl (RoEValidationError BadSessionLimit) else Inr ()
              | _ \<Rightarrow> Inl (RoEValidationError BadSessionLimit)))
      | _ \<Rightarrow> Inl (RoEValidationError NotAnObject))"

definition validate_evidence_policy :: "json \<Rightarrow> roe_error + unit" where
  "validate_evidence_policy ep =
     (if \<not> truthy ep then Inr ()
      else case ep of
        JObj cfg \<Rightarrow>
          res_bind (reject_unknown_keys cfg [''retain_evidence'']) (\<lambda>_.
            case map_of cfg ''retain_evidence'' of
              None \<Rightarrow> Inr ()
            | Some v \<Rightarrow> (case v of JBool _ \<Rightarrow> Inr () | _ \<Rightarrow> Inl (RoEValidationError BadRetainFlag)))
      | _ \<Rightarrow> Inl (RoEValidationError NotAnObject))"

text \<open>
  The text of anything but a string is no week day.  \<open>None\<close> and JSON null are the same Python value.
\<close>

definition WEEKDAYS :: "string list" where
  "WEEKDAYS = [''mon'', ''tue'', ''wed'', ''thu'', ''fri'', ''sat'', ''sun'']"

definition FULL_WEEKDAYS :: "string list" where
  "FULL_WEEKDAYS = [''monday'', ''tuesday'', ''wednesday'', ''thursday'', ''friday'', ''saturday'',
     ''sunday'']"

fun index_of :: "'a \<Rightarrow> 'a list \<Rightarrow> nat option" where
  "index_of x [] = None"
| "index_of x (y # ys) = (if x = y then Some 0 else map_option Suc (index_of x ys))"

definition weekday_index :: "json \<Rightarrow> nat option" where
  "weekday_index token =
     (case token of
        JStr s \<Rightarrow>
          let t = lower (strip s)
          in if t \<notin> set WEEKDAYS \<union> set FULL_WEEKDAYS then None else index_of (take 3 t) WEEKDAYS
      | _ \<Rightarrow> None)"

text \<open>\<open>$\<close> also matches before a final line end, which \<open>int\<close> then ignores.\<close>

definition parse_hhmm :: "json \<Rightarrow> time option" where
  "parse_hhmm v =
     (case v of
        JStr s \<Rightarrow>
          (case (if length s = 6 \<and> last s = CHR 0x0A then butlast s else s) of
             [a, b, c, d, e] \<Rightarrow>
               if list_all is_digit [a, b, d, e] \<and> c = CHR '':'' \<and> digits_value [a, b] < 24 \<and>
                  digits_value [d, e] < 60
               then Some (minutes (int (60 * digits_value [a, b] + digits_value [d, e])))
               else None
           | _ \<Rightarrow> None)
      | _ \<Rightarrow> None)"

definition get_value :: "(string \<times> json) list \<Rightarrow> string \<Rightarrow> json" where
  "get_value cfg k = or_else (map_of cfg k) JNull"

definition check_days :: "json \<Rightarrow> roe_error + unit" where
  "check_days listed =
     (case listed of
        JNull \<Rightarrow> Inr ()
      | JList ds \<Rightarrow>
          (case find (\<lambda>d. weekday_index d = None) ds of
             None \<Rightarrow> Inr ()
           | Some d \<Rightarrow> Inl (RoEWindowError (InvalidWeekday d)))
      | _ \<Rightarrow> Inl (RoEWindowError DaysNotAList))"

definition check_bounds :: "json \<Rightarrow> json \<Rightarrow> roe_error + unit" where
  "check_bounds start end' =
     (if (start = JNull) \<noteq> (end' = JNull) then Inl (RoEWindowError LoneBound)
      else if start = JNull then Inr ()
      else if parse_hhmm start = None then Inl (RoEWindowError (InvalidStart start))
      else if parse_hhmm end' = None then Inl (RoEWindowError (InvalidEnd end'))
      else Inr ())"

definition ALLOWED_HOURS_KEYS :: "string list" where
  "ALLOWED_HOURS_KEYS = [''timezone'', ''days'', ''start'', ''end'']"

definition validate_allowed_hours ::
  "(json \<Rightarrow> local_clock option) \<Rightarrow> json \<Rightarrow> roe_error + unit" where
  "validate_allowed_hours tz allowed_hours =
     (if \<not> truthy allowed_hours then Inr ()
      else case allowed_hours of
        JObj cfg \<Rightarrow>
          res_bind (reject_unknown_keys cfg ALLOWED_HOURS_KEYS) (\<lambda>_.
          let zone = get_value cfg ''timezone'' in
          if zone \<noteq> JNull \<and> tz zone = None then Inl (RoEWindowError (UnknownTimezone zone))
          else res_bind (check_days (get_value cfg ''days'')) (\<lambda>_.
            check_bounds (get_value cfg ''start'') (get_value cfg ''end'')))
      | _ \<Rightarrow> Inl (RoEWindowError NotAnObject))"

text \<open>
  The verdict \<open>(ok, reason)\<close>; the errors that \<open>within_allowed_hours\<close> does not catch stay errors.
\<close>

datatype window_verdict = InWindow | MalformedWindow roe_problem | OutsideDays nat | OutsideHours time

definition allowed_days :: "(string \<times> json) list \<Rightarrow> nat list" where
  "allowed_days cfg =
     (case get_value cfg ''days'' of JList ds \<Rightarrow> List.map_filter weekday_index ds | _ \<Rightarrow> [])"

definition time_within :: "time \<Rightarrow> time \<Rightarrow> time \<Rightarrow> bool" where
  "time_within start end' cur \<longleftrightarrow>
     (if start \<le> end' then start \<le> cur \<and> cur < end' else cur \<ge> start \<or> cur < end')"

definition window_verdict_at :: "(string \<times> json) list \<Rightarrow> nat \<Rightarrow> time \<Rightarrow> window_verdict" where
  "window_verdict_at cfg weekday cur =
     (if allowed_days cfg \<noteq> [] \<and> weekday \<notin> set (allowed_days cfg) then OutsideDays weekday
      else case (parse_hhmm (get_value cfg ''start''), parse_hhmm (get_value cfg ''end'')) of
        (Some start, Some end') \<Rightarrow> if time_within start end' cur then InWindow else OutsideHours cur
      | _ \<Rightarrow> InWindow)"

definition window_zone :: "(string \<times> json) list \<Rightarrow> json" where
  "window_zone cfg =
     (let zone = get_value cfg ''timezone'' in if truthy zone then zone else JStr ''UTC'')"

definition utc_clock :: local_clock where
  "utc_clock now = (nat ((now div days 1 + 3) mod 7), now mod days 1)"

definition within_allowed_hours ::
  "(json \<Rightarrow> local_clock option) \<Rightarrow> json \<Rightarrow> time \<Rightarrow> roe_error + window_verdict" where
  "within_allowed_hours tz allowed_hours now =
     (if \<not> truthy allowed_hours then Inr InWindow
      else case validate_allowed_hours tz allowed_hours of
        Inl (RoEWindowError e) \<Rightarrow> Inr (MalformedWindow e)
      | Inl e \<Rightarrow> Inl e
      | Inr _ \<Rightarrow>
          let cfg = (case allowed_hours of JObj cfg \<Rightarrow> cfg | _ \<Rightarrow> []);
              clock = or_else (tz (window_zone cfg)) utc_clock;
              (weekday, cur) = clock now
          in Inr (window_verdict_at cfg weekday cur))"

text \<open>Getters of the other policies; the column of a policy holds an object.\<close>

definition max_concurrent_sessions :: "json \<Rightarrow> int option" where
  "max_concurrent_sessions sp =
     (case json_get sp ''max_concurrent_sessions'' of
        Some (JInt v) \<Rightarrow> if v > 0 then Some v else None
      | _ \<Rightarrow> None)"

definition retains_evidence :: "json \<Rightarrow> bool" where
  "retains_evidence ep \<longleftrightarrow> json_get ep ''retain_evidence'' \<noteq> Some (JBool False)"

definition retention_days :: "int \<Rightarrow> int option" where
  "retention_days d = (if d > 0 then Some d else None)"

subsection \<open>Properties\<close>

lemma POLICIES_lookup:
  "map_of POLICIES m =
     (if m \<in> set (map fst POLICIES) then Some (ModulePolicy m ''auxiliary_validation'') else None)"
  by (auto simp: POLICIES_def)

lemma EXPLOIT_POLICIES_lookup:
  "map_of EXPLOIT_POLICIES m =
     (if m = ''exploit/windows/smb/ms17_010_eternalblue'' then Some (exploit_policy m) else None)"
  by (simp add: EXPLOIT_POLICIES_def)

lemma allowlisted_category:
  "m \<in> set (map fst POLICIES) \<Longrightarrow> module_category m = ''auxiliary''"
proof -
  have "list_all (\<lambda>m. module_category m = ''auxiliary'') (map fst POLICIES)" by code_simp
  then show "m \<in> set (map fst POLICIES) \<Longrightarrow> module_category m = ''auxiliary''"
    by (simp only: list_all_iff)
qed

lemma exploit_module_category:
  "module_category ''exploit/windows/smb/ms17_010_eternalblue'' = ''exploit''"
  by code_simp

lemma exploit_not_allowlisted: "''exploit/windows/smb/ms17_010_eternalblue'' \<notin> set (map fst POLICIES)"
  by code_simp

lemma is_alnum_not_blank: "is_alnum c \<Longrightarrow> \<not> is_blank c"
  by (auto simp: is_alnum_def is_digit_def is_upper_def is_lower_def is_blank_def)

lemma option_key_strip: "option_key_ok k \<Longrightarrow> strip k = k"
proof (rule strip_no_blank)
  fix c
  assume "option_key_ok k" and c: "c \<in> set k"
  then have "is_alnum c \<or> c = CHR ''_''"
    by (cases k) (auto simp: option_key_ok_def is_alpha_def is_alnum_def list_all_iff)
  moreover have "\<not> is_blank CHR ''_''" by code_simp
  ultimately show "\<not> is_blank c" using is_alnum_not_blank by blast
qed

definition option_value_safe :: "json \<Rightarrow> bool" where
  "option_value_safe v \<longleftrightarrow>
     (case v of JBool _ \<Rightarrow> True | JInt _ \<Rightarrow> True | JFloat _ \<Rightarrow> True | JStr s \<Rightarrow> option_value_ok s
      | _ \<Rightarrow> False)"

lemma check_option_ok: "check_option kv = Inr u \<longleftrightarrow> option_key_ok (fst kv) \<and> option_value_safe (snd kv)"
  by (cases kv) (simp add: check_option_def option_value_safe_def split: json.splits)

lemma traverse_unit_ok: "(\<exists>us. traverse f xs = Inr us) \<longleftrightarrow> list_all (\<lambda>x. \<exists>u. f x = Inr u) xs"
  by (induction xs) (auto simp: res_bind_Inr)

lemma validate_module_options_ok:
  "validate_module_options options = Inr u \<longleftrightarrow> length options \<le> 64 \<and>
     list_all (\<lambda>(k, v). option_key_ok k \<and> option_value_safe v) options"
  using traverse_unit_ok [of check_option options]
  by (auto simp: validate_module_options_def res_bind_Inr check_option_ok list_all_iff
      case_prod_beta)

lemma reserved_used_none:
  assumes "list_all (\<lambda>(k, v). option_key_ok k \<and> option_value_safe v) options"
  shows "reserved_used options = [] \<longleftrightarrow>
    (\<lambda>(k, v). lower k) ` set options \<inter> {''rhosts'', ''rhost'', ''payload''} = {}"
proof -
  have "map (\<lambda>(k, _). lower (strip k)) options = map (\<lambda>(k, _). lower k) options"
    using assms by (auto simp: list_all_iff option_key_strip)
  moreover have "sort xs = [] \<longleftrightarrow> xs = []" for xs :: "string list"
    by (metis length_0_conv length_sort)
  ultimately show ?thesis
    by (simp only: reserved_used_def filter_empty_conv RESERVED_OPTIONS_def) auto
qed

lemma no_prohibited_option:
  "find (\<lambda>x. lower x \<in> set (map (\<lambda>(k, _). lower k) options))
      (mp_prohibited_options (ModulePolicy m c)) = None \<longleftrightarrow>
    (\<lambda>(k, v). lower k) ` set options \<inter> {''arbitrary_command'', ''cmd'', ''command''} = {}"
proof -
  have "map lower (mp_prohibited_options (ModulePolicy m c)) = mp_prohibited_options (ModulePolicy m c)"
    by (simp add: ModulePolicy_def) code_simp
  then have "lower x = x" if "x \<in> set (mp_prohibited_options (ModulePolicy m c))" for x
    using that map_idI [of _ lower] by (metis map_eq_conv list.map_ident)
  then show ?thesis
    by (auto simp: find_None_iff ModulePolicy_def)
qed

lemma payload_ok_none: "payload_ok payload (ModulePolicy m c) \<longleftrightarrow> payload = None"
  "payload_ok payload (exploit_policy m) \<longleftrightarrow> payload = None"
  by (simp_all add: payload_ok_def exploit_policy_def ModulePolicy_def split: option.splits)

definition options_safe :: "(string \<times> json) list \<Rightarrow> bool" where
  "options_safe options \<longleftrightarrow> length options \<le> 64 \<and>
     list_all (\<lambda>(k, v). option_key_ok k \<and> option_value_safe v) options \<and>
     (\<lambda>(k, v). lower k) ` set options \<inter> {''rhosts'', ''rhost'', ''payload''} = {}"

lemma validate_module_allowed_shape:
  "validate_module_allowed m payload options allow = Inr p \<longleftrightarrow>
     module_category m \<notin> set BLOCKED_CATEGORIES \<and> options_safe options \<and>
     (case map_of POLICIES m of
        Some q \<Rightarrow> mp_category q \<notin> set BLOCKED_CATEGORIES \<and> mp_enabled q \<and> payload_ok payload q \<and>
          find (\<lambda>x. lower x \<in> set (map (\<lambda>(k, _). lower k) options)) (mp_prohibited_options q) = None \<and>
          p = q
      | None \<Rightarrow> module_category m = EXPLOIT_CATEGORY \<and> allow \<and>
          map_of EXPLOIT_POLICIES m = Some p \<and> payload_ok payload p)"
proof -
  have "(\<exists>u. validate_module_options options = Inr u) \<and> reserved_used options = [] \<longleftrightarrow> options_safe options"
    using reserved_used_none [of options] by (auto simp: validate_module_options_ok options_safe_def)
  then show ?thesis
    unfolding validate_module_allowed_def Let_def
    by (auto simp: res_bind_Inr split: if_splits option.splits)
qed

lemma validate_module_shape:
  "validate_module m approved payload options allow = Inr p \<longleftrightarrow>
     validate_module_allowed m payload options allow = Inr p \<and> (mp_requires_approval p \<longrightarrow> approved)"
  by (auto simp: validate_module_def res_bind_Inr)

lemma policy_fields [simp]:
  "mp_category (ModulePolicy m c) = c" "mp_enabled (ModulePolicy m c)"
  "mp_requires_approval (ModulePolicy m c)" "\<not> mp_cleanup_required (ModulePolicy m c)"
  "mp_requires_approval (exploit_policy m)" "mp_cleanup_required (exploit_policy m)"
  "mp_max_session_seconds (exploit_policy m) = 300"
  by (simp_all add: ModulePolicy_def exploit_policy_def)

lemma categories_not_blocked:
  "''auxiliary'' \<notin> set BLOCKED_CATEGORIES" "''exploit'' \<notin> set BLOCKED_CATEGORIES"
  "''auxiliary_validation'' \<notin> set BLOCKED_CATEGORIES"
  by (simp_all add: BLOCKED_CATEGORIES_def)

lemma allowlisted_module_check:
  assumes "m \<in> set (map fst POLICIES)"
  shows "validate_module m approved payload options allow = Inr p \<longleftrightarrow>
    approved \<and> payload = None \<and> options_safe options \<and>
    (\<lambda>(k, v). lower k) ` set options \<inter> {''arbitrary_command'', ''cmd'', ''command''} = {} \<and>
    p = ModulePolicy m ''auxiliary_validation''"
proof -
  have "map_of POLICIES m = Some (ModulePolicy m ''auxiliary_validation'')"
    using assms by (simp only: POLICIES_lookup if_True)
  then show ?thesis
    unfolding validate_module_shape validate_module_allowed_shape allowlisted_category [OF assms]
    by (simp only: option.case no_prohibited_option payload_ok_none categories_not_blocked policy_fields)
      auto
qed

lemma other_module_check:
  assumes "m \<notin> set (map fst POLICIES)"
  shows "validate_module m approved payload options allow = Inr p \<longleftrightarrow>
    approved \<and> payload = None \<and> options_safe options \<and> allow \<and>
    m = ''exploit/windows/smb/ms17_010_eternalblue'' \<and> p = exploit_policy m"
proof -
  have "map_of POLICIES m = None"
    using assms by (simp only: POLICIES_lookup if_False)
  then show ?thesis
    unfolding validate_module_shape validate_module_allowed_shape
    by (auto simp: EXPLOIT_POLICIES_lookup exploit_module_category categories_not_blocked
        EXPLOIT_CATEGORY_def payload_ok_none)
qed


subsection \<open>The testing window\<close>

lemma hhmm_caseE:
  assumes "(case r of [a, b, c, d, e] \<Rightarrow> if P a b c d e then Some (f a b d e) else None | _ \<Rightarrow> None) = Some t"
  obtains a b c d e where "P a b c d e" and "t = f a b d e"
  using assms by (auto split: list.split_asm if_split_asm)

lemma parse_hhmm_range: "parse_hhmm v = Some t \<Longrightarrow> 0 \<le> t \<and> t < days 1"
proof -
  assume parsed: "parse_hhmm v = Some t"
  then obtain s where "v = JStr s" by (cases v) (simp_all add: parse_hhmm_def)
  with parsed have "parse_hhmm (JStr s) = Some t" by simp
  then obtain a b d e where "digits_value [a, b] < 24" "digits_value [d, e] < 60"
    "t = minutes (int (60 * digits_value [a, b] + digits_value [d, e]))"
    unfolding parse_hhmm_def json.case by (elim hhmm_caseE) blast
  moreover define h where "h = digits_value [a, b]"
  moreover define n where "n = digits_value [d, e]"
  ultimately have "h < 24" "n < 60" "t = minutes (int (60 * h + n))" by simp_all
  then show ?thesis by (simp add: time_simps)
qed

lemma mod_shift:
  assumes "0 \<le> x" "x < n" "0 \<le> y" "y < (n::int)"
  shows "(x - y) mod n = (if y \<le> x then x - y else x - y + n)"
proof -
  have "(x - y) mod n = x - y" if "y \<le> x" using that assms by (intro mod_pos_pos_trivial) auto
  moreover have "(x - y) mod n = x - y + n" if "x < y"
  proof -
    have "(x - y + n) mod n = x - y + n"
      using that assms by (intro mod_pos_pos_trivial) auto
    then show ?thesis by simp
  qed
  ultimately show ?thesis by (cases "y \<le> x") simp_all
qed

text \<open>A window is the half-open arc of the day's circle from its start to its end.\<close>

lemma time_within_arc:
  assumes "0 \<le> cur" "cur < days 1" "0 \<le> start" "start < days 1" "0 \<le> end'" "end' < days 1"
  shows "time_within start end' cur \<longleftrightarrow> (cur - start) mod days 1 < (end' - start) mod days 1"
  using assms by (auto simp: time_within_def mod_shift)

lemma check_bounds_ok:
  "check_bounds start end' = Inr u \<longleftrightarrow> start = JNull \<and> end' = JNull \<or>
     start \<noteq> JNull \<and> end' \<noteq> JNull \<and> (\<exists>s. parse_hhmm start = Some s) \<and> (\<exists>e. parse_hhmm end' = Some e)"
  by (auto simp: check_bounds_def)

lemma parse_hhmm_null [simp]: "parse_hhmm JNull = None"
  by (simp add: parse_hhmm_def)

lemma validated_bounds:
  assumes "validate_allowed_hours tz (JObj cfg) = Inr u" and "cfg \<noteq> []"
  shows "check_bounds (get_value cfg ''start'') (get_value cfg ''end'') = Inr ()"
  using assms by (auto simp: validate_allowed_hours_def Let_def elim!: if_InrE res_bind_InrE)

lemma within_validated:
  assumes "validate_allowed_hours tz (JObj cfg) = Inr u" and "cfg \<noteq> []"
  shows "within_allowed_hours tz (JObj cfg) now =
    Inr (window_verdict_at cfg (fst (or_else (tz (window_zone cfg)) utc_clock now))
           (snd (or_else (tz (window_zone cfg)) utc_clock now)))"
  using assms by (simp add: within_allowed_hours_def case_prod_beta Let_def)

text \<open>The testing window.  Nothing restricts an empty one; a defined window admits an instant only
  if it is well formed, the local day is one of the permitted days (when days are given) and the
  local time lies in the half-open arc of the day from start to end (when they are given), which may
  wrap past midnight; and it admits every such instant.\<close>

theorem testing_window_exact:
  assumes "or_else (tz (window_zone cfg)) utc_clock now = (weekday, cur)"
    and "0 \<le> cur" and "cur < days 1"
  shows "within_allowed_hours tz (JObj cfg) now = Inr InWindow \<longleftrightarrow>
    cfg = [] \<or> validate_allowed_hours tz (JObj cfg) = Inr () \<and>
      (allowed_days cfg = [] \<or> weekday \<in> set (allowed_days cfg)) \<and>
      (parse_hhmm (get_value cfg ''start'') = None \<or>
       (\<exists>start end'. parse_hhmm (get_value cfg ''start'') = Some start \<and>
          parse_hhmm (get_value cfg ''end'') = Some end' \<and>
          (cur - start) mod days 1 < (end' - start) mod days 1))"
proof (cases "cfg = []")
  case True
  then show ?thesis by (simp add: within_allowed_hours_def)
next
  case nonempty: False
  show ?thesis
  proof (cases "validate_allowed_hours tz (JObj cfg)")
    case (Inl e)
    then show ?thesis
      using nonempty by (cases e) (simp_all add: within_allowed_hours_def)
  next
    case (Inr u)
    let ?start = "parse_hhmm (get_value cfg ''start'')" and ?stop = "parse_hhmm (get_value cfg ''end'')"
    have bounds: "?start = None \<longleftrightarrow> ?stop = None"
      using validated_bounds [OF Inr nonempty] by (auto simp: check_bounds_ok)
    have "within_allowed_hours tz (JObj cfg) now = Inr (window_verdict_at cfg weekday cur)"
      using within_validated [OF Inr nonempty] by (simp add: assms(1))
    moreover have "window_verdict_at cfg weekday cur = InWindow \<longleftrightarrow>
        (allowed_days cfg = [] \<or> weekday \<in> set (allowed_days cfg)) \<and>
        (?start = None \<or> (\<exists>start end'. ?start = Some start \<and> ?stop = Some end' \<and>
          time_within start end' cur))"
      using bounds by (auto simp: window_verdict_at_def split: option.splits if_splits)
    moreover have "time_within start end' cur \<longleftrightarrow> (cur - start) mod days 1 < (end' - start) mod days 1"
      if "?start = Some start" "?stop = Some end'" for start end'
      using that parse_hhmm_range by (intro time_within_arc assms) auto
    ultimately show ?thesis
      using nonempty Inr by (simp cong: conj_cong)
  qed
qed

definition sample_window :: "(string \<times> json) list" where
  "sample_window = [(''days'', JList [JStr ''fri'']), (''start'', JStr ''22:00''), (''end'', JStr ''06:00'')]"

theorem testing_window_exact_witness:
  "within_allowed_hours (\<lambda>_. None) (JObj sample_window) (days 1 + hours 23) = Inr InWindow"
proof -
  let ?clock = "or_else (None :: local_clock option) utc_clock (days 1 + hours 23)"
  have "?clock = (4, hours 23)" by code_simp
  moreover have "validate_allowed_hours (\<lambda>_. None) (JObj sample_window) = Inr ()" by code_simp
  moreover have "allowed_days sample_window = [4]" by code_simp
  moreover have "parse_hhmm (get_value sample_window ''start'') = Some (hours 22)"
    "parse_hhmm (get_value sample_window ''end'') = Some (hours 6)" by code_simp+
  moreover have "(hours 23 - hours 22) mod days 1 < (hours 6 - hours 22) mod days 1"
    "0 \<le> hours 23" "hours 23 < days 1" by code_simp+
  ultimately show ?thesis
    using testing_window_exact [of "\<lambda>_. None" sample_window "days 1 + hours 23" 4 "hours 23"]
    by simp
qed

text \<open>
  A day list applies to the calendar day of the instant, also in the part of a window after
  midnight: the window of Friday 22:00 to 06:00 refuses the early hours of Saturday and admits those
  of Friday.
\<close>

lemma overnight_window_day:
  "within_allowed_hours (\<lambda>_. None) (JObj sample_window) (days 2 + hours 2) = Inr (OutsideDays 5) \<and>
   within_allowed_hours (\<lambda>_. None) (JObj sample_window) (days 1 + hours 2) = Inr InWindow"
  by code_simp

text \<open>A misspelt key is an error that \<open>within_allowed_hours\<close> raises instead of refusing.\<close>

lemma unknown_window_key_raises:
  "within_allowed_hours tz (JObj [(''dayz'', JList [])]) now =
     Inl (RoEValidationError (UnknownFields [''dayz'']))"
  by (simp add: within_allowed_hours_def validate_allowed_hours_def reject_unknown_keys_def
      ALLOWED_HOURS_KEYS_def Let_def)

subsection \<open>Recommendations\<close>

lemma first_occurrences_filter: "x \<in> set (first_occurrences (filter P xs)) \<Longrightarrow> P x"
  by simp

text \<open>A recommended module passes the structural check without options, even without exploitation rights.\<close>

lemma recommended_modules_allowed:
  assumes "m \<in> set (recommend_modules title description cve_ids)"
  shows "validate_module m True None [] False = Inr (ModulePolicy m ''auxiliary_validation'')"
proof -
  have "map_of POLICIES m \<noteq> None"
    using assms unfolding recommend_modules_def Let_def
    by (rule first_occurrences_filter)
  then have "m \<in> set (map fst POLICIES)"
    unfolding POLICIES_lookup by (rule contrapos_np) (simp only: if_False simp_thms)
  then show ?thesis by (simp only: allowlisted_module_check) (simp add: options_safe_def)
qed

lemma recommended_modules_distinct: "distinct (recommend_modules title description cve_ids)"
  unfolding recommend_modules_def Let_def by (rule distinct_first_occurrences)

end
