(* ===== verification/Evidence.thy ===== *)
theory Evidence
  imports PyStrings "HOL-Library.Code_Target_Nat"
begin

text \<open>
  Evidence minimization, \<^verbatim>\<open>app/services/pentest_evidence.py\<close>: credential-shaped objects are reduced to
  proof without the secret, and secret-looking text is replaced by a marker.

  Each regular expression is a function from the previous character and the remaining text to the
  length of the match that starts here, which \<open>re_sub\<close> replaces by the marker.
\<close>

subsection \<open>Text\<close>

definition REDACTED :: string where
  "REDACTED = ''[REDACTED]''"

definition re_sub :: "(char option \<Rightarrow> string \<Rightarrow> nat option) \<Rightarrow> char option \<Rightarrow> string \<Rightarrow> string" where
  "re_sub m = re_replace (\<lambda>prev s. map_option (\<lambda>n. (n, REDACTED)) (m prev s))"

text \<open>\<open>-----BEGIN [A-Z ]*PRIVATE KEY-----.*?-----END [A-Z ]*PRIVATE KEY-----\<close>, over several lines.\<close>

definition key_marker :: "string \<Rightarrow> string \<Rightarrow> nat option" where
  "key_marker label s =
     (let start = ''-----'' @ label @ '' '';
          rest = drop (length start) s;
          run = takeWhile (\<lambda>c. is_upper c \<or> c = CHR '' '') rest
      in if starts_with start s \<and> starts_with (rev ''PRIVATE KEY'') (rev run) \<and>
            starts_with ''-----'' (drop (length run) rest)
         then Some (length start + length run + 5) else None)"

definition private_key_block :: "char option \<Rightarrow> string \<Rightarrow> nat option" where
  "private_key_block prev s =
     (case key_marker ''BEGIN'' s of
        None \<Rightarrow> None
      | Some b \<Rightarrow>
          (case find (\<lambda>i. key_marker ''END'' (drop i s) \<noteq> None) [b..<length s] of
             None \<Rightarrow> None
           | Some i \<Rightarrow> map_option (\<lambda>e. i + e) (key_marker ''END'' (drop i s))))"

text \<open>\<open>(password|passwd|pass|secret|api[_-]?key|token)\s*[:=]\s*\S+\<close>, in any case.\<close>

definition assignment_to :: "string \<Rightarrow> string \<Rightarrow> nat option" where
  "assignment_to s word =
     (if \<not> starts_with word (lower s) then None
      else case dropWhile is_blank (drop (length word) s) of
        [] \<Rightarrow> None
      | c # r \<Rightarrow>
          let r = dropWhile is_blank r; v = takeWhile (\<lambda>c. \<not> is_blank c) r
          in if c \<in> {CHR '':'', CHR ''=''} \<and> v \<noteq> [] then Some (length s - (length r - length v))
             else None)"

definition secret_assignment :: "char option \<Rightarrow> string \<Rightarrow> nat option" where
  "secret_assignment prev s =
     (case List.map_filter (assignment_to s)
             [''password'', ''passwd'', ''pass'', ''secret'', ''api_key'', ''api-key'', ''apikey'', ''token''] of
        [] \<Rightarrow> None
      | n # _ \<Rightarrow> Some n)"

text \<open>
  \<open>authorization\s*:\s*.+\<close> in any case: the blanks after the colon give characters back until the line
  has one left for \<open>.+\<close>.
\<close>

definition line_of :: "string \<Rightarrow> string" where
  "line_of s = takeWhile (\<lambda>c. c \<noteq> CHR 0x0A) s"

definition authorization_header :: "char option \<Rightarrow> string \<Rightarrow> nat option" where
  "authorization_header prev s =
     (if \<not> starts_with ''authorization'' (lower s) then None
      else case dropWhile is_blank (drop 13 s) of
        [] \<Rightarrow> None
      | c # r \<Rightarrow>
          if c \<noteq> CHR '':'' then None
          else map_option (\<lambda>k. length s - (length r - k - length (line_of (drop k r))))
            (find (\<lambda>k. line_of (drop k r) \<noteq> []) (rev [0..<Suc (length (takeWhile is_blank r))])))"

text \<open>\<open>\bAKIA[0-9A-Z]{16}\b\<close>, in any case.\<close>

definition word_char :: "char \<Rightarrow> bool" where
  "word_char c \<longleftrightarrow> is_alnum c \<or> c = CHR ''_''"

definition aws_key_id :: "char option \<Rightarrow> string \<Rightarrow> nat option" where
  "aws_key_id prev s =
     (if (case prev of None \<Rightarrow> True | Some c \<Rightarrow> \<not> word_char c) \<and> starts_with ''akia'' (lower s) \<and>
         20 \<le> length s \<and> list_all is_alnum (take 16 (drop 4 s)) \<and>
         (case drop 20 s of [] \<Rightarrow> True | c # _ \<Rightarrow> \<not> word_char c)
      then Some 20 else None)"

definition TEXT_PATTERNS :: "(char option \<Rightarrow> string \<Rightarrow> nat option) list" where
  "TEXT_PATTERNS = [private_key_block, secret_assignment, authorization_header, aws_key_id]"

definition scrub_text :: "string \<Rightarrow> string" where
  "scrub_text text' = foldl (\<lambda>s m. re_sub m None s) text' TEXT_PATTERNS"

subsection \<open>Objects\<close>

definition SECRET_TYPE :: "(string \<times> string) list" where
  "SECRET_TYPE =
     [(''password'', ''password''), (''pass'', ''password''), (''passwd'', ''password''),
      (''private_key'', ''private_key''), (''privatekey'', ''private_key''),
      (''token'', ''token''), (''api_key'', ''token''), (''apikey'', ''token''),
      (''hash'', ''hash''), (''ntlm'', ''hash''), (''lm'', ''hash''), (''nt'', ''hash''),
      (''session_key'', ''session_key''), (''secret'', ''secret''), (''credential'', ''credential'')]"

definition SECRET_FIELDS :: "string list" where
  "SECRET_FIELDS =
     [''password'', ''pass'', ''passwd'', ''private_key'', ''privatekey'', ''secret'', ''token'',
      ''api_key'', ''apikey'', ''hash'', ''ntlm'', ''lm'', ''nt'', ''credential'', ''session_key'']"

definition secret_field :: "string \<Rightarrow> bool" where
  "secret_field key \<longleftrightarrow> lower key \<in> set SECRET_FIELDS"

text \<open>What replaces the secret: that there was one, of which kind, and how long.\<close>

definition secret_proof :: "string \<Rightarrow> json \<Rightarrow> (string \<times> json) list" where
  "secret_proof k v =
     [(''secret_captured'', JBool True),
      (''secret_type'', JStr (or_else (map_of SECRET_TYPE (lower k)) ''secret''))] @
     (case v of JStr s \<Rightarrow> [(''secret_length'', JInt (int (length s)))] | _ \<Rightarrow> [])"

definition redact_credential :: "(string \<times> json) list \<Rightarrow> (string \<times> json) list" where
  "redact_credential cred =
     (let out = filter (\<lambda>(k, v). \<not> secret_field k) cred
      in case find (\<lambda>(k, v). secret_field k) cred of
           None \<Rightarrow> out
         | Some (k, v) \<Rightarrow> foldl (\<lambda>out (key, x). dict_set key x out) out (secret_proof k v))"

fun json_depth :: "json \<Rightarrow> nat" where
  "json_depth (JList xs) = Suc (foldr max (map json_depth xs) 0)"
| "json_depth (JObj kvs) = Suc (foldr max (map (\<lambda>(k, v). json_depth v) kvs) 0)"
| "json_depth _ = 0"

lemma foldr_max_ge: "x \<in> set xs \<Longrightarrow> x \<le> foldr max xs (0::nat)"
  by (induction xs) auto

lemma depth_list: "x \<in> set xs \<Longrightarrow> json_depth x < json_depth (JList xs)"
  by (simp add: le_imp_less_Suc foldr_max_ge)

lemma depth_obj: "(k, v) \<in> set kvs \<Longrightarrow> json_depth v < json_depth (JObj kvs)"
proof -
  assume "(k, v) \<in> set kvs"
  then have "json_depth v \<in> set (map (\<lambda>(k, v). json_depth v) kvs)" by force
  then show ?thesis by (simp add: le_imp_less_Suc foldr_max_ge)
qed

lemma set_dict_set: "x \<in> set (dict_set k' v' kvs) \<Longrightarrow> x = (k', v') \<or> x \<in> set kvs"
  by (induction k' v' kvs rule: dict_set.induct) (auto split: if_splits)

lemma set_dict_sets:
  "x \<in> set (foldl (\<lambda>out (key, x). dict_set key x out) out kvs) \<Longrightarrow> x \<in> set kvs \<or> x \<in> set out"
proof (induction kvs arbitrary: out)
  case Nil
  then show ?case by simp
next
  case (Cons kv kvs)
  obtain k v where kv: "kv = (k, v)" by force
  have "x \<in> set kvs \<or> x \<in> set (dict_set k v out)"
    by (rule Cons.IH) (use Cons.prems in \<open>simp add: kv\<close>)
  with kv show ?case by (auto dest: set_dict_set)
qed

lemma secret_proof_scalar: "(k, v) \<in> set (secret_proof k' v') \<Longrightarrow> json_depth v = 0"
  by (cases v') (auto simp: secret_proof_def)

lemma redact_credential_origin:
  assumes "(k, v) \<in> set (redact_credential cred)"
  shows "(\<exists>k' v'. (k, v) \<in> set (secret_proof k' v')) \<or> (k, v) \<in> set cred \<and> \<not> secret_field k"
  using assms
  by (auto simp: redact_credential_def Let_def split: option.split_asm dest!: set_dict_sets)

function minimize_evidence :: "json \<Rightarrow> json" where
  "minimize_evidence (JStr s) = JStr (scrub_text s)"
| "minimize_evidence (JObj kvs) =
     (if list_ex (\<lambda>(k, v). secret_field k) kvs
      then JObj (map (\<lambda>(k, v). (k, minimize_evidence v)) (redact_credential kvs))
      else JObj (map (\<lambda>(k, v). (k, minimize_evidence v)) kvs))"
| "minimize_evidence (JList xs) = JList (map minimize_evidence xs)"
| "minimize_evidence JNull = JNull"
| "minimize_evidence (JBool b) = JBool b"
| "minimize_evidence (JInt i) = JInt i"
| "minimize_evidence (JFloat q) = JFloat q"
| "minimize_evidence JNonFinite = JNonFinite"
  by pat_completeness auto

termination
proof (relation "measure json_depth")
  show "wf (measure json_depth)" by simp
next
  fix kvs kv k v
  assume "kv \<in> set (redact_credential kvs)" "(k, v) = kv"
  then have "(k, v) \<in> set (redact_credential kvs)" by simp
  then have "json_depth v = 0 \<or> json_depth v < json_depth (JObj kvs)"
    using redact_credential_origin depth_obj secret_proof_scalar by blast
  then show "(v, JObj kvs) \<in> measure json_depth" by auto
qed (auto simp del: json_depth.simps intro: depth_obj depth_list)

subsection \<open>Properties\<close>

text \<open>
  \<open>blank_secrets\<close> overwrites the value of every secret field, at any depth: a string by as many stars,
  anything else by null.
\<close>

definition blank_value :: "json \<Rightarrow> json" where
  "blank_value v = (case v of JStr s \<Rightarrow> JStr (replicate (length s) CHR ''*'') | _ \<Rightarrow> JNull)"

fun blank_secrets :: "json \<Rightarrow> json" where
  "blank_secrets (JObj kvs) =
     JObj (map (\<lambda>(k, v). (k, if secret_field k then blank_value v else blank_secrets v)) kvs)"
| "blank_secrets (JList xs) = JList (map blank_secrets xs)"
| "blank_secrets j = j"

fun no_secret_fields :: "json \<Rightarrow> bool" where
  "no_secret_fields (JObj kvs) = list_all (\<lambda>(k, v). \<not> secret_field k \<and> no_secret_fields v) kvs"
| "no_secret_fields (JList xs) = list_all no_secret_fields xs"
| "no_secret_fields j = True"

definition map_entries :: "('v \<Rightarrow> 'w) \<Rightarrow> ('k \<times> 'v) list \<Rightarrow> ('k \<times> 'w) list" where
  "map_entries f kvs = map (\<lambda>(k, v). (k, f v)) kvs"

lemma map_entries_dict_sets:
  "map_entries f (foldl (\<lambda>out (k, x). dict_set k x out) out kvs) =
     foldl (\<lambda>out (k, x). dict_set k x out) (map_entries f out) (map_entries f kvs)"
proof (induction kvs arbitrary: out)
  case Nil
  then show ?case by (simp add: map_entries_def)
next
  case (Cons kv kvs)
  obtain k v where kv: "kv = (k, v)" by force
  have "map_entries f (dict_set k v out) = dict_set k (f v) (map_entries f out)"
    by (induction k v out rule: dict_set.induct) (auto simp: map_entries_def)
  with Cons.IH show ?case by (simp add: kv) (simp add: map_entries_def)
qed

lemma secret_proof_blank: "secret_proof k (blank_value v) = secret_proof k v"
  by (cases v) (simp_all add: secret_proof_def blank_value_def)

text \<open>Redaction of blanked entries, with any operation on the values that ignores blanking.\<close>

lemma redact_blank:
  assumes "\<And>k v. (k, v) \<in> set kvs \<Longrightarrow> \<not> secret_field k \<Longrightarrow> f (blank_secrets v) = f v"
  shows "map_entries f (redact_credential
      (map (\<lambda>(k, v). (k, if secret_field k then blank_value v else blank_secrets v)) kvs)) =
    map_entries f (redact_credential kvs)"
proof -
  let ?b = "\<lambda>(k, v). (k, if secret_field k then blank_value v else blank_secrets v)"
  have out: "map_entries f (filter (\<lambda>(k, v). \<not> secret_field k) (map ?b kvs)) =
      map_entries f (filter (\<lambda>(k, v). \<not> secret_field k) kvs)"
    using assms by (induction kvs) (auto simp: map_entries_def, blast)
  have hit: "find (\<lambda>(k, v). secret_field k) (map ?b kvs) =
      map_option (\<lambda>(k, v). (k, blank_value v)) (find (\<lambda>(k, v). secret_field k) kvs)"
    by (induction kvs) auto
  show ?thesis
    by (cases "find (\<lambda>(k, v). secret_field k) kvs")
      (auto simp: redact_credential_def hit out map_entries_dict_sets secret_proof_blank)
qed

lemma secret_keys_blank:
  "list_ex (\<lambda>(k, v). secret_field k)
     (map (\<lambda>(k, v). (k, if secret_field k then blank_value v else blank_secrets v)) kvs) =
   list_ex (\<lambda>(k, v). secret_field k) kvs"
  by (induction kvs) auto

lemma minimize_blank: "minimize_evidence (blank_secrets j) = minimize_evidence j"
proof (induction j rule: blank_secrets.induct)
  case (1 kvs)
  have kept: "minimize_evidence (blank_secrets v) = minimize_evidence v"
    if "(k, v) \<in> set kvs" "\<not> secret_field k" for k v
    using 1 that by blast
  show ?case
  proof (cases "list_ex (\<lambda>(k, v). secret_field k) kvs")
    case True
    with redact_blank [of kvs minimize_evidence, OF kept] show ?thesis
      by (simp add: secret_keys_blank map_entries_def)
  next
    case False
    then have "\<not> secret_field k" if "(k, v) \<in> set kvs" for k v
      using that by (auto simp: list_ex_iff)
    with kept False show ?thesis by (auto simp: secret_keys_blank)
  qed
qed simp_all

lemma proof_keys_public: "(k, v) \<in> set (secret_proof k' v') \<Longrightarrow> \<not> secret_field k"
proof -
  have "list_all (\<lambda>k. \<not> secret_field k) [''secret_captured'', ''secret_type'', ''secret_length'']"
    by code_simp
  moreover assume "(k, v) \<in> set (secret_proof k' v')"
  then have "k \<in> set [''secret_captured'', ''secret_type'', ''secret_length'']"
    by (cases v') (auto simp: secret_proof_def)
  ultimately show ?thesis unfolding list_all_iff by (rule bspec)
qed

lemma minimize_no_secret_fields: "no_secret_fields (minimize_evidence j)"
proof (induction j rule: minimize_evidence.induct)
  case (2 kvs)
  show ?case
  proof (cases "list_ex (\<lambda>(k, v). secret_field k) kvs")
    case True
    then show ?thesis
      using "2.IH"(1) by (fastforce simp: list_all_iff dest: redact_credential_origin proof_keys_public)
  next
    case False
    then have "\<not> secret_field k" if "(k, v) \<in> set kvs" for k v
      using that by (auto simp: list_ex_iff)
    then show ?thesis using False "2.IH"(2) by (force simp: list_all_iff)
  qed
qed (auto simp: list_all_iff)

text \<open>C29. Proof, not secrets: no object of the minimized evidence has a secret field, at any depth, and
  the minimized evidence does not depend on the secrets: it is the same when every secret value is
  overwritten, up to its length if it is a string.\<close>

theorem evidence_carries_no_secret:
  "no_secret_fields (minimize_evidence evidence) \<and>
   minimize_evidence (blank_secrets evidence) = minimize_evidence evidence"
  by (simp add: minimize_no_secret_fields minimize_blank)

end
