(* ===== verification/Pentest.thy ===== *)
theory Pentest
  imports Jobs PentestPolicy Evidence
begin

text \<open>
  Controlled-pentest sessions: \<^verbatim>\<open>app/services/pentest.py\<close> (request, authorization, approval, cleanup,
  results, time limits, retention), \<^verbatim>\<open>app/services/pentest_dispatch.py\<close> (which Scout runs a session) and
  the approval and cleanup handlers of \<^verbatim>\<open>app/api/v1/pentest.py\<close> that compose them.

  Arguments stand for what the services take from elsewhere: the clock, fresh identifiers, the digest
  of an authorization document (SHA-256 of its canonical JSON) and the time zone database.  Instants stay
  instants in documents and records, and a denial is the constructor of the message that reports it.
\<close>

subsection \<open>Tables\<close>

record finding =
  fi_id :: uuid
  fi_organization_id :: uuid
  fi_site_id :: uuid
  fi_asset_id :: "uuid option"
  fi_severity :: Severity
  fi_validation_status :: ValidationStatus
  fi_status :: FindingStatus
  fi_last_seen_at :: "time option"

record rules_of_engagement =
  roe_id :: uuid
  roe_organization_id :: uuid
  roe_name :: string
  roe_authorization_owner :: string
  roe_authorization_source :: string
  roe_authorization_reference :: string
  roe_authorization_document_sha256 :: string
  roe_effective_from :: time
  roe_effective_until :: time
  roe_authorized_cidrs :: "string list"
  roe_authorized_asset_ids :: "string list"
  roe_authorized_modules :: "string list"
  roe_allowed_actions :: "string list"
  roe_prohibited_actions :: "string list"
  roe_allowed_hours :: json
  roe_emergency_contact :: "string option"
  roe_business_contact :: "string option"
  roe_evidence_policy :: json
  roe_data_retention_days :: int
  roe_session_policy :: json
  roe_cleanup_required :: bool
  roe_created_by :: "uuid option"
  roe_approved_by :: "uuid option"
  roe_version :: int
  roe_policy_digest :: string

record authorization_document =
  ad_allowed_actions :: "string list"
  ad_allowed_hours :: json
  ad_authorization_document_sha256 :: string
  ad_authorization_owner :: string
  ad_authorization_reference :: string
  ad_authorization_source :: string
  ad_authorized_asset_ids :: "string list"
  ad_authorized_cidrs :: "string list"
  ad_authorized_modules :: "string list"
  ad_approved_by :: "string option"
  ad_business_contact :: "string option"
  ad_cleanup_required :: bool
  ad_created_by :: "string option"
  ad_data_retention_days :: int
  ad_effective_from :: time
  ad_effective_until :: time
  ad_emergency_contact :: "string option"
  ad_evidence_policy :: json
  ad_name :: string
  ad_organization_id :: string
  ad_prohibited_actions :: "string list"
  ad_rules_of_engagement_id :: string
  ad_session_policy :: json
  ad_version :: int

text \<open>The snapshot stored with a session; the empty dictionary has no document and no digest.\<close>

record session_snapshot =
  sn_document :: "authorization_document option"
  sn_policy_digest :: "string option"
  sn_module :: "string option"
  sn_target :: "string option"
  sn_finding_id :: "string option"
  sn_asset_id :: "string option"
  sn_network_id :: "string option"
  sn_probe_id :: "string option"
  sn_relay_id :: "string option"
  sn_scan_job_id :: "string option"
  sn_scan_job_attempt_id :: "string option"
  sn_fencing_token :: "int option"

datatype cleanup_record = OperatorRecord json | ServerRecord string time

record pentest_session =
  ps_id :: uuid
  ps_organization_id :: uuid
  ps_finding_id :: uuid
  ps_roe_id :: "uuid option"
  ps_module :: string
  ps_payload :: "string option"
  ps_options :: "(string \<times> json) list"
  ps_target :: "string option"
  ps_status :: PentestSessionStatus
  ps_max_session_seconds :: int
  ps_requested_by :: "uuid option"
  ps_approved_by :: "uuid option"
  ps_approved_at :: "time option"
  ps_started_at :: "time option"
  ps_expires_at :: "time option"
  ps_ended_at :: "time option"
  ps_cleanup_required :: bool
  ps_cleanup_completed :: bool
  ps_cleanup_verified :: "bool option"
  ps_cleanup_records :: "cleanup_record list"
  ps_evidence :: "(string \<times> json) list"
  ps_outcome :: "string option"
  ps_scan_job_id :: "uuid option"
  ps_dispatch_error :: "string option"
  ps_snapshot :: session_snapshot
  ps_authorized_network_id :: "uuid option"
  ps_authorized_probe_id :: "uuid option"
  ps_authorized_relay_id :: "uuid option"
  ps_scan_job_attempt_id :: "uuid option"
  ps_created_at :: time

record retention_hold =
  rh_target_type :: string
  rh_target_id :: uuid

record scan_artifact =
  sa_id :: uuid
  sa_scan_job_id :: uuid

record pentest_db = job_db +
  sessions :: "pentest_session list"
  roes :: "rules_of_engagement list"
  findings :: "finding list"
  holds :: "retention_hold list"
  artifacts :: "scan_artifact list"

record pentest_env =
  pe_fresh :: uuid
  pe_digest :: "authorization_document \<Rightarrow> string"
  pe_tz :: "json \<Rightarrow> local_clock option"
  pe_jobs :: job_env

datatype roe_denial = RoeNotApproved | DigestInvalid | OutsideEffectiveWindow | ModuleNotGranted
  | TargetNotGranted | RoeGone | FindingGone | SnapshotMismatch | WindowForbids window_verdict
  | ConcurrencyLimit int

datatype session_error = PolicyError module_error | AuthorizationRequired | AuthorizationNotFound
  | Denied roe_denial | NotPendingApproval PentestSessionStatus | SelfApproval | RoeInvalid roe_error
  | SeveralRows | RelayRangeInvalid | NotDispatched string | SessionNotFound

subsection \<open>Authorization\<close>

definition authorization_document :: "rules_of_engagement \<Rightarrow> authorization_document" where
  "authorization_document r =
     \<lparr>ad_allowed_actions = sort (roe_allowed_actions r), ad_allowed_hours = roe_allowed_hours r,
      ad_authorization_document_sha256 = roe_authorization_document_sha256 r,
      ad_authorization_owner = roe_authorization_owner r,
      ad_authorization_reference = roe_authorization_reference r,
      ad_authorization_source = roe_authorization_source r,
      ad_authorized_asset_ids = sort (roe_authorized_asset_ids r),
      ad_authorized_cidrs = sort (roe_authorized_cidrs r),
      ad_authorized_modules = sort (roe_authorized_modules r),
      ad_approved_by = map_option uuid_str (roe_approved_by r),
      ad_business_contact = roe_business_contact r, ad_cleanup_required = roe_cleanup_required r,
      ad_created_by = map_option uuid_str (roe_created_by r),
      ad_data_retention_days = roe_data_retention_days r,
      ad_effective_from = roe_effective_from r, ad_effective_until = roe_effective_until r,
      ad_emergency_contact = roe_emergency_contact r, ad_evidence_policy = roe_evidence_policy r,
      ad_name = roe_name r, ad_organization_id = uuid_str (roe_organization_id r),
      ad_prohibited_actions = sort (roe_prohibited_actions r),
      ad_rules_of_engagement_id = uuid_str (roe_id r), ad_session_policy = roe_session_policy r,
      ad_version = roe_version r\<rparr>"

text \<open>\<open>ipaddress.ip_address(text)\<close>: the version and the address; membership ignores a scope identifier.\<close>

definition ip_address_parse :: "string \<Rightarrow> (bool \<times> nat) option" where
  "ip_address_parse s =
     (if CHR ''/'' \<in> set s then None
      else case ipv4_parse s of
        Some a \<Rightarrow> Some (False, a)
      | None \<Rightarrow>
          (case split_scope s of
             None \<Rightarrow> None
           | Some (a, _) \<Rightarrow> map_option (Pair True) (ipv6_parse a)))"

definition address_in :: "bool \<times> nat \<Rightarrow> ip_network \<Rightarrow> bool" where
  "address_in a n \<longleftrightarrow> fst a = ip_v6 n \<and> ip_in (snd a) n"

text \<open>\<open>any(address in ip_network(cidr) for cidr in ranges)\<close>; \<open>None\<close> when a range it reaches is malformed.\<close>

fun any_contains :: "bool \<times> nat \<Rightarrow> string list \<Rightarrow> bool option" where
  "any_contains a [] = Some False"
| "any_contains a (c # cs) =
     (case ip_network_parse c of
        None \<Rightarrow> None
      | Some n \<Rightarrow> if address_in a n then Some True else any_contains a cs)"

definition target_granted :: "rules_of_engagement \<Rightarrow> string option \<Rightarrow> bool" where
  "target_granted r target =
     (case target of
        None \<Rightarrow> False
      | Some t \<Rightarrow>
          (case ip_address_parse t of
             None \<Rightarrow> False
           | Some a \<Rightarrow> any_contains a (roe_authorized_cidrs r) = Some True))"

definition asset_granted :: "rules_of_engagement \<Rightarrow> finding \<Rightarrow> bool" where
  "asset_granted r f \<longleftrightarrow>
     (case fi_asset_id f of None \<Rightarrow> False | Some a \<Rightarrow> uuid_str a \<in> set (roe_authorized_asset_ids r))"

definition roe_authorization_denial ::
  "pentest_env \<Rightarrow> rules_of_engagement \<Rightarrow> finding \<Rightarrow> string option \<Rightarrow> string \<Rightarrow> time \<Rightarrow> roe_denial option" where
  "roe_authorization_denial env r f target path now =
     (if roe_approved_by r = None then Some RoeNotApproved
      else if pe_digest env (authorization_document r) \<noteq> roe_policy_digest r then Some DigestInvalid
      else if \<not> (roe_effective_from r \<le> now \<and> now \<le> roe_effective_until r)
      then Some OutsideEffectiveWindow
      else if path \<notin> set (roe_authorized_modules r) then Some ModuleNotGranted
      else if \<not> asset_granted r f \<and> \<not> target_granted r target then Some TargetNotGranted
      else None)"

subsection \<open>Requesting a session\<close>

definition resolve_finding_target :: "finding \<Rightarrow> 'a job_db_scheme \<Rightarrow> string option" where
  "resolve_finding_target f db =
     (case fi_asset_id f of
        None \<Rightarrow> None
      | Some a \<Rightarrow>
          (case sort_key ai_created_at (filter (\<lambda>x. ai_asset_id x = a \<and>
                  ai_type x = IdentifierType.IP_ADDRESS) (identifiers db)) of
             [] \<Rightarrow> None
           | x # _ \<Rightarrow> Some (ai_value x)))"

definition roe_of :: "uuid \<Rightarrow> 'a pentest_db_scheme \<Rightarrow> rules_of_engagement option" where
  "roe_of i db = find (\<lambda>r. roe_id r = i) (roes db)"

definition finding_of :: "uuid \<Rightarrow> 'a pentest_db_scheme \<Rightarrow> finding option" where
  "finding_of i db = find (\<lambda>f. fi_id f = i) (findings db)"

definition session_of :: "uuid \<Rightarrow> 'a pentest_db_scheme \<Rightarrow> pentest_session option" where
  "session_of i db = find (\<lambda>s. ps_id s = i) (sessions db)"

definition new_snapshot ::
  "rules_of_engagement \<Rightarrow> finding \<Rightarrow> string \<Rightarrow> string option \<Rightarrow> session_snapshot" where
  "new_snapshot r f path target =
     \<lparr>sn_document = Some (authorization_document r), sn_policy_digest = Some (roe_policy_digest r),
      sn_module = Some path, sn_target = target, sn_finding_id = Some (uuid_str (fi_id f)),
      sn_asset_id = map_option uuid_str (fi_asset_id f), sn_network_id = None, sn_probe_id = None,
      sn_relay_id = None, sn_scan_job_id = None, sn_scan_job_attempt_id = None,
      sn_fencing_token = None\<rparr>"

definition new_session ::
  "uuid \<Rightarrow> rules_of_engagement \<Rightarrow> finding \<Rightarrow> module_policy \<Rightarrow> string \<Rightarrow> string option
     \<Rightarrow> (string \<times> json) list \<Rightarrow> string option \<Rightarrow> uuid option \<Rightarrow> time \<Rightarrow> pentest_session" where
  "new_session fresh r f policy path payload options target requested_by now =
     \<lparr>ps_id = fresh, ps_organization_id = fi_organization_id f, ps_finding_id = fi_id f,
      ps_roe_id = Some (roe_id r), ps_module = path, ps_payload = payload, ps_options = options,
      ps_target = target, ps_status = PentestSessionStatus.PENDING_APPROVAL,
      ps_max_session_seconds = mp_max_session_seconds policy, ps_requested_by = requested_by,
      ps_approved_by = None, ps_approved_at = None, ps_started_at = None, ps_expires_at = None,
      ps_ended_at = None, ps_cleanup_required = mp_cleanup_required policy,
      ps_cleanup_completed = False, ps_cleanup_verified = None, ps_cleanup_records = [],
      ps_evidence = [], ps_outcome = None, ps_scan_job_id = None, ps_dispatch_error = None,
      ps_snapshot = new_snapshot r f path target, ps_authorized_network_id = None,
      ps_authorized_probe_id = None, ps_authorized_relay_id = None, ps_scan_job_attempt_id = None,
      ps_created_at = now\<rparr>"

definition create_session ::
  "pentest_env \<Rightarrow> finding \<Rightarrow> string \<Rightarrow> string option \<Rightarrow> (string \<times> json) list \<Rightarrow> uuid option
     \<Rightarrow> uuid option \<Rightarrow> time \<Rightarrow> 'a pentest_db_scheme
     \<Rightarrow> session_error + ('a pentest_db_scheme \<times> pentest_session)" where
  "create_session env f path payload options requested_by roe now db =
     (case roe of
        None \<Rightarrow> Inl AuthorizationRequired
      | Some i \<Rightarrow>
          (case roe_of i db of
             None \<Rightarrow> Inl AuthorizationNotFound
           | Some r \<Rightarrow>
               if roe_organization_id r \<noteq> fi_organization_id f then Inl AuthorizationNotFound
               else
               let allow = exploitation_permitted (roe_allowed_actions r) (roe_prohibited_actions r)
                             (roe_approved_by r \<noteq> None) in
               (case validate_module_allowed path payload options allow of
                  Inl e \<Rightarrow> Inl (PolicyError e)
                | Inr policy \<Rightarrow>
                    let target = resolve_finding_target f db in
                    (case roe_authorization_denial env r f target path now of
                       Some d \<Rightarrow> Inl (Denied d)
                     | None \<Rightarrow>
                         let ps = new_session (pe_fresh env) r f policy path payload options target
                                    requested_by now
                         in Inr (db\<lparr>sessions := sessions db @ [ps]\<rparr>, ps)))))"

subsection \<open>Approval\<close>

definition ACTIVE_SESSION :: "PentestSessionStatus list" where
  "ACTIVE_SESSION = [PentestSessionStatus.APPROVED, PentestSessionStatus.RUNNING]"

definition active_sessions :: "uuid \<Rightarrow> 'a pentest_db_scheme \<Rightarrow> pentest_session list" where
  "active_sessions roe db =
     filter (\<lambda>s. ps_roe_id s = Some roe \<and> ps_scan_job_id s \<noteq> None \<and>
        ps_status s \<in> set ACTIVE_SESSION) (sessions db)"

definition check_roe_gate ::
  "pentest_env \<Rightarrow> pentest_session \<Rightarrow> time \<Rightarrow> 'a pentest_db_scheme
     \<Rightarrow> session_error + roe_denial option" where
  "check_roe_gate env ps now db =
     (case ps_roe_id ps of
        None \<Rightarrow> Inr None
      | Some i \<Rightarrow>
          (case roe_of i db of
             None \<Rightarrow> Inr (Some RoeGone)
           | Some r \<Rightarrow>
               (case finding_of (ps_finding_id ps) db of
                  None \<Rightarrow> Inr (Some FindingGone)
                | Some f \<Rightarrow>
                    (case roe_authorization_denial env r f (ps_target ps) (ps_module ps) now of
                       Some d \<Rightarrow> Inr (Some d)
                     | None \<Rightarrow>
                         if sn_policy_digest (ps_snapshot ps) \<noteq> Some (roe_policy_digest r)
                         then Inr (Some SnapshotMismatch)
                         else case within_allowed_hours (pe_tz env) (roe_allowed_hours r) now of
                           Inl e \<Rightarrow> Inl (RoeInvalid e)
                         | Inr v \<Rightarrow>
                             if v \<noteq> InWindow then Inr (Some (WindowForbids v))
                             else (case max_concurrent_sessions (roe_session_policy r) of
                               None \<Rightarrow> Inr None
                             | Some limit \<Rightarrow>
                                 if int (length (filter (\<lambda>s. ps_id s \<noteq> ps_id ps) (active_sessions i db)))
                                      \<ge> limit
                                 then Inr (Some (ConcurrencyLimit limit)) else Inr None)))))"

definition decide_session ::
  "bool \<Rightarrow> uuid option \<Rightarrow> time \<Rightarrow> pentest_session \<Rightarrow> session_error + pentest_session" where
  "decide_session approve approved_by now ps =
     (if ps_status ps \<noteq> PentestSessionStatus.PENDING_APPROVAL
      then Inl (NotPendingApproval (ps_status ps))
      else if approve \<and> ps_requested_by ps \<noteq> None \<and> ps_requested_by ps = approved_by
      then Inl SelfApproval
      else
        let ps = ps\<lparr>ps_approved_by := approved_by, ps_approved_at := Some now\<rparr>
        in Inr (if approve
                then ps\<lparr>ps_status := PentestSessionStatus.APPROVED, ps_started_at := Some now,
                        ps_expires_at := Some (now + seconds (ps_max_session_seconds ps))\<rparr>
                else ps\<lparr>ps_status := PentestSessionStatus.REJECTED, ps_ended_at := Some now\<rparr>))"

subsection \<open>Dispatch\<close>

text \<open>The networks in table order; a malformed range is skipped.\<close>

definition network_reaches :: "bool \<times> nat \<Rightarrow> string \<Rightarrow> bool" where
  "network_reaches a cidr =
     (case ip_network_parse cidr of None \<Rightarrow> False | Some n \<Rightarrow> address_in a n)"

fun first_scout :: "bool \<times> nat \<Rightarrow> network list \<Rightarrow> 'a job_db_scheme \<Rightarrow> (probe \<times> network) option" where
  "first_scout a [] db = None"
| "first_scout a (n # ns) db =
     (case select_network_scout (nw_id n) db of
        None \<Rightarrow> first_scout a ns db
      | Some p \<Rightarrow>
          if list_ex (network_reaches a) (network_cidrs (nw_id n) db) then Some (p, n)
          else first_scout a ns db)"

definition scout_for_target ::
  "uuid \<Rightarrow> string \<Rightarrow> 'a job_db_scheme \<Rightarrow> (probe \<times> network) option" where
  "scout_for_target org target db =
     (case ip_address_parse target of
        None \<Rightarrow> None
      | Some a \<Rightarrow>
          first_scout a (filter (\<lambda>n. nw_organization_id n = org \<and> nw_enabled n) (networks db)) db)"

text \<open>A malformed range of a relay raises.\<close>

fun first_relay :: "bool \<times> nat \<Rightarrow> relay list \<Rightarrow> session_error + relay option" where
  "first_relay a [] = Inr None"
| "first_relay a (r # rs) =
     (case (any_contains a (rl_approved_cidrs r), any_contains a (rl_denied_cidrs r)) of
        (Some approved, Some denied) \<Rightarrow> if approved \<and> \<not> denied then Inr (Some r) else first_relay a rs
      | _ \<Rightarrow> Inl RelayRangeInvalid)"

definition relay_for_target ::
  "uuid \<Rightarrow> uuid \<Rightarrow> string \<Rightarrow> 'a job_db_scheme \<Rightarrow> session_error + relay option" where
  "relay_for_target org site target db =
     (case ip_address_parse target of
        None \<Rightarrow> Inl RelayRangeInvalid
      | Some a \<Rightarrow>
          first_relay a (filter (\<lambda>r. rl_organization_id r = org \<and> rl_site_id r = site \<and>
            rl_status r = RelayStatus.ENROLLED) (relays db)))"

text \<open>Python's \<open>x or y\<close> on optional strings: the empty string counts as absent.\<close>

definition nonempty :: "string option \<Rightarrow> string option" where
  "nonempty s = (case s of None \<Rightarrow> None | Some t \<Rightarrow> if t = [] then None else Some t)"

definition session_request :: "pentest_session \<Rightarrow> string \<Rightarrow> time \<Rightarrow> uuid \<Rightarrow> pentest_request" where
  "session_request ps target end' net =
     \<lparr>pq_target = target, pq_module = ps_module ps, pq_payload = ps_payload ps,
      pq_options = ps_options ps, pq_max_session_seconds = ps_max_session_seconds ps,
      pq_expires_at = end', pq_created_by = ps_approved_by ps, pq_network_id = Some net\<rparr>"

definition dispatched ::
  "pentest_session \<Rightarrow> scan_job \<Rightarrow> network \<Rightarrow> probe \<Rightarrow> relay option \<Rightarrow> pentest_session" where
  "dispatched ps j n p r =
     ps\<lparr>ps_dispatch_error := None, ps_scan_job_id := Some (sj_id j),
        ps_authorized_network_id := Some (nw_id n), ps_authorized_probe_id := Some (pb_id p),
        ps_authorized_relay_id := map_option rl_id r,
        ps_snapshot := (ps_snapshot ps)
          \<lparr>sn_network_id := Some (uuid_str (nw_id n)), sn_probe_id := Some (uuid_str (pb_id p)),
           sn_relay_id := map_option (\<lambda>r. uuid_str (rl_id r)) r,
           sn_scan_job_id := Some (uuid_str (sj_id j))\<rparr>\<rparr>"

text \<open>The message of a failed job creation; \<open>create_pentest_job\<close> only raises \<open>JobValidationError\<close>.\<close>

definition job_message :: "job_error \<Rightarrow> string" where
  "job_message e = (case e of JobValidationError m \<Rightarrow> m | _ \<Rightarrow> [])"

definition dispatch_pentest_session ::
  "pentest_env \<Rightarrow> app_settings \<Rightarrow> pentest_session \<Rightarrow> 'a pentest_db_scheme
     \<Rightarrow> session_error + ('a pentest_db_scheme \<times> pentest_session \<times> scan_job option)" where
  "dispatch_pentest_session env cfg ps db =
     (let fail = (\<lambda>m. Inr (db, ps\<lparr>ps_dispatch_error := Some m\<rparr>, None))
      in case finding_of (ps_finding_id ps) db of
           None \<Rightarrow> fail ''Finding not found''
         | Some f \<Rightarrow>
             (case nonempty (or_opt (nonempty (ps_target ps)) (resolve_finding_target f db)) of
                None \<Rightarrow> fail ''The finding has no IP target to test''
              | Some target \<Rightarrow>
                  (case scout_for_target (ps_organization_id ps) target db of
                     None \<Rightarrow> fail (''No enrolled scout reaches this target'' @ [CHR 0x27] @ ''s network'')
                   | Some (p, n) \<Rightarrow>
                       let end' = or_else (ps_expires_at ps)
                                    (je_now (pe_jobs env) + seconds (ps_max_session_seconds ps)) in
                       (case create_pentest_job (pe_jobs env) cfg p
                               (session_request ps target end' (nw_id n)) db of
                          Inl e \<Rightarrow> fail (''Could not dispatch: '' @ job_message e)
                        | Inr (db1, j) \<Rightarrow>
                            res_bind (relay_for_target (ps_organization_id ps) (nw_site_id n) target db1)
                              (\<lambda>r. Inr (db1, dispatched ps j n p r, Some j))))))"

subsection \<open>Storing evidence\<close>

definition HOLD_SCAN_JOB :: string where
  "HOLD_SCAN_JOB = ''scan_job''"

definition job_under_legal_hold :: "uuid \<Rightarrow> 'a pentest_db_scheme \<Rightarrow> bool" where
  "job_under_legal_hold j db \<longleftrightarrow>
     (\<exists>h \<in> set (holds db). rh_target_type h = HOLD_SCAN_JOB \<and> rh_target_id h = j)"

definition purge_job_artifacts :: "uuid option \<Rightarrow> 'a pentest_db_scheme \<Rightarrow> 'a pentest_db_scheme" where
  "purge_job_artifacts job db =
     (case job of
        None \<Rightarrow> db
      | Some j \<Rightarrow> db\<lparr>artifacts := filter (\<lambda>a. sa_scan_job_id a \<noteq> j) (artifacts db)\<rparr>)"

definition retention_deadline_passed ::
  "rules_of_engagement option \<Rightarrow> pentest_session \<Rightarrow> time \<Rightarrow> bool" where
  "retention_deadline_passed roe ps now =
     (case (roe, ps_ended_at ps) of
        (Some r, Some ended) \<Rightarrow>
          (case retention_days (roe_data_retention_days r) of
             None \<Rightarrow> False
           | Some d \<Rightarrow> ended < now - days d)
      | _ \<Rightarrow> False)"

definition minimized :: "(string \<times> json) list \<Rightarrow> (string \<times> json) list" where
  "minimized raw = (case minimize_evidence (JObj raw) of JObj kvs \<Rightarrow> kvs | _ \<Rightarrow> [])"

definition session_roe :: "pentest_session \<Rightarrow> 'a pentest_db_scheme \<Rightarrow> rules_of_engagement option" where
  "session_roe ps db = (case ps_roe_id ps of None \<Rightarrow> None | Some i \<Rightarrow> roe_of i db)"

definition session_held :: "pentest_session \<Rightarrow> 'a pentest_db_scheme \<Rightarrow> bool" where
  "session_held ps db =
     (case ps_scan_job_id ps of None \<Rightarrow> False | Some j \<Rightarrow> job_under_legal_hold j db)"

definition store_session_evidence ::
  "time \<Rightarrow> pentest_session \<Rightarrow> (string \<times> json) list \<Rightarrow> 'a pentest_db_scheme
     \<Rightarrow> 'a pentest_db_scheme \<times> pentest_session" where
  "store_session_evidence now ps raw db =
     (if session_held ps db
      then (db, if minimized raw \<noteq> [] then ps\<lparr>ps_evidence := minimized raw\<rparr> else ps)
      else let roe = session_roe ps db
      in if retention_deadline_passed roe ps now
         then (purge_job_artifacts (ps_scan_job_id ps) db, ps\<lparr>ps_evidence := []\<rparr>)
         else if (case roe of None \<Rightarrow> False | Some r \<Rightarrow> \<not> retains_evidence (roe_evidence_policy r))
         then (purge_job_artifacts (ps_scan_job_id ps) db, ps\<lparr>ps_evidence := []\<rparr>)
         else (db, ps\<lparr>ps_evidence := minimized raw\<rparr>))"

subsection \<open>Closing a session\<close>

definition record_cleanup ::
  "time \<Rightarrow> json list \<Rightarrow> string option \<Rightarrow> (string \<times> json) list option \<Rightarrow> time \<Rightarrow> pentest_session
     \<Rightarrow> 'a pentest_db_scheme \<Rightarrow> 'a pentest_db_scheme \<times> pentest_session" where
  "record_cleanup clock records outcome evidence now ps db =
     (let ps = ps\<lparr>ps_cleanup_records := map OperatorRecord records, ps_cleanup_completed := True\<rparr>;
          (db, ps) = (case evidence of None \<Rightarrow> (db, ps) | Some e \<Rightarrow> store_session_evidence clock ps e db);
          ps = (case outcome of None \<Rightarrow> ps | Some t \<Rightarrow> ps\<lparr>ps_outcome := Some t\<rparr>)
      in (db, if ps_status ps \<notin> {PentestSessionStatus.REJECTED, PentestSessionStatus.EXPIRED}
              then ps\<lparr>ps_status := PentestSessionStatus.CLEANED,
                      ps_ended_at := Some (or_else (ps_ended_at ps) now)\<rparr>
              else ps))"

definition session_for_job :: "uuid \<Rightarrow> 'a pentest_db_scheme \<Rightarrow> pentest_session option option" where
  "session_for_job j db = one_or_none (filter (\<lambda>s. ps_scan_job_id s = Some j) (sessions db))"

definition put_session :: "pentest_session \<Rightarrow> 'a pentest_db_scheme \<Rightarrow> 'a pentest_db_scheme" where
  "put_session ps db =
     db\<lparr>sessions := update_where (\<lambda>s. ps_id s = ps_id ps) (\<lambda>_. ps) (sessions db)\<rparr>"

definition reconcile_late_result :: "time \<Rightarrow> pentest_session \<Rightarrow> pentest_session" where
  "reconcile_late_result now ps =
     (if ps_cleanup_verified ps = Some True \<and> ps_cleanup_required ps \<and>
         ps_status ps = PentestSessionStatus.CLEANUP_PENDING
      then ps\<lparr>ps_cleanup_completed := True,
              ps_cleanup_records := ps_cleanup_records ps @
                [ServerRecord ''teardown verified by late scout result'' now],
              ps_status := PentestSessionStatus.CLEANED,
              ps_ended_at := Some (or_else (ps_ended_at ps) now)\<rparr>
      else ps)"

definition record_pentest_result ::
  "time \<Rightarrow> uuid \<Rightarrow> (string \<times> json) list \<Rightarrow> 'a pentest_db_scheme
     \<Rightarrow> session_error + 'a pentest_db_scheme" where
  "record_pentest_result now job output db =
     (case session_for_job job db of
        None \<Rightarrow> Inl SeveralRows
      | Some None \<Rightarrow> Inr db
      | Some (Some ps) \<Rightarrow>
          let raw = (case map_of output ''evidence'' of Some (JObj kvs) \<Rightarrow> kvs | _ \<Rightarrow> []);
              (db1, ps1) = store_session_evidence now ps raw db;
              verified = (map_of output ''cleanup_verified'' = Some (JBool True))
          in Inr (put_session (reconcile_late_result now (ps1\<lparr>ps_cleanup_verified := Some verified\<rparr>)) db1))"

definition RAN_AND_TORN_DOWN :: "JobStatus list" where
  "RAN_AND_TORN_DOWN = [JobStatus.COMPLETED, JobStatus.FAILED, JobStatus.CANCELLED]"

definition never_ran :: "scan_job \<Rightarrow> JobStatus \<Rightarrow> bool" where
  "never_ran j status \<longleftrightarrow> status = JobStatus.REJECTED_BY_PROBE \<or>
     status = JobStatus.FAILED \<and> or_else (sj_error_code j) [] = ''no_stages_ran''"

definition add_record :: "string \<Rightarrow> time \<Rightarrow> pentest_session \<Rightarrow> pentest_session" where
  "add_record action now ps =
     ps\<lparr>ps_cleanup_records := ps_cleanup_records ps @ [ServerRecord action now]\<rparr>"

text \<open>
  The outcome and final status of a session whose job finished.  (The source writes a dash where the
  record says \<open>-\<close>.)
\<close>

definition close_session :: "scan_job \<Rightarrow> JobStatus \<Rightarrow> time \<Rightarrow> pentest_session \<Rightarrow> pentest_session" where
  "close_session j status now ps =
     (if never_ran j status
      then let ps = ps\<lparr>ps_outcome := Some (''did not run: '' @
                  or_else (or_opt (nonempty (sj_error_message j)) (nonempty (sj_error_code j)))
                    ''unspecified''),
                  ps_status := PentestSessionStatus.TERMINATED\<rparr>
           in if ps_cleanup_required ps
              then add_record ''no session opened (job did not run)'' now
                     (ps\<lparr>ps_cleanup_completed := True\<rparr>)
              else ps
      else
        let ps = ps\<lparr>ps_outcome := Some (if status = JobStatus.COMPLETED then ''completed''
                   else or_else (nonempty (sj_error_message j)) (''job '' @ job_status_value status))\<rparr>
        in if status \<in> set RAN_AND_TORN_DOWN
           then if ps_cleanup_required ps \<and> ps_cleanup_verified ps = Some True
                then add_record ''automated session teardown verified by scout'' now
                       (ps\<lparr>ps_cleanup_completed := True\<rparr>)\<lparr>ps_status := PentestSessionStatus.CLEANED\<rparr>
                else if ps_cleanup_required ps
                then add_record (''teardown NOT verified by scout '' @
                         ''- manual verification required'') now
                       (ps\<lparr>ps_cleanup_completed := False\<rparr>)
                         \<lparr>ps_status := PentestSessionStatus.CLEANUP_PENDING\<rparr>
                else ps\<lparr>ps_status := PentestSessionStatus.COMPLETED\<rparr>
           else if ps_cleanup_required ps \<and> \<not> ps_cleanup_completed ps
           then ps\<lparr>ps_status := PentestSessionStatus.CLEANUP_PENDING\<rparr>
           else ps\<lparr>ps_status := PentestSessionStatus.COMPLETED\<rparr>)"

definition complete_session_for_job ::
  "time \<Rightarrow> scan_job \<Rightarrow> JobStatus \<Rightarrow> json option \<Rightarrow> time \<Rightarrow> 'a pentest_db_scheme
     \<Rightarrow> session_error + 'a pentest_db_scheme" where
  "complete_session_for_job clock j status evidence now db =
     (case session_for_job (sj_id j) db of
        None \<Rightarrow> Inl SeveralRows
      | Some None \<Rightarrow> Inr db
      | Some (Some ps) \<Rightarrow>
          if ps_status ps \<notin> set ACTIVE_SESSION then Inr db
          else
            let (db1, ps1) =
                  (if ps_evidence ps = []
                   then store_session_evidence clock ps
                          (case evidence of Some (JObj kvs) \<Rightarrow> kvs | _ \<Rightarrow> []) db
                   else (db, ps))
            in Inr (put_session (close_session j status now (ps1\<lparr>ps_ended_at := Some now\<rparr>)) db1))"

subsection \<open>Time limits and retention\<close>

definition PENDING_EXPIRY :: time where
  "PENDING_EXPIRY = hours 24"

definition in_organization :: "uuid option \<Rightarrow> pentest_session \<Rightarrow> bool" where
  "in_organization org ps \<longleftrightarrow> (case org of None \<Rightarrow> True | Some i \<Rightarrow> ps_organization_id ps = i)"

definition timed_out :: "time \<Rightarrow> uuid option \<Rightarrow> pentest_session \<Rightarrow> bool" where
  "timed_out now org ps \<longleftrightarrow> ps_status ps \<in> set ACTIVE_SESSION \<and> in_organization org ps \<and>
     (case ps_expires_at ps of None \<Rightarrow> False | Some t \<Rightarrow> t < now)"

definition stale_request :: "time \<Rightarrow> uuid option \<Rightarrow> pentest_session \<Rightarrow> bool" where
  "stale_request now org ps \<longleftrightarrow> ps_status ps = PentestSessionStatus.PENDING_APPROVAL \<and>
     in_organization org ps \<and> ps_created_at ps < now - PENDING_EXPIRY"

definition terminate_row :: "time \<Rightarrow> pentest_session \<Rightarrow> pentest_session" where
  "terminate_row now ps =
     ps\<lparr>ps_ended_at := Some now,
        ps_status := (if ps_cleanup_required ps \<and> \<not> ps_cleanup_completed ps
                      then PentestSessionStatus.CLEANUP_PENDING else PentestSessionStatus.TERMINATED)\<rparr>"

definition expire_row :: "time \<Rightarrow> pentest_session \<Rightarrow> pentest_session" where
  "expire_row now ps = ps\<lparr>ps_status := PentestSessionStatus.EXPIRED, ps_ended_at := Some now\<rparr>"

definition terminate_expired_sessions ::
  "time \<Rightarrow> uuid option \<Rightarrow> 'a pentest_db_scheme \<Rightarrow> 'a pentest_db_scheme \<times> nat" where
  "terminate_expired_sessions now org db =
     (let ss = sessions db;
          terminated = update_where (timed_out now org) (terminate_row now) ss;
          stale = filter (stale_request now org) terminated
      in (db\<lparr>sessions := update_where (stale_request now org) (expire_row now) terminated\<rparr>,
          length (filter (timed_out now org) ss) + length stale))"

text \<open>A row of the join with its Rules of Engagement, past its retention window and not held.\<close>

definition evidence_due :: "time \<Rightarrow> uuid option \<Rightarrow> 'a pentest_db_scheme \<Rightarrow> pentest_session \<Rightarrow> bool" where
  "evidence_due now org db ps \<longleftrightarrow> ps_ended_at ps \<noteq> None \<and> in_organization org ps \<and>
     retention_deadline_passed (session_roe ps db) ps now \<and> \<not> session_held ps db"

definition purge_expired_evidence ::
  "time \<Rightarrow> uuid option \<Rightarrow> 'a pentest_db_scheme \<Rightarrow> 'a pentest_db_scheme \<times> nat" where
  "purge_expired_evidence now org db =
     (let due = evidence_due now org db;
          gone = List.map_filter ps_scan_job_id (filter due (sessions db))
      in (db\<lparr>sessions := update_where due (\<lambda>ps. ps\<lparr>ps_evidence := []\<rparr>) (sessions db),
             artifacts := filter (\<lambda>a. sa_scan_job_id a \<notin> set gone) (artifacts db)\<rparr>,
          length (filter (\<lambda>ps. due ps \<and> ps_evidence ps \<noteq> []) (sessions db))))"

text \<open>
  Open high and critical findings that were never validated, critical ones first and then the latest
  seen; a missing date sorts first, as PostgreSQL sorts it in descending order.
\<close>

definition candidate_key :: "finding \<Rightarrow> nat \<times> nat \<times> int" where
  "candidate_key f =
     (if fi_severity f = Severity.CRITICAL then 0 else 1,
      case fi_last_seen_at f of None \<Rightarrow> (0, 0) | Some t \<Rightarrow> (1, - t))"

definition validation_candidates ::
  "uuid \<Rightarrow> nat \<Rightarrow> uuid list option \<Rightarrow> 'a pentest_db_scheme \<Rightarrow> finding list" where
  "validation_candidates org limit site_ids db =
     take limit (sort_key candidate_key (filter (\<lambda>f.
       fi_organization_id f = org \<and> fi_severity f \<in> {Severity.CRITICAL, Severity.HIGH} \<and>
       fi_validation_status f = ValidationStatus.UNVALIDATED \<and>
       fi_status f \<notin> {FindingStatus.RESOLVED, FindingStatus.FALSE_POSITIVE, FindingStatus.SUPPRESSED} \<and>
       (case site_ids of None \<Rightarrow> True | Some ids \<Rightarrow> fi_site_id f \<in> set ids)) (findings db)))"

subsection \<open>Handlers\<close>

text \<open>
  Approval and rejection, \<^verbatim>\<open>api/v1/pentest.py\<close>: the gate, the decision and the dispatch are one
  transaction, which any error rolls back.
\<close>

definition decide ::
  "pentest_env \<Rightarrow> app_settings \<Rightarrow> uuid \<Rightarrow> bool \<Rightarrow> uuid \<Rightarrow> time \<Rightarrow> 'a pentest_db_scheme
     \<Rightarrow> session_error + 'a pentest_db_scheme" where
  "decide env cfg i approve approver now db =
     (case session_of i db of
        None \<Rightarrow> Inl SessionNotFound
      | Some ps \<Rightarrow>
          res_bind (if approve then check_roe_gate env ps now db else Inr None) (\<lambda>denial.
          case denial of
            Some d \<Rightarrow> Inl (Denied d)
          | None \<Rightarrow>
              res_bind (decide_session approve (Some approver) now ps) (\<lambda>ps1.
              if \<not> approve then Inr (put_session ps1 db)
              else res_bind (dispatch_pentest_session env cfg ps1 db) (\<lambda>(db1, ps2, job).
                case job of
                  None \<Rightarrow> Inl (NotDispatched (or_else (nonempty (ps_dispatch_error ps2))
                                              ''no scout available''))
                | Some j \<Rightarrow> Inr (put_session ps2 db1)))))"

definition cleanup ::
  "time \<Rightarrow> uuid \<Rightarrow> json list \<Rightarrow> string option \<Rightarrow> (string \<times> json) list option \<Rightarrow> time
     \<Rightarrow> 'a pentest_db_scheme \<Rightarrow> session_error + 'a pentest_db_scheme" where
  "cleanup clock i records outcome evidence now db =
     (case session_of i db of
        None \<Rightarrow> Inl SessionNotFound
      | Some ps \<Rightarrow>
          (let (db1, ps1) = record_cleanup clock records outcome evidence now ps db
           in Inr (put_session ps1 db1)))"

subsection \<open>Row effects\<close>

text \<open>
  What an operation that neither requests nor approves a session may do to its row: it keeps the
  request and the approval, and never makes a session active.  The operations interpret this locale.
\<close>

locale session_row =
  fixes f :: "pentest_session \<Rightarrow> pentest_session"
  assumes id_kept: "ps_id (f s) = ps_id s"
    and request_kept: "ps_roe_id (f s) = ps_roe_id s" "ps_module (f s) = ps_module s"
      "ps_payload (f s) = ps_payload s" "ps_options (f s) = ps_options s"
      "ps_max_session_seconds (f s) = ps_max_session_seconds s"
      "ps_requested_by (f s) = ps_requested_by s" "ps_cleanup_required (f s) = ps_cleanup_required s"
    and approval_kept: "ps_approved_by (f s) = ps_approved_by s"
      "ps_approved_at (f s) = ps_approved_at s" "ps_expires_at (f s) = ps_expires_at s"
      "ps_scan_job_id (f s) = ps_scan_job_id s"
    and not_activated: "ps_status (f s) \<in> set ACTIVE_SESSION \<Longrightarrow> ps_status s \<in> set ACTIVE_SESSION"
    and not_reopened: "ps_status (f s) = PentestSessionStatus.PENDING_APPROVAL \<Longrightarrow>
      ps_status s = PentestSessionStatus.PENDING_APPROVAL"
    and not_cleaned_open: "ps_status (f s) \<in> set ACTIVE_SESSION \<or>
      ps_status (f s) = PentestSessionStatus.PENDING_APPROVAL \<Longrightarrow>
      ps_cleanup_completed (f s) = ps_cleanup_completed s"
begin

lemma ids: "map ps_id (update_where P f ss) = map ps_id ss"
  by (rule map_update_where) (rule id_kept)

lemma origin: "s' \<in> set (update_where P f ss) \<Longrightarrow> \<exists>s \<in> set ss. s' = s \<or> s' = f s"
  by (auto simp: update_where_def split: if_split_asm)

lemma active_le:
  "length (filter (\<lambda>s. ps_roe_id s = r \<and> ps_scan_job_id s \<noteq> None \<and> ps_status s \<in> set ACTIVE_SESSION)
      (update_where P f ss)) \<le>
   length (filter (\<lambda>s. ps_roe_id s = r \<and> ps_scan_job_id s \<noteq> None \<and> ps_status s \<in> set ACTIVE_SESSION) ss)"
  by (induction ss) (auto simp: request_kept approval_kept dest: not_activated)

end

lemma put_session_row:
  assumes "distinct (map ps_id (sessions db))" and "s \<in> set (sessions db)" and "ps_id (f s) = ps_id s"
  shows "sessions (put_session (f s) db) = update_where (\<lambda>x. ps_id x = ps_id s) f (sessions db)"
proof -
  have "x = s" if "x \<in> set (sessions db)" "ps_id x = ps_id s" for x
    using that assms(1,2) by (auto simp: distinct_map dest: inj_onD)
  then show ?thesis using assms(3) by (auto simp: put_session_def update_where_def)
qed

definition evidence_row :: "(string \<times> json) list \<Rightarrow> pentest_session \<Rightarrow> pentest_session" where
  "evidence_row e ps = ps\<lparr>ps_evidence := e\<rparr>"

definition cleanup_row ::
  "json list \<Rightarrow> string option \<Rightarrow> (string \<times> json) list option \<Rightarrow> time \<Rightarrow> pentest_session \<Rightarrow> pentest_session" where
  "cleanup_row records outcome e now ps =
     (let ps = ps\<lparr>ps_cleanup_records := map OperatorRecord records, ps_cleanup_completed := True\<rparr>;
          ps = (case e of None \<Rightarrow> ps | Some e \<Rightarrow> evidence_row e ps);
          ps = (case outcome of None \<Rightarrow> ps | Some t \<Rightarrow> ps\<lparr>ps_outcome := Some t\<rparr>)
      in if ps_status ps \<notin> {PentestSessionStatus.REJECTED, PentestSessionStatus.EXPIRED}
         then ps\<lparr>ps_status := PentestSessionStatus.CLEANED,
                 ps_ended_at := Some (or_else (ps_ended_at ps) now)\<rparr>
         else ps)"

definition result_row :: "(string \<times> json) list \<Rightarrow> bool \<Rightarrow> time \<Rightarrow> pentest_session \<Rightarrow> pentest_session" where
  "result_row e verified now ps =
     reconcile_late_result now ((evidence_row e ps)\<lparr>ps_cleanup_verified := Some verified\<rparr>)"

definition finish_row ::
  "(string \<times> json) list \<Rightarrow> scan_job \<Rightarrow> JobStatus \<Rightarrow> time \<Rightarrow> pentest_session \<Rightarrow> pentest_session" where
  "finish_row e j status now ps = close_session j status now ((evidence_row e ps)\<lparr>ps_ended_at := Some now\<rparr>)"

named_theorems session_row_defs
lemmas [session_row_defs] = evidence_row_def cleanup_row_def result_row_def finish_row_def
  reconcile_late_result_def terminate_row_def expire_row_def ACTIVE_SESSION_def

interpretation evidence: session_row "evidence_row e" for e
  by unfold_locales (simp_all add: session_row_defs)

interpretation cleanup_row: session_row "cleanup_row records outcome e now" for records outcome e now
  by unfold_locales (auto simp: session_row_defs Let_def split: option.splits if_splits)

interpretation result: session_row "result_row e verified now" for e verified now
  by unfold_locales (auto simp: session_row_defs split: if_splits)

lemma close_session_status:
  "ps_status (close_session j status now ps) \<in>
     {PentestSessionStatus.TERMINATED, PentestSessionStatus.CLEANED,
      PentestSessionStatus.CLEANUP_PENDING, PentestSessionStatus.COMPLETED}"
  by (simp add: close_session_def Let_def add_record_def)

interpretation finish: session_row "finish_row e j status now" for e j status now
proof unfold_locales
  fix s
  have st: "ps_status (finish_row e j status now s) \<in>
     {PentestSessionStatus.TERMINATED, PentestSessionStatus.CLEANED,
      PentestSessionStatus.CLEANUP_PENDING, PentestSessionStatus.COMPLETED}"
    unfolding finish_row_def by (rule close_session_status)
  then show "ps_status (finish_row e j status now s) \<in> set ACTIVE_SESSION \<Longrightarrow> ps_status s \<in> set ACTIVE_SESSION"
    "ps_status (finish_row e j status now s) = PentestSessionStatus.PENDING_APPROVAL \<Longrightarrow>
      ps_status s = PentestSessionStatus.PENDING_APPROVAL"
    "ps_status (finish_row e j status now s) \<in> set ACTIVE_SESSION \<or>
      ps_status (finish_row e j status now s) = PentestSessionStatus.PENDING_APPROVAL \<Longrightarrow>
      ps_cleanup_completed (finish_row e j status now s) = ps_cleanup_completed s"
    by (auto simp: ACTIVE_SESSION_def)
qed (simp_all add: finish_row_def evidence_row_def close_session_def Let_def add_record_def)

interpretation terminate: session_row "terminate_row now" for now
  by unfold_locales (auto simp: session_row_defs split: if_splits)

interpretation expire: session_row "expire_row now" for now
  by unfold_locales (auto simp: session_row_defs)

subsection \<open>Effects of the operations\<close>

lemma store_effect:
  assumes "store_session_evidence now ps raw db = (db1, ps1)"
  obtains e where "ps1 = evidence_row e ps" and "sessions db1 = sessions db" and "roes db1 = roes db"
    and "holds db1 = holds db"
    and "\<And>a. a \<in> set (artifacts db) \<Longrightarrow> job_under_legal_hold (sa_scan_job_id a) db \<Longrightarrow> a \<in> set (artifacts db1)"
    and "session_held ps db \<Longrightarrow> ps_evidence ps \<noteq> [] \<Longrightarrow> e \<noteq> []"
proof (cases "session_held ps db")
  case True
  then show ?thesis
    using assms that [of "if minimized raw \<noteq> [] then minimized raw else ps_evidence ps"]
    by (auto simp: store_session_evidence_def evidence_row_def)
next
  case False
  have kept: "a \<in> set (artifacts (purge_job_artifacts (ps_scan_job_id ps) db))"
    if "a \<in> set (artifacts db)" "job_under_legal_hold (sa_scan_job_id a) db" for a
    using that False by (auto simp: purge_job_artifacts_def session_held_def split: option.splits)
  have purged: "sessions (purge_job_artifacts (ps_scan_job_id ps) db) = sessions db"
    "roes (purge_job_artifacts (ps_scan_job_id ps) db) = roes db"
    "holds (purge_job_artifacts (ps_scan_job_id ps) db) = holds db"
    by (simp_all add: purge_job_artifacts_def split: option.splits)
  consider "db1 = db" "ps1 = evidence_row (minimized raw) ps"
    | "db1 = purge_job_artifacts (ps_scan_job_id ps) db" "ps1 = evidence_row [] ps"
    using assms False
    by (auto simp: store_session_evidence_def evidence_row_def Let_def split: if_splits)
  then show ?thesis
    by cases (auto intro: that simp: False purged kept)
qed

lemma session_for_job_in: "session_for_job j db = Some (Some ps) \<Longrightarrow> ps \<in> set (sessions db) \<and> ps_scan_job_id ps = Some j"
proof -
  assume "session_for_job j db = Some (Some ps)"
  then have "filter (\<lambda>s. ps_scan_job_id s = Some j) (sessions db) = [ps]"
    by (auto simp: session_for_job_def one_or_none_def split: list.splits)
  then have "ps \<in> set (filter (\<lambda>s. ps_scan_job_id s = Some j) (sessions db))" by simp
  then show ?thesis by simp
qed

text \<open>
  The effect of an operation on the sessions that is not a request or an approval: a session row
  operation on some of the rows, which loses no held artifact and empties no held evidence.
\<close>

definition unattended :: "'a pentest_db_scheme \<Rightarrow> 'b pentest_db_scheme \<Rightarrow> bool" where
  "unattended db db' \<longleftrightarrow> roes db' = roes db \<and>
     (\<exists>P f. session_row f \<and> sessions db' = update_where P f (sessions db) \<and>
        (\<forall>s \<in> set (sessions db). P s \<and> session_held s db \<and> ps_evidence s \<noteq> [] \<longrightarrow> ps_evidence (f s) \<noteq> [])) \<and>
     (\<forall>a \<in> set (artifacts db). job_under_legal_hold (sa_scan_job_id a) db \<longrightarrow> a \<in> set (artifacts db'))"

lemma unattended_put:
  assumes "session_row f" and "distinct (map ps_id (sessions db))" and "s \<in> set (sessions db)"
    and "sessions db1 = sessions db" and "roes db1 = roes db"
    and "session_held s db \<Longrightarrow> ps_evidence s \<noteq> [] \<Longrightarrow> ps_evidence (f s) \<noteq> []"
    and "\<And>a. a \<in> set (artifacts db) \<Longrightarrow> job_under_legal_hold (sa_scan_job_id a) db \<Longrightarrow> a \<in> set (artifacts db1)"
  shows "unattended db (put_session (f s) db1)"
proof -
  have only: "x = s" if "x \<in> set (sessions db)" "ps_id x = ps_id s" for x
    using that assms(2,3) by (auto simp: distinct_map dest: inj_onD)
  have "sessions (put_session (f s) db1) = update_where (\<lambda>x. ps_id x = ps_id s) f (sessions db)"
    using put_session_row [of db1 s f] assms(2-4) session_row.id_kept [OF assms(1)] by simp
  moreover have "roes (put_session (f s) db1) = roes db" "artifacts (put_session (f s) db1) = artifacts db1"
    using assms(5) by (simp_all add: put_session_def)
  ultimately show ?thesis
    unfolding unattended_def
    by (intro conjI exI [of _ "\<lambda>x. ps_id x = ps_id s"] exI [of _ f] assms(1) ballI impI)
      (use assms(6,7) only in auto)
qed

lemma cleanup_unattended:
  assumes "cleanup clock i records outcome evidence now db = Inr db'" and "distinct (map ps_id (sessions db))"
  shows "unattended db db'"
proof -
  obtain ps where ps: "session_of i db = Some ps"
    using assms(1) by (auto simp: cleanup_def split: option.splits)
  then have mem: "ps \<in> set (sessions db)" by (auto simp: session_of_def dest: find_SomeD)
  let ?ps = "ps\<lparr>ps_cleanup_records := map OperatorRecord records, ps_cleanup_completed := True\<rparr>"
  have held: "session_held ?ps db = session_held ps db" by (simp add: session_held_def)
  show ?thesis
  proof (cases evidence)
    case None
    then have "db' = put_session (cleanup_row records outcome None now ps) db"
      using assms(1) ps by (simp add: cleanup_def record_cleanup_def cleanup_row_def Let_def)
    moreover have "ps_evidence (cleanup_row records outcome None now ps) = ps_evidence ps"
      by (simp add: cleanup_row_def Let_def split: option.splits)
    ultimately show ?thesis
      by (simp only:) (rule unattended_put [OF cleanup_row.session_row_axioms assms(2) mem], simp_all)
  next
    case (Some raw)
    obtain db1 ps1 where st: "store_session_evidence clock ?ps raw db = (db1, ps1)" by force
    then obtain e where e: "ps1 = evidence_row e ?ps" "sessions db1 = sessions db" "roes db1 = roes db"
      "\<And>a. a \<in> set (artifacts db) \<Longrightarrow> job_under_legal_hold (sa_scan_job_id a) db \<Longrightarrow> a \<in> set (artifacts db1)"
      "session_held ps db \<Longrightarrow> ps_evidence ps \<noteq> [] \<Longrightarrow> e \<noteq> []"
      by (rule store_effect) (simp add: held)
    have "db' = put_session (cleanup_row records outcome (Some e) now ps) db1"
      using assms(1) ps Some st
      by (simp add: cleanup_def record_cleanup_def cleanup_row_def Let_def e(1))
    moreover have "ps_evidence (cleanup_row records outcome (Some e) now ps) = e"
      by (simp add: cleanup_row_def evidence_row_def Let_def split: option.splits)
    ultimately show ?thesis
      using unattended_put [OF cleanup_row.session_row_axioms assms(2) mem e(2,3) _ e(4)] e(5) by simp
  qed
qed

lemma result_unattended:
  assumes "record_pentest_result now job output db = Inr db'" and "distinct (map ps_id (sessions db))"
  shows "unattended db db'"
proof (cases "session_for_job job db")
  case None
  then show ?thesis using assms(1) by (simp add: record_pentest_result_def)
next
  case (Some found)
  show ?thesis
  proof (cases found)
    case None
    then have "db' = db" using assms(1) Some by (simp add: record_pentest_result_def)
    moreover have "update_where (\<lambda>_. False) f (sessions db) = sessions db" for f
      by (simp add: update_where_def)
    ultimately show ?thesis
      unfolding unattended_def using evidence.session_row_axioms by metis
  next
    case (Some ps)
    with \<open>session_for_job job db = Some found\<close> have found: "session_for_job job db = Some (Some ps)" by simp
    then have mem: "ps \<in> set (sessions db)" using session_for_job_in by blast
    obtain db1 ps1 where st: "store_session_evidence now ps
        (case map_of output ''evidence'' of Some (JObj kvs) \<Rightarrow> kvs | _ \<Rightarrow> []) db = (db1, ps1)" by force
    then obtain e where e: "ps1 = evidence_row e ps" "sessions db1 = sessions db" "roes db1 = roes db"
      "holds db1 = holds db"
      "\<And>a. a \<in> set (artifacts db) \<Longrightarrow> job_under_legal_hold (sa_scan_job_id a) db \<Longrightarrow> a \<in> set (artifacts db1)"
      "session_held ps db \<Longrightarrow> ps_evidence ps \<noteq> [] \<Longrightarrow> e \<noteq> []"
      by (rule store_effect) simp
    let ?verified = "map_of output ''cleanup_verified'' = Some (JBool True)"
    have "db' = put_session (result_row e ?verified now ps) db1"
      using assms(1) found st by (simp add: record_pentest_result_def result_row_def Let_def e(1))
    moreover have "ps_evidence (result_row e ?verified now ps) = e"
      by (simp add: session_row_defs)
    ultimately show ?thesis
      using unattended_put [OF result.session_row_axioms assms(2) mem e(2,3) _ e(5)] e(6) by simp
  qed
qed

lemma unattended_refl: "unattended db db"
proof -
  have "sessions db = update_where (\<lambda>_. False) (evidence_row []) (sessions db)"
    by (simp add: update_where_def)
  then show ?thesis
    unfolding unattended_def using evidence.session_row_axioms by blast
qed

lemma finish_unattended:
  assumes "complete_session_for_job clock j status evidence now db = Inr db'"
    and "distinct (map ps_id (sessions db))"
  shows "unattended db db'"
proof (cases "\<exists>ps. session_for_job (sj_id j) db = Some (Some ps) \<and> ps_status ps \<in> set ACTIVE_SESSION")
  case False
  then have "db' = db"
    using assms(1) by (auto simp: complete_session_for_job_def split: option.splits if_split_asm)
  then show ?thesis using unattended_refl by simp
next
  case True
  then obtain ps where found: "session_for_job (sj_id j) db = Some (Some ps)"
    and active: "ps_status ps \<in> set ACTIVE_SESSION" by blast
  then have mem: "ps \<in> set (sessions db)" using session_for_job_in by blast
  obtain db1 ps1 where st: "(if ps_evidence ps = [] then store_session_evidence clock ps
      (case evidence of Some (JObj kvs) \<Rightarrow> kvs | _ \<Rightarrow> []) db else (db, ps)) = (db1, ps1)" by force
  obtain e where e: "ps1 = evidence_row e ps" "sessions db1 = sessions db" "roes db1 = roes db"
    "\<And>a. a \<in> set (artifacts db) \<Longrightarrow> job_under_legal_hold (sa_scan_job_id a) db \<Longrightarrow> a \<in> set (artifacts db1)"
    "session_held ps db \<Longrightarrow> ps_evidence ps \<noteq> [] \<Longrightarrow> e \<noteq> []"
  proof (cases "ps_evidence ps = []")
    case True
    with st have "store_session_evidence clock ps (case evidence of Some (JObj kvs) \<Rightarrow> kvs | _ \<Rightarrow> []) db
        = (db1, ps1)" by simp
    then show ?thesis using that by (rule store_effect) simp
  next
    case False
    with st show ?thesis using that [of "ps_evidence ps"] by (simp add: evidence_row_def)
  qed
  have "db' = put_session (finish_row e j status now ps) db1"
    using assms(1) found active st by (simp add: complete_session_for_job_def finish_row_def e(1))
  moreover have "ps_evidence (finish_row e j status now ps) = e"
    by (simp add: finish_row_def evidence_row_def close_session_def Let_def add_record_def)
  ultimately show ?thesis
    using e(5) by (simp only:)
      (rule unattended_put [OF finish.session_row_axioms assms(2) mem e(2,3) _ e(4)], simp_all)
qed

lemma timeouts_unattended:
  fixes db :: "'a pentest_db_scheme"
  assumes "terminate_expired_sessions now org db = (db', n)"
  shows "\<exists>db1 :: 'a pentest_db_scheme. unattended db db1 \<and> unattended db1 db' \<and> holds db1 = holds db"
proof -
  let ?db1 = "db\<lparr>sessions := update_where (timed_out now org) (terminate_row now) (sessions db)\<rparr>"
  have "unattended db ?db1"
    unfolding unattended_def
    by (intro conjI exI [of _ "timed_out now org"] exI [of _ "terminate_row now"]
        terminate.session_row_axioms) (simp_all add: terminate_row_def)
  moreover have "db' = ?db1\<lparr>sessions := update_where (stale_request now org) (expire_row now) (sessions ?db1)\<rparr>"
    using assms by (simp add: terminate_expired_sessions_def Let_def)
  then have "unattended ?db1 db'"
    unfolding unattended_def
    by (intro conjI exI [of _ "stale_request now org"] exI [of _ "expire_row now"]
        expire.session_row_axioms) (simp_all add: expire_row_def)
  ultimately show ?thesis by (intro exI [of _ ?db1]) simp
qed

lemma purge_unattended:
  assumes "purge_expired_evidence now org db = (db', n)"
  shows "unattended db db'"
proof -
  let ?due = "evidence_due now org db"
  have sess: "sessions db' = update_where ?due (evidence_row []) (sessions db)" "roes db' = roes db"
    and art: "artifacts db' = filter (\<lambda>a. sa_scan_job_id a \<notin>
      set (List.map_filter ps_scan_job_id (filter ?due (sessions db)))) (artifacts db)"
    using assms by (auto simp: purge_expired_evidence_def Let_def evidence_row_def [abs_def])
  have "\<not> job_under_legal_hold j db"
    if "j \<in> set (List.map_filter ps_scan_job_id (filter ?due (sessions db)))" for j
    using that by (auto simp: List.map_filter_def evidence_due_def session_held_def split: option.splits)
  then show ?thesis
    unfolding unattended_def using sess art
    by (intro conjI exI [of _ ?due] exI [of _ "evidence_row []"] evidence.session_row_axioms)
      (auto simp: evidence_due_def)
qed

subsection \<open>Approvals\<close>

lemma dispatch_job:
  assumes "dispatch_pentest_session env cfg ps db = Inr (db1, ps1, Some j)"
  obtains target p n r end' where "create_pentest_job (pe_jobs env) cfg p
      (session_request ps target end' (nw_id n)) db = Inr (db1, j)"
    and "end' = or_else (ps_expires_at ps) (je_now (pe_jobs env) + seconds (ps_max_session_seconds ps))"
    and "scout_for_target (ps_organization_id ps) target db = Some (p, n)"
    and "ps1 = dispatched ps j n p r"
    and "nonempty (ps_target ps) \<noteq> None \<Longrightarrow> ps_target ps = Some target"
proof -
  obtain f where f: "finding_of (ps_finding_id ps) db = Some f"
    using assms by (auto simp: dispatch_pentest_session_def Let_def split: option.split_asm)
  obtain target where t: "nonempty (or_opt (nonempty (ps_target ps)) (resolve_finding_target f db)) = Some target"
    using assms f by (auto simp: dispatch_pentest_session_def Let_def split: option.split_asm)
  obtain p n where pn: "scout_for_target (ps_organization_id ps) target db = Some (p, n)"
    using assms f t by (auto simp: dispatch_pentest_session_def Let_def split: option.split_asm)
  let ?stop = "or_else (ps_expires_at ps) (je_now (pe_jobs env) + seconds (ps_max_session_seconds ps))"
  obtain r where "create_pentest_job (pe_jobs env) cfg p (session_request ps target ?stop (nw_id n)) db
      = Inr (db1, j)" "ps1 = dispatched ps j n p r"
    using assms f t pn
    by (auto simp: dispatch_pentest_session_def Let_def res_bind_Inr split: sum.split_asm)
  moreover have "ps_target ps = Some target" if "nonempty (ps_target ps) \<noteq> None"
    using that t by (cases "ps_target ps") (auto simp: nonempty_def split: if_split_asm)
  ultimately show ?thesis using pn that by blast
qed

lemma create_pentest_job_db:
  assumes "create_pentest_job jenv cfg p rq db = Inr (db1, j)"
  shows "db1 = db\<lparr>jobs := jobs db @ [j]\<rparr>" and "sj_id j = je_fresh jenv"
  using assms
  by (auto simp: create_pentest_job_def persist_job_def Let_def res_bind_Inr new_job_def
      build_job_envelope_def split: sum.split_asm if_split_asm option.split_asm)

lemma create_pentest_job_row:
  assumes "create_pentest_job jenv cfg p rq db = Inr (db1, j)"
  shows "\<exists>n. normalize_cidr (pq_target rq) = Inr n \<and> sj_requested_targets j = [network_str n] \<and>
    sj_mode j = JobMode.CONTROLLED_PENTEST \<and> sj_workflow j = [exploit_stage rq] \<and>
    sj_limits j = SessionLimits (pq_max_session_seconds rq) \<and> sj_expires_at j = pq_expires_at rq \<and>
    sj_network_id j = pq_network_id rq \<and> sj_probe_id j = pb_id p"
  using assms
  by (auto simp: create_pentest_job_def Let_def res_bind_Inr new_job_def build_job_envelope_def
      plain_request_def split: sum.split_asm if_split_asm)

text \<open>What the gate has checked when it lets a session pass.\<close>

definition authorized_now ::
  "pentest_env \<Rightarrow> pentest_session \<Rightarrow> time \<Rightarrow> 'a pentest_db_scheme \<Rightarrow> rules_of_engagement \<Rightarrow> bool" where
  "authorized_now env ps now db r \<longleftrightarrow>
     (\<exists>f. finding_of (ps_finding_id ps) db = Some f \<and>
        (asset_granted r f \<or> target_granted r (ps_target ps))) \<and>
     roe_approved_by r \<noteq> None \<and> pe_digest env (authorization_document r) = roe_policy_digest r \<and>
     sn_policy_digest (ps_snapshot ps) = Some (roe_policy_digest r) \<and>
     roe_effective_from r \<le> now \<and> now \<le> roe_effective_until r \<and>
     ps_module ps \<in> set (roe_authorized_modules r) \<and>
     within_allowed_hours (pe_tz env) (roe_allowed_hours r) now = Inr InWindow \<and>
     (case max_concurrent_sessions (roe_session_policy r) of
        None \<Rightarrow> True
      | Some limit \<Rightarrow>
          int (length (filter (\<lambda>s. ps_id s \<noteq> ps_id ps) (active_sessions (roe_id r) db))) < limit)"

lemma denial_none:
  "roe_authorization_denial env r f target path now = None \<longleftrightarrow>
     roe_approved_by r \<noteq> None \<and> pe_digest env (authorization_document r) = roe_policy_digest r \<and>
     roe_effective_from r \<le> now \<and> now \<le> roe_effective_until r \<and>
     path \<in> set (roe_authorized_modules r) \<and> (asset_granted r f \<or> target_granted r target)"
  by (auto simp: roe_authorization_denial_def)

lemma roe_of_id: "roe_of i db = Some r \<Longrightarrow> roe_id r = i \<and> r \<in> set (roes db)"
  by (auto simp: roe_of_def dest: find_SomeD)

lemma gate_passed:
  assumes "check_roe_gate env ps now db = Inr None" and "ps_roe_id ps = Some i"
  obtains r where "roe_of i db = Some r" and "authorized_now env ps now db r"
proof -
  obtain r where r: "roe_of i db = Some r"
    using assms by (auto simp: check_roe_gate_def split: option.split_asm)
  obtain f where f: "finding_of (ps_finding_id ps) db = Some f"
    using assms r by (auto simp: check_roe_gate_def split: option.split_asm)
  have d: "roe_authorization_denial env r f (ps_target ps) (ps_module ps) now = None"
    using assms r f by (auto simp: check_roe_gate_def split: option.split_asm)
  note id = roe_of_id [OF r]
  have "authorized_now env ps now db r"
    using assms r f d id unfolding authorized_now_def
    by (auto simp: check_roe_gate_def denial_none
        split: option.split_asm if_split_asm sum.split_asm option.split)
  with r that show ?thesis by blast
qed

text \<open>The row of an approved session.\<close>

definition approved_row :: "uuid \<Rightarrow> time \<Rightarrow> pentest_session \<Rightarrow> pentest_session" where
  "approved_row approver now ps =
     ps\<lparr>ps_approved_by := Some approver, ps_approved_at := Some now,
        ps_status := PentestSessionStatus.APPROVED, ps_started_at := Some now,
        ps_expires_at := Some (now + seconds (ps_max_session_seconds ps))\<rparr>"

lemma decide_found: "decide env cfg i approve approver now db = Inr db' \<Longrightarrow> \<exists>ps. session_of i db = Some ps"
  by (auto simp: decide_def split: option.split_asm)

lemma decide_approve:
  assumes "decide env cfg i True approver now db = Inr db'" and ps: "session_of i db = Some ps"
  obtains j p n r target where "ps_status ps = PentestSessionStatus.PENDING_APPROVAL" and "ps_requested_by ps \<noteq> Some approver"
    and "check_roe_gate env ps now db = Inr None"
    and "create_pentest_job (pe_jobs env) cfg p (session_request (approved_row approver now ps) target
           (now + seconds (ps_max_session_seconds ps)) (nw_id n)) db = Inr (db\<lparr>jobs := jobs db @ [j]\<rparr>, j)"
    and "nonempty (ps_target ps) \<noteq> None \<Longrightarrow> ps_target ps = Some target"
    and "db' = put_session (dispatched (approved_row approver now ps) j n p r) (db\<lparr>jobs := jobs db @ [j]\<rparr>)"
proof -
  have gate: "check_roe_gate env ps now db = Inr None"
    using assms ps by (auto simp: decide_def res_bind_Inr split: option.split_asm)
  have dec: "decide_session True (Some approver) now ps = Inr (approved_row approver now ps)"
    "ps_status ps = PentestSessionStatus.PENDING_APPROVAL" "ps_requested_by ps \<noteq> Some approver"
    using assms ps gate
    by (auto simp: decide_def decide_session_def approved_row_def Let_def res_bind_Inr split: if_split_asm)
  obtain db1 ps2 j where disp: "dispatch_pentest_session env cfg (approved_row approver now ps) db
      = Inr (db1, ps2, Some j)" and db': "db' = put_session ps2 db1"
    using assms ps gate dec(1) by (auto simp: decide_def res_bind_Inr split: option.split_asm)
  obtain target p n r where "create_pentest_job (pe_jobs env) cfg p
      (session_request (approved_row approver now ps) target
           (now + seconds (ps_max_session_seconds ps)) (nw_id n)) db = Inr (db1, j)"
    "ps2 = dispatched (approved_row approver now ps) j n p r"
    "nonempty (ps_target ps) \<noteq> None \<Longrightarrow> ps_target ps = Some target"
    by (rule dispatch_job [OF disp]) (auto simp: approved_row_def)
  moreover from this(1) have "db1 = db\<lparr>jobs := jobs db @ [j]\<rparr>"
    using create_pentest_job_db(1) by blast
  ultimately show ?thesis using that dec(2,3) gate db' by blast
qed

lemma find_put_session:
  assumes "session_of (ps_id ps) db \<noteq> None"
  shows "session_of (ps_id ps) (put_session ps db) = Some ps"
proof -
  have "find (\<lambda>s. ps_id s = ps_id ps) (update_where (\<lambda>s. ps_id s = ps_id ps) (\<lambda>_. ps) ss) = Some ps"
    if "find (\<lambda>s. ps_id s = ps_id ps) ss \<noteq> None" for ss
    using that by (induction ss) auto
  then show ?thesis using assms by (simp add: session_of_def put_session_def)
qed


subsection \<open>Reachable states\<close>

text \<open>
  The transactions on sessions, in any order and with any arguments; \<open>roe_added\<close> is the creation of Rules
  of Engagement, which are never changed afterwards, and \<open>others\<close> is anything the other services do to
  their own tables (jobs, networks, findings, holds, uploaded artifacts).  Fresh identifiers are new.
\<close>

inductive pentest_step :: "app_settings \<Rightarrow> pentest_db \<Rightarrow> pentest_db \<Rightarrow> bool" for cfg where
  request: "create_session env f path payload options by_user roe now db = Inr (db', ps) \<Longrightarrow>
    pe_fresh env \<notin> ps_id ` set (sessions db) \<Longrightarrow> pentest_step cfg db db'"
| decision: "decide env cfg i approve approver now db = Inr db' \<Longrightarrow> pentest_step cfg db db'"
| cleaned: "cleanup clock i records outcome evidence now db = Inr db' \<Longrightarrow> pentest_step cfg db db'"
| result: "record_pentest_result now job output db = Inr db' \<Longrightarrow> pentest_step cfg db db'"
| finished: "complete_session_for_job clock j status summary now db = Inr db' \<Longrightarrow>
    pentest_step cfg db db'"
| timeouts: "terminate_expired_sessions now org db = (db', n) \<Longrightarrow> pentest_step cfg db db'"
| retention: "purge_expired_evidence now org db = (db', n) \<Longrightarrow> pentest_step cfg db db'"
| roe_added: "roe_id r \<notin> roe_id ` set (roes db) \<Longrightarrow> pentest_step cfg db (db\<lparr>roes := roes db @ [r]\<rparr>)"
| others: "sessions db' = sessions db \<Longrightarrow> roes db' = roes db \<Longrightarrow>
    set (artifacts db) \<subseteq> set (artifacts db') \<Longrightarrow> pentest_step cfg db db'"

inductive pentest_reachable :: "app_settings \<Rightarrow> pentest_db \<Rightarrow> bool" for cfg where
  start: "sessions db = [] \<Longrightarrow> distinct (map roe_id (roes db)) \<Longrightarrow> pentest_reachable cfg db"
| step: "pentest_reachable cfg db \<Longrightarrow> pentest_step cfg db db' \<Longrightarrow> pentest_reachable cfg db'"

text \<open>A reviewed session: its module passed the policy under the rights its Rules of Engagement give.\<close>

definition exploit_rights :: "rules_of_engagement \<Rightarrow> bool" where
  "exploit_rights r = exploitation_permitted (roe_allowed_actions r) (roe_prohibited_actions r)
     (roe_approved_by r \<noteq> None)"

definition reviewed :: "rules_of_engagement list \<Rightarrow> pentest_session \<Rightarrow> bool" where
  "reviewed rs s \<longleftrightarrow> (\<exists>r p. r \<in> set rs \<and> ps_roe_id s = Some (roe_id r) \<and>
     ps_module s \<in> set (roe_authorized_modules r) \<and>
     validate_module_allowed (ps_module s) (ps_payload s) (ps_options s) (exploit_rights r) = Inr p \<and>
     ps_max_session_seconds s = mp_max_session_seconds p \<and> ps_cleanup_required s = mp_cleanup_required p)"

text \<open>A session was approved, by someone else than its requester, exactly when it has a job.\<close>

definition approved_by_other :: "pentest_session \<Rightarrow> bool" where
  "approved_by_other s \<longleftrightarrow> (\<exists>a t. ps_approved_by s = Some a \<and> ps_requested_by s \<noteq> Some a \<and>
     ps_approved_at s = Some t \<and> ps_expires_at s = Some (t + seconds (ps_max_session_seconds s)))"

definition four_eyes :: "pentest_session \<Rightarrow> bool" where
  "four_eyes s \<longleftrightarrow>
     (ps_scan_job_id s \<noteq> None \<longrightarrow> approved_by_other s) \<and>
     (ps_status s \<in> set ACTIVE_SESSION \<longrightarrow> ps_scan_job_id s \<noteq> None) \<and>
     (ps_status s = PentestSessionStatus.PENDING_APPROVAL \<longrightarrow> ps_scan_job_id s = None) \<and>
     (ps_status s \<in> set ACTIVE_SESSION \<or> ps_status s = PentestSessionStatus.PENDING_APPROVAL \<longrightarrow>
       \<not> ps_cleanup_completed s)"

definition within_limit :: "pentest_db \<Rightarrow> rules_of_engagement \<Rightarrow> bool" where
  "within_limit db r \<longleftrightarrow>
     (case max_concurrent_sessions (roe_session_policy r) of
        None \<Rightarrow> True
      | Some limit \<Rightarrow> int (length (active_sessions (roe_id r) db)) \<le> limit)"

definition pentest_inv :: "pentest_db \<Rightarrow> bool" where
  "pentest_inv db \<longleftrightarrow> distinct (map ps_id (sessions db)) \<and> distinct (map roe_id (roes db)) \<and>
     (\<forall>s \<in> set (sessions db). reviewed (roes db) s \<and> four_eyes s) \<and>
     (\<forall>r \<in> set (roes db). within_limit db r)"

lemma row_keeps_ok:
  assumes "session_row f"
  shows "reviewed rs s \<Longrightarrow> reviewed rs (f s)" and "four_eyes s \<Longrightarrow> four_eyes (f s)"
proof -
  note row = session_row.request_kept [OF assms] session_row.approval_kept [OF assms]
  show "reviewed rs s \<Longrightarrow> reviewed rs (f s)" by (simp add: reviewed_def row)
  show "four_eyes s \<Longrightarrow> four_eyes (f s)"
    using session_row.not_activated [OF assms] session_row.not_reopened [OF assms]
      session_row.not_cleaned_open [OF assms]
    by (auto simp: four_eyes_def approved_by_other_def row)
qed

lemma unattended_inv:
  assumes "pentest_inv db" and "unattended db (db' :: pentest_db)"
  shows "pentest_inv db'"
proof -
  obtain P f where f: "session_row f" "sessions db' = update_where P f (sessions db)"
    and same: "roes db' = roes db"
    using assms(2) by (auto simp: unattended_def)
  have "within_limit db' r" if "r \<in> set (roes db)" for r
  proof -
    have "length (active_sessions (roe_id r) db') \<le> length (active_sessions (roe_id r) db)"
      unfolding active_sessions_def f(2) by (rule session_row.active_le [OF f(1)])
    moreover have "within_limit db r" using assms(1) that by (simp add: pentest_inv_def)
    ultimately show ?thesis by (auto simp: within_limit_def split: option.splits)
  qed
  moreover have "reviewed (roes db) s' \<and> four_eyes s'" if mem: "s' \<in> set (sessions db')" for s'
  proof -
    obtain s where "s \<in> set (sessions db)" "s' = s \<or> s' = f s"
      using session_row.origin [OF f(1)] mem f(2) by metis
    then show ?thesis
      using assms(1) row_keeps_ok(1) [OF f(1), of "roes db" s] row_keeps_ok(2) [OF f(1), of s]
      by (auto simp: pentest_inv_def)
  qed
  ultimately show ?thesis
    using assms(1) session_row.ids [OF f(1)] by (simp add: pentest_inv_def f(2) same)
qed

lemma request_inv:
  assumes "pentest_inv db" and "pe_fresh env \<notin> ps_id ` set (sessions db)"
    and "create_session env f path payload options by_user roe now db = Inr (db', ps)"
  shows "pentest_inv db'"
proof -
  obtain i where i: "roe = Some i" using assms(3) by (auto simp: create_session_def split: option.split_asm)
  obtain r where r: "roe_of i db = Some r"
    using assms(3) by (auto simp: create_session_def i split: option.split_asm)
  obtain p where p: "validate_module_allowed path payload options (exploit_rights r) = Inr p"
    using assms(3) r
    by (auto simp: create_session_def i exploit_rights_def Let_def split: if_split_asm sum.split_asm)
  let ?target = "resolve_finding_target f db"
  have d: "roe_authorization_denial env r f ?target path now = None"
    and db': "db' = db\<lparr>sessions := sessions db @ [ps]\<rparr>"
    and ps: "ps = new_session (pe_fresh env) r f p path payload options ?target by_user now"
    using assms(3) r p
    by (auto simp: create_session_def i exploit_rights_def Let_def split: if_split_asm option.split_asm)
  have "reviewed (roes db) ps"
    unfolding reviewed_def
    by (intro exI [of _ r] exI [of _ p])
      (use d p roe_of_id [OF r] in \<open>simp add: ps new_session_def denial_none\<close>)
  moreover have "four_eyes ps" by (simp add: ps new_session_def four_eyes_def ACTIVE_SESSION_def)
  moreover have same: "active_sessions x db' = active_sessions x db" for x
    by (simp add: db' active_sessions_def ps new_session_def)
  moreover have "within_limit db' = within_limit db" by (rule ext) (simp add: within_limit_def same split: option.split)
  moreover have "ps_id ps \<notin> ps_id ` set (sessions db)" using assms(2) by (simp add: ps new_session_def)
  ultimately show ?thesis using assms(1) by (auto simp: pentest_inv_def db')
qed

lemma filter_replace_le:
  assumes "distinct (map k ss)"
  shows "length (filter A (update_where (\<lambda>s. k s = i) (\<lambda>_. s') ss)) \<le>
    length (filter (\<lambda>s. k s \<noteq> i) (filter A ss)) + (if A s' then 1 else 0)"
  using assms
proof (induction ss)
  case Nil
  then show ?case by simp
next
  case (Cons s ss)
  show ?case
  proof (cases "k s = i")
    case True
    then have "update_where (\<lambda>s. k s = i) (\<lambda>_. s') ss = ss"
      using Cons.prems by (auto simp: update_where_def image_iff intro!: map_idI)
    moreover have "\<forall>x \<in> set ss. k x \<noteq> i" using True Cons.prems by (auto simp: image_iff)
    then have "filter (\<lambda>s. k s \<noteq> i) (filter A ss) = filter A ss" by (simp cong: filter_cong)
    ultimately show ?thesis using True by simp
  next
    case False
    with Cons show ?thesis by auto
  qed
qed

lemma roe_of_member: "distinct (map roe_id (roes db)) \<Longrightarrow> r \<in> set (roes db) \<Longrightarrow> roe_of (roe_id r) db = Some r"
  by (simp add: roe_of_def find_by_key)

lemma session_of_member: "session_of i db = Some s \<Longrightarrow> s \<in> set (sessions db) \<and> ps_id s = i"
  by (auto simp: session_of_def dest: find_SomeD)

text \<open>Replacing one row of a session that is not active.\<close>

lemma replace_inv:
  assumes inv: "pentest_inv db" and s: "session_of i db = Some s" and id: "ps_id s' = i"
    and ok: "reviewed (roes db) s'" "four_eyes s'" and same: "roes db' = roes db"
    and db': "sessions db' = update_where (\<lambda>x. ps_id x = i) (\<lambda>_. s') (sessions db)"
    and room: "\<And>r limit. ps_status s' \<in> set ACTIVE_SESSION \<Longrightarrow> r \<in> set (roes db) \<Longrightarrow>
      ps_roe_id s' = Some (roe_id r) \<Longrightarrow> max_concurrent_sessions (roe_session_policy r) = Some limit \<Longrightarrow>
      int (length (filter (\<lambda>x. ps_id x \<noteq> i) (active_sessions (roe_id r) db))) < limit"
  shows "pentest_inv db'"
proof -
  have dist: "distinct (map ps_id (sessions db))" using inv by (simp add: pentest_inv_def)
  have "within_limit db' r" if r: "r \<in> set (roes db)" for r
  proof (cases "max_concurrent_sessions (roe_session_policy r)")
    case None
    then show ?thesis by (simp add: within_limit_def)
  next
    case (Some limit)
    let ?A = "\<lambda>x. ps_roe_id x = Some (roe_id r) \<and> ps_scan_job_id x \<noteq> None \<and> ps_status x \<in> set ACTIVE_SESSION"
    define others where "others = length (filter (\<lambda>x. ps_id x \<noteq> i) (active_sessions (roe_id r) db))"
    define a where "a \<longleftrightarrow> ?A s'"
    have "length (active_sessions (roe_id r) db') \<le> others + (if a then 1 else 0)"
      unfolding active_sessions_def db' a_def others_def by (rule filter_replace_le [OF dist])
    moreover have "int (length (active_sessions (roe_id r) db)) \<le> limit"
      using inv r Some by (auto simp: pentest_inv_def within_limit_def)
    moreover have "others \<le> length (active_sessions (roe_id r) db)"
      unfolding others_def by (rule length_filter_le)
    moreover have "int others < limit" if a using room [OF _ r _ Some] that by (auto simp: a_def others_def)
    ultimately show ?thesis by (cases a) (simp_all add: within_limit_def Some)
  qed
  moreover have "reviewed (roes db) x \<and> four_eyes x" if "x \<in> set (sessions db')" for x
    using that inv ok by (auto simp: db' update_where_def pentest_inv_def split: if_split_asm)
  moreover have "map ps_id (sessions db') = map ps_id (sessions db)"
    using id by (auto simp: db' update_where_def)
  ultimately show ?thesis using inv by (simp add: pentest_inv_def same)
qed

definition rejected_row :: "uuid \<Rightarrow> time \<Rightarrow> pentest_session \<Rightarrow> pentest_session" where
  "rejected_row approver now ps =
     ps\<lparr>ps_approved_by := Some approver, ps_approved_at := Some now,
        ps_status := PentestSessionStatus.REJECTED, ps_ended_at := Some now\<rparr>"

lemma decide_reject:
  assumes "decide env cfg i False approver now db = Inr db'" and "session_of i db = Some ps"
  shows "ps_status ps = PentestSessionStatus.PENDING_APPROVAL \<and>
    db' = put_session (rejected_row approver now ps) db"
  using assms
  by (auto simp: decide_def decide_session_def rejected_row_def Let_def res_bind_Inr split: if_split_asm)

lemma decision_inv:
  assumes inv: "pentest_inv db" and step: "decide env cfg i approve approver now db = Inr db'"
  shows "pentest_inv db'"
proof -
  obtain ps where ps: "session_of i db = Some ps" using decide_found [OF step] by blast
  note mem = session_of_member [OF ps]
  then have rev: "reviewed (roes db) ps" and eyes: "four_eyes ps"
    using inv by (auto simp: pentest_inv_def)
  show ?thesis
  proof (cases approve)
    case False
    with step have "decide env cfg i False approver now db = Inr db'" by simp
    from decide_reject [OF this ps] have pending: "ps_status ps = PentestSessionStatus.PENDING_APPROVAL"
      and db': "db' = put_session (rejected_row approver now ps) db"
      by simp_all
    have "four_eyes (rejected_row approver now ps)"
      using eyes pending by (simp add: four_eyes_def rejected_row_def ACTIVE_SESSION_def)
    moreover have "reviewed (roes db) (rejected_row approver now ps)"
      using rev by (simp add: reviewed_def rejected_row_def)
    moreover have "ps_status (rejected_row approver now ps) \<notin> set ACTIVE_SESSION"
      "ps_id (rejected_row approver now ps) = i"
      using mem by (simp_all add: rejected_row_def ACTIVE_SESSION_def)
    ultimately show ?thesis
      by (intro replace_inv [OF inv ps]) (blast | simp add: db' put_session_def)+
  next
    case True
    with step have approve: "decide env cfg i True approver now db = Inr db'" by simp
    obtain j p n r target where d: "ps_status ps = PentestSessionStatus.PENDING_APPROVAL"
        "ps_requested_by ps \<noteq> Some approver" "check_roe_gate env ps now db = Inr None"
        "db' = put_session (dispatched (approved_row approver now ps) j n p r) (db\<lparr>jobs := jobs db @ [j]\<rparr>)"
      by (rule decide_approve [OF approve ps]) simp
    let ?s = "dispatched (approved_row approver now ps) j n p r"
    have "reviewed (roes db) ?s" using rev by (simp add: reviewed_def dispatched_def approved_row_def)
    moreover have "four_eyes ?s"
      using d(1,2) eyes by (simp add: four_eyes_def approved_by_other_def dispatched_def approved_row_def
          ACTIVE_SESSION_def)
    moreover have "int (length (filter (\<lambda>x. ps_id x \<noteq> i) (active_sessions (roe_id g) db))) < limit"
      if g: "g \<in> set (roes db)" "ps_roe_id ps = Some (roe_id g)"
        "max_concurrent_sessions (roe_session_policy g) = Some limit" for g limit
    proof -
      have "roe_of (roe_id g) db = Some g" using inv g(1) by (simp add: roe_of_member pentest_inv_def)
      with gate_passed [OF d(3) g(2)] have "authorized_now env ps now db g" by auto
      then show ?thesis using g(3) mem by (simp add: authorized_now_def)
    qed
    ultimately show ?thesis
      using mem by (intro replace_inv [OF inv ps, of ?s])
        (simp_all add: d(4) put_session_def dispatched_def approved_row_def)
  qed
qed

lemma reviewed_roe: "reviewed rs s \<Longrightarrow> \<exists>i \<in> roe_id ` set rs. ps_roe_id s = Some i"
  by (auto simp: reviewed_def)

lemma pentest_step_inv:
  assumes "pentest_step cfg db db'" and "pentest_inv db"
  shows "pentest_inv db'"
proof -
  have distinct: "distinct (map ps_id (sessions db))" using assms(2) by (simp add: pentest_inv_def)
  show ?thesis using assms(1)
  proof cases
    case (roe_added r)
    have "ps_roe_id s \<noteq> Some (roe_id r)" if "s \<in> set (sessions db)" for s
    proof -
      have "reviewed (roes db) s" using assms(2) that by (simp add: pentest_inv_def)
      from reviewed_roe [OF this] show ?thesis using roe_added(2) by auto
    qed
    then have "active_sessions (roe_id r) db = []"
      by (simp add: active_sessions_def filter_empty_conv)
    moreover have "max_concurrent_sessions p = Some limit \<Longrightarrow> 0 \<le> limit" for p limit
      by (auto simp: max_concurrent_sessions_def split: option.split_asm json.split_asm if_split_asm)
    ultimately have "within_limit db r" by (auto simp: within_limit_def split: option.split)
    moreover have "within_limit (db\<lparr>roes := x\<rparr>) = within_limit db" for x
      by (rule ext) (simp add: within_limit_def active_sessions_def split: option.split)
    moreover have "reviewed (roes db @ [r]) s" if "reviewed (roes db) s" for s
      using that unfolding reviewed_def set_append by blast
    ultimately show ?thesis
      using assms(2) roe_added(2) unfolding roe_added(1) by (simp add: pentest_inv_def)
  next
    case (others)
    then have "within_limit db' = within_limit db"
      by (intro ext) (simp add: within_limit_def active_sessions_def split: option.split)
    with others assms(2) show ?thesis by (simp add: pentest_inv_def)
  next
    case (timeouts now org n)
    then show ?thesis using timeouts_unattended [OF timeouts(1)] unattended_inv assms(2) by blast
  next
    case (request env f path payload options by_user roe now ps)
    then show ?thesis using request_inv assms(2) by blast
  next
    case (decision env i approve approver now)
    then show ?thesis using decision_inv assms(2) by blast
  next
    case (cleaned clock i records outcome evidence now)
    then show ?thesis by (intro unattended_inv [OF assms(2)] cleanup_unattended distinct)
  next
    case (result now job out)
    then show ?thesis by (intro unattended_inv [OF assms(2)] result_unattended distinct)
  next
    case (finished clock j status summary now)
    then show ?thesis by (intro unattended_inv [OF assms(2)] finish_unattended distinct)
  next
    case (retention now org n)
    then show ?thesis by (intro unattended_inv [OF assms(2)] purge_unattended)
  qed
qed

lemma pentest_reachable_inv: "pentest_reachable cfg db \<Longrightarrow> pentest_inv db"
proof (induction rule: pentest_reachable.induct)
  case (start db)
  then show ?case
    by (auto simp: pentest_inv_def within_limit_def active_sessions_def max_concurrent_sessions_def
        split: option.splits json.splits)
next
  case (step db db')
  then show ?case using pentest_step_inv by blast
qed

subsection \<open>Properties of reachable states\<close>


text \<open>The row a finished job leaves.\<close>

lemma finish_result:
  assumes "complete_session_for_job clock j status summary now db = Inr db'"
    and "session_for_job (sj_id j) db = Some (Some ps)" and "ps_status ps \<in> set ACTIVE_SESSION"
    and "distinct (map ps_id (sessions db))"
  shows "\<exists>e. session_of (ps_id ps) db' = Some (finish_row e j status now ps)"
proof -
  obtain db1 ps1 where st: "(if ps_evidence ps = [] then store_session_evidence clock ps
      (case summary of Some (JObj kvs) \<Rightarrow> kvs | _ \<Rightarrow> []) db else (db, ps)) = (db1, ps1)" by force
  have "\<exists>e. ps1 = evidence_row e ps \<and> sessions db1 = sessions db"
  proof (cases "ps_evidence ps = []")
    case True
    with st have "store_session_evidence clock ps (case summary of Some (JObj kvs) \<Rightarrow> kvs | _ \<Rightarrow> []) db
        = (db1, ps1)" by simp
    then show ?thesis by (rule store_effect) blast
  next
    case False
    with st show ?thesis by (intro exI [of _ "ps_evidence ps"]) (simp add: evidence_row_def)
  qed
  then obtain e where e: "ps1 = evidence_row e ps" "sessions db1 = sessions db" by blast
  have db': "db' = put_session (finish_row e j status now ps) db1"
    using assms(1,2,3) st by (simp add: complete_session_for_job_def finish_row_def e(1))
  have "find (\<lambda>x. ps_id x = ps_id ps) (sessions db) = Some ps"
    using assms(4) session_for_job_in [OF assms(2)] by (simp add: find_by_key)
  then have "session_of (ps_id (finish_row e j status now ps)) db1 \<noteq> None"
    by (simp add: session_of_def e(2) finish.id_kept)
  from find_put_session [OF this] show ?thesis
    by (auto simp: db' finish.id_kept)
qed


subsection \<open>Legal holds\<close>

lemma unattended_hold:
  assumes "unattended db db'" and "s \<in> set (sessions db)" and "ps_evidence s \<noteq> []"
    and "ps_scan_job_id s = Some j" and "job_under_legal_hold j db"
  shows "\<exists>s' \<in> set (sessions db'). ps_id s' = ps_id s \<and> ps_scan_job_id s' = Some j \<and> ps_evidence s' \<noteq> []"
proof -
  obtain P f where f: "session_row f" "sessions db' = update_where P f (sessions db)"
    and kept: "\<forall>s \<in> set (sessions db). P s \<and> session_held s db \<and> ps_evidence s \<noteq> [] \<longrightarrow> ps_evidence (f s) \<noteq> []"
    using assms(1) by (auto simp: unattended_def)
  have "session_held s db" using assms(4,5) by (simp add: session_held_def)
  then have "P s \<Longrightarrow> ps_evidence (f s) \<noteq> []" using kept assms(2,3) by blast
  moreover have "(if P s then f s else s) \<in> set (sessions db')"
    using assms(2) by (auto simp: f(2) update_where_def)
  ultimately show ?thesis
    using assms(3,4) session_row.id_kept [OF f(1)] session_row.approval_kept(4) [OF f(1)]
    by (intro bexI [of _ "if P s then f s else s"]) auto
qed

lemma put_session_hold:
  assumes "session_of i db = Some ps" and "s \<in> set (sessions db)" and "distinct (map ps_id (sessions db))"
    and "ps_id ps' = i" and "ps_evidence ps' = ps_evidence ps"
    and "sessions db' = update_where (\<lambda>x. ps_id x = i) (\<lambda>_. ps') (sessions db)"
  shows "\<exists>s' \<in> set (sessions db'). ps_id s' = ps_id s \<and> ps_evidence s' = ps_evidence s"
proof (cases "ps_id s = i")
  case True
  with assms(1-3) have "s = ps"
    using find_by_key [OF assms(3,2)] by (simp add: session_of_def)
  then show ?thesis
    using assms True by (intro bexI [of _ ps']) (auto simp: update_where_def image_iff)
next
  case False
  then show ?thesis using assms(2,6) by (intro bexI [of _ s]) (auto simp: update_where_def image_iff)
qed

definition keeps_held :: "uuid \<Rightarrow> 'a pentest_db_scheme \<Rightarrow> 'b pentest_db_scheme \<Rightarrow> bool" where
  "keeps_held j db db' \<longleftrightarrow>
     (\<forall>a \<in> set (artifacts db). sa_scan_job_id a = j \<longrightarrow> a \<in> set (artifacts db')) \<and>
     (\<forall>s \<in> set (sessions db). ps_scan_job_id s = Some j \<and> ps_evidence s \<noteq> [] \<longrightarrow>
       (\<exists>s' \<in> set (sessions db'). ps_id s' = ps_id s \<and> ps_evidence s' \<noteq> []))"

lemma unattended_keeps_held:
  "unattended db db' \<Longrightarrow> job_under_legal_hold j db \<Longrightarrow> keeps_held j db db'"
  unfolding keeps_held_def
  using unattended_hold [of db db' _ j] by (fastforce simp: unattended_def)

lemma same_keeps_held:
  assumes "set (artifacts db) \<subseteq> set (artifacts db')"
    and "\<And>s. s \<in> set (sessions db) \<Longrightarrow>
      \<exists>s' \<in> set (sessions db'). ps_id s' = ps_id s \<and> ps_evidence s' = ps_evidence s"
  shows "keeps_held j db db'"
  using assms unfolding keeps_held_def by fastforce

lemma request_keeps_held:
  "create_session env f path payload options by_user roe now db = Inr (db', ps) \<Longrightarrow> keeps_held j db db'"
  by (rule same_keeps_held)
    (auto simp: create_session_def Let_def split: option.split_asm if_split_asm sum.split_asm)

lemma decision_keeps_held:
  assumes step: "decide env cfg i approve approver now db = Inr db'" and distinct: "distinct (map ps_id (sessions db))"
  shows "keeps_held j db db'"
proof -
  obtain ps where ps: "session_of i db = Some ps" using decide_found [OF step] by blast
  note mem = session_of_member [OF ps]
  show ?thesis
  proof (cases approve)
    case True
    with step have approved: "decide env cfg i True approver now db = Inr db'" by simp
    obtain j' p n r where d: "db' = put_session (dispatched (approved_row approver now ps) j' p n r)
        (db\<lparr>jobs := jobs db @ [j']\<rparr>)"
      by (rule decide_approve [OF approved ps]) simp
    show ?thesis
      by (intro same_keeps_held put_session_hold [OF ps _ distinct])
        (use mem in \<open>auto simp: d put_session_def dispatched_def approved_row_def\<close>)
  next
    case False
    with step have "decide env cfg i False approver now db = Inr db'" by simp
    from decide_reject [OF this ps] have d: "db' = put_session (rejected_row approver now ps) db" by simp
    show ?thesis
      by (intro same_keeps_held put_session_hold [OF ps _ distinct])
        (use mem in \<open>auto simp: d put_session_def rejected_row_def\<close>)
  qed
qed

lemma timeouts_keep_held:
  fixes db :: "'a pentest_db_scheme"
  assumes "terminate_expired_sessions now org db = (db', n)" and "job_under_legal_hold j db"
  shows "keeps_held j db db'"
proof -
  obtain db1 :: "'a pentest_db_scheme" where db1: "unattended db db1" "unattended db1 db'" "holds db1 = holds db"
    using timeouts_unattended [OF assms(1)] by blast
  have hold1: "job_under_legal_hold j db1" using assms(2) by (simp add: job_under_legal_hold_def db1(3))
  have "a \<in> set (artifacts db')" if "a \<in> set (artifacts db)" "sa_scan_job_id a = j" for a
    using that db1 hold1 assms(2) by (auto simp: unattended_def)
  moreover have "\<exists>s' \<in> set (sessions db'). ps_id s' = ps_id s \<and> ps_evidence s' \<noteq> []"
    if "s \<in> set (sessions db)" "ps_scan_job_id s = Some j" "ps_evidence s \<noteq> []" for s
    using unattended_hold [OF db1(1) that(1,3,2) assms(2)] unattended_hold [OF db1(2) _ _ _ hold1]
    by metis
  ultimately show ?thesis unfolding keeps_held_def by blast
qed


subsection \<open>Witnesses\<close>

definition sample_finding :: finding where
  "sample_finding = \<lparr>fi_id = 31, fi_organization_id = 1, fi_site_id = 2, fi_asset_id = Some 41,
     fi_severity = Severity.HIGH, fi_validation_status = ValidationStatus.UNVALIDATED,
     fi_status = FindingStatus.TRIAGE, fi_last_seen_at = None\<rparr>"

definition sample_roe :: rules_of_engagement where
  "sample_roe = \<lparr>roe_id = 51, roe_organization_id = 1, roe_name = ''q3'', roe_authorization_owner = ''ciso'',
     roe_authorization_source = ''contract'', roe_authorization_reference = ''c-1'',
     roe_authorization_document_sha256 = [], roe_effective_from = 0, roe_effective_until = days 30,
     roe_authorized_cidrs = [''10.20.0.0/24''], roe_authorized_asset_ids = [],
     roe_authorized_modules = [''exploit/windows/smb/ms17_010_eternalblue''],
     roe_allowed_actions = [''Exploitation''], roe_prohibited_actions = [], roe_allowed_hours = JObj [],
     roe_emergency_contact = None, roe_business_contact = None, roe_evidence_policy = JObj [],
     roe_data_retention_days = 1,
     roe_session_policy = JObj [(''max_concurrent_sessions'', JInt 1)], roe_cleanup_required = True,
     roe_created_by = None, roe_approved_by = Some 9, roe_version = 1, roe_policy_digest = ''d''\<rparr>"

definition sample_penv :: pentest_env where
  "sample_penv = \<lparr>pe_fresh = 61, pe_digest = (\<lambda>_. ''d''), pe_tz = (\<lambda>_. None), pe_jobs = sample_env\<rparr>"

definition sample_pentests :: pentest_db where
  "sample_pentests = \<lparr>probes = [sample_probe], networks = sample_networks, scouts = sample_scouts,
     scopes = [sample_scope], relays = [], jobs = [], assets = [],
     identifiers = [\<lparr>ai_asset_id = 41, ai_type = IdentifierType.IP_ADDRESS, ai_value = ''10.20.0.9'',
       ai_created_at = 0\<rparr>],
     audits = [], sessions = [], roes = [sample_roe], findings = [sample_finding], holds = [],
     artifacts = []\<rparr>"

definition EB :: string where "EB = ''exploit/windows/smb/ms17_010_eternalblue''"

text \<open>The sample session: requested by user 3, and then approved by user 4.\<close>

definition sample_session :: pentest_session where
  "sample_session = new_session 61 sample_roe sample_finding (exploit_policy EB) EB None []
     (Some ''10.20.0.9'') (Some 3) 1000"

definition requested_sample :: pentest_db where
  "requested_sample = sample_pentests\<lparr>sessions := [sample_session]\<rparr>"

definition approved_request :: pentest_request where
  "approved_request = session_request (approved_row 4 2000 sample_session) ''10.20.0.9''
     (2000 + seconds 300) 7"

definition sample_job :: scan_job where
  "sample_job = (case create_pentest_job sample_env sample_cfg sample_probe approved_request
     requested_sample of Inr (_, j) \<Rightarrow> j)"

definition approved_sample :: pentest_db where
  "approved_sample = put_session
     (dispatched (approved_row 4 2000 sample_session) sample_job (hd sample_networks) sample_probe None)
     (requested_sample\<lparr>jobs := [sample_job]\<rparr>)"

lemma sample_tables [simp]:
  "roes sample_pentests = [sample_roe]" "findings sample_pentests = [sample_finding]"
  "sessions sample_pentests = []" "jobs sample_pentests = []" "relays sample_pentests = []"
  "holds sample_pentests = []" "artifacts sample_pentests = []"
  by (simp_all add: sample_pentests_def)

lemma sample_roe_fields [simp]:
  "roe_id sample_roe = 51" "roe_organization_id sample_roe = 1" "roe_policy_digest sample_roe = ''d''"
  "roe_approved_by sample_roe = Some 9" "roe_effective_from sample_roe = 0"
  "roe_effective_until sample_roe = days 30" "roe_authorized_modules sample_roe = [EB]"
  "roe_allowed_hours sample_roe = JObj []"
  by (simp_all add: sample_roe_def EB_def)

lemma sample_finding_fields [simp]:
  "fi_id sample_finding = 31" "fi_organization_id sample_finding = 1" "fi_asset_id sample_finding = Some 41"
  by (simp_all add: sample_finding_def)

lemma sample_session_fields [simp]:
  "ps_id sample_session = 61" "ps_organization_id sample_session = 1" "ps_finding_id sample_session = 31"
  "ps_roe_id sample_session = Some 51" "ps_module sample_session = EB"
  "ps_target sample_session = Some ''10.20.0.9''" "ps_requested_by sample_session = Some 3"
  "ps_status sample_session = PentestSessionStatus.PENDING_APPROVAL"
  "ps_max_session_seconds sample_session = 300" "ps_cleanup_required sample_session"
  "ps_scan_job_id sample_session = None" "ps_evidence sample_session = []"
  "sn_policy_digest (ps_snapshot sample_session) = Some ''d''"
  by (simp_all add: sample_session_def new_session_def new_snapshot_def)

lemma sample_env_fields [simp]:
  "pe_fresh sample_penv = 61" "pe_digest sample_penv d = ''d''" "pe_jobs sample_penv = sample_env"
  by (simp_all add: sample_penv_def)

lemma sample_target: "resolve_finding_target sample_finding sample_pentests = Some ''10.20.0.9''"
  by (simp add: resolve_finding_target_def sample_pentests_def)

lemma sample_granted: "target_granted sample_roe (Some ''10.20.0.9'')"
  by code_simp

lemma sample_rights: "exploit_rights sample_roe"
  by code_simp

lemma sample_limit: "max_concurrent_sessions (roe_session_policy sample_roe) = Some 1"
  by (simp add: sample_roe_def max_concurrent_sessions_def json_get_def)

lemma sample_module: "validate_module_allowed EB None [] True = Inr (exploit_policy EB)"
  by code_simp

lemma sample_denial:
  "0 \<le> now \<Longrightarrow> now \<le> days 30 \<Longrightarrow>
    roe_authorization_denial sample_penv sample_roe sample_finding (Some ''10.20.0.9'') EB now = None"
  using sample_granted by (simp add: denial_none)

lemma requested_sample_step:
  "create_session sample_penv sample_finding EB None [] (Some 3) (Some 51) 1000 sample_pentests
     = Inr (requested_sample, sample_session)"
  using sample_rights sample_denial [of 1000]
  by (simp add: create_session_def roe_of_def exploit_rights_def sample_module sample_target
      sample_session_def requested_sample_def time_simps Let_def)

lemma sample_gate: "check_roe_gate sample_penv sample_session 2000 requested_sample = Inr None"
  using sample_denial [of 2000]
  by (simp add: check_roe_gate_def roe_of_def finding_of_def requested_sample_def sample_limit
      within_allowed_hours_def active_sessions_def time_simps)

lemma sample_address: "ip_address_parse ''10.20.0.9'' = Some (False, 169082889)"
  by code_simp

lemma requested_tables [simp]:
  "networks requested_sample = sample_networks" "probes requested_sample = [sample_probe]"
  "scouts requested_sample = sample_scouts" "scopes requested_sample = [sample_scope]"
  "findings requested_sample = [sample_finding]" "relays requested_sample = []"
  "jobs requested_sample = []" "sessions requested_sample = [sample_session]"
  "artifacts requested_sample = []"
  by (simp_all add: requested_sample_def sample_pentests_def)

lemma sample_scout: "scout_for_target 1 ''10.20.0.9'' requested_sample = Some (sample_probe, hd sample_networks)"
proof -
  have "select_network_scout 7 requested_sample = Some sample_probe"
    by (simp add: select_network_scout_def sample_scouts_def) (simp add: sample_probe_def)
  moreover have "network_cidrs 7 requested_sample = [''10.20.0.0/24'']"
    by (simp add: network_cidrs_def sample_scope_def)
  moreover have "network_reaches (False, 169082889) ''10.20.0.0/24''" by code_simp
  ultimately show ?thesis
    by (simp add: scout_for_target_def sample_address sample_networks_def)
qed

lemma sample_dispatch:
  "create_pentest_job sample_env sample_cfg sample_probe approved_request requested_sample
     = Inr (requested_sample\<lparr>jobs := [sample_job]\<rparr>, sample_job) \<and> sj_id sample_job = 77"
proof -
  have "case create_pentest_job sample_env sample_cfg sample_probe approved_request requested_sample of
      Inl _ \<Rightarrow> False | Inr _ \<Rightarrow> True"
    by code_simp
  then obtain db1 where c: "create_pentest_job sample_env sample_cfg sample_probe approved_request
      requested_sample = Inr (db1, sample_job)"
    by (auto simp: sample_job_def split: sum.splits)
  from create_pentest_job_db [OF this] c show ?thesis
    by (simp add: sample_env_def)
qed

lemma approved_sample_step: "decide sample_penv sample_cfg 61 True 4 2000 requested_sample = Inr approved_sample"
proof -
  let ?ps = "approved_row 4 2000 sample_session"
  have dec: "decide_session True (Some 4) 2000 sample_session = Inr ?ps"
    by (simp add: decide_session_def approved_row_def)
  have fields: "ps_finding_id ?ps = 31" "ps_target ?ps = Some ''10.20.0.9''" "ps_organization_id ?ps = 1"
    "ps_expires_at ?ps = Some (2000 + seconds 300)"
    by (simp_all add: approved_row_def)
  have net: "nw_id (hd sample_networks) = 7" by (simp add: sample_networks_def)
  have "relay_for_target 1 site ''10.20.0.9'' (requested_sample\<lparr>jobs := js\<rparr>) = Inr None" for site js
    by (simp add: relay_for_target_def sample_address)
  then have "dispatch_pentest_session sample_penv sample_cfg ?ps requested_sample =
      Inr (requested_sample\<lparr>jobs := [sample_job]\<rparr>,
        dispatched ?ps sample_job (hd sample_networks) sample_probe None, Some sample_job)"
    using sample_dispatch sample_scout
    by (simp add: dispatch_pentest_session_def fields finding_of_def nonempty_def net
        approved_request_def [symmetric] del: One_nat_def)
  moreover have "session_of 61 requested_sample = Some sample_session"
    by (simp add: session_of_def requested_sample_def)
  ultimately show ?thesis
    by (simp add: decide_def sample_gate dec approved_sample_def)
qed

lemma samples_reachable:
  "pentest_reachable sample_cfg requested_sample" "pentest_reachable sample_cfg approved_sample"
proof -
  have "pentest_reachable sample_cfg sample_pentests"
    by (rule pentest_reachable.start) (simp_all add: sample_pentests_def)
  moreover have "pentest_step sample_cfg sample_pentests requested_sample"
    using requested_sample_step by (rule pentest_step.request) simp
  ultimately show r: "pentest_reachable sample_cfg requested_sample" by (rule pentest_reachable.step)
  then show "pentest_reachable sample_cfg approved_sample"
    using pentest_step.decision [OF approved_sample_step] by (rule pentest_reachable.step)
qed


lemma approved_session:
  "sessions approved_sample =
     [dispatched (approved_row 4 2000 sample_session) sample_job (hd sample_networks) sample_probe None]"
  by (simp add: approved_sample_def put_session_def requested_sample_def dispatched_def approved_row_def)



definition held_sample :: pentest_db where
  "held_sample = approved_sample\<lparr>holds := [\<lparr>rh_target_type = ''scan_job'', rh_target_id = 77\<rparr>],
     artifacts := [\<lparr>sa_id = 71, sa_scan_job_id = 77\<rparr>]\<rparr>"

lemma held_reachable: "pentest_reachable sample_cfg held_sample"
proof -
  have "artifacts approved_sample = []"
    by (simp add: approved_sample_def put_session_def requested_sample_def)
  then have "pentest_step sample_cfg approved_sample held_sample"
    by (intro pentest_step.others) (simp_all add: held_sample_def)
  with samples_reachable(2) show ?thesis by (rule pentest_reachable.step)
qed


text \<open>
  The cleanup handler has no guard on the status: it marks a session that still waits for approval,
  and one whose job is still running, as cleaned.
\<close>

lemma cleanup_unguarded:
  assumes "session_of i db = Some ps"
    and "ps_status ps \<in> {PentestSessionStatus.PENDING_APPROVAL, PentestSessionStatus.APPROVED}"
  shows "\<exists>db' ps'. cleanup clock i [] None None now db = Inr db' \<and> session_of i db' = Some ps' \<and>
    ps_status ps' = PentestSessionStatus.CLEANED \<and> ps_cleanup_completed ps' \<and>
    ps_cleanup_verified ps' = ps_cleanup_verified ps \<and> jobs db' = jobs db"
proof -
  let ?ps' = "cleanup_row [] None None now ps"
  have id: "ps_id ?ps' = i" using session_of_member [OF assms(1)] by (simp add: cleanup_row.id_kept)
  have "session_of i (put_session ?ps' db) = Some ?ps'"
    using find_put_session [of ?ps' db] unfolding id by (simp add: assms(1))
  then show ?thesis
    using assms
    by (intro exI [of _ "put_session ?ps' db"] exI [of _ ?ps'])
      (auto simp: cleanup_def record_cleanup_def cleanup_row_def Let_def put_session_def)
qed

end
