(* ===== verification/Observability.thy ===== *)
theory Observability
  imports Jobs
begin

text \<open>
  Scan progress and failure diagnostics, \<^verbatim>\<open>app/services/scan_observability.py\<close>: monotonic progress checked
  against the signed job, and Scout messages with secrets and control characters removed.

  Each regular expression is a function from the previous character and the remaining text to the
  length of the match and its replacement; \<open>re_replace\<close> replaces the leftmost matches in turn.
\<close>

subsection \<open>Messages\<close>

definition replace_all :: "(char option \<Rightarrow> string \<Rightarrow> (nat \<times> string) option) \<Rightarrow> string \<Rightarrow> string" where
  "replace_all m s = re_replace m None s"

definition obs_word_char :: "char \<Rightarrow> bool" where
  "obs_word_char c \<longleftrightarrow> is_alnum c \<or> c = CHR ''_''"

definition at_word_start :: "char option \<Rightarrow> bool" where
  "at_word_start prev \<longleftrightarrow> (case prev of None \<Rightarrow> True | Some c \<Rightarrow> \<not> obs_word_char c)"

text \<open>\<open>-----BEGIN [^-]+-----.*?-----END [^-]+-----\<close>, in any case, over several lines.\<close>

definition pem_marker :: "string \<Rightarrow> string \<Rightarrow> nat option" where
  "pem_marker label s =
     (let start = ''-----'' @ label @ '' '';
          rest = drop (length start) s;
          name = takeWhile (\<lambda>c. c \<noteq> CHR ''-'') rest
      in if starts_with (lower start) (lower s) \<and> name \<noteq> [] \<and>
            starts_with ''-----'' (drop (length name) rest)
         then Some (length start + length name + 5) else None)"

definition pem_block :: "char option \<Rightarrow> string \<Rightarrow> (nat \<times> string) option" where
  "pem_block prev s =
     (case pem_marker ''BEGIN'' s of
        None \<Rightarrow> None
      | Some b \<Rightarrow>
          (case find (\<lambda>i. pem_marker ''END'' (drop i s) \<noteq> None) [b..<length s] of
             None \<Rightarrow> None
           | Some i \<Rightarrow>
               map_option (\<lambda>e. (i + e, ''[REDACTED PEM]'')) (pem_marker ''END'' (drop i s))))"

text \<open>\<open>\b(Bearer|Basic)\s+[A-Za-z0-9._~+/=-]+\<close>, in any case; the scheme is kept as it was written.\<close>

definition token_char :: "char \<Rightarrow> bool" where
  "token_char c \<longleftrightarrow> is_alnum c \<or> c \<in> set ''._~+/=-''"

definition auth_token :: "char option \<Rightarrow> string \<Rightarrow> (nat \<times> string) option" where
  "auth_token prev s =
     (case find (\<lambda>w. starts_with w (lower s)) [''bearer'', ''basic''] of
        None \<Rightarrow> None
      | Some w \<Rightarrow>
          let rest = drop (length w) s; blanks = takeWhile is_blank rest;
              token = takeWhile token_char (drop (length blanks) rest)
          in if at_word_start prev \<and> blanks \<noteq> [] \<and> token \<noteq> []
             then Some (length w + length blanks + length token, take (length w) s @ '' [REDACTED]'')
             else None)"

text \<open>
  \<open>\b(password|passwd|secret|token|authorization|api[_-]?key|private[_-]?key)\s*[:=]\s*\<close> followed by a
  quoted text or by \<open>[^\s,;]+\<close>, in any case.  An unterminated quote is read by the last alternative.
\<close>

definition SECRET_WORDS :: "string list" where
  "SECRET_WORDS = [''password'', ''passwd'', ''secret'', ''token'', ''authorization'', ''api_key'', ''api-key'',
     ''apikey'', ''private_key'', ''private-key'', ''privatekey'']"

definition quoted_length :: "char \<Rightarrow> string \<Rightarrow> nat option" where
  "quoted_length q s =
     (case s of
        [] \<Rightarrow> None
      | c # r \<Rightarrow>
          let body = takeWhile (\<lambda>x. x \<noteq> q) r
          in if c = q \<and> length body < length r then Some (length body + 2) else None)"

definition value_length :: "string \<Rightarrow> nat option" where
  "value_length s =
     (case quoted_length CHR 0x22 s of
        Some n \<Rightarrow> Some n
      | None \<Rightarrow>
          (case quoted_length CHR 0x27 s of
             Some n \<Rightarrow> Some n
           | None \<Rightarrow>
               let w = takeWhile (\<lambda>c. \<not> is_blank c \<and> c \<noteq> CHR '','' \<and> c \<noteq> CHR '';'') s
               in if w = [] then None else Some (length w)))"

definition assignment_of :: "string \<Rightarrow> string \<Rightarrow> (nat \<times> string) option" where
  "assignment_of s word =
     (if \<not> starts_with word (lower s) then None
      else case dropWhile is_blank (drop (length word) s) of
        [] \<Rightarrow> None
      | c # r \<Rightarrow>
          let r = dropWhile is_blank r
          in if c \<in> {CHR '':'', CHR ''=''}
             then map_option (\<lambda>n. (length s - (length r - n), take (length word) s @ ''=[REDACTED]''))
                    (value_length r)
             else None)"

definition secret_value :: "char option \<Rightarrow> string \<Rightarrow> (nat \<times> string) option" where
  "secret_value prev s =
     (if \<not> at_word_start prev then None
      else case List.map_filter (assignment_of s) SECRET_WORDS of [] \<Rightarrow> None | x # _ \<Rightarrow> Some x)"

text \<open>\<open>(https?://)[^/@\s]+@\<close>, in any case.\<close>

definition url_userinfo :: "char option \<Rightarrow> string \<Rightarrow> (nat \<times> string) option" where
  "url_userinfo prev s =
     (case find (\<lambda>p. starts_with p (lower s)) [''http://'', ''https://''] of
        None \<Rightarrow> None
      | Some p \<Rightarrow>
          let rest = drop (length p) s;
              user = takeWhile (\<lambda>c. \<not> is_blank c \<and> c \<noteq> CHR ''/'' \<and> c \<noteq> CHR ''@'') rest
          in if user \<noteq> [] \<and> starts_with ''@'' (drop (length user) rest)
             then Some (length p + length user + 1, take (length p) s @ ''[REDACTED]@'') else None)"

text \<open>A run of characters of one kind becomes one character: \<open>[...]+\<close> replaced by a literal.\<close>

definition run_of :: "(char \<Rightarrow> bool) \<Rightarrow> string \<Rightarrow> char option \<Rightarrow> string \<Rightarrow> (nat \<times> string) option" where
  "run_of p r prev s = (let n = length (takeWhile p s) in if n = 0 then None else Some (n, r))"

definition control_char :: "char \<Rightarrow> bool" where
  "control_char c \<longleftrightarrow> code c \<le> 8 \<or> code c = 11 \<or> code c = 12 \<or> (14 \<le> code c \<and> code c \<le> 31) \<or> code c = 127"

definition redact_secrets :: "string \<Rightarrow> string" where
  "redact_secrets s =
     (let cleaned = replace_all pem_block s;
          cleaned = replace_all auth_token cleaned;
          cleaned = replace_all secret_value cleaned
      in replace_all url_userinfo cleaned)"

definition one_line :: "string \<Rightarrow> string" where
  "one_line s =
     strip (replace_all (run_of is_blank '' '') (replace_all (run_of control_char '' '') s))"

definition NO_MESSAGE :: string where
  "NO_MESSAGE = ''Scan failed without a diagnostic message''"

definition sanitize_failure_message :: "string option \<Rightarrow> nat \<Rightarrow> string option" where
  "sanitize_failure_message v limit =
     map_option (\<lambda>s. let cut = take limit (one_line (redact_secrets s))
                     in if cut = [] then NO_MESSAGE else cut) v"

definition strip_char :: "char \<Rightarrow> string \<Rightarrow> string" where
  "strip_char c s = rev (dropWhile (\<lambda>x. x = c) (rev (dropWhile (\<lambda>x. x = c) s)))"

definition label_char :: "char \<Rightarrow> bool" where
  "label_char c \<longleftrightarrow> is_alnum c \<or> c \<in> set ''_.:-''"

definition sanitize_label :: "string option \<Rightarrow> string \<Rightarrow> string option" where
  "sanitize_label v fallback =
     map_option (\<lambda>s.
       let cleaned = strip_char CHR ''_''
             (take 128 (replace_all (run_of (\<lambda>c. \<not> label_char c) ''_'') (strip s)))
       in if cleaned = [] then fallback else cleaned) v"

subsection \<open>Progress\<close>

text \<open>The bounds and the validator of the schema \<open>JobProgressUpdate\<close>.\<close>

definition count_in :: "int \<Rightarrow> int \<Rightarrow> bool" where
  "count_in m n \<longleftrightarrow> 0 \<le> n \<and> n \<le> m"

definition progress_fields_ok :: "scan_progress \<Rightarrow> bool" where
  "progress_fields_ok p \<longleftrightarrow>
     count_in 99 (pg_percent p) \<and>
     length (or_else (pg_current_stage p) []) \<le> 128 \<and> length (or_else (pg_current_plugin p) []) \<le> 128 \<and>
     list_all (count_in 10000) [pg_stages_total p, pg_stages_completed p, pg_stages_run p,
       pg_stages_failed p, pg_stages_skipped p] \<and>
     given (count_in 10000000) (pg_work_units_total p) \<and>
     given (\<lambda>w. 0 \<le> w \<and> w \<le> 10000000) (pg_work_units_done p) \<and>
     count_in 1000000 (pg_target_groups p) \<and> count_in 1000000000 (pg_target_addresses p) \<and>
     count_in 31536000 (pg_elapsed_seconds p) \<and> given (count_in 31536000) (pg_eta_seconds p)"

definition expected_percent :: "rat \<Rightarrow> int \<Rightarrow> int" where
  "expected_percent d n = (if n \<noteq> 0 then min 99 \<lfloor>d * 100 / of_int n\<rfloor> else 0)"

definition counters_ok :: "scan_progress \<Rightarrow> bool" where
  "counters_ok p \<longleftrightarrow>
     (pg_current_stage p = None) = (pg_current_plugin p = None) \<and>
     pg_stages_completed p = pg_stages_run p + pg_stages_failed p + pg_stages_skipped p \<and>
     pg_stages_completed p \<le> pg_stages_total p \<and>
     (pg_work_units_total p = None) = (pg_work_units_done p = None) \<and>
     (case (pg_work_units_total p, pg_work_units_done p) of
        (Some n, Some d) \<Rightarrow>
          d \<le> of_int n \<and> pg_percent p = expected_percent d n \<and>
          (pg_eta_seconds p = None \<or> (0 < d \<and> d < of_int n))
      | _ \<Rightarrow> pg_eta_seconds p = None \<or> pg_percent p \<noteq> 0)"

definition progress_update_ok :: "scan_progress \<Rightarrow> bool" where
  "progress_update_ok p \<longleftrightarrow> progress_fields_ok p \<and> counters_ok p"

datatype progress_error = ProgressBackwards | WorkTotalChanged | StageTotalMismatch
  | TargetGroupMismatch | TargetAddressMismatch | UnknownCurrentStage

text \<open>The loop of \<open>_target_address_count\<close>, which stops at the cap.\<close>

definition ADDRESS_CAP :: int where
  "ADDRESS_CAP = 1000000000"

fun count_targets :: "int \<Rightarrow> string list \<Rightarrow> int" where
  "count_targets tot [] = tot"
| "count_targets tot (t # ts) =
     (let tot = tot + (case ip_network_parse t of None \<Rightarrow> 1 | Some n \<Rightarrow> int (num_addresses n))
      in if tot \<ge> ADDRESS_CAP then ADDRESS_CAP else count_targets tot ts)"

definition target_address_count :: "string list \<Rightarrow> int" where
  "target_address_count targets = count_targets 0 targets"

definition previous_count :: "(scan_progress \<Rightarrow> int) \<Rightarrow> scan_job \<Rightarrow> int" where
  "previous_count f j = (case sj_progress j of None \<Rightarrow> 0 | Some p \<Rightarrow> f p)"

definition previous_work :: "scan_job \<Rightarrow> rat" where
  "previous_work j = or_else (Option.bind (sj_progress j) pg_work_units_done) 0"

definition goes_backwards :: "scan_job \<Rightarrow> scan_progress \<Rightarrow> bool" where
  "goes_backwards j p \<longleftrightarrow> pg_percent p < sj_progress_percent j \<or>
     pg_stages_completed p < previous_count pg_stages_completed j \<or>
     pg_elapsed_seconds p < previous_count pg_elapsed_seconds j \<or>
     (case pg_work_units_done p of None \<Rightarrow> False | Some w \<Rightarrow> w < previous_work j)"

definition work_total_changed :: "scan_job \<Rightarrow> scan_progress \<Rightarrow> bool" where
  "work_total_changed j p \<longleftrightarrow>
     (case (Option.bind (sj_progress j) pg_work_units_total, pg_work_units_total p) of
        (Some a, Some b) \<Rightarrow> a \<noteq> b
      | _ \<Rightarrow> False)"

definition stage_known :: "scan_job \<Rightarrow> scan_progress \<Rightarrow> bool" where
  "stage_known j p \<longleftrightarrow>
     (case pg_current_stage p of
        None \<Rightarrow> True
      | Some s \<Rightarrow> (s, or_else (pg_current_plugin p) []) \<in>
          (\<lambda>w. (st_stage w, st_plugin w)) ` set (sj_workflow j))"

definition apply_progress :: "scan_job \<Rightarrow> scan_progress \<Rightarrow> time \<Rightarrow> progress_error + scan_job" where
  "apply_progress j p now =
     (if goes_backwards j p then Inl ProgressBackwards
      else if work_total_changed j p then Inl WorkTotalChanged
      else if pg_stages_total p \<noteq> int (length (sj_workflow j)) then Inl StageTotalMismatch
      else if pg_target_groups p \<noteq> int (length (sj_requested_targets j)) then Inl TargetGroupMismatch
      else if pg_target_addresses p \<noteq> target_address_count (sj_requested_targets j)
      then Inl TargetAddressMismatch
      else if \<not> stage_known j p then Inl UnknownCurrentStage
      else Inr (j\<lparr>sj_progress_percent := pg_percent p, sj_progress := Some p,
                  sj_last_progress_at := Some now,
                  sj_estimated_completion_at :=
                    map_option (\<lambda>eta. min (now + seconds eta) (sj_expires_at j)) (pg_eta_seconds p)\<rparr>))"

subsection \<open>The failure log\<close>

record failure_detail =
  fd_code :: string
  fd_stage :: "string option"
  fd_plugin :: "string option"
  fd_message :: string

definition failure_entry_of :: "time \<Rightarrow> failure_detail \<Rightarrow> failure_entry" where
  "failure_entry_of now d =
     \<lparr>fe_code = or_else (sanitize_label (Some (fd_code d)) ''scanner_error'') ''scanner_error'',
      fe_stage = sanitize_label (fd_stage d) ''unknown_stage'',
      fe_plugin = sanitize_label (fd_plugin d) ''unknown_plugin'',
      fe_message = sanitize_failure_message (Some (fd_message d)) 2048, fe_received_at = now\<rparr>"

definition build_failure_log ::
  "failure_detail list \<Rightarrow> time \<Rightarrow> string option \<Rightarrow> string option \<Rightarrow> failure_entry list" where
  "build_failure_log details now fallback_code fallback_message =
     (let entries =
        (if details = [] \<and> fallback_message \<notin> {None, Some []}
         then [\<lparr>fd_code = (if fallback_code \<in> {None, Some []} then ''scanner_error''
                           else the fallback_code),
                fd_stage = None, fd_plugin = None, fd_message = the fallback_message\<rparr>]
         else details)
      in map (failure_entry_of now) (take 50 entries))"

subsection \<open>What a message and a report guarantee\<close>

lemma set_re_replace_run:
  "set (re_replace (run_of p r) prev s) \<subseteq> {c \<in> set s. \<not> p c} \<union> set r"
proof (induction "run_of p r" prev s rule: re_replace.induct)
  case (2 prev c s)
  show ?case
  proof (cases "p c")
    case True
    then have m: "run_of p r prev (c # s) = Some (Suc (length (takeWhile p s)), r)"
      by (simp add: run_of_def)
    have "set (drop (length (takeWhile p s)) s) \<subseteq> set s"
      by (rule set_drop_subset)
    then show ?thesis using 2(3)[OF m refl refl] by (auto simp: m)
  next
    case False
    then have m: "run_of p r prev (c # s) = None" by (simp add: run_of_def)
    show ?thesis using 2 False by (auto simp: m)
  qed
qed simp

lemma set_strip: "set (strip s) \<subseteq> set s"
  by (auto simp: strip_def dest!: set_dropWhileD)

text \<open>No stored message has a character that could break a line or drive a terminal.\<close>

definition printable :: "char \<Rightarrow> bool" where
  "printable c \<longleftrightarrow> 32 \<le> code c \<and> code c \<noteq> 127"

lemma printable_iff: "printable c \<longleftrightarrow> \<not> control_char c \<and> (is_blank c \<longrightarrow> code c = 32)"
  by (auto simp: printable_def control_char_def is_blank_def)


lemma printable_message:
  "list_all printable (one_line s)"
proof -
  let ?one = "replace_all (run_of control_char '' '') s"
  let ?two = "replace_all (run_of is_blank '' '') ?one"
  have "set ?one \<subseteq> {c. \<not> control_char c} \<union> {CHR '' ''}"
    using set_re_replace_run [of control_char "'' ''" None s] by (auto simp: replace_all_def)
  moreover have "set ?two \<subseteq> {c \<in> set ?one. \<not> is_blank c} \<union> {CHR '' ''}"
    using set_re_replace_run [of is_blank "'' ''" None ?one] by (auto simp: replace_all_def)
  moreover have "printable (CHR '' '')" by (simp add: printable_def code_def)
  ultimately have "\<forall>c \<in> set ?two. printable c" by (auto simp: printable_iff)
  then show ?thesis using set_strip [of ?two] by (auto simp: list_all_iff one_line_def)
qed

lemma sanitized_message_ok:
  "\<exists>m. sanitize_failure_message (Some s) n = Some m \<and> m \<noteq> [] \<and> list_all printable m \<and>
     (length m \<le> n \<or> m = NO_MESSAGE)"
proof -
  have "list_all printable (take n (one_line x))" for x
    using printable_message [of x] by (auto simp: list_all_iff dest: in_set_takeD)
  moreover have "list_all printable NO_MESSAGE" "NO_MESSAGE \<noteq> []"
    by (code_simp, simp add: NO_MESSAGE_def)
  ultimately show ?thesis by (simp add: sanitize_failure_message_def Let_def)
qed

lemma set_strip_char: "set (strip_char c s) \<subseteq> set s"
  by (auto simp: strip_char_def dest!: set_dropWhileD)

lemma length_strip_char: "length (strip_char c s) \<le> length s"
  unfolding strip_char_def by (metis length_dropWhile_le length_rev order_trans)

text \<open>A stored label: short, not empty and made of label characters.\<close>

definition label_ok :: "string \<Rightarrow> bool" where
  "label_ok s \<longleftrightarrow> s \<noteq> [] \<and> length s \<le> 128 \<and> list_all label_char s"

lemma sanitized_label_ok:
  assumes "label_ok fallback"
  shows "given label_ok (sanitize_label v fallback)"
proof (cases v)
  case (Some s)
  define r where "r = replace_all (run_of (\<lambda>c. \<not> label_char c) ''_'') (strip s)"
  define cut where "cut = strip_char CHR ''_'' (take 128 r)"
  have "set r \<subseteq> {c. label_char c} \<union> set ''_''"
    using set_re_replace_run [of "\<lambda>c. \<not> label_char c" "''_''" None "strip s"]
    by (auto simp: replace_all_def r_def)
  moreover have "label_char (CHR ''_'')" by code_simp
  ultimately have "\<forall>c \<in> set r. label_char c" by auto
  then have "list_all label_char cut"
    using set_strip_char [of "CHR ''_''" "take 128 r"] set_take_subset [of 128 r]
    unfolding cut_def list_all_iff by blast
  moreover have "length cut \<le> 128"
    using length_strip_char [of "CHR ''_''" "take 128 r"] by (simp add: cut_def)
  moreover have "sanitize_label v fallback = Some (if cut = [] then fallback else cut)"
    by (simp only: Some sanitize_label_def option.map Let_def cut_def r_def)
  ultimately show ?thesis using assms by (simp add: label_ok_def)
qed (simp add: sanitize_label_def)

definition entry_safe :: "time \<Rightarrow> failure_entry \<Rightarrow> bool" where
  "entry_safe now e \<longleftrightarrow> label_ok (fe_code e) \<and> given label_ok (fe_stage e) \<and>
     given label_ok (fe_plugin e) \<and> fe_received_at e = now \<and>
     (case fe_message e of None \<Rightarrow> False
      | Some m \<Rightarrow> m \<noteq> [] \<and> list_all printable m \<and> length m \<le> 2048)"

lemma failure_entry_safe: "entry_safe now (failure_entry_of now d)"
proof -
  have labels: "label_ok ''scanner_error''" "label_ok ''unknown_stage''" "label_ok ''unknown_plugin''"
    by code_simp+
  have "\<exists>c. sanitize_label (Some (fd_code d)) ''scanner_error'' = Some c"
    by (simp add: sanitize_label_def)
  then have "label_ok (or_else (sanitize_label (Some (fd_code d)) ''scanner_error'') ''scanner_error'')"
    using sanitized_label_ok [OF labels(1), of "Some (fd_code d)"] by auto
  moreover have "length NO_MESSAGE \<le> 2048" by (simp add: NO_MESSAGE_def)
  ultimately show ?thesis
    using sanitized_label_ok [OF labels(2), of "fd_stage d"]
      sanitized_label_ok [OF labels(3), of "fd_plugin d"] sanitized_message_ok [of "fd_message d" 2048]
    by (auto simp: entry_safe_def failure_entry_of_def)
qed

text \<open>
  Whatever a Scout reports, the stored failure log has at most fifty entries; every entry carries the
  server's time, short labels of letters, digits, dots, dashes, colons and underscores, and a message
  that is not empty, has at most 2048 characters and none that ends a line or drives a terminal; and a
  job that failed with a message but no details still gets an entry.
\<close>

theorem failure_log_safe:
  shows "length (build_failure_log details now c m) \<le> 50 \<and>
    list_all (entry_safe now) (build_failure_log details now c m) \<and>
    (build_failure_log details now c m = [] \<longleftrightarrow> details = [] \<and> m \<in> {None, Some []})"
proof -
  have "list_all (entry_safe now) (map (failure_entry_of now) ds)" for ds
    by (simp add: list_all_iff failure_entry_safe)
  then show ?thesis by (auto simp: build_failure_log_def Let_def)
qed

text \<open>
  Control characters are removed after the redaction, so one of them between a marker and its secret
  hides the secret from the redaction and is then replaced by a blank.
\<close>

lemma control_character_hides_secret:
  "sanitize_failure_message (Some (''Bearer'' @ [CHR 0x01] @ ''s3cret'')) 2048 = Some ''Bearer s3cret''"
  "sanitize_failure_message (Some ''Bearer s3cret'') 2048 = Some ''Bearer [REDACTED]''"
  by code_simp+

subsection \<open>A sequence of progress reports\<close>

fun report_all :: "scan_job \<Rightarrow> (scan_progress \<times> time) list \<Rightarrow> progress_error + scan_job" where
  "report_all j [] = Inr j"
| "report_all j ((p, now) # ps) = res_bind (apply_progress j p now) (\<lambda>j1. report_all j1 ps)"

definition matches_job :: "scan_job \<Rightarrow> scan_progress \<Rightarrow> bool" where
  "matches_job j p \<longleftrightarrow> pg_stages_total p = int (length (sj_workflow j)) \<and>
     pg_target_groups p = int (length (sj_requested_targets j)) \<and>
     pg_target_addresses p = target_address_count (sj_requested_targets j) \<and> stage_known j p"

definition recorded :: "scan_job \<Rightarrow> scan_progress \<Rightarrow> scan_job \<Rightarrow> bool" where
  "recorded j p j' \<longleftrightarrow> sj_progress j' = Some p \<and> sj_progress_percent j' = pg_percent p \<and>
     matches_job j p \<and> given (\<lambda>t. t \<le> sj_expires_at j) (sj_estimated_completion_at j') \<and>
     sj_status j' = sj_status j \<and> sj_envelope j' = sj_envelope j \<and> sj_workflow j' = sj_workflow j \<and>
     sj_requested_targets j' = sj_requested_targets j \<and> sj_expires_at j' = sj_expires_at j"

definition not_behind :: "scan_progress \<Rightarrow> scan_progress \<Rightarrow> bool" where
  "not_behind p q \<longleftrightarrow> pg_percent p \<le> pg_percent q \<and> pg_stages_completed p \<le> pg_stages_completed q \<and>
     pg_elapsed_seconds p \<le> pg_elapsed_seconds q"

lemma apply_progress_recorded:
  assumes "apply_progress j p now = Inr j'"
  shows "recorded j p j'" and "sj_progress_percent j \<le> pg_percent p"
    and "sj_progress j = Some q \<Longrightarrow> pg_percent q = sj_progress_percent j \<Longrightarrow> not_behind q p"
proof -
  have ok: "\<not> goes_backwards j p" "matches_job j p"
    and j': "j' = j\<lparr>sj_progress_percent := pg_percent p, sj_progress := Some p,
                  sj_last_progress_at := Some now,
                  sj_estimated_completion_at :=
                    map_option (\<lambda>eta. min (now + seconds eta) (sj_expires_at j)) (pg_eta_seconds p)\<rparr>"
    using assms by (auto simp: apply_progress_def matches_job_def split: if_split_asm)
  show "recorded j p j'" using ok(2) by (cases "pg_eta_seconds p") (auto simp: recorded_def j')
  show "sj_progress_percent j \<le> pg_percent p"
    "sj_progress j = Some q \<Longrightarrow> pg_percent q = sj_progress_percent j \<Longrightarrow> not_behind q p"
    using ok(1) by (auto simp: goes_backwards_def not_behind_def previous_count_def)
qed

lemma recorded_again:
  assumes "recorded j p j1" and "recorded j1 q j'"
  shows "recorded j q j'"
proof -
  have "stage_known j1 q = stage_known j q"
    using assms(1) by (simp add: recorded_def stage_known_def split: option.split)
  then show ?thesis using assms by (simp add: recorded_def matches_job_def)
qed

lemma report_all_monotone:
  assumes "report_all j ps = Inr j'" and "sj_progress j = Some q" and "sj_progress_percent j = pg_percent q"
  shows "sorted_wrt not_behind (q # map fst ps)"
  using assms
proof (induction ps arbitrary: j q)
  case (Cons x ps)
  obtain p now where x: "x = (p, now)" by (cases x)
  obtain j1 where j1: "apply_progress j p now = Inr j1" "report_all j1 ps = Inr j'"
    using Cons.prems(1) by (auto simp: x res_bind_Inr)
  note rec = apply_progress_recorded [OF j1(1)]
  have "sorted_wrt not_behind (p # map fst ps)"
    using Cons.IH [OF j1(2)] rec(1) by (simp add: recorded_def)
  moreover have "not_behind q p" using rec(3) Cons.prems(2,3) by simp
  moreover have "not_behind a b \<Longrightarrow> not_behind b c \<Longrightarrow> not_behind a c" for a b c
    by (auto simp: not_behind_def)
  ultimately show ?case by (auto simp: x)
qed simp

lemma report_all_recorded:
  assumes "report_all j ps = Inr j'" and "ps \<noteq> []"
  shows "recorded j (fst (last ps)) j'"
  using assms
proof (induction ps arbitrary: j)
  case (Cons x ps)
  obtain p now where x: "x = (p, now)" by (cases x)
  obtain j1 where j1: "apply_progress j p now = Inr j1" "report_all j1 ps = Inr j'"
    using Cons.prems(1) by (auto simp: x res_bind_Inr)
  note rec = apply_progress_recorded(1) [OF j1(1)]
  show ?case
  proof (cases "ps = []")
    case True
    then show ?thesis using rec j1(2) by (simp add: x)
  next
    case False
    then show ?thesis using recorded_again [OF rec Cons.IH [OF j1(2) False]] by simp
  qed
qed simp

text \<open>
  However a Scout reports the progress of a job, in an accepted sequence of reports the percentage, the
  completed stages and the elapsed time never decrease, the percentage never falls below the stored one,
  and the row ends with the last report, which agrees with the workflow and the targets of the signed
  job, and with an estimated completion not after its expiry; the status, the envelope and the expiry
  are untouched.
\<close>

theorem progress_never_backwards:
  assumes "report_all j ps = Inr j'" and "ps \<noteq> []"
  shows "sorted_wrt not_behind (map fst ps) \<and> sj_progress_percent j \<le> sj_progress_percent j' \<and>
    recorded j (fst (last ps)) j'"
proof -
  obtain p now rest where ps: "ps = (p, now) # rest" using assms(2) by (cases ps) auto
  obtain j1 where j1: "apply_progress j p now = Inr j1" "report_all j1 rest = Inr j'"
    using assms(1) by (auto simp: ps res_bind_Inr)
  note rec = apply_progress_recorded [OF j1(1)]
  have sorted: "sorted_wrt not_behind (p # map fst rest)"
    using report_all_monotone [OF j1(2), of p] rec(1) by (simp add: recorded_def)
  then have order: "sorted_wrt not_behind (map fst ps)" by (simp add: ps)
  have final: "recorded j (fst (last ps)) j'" by (rule report_all_recorded [OF assms])
  have "pg_percent p \<le> pg_percent (fst (last ps))"
    using sorted by (cases "rest = []") (auto simp: ps not_behind_def)
  then have "sj_progress_percent j \<le> sj_progress_percent j'"
    using rec(2) final by (simp add: recorded_def)
  then show ?thesis using order final by blast
qed

definition running_job :: scan_job where
  "running_job = (new_job sample_env sample_probe
     (build_job_envelope 100 sample_probe JobMode.VULNERABILITY_ASSESSMENT [''10.20.0.0/30'']
       [\<lparr>st_stage = ''discovery'', st_plugin = ''nmap'', st_config = JObj []\<rparr>]
       (SessionLimits 600) 1 0 (minutes 60) None 1)
     (plain_request \<lparr>pq_target = ''10.20.0.0/30'', pq_module = [], pq_payload = None, pq_options = [],
        pq_max_session_seconds = 600, pq_expires_at = minutes 60, pq_created_by = None,
        pq_network_id = None\<rparr>) [] sample_net)\<lparr>sj_status := JobStatus.RUNNING\<rparr>"

definition sample_report :: "int \<Rightarrow> int \<Rightarrow> scan_progress" where
  "sample_report percent elapsed =
     \<lparr>pg_percent = percent, pg_current_stage = Some ''discovery'', pg_current_plugin = Some ''nmap'',
      pg_stages_total = 1, pg_stages_completed = 0, pg_stages_run = 0, pg_stages_failed = 0,
      pg_stages_skipped = 0, pg_work_units_total = None, pg_work_units_done = None,
      pg_target_groups = 1, pg_target_addresses = 4, pg_elapsed_seconds = elapsed,
      pg_eta_seconds = Some 30\<rparr>"

definition sample_reports :: "(scan_progress \<times> time) list" where
  "sample_reports = [(sample_report 10 60, minutes 1), (sample_report 45 300, minutes 5)]"

lemma sample_reports_accepted: "\<not> isl (report_all running_job sample_reports)"
  by code_simp

theorem progress_never_backwards_witness:
  "\<exists>j'. report_all running_job sample_reports = Inr j' \<and> sj_progress_percent running_job \<le> sj_progress_percent j' \<and>
     recorded running_job (sample_report 45 300) j' \<and> sorted_wrt not_behind (map fst sample_reports)"
proof -
  obtain j' where j': "report_all running_job sample_reports = Inr j'"
    using sample_reports_accepted by (cases "report_all running_job sample_reports") auto
  have "sample_reports \<noteq> []" by (simp add: sample_reports_def)
  note thms = progress_never_backwards [OF j' this]
  show ?thesis using j' thms by (simp add: sample_reports_def)
qed

text \<open>
  A report without work units makes the server forget their total, so the next report may name another
  total, which the comparison with the previous report is meant to refuse.
\<close>

definition with_units :: "int \<Rightarrow> rat \<Rightarrow> scan_progress \<Rightarrow> scan_progress" where
  "with_units n d p = p\<lparr>pg_work_units_total := Some n, pg_work_units_done := Some d\<rparr>"

definition changing_total :: "(scan_progress \<times> time) list" where
  "changing_total = [(with_units 100 50 (sample_report 50 60), 0), (sample_report 50 61, 1),
     (with_units 200 102 (sample_report 51 62), 2)]"

lemma work_total_forgotten:
  "list_all (\<lambda>(p, t). progress_update_ok p) changing_total"
  "\<not> isl (report_all running_job changing_total)"
  "report_all running_job [changing_total ! 0, changing_total ! 2] = Inl WorkTotalChanged"
  by code_simp+

end
