(* ===== verification/Dispatch.thy ===== *)
theory Dispatch
  imports Workflow Pentest
begin

text \<open>
  What starts and ends scan jobs: \<^verbatim>\<open>app/services/workflow_dispatch.py\<close> (the job of a workflow's scanning
  stage), \<^verbatim>\<open>scheduler.py\<close> (recurring scans), \<^verbatim>\<open>reaper.py\<close> (jobs past their deadline), and the handlers of
  \<^verbatim>\<open>app/api/v1/workflows.py\<close> and \<^verbatim>\<open>schedules.py\<close> that call them.  \<open>dispatch_db\<close> adds the attempts, runs
  and schedules to the tables of \<open>Pentest\<close>.

  A job is created under a \<open>job_env\<close> (clock, fresh identifier, signature); the sweep has one per
  schedule.  The database sessions do not flush pending changes before a query, so the check for an
  active job reads the jobs as last flushed: the argument \<open>seen\<close>.
\<close>

record scan_attempt =
  at_id :: uuid
  at_scan_job_id :: uuid
  at_probe_id :: uuid
  at_attempt_number :: int
  at_fencing_token :: int
  at_lease_id :: uuid
  at_status :: string
  at_offered_at :: time
  at_lease_expires_at :: time
  at_accepted_at :: "time option"
  at_started_at :: "time option"
  at_last_renewed_at :: "time option"
  at_finished_at :: "time option"

record scan_schedule =
  sd_id :: uuid
  sd_organization_id :: uuid
  sd_network_id :: uuid
  sd_name :: string
  sd_mode :: JobMode
  sd_interval_minutes :: int
  sd_preset_key :: string
  sd_preset_version :: int
  sd_enabled :: bool
  sd_next_run_at :: time
  sd_last_run_at :: "time option"
  sd_last_job_id :: "uuid option"
  sd_last_error :: "string option"
  sd_created_by :: "uuid option"

record dispatch_db = pentest_db +
  attempts :: "scan_attempt list"
  runs :: "workflow_run list"
  schedules :: "scan_schedule list"

datatype server_error = JobRaised job_error | WorkflowRaised wf_error | SessionRaised session_error
  | PresetRaised preset_error | EndlessLoop | RowNotFound | StageHasJob | ScanNotDispatched string
  | RequestInvalid

definition lift_error :: "('e \<Rightarrow> 'f) \<Rightarrow> 'e + 'a \<Rightarrow> 'f + 'a" where
  "lift_error f r = (case r of Inl e \<Rightarrow> Inl (f e) | Inr x \<Rightarrow> Inr x)"

lemma lift_error_Inr [simp]: "lift_error f r = Inr x \<longleftrightarrow> r = Inr x"
  by (simp add: lift_error_def split: sum.splits)

definition put_run :: "workflow_run \<Rightarrow> 'a dispatch_db_scheme \<Rightarrow> 'a dispatch_db_scheme" where
  "put_run run db = db\<lparr>runs := update_where (\<lambda>r. wr_id r = wr_id run) (\<lambda>_. run) (runs db)\<rparr>"

definition put_job :: "scan_job \<Rightarrow> 'a job_db_scheme \<Rightarrow> 'a job_db_scheme" where
  "put_job j db = db\<lparr>jobs := update_where (\<lambda>x. sj_id x = sj_id j) (\<lambda>_. j) (jobs db)\<rparr>"

definition put_schedule :: "scan_schedule \<Rightarrow> 'a dispatch_db_scheme \<Rightarrow> 'a dispatch_db_scheme" where
  "put_schedule s db =
     db\<lparr>schedules := update_where (\<lambda>x. sd_id x = sd_id s) (\<lambda>_. s) (schedules db)\<rparr>"

text \<open>A call of \<open>create_scan_job\<close> with the defaults of its optional arguments.\<close>

definition assessment_request :: "string list \<Rightarrow> uuid option \<Rightarrow> uuid option \<Rightarrow> job_request" where
  "assessment_request targets created_by network =
     \<lparr>rq_targets = targets, rq_mode = JobMode.VULNERABILITY_ASSESSMENT, rq_created_by = created_by,
      rq_not_before = None, rq_expires_at = None, rq_web_profile = None, rq_web_start_urls = [],
      rq_verifies_finding_ids = [], rq_stages = None, rq_network_id = network, rq_asset_id = None,
      rq_protocols = [], rq_preset_key = None, rq_preset_version = None,
      rq_include_default_workflow = True\<rparr>"

subsection \<open>One scan job per workflow stage\<close>

definition STAGE_JOB_MAP :: "(string \<times> string list) list" where
  "STAGE_JOB_MAP = [(''discovery'', [''discovery'']),
     (''vulnerability_assessment'', [''vulnerability'']),
     (''web_and_tls'', [''discovery'', ''tls'', ''web''])]"

definition select_scout :: "workflow_run \<Rightarrow> 'a net_db_scheme \<Rightarrow> probe option" where
  "select_scout run db =
     (case wr_network_id run of
        Some net \<Rightarrow> select_network_scout net db
      | None \<Rightarrow>
          (case sort_key pb_created_at (filter (\<lambda>p. pb_site_id p = wr_site_id run \<and>
                  pb_status p = ProbeStatus.ENROLLED) (probes db)) of
             [] \<Rightarrow> None
           | p # _ \<Rightarrow> Some p))"

definition run_targets :: "workflow_run \<Rightarrow> probe \<Rightarrow> app_settings \<Rightarrow> 'a net_db_scheme \<Rightarrow> string list" where
  "run_targets run p cfg db =
     (case wr_network_id run of
        Some net \<Rightarrow> network_cidrs net db
      | None \<Rightarrow> pd_approved_cidrs (build_policy_document p cfg db))"

definition network_busy :: "uuid option \<Rightarrow> scan_job list \<Rightarrow> 'a job_db_scheme \<Rightarrow> bool" where
  "network_busy net seen db =
     (case net of None \<Rightarrow> False | Some i \<Rightarrow> network_has_active_job i (db\<lparr>jobs := seen\<rparr>))"

definition refuse_scan ::
  "job_env \<Rightarrow> workflow_run \<Rightarrow> string \<Rightarrow> 'd \<Rightarrow> server_error + ('d \<times> workflow_run)" where
  "refuse_scan env run detail db =
     res_bind (lift_error WorkflowRaised (fail_scanning run (Some detail) (je_now env))) (\<lambda>r. Inr (db, r))"

definition stage_request ::
  "workflow_run \<Rightarrow> probe \<Rightarrow> string list \<Rightarrow> app_settings \<Rightarrow> 'a net_db_scheme \<Rightarrow> job_request" where
  "stage_request run p wanted cfg db =
     (assessment_request (run_targets run p cfg db) (wr_created_by run) (wr_network_id run))
       \<lparr>rq_stages := Some wanted\<rparr>"

definition dispatch_current_scan_stage ::
  "job_env \<Rightarrow> app_settings \<Rightarrow> scan_job list \<Rightarrow> workflow_run \<Rightarrow> 'a job_db_scheme
     \<Rightarrow> server_error + ('a job_db_scheme \<times> workflow_run)" where
  "dispatch_current_scan_stage env cfg seen run db =
     (case map_of STAGE_JOB_MAP (or_else (current_stage_name run) []) of
        None \<Rightarrow> Inr (db, run)
      | Some wanted \<Rightarrow>
          if network_busy (wr_network_id run) seen db
          then refuse_scan env run ''The network is already under test'' db
          else (case select_scout run db of
            None \<Rightarrow> refuse_scan env run ''No enrolled scout is available for this scan'' db
          | Some p \<Rightarrow>
              if run_targets run p cfg db = []
              then refuse_scan env run ''The target has no ranges/scope to scan'' db
              else (case create_scan_job env cfg p (stage_request run p wanted cfg db) db of
                Inl (JobValidationError m) \<Rightarrow>
                  refuse_scan env run (''Could not dispatch scan: '' @ m) db
              | Inl e \<Rightarrow> Inl (JobRaised e)
              | Inr (db1, j) \<Rightarrow> Inr (db1, run\<lparr>wr_scan_job_id := Some (sj_id j)\<rparr>))))"

definition run_for_job :: "uuid \<Rightarrow> 'a dispatch_db_scheme \<Rightarrow> workflow_run option" where
  "run_for_job j db = find (\<lambda>r. wr_scan_job_id r = Some j) (runs db)"

definition on_scan_job_terminal ::
  "job_env \<Rightarrow> app_settings \<Rightarrow> scan_job list \<Rightarrow> scan_job \<Rightarrow> JobStatus \<Rightarrow> 'a dispatch_db_scheme
     \<Rightarrow> server_error + 'a dispatch_db_scheme" where
  "on_scan_job_terminal env cfg seen j status db =
     (case run_for_job (sj_id j) db of
        None \<Rightarrow> Inr db
      | Some run \<Rightarrow>
          if \<not> scanning_stage_active run then Inr db
          else if status = JobStatus.COMPLETED
          then
            res_bind (lift_error WorkflowRaised
                (advance run WorkflowStageStatus.COMPLETED None (je_now env))) (\<lambda>run1.
            res_bind (dispatch_current_scan_stage env cfg seen run1 db) (\<lambda>(db1, run2).
            Inr (put_run run2 db1)))
          else
            res_bind (lift_error WorkflowRaised (fail_scanning run
                (Some (or_else (nonempty (sj_error_message j)) (''scan '' @ job_status_value status)))
                (je_now env))) (\<lambda>run1.
            Inr (put_run run1 db)))"

text \<open>The handlers of a run.  Its owner and site are checked before; \<open>fresh\<close> is the new identifier.\<close>

definition create_workflow ::
  "uuid \<Rightarrow> uuid \<Rightarrow> uuid \<Rightarrow> uuid option \<Rightarrow> bool \<Rightarrow> bool \<Rightarrow> uuid option \<Rightarrow> time \<Rightarrow> 'a dispatch_db_scheme
     \<Rightarrow> server_error + ('a dispatch_db_scheme \<times> workflow_run)" where
  "create_workflow fresh org site net web intrusive created_by now db =
     (let unknown = (case net of
            None \<Rightarrow> False
          | Some i \<Rightarrow> (case network_of i db of
              None \<Rightarrow> True
            | Some n \<Rightarrow> nw_organization_id n \<noteq> org \<or> nw_site_id n \<noteq> site))
      in if unknown then Inl RowNotFound
         else
           res_bind (lift_error WorkflowRaised (Workflow.start
             \<lparr>wr_id = fresh, wr_organization_id = org, wr_site_id = site, wr_network_id = net,
              wr_scan_job_id = None, wr_status = WorkflowRunStatus.PENDING, include_web = web,
              include_intrusive = intrusive, intrusive_approved = False,
              stages_json = create_run web intrusive, wr_created_by = created_by\<rparr> now)) (\<lambda>run.
           Inr (db\<lparr>runs := runs db @ [run]\<rparr>, run)))"

definition run_of :: "uuid \<Rightarrow> 'a dispatch_db_scheme \<Rightarrow> workflow_run option" where
  "run_of i db = find (\<lambda>r. wr_id r = i) (runs db)"

definition advance_run ::
  "job_env \<Rightarrow> app_settings \<Rightarrow> uuid \<Rightarrow> WorkflowStageStatus \<Rightarrow> string option \<Rightarrow> 'a dispatch_db_scheme
     \<Rightarrow> server_error + 'a dispatch_db_scheme" where
  "advance_run env cfg i outcome detail db =
     (case run_of i db of
        None \<Rightarrow> Inl RowNotFound
      | Some run \<Rightarrow>
          if wr_scan_job_id run \<noteq> None \<and> scanning_stage_active run then Inl StageHasJob
          else
            res_bind (lift_error WorkflowRaised (advance run outcome detail (je_now env))) (\<lambda>run1.
            res_bind (dispatch_current_scan_stage env cfg (jobs db) run1 db) (\<lambda>(db1, run2).
            Inr (put_run run2 db1))))"

definition decide_run ::
  "uuid \<Rightarrow> bool \<Rightarrow> time \<Rightarrow> 'a dispatch_db_scheme \<Rightarrow> server_error + 'a dispatch_db_scheme" where
  "decide_run i approve now db =
     (case run_of i db of
        None \<Rightarrow> Inl RowNotFound
      | Some run \<Rightarrow>
          res_bind (lift_error WorkflowRaised (decide_intrusive run approve now)) (\<lambda>run1.
          Inr (put_run run1 db)))"

subsection \<open>Scheduled scans\<close>

text \<open>The loop of \<open>_next_slot\<close>; with a step that is not positive it may never end.\<close>

partial_function (option) advance_slot :: "time \<Rightarrow> int \<Rightarrow> time \<Rightarrow> time option" where
  "advance_slot nxt step now = (if nxt \<le> now then advance_slot (nxt + step) step now else Some nxt)"

declare advance_slot.simps [code]

definition next_slot :: "time \<Rightarrow> int \<Rightarrow> time \<Rightarrow> time option" where
  "next_slot after interval_minutes now =
     advance_slot (after + minutes interval_minutes) (minutes interval_minutes) now"

definition fire_schedule ::
  "job_env \<Rightarrow> app_settings \<Rightarrow> scan_schedule \<Rightarrow> time \<Rightarrow> 'a job_db_scheme
     \<Rightarrow> server_error + ('a job_db_scheme \<times> scan_schedule \<times> scan_job option)" where
  "fire_schedule env cfg s now db =
     (let s = s\<lparr>sd_last_run_at := Some now, sd_last_job_id := None, sd_last_error := None\<rparr>;
          failed = (\<lambda>m. Inr (db, s\<lparr>sd_last_error := Some m\<rparr>, None));
          net = sd_network_id s
      in if network_has_active_job net db
         then failed ''skipped: the network is already under test''
         else (case select_network_scout net db of
           None \<Rightarrow> failed ''No enrolled scout is bound to the network''
         | Some p \<Rightarrow>
             if network_cidrs net db = [] then failed ''The network has no ranges to scan''
             else (case create_scan_job env cfg p
                     ((assessment_request (network_cidrs net db) (sd_created_by s) (Some net))
                        \<lparr>rq_preset_key := Some (sd_preset_key s),
                         rq_preset_version := Some (sd_preset_version s)\<rparr>) db of
               Inl (JobValidationError m) \<Rightarrow> failed (''Could not dispatch scan: '' @ m)
             | Inl e \<Rightarrow> Inl (JobRaised e)
             | Inr (db1, j) \<Rightarrow> Inr (db1, s\<lparr>sd_last_job_id := Some (sj_id j)\<rparr>, Some j))))"

definition schedule_due :: "uuid option \<Rightarrow> time \<Rightarrow> scan_schedule \<Rightarrow> bool" where
  "schedule_due org now s \<longleftrightarrow> sd_enabled s \<and> sd_next_run_at s \<le> now \<and>
     (case org of None \<Rightarrow> True | Some i \<Rightarrow> sd_organization_id s = i)"

fun run_schedules ::
  "(uuid \<Rightarrow> job_env) \<Rightarrow> app_settings \<Rightarrow> time \<Rightarrow> scan_schedule list \<Rightarrow> 'a dispatch_db_scheme
     \<Rightarrow> server_error + 'a dispatch_db_scheme" where
  "run_schedules envs cfg now [] db = Inr db"
| "run_schedules envs cfg now (s # rest) db =
     res_bind (fire_schedule (envs (sd_id s)) cfg s now db) (\<lambda>(db1, s1, _).
       case next_slot (sd_next_run_at s1) (sd_interval_minutes s1) now of
         None \<Rightarrow> Inl EndlessLoop
       | Some t \<Rightarrow> run_schedules envs cfg now rest (put_schedule (s1\<lparr>sd_next_run_at := t\<rparr>) db1))"

definition run_due_schedules ::
  "(uuid \<Rightarrow> job_env) \<Rightarrow> app_settings \<Rightarrow> uuid option \<Rightarrow> time \<Rightarrow> 'a dispatch_db_scheme
     \<Rightarrow> server_error + ('a dispatch_db_scheme \<times> nat)" where
  "run_due_schedules envs cfg org now db =
     (let due = filter (schedule_due org now) (schedules db)
      in res_bind (run_schedules envs cfg now due db) (\<lambda>db1. Inr (db1, length due)))"

text \<open>
  The handlers.  \<open>allowed\<close> is the caller's site scope; the bounds are those of the request schemas.
\<close>

record schedule_create =
  sc_network :: uuid
  sc_name :: string
  sc_interval_minutes :: int
  sc_preset_key :: string
  sc_enabled :: bool
  sc_first_run_at :: "time option"

record schedule_update =
  su_name :: "string option"
  su_interval_minutes :: "int option"
  su_preset_key :: "string option"
  su_enabled :: "bool option"
  su_next_run_at :: "time option"

definition length_in :: "nat \<Rightarrow> nat \<Rightarrow> string \<Rightarrow> bool" where
  "length_in lo hi s \<longleftrightarrow> lo \<le> length s \<and> length s \<le> hi"

definition schedule_create_ok :: "schedule_create \<Rightarrow> bool" where
  "schedule_create_ok q \<longleftrightarrow> length_in 1 255 (sc_name q) \<and> 5 \<le> sc_interval_minutes q \<and>
     length_in 1 128 (sc_preset_key q)"

definition schedule_update_ok :: "schedule_update \<Rightarrow> bool" where
  "schedule_update_ok q \<longleftrightarrow> given (length_in 1 255) (su_name q) \<and>
     given (\<lambda>i. 5 \<le> i) (su_interval_minutes q) \<and>
     given (length_in 1 128) (su_preset_key q)"

definition create_schedule ::
  "uuid \<Rightarrow> uuid \<Rightarrow> (network \<Rightarrow> bool) \<Rightarrow> schedule_create \<Rightarrow> uuid option \<Rightarrow> time \<Rightarrow> 'a dispatch_db_scheme
     \<Rightarrow> server_error + 'a dispatch_db_scheme" where
  "create_schedule fresh org allowed q created_by now db =
     (if \<not> schedule_create_ok q then Inl RequestInvalid
      else case find (\<lambda>n. nw_id n = sc_network q \<and> nw_organization_id n = org \<and> allowed n)
                  (networks db) of
        None \<Rightarrow> Inl RowNotFound
      | Some n \<Rightarrow>
          res_bind (lift_error PresetRaised (get_preset (sc_preset_key q) None)) (\<lambda>p.
          Inr (db\<lparr>schedules := schedules db @
            [\<lparr>sd_id = fresh, sd_organization_id = org, sd_network_id = sc_network q,
              sd_name = sc_name q, sd_mode = JobMode.VULNERABILITY_ASSESSMENT,
              sd_interval_minutes = sc_interval_minutes q, sd_preset_key = pr_key p,
              sd_preset_version = pr_version p, sd_enabled = sc_enabled q,
              sd_next_run_at = or_else (sc_first_run_at q) (now + minutes (sc_interval_minutes q)),
              sd_last_run_at = None, sd_last_job_id = None, sd_last_error = None,
              sd_created_by = created_by\<rparr>]\<rparr>)))"

definition owned_schedule ::
  "uuid \<Rightarrow> uuid \<Rightarrow> (network \<Rightarrow> bool) \<Rightarrow> 'a dispatch_db_scheme \<Rightarrow> scan_schedule option" where
  "owned_schedule i org allowed db =
     find (\<lambda>s. sd_id s = i \<and> sd_organization_id s = org \<and>
       list_ex (\<lambda>n. nw_id n = sd_network_id s \<and> allowed n) (networks db)) (schedules db)"

definition update_schedule ::
  "uuid \<Rightarrow> uuid \<Rightarrow> (network \<Rightarrow> bool) \<Rightarrow> schedule_update \<Rightarrow> 'a dispatch_db_scheme
     \<Rightarrow> server_error + 'a dispatch_db_scheme" where
  "update_schedule i org allowed q db =
     (if \<not> schedule_update_ok q then Inl RequestInvalid
      else case owned_schedule i org allowed db of
        None \<Rightarrow> Inl RowNotFound
      | Some s \<Rightarrow>
          let s = s\<lparr>sd_name := or_else (su_name q) (sd_name s),
                    sd_interval_minutes := or_else (su_interval_minutes q) (sd_interval_minutes s)\<rparr> in
          res_bind (case su_preset_key q of
              None \<Rightarrow> Inr s
            | Some k \<Rightarrow>
                res_bind (lift_error PresetRaised (get_preset k None)) (\<lambda>p.
                Inr (s\<lparr>sd_preset_key := pr_key p, sd_preset_version := pr_version p\<rparr>))) (\<lambda>s.
          Inr (put_schedule
            (s\<lparr>sd_enabled := or_else (su_enabled q) (sd_enabled s),
               sd_next_run_at := or_else (su_next_run_at q) (sd_next_run_at s)\<rparr>) db)))"

definition delete_schedule ::
  "uuid \<Rightarrow> uuid \<Rightarrow> (network \<Rightarrow> bool) \<Rightarrow> 'a dispatch_db_scheme \<Rightarrow> server_error + 'a dispatch_db_scheme" where
  "delete_schedule i org allowed db =
     (case owned_schedule i org allowed db of
        None \<Rightarrow> Inl RowNotFound
      | Some s \<Rightarrow> Inr (db\<lparr>schedules := filter (\<lambda>x. sd_id x \<noteq> sd_id s) (schedules db)\<rparr>))"

definition run_now ::
  "job_env \<Rightarrow> app_settings \<Rightarrow> uuid \<Rightarrow> uuid \<Rightarrow> (network \<Rightarrow> bool) \<Rightarrow> 'a dispatch_db_scheme
     \<Rightarrow> server_error + 'a dispatch_db_scheme" where
  "run_now env cfg i org allowed db =
     (case owned_schedule i org allowed db of
        None \<Rightarrow> Inl RowNotFound
      | Some s \<Rightarrow>
          res_bind (fire_schedule env cfg s (je_now env) db) (\<lambda>(db1, s1, j).
          case j of
            None \<Rightarrow> Inl (ScanNotDispatched (or_else (nonempty (sd_last_error s1))
                                             ''Could not dispatch the scan''))
          | Some _ \<Rightarrow> Inr (put_schedule s1 db1)))"

subsection \<open>Stale jobs\<close>

definition ACTIVE_ATTEMPT :: "string list" where
  "ACTIVE_ATTEMPT = [''offered'', ''accepted'', ''running'']"

text \<open>\<open>limits_json["max_duration_seconds"]\<close>, which only the limits of a scan have.\<close>

definition max_duration_of :: "job_limits \<Rightarrow> int option" where
  "max_duration_of l =
     (case l of ScanLimits p \<Rightarrow> Some (lim_max_duration_seconds p) | SessionLimits _ \<Rightarrow> None)"

definition TIMEOUT :: "string \<times> string" where
  "TIMEOUT = (''timeout'', ''job expired before completion (scout stalled or offline)'')"

definition MAX_DURATION_EXCEEDED :: "string \<times> string" where
  "MAX_DURATION_EXCEEDED = (''max_duration_exceeded'',
     ''job exceeded its signed maximum duration before the Scout reported completion'')"

definition effective_deadline :: "scan_job \<Rightarrow> time \<times> string \<times> string" where
  "effective_deadline j =
     (case (or_opt (sj_started_at j) (sj_accepted_at j), max_duration_of (sj_limits j)) of
        (Some t, Some secs) \<Rightarrow>
          if 0 < secs \<and> t + seconds secs < sj_expires_at j
          then (t + seconds secs, MAX_DURATION_EXCEEDED) else (sj_expires_at j, TIMEOUT)
      | _ \<Rightarrow> (sj_expires_at j, TIMEOUT))"

definition reap_deadline :: "app_settings \<Rightarrow> scan_job \<Rightarrow> time" where
  "reap_deadline cfg j =
     (let (deadline, c, _) = effective_deadline j
      in if c = fst MAX_DURATION_EXCEEDED
         then deadline + seconds (max 30 (probe_offline_after_seconds cfg)) else deadline)"

definition expired_job :: "time \<Rightarrow> scan_job \<Rightarrow> scan_job" where
  "expired_job now j =
     (let (_, c, m) = effective_deadline j
      in j\<lparr>sj_status := JobStatus.EXPIRED, sj_finished_at := Some now,
           sj_estimated_completion_at := None,
           sj_error_code := Some (or_else (nonempty (sj_error_code j)) c),
           sj_error_message := Some (or_else (nonempty (sj_error_message j)) m)\<rparr>)"

definition expire_attempts :: "uuid \<Rightarrow> time \<Rightarrow> scan_attempt list \<Rightarrow> scan_attempt list" where
  "expire_attempts j now =
     update_where (\<lambda>a. at_scan_job_id a = j \<and> at_status a \<in> set ACTIVE_ATTEMPT)
       (\<lambda>a. a\<lparr>at_status := ''expired'', at_finished_at := Some now\<rparr>)"

definition reap_job ::
  "job_env \<Rightarrow> app_settings \<Rightarrow> time \<Rightarrow> scan_job \<Rightarrow> 'a dispatch_db_scheme
     \<Rightarrow> server_error + 'a dispatch_db_scheme" where
  "reap_job env cfg now j db =
     (let j1 = expired_job now j;
          db1 = (put_job j1 db)\<lparr>attempts := expire_attempts (sj_id j) now (attempts db)\<rparr>
      in res_bind (on_scan_job_terminal env cfg (jobs db) j1 JobStatus.EXPIRED db1) (\<lambda>db2.
         if sj_mode j = JobMode.CONTROLLED_PENTEST
         then lift_error SessionRaised
                (complete_session_for_job (je_now env) j1 JobStatus.EXPIRED None now db2)
         else Inr db2))"

fun reap_jobs ::
  "job_env \<Rightarrow> app_settings \<Rightarrow> time \<Rightarrow> scan_job list \<Rightarrow> 'a dispatch_db_scheme
     \<Rightarrow> server_error + 'a dispatch_db_scheme" where
  "reap_jobs env cfg now [] db = Inr db"
| "reap_jobs env cfg now (j # rest) db =
     res_bind (reap_job env cfg now j db) (\<lambda>db1. reap_jobs env cfg now rest db1)"

definition reapable ::
  "app_settings \<Rightarrow> uuid option \<Rightarrow> uuid list option \<Rightarrow> time \<Rightarrow> scan_job \<Rightarrow> bool" where
  "reapable cfg org sites now j \<longleftrightarrow> sj_status j \<in> set ACTIVE_JOB \<and>
     (case org of None \<Rightarrow> True | Some i \<Rightarrow> sj_organization_id j = i) \<and>
     (case sites of None \<Rightarrow> True | Some is \<Rightarrow> sj_site_id j \<in> set is) \<and> reap_deadline cfg j \<le> now"

definition reap_stale_jobs ::
  "job_env \<Rightarrow> app_settings \<Rightarrow> uuid option \<Rightarrow> uuid list option \<Rightarrow> time \<Rightarrow> 'a dispatch_db_scheme
     \<Rightarrow> server_error + ('a dispatch_db_scheme \<times> nat)" where
  "reap_stale_jobs env cfg org sites now db =
     (let due = filter (reapable cfg org sites now) (jobs db)
      in res_bind (reap_jobs env cfg now due db) (\<lambda>db1. Inr (db1, length due)))"

subsection \<open>The next slot\<close>

lemma advance_slot_ends:
  assumes "advance_slot nxt step now = Some t" and "step \<le> 0"
  shows "now < nxt"
proof -
  have "step \<le> 0 \<longrightarrow> now < nxt"
  proof (rule advance_slot.raw_induct [OF _ assms(1), of "\<lambda>nxt step now t. step \<le> 0 \<longrightarrow> now < nxt"])
    fix f nxt step now t
    assume IH: "\<And>nxt step now t. f nxt step now = Some t \<Longrightarrow> step \<le> 0 \<longrightarrow> now < nxt"
      and body: "(if nxt \<le> now then f (nxt + step) step now else Some nxt) = Some (t :: time)"
    show "(step :: int) \<le> 0 \<longrightarrow> now < nxt"
      using body IH [of "nxt + step" step now t] by (cases "nxt \<le> now") auto
  qed
  with assms(2) show ?thesis by simp
qed

lemma advance_slot_closed:
  "0 < step \<Longrightarrow> nxt \<le> now \<Longrightarrow>
    advance_slot nxt step now = Some (nxt + step * ((now - nxt) div step + 1))"
proof (induction "nat (now - nxt)" arbitrary: nxt rule: less_induct)
  case less
  have unfold: "advance_slot nxt step now = advance_slot (nxt + step) step now"
    using less.prems by (subst advance_slot.simps) simp
  show ?case
  proof (cases "nxt + step \<le> now")
    case True
    have "(now - (nxt + step)) div step = (now - nxt) div step - 1"
      using less.prems div_add_self2 [of step "now - nxt - step"] by (simp add: algebra_simps)
    then show ?thesis using less.hyps [of "nxt + step"] less.prems True
      by (simp add: unfold algebra_simps)
  next
    case False
    then have "(now - nxt) div step = 0" using less.prems by (intro div_pos_pos_trivial) auto
    then show ?thesis using False by (simp add: unfold advance_slot.simps [of "nxt + step"])
  qed
qed

lemma next_slot_ahead: "now < after + minutes i \<Longrightarrow> next_slot after i now = Some (after + minutes i)"
  by (simp add: next_slot_def advance_slot.simps)

lemma next_slot_skips:
  assumes "after + minutes i \<le> now" and "0 < i"
  shows "next_slot after i now = Some (after + minutes i * ((now - after) div minutes i + 1))"
proof -
  have pos: "0 < minutes i" using assms(2) by (simp add: minutes_def seconds_def)
  have "(now - (after + minutes i)) div minutes i + 1 = (now - after) div minutes i"
    using pos assms(1) div_add_self2 [of "minutes i" "now - after - minutes i"] by (simp add: algebra_simps)
  then show ?thesis using assms advance_slot_closed [of "minutes i" "after + minutes i" now] pos
    by (simp add: next_slot_def algebra_simps)
qed

lemma next_slot_diverges:
  assumes "after + minutes i \<le> now" and "i \<le> 0"
  shows "next_slot after i now = None"
proof -
  have "minutes i \<le> 0" using assms(2) by (simp add: minutes_def seconds_def)
  then show ?thesis using assms(1) advance_slot_ends [of "after + minutes i" "minutes i" now]
    by (cases "next_slot after i now") (auto simp: next_slot_def not_less)
qed

lemma next_slot_future:
  assumes "0 < i"
  obtains t where "next_slot after i now = Some t" "now < t"
proof -
  have "0 < minutes i" using assms by (simp add: minutes_def seconds_def)
  then have "now - after < minutes i * ((now - after) div minutes i + 1)"
    by (metis add.commute distrib_left mult.right_neutral pos_mod_bound mult_div_mod_eq add_less_cancel_left)
  then show ?thesis using that assms next_slot_ahead next_slot_skips [OF _ assms]
    by (cases "now < after + minutes i") simp_all
qed

lemma next_slot_after_now:
  assumes "next_slot after i now = Some t"
  shows "now < t"
proof (cases "0 < i")
  case True
  then show ?thesis using assms next_slot_future [of i after now] by auto
next
  case False
  then show ?thesis using assms next_slot_ahead next_slot_diverges [of after i now]
    by (cases "now < after + minutes i") simp_all
qed

text \<open>
  The loop that moves a schedule past the slots it missed computes a closed form: for a positive
  interval it ends, at the first slot of the grid that is in the future; it would only run forever for
  an interval that is not positive when the next slot is already past.
\<close>

theorem next_slot_closed_form:
  "next_slot after i now =
     (if now < after + minutes i then Some (after + minutes i)
      else if 0 < i then Some (after + minutes i * ((now - after) div minutes i + 1)) else None)"
  using next_slot_ahead next_slot_skips next_slot_diverges by (auto simp: not_less)

subsection \<open>What creating a job changes\<close>

lemma create_scan_job_db:
  assumes "create_scan_job env cfg p rq db = Inr (db', j)"
  shows "\<exists>rows. db' = db\<lparr>jobs := jobs db @ [j], audits := audits db @ rows\<rparr>"
    and "sj_id j = je_fresh env" and "sj_status j = JobStatus.QUEUED"
    and "sj_network_id j = rq_network_id rq" and "sj_mode j = JobMode.VULNERABILITY_ASSESSMENT"
    and "rq_network_id rq = Some net \<Longrightarrow> \<not> network_has_active_job net db"
proof -
  obtain asset creds db1 rows where prep: "prepare_scan_job env cfg p rq db = Inr (j, asset, creds)"
    and persist: "persist_job j db = Inr db1" and db': "db' = db1\<lparr>audits := audits db1 @ rows\<rparr>"
    using assms by (rule create_scan_job_parts)
  have "db1 = db\<lparr>jobs := jobs db @ [j]\<rparr>"
    using persist by (auto simp: persist_job_def split: option.split_asm if_split_asm)
  then show "\<exists>rows. db' = db\<lparr>jobs := jobs db @ [j], audits := audits db @ rows\<rparr>"
    using db' by auto
  obtain e ps where j: "j = new_job env p e rq ps db" "en_job_id e = je_fresh env"
      "rq_mode rq = JobMode.VULNERABILITY_ASSESSMENT"
    using prep by (elim prepare_scan_job_steps) (auto simp: build_job_envelope_def)
  then show "sj_id j = je_fresh env" "sj_status j = JobStatus.QUEUED"
    "sj_network_id j = rq_network_id rq" "sj_mode j = JobMode.VULNERABILITY_ASSESSMENT"
    by (simp_all add: new_job_def)
  show "\<not> network_has_active_job net db" if "rq_network_id rq = Some net"
    using persist j that by (auto simp: persist_job_def new_job_def ACTIVE_JOB_def split: if_split_asm)
qed

text \<open>The tables a job creation leaves alone.\<close>

definition same_other_tables :: "'a dispatch_db_scheme \<Rightarrow> 'a dispatch_db_scheme \<Rightarrow> bool" where
  "same_other_tables db db' \<longleftrightarrow> sessions db' = sessions db \<and> roes db' = roes db \<and>
     artifacts db' = artifacts db \<and> attempts db' = attempts db \<and> runs db' = runs db \<and>
     schedules db' = schedules db"

lemma create_scan_job_others:
  assumes "create_scan_job env cfg p rq db = Inr (db', j)"
  shows "same_other_tables db db'" and "jobs db' = jobs db @ [j]"
  using create_scan_job_db(1) [OF assms] by (auto simp: same_other_tables_def)

subsection \<open>A sweep over the schedules\<close>

lemma fire_schedule_effect:
  assumes "fire_schedule env cfg s now db = Inr (db1, s1, jo)"
  shows "(\<exists>e. s1 = s\<lparr>sd_last_run_at := Some now, sd_last_job_id := map_option sj_id jo, sd_last_error := e\<rparr> \<and>
       (jo = None \<longleftrightarrow> e \<noteq> None))"
    and "case jo of None \<Rightarrow> db1 = db
         | Some j \<Rightarrow> \<exists>p rq. create_scan_job env cfg p rq db = Inr (db1, j) \<and>
             rq_network_id rq = Some (sd_network_id s)"
proof -
  let ?s = "s\<lparr>sd_last_run_at := Some now, sd_last_job_id := None, sd_last_error := None\<rparr>"
  consider (failed) m where "db1 = db" "s1 = ?s\<lparr>sd_last_error := Some m\<rparr>" "jo = None"
    | (fired) p rq j where "create_scan_job env cfg p rq db = Inr (db1, j)" "jo = Some j"
        "rq_network_id rq = Some (sd_network_id s)" "s1 = ?s\<lparr>sd_last_job_id := Some (sj_id j)\<rparr>"
  proof (cases "network_has_active_job (sd_network_id s) db")
    case False
    note out = assms False that
    show ?thesis
    proof (cases "select_network_scout (sd_network_id s) db")
      case (Some p)
      let ?rq = "(assessment_request (network_cidrs (sd_network_id s) db) (sd_created_by s)
          (Some (sd_network_id s)))\<lparr>rq_preset_key := Some (sd_preset_key s),
            rq_preset_version := Some (sd_preset_version s)\<rparr>"
      show ?thesis
        using out Some
        by (auto simp: fire_schedule_def Let_def assessment_request_def
            split: if_split_asm sum.split_asm prod.split_asm job_error.split_asm)
    qed (use out in \<open>auto simp: fire_schedule_def Let_def\<close>)
  qed (use assms that in \<open>auto simp: fire_schedule_def Let_def\<close>)
  note effect = this
  show "\<exists>e. s1 = s\<lparr>sd_last_run_at := Some now, sd_last_job_id := map_option sj_id jo, sd_last_error := e\<rparr> \<and>
      (jo = None \<longleftrightarrow> e \<noteq> None)"
    using effect by cases auto
  show "case jo of None \<Rightarrow> db1 = db
      | Some j \<Rightarrow> \<exists>p rq. create_scan_job env cfg p rq db = Inr (db1, j) \<and>
          rq_network_id rq = Some (sd_network_id s)"
    using effect by cases auto
qed

lemma fire_schedule_tables:
  assumes "fire_schedule env cfg s now db = Inr (db1, s1, jo)"
  shows "same_other_tables db db1" and "jobs db1 = jobs db @ (case jo of None \<Rightarrow> [] | Some j \<Rightarrow> [j])"
proof -
  note made = fire_schedule_effect(2) [OF assms]
  show "same_other_tables db db1"
    using made by (cases jo) (auto simp: same_other_tables_def [of db db] dest: create_scan_job_others(1))
  show "jobs db1 = jobs db @ (case jo of None \<Rightarrow> [] | Some j \<Rightarrow> [j])"
  proof (cases jo)
    case (Some j)
    then show ?thesis using made by (auto dest!: create_scan_job_others(2))
  qed (use made in simp)
qed

text \<open>The row of a due schedule after the sweep.\<close>

definition swept :: "time \<Rightarrow> scan_schedule \<Rightarrow> scan_schedule \<Rightarrow> bool" where
  "swept now s s' \<longleftrightarrow>
     (\<exists>t i e. s' = s\<lparr>sd_last_run_at := Some now, sd_last_job_id := i, sd_last_error := e,
                     sd_next_run_at := t\<rparr> \<and>
       next_slot (sd_next_run_at s) (sd_interval_minutes s) now = Some t \<and> now < t \<and>
       (i = None \<longleftrightarrow> e \<noteq> None))"

lemma put_schedule_other:
  "x \<in> set (schedules db) \<Longrightarrow> sd_id x \<noteq> sd_id s \<Longrightarrow> x \<in> set (schedules (put_schedule s db))"
  by (auto simp: put_schedule_def update_where_def)

lemma put_schedule_ids [simp]: "map sd_id (schedules (put_schedule s db)) = map sd_id (schedules db)"
  by (simp add: put_schedule_def) (rule map_update_where, simp)

definition swept_row :: "time \<Rightarrow> scan_schedule list \<Rightarrow> scan_schedule \<Rightarrow> scan_schedule \<Rightarrow> bool" where
  "swept_row now ss s s' \<longleftrightarrow> (if sd_id s \<in> sd_id ` set ss then swept now s s' else s' = s)"

text \<open>Every job a sweep adds is the last job of the schedule it was made for.\<close>

definition sweep_job :: "time \<Rightarrow> scan_schedule list \<Rightarrow> scan_schedule list \<Rightarrow> scan_job \<Rightarrow> bool" where
  "sweep_job now ss after j \<longleftrightarrow> sj_status j = JobStatus.QUEUED \<and>
     (\<exists>s \<in> set after. sd_id s \<in> sd_id ` set ss \<and> sd_last_job_id s = Some (sj_id j) \<and>
        sd_last_run_at s = Some now \<and> sj_network_id j = Some (sd_network_id s))"

lemma run_schedules_effect:
  assumes "run_schedules envs cfg now ss db = Inr db'"
    and "distinct (map sd_id (schedules db))" and "distinct (map sd_id ss)" and "set ss \<subseteq> set (schedules db)"
  shows "list_all2 (swept_row now ss) (schedules db) (schedules db') \<and>
    (\<exists>new. jobs db' = jobs db @ new \<and> (\<forall>j \<in> set new. sweep_job now ss (schedules db') j))"
  using assms
proof (induction envs cfg now ss db rule: run_schedules.induct)
  case (1 envs cfg now db)
  then show ?case by (simp add: swept_row_def list.rel_refl)
next
  case (2 envs cfg now s rest db)
  obtain db1 s1 jo t where fire: "fire_schedule (envs (sd_id s)) cfg s now db = Inr (db1, s1, jo)"
    and t: "next_slot (sd_next_run_at s1) (sd_interval_minutes s1) now = Some t"
    and run: "run_schedules envs cfg now rest (put_schedule (s1\<lparr>sd_next_run_at := t\<rparr>) db1) = Inr db'"
    using 2(2) by (auto simp: res_bind_Inr split: option.split_asm)
  define s2 where "s2 = s1\<lparr>sd_next_run_at := t\<rparr>"
  obtain e where s1: "s1 = s\<lparr>sd_last_run_at := Some now, sd_last_job_id := map_option sj_id jo, sd_last_error := e\<rparr>"
   
    and e: "jo = None \<longleftrightarrow> e \<noteq> None"
    using fire_schedule_effect(1) [OF fire] by blast
  note made = fire_schedule_effect(2) [OF fire]
  have sched: "schedules db1 = schedules db" and jobs1: "jobs db1 = jobs db @ (case jo of None \<Rightarrow> [] | Some j \<Rightarrow> [j])"
    using fire_schedule_tables [OF fire] by (simp_all add: same_other_tables_def)
  have swept: "swept now s s2"
    unfolding swept_def
    by (rule exI [of _ t], rule exI [of _ "map_option sj_id jo"], rule exI [of _ e])
      (use t e next_slot_after_now [OF t] in \<open>simp add: s2_def s1\<close>)
  have id2: "sd_id s2 = sd_id s" by (simp add: s2_def s1)
  let ?mid = "put_schedule s2 db1"
  have "set rest \<subseteq> set (schedules ?mid)"
    using 2(4,5) by (auto simp: sched id2 image_iff intro!: put_schedule_other)
  then have IH: "list_all2 (swept_row now rest) (schedules ?mid) (schedules db')"
      "\<exists>new. jobs db' = jobs ?mid @ new \<and> (\<forall>j \<in> set new. sweep_job now rest (schedules db') j)"
    using 2(1) [OF t] run 2(3,4) by (simp_all add: s2_def sched)
  have sd: "distinct (map sd_id rest)" "sd_id s \<notin> sd_id ` set rest" using 2(4) by auto
  have "swept_row now (s # rest) a c" if "swept_row now rest b c"
    and "b = (if sd_id a = sd_id s2 then s2 else a)" and "a \<in> set (schedules db)" for a b c
  proof (cases "sd_id a = sd_id s")
    case True
    then have "a = s" using 2(3,5) that(3) by (auto simp: distinct_map dest: inj_onD)
    then show ?thesis using that(1,2) sd(2) swept by (auto simp: swept_row_def id2 split: if_split_asm)
  next
    case False
    then show ?thesis using that(1,2) by (simp add: swept_row_def id2)
  qed
  then have "list_all2 (swept_row now (s # rest)) (schedules db) (schedules db')"
    using IH(1) by (auto simp: list_all2_conv_all_nth put_schedule_def update_where_def sched)
  moreover have "sweep_job now (s # rest) (schedules db') j" if "sweep_job now rest (schedules db') j" for j
    using that by (auto simp: sweep_job_def)
  moreover have "sweep_job now (s # rest) (schedules db') j" if j: "jo = Some j" for j
  proof -
    have "s2 \<in> set (schedules ?mid)"
      using 2(5) id2 by (force simp: put_schedule_def update_where_def sched)
    then obtain c where "c \<in> set (schedules db')" "swept_row now rest s2 c"
      using IH(1) by (metis list_all2_conv_all_nth in_set_conv_nth)
    then have "s2 \<in> set (schedules db')" using sd(2) by (auto simp: swept_row_def id2)
    moreover have "sj_status j = JobStatus.QUEUED" "sj_network_id j = Some (sd_network_id s)"
      using made j by (auto dest: create_scan_job_db(3,4))
    ultimately show ?thesis using j unfolding sweep_job_def
      by (intro conjI bexI [of _ s2]) (simp_all add: s2_def s1)
  qed
  moreover obtain new where "jobs db' = jobs db1 @ new" "\<forall>j \<in> set new. sweep_job now rest (schedules db') j"
    using IH(2) by (auto simp: put_schedule_def)
  ultimately show ?case
    by (intro conjI exI [of _ "(case jo of None \<Rightarrow> [] | Some j \<Rightarrow> [j]) @ new"])
      (auto simp: jobs1 split: option.split_asm)
qed


text \<open>A sweep over schedules with positive intervals cannot loop.\<close>

lemma run_schedules_ends:
  "\<forall>s \<in> set ss. 0 < sd_interval_minutes s \<Longrightarrow> run_schedules envs cfg now ss db \<noteq> Inl EndlessLoop"
proof (induction envs cfg now ss db rule: run_schedules.induct)
  case (2 envs cfg now s rest db)
  show ?case
  proof (cases "fire_schedule (envs (sd_id s)) cfg s now db")
    case (Inl e)
    then show ?thesis
      by (auto simp: fire_schedule_def Let_def split: if_split_asm option.split_asm sum.split_asm
          prod.split_asm job_error.split_asm)
  next
    case (Inr x)
    obtain db1 s1 jo where x: "x = (db1, s1, jo)" by (cases x) auto
    have "sd_interval_minutes s1 = sd_interval_minutes s"
      using fire_schedule_effect(1) [OF Inr [unfolded x]] by auto
    then obtain t where "next_slot (sd_next_run_at s1) (sd_interval_minutes s1) now = Some t"
      using 2(2) next_slot_future [of "sd_interval_minutes s1" "sd_next_run_at s1" now] by auto
    then show ?thesis using 2 by (simp add: Inr x)
  qed
qed simp

definition sample_schedule :: "uuid \<Rightarrow> time \<Rightarrow> scan_schedule" where
  "sample_schedule i next_run =
     \<lparr>sd_id = i, sd_organization_id = 1, sd_network_id = 7, sd_name = ''weekly'',
      sd_mode = JobMode.VULNERABILITY_ASSESSMENT, sd_interval_minutes = 60,
      sd_preset_key = ''standard'', sd_preset_version = 2, sd_enabled = True,
      sd_next_run_at = next_run, sd_last_run_at = None, sd_last_job_id = None, sd_last_error = None,
      sd_created_by = None\<rparr>"

definition sample_dispatch :: dispatch_db where
  "sample_dispatch = \<lparr>probes = [sample_probe], networks = sample_networks, scouts = sample_scouts,
     scopes = [sample_scope], relays = [], jobs = [], assets = [], identifiers = [], audits = [],
     sessions = [], roes = [], findings = [], holds = [], artifacts = [], attempts = [], runs = [],
     schedules = [sample_schedule 90 0, sample_schedule 91 900, sample_schedule 92 2000]\<rparr>"

definition sample_envs :: "uuid \<Rightarrow> job_env" where
  "sample_envs i = sample_env\<lparr>je_fresh := 1000 + i\<rparr>"



text \<open>
  A Scout whose heartbeat reports a number of processors that \<open>int\<close> rejects makes the job creation raise
  a plain \<open>ValueError\<close>, which the sweep does not catch: it aborts and rolls back every schedule.
\<close>

lemma health_report_stops_sweep:
  "run_due_schedules sample_envs sample_cfg (Some 1) 1000
     (sample_dispatch\<lparr>probes := [sample_probe\<lparr>pb_health := JObj [(''cpu_count'', JStr ''many'')]\<rparr>]\<rparr>)
   = Inl (JobRaised HealthValueError)"
  by code_simp

end
