(* ===== verification/RunJobs.thy ===== *)
theory RunJobs
  imports Dispatch
begin

text \<open>
  Runs and their jobs: what a scan job that ends, or is reaped, does to the workflow run waiting for it.
  The first part carries the engine's invariant from \<open>Workflow\<close> to the stored runs, the second follows
  \<open>on_scan_job_terminal\<close> and the reaper.
\<close>

subsection \<open>Runs and their jobs\<close>

text \<open>
  The stored runs satisfy the invariant of the workflow engine, which does not depend on the linked job.
\<close>

definition on_track :: "workflow_run \<Rightarrow> bool" where
  "on_track r \<longleftrightarrow> progressed r 0"

lemma on_track_linked [simp]: "on_track (r\<lparr>wr_scan_job_id := x\<rparr>) = on_track r"
  by (simp add: on_track_def progressed_def finished_def active_at_def wf_run_def settled_def waiting_def
      ran_def cleared_def)

lemma scanning_linked [simp]: "scanning_stage_active (r\<lparr>wr_scan_job_id := x\<rparr>) = scanning_stage_active r"
  by (simp add: scanning_stage_active_def current_stage_name_def current_stage_def)

lemma reachable_on_track: "wf_reachable r \<Longrightarrow> on_track r"
  unfolding on_track_def by (rule reachable_progressed)

lemma on_track_step: "on_track r \<Longrightarrow> wf_step r s \<Longrightarrow> on_track s"
  unfolding on_track_def using step_progress by (fastforce simp: progressed_def)

lemma scan_names: "i < 11 \<Longrightarrow> STAGE_ORDER ! i \<in> set SCAN_STAGES \<longleftrightarrow> 1 \<le> i \<and> i \<le> 3"
  by (erule less_11E; simp add: STAGE_ORDER_def SCAN_STAGES_def)

lemma active_scanning:
  "active_at r k \<Longrightarrow> scanning_stage_active r \<longleftrightarrow> 1 \<le> k \<and> k \<le> 3"
  using scan_names [of k] wf_run_name [of r k]
  by (simp add: scanning_stage_active_def current_stage_name_def active_current(1) [of r k])
    (simp add: active_at_def)

lemma finished_not_scanning: "finished r \<Longrightarrow> \<not> scanning_stage_active r"
  by (simp add: scanning_stage_active_def current_stage_name_def current_stage_None)

lemma on_track_scanning:
  assumes "on_track r" and "scanning_stage_active r"
  obtains k where "active_at r k" and "1 \<le> k" and "k \<le> 3"
  using assms finished_not_scanning active_scanning by (auto simp: on_track_def progressed_def)

text \<open>The engine moves the stages and the status of a run, never the columns that say what it is about.\<close>

definition same_run :: "workflow_run \<Rightarrow> workflow_run \<Rightarrow> bool" where
  "same_run r s \<longleftrightarrow> wr_id s = wr_id r \<and> wr_organization_id s = wr_organization_id r \<and>
     wr_site_id s = wr_site_id r \<and> wr_network_id s = wr_network_id r \<and>
     wr_scan_job_id s = wr_scan_job_id r \<and> wr_created_by s = wr_created_by r"

lemma same_run_trans: "same_run q r \<Longrightarrow> same_run r s \<Longrightarrow> same_run q s"
  by (simp add: same_run_def)

lemma same_run_parts [simp]:
  "same_run r (set_stage n f r)" "same_run r (set_current f r)" "same_run r (finalize r)" "same_run r r"
  "same_run (set_stage n f r) s = same_run r s"
  "same_run r (s\<lparr>wr_status := w\<rparr>) = same_run r s"
  "same_run r (s\<lparr>intrusive_approved := b\<rparr>) = same_run r s"
  by (simp_all add: same_run_def set_stage_def set_current_def finalize_def)

lemma activate_from_run: "activate_from names r now = Inr s \<Longrightarrow> same_run r s"
proof (induction names r now arbitrary: s rule: activate_from.induct)
  case (2 name names run now)
  then show ?case
    by (auto simp: res_bind_Inr split: if_split_asm)
qed auto

lemma skip_non_tail_run: "skip_non_tail names r = Inr s \<Longrightarrow> same_run r s"
proof (induction names r arbitrary: s rule: skip_non_tail.induct)
  case (2 name names run)
  show ?case
  proof (cases "name \<in> set TAIL")
    case False
    then obtain x :: wf_stage where x: "skip_non_tail names (if st_status x = WorkflowStageStatus.PENDING
        then set_stage name (\<lambda>t. t\<lparr>st_status := WorkflowStageStatus.SKIPPED\<rparr>) run else run) = Inr s"
      using 2(3) by (auto simp: res_bind_Inr)
    show ?thesis using 2(2) [OF False x] by (simp split: if_split_asm)
  qed (use 2 in simp)
qed auto

lemma advance_run_row:
  assumes "advance r out d now = Inr s"
  shows "same_run r s"
proof -
  obtain current i r2 where "activate_next r2 i now = Inr s"
    and "same_run (set_current (\<lambda>s. s\<lparr>st_status := out, st_detail := d, st_ended_at := Some now\<rparr>) r) r2"
    using assms
    by (auto simp: advance_def Let_def res_bind_Inr dest!: skip_non_tail_run
        split: option.split_asm if_split_asm)
  then show ?thesis
    unfolding activate_next_def by (blast intro: same_run_trans same_run_parts(2) activate_from_run)
qed

lemma fail_scanning_row: "fail_scanning r d now = Inr s \<Longrightarrow> same_run r s"
  by (auto simp: fail_scanning_def split: if_split_asm intro: advance_run_row)

lemma decide_intrusive_row:
  assumes "decide_intrusive r b now = Inr s"
  shows "same_run r s"
proof -
  obtain r1 i where "activate_next r1 i now = Inr s" and "same_run r r1"
    using assms by (auto simp: decide_intrusive_def Let_def res_bind_Inr split: if_split_asm)
  then show ?thesis unfolding activate_next_def by (blast intro: same_run_trans activate_from_run)
qed

lemma failed_scan_leaves:
  assumes "on_track r" and "scanning_stage_active r"
  obtains s where "fail_scanning r d now = Inr s" and "on_track s" and "\<not> scanning_stage_active s"
    and "same_run r s"
proof -
  obtain k where k: "active_at r k" "1 \<le> k" "k \<le> 3" using assms by (rule on_track_scanning)
  then obtain s where s: "advance r WorkflowStageStatus.FAILED d now = Inr s" "progressed s 8"
    using advance_active [OF k(1), of WorkflowStageStatus.FAILED d now] by auto
  have "progressed s 0" using s(2) by (auto simp: progressed_def)
  moreover have "\<not> scanning_stage_active s"
    using s(2) finished_not_scanning active_scanning by (fastforce simp: progressed_def)
  ultimately show ?thesis
    using that s(1) advance_run_row [OF s(1)] assms(2) by (simp add: on_track_def fail_scanning_def)
qed

lemma failed_scan_left:
  assumes "on_track r" and "scanning_stage_active r" and "fail_scanning r d now = Inr s"
  shows "on_track s \<and> \<not> scanning_stage_active s \<and> same_run r s"
  using failed_scan_leaves [OF assms(1,2), of d now] assms(3) by auto

lemma completed_scan_moves:
  assumes "on_track r" and "scanning_stage_active r"
  obtains s where "advance r WorkflowStageStatus.COMPLETED d now = Inr s" and "on_track s" and "same_run r s"
proof -
  obtain k where k: "active_at r k" "1 \<le> k" "k \<le> 3" using assms by (rule on_track_scanning)
  then obtain s where s: "advance r WorkflowStageStatus.COMPLETED d now = Inr s" "progressed s (Suc k)"
    using advance_active [OF k(1), of WorkflowStageStatus.COMPLETED d now] by auto
  then show ?thesis using that [OF s(1)] advance_run_row [OF s(1)] by (auto simp: on_track_def progressed_def)
qed

subsection \<open>Dispatching a stage\<close>

text \<open>Either no job is made and the run is not waiting for one, or a queued job is made and linked.\<close>

lemma scanning_has_job_stage:
  "scanning_stage_active r \<longleftrightarrow> map_of STAGE_JOB_MAP (or_else (current_stage_name r) []) \<noteq> None"
  by (auto simp: scanning_stage_active_def STAGE_JOB_MAP_def SCAN_STAGES_def split: option.split)

lemma dispatch_effect:
  assumes "dispatch_current_scan_stage env cfg seen run db = Inr (db1, run1)" and "on_track run"
  shows "(db1 = db \<and> on_track run1 \<and> same_run run run1 \<and> \<not> scanning_stage_active run1) \<or>
    (\<exists>p rq j. create_scan_job env cfg p rq db = Inr (db1, j) \<and> rq_network_id rq = wr_network_id run \<and>
       run1 = run\<lparr>wr_scan_job_id := Some (sj_id j)\<rparr> \<and> scanning_stage_active run)"
proof (cases "scanning_stage_active run")
  case False
  then show ?thesis using assms scanning_has_job_stage [of run]
    by (auto simp: dispatch_current_scan_stage_def Let_def same_run_def)
next
  case True
  then obtain wanted where wanted: "map_of STAGE_JOB_MAP (or_else (current_stage_name run) []) = Some wanted"
    using scanning_has_job_stage [of run] by blast
  have refused: ?thesis if "refuse_scan env run d db = Inr (db1, run1)" for d
    using that failed_scan_left [OF assms(2) True] by (auto simp: refuse_scan_def res_bind_Inr)
  show ?thesis
  proof (cases "network_busy (wr_network_id run) seen db")
    case True
    then show ?thesis using assms(1) refused by (simp add: dispatch_current_scan_stage_def wanted)
  next
    case free: False
    show ?thesis
    proof (cases "select_scout run db")
      case None
      then show ?thesis using assms(1) refused free by (simp add: dispatch_current_scan_stage_def wanted)
    next
      case (Some p)
      let ?rq = "stage_request run p wanted cfg db"
      have rq: "rq_network_id ?rq = wr_network_id run" by (simp add: stage_request_def assessment_request_def)
      show ?thesis
        using assms(1) refused free Some True rq
        by (auto simp: dispatch_current_scan_stage_def wanted
            split: if_split_asm sum.split_asm prod.split_asm job_error.split_asm)
    qed
  qed
qed

subsection \<open>A job that ended\<close>

text \<open>At most one row has a given value of an optional column.\<close>

definition unique_key :: "('a \<Rightarrow> 'k option) \<Rightarrow> 'a list \<Rightarrow> bool" where
  "unique_key f xs \<longleftrightarrow> (\<forall>y. length (filter (\<lambda>x. f x = Some y) xs) \<le> 1)"

lemma unique_key_filter:
  assumes "unique_key f xs"
  shows "filter (\<lambda>x. f x = Some y) xs = [] \<or> (\<exists>x. filter (\<lambda>x. f x = Some y) xs = [x])"
proof -
  have "length (filter (\<lambda>x. f x = Some y) xs) \<le> 1" using assms by (simp add: unique_key_def)
  then show ?thesis by (cases "filter (\<lambda>x. f x = Some y) xs") auto
qed

lemma unique_keyD:
  assumes "unique_key f xs" and "f x = Some y" and "f z = Some y" and "x \<in> set xs" and "z \<in> set xs"
  shows "x = z"
proof -
  have "x \<in> set (filter (\<lambda>x. f x = Some y) xs)" "z \<in> set (filter (\<lambda>x. f x = Some y) xs)"
    using assms by simp_all
  with unique_key_filter [OF assms(1), of y] show ?thesis by (auto simp del: set_filter)
qed

lemma unique_key_update:
  assumes "unique_key f xs" and "\<And>x. x \<in> set xs \<Longrightarrow> P x \<Longrightarrow> f (g x) = f x \<or> f (g x) = None"
  shows "unique_key f (update_where P g xs)"
proof -
  have "length (filter (\<lambda>x. f x = Some y) (update_where P g xs)) \<le> length (filter (\<lambda>x. f x = Some y) xs)" for y
    using assms(2) by (induction xs) fastforce+
  then show ?thesis using assms(1) unfolding unique_key_def by (meson order_trans)
qed

lemma unique_key_append:
  assumes "unique_key f xs" and "\<And>y. f x = Some y \<Longrightarrow> \<forall>z \<in> set xs. f z \<noteq> Some y"
  shows "unique_key f (xs @ [x])"
  unfolding unique_key_def
proof
  fix y
  show "length (filter (\<lambda>x. f x = Some y) (xs @ [x])) \<le> 1"
  proof (cases "f x = Some y")
    case True
    then have "filter (\<lambda>x. f x = Some y) xs = []" using assms(2) by (simp add: filter_empty_conv)
    then show ?thesis by simp
  qed (use assms(1) in \<open>simp add: unique_key_def\<close>)
qed

lemma unique_key_total: "distinct (map key xs) \<Longrightarrow> unique_key (\<lambda>x. Some (key x)) xs"
  by (induction xs) (auto simp: unique_key_def filter_empty_conv image_iff)

lemma length_filter_put:
  assumes "\<forall>x \<in> set xs. f x \<noteq> Some v"
  shows "length (filter (\<lambda>x. f x = Some v) (update_where P (\<lambda>_. y) xs)) \<le> length (filter P xs)"
  using assms by (induction xs) auto

lemma length_filter_put_other:
  assumes "f y \<noteq> Some v"
  shows "length (filter (\<lambda>x. f x = Some v) (update_where P (\<lambda>_. y) xs)) \<le> length (filter (\<lambda>x. f x = Some v) xs)"
  using assms by (induction xs) auto

lemma unique_key_put:
  assumes "distinct (map k xs)" and "unique_key f xs" and "y \<in> set xs" and "k y' = k y"
    and "f y' = f y \<or> (\<exists>v. f y' = Some v \<and> (\<forall>x \<in> set xs. f x \<noteq> Some v))"
  shows "unique_key f (update_where (\<lambda>x. k x = k y') (\<lambda>_. y') xs)"
  using assms(5)
proof
  assume same: "f y' = f y"
  have "x = y" if "x \<in> set xs" "k x = k y'" for x
    using that assms(1,3,4) by (auto simp: distinct_map dest: inj_onD)
  then show ?thesis using same assms(2) by (intro unique_key_update) auto
next
  assume "\<exists>v. f y' = Some v \<and> (\<forall>x \<in> set xs. f x \<noteq> Some v)"
  then obtain v where v: "f y' = Some v" "\<forall>x \<in> set xs. f x \<noteq> Some v" by blast
  have key: "length (filter (\<lambda>x. k x = k y') xs) \<le> 1"
    using unique_key_total [OF assms(1)] by (simp add: unique_key_def)
  show ?thesis unfolding unique_key_def
  proof
    fix w
    show "length (filter (\<lambda>x. f x = Some w) (update_where (\<lambda>x. k x = k y') (\<lambda>_. y') xs)) \<le> 1"
    proof (cases "w = v")
      case True
      then show ?thesis using length_filter_put [OF v(2)] key by (meson order_trans)
    next
      case False
      have "f y' \<noteq> Some w" using False v(1) by simp
      have "length (filter (\<lambda>x. f x = Some w) xs) \<le> 1" using assms(2) by (simp add: unique_key_def)
      with length_filter_put_other [where f = f and y = y' and v = w and xs = xs] \<open>f y' \<noteq> Some w\<close>
      show ?thesis by (meson order_trans)
    qed
  qed
qed

text \<open>No two runs or sessions have the same key, or wait for the same job.\<close>

definition runs_ok :: "'a dispatch_db_scheme \<Rightarrow> bool" where
  "runs_ok db \<longleftrightarrow> distinct (map wr_id (runs db)) \<and> unique_key wr_scan_job_id (runs db) \<and>
     (\<forall>r \<in> set (runs db). on_track r)"

definition sessions_ok :: "'a pentest_db_scheme \<Rightarrow> bool" where
  "sessions_ok db \<longleftrightarrow> distinct (map ps_id (sessions db)) \<and> unique_key ps_scan_job_id (sessions db)"

lemma run_for_job_some:
  "run_for_job j db = Some r \<Longrightarrow> r \<in> set (runs db) \<and> wr_scan_job_id r = Some j"
  by (auto simp: run_for_job_def dest: find_SomeD)

lemma run_for_job_unique:
  assumes "runs_ok db" and "r \<in> set (runs db)" and "wr_scan_job_id r = Some j"
  shows "run_for_job j db = Some r"
proof (cases "run_for_job j db")
  case None
  then show ?thesis using find_NoneD [of _ "runs db" r] assms(2,3) by (auto simp: run_for_job_def)
next
  case (Some x)
  then show ?thesis
    using unique_keyD [of wr_scan_job_id "runs db" x j r] run_for_job_some [OF Some] assms
    by (simp add: runs_ok_def)
qed

lemma put_run_tables [simp]:
  "jobs (put_run r db) = jobs db" "attempts (put_run r db) = attempts db"
  "sessions (put_run r db) = sessions db" "schedules (put_run r db) = schedules db"
  "roes (put_run r db) = roes db"
  by (simp_all add: put_run_def)

lemma in_put_run:
  "x \<in> set (runs (put_run s db)) \<longleftrightarrow>
     (x = s \<and> (\<exists>r \<in> set (runs db). wr_id r = wr_id s)) \<or> (x \<in> set (runs db) \<and> wr_id x \<noteq> wr_id s)"
  by (auto simp: put_run_def update_where_def)

text \<open>Storing a run that the engine moved keeps the invariant, also with a fresh job linked to it.\<close>

lemma put_run_ok:
  assumes "runs_ok db" and "r \<in> set (runs db)" and "wr_id s = wr_id r" and "on_track s"
    and "wr_scan_job_id s = wr_scan_job_id r \<or>
      (\<exists>j. wr_scan_job_id s = Some j \<and> (\<forall>x \<in> set (runs db). wr_scan_job_id x \<noteq> Some j))"
  shows "runs_ok (put_run s db)"
proof -
  have "unique_key wr_scan_job_id (runs (put_run s db))"
    using unique_key_put [OF _ _ assms(2,3,5)] assms(1) by (simp add: put_run_def runs_ok_def)
  moreover have "map wr_id (runs (put_run s db)) = map wr_id (runs db)"
    by (simp add: put_run_def update_where_def)
  moreover have "\<forall>x \<in> set (runs (put_run s db)). on_track x"
    using assms(1,4) by (auto simp: in_put_run runs_ok_def)
  ultimately show ?thesis using assms(1) by (simp add: runs_ok_def)
qed

text \<open>What the end of a job does to the run that waits for it.\<close>

definition run_moved ::
  "job_env \<Rightarrow> app_settings \<Rightarrow> scan_job \<Rightarrow> JobStatus \<Rightarrow> 'a dispatch_db_scheme \<Rightarrow> 'a dispatch_db_scheme \<Rightarrow> bool" where
  "run_moved env cfg j status db db' \<longleftrightarrow>
     (\<exists>r s. r \<in> set (runs db) \<and> wr_scan_job_id r = Some (sj_id j) \<and> wr_id s = wr_id r \<and>
        wr_network_id s = wr_network_id r \<and> on_track s \<and>
        ((db' = put_run s db \<and> wr_scan_job_id s = wr_scan_job_id r \<and> \<not> scanning_stage_active s) \<or>
         (status = JobStatus.COMPLETED \<and> (\<exists>p rq j' db1. create_scan_job env cfg p rq db = Inr (db1, j') \<and>
            rq_network_id rq = wr_network_id r \<and> wr_scan_job_id s = Some (sj_id j') \<and> db' = put_run s db1))))"

lemma terminal_effect:
  assumes "runs_ok db" and "on_scan_job_terminal env cfg seen j status db = Inr db'"
  shows "(db' = db \<and> (\<forall>r \<in> set (runs db). wr_scan_job_id r = Some (sj_id j) \<longrightarrow> \<not> scanning_stage_active r)) \<or>
    run_moved env cfg j status db db'"
proof (cases "\<exists>r. run_for_job (sj_id j) db = Some r \<and> scanning_stage_active r")
  case False
  then have "db' = db"
    using assms(2) by (auto simp: on_scan_job_terminal_def split: option.split_asm)
  then show ?thesis using False run_for_job_unique [OF assms(1)] by blast
next
  case True
  then obtain r where r: "run_for_job (sj_id j) db = Some r" "scanning_stage_active r" by blast
  note mem = run_for_job_some [OF r(1)]
  have track: "on_track r" using assms(1) mem by (simp add: runs_ok_def)
  show ?thesis
  proof (cases "status = JobStatus.COMPLETED")
    case False
    then obtain s where s: "fail_scanning r (Some (or_else (nonempty (sj_error_message j))
        (''scan '' @ job_status_value status))) (je_now env) = Inr s" "db' = put_run s db"
      using assms(2) r by (auto simp: on_scan_job_terminal_def res_bind_Inr)
    then show ?thesis
      using failed_scan_left [OF track r(2) s(1)] mem by (auto simp: run_moved_def same_run_def)
  next
    case True
    then obtain r1 db1 s where s: "advance r WorkflowStageStatus.COMPLETED None (je_now env) = Inr r1"
        "dispatch_current_scan_stage env cfg seen r1 db = Inr (db1, s)" "db' = put_run s db1"
      using assms(2) r by (auto simp: on_scan_job_terminal_def res_bind_Inr)
    obtain r2 where "advance r WorkflowStageStatus.COMPLETED None (je_now env) = Inr r2" "on_track r2" "same_run r r2"
      using track r(2) by (rule completed_scan_moves)
    with s(1) have r1: "on_track r1" "same_run r r1" by simp_all
    from dispatch_effect [OF s(2) r1(1)] show ?thesis
    proof
      assume "db1 = db \<and> on_track s \<and> same_run r1 s \<and> \<not> scanning_stage_active s"
      then show ?thesis using s(3) mem r1(2) by (auto simp: run_moved_def same_run_def)
    next
      assume "\<exists>p rq j'. create_scan_job env cfg p rq db = Inr (db1, j') \<and> rq_network_id rq = wr_network_id r1 \<and>
        s = r1\<lparr>wr_scan_job_id := Some (sj_id j')\<rparr> \<and> scanning_stage_active r1"
      then obtain p rq j' where made: "create_scan_job env cfg p rq db = Inr (db1, j')"
          "rq_network_id rq = wr_network_id r1" and link: "s = r1\<lparr>wr_scan_job_id := Some (sj_id j')\<rparr>" by blast
      have "wr_id s = wr_id r" "on_track s" "wr_scan_job_id s = Some (sj_id j')"
        "wr_network_id s = wr_network_id r" "wr_network_id r1 = wr_network_id r"
        using r1 by (simp_all add: link same_run_def)
      then show ?thesis unfolding run_moved_def using made s(3) mem True
        by (intro disjI2 exI [of _ r] exI [of _ s]) auto
    qed
  qed
qed

subsection \<open>The reaper\<close>

lemma failed_terminal_total:
  assumes "runs_ok db" and "status \<noteq> JobStatus.COMPLETED"
  obtains db' where "on_scan_job_terminal env cfg seen j status db = Inr db'"
proof (cases "\<exists>r. run_for_job (sj_id j) db = Some r \<and> scanning_stage_active r")
  case False
  then have "on_scan_job_terminal env cfg seen j status db = Inr db"
    by (auto simp: on_scan_job_terminal_def split: option.split)
  then show ?thesis by (rule that)
next
  case True
  then obtain r where r: "run_for_job (sj_id j) db = Some r" "scanning_stage_active r" by blast
  then have "on_track r" using run_for_job_some assms(1) by (auto simp: runs_ok_def)
  then obtain s where "fail_scanning r (Some (or_else (nonempty (sj_error_message j))
      (''scan '' @ job_status_value status))) (je_now env) = Inr s"
    using r(2) by (rule failed_scan_leaves)
  then show ?thesis using that r assms(2) by (simp add: on_scan_job_terminal_def lift_error_def)
qed

lemma failed_terminal_effect:
  assumes "runs_ok db" and "status \<noteq> JobStatus.COMPLETED"
    and "on_scan_job_terminal env cfg seen j status db = Inr db'"
  shows "\<exists>rs. db' = db\<lparr>runs := rs\<rparr>" and "runs_ok db'"
    and "r \<in> set (runs db') \<Longrightarrow> scanning_stage_active r \<Longrightarrow> r \<in> set (runs db) \<and> wr_scan_job_id r \<noteq> Some (sj_id j)"
proof -
  note cases = terminal_effect [OF assms(1,3)]
  show "\<exists>rs. db' = db\<lparr>runs := rs\<rparr>"
    using cases assms(2) by (auto simp: run_moved_def put_run_def intro: exI [of _ "runs db"])
  show "runs_ok db'"
    using cases assms(1,2) by (auto simp: run_moved_def intro: put_run_ok)
  show "r \<in> set (runs db) \<and> wr_scan_job_id r \<noteq> Some (sj_id j)"
    if "r \<in> set (runs db')" "scanning_stage_active r"
    using cases
  proof
    assume "db' = db \<and> (\<forall>r \<in> set (runs db). wr_scan_job_id r = Some (sj_id j) \<longrightarrow> \<not> scanning_stage_active r)"
    then show ?thesis using that by auto
  next
    assume "run_moved env cfg j status db db'"
    then obtain q s where q: "q \<in> set (runs db)" "wr_scan_job_id q = Some (sj_id j)" "wr_id s = wr_id q"
        "db' = put_run s db" "\<not> scanning_stage_active s"
      using assms(2) by (auto simp: run_moved_def)
    have mem: "r \<in> set (runs db)" "wr_id r \<noteq> wr_id q" using that q by (auto simp: in_put_run)
    then show ?thesis
      using unique_keyD [of wr_scan_job_id "runs db" r "sj_id j" q] assms(1) q(1,2) by (auto simp: runs_ok_def)
  qed
qed

lemma store_evidence_tables:
  assumes "store_session_evidence now ps raw db = (db1, ps1)"
  shows "\<exists>as. db1 = db\<lparr>artifacts := as\<rparr>"
proof -
  have "db1 = db \<or> db1 = purge_job_artifacts (ps_scan_job_id ps) db"
    using assms by (simp add: store_session_evidence_def Let_def split: if_split_asm)
  moreover have "\<exists>as. purge_job_artifacts (ps_scan_job_id ps) db = db\<lparr>artifacts := as\<rparr>"
    by (cases "ps_scan_job_id ps") (auto simp: purge_job_artifacts_def intro: exI [of _ "artifacts db"])
  moreover have "db = db\<lparr>artifacts := artifacts db\<rparr>" by simp
  ultimately show ?thesis by metis
qed

lemma complete_session_tables:
  assumes "complete_session_for_job clock j status evidence now db = Inr db'"
  shows "\<exists>ss as. db' = db\<lparr>sessions := ss, artifacts := as\<rparr>"
proof (cases "\<exists>ps. session_for_job (sj_id j) db = Some (Some ps) \<and> ps_status ps \<in> set ACTIVE_SESSION")
  case False
  then have "db' = db"
    using assms by (auto simp: complete_session_for_job_def split: option.splits if_split_asm)
  then show ?thesis by (intro exI [of _ "sessions db"] exI [of _ "artifacts db"]) simp
next
  case True
  then obtain ps where found: "session_for_job (sj_id j) db = Some (Some ps)" "ps_status ps \<in> set ACTIVE_SESSION"
    by blast
  obtain db1 ps1 where st: "(if ps_evidence ps = [] then store_session_evidence clock ps
      (case evidence of Some (JObj kvs) \<Rightarrow> kvs | _ \<Rightarrow> []) db else (db, ps)) = (db1, ps1)" by force
  obtain as where "db1 = db\<lparr>artifacts := as\<rparr>"
  proof (cases "ps_evidence ps = []")
    case True
    then show ?thesis using st that store_evidence_tables by fastforce
  next
    case False
    then show ?thesis using st that [of "artifacts db"] by simp
  qed
  moreover obtain ss where "db' = db1\<lparr>sessions := ss\<rparr>"
    using assms found st by (auto simp: complete_session_for_job_def put_session_def)
  ultimately show ?thesis by (intro exI [of _ ss] exI [of _ as]) simp
qed

lemma complete_session_ok:
  assumes "sessions_ok db"
  obtains db' where "complete_session_for_job clock j status evidence now db = Inr db'" and "sessions_ok db'"
proof -
  have "session_for_job (sj_id j) db \<noteq> None"
    using unique_key_filter [of ps_scan_job_id "sessions db" "sj_id j"] assms
    by (auto simp: session_for_job_def one_or_none_def sessions_ok_def)
  then have "\<exists>db'. complete_session_for_job clock j status evidence now db = Inr db'"
    unfolding complete_session_for_job_def Let_def by (auto split: option.split prod.split)
  then obtain db' where db': "complete_session_for_job clock j status evidence now db = Inr db'" by blast
  have "unattended db db'" using finish_unattended [OF db'] assms by (simp add: sessions_ok_def)
  then obtain P f where f: "session_row f" "sessions db' = update_where P f (sessions db)"
    by (auto simp: unattended_def)
  have "sessions_ok db'"
    using assms session_row.ids [OF f(1)] unique_key_update [of ps_scan_job_id "sessions db" P f]
      session_row.approval_kept(4) [OF f(1)] by (simp add: sessions_ok_def f(2))
  then show ?thesis using that db' by blast
qed


text \<open>What a reaped job leaves behind: itself expired, no active attempt, and no run waiting for it.\<close>

definition reaped_to ::
  "time \<Rightarrow> scan_job list \<Rightarrow> 'a dispatch_db_scheme \<Rightarrow> 'a dispatch_db_scheme \<Rightarrow> bool" where
  "reaped_to now due db db' \<longleftrightarrow> runs_ok db' \<and> sessions_ok db' \<and>
     jobs db' = update_where (\<lambda>x. sj_id x \<in> sj_id ` set due) (expired_job now) (jobs db) \<and>
     attempts db' = update_where (\<lambda>a. at_scan_job_id a \<in> sj_id ` set due \<and> at_status a \<in> set ACTIVE_ATTEMPT)
       (\<lambda>a. a\<lparr>at_status := ''expired'', at_finished_at := Some now\<rparr>) (attempts db) \<and>
     (\<forall>r \<in> set (runs db'). scanning_stage_active r \<longrightarrow>
        r \<in> set (runs db) \<and> (\<forall>j \<in> set due. wr_scan_job_id r \<noteq> Some (sj_id j)))"

lemma expired_job_id [simp]: "sj_id (expired_job now j) = sj_id j"
  by (simp add: expired_job_def split: prod.split)

lemma reap_job_effect:
  assumes "runs_ok db" and "sessions_ok db" and "j \<in> set (jobs db)" and "distinct (map sj_id (jobs db))"
  obtains db' where "reap_job env cfg now j db = Inr db'" and "reaped_to now [j] db db'"
proof -
  let ?db1 = "(put_job (expired_job now j) db)\<lparr>attempts := expire_attempts (sj_id j) now (attempts db)\<rparr>"
  have only: "x = j" if "x \<in> set (jobs db)" "sj_id x = sj_id j" for x
    using that assms(3,4) by (auto simp: distinct_map dest: inj_onD)
  have jobs1: "jobs ?db1 = update_where (\<lambda>x. sj_id x \<in> sj_id ` set [j]) (expired_job now) (jobs db)"
    using only by (auto simp: put_job_def update_where_def)
  have ok: "runs_ok ?db1" "runs ?db1 = runs db" "sessions ?db1 = sessions db"
    using assms(1) by (simp_all add: runs_ok_def put_job_def)
  obtain db2 where db2: "on_scan_job_terminal env cfg (jobs db) (expired_job now j) JobStatus.EXPIRED ?db1 = Inr db2"
    using failed_terminal_total [OF ok(1), of JobStatus.EXPIRED env cfg "jobs db" "expired_job now j"] by auto
  note effect = failed_terminal_effect [OF ok(1) _ db2, simplified]
  obtain rs where rs: "db2 = ?db1\<lparr>runs := rs\<rparr>" using effect(1) by blast
  have sess2: "sessions_ok db2" using assms(2) ok(3) by (simp add: rs sessions_ok_def)
  obtain db3 where db3: "reap_job env cfg now j db = Inr db3" "\<exists>ss as. db3 = db2\<lparr>sessions := ss, artifacts := as\<rparr>"
      "sessions_ok db3"
  proof (cases "sj_mode j = JobMode.CONTROLLED_PENTEST")
    case True
    obtain db3 where db3: "complete_session_for_job (je_now env) (expired_job now j) JobStatus.EXPIRED None now db2
        = Inr db3" "sessions_ok db3"
      using sess2 by (rule complete_session_ok)
    then show ?thesis using that [of db3] complete_session_tables [OF db3(1)] True db2
      by (simp add: reap_job_def Let_def lift_error_def)
  next
    case False
    have "db2 = db2\<lparr>sessions := sessions db2, artifacts := artifacts db2\<rparr>" by simp
    then have "\<exists>ss as. db2 = db2\<lparr>sessions := ss, artifacts := as\<rparr>" by blast
    then show ?thesis using that [of db2] sess2 db2 False by (simp add: reap_job_def Let_def)
  qed
  then obtain ss as where db3': "db3 = db2\<lparr>sessions := ss, artifacts := as\<rparr>" by blast
  have "reaped_to now [j] db db3"
    unfolding reaped_to_def
  proof (intro conjI)
    show "runs_ok db3" using effect(2) by (simp add: db3' runs_ok_def)
    show "jobs db3 = update_where (\<lambda>x. sj_id x \<in> sj_id ` set [j]) (expired_job now) (jobs db)"
      using jobs1 by (simp add: db3' rs)
    show "\<forall>r \<in> set (runs db3). scanning_stage_active r \<longrightarrow>
        r \<in> set (runs db) \<and> (\<forall>j \<in> set [j]. wr_scan_job_id r \<noteq> Some (sj_id j))"
      using effect(3) ok(2) by (simp add: db3')
  qed (use db3(3) in \<open>simp_all add: db3' rs expire_attempts_def\<close>)
  then show ?thesis using that db3(1) by blast
qed

lemma reap_jobs_effect:
  assumes "runs_ok db" and "sessions_ok db" and "distinct (map sj_id (jobs db))" and "set due \<subseteq> set (jobs db)"
    and "distinct (map sj_id due)"
  shows "\<exists>db'. reap_jobs env cfg now due db = Inr db' \<and> reaped_to now due db db'"
  using assms
proof (induction due arbitrary: db)
  case Nil
  then show ?case by (auto simp: reaped_to_def update_where_def)
next
  case (Cons j due)
  obtain db1 where db1: "reap_job env cfg now j db = Inr db1" "reaped_to now [j] db db1"
    using reap_job_effect [of db j env cfg now] Cons.prems by auto
  have jobs1: "jobs db1 = update_where (\<lambda>x. sj_id x = sj_id j) (expired_job now) (jobs db)"
    using db1(2) by (simp add: reaped_to_def)
  have "distinct (map sj_id (jobs db1))"
    using Cons.prems(3) by (simp add: jobs1 update_where_def comp_def if_distrib [of sj_id] cong: if_cong)
  moreover have "set due \<subseteq> set (jobs db1)"
    using Cons.prems(4,5) by (auto simp: jobs1 update_where_def image_iff)
  ultimately obtain db' where db': "reap_jobs env cfg now due db1 = Inr db'" "reaped_to now due db1 db'"
    using Cons.IH [of db1] Cons.prems(5) db1(2) by (auto simp: reaped_to_def)
  have "reaped_to now (j # due) db db'"
    unfolding reaped_to_def
  proof (intro conjI)
    show "jobs db' = update_where (\<lambda>x. sj_id x \<in> sj_id ` set (j # due)) (expired_job now) (jobs db)"
      using db'(2) Cons.prems(5) by (auto simp: reaped_to_def jobs1 update_where_def)
    show "attempts db' = update_where (\<lambda>a. at_scan_job_id a \<in> sj_id ` set (j # due) \<and> at_status a \<in> set ACTIVE_ATTEMPT)
       (\<lambda>a. a\<lparr>at_status := ''expired'', at_finished_at := Some now\<rparr>) (attempts db)"
      using db'(2) db1(2) by (auto simp: reaped_to_def update_where_def ACTIVE_ATTEMPT_def)
  qed (use db'(2) db1(2) in \<open>auto simp: reaped_to_def\<close>)
  then show ?case using db1(1) db'(1) by auto
qed

text \<open>
  C36. A sweep of the reaper always succeeds: it expires exactly the active jobs of its scope whose deadline
  (the envelope's expiry, or the end of the signed execution time plus the grace period) has passed,
  leaves every other job alone, ends the active attempts of the expired ones, and no workflow run keeps
  waiting in a scanning stage for one of them; runs that were not waiting for them are as before.
\<close>

theorem reaper_clears_stale:
  assumes "runs_ok db" and "sessions_ok db" and "distinct (map sj_id (jobs db))"
  shows "\<exists>db'. reap_stale_jobs env cfg org sites now db =
      Inr (db', length (filter (reapable cfg org sites now) (jobs db))) \<and>
    jobs db' = map (\<lambda>j. if reapable cfg org sites now j then expired_job now j else j) (jobs db) \<and>
    (\<forall>j \<in> set (jobs db). reapable cfg org sites now j \<longrightarrow>
       (\<forall>a \<in> set (attempts db'). at_scan_job_id a = sj_id j \<longrightarrow> at_status a \<notin> set ACTIVE_ATTEMPT) \<and>
       (\<forall>r \<in> set (runs db'). wr_scan_job_id r = Some (sj_id j) \<longrightarrow> \<not> scanning_stage_active r)) \<and>
    (\<forall>r \<in> set (runs db'). scanning_stage_active r \<longrightarrow> r \<in> set (runs db))"
proof -
  let ?due = "filter (reapable cfg org sites now) (jobs db)"
  have "distinct (map sj_id ?due)" using assms(3) by (simp add: distinct_map_filter)
  then obtain db' where db': "reap_jobs env cfg now ?due db = Inr db'" "reaped_to now ?due db db'"
    using reap_jobs_effect [OF assms, of ?due env cfg now] by auto
  have "sj_id j \<in> sj_id ` set ?due \<longleftrightarrow> reapable cfg org sites now j" if "j \<in> set (jobs db)" for j
    using that assms(3) by (auto simp: distinct_map dest: inj_onD)
  then have jobs': "jobs db' = map (\<lambda>j. if reapable cfg org sites now j then expired_job now j else j) (jobs db)"
    using db'(2) by (auto simp: reaped_to_def update_where_def)
  have "reap_stale_jobs env cfg org sites now db = Inr (db', length ?due)"
    by (simp add: reap_stale_jobs_def db'(1))
  moreover have "\<forall>j \<in> set (jobs db). reapable cfg org sites now j \<longrightarrow>
       (\<forall>a \<in> set (attempts db'). at_scan_job_id a = sj_id j \<longrightarrow> at_status a \<notin> set ACTIVE_ATTEMPT) \<and>
       (\<forall>r \<in> set (runs db'). wr_scan_job_id r = Some (sj_id j) \<longrightarrow> \<not> scanning_stage_active r)"
    using db'(2) by (auto simp: reaped_to_def update_where_def ACTIVE_ATTEMPT_def)
  ultimately show ?thesis using jobs' db'(2) by (auto simp: reaped_to_def)
qed

subsection \<open>The handlers keep the runs in order\<close>

definition unlinked :: "uuid \<Rightarrow> 'a dispatch_db_scheme \<Rightarrow> bool" where
  "unlinked i db \<longleftrightarrow> (\<forall>r \<in> set (runs db). wr_scan_job_id r \<noteq> Some i)"

lemma create_workflow_ok:
  assumes "create_workflow fresh org site net web intrusive by_user now db = Inr (db', run)"
    and "runs_ok db" and "fresh \<notin> wr_id ` set (runs db)"
  shows "runs_ok db'" and "db' = db\<lparr>runs := runs db @ [run]\<rparr>" and "wr_scan_job_id run = None"
    and "wr_id run = fresh" and "\<not> scanning_stage_active run"
proof -
  let ?r = "\<lparr>wr_id = fresh, wr_organization_id = org, wr_site_id = site, wr_network_id = net,
     wr_scan_job_id = None, wr_status = WorkflowRunStatus.PENDING, include_web = web,
     include_intrusive = intrusive, intrusive_approved = False,
     stages_json = create_run web intrusive, wr_created_by = by_user\<rparr>"
  have start: "Workflow.start ?r now = Inr run" and db': "db' = db\<lparr>runs := runs db @ [run]\<rparr>"
    using assms(1) by (auto simp: create_workflow_def Let_def res_bind_Inr split: if_split_asm option.split_asm)
  have "same_run ?r run"
    using start unfolding start_def activate_next_def by (rule activate_from_run)
  then have cols: "wr_scan_job_id run = None" "wr_id run = fresh" by (simp_all add: same_run_def)
  have "on_track run"
    by (rule reachable_on_track) (rule reach_start [OF _ _ start, of web intrusive], simp_all)
  moreover have "unique_key wr_scan_job_id (runs db @ [run])"
    using assms(2) cols(1) by (intro unique_key_append) (auto simp: runs_ok_def)
  ultimately show "runs_ok db'" using assms(2,3) cols by (auto simp: runs_ok_def db')
  have first: "st_name (hd (stages_json run)) = ''authorization_precheck'' \<and>
      st_status (hd (stages_json run)) = WorkflowStageStatus.RUNNING"
    using start by (auto simp: start_def activate_next_def STAGE_ORDER_def create_run_def stage_of_def
        applicable_def APPROVAL_GATE_def set_stage_def split: if_split_asm)
  then show "\<not> scanning_stage_active run"
    by (cases "stages_json run")
      (auto simp: scanning_stage_active_def current_stage_name_def current_stage_def is_current_def SCAN_STAGES_def)
  show "db' = db\<lparr>runs := runs db @ [run]\<rparr>" "wr_scan_job_id run = None" "wr_id run = fresh"
    using db' cols by simp_all
qed

lemma runs_ok_jobs: "same_other_tables db db1 \<Longrightarrow> runs_ok db1 = runs_ok db"
  by (simp add: runs_ok_def same_other_tables_def)

lemma moved_run_ok:
  assumes "runs_ok db" and "r \<in> set (runs db)" and "on_track r1" and "same_run r r1"
    and "dispatch_current_scan_stage env cfg seen r1 db = Inr (db1, s)"
    and "unlinked (je_fresh env) db"
  shows "runs_ok (put_run s db1)" and "wr_id s = wr_id r"
proof -
  note rows = assms(4) [unfolded same_run_def]
  from dispatch_effect [OF assms(5,3)] have "runs_ok (put_run s db1) \<and> wr_id s = wr_id r"
  proof
    assume "db1 = db \<and> on_track s \<and> same_run r1 s \<and> \<not> scanning_stage_active s"
    then show ?thesis using put_run_ok [OF assms(1,2), of s] rows by (auto simp: same_run_def)
  next
    assume "\<exists>p rq j. create_scan_job env cfg p rq db = Inr (db1, j) \<and> rq_network_id rq = wr_network_id r1 \<and>
       s = r1\<lparr>wr_scan_job_id := Some (sj_id j)\<rparr> \<and> scanning_stage_active r1"
    then obtain p rq j where made: "create_scan_job env cfg p rq db = Inr (db1, j)"
      and s: "s = r1\<lparr>wr_scan_job_id := Some (sj_id j)\<rparr>" by blast
    have same: "same_other_tables db db1" by (rule create_scan_job_others(1) [OF made])
    have "\<forall>x \<in> set (runs db1). wr_scan_job_id x \<noteq> Some (sj_id j)"
      using assms(6) same create_scan_job_db(2) [OF made] by (auto simp: unlinked_def same_other_tables_def)
    then show ?thesis
      using put_run_ok [of db1 r s] assms(1,2,3) same runs_ok_jobs [OF same] rows
      by (auto simp: s same_other_tables_def)
  qed
  then show "runs_ok (put_run s db1)" "wr_id s = wr_id r" by simp_all
qed

lemma run_of_mem: "run_of i db = Some r \<Longrightarrow> r \<in> set (runs db) \<and> wr_id r = i"
  by (auto simp: run_of_def dest: find_SomeD)

lemma advance_run_ok:
  assumes "advance_run env cfg i outcome detail db = Inr db'" and "runs_ok db"
    and "unlinked (je_fresh env) db"
  shows "runs_ok db'"
proof -
  obtain r r1 db1 s where r: "run_of i db = Some r" and r1: "advance r outcome detail (je_now env) = Inr r1"
    and s: "dispatch_current_scan_stage env cfg (jobs db) r1 db = Inr (db1, s)" "db' = put_run s db1"
    using assms(1) by (auto simp: advance_run_def res_bind_Inr split: option.split_asm if_split_asm)
  have "on_track r" using run_of_mem [OF r] assms(2) by (simp add: runs_ok_def)
  then have "on_track r1" using on_track_step step_advance [OF r1] by blast
  then show ?thesis
    using moved_run_ok(1) [OF assms(2) _ _ advance_run_row [OF r1] s(1) assms(3)] run_of_mem [OF r] s(2) by simp
qed

lemma decide_run_ok:
  assumes "decide_run i approve now db = Inr db'" and "runs_ok db"
  shows "runs_ok db'"
proof -
  obtain r s where r: "run_of i db = Some r" and s: "decide_intrusive r approve now = Inr s" "db' = put_run s db"
    using assms(1) by (auto simp: decide_run_def res_bind_Inr split: option.split_asm)
  have "on_track r" using run_of_mem [OF r] assms(2) by (simp add: runs_ok_def)
  then have "on_track s" using on_track_step step_decide [OF s(1)] by blast
  then show ?thesis
    using put_run_ok [OF assms(2), of r s] run_of_mem [OF r] decide_intrusive_row [OF s(1)] s(2)
    by (simp add: same_run_def)
qed

lemma terminal_ok:
  assumes "on_scan_job_terminal env cfg seen j status db = Inr db'" and "runs_ok db"
    and "unlinked (je_fresh env) db"
  shows "runs_ok db'"
  using terminal_effect [OF assms(2,1)]
proof
  assume "run_moved env cfg j status db db'"
  then obtain r s where rs: "r \<in> set (runs db)" "wr_id s = wr_id r" "on_track s"
    and how: "(db' = put_run s db \<and> wr_scan_job_id s = wr_scan_job_id r) \<or>
       (\<exists>p rq j' db1. create_scan_job env cfg p rq db = Inr (db1, j') \<and>
          wr_scan_job_id s = Some (sj_id j') \<and> db' = put_run s db1)"
    unfolding run_moved_def by blast
  from how show ?thesis
  proof (elim disjE conjE exE)
    fix p rq j' db1
    assume made: "create_scan_job env cfg p rq db = Inr (db1, j')"
      and s: "wr_scan_job_id s = Some (sj_id j')" "db' = put_run s db1"
    have same: "same_other_tables db db1" by (rule create_scan_job_others(1) [OF made])
    have "\<forall>x \<in> set (runs db1). wr_scan_job_id x \<noteq> Some (sj_id j')"
      using assms(3) same create_scan_job_db(2) [OF made] by (auto simp: unlinked_def same_other_tables_def)
    then show ?thesis
      using put_run_ok [of db1 r s] rs assms(2) same runs_ok_jobs [OF same] s
      by (auto simp: same_other_tables_def)
  qed (use put_run_ok [OF assms(2) rs] in simp)
qed (use assms(2) in simp)

subsection \<open>Properties\<close>


definition run_sample :: dispatch_db where
  "run_sample = (case create_workflow 200 1 2 (Some 7) False False None 500 sample_dispatch of
     Inl _ \<Rightarrow> sample_dispatch
   | Inr (db, r) \<Rightarrow>
       (case advance_run sample_env sample_cfg 200 WorkflowStageStatus.COMPLETED None db of
          Inl _ \<Rightarrow> db | Inr db \<Rightarrow> db))"


lemma run_sample_steps:
  obtains db1 r where "create_workflow 200 1 2 (Some 7) False False None 500 sample_dispatch = Inr (db1, r)"
    and "advance_run sample_env sample_cfg 200 WorkflowStageStatus.COMPLETED None db1 = Inr run_sample"
proof -
  let ?c = "create_workflow 200 1 2 (Some 7) False False None 500 sample_dispatch"
  have ok: "case ?c of Inl _ \<Rightarrow> False
      | Inr (db, r) \<Rightarrow> \<not> isl (advance_run sample_env sample_cfg 200 WorkflowStageStatus.COMPLETED None db)"
    by code_simp
  then obtain db1 r where c: "?c = Inr (db1, r)" by (cases ?c) auto
  then obtain db2 where "advance_run sample_env sample_cfg 200 WorkflowStageStatus.COMPLETED None db1 = Inr db2"
    using ok by (cases "advance_run sample_env sample_cfg 200 WorkflowStageStatus.COMPLETED None db1") auto
  then show ?thesis using that c by (simp add: run_sample_def)
qed

text \<open>A view of the sample, evaluated once.\<close>

definition sample_view :: "dispatch_db \<Rightarrow> bool" where
  "sample_view db \<longleftrightarrow> map sj_id (jobs db) = [77] \<and> map sj_status (jobs db) = [JobStatus.QUEUED] \<and>
     map sj_network_id (jobs db) = [Some 7] \<and> map wr_scan_job_id (runs db) = [Some 77] \<and>
     map wr_id (runs db) = [200] \<and> list_all scanning_stage_active (runs db) \<and> sessions db = [] \<and>
     attempts db = [] \<and> list_all (reapable sample_cfg None None (hours 100)) (jobs db)"

lemma run_sample_viewed: "sample_view run_sample"
  by code_simp

lemmas run_sample_facts = run_sample_viewed [unfolded sample_view_def]

lemma run_sample_ok: "runs_ok run_sample" "sessions_ok run_sample"
proof -
  obtain db1 r where c: "create_workflow 200 1 2 (Some 7) False False None 500 sample_dispatch = Inr (db1, r)"
    and a: "advance_run sample_env sample_cfg 200 WorkflowStageStatus.COMPLETED None db1 = Inr run_sample"
    by (rule run_sample_steps)
  have "runs_ok sample_dispatch" "runs sample_dispatch = []"
    by (simp_all add: runs_ok_def sample_dispatch_def unique_key_def)
  then have "runs_ok db1" "unlinked (je_fresh sample_env) db1"
    using create_workflow_ok [OF c] by (simp_all add: unlinked_def)
  then show "runs_ok run_sample" by (rule advance_run_ok [OF a])
  show "sessions_ok run_sample" by (simp add: sessions_ok_def run_sample_facts unique_key_def)
qed

theorem reaper_clears_stale_witness:
  "\<exists>db'. reap_stale_jobs sample_env sample_cfg None None (hours 100) run_sample = Inr (db', 1) \<and>
     map sj_status (jobs db') = [JobStatus.EXPIRED] \<and>
     list_all (\<lambda>r. \<not> (wr_scan_job_id r = Some 77 \<and> scanning_stage_active r)) (runs db')"
proof -
  obtain j where j: "jobs run_sample = [j]" "sj_id j = 77"
    using run_sample_facts(1) by auto
  then have due: "reapable sample_cfg None None (hours 100) j" using run_sample_facts by simp
  have "distinct (map sj_id (jobs run_sample))" using j by simp
  note reaped = reaper_clears_stale [OF run_sample_ok this, of sample_env sample_cfg None None "hours 100"]
  have "sj_status (expired_job (hours 100) j) = JobStatus.EXPIRED"
    by (simp add: expired_job_def split: prod.split)
  with reaped show ?thesis using j due by (auto simp: list_all_iff)
qed

text \<open>The sample after its discovery job completed, with the job's row flushed.\<close>

definition completed_sample :: dispatch_db where
  "completed_sample = run_sample\<lparr>jobs := map (\<lambda>j. j\<lparr>sj_status := JobStatus.COMPLETED\<rparr>) (jobs run_sample)\<rparr>"

definition next_env :: job_env where
  "next_env = sample_env\<lparr>je_fresh := 78\<rparr>"

definition finish_sample :: "scan_job list \<Rightarrow> dispatch_db \<Rightarrow> server_error + dispatch_db" where
  "finish_sample seen db =
     (case jobs db of
        [j] \<Rightarrow> on_scan_job_terminal next_env sample_cfg seen j JobStatus.COMPLETED db
      | _ \<Rightarrow> Inl RowNotFound)"

definition waits_for :: "uuid \<Rightarrow> dispatch_db \<Rightarrow> bool" where
  "waits_for i db \<longleftrightarrow> list_ex (\<lambda>r. wr_scan_job_id r = Some i \<and> scanning_stage_active r) (runs db) \<and>
     list_ex (\<lambda>j. sj_id j = i \<and> sj_status j = JobStatus.QUEUED) (jobs db)"


text \<open>
  In production the sessions do not flush before a query, and unless a notification was queued nothing
  flushes between the status report and the dispatch of the next stage: the check for an active job then
  still sees the job that just completed, and the next scanning stage of a run on a network fails.
\<close>

definition discovery_failed_as_busy :: "dispatch_db \<Rightarrow> bool" where
  "discovery_failed_as_busy db \<longleftrightarrow> list_ex (\<lambda>r. list_ex (\<lambda>s. st_name s = ''vulnerability_assessment'' \<and>
     st_status s = WorkflowStageStatus.FAILED \<and>
     st_detail s = Some ''The network is already under test'') (stages_json r)) (runs db)"

lemma unflushed_completion_fails_next_stage:
  "case finish_sample (jobs run_sample) completed_sample of Inl _ \<Rightarrow> False | Inr db \<Rightarrow> discovery_failed_as_busy db"
  by code_simp

end
