(* ===== verification/ScoutJobs.thy ===== *)
theory ScoutJobs
  imports RunJobs Observability
begin

text \<open>
  The Scout's side of a job, \<^verbatim>\<open>app/api/v1/probes.py\<close>: polling for the next job, leases and fencing
  tokens, status reports, and the cancellation by an operator of \<^verbatim>\<open>app/api/v1/jobs.py\<close>.

  The certificate of the request identifies the \<open>probe\<close>; one clock reading serves a request.  The
  fresh identifiers of a new attempt are arguments.  Credential tests and notifications are not
  modelled, but a notification that was queued flushes the session: the argument \<open>flushed\<close>.  Every
  envelope of the model carries its schema version, so the re-signing of older ones does not occur.
\<close>

datatype scout_error = ProbeMismatch | JobNotFound | HeadersMissing | HeadersInvalid | FenceInvalid
  | Fenced | LeaseExpired | AttemptTerminal | JobTerminal | InvalidTransition string string
  | ProgressRefused progress_error | Cancelling | NotCancellable JobStatus | ReportInvalid
  | ServerFailed server_error

definition JOB_LEASE_DURATION :: time where
  "JOB_LEASE_DURATION = minutes 3"

definition TERMINAL_ATTEMPT :: "string list" where
  "TERMINAL_ATTEMPT = [''completed'', ''failed'', ''cancelled'', ''expired'', ''rejected_by_probe'']"

text \<open>The attempt, lease and fencing headers of a request.\<close>

record attempt_headers =
  hd_attempt :: "string option"
  hd_lease :: "string option"
  hd_fence :: "string option"

definition parse_attempt_headers :: "attempt_headers \<Rightarrow> scout_error + (uuid \<times> uuid \<times> int)" where
  "parse_attempt_headers h =
     (case (nonempty (hd_attempt h), nonempty (hd_lease h), nonempty (hd_fence h)) of
        (Some a, Some l, Some f) \<Rightarrow>
          (case (uuid_parse a, uuid_parse l, py_int f) of
             (Some a, Some l, Some f) \<Rightarrow> if f < 1 then Inl FenceInvalid else Inr (a, l, f)
           | _ \<Rightarrow> Inl HeadersInvalid)
      | _ \<Rightarrow> Inl HeadersMissing)"

definition latest_fence :: "uuid \<Rightarrow> 'a dispatch_db_scheme \<Rightarrow> int option" where
  "latest_fence j db =
     (case map at_fencing_token (filter (\<lambda>a. at_scan_job_id a = j) (attempts db)) of
        [] \<Rightarrow> None
      | f # fs \<Rightarrow> Some (foldl max f fs))"

definition attempt_matches :: "scan_job \<Rightarrow> probe \<Rightarrow> uuid \<Rightarrow> uuid \<Rightarrow> int \<Rightarrow> scan_attempt \<Rightarrow> bool" where
  "attempt_matches j p i lease fence a \<longleftrightarrow> at_id a = i \<and> at_scan_job_id a = sj_id j \<and>
     at_probe_id a = pb_id p \<and> at_lease_id a = lease \<and> at_fencing_token a = fence"

definition require_current_attempt ::
  "scan_job \<Rightarrow> probe \<Rightarrow> attempt_headers \<Rightarrow> time \<Rightarrow> bool \<Rightarrow> 'a dispatch_db_scheme
     \<Rightarrow> scout_error + scan_attempt" where
  "require_current_attempt j p h now allow_terminal db =
     res_bind (parse_attempt_headers h) (\<lambda>(i, lease, fence).
       case find (attempt_matches j p i lease fence) (attempts db) of
         None \<Rightarrow> Inl Fenced
       | Some a \<Rightarrow>
           if latest_fence (sj_id j) db \<noteq> Some fence then Inl Fenced
           else if at_status a \<in> set ACTIVE_ATTEMPT \<and> at_lease_expires_at a \<le> now
           then Inl LeaseExpired
           else if at_status a \<in> set TERMINAL_ATTEMPT \<and> \<not> allow_terminal then Inl AttemptTerminal
           else Inr a)"

definition put_attempt :: "scan_attempt \<Rightarrow> 'a dispatch_db_scheme \<Rightarrow> 'a dispatch_db_scheme" where
  "put_attempt a db = db\<lparr>attempts := update_where (\<lambda>x. at_id x = at_id a) (\<lambda>_. a) (attempts db)\<rparr>"

definition job_of :: "uuid \<Rightarrow> 'a job_db_scheme \<Rightarrow> scan_job option" where
  "job_of i db = find (\<lambda>j. sj_id j = i) (jobs db)"

definition headers_bounded :: "attempt_headers \<Rightarrow> bool" where
  "headers_bounded h \<longleftrightarrow> given (length_in 0 36) (hd_attempt h) \<and> given (length_in 0 36) (hd_lease h) \<and>
     given (length_in 0 20) (hd_fence h)"

text \<open>\<open>session.get\<close> and the check that the job is the Scout's own.\<close>

definition probe_job :: "uuid \<Rightarrow> uuid \<Rightarrow> probe \<Rightarrow> 'a job_db_scheme \<Rightarrow> scout_error + scan_job" where
  "probe_job i j p db =
     (if pb_id p \<noteq> i then Inl ProbeMismatch
      else case job_of j db of
        None \<Rightarrow> Inl JobNotFound
      | Some job \<Rightarrow> if sj_probe_id job \<noteq> pb_id p then Inl JobNotFound else Inr job)"

subsection \<open>Expired leases\<close>

definition OFFERED_JOB :: "JobStatus list" where
  "OFFERED_JOB = [JobStatus.OFFERED, JobStatus.ACCEPTED, JobStatus.RUNNING]"

definition lease_expired :: "probe \<Rightarrow> time \<Rightarrow> 'a dispatch_db_scheme \<Rightarrow> scan_attempt \<Rightarrow> bool" where
  "lease_expired p now db a \<longleftrightarrow> at_probe_id a = pb_id p \<and> at_status a \<in> set ACTIVE_ATTEMPT \<and>
     at_lease_expires_at a \<le> now \<and>
     (case job_of (at_scan_job_id a) db of
        None \<Rightarrow> False | Some j \<Rightarrow> sj_status j \<in> set OFFERED_JOB)"

definition reclaimed_job :: "time \<Rightarrow> scan_job \<Rightarrow> scan_job" where
  "reclaimed_job now j =
     (if sj_expires_at j \<le> now then j\<lparr>sj_status := JobStatus.EXPIRED, sj_finished_at := Some now\<rparr>
      else if sj_cancel_requested_at j \<noteq> None
      then j\<lparr>sj_status := JobStatus.CANCELLED, sj_finished_at := Some now\<rparr>
      else j\<lparr>sj_status := JobStatus.QUEUED, sj_offered_at := None, sj_accepted_at := None\<rparr>)"

definition reclaim_attempt :: "time \<Rightarrow> scan_attempt \<Rightarrow> 'a dispatch_db_scheme \<Rightarrow> 'a dispatch_db_scheme" where
  "reclaim_attempt now a db =
     (case job_of (at_scan_job_id a) db of
        None \<Rightarrow> db
      | Some j \<Rightarrow>
          if latest_fence (sj_id j) db \<noteq> Some (at_fencing_token a) then db
          else put_attempt (a\<lparr>at_status := ''expired'', at_finished_at := Some now\<rparr>)
                 (put_job (reclaimed_job now j) db))"

definition reclaim_expired_attempts :: "probe \<Rightarrow> time \<Rightarrow> 'a dispatch_db_scheme \<Rightarrow> 'a dispatch_db_scheme" where
  "reclaim_expired_attempts p now db =
     fold (reclaim_attempt now) (filter (lease_expired p now db) (attempts db)) db"

subsection \<open>Polling\<close>

text \<open>The attempt an offer makes, and what it changes.\<close>

definition new_attempt :: "uuid \<Rightarrow> uuid \<Rightarrow> probe \<Rightarrow> scan_job \<Rightarrow> int \<Rightarrow> time \<Rightarrow> scan_attempt" where
  "new_attempt i lease p j fence now =
     \<lparr>at_id = i, at_scan_job_id = sj_id j, at_probe_id = pb_id p, at_attempt_number = fence,
      at_fencing_token = fence, at_lease_id = lease, at_status = ''offered'', at_offered_at = now,
      at_lease_expires_at = now + JOB_LEASE_DURATION, at_accepted_at = None, at_started_at = None,
      at_last_renewed_at = None, at_finished_at = None\<rparr>"

definition link_attempt :: "scan_attempt \<Rightarrow> pentest_session \<Rightarrow> pentest_session" where
  "link_attempt a ps =
     ps\<lparr>ps_scan_job_attempt_id := Some (at_id a),
        ps_snapshot := (ps_snapshot ps)\<lparr>sn_scan_job_attempt_id := Some (uuid_str (at_id a)),
                                        sn_fencing_token := Some (at_fencing_token a)\<rparr>\<rparr>"

definition offer_job ::
  "uuid \<Rightarrow> uuid \<Rightarrow> probe \<Rightarrow> scan_job \<Rightarrow> time \<Rightarrow> 'a dispatch_db_scheme \<Rightarrow> 'a dispatch_db_scheme \<times> scan_attempt" where
  "offer_job i lease p j now db =
     (let a = new_attempt i lease p j (or_else (latest_fence (sj_id j) db) 0 + 1) now;
          db1 = put_job (j\<lparr>sj_status := JobStatus.OFFERED, sj_offered_at := Some now\<rparr>) db;
          db2 = db1\<lparr>attempts := attempts db1 @ [a]\<rparr>
      in (case find (\<lambda>s. ps_scan_job_id s = Some (sj_id j)) (sessions db2) of
            None \<Rightarrow> db2
          | Some ps \<Rightarrow> put_session (link_attempt a ps) db2, a))"

fun offer_first ::
  "uuid \<Rightarrow> uuid \<Rightarrow> probe \<Rightarrow> time \<Rightarrow> scan_job list \<Rightarrow> 'a dispatch_db_scheme
     \<Rightarrow> 'a dispatch_db_scheme \<times> (envelope \<times> scan_attempt) option" where
  "offer_first i lease p now [] db = (db, None)"
| "offer_first i lease p now (j # rest) db =
     (if sj_expires_at j \<le> now
      then offer_first i lease p now rest
             (put_job (j\<lparr>sj_status := JobStatus.EXPIRED, sj_finished_at := Some now\<rparr>) db)
      else if now < sj_not_before j then offer_first i lease p now rest db
      else let (db1, a) = offer_job i lease p j now db in (db1, Some (sj_envelope j, a)))"

definition queued_for :: "probe \<Rightarrow> 'a job_db_scheme \<Rightarrow> scan_job list" where
  "queued_for p db =
     take 32 (sort_key sj_created_at (filter (\<lambda>j. sj_probe_id j = pb_id p \<and>
       sj_status j = JobStatus.QUEUED \<and> sj_cancel_requested_at j = None) (jobs db)))"

definition poll_next_job ::
  "uuid \<Rightarrow> uuid \<Rightarrow> uuid \<Rightarrow> probe \<Rightarrow> time \<Rightarrow> 'a dispatch_db_scheme
     \<Rightarrow> scout_error + ('a dispatch_db_scheme \<times> (envelope \<times> scan_attempt) option)" where
  "poll_next_job fresh lease i p now db =
     (if pb_id p \<noteq> i then Inl ProbeMismatch
      else let db1 = reclaim_expired_attempts p now db
           in Inr (offer_first fresh lease p now (queued_for p db1) db1))"

subsection \<open>Renewing a lease\<close>

definition renew_job_lease ::
  "uuid \<Rightarrow> uuid \<Rightarrow> probe \<Rightarrow> attempt_headers \<Rightarrow> time \<Rightarrow> 'a dispatch_db_scheme
     \<Rightarrow> scout_error + 'a dispatch_db_scheme" where
  "renew_job_lease i j p h now db =
     (if \<not> headers_bounded h then Inl HeadersInvalid
      else
     res_bind (probe_job i j p db) (\<lambda>job.
     res_bind (require_current_attempt job p h now False db) (\<lambda>a.
       if sj_cancel_requested_at job \<noteq> None then Inl Cancelling
       else Inr (put_attempt (a\<lparr>at_last_renewed_at := Some now,
                                at_lease_expires_at := now + JOB_LEASE_DURATION\<rparr>) db))))"

subsection \<open>Status reports\<close>

record status_update =
  rp_status :: JobStatus
  rp_error_code :: "string option"
  rp_error_message :: "string option"
  rp_summary :: "json option"
  rp_progress :: "scan_progress option"
  rp_failure_details :: "failure_detail list"

definition UNSUCCESSFUL :: "JobStatus list" where
  "UNSUCCESSFUL = [JobStatus.FAILED, JobStatus.CANCELLED, JobStatus.REJECTED_BY_PROBE]"

definition detail_ok :: "failure_detail \<Rightarrow> bool" where
  "detail_ok d \<longleftrightarrow> length_in 1 64 (fd_code d) \<and> given (length_in 0 128) (fd_stage d) \<and>
     given (length_in 0 128) (fd_plugin d) \<and> length_in 1 2048 (fd_message d)"

definition status_update_ok :: "status_update \<Rightarrow> bool" where
  "status_update_ok u \<longleftrightarrow> given (length_in 0 64) (rp_error_code u) \<and>
     given (length_in 0 2048) (rp_error_message u) \<and> given progress_update_ok (rp_progress u) \<and>
     list_all detail_ok (rp_failure_details u) \<and> length (rp_failure_details u) \<le> 50 \<and>
     (rp_progress u = None \<or> rp_status u = JobStatus.RUNNING) \<and>
     (rp_failure_details u = [] \<or> rp_status u \<in> set UNSUCCESSFUL)"

definition TERMINAL_JOB :: "JobStatus list" where
  "TERMINAL_JOB = [JobStatus.COMPLETED, JobStatus.FAILED, JobStatus.CANCELLED, JobStatus.EXPIRED,
     JobStatus.REJECTED_BY_PROBE]"

definition attempt_transitions :: "string \<Rightarrow> string list" where
  "attempt_transitions s =
     (if s = ''offered'' then [''accepted'', ''rejected_by_probe'']
      else if s = ''accepted''
      then [''accepted'', ''running'', ''failed'', ''cancelled'', ''rejected_by_probe'']
      else if s = ''running''
      then [''running'', ''completed'', ''failed'', ''cancelled'', ''rejected_by_probe''] else [])"

definition reported_attempt :: "JobStatus \<Rightarrow> time \<Rightarrow> scan_attempt \<Rightarrow> scan_attempt" where
  "reported_attempt status now a =
     (let a = a\<lparr>at_status := job_status_value status\<rparr>;
          a = (if job_status_value status \<in> set ACTIVE_ATTEMPT
               then a\<lparr>at_last_renewed_at := Some now, at_lease_expires_at := now + JOB_LEASE_DURATION\<rparr>
               else a)
      in if status = JobStatus.ACCEPTED then a\<lparr>at_accepted_at := Some (or_else (at_accepted_at a) now)\<rparr>
         else if status = JobStatus.RUNNING then a\<lparr>at_started_at := Some (or_else (at_started_at a) now)\<rparr>
         else if status \<in> {JobStatus.COMPLETED, JobStatus.FAILED, JobStatus.CANCELLED,
                           JobStatus.REJECTED_BY_PROBE} then a\<lparr>at_finished_at := Some now\<rparr>
         else a)"

definition finished_job :: "status_update \<Rightarrow> time \<Rightarrow> scan_job \<Rightarrow> scan_job" where
  "finished_job u now j =
     (let j = j\<lparr>sj_finished_at := Some now, sj_estimated_completion_at := None\<rparr>;
          j = (if rp_status u = JobStatus.COMPLETED
               then j\<lparr>sj_progress_percent := 100, sj_last_progress_at := Some now\<rparr> else j);
          j = (case rp_error_code u of
                 None \<Rightarrow> j
               | Some c \<Rightarrow> j\<lparr>sj_error_code := sanitize_label (Some c) ''scanner_error''\<rparr>);
          j = (case rp_error_message u of
                 None \<Rightarrow> j
               | Some m \<Rightarrow> j\<lparr>sj_error_message := sanitize_failure_message (Some m) 2048\<rparr>);
          j = (case rp_summary u of None \<Rightarrow> j | Some s \<Rightarrow> j\<lparr>sj_summary := s\<rparr>)
      in if rp_status u \<in> set UNSUCCESSFUL
         then j\<lparr>sj_failure_log := build_failure_log (rp_failure_details u) now (sj_error_code j)
                                   (sj_error_message j)\<rparr>
         else j)"

definition reported_job :: "status_update \<Rightarrow> time \<Rightarrow> scan_job \<Rightarrow> scan_job" where
  "reported_job u now j =
     (let j = j\<lparr>sj_status := rp_status u\<rparr>
      in if rp_status u = JobStatus.ACCEPTED then j\<lparr>sj_accepted_at := Some now\<rparr>
         else if rp_status u = JobStatus.RUNNING then j\<lparr>sj_started_at := Some (or_else (sj_started_at j) now)\<rparr>
         else if rp_status u \<in> {JobStatus.COMPLETED, JobStatus.FAILED, JobStatus.CANCELLED,
                                JobStatus.REJECTED_BY_PROBE} then finished_job u now j
         else j)"

definition usage_outcome :: "status_update \<Rightarrow> usage_audit \<Rightarrow> usage_audit" where
  "usage_outcome u a =
     a\<lparr>ua_status := (if rp_status u = JobStatus.COMPLETED then ''succeeded'' else ''failed''),
       ua_detail := or_opt (rp_error_code u) (ua_detail a)\<rparr>"

definition job_finished ::
  "job_env \<Rightarrow> app_settings \<Rightarrow> bool \<Rightarrow> status_update \<Rightarrow> scan_job list \<Rightarrow> scan_job \<Rightarrow> 'a dispatch_db_scheme
     \<Rightarrow> scout_error + 'a dispatch_db_scheme" where
  "job_finished env cfg flushed u before j db =
     (let db1 = db\<lparr>audits := update_where (\<lambda>a. ua_scan_job_id a = sj_id j) (usage_outcome u) (audits db)\<rparr>
      in res_bind (lift_error ServerFailed (on_scan_job_terminal env cfg
             (if flushed then jobs db1 else before) j (rp_status u) db1)) (\<lambda>db2.
         if sj_mode j = JobMode.CONTROLLED_PENTEST
         then lift_error (\<lambda>e. ServerFailed (SessionRaised e))
                (complete_session_for_job (je_now env) j (rp_status u) (rp_summary u) (je_now env) db2)
         else Inr db2))"

definition report_job_status ::
  "job_env \<Rightarrow> app_settings \<Rightarrow> bool \<Rightarrow> uuid \<Rightarrow> uuid \<Rightarrow> probe \<Rightarrow> attempt_headers \<Rightarrow> status_update
     \<Rightarrow> 'a dispatch_db_scheme \<Rightarrow> scout_error + 'a dispatch_db_scheme" where
  "report_job_status env cfg flushed i j p h u db =
     (let now = je_now env; status = rp_status u in
      if \<not> status_update_ok u then Inl ReportInvalid
      else if \<not> headers_bounded h then Inl HeadersInvalid
      else
      res_bind (probe_job i j p db) (\<lambda>job.
      res_bind (require_current_attempt job p h now True db) (\<lambda>a.
      if sj_status job \<in> set TERMINAL_JOB
      then if status = sj_status job \<or> (sj_status job = JobStatus.EXPIRED \<and> status \<in> set TERMINAL_JOB)
           then Inr db else Inl JobTerminal
      else if job_status_value status \<notin> set (attempt_transitions (at_status a))
      then Inl (InvalidTransition (at_status a) (job_status_value status))
      else
      res_bind (case rp_progress u of
          None \<Rightarrow> Inr job
        | Some pg \<Rightarrow> lift_error ProgressRefused (apply_progress job pg now)) (\<lambda>job1.
      let job2 = reported_job u now job1;
          db1 = put_attempt (reported_attempt status now a) (put_job job2 db)
      in if status \<in> set [JobStatus.COMPLETED, JobStatus.FAILED, JobStatus.CANCELLED,
                          JobStatus.REJECTED_BY_PROBE]
         then job_finished env cfg flushed u (jobs db) job2 db1
         else Inr db1))))"

subsection \<open>Cancellation by an operator\<close>

text \<open>\<open>allowed\<close> is the operator's organization and site scope.\<close>

definition cancel_job ::
  "uuid \<Rightarrow> (scan_job \<Rightarrow> bool) \<Rightarrow> time \<Rightarrow> 'a dispatch_db_scheme \<Rightarrow> scout_error + 'a dispatch_db_scheme" where
  "cancel_job i allowed now db =
     (case find (\<lambda>j. sj_id j = i \<and> allowed j) (jobs db) of
        None \<Rightarrow> Inl JobNotFound
      | Some j \<Rightarrow>
          if sj_status j \<notin> set ACTIVE_JOB then Inl (NotCancellable (sj_status j))
          else
            let j1 = j\<lparr>sj_cancel_requested_at := Some now\<rparr>
            in Inr (put_job (if sj_status j = JobStatus.QUEUED
                             then j1\<lparr>sj_status := JobStatus.CANCELLED, sj_finished_at := Some now\<rparr>
                             else j1) db))"

end
