(* ===== verification/Lifecycle.thy ===== *)
theory Lifecycle
  imports ScoutJobs
begin

text \<open>
  The life of a scan job over all the services that touch it: an abstract state machine of job
  statuses, which every transaction of the server refines, and the invariant of the tables it keeps
  (one active job per network, one current attempt per job, fencing tokens without repetition).
\<close>

subsection \<open>The abstract job\<close>

fun job_edges :: "JobStatus \<Rightarrow> JobStatus list" where
  "job_edges JobStatus.QUEUED = [JobStatus.OFFERED, JobStatus.CANCELLED, JobStatus.EXPIRED]"
| "job_edges JobStatus.OFFERED = [JobStatus.ACCEPTED, JobStatus.REJECTED_BY_PROBE, JobStatus.QUEUED,
     JobStatus.CANCELLED, JobStatus.EXPIRED]"
| "job_edges JobStatus.ACCEPTED = [JobStatus.RUNNING, JobStatus.FAILED, JobStatus.REJECTED_BY_PROBE,
     JobStatus.QUEUED, JobStatus.CANCELLED, JobStatus.EXPIRED]"
| "job_edges JobStatus.RUNNING = [JobStatus.COMPLETED, JobStatus.FAILED, JobStatus.REJECTED_BY_PROBE,
     JobStatus.QUEUED, JobStatus.CANCELLED, JobStatus.EXPIRED]"
| "job_edges _ = []"

inductive job_path :: "JobStatus \<Rightarrow> JobStatus \<Rightarrow> bool" where
  path_refl [intro, simp]: "job_path s s"
| path_step: "job_path s t \<Longrightarrow> u \<in> set (job_edges t) \<Longrightarrow> job_path s u"

lemma path_edge: "t \<in> set (job_edges s) \<Longrightarrow> job_path s t"
  using path_step [OF path_refl] by blast

lemma path_trans: "job_path t u \<Longrightarrow> job_path s t \<Longrightarrow> job_path s u"
  by (induction rule: job_path.induct) (auto intro: path_step)

lemma terminal_no_edge: "s \<in> set TERMINAL_JOB \<Longrightarrow> job_edges s = []"
  by (auto simp: TERMINAL_JOB_def)

lemma path_terminal: "job_path s t \<Longrightarrow> s \<in> set TERMINAL_JOB \<Longrightarrow> t = s"
  by (induction rule: job_path.induct) (auto simp: terminal_no_edge)

lemma active_or_terminal: "s \<in> set ACTIVE_JOB \<longleftrightarrow> s \<notin> set TERMINAL_JOB"
  by (cases s) (simp_all add: ACTIVE_JOB_def TERMINAL_JOB_def)

lemma path_from_active: "job_path s t \<Longrightarrow> t \<in> set ACTIVE_JOB \<Longrightarrow> s \<in> set ACTIVE_JOB"
  using path_terminal active_or_terminal by blast

text \<open>The columns of a job that its signature covers, or that say whose job it is.\<close>

definition signed_part :: "scan_job \<Rightarrow> _" where
  "signed_part j = (sj_id j, sj_organization_id j, sj_site_id j, sj_probe_id j, sj_network_id j, sj_mode j,
     sj_requested_targets j, sj_workflow j, sj_limits j, sj_envelope j, sj_signature j,
     sj_not_before j, sj_expires_at j)"

lemma signed_part_ids:
  "signed_part j' = signed_part j \<Longrightarrow> sj_id j' = sj_id j \<and> sj_network_id j' = sj_network_id j \<and>
     sj_probe_id j' = sj_probe_id j"
  by (simp add: signed_part_def)

text \<open>
  An update of one job: on the rows it applies to, it moves the status along the state machine and keeps
  what was signed.  The operations interpret this locale.
\<close>

locale job_row =
  fixes applies :: "scan_job \<Rightarrow> bool" and f :: "scan_job \<Rightarrow> scan_job"
  assumes path: "applies j \<Longrightarrow> job_path (sj_status j) (sj_status (f j))"
    and signed: "signed_part (f j) = signed_part j"
begin

lemma id_kept: "sj_id (f j) = sj_id j"
  using signed signed_part_ids by blast

lemma terminal_kept: "applies j \<Longrightarrow> sj_status j \<in> set TERMINAL_JOB \<Longrightarrow> sj_status (f j) = sj_status j"
  using path path_terminal by blast

lemma not_activated: "applies j \<Longrightarrow> sj_status (f j) \<in> set ACTIVE_JOB \<Longrightarrow> sj_status j \<in> set ACTIVE_JOB"
  using path path_from_active by blast

end

definition job_evolves :: "scan_job \<Rightarrow> scan_job \<Rightarrow> bool" where
  "job_evolves j j' \<longleftrightarrow> signed_part j' = signed_part j \<and> job_path (sj_status j) (sj_status j')"

lemma job_evolves_refl [simp]: "job_evolves j j"
  by (simp add: job_evolves_def)

lemma job_evolves_trans: "job_evolves i j \<Longrightarrow> job_evolves j k \<Longrightarrow> job_evolves i k"
  by (auto simp: job_evolves_def intro: path_trans)

text \<open>The jobs table: rows evolve in place, new jobs are appended.\<close>

definition jobs_evolve :: "scan_job list \<Rightarrow> scan_job list \<Rightarrow> bool" where
  "jobs_evolve js js' \<longleftrightarrow> (\<exists>old new. js' = old @ new \<and> list_all2 job_evolves js old)"

lemma jobs_evolve_refl [simp]: "jobs_evolve js js"
  unfolding jobs_evolve_def by (rule exI [of _ js], rule exI [of _ "[]"]) (simp add: list.rel_refl)

lemma jobs_evolve_append [simp]: "jobs_evolve js (js @ new)"
  unfolding jobs_evolve_def by (rule exI [of _ js], rule exI [of _ new]) (simp add: list.rel_refl)

lemma jobs_evolve_trans:
  assumes "jobs_evolve is js" and "jobs_evolve js ks"
  shows "jobs_evolve is ks"
proof -
  obtain old new where 1: "js = old @ new" "list_all2 job_evolves is old"
    using assms(1) by (auto simp: jobs_evolve_def)
  obtain old2 new2 where 2: "ks = old2 @ new2" "list_all2 job_evolves js old2"
    using assms(2) by (auto simp: jobs_evolve_def)
  then obtain a b where ab: "old2 = a @ b" "list_all2 job_evolves old a"
    using 1(1) by (auto simp: list_all2_append1)
  have "list_all2 job_evolves is a"
    using 1(2) ab(2) by (rule list_all2_trans [rotated]) (rule job_evolves_trans)
  then show ?thesis using 2(1) ab(1) by (auto simp: jobs_evolve_def)
qed

lemma jobs_evolve_member:
  assumes "jobs_evolve js js'" and "j \<in> set js"
  obtains j' where "j' \<in> set js'" and "job_evolves j j'"
proof -
  obtain old new where "js' = old @ new" "list_all2 job_evolves js old"
    using assms(1) by (auto simp: jobs_evolve_def)
  then show ?thesis using assms(2) that
    by (metis Un_iff in_set_conv_nth list_all2_conv_all_nth set_append)
qed

context job_row
begin

lemma update_evolves:
  "(\<And>j. j \<in> set js \<Longrightarrow> P j \<Longrightarrow> applies j) \<Longrightarrow> jobs_evolve js (update_where P f js)"
  unfolding jobs_evolve_def
  by (rule exI [of _ "update_where P f js"], rule exI [of _ "[]"])
    (auto simp: list_all2_conv_all_nth update_where_def job_evolves_def path signed)

end

interpretation expire: job_row "\<lambda>j. sj_status j \<in> set ACTIVE_JOB" "expired_job now" for now
  by unfold_locales
    (auto simp: expired_job_def signed_part_def ACTIVE_JOB_def intro: path_edge split: prod.split)

interpretation reclaim: job_row "\<lambda>j. sj_status j \<in> set OFFERED_JOB" "reclaimed_job now" for now
  by unfold_locales (auto simp: reclaimed_job_def signed_part_def OFFERED_JOB_def intro: path_edge)

definition offered_row :: "time \<Rightarrow> scan_job \<Rightarrow> scan_job" where
  "offered_row now j = j\<lparr>sj_status := JobStatus.OFFERED, sj_offered_at := Some now\<rparr>"

definition lapsed_row :: "time \<Rightarrow> scan_job \<Rightarrow> scan_job" where
  "lapsed_row now j = j\<lparr>sj_status := JobStatus.EXPIRED, sj_finished_at := Some now\<rparr>"

definition cancelled_row :: "time \<Rightarrow> scan_job \<Rightarrow> scan_job" where
  "cancelled_row now j =
     (let j1 = j\<lparr>sj_cancel_requested_at := Some now\<rparr>
      in if sj_status j = JobStatus.QUEUED
         then j1\<lparr>sj_status := JobStatus.CANCELLED, sj_finished_at := Some now\<rparr> else j1)"

lemmas job_row_defs = offered_row_def lapsed_row_def cancelled_row_def

interpretation offer: job_row "\<lambda>j. sj_status j = JobStatus.QUEUED" "offered_row now" for now
  by unfold_locales (auto simp: job_row_defs signed_part_def intro: path_edge)

interpretation lapse: job_row "\<lambda>j. sj_status j = JobStatus.QUEUED" "lapsed_row now" for now
  by unfold_locales (auto simp: job_row_defs signed_part_def intro: path_edge)

interpretation cancel: job_row "\<lambda>j. True" "cancelled_row now" for now
  by unfold_locales (auto simp: job_row_defs signed_part_def Let_def intro: path_edge)

lemma signed_part_updates [simp]:
  "signed_part (j\<lparr>sj_status := s\<rparr>) = signed_part j" "signed_part (j\<lparr>sj_accepted_at := t\<rparr>) = signed_part j"
  "signed_part (j\<lparr>sj_started_at := t\<rparr>) = signed_part j" "signed_part (j\<lparr>sj_finished_at := t\<rparr>) = signed_part j"
  "signed_part (j\<lparr>sj_estimated_completion_at := t\<rparr>) = signed_part j"
  "signed_part (j\<lparr>sj_error_code := c\<rparr>) = signed_part j" "signed_part (j\<lparr>sj_error_message := c\<rparr>) = signed_part j"
  "signed_part (j\<lparr>sj_progress_percent := n\<rparr>) = signed_part j"
  "signed_part (j\<lparr>sj_progress := g\<rparr>) = signed_part j"
  "signed_part (j\<lparr>sj_last_progress_at := t\<rparr>) = signed_part j"
  "signed_part (j\<lparr>sj_summary := m\<rparr>) = signed_part j" "signed_part (j\<lparr>sj_failure_log := l\<rparr>) = signed_part j"
  by (simp_all add: signed_part_def)

lemma finished_parts:
  "signed_part (finished_job u now j) = signed_part j" "sj_status (finished_job u now j) = sj_status j"
  by (cases "rp_error_code u"; cases "rp_error_message u"; cases "rp_summary u";
      simp add: finished_job_def Let_def)+

lemma reported_status [simp]: "sj_status (reported_job u now j) = rp_status u"
  by (simp add: reported_job_def finished_parts Let_def)

lemma reported_signed [simp]: "signed_part (reported_job u now j) = signed_part j"
  by (simp add: reported_job_def finished_parts Let_def)

interpretation report: job_row "\<lambda>j. rp_status u = sj_status j \<or> rp_status u \<in> set (job_edges (sj_status j))"
  "reported_job u now" for u now
  by unfold_locales (auto intro: path_edge)

subsection \<open>The attempts of a job\<close>

definition atts :: "uuid \<Rightarrow> 'a dispatch_db_scheme \<Rightarrow> scan_attempt list" where
  "atts i db = filter (\<lambda>a. at_scan_job_id a = i) (attempts db)"

definition active_attempt :: "scan_attempt \<Rightarrow> bool" where
  "active_attempt a \<longleftrightarrow> at_status a \<in> set ACTIVE_ATTEMPT"

text \<open>
  Fencing tokens count the attempts; only the newest attempt may be active, in the status of the job and
  held by its Scout; and a job that was handed out has an active attempt.
\<close>

definition atts_ok :: "uuid \<Rightarrow> JobStatus \<Rightarrow> scan_attempt list \<Rightarrow> bool" where
  "atts_ok p s as \<longleftrightarrow> distinct (map at_fencing_token as) \<and>
     (\<forall>a \<in> set as. 1 \<le> at_fencing_token a \<and> at_attempt_number a = at_fencing_token a) \<and>
     (\<forall>a \<in> set as. active_attempt a \<longrightarrow> s \<in> set OFFERED_JOB \<and> at_status a = job_status_value s \<and>
        at_probe_id a = p \<and> (\<forall>b \<in> set as. at_fencing_token b \<le> at_fencing_token a)) \<and>
     (s \<in> set OFFERED_JOB \<longrightarrow> (\<exists>a \<in> set as. active_attempt a))"

lemma atts_ok_nil [simp]: "atts_ok p JobStatus.QUEUED []"
  by (simp add: atts_ok_def OFFERED_JOB_def)

lemma atts_one_active:
  assumes "atts_ok p s as" and "a \<in> set as" and "active_attempt a" and "b \<in> set as" and "active_attempt b"
  shows "b = a"
proof -
  have "at_fencing_token a = at_fencing_token b"
    using assms by (intro order_antisym) (auto simp: atts_ok_def)
  then show ?thesis using assms by (auto simp: atts_ok_def distinct_map dest: inj_onD)
qed

lemma atts_idle:
  assumes "atts_ok p s as" and "s \<notin> set OFFERED_JOB" and "s' \<notin> set OFFERED_JOB"
  shows "atts_ok p s' as"
  using assms by (auto simp: atts_ok_def)

text \<open>The current attempt and the job move together.\<close>

lemma atts_move:
  assumes "atts_ok p s as" and "a \<in> set as" and "active_attempt a" and "distinct (map at_id as)"
    and same: "at_id a' = at_id a" "at_fencing_token a' = at_fencing_token a"
      "at_attempt_number a' = at_attempt_number a" "at_probe_id a' = at_probe_id a"
    and active: "active_attempt a' \<longleftrightarrow> s' \<in> set OFFERED_JOB"
    and status: "active_attempt a' \<Longrightarrow> at_status a' = job_status_value s'"
  shows "atts_ok p s' (update_where (\<lambda>x. at_id x = at_id a) (\<lambda>_. a') as)"
proof -
  let ?as = "update_where (\<lambda>x. at_id x = at_id a) (\<lambda>_. a') as"
  have only: "x = a" if "x \<in> set as" "at_id x = at_id a" for x
    using that assms(2,4) by (auto simp: distinct_map dest: inj_onD)
  have mem: "x \<in> set ?as \<longleftrightarrow> x = a' \<or> (x \<in> set as \<and> x \<noteq> a)" for x
    using only assms(2) by (auto simp: update_where_def image_iff)
  have "map at_fencing_token ?as = map at_fencing_token as"
    using only same(2) by (auto simp: update_where_def)
  then have "distinct (map at_fencing_token ?as)" using assms(1) by (simp add: atts_ok_def)
  moreover have idle: "\<not> active_attempt x" if "x \<in> set as" "x \<noteq> a" for x
    using that atts_one_active [OF assms(1-3)] by blast
  have top: "\<forall>b \<in> set as. at_fencing_token b \<le> at_fencing_token a" "at_probe_id a = p"
      "\<forall>b \<in> set as. 1 \<le> at_fencing_token b \<and> at_attempt_number b = at_fencing_token b"
    using assms(1-3) by (auto simp: atts_ok_def)
  moreover have "\<forall>x \<in> set ?as. 1 \<le> at_fencing_token x \<and> at_attempt_number x = at_fencing_token x"
    using top(3) assms(2) same by (auto simp: mem)
  moreover have "\<forall>x \<in> set ?as. active_attempt x \<longrightarrow> s' \<in> set OFFERED_JOB \<and>
      at_status x = job_status_value s' \<and> at_probe_id x = p \<and>
      (\<forall>b \<in> set ?as. at_fencing_token b \<le> at_fencing_token x)"
    using idle top(1,2) same active status by (auto simp: mem)
  moreover have "s' \<in> set OFFERED_JOB \<longrightarrow> (\<exists>x \<in> set ?as. active_attempt x)"
    using active by (auto simp: mem)
  ultimately show ?thesis unfolding atts_ok_def by blast
qed

text \<open>A new attempt takes the next token.\<close>

lemma atts_offer:
  assumes "atts_ok p s as" and "s \<notin> set OFFERED_JOB" and "\<forall>b \<in> set as. at_fencing_token b < fence" and "1 \<le> fence"
    and "at_fencing_token a = fence" and "at_attempt_number a = fence" and "at_probe_id a = p"
    and "at_status a = ''offered''"
  shows "atts_ok p JobStatus.OFFERED (as @ [a])"
proof -
  have "\<not> active_attempt b" if "b \<in> set as" for b using that assms(1,2) by (auto simp: atts_ok_def)
  moreover have "active_attempt a" by (simp add: active_attempt_def assms(8) ACTIVE_ATTEMPT_def)
  ultimately show ?thesis
    using assms by (fastforce simp: atts_ok_def OFFERED_JOB_def)
qed

text \<open>The reaper ends them all.\<close>

lemma atts_expire:
  assumes "atts_ok p s as"
  shows "atts_ok p JobStatus.EXPIRED
    (update_where active_attempt (\<lambda>a. a\<lparr>at_status := ''expired'', at_finished_at := Some now\<rparr>) as)"
proof -
  let ?f = "\<lambda>a. a\<lparr>at_status := ''expired'', at_finished_at := Some now\<rparr>"
  have "\<not> active_attempt x" if "x \<in> set (update_where active_attempt ?f as)" for x
    using that by (auto simp: update_where_def active_attempt_def ACTIVE_ATTEMPT_def)
  moreover have "map at_fencing_token (update_where active_attempt ?f as) = map at_fencing_token as"
    by (simp add: update_where_def)
  moreover have "\<forall>a \<in> set (update_where active_attempt ?f as). 1 \<le> at_fencing_token a \<and>
      at_attempt_number a = at_fencing_token a"
    using assms by (auto simp: update_where_def atts_ok_def)
  moreover have "distinct (map at_fencing_token as)" using assms by (simp add: atts_ok_def)
  ultimately show ?thesis by (simp add: atts_ok_def OFFERED_JOB_def)
qed

subsection \<open>The tables\<close>

definition active_network :: "scan_job \<Rightarrow> uuid option" where
  "active_network j = (if sj_status j \<in> set ACTIVE_JOB then sj_network_id j else None)"

definition table_ok :: "scan_job list \<Rightarrow> bool" where
  "table_ok js \<longleftrightarrow> distinct (map sj_id js) \<and> unique_key active_network js"

definition attempts_ok :: "'a dispatch_db_scheme \<Rightarrow> bool" where
  "attempts_ok db \<longleftrightarrow> distinct (map at_id (attempts db)) \<and>
     (\<forall>a \<in> set (attempts db). at_scan_job_id a \<in> sj_id ` set (jobs db)) \<and>
     (\<forall>j \<in> set (jobs db). atts_ok (sj_probe_id j) (sj_status j) (atts (sj_id j) db))"

definition links_ok :: "'a dispatch_db_scheme \<Rightarrow> bool" where
  "links_ok db \<longleftrightarrow> runs_ok db \<and> sessions_ok db \<and>
     (\<forall>r \<in> set (runs db). \<forall>i. wr_scan_job_id r = Some i \<longrightarrow> i \<in> sj_id ` set (jobs db)) \<and>
     (\<forall>s \<in> set (sessions db). \<forall>i. ps_scan_job_id s = Some i \<longrightarrow> i \<in> sj_id ` set (jobs db))"

definition schedules_ok :: "'a dispatch_db_scheme \<Rightarrow> bool" where
  "schedules_ok db \<longleftrightarrow> distinct (map sd_id (schedules db)) \<and>
     (\<forall>s \<in> set (schedules db). 5 \<le> sd_interval_minutes s)"

definition server_inv :: "'a dispatch_db_scheme \<Rightarrow> bool" where
  "server_inv db \<longleftrightarrow> table_ok (jobs db) \<and> attempts_ok db \<and> links_ok db \<and> schedules_ok db"

lemma evolves_network: "job_evolves j j' \<Longrightarrow> active_network j' = active_network j \<or> active_network j' = None"
  using path_from_active by (auto simp: job_evolves_def active_network_def dest: signed_part_ids)

lemma unique_key_all2:
  assumes "unique_key f xs" and "list_all2 (\<lambda>x y. f y = f x \<or> f y = None) xs ys"
  shows "unique_key f ys"
proof -
  have "length (filter (\<lambda>x. f x = Some y) ys) \<le> length (filter (\<lambda>x. f x = Some y) xs)" for y
    using assms(2) by (induction rule: list_all2_induct) auto
  then show ?thesis using assms(1) unfolding unique_key_def by (meson order_trans)
qed

lemma evolve_ids: "list_all2 job_evolves js js' \<Longrightarrow> map sj_id js' = map sj_id js"
  by (induction rule: list_all2_induct) (auto simp: job_evolves_def dest: signed_part_ids)

lemma table_evolve:
  assumes "table_ok js" and "list_all2 job_evolves js js'"
  shows "table_ok js'"
proof -
  have "list_all2 (\<lambda>x y. active_network y = active_network x \<or> active_network y = None) js js'"
    using assms(2) by (rule list_all2_mono) (rule evolves_network)
  then show ?thesis
    using assms(1) unique_key_all2 evolve_ids [OF assms(2)] by (auto simp: table_ok_def)
qed

lemma table_append:
  assumes "table_ok (jobs db)" and "sj_id j \<notin> sj_id ` set (jobs db)"
    and "\<And>net. sj_network_id j = Some net \<Longrightarrow> \<not> network_has_active_job net db"
  shows "table_ok (jobs db @ [j])"
proof -
  have "\<forall>z \<in> set (jobs db). active_network z \<noteq> Some net" if "active_network j = Some net" for net
    using assms(3) [of net] that by (auto simp: active_network_def network_has_active_job_def split: if_split_asm)
  then have "unique_key active_network (jobs db @ [j])"
    using assms(1) by (intro unique_key_append) (simp_all add: table_ok_def)
  then show ?thesis using assms(1,2) by (simp add: table_ok_def)
qed

text \<open>One job changes, with its attempts.\<close>

lemma update_one_evolves:
  assumes "distinct (map sj_id js)" and "j \<in> set js" and "job_evolves j j'"
  shows "list_all2 job_evolves js (update_where (\<lambda>x. sj_id x = sj_id j) (\<lambda>_. j') js)"
proof -
  have "x = j" if "x \<in> set js" "sj_id x = sj_id j" for x
    using that assms(1,2) by (auto simp: distinct_map dest: inj_onD)
  then have "job_evolves x (if sj_id x = sj_id j then j' else x)" if "x \<in> set js" for x
    using that assms(3) by auto
  then show ?thesis by (simp add: list_all2_conv_all_nth update_where_def)
qed

lemma image_update_one:
  assumes "k j' = k j"
  shows "k ` set (update_where (\<lambda>x. k x = k j) (\<lambda>_. j') js) = k ` set js"
proof -
  have "map k (update_where (\<lambda>x. k x = k j) (\<lambda>_. j') js) = map k js"
    using assms by (simp add: update_where_def)
  then show ?thesis by (metis list.set_map)
qed

lemma in_update_one:
  "x \<in> set (update_where (\<lambda>x. k x = k j) (\<lambda>_. j') js) \<longleftrightarrow>
     (x = j' \<and> (\<exists>z \<in> set js. k z = k j)) \<or> (x \<in> set js \<and> k x \<noteq> k j)"
  by (auto simp: update_where_def)

lemma attempts_one_job:
  assumes "attempts_ok db" and "j \<in> set (jobs db)" and "job_evolves j j'"
    and "jobs db' = update_where (\<lambda>x. sj_id x = sj_id j) (\<lambda>_. j') (jobs db)"
    and "\<And>i. i \<noteq> sj_id j \<Longrightarrow> atts i db' = atts i db"
    and "distinct (map at_id (attempts db'))"
    and "\<forall>a \<in> set (attempts db'). at_scan_job_id a \<in> sj_id ` set (jobs db)"
    and "atts_ok (sj_probe_id j) (sj_status j') (atts (sj_id j) db')"
  shows "attempts_ok db'"
proof -
  have ids: "sj_id j' = sj_id j" "sj_probe_id j' = sj_probe_id j"
    using assms(3) by (auto simp: job_evolves_def dest: signed_part_ids)
  have "sj_id ` set (jobs db') = sj_id ` set (jobs db)"
    unfolding assms(4) by (rule image_update_one) (rule ids(1))
  moreover have "atts_ok (sj_probe_id x) (sj_status x) (atts (sj_id x) db')" if "x \<in> set (jobs db')" for x
    using that assms(1,2,5,8) ids unfolding assms(4) in_update_one [of x sj_id j] by (auto simp: attempts_ok_def)
  ultimately show ?thesis using assms(6,7) by (simp add: attempts_ok_def)
qed

lemma filter_update_where:
  "(\<And>x. x \<in> set xs \<Longrightarrow> P x \<Longrightarrow> Q (g x) = Q x) \<Longrightarrow>
    filter Q (update_where P g xs) = update_where P g (filter Q xs)"
  by (induction xs) (auto simp: update_where_def)

lemma update_where_none: "(\<And>x. x \<in> set xs \<Longrightarrow> \<not> P x) \<Longrightarrow> update_where P g xs = xs"
  by (auto simp: update_where_def intro: map_idI)

lemma put_attempt_atts:
  assumes "a \<in> set (attempts db)" and "distinct (map at_id (attempts db))" and "at_id a' = at_id a"
    and "at_scan_job_id a' = at_scan_job_id a"
  shows "atts (at_scan_job_id a) (put_attempt a' db) =
      update_where (\<lambda>x. at_id x = at_id a) (\<lambda>_. a') (atts (at_scan_job_id a) db)"
    and "i \<noteq> at_scan_job_id a \<Longrightarrow> atts i (put_attempt a' db) = atts i db"
    and "map at_id (attempts (put_attempt a' db)) = map at_id (attempts db)"
    and "at_scan_job_id ` set (attempts (put_attempt a' db)) = at_scan_job_id ` set (attempts db)"
proof -
  have only: "x = a" if "x \<in> set (attempts db)" "at_id x = at_id a" for x
    using that assms(1,2) by (auto simp: distinct_map dest: inj_onD)
  have move: "atts i (put_attempt a' db) = update_where (\<lambda>x. at_id x = at_id a) (\<lambda>_. a') (atts i db)" for i
    unfolding atts_def put_attempt_def using only assms(3,4)
    by (simp, intro filter_update_where) auto
  then show "atts (at_scan_job_id a) (put_attempt a' db) =
      update_where (\<lambda>x. at_id x = at_id a) (\<lambda>_. a') (atts (at_scan_job_id a) db)" by simp
  show "atts i (put_attempt a' db) = atts i db" if "i \<noteq> at_scan_job_id a"
    unfolding move using that only by (intro update_where_none) (auto simp: atts_def)
  show "map at_id (attempts (put_attempt a' db)) = map at_id (attempts db)"
    using assms(3) by (simp add: put_attempt_def update_where_def)
  show "at_scan_job_id ` set (attempts (put_attempt a' db)) = at_scan_job_id ` set (attempts db)"
  proof -
    have "at_scan_job_id (if at_id x = at_id a' then a' else x) = at_scan_job_id x" if "x \<in> set (attempts db)" for x
      using only [OF that] assms(3,4) by auto
    then have "map at_scan_job_id (attempts (put_attempt a' db)) = map at_scan_job_id (attempts db)"
      by (simp add: put_attempt_def update_where_def)
    then show ?thesis by (metis list.set_map)
  qed
qed

lemma put_job_evolves:
  assumes "table_ok (jobs db)" and "j \<in> set (jobs db)" and "job_evolves j j'"
  shows "table_ok (jobs (put_job j' db))" and "jobs_evolve (jobs db) (jobs (put_job j' db))"
    and "jobs (put_job j' db) = update_where (\<lambda>x. sj_id x = sj_id j) (\<lambda>_. j') (jobs db)"
    and "sj_id ` set (jobs (put_job j' db)) = sj_id ` set (jobs db)"
proof -
  have "sj_id j' = sj_id j" using assms(3) by (auto simp: job_evolves_def dest: signed_part_ids)
  then show eq: "jobs (put_job j' db) = update_where (\<lambda>x. sj_id x = sj_id j) (\<lambda>_. j') (jobs db)"
    by (simp add: put_job_def)
  have all2: "list_all2 job_evolves (jobs db) (jobs (put_job j' db))"
    unfolding eq using update_one_evolves [OF _ assms(2,3)] assms(1) by (simp add: table_ok_def)
  then show "table_ok (jobs (put_job j' db))" using table_evolve assms(1) by blast
  show "jobs_evolve (jobs db) (jobs (put_job j' db))"
    using all2 by (auto simp: jobs_evolve_def)
  show "sj_id ` set (jobs (put_job j' db)) = sj_id ` set (jobs db)"
    using evolve_ids [OF all2] by (metis list.set_map)
qed

subsection \<open>Every operation keeps the invariant\<close>

text \<open>What each transaction is shown to do.\<close>

definition keeps :: "'a dispatch_db_scheme \<Rightarrow> 'a dispatch_db_scheme \<Rightarrow> bool" where
  "keeps db db' \<longleftrightarrow> (server_inv db \<longrightarrow> server_inv db' \<and> jobs_evolve (jobs db) (jobs db'))"

lemma keeps_refl [simp]: "keeps db db"
  by (simp add: keeps_def)

lemma keeps_trans: "keeps db1 db2 \<Longrightarrow> keeps db2 db3 \<Longrightarrow> keeps db1 db3"
  by (auto simp: keeps_def intro: jobs_evolve_trans)

lemma links_mono:
  assumes "links_ok db" and "runs db' = runs db" and "sessions db' = sessions db"
    and "sj_id ` set (jobs db) \<subseteq> sj_id ` set (jobs db')"
  shows "links_ok db'"
  using assms by (auto simp: links_ok_def runs_ok_def sessions_ok_def)

text \<open>A job moves with its current attempt.\<close>

lemma keeps_move:
  assumes "j \<in> set (jobs db)" and "a \<in> set (attempts db)" and "at_scan_job_id a = sj_id j"
    and "active_attempt a" and "job_evolves j j'"
    and same: "at_id a' = at_id a" "at_fencing_token a' = at_fencing_token a"
      "at_attempt_number a' = at_attempt_number a" "at_probe_id a' = at_probe_id a"
      "at_scan_job_id a' = at_scan_job_id a"
    and "active_attempt a' \<longleftrightarrow> sj_status j' \<in> set OFFERED_JOB"
    and "active_attempt a' \<Longrightarrow> at_status a' = job_status_value (sj_status j')"
  shows "keeps db (put_attempt a' (put_job j' db))"
  unfolding keeps_def
proof
  assume inv: "server_inv db"
  let ?db = "put_attempt a' (put_job j' db)"
  have table: "table_ok (jobs db)" and att: "attempts_ok db" and ids: "distinct (map at_id (attempts db))"
    using inv by (simp_all add: server_inv_def attempts_ok_def)
  note job = put_job_evolves [OF table assms(1,5)]
  have jobs': "jobs ?db = jobs (put_job j' db)" "attempts (put_job j' db) = attempts db"
    by (simp_all add: put_attempt_def put_job_def)
  have atts1: "atts i (put_job j' db) = atts i db" for i by (simp add: atts_def jobs'(2))
  note at = put_attempt_atts [of a "put_job j' db" a', unfolded jobs'(2) atts1, OF assms(2) ids same(1,5)]
  have "attempts_ok ?db"
  proof (rule attempts_one_job [OF att assms(1,5)])
    show "jobs ?db = update_where (\<lambda>x. sj_id x = sj_id j) (\<lambda>_. j') (jobs db)" using jobs'(1) job(3) by simp
    show "atts i ?db = atts i db" if "i \<noteq> sj_id j" for i using at(2) that assms(3) by simp
    show "distinct (map at_id (attempts ?db))" using at(3) ids by simp
    have "\<forall>i \<in> at_scan_job_id ` set (attempts ?db). i \<in> sj_id ` set (jobs db)"
      unfolding at(4) using att by (auto simp: attempts_ok_def)
    then show "\<forall>a \<in> set (attempts ?db). at_scan_job_id a \<in> sj_id ` set (jobs db)" by blast
    show "atts_ok (sj_probe_id j) (sj_status j') (atts (sj_id j) ?db)"
      unfolding at(1) [unfolded assms(3)]
    proof (rule atts_move [OF _ _ assms(4) _ same(1-4) assms(11,12)])
      show "atts_ok (sj_probe_id j) (sj_status j) (atts (sj_id j) db)"
        using att assms(1) by (simp add: attempts_ok_def)
      show "a \<in> set (atts (sj_id j) db)" using assms(2,3) by (simp add: atts_def)
      show "distinct (map at_id (atts (sj_id j) db))" using ids by (simp add: atts_def distinct_map_filter)
    qed
  qed
  moreover have "links_ok ?db"
    using links_mono [of db ?db] inv job(4) by (simp add: server_inv_def put_attempt_def put_job_def)
  moreover have "schedules_ok ?db"
    using inv by (simp add: server_inv_def schedules_ok_def put_attempt_def put_job_def)
  ultimately show "server_inv ?db \<and> jobs_evolve (jobs db) (jobs ?db)"
    using job(1,2) jobs'(1) by (simp add: server_inv_def)
qed

text \<open>A job that no attempt holds, or whose status stays.\<close>

lemma keeps_row:
  assumes "j \<in> set (jobs db)" and "job_evolves j j'"
    and "sj_status j' = sj_status j \<or> sj_status j \<notin> set OFFERED_JOB \<and> sj_status j' \<notin> set OFFERED_JOB"
  shows "keeps db (put_job j' db)"
  unfolding keeps_def
proof
  assume inv: "server_inv db"
  have table: "table_ok (jobs db)" and att: "attempts_ok db" using inv by (simp_all add: server_inv_def)
  note job = put_job_evolves [OF table assms(1,2)]
  have same: "attempts (put_job j' db) = attempts db" "atts i (put_job j' db) = atts i db" for i
    by (simp_all add: put_job_def atts_def)
  have "atts_ok (sj_probe_id j) (sj_status j) (atts (sj_id j) db)"
    using att assms(1) by (simp add: attempts_ok_def)
  then have "atts_ok (sj_probe_id j) (sj_status j') (atts (sj_id j) db)"
    using assms(3) atts_idle by metis
  then have "attempts_ok (put_job j' db)"
    using att by (intro attempts_one_job [OF att assms(1,2) job(3)]) (simp_all add: same attempts_ok_def)
  moreover have "links_ok (put_job j' db)"
    using links_mono [of db "put_job j' db"] inv job(4) by (simp add: server_inv_def put_job_def)
  moreover have "schedules_ok (put_job j' db)"
    using inv by (simp add: server_inv_def schedules_ok_def put_job_def)
  ultimately show "server_inv (put_job j' db) \<and> jobs_evolve (jobs db) (jobs (put_job j' db))"
    using job(1,2) by (simp add: server_inv_def)
qed

text \<open>Only the sessions and artifacts, the runs, the schedules, or tables outside the invariant change.\<close>

lemma keeps_others:
  assumes "jobs db' = jobs db" and "attempts db' = attempts db" and "runs db' = runs db"
    and "sessions db' = sessions db" and "schedules db' = schedules db"
  shows "keeps db db'"
  using assms by (simp add: keeps_def server_inv_def attempts_ok_def atts_def links_ok_def runs_ok_def
      sessions_ok_def schedules_ok_def)

lemma keeps_schedules:
  assumes "schedules_ok db \<Longrightarrow> schedules_ok (db\<lparr>schedules := ss\<rparr>)"
  shows "keeps db (db\<lparr>schedules := ss\<rparr>)"
  using assms by (simp add: keeps_def server_inv_def attempts_ok_def atts_def links_ok_def runs_ok_def
      sessions_ok_def)

lemma keeps_create:
  assumes "create_scan_job env cfg p rq db = Inr (db', j)" and "je_fresh env \<notin> sj_id ` set (jobs db)"
  shows "keeps db db'"
  unfolding keeps_def
proof
  assume inv: "server_inv db"
  note new = create_scan_job_db [OF assms(1)] create_scan_job_others [OF assms(1)]
  have fresh: "sj_id j \<notin> sj_id ` set (jobs db)" using new(2) assms(2) by simp
  have tables: "attempts db' = attempts db" "runs db' = runs db" "sessions db' = sessions db" "schedules db' = schedules db"
    using new(7) by (simp_all add: same_other_tables_def)
  have "table_ok (jobs db')"
    unfolding new(8) using inv new(4,6) fresh by (intro table_append) (auto simp: server_inv_def)
  moreover have "at_scan_job_id x \<noteq> sj_id j" if "x \<in> set (attempts db)" for x
    using that inv fresh unfolding server_inv_def attempts_ok_def by metis
  then have "atts (sj_id j) db' = []" by (simp add: atts_def tables filter_empty_conv)
  then have "attempts_ok db'"
    using inv new(3) by (auto simp: server_inv_def attempts_ok_def tables new(8) atts_def)
  moreover have "links_ok db'"
    using links_mono [of db db'] inv by (auto simp: server_inv_def tables new(8))
  ultimately show "server_inv db' \<and> jobs_evolve (jobs db) (jobs db')"
    using inv new(8) by (simp add: server_inv_def schedules_ok_def tables)
qed

lemma keeps_put_run:
  assumes "server_inv db \<Longrightarrow> runs_ok (put_run s db)"
    and "\<And>i. wr_scan_job_id s = Some i \<Longrightarrow> i \<in> sj_id ` set (jobs db)"
  shows "keeps db (put_run s db)"
  using assms
  by (auto simp: keeps_def server_inv_def links_ok_def in_put_run schedules_ok_def attempts_ok_def atts_def
      sessions_ok_def)

end
