(* ===== verification/Transactions.thy ===== *)
theory Transactions
  imports Lifecycle
begin

text \<open>
  Every transaction of the server that touches jobs, attempts, workflow runs, pentest sessions or
  schedules keeps the invariant of \<open>Lifecycle\<close> and moves each job along its abstract state machine:
  one lemma per service function or handler, composed with \<open>keeps_trans\<close> the way the code composes them.
\<close>

subsection \<open>The transactions that create jobs\<close>

lemma keepsI: "(server_inv db \<Longrightarrow> keeps db db') \<Longrightarrow> keeps db db'"
  by (simp add: keeps_def)

lemma keeps_append:
  assumes "jobs db' = jobs db @ [j]" and tables: "attempts db' = attempts db" "runs db' = runs db"
      "sessions db' = sessions db" "schedules db' = schedules db"
    and "sj_status j = JobStatus.QUEUED" and fresh: "sj_id j \<notin> sj_id ` set (jobs db)"
    and "\<And>net. sj_network_id j = Some net \<Longrightarrow> \<not> network_has_active_job net db"
  shows "keeps db db'"
  unfolding keeps_def
proof
  assume inv: "server_inv db"
  have "table_ok (jobs db')"
    unfolding assms(1) using inv assms(8) fresh by (intro table_append) (auto simp: server_inv_def)
  moreover have "at_scan_job_id x \<noteq> sj_id j" if "x \<in> set (attempts db)" for x
    using that inv fresh unfolding server_inv_def attempts_ok_def by metis
  then have "atts (sj_id j) db' = []" by (simp add: atts_def tables filter_empty_conv)
  then have "attempts_ok db'"
    using inv assms(1,6) by (auto simp: server_inv_def attempts_ok_def tables atts_def)
  moreover have "links_ok db'"
    using links_mono [of db db'] inv assms(1) by (auto simp: server_inv_def tables)
  ultimately show "server_inv db' \<and> jobs_evolve (jobs db) (jobs db')"
    using inv assms(1) by (simp add: server_inv_def schedules_ok_def tables)
qed

lemma keeps_terminal:
  assumes "on_scan_job_terminal env cfg seen j status db = Inr db'"
    and "status = JobStatus.COMPLETED \<Longrightarrow> je_fresh env \<notin> sj_id ` set (jobs db)"
  shows "keeps db db'"
  unfolding keeps_def
proof
  assume inv: "server_inv db"
  then have runs: "runs_ok db" and linked: "\<And>r i. r \<in> set (runs db) \<Longrightarrow> wr_scan_job_id r = Some i \<Longrightarrow> i \<in> sj_id ` set (jobs db)"
    by (auto simp: server_inv_def links_ok_def)
  have ok: "runs_ok db'"
  proof (cases "status = JobStatus.COMPLETED")
    case True
    then have "unlinked (je_fresh env) db" using linked assms(2) by (auto simp: unlinked_def)
    then show ?thesis by (rule terminal_ok [OF assms(1) runs])
  qed (rule failed_terminal_effect(2) [OF runs _ assms(1)])
  have "keeps db db'" using terminal_effect [OF runs assms(1)]
  proof
    assume "run_moved env cfg j status db db'"
    then obtain r s where r: "r \<in> set (runs db)" and how: "(db' = put_run s db \<and> wr_scan_job_id s = wr_scan_job_id r) \<or>
       (status = JobStatus.COMPLETED \<and> (\<exists>p rq j' db1. create_scan_job env cfg p rq db = Inr (db1, j') \<and>
          wr_scan_job_id s = Some (sj_id j') \<and> db' = put_run s db1))"
      unfolding run_moved_def by blast
    from how show ?thesis
    proof (elim disjE conjE exE)
      assume "db' = put_run s db" and "wr_scan_job_id s = wr_scan_job_id r"
      then show ?thesis using keeps_put_run [of db s] ok linked r by simp
    next
      fix p rq j' db1
      assume made: "create_scan_job env cfg p rq db = Inr (db1, j')" and s: "wr_scan_job_id s = Some (sj_id j')"
        and db': "db' = put_run s db1" and over: "status = JobStatus.COMPLETED"
      have "keeps db1 db'"
        unfolding db' using ok s create_scan_job_others(2) [OF made] by (intro keeps_put_run) (simp_all add: db')
      with keeps_create [OF made assms(2) [OF over]] show ?thesis by (rule keeps_trans)
    qed
  qed simp
  then show "server_inv db' \<and> jobs_evolve (jobs db) (jobs db')" using inv by (simp add: keeps_def)
qed

lemma keeps_fire:
  assumes "fire_schedule env cfg s now db = Inr (db1, s1, jo)" and "je_fresh env \<notin> sj_id ` set (jobs db)"
  shows "keeps db db1"
  using fire_schedule_effect(2) [OF assms(1)] keeps_create assms(2) by (cases jo) auto

subsection \<open>The transactions on sessions\<close>

lemma keeps_sessions:
  assumes "jobs db' = jobs db" and "attempts db' = attempts db" and "runs db' = runs db"
    and "schedules db' = schedules db" and "server_inv db \<Longrightarrow> sessions_ok db'"
    and "\<And>s i. server_inv db \<Longrightarrow> s \<in> set (sessions db') \<Longrightarrow> ps_scan_job_id s = Some i \<Longrightarrow> i \<in> sj_id ` set (jobs db)"
  shows "keeps db db'"
  unfolding keeps_def
proof
  assume inv: "server_inv db"
  have "attempts_ok db' = attempts_ok db" "schedules_ok db' = schedules_ok db" "runs_ok db' = runs_ok db"
    by (simp_all add: assms(1-4) attempts_ok_def atts_def schedules_ok_def runs_ok_def)
  moreover have "links_ok db'"
  proof -
    have "sessions_ok db'" by (rule assms(5) [OF inv])
    moreover have "\<forall>s \<in> set (sessions db'). \<forall>i. ps_scan_job_id s = Some i \<longrightarrow> i \<in> sj_id ` set (jobs db')"
      using assms(6) [OF inv] by (simp only: assms(1)) blast
    moreover have "runs_ok db'"
      using inv unfolding \<open>runs_ok db' = runs_ok db\<close> server_inv_def links_ok_def by blast
    moreover have "\<forall>r \<in> set (runs db'). \<forall>i. wr_scan_job_id r = Some i \<longrightarrow> i \<in> sj_id ` set (jobs db')"
      using inv unfolding assms(1,3) server_inv_def links_ok_def by blast
    ultimately show ?thesis unfolding links_ok_def by (intro conjI)
  qed
  ultimately show "server_inv db' \<and> jobs_evolve (jobs db) (jobs db')"
    using inv assms(1) by (simp add: server_inv_def)
qed

lemma keeps_session_rows:
  assumes "session_row f" and rows: "sessions db' = update_where P f (sessions db)"
    and "jobs db' = jobs db" and "attempts db' = attempts db" and "runs db' = runs db"
    and "schedules db' = schedules db"
  shows "keeps db db'"
proof (rule keeps_sessions [OF assms(3-6)])
  note kept = session_row.ids [OF assms(1)] session_row.approval_kept(4) [OF assms(1)]
  show "sessions_ok db'" if "server_inv db"
    using that kept unique_key_update [of ps_scan_job_id "sessions db" P f]
    by (simp add: rows sessions_ok_def server_inv_def links_ok_def)
  show "i \<in> sj_id ` set (jobs db)"
    if inv: "server_inv db" and s: "s \<in> set (sessions db')" "ps_scan_job_id s = Some i" for s i
  proof -
    obtain s0 where "s0 \<in> set (sessions db)" "ps_scan_job_id s = ps_scan_job_id s0"
      using s(1) kept by (auto simp: rows update_where_def)
    then show ?thesis using inv s(2) by (auto simp: server_inv_def links_ok_def)
  qed
qed

lemma keeps_unattended:
  assumes "db' = db\<lparr>sessions := ss, artifacts := as\<rparr>"
    and "distinct (map ps_id (sessions db)) \<Longrightarrow> unattended db db'"
  shows "keeps db db'"
proof -
  have "keeps db db'" if "server_inv db"
  proof -
    have "distinct (map ps_id (sessions db))" using that by (simp add: server_inv_def links_ok_def sessions_ok_def)
    with assms(2) obtain P f where "session_row f" "sessions db' = update_where P f (sessions db)"
      unfolding unattended_def by blast
    then show ?thesis by (rule keeps_session_rows) (simp_all add: assms(1))
  qed
  then show ?thesis by (simp add: keeps_def)
qed

lemma keeps_complete:
  assumes "complete_session_for_job clock j status evidence now db = Inr db'"
  shows "keeps db db'"
proof -
  obtain ss as where "db' = db\<lparr>sessions := ss, artifacts := as\<rparr>" using complete_session_tables [OF assms] by blast
  then show ?thesis using finish_unattended [OF assms] by (rule keeps_unattended)
qed

lemma put_session_tables:
  assumes "db1 = db\<lparr>artifacts := as\<rparr>"
  shows "\<exists>ss as. put_session ps db1 = db\<lparr>sessions := ss, artifacts := as\<rparr>"
  unfolding put_session_def assms
  by (intro exI [of _ "update_where (\<lambda>s. ps_id s = ps_id ps) (\<lambda>_. ps) (sessions db)"] exI [of _ as]) simp

lemma cleanup_tables:
  assumes "cleanup clock i records outcome evidence now db = Inr db'"
  shows "\<exists>ss as. db' = db\<lparr>sessions := ss, artifacts := as\<rparr>"
proof -
  obtain ps db1 ps1 where "record_cleanup clock records outcome evidence now ps db = (db1, ps1)"
    and db': "db' = put_session ps1 db1"
    using assms by (auto simp: cleanup_def split: option.split_asm prod.split_asm)
  moreover have "\<exists>as. fst (record_cleanup clock records outcome evidence now ps db) = db\<lparr>artifacts := as\<rparr>"
  proof (cases evidence)
    case None
    then show ?thesis by (auto simp: record_cleanup_def Let_def intro: exI [of _ "artifacts db"])
  next
    case (Some e)
    let ?st = "store_session_evidence clock
      (ps\<lparr>ps_cleanup_records := map OperatorRecord records, ps_cleanup_completed := True\<rparr>) e db"
    obtain as where "fst ?st = db\<lparr>artifacts := as\<rparr>"
      using store_evidence_tables [of clock _ e db "fst ?st" "snd ?st"] by auto
    then show ?thesis by (auto simp: record_cleanup_def Some Let_def split: prod.split)
  qed
  ultimately obtain as where "db1 = db\<lparr>artifacts := as\<rparr>" by auto
  then show ?thesis unfolding db' by (rule put_session_tables)
qed

lemma result_tables:
  assumes "record_pentest_result now job out db = Inr db'"
  shows "\<exists>ss as. db' = db\<lparr>sessions := ss, artifacts := as\<rparr>"
proof (cases "session_for_job job db")
  case (Some found)
  show ?thesis
  proof (cases found)
    case None
    then have "db' = db\<lparr>sessions := sessions db, artifacts := artifacts db\<rparr>"
      using assms Some by (simp add: record_pentest_result_def)
    then show ?thesis by blast
  next
    case ps: (Some ps)
    let ?raw = "case map_of out ''evidence'' of Some (JObj kvs) \<Rightarrow> kvs | _ \<Rightarrow> []"
    obtain db1 ps1 where st: "store_session_evidence now ps ?raw db = (db1, ps1)" by force
    then obtain as where as: "db1 = db\<lparr>artifacts := as\<rparr>" using store_evidence_tables by blast
    have "\<exists>ps2. db' = put_session ps2 db1"
      using assms Some ps st by (auto simp: record_pentest_result_def Let_def)
    with put_session_tables [OF as] show ?thesis by metis
  qed
qed (use assms in \<open>simp add: record_pentest_result_def\<close>)

lemma keeps_cleanup: "cleanup clock i records outcome evidence now db = Inr db' \<Longrightarrow> keeps db db'"
  using cleanup_tables cleanup_unattended by (blast intro: keeps_unattended)

lemma keeps_result: "record_pentest_result now job out db = Inr db' \<Longrightarrow> keeps db db'"
  using result_tables result_unattended by (blast intro: keeps_unattended)

lemma keeps_purge:
  assumes "purge_expired_evidence now org db = (db', n)"
  shows "keeps db db'"
proof -
  obtain ss as where "db' = db\<lparr>sessions := ss, artifacts := as\<rparr>"
    using assms by (auto simp: purge_expired_evidence_def Let_def)
  then show ?thesis using purge_unattended [OF assms] by (rule keeps_unattended)
qed

lemma keeps_timeouts:
  assumes "terminate_expired_sessions now org db = (db', n)"
  shows "keeps db db'"
proof -
  let ?db1 = "db\<lparr>sessions := update_where (timed_out now org) (terminate_row now) (sessions db)\<rparr>"
  have "db' = ?db1\<lparr>sessions := update_where (stale_request now org) (expire_row now) (sessions ?db1)\<rparr>"
    using assms by (simp add: terminate_expired_sessions_def Let_def)
  moreover have "keeps db ?db1"
    by (rule keeps_session_rows [OF terminate.session_row_axioms]) simp_all
  moreover have "keeps ?db1 (?db1\<lparr>sessions := update_where (stale_request now org) (expire_row now) (sessions ?db1)\<rparr>)"
    by (rule keeps_session_rows [OF expire.session_row_axioms]) simp_all
  ultimately show ?thesis by (metis keeps_trans)
qed

text \<open>Requests add a session without a job; an approval links its session to the job it creates.\<close>

lemma keeps_request:
  assumes "create_session env f path payload options by_user roe now db = Inr (db', ps)"
    and "pe_fresh env \<notin> ps_id ` set (sessions db)"
  shows "keeps db db'"
proof -
  have db': "db' = db\<lparr>sessions := sessions db @ [ps]\<rparr>" and ps: "ps_id ps = pe_fresh env" "ps_scan_job_id ps = None"
    using assms(1) by (auto simp: create_session_def new_session_def Let_def split: option.split_asm sum.split_asm if_split_asm)
  show ?thesis
  proof (rule keeps_sessions)
    show "sessions_ok db'" if "server_inv db"
      using that ps assms(2) by (auto simp: db' sessions_ok_def server_inv_def links_ok_def intro!: unique_key_append)
    show "i \<in> sj_id ` set (jobs db)"
      if "server_inv db" "s \<in> set (sessions db')" "ps_scan_job_id s = Some i" for s i
      using that ps by (auto simp: db' server_inv_def links_ok_def)
  qed (simp_all add: db')
qed

lemma keeps_put_session:
  assumes "s \<in> set (sessions db)" and "ps_id s' = ps_id s"
    and "ps_scan_job_id s' = ps_scan_job_id s \<or> (\<exists>i. ps_scan_job_id s' = Some i \<and> i \<in> sj_id ` set (jobs db) \<and>
      (\<forall>x \<in> set (sessions db). ps_scan_job_id x \<noteq> Some i))"
  shows "keeps db (put_session s' db)"
proof (rule keeps_sessions)
  show "sessions_ok (put_session s' db)" if inv: "server_inv db"
  proof -
    have ok: "distinct (map ps_id (sessions db))" "unique_key ps_scan_job_id (sessions db)"
      using inv by (simp_all add: server_inv_def links_ok_def sessions_ok_def)
    have "map ps_id (update_where (\<lambda>x. ps_id x = ps_id s') (\<lambda>_. s') (sessions db)) = map ps_id (sessions db)"
      by (simp add: update_where_def)
    then show ?thesis
      using ok unique_key_put [OF ok assms(1,2)] assms(3) by (auto simp: sessions_ok_def put_session_def)
  qed
  show "i \<in> sj_id ` set (jobs db)"
    if "server_inv db" "x \<in> set (sessions (put_session s' db))" "ps_scan_job_id x = Some i" for x i
    using that assms(1,3) by (auto simp: put_session_def update_where_def server_inv_def links_ok_def split: if_split_asm)
qed (simp_all add: put_session_def)

lemma keeps_decide:
  assumes "decide env cfg i approve approver now db = Inr db'"
    and "je_fresh (pe_jobs env) \<notin> sj_id ` set (jobs db)"
  shows "keeps db db'"
proof -
  obtain ps where ps: "session_of i db = Some ps" using decide_found [OF assms(1)] by blast
  then have mem: "ps \<in> set (sessions db)" by (auto simp: session_of_def dest: find_SomeD)
  show ?thesis
  proof (cases approve)
    case False
    then show ?thesis
      using decide_reject [of env cfg i approver now db db' ps] assms(1) ps keeps_put_session [OF mem, of "rejected_row approver now ps"]
      by (simp add: rejected_row_def)
  next
    case True
    obtain j p n r target where made: "create_pentest_job (pe_jobs env) cfg p
        (session_request (approved_row approver now ps) target
           (now + seconds (ps_max_session_seconds ps)) (nw_id n)) db = Inr (db\<lparr>jobs := jobs db @ [j]\<rparr>, j)"
      and db': "db' = put_session (dispatched (approved_row approver now ps) j n p r) (db\<lparr>jobs := jobs db @ [j]\<rparr>)"
      by (rule decide_approve [of env cfg i approver now db db' ps]) (use assms(1) True ps in auto)
    let ?db1 = "db\<lparr>jobs := jobs db @ [j]\<rparr>"
    let ?s = "dispatched (approved_row approver now ps) j n p r"
    have id: "sj_id j = je_fresh (pe_jobs env)" by (rule create_pentest_job_db(2) [OF made])
    have "keeps db ?db1"
    proof (rule keeps_append)
      show queued: "sj_status j = JobStatus.QUEUED"
        using made by (auto simp: create_pentest_job_def Let_def res_bind_Inr new_job_def split: sum.split_asm if_split_asm)
      show "\<not> network_has_active_job net db" if "sj_network_id j = Some net" for net
      proof -
        have "\<exists>db1. persist_job j db = Inr db1"
          using made by (auto simp: create_pentest_job_def Let_def res_bind_Inr split: sum.split_asm if_split_asm)
        then show ?thesis using that queued by (auto simp: persist_job_def ACTIVE_JOB_def split: if_split_asm)
      qed
    qed (use id assms(2) in simp_all)
    moreover have "keeps ?db1 db'" if inv: "server_inv db"
    proof -
      have "\<forall>x \<in> set (sessions db). ps_scan_job_id x \<noteq> Some (sj_id j)"
        using inv id assms(2) by (auto simp: server_inv_def links_ok_def)
      then show ?thesis unfolding db' using mem
        by (intro keeps_put_session [of ps]) (simp_all add: dispatched_def approved_row_def)
    qed
    ultimately show ?thesis using keeps_trans by (blast intro: keepsI)
  qed
qed

subsection \<open>The handlers of runs and schedules\<close>

lemma keeps_workflow:
  assumes "create_workflow fresh org site net web intrusive by_user now db = Inr (db', run)"
    and "fresh \<notin> wr_id ` set (runs db)"
  shows "keeps db db'"
proof (rule keepsI)
  assume inv: "server_inv db"
  then have ok: "runs_ok db" by (simp add: server_inv_def links_ok_def)
  note made = create_workflow_ok [OF assms(1) ok assms(2)]
  have "links_ok db'"
    using inv made(1,3) by (auto simp: made(2) server_inv_def links_ok_def sessions_ok_def)
  then show "keeps db db'"
    using inv by (simp add: keeps_def server_inv_def made(2) attempts_ok_def atts_def schedules_ok_def)
qed

lemma keeps_dispatch:
  assumes "dispatch_current_scan_stage env cfg seen r db = Inr (db1, s)" and "on_track r"
    and "je_fresh env \<notin> sj_id ` set (jobs db)"
  shows "keeps db db1"
    and "wr_scan_job_id s = wr_scan_job_id r \<or> (\<exists>i \<in> sj_id ` set (jobs db1). wr_scan_job_id s = Some i)"
    and "sj_id ` set (jobs db) \<subseteq> sj_id ` set (jobs db1)"
proof -
  note cases = dispatch_effect [OF assms(1,2)]
  show "keeps db db1" using cases keeps_create [OF _ assms(3)] by auto
  show "wr_scan_job_id s = wr_scan_job_id r \<or> (\<exists>i \<in> sj_id ` set (jobs db1). wr_scan_job_id s = Some i)"
    using cases create_scan_job_others(2) [of env cfg _ _ db db1] by (auto simp: same_run_def)
  show "sj_id ` set (jobs db) \<subseteq> sj_id ` set (jobs db1)"
    using cases create_scan_job_others(2) [of env cfg _ _ db db1] by auto
qed

lemma keeps_advance:
  assumes "advance_run env cfg i outcome detail db = Inr db'" and "je_fresh env \<notin> sj_id ` set (jobs db)"
  shows "keeps db db'"
proof (rule keepsI)
  assume inv: "server_inv db"
  obtain r r1 db1 s where r: "Dispatch.run_of i db = Some r" and r1: "advance r outcome detail (je_now env) = Inr r1"
    and s: "dispatch_current_scan_stage env cfg (jobs db) r1 db = Inr (db1, s)" "db' = put_run s db1"
    using assms(1) by (auto simp: advance_run_def res_bind_Inr split: option.split_asm if_split_asm)
  have run: "r \<in> set (runs db)" "runs_ok db" using run_of_mem [OF r] inv by (simp_all add: server_inv_def links_ok_def)
  have "on_track r" using run by (simp add: runs_ok_def)
  then have r1_ok: "on_track r1" using on_track_step step_advance [OF r1] by blast
  note moved = keeps_dispatch [OF s(1) r1_ok assms(2)]
  have linked: "\<And>i. wr_scan_job_id r = Some i \<Longrightarrow> i \<in> sj_id ` set (jobs db)"
    using inv run(1) by (auto simp: server_inv_def links_ok_def)
  have "unlinked (je_fresh env) db" using inv assms(2) by (auto simp: unlinked_def server_inv_def links_ok_def)
  then have "runs_ok db'" by (rule advance_run_ok [OF assms(1) run(2)])
  then have "keeps db1 db'" unfolding s(2)
    using moved(2,3) linked advance_run_row [OF r1] by (intro keeps_put_run) (auto simp: same_run_def)
  with moved(1) show "keeps db db'" by (rule keeps_trans)
qed

lemma keeps_decide_run:
  assumes "decide_run i approve now db = Inr db'"
  shows "keeps db db'"
proof (rule keepsI)
  assume inv: "server_inv db"
  obtain r s where r: "Dispatch.run_of i db = Some r" and s: "decide_intrusive r approve now = Inr s" "db' = put_run s db"
    using assms by (auto simp: decide_run_def res_bind_Inr split: option.split_asm)
  have "runs_ok db'" using decide_run_ok [OF assms] inv by (simp add: server_inv_def links_ok_def)
  then show "keeps db db'" unfolding s(2)
    using inv run_of_mem [OF r] decide_intrusive_row [OF s(1)]
    by (intro keeps_put_run) (auto simp: same_run_def server_inv_def links_ok_def)
qed

lemma schedules_ok_put:
  assumes "schedules_ok db" and "5 \<le> sd_interval_minutes s"
  shows "schedules_ok (put_schedule s db)"
proof -
  have "5 \<le> sd_interval_minutes x" if "x \<in> set (schedules (put_schedule s db))" for x
    using that assms by (auto simp: schedules_ok_def put_schedule_def update_where_def)
  then show ?thesis using assms(1) by (simp add: schedules_ok_def)
qed

lemma keeps_put_schedule:
  assumes "server_inv db \<Longrightarrow> 5 \<le> sd_interval_minutes s"
  shows "keeps db (put_schedule s db)"
proof (rule keepsI)
  assume "server_inv db"
  then have "schedules_ok (put_schedule s db)"
    using assms by (intro schedules_ok_put) (simp_all add: server_inv_def)
  then show "keeps db (put_schedule s db)"
    unfolding put_schedule_def by (intro keeps_schedules)
qed

lemma keeps_create_schedule:
  assumes "create_schedule fresh org allowed q by_user now db = Inr db'" and "fresh \<notin> sd_id ` set (schedules db)"
  shows "keeps db db'"
proof -
  obtain s where db': "db' = db\<lparr>schedules := schedules db @ [s]\<rparr>" and s: "sd_id s = fresh" "5 \<le> sd_interval_minutes s"
    using assms(1)
    by (auto simp: create_schedule_def schedule_create_ok_def res_bind_Inr split: if_split_asm option.split_asm)
  show ?thesis unfolding db' using s assms(2) by (intro keeps_schedules) (auto simp: schedules_ok_def)
qed

lemma owned_schedule_mem: "owned_schedule i org allowed db = Some s \<Longrightarrow> s \<in> set (schedules db)"
  by (auto simp: owned_schedule_def dest: find_SomeD)

lemma keeps_update_schedule:
  assumes "update_schedule i org allowed q db = Inr db'"
  shows "keeps db db'"
proof -
  obtain s s' where s: "s \<in> set (schedules db)" and db': "db' = put_schedule s' db"
    and every: "sd_interval_minutes s' = or_else (su_interval_minutes q) (sd_interval_minutes s)"
      "schedule_update_ok q"
    using assms owned_schedule_mem
    by (fastforce simp: update_schedule_def Let_def res_bind_Inr split: if_split_asm option.split_asm)
  show ?thesis unfolding db'
  proof (rule keeps_put_schedule)
    assume "server_inv db"
    then have "5 \<le> sd_interval_minutes s" using s by (simp add: server_inv_def schedules_ok_def)
    then show "5 \<le> sd_interval_minutes s'"
      using every by (cases "su_interval_minutes q") (auto simp: schedule_update_ok_def)
  qed
qed

lemma keeps_delete_schedule:
  assumes "delete_schedule i org allowed db = Inr db'"
  shows "keeps db db'"
  using assms
  by (auto simp: delete_schedule_def schedules_ok_def distinct_map_filter intro!: keeps_schedules split: option.split_asm)

lemma keeps_run_now:
  assumes "run_now env cfg i org allowed db = Inr db'" and "je_fresh env \<notin> sj_id ` set (jobs db)"
  shows "keeps db db'"
proof -
  obtain s db1 s1 jo where s: "owned_schedule i org allowed db = Some s"
    and fired: "fire_schedule env cfg s (je_now env) db = Inr (db1, s1, jo)" and db': "db' = put_schedule s1 db1"
    using assms(1) by (auto simp: run_now_def res_bind_Inr split: option.split_asm)
  have same: "sd_interval_minutes s1 = sd_interval_minutes s" using fire_schedule_effect(1) [OF fired] by auto
  have first: "keeps db db1" by (rule keeps_fire [OF fired assms(2)])
  show ?thesis
  proof (rule keepsI)
    assume "server_inv db"
    then have "5 \<le> sd_interval_minutes s" using owned_schedule_mem [OF s] by (simp add: server_inv_def schedules_ok_def)
    then have "keeps db1 db'" unfolding db' by (intro keeps_put_schedule) (simp add: same)
    with first show "keeps db db'" by (rule keeps_trans)
  qed
qed

subsection \<open>Sweeps\<close>

text \<open>Each schedule of a sweep that queues a job draws its own identifier.\<close>

definition fresh_for :: "(uuid \<Rightarrow> job_env) \<Rightarrow> scan_schedule list \<Rightarrow> 'a job_db_scheme \<Rightarrow> bool" where
  "fresh_for envs ss db \<longleftrightarrow> distinct (map (\<lambda>s. je_fresh (envs (sd_id s))) ss) \<and>
     (\<forall>s \<in> set ss. je_fresh (envs (sd_id s)) \<notin> sj_id ` set (jobs db))"

lemma keeps_run_schedules:
  assumes "run_schedules envs cfg now ss db = Inr db'" and "\<forall>s \<in> set ss. 5 \<le> sd_interval_minutes s"
    and "fresh_for envs ss db"
  shows "keeps db db'"
  using assms
proof (induction envs cfg now ss db arbitrary: db' rule: run_schedules.induct)
  case (2 envs cfg now s rest db)
  obtain db1 s1 jo t where fired: "fire_schedule (envs (sd_id s)) cfg s now db = Inr (db1, s1, jo)"
    and slot: "next_slot (sd_next_run_at s1) (sd_interval_minutes s1) now = Some t"
    and rest: "run_schedules envs cfg now rest (put_schedule (s1\<lparr>sd_next_run_at := t\<rparr>) db1) = Inr db'"
    using 2(2) by (auto simp: res_bind_Inr split: option.split_asm)
  let ?db1 = "put_schedule (s1\<lparr>sd_next_run_at := t\<rparr>) db1"
  note effect = fire_schedule_effect [OF fired]
  have "jobs db1 = jobs db \<or> (\<exists>j. jobs db1 = jobs db @ [j] \<and> sj_id j = je_fresh (envs (sd_id s)))"
  proof (cases jo)
    case (Some j)
    then obtain p rq where made: "create_scan_job (envs (sd_id s)) cfg p rq db = Inr (db1, j)" using effect(2) by auto
    then show ?thesis using create_scan_job_others(2) [OF made] create_scan_job_db(2) [OF made] by simp
  qed (use effect(2) in simp)
  then have ids: "sj_id ` set (jobs ?db1) \<subseteq> insert (je_fresh (envs (sd_id s))) (sj_id ` set (jobs db))"
    by (auto simp: put_schedule_def)
  have "je_fresh (envs (sd_id x)) \<noteq> je_fresh (envs (sd_id s))" if "x \<in> set rest" for x
    using 2(4) that unfolding fresh_for_def by (metis (no_types, lifting) distinct.simps(2) imageI list.set_map list.simps(9))
  then have "je_fresh (envs (sd_id x)) \<notin> sj_id ` set (jobs ?db1)" if "x \<in> set rest" for x
    using 2(4) that subsetD [OF ids, of "je_fresh (envs (sd_id x))"] by (simp add: fresh_for_def) blast
  then have "fresh_for envs rest ?db1" using 2(4) by (simp add: fresh_for_def)
  then have "keeps ?db1 db'" using 2(3) by (intro 2(1) [OF slot rest]) simp_all
  moreover have "keeps db db1"
    using 2(4) by (intro keeps_fire [OF fired]) (simp add: fresh_for_def)
  moreover have "keeps db1 ?db1"
    using effect(1) 2(3) by (intro keeps_put_schedule) auto
  ultimately show ?case by (metis keeps_trans)
qed simp

lemma keeps_sweep:
  assumes "run_due_schedules envs cfg org now db = Inr (db', n)"
    and "fresh_for envs (filter (schedule_due org now) (schedules db)) db"
  shows "keeps db db'"
proof (rule keepsI)
  assume "server_inv db"
  then have "\<forall>s \<in> set (filter (schedule_due org now) (schedules db)). 5 \<le> sd_interval_minutes s"
    by (simp add: server_inv_def schedules_ok_def)
  moreover have "run_schedules envs cfg now (filter (schedule_due org now) (schedules db)) db = Inr db'"
    using assms(1) by (auto simp: run_due_schedules_def Let_def res_bind_Inr)
  ultimately show "keeps db db'" using keeps_run_schedules assms(2) by blast
qed

lemma expire_attempts_filter:
  "filter (\<lambda>a. at_scan_job_id a = i) (expire_attempts i now as) =
     update_where active_attempt (\<lambda>a. a\<lparr>at_status := ''expired'', at_finished_at := Some now\<rparr>)
       (filter (\<lambda>a. at_scan_job_id a = i) as)"
  by (induction as) (auto simp: expire_attempts_def active_attempt_def)

lemma keeps_expire:
  assumes "j \<in> set (jobs db)" and "sj_status j \<in> set ACTIVE_JOB"
  shows "keeps db ((put_job (expired_job now j) db)\<lparr>attempts := expire_attempts (sj_id j) now (attempts db)\<rparr>)"
    (is "keeps db ?db")
  unfolding keeps_def
proof
  assume inv: "server_inv db"
  have table: "table_ok (jobs db)" and att: "attempts_ok db" using inv by (simp_all add: server_inv_def)
  have evolves: "job_evolves j (expired_job now j)"
    using expire.path [OF assms(2)] expire.signed by (simp add: job_evolves_def)
  note job = put_job_evolves [OF table assms(1) evolves]
  have ids: "map at_id (attempts ?db) = map at_id (attempts db)"
    "map at_scan_job_id (attempts ?db) = map at_scan_job_id (attempts db)"
    by (simp_all add: expire_attempts_def update_where_def)
  let ?f = "\<lambda>a. a\<lparr>at_status := ''expired'', at_finished_at := Some now\<rparr>"
  have mine: "atts (sj_id j) ?db = update_where active_attempt ?f (atts (sj_id j) db)"
    by (simp add: atts_def expire_attempts_filter)
  have other: "atts i ?db = atts i db" if "i \<noteq> sj_id j" for i
    using that unfolding atts_def expire_attempts_def
    by (simp, subst filter_update_where) (auto intro: update_where_none)
  have "attempts_ok ?db"
  proof (rule attempts_one_job [OF att assms(1) evolves])
    show "jobs ?db = update_where (\<lambda>x. sj_id x = sj_id j) (\<lambda>_. expired_job now j) (jobs db)"
      using job(3) by simp
    show "distinct (map at_id (attempts ?db))" using att ids by (simp add: attempts_ok_def)
    show "\<forall>a \<in> set (attempts ?db). at_scan_job_id a \<in> sj_id ` set (jobs db)"
    proof -
      have "at_scan_job_id ` set (attempts ?db) = at_scan_job_id ` set (attempts db)"
        using ids(2) by (metis list.set_map)
      then have "\<forall>i \<in> at_scan_job_id ` set (attempts ?db). i \<in> sj_id ` set (jobs db)"
        using att by (auto simp: attempts_ok_def)
      then show ?thesis by blast
    qed
    show "atts_ok (sj_probe_id j) (sj_status (expired_job now j)) (atts (sj_id j) ?db)"
      using att assms(1) unfolding mine
      by (simp add: attempts_ok_def expired_job_def split: prod.split) (blast intro: atts_expire)
  qed (use other in simp)
  moreover have "links_ok ?db"
    using links_mono [of db ?db] inv job(4) by (simp add: server_inv_def put_job_def)
  moreover have "schedules_ok ?db" using inv by (simp add: server_inv_def schedules_ok_def put_job_def)
  ultimately show "server_inv ?db \<and> jobs_evolve (jobs db) (jobs ?db)"
    using job(1,2) by (simp add: server_inv_def)
qed

lemma keeps_reap_job:
  assumes "reap_job env cfg now j db = Inr db'" and "j \<in> set (jobs db)" and "sj_status j \<in> set ACTIVE_JOB"
  shows "keeps db db'"
proof -
  let ?db1 = "(put_job (expired_job now j) db)\<lparr>attempts := expire_attempts (sj_id j) now (attempts db)\<rparr>"
  obtain db2 where db2: "on_scan_job_terminal env cfg (jobs db) (expired_job now j) JobStatus.EXPIRED ?db1 = Inr db2"
    and rest: "db' = db2 \<or> complete_session_for_job (je_now env) (expired_job now j) JobStatus.EXPIRED None now db2 = Inr db'"
    using assms(1) by (auto simp: reap_job_def Let_def res_bind_Inr split: if_split_asm)
  have "keeps ?db1 db2" by (rule keeps_terminal [OF db2]) simp
  moreover have "keeps db2 db'" using rest keeps_complete by auto
  ultimately show ?thesis using keeps_expire [OF assms(2,3)] keeps_trans by blast
qed

lemma keeps_reap_jobs:
  assumes "reap_jobs env cfg now due db = Inr db'" and "\<forall>j \<in> set due. j \<in> set (jobs db) \<and> sj_status j \<in> set ACTIVE_JOB"
    and "distinct (map sj_id due)"
  shows "keeps db db'"
  using assms
proof (induction env cfg now due db arbitrary: db' rule: reap_jobs.induct)
  case (2 env cfg now j rest db)
  obtain db1 where db1: "reap_job env cfg now j db = Inr db1" "reap_jobs env cfg now rest db1 = Inr db'"
    using 2(2) by (auto simp: res_bind_Inr)
  have first: "keeps db db1" using keeps_reap_job [OF db1(1)] 2(3) by simp
  show ?case
  proof (rule keepsI)
    assume inv: "server_inv db"
    then have "runs_ok db" "sessions_ok db" "distinct (map sj_id (jobs db))"
      by (simp_all add: server_inv_def links_ok_def table_ok_def)
    then have "reaped_to now [j] db db1"
      using reap_job_effect [of db j env cfg now] db1(1) 2(3) by auto
    then have "\<forall>x \<in> set rest. x \<in> set (jobs db1)"
      using 2(3,4) by (auto simp: reaped_to_def update_where_def image_iff intro!: bexI)
    then have "keeps db1 db'" using 2(1) [OF db1(2)] 2(3,4) by simp
    with first show "keeps db db'" by (rule keeps_trans)
  qed
qed simp

lemma keeps_reap:
  assumes "reap_stale_jobs env cfg org sites now db = Inr (db', n)"
  shows "keeps db db'"
proof (rule keepsI)
  let ?due = "filter (reapable cfg org sites now) (jobs db)"
  assume "server_inv db"
  then have "distinct (map sj_id ?due)" by (simp add: server_inv_def table_ok_def distinct_map_filter)
  moreover have "reap_jobs env cfg now ?due db = Inr db'"
    using assms by (auto simp: reap_stale_jobs_def Let_def res_bind_Inr)
  ultimately show "keeps db db'" by (intro keeps_reap_jobs) (auto simp: reapable_def)
qed

subsection \<open>The Scout protocol\<close>

lemma foldl_max_ge:
  fixes f :: "'a :: linorder"
  shows "f \<le> foldl max f fs" and "y \<in> set fs \<Longrightarrow> y \<le> foldl max f fs"
proof -
  show ge: "f \<le> foldl max f fs" for f
    by (induction fs arbitrary: f) (simp, metis foldl_Cons max.bounded_iff)
  show "y \<in> set fs \<Longrightarrow> y \<le> foldl max f fs"
  proof (induction fs arbitrary: f)
    case (Cons g gs)
    have "max f g \<le> foldl max (max f g) gs"
      by (induction gs arbitrary: f g) (simp, metis foldl_Cons max.bounded_iff)
    then show ?case using Cons by auto
  qed simp
qed

lemma foldl_max_mem:
  fixes f :: "'a :: linorder"
  shows "foldl max f fs \<in> set (f # fs)"
  by (induction fs arbitrary: f) (auto simp: max_def)

lemma latest_fence_None: "latest_fence i db = None \<longleftrightarrow> atts i db = []"
  by (simp add: latest_fence_def atts_def split: list.split) (metis list.map_disc_iff neq_Nil_conv)

lemma latest_fence_Some:
  assumes "latest_fence i db = Some f"
  shows "\<exists>a \<in> set (atts i db). at_fencing_token a = f" and "a \<in> set (atts i db) \<Longrightarrow> at_fencing_token a \<le> f"
proof -
  obtain g hs where gs: "map at_fencing_token (atts i db) = g # hs" and f: "f = foldl max g hs"
    using assms by (auto simp: latest_fence_def atts_def split: list.split_asm)
  have set: "set (g # hs) = at_fencing_token ` set (atts i db)" by (metis gs list.set_map)
  show "\<exists>a \<in> set (atts i db). at_fencing_token a = f"
    using foldl_max_mem [of g hs] unfolding f set by auto
  have "\<forall>y \<in> set (g # hs). y \<le> f" by (auto simp: f intro: foldl_max_ge)
  then show "a \<in> set (atts i db) \<Longrightarrow> at_fencing_token a \<le> f" unfolding set by blast
qed

lemma job_of_mem: "job_of i db = Some j \<Longrightarrow> j \<in> set (jobs db) \<and> sj_id j = i"
  by (auto simp: job_of_def dest: find_SomeD)

lemma job_of_unique:
  assumes "distinct (map sj_id (jobs db))" and "j \<in> set (jobs db)"
  shows "job_of (sj_id j) db = Some j"
proof (cases "job_of (sj_id j) db")
  case None
  then show ?thesis using assms(2) find_NoneD [of _ "jobs db" j] by (auto simp: job_of_def)
next
  case (Some x)
  then show ?thesis using job_of_mem [OF Some] assms by (auto simp: distinct_map dest: inj_onD)
qed

text \<open>An active attempt belongs to a job that was handed out, in its status.\<close>

lemma active_attempt_job:
  assumes "server_inv db" and "a \<in> set (attempts db)" and "active_attempt a"
  obtains j where "j \<in> set (jobs db)" and "at_scan_job_id a = sj_id j" and "sj_status j \<in> set OFFERED_JOB"
    and "at_status a = job_status_value (sj_status j)" and "at_probe_id a = sj_probe_id j"
proof -
  have att: "attempts_ok db" using assms(1) by (simp add: server_inv_def)
  then obtain j where j: "j \<in> set (jobs db)" "at_scan_job_id a = sj_id j"
    using assms(2) by (auto simp: attempts_ok_def)
  then have "atts_ok (sj_probe_id j) (sj_status j) (atts (sj_id j) db)" "a \<in> set (atts (sj_id j) db)"
    using att assms(2) by (auto simp: attempts_ok_def atts_def)
  then show ?thesis using assms(3) that [OF j] by (auto simp: atts_ok_def)
qed

lemma keeps_reclaim_attempt:
  assumes "a \<in> set (attempts db)" and "active_attempt a"
  shows "keeps db (reclaim_attempt now a db)"
proof (rule keepsI)
  assume inv: "server_inv db"
  obtain j where j: "j \<in> set (jobs db)" "at_scan_job_id a = sj_id j" "sj_status j \<in> set OFFERED_JOB"
    using active_attempt_job [OF inv assms] by blast
  have "distinct (map sj_id (jobs db))" using inv by (simp add: server_inv_def table_ok_def)
  then have row: "job_of (at_scan_job_id a) db = Some j" using job_of_unique [OF _ j(1)] j(2) by simp
  have evolves: "job_evolves j (reclaimed_job now j)"
    using reclaim.path [OF j(3)] reclaim.signed by (simp add: job_evolves_def)
  have "sj_status (reclaimed_job now j) \<notin> set OFFERED_JOB"
    by (simp add: reclaimed_job_def OFFERED_JOB_def)
  then have "keeps db (put_attempt (a\<lparr>at_status := ''expired'', at_finished_at := Some now\<rparr>)
      (put_job (reclaimed_job now j) db))"
    by (intro keeps_move [OF j(1) assms(1) j(2) assms(2) evolves]) (simp_all add: active_attempt_def ACTIVE_ATTEMPT_def)
  then show "keeps db (reclaim_attempt now a db)" by (simp add: reclaim_attempt_def row)
qed

lemma reclaim_others:
  assumes "b \<in> set (attempts db)" and "at_id b \<noteq> at_id a"
  shows "b \<in> set (attempts (reclaim_attempt now a db))"
  using assms
  by (auto simp: reclaim_attempt_def put_attempt_def put_job_def update_where_def image_iff intro!: bexI [of _ b] split: option.split)

lemma keeps_reclaim_all:
  assumes "\<forall>a \<in> set as. a \<in> set (attempts db) \<and> active_attempt a" and "distinct (map at_id as)"
  shows "keeps db (fold (reclaim_attempt now) as db)"
  using assms
proof (induction as arbitrary: db)
  case (Cons a as)
  have "at_id b \<noteq> at_id a" if "b \<in> set as" for b using Cons.prems(2) that by (auto simp: image_iff)
  then have "\<forall>b \<in> set as. b \<in> set (attempts (reclaim_attempt now a db)) \<and> active_attempt b"
    using Cons.prems(1) by (auto intro: reclaim_others)
  then have "keeps (reclaim_attempt now a db) (fold (reclaim_attempt now) as (reclaim_attempt now a db))"
    using Cons by simp
  moreover have "keeps db (reclaim_attempt now a db)" using Cons.prems(1) by (intro keeps_reclaim_attempt) simp_all
  ultimately show ?case using keeps_trans by simp
qed simp

lemma keeps_reclaim: "keeps db (reclaim_expired_attempts p now db)"
proof (rule keepsI)
  assume "server_inv db"
  then have "distinct (map at_id (filter (lease_expired p now db) (attempts db)))"
    by (simp add: server_inv_def attempts_ok_def distinct_map_filter)
  then show "keeps db (reclaim_expired_attempts p now db)"
    unfolding reclaim_expired_attempts_def
    by (intro keeps_reclaim_all) (auto simp: lease_expired_def active_attempt_def)
qed

lemma keeps_offer:
  assumes "offer_job i lease p j now db = (db', a)" and "j \<in> set (jobs db)" and "sj_status j = JobStatus.QUEUED"
    and "sj_probe_id j = pb_id p" and "i \<notin> at_id ` set (attempts db)"
  shows "keeps db db'"
proof -
  let ?a = "new_attempt i lease p j (or_else (latest_fence (sj_id j) db) 0 + 1) now"
  let ?db1 = "put_job (offered_row now j) db"
  let ?db2 = "?db1\<lparr>attempts := attempts ?db1 @ [?a]\<rparr>"
  have new: "at_scan_job_id ?a = sj_id j" "at_id ?a = i" "at_probe_id ?a = pb_id p"
    "at_fencing_token ?a = or_else (latest_fence (sj_id j) db) 0 + 1"
    "at_attempt_number ?a = or_else (latest_fence (sj_id j) db) 0 + 1" "at_status ?a = ''offered''"
    by (simp_all add: new_attempt_def)
  have same: "attempts ?db1 = attempts db" "runs ?db1 = runs db" "sessions ?db1 = sessions db" "schedules ?db1 = schedules db"
    by (simp_all add: put_job_def)
  have "keeps db ?db2"
    unfolding keeps_def
  proof
    assume inv: "server_inv db"
    have table: "table_ok (jobs db)" and att: "attempts_ok db" using inv by (simp_all add: server_inv_def)
    have evolves: "job_evolves j (offered_row now j)"
      using offer.path [OF assms(3)] offer.signed by (simp add: job_evolves_def)
    note job = put_job_evolves [OF table assms(2) evolves]
    have mine: "atts_ok (sj_probe_id j) (sj_status j) (atts (sj_id j) db)" using att assms(2) by (simp add: attempts_ok_def)
    have top: "\<forall>b \<in> set (atts (sj_id j) db). at_fencing_token b < or_else (latest_fence (sj_id j) db) 0 + 1"
    proof (cases "latest_fence (sj_id j) db")
      case None
      then show ?thesis by (simp add: latest_fence_None)
    next
      case (Some f)
      then show ?thesis using latest_fence_Some(2) [OF Some] by (simp add: zle_add1_eq_le)
    qed
    have pos: "1 \<le> or_else (latest_fence (sj_id j) db) 0 + 1"
    proof (cases "latest_fence (sj_id j) db")
      case (Some f)
      then have "0 \<le> f" using latest_fence_Some(1) [OF Some] mine by (auto simp: atts_ok_def)
      then show ?thesis by (simp add: Some)
    qed simp
    have "attempts_ok ?db2"
    proof (rule attempts_one_job [OF att assms(2) evolves])
      show "jobs ?db2 = update_where (\<lambda>x. sj_id x = sj_id j) (\<lambda>_. offered_row now j) (jobs db)" using job(3) by simp
      show "atts k ?db2 = atts k db" if "k \<noteq> sj_id j" for k using that new(1) same(1) by (simp add: atts_def)
      show "distinct (map at_id (attempts ?db2))" using att assms(5) new(2) same(1) by (simp add: attempts_ok_def)
      show "\<forall>a \<in> set (attempts ?db2). at_scan_job_id a \<in> sj_id ` set (jobs db)"
        using att assms(2) new(1) same(1) by (auto simp: attempts_ok_def)
      have "atts (sj_id j) ?db2 = atts (sj_id j) db @ [?a]" using new(1) same(1) by (simp add: atts_def)
      then show "atts_ok (sj_probe_id j) (sj_status (offered_row now j)) (atts (sj_id j) ?db2)"
        using atts_offer [OF mine _ top pos new(4,5) _ new(6)] assms(3,4) new(3)
        by (simp add: offered_row_def OFFERED_JOB_def)
    qed
    moreover have "links_ok ?db2" using links_mono [of db ?db2] inv job(4) same by (simp add: server_inv_def)
    moreover have "schedules_ok ?db2" using inv same by (simp add: server_inv_def schedules_ok_def)
    ultimately show "server_inv ?db2 \<and> jobs_evolve (jobs db) (jobs ?db2)" using job(1,2) by (simp add: server_inv_def)
  qed
  moreover have "keeps ?db2 db'"
  proof (cases "find (\<lambda>s. ps_scan_job_id s = Some (sj_id j)) (sessions ?db2)")
    case None
    then have "db' = ?db2" using assms(1) by (auto simp: offer_job_def Let_def offered_row_def)
    then show ?thesis by simp
  next
    case (Some ps)
    then have "ps \<in> set (sessions ?db2)" by (auto dest: find_SomeD)
    then have "keeps ?db2 (put_session (link_attempt ?a ps) ?db2)"
      by (rule keeps_put_session) (simp_all add: link_attempt_def)
    moreover have "db' = put_session (link_attempt ?a ps) ?db2"
      using assms(1) Some by (auto simp: offer_job_def Let_def offered_row_def)
    ultimately show ?thesis by simp
  qed
  ultimately show ?thesis by (rule keeps_trans)
qed

lemma keeps_lapse:
  assumes "j \<in> set (jobs db)" and "sj_status j = JobStatus.QUEUED"
  shows "keeps db (put_job (lapsed_row now j) db)"
proof (rule keeps_row [OF assms(1)])
  show "job_evolves j (lapsed_row now j)"
    using lapse.path [OF assms(2)] lapse.signed by (simp add: job_evolves_def)
qed (simp add: assms(2) lapsed_row_def OFFERED_JOB_def)

lemma keeps_offer_first:
  assumes "offer_first i lease p now js db = (db', r)" and "i \<notin> at_id ` set (attempts db)"
    and "\<forall>j \<in> set js. j \<in> set (jobs db) \<and> sj_status j = JobStatus.QUEUED \<and> sj_probe_id j = pb_id p"
    and "distinct (map sj_id js)"
  shows "keeps db db'"
  using assms
proof (induction i lease p now js db rule: offer_first.induct)
  case (2 i lease p now j rest db)
  consider "sj_expires_at j \<le> now" | "now < sj_expires_at j" "now < sj_not_before j"
    | "now < sj_expires_at j" "sj_not_before j \<le> now" by linarith
  then show ?case
  proof cases
    case 1
    let ?db1 = "put_job (lapsed_row now j) db"
    have "sj_id x \<noteq> sj_id j" if "x \<in> set rest" for x using 2(6) that by (auto simp: image_iff)
    then have "\<forall>x \<in> set rest. x \<in> set (jobs ?db1)"
      using 2(5) by (auto simp: put_job_def update_where_def lapsed_row_def image_iff intro!: bexI)
    then have "keeps ?db1 db'"
      using 2(1) [OF 1] 2(3-6) 1 by (simp add: lapsed_row_def) (simp add: put_job_def)
    moreover have "keeps db ?db1" using 2(5) by (intro keeps_lapse) simp_all
    ultimately show ?thesis using keeps_trans by blast
  next
    case 2
    then show ?thesis using "2.IH"(2) "2.prems" by simp
  next
    case 3
    then obtain a where "offer_job i lease p j now db = (db', a)"
      using 2(3) by (auto split: prod.split_asm)
    then show ?thesis using 2(4,5) by (intro keeps_offer) auto
  qed
qed simp

lemma reclaim_ids: "at_id ` set (attempts (reclaim_attempt now a db)) = at_id ` set (attempts db)"
  by (simp add: reclaim_attempt_def put_attempt_def put_job_def image_update_one split: option.split)

lemma reclaim_all_ids: "at_id ` set (attempts (fold (reclaim_attempt now) as db)) = at_id ` set (attempts db)"
  by (induction as arbitrary: db) (simp_all add: reclaim_ids)

lemma keeps_poll:
  assumes "poll_next_job fresh lease i p now db = Inr (db', r)" and "fresh \<notin> at_id ` set (attempts db)"
  shows "keeps db db'"
proof (rule keepsI)
  assume inv: "server_inv db"
  let ?db1 = "reclaim_expired_attempts p now db"
  have first: "keeps db ?db1" by (rule keeps_reclaim)
  then have "distinct (map sj_id (jobs ?db1))" using inv by (simp add: keeps_def server_inv_def table_ok_def)
  then have queue: "distinct (map sj_id (queued_for p ?db1))"
    unfolding queued_for_def take_map [symmetric]
    by (intro distinct_take) (simp add: distinct_map inj_on_def)
  have "fresh \<notin> at_id ` set (attempts ?db1)"
    using assms(2) by (simp add: reclaim_expired_attempts_def reclaim_all_ids)
  moreover have "offer_first fresh lease p now (queued_for p ?db1) ?db1 = (db', r)"
    using assms(1) by (simp add: poll_next_job_def Let_def split: if_split_asm)
  moreover have "\<forall>j \<in> set (queued_for p ?db1). j \<in> set (jobs ?db1) \<and> sj_status j = JobStatus.QUEUED \<and>
      sj_probe_id j = pb_id p"
    by (auto simp: queued_for_def dest!: in_set_takeD)
  ultimately have "keeps ?db1 db'" using queue by (intro keeps_offer_first)
  with first show "keeps db db'" by (rule keeps_trans)
qed

text \<open>A renewal touches no column that the invariant speaks of.\<close>

definition attempt_view :: "scan_attempt \<Rightarrow> int \<times> int \<times> string \<times> uuid" where
  "attempt_view a = (at_fencing_token a, at_attempt_number a, at_status a, at_probe_id a)"

definition viewed_ok :: "uuid \<Rightarrow> JobStatus \<Rightarrow> (int \<times> int \<times> string \<times> uuid) list \<Rightarrow> bool" where
  "viewed_ok p s vs \<longleftrightarrow> distinct (map fst vs) \<and> (\<forall>(f, n, _, _) \<in> set vs. 1 \<le> f \<and> n = f) \<and>
     (\<forall>(f, _, t, q) \<in> set vs. t \<in> set ACTIVE_ATTEMPT \<longrightarrow> s \<in> set OFFERED_JOB \<and>
        t = job_status_value s \<and> q = p \<and> (\<forall>v \<in> set vs. fst v \<le> f)) \<and>
     (s \<in> set OFFERED_JOB \<longrightarrow> (\<exists>(_, _, t, _) \<in> set vs. t \<in> set ACTIVE_ATTEMPT))"

lemma atts_ok_view: "atts_ok p s as = viewed_ok p s (map attempt_view as)"
proof -
  have "fst \<circ> attempt_view = at_fencing_token" by (simp add: attempt_view_def fun_eq_iff)
  then show ?thesis
    unfolding atts_ok_def viewed_ok_def active_attempt_def by (simp add: attempt_view_def)
qed

lemma keeps_touch:
  assumes "a \<in> set (attempts db)" and "at_id a' = at_id a" and "at_scan_job_id a' = at_scan_job_id a"
    and "attempt_view a' = attempt_view a"
  shows "keeps db (put_attempt a' db)"
proof (rule keepsI)
  assume inv: "server_inv db"
  then have att: "attempts_ok db" and ids: "distinct (map at_id (attempts db))"
    by (simp_all add: server_inv_def attempts_ok_def)
  note at = put_attempt_atts [OF assms(1) ids assms(2,3)]
  have only: "x = a" if "x \<in> set (attempts db)" "at_id x = at_id a" for x
    using that ids assms(1) by (auto simp: distinct_map dest: inj_onD)
  have views: "map attempt_view (atts i (put_attempt a' db)) = map attempt_view (atts i db)" for i
  proof (cases "i = at_scan_job_id a")
    case True
    have "map attempt_view (update_where (\<lambda>x. at_id x = at_id a) (\<lambda>_. a') (atts i db)) = map attempt_view (atts i db)"
      using only assms(4) by (auto simp: update_where_def atts_def)
    then show ?thesis using True at(1) by simp
  qed (simp add: at(2))
  have "\<forall>i \<in> at_scan_job_id ` set (attempts (put_attempt a' db)). i \<in> sj_id ` set (jobs db)"
    unfolding at(4) using att by (auto simp: attempts_ok_def)
  then have "attempts_ok (put_attempt a' db)"
    using att at(3) ids views by (simp add: attempts_ok_def atts_ok_view) (simp add: put_attempt_def)
  then show "keeps db (put_attempt a' db)"
    using inv by (simp add: keeps_def server_inv_def put_attempt_def links_ok_def runs_ok_def sessions_ok_def schedules_ok_def)
qed

lemma require_current_attempt_Inr:
  assumes "require_current_attempt j p h now allow_terminal db = Inr a"
  shows "a \<in> set (attempts db)" and "at_scan_job_id a = sj_id j" and "at_probe_id a = pb_id p"
    and "latest_fence (sj_id j) db = Some (at_fencing_token a)"
    and "parse_attempt_headers h = Inr (at_id a, at_lease_id a, at_fencing_token a)"
    and "active_attempt a \<Longrightarrow> now < at_lease_expires_at a"
    and "at_status a \<in> set TERMINAL_ATTEMPT \<Longrightarrow> allow_terminal"
proof -
  obtain i lease fence where h: "parse_attempt_headers h = Inr (i, lease, fence)"
    and found: "find (attempt_matches j p i lease fence) (attempts db) = Some a"
    and latest: "latest_fence (sj_id j) db = Some fence"
    and live: "\<not> (at_status a \<in> set ACTIVE_ATTEMPT \<and> at_lease_expires_at a \<le> now)"
      "\<not> (at_status a \<in> set TERMINAL_ATTEMPT \<and> \<not> allow_terminal)"
    using assms
    by (auto simp: require_current_attempt_def res_bind_Inr split: option.split_asm if_split_asm)
  from found have "a \<in> set (attempts db)" "attempt_matches j p i lease fence a" by (auto dest: find_SomeD)
  then show "a \<in> set (attempts db)" "at_scan_job_id a = sj_id j" "at_probe_id a = pb_id p"
    "latest_fence (sj_id j) db = Some (at_fencing_token a)"
    "parse_attempt_headers h = Inr (at_id a, at_lease_id a, at_fencing_token a)"
    "active_attempt a \<Longrightarrow> now < at_lease_expires_at a" "at_status a \<in> set TERMINAL_ATTEMPT \<Longrightarrow> allow_terminal"
    using h latest live by (auto simp: attempt_matches_def active_attempt_def)
qed

lemma keeps_renew:
  assumes "renew_job_lease i j p h now db = Inr db'"
  shows "keeps db db'"
proof -
  obtain job a where a: "require_current_attempt job p h now False db = Inr a"
    and db': "db' = put_attempt (a\<lparr>at_last_renewed_at := Some now, at_lease_expires_at := now + JOB_LEASE_DURATION\<rparr>) db"
    using assms by (auto simp: renew_job_lease_def res_bind_Inr split: if_split_asm)
  show ?thesis unfolding db'
    by (rule keeps_touch [OF require_current_attempt_Inr(1) [OF a]]) (simp_all add: attempt_view_def)
qed

text \<open>A report moves the job along the state machine, with the attempt that sends it.\<close>

lemma transition_edge:
  assumes "job_status_value t \<in> set (attempt_transitions (job_status_value s))"
  shows "t = s \<or> t \<in> set (job_edges s)" and "s \<in> set OFFERED_JOB"
  using assms by (cases s; cases t; simp add: attempt_transitions_def OFFERED_JOB_def)+

lemma transition_active: "x \<in> set (attempt_transitions s) \<Longrightarrow> s \<in> set ACTIVE_ATTEMPT"
  by (auto simp: attempt_transitions_def ACTIVE_ATTEMPT_def split: if_split_asm)

lemma active_value: "job_status_value s \<in> set ACTIVE_ATTEMPT \<longleftrightarrow> s \<in> set OFFERED_JOB"
  by (cases s) (simp_all add: ACTIVE_ATTEMPT_def OFFERED_JOB_def)

lemma reported_attempt_parts:
  "at_id (reported_attempt s now a) = at_id a" "at_fencing_token (reported_attempt s now a) = at_fencing_token a"
  "at_attempt_number (reported_attempt s now a) = at_attempt_number a"
  "at_probe_id (reported_attempt s now a) = at_probe_id a"
  "at_scan_job_id (reported_attempt s now a) = at_scan_job_id a"
  "at_status (reported_attempt s now a) = job_status_value s"
  by (simp_all add: reported_attempt_def Let_def)

lemma progressed_parts:
  assumes "apply_progress j p now = Inr j'"
  shows "signed_part j' = signed_part j" and "sj_status j' = sj_status j"
  using assms by (auto simp: apply_progress_def split: if_split_asm)

text \<open>Everything a report that goes through has passed.\<close>

lemma report_accepted:
  assumes "report_job_status env cfg flushed i k p h u db = Inr db'" and "db' \<noteq> db" and "server_inv db"
  obtains j j1 a where "j \<in> set (jobs db)" and "sj_id j = k" and "sj_probe_id j = pb_id p" and "pb_id p = i"
    and "require_current_attempt j p h (je_now env) True db = Inr a" and "active_attempt a"
    and "at_status a = job_status_value (sj_status j)"
    and "job_status_value (rp_status u) \<in> set (attempt_transitions (at_status a))"
    and "job_evolves j (reported_job u (je_now env) j1)"
    and "db' = put_attempt (reported_attempt (rp_status u) (je_now env) a)
           (put_job (reported_job u (je_now env) j1) db) \<or>
         job_finished env cfg flushed u (jobs db) (reported_job u (je_now env) j1)
           (put_attempt (reported_attempt (rp_status u) (je_now env) a)
             (put_job (reported_job u (je_now env) j1) db)) = Inr db'"
proof -
  let ?now = "je_now env"
  obtain j a where j: "probe_job i k p db = Inr j" and a: "require_current_attempt j p h ?now True db = Inr a"
    and rest: "(if sj_status j \<in> set TERMINAL_JOB
      then if rp_status u = sj_status j \<or> (sj_status j = JobStatus.EXPIRED \<and> rp_status u \<in> set TERMINAL_JOB)
           then Inr db else Inl JobTerminal
      else if job_status_value (rp_status u) \<notin> set (attempt_transitions (at_status a))
      then Inl (InvalidTransition (at_status a) (job_status_value (rp_status u)))
      else
      res_bind (case rp_progress u of
          None \<Rightarrow> Inr j
        | Some pg \<Rightarrow> lift_error ProgressRefused (apply_progress j pg ?now)) (\<lambda>job1.
      let job2 = reported_job u ?now job1;
          db1 = put_attempt (reported_attempt (rp_status u) ?now a) (put_job job2 db)
      in if rp_status u \<in> set [JobStatus.COMPLETED, JobStatus.FAILED, JobStatus.CANCELLED,
                          JobStatus.REJECTED_BY_PROBE]
         then job_finished env cfg flushed u (jobs db) job2 db1
         else Inr db1)) = Inr db'"
    using assms(1) unfolding report_job_status_def Let_def
    by (auto simp: res_bind_Inr split: if_split_asm)
  have unfinished: "sj_status j \<notin> set TERMINAL_JOB" and move: "job_status_value (rp_status u) \<in> set (attempt_transitions (at_status a))"
    using rest assms(2) by (auto split: if_split_asm)
  then obtain j1 where j1: "(case rp_progress u of None \<Rightarrow> Inr j
        | Some pg \<Rightarrow> lift_error ProgressRefused (apply_progress j pg ?now)) = Inr j1"
    and out: "(let job2 = reported_job u ?now j1;
          db1 = put_attempt (reported_attempt (rp_status u) ?now a) (put_job job2 db)
      in if rp_status u \<in> set [JobStatus.COMPLETED, JobStatus.FAILED, JobStatus.CANCELLED,
                          JobStatus.REJECTED_BY_PROBE]
         then job_finished env cfg flushed u (jobs db) job2 db1
         else Inr db1) = Inr db'"
    using rest by (auto simp: res_bind_Inr)
  have mem: "j \<in> set (jobs db)" "sj_id j = k" "sj_probe_id j = pb_id p" "pb_id p = i"
    using j job_of_mem [of k db j] by (auto simp: probe_job_def split: if_split_asm option.split_asm)
  note current = require_current_attempt_Inr [OF a]
  have active: "active_attempt a" using transition_active [OF move] by (simp add: active_attempt_def)
  obtain j0 where "j0 \<in> set (jobs db)" "at_scan_job_id a = sj_id j0" and status: "at_status a = job_status_value (sj_status j0)"
    using active_attempt_job [OF assms(3) current(1) active] by blast
  moreover have "distinct (map sj_id (jobs db))" using assms(3) by (simp add: server_inv_def table_ok_def)
  ultimately have "j0 = j" using mem(1) current(2) by (auto simp: distinct_map dest: inj_onD)
  with status have status: "at_status a = job_status_value (sj_status j)" by simp
  have "signed_part j1 = signed_part j"
    using j1 progressed_parts by (auto split: option.split_asm)
  moreover have "job_path (sj_status j) (rp_status u)"
    using transition_edge(1) [OF move [unfolded status]] path_edge by auto
  ultimately have "job_evolves j (reported_job u ?now j1)" by (simp add: job_evolves_def)
  then show ?thesis using that [OF mem a active status move] out by (simp add: Let_def split: if_split_asm)
qed

lemma put_attempt_tables [simp]:
  "jobs (put_attempt a db) = jobs db" "runs (put_attempt a db) = runs db"
  "sessions (put_attempt a db) = sessions db" "schedules (put_attempt a db) = schedules db"
  by (simp_all add: put_attempt_def)

lemma put_job_ids [simp]: "sj_id ` set (jobs (put_job j db)) = sj_id ` set (jobs db)"
  by (simp add: put_job_def image_update_one)

lemma keeps_job_finished:
  assumes "job_finished env cfg flushed u before j db = Inr db'" and "je_fresh env \<notin> sj_id ` set (jobs db)"
  shows "keeps db db'"
proof -
  let ?db1 = "db\<lparr>audits := update_where (\<lambda>a. ua_scan_job_id a = sj_id j) (usage_outcome u) (audits db)\<rparr>"
  obtain db2 where db2: "on_scan_job_terminal env cfg (if flushed then jobs ?db1 else before) j (rp_status u) ?db1 = Inr db2"
    and rest: "db' = db2 \<or> complete_session_for_job (je_now env) j (rp_status u) (rp_summary u) (je_now env) db2 = Inr db'"
    using assms(1) unfolding job_finished_def Let_def by (auto simp: res_bind_Inr split: if_split_asm)
  have "keeps ?db1 db2" using assms(2) by (intro keeps_terminal [OF db2]) simp
  moreover have "keeps db2 db'" using rest keeps_complete by auto
  moreover have "keeps db ?db1" by (rule keeps_others) simp_all
  ultimately show ?thesis using keeps_trans by blast
qed

lemma keeps_report:
  assumes "report_job_status env cfg flushed i k p h u db = Inr db'" and "je_fresh env \<notin> sj_id ` set (jobs db)"
  shows "keeps db db'"
proof (cases "db' = db")
  case False
  show ?thesis
  proof (rule keepsI)
    assume inv: "server_inv db"
    obtain j j1 a where j: "j \<in> set (jobs db)" and a: "require_current_attempt j p h (je_now env) True db = Inr a"
      and active: "active_attempt a" and move: "job_evolves j (reported_job u (je_now env) j1)"
      and "db' = put_attempt (reported_attempt (rp_status u) (je_now env) a)
           (put_job (reported_job u (je_now env) j1) db) \<or>
         job_finished env cfg flushed u (jobs db) (reported_job u (je_now env) j1)
           (put_attempt (reported_attempt (rp_status u) (je_now env) a)
             (put_job (reported_job u (je_now env) j1) db)) = Inr db'" (is "db' = ?db1 \<or> ?fin = Inr db'")
      using report_accepted [OF assms(1) False inv] by metis
    then have rest: "keeps ?db1 db'"
      using keeps_job_finished [of env cfg flushed u "jobs db" _ ?db1 db'] assms(2) by auto
    note current = require_current_attempt_Inr [OF a]
    have "keeps db ?db1"
      by (rule keeps_move [OF j current(1,2) active move])
        (simp_all add: reported_attempt_parts active_attempt_def active_value)
    then show "keeps db db'" using rest by (rule keeps_trans)
  qed
qed simp

lemma keeps_cancel:
  assumes "cancel_job i allowed now db = Inr db'"
  shows "keeps db db'"
proof -
  obtain j where "find (\<lambda>j. sj_id j = i \<and> allowed j) (jobs db) = Some j" and db': "db' = put_job (cancelled_row now j) db"
    using assms by (auto simp: cancel_job_def cancelled_row_def Let_def split: option.split_asm if_split_asm)
  then have "j \<in> set (jobs db)" by (auto dest: find_SomeD)
  moreover have "job_evolves j (cancelled_row now j)" using cancel.path cancel.signed by (simp add: job_evolves_def)
  ultimately show ?thesis unfolding db'
    by (rule keeps_row) (simp add: cancelled_row_def OFFERED_JOB_def Let_def)
qed

end
