(* ===== verification/Server.thy ===== *)
theory Server
  imports Transactions
begin

text \<open>
  The server as one transition system.  Each rule of \<open>server_step\<close> is a transaction of the program: a
  request handler or a background sweep; new identifiers are fresh.  The last rule stands for every
  transaction that leaves jobs, attempts, runs, sessions and schedules alone (networks, Scouts, scopes,
  findings, evidence, audit records).
\<close>

inductive server_step :: "app_settings \<Rightarrow> dispatch_db \<Rightarrow> dispatch_db \<Rightarrow> bool" for cfg where
  job_created: "create_scan_job env cfg p rq db = Inr (db', j) \<Longrightarrow>
    je_fresh env \<notin> sj_id ` set (jobs db) \<Longrightarrow> server_step cfg db db'"
| job_polled: "poll_next_job fresh lease i p now db = Inr (db', r) \<Longrightarrow>
    fresh \<notin> at_id ` set (attempts db) \<Longrightarrow> server_step cfg db db'"
| lease_renewed: "renew_job_lease i k p h now db = Inr db' \<Longrightarrow> server_step cfg db db'"
| status_reported: "report_job_status env cfg flushed i k p h u db = Inr db' \<Longrightarrow>
    je_fresh env \<notin> sj_id ` set (jobs db) \<Longrightarrow> server_step cfg db db'"
| job_cancelled: "cancel_job i allowed now db = Inr db' \<Longrightarrow> server_step cfg db db'"
| jobs_reaped: "reap_stale_jobs env cfg org sites now db = Inr (db', n) \<Longrightarrow> server_step cfg db db'"
| schedules_swept: "run_due_schedules envs cfg org now db = Inr (db', n) \<Longrightarrow>
    fresh_for envs (filter (schedule_due org now) (schedules db)) db \<Longrightarrow> server_step cfg db db'"
| schedule_run: "run_now env cfg i org allowed db = Inr db' \<Longrightarrow>
    je_fresh env \<notin> sj_id ` set (jobs db) \<Longrightarrow> server_step cfg db db'"
| schedule_created: "create_schedule fresh org allowed q by_user now db = Inr db' \<Longrightarrow>
    fresh \<notin> sd_id ` set (schedules db) \<Longrightarrow> server_step cfg db db'"
| schedule_updated: "update_schedule i org allowed uq db = Inr db' \<Longrightarrow> server_step cfg db db'"
| schedule_deleted: "delete_schedule i org allowed db = Inr db' \<Longrightarrow> server_step cfg db db'"
| run_created: "create_workflow fresh org site net web intrusive by_user now db = Inr (db', run) \<Longrightarrow>
    fresh \<notin> wr_id ` set (runs db) \<Longrightarrow> server_step cfg db db'"
| run_advanced: "advance_run env cfg i outcome detail db = Inr db' \<Longrightarrow>
    je_fresh env \<notin> sj_id ` set (jobs db) \<Longrightarrow> server_step cfg db db'"
| run_decided: "decide_run i approve now db = Inr db' \<Longrightarrow> server_step cfg db db'"
| session_requested: "create_session penv f path payload options by_user roe now db = Inr (db', ps) \<Longrightarrow>
    pe_fresh penv \<notin> ps_id ` set (sessions db) \<Longrightarrow> server_step cfg db db'"
| session_decided: "decide penv cfg i approve approver now db = Inr db' \<Longrightarrow>
    je_fresh (pe_jobs penv) \<notin> sj_id ` set (jobs db) \<Longrightarrow> server_step cfg db db'"
| session_cleaned: "cleanup clock i records outcome evidence now db = Inr db' \<Longrightarrow> server_step cfg db db'"
| session_result: "record_pentest_result now job out db = Inr db' \<Longrightarrow> server_step cfg db db'"
| sessions_timed_out: "terminate_expired_sessions now org db = (db', n) \<Longrightarrow> server_step cfg db db'"
| evidence_purged: "purge_expired_evidence now org db = (db', n) \<Longrightarrow> server_step cfg db db'"
| other_tables: "jobs db' = jobs db \<Longrightarrow> attempts db' = attempts db \<Longrightarrow> runs db' = runs db \<Longrightarrow>
    sessions db' = sessions db \<Longrightarrow> schedules db' = schedules db \<Longrightarrow> server_step cfg db db'"

inductive server_reachable :: "app_settings \<Rightarrow> dispatch_db \<Rightarrow> bool" for cfg where
  installed: "jobs db = [] \<Longrightarrow> attempts db = [] \<Longrightarrow> runs db = [] \<Longrightarrow> sessions db = [] \<Longrightarrow>
    schedules db = [] \<Longrightarrow> server_reachable cfg db"
| stepped: "server_reachable cfg db \<Longrightarrow> server_step cfg db db' \<Longrightarrow> server_reachable cfg db'"

lemma step_keeps: "server_step cfg db db' \<Longrightarrow> keeps db db'"
proof (induction rule: server_step.induct)
  case (job_created env p rq db db' j) then show ?case by (rule keeps_create)
next
  case (job_polled fresh lease i p now db db' r) then show ?case by (rule keeps_poll)
next
  case (lease_renewed i k p h now db db') then show ?case by (rule keeps_renew)
next
  case (status_reported env flushed i k p h u db db') then show ?case by (rule keeps_report)
next
  case (job_cancelled i allowed now db db') then show ?case by (rule keeps_cancel)
next
  case (jobs_reaped env org sites now db db' n) then show ?case by (rule keeps_reap)
next
  case (schedules_swept envs org now db db' n) then show ?case by (rule keeps_sweep)
next
  case (schedule_run env i org allowed db db') then show ?case by (rule keeps_run_now)
next
  case (schedule_created fresh org allowed q by_user now db db') then show ?case by (rule keeps_create_schedule)
next
  case (schedule_updated i org allowed q db db') then show ?case by (rule keeps_update_schedule)
next
  case (schedule_deleted i org allowed db db') then show ?case by (rule keeps_delete_schedule)
next
  case (run_created fresh org site net web intrusive by_user now db db' run) then show ?case by (rule keeps_workflow)
next
  case (run_advanced env i outcome detail db db') then show ?case by (rule keeps_advance)
next
  case (run_decided i approve now db db') then show ?case by (rule keeps_decide_run)
next
  case (session_requested penv f path payload options by_user roe now db db' ps) then show ?case by (rule keeps_request)
next
  case (session_decided penv i approve approver now db db') then show ?case by (rule keeps_decide)
next
  case (session_cleaned clock i records outcome evidence now db db') then show ?case by (rule keeps_cleanup)
next
  case (session_result now job out db db') then show ?case by (rule keeps_result)
next
  case (sessions_timed_out now org db db' n) then show ?case by (rule keeps_timeouts)
next
  case (evidence_purged now org db db' n) then show ?case by (rule keeps_purge)
next
  case (other_tables db' db) then show ?case by (rule keeps_others)
qed

lemma server_reachable_inv: "server_reachable cfg db \<Longrightarrow> server_inv db"
proof (induction rule: server_reachable.induct)
  case (installed db)
  then show ?case
    by (simp add: server_inv_def table_ok_def attempts_ok_def links_ok_def runs_ok_def sessions_ok_def
        schedules_ok_def unique_key_def)
next
  case (stepped db db')
  then show ?case using step_keeps by (auto simp: keeps_def)
qed

lemma steps_reachable: "(server_step cfg)\<^sup>*\<^sup>* db db' \<Longrightarrow> server_reachable cfg db \<Longrightarrow> server_reachable cfg db'"
  by (induction rule: rtranclp_induct) (auto intro: server_reachable.stepped)

lemma steps_evolve:
  "(server_step cfg)\<^sup>*\<^sup>* db db' \<Longrightarrow> server_reachable cfg db \<Longrightarrow> jobs_evolve (jobs db) (jobs db')"
proof (induction rule: rtranclp_induct)
  case (step db1 db2)
  then have "server_inv db1" using steps_reachable server_reachable_inv by blast
  then have "jobs_evolve (jobs db1) (jobs db2)" using step_keeps [OF step(2)] by (simp add: keeps_def)
  then show ?case using step jobs_evolve_trans by blast
qed simp

subsection \<open>What the invariant says\<close>

lemma one_active_per_network:
  assumes "server_inv db" and "j \<in> set (jobs db)" and "k \<in> set (jobs db)" and "sj_status j \<in> set ACTIVE_JOB"
    and "sj_status k \<in> set ACTIVE_JOB" and "sj_network_id j \<noteq> None" and "sj_network_id k = sj_network_id j"
  shows "k = j"
proof -
  obtain net where "active_network j = Some net" "active_network k = Some net"
    using assms(4-7) by (auto simp: active_network_def)
  moreover have "unique_key active_network (jobs db)" using assms(1) by (simp add: server_inv_def table_ok_def)
  ultimately show ?thesis using unique_keyD assms(2,3) by metis
qed

lemma in_atts: "a \<in> set (atts i db) \<longleftrightarrow> a \<in> set (attempts db) \<and> at_scan_job_id a = i"
  by (auto simp: atts_def)

lemma job_atts_ok:
  "server_inv db \<Longrightarrow> j \<in> set (jobs db) \<Longrightarrow> atts_ok (sj_probe_id j) (sj_status j) (atts (sj_id j) db)"
  by (simp add: server_inv_def attempts_ok_def)

lemma handed_out_iff_attempt:
  assumes "server_inv db" and "j \<in> set (jobs db)"
  shows "sj_status j \<in> set OFFERED_JOB \<longleftrightarrow>
    (\<exists>a \<in> set (attempts db). at_scan_job_id a = sj_id j \<and> active_attempt a)"
  using job_atts_ok [OF assms] unfolding atts_ok_def in_atts [symmetric] by (auto simp: in_atts)

lemma attempt_current:
  assumes "server_inv db" and "j \<in> set (jobs db)" and "a \<in> set (attempts db)" and "at_scan_job_id a = sj_id j"
    and "active_attempt a"
  shows "at_status a = job_status_value (sj_status j) \<and> at_probe_id a = sj_probe_id j \<and>
    latest_fence (sj_id j) db = Some (at_fencing_token a)"
proof -
  have a: "a \<in> set (atts (sj_id j) db)" using assms(3,4) by (simp add: in_atts)
  then obtain f where f: "latest_fence (sj_id j) db = Some f"
    using latest_fence_None [of "sj_id j" db] by (cases "latest_fence (sj_id j) db") auto
  note ok = job_atts_ok [OF assms(1,2), unfolded atts_ok_def]
  have top: "\<forall>b \<in> set (atts (sj_id j) db). at_fencing_token b \<le> at_fencing_token a" using ok a assms(5) by simp
  then have "f = at_fencing_token a"
    using latest_fence_Some(1) [OF f] latest_fence_Some(2) [OF f a] by (auto intro: order_antisym)
  then show ?thesis using ok a assms(5) f by simp
qed

lemma fences_distinct:
  assumes "server_inv db" and "a \<in> set (attempts db)" and "b \<in> set (attempts db)"
    and "at_scan_job_id b = at_scan_job_id a" and "at_fencing_token b = at_fencing_token a"
  shows "b = a"
proof -
  obtain j where j: "j \<in> set (jobs db)" "at_scan_job_id a = sj_id j"
    using assms(1,2) by (auto simp: server_inv_def attempts_ok_def)
  then have "distinct (map at_fencing_token (atts (sj_id j) db))" using job_atts_ok [OF assms(1)] by (simp add: atts_ok_def)
  moreover have "a \<in> set (atts (sj_id j) db)" "b \<in> set (atts (sj_id j) db)" using assms(2-4) j(2) by (simp_all add: in_atts)
  ultimately show ?thesis using assms(5) by (auto simp: distinct_map dest: inj_onD)
qed

subsection \<open>Properties\<close>

text \<open>
  C5. In every state the server can reach, a network has at most one job that is queued or running; a
  job is in the hands of a Scout exactly when it has an active attempt; that attempt is its newest, of
  its own Scout, and in its status; and no two attempts of a job share a fencing token.
\<close>

theorem one_execution_at_a_time:
  assumes "server_reachable cfg db"
  shows "(\<forall>j \<in> set (jobs db). \<forall>k \<in> set (jobs db). sj_status j \<in> set ACTIVE_JOB \<and> sj_status k \<in> set ACTIVE_JOB \<and>
      sj_network_id j \<noteq> None \<and> sj_network_id k = sj_network_id j \<longrightarrow> k = j) \<and>
    (\<forall>j \<in> set (jobs db). sj_status j \<in> set OFFERED_JOB \<longleftrightarrow>
      (\<exists>a \<in> set (attempts db). at_scan_job_id a = sj_id j \<and> active_attempt a)) \<and>
    (\<forall>j \<in> set (jobs db). \<forall>a \<in> set (attempts db). at_scan_job_id a = sj_id j \<and> active_attempt a \<longrightarrow>
      at_status a = job_status_value (sj_status j) \<and> at_probe_id a = sj_probe_id j \<and>
      latest_fence (sj_id j) db = Some (at_fencing_token a)) \<and>
    (\<forall>a \<in> set (attempts db). \<forall>b \<in> set (attempts db). at_scan_job_id b = at_scan_job_id a \<and>
      at_fencing_token b = at_fencing_token a \<longrightarrow> b = a)"
proof -
  have inv: "server_inv db" by (rule server_reachable_inv [OF assms])
  show ?thesis
    using one_active_per_network [OF inv] handed_out_iff_attempt [OF inv] attempt_current [OF inv] fences_distinct [OF inv]
    by (intro conjI ballI impI) (auto del: iffI)
qed


text \<open>
  C12. A status report changes something only when it comes from the Scout of the job under its newest
  attempt: the identifier, lease and fencing token of the request are those of the one active attempt,
  no later attempt exists, its lease has not expired, and the reported status is the job's own or one
  that the state machine allows next.  Anything else is refused or acknowledged without effect.
\<close>

theorem reports_are_fenced:
  assumes "server_reachable cfg db" and "report_job_status env cfg flushed i k p h u db = Inr db'"
  shows "db' = db \<or> (\<exists>j \<in> set (jobs db). \<exists>a \<in> set (attempts db).
    sj_id j = k \<and> at_scan_job_id a = k \<and> sj_probe_id j = i \<and> at_probe_id a = i \<and> pb_id p = i \<and>
    parse_attempt_headers h = Inr (at_id a, at_lease_id a, at_fencing_token a) \<and>
    (\<forall>b \<in> set (attempts db). at_scan_job_id b = k \<longrightarrow> at_fencing_token b \<le> at_fencing_token a) \<and>
    at_status a = job_status_value (sj_status j) \<and> je_now env < at_lease_expires_at a \<and>
    (rp_status u = sj_status j \<or> rp_status u \<in> set (job_edges (sj_status j))))"
proof (cases "db' = db")
  case False
  have inv: "server_inv db" by (rule server_reachable_inv [OF assms(1)])
  obtain j a where j: "j \<in> set (jobs db)" "sj_id j = k" "sj_probe_id j = pb_id p" "pb_id p = i"
    and a: "require_current_attempt j p h (je_now env) True db = Inr a" "active_attempt a"
      "at_status a = job_status_value (sj_status j)"
    and move: "job_status_value (rp_status u) \<in> set (attempt_transitions (at_status a))"
    using report_accepted [OF assms(2) False inv] by metis
  note current = require_current_attempt_Inr [OF a(1)]
  have "\<forall>b \<in> set (attempts db). at_scan_job_id b = k \<longrightarrow> at_fencing_token b \<le> at_fencing_token a"
    using latest_fence_Some(2) [OF current(4)] j(2) by (auto simp: atts_def)
  then show ?thesis
    using j a(2,3) current transition_edge(1) [OF move [unfolded a(3)]] by blast
qed simp

subsection \<open>A sample run of the server\<close>

text \<open>A job is created on an installed server, handed to its Scout, and accepted by it.\<close>

definition installed_sample :: dispatch_db where
  "installed_sample = sample_dispatch\<lparr>schedules := []\<rparr>"

definition queued_sample :: dispatch_db where
  "queued_sample = (case create_scan_job sample_env sample_cfg sample_probe sample_request installed_sample of
     Inl _ \<Rightarrow> installed_sample | Inr (db, j) \<Rightarrow> db)"

definition offered_sample :: dispatch_db where
  "offered_sample = (case poll_next_job 300 301 (pb_id sample_probe) sample_probe (je_now sample_env) queued_sample of
     Inl _ \<Rightarrow> queued_sample | Inr (db, r) \<Rightarrow> db)"

definition sample_headers :: attempt_headers where
  "sample_headers = \<lparr>hd_attempt = Some (uuid_str 300), hd_lease = Some (uuid_str 301), hd_fence = Some ''1''\<rparr>"

definition accepted_update :: status_update where
  "accepted_update = \<lparr>rp_status = JobStatus.ACCEPTED, rp_error_code = None, rp_error_message = None,
     rp_summary = None, rp_progress = None, rp_failure_details = []\<rparr>"

definition accept_sample :: "dispatch_db \<Rightarrow> scout_error + dispatch_db" where
  "accept_sample db = report_job_status next_env sample_cfg True (pb_id sample_probe) 77 sample_probe
     sample_headers accepted_update db"

definition sample_states :: "dispatch_db \<Rightarrow> dispatch_db \<Rightarrow> bool" where
  "sample_states q db \<longleftrightarrow> map sj_id (jobs q) = [77] \<and> map sj_status (jobs q) = [JobStatus.QUEUED] \<and> attempts q = [] \<and>
     map sj_id (jobs db) = [77] \<and> map sj_status (jobs db) = [JobStatus.OFFERED] \<and> map at_id (attempts db) = [300] \<and>
     (case accept_sample db of Inl _ \<Rightarrow> False | Inr db' \<Rightarrow> map sj_status (jobs db') = [JobStatus.ACCEPTED])"

lemma sample_run:
  "case create_scan_job sample_env sample_cfg sample_probe sample_request installed_sample of
     Inl _ \<Rightarrow> False
   | Inr (q, j) \<Rightarrow>
       (case poll_next_job 300 301 (pb_id sample_probe) sample_probe (je_now sample_env) q of
          Inl _ \<Rightarrow> False | Inr (db, r) \<Rightarrow> sample_states q db)"
  by code_simp

lemma sample_server:
  shows "server_reachable sample_cfg queued_sample" and "server_step sample_cfg queued_sample offered_sample"
    and "sample_states queued_sample offered_sample"
proof -
  let ?c = "create_scan_job sample_env sample_cfg sample_probe sample_request installed_sample"
  obtain q j where c: "?c = Inr (q, j)" using sample_run by (cases ?c) auto
  then have q: "queued_sample = q" by (simp add: queued_sample_def)
  let ?p = "poll_next_job 300 301 (pb_id sample_probe) sample_probe (je_now sample_env) q"
  obtain db r where p: "?p = Inr (db, r)" using sample_run c by (cases ?p) auto
  then have db: "offered_sample = db" by (simp add: offered_sample_def q)
  show states: "sample_states queued_sample offered_sample" using sample_run c p by (simp add: q db)
  have "server_reachable sample_cfg installed_sample"
    by (rule server_reachable.installed) (simp_all add: installed_sample_def sample_dispatch_def)
  moreover have "server_step sample_cfg installed_sample q"
    by (rule server_step.job_created [OF c]) (simp add: installed_sample_def sample_dispatch_def)
  ultimately show "server_reachable sample_cfg queued_sample"
    unfolding q by (rule server_reachable.stepped)
  have "attempts q = []" using states by (simp add: sample_states_def q)
  then show "server_step sample_cfg queued_sample offered_sample"
    unfolding q db by (intro server_step.job_polled [OF p]) simp
qed

lemma offered_sample_reachable: "server_reachable sample_cfg offered_sample"
  using sample_server(1,2) by (rule server_reachable.stepped)

theorem one_execution_at_a_time_witness:
  "list_ex (\<lambda>a. at_scan_job_id a = 77 \<and> active_attempt a) (attempts offered_sample)"
proof -
  obtain j where j: "jobs offered_sample = [j]" "sj_id j = 77" "sj_status j = JobStatus.OFFERED"
    using sample_server(3) by (auto simp: sample_states_def)
  have "\<exists>a \<in> set (attempts offered_sample). at_scan_job_id a = sj_id j \<and> active_attempt a"
    using one_execution_at_a_time [OF offered_sample_reachable] j by (simp add: OFFERED_JOB_def)
  then show ?thesis by (simp add: list_ex_iff j(2))
qed


theorem reports_are_fenced_witness:
  "\<exists>db' a. accept_sample offered_sample = Inr db' \<and> map sj_status (jobs db') = [JobStatus.ACCEPTED] \<and>
     attempts offered_sample = [a] \<and> parse_attempt_headers sample_headers = Inr (at_id a, at_lease_id a, at_fencing_token a) \<and>
     je_now next_env < at_lease_expires_at a"
proof -
  have states: "sample_states queued_sample offered_sample" by (rule sample_server(3))
  then obtain db' where db': "accept_sample offered_sample = Inr db'" "map sj_status (jobs db') = [JobStatus.ACCEPTED]"
    by (auto simp: sample_states_def split: sum.split_asm)
  obtain a where a: "attempts offered_sample = [a]" using states by (auto simp: sample_states_def)
  have "db' \<noteq> offered_sample" using db'(2) states by (auto simp: sample_states_def)
  then show ?thesis
    using reports_are_fenced [OF offered_sample_reachable db'(1) [unfolded accept_sample_def]] db' a by auto
qed


subsection \<open>Jobs that end outside the status reports\<close>

text \<open>
  Cancelling a job that is still queued (like its expiry in a poll or in a reclaim) ends the job without
  telling the run that waits for it.  The run stays in its scanning stage, and since the stage has a job
  an operator cannot advance it by hand either.
\<close>

definition stranded :: "dispatch_db \<Rightarrow> bool" where
  "stranded db \<longleftrightarrow> list_all (\<lambda>j. sj_id j = 77 \<and> sj_status j = JobStatus.CANCELLED) (jobs db) \<and>
     list_ex (\<lambda>r. wr_id r = 200 \<and> wr_scan_job_id r = Some 77 \<and> scanning_stage_active r) (runs db) \<and>
     advance_run next_env sample_cfg 200 WorkflowStageStatus.FAILED None db = Inl StageHasJob"

lemma cancelled_job_strands_run:
  "\<exists>db. cancel_job 77 (\<lambda>_. True) 600 run_sample = Inr db \<and> stranded db"
proof -
  obtain j r where j: "jobs run_sample = [j]" "sj_id j = 77" "sj_status j = JobStatus.QUEUED"
    and r: "runs run_sample = [r]" "wr_id r = 200" "wr_scan_job_id r = Some 77" "scanning_stage_active r"
    using run_sample_facts by auto
  let ?j = "j\<lparr>sj_cancel_requested_at := Some 600, sj_status := JobStatus.CANCELLED, sj_finished_at := Some 600\<rparr>"
  have "cancel_job 77 (\<lambda>_. True) 600 run_sample = Inr (put_job ?j run_sample)"
    using j by (simp add: cancel_job_def ACTIVE_JOB_def)
  moreover have "stranded (put_job ?j run_sample)"
    using j r by (simp add: stranded_def put_job_def advance_run_def Dispatch.run_of_def)
  ultimately show ?thesis by blast
qed

end

