(* ===== verification/Permissions.thy ===== *)
theory Permissions
  imports Enums PyStrings
begin

text \<open>
  The permission catalogue, \<^verbatim>\<open>app/auth/permission_catalog.py\<close>: the permissions the code defines,
  with the scopes a grant may have, and the permissions of the built-in roles.  A \<open>frozenset\<close> of
  keys is a list whose order nothing reads; the catalogue itself is in the source's order.
\<close>

definition ORGANIZATION_SCOPE :: string where "ORGANIZATION_SCOPE = ''organization''"
definition SITE_SCOPE :: string where "SITE_SCOPE = ''site''"

record permission_definition =
  pm_key :: string
  pm_label :: string
  pm_description :: string
  pm_scopes :: "string list"
  pm_high_risk :: bool

text \<open>\<open>_permission(key, label, description, site_scoped, high_risk)\<close>.\<close>

definition permission :: "string \<Rightarrow> string \<Rightarrow> string \<Rightarrow> bool \<Rightarrow> bool \<Rightarrow> permission_definition" where
  "permission key label description site_scoped high_risk =
     \<lparr>pm_key = key, pm_label = label, pm_description = description,
      pm_scopes = (if site_scoped then [ORGANIZATION_SCOPE, SITE_SCOPE] else [ORGANIZATION_SCOPE]),
      pm_high_risk = high_risk\<rparr>"

subsection \<open>The catalogue\<close>

definition PERMISSIONS_1 :: "permission_definition list" where
  "PERMISSIONS_1 =
    [permission ''system.admin'' ''Full administration''
       ''Compatibility permission for administrator-only operations.'' False True,
     permission ''system.read'' ''View system status''
       ''View local health and support status.'' False False,
     permission ''organization.manage'' ''Manage organization''
       ''Change organization-wide settings and experience configuration.'' False True,
     permission ''users.read'' ''View users''
       ''View organization user lifecycle metadata.'' False False,
     permission ''users.manage'' ''Manage users''
       ''Invite, suspend, and grant access to users.'' False True,
     permission ''roles.read'' ''View authorization''
       ''View roles, grants, and permissions.'' False False,
     permission ''roles.manage'' ''Manage authorization''
       ''Create roles and change scoped grants.'' False True,
     permission ''tokens.self'' ''Manage personal tokens''
       ''Manage your own expiring API tokens.'' False False,
     permission ''service_accounts.manage'' ''Manage service accounts''
       ''Create service principals and their expiring API tokens.'' False True,
     permission ''sessions.self'' ''Manage own sessions''
       ''View and revoke your own sessions.'' False False,
     permission ''sessions.manage'' ''Manage all sessions''
       ''View and revoke organization sessions.'' False True,
     permission ''identity.self'' ''Manage own MFA''
       ''Manage your own authentication factors.'' False False,
     permission ''identity.manage'' ''Manage identity''
       ''Manage MFA policy, SSO providers, and break-glass access.'' False True,
     permission ''scim.manage'' ''Manage SCIM''
       ''Manage SCIM tokens, group mappings, and logs.'' False True,
     permission ''sites.read'' ''View sites''
       ''View assigned sites.'' True False,
     permission ''sites.manage'' ''Manage sites''
       ''Create and change sites.'' False True,
     permission ''scopes.read'' ''View scopes''
       ''View authorized network scopes.'' True False,
     permission ''scopes.manage'' ''Manage scopes''
       ''Approve and change scanning boundaries.'' False True,
     permission ''networks.read'' ''View networks''
       ''View network inventory.'' True False,
     permission ''networks.manage'' ''Manage networks''
       ''Change network inventory.'' True False,
     permission ''scouts.read'' ''View Scouts''
       ''View Scout enrollment and health.'' True False,
     permission ''scouts.manage'' ''Manage Scouts''
       ''Enroll, approve, repair, or revoke Scouts.'' False True,
     permission ''relays.read'' ''View relays''
       ''View relay configuration and health.'' True False,
     permission ''relays.manage'' ''Manage relays''
       ''Change relay configuration.'' False True,
     permission ''schedules.read'' ''View schedules''
       ''View scan schedules.'' True False,
     permission ''schedules.manage'' ''Manage schedules''
       ''Create and change scan schedules.'' True False,
     permission ''jobs.read'' ''View jobs''
       ''View assessment jobs.'' True False,
     permission ''jobs.create'' ''Create jobs''
       ''Start authorized assessment jobs.'' True False,
     permission ''jobs.manage'' ''Manage jobs''
       ''Cancel and reap assessment jobs.'' True False,
     permission ''credentials.read'' ''View credential metadata''
       ''View vault metadata, assignments, tests, and usage without secret values.'' False False]"

definition PERMISSIONS_2 :: "permission_definition list" where
  "PERMISSIONS_2 =
    [permission ''credentials.manage'' ''Manage credential vault''
       ''Create, rotate, assign, test, and deactivate vault credentials.'' False True,
     permission ''credentials.use'' ''Run authenticated inventory''
       ''Resolve and deliver a credential to an authorized Scout job.'' True True,
     permission ''assets.read'' ''View assets''
       ''View assessed assets.'' True False,
     permission ''assets.manage'' ''Manage assets''
       ''Change asset records.'' True False,
     permission ''software.read'' ''View software inventory''
       ''View installed software and EOL state.'' True False,
     permission ''software.manage'' ''Manage software inventory''
       ''Create manual EOL overrides and administer software inventory.'' True False,
     permission ''findings.read'' ''View findings''
       ''View findings and evidence.'' True False,
     permission ''findings.manage'' ''Manage findings''
       ''Change finding workflow state.'' True False,
     permission ''remediation.read'' ''View remediation''
       ''View remediation work.'' True False,
     permission ''remediation.manage'' ''Manage remediation''
       ''Change remediation workflow and notes.'' True False,
     permission ''sla.read'' ''View remediation SLAs''
       ''View deadlines and SLA metrics.'' True False,
     permission ''sla.manage'' ''Manage remediation SLAs''
       ''Change SLA policies, exceptions, and structured guidance.'' True True,
     permission ''ticketing.read'' ''View ticket synchronization''
       ''View connector metadata and finding ticket state.'' True False,
     permission ''ticketing.manage'' ''Manage ticket connectors''
       ''Configure, test, enable, rotate, and disable ticket destinations.'' False True,
     permission ''ticketing.sync'' ''Synchronize remediation tickets''
       ''Queue idempotent finding ticket updates within assigned sites.'' True False,
     permission ''connectors.read'' ''View inventory connectors''
       ''View passive inventory source metadata and runs.'' True False,
     permission ''connectors.manage'' ''Manage inventory connectors''
       ''Configure, test, schedule, and disable passive inventory sources.'' True True,
     permission ''connectors.run'' ''Run inventory connectors''
       ''Queue read-only inventory collection for assigned sites.'' True True,
     permission ''reconciliation.read'' ''View inventory reconciliation''
       ''View source observations and reconciliation explanations.'' True False,
     permission ''reconciliation.manage'' ''Manage inventory reconciliation''
       ''Approve, reject, merge, and split inventory observations.'' True True,
     permission ''analytics.read'' ''View inventory analytics''
       ''View scoped dashboards, history, and daily aggregates.'' True False,
     permission ''report_templates.read'' ''View report templates''
       ''View reusable report definitions and generation history.'' True False,
     permission ''report_templates.manage'' ''Manage report templates''
       ''Create scheduled, branded, redacted, and protected report exports.'' True True,
     permission ''pentest.read'' ''View pentest''
       ''View controlled pentest sessions.'' True False,
     permission ''pentest.request'' ''Request pentest''
       ''Request controlled pentest actions.'' True True,
     permission ''pentest.approve'' ''Approve pentest''
       ''Approve controlled pentest actions.'' True True,
     permission ''workflows.read'' ''View workflows''
       ''View assessment workflows.'' True False,
     permission ''workflows.run'' ''Run workflows''
       ''Start assessment workflows.'' True False,
     permission ''workflows.approve'' ''Approve workflows''
       ''Approve gated workflow stages.'' True True,
     permission ''risk_acceptance.read'' ''View risk decisions''
       ''View risk-acceptance decisions.'' True False]"

definition PERMISSIONS_3 :: "permission_definition list" where
  "PERMISSIONS_3 =
    [permission ''risk_acceptance.approve'' ''Approve risk decisions''
       ''Approve risk-acceptance decisions.'' True True,
     permission ''risk_acceptance.manage'' ''Manage risk decisions''
       ''Expire and administer risk decisions.'' False True,
     permission ''reports.read'' ''View reports''
       ''View and download authorized reports.'' True False,
     permission ''reports.create'' ''Create reports''
       ''Generate authorized reports.'' True False,
     permission ''audit.read'' ''View audit log''
       ''View the organization audit log.'' False False,
     permission ''feeds.read'' ''View intelligence feeds''
       ''View feed health and records.'' False False,
     permission ''feeds.manage'' ''Manage intelligence feeds''
       ''Synchronize and configure feeds.'' False False,
     permission ''notifications.read'' ''View notifications''
       ''View notification configuration.'' False False,
     permission ''notifications.manage'' ''Manage notifications''
       ''Change notification destinations.'' False True,
     permission ''privacy.read'' ''View privacy''
       ''View privacy and data ownership status.'' False False,
     permission ''privacy.manage'' ''Manage privacy''
       ''Change privacy settings.'' False True,
     permission ''maintenance.read'' ''View maintenance''
       ''View retention and maintenance status.'' False False,
     permission ''maintenance.manage'' ''Manage maintenance''
       ''Run retention, repair, and hold operations.'' False True,
     permission ''portability.read'' ''View portability''
       ''View migration guidance.'' False False,
     permission ''portability.manage'' ''Manage portability''
       ''Export or validate organization data.'' False True,
     permission ''diagnostics.read'' ''View diagnostics''
       ''View diagnostic status.'' False False,
     permission ''diagnostics.manage'' ''Manage diagnostics''
       ''Generate support bundles and diagnostic actions.'' False False,
     permission ''presets.read'' ''View presets''
       ''View assessment presets.'' True False,
     permission ''presets.manage'' ''Manage presets''
       ''Change assessment presets.'' True False,
     permission ''resources.read'' ''View resources''
       ''View resource and utilization information.'' False False,
     permission ''resources.manage'' ''Manage resources''
       ''Change resource policy.'' False False,
     permission ''onboarding.read'' ''View onboarding''
       ''View onboarding plans.'' False False,
     permission ''onboarding.manage'' ''Manage onboarding''
       ''Change onboarding configuration.'' False False,
     permission ''demo.read'' ''View demo state''
       ''View demo-mode configuration.'' False False,
     permission ''demo.manage'' ''Manage demo state''
       ''Reset or seed demo state.'' False True,
     permission ''tasks.read'' ''View background tasks''
       ''View task and worker health.'' False False,
     permission ''tasks.manage'' ''Manage background tasks''
       ''Retry, cancel, or inspect failed tasks.'' False True]"

definition PERMISSIONS :: "permission_definition list" where
  "PERMISSIONS = PERMISSIONS_1 @ PERMISSIONS_2 @ PERMISSIONS_3"

text \<open>A dict comprehension: of two entries with one key, the last would count.\<close>

definition PERMISSION_BY_KEY :: "string \<Rightarrow> permission_definition option" where
  "PERMISSION_BY_KEY key = find (\<lambda>p. pm_key p = key) (rev PERMISSIONS)"

definition ALL_PERMISSION_KEYS :: "string list" where
  "ALL_PERMISSION_KEYS = map pm_key PERMISSIONS"

definition ends_with :: "string \<Rightarrow> string \<Rightarrow> bool" where
  "ends_with suffix s \<longleftrightarrow> starts_with (rev suffix) (rev s)"

definition READ_KEYS :: "string list" where
  "READ_KEYS = filter (ends_with ''.read'') ALL_PERMISSION_KEYS"

definition PRIVILEGED_READ_KEYS :: "string list" where
  "PRIVILEGED_READ_KEYS = [''audit.read'', ''roles.read'', ''tasks.read'', ''users.read'']"

definition GENERAL_READ_KEYS :: "string list" where
  "GENERAL_READ_KEYS = filter (\<lambda>k. k \<notin> set PRIVILEGED_READ_KEYS) READ_KEYS"

definition SELF_KEYS :: "string list" where
  "SELF_KEYS = [''tokens.self'', ''sessions.self'', ''identity.self'']"

fun BUILTIN_ROLE_PERMISSIONS :: "UserRole \<Rightarrow> string list" where
  "BUILTIN_ROLE_PERMISSIONS UserRole.ADMINISTRATOR = ALL_PERMISSION_KEYS"
| "BUILTIN_ROLE_PERMISSIONS UserRole.SECURITY_OPERATOR = GENERAL_READ_KEYS @ SELF_KEYS @
     [''networks.manage'', ''schedules.manage'', ''jobs.create'', ''jobs.manage'', ''credentials.use'',
      ''assets.manage'', ''findings.manage'', ''remediation.manage'', ''sla.manage'', ''ticketing.sync'',
      ''connectors.run'', ''reconciliation.manage'', ''pentest.request'', ''workflows.run'',
      ''reports.create'', ''presets.manage'']"
| "BUILTIN_ROLE_PERMISSIONS UserRole.PENTEST_APPROVER = GENERAL_READ_KEYS @ SELF_KEYS @
     [''jobs.create'', ''pentest.approve'', ''workflows.approve'', ''risk_acceptance.approve'',
      ''reports.create'']"
| "BUILTIN_ROLE_PERMISSIONS UserRole.REMEDIATION_OWNER = GENERAL_READ_KEYS @ SELF_KEYS @
     [''remediation.manage'', ''reports.create'']"
| "BUILTIN_ROLE_PERMISSIONS UserRole.AUDITOR = GENERAL_READ_KEYS @ SELF_KEYS @ [''audit.read'']"
| "BUILTIN_ROLE_PERMISSIONS UserRole.VIEWER = GENERAL_READ_KEYS @ SELF_KEYS"

fun ROLE_PRIORITY :: "UserRole \<Rightarrow> int" where
  "ROLE_PRIORITY UserRole.ADMINISTRATOR = 60"
| "ROLE_PRIORITY UserRole.SECURITY_OPERATOR = 50"
| "ROLE_PRIORITY UserRole.PENTEST_APPROVER = 40"
| "ROLE_PRIORITY UserRole.REMEDIATION_OWNER = 30"
| "ROLE_PRIORITY UserRole.AUDITOR = 20"
| "ROLE_PRIORITY UserRole.VIEWER = 10"

text \<open>The \<open>ValueError\<close> names the unknown keys in sorted order.\<close>

definition validate_permission_keys :: "string list \<Rightarrow> string + string list" where
  "validate_permission_keys ks =
     (let unknown = filter (\<lambda>k. k \<notin> set ALL_PERMISSION_KEYS) ks
      in if unknown \<noteq> []
         then Inl (''Unknown permission keys: '' @ join_with '', '' (sort (remdups unknown)))
         else Inr ks)"

subsection \<open>Properties of the catalogue\<close>

lemma distinct_keys: "distinct ALL_PERMISSION_KEYS"
  by code_simp

lemma all_organization_scoped: "list_all (\<lambda>p. ORGANIZATION_SCOPE \<in> set (pm_scopes p)) PERMISSIONS"
  by code_simp

lemma general_subset: "set GENERAL_READ_KEYS \<subseteq> set ALL_PERMISSION_KEYS"
  by (auto simp: GENERAL_READ_KEYS_def READ_KEYS_def)

lemma distinct_general: "distinct GENERAL_READ_KEYS"
  by (simp add: GENERAL_READ_KEYS_def READ_KEYS_def distinct_keys)

lemma not_general: "\<not> ends_with ''.read'' k \<Longrightarrow> k \<notin> set GENERAL_READ_KEYS"
  by (simp add: GENERAL_READ_KEYS_def READ_KEYS_def)

lemma audit_not_general: "''audit.read'' \<notin> set GENERAL_READ_KEYS"
  by (simp add: GENERAL_READ_KEYS_def PRIVILEGED_READ_KEYS_def)

lemma granted_keys:
  "list_all (\<lambda>k. k \<in> set ALL_PERMISSION_KEYS)
    [''audit.read'', ''tokens.self'', ''sessions.self'', ''identity.self'', ''networks.manage'',
     ''schedules.manage'', ''jobs.create'', ''jobs.manage'', ''credentials.use'',
     ''assets.manage'', ''findings.manage'', ''remediation.manage'', ''sla.manage'',
     ''ticketing.sync'', ''connectors.run'', ''reconciliation.manage'', ''pentest.request'',
     ''workflows.run'', ''reports.create'', ''presets.manage'', ''pentest.approve'',
     ''workflows.approve'', ''risk_acceptance.approve'']"
  by code_simp

lemma not_reads:
  "list_all (\<lambda>k. \<not> ends_with ''.read'' k)
    [''tokens.self'', ''sessions.self'', ''identity.self'', ''networks.manage'',
     ''schedules.manage'', ''jobs.create'', ''jobs.manage'', ''credentials.use'',
     ''assets.manage'', ''findings.manage'', ''remediation.manage'', ''sla.manage'',
     ''ticketing.sync'', ''connectors.run'', ''reconciliation.manage'', ''pentest.request'',
     ''workflows.run'', ''reports.create'', ''presets.manage'', ''pentest.approve'',
     ''workflows.approve'', ''risk_acceptance.approve'']"
  by code_simp

lemmas granted_simps = granted_keys [unfolded list.pred_inject] not_reads [unfolded list.pred_inject]

lemma builtin_subset: "set (BUILTIN_ROLE_PERMISSIONS r) \<subseteq> set ALL_PERMISSION_KEYS"
  by (cases r) (simp_all add: general_subset granted_simps SELF_KEYS_def)

lemma distinct_builtin: "distinct (BUILTIN_ROLE_PERMISSIONS r)"
  by (cases r) (simp_all add: distinct_keys distinct_general not_general audit_not_general granted_simps SELF_KEYS_def)

lemma PERMISSION_BY_KEY_None: "PERMISSION_BY_KEY k = None \<longleftrightarrow> k \<notin> set ALL_PERMISSION_KEYS"
  by (auto simp: PERMISSION_BY_KEY_def ALL_PERMISSION_KEYS_def find_None_iff)

lemma PERMISSION_BY_KEY_Some:
  "PERMISSION_BY_KEY k = Some d \<Longrightarrow> d \<in> set PERMISSIONS \<and> pm_key d = k"
  by (auto simp: PERMISSION_BY_KEY_def dest: find_SomeD)

lemma known_permission:
  assumes "k \<in> set ALL_PERMISSION_KEYS"
  obtains d where "PERMISSION_BY_KEY k = Some d" and "ORGANIZATION_SCOPE \<in> set (pm_scopes d)"
proof (cases "PERMISSION_BY_KEY k")
  case None
  with assms show ?thesis by (simp add: PERMISSION_BY_KEY_None)
next
  case (Some d)
  then have "d \<in> set PERMISSIONS" by (simp add: PERMISSION_BY_KEY_Some)
  then have "ORGANIZATION_SCOPE \<in> set (pm_scopes d)" using all_organization_scoped by (simp add: list_all_iff)
  with Some show ?thesis by (rule that)
qed

lemma validate_permission_keys_Inr:
  "validate_permission_keys ks = Inr ks' \<longleftrightarrow> ks' = ks \<and> set ks \<subseteq> set ALL_PERMISSION_KEYS"
  by (auto simp: validate_permission_keys_def Let_def filter_empty_conv)

lemma ROLE_PRIORITY_inject: "ROLE_PRIORITY r = ROLE_PRIORITY s \<longleftrightarrow> r = s"
  by (cases r; cases s; simp)

end
