(* ===== verification/Accounts.thy ===== *)
theory Accounts
  imports Permissions
begin

text \<open>
  Principals and their records: \<^verbatim>\<open>app/models/user.py\<close>, \<^verbatim>\<open>user_lifecycle.py\<close>, \<^verbatim>\<open>authorization.py\<close>,
  \<^verbatim>\<open>session.py\<close>, and the shared operations of user administration in
  \<^verbatim>\<open>app/services/user_lifecycle.py\<close>.  A principal in a request is the ORM object of its row, so an
  operation on it updates the row of its id.
\<close>

datatype http_error = Http nat string

subsection \<open>\<open>AuthenticationSource\<close>\<close>

datatype AuthenticationSource = LOCAL | JIT | SCIM

fun authentication_source_value :: "AuthenticationSource \<Rightarrow> string" where
  "authentication_source_value AuthenticationSource.LOCAL = ''local''"
| "authentication_source_value AuthenticationSource.JIT = ''jit''"
| "authentication_source_value AuthenticationSource.SCIM = ''scim''"

subsection \<open>Rows\<close>

record user =
  us_id :: uuid
  us_organization_id :: uuid
  us_email :: string
  us_hashed_password :: "string option"
  us_full_name :: "string option"
  us_role :: UserRole
  us_is_active :: bool
  us_account_status :: AccountStatus
  us_authentication_source :: AuthenticationSource
  us_site_access_mode :: SiteAccessMode
  us_auth_version :: int
  us_authorization_migrated_at :: "time option"
  us_last_login_at :: "time option"
  us_invited_at :: "time option"
  us_activated_at :: "time option"
  us_suspended_at :: "time option"
  us_deactivated_at :: "time option"
  us_password_changed_at :: "time option"
  us_mfa_grace_expires_at :: "time option"
  us_is_break_glass :: bool
  us_created_by_user_id :: "uuid option"
  us_recovery_codes :: "string list"
  us_recovery_codes_generated_at :: "time option"

record auth_role =
  ar_id :: uuid
  ar_organization_id :: uuid
  ar_key :: string
  ar_name :: string
  ar_description :: "string option"
  ar_is_system :: bool
  ar_compatibility_role :: "UserRole option"

record role_permission =
  rm_organization_id :: uuid
  rm_role_id :: uuid
  rm_permission_key :: string

record service_account =
  sv_id :: uuid
  sv_organization_id :: uuid
  sv_name :: string
  sv_description :: "string option"
  sv_status :: ServiceAccountStatus
  sv_primary_role :: UserRole
  sv_auth_version :: int
  sv_created_by_user_id :: "uuid option"
  sv_last_used_at :: "time option"

record scoped_grant =
  gr_id :: uuid
  gr_organization_id :: uuid
  gr_principal_type :: PrincipalType
  gr_user_id :: "uuid option"
  gr_service_account_id :: "uuid option"
  gr_role_id :: uuid
  gr_scope_type :: GrantScopeType
  gr_scope_id :: uuid
  gr_created_by_user_id :: "uuid option"

record api_token =
  tk_id :: uuid
  tk_organization_id :: uuid
  tk_principal_type :: PrincipalType
  tk_user_id :: "uuid option"
  tk_service_account_id :: "uuid option"
  tk_name :: string
  tk_token_hash :: string
  tk_token_prefix :: string
  tk_issued_auth_version :: int
  tk_expires_at :: time
  tk_revoked_at :: "time option"
  tk_rotated_from_id :: "uuid option"
  tk_ip_restrictions :: "string list"
  tk_last_used_at :: "time option"
  tk_last_used_ip :: "string option"

record site =
  si_id :: uuid
  si_organization_id :: uuid

record site_assignment =
  ux_organization_id :: uuid
  ux_user_id :: uuid
  ux_site_id :: uuid
  ux_assigned_by_user_id :: "uuid option"

record user_session =
  ue_id :: uuid
  ue_organization_id :: uuid
  ue_user_id :: uuid
  ue_auth_version :: int
  ue_last_seen_at :: time
  ue_authenticated_at :: time
  ue_idle_expires_at :: time
  ue_absolute_expires_at :: time
  ue_idle_timeout_seconds :: int
  ue_revoked_at :: "time option"
  ue_revocation_reason :: "string option"
  ue_device_name :: "string option"
  ue_source_ip :: "string option"
  ue_user_agent :: "string option"
  ue_trusted_until :: "time option"
  ue_mfa_pending :: bool
  ue_mfa_authenticated_at :: "time option"
  ue_authentication_methods :: "string list"

record refresh_token =
  rf_id :: uuid
  rf_organization_id :: uuid
  rf_user_id :: uuid
  rf_session_id :: uuid
  rf_token_hash :: string
  rf_expires_at :: time
  rf_used_at :: "time option"
  rf_revoked_at :: "time option"
  rf_replaced_by_token_id :: "uuid option"

text \<open>\<open>UserInvitation\<close> and \<open>PasswordResetToken\<close>: hashed, expiring, single-use.\<close>

record one_time_token =
  ot_id :: uuid
  ot_organization_id :: uuid
  ot_user_id :: uuid
  ot_created_by_user_id :: "uuid option"
  ot_token_hash :: string
  ot_expires_at :: time
  ot_consumed_at :: "time option"
  ot_revoked_at :: "time option"

text \<open>Second factors and the organization's sign-in policy, as far as break-glass access reads them.\<close>

datatype SsoPolicyMode = DISABLED | OPTIONAL | ENFORCED

record totp_factor =
  tf_user_id :: uuid
  tf_confirmed_at :: "time option"
  tf_disabled_at :: "time option"

record webauthn_credential =
  wc_user_id :: uuid
  wc_disabled_at :: "time option"

text \<open>An organization, as far as the session policy in its settings goes.\<close>

record organization =
  og_id :: uuid
  og_session_policy :: "(string \<times> int) list"

record access_db =
  ac_organizations :: "organization list"
  ac_sites :: "site list"
  ac_users :: "user list"
  ac_services :: "service_account list"
  ac_roles :: "auth_role list"
  ac_permissions :: "role_permission list"
  ac_grants :: "scoped_grant list"
  ac_tokens :: "api_token list"
  ac_assignments :: "site_assignment list"
  ac_sessions :: "user_session list"
  ac_refresh :: "refresh_token list"
  ac_invitations :: "one_time_token list"
  ac_resets :: "one_time_token list"
  ac_sso_policies :: "(uuid \<times> SsoPolicyMode) list"
  ac_totp :: "totp_factor list"
  ac_webauthn :: "webauthn_credential list"

subsection \<open>Rows and updates\<close>

definition the_user :: "access_db \<Rightarrow> uuid \<Rightarrow> user option" where
  "the_user db i = find (\<lambda>u. us_id u = i) (ac_users db)"

definition the_service :: "access_db \<Rightarrow> uuid \<Rightarrow> service_account option" where
  "the_service db i = find (\<lambda>s. sv_id s = i) (ac_services db)"

definition on_user :: "uuid \<Rightarrow> (user \<Rightarrow> user) \<Rightarrow> access_db \<Rightarrow> access_db" where
  "on_user i f db = db\<lparr>ac_users := update_where (\<lambda>u. us_id u = i) f (ac_users db)\<rparr>"

definition on_service :: "uuid \<Rightarrow> (service_account \<Rightarrow> service_account) \<Rightarrow> access_db \<Rightarrow> access_db" where
  "on_service i f db = db\<lparr>ac_services := update_where (\<lambda>s. sv_id s = i) f (ac_services db)\<rparr>"

definition bump_user :: "user \<Rightarrow> user" where
  "bump_user u = u\<lparr>us_auth_version := us_auth_version u + 1\<rparr>"

definition bump_service :: "service_account \<Rightarrow> service_account" where
  "bump_service s = s\<lparr>sv_auth_version := sv_auth_version s + 1\<rparr>"

text \<open>
  \<open>User.set_account_status\<close>.  The validator of \<open>is_active\<close> also writes the status, which the next
  statement overwrites.
\<close>

definition set_account_status :: "AccountStatus \<Rightarrow> time \<Rightarrow> user \<Rightarrow> user" where
  "set_account_status value now u =
     (let u = u\<lparr>us_is_active := (value = AccountStatus.ACTIVE), us_account_status := value\<rparr>
      in case value of
           AccountStatus.INVITED \<Rightarrow> u\<lparr>us_invited_at := Some now\<rparr>
         | AccountStatus.ACTIVE \<Rightarrow> u\<lparr>us_activated_at := Some (or_else (us_activated_at u) now)\<rparr>
         | AccountStatus.SUSPENDED \<Rightarrow> u\<lparr>us_suspended_at := Some now\<rparr>
         | AccountStatus.DEACTIVATED \<Rightarrow> u\<lparr>us_deactivated_at := Some now\<rparr>
         | AccountStatus.LOCKED \<Rightarrow> u)"

subsection \<open>User administration, \<^verbatim>\<open>services/user_lifecycle.py\<close>\<close>

definition active_admin :: "user \<Rightarrow> bool" where
  "active_admin u \<longleftrightarrow> us_role u = UserRole.ADMINISTRATOR \<and> us_account_status u = AccountStatus.ACTIVE \<and>
     us_is_active u"

definition active_admin_count :: "uuid \<Rightarrow> uuid option \<Rightarrow> access_db \<Rightarrow> nat" where
  "active_admin_count org exclude db =
     length (filter (\<lambda>u. us_organization_id u = org \<and> active_admin u \<and> Some (us_id u) \<noteq> exclude)
       (ac_users db))"

definition validate_site_ids :: "uuid \<Rightarrow> uuid list \<Rightarrow> access_db \<Rightarrow> string + unit" where
  "validate_site_ids org ids db =
     require (list_all (\<lambda>i. \<exists>s \<in> set (ac_sites db). si_organization_id s = org \<and> si_id s = i) ids)
       ''One or more sites do not belong to this organization''"

definition replace_site_assignments ::
  "user \<Rightarrow> uuid list \<Rightarrow> uuid \<Rightarrow> access_db \<Rightarrow> string + access_db" where
  "replace_site_assignments u site_ids actor db =
     res_bind (validate_site_ids (us_organization_id u) site_ids db) (\<lambda>_.
       Inr (db\<lparr>ac_assignments :=
         filter (\<lambda>a. ux_user_id a \<noteq> us_id u) (ac_assignments db) @
         map (\<lambda>i. \<lparr>ux_organization_id = us_organization_id u, ux_user_id = us_id u, ux_site_id = i,
                   ux_assigned_by_user_id = Some actor\<rparr>) (sort (remdups site_ids))\<rparr>))"

definition open_token :: "uuid \<Rightarrow> one_time_token \<Rightarrow> bool" where
  "open_token user t \<longleftrightarrow> ot_user_id t = user \<and> ot_consumed_at t = None \<and> ot_revoked_at t = None"

definition revoke_tokens :: "uuid \<Rightarrow> time \<Rightarrow> one_time_token list \<Rightarrow> one_time_token list" where
  "revoke_tokens user now = update_where (open_token user) (ot_revoked_at_update (\<lambda>_. Some now))"

definition local_login_allowed :: "user \<Rightarrow> bool" where
  "local_login_allowed u \<longleftrightarrow> us_authentication_source u = AuthenticationSource.LOCAL \<and>
     us_account_status u = AccountStatus.ACTIVE \<and> us_is_active u \<and> us_hashed_password u \<noteq> None"

subsection \<open>Properties\<close>

lemma set_account_status_kept [simp]:
  "us_id (set_account_status s now u) = us_id u"
  "us_organization_id (set_account_status s now u) = us_organization_id u"
  "us_role (set_account_status s now u) = us_role u"
  "us_site_access_mode (set_account_status s now u) = us_site_access_mode u"
  "us_auth_version (set_account_status s now u) = us_auth_version u"
  "us_authorization_migrated_at (set_account_status s now u) = us_authorization_migrated_at u"
  by (cases s; simp add: set_account_status_def)+

interpretation bump: row_update us_id bump_user
  by unfold_locales (simp add: bump_user_def)

interpretation bump_sv: row_update sv_id bump_service
  by unfold_locales (simp add: bump_service_def)

interpretation status: row_update us_id "set_account_status s now"
  by unfold_locales simp

end
