(* ===== verification/UserSessions.thy ===== *)
theory UserSessions
  imports Accounts
begin

text \<open>
  Server-side sessions, \<^verbatim>\<open>app/services/sessions.py\<close>: the organization's policy, idle and absolute
  expiry, revocation with the refresh-token family, the limit on concurrent sessions; and the
  rotation of refresh tokens in \<^verbatim>\<open>refresh_session\<close> of \<^verbatim>\<open>app/api/v1/auth.py\<close>, where a replayed
  token revokes its family.  The digests of secrets are arguments: the code compares stored and
  presented digests only.
\<close>

subsection \<open>Policy\<close>

record session_policy =
  sp_idle_timeout_hours :: int
  sp_absolute_lifetime_days :: int
  sp_privileged_window_minutes :: int
  sp_max_concurrent_sessions :: int
  sp_trusted_device_days :: int

definition SessionPolicy :: session_policy where
  "SessionPolicy = \<lparr>sp_idle_timeout_hours = 12, sp_absolute_lifetime_days = 30,
     sp_privileged_window_minutes = 15, sp_max_concurrent_sessions = 10, sp_trusted_device_days = 30\<rparr>"

definition session_policy :: "organization \<Rightarrow> session_policy" where
  "session_policy og =
     (let raw = map_of (og_session_policy og); d = SessionPolicy
      in \<lparr>sp_idle_timeout_hours = or_else (raw ''idle_timeout_hours'') (sp_idle_timeout_hours d),
          sp_absolute_lifetime_days =
            or_else (raw ''absolute_lifetime_days'') (sp_absolute_lifetime_days d),
          sp_privileged_window_minutes =
            or_else (raw ''privileged_window_minutes'') (sp_privileged_window_minutes d),
          sp_max_concurrent_sessions =
            or_else (raw ''max_concurrent_sessions'') (sp_max_concurrent_sessions d),
          sp_trusted_device_days = or_else (raw ''trusted_device_days'') (sp_trusted_device_days d)\<rparr>)"

definition policy_dict :: "session_policy \<Rightarrow> (string \<times> int) list" where
  "policy_dict p =
     [(''idle_timeout_hours'', sp_idle_timeout_hours p),
      (''absolute_lifetime_days'', sp_absolute_lifetime_days p),
      (''privileged_window_minutes'', sp_privileged_window_minutes p),
      (''max_concurrent_sessions'', sp_max_concurrent_sessions p),
      (''trusted_device_days'', sp_trusted_device_days p)]"

definition policy_keys :: "string list" where
  "policy_keys = map fst (policy_dict SessionPolicy)"

text \<open>
  \<open>update_session_policy\<close>: an unknown key makes the constructor call raise \<open>TypeError\<close>.
\<close>

definition update_session_policy ::
  "organization \<Rightarrow> (string \<times> int) list \<Rightarrow> (organization \<times> session_policy) option" where
  "update_session_policy og vals =
     (if \<not> list_all (\<lambda>(k, _). k \<in> set policy_keys) vals then None
      else
        (let merged = fold (\<lambda>(k, v). dict_set k v) vals (policy_dict (session_policy og));
             og' = og\<lparr>og_session_policy := merged\<rparr>
         in Some (og', session_policy og')))"

subsection \<open>One session\<close>

definition is_session_active :: "user_session \<Rightarrow> time \<Rightarrow> bool" where
  "is_session_active s now \<longleftrightarrow>
     ue_revoked_at s = None \<and> ue_idle_expires_at s > now \<and> ue_absolute_expires_at s > now"

definition touch_session :: "time \<Rightarrow> user_session \<Rightarrow> user_session" where
  "touch_session now s =
     s\<lparr>ue_last_seen_at := now,
       ue_idle_expires_at := min (now + seconds (ue_idle_timeout_seconds s)) (ue_absolute_expires_at s)\<rparr>"

definition on_session :: "uuid \<Rightarrow> (user_session \<Rightarrow> user_session) \<Rightarrow> access_db \<Rightarrow> access_db" where
  "on_session i f db = db\<lparr>ac_sessions := update_where (\<lambda>s. ue_id s = i) f (ac_sessions db)\<rparr>"

definition mark_revoked :: "string \<Rightarrow> time \<Rightarrow> user_session \<Rightarrow> user_session" where
  "mark_revoked reason now s =
     (if ue_revoked_at s = None
      then s\<lparr>ue_revoked_at := Some now, ue_revocation_reason := Some (take 255 reason)\<rparr> else s)"

definition revoke_family :: "uuid \<Rightarrow> time \<Rightarrow> refresh_token list \<Rightarrow> refresh_token list" where
  "revoke_family session now =
     update_where (\<lambda>t. rf_session_id t = session \<and> rf_revoked_at t = None)
       (rf_revoked_at_update (\<lambda>_. Some now))"

definition revoke_session :: "user_session \<Rightarrow> string \<Rightarrow> time \<Rightarrow> access_db \<Rightarrow> access_db" where
  "revoke_session s reason now db =
     (on_session (ue_id s) (mark_revoked reason now) db)
       \<lparr>ac_refresh := revoke_family (ue_id s) now (ac_refresh db)\<rparr>"

definition revoke_all :: "user_session list \<Rightarrow> string \<Rightarrow> time \<Rightarrow> access_db \<Rightarrow> access_db" where
  "revoke_all ss reason now = fold (\<lambda>s. revoke_session s reason now) ss"

definition revoke_user_sessions ::
  "uuid \<Rightarrow> string \<Rightarrow> uuid option \<Rightarrow> time \<Rightarrow> access_db \<Rightarrow> access_db \<times> nat" where
  "revoke_user_sessions user reason exclude now db =
     (let rows = filter (\<lambda>s. ue_user_id s = user \<and> ue_revoked_at s = None \<and> Some (ue_id s) \<noteq> exclude)
                   (ac_sessions db)
      in (revoke_all rows reason now db, length rows))"

subsection \<open>Opening a session\<close>

record session_request =
  sq_source_ip :: "string option"
  sq_user_agent :: "string option"
  sq_device_name :: "string option"
  sq_trust_device :: bool
  sq_mfa_pending :: bool
  sq_authentication_methods :: "string list option"
  sq_mfa_authenticated :: bool

text \<open>\<open>x or None\<close> on a text.\<close>

definition nonempty :: "string \<Rightarrow> string option" where
  "nonempty s = (if s = [] then None else Some s)"

definition new_session :: "uuid \<Rightarrow> user \<Rightarrow> session_policy \<Rightarrow> session_request \<Rightarrow> time \<Rightarrow> user_session" where
  "new_session i u policy rq now =
     (let absolute = now + days (sp_absolute_lifetime_days policy)
      in \<lparr>ue_id = i, ue_organization_id = us_organization_id u, ue_user_id = us_id u,
          ue_auth_version = us_auth_version u, ue_last_seen_at = now, ue_authenticated_at = now,
          ue_idle_expires_at = min (now + hours (sp_idle_timeout_hours policy)) absolute,
          ue_absolute_expires_at = absolute,
          ue_idle_timeout_seconds = sp_idle_timeout_hours policy * 60 * 60,
          ue_revoked_at = None, ue_revocation_reason = None,
          ue_device_name = nonempty (take 255 (strip (or_else (sq_device_name rq) []))),
          ue_source_ip = sq_source_ip rq,
          ue_user_agent = nonempty (take 1024 (or_else (sq_user_agent rq) [])),
          ue_trusted_until =
            (if sq_trust_device rq then Some (now + days (sp_trusted_device_days policy)) else None),
          ue_mfa_pending = sq_mfa_pending rq,
          ue_mfa_authenticated_at = (if sq_mfa_authenticated rq then Some now else None),
          ue_authentication_methods =
            (case sq_authentication_methods rq of
               None \<Rightarrow> [''password''] | Some [] \<Rightarrow> [''password''] | Some ms \<Rightarrow> ms)\<rparr>)"

definition active_sessions :: "uuid \<Rightarrow> time \<Rightarrow> access_db \<Rightarrow> user_session list" where
  "active_sessions user now db =
     filter (\<lambda>s. ue_user_id s = user \<and> is_session_active s now) (ac_sessions db)"

definition new_refresh :: "uuid \<Rightarrow> user_session \<Rightarrow> string \<Rightarrow> refresh_token" where
  "new_refresh i s token_hash =
     \<lparr>rf_id = i, rf_organization_id = ue_organization_id s, rf_user_id = ue_user_id s,
      rf_session_id = ue_id s, rf_token_hash = token_hash, rf_expires_at = ue_absolute_expires_at s,
      rf_used_at = None, rf_revoked_at = None, rf_replaced_by_token_id = None\<rparr>"

text \<open>
  \<open>active[:overflow]\<close> of the rows ordered by \<open>last_seen_at\<close>.  The ids of the two new rows and the
  digest of the generated secret are arguments.
\<close>

definition create_session ::
  "uuid \<Rightarrow> uuid \<Rightarrow> string \<Rightarrow> user \<Rightarrow> organization \<Rightarrow> session_request \<Rightarrow> time \<Rightarrow> access_db \<Rightarrow>
   access_db \<times> user_session" where
  "create_session sid rid token_hash u og rq now db =
     (let policy = session_policy og;
          active = sort_key ue_last_seen_at (active_sessions (us_id u) now db);
          overflow = max 0 (int (length active) - sp_max_concurrent_sessions policy + 1);
          db1 = revoke_all (take (nat overflow) active) ''concurrent session limit'' now db;
          s = new_session sid u policy rq now
      in (db1\<lparr>ac_sessions := ac_sessions db1 @ [s],
             ac_refresh := ac_refresh db1 @ [new_refresh rid s token_hash]\<rparr>, s))"

subsection \<open>Rotation of refresh tokens\<close>

datatype refresh_outcome = Refreshed uuid | InvalidRefresh

definition session_invalid :: "refresh_token \<Rightarrow> user_session \<Rightarrow> user \<Rightarrow> time \<Rightarrow> bool" where
  "session_invalid stored s u now \<longleftrightarrow>
     us_account_status u \<noteq> AccountStatus.ACTIVE \<or> \<not> us_is_active u
     \<or> us_organization_id u \<noteq> rf_organization_id stored \<or> ue_user_id s \<noteq> rf_user_id stored
     \<or> ue_organization_id s \<noteq> rf_organization_id stored \<or> ue_auth_version s \<noteq> us_auth_version u
     \<or> ue_mfa_pending s \<or> \<not> is_session_active s now"

definition replayed :: "refresh_token \<Rightarrow> bool" where
  "replayed t \<longleftrightarrow> rf_used_at t \<noteq> None \<or> rf_revoked_at t \<noteq> None"

definition the_session :: "access_db \<Rightarrow> uuid \<Rightarrow> user_session option" where
  "the_session db i = find (\<lambda>s. ue_id s = i) (ac_sessions db)"

definition rotate_refresh :: "uuid \<Rightarrow> string \<Rightarrow> refresh_token \<Rightarrow> user_session \<Rightarrow> time \<Rightarrow> access_db \<Rightarrow> access_db" where
  "rotate_refresh rid new_hash stored s now db =
     (let db1 = on_session (ue_id s) (touch_session now) db;
          used = (\<lambda>t. t\<lparr>rf_used_at := Some now, rf_replaced_by_token_id := Some rid\<rparr>)
      in db1\<lparr>ac_refresh :=
             update_where (\<lambda>t. rf_id t = rf_id stored) used (ac_refresh db1) @ [new_refresh rid s new_hash]\<rparr>)"

text \<open>
  \<open>refresh_session\<close> on the digest of the presented cookie (\<open>None\<close>: no cookie).  A refusal of a
  known token commits the revocation of its family before it raises.
\<close>

definition refresh_session ::
  "string option \<Rightarrow> uuid \<Rightarrow> string \<Rightarrow> time \<Rightarrow> access_db \<Rightarrow> access_db \<times> refresh_outcome" where
  "refresh_session presented rid new_hash now db =
     (case presented of
        None \<Rightarrow> (db, InvalidRefresh)
      | Some h \<Rightarrow>
          (case find (\<lambda>t. rf_token_hash t = h) (ac_refresh db) of
             None \<Rightarrow> (db, InvalidRefresh)
           | Some stored \<Rightarrow>
               (case the_session db (rf_session_id stored) of
                  None \<Rightarrow> (db, InvalidRefresh)
                | Some s \<Rightarrow>
                    (let refuse = (revoke_session s
                           (if replayed stored then ''refresh token reuse detected'' else ''session expired'')
                           now db, InvalidRefresh)
                     in case the_user db (rf_user_id stored) of
                          None \<Rightarrow> refuse
                        | Some u \<Rightarrow>
                            if replayed stored \<or> rf_expires_at stored \<le> now \<or> session_invalid stored s u now
                            then refuse
                            else (rotate_refresh rid new_hash stored s now db, Refreshed (ue_id s))))))"

text \<open>\<open>logout_session\<close>, \<open>logout_all_sessions\<close>, \<open>revoke_my_session\<close>.\<close>

definition logout_session :: "user_session option \<Rightarrow> time \<Rightarrow> access_db \<Rightarrow> access_db" where
  "logout_session s now db =
     (case s of None \<Rightarrow> db | Some s \<Rightarrow> revoke_session s ''user logout'' now db)"

definition logout_all_sessions :: "uuid \<Rightarrow> time \<Rightarrow> access_db \<Rightarrow> access_db" where
  "logout_all_sessions user now db =
     fst (revoke_user_sessions user ''user requested logout from all devices'' None now db)"

definition revoke_my_session :: "uuid \<Rightarrow> uuid \<Rightarrow> uuid \<Rightarrow> time \<Rightarrow> access_db \<Rightarrow> http_error + access_db" where
  "revoke_my_session user org i now db =
     (case find (\<lambda>s. ue_id s = i \<and> ue_user_id s = user \<and> ue_organization_id s = org) (ac_sessions db) of
        None \<Rightarrow> Inl (Http 404 ''Session not found'')
      | Some s \<Rightarrow> Inr (revoke_session s ''user revoked device session'' now db))"

end
