(* ===== verification/Access.thy ===== *)
theory Access
  imports UserSessions IpAddr
begin

text \<open>
  Permission evaluation: \<^verbatim>\<open>app/services/authorization.py\<close> and \<^verbatim>\<open>app/auth/site_scope.py\<close>.  A set
  result is a list in the order of the rows, possibly with repetitions; the callers only test
  membership.  A SQL predicate on a site column is a function of the column's value, \<open>None\<close> being
  \<open>NULL\<close>, on which the comparison is not true.
\<close>

datatype principal = UserP user | ServiceP service_account

fun principal_org :: "principal \<Rightarrow> uuid" where
  "principal_org (UserP u) = us_organization_id u"
| "principal_org (ServiceP s) = sv_organization_id s"

fun principal_id :: "principal \<Rightarrow> uuid" where
  "principal_id (UserP u) = us_id u"
| "principal_id (ServiceP s) = sv_id s"

fun principal_version :: "principal \<Rightarrow> int" where
  "principal_version (UserP u) = us_auth_version u"
| "principal_version (ServiceP s) = sv_auth_version s"

fun principal_type :: "principal \<Rightarrow> PrincipalType" where
  "principal_type (UserP u) = PrincipalType.USER"
| "principal_type (ServiceP s) = PrincipalType.SERVICE_ACCOUNT"

fun user_actor_id :: "principal \<Rightarrow> uuid option" where
  "user_actor_id (UserP u) = Some (us_id u)"
| "user_actor_id (ServiceP s) = None"

fun principal_filter :: "principal \<Rightarrow> scoped_grant \<Rightarrow> bool" where
  "principal_filter (UserP u) g \<longleftrightarrow> gr_user_id g = Some (us_id u)"
| "principal_filter (ServiceP s) g \<longleftrightarrow> gr_service_account_id g = Some (sv_id s)"

subsection \<open>Built-in roles\<close>

text \<open>\<open>value.replace("_", " ").title()\<close>: a letter after a letter is lower case, another is upper case.\<close>

fun title_case :: "bool \<Rightarrow> string \<Rightarrow> string" where
  "title_case inside [] = []"
| "title_case inside (c # cs) =
     (if is_upper c \<or> is_lower c
      then (if inside then lower_char c else upper_char c) # title_case True cs
      else c # title_case False cs)"

definition role_title :: "string \<Rightarrow> string" where
  "role_title v = title_case False (map (\<lambda>c. if c = CHR ''_'' then CHR '' '' else c) v)"

definition builtin_role :: "uuid \<Rightarrow> uuid \<Rightarrow> UserRole \<Rightarrow> auth_role" where
  "builtin_role i org r =
     \<lparr>ar_id = i, ar_organization_id = org, ar_key = user_role_value r,
      ar_name = role_title (user_role_value r),
      ar_description = Some (''Built-in compatibility role: '' @ user_role_value r),
      ar_is_system = True, ar_compatibility_role = Some r\<rparr>"

definition compatibility_row :: "uuid \<Rightarrow> access_db \<Rightarrow> UserRole \<Rightarrow> auth_role option" where
  "compatibility_row org db r =
     find (\<lambda>a. ar_organization_id a = org \<and> ar_compatibility_role a = Some r) (rev (ac_roles db))"

definition reset_permissions :: "uuid \<Rightarrow> auth_role \<Rightarrow> UserRole \<Rightarrow> access_db \<Rightarrow> access_db" where
  "reset_permissions org a r db =
     (let expected = BUILTIN_ROLE_PERMISSIONS r;
          current = map rm_permission_key (filter (\<lambda>m. rm_role_id m = ar_id a) (ac_permissions db))
      in db\<lparr>ac_permissions :=
           filter (\<lambda>m. rm_role_id m = ar_id a \<longrightarrow> rm_permission_key m \<in> set expected) (ac_permissions db) @
           map (\<lambda>k. \<lparr>rm_organization_id = org, rm_role_id = ar_id a, rm_permission_key = k\<rparr>)
             (sort (filter (\<lambda>k. k \<notin> set current) expected))\<rparr>)"

text \<open>One round of the loop over \<open>UserRole\<close>; \<open>gen\<close> draws the id of a new row.\<close>

definition ensure_builtin_role :: "(UserRole \<Rightarrow> uuid) \<Rightarrow> uuid \<Rightarrow> UserRole \<Rightarrow> access_db \<Rightarrow> access_db" where
  "ensure_builtin_role gen org r db =
     (case compatibility_row org db r of
        Some a \<Rightarrow> reset_permissions org a r db
      | None \<Rightarrow>
          (let a = builtin_role (gen r) org r
           in reset_permissions org a r (db\<lparr>ac_roles := ac_roles db @ [a]\<rparr>)))"

definition ensure_builtin_roles :: "(UserRole \<Rightarrow> uuid) \<Rightarrow> uuid \<Rightarrow> access_db \<Rightarrow> access_db" where
  "ensure_builtin_roles gen org = fold (ensure_builtin_role gen org) user_role_members"

subsection \<open>Effective permissions\<close>

text \<open>The join of role permissions, roles and grants.\<close>

definition permission_rows :: "access_db \<Rightarrow> principal \<Rightarrow> (string \<times> GrantScopeType \<times> uuid) list" where
  "permission_rows db p =
     [(rm_permission_key m, gr_scope_type g, gr_scope_id g).
       m \<leftarrow> ac_permissions db, rm_organization_id m = principal_org p,
       a \<leftarrow> ac_roles db, ar_id a = rm_role_id m \<and> ar_organization_id a = principal_org p,
       g \<leftarrow> ac_grants db, gr_role_id g = ar_id a \<and> gr_organization_id g = principal_org p \<and>
         principal_filter p g]"

text \<open>
  The test of one row: a grant counts for a permission that its kind of scope may carry, at any
  scope when none is asked for, everywhere when it is organization-wide, else at its own scope.
\<close>

definition row_counts :: "GrantScopeType option \<Rightarrow> uuid option \<Rightarrow> string \<times> GrantScopeType \<times> uuid \<Rightarrow> bool" where
  "row_counts scope_type scope_id row =
     (case row of (key, grant_scope, grant_scope_id) \<Rightarrow>
        (case PERMISSION_BY_KEY key of
           None \<Rightarrow> False
         | Some d \<Rightarrow> grant_scope_type_value grant_scope \<in> set (pm_scopes d) \<and>
             (scope_type = None \<or> grant_scope = GrantScopeType.ORGANIZATION
              \<or> (scope_type = Some grant_scope \<and> scope_id = Some grant_scope_id))))"

fun unmigrated :: "principal \<Rightarrow> bool" where
  "unmigrated (UserP u) \<longleftrightarrow> us_authorization_migrated_at u = None"
| "unmigrated (ServiceP s) \<longleftrightarrow> False"

fun legacy_permissions :: "principal \<Rightarrow> string list" where
  "legacy_permissions (UserP u) = BUILTIN_ROLE_PERMISSIONS (us_role u)"
| "legacy_permissions (ServiceP s) = []"

definition effective_permissions ::
  "access_db \<Rightarrow> principal \<Rightarrow> GrantScopeType option \<Rightarrow> uuid option \<Rightarrow> string list" where
  "effective_permissions db p scope_type scope_id =
     (let rows = permission_rows db p
      in if rows = [] \<and> unmigrated p then legacy_permissions p
         else map fst (filter (row_counts scope_type scope_id) rows))"

definition has_permission ::
  "access_db \<Rightarrow> principal \<Rightarrow> string \<Rightarrow> GrantScopeType option \<Rightarrow> uuid option \<Rightarrow> string + bool" where
  "has_permission db p key scope_type scope_id =
     res_bind (validate_permission_keys [key]) (\<lambda>_.
       Inr (key \<in> set (effective_permissions db p scope_type scope_id)))"

subsection \<open>Site scope\<close>

definition legacy_denies :: "user \<Rightarrow> string option \<Rightarrow> bool" where
  "legacy_denies u pk \<longleftrightarrow> (case pk of None \<Rightarrow> False | Some k \<Rightarrow> k \<notin> set (BUILTIN_ROLE_PERMISSIONS (us_role u)))"

fun has_all_site_access :: "principal \<Rightarrow> bool" where
  "has_all_site_access (UserP u) \<longleftrightarrow> us_authorization_migrated_at u = None \<and>
     (us_role u = UserRole.ADMINISTRATOR \<or> us_site_access_mode u = SiteAccessMode.ALL)"
| "has_all_site_access (ServiceP s) \<longleftrightarrow> False"

definition assigned :: "access_db \<Rightarrow> user \<Rightarrow> uuid \<Rightarrow> bool" where
  "assigned db u s \<longleftrightarrow> (\<exists>a \<in> set (ac_assignments db).
     ux_organization_id a = us_organization_id u \<and> ux_user_id a = us_id u \<and> ux_site_id a = s)"

text \<open>The \<open>exists\<close> subqueries: a grant of the principal at one scope whose role carries the permission.\<close>

definition carries :: "access_db \<Rightarrow> principal \<Rightarrow> string option \<Rightarrow> scoped_grant \<Rightarrow> bool" where
  "carries db p pk g =
     (case pk of None \<Rightarrow> True
      | Some k \<Rightarrow> \<exists>m \<in> set (ac_permissions db). rm_role_id m = gr_role_id g \<and>
          rm_organization_id m = principal_org p \<and> rm_permission_key m = k)"

definition granted :: "access_db \<Rightarrow> principal \<Rightarrow> string option \<Rightarrow> GrantScopeType \<Rightarrow> uuid \<Rightarrow> bool" where
  "granted db p pk scope_type scope_id \<longleftrightarrow> (\<exists>g \<in> set (ac_grants db).
     gr_organization_id g = principal_org p \<and> principal_filter p g \<and> gr_scope_type g = scope_type \<and>
     gr_scope_id g = scope_id \<and> carries db p pk g)"

definition unknown_key :: "string \<Rightarrow> string" where
  "unknown_key k = ''Unknown permission key: '' @ k"

definition at_site :: "(uuid \<Rightarrow> bool) \<Rightarrow> uuid option \<Rightarrow> bool" where
  "at_site P v = (case v of None \<Rightarrow> False | Some s \<Rightarrow> P s)"

definition legacy_clause :: "access_db \<Rightarrow> user \<Rightarrow> string option \<Rightarrow> uuid option \<Rightarrow> bool" where
  "legacy_clause db u pk v =
     (if legacy_denies u pk then False
      else if us_role u = UserRole.ADMINISTRATOR \<or> us_site_access_mode u = SiteAccessMode.ALL then True
      else if us_site_access_mode u \<noteq> SiteAccessMode.ASSIGNED then False
      else at_site (assigned db u) v)"

definition site_scope_clause ::
  "access_db \<Rightarrow> principal \<Rightarrow> string option \<Rightarrow> string + (uuid option \<Rightarrow> bool)" where
  "site_scope_clause db p pk =
     (case (p, unmigrated p) of
        (UserP u, True) \<Rightarrow> Inr (legacy_clause db u pk)
      | _ \<Rightarrow>
          (let organization_grant = granted db p pk GrantScopeType.ORGANIZATION (principal_org p);
               site_grant = at_site (granted db p pk GrantScopeType.SITE)
           in case pk of
                None \<Rightarrow> Inr (\<lambda>v. organization_grant \<or> site_grant v)
              | Some k \<Rightarrow>
                  (case PERMISSION_BY_KEY k of
                     None \<Rightarrow> Inl (unknown_key k)
                   | Some d \<Rightarrow>
                       if SITE_SCOPE \<notin> set (pm_scopes d) then Inr (\<lambda>v. organization_grant)
                       else Inr (\<lambda>v. organization_grant \<or> site_grant v))))"

definition optional_site_scope_clause ::
  "access_db \<Rightarrow> principal \<Rightarrow> string option \<Rightarrow> string + (uuid option \<Rightarrow> bool)" where
  "optional_site_scope_clause db p pk =
     (case pk of
        Some k \<Rightarrow> site_scope_clause db p (Some k)
      | None \<Rightarrow>
          if unmigrated p \<and> has_all_site_access p then Inr (\<lambda>v. True)
          else res_bind (site_scope_clause db p None) (\<lambda>c. Inr (\<lambda>v. v = None \<or> c v)))"

definition site_in :: "access_db \<Rightarrow> uuid \<Rightarrow> uuid \<Rightarrow> bool" where
  "site_in db org s \<longleftrightarrow> (\<exists>x \<in> set (ac_sites db). si_id x = s \<and> si_organization_id x = org)"

definition can_access_site :: "access_db \<Rightarrow> principal \<Rightarrow> uuid \<Rightarrow> string option \<Rightarrow> string + bool" where
  "can_access_site db p s pk =
     (case (p, unmigrated p) of
        (UserP u, True) \<Rightarrow>
          Inr (\<not> legacy_denies u pk \<and> site_in db (us_organization_id u) s \<and>
               (has_all_site_access p \<or> assigned db u s))
      | _ \<Rightarrow> res_bind (site_scope_clause db p pk) (\<lambda>c. Inr (site_in db (principal_org p) s \<and> c (Some s))))"

text \<open>\<open>None\<close> is access to all sites.\<close>

definition accessible_site_ids ::
  "access_db \<Rightarrow> principal \<Rightarrow> string option \<Rightarrow> string + uuid list option" where
  "accessible_site_ids db p pk =
     (case (p, unmigrated p) of
        (UserP u, True) \<Rightarrow>
          Inr (if legacy_denies u pk then Some []
               else if has_all_site_access p then None
               else Some (map ux_site_id (filter (\<lambda>a. ux_organization_id a = us_organization_id u \<and>
                      ux_user_id a = us_id u) (ac_assignments db))))
      | _ \<Rightarrow>
          (let org = principal_org p;
               organization_wide = granted db p pk GrantScopeType.ORGANIZATION org;
               site_grants = filter (\<lambda>g. gr_organization_id g = org \<and> principal_filter p g \<and>
                 gr_scope_type g = GrantScopeType.SITE \<and> site_in db org (gr_scope_id g) \<and>
                 carries db p pk g) (ac_grants db);
               answer = (\<lambda>gs. Inr (if organization_wide then None else Some (map gr_scope_id gs)))
           in case pk of
                None \<Rightarrow> answer site_grants
              | Some k \<Rightarrow>
                  (case PERMISSION_BY_KEY k of
                     None \<Rightarrow> Inl (unknown_key k)
                   | Some d \<Rightarrow> answer (if SITE_SCOPE \<notin> set (pm_scopes d) then [] else site_grants))))"

text \<open>The unknown-key \<open>ValueError\<close> is a server error of the request.\<close>

definition require_site_access ::
  "access_db \<Rightarrow> principal \<Rightarrow> uuid \<Rightarrow> string \<Rightarrow> string option \<Rightarrow> http_error + unit" where
  "require_site_access db p s not_found pk =
     (case can_access_site db p s pk of
        Inl e \<Rightarrow> Inl (Http 500 e)
      | Inr b \<Rightarrow> require b (Http 404 not_found))"

definition get_accessible_site :: "access_db \<Rightarrow> principal \<Rightarrow> uuid \<Rightarrow> string option \<Rightarrow> http_error + site" where
  "get_accessible_site db p s pk =
     res_bind (require_site_access db p s ''Site not found'' pk) (\<lambda>_.
       case find (\<lambda>x. si_id x = s) (ac_sites db) of
         None \<Rightarrow> Inl (Http 404 ''Site not found'')
       | Some x \<Rightarrow> Inr x)"

end
