(* ===== verification/Grants.thy ===== *)
theory Grants
  imports Access
begin

text \<open>
  Roles and scoped grants: the synchronization of grants with the retained role and site fields
  (\<^verbatim>\<open>app/services/authorization.py\<close>), and the handlers of \<^verbatim>\<open>app/api/v1/authorization.py\<close> that
  change roles, grants and service accounts.  A handler returns the error it raises or the new
  state; the transaction of a request that raises is rolled back.  \<open>record_audit\<close> is left out.
  The ids of new rows are arguments.
\<close>

record access_env =
  en_now :: time
  en_roles :: "UserRole \<Rightarrow> uuid"
  en_grants :: "nat \<Rightarrow> uuid"
  en_fresh :: uuid

subsection \<open>Synchronization\<close>

definition compatibility_grant :: "user \<Rightarrow> uuid \<Rightarrow> uuid option \<Rightarrow> uuid \<Rightarrow> GrantScopeType \<times> uuid \<Rightarrow> scoped_grant" where
  "compatibility_grant u role creator i scope =
     \<lparr>gr_id = i, gr_organization_id = us_organization_id u, gr_principal_type = PrincipalType.USER,
      gr_user_id = Some (us_id u), gr_service_account_id = None, gr_role_id = role,
      gr_scope_type = fst scope, gr_scope_id = snd scope, gr_created_by_user_id = creator\<rparr>"

definition compatibility_scopes :: "user \<Rightarrow> access_db \<Rightarrow> (GrantScopeType \<times> uuid) list" where
  "compatibility_scopes u db =
     (if us_role u = UserRole.ADMINISTRATOR \<or> us_site_access_mode u = SiteAccessMode.ALL
      then [(GrantScopeType.ORGANIZATION, us_organization_id u)]
      else map (\<lambda>a. (GrantScopeType.SITE, ux_site_id a))
             (filter (\<lambda>a. ux_organization_id a = us_organization_id u \<and> ux_user_id a = us_id u)
               (ac_assignments db)))"

text \<open>\<open>roles[role].id\<close>; the six roles are there after \<open>ensure_builtin_roles\<close>.\<close>

definition role_id :: "uuid \<Rightarrow> access_db \<Rightarrow> UserRole \<Rightarrow> uuid" where
  "role_id org db r = (case compatibility_row org db r of Some a \<Rightarrow> ar_id a | None \<Rightarrow> 0)"

definition sync_user_compatibility_grants ::
  "access_env \<Rightarrow> user \<Rightarrow> uuid option \<Rightarrow> access_db \<Rightarrow> access_db" where
  "sync_user_compatibility_grants env u creator db =
     (let org = us_organization_id u;
          db1 = ensure_builtin_roles (en_roles env) org db;
          ids = map (role_id org db1) user_role_members;
          kept = filter (\<lambda>g. \<not> (gr_user_id g = Some (us_id u) \<and> gr_role_id g \<in> set ids)) (ac_grants db1);
          scopes = compatibility_scopes u db1;
          made = map (\<lambda>(i, scope). compatibility_grant u (role_id org db1 (us_role u)) creator (en_grants env i) scope)
                   (enumerate 0 scopes)
      in on_user (us_id u) (us_authorization_migrated_at_update (\<lambda>_. Some (en_now env)))
           (db1\<lparr>ac_grants := kept @ made\<rparr>))"

text \<open>Python's \<open>max\<close> with a key: the first of the greatest.\<close>

fun max_role :: "UserRole list \<Rightarrow> UserRole \<Rightarrow> UserRole" where
  "max_role [] best = best"
| "max_role (r # rs) best = max_role rs (if ROLE_PRIORITY r > ROLE_PRIORITY best then r else best)"

definition primary_role :: "UserRole list \<Rightarrow> UserRole" where
  "primary_role rs = (case rs of [] \<Rightarrow> UserRole.VIEWER | r # rest \<Rightarrow> max_role rest r)"

text \<open>The grants of a principal that carry a compatibility role: role, scope type, scope id.\<close>

definition compatibility_rows :: "access_db \<Rightarrow> principal \<Rightarrow> (UserRole \<times> GrantScopeType \<times> uuid) list" where
  "compatibility_rows db p =
     [(r, gr_scope_type g, gr_scope_id g).
       a \<leftarrow> ac_roles db, g \<leftarrow> ac_grants db,
       gr_role_id g = ar_id a \<and> gr_organization_id g = principal_org p \<and> principal_filter p g,
       r \<leftarrow> (case ar_compatibility_role a of None \<Rightarrow> [] | Some r \<Rightarrow> [r])]"

definition synced_fields :: "access_db \<Rightarrow> time \<Rightarrow> user \<Rightarrow> user" where
  "synced_fields db now u =
     (let rows = compatibility_rows db (UserP u);
          organization_wide = list_ex (\<lambda>(_, scope_type, _). scope_type = GrantScopeType.ORGANIZATION) rows
      in u\<lparr>us_role := primary_role (map fst rows),
           us_site_access_mode := (if organization_wide then SiteAccessMode.ALL else SiteAccessMode.ASSIGNED),
           us_authorization_migrated_at := Some now\<rparr>)"

definition synced_assignments :: "access_db \<Rightarrow> user \<Rightarrow> site_assignment list" where
  "synced_assignments db u =
     (let rows = compatibility_rows db (UserP u);
          organization_wide = list_ex (\<lambda>(_, scope_type, _). scope_type = GrantScopeType.ORGANIZATION) rows;
          site_ids = map (\<lambda>(_, _, i). i) (filter (\<lambda>(_, scope_type, _). scope_type = GrantScopeType.SITE) rows)
      in filter (\<lambda>a. ux_user_id a \<noteq> us_id u) (ac_assignments db) @
         (if organization_wide then []
          else map (\<lambda>i. \<lparr>ux_organization_id = us_organization_id u, ux_user_id = us_id u, ux_site_id = i,
                         ux_assigned_by_user_id = None\<rparr>)
                 (sort (remdups (filter (site_in db (us_organization_id u)) site_ids)))))"

definition sync_user_compatibility_fields :: "time \<Rightarrow> user \<Rightarrow> access_db \<Rightarrow> access_db" where
  "sync_user_compatibility_fields now u db =
     (on_user (us_id u) (synced_fields db now) db)\<lparr>ac_assignments := synced_assignments db u\<rparr>"

definition sync_service_account_primary_role :: "service_account \<Rightarrow> access_db \<Rightarrow> access_db" where
  "sync_service_account_primary_role s db =
     on_service (sv_id s)
       (sv_primary_role_update (\<lambda>_. primary_role (map fst (compatibility_rows db (ServiceP s))))) db"

subsection \<open>Roles\<close>

definition owned_role :: "uuid \<Rightarrow> uuid \<Rightarrow> access_db \<Rightarrow> http_error + auth_role" where
  "owned_role org i db =
     (case find (\<lambda>a. ar_id a = i \<and> ar_organization_id a = org) (ac_roles db) of
        None \<Rightarrow> Inl (Http 404 ''Role not found'')
      | Some a \<Rightarrow> Inr a)"

definition replace_permissions :: "auth_role \<Rightarrow> string list \<Rightarrow> access_db \<Rightarrow> http_error + access_db" where
  "replace_permissions a ks db =
     (case validate_permission_keys ks of
        Inl e \<Rightarrow> Inl (Http 422 e)
      | Inr _ \<Rightarrow>
          Inr (db\<lparr>ac_permissions :=
            filter (\<lambda>m. rm_role_id m \<noteq> ar_id a) (ac_permissions db) @
            map (\<lambda>k. \<lparr>rm_organization_id = ar_organization_id a, rm_role_id = ar_id a, rm_permission_key = k\<rparr>)
              (sort (remdups ks))\<rparr>))"

definition granted_users :: "scoped_grant list \<Rightarrow> uuid list" where
  "granted_users gs = List.map_filter gr_user_id gs"

definition granted_services :: "scoped_grant list \<Rightarrow> uuid list" where
  "granted_services gs = List.map_filter gr_service_account_id gs"

definition invalidate_user :: "string \<Rightarrow> time \<Rightarrow> user \<Rightarrow> access_db \<Rightarrow> access_db" where
  "invalidate_user reason now u db =
     fst (revoke_user_sessions (us_id u) reason None now (on_user (us_id u) bump_user db))"

definition invalidate_role_principals :: "time \<Rightarrow> uuid \<Rightarrow> access_db \<Rightarrow> access_db" where
  "invalidate_role_principals now role db =
     (let grants = filter (\<lambda>g. gr_role_id g = role) (ac_grants db);
          users = filter (\<lambda>u. us_id u \<in> set (granted_users grants)) (ac_users db);
          services = filter (\<lambda>s. sv_id s \<in> set (granted_services grants)) (ac_services db)
      in fold (\<lambda>s. on_service (sv_id s) bump_service) services
           (fold (invalidate_user ''authorization role changed'' now) users db))"

record role_create =
  kc_key :: string
  kc_name :: string
  kc_description :: "string option"
  kc_permission_keys :: "string list"

definition create_role :: "access_env \<Rightarrow> principal \<Rightarrow> role_create \<Rightarrow> access_db \<Rightarrow> http_error + access_db" where
  "create_role env actor rq db =
     (let org = principal_org actor
      in if list_ex (\<lambda>a. ar_organization_id a = org \<and> (ar_key a = kc_key rq \<or> ar_name a = strip (kc_name rq)))
              (ac_roles db)
         then Inl (Http 409 ''A role with that key or name already exists'')
         else
           (let a = \<lparr>ar_id = en_fresh env, ar_organization_id = org, ar_key = kc_key rq,
                     ar_name = strip (kc_name rq), ar_description = kc_description rq,
                     ar_is_system = False, ar_compatibility_role = None\<rparr>
            in replace_permissions a (kc_permission_keys rq) (db\<lparr>ac_roles := ac_roles db @ [a]\<rparr>)))"

text \<open>The optional fields of \<open>AuthorizationRoleUpdate\<close>; a description may be set to null.\<close>

record role_update =
  ku_name :: "string option"
  ku_description :: "string option option"
  ku_permission_keys :: "string list option"

definition renamed_role :: "role_update \<Rightarrow> auth_role \<Rightarrow> auth_role" where
  "renamed_role rq a =
     a\<lparr>ar_name := (case ku_name rq of None \<Rightarrow> ar_name a | Some n \<Rightarrow> strip n),
       ar_description := (case ku_description rq of None \<Rightarrow> ar_description a | Some d \<Rightarrow> d)\<rparr>"

definition name_taken :: "uuid \<Rightarrow> string \<Rightarrow> uuid \<Rightarrow> access_db \<Rightarrow> bool" where
  "name_taken org name i db =
     list_ex (\<lambda>a. ar_organization_id a = org \<and> ar_name a = name \<and> ar_id a \<noteq> i) (ac_roles db)"

definition update_role ::
  "access_env \<Rightarrow> principal \<Rightarrow> uuid \<Rightarrow> role_update \<Rightarrow> access_db \<Rightarrow> http_error + access_db" where
  "update_role env actor i rq db =
     (let org = principal_org actor
      in res_bind (owned_role org i db) (\<lambda>a.
           if ar_is_system a then Inl (Http 409 ''Built-in roles are code-defined and immutable'')
           else if (case ku_name rq of None \<Rightarrow> False | Some n \<Rightarrow> name_taken org (strip n) (ar_id a) db)
           then Inl (Http 409 ''A role with that name already exists'')
           else
             (let db1 = db\<lparr>ac_roles := update_where (\<lambda>x. ar_id x = ar_id a) (renamed_role rq) (ac_roles db)\<rparr>
              in case ku_permission_keys rq of
                   None \<Rightarrow> Inr db1
                 | Some ks \<Rightarrow>
                     res_bind (replace_permissions a ks db1) (\<lambda>db2.
                       Inr (invalidate_role_principals (en_now env) (ar_id a) db2)))))"

subsection \<open>Grants\<close>

definition the_principal :: "uuid \<Rightarrow> PrincipalType \<Rightarrow> uuid \<Rightarrow> access_db \<Rightarrow> http_error + principal" where
  "the_principal org kind i db =
     (case (case kind of
              PrincipalType.USER \<Rightarrow>
                map_option UserP (find (\<lambda>u. us_id u = i \<and> us_organization_id u = org) (ac_users db))
            | PrincipalType.SERVICE_ACCOUNT \<Rightarrow>
                map_option ServiceP (find (\<lambda>s. sv_id s = i \<and> sv_organization_id s = org) (ac_services db))) of
        None \<Rightarrow> Inl (Http 404 ''Principal not found'')
      | Some p \<Rightarrow> Inr p)"

fun after_grant_change :: "time \<Rightarrow> principal \<Rightarrow> access_db \<Rightarrow> access_db" where
  "after_grant_change now (UserP u) db =
     invalidate_user ''authorization grants changed'' now u (sync_user_compatibility_fields now u db)"
| "after_grant_change now (ServiceP s) db =
     on_service (sv_id s) bump_service (sync_service_account_primary_role s db)"

definition delete_role :: "access_env \<Rightarrow> principal \<Rightarrow> uuid \<Rightarrow> access_db \<Rightarrow> http_error + access_db" where
  "delete_role env actor i db =
     res_bind (owned_role (principal_org actor) i db) (\<lambda>a.
       if ar_is_system a then Inl (Http 409 ''Built-in roles cannot be deleted'')
       else
         (let affected = filter (\<lambda>g. gr_role_id g = ar_id a) (ac_grants db);
              db1 = db\<lparr>ac_grants := filter (\<lambda>g. gr_role_id g \<noteq> ar_id a) (ac_grants db),
                       ac_roles := filter (\<lambda>x. ar_id x \<noteq> ar_id a) (ac_roles db),
                       ac_permissions := filter (\<lambda>m. rm_role_id m \<noteq> ar_id a) (ac_permissions db)\<rparr>;
              users = filter (\<lambda>u. us_id u \<in> set (granted_users affected)) (ac_users db);
              services = filter (\<lambda>s. sv_id s \<in> set (granted_services affected)) (ac_services db)
          in Inr (fold (\<lambda>s. after_grant_change (en_now env) (ServiceP s)) services
                   (fold (\<lambda>u. after_grant_change (en_now env) (UserP u)) users db1))))"

record grant_create =
  gc_principal_type :: PrincipalType
  gc_principal_id :: uuid
  gc_role_id :: uuid
  gc_scope_type :: GrantScopeType
  gc_scope_id :: uuid

definition owner_is :: "PrincipalType \<Rightarrow> uuid \<Rightarrow> scoped_grant \<Rightarrow> bool" where
  "owner_is kind i g =
     (case kind of PrincipalType.USER \<Rightarrow> gr_user_id g = Some i
      | PrincipalType.SERVICE_ACCOUNT \<Rightarrow> gr_service_account_id g = Some i)"

definition new_grant :: "access_env \<Rightarrow> principal \<Rightarrow> grant_create \<Rightarrow> scoped_grant" where
  "new_grant env actor rq =
     \<lparr>gr_id = en_fresh env, gr_organization_id = principal_org actor,
      gr_principal_type = gc_principal_type rq,
      gr_user_id = (if gc_principal_type rq = PrincipalType.USER then Some (gc_principal_id rq) else None),
      gr_service_account_id =
        (if gc_principal_type rq = PrincipalType.SERVICE_ACCOUNT then Some (gc_principal_id rq) else None),
      gr_role_id = gc_role_id rq, gr_scope_type = gc_scope_type rq, gr_scope_id = gc_scope_id rq,
      gr_created_by_user_id = user_actor_id actor\<rparr>"

definition scope_valid :: "uuid \<Rightarrow> grant_create \<Rightarrow> access_db \<Rightarrow> http_error + unit" where
  "scope_valid org rq db =
     (case gc_scope_type rq of
        GrantScopeType.ORGANIZATION \<Rightarrow>
          require (gc_scope_id rq = org) (Http 422 ''Organization scope id must match'')
      | GrantScopeType.SITE \<Rightarrow>
          require (site_in db org (gc_scope_id rq)) (Http 422 ''Site does not belong to this organization''))"

definition create_grant :: "access_env \<Rightarrow> principal \<Rightarrow> grant_create \<Rightarrow> access_db \<Rightarrow> http_error + access_db" where
  "create_grant env actor rq db =
     (let org = principal_org actor
      in res_bind (owned_role org (gc_role_id rq) db) (\<lambda>a.
         res_bind (the_principal org (gc_principal_type rq) (gc_principal_id rq) db) (\<lambda>p.
         res_bind (scope_valid org rq db) (\<lambda>_.
           if list_ex (\<lambda>g. gr_organization_id g = org \<and> owner_is (gc_principal_type rq) (gc_principal_id rq) g \<and>
                gr_role_id g = ar_id a \<and> gr_scope_type g = gc_scope_type rq \<and> gr_scope_id g = gc_scope_id rq)
                (ac_grants db)
           then Inl (Http 409 ''That scoped grant already exists'')
           else Inr (after_grant_change (en_now env) p
                  (db\<lparr>ac_grants := ac_grants db @ [new_grant env actor rq]\<rparr>))))))"

definition carries_admin :: "access_db \<Rightarrow> scoped_grant \<Rightarrow> bool" where
  "carries_admin db g \<longleftrightarrow> (\<exists>a \<in> set (ac_roles db). ar_id a = gr_role_id g \<and>
     ar_compatibility_role a = Some UserRole.ADMINISTRATOR)"

definition other_admin_grants :: "user \<Rightarrow> scoped_grant \<Rightarrow> access_db \<Rightarrow> scoped_grant list" where
  "other_admin_grants u g db =
     filter (\<lambda>x. gr_user_id x = Some (us_id u) \<and> gr_id x \<noteq> gr_id g \<and> carries_admin db x) (ac_grants db)"

definition strands_organization :: "principal \<Rightarrow> auth_role \<Rightarrow> scoped_grant \<Rightarrow> access_db \<Rightarrow> bool" where
  "strands_organization p a g db =
     (case p of
        ServiceP s \<Rightarrow> False
      | UserP u \<Rightarrow>
          ar_compatibility_role a = Some UserRole.ADMINISTRATOR \<and>
          us_account_status u = AccountStatus.ACTIVE \<and> other_admin_grants u g db = [] \<and>
          active_admin_count (us_organization_id u) (Some (us_id u)) db = 0)"

definition delete_grant :: "access_env \<Rightarrow> principal \<Rightarrow> uuid \<Rightarrow> access_db \<Rightarrow> http_error + access_db" where
  "delete_grant env actor i db =
     (let org = principal_org actor
      in case find (\<lambda>g. gr_id g = i \<and> gr_organization_id g = org) (ac_grants db) of
           None \<Rightarrow> Inl (Http 404 ''Grant not found'')
         | Some g \<Rightarrow>
             (case find (\<lambda>a. ar_id a = gr_role_id g) (ac_roles db) of
                None \<Rightarrow> Inl (Http 404 ''Grant not found'')
              | Some a \<Rightarrow>
                  (case or_opt (gr_user_id g) (gr_service_account_id g) of
                     None \<Rightarrow> Inl (Http 409 ''Grant has no principal'')
                   | Some k \<Rightarrow>
                       res_bind (the_principal org (gr_principal_type g) k db) (\<lambda>p.
                         if strands_organization p a g db
                         then Inl (Http 409 ''The last active administrator cannot lose access'')
                         else Inr (after_grant_change (en_now env) p
                                (db\<lparr>ac_grants := filter (\<lambda>x. x \<noteq> g) (ac_grants db)\<rparr>))))))"

subsection \<open>Service accounts\<close>

definition new_service :: "access_env \<Rightarrow> principal \<Rightarrow> string \<Rightarrow> string option \<Rightarrow> service_account" where
  "new_service env actor name description =
     \<lparr>sv_id = en_fresh env, sv_organization_id = principal_org actor, sv_name = strip name,
      sv_description = description, sv_status = ServiceAccountStatus.ACTIVE,
      sv_primary_role = UserRole.VIEWER, sv_auth_version = 1,
      sv_created_by_user_id = user_actor_id actor, sv_last_used_at = None\<rparr>"

definition create_service_account ::
  "access_env \<Rightarrow> principal \<Rightarrow> string \<Rightarrow> string option \<Rightarrow> access_db \<Rightarrow> http_error + access_db" where
  "create_service_account env actor name description db =
     (if list_ex (\<lambda>s. sv_organization_id s = principal_org actor \<and> sv_name s = strip name) (ac_services db)
      then Inl (Http 409 ''A service account with that name exists'')
      else Inr (db\<lparr>ac_services := ac_services db @ [new_service env actor name description]\<rparr>))"

definition owned_service :: "uuid \<Rightarrow> uuid \<Rightarrow> access_db \<Rightarrow> http_error + service_account" where
  "owned_service org i db =
     (case find (\<lambda>s. sv_id s = i \<and> sv_organization_id s = org) (ac_services db) of
        None \<Rightarrow> Inl (Http 404 ''Service account not found'')
      | Some s \<Rightarrow> Inr s)"

definition revoke_service_tokens :: "uuid \<Rightarrow> time \<Rightarrow> access_db \<Rightarrow> access_db" where
  "revoke_service_tokens i now db =
     db\<lparr>ac_tokens := update_where (\<lambda>t. tk_service_account_id t = Some i \<and> tk_revoked_at t = None)
         (tk_revoked_at_update (\<lambda>_. Some now)) (ac_tokens db)\<rparr>"

text \<open>
  The fields a client set in \<open>ServiceAccountUpdate\<close>.  A name or status set to null reaches a column
  that refuses null, and the flush fails.
\<close>

record service_update =
  vu_name :: "string option option"
  vu_description :: "string option option"
  vu_status :: "ServiceAccountStatus option option"

definition set_service :: "service_update \<Rightarrow> service_account \<Rightarrow> service_account" where
  "set_service rq s =
     s\<lparr>sv_name := (case vu_name rq of Some (Some n) \<Rightarrow> (if n = [] then n else strip n) | _ \<Rightarrow> sv_name s),
       sv_description := (case vu_description rq of Some d \<Rightarrow> d | None \<Rightarrow> sv_description s),
       sv_status := (case vu_status rq of Some (Some v) \<Rightarrow> v | _ \<Rightarrow> sv_status s)\<rparr>"

definition update_service_account ::
  "access_env \<Rightarrow> principal \<Rightarrow> uuid \<Rightarrow> service_update \<Rightarrow> access_db \<Rightarrow> http_error + access_db" where
  "update_service_account env actor i rq db =
     res_bind (owned_service (principal_org actor) i db) (\<lambda>s.
       if (case vu_name rq of
             Some (Some n) \<Rightarrow> strip n \<noteq> sv_name s \<and>
               list_ex (\<lambda>x. sv_organization_id x = principal_org actor \<and> sv_name x = strip n \<and>
                 sv_id x \<noteq> sv_id s) (ac_services db)
           | _ \<Rightarrow> False)
       then Inl (Http 409 ''A service account with that name exists'')
       else if vu_name rq = Some None \<or> vu_status rq = Some None
       then Inl (Http 500 ''NOT NULL constraint failed'')
       else
         (let db1 = on_service (sv_id s) (set_service rq) db
          in case vu_status rq of
               Some (Some v) \<Rightarrow>
                 (let db2 = on_service (sv_id s) bump_service db1
                  in Inr (if v = ServiceAccountStatus.SUSPENDED
                          then revoke_service_tokens (sv_id s) (en_now env) db2 else db2))
             | _ \<Rightarrow> Inr db1))"

definition suspend_service_account ::
  "access_env \<Rightarrow> principal \<Rightarrow> uuid \<Rightarrow> access_db \<Rightarrow> http_error + access_db" where
  "suspend_service_account env actor i db =
     res_bind (owned_service (principal_org actor) i db) (\<lambda>s.
       Inr (revoke_service_tokens (sv_id s) (en_now env)
              (on_service (sv_id s) (\<lambda>x. bump_service (x\<lparr>sv_status := ServiceAccountStatus.SUSPENDED\<rparr>)) db)))"

end
