(* ===== verification/Identity.thy ===== *)
theory Identity
  imports Grants
begin

text \<open>
  API tokens and the identity of a request: \<^verbatim>\<open>app/services/authorization.py\<close> (token part),
  \<^verbatim>\<open>app/auth/tokens.py\<close>, \<^verbatim>\<open>app/auth/dependencies.py\<close> and the token handlers of
  \<^verbatim>\<open>app/api/v1/authorization.py\<close>.  SHA-256 and the JWT library are arguments: \<open>digest\<close> maps a
  secret to its stored form, \<open>decode\<close> gives the claims of a text with a valid signature that has not
  expired.
\<close>

subsection \<open>Address restrictions\<close>

text \<open>\<open>ipaddress.ip_address\<close>: the version and the number of the address.\<close>

definition ip_address_parse :: "string \<Rightarrow> (bool \<times> nat) option" where
  "ip_address_parse s =
     (if CHR ''/'' \<in> set s then None
      else or_opt (map_option (Pair False) (ipv4_parse s))
             (case split_scope s of None \<Rightarrow> None | Some (a, _) \<Rightarrow> map_option (Pair True) (ipv6_parse a)))"

text \<open>The lazy \<open>any\<close>: a text that is no network raises only when the loop reaches it.\<close>

fun in_some_network :: "bool \<times> nat \<Rightarrow> string list \<Rightarrow> bool" where
  "in_some_network address [] = False"
| "in_some_network address (v # vs) =
     (case ip_network_parse v of
        None \<Rightarrow> False
      | Some n \<Rightarrow> if ip_v6 n = fst address \<and> ip_in (snd address) n then True else in_some_network address vs)"

definition ip_is_allowed :: "string option \<Rightarrow> string list \<Rightarrow> bool" where
  "ip_is_allowed source_ip restrictions =
     (if restrictions = [] then True
      else case source_ip of
             None \<Rightarrow> False
           | Some s \<Rightarrow>
               if s = [] then False
               else (case ip_address_parse s of None \<Rightarrow> False | Some a \<Rightarrow> in_some_network a restrictions))"

definition normalize_restriction :: "string \<Rightarrow> string + string" where
  "normalize_restriction v =
     (case ip_network_parse (strip v) of
        None \<Rightarrow> Inl (''Invalid IP restriction: '' @ v)
      | Some n \<Rightarrow> Inr (network_str n))"

definition validate_ip_restrictions :: "string list \<Rightarrow> string + string list" where
  "validate_ip_restrictions vs =
     res_bind (traverse normalize_restriction vs) (\<lambda>ns. Inr (sort (remdups ns)))"

subsection \<open>Token authentication\<close>

definition token_usable :: "time \<Rightarrow> string option \<Rightarrow> api_token \<Rightarrow> bool" where
  "token_usable now source_ip t \<longleftrightarrow>
     tk_revoked_at t = None \<and> \<not> tk_expires_at t \<le> now \<and> ip_is_allowed source_ip (tk_ip_restrictions t)"

definition token_principal :: "access_db \<Rightarrow> api_token \<Rightarrow> principal option" where
  "token_principal db t =
     (case tk_principal_type t of
        PrincipalType.USER \<Rightarrow>
          (case Option.bind (tk_user_id t) (the_user db) of
             None \<Rightarrow> None
           | Some u \<Rightarrow>
               if us_organization_id u \<noteq> tk_organization_id t \<or> \<not> us_is_active u
                  \<or> us_account_status u \<noteq> AccountStatus.ACTIVE \<or> us_auth_version u \<noteq> tk_issued_auth_version t
               then None else Some (UserP u))
      | PrincipalType.SERVICE_ACCOUNT \<Rightarrow>
          (case Option.bind (tk_service_account_id t) (the_service db) of
             None \<Rightarrow> None
           | Some s \<Rightarrow>
               if sv_organization_id s \<noteq> tk_organization_id t \<or> sv_status s \<noteq> ServiceAccountStatus.ACTIVE
                  \<or> sv_auth_version s \<noteq> tk_issued_auth_version t
               then None else Some (ServiceP s)))"

definition could_not_validate :: http_error where
  "could_not_validate = Http 401 ''Could not validate credentials''"

definition touch_token :: "time \<Rightarrow> string option \<Rightarrow> api_token \<Rightarrow> api_token" where
  "touch_token now source_ip t = t\<lparr>tk_last_used_at := Some now, tk_last_used_ip := source_ip\<rparr>"

definition on_token :: "uuid \<Rightarrow> (api_token \<Rightarrow> api_token) \<Rightarrow> access_db \<Rightarrow> access_db" where
  "on_token i f db = db\<lparr>ac_tokens := update_where (\<lambda>t. tk_id t = i) f (ac_tokens db)\<rparr>"

definition record_use :: "time \<Rightarrow> string option \<Rightarrow> principal \<Rightarrow> api_token \<Rightarrow> access_db \<Rightarrow> access_db" where
  "record_use now source_ip p t db =
     on_token (tk_id t) (touch_token now source_ip)
       (case p of
          UserP u \<Rightarrow> db
        | ServiceP s \<Rightarrow> on_service (sv_id s) (sv_last_used_at_update (\<lambda>_. Some now)) db)"

definition authenticate_api_token ::
  "(string \<Rightarrow> string) \<Rightarrow> string \<Rightarrow> string option \<Rightarrow> time \<Rightarrow> access_db \<Rightarrow>
   http_error + access_db \<times> principal \<times> api_token" where
  "authenticate_api_token digest secret source_ip now db =
     (case find (\<lambda>t. tk_token_hash t = digest (strip secret)) (ac_tokens db) of
        None \<Rightarrow> Inl could_not_validate
      | Some t \<Rightarrow>
          if \<not> token_usable now source_ip t then Inl could_not_validate
          else case token_principal db t of
                 None \<Rightarrow> Inl could_not_validate
               | Some p \<Rightarrow> Inr (record_use now source_ip p t db, p, t))"

subsection \<open>Access tokens and sessions\<close>

text \<open>The claims of \<open>create_access_token\<close>; \<open>jti\<close> is the drawn identifier's hexadecimal text.\<close>

definition access_claims ::
  "uuid \<Rightarrow> string \<Rightarrow> uuid \<Rightarrow> int \<Rightarrow> uuid option \<Rightarrow> time option \<Rightarrow> time \<Rightarrow> int \<Rightarrow> string \<Rightarrow> json" where
  "access_claims user role org version sid auth_time now lifetime jti =
     JObj ([(''sub'', JStr (uuid_str user)), (''role'', JStr role), (''org'', JStr (uuid_str org)),
            (''ver'', JInt version), (''iat'', JInt (now div 1000000)),
            (''exp'', JInt ((now + lifetime) div 1000000)), (''jti'', JStr jti), (''typ'', JStr ''access'')] @
           (case sid of None \<Rightarrow> [] | Some s \<Rightarrow> [(''sid'', JStr (uuid_str s))]) @
           (case auth_time of None \<Rightarrow> [] | Some a \<Rightarrow> [(''auth_time'', JInt (a div 1000000))]))"

definition decode_access_token :: "(string \<Rightarrow> json option) \<Rightarrow> string \<Rightarrow> json option" where
  "decode_access_token decode token =
     (case decode token of
        None \<Rightarrow> None
      | Some claims \<Rightarrow> if json_get claims ''typ'' = Some (JStr ''access'') then Some claims else None)"

text \<open>\<open>int(claims.get("ver", 1))\<close>.\<close>

definition claimed_version :: "json \<Rightarrow> int option" where
  "claimed_version claims =
     (case json_get claims ''ver'' of
        None \<Rightarrow> Some 1
      | Some (JInt i) \<Rightarrow> Some i
      | Some (JBool b) \<Rightarrow> Some (if b then 1 else 0)
      | Some (JFloat q) \<Rightarrow> Some (if q < 0 then - \<lfloor>- q\<rfloor> else \<lfloor>q\<rfloor>)
      | Some (JStr s) \<Rightarrow> py_int s
      | Some _ \<Rightarrow> None)"

record identity =
  id_principal :: principal
  id_session :: "user_session option"
  id_api_token :: "api_token option"

record auth_settings =
  au_env :: string
  au_digest :: "string \<Rightarrow> string"
  au_decode :: "string \<Rightarrow> json option"

text \<open>The part of \<open>_resolve_authenticated_identity\<close> that finds the session of an access token.\<close>

definition resolve_session ::
  "auth_settings \<Rightarrow> json \<Rightarrow> user \<Rightarrow> bool \<Rightarrow> time \<Rightarrow> access_db \<Rightarrow> http_error + access_db \<times> identity" where
  "resolve_session st claims u allow_mfa_pending now db =
     (case json_get claims ''sid'' of
        Some (JStr sid) \<Rightarrow>
          (case uuid_parse sid of
             None \<Rightarrow> Inl could_not_validate
           | Some i \<Rightarrow>
               (case find (\<lambda>s. ue_id s = i \<and> ue_user_id s = us_id u \<and>
                      ue_organization_id s = us_organization_id u) (ac_sessions db) of
                  None \<Rightarrow> Inl could_not_validate
                | Some s \<Rightarrow>
                    if ue_auth_version s \<noteq> us_auth_version u \<or> \<not> is_session_active s now
                       \<or> (ue_mfa_pending s \<and> \<not> allow_mfa_pending)
                    then Inl could_not_validate
                    else Inr (on_session (ue_id s) (touch_session now) db,
                              \<lparr>id_principal = UserP u, id_session = Some (touch_session now s),
                               id_api_token = None\<rparr>)))
      | Some JNull \<Rightarrow>
          if au_env st \<noteq> ''test'' then Inl could_not_validate
          else Inr (db, \<lparr>id_principal = UserP u, id_session = None, id_api_token = None\<rparr>)
      | None \<Rightarrow>
          if au_env st \<noteq> ''test'' then Inl could_not_validate
          else Inr (db, \<lparr>id_principal = UserP u, id_session = None, id_api_token = None\<rparr>)
      | Some _ \<Rightarrow> Inl could_not_validate)"

definition claims_match :: "json \<Rightarrow> int \<Rightarrow> user \<Rightarrow> bool" where
  "claims_match claims version u \<longleftrightarrow>
     us_is_active u \<and> us_account_status u = AccountStatus.ACTIVE \<and>
     json_get claims ''org'' = Some (JStr (uuid_str (us_organization_id u))) \<and> version = us_auth_version u"

text \<open>
  A subject that is true but no text makes \<open>uuid.UUID\<close> raise \<open>AttributeError\<close>, which nothing catches.
\<close>

definition resolve_claims ::
  "auth_settings \<Rightarrow> json \<Rightarrow> bool \<Rightarrow> time \<Rightarrow> access_db \<Rightarrow> http_error + access_db \<times> identity" where
  "resolve_claims st claims allow_mfa_pending now db =
     (case json_get claims ''sub'' of
        None \<Rightarrow> Inl could_not_validate
      | Some sub \<Rightarrow>
          if \<not> truthy sub then Inl could_not_validate
          else (case sub of
                  JStr s \<Rightarrow>
                    (case (uuid_parse s, claimed_version claims) of
                       (Some i, Some version) \<Rightarrow>
                         (case the_user db i of
                            None \<Rightarrow> Inl could_not_validate
                          | Some u \<Rightarrow>
                              if claims_match claims version u
                              then resolve_session st claims u allow_mfa_pending now db
                              else Inl could_not_validate)
                     | _ \<Rightarrow> Inl could_not_validate)
                | _ \<Rightarrow> Inl (Http 500 ''AttributeError'')))"

definition resolve_identity ::
  "auth_settings \<Rightarrow> string option \<Rightarrow> string option \<Rightarrow> bool \<Rightarrow> time \<Rightarrow> access_db \<Rightarrow>
   http_error + access_db \<times> identity" where
  "resolve_identity st credentials source_ip allow_mfa_pending now db =
     (case credentials of
        None \<Rightarrow> Inl could_not_validate
      | Some c \<Rightarrow>
          if c = [] then Inl could_not_validate
          else if starts_with ''vapi_'' c
          then res_bind (authenticate_api_token (au_digest st) c source_ip now db) (\<lambda>(db', p, t).
                 Inr (db', \<lparr>id_principal = p, id_session = None, id_api_token = Some t\<rparr>))
          else (case decode_access_token (au_decode st) c of
                  None \<Rightarrow> Inl could_not_validate
                | Some claims \<Rightarrow> resolve_claims st claims allow_mfa_pending now db))"

subsection \<open>Guards\<close>

definition forbidden :: http_error where
  "forbidden = Http 403 ''You do not have permission to perform this action''"

definition strongest :: "user_session \<Rightarrow> time" where
  "strongest s =
     (case ue_mfa_authenticated_at s of
        None \<Rightarrow> ue_authenticated_at s
      | Some m \<Rightarrow> max (ue_authenticated_at s) m)"

definition require_recent_step_up :: "auth_settings \<Rightarrow> identity \<Rightarrow> time \<Rightarrow> access_db \<Rightarrow> http_error + unit" where
  "require_recent_step_up st idy now db =
     (case id_api_token idy of
        Some _ \<Rightarrow> Inl (Http 403 ''interactive_step_up_required'')
      | None \<Rightarrow>
          (case id_session idy of
             None \<Rightarrow> require (au_env st = ''test'') could_not_validate
           | Some s \<Rightarrow>
               (case find (\<lambda>o'. og_id o' = principal_org (id_principal idy)) (ac_organizations db) of
                  None \<Rightarrow> Inl could_not_validate
                | Some og \<Rightarrow>
                    require (\<not> now - strongest s > minutes (sp_privileged_window_minutes (session_policy og)))
                      (Http 403 ''step_up_required''))))"

definition require_permission :: "string \<Rightarrow> identity \<Rightarrow> access_db \<Rightarrow> http_error + unit" where
  "require_permission key idy db =
     (case has_permission db (id_principal idy) key None None of
        Inl e \<Rightarrow> Inl (Http 500 e)
      | Inr b \<Rightarrow> require b forbidden)"

definition require_any_permission :: "string list \<Rightarrow> identity \<Rightarrow> access_db \<Rightarrow> http_error + unit" where
  "require_any_permission keys idy db =
     (case validate_permission_keys keys of
        Inl e \<Rightarrow> Inl (Http 500 e)
      | Inr _ \<Rightarrow>
          require (list_ex (\<lambda>k. k \<in> set keys) (effective_permissions db (id_principal idy) None None)) forbidden)"

definition require_step_up_permission ::
  "auth_settings \<Rightarrow> string \<Rightarrow> identity \<Rightarrow> time \<Rightarrow> access_db \<Rightarrow> http_error + unit" where
  "require_step_up_permission st key idy now db =
     res_bind (require_recent_step_up st idy now db) (\<lambda>_. require_permission key idy db)"

subsection \<open>Issuing, rotating and revoking tokens\<close>

record token_create =
  tc_name :: string
  tc_expires_in_days :: int
  tc_ip_restrictions :: "string list"

text \<open>The bounds of \<open>ApiTokenCreate\<close>.\<close>

definition token_create_ok :: "token_create \<Rightarrow> bool" where
  "token_create_ok rq \<longleftrightarrow> 2 \<le> length (tc_name rq) \<and> length (tc_name rq) \<le> 255 \<and>
     1 \<le> tc_expires_in_days rq \<and> tc_expires_in_days rq \<le> 365 \<and> length (tc_ip_restrictions rq) \<le> 100"

definition new_token ::
  "access_env \<Rightarrow> (string \<Rightarrow> string) \<Rightarrow> string \<Rightarrow> principal \<Rightarrow> token_create \<Rightarrow> string list \<Rightarrow> uuid option \<Rightarrow> api_token" where
  "new_token env digest secret p rq restrictions rotated_from =
     \<lparr>tk_id = en_fresh env, tk_organization_id = principal_org p, tk_principal_type = principal_type p,
      tk_user_id = (if principal_type p = PrincipalType.USER then Some (principal_id p) else None),
      tk_service_account_id =
        (if principal_type p = PrincipalType.SERVICE_ACCOUNT then Some (principal_id p) else None),
      tk_name = strip (tc_name rq), tk_token_hash = digest (strip secret), tk_token_prefix = take 18 secret,
      tk_issued_auth_version = principal_version p,
      tk_expires_at = en_now env + days (tc_expires_in_days rq), tk_revoked_at = None,
      tk_rotated_from_id = rotated_from, tk_ip_restrictions = restrictions,
      tk_last_used_at = None, tk_last_used_ip = None\<rparr>"

text \<open>\<open>generate_api_token\<close>: \<open>drawn\<close> is the text of \<open>secrets.token_urlsafe(48)\<close>.\<close>

definition api_secret :: "string \<Rightarrow> string" where
  "api_secret drawn = ''vapi_'' @ drawn"

definition issue_token ::
  "access_env \<Rightarrow> (string \<Rightarrow> string) \<Rightarrow> string \<Rightarrow> principal \<Rightarrow> token_create \<Rightarrow> uuid option \<Rightarrow> access_db \<Rightarrow>
   http_error + access_db \<times> api_token" where
  "issue_token env digest drawn p rq rotated_from db =
     (case validate_ip_restrictions (tc_ip_restrictions rq) of
        Inl e \<Rightarrow> Inl (Http 422 e)
      | Inr restrictions \<Rightarrow>
          (let t = new_token env digest (api_secret drawn) p rq restrictions rotated_from
           in Inr (db\<lparr>ac_tokens := ac_tokens db @ [t]\<rparr>, t)))"

definition owned_token ::
  "uuid \<Rightarrow> uuid \<Rightarrow> uuid option \<Rightarrow> uuid option \<Rightarrow> access_db \<Rightarrow> http_error + api_token" where
  "owned_token org i user service db =
     (case find (\<lambda>t. tk_id t = i \<and> tk_organization_id t = org \<and>
              (user = None \<or> tk_user_id t = user) \<and> (service = None \<or> tk_service_account_id t = service))
            (ac_tokens db) of
        None \<Rightarrow> Inl (Http 404 ''API token not found'')
      | Some t \<Rightarrow> Inr t)"

definition create_personal_token ::
  "access_env \<Rightarrow> (string \<Rightarrow> string) \<Rightarrow> string \<Rightarrow> principal \<Rightarrow> token_create \<Rightarrow> access_db \<Rightarrow>
   http_error + access_db \<times> api_token" where
  "create_personal_token env digest drawn actor rq db =
     (case actor of
        ServiceP s \<Rightarrow> Inl (Http 403 ''Service accounts cannot create personal tokens'')
      | UserP u \<Rightarrow> issue_token env digest drawn actor rq None db)"

definition create_service_token ::
  "access_env \<Rightarrow> (string \<Rightarrow> string) \<Rightarrow> string \<Rightarrow> principal \<Rightarrow> uuid \<Rightarrow> token_create \<Rightarrow> access_db \<Rightarrow>
   http_error + access_db \<times> api_token" where
  "create_service_token env digest drawn actor account rq db =
     res_bind (owned_service (principal_org actor) account db) (\<lambda>s.
       if sv_status s \<noteq> ServiceAccountStatus.ACTIVE
       then Inl (Http 409 ''Suspended service accounts cannot receive tokens'')
       else issue_token env digest drawn (ServiceP s) rq None db)"

text \<open>
  \<open>ApiTokenRotate\<close>.  The request for the new token is validated again when it is built; its failure
  inside the handler is a server error.
\<close>

record token_rotate =
  tr_expires_in_days :: int
  tr_ip_restrictions :: "string list option"

definition rotation_request :: "api_token \<Rightarrow> token_rotate \<Rightarrow> token_create" where
  "rotation_request t rq =
     \<lparr>tc_name = tk_name t, tc_expires_in_days = tr_expires_in_days rq,
      tc_ip_restrictions = or_else (tr_ip_restrictions rq) (tk_ip_restrictions t)\<rparr>"

definition rotate_token ::
  "access_env \<Rightarrow> (string \<Rightarrow> string) \<Rightarrow> string \<Rightarrow> api_token \<Rightarrow> principal \<Rightarrow> token_rotate \<Rightarrow> access_db \<Rightarrow>
   http_error + access_db \<times> api_token" where
  "rotate_token env digest drawn t p rq db =
     (if tk_revoked_at t \<noteq> None then Inl (Http 409 ''A revoked token cannot be rotated'')
      else if \<not> token_create_ok (rotation_request t rq) then Inl (Http 500 ''ValidationError'')
      else issue_token env digest drawn p (rotation_request t rq) (Some (tk_id t))
             (on_token (tk_id t) (tk_revoked_at_update (\<lambda>_. Some (en_now env))) db))"

definition rotate_personal_token ::
  "access_env \<Rightarrow> (string \<Rightarrow> string) \<Rightarrow> string \<Rightarrow> principal \<Rightarrow> uuid \<Rightarrow> token_rotate \<Rightarrow> access_db \<Rightarrow>
   http_error + access_db \<times> api_token" where
  "rotate_personal_token env digest drawn actor i rq db =
     (case actor of
        ServiceP s \<Rightarrow> Inl (Http 403 ''Service accounts do not own personal tokens'')
      | UserP u \<Rightarrow>
          res_bind (owned_token (us_organization_id u) i (Some (us_id u)) None db) (\<lambda>t.
            rotate_token env digest drawn t actor rq db))"

definition rotate_service_token ::
  "access_env \<Rightarrow> (string \<Rightarrow> string) \<Rightarrow> string \<Rightarrow> principal \<Rightarrow> uuid \<Rightarrow> uuid \<Rightarrow> token_rotate \<Rightarrow> access_db \<Rightarrow>
   http_error + access_db \<times> api_token" where
  "rotate_service_token env digest drawn actor account i rq db =
     res_bind (owned_service (principal_org actor) account db) (\<lambda>s.
     res_bind (owned_token (principal_org actor) i None (Some (sv_id s)) db) (\<lambda>t.
       rotate_token env digest drawn t (ServiceP s) rq db))"

definition mark_token_revoked :: "time \<Rightarrow> api_token \<Rightarrow> api_token" where
  "mark_token_revoked now t = t\<lparr>tk_revoked_at := Some (or_else (tk_revoked_at t) now)\<rparr>"

definition revoke_personal_token ::
  "access_env \<Rightarrow> principal \<Rightarrow> uuid \<Rightarrow> access_db \<Rightarrow> http_error + access_db" where
  "revoke_personal_token env actor i db =
     (case actor of
        ServiceP s \<Rightarrow> Inl (Http 403 ''Service accounts do not own personal tokens'')
      | UserP u \<Rightarrow>
          res_bind (owned_token (us_organization_id u) i (Some (us_id u)) None db) (\<lambda>t.
            Inr (on_token (tk_id t) (mark_token_revoked (en_now env)) db)))"

definition revoke_service_token ::
  "access_env \<Rightarrow> principal \<Rightarrow> uuid \<Rightarrow> uuid \<Rightarrow> access_db \<Rightarrow> http_error + access_db" where
  "revoke_service_token env actor account i db =
     res_bind (owned_service (principal_org actor) account db) (\<lambda>s.
     res_bind (owned_token (principal_org actor) i None (Some account) db) (\<lambda>t.
       Inr (on_token (tk_id t) (mark_token_revoked (en_now env)) db)))"

end
