(* ===== verification/Users.thy ===== *)
theory Users
  imports Grants
begin

text \<open>
  User administration, \<^verbatim>\<open>app/api/v1/users.py\<close>, and the one-time links of
  \<^verbatim>\<open>app/api/v1/auth.py\<close> that end it: invitations and password resets.  The guards of break-glass
  access come from \<^verbatim>\<open>app/services/sso.py\<close>.  A column that refers to users rejects the id of a
  service account when the row is flushed.
\<close>

subsection \<open>Break-glass access\<close>

definition sso_mode :: "uuid \<Rightarrow> access_db \<Rightarrow> SsoPolicyMode" where
  "sso_mode org db = (case map_of (ac_sso_policies db) org of None \<Rightarrow> SsoPolicyMode.DISABLED | Some m \<Rightarrow> m)"

definition has_strong_factor :: "uuid \<Rightarrow> access_db \<Rightarrow> bool" where
  "has_strong_factor i db \<longleftrightarrow>
     (\<exists>t \<in> set (ac_totp db). tf_user_id t = i \<and> tf_confirmed_at t \<noteq> None \<and> tf_disabled_at t = None)
     \<or> (\<exists>c \<in> set (ac_webauthn db). wc_user_id c = i \<and> wc_disabled_at c = None)"

definition active_break_glass_users :: "uuid \<Rightarrow> access_db \<Rightarrow> user list" where
  "active_break_glass_users org db =
     filter (\<lambda>u. us_organization_id u = org \<and> us_is_break_glass u \<and> active_admin u \<and>
       us_authentication_source u = AuthenticationSource.LOCAL \<and> us_hashed_password u \<noteq> None \<and>
       has_strong_factor (us_id u) db) (ac_users db)"

definition break_glass_needed :: http_error where
  "break_glass_needed = Http 409 (''SSO enforcement requires another active local administrator with strong MFA '' @
     ''before this break-glass safeguard can be removed'')"

definition ensure_break_glass_eligibility_can_be_removed :: "user \<Rightarrow> access_db \<Rightarrow> http_error + unit" where
  "ensure_break_glass_eligibility_can_be_removed u db =
     (if \<not> us_is_break_glass u then Inr ()
      else if sso_mode (us_organization_id u) db \<noteq> SsoPolicyMode.ENFORCED then Inr ()
      else require (list_ex (\<lambda>c. us_id c \<noteq> us_id u) (active_break_glass_users (us_organization_id u) db))
             break_glass_needed)"

definition local_login_permitted :: "user \<Rightarrow> access_db \<Rightarrow> bool" where
  "local_login_permitted u db =
     (if sso_mode (us_organization_id u) db \<noteq> SsoPolicyMode.ENFORCED then True
      else if \<not> us_is_break_glass u then False
      else list_ex (\<lambda>c. us_id c = us_id u) (active_break_glass_users (us_organization_id u) db))"

subsection \<open>Shared operations\<close>

definition owned_user :: "uuid \<Rightarrow> uuid \<Rightarrow> access_db \<Rightarrow> http_error + user" where
  "owned_user i org db =
     (case find (\<lambda>u. us_id u = i \<and> us_organization_id u = org) (ac_users db) of
        None \<Rightarrow> Inl (Http 404 ''User not found'')
      | Some u \<Rightarrow> Inr u)"

text \<open>The id of the actor in a column that refers to users.\<close>

fun actor_column :: "principal \<Rightarrow> http_error + uuid" where
  "actor_column (UserP u) = Inr (us_id u)"
| "actor_column (ServiceP s) = Inl (Http 500 ''FOREIGN KEY constraint failed'')"

definition clear_credentials :: "user \<Rightarrow> user" where
  "clear_credentials u =
     u\<lparr>us_auth_version := us_auth_version u + 1, us_recovery_codes := [], us_recovery_codes_generated_at := None\<rparr>"

definition revoke_links :: "uuid \<Rightarrow> time \<Rightarrow> access_db \<Rightarrow> access_db" where
  "revoke_links i now db =
     db\<lparr>ac_invitations := revoke_tokens i now (ac_invitations db),
        ac_resets := revoke_tokens i now (ac_resets db)\<rparr>"

definition revoke_pending_credentials :: "uuid \<Rightarrow> time \<Rightarrow> access_db \<Rightarrow> access_db" where
  "revoke_pending_credentials i now db =
     revoke_links i now
       (fst (revoke_user_sessions i ''account credentials changed'' None now (on_user i clear_credentials db)))"

definition new_link :: "uuid \<Rightarrow> user \<Rightarrow> uuid \<Rightarrow> string \<Rightarrow> time \<Rightarrow> one_time_token" where
  "new_link i u actor token_hash expires =
     \<lparr>ot_id = i, ot_organization_id = us_organization_id u, ot_user_id = us_id u,
      ot_created_by_user_id = Some actor, ot_token_hash = token_hash, ot_expires_at = expires,
      ot_consumed_at = None, ot_revoked_at = None\<rparr>"

text \<open>The digests of generated secrets and the lifetimes of the settings.\<close>

record link_env = access_env +
  ln_hash :: string
  ln_link :: uuid
  ln_invitation_hours :: int
  ln_reset_minutes :: int

definition issue_link :: "link_env \<Rightarrow> user \<Rightarrow> uuid \<Rightarrow> access_db \<Rightarrow> access_db" where
  "issue_link env u actor db =
     db\<lparr>ac_invitations := revoke_tokens (us_id u) (en_now env) (ac_invitations db) @
         [new_link (ln_link env) u actor (ln_hash env) (en_now env + hours (ln_invitation_hours env))]\<rparr>"

definition last_admin_error :: "string \<Rightarrow> http_error" where
  "last_admin_error what = Http 409 (''The last active administrator cannot '' @ what)"

definition is_last_admin :: "user \<Rightarrow> access_db \<Rightarrow> bool" where
  "is_last_admin u db \<longleftrightarrow> us_role u = UserRole.ADMINISTRATOR \<and>
     us_account_status u = AccountStatus.ACTIVE \<and>
     active_admin_count (us_organization_id u) (Some (us_id u)) db = 0"

definition transition_status ::
  "access_env \<Rightarrow> user \<Rightarrow> principal \<Rightarrow> AccountStatus \<Rightarrow> access_db \<Rightarrow> http_error + access_db" where
  "transition_status env u actor new_status db =
     (if new_status = us_account_status u then Inr db
      else
        res_bind (if new_status \<noteq> AccountStatus.ACTIVE
                  then ensure_break_glass_eligibility_can_be_removed u db else Inr ()) (\<lambda>_.
        if us_id u = principal_id actor \<and> new_status \<noteq> AccountStatus.ACTIVE
        then Inl (Http 400 ''You cannot suspend, lock, or deactivate your own account'')
        else if new_status \<noteq> AccountStatus.ACTIVE \<and> is_last_admin u db
        then Inl (last_admin_error ''be deactivated'')
        else if new_status = AccountStatus.ACTIVE \<and> us_hashed_password u = None
        then Inl (Http 409 ''Passwordless accounts must accept a new invitation before activation'')
        else
          (let db1 = (if new_status \<noteq> AccountStatus.ACTIVE
                      then revoke_pending_credentials (us_id u) (en_now env) db
                      else on_user (us_id u) bump_user db)
           in res_bind (actor_column actor) (\<lambda>_.
                Inr (on_user (us_id u) (set_account_status new_status (en_now env)) db1)))))"

subsection \<open>Handlers\<close>

record user_create =
  nc_email :: string
  nc_full_name :: "string option"
  nc_role :: UserRole
  nc_site_access_mode :: SiteAccessMode
  nc_site_ids :: "uuid list"
  nc_password :: "string option"
  nc_is_active :: "bool option"

definition new_user :: "access_env \<Rightarrow> uuid \<Rightarrow> uuid \<Rightarrow> user_create \<Rightarrow> AccountStatus \<Rightarrow> user" where
  "new_user env org actor rq initial =
     set_account_status initial (en_now env)
       \<lparr>us_id = en_fresh env, us_organization_id = org, us_email = lower (strip (nc_email rq)),
        us_hashed_password = None, us_full_name = nc_full_name rq, us_role = nc_role rq,
        us_is_active = False, us_account_status = initial,
        us_authentication_source = AuthenticationSource.LOCAL,
        us_site_access_mode = nc_site_access_mode rq, us_auth_version = 1,
        us_authorization_migrated_at = None, us_last_login_at = None, us_invited_at = None,
        us_activated_at = None, us_suspended_at = None, us_deactivated_at = None,
        us_password_changed_at = None, us_mfa_grace_expires_at = None, us_is_break_glass = False,
        us_created_by_user_id = Some actor, us_recovery_codes = [], us_recovery_codes_generated_at = None\<rparr>"

definition create_user :: "link_env \<Rightarrow> principal \<Rightarrow> user_create \<Rightarrow> access_db \<Rightarrow> http_error + access_db" where
  "create_user env actor rq db =
     (if nc_password rq \<noteq> None
      then Inl (Http 422 ''Administrators cannot assign permanent passwords; send an invitation instead'')
      else if list_ex (\<lambda>u. us_email u = lower (strip (nc_email rq))) (ac_users db)
      then Inl (Http 409 ''A user with that email already exists'')
      else
        res_bind (actor_column actor) (\<lambda>me.
          (let initial = (if nc_is_active rq = Some False then AccountStatus.DEACTIVATED else AccountStatus.INVITED);
               env0 = access_env.truncate env;
               u = new_user env0 (principal_org actor) me rq initial
           in case replace_site_assignments u (nc_site_ids rq) me (db\<lparr>ac_users := ac_users db @ [u]\<rparr>) of
                Inl e \<Rightarrow> Inl (Http 422 e)
              | Inr db1 \<Rightarrow>
                  (let db2 = sync_user_compatibility_grants env0 u (user_actor_id actor) db1
                   in Inr (if initial = AccountStatus.INVITED then issue_link env u me db2 else db2)))))"

record user_update =
  un_full_name :: "string option option"
  un_role :: "UserRole option option"
  un_is_active :: "bool option option"
  un_password :: "string option"

definition change_role ::
  "access_env \<Rightarrow> principal \<Rightarrow> user \<Rightarrow> UserRole option \<Rightarrow> access_db \<Rightarrow> http_error + access_db" where
  "change_role env actor u role db =
     (if us_id u = principal_id actor then Inl (Http 400 ''You cannot change your own role'')
      else if is_last_admin u db then Inl (last_admin_error ''lose that role'')
      else
        res_bind (if role \<noteq> Some UserRole.ADMINISTRATOR
                  then ensure_break_glass_eligibility_can_be_removed u db else Inr ()) (\<lambda>_.
        case role of
          None \<Rightarrow> Inl (Http 500 ''NOT NULL constraint failed'')
        | Some r \<Rightarrow>
            (let db1 = on_user (us_id u) (us_role_update (\<lambda>_. r)) db;
                 db2 = sync_user_compatibility_grants env (u\<lparr>us_role := r\<rparr>) (user_actor_id actor) db1
             in Inr (invalidate_user ''role changed'' (en_now env) u db2))))"

definition new_role :: "user_update \<Rightarrow> user \<Rightarrow> UserRole option option" where
  "new_role rq u = (case un_role rq of None \<Rightarrow> None | Some r \<Rightarrow> if r = Some (us_role u) then None else Some r)"

definition update_user ::
  "access_env \<Rightarrow> principal \<Rightarrow> uuid \<Rightarrow> user_update \<Rightarrow> access_db \<Rightarrow> http_error + access_db" where
  "update_user env actor i rq db =
     res_bind (owned_user i (principal_org actor) db) (\<lambda>u.
       if un_password rq \<noteq> None then Inl (Http 422 ''Use the expiring password-reset flow'')
       else
         res_bind (case new_role rq u of None \<Rightarrow> Inr db | Some r \<Rightarrow> change_role env actor u r db) (\<lambda>db1.
         res_bind (case un_is_active rq of
                     None \<Rightarrow> Inr db1
                   | Some b \<Rightarrow>
                       res_bind (owned_user i (principal_org actor) db1) (\<lambda>u1.
                         transition_status env u1 actor
                           (if b = Some True then AccountStatus.ACTIVE else AccountStatus.DEACTIVATED) db1)) (\<lambda>db2.
         res_bind (if new_role rq u = None then Inr 0 else actor_column actor) (\<lambda>_.
           Inr (case un_full_name rq of
                  None \<Rightarrow> db2
                | Some n \<Rightarrow> on_user (us_id u) (us_full_name_update (\<lambda>_. n)) db2)))))"

definition set_status ::
  "access_env \<Rightarrow> principal \<Rightarrow> uuid \<Rightarrow> AccountStatus \<Rightarrow> access_db \<Rightarrow> http_error + access_db" where
  "set_status env actor i new_status db =
     res_bind (owned_user i (principal_org actor) db) (\<lambda>u.
       if new_status = AccountStatus.INVITED
       then Inl (Http 422 ''Use the invitation action to return an account to invited state'')
       else transition_status env u actor new_status db)"

definition delete_user :: "access_env \<Rightarrow> principal \<Rightarrow> uuid \<Rightarrow> access_db \<Rightarrow> http_error + access_db" where
  "delete_user env actor i db =
     res_bind (owned_user i (principal_org actor) db) (\<lambda>u.
       transition_status env u actor AccountStatus.DEACTIVATED db)"

definition set_site_access ::
  "access_env \<Rightarrow> principal \<Rightarrow> uuid \<Rightarrow> SiteAccessMode \<Rightarrow> uuid list \<Rightarrow> access_db \<Rightarrow> http_error + access_db" where
  "set_site_access env actor i mode site_ids db =
     res_bind (owned_user i (principal_org actor) db) (\<lambda>u.
       case replace_site_assignments u (if mode = SiteAccessMode.ASSIGNED then site_ids else [])
              (principal_id actor) db of
         Inl e \<Rightarrow> Inl (Http 422 e)
       | Inr db1 \<Rightarrow>
           res_bind (actor_column actor) (\<lambda>_.
             (let db2 = on_user (us_id u) (us_site_access_mode_update (\<lambda>_. mode)) db1;
                  db3 = sync_user_compatibility_grants env (u\<lparr>us_site_access_mode := mode\<rparr>)
                          (user_actor_id actor) db2
              in Inr (invalidate_user ''site access changed'' (en_now env) u db3))))"

definition clear_password :: "user \<Rightarrow> user" where
  "clear_password u = u\<lparr>us_hashed_password := None, us_password_changed_at := None\<rparr>"

definition issue_invitation :: "link_env \<Rightarrow> principal \<Rightarrow> uuid \<Rightarrow> access_db \<Rightarrow> http_error + access_db" where
  "issue_invitation env actor i db =
     res_bind (owned_user i (principal_org actor) db) (\<lambda>u.
       if us_authentication_source u \<noteq> AuthenticationSource.LOCAL
       then Inl (Http 409 ''Externally managed users cannot receive local invitations'')
       else if us_id u = principal_id actor
       then Inl (Http 400 ''You cannot replace your own active credentials with an invitation'')
       else if is_last_admin u db then Inl (last_admin_error ''be returned to invited state'')
       else
         res_bind (ensure_break_glass_eligibility_can_be_removed u db) (\<lambda>_.
         res_bind (actor_column actor) (\<lambda>me.
           (let db1 = revoke_pending_credentials (us_id u) (en_now env) db;
                db2 = on_user (us_id u)
                        (\<lambda>x. set_account_status AccountStatus.INVITED (en_now env) (clear_password x)) db1
            in Inr (issue_link env u me db2)))))"

definition issue_password_reset :: "link_env \<Rightarrow> principal \<Rightarrow> uuid \<Rightarrow> access_db \<Rightarrow> http_error + access_db" where
  "issue_password_reset env actor i db =
     res_bind (owned_user i (principal_org actor) db) (\<lambda>u.
       if us_authentication_source u \<noteq> AuthenticationSource.LOCAL
          \<or> us_account_status u \<noteq> AccountStatus.ACTIVE \<or> us_hashed_password u = None
       then Inl (Http 409 ''Only active local accounts can receive a password-reset link'')
       else
         res_bind (actor_column actor) (\<lambda>me.
           Inr (db\<lparr>ac_resets := revoke_tokens (us_id u) (en_now env) (ac_resets db) @
             [new_link (ln_link env) u me (ln_hash env) (en_now env + minutes (ln_reset_minutes env))]\<rparr>)))"

subsection \<open>One-time links\<close>

definition usable_link :: "time \<Rightarrow> one_time_token \<Rightarrow> bool" where
  "usable_link now t \<longleftrightarrow> ot_consumed_at t = None \<and> ot_revoked_at t = None \<and> ot_expires_at t > now"

definition consume :: "uuid \<Rightarrow> time \<Rightarrow> one_time_token list \<Rightarrow> one_time_token list" where
  "consume i now = update_where (\<lambda>t. ot_id t = i) (ot_consumed_at_update (\<lambda>_. Some now))"

definition set_password :: "string \<Rightarrow> time \<Rightarrow> user \<Rightarrow> user" where
  "set_password hashed now u = u\<lparr>us_hashed_password := Some hashed, us_password_changed_at := Some now\<rparr>"

text \<open>
  The session does not flush before a query: the row of the link is consumed after the update that
  revokes the user's open links, so it also carries the revocation.
\<close>

definition accept_invitation ::
  "string \<Rightarrow> string \<Rightarrow> string option \<Rightarrow> time \<Rightarrow> access_db \<Rightarrow> http_error + access_db" where
  "accept_invitation token_hash hashed full_name now db =
     (let invalid = Inl (Http 400 ''Invitation is invalid, expired, or already used'')
      in case find (\<lambda>t. ot_token_hash t = token_hash) (ac_invitations db) of
           None \<Rightarrow> invalid
         | Some t \<Rightarrow>
             if \<not> usable_link now t then invalid
             else (case the_user db (ot_user_id t) of
                     None \<Rightarrow> invalid
                   | Some u \<Rightarrow>
                       if us_organization_id u \<noteq> ot_organization_id t
                          \<or> us_account_status u \<noteq> AccountStatus.INVITED
                       then invalid
                       else
                         (let db1 = revoke_pending_credentials (us_id u) now db;
                              activate = (\<lambda>x. set_account_status AccountStatus.ACTIVE now
                                (us_full_name_update (\<lambda>n. or_opt full_name n) (set_password hashed now x)));
                              db2 = on_user (us_id u) activate db1
                          in Inr (db2\<lparr>ac_invitations := consume (ot_id t) now (ac_invitations db2)\<rparr>))))"

definition complete_password_reset :: "string \<Rightarrow> string \<Rightarrow> time \<Rightarrow> access_db \<Rightarrow> http_error + access_db" where
  "complete_password_reset token_hash hashed now db =
     (let invalid = Inl (Http 400 ''Password-reset link is invalid, expired, or already used'')
      in case find (\<lambda>t. ot_token_hash t = token_hash) (ac_resets db) of
           None \<Rightarrow> invalid
         | Some t \<Rightarrow>
             if \<not> usable_link now t then invalid
             else (case the_user db (ot_user_id t) of
                     None \<Rightarrow> invalid
                   | Some u \<Rightarrow>
                       if us_organization_id u \<noteq> ot_organization_id t \<or> \<not> local_login_allowed u
                       then invalid
                       else
                         (let db1 = revoke_pending_credentials (us_id u) now db;
                              db2 = on_user (us_id u) (set_password hashed now) db1
                          in Inr (db2\<lparr>ac_resets := consume (ot_id t) now (ac_resets db2)\<rparr>))))"

end
