(* ===== verification/AccessOps.thy ===== *)
theory AccessOps
  imports Identity Users
begin

text \<open>
  What the operations on principals do to each table: the facts the proofs of \<open>AccessControl\<close> rest
  on.  An operation is a chain of row updates; for each chain the resulting tables are computed once.
\<close>

named_theorems tables

subsection \<open>Row updates\<close>

lemma on_user_tables [tables]:
  "ac_organizations (on_user i f db) = ac_organizations db" "ac_sites (on_user i f db) = ac_sites db"
  "ac_users (on_user i f db) = update_where (\<lambda>u. us_id u = i) f (ac_users db)"
  "ac_services (on_user i f db) = ac_services db" "ac_roles (on_user i f db) = ac_roles db"
  "ac_permissions (on_user i f db) = ac_permissions db" "ac_grants (on_user i f db) = ac_grants db"
  "ac_tokens (on_user i f db) = ac_tokens db" "ac_assignments (on_user i f db) = ac_assignments db"
  "ac_sessions (on_user i f db) = ac_sessions db"
  by (simp_all add: on_user_def)

lemma on_service_tables [tables]:
  "ac_organizations (on_service i f db) = ac_organizations db" "ac_sites (on_service i f db) = ac_sites db"
  "ac_services (on_service i f db) = update_where (\<lambda>s. sv_id s = i) f (ac_services db)"
  "ac_users (on_service i f db) = ac_users db" "ac_roles (on_service i f db) = ac_roles db"
  "ac_permissions (on_service i f db) = ac_permissions db" "ac_grants (on_service i f db) = ac_grants db"
  "ac_tokens (on_service i f db) = ac_tokens db" "ac_assignments (on_service i f db) = ac_assignments db"
  "ac_sessions (on_service i f db) = ac_sessions db"
  by (simp_all add: on_service_def)

lemma on_session_tables [tables]:
  "ac_organizations (on_session i f db) = ac_organizations db" "ac_sites (on_session i f db) = ac_sites db"
  "ac_sessions (on_session i f db) = update_where (\<lambda>s. ue_id s = i) f (ac_sessions db)"
  "ac_users (on_session i f db) = ac_users db" "ac_roles (on_session i f db) = ac_roles db"
  "ac_permissions (on_session i f db) = ac_permissions db" "ac_grants (on_session i f db) = ac_grants db"
  "ac_tokens (on_session i f db) = ac_tokens db" "ac_assignments (on_session i f db) = ac_assignments db"
  "ac_services (on_session i f db) = ac_services db"
  by (simp_all add: on_session_def)

lemma on_token_tables [tables]:
  "ac_organizations (on_token i f db) = ac_organizations db" "ac_sites (on_token i f db) = ac_sites db"
  "ac_tokens (on_token i f db) = update_where (\<lambda>t. tk_id t = i) f (ac_tokens db)"
  "ac_users (on_token i f db) = ac_users db" "ac_roles (on_token i f db) = ac_roles db"
  "ac_permissions (on_token i f db) = ac_permissions db" "ac_grants (on_token i f db) = ac_grants db"
  "ac_sessions (on_token i f db) = ac_sessions db" "ac_assignments (on_token i f db) = ac_assignments db"
  "ac_services (on_token i f db) = ac_services db"
  by (simp_all add: on_token_def)

text \<open>Everything but sessions, refresh tokens and links.\<close>

definition same_access :: "access_db \<Rightarrow> access_db \<Rightarrow> bool" where
  "same_access db db' \<longleftrightarrow>
     ac_organizations db' = ac_organizations db \<and> ac_sites db' = ac_sites db \<and> ac_users db' = ac_users db \<and>
     ac_services db' = ac_services db \<and> ac_roles db' = ac_roles db \<and> ac_permissions db' = ac_permissions db \<and>
     ac_grants db' = ac_grants db \<and> ac_tokens db' = ac_tokens db \<and> ac_assignments db' = ac_assignments db"

text \<open>What a session row never changes, and that a revocation is final.\<close>

definition session_kept :: "user_session \<Rightarrow> user_session \<Rightarrow> bool" where
  "session_kept s s' \<longleftrightarrow> ue_id s' = ue_id s \<and> ue_user_id s' = ue_user_id s \<and>
     ue_organization_id s' = ue_organization_id s \<and> ue_auth_version s' = ue_auth_version s \<and>
     (ue_revoked_at s \<noteq> None \<longrightarrow> ue_revoked_at s' \<noteq> None)"

definition sessions_kept :: "access_db \<Rightarrow> access_db \<Rightarrow> bool" where
  "sessions_kept db db' \<longleftrightarrow> list_all2 session_kept (ac_sessions db) (ac_sessions db')"

lemma session_kept_refl [simp]: "session_kept s s"
  by (simp add: session_kept_def)

lemma session_kept_trans: "session_kept s t \<Longrightarrow> session_kept t u \<Longrightarrow> session_kept s u"
  by (auto simp: session_kept_def)

lemma sessions_kept_refl [simp]: "sessions_kept db db"
  by (simp add: sessions_kept_def list_all2_refl)

lemma sessions_kept_trans: "sessions_kept a b \<Longrightarrow> sessions_kept b c \<Longrightarrow> sessions_kept a c"
  unfolding sessions_kept_def by (rule list_all2_trans [OF session_kept_trans])

lemma sessions_kept_cong: "ac_sessions db' = ac_sessions db \<Longrightarrow> sessions_kept db db'"
  by (simp add: sessions_kept_def list_all2_refl)

lemma list_all2_update_where:
  "(\<And>x. P x \<Longrightarrow> R x (f x)) \<Longrightarrow> (\<And>x. \<not> P x \<Longrightarrow> R x x) \<Longrightarrow> list_all2 R xs (update_where P f xs)"
  by (induction xs) auto

lemma sessions_kept_on_session: "(\<And>s. session_kept s (f s)) \<Longrightarrow> sessions_kept db (on_session i f db)"
  by (simp add: sessions_kept_def tables list_all2_update_where)

lemma session_kept_revoked [simp]: "session_kept s (mark_revoked reason now s)"
  by (simp add: session_kept_def mark_revoked_def)

lemma session_kept_touch [simp]: "session_kept s (touch_session now s)"
  by (simp add: session_kept_def touch_session_def)

lemma same_access_refl [simp]: "same_access db db"
  by (simp add: same_access_def)

lemma same_access_trans: "same_access a b \<Longrightarrow> same_access b c \<Longrightarrow> same_access a c"
  by (simp add: same_access_def)

lemma same_access_on_session [simp]: "same_access db (on_session i f db)"
  by (simp add: same_access_def tables)

lemma revoke_session_same: "same_access db (revoke_session s reason now db)"
  by (simp add: same_access_def revoke_session_def tables)

lemma revoke_session_kept: "sessions_kept db (revoke_session s reason now db)"
  by (rule sessions_kept_trans [OF sessions_kept_on_session [of "mark_revoked reason now" db "ue_id s"]])
    (simp_all add: revoke_session_def sessions_kept_cong)

lemma revoke_all_same: "same_access db (revoke_all ss reason now db)"
  by (induction ss arbitrary: db) (auto simp: revoke_all_def intro: same_access_trans revoke_session_same)

lemma revoke_all_kept: "sessions_kept db (revoke_all ss reason now db)"
  by (induction ss arbitrary: db) (auto simp: revoke_all_def intro: sessions_kept_trans revoke_session_kept)

lemma revoke_user_sessions_same: "same_access db (fst (revoke_user_sessions i reason ex now db))"
  by (simp add: revoke_user_sessions_def Let_def revoke_all_same)

lemma revoke_user_sessions_kept: "sessions_kept db (fst (revoke_user_sessions i reason ex now db))"
  by (simp add: revoke_user_sessions_def Let_def revoke_all_kept)

lemma revoked_tables [tables]:
  "ac_organizations (fst (revoke_user_sessions i reason ex now db)) = ac_organizations db"
  "ac_sites (fst (revoke_user_sessions i reason ex now db)) = ac_sites db"
  "ac_users (fst (revoke_user_sessions i reason ex now db)) = ac_users db"
  "ac_services (fst (revoke_user_sessions i reason ex now db)) = ac_services db"
  "ac_roles (fst (revoke_user_sessions i reason ex now db)) = ac_roles db"
  "ac_permissions (fst (revoke_user_sessions i reason ex now db)) = ac_permissions db"
  "ac_grants (fst (revoke_user_sessions i reason ex now db)) = ac_grants db"
  "ac_tokens (fst (revoke_user_sessions i reason ex now db)) = ac_tokens db"
  "ac_assignments (fst (revoke_user_sessions i reason ex now db)) = ac_assignments db"
  using revoke_user_sessions_same [of db i reason ex now] by (simp_all add: same_access_def)

lemma revoke_session_tables [tables]:
  "ac_organizations (revoke_session s reason now db) = ac_organizations db"
  "ac_sites (revoke_session s reason now db) = ac_sites db"
  "ac_users (revoke_session s reason now db) = ac_users db"
  "ac_services (revoke_session s reason now db) = ac_services db"
  "ac_roles (revoke_session s reason now db) = ac_roles db"
  "ac_permissions (revoke_session s reason now db) = ac_permissions db"
  "ac_grants (revoke_session s reason now db) = ac_grants db"
  "ac_tokens (revoke_session s reason now db) = ac_tokens db"
  "ac_assignments (revoke_session s reason now db) = ac_assignments db"
  using revoke_session_same [of db s reason now] by (simp_all add: same_access_def)

lemma revoke_all_tables [tables]:
  "ac_organizations (revoke_all ss reason now db) = ac_organizations db"
  "ac_sites (revoke_all ss reason now db) = ac_sites db"
  "ac_users (revoke_all ss reason now db) = ac_users db"
  "ac_services (revoke_all ss reason now db) = ac_services db"
  "ac_roles (revoke_all ss reason now db) = ac_roles db"
  "ac_permissions (revoke_all ss reason now db) = ac_permissions db"
  "ac_grants (revoke_all ss reason now db) = ac_grants db"
  "ac_tokens (revoke_all ss reason now db) = ac_tokens db"
  "ac_assignments (revoke_all ss reason now db) = ac_assignments db"
  using revoke_all_same [of db ss reason now] by (simp_all add: same_access_def)

subsection \<open>Composite operations\<close>

lemma invalidate_user_tables [tables]:
  "ac_organizations (invalidate_user reason now u db) = ac_organizations db"
  "ac_sites (invalidate_user reason now u db) = ac_sites db"
  "ac_users (invalidate_user reason now u db) = update_where (\<lambda>x. us_id x = us_id u) bump_user (ac_users db)"
  "ac_services (invalidate_user reason now u db) = ac_services db"
  "ac_roles (invalidate_user reason now u db) = ac_roles db"
  "ac_permissions (invalidate_user reason now u db) = ac_permissions db"
  "ac_grants (invalidate_user reason now u db) = ac_grants db"
  "ac_tokens (invalidate_user reason now u db) = ac_tokens db"
  "ac_assignments (invalidate_user reason now u db) = ac_assignments db"
  by (simp_all add: invalidate_user_def tables)

lemma invalidate_user_kept: "sessions_kept db (invalidate_user reason now u db)"
  unfolding invalidate_user_def
  by (rule sessions_kept_trans [OF sessions_kept_cong revoke_user_sessions_kept]) (simp add: tables)

lemma sync_fields_tables [tables]:
  "ac_organizations (sync_user_compatibility_fields now u db) = ac_organizations db"
  "ac_sites (sync_user_compatibility_fields now u db) = ac_sites db"
  "ac_users (sync_user_compatibility_fields now u db) = update_where (\<lambda>x. us_id x = us_id u) (synced_fields db now) (ac_users db)"
  "ac_services (sync_user_compatibility_fields now u db) = ac_services db"
  "ac_roles (sync_user_compatibility_fields now u db) = ac_roles db"
  "ac_permissions (sync_user_compatibility_fields now u db) = ac_permissions db"
  "ac_grants (sync_user_compatibility_fields now u db) = ac_grants db"
  "ac_tokens (sync_user_compatibility_fields now u db) = ac_tokens db"
  "ac_assignments (sync_user_compatibility_fields now u db) = synced_assignments db u"
  "ac_sessions (sync_user_compatibility_fields now u db) = ac_sessions db"
  by (simp_all add: sync_user_compatibility_fields_def tables)

lemma sync_service_tables [tables]:
  "ac_organizations (sync_service_account_primary_role s db) = ac_organizations db"
  "ac_sites (sync_service_account_primary_role s db) = ac_sites db"
  "ac_users (sync_service_account_primary_role s db) = ac_users db"
  "ac_services (sync_service_account_primary_role s db) = update_where (\<lambda>x. sv_id x = sv_id s)
     (sv_primary_role_update (\<lambda>_. primary_role (map fst (compatibility_rows db (ServiceP s))))) (ac_services db)"
  "ac_roles (sync_service_account_primary_role s db) = ac_roles db"
  "ac_permissions (sync_service_account_primary_role s db) = ac_permissions db"
  "ac_grants (sync_service_account_primary_role s db) = ac_grants db"
  "ac_tokens (sync_service_account_primary_role s db) = ac_tokens db"
  "ac_assignments (sync_service_account_primary_role s db) = ac_assignments db"
  "ac_sessions (sync_service_account_primary_role s db) = ac_sessions db"
  by (simp_all add: sync_service_account_primary_role_def tables)

lemma links_tables [tables]:
  "ac_organizations (revoke_links i now db) = ac_organizations db"
  "ac_sites (revoke_links i now db) = ac_sites db"
  "ac_users (revoke_links i now db) = ac_users db"
  "ac_services (revoke_links i now db) = ac_services db"
  "ac_roles (revoke_links i now db) = ac_roles db"
  "ac_permissions (revoke_links i now db) = ac_permissions db"
  "ac_grants (revoke_links i now db) = ac_grants db"
  "ac_tokens (revoke_links i now db) = ac_tokens db"
  "ac_assignments (revoke_links i now db) = ac_assignments db"
  "ac_sessions (revoke_links i now db) = ac_sessions db"
  by (simp_all add: revoke_links_def)

lemma issue_link_tables [tables]:
  "ac_organizations (issue_link lenv u me db) = ac_organizations db"
  "ac_sites (issue_link lenv u me db) = ac_sites db"
  "ac_users (issue_link lenv u me db) = ac_users db"
  "ac_services (issue_link lenv u me db) = ac_services db"
  "ac_roles (issue_link lenv u me db) = ac_roles db"
  "ac_permissions (issue_link lenv u me db) = ac_permissions db"
  "ac_grants (issue_link lenv u me db) = ac_grants db"
  "ac_tokens (issue_link lenv u me db) = ac_tokens db"
  "ac_assignments (issue_link lenv u me db) = ac_assignments db"
  "ac_sessions (issue_link lenv u me db) = ac_sessions db"
  by (simp_all add: issue_link_def)

lemma pending_tables [tables]:
  "ac_organizations (revoke_pending_credentials i now db) = ac_organizations db"
  "ac_sites (revoke_pending_credentials i now db) = ac_sites db"
  "ac_users (revoke_pending_credentials i now db) = update_where (\<lambda>x. us_id x = i) clear_credentials (ac_users db)"
  "ac_services (revoke_pending_credentials i now db) = ac_services db"
  "ac_roles (revoke_pending_credentials i now db) = ac_roles db"
  "ac_permissions (revoke_pending_credentials i now db) = ac_permissions db"
  "ac_grants (revoke_pending_credentials i now db) = ac_grants db"
  "ac_tokens (revoke_pending_credentials i now db) = ac_tokens db"
  "ac_assignments (revoke_pending_credentials i now db) = ac_assignments db"
  by (simp_all add: revoke_pending_credentials_def tables)

lemma pending_kept: "sessions_kept db (revoke_pending_credentials i now db)"
proof -
  have "sessions_kept db (fst (revoke_user_sessions i ''account credentials changed'' None now
      (on_user i clear_credentials db)))"
    by (rule sessions_kept_trans [OF sessions_kept_cong revoke_user_sessions_kept]) (simp add: tables)
  then show ?thesis
    unfolding revoke_pending_credentials_def by (rule sessions_kept_trans) (simp add: sessions_kept_cong tables)
qed

end
