(* ===== verification/AccessInvariant.thy ===== *)
theory AccessInvariant
  imports AccessOps
begin

text \<open>
  The authorization tables over time: their invariant \<open>access_ok\<close>, what a principal may do
  (\<open>access_view\<close>), and the relation \<open>sound\<close> between the tables before and after an operation: the
  invariant is kept, versions of principals never go back, issued credentials never change, and a
  principal whose version is unchanged may do exactly what it could do before.
\<close>

subsection \<open>Installation\<close>

text \<open>\<open>ensure_bootstrap_admin\<close> and \<open>run_bootstrap\<close> of \<^verbatim>\<open>app/services/bootstrap.py\<close> on an empty database.\<close>

definition bootstrap_admin :: "uuid \<Rightarrow> uuid \<Rightarrow> string \<Rightarrow> string \<Rightarrow> user" where
  "bootstrap_admin i org email hashed =
     \<lparr>us_id = i, us_organization_id = org, us_email = lower (strip email),
      us_hashed_password = Some hashed, us_full_name = Some ''Administrator'',
      us_role = UserRole.ADMINISTRATOR, us_is_active = True, us_account_status = AccountStatus.ACTIVE,
      us_authentication_source = AuthenticationSource.LOCAL, us_site_access_mode = SiteAccessMode.ALL,
      us_auth_version = 1, us_authorization_migrated_at = None, us_last_login_at = None,
      us_invited_at = None, us_activated_at = None, us_suspended_at = None, us_deactivated_at = None,
      us_password_changed_at = None, us_mfa_grace_expires_at = None, us_is_break_glass = False,
      us_created_by_user_id = None, us_recovery_codes = [], us_recovery_codes_generated_at = None\<rparr>"

definition empty_access :: "uuid \<Rightarrow> access_db" where
  "empty_access org =
     \<lparr>ac_organizations = [\<lparr>og_id = org, og_session_policy = []\<rparr>], ac_sites = [], ac_users = [],
      ac_services = [], ac_roles = [], ac_permissions = [], ac_grants = [], ac_tokens = [],
      ac_assignments = [], ac_sessions = [], ac_refresh = [], ac_invitations = [], ac_resets = [],
      ac_sso_policies = [], ac_totp = [], ac_webauthn = []\<rparr>"

definition run_bootstrap :: "access_env \<Rightarrow> uuid \<Rightarrow> string \<Rightarrow> string \<Rightarrow> access_db" where
  "run_bootstrap env org email hashed =
     (let db = ensure_builtin_roles (en_roles env) org (empty_access org);
          admin = bootstrap_admin (en_fresh env) org email hashed
      in sync_user_compatibility_grants env admin None (db\<lparr>ac_users := [admin]\<rparr>))"

subsection \<open>The invariant\<close>

definition keys_ok :: "access_db \<Rightarrow> bool" where
  "keys_ok db \<longleftrightarrow> distinct (map us_id (ac_users db)) \<and> distinct (map sv_id (ac_services db)) \<and>
     distinct (map ar_id (ac_roles db)) \<and> distinct (map tk_id (ac_tokens db)) \<and>
     distinct (map ue_id (ac_sessions db))"

text \<open>Every permission of a role is in the catalogue, belongs to a role of its organization.\<close>

definition catalogue_ok :: "access_db \<Rightarrow> bool" where
  "catalogue_ok db \<longleftrightarrow> (\<forall>m \<in> set (ac_permissions db). rm_permission_key m \<in> set ALL_PERMISSION_KEYS \<and>
     (\<exists>a \<in> set (ac_roles db). ar_id a = rm_role_id m \<and> ar_organization_id a = rm_organization_id m))"

definition exact :: "access_db \<Rightarrow> auth_role \<Rightarrow> UserRole \<Rightarrow> bool" where
  "exact db a r \<longleftrightarrow>
     rm_permission_key ` {m \<in> set (ac_permissions db). rm_role_id m = ar_id a} = set (BUILTIN_ROLE_PERMISSIONS r)"

text \<open>Every organization has the six built-in roles, once each, with exactly the permissions of the code.\<close>

definition builtins_ok :: "access_db \<Rightarrow> bool" where
  "builtins_ok db \<longleftrightarrow>
     (\<forall>o' \<in> set (ac_organizations db). \<forall>r. \<exists>a \<in> set (ac_roles db).
        ar_organization_id a = og_id o' \<and> ar_compatibility_role a = Some r) \<and>
     (\<forall>a \<in> set (ac_roles db). \<forall>r. ar_compatibility_role a = Some r \<longrightarrow> ar_is_system a \<and> exact db a r) \<and>
     (\<forall>a \<in> set (ac_roles db). ar_is_system a \<longrightarrow> ar_compatibility_role a \<noteq> None) \<and>
     (\<forall>a \<in> set (ac_roles db). \<forall>b \<in> set (ac_roles db). ar_organization_id a = ar_organization_id b \<longrightarrow>
        ar_compatibility_role a = ar_compatibility_role b \<longrightarrow> ar_compatibility_role a \<noteq> None \<longrightarrow> a = b)"

definition orgs_ok :: "access_db \<Rightarrow> bool" where
  "orgs_ok db \<longleftrightarrow>
     (\<forall>u \<in> set (ac_users db). us_organization_id u \<in> og_id ` set (ac_organizations db)) \<and>
     (\<forall>s \<in> set (ac_services db). sv_organization_id s \<in> og_id ` set (ac_organizations db))"

text \<open>A row that names a principal names one of its kind and organization (the check constraints).\<close>

definition principal_ok ::
  "access_db \<Rightarrow> PrincipalType \<Rightarrow> uuid option \<Rightarrow> uuid option \<Rightarrow> uuid \<Rightarrow> bool" where
  "principal_ok db kind user service org \<longleftrightarrow>
     (case kind of
        PrincipalType.USER \<Rightarrow> service = None \<and>
          (\<exists>u \<in> set (ac_users db). user = Some (us_id u) \<and> us_organization_id u = org)
      | PrincipalType.SERVICE_ACCOUNT \<Rightarrow> user = None \<and>
          (\<exists>s \<in> set (ac_services db). service = Some (sv_id s) \<and> sv_organization_id s = org))"

definition grant_ok :: "access_db \<Rightarrow> scoped_grant \<Rightarrow> bool" where
  "grant_ok db g \<longleftrightarrow>
     principal_ok db (gr_principal_type g) (gr_user_id g) (gr_service_account_id g) (gr_organization_id g) \<and>
     (\<exists>a \<in> set (ac_roles db). ar_id a = gr_role_id g \<and> ar_organization_id a = gr_organization_id g) \<and>
     (case gr_scope_type g of
        GrantScopeType.ORGANIZATION \<Rightarrow> gr_scope_id g = gr_organization_id g
      | GrantScopeType.SITE \<Rightarrow> site_in db (gr_organization_id g) (gr_scope_id g))"

definition token_ok :: "access_db \<Rightarrow> api_token \<Rightarrow> bool" where
  "token_ok db t \<longleftrightarrow>
     (case tk_principal_type t of
        PrincipalType.USER \<Rightarrow> tk_service_account_id t = None \<and>
          (\<exists>u \<in> set (ac_users db). tk_user_id t = Some (us_id u) \<and>
             us_organization_id u = tk_organization_id t \<and> tk_issued_auth_version t \<le> us_auth_version u)
      | PrincipalType.SERVICE_ACCOUNT \<Rightarrow> tk_user_id t = None \<and>
          (\<exists>s \<in> set (ac_services db). tk_service_account_id t = Some (sv_id s) \<and>
             sv_organization_id s = tk_organization_id t \<and> tk_issued_auth_version t \<le> sv_auth_version s))"

definition assignment_ok :: "access_db \<Rightarrow> site_assignment \<Rightarrow> bool" where
  "assignment_ok db a \<longleftrightarrow> site_in db (ux_organization_id a) (ux_site_id a) \<and>
     (\<exists>u \<in> set (ac_users db). us_id u = ux_user_id a \<and> us_organization_id u = ux_organization_id a)"

definition session_ok :: "access_db \<Rightarrow> user_session \<Rightarrow> bool" where
  "session_ok db s \<longleftrightarrow> (\<exists>u \<in> set (ac_users db). us_id u = ue_user_id s \<and>
     us_organization_id u = ue_organization_id s \<and> ue_auth_version s \<le> us_auth_version u)"

definition access_ok :: "access_db \<Rightarrow> bool" where
  "access_ok db \<longleftrightarrow> keys_ok db \<and> catalogue_ok db \<and> builtins_ok db \<and> orgs_ok db \<and>
     (\<forall>g \<in> set (ac_grants db). grant_ok db g) \<and> (\<forall>t \<in> set (ac_tokens db). token_ok db t) \<and>
     (\<forall>a \<in> set (ac_assignments db). assignment_ok db a) \<and> (\<forall>s \<in> set (ac_sessions db). session_ok db s)"

lemma access_okD:
  assumes "access_ok db"
  shows "keys_ok db" "catalogue_ok db" "builtins_ok db" "orgs_ok db"
    "\<And>g. g \<in> set (ac_grants db) \<Longrightarrow> grant_ok db g" "\<And>t. t \<in> set (ac_tokens db) \<Longrightarrow> token_ok db t"
    "\<And>a. a \<in> set (ac_assignments db) \<Longrightarrow> assignment_ok db a" "\<And>s. s \<in> set (ac_sessions db) \<Longrightarrow> session_ok db s"
  using assms by (simp_all add: access_ok_def)

lemma access_okI:
  assumes "keys_ok db" "catalogue_ok db" "builtins_ok db" "orgs_ok db"
    "\<And>g. g \<in> set (ac_grants db) \<Longrightarrow> grant_ok db g" "\<And>t. t \<in> set (ac_tokens db) \<Longrightarrow> token_ok db t"
    "\<And>a. a \<in> set (ac_assignments db) \<Longrightarrow> assignment_ok db a" "\<And>s. s \<in> set (ac_sessions db) \<Longrightarrow> session_ok db s"
  shows "access_ok db"
  using assms by (simp add: access_ok_def)

subsection \<open>Lookups\<close>

type_synonym principal_key = "PrincipalType \<times> uuid"

fun lookup :: "access_db \<Rightarrow> principal_key \<Rightarrow> principal option" where
  "lookup db (PrincipalType.USER, i) = map_option UserP (the_user db i)"
| "lookup db (PrincipalType.SERVICE_ACCOUNT, i) = map_option ServiceP (the_service db i)"

definition key_of :: "principal \<Rightarrow> principal_key" where
  "key_of p = (principal_type p, principal_id p)"

lemma lookup_user [simp]: "lookup db (PrincipalType.USER, i) = Some p \<longleftrightarrow> (\<exists>u. the_user db i = Some u \<and> p = UserP u)"
  by auto

lemma lookup_service [simp]:
  "lookup db (PrincipalType.SERVICE_ACCOUNT, i) = Some p \<longleftrightarrow> (\<exists>s. the_service db i = Some s \<and> p = ServiceP s)"
  by auto

lemma the_user_Some: "the_user db i = Some u \<Longrightarrow> u \<in> set (ac_users db) \<and> us_id u = i"
  by (auto simp: the_user_def dest: find_SomeD)

lemma the_service_Some: "the_service db i = Some s \<Longrightarrow> s \<in> set (ac_services db) \<and> sv_id s = i"
  by (auto simp: the_service_def dest: find_SomeD)

lemma the_user_mem: "keys_ok db \<Longrightarrow> u \<in> set (ac_users db) \<Longrightarrow> the_user db (us_id u) = Some u"
  by (simp add: keys_ok_def the_user_def find_by_key)

lemma the_service_mem: "keys_ok db \<Longrightarrow> s \<in> set (ac_services db) \<Longrightarrow> the_service db (sv_id s) = Some s"
  by (simp add: keys_ok_def the_service_def find_by_key)

lemma lookup_key: "lookup db k = Some p \<Longrightarrow> key_of p = k"
  by (cases k; cases "fst k") (auto simp: key_of_def dest: the_user_Some the_service_Some)

subsection \<open>Views and evolution\<close>

text \<open>All that \<open>effective_permissions\<close> reads of a principal.\<close>

definition access_view :: "access_db \<Rightarrow> principal \<Rightarrow> (string \<times> GrantScopeType \<times> uuid) set \<times> string list option" where
  "access_view db p =
     (set (permission_rows db p), if unmigrated p then Some (legacy_permissions p) else None)"

lemma effective_view:
  assumes "access_view db p = access_view db' p'"
  shows "set (effective_permissions db p st i) = set (effective_permissions db' p' st i)"
proof -
  have rows: "set (permission_rows db p) = set (permission_rows db' p')" and un: "unmigrated p = unmigrated p'"
    and legacy: "unmigrated p \<Longrightarrow> legacy_permissions p = legacy_permissions p'"
    using assms by (auto simp: access_view_def split: if_split_asm)
  have empty: "permission_rows db p = [] \<longleftrightarrow> permission_rows db' p' = []" using rows by (metis set_empty)
  show ?thesis using rows un legacy empty by (simp add: effective_permissions_def Let_def)
qed

lemma in_concat_map: "x \<in> set (concat (map f xs)) \<longleftrightarrow> (\<exists>y \<in> set xs. x \<in> set (f y))"
  by auto

lemma in_guarded: "x \<in> set (if b then xs else []) \<longleftrightarrow> b \<and> x \<in> set xs"
  by simp

lemma permission_rows_iff:
  "(k, st, i) \<in> set (permission_rows db p) \<longleftrightarrow>
     (\<exists>m \<in> set (ac_permissions db). \<exists>a \<in> set (ac_roles db). \<exists>g \<in> set (ac_grants db).
        rm_organization_id m = principal_org p \<and> ar_id a = rm_role_id m \<and>
        ar_organization_id a = principal_org p \<and> gr_role_id g = ar_id a \<and>
        gr_organization_id g = principal_org p \<and> principal_filter p g \<and>
        k = rm_permission_key m \<and> st = gr_scope_type g \<and> i = gr_scope_id g)"
  unfolding permission_rows_def in_concat_map in_guarded list.set insert_iff empty_iff prod.inject
  by blast

definition principal_evolves :: "access_db \<Rightarrow> access_db \<Rightarrow> principal \<Rightarrow> principal \<Rightarrow> bool" where
  "principal_evolves db db' p p' \<longleftrightarrow> key_of p' = key_of p \<and> principal_org p' = principal_org p \<and>
     principal_version p \<le> principal_version p' \<and>
     (principal_version p' = principal_version p \<longrightarrow> access_view db' p' = access_view db p)"

definition token_kept :: "api_token \<Rightarrow> api_token \<Rightarrow> bool" where
  "token_kept t t' \<longleftrightarrow> tk_id t' = tk_id t \<and> tk_organization_id t' = tk_organization_id t \<and>
     tk_principal_type t' = tk_principal_type t \<and> tk_user_id t' = tk_user_id t \<and>
     tk_service_account_id t' = tk_service_account_id t \<and> tk_token_hash t' = tk_token_hash t \<and>
     tk_issued_auth_version t' = tk_issued_auth_version t \<and> tk_expires_at t' = tk_expires_at t \<and>
     (tk_revoked_at t \<noteq> None \<longrightarrow> tk_revoked_at t' \<noteq> None)"

definition principals :: "access_db \<Rightarrow> principal set" where
  "principals db = UserP ` set (ac_users db) \<union> ServiceP ` set (ac_services db)"

definition evolves :: "access_db \<Rightarrow> access_db \<Rightarrow> bool" where
  "evolves db db' \<longleftrightarrow>
     ac_organizations db' = ac_organizations db \<and> set (ac_sites db) \<subseteq> set (ac_sites db') \<and>
     (\<forall>p \<in> principals db. \<exists>p' \<in> principals db'. principal_evolves db db' p p') \<and>
     (\<forall>t \<in> set (ac_tokens db). \<exists>t' \<in> set (ac_tokens db'). token_kept t t') \<and>
     (\<forall>s \<in> set (ac_sessions db). \<exists>s' \<in> set (ac_sessions db'). session_kept s s')"

definition sound :: "access_db \<Rightarrow> access_db \<Rightarrow> bool" where
  "sound db db' \<longleftrightarrow> (access_ok db \<longrightarrow> access_ok db' \<and> evolves db db')"

lemma principal_evolves_trans:
  "principal_evolves a b p q \<Longrightarrow> principal_evolves b c q r \<Longrightarrow> principal_evolves a c p r"
  unfolding principal_evolves_def by (metis order_antisym_conv order_trans)

lemma principal_evolves_refl [simp]: "principal_evolves db db p p"
  by (simp add: principal_evolves_def)

lemma token_kept_trans: "token_kept t u \<Longrightarrow> token_kept u v \<Longrightarrow> token_kept t v"
  by (auto simp: token_kept_def)

lemma token_kept_refl [simp]: "token_kept t t"
  by (simp add: token_kept_def)

lemma evolves_refl [simp]: "evolves db db"
  unfolding evolves_def using principal_evolves_refl token_kept_refl session_kept_refl by blast

lemma chain:
  assumes "\<forall>x \<in> A. \<exists>y \<in> B. R x y" and "\<forall>y \<in> B. \<exists>z \<in> C. S y z" and "\<And>x y z. R x y \<Longrightarrow> S y z \<Longrightarrow> T x z"
  shows "\<forall>x \<in> A. \<exists>z \<in> C. T x z"
  using assms by meson

lemma evolves_trans: "evolves a b \<Longrightarrow> evolves b c \<Longrightarrow> evolves a c"
  unfolding evolves_def
  by (elim conjE, intro conjI)
    (simp, blast, (erule (1) chain, erule (1) principal_evolves_trans), (erule (1) chain, erule (1) token_kept_trans),
      (erule (1) chain, erule (1) session_kept_trans))

lemma sound_refl [simp]: "sound db db"
  by (simp add: sound_def)

lemma sound_trans: "sound a b \<Longrightarrow> sound b c \<Longrightarrow> sound a c"
  by (auto simp: sound_def intro: evolves_trans)

subsection \<open>Keeping the invariant\<close>

lemma all2_right: "list_all2 R xs ys \<Longrightarrow> y \<in> set ys \<Longrightarrow> \<exists>x \<in> set xs. R x y"
  by (induction rule: list_all2_induct) auto

lemma all2_left: "list_all2 R xs ys \<Longrightarrow> x \<in> set xs \<Longrightarrow> \<exists>y \<in> set ys. R x y"
  by (induction rule: list_all2_induct) auto

lemma all2_keys: "list_all2 R xs ys \<Longrightarrow> (\<And>x y. R x y \<Longrightarrow> f y = f x) \<Longrightarrow> map f ys = map f xs"
  by (induction rule: list_all2_induct) auto

definition user_grows :: "user \<Rightarrow> user \<Rightarrow> bool" where
  "user_grows u u' \<longleftrightarrow> us_id u' = us_id u \<and> us_organization_id u' = us_organization_id u \<and>
     us_auth_version u \<le> us_auth_version u'"

definition service_grows :: "service_account \<Rightarrow> service_account \<Rightarrow> bool" where
  "service_grows s s' \<longleftrightarrow> sv_id s' = sv_id s \<and> sv_organization_id s' = sv_organization_id s \<and>
     sv_auth_version s \<le> sv_auth_version s'"

lemma grows_refl [simp]: "user_grows u u" "service_grows s s"
  by (simp_all add: user_grows_def service_grows_def)

text \<open>Rows of the identity tables are only updated in place.\<close>

definition rows_grow :: "access_db \<Rightarrow> access_db \<Rightarrow> bool" where
  "rows_grow db db' \<longleftrightarrow>
     ac_organizations db' = ac_organizations db \<and> set (ac_sites db) \<subseteq> set (ac_sites db') \<and>
     list_all2 user_grows (ac_users db) (ac_users db') \<and>
     list_all2 service_grows (ac_services db) (ac_services db') \<and>
     list_all2 token_kept (ac_tokens db) (ac_tokens db') \<and> sessions_kept db db'"

lemma rows_growD:
  assumes "rows_grow db db'"
  shows "ac_organizations db' = ac_organizations db" "set (ac_sites db) \<subseteq> set (ac_sites db')"
    "list_all2 user_grows (ac_users db) (ac_users db')" "list_all2 service_grows (ac_services db) (ac_services db')"
    "list_all2 token_kept (ac_tokens db) (ac_tokens db')" "sessions_kept db db'"
  using assms by (simp_all add: rows_grow_def)

lemma rows_grow_userE:
  assumes "rows_grow db db'" and "u \<in> set (ac_users db)"
  obtains u' where "u' \<in> set (ac_users db')" and "us_id u' = us_id u"
    and "us_organization_id u' = us_organization_id u" and "us_auth_version u \<le> us_auth_version u'"
  using all2_left [OF rows_growD(3) [OF assms(1)] assms(2)] by (auto simp: user_grows_def)

lemma rows_grow_serviceE:
  assumes "rows_grow db db'" and "s \<in> set (ac_services db)"
  obtains s' where "s' \<in> set (ac_services db')" and "sv_id s' = sv_id s"
    and "sv_organization_id s' = sv_organization_id s" and "sv_auth_version s \<le> sv_auth_version s'"
  using all2_left [OF rows_growD(4) [OF assms(1)] assms(2)] by (auto simp: service_grows_def)

lemma site_in_mono: "set (ac_sites db) \<subseteq> set (ac_sites db') \<Longrightarrow> site_in db o' i \<Longrightarrow> site_in db' o' i"
  by (auto simp: site_in_def)

lemma principal_ok_mono:
  assumes "rows_grow db db'" and "principal_ok db kind user service o'"
  shows "principal_ok db' kind user service o'"
proof (cases kind)
  case USER
  then obtain u where "service = None" "u \<in> set (ac_users db)" "user = Some (us_id u)" "us_organization_id u = o'"
    using assms(2) by (auto simp: principal_ok_def)
  moreover from this obtain u' where "u' \<in> set (ac_users db')" "us_id u' = us_id u"
    "us_organization_id u' = us_organization_id u" by (elim rows_grow_userE [OF assms(1)])
  ultimately show ?thesis using USER by (auto simp: principal_ok_def intro!: bexI [of _ u'])
next
  case SERVICE_ACCOUNT
  then obtain s where "user = None" "s \<in> set (ac_services db)" "service = Some (sv_id s)" "sv_organization_id s = o'"
    using assms(2) by (auto simp: principal_ok_def)
  moreover from this obtain s' where "s' \<in> set (ac_services db')" "sv_id s' = sv_id s"
    "sv_organization_id s' = sv_organization_id s" by (elim rows_grow_serviceE [OF assms(1)])
  ultimately show ?thesis using SERVICE_ACCOUNT by (auto simp: principal_ok_def intro!: bexI [of _ s'])
qed

lemma grant_ok_mono:
  assumes "rows_grow db db'" and "grant_ok db g"
    and "\<exists>a \<in> set (ac_roles db'). ar_id a = gr_role_id g \<and> ar_organization_id a = gr_organization_id g"
  shows "grant_ok db' g"
  using assms(2,3) principal_ok_mono [OF assms(1)] site_in_mono [OF rows_growD(2) [OF assms(1)]]
  unfolding grant_ok_def by (cases "gr_scope_type g") auto

lemma token_ok_mono:
  assumes "rows_grow db db'" and "token_ok db t" and "token_kept t t'"
  shows "token_ok db' t'"
proof (cases "tk_principal_type t")
  case USER
  then obtain u where u: "u \<in> set (ac_users db)" "tk_service_account_id t = None" "tk_user_id t = Some (us_id u)"
    "us_organization_id u = tk_organization_id t" "tk_issued_auth_version t \<le> us_auth_version u"
    using assms(2) by (auto simp: token_ok_def)
  moreover obtain u' where "u' \<in> set (ac_users db')" "us_id u' = us_id u"
    "us_organization_id u' = us_organization_id u" "us_auth_version u \<le> us_auth_version u'"
    by (rule rows_grow_userE [OF assms(1) u(1)])
  ultimately show ?thesis using assms(3) USER by (auto simp: token_ok_def token_kept_def intro!: bexI [of _ u'])
next
  case SERVICE_ACCOUNT
  then obtain s where s: "s \<in> set (ac_services db)" "tk_user_id t = None" "tk_service_account_id t = Some (sv_id s)"
    "sv_organization_id s = tk_organization_id t" "tk_issued_auth_version t \<le> sv_auth_version s"
    using assms(2) by (auto simp: token_ok_def)
  moreover obtain s' where "s' \<in> set (ac_services db')" "sv_id s' = sv_id s"
    "sv_organization_id s' = sv_organization_id s" "sv_auth_version s \<le> sv_auth_version s'"
    by (rule rows_grow_serviceE [OF assms(1) s(1)])
  ultimately show ?thesis using assms(3) SERVICE_ACCOUNT
    by (auto simp: token_ok_def token_kept_def intro!: bexI [of _ s'])
qed

lemma assignment_ok_mono:
  assumes "rows_grow db db'" and "assignment_ok db a"
  shows "assignment_ok db' a"
proof -
  obtain u where u: "u \<in> set (ac_users db)" "us_id u = ux_user_id a" "us_organization_id u = ux_organization_id a"
    and site: "site_in db (ux_organization_id a) (ux_site_id a)" using assms(2) by (auto simp: assignment_ok_def)
  obtain u' where "u' \<in> set (ac_users db')" "us_id u' = us_id u" "us_organization_id u' = us_organization_id u"
    by (rule rows_grow_userE [OF assms(1) u(1)])
  then show ?thesis using u site_in_mono [OF rows_growD(2) [OF assms(1)] site]
    by (auto simp: assignment_ok_def intro!: bexI [of _ u'])
qed

lemma session_ok_mono:
  assumes "rows_grow db db'" and "session_ok db s" and "session_kept s s'"
  shows "session_ok db' s'"
proof -
  obtain u where u: "u \<in> set (ac_users db)" "us_id u = ue_user_id s" "us_organization_id u = ue_organization_id s"
    "ue_auth_version s \<le> us_auth_version u" using assms(2) by (auto simp: session_ok_def)
  obtain u' where "u' \<in> set (ac_users db')" "us_id u' = us_id u" "us_organization_id u' = us_organization_id u"
    "us_auth_version u \<le> us_auth_version u'"
    by (rule rows_grow_userE [OF assms(1) u(1)])
  with u assms(3) show ?thesis by (auto simp: session_ok_def session_kept_def intro!: bexI [of _ u'])
qed

lemma orgs_ok_mono:
  assumes "rows_grow db db'" and "orgs_ok db"
  shows "orgs_ok db'"
proof -
  have "us_organization_id u' \<in> og_id ` set (ac_organizations db)" if "u' \<in> set (ac_users db')" for u'
    using all2_right [OF rows_growD(3) [OF assms(1)] that] assms(2) by (auto simp: orgs_ok_def user_grows_def)
  moreover have "sv_organization_id s' \<in> og_id ` set (ac_organizations db)" if "s' \<in> set (ac_services db')" for s'
    using all2_right [OF rows_growD(4) [OF assms(1)] that] assms(2) by (auto simp: orgs_ok_def service_grows_def)
  ultimately show ?thesis by (simp add: orgs_ok_def rows_growD(1) [OF assms(1)])
qed

text \<open>The parts of the invariant on roles, grants and assignments.\<close>

definition policy_ok :: "access_db \<Rightarrow> bool" where
  "policy_ok db \<longleftrightarrow> distinct (map ar_id (ac_roles db)) \<and> catalogue_ok db \<and> builtins_ok db \<and>
     (\<forall>g \<in> set (ac_grants db). grant_ok db g) \<and> (\<forall>a \<in> set (ac_assignments db). assignment_ok db a)"

lemma access_ok_policy: "access_ok db \<Longrightarrow> policy_ok db"
  by (simp add: access_ok_def policy_ok_def keys_ok_def)

text \<open>The principals that keep their version keep their view.\<close>

definition views_kept :: "access_db \<Rightarrow> access_db \<Rightarrow> bool" where
  "views_kept db db' \<longleftrightarrow> (\<forall>p \<in> principals db. \<forall>p' \<in> principals db'.
     key_of p' = key_of p \<longrightarrow> principal_version p' = principal_version p \<longrightarrow> access_view db' p' = access_view db p)"

lemma rows_grow_principalE:
  assumes "rows_grow db db'" and "p \<in> principals db"
  obtains p' where "p' \<in> principals db'" and "key_of p' = key_of p" and "principal_org p' = principal_org p"
    and "principal_version p \<le> principal_version p'"
proof (cases p)
  case (UserP u)
  then have "u \<in> set (ac_users db)" using assms(2) by (auto simp: principals_def)
  then obtain u' where "u' \<in> set (ac_users db')" "us_id u' = us_id u" "us_organization_id u' = us_organization_id u"
    "us_auth_version u \<le> us_auth_version u'" by (rule rows_grow_userE [OF assms(1)])
  then show ?thesis using UserP by (intro that [of "UserP u'"]) (simp_all add: principals_def key_of_def)
next
  case (ServiceP s)
  then have "s \<in> set (ac_services db)" using assms(2) by (auto simp: principals_def)
  then obtain s' where "s' \<in> set (ac_services db')" "sv_id s' = sv_id s"
    "sv_organization_id s' = sv_organization_id s" "sv_auth_version s \<le> sv_auth_version s'"
    by (rule rows_grow_serviceE [OF assms(1)])
  then show ?thesis using ServiceP by (intro that [of "ServiceP s'"]) (simp_all add: principals_def key_of_def)
qed

lemma access_ok_rows:
  assumes rows: "rows_grow db db'" and inv: "access_ok db" and policy: "policy_ok db'"
  shows "access_ok db'"
proof -
  note rows' = rows_growD [OF rows]
  have "keys_ok db'"
    using access_okD(1) [OF inv] policy
      all2_keys [OF rows'(3), of us_id] all2_keys [OF rows'(4), of sv_id] all2_keys [OF rows'(5), of tk_id]
      all2_keys [OF rows'(6) [unfolded sessions_kept_def], of ue_id]
    by (simp add: keys_ok_def policy_ok_def user_grows_def service_grows_def token_kept_def session_kept_def)
  moreover have "orgs_ok db'" by (rule orgs_ok_mono [OF rows access_okD(4) [OF inv]])
  moreover have "token_ok db' t'" if "t' \<in> set (ac_tokens db')" for t'
    using all2_right [OF rows'(5) that] token_ok_mono [OF rows access_okD(6) [OF inv]] by blast
  moreover have "session_ok db' s'" if "s' \<in> set (ac_sessions db')" for s'
    using all2_right [OF rows'(6) [unfolded sessions_kept_def] that] session_ok_mono [OF rows access_okD(8) [OF inv]]
    by blast
  ultimately show ?thesis using policy by (simp add: access_ok_def policy_ok_def)
qed

lemma sound_updates:
  assumes rows: "rows_grow db db'" and policy: "access_ok db \<Longrightarrow> policy_ok db'"
    and views: "access_ok db \<Longrightarrow> views_kept db db'"
  shows "sound db db'"
  unfolding sound_def
proof (intro impI conjI)
  assume inv: "access_ok db"
  note rows' = rows_growD [OF rows]
  show "access_ok db'" by (rule access_ok_rows [OF rows inv policy [OF inv]])
  have "\<exists>p' \<in> principals db'. principal_evolves db db' p p'" if p: "p \<in> principals db" for p
  proof -
    obtain p' where p': "p' \<in> principals db'" "key_of p' = key_of p" "principal_org p' = principal_org p"
      "principal_version p \<le> principal_version p'" by (rule rows_grow_principalE [OF rows p])
    then show ?thesis using views [OF inv] p by (auto simp: principal_evolves_def views_kept_def)
  qed
  then show "evolves db db'"
    using rows'(1,2) all2_left [OF rows'(5)] all2_left [OF rows'(6) [unfolded sessions_kept_def]]
    by (simp add: evolves_def)
qed

subsection \<open>Operations that leave the policy alone\<close>

definition has_role :: "access_db \<Rightarrow> uuid \<Rightarrow> uuid \<Rightarrow> bool" where
  "has_role db i o' \<longleftrightarrow> (\<exists>a \<in> set (ac_roles db). ar_id a = i \<and> ar_organization_id a = o')"

lemma permission_rows_set:
  "set (permission_rows db p) =
     {(rm_permission_key m, gr_scope_type g, gr_scope_id g) | m g.
        m \<in> set (ac_permissions db) \<and> g \<in> set (ac_grants db) \<and> rm_organization_id m = principal_org p \<and>
        has_role db (gr_role_id g) (principal_org p) \<and> rm_role_id m = gr_role_id g \<and>
        gr_organization_id g = principal_org p \<and> principal_filter p g}" (is "_ = ?R")
proof (rule set_eqI)
  fix x :: "string \<times> GrantScopeType \<times> uuid"
  obtain k st i where x: "x = (k, st, i)" by (cases x)
  show "x \<in> set (permission_rows db p) \<longleftrightarrow> x \<in> ?R"
  proof
    assume "x \<in> set (permission_rows db p)"
    then obtain m a g where "m \<in> set (ac_permissions db)" "a \<in> set (ac_roles db)" "g \<in> set (ac_grants db)"
      "rm_organization_id m = principal_org p" "ar_id a = rm_role_id m" "ar_organization_id a = principal_org p"
      "gr_role_id g = ar_id a" "gr_organization_id g = principal_org p" "principal_filter p g"
      "k = rm_permission_key m" "st = gr_scope_type g" "i = gr_scope_id g"
      unfolding x permission_rows_iff by blast
    then show "x \<in> ?R" unfolding x has_role_def
      by (intro CollectI exI [of _ m] exI [of _ g] conjI bexI [of _ a]) simp_all
  next
    assume "x \<in> ?R"
    then obtain m g a where "m \<in> set (ac_permissions db)" "g \<in> set (ac_grants db)"
      "rm_organization_id m = principal_org p" "a \<in> set (ac_roles db)" "ar_id a = gr_role_id g"
      "ar_organization_id a = principal_org p" "rm_role_id m = gr_role_id g"
      "gr_organization_id g = principal_org p" "principal_filter p g"
      "x = (rm_permission_key m, gr_scope_type g, gr_scope_id g)"
      unfolding has_role_def by blast
    then show "x \<in> set (permission_rows db p)"
      by (simp only: permission_rows_iff) (intro bexI [of _ m] bexI [of _ a] bexI [of _ g]; simp)
  qed
qed

lemma filter_by_key: "key_of p' = key_of p \<Longrightarrow> principal_filter p' g = principal_filter p g"
  by (cases p; cases p') (auto simp: key_of_def)

text \<open>The view of a principal only depends on its own grants and on the permissions of their roles.\<close>

lemma view_kept:
  assumes "key_of p' = key_of p" and "principal_org p' = principal_org p" and "unmigrated p' = unmigrated p"
    and "unmigrated p \<Longrightarrow> legacy_permissions p' = legacy_permissions p"
    and grants: "\<And>g. principal_filter p g \<Longrightarrow> g \<in> set (ac_grants db') \<longleftrightarrow> g \<in> set (ac_grants db)"
    and roles: "\<And>g o'. g \<in> set (ac_grants db) \<Longrightarrow> principal_filter p g \<Longrightarrow> has_role db' (gr_role_id g) o' = has_role db (gr_role_id g) o'"
    and permissions: "\<And>g m. g \<in> set (ac_grants db) \<Longrightarrow> principal_filter p g \<Longrightarrow> rm_role_id m = gr_role_id g \<Longrightarrow>
      m \<in> set (ac_permissions db') \<longleftrightarrow> m \<in> set (ac_permissions db)"
  shows "access_view db' p' = access_view db p"
proof -
  have "set (permission_rows db' p') = set (permission_rows db p)"
    unfolding permission_rows_set assms(2) filter_by_key [OF assms(1)]
    using grants roles permissions by (intro Collect_cong iff_exI) (metis (no_types, lifting))
  with assms(3,4) show ?thesis by (simp add: access_view_def)
qed

definition user_plain :: "user \<Rightarrow> user \<Rightarrow> bool" where
  "user_plain u u' \<longleftrightarrow> user_grows u u' \<and> (us_auth_version u' = us_auth_version u \<longrightarrow>
     us_role u' = us_role u \<and> (us_authorization_migrated_at u' = None \<longleftrightarrow> us_authorization_migrated_at u = None))"

lemma user_plain_refl [simp]: "user_plain u u"
  by (simp add: user_plain_def)

lemma match_row:
  assumes "list_all2 R xs ys" and "distinct (map f xs)" and "\<And>x y. R x y \<Longrightarrow> f y = f x"
    and "x \<in> set xs" and "y \<in> set ys" and "f y = f x"
  shows "R x y"
proof -
  obtain x0 where "x0 \<in> set xs" "R x0 y" using all2_right [OF assms(1,5)] by blast
  then have "f x0 = f x" using assms(3,6) by metis
  then have "x0 = x" using assms(2,4) \<open>x0 \<in> set xs\<close> by (auto simp: distinct_map dest: inj_onD)
  with \<open>R x0 y\<close> show ?thesis by simp
qed

lemma list_all2_mono_rel: "list_all2 R xs ys \<Longrightarrow> (\<And>x y. R x y \<Longrightarrow> S x y) \<Longrightarrow> list_all2 S xs ys"
  by (rule list_all2_mono)

text \<open>
  The common shape of an update: users change at most as \<open>user_plain\<close> allows, and the grants of a
  principal that keeps its version, with the permissions of their roles, stay.
\<close>

lemma sound_policy:
  assumes orgs: "ac_organizations db' = ac_organizations db" "ac_sites db' = ac_sites db"
    and users: "list_all2 user_plain (ac_users db) (ac_users db')"
    and services: "list_all2 service_grows (ac_services db) (ac_services db')"
    and tokens: "list_all2 token_kept (ac_tokens db) (ac_tokens db')" and kept: "sessions_kept db db'"
    and policy: "access_ok db \<Longrightarrow> rows_grow db db' \<Longrightarrow> policy_ok db'"
    and same: "\<And>p p' g. access_ok db \<Longrightarrow> p \<in> principals db \<Longrightarrow> p' \<in> principals db' \<Longrightarrow> key_of p' = key_of p \<Longrightarrow>
      principal_version p' = principal_version p \<Longrightarrow> principal_filter p g \<Longrightarrow>
      (g \<in> set (ac_grants db') \<longleftrightarrow> g \<in> set (ac_grants db)) \<and>
      (g \<in> set (ac_grants db) \<longrightarrow>
         (\<forall>o'. has_role db' (gr_role_id g) o' = has_role db (gr_role_id g) o') \<and>
         (\<forall>m. rm_role_id m = gr_role_id g \<longrightarrow> (m \<in> set (ac_permissions db') \<longleftrightarrow> m \<in> set (ac_permissions db))))"
  shows "sound db db'"
proof (rule sound_updates)
  show rows: "rows_grow db db'"
    using orgs services tokens kept list_all2_mono [OF users, of user_grows]
    by (simp add: rows_grow_def user_plain_def)
  show "access_ok db \<Longrightarrow> policy_ok db'" using policy rows by blast
  assume inv: "access_ok db"
  have distinct: "distinct (map us_id (ac_users db))" "distinct (map sv_id (ac_services db))"
    using access_okD(1) [OF inv] by (simp_all add: keys_ok_def)
  show "views_kept db db'"
    unfolding views_kept_def
  proof (intro ballI impI)
    fix p p' assume p: "p \<in> principals db" "p' \<in> principals db'" and key: "key_of p' = key_of p"
      and version: "principal_version p' = principal_version p"
    have like: "principal_org p' = principal_org p \<and> unmigrated p' = unmigrated p \<and>
      (unmigrated p \<longrightarrow> legacy_permissions p' = legacy_permissions p)"
    proof (cases p)
      case (UserP u)
      then obtain u' where u': "p' = UserP u'" "us_id u' = us_id u" using key by (cases p') (auto simp: key_of_def)
      have "user_plain u u'"
        using UserP u' p by (intro match_row [OF users distinct(1)]) (auto simp: principals_def user_plain_def user_grows_def)
      then show ?thesis using UserP u' version by (auto simp: user_plain_def user_grows_def)
    next
      case (ServiceP s)
      then obtain s' where s': "p' = ServiceP s'" "sv_id s' = sv_id s" using key by (cases p') (auto simp: key_of_def)
      have "service_grows s s'"
        using ServiceP s' p by (intro match_row [OF services distinct(2)]) (auto simp: principals_def service_grows_def)
      then show ?thesis using ServiceP s' by (auto simp: service_grows_def)
    qed
    show "access_view db' p' = access_view db p"
      using same [OF inv p key version] like by (intro view_kept [OF key]) blast+
  qed
qed

text \<open>Operations that do not touch roles, permissions, grants or assignments.\<close>

lemma policy_ok_same:
  assumes "rows_grow db db'" and "policy_ok db" and "ac_roles db' = ac_roles db"
    and "ac_permissions db' = ac_permissions db" and "ac_grants db' = ac_grants db" and "ac_assignments db' = ac_assignments db"
  shows "policy_ok db'"
  using assms(2) grant_ok_mono [OF assms(1)] assignment_ok_mono [OF assms(1)]
  unfolding policy_ok_def catalogue_ok_def builtins_ok_def exact_def assms(3-6) rows_growD(1) [OF assms(1)]
  by (auto simp: grant_ok_def assms(3))

lemma sound_plain:
  assumes "ac_organizations db' = ac_organizations db" "ac_sites db' = ac_sites db"
    and "list_all2 user_plain (ac_users db) (ac_users db')"
    and "list_all2 service_grows (ac_services db) (ac_services db')"
    and "list_all2 token_kept (ac_tokens db) (ac_tokens db')" and "sessions_kept db db'"
    and same: "ac_roles db' = ac_roles db" "ac_permissions db' = ac_permissions db"
      "ac_grants db' = ac_grants db" "ac_assignments db' = ac_assignments db"
  shows "sound db db'"
  by (rule sound_policy [OF assms(1-6)])
    (auto simp: same has_role_def intro: policy_ok_same access_ok_policy)

lemma sound_sessions: "same_access db db' \<Longrightarrow> sessions_kept db db' \<Longrightarrow> sound db db'"
  by (rule sound_plain) (auto simp: same_access_def list_all2_refl)

lemma sound_on_user: "(\<And>u. user_plain u (f u)) \<Longrightarrow> sound db (on_user i f db)"
  by (rule sound_plain) (auto simp: tables list_all2_refl intro: list_all2_update_where sessions_kept_cong)

lemma sound_on_service: "(\<And>s. service_grows s (f s)) \<Longrightarrow> sound db (on_service i f db)"
  by (rule sound_plain) (auto simp: tables list_all2_refl intro: list_all2_update_where sessions_kept_cong)

lemma sound_on_token: "(\<And>t. token_kept t (f t)) \<Longrightarrow> sound db (on_token i f db)"
  by (rule sound_plain) (auto simp: tables list_all2_refl intro: list_all2_update_where sessions_kept_cong)

lemma sound_tokens: "(\<And>t. token_kept t (f t)) \<Longrightarrow> sound db (db\<lparr>ac_tokens := update_where P f (ac_tokens db)\<rparr>)"
  by (rule sound_plain) (auto simp: list_all2_refl intro: list_all2_update_where sessions_kept_cong)

lemma plain_rows [simp]:
  "user_plain u (bump_user u)" "user_plain u (clear_credentials u)" "user_plain u (set_account_status s now u)"
  "user_plain u (set_password h now u)" "user_plain u (clear_password u)"
  "user_plain u (u\<lparr>us_full_name := n\<rparr>)"
  "service_grows v (bump_service v)" "service_grows v (set_service rq v)"
  "service_grows v (v\<lparr>sv_last_used_at := t\<rparr>)" "service_grows v (bump_service (v\<lparr>sv_status := w\<rparr>))"
  "token_kept k (k\<lparr>tk_revoked_at := Some now\<rparr>)" "token_kept k (touch_token now ip k)"
  "token_kept k (mark_token_revoked now k)"
  by (simp_all add: user_plain_def user_grows_def service_grows_def token_kept_def bump_user_def bump_service_def
      clear_credentials_def set_password_def clear_password_def set_service_def touch_token_def mark_token_revoked_def)

lemma sound_pending: "sound db (revoke_pending_credentials i now db)"
  by (rule sound_plain) (auto simp: tables list_all2_refl pending_kept intro: list_all2_update_where)

lemma sound_links: "sound db (revoke_links i now db)"
  by (rule sound_sessions) (simp_all add: same_access_def tables sessions_kept_cong)


subsection \<open>Refreshing principals\<close>

text \<open>
  After a change of roles or grants the code visits the principals concerned and raises their version.
  The contract of such a visit, on a user and on a service account; it is provided by
  \<open>invalidate_user\<close> with \<open>bump_service\<close>, and by \<open>after_grant_change\<close>.
\<close>

definition touched :: "uuid set \<Rightarrow> user \<Rightarrow> user \<Rightarrow> bool" where
  "touched I u u' \<longleftrightarrow> user_grows u u' \<and> (us_id u \<in> I \<longrightarrow> us_auth_version u < us_auth_version u') \<and>
     (us_id u \<notin> I \<longrightarrow> u' = u)"

definition touched_service :: "uuid set \<Rightarrow> service_account \<Rightarrow> service_account \<Rightarrow> bool" where
  "touched_service I s s' \<longleftrightarrow> service_grows s s' \<and> (sv_id s \<in> I \<longrightarrow> sv_auth_version s < sv_auth_version s') \<and>
     (sv_id s \<notin> I \<longrightarrow> s' = s)"

definition same_policy :: "access_db \<Rightarrow> access_db \<Rightarrow> bool" where
  "same_policy db db' \<longleftrightarrow> ac_organizations db' = ac_organizations db \<and> ac_sites db' = ac_sites db \<and>
     ac_roles db' = ac_roles db \<and> ac_permissions db' = ac_permissions db \<and> ac_grants db' = ac_grants db \<and>
     ac_tokens db' = ac_tokens db \<and> sessions_kept db db'"

lemma same_policy_trans: "same_policy a b \<Longrightarrow> same_policy b c \<Longrightarrow> same_policy a c"
  by (auto simp: same_policy_def intro: sessions_kept_trans)

lemma same_policy_refl [simp]: "same_policy db db"
  by (simp add: same_policy_def)

lemma touched_trans: "touched I x y \<Longrightarrow> touched J y z \<Longrightarrow> touched (I \<union> J) x z"
  by (auto simp: touched_def user_grows_def)

lemma touched_service_trans: "touched_service I x y \<Longrightarrow> touched_service J y z \<Longrightarrow> touched_service (I \<union> J) x z"
  by (auto simp: touched_service_def service_grows_def)

lemma touched_empty [simp]: "touched {} x x" "touched_service {} v v"
  by (simp_all add: touched_def touched_service_def)

lemma touched_plain: "touched I x y \<Longrightarrow> user_plain x y"
  by (cases "us_id x \<in> I") (auto simp: touched_def user_plain_def)

lemma touched_service_grows: "touched_service I x y \<Longrightarrow> service_grows x y"
  by (simp add: touched_service_def)

definition user_row :: "access_db \<Rightarrow> user \<Rightarrow> bool" where
  "user_row db u \<longleftrightarrow> (\<exists>x \<in> set (ac_users db). us_id x = us_id u \<and> us_organization_id x = us_organization_id u)"

lemma user_row_mem: "u \<in> set (ac_users db) \<Longrightarrow> user_row db u"
  by (auto simp: user_row_def)

lemma user_row_touched:
  assumes "list_all2 (touched I) (ac_users db) (ac_users db')" and "user_row db u"
  shows "user_row db' u"
proof -
  obtain x where x: "x \<in> set (ac_users db)" "us_id x = us_id u" "us_organization_id x = us_organization_id u"
    using assms(2) by (auto simp: user_row_def)
  then obtain y where "y \<in> set (ac_users db')" "touched I x y" using all2_left [OF assms(1)] by blast
  with x show ?thesis by (auto simp: user_row_def touched_def user_grows_def intro!: bexI [of _ y])
qed

locale refresh =
  fixes on_u :: "user \<Rightarrow> access_db \<Rightarrow> access_db" and on_s :: "service_account \<Rightarrow> access_db \<Rightarrow> access_db"
  assumes user_same: "same_policy db (on_u u db) \<and> ac_services (on_u u db) = ac_services db"
    and user_touched: "list_all2 (touched {us_id u}) (ac_users db) (ac_users (on_u u db))"
    and user_policy: "policy_ok db \<Longrightarrow> user_row db u \<Longrightarrow> policy_ok (on_u u db)"
    and service_same: "same_policy db (on_s s db) \<and> ac_users (on_s s db) = ac_users db \<and>
      ac_assignments (on_s s db) = ac_assignments db"
    and service_touched: "list_all2 (touched_service {sv_id s}) (ac_services db) (ac_services (on_s s db))"
begin

lemma users_fold:
  "same_policy db (fold on_u us db) \<and> ac_services (fold on_u us db) = ac_services db \<and>
   list_all2 (touched (us_id ` set us)) (ac_users db) (ac_users (fold on_u us db)) \<and>
   (policy_ok db \<longrightarrow> (\<forall>u \<in> set us. user_row db u) \<longrightarrow> policy_ok (fold on_u us db))"
proof (induction us arbitrary: db)
  case Nil
  then show ?case by (simp add: list_all2_refl)
next
  case (Cons u us)
  note step = user_same [of db u] user_touched [of u db]
  note rest = Cons.IH [of "on_u u db"]
  have "list_all2 (touched (us_id ` set (u # us))) (ac_users db) (ac_users (fold on_u us (on_u u db)))"
    using list_all2_trans [OF _ step(2), of "touched (us_id ` set us)"] touched_trans [of "{us_id u}"] rest by auto
  moreover have "policy_ok (fold on_u us (on_u u db))" if "policy_ok db" and rows: "\<forall>x \<in> set (u # us). user_row db x"
  proof -
    have "policy_ok (on_u u db)" using that by (intro user_policy) simp_all
    moreover have "\<forall>x \<in> set us. user_row (on_u u db) x"
      using rows user_row_touched [OF step(2)] by simp
    ultimately show ?thesis using rest by blast
  qed
  ultimately show ?case using step(1) rest same_policy_trans by auto
qed

lemma services_fold:
  "same_policy db (fold on_s ss db) \<and> ac_users (fold on_s ss db) = ac_users db \<and>
   ac_assignments (fold on_s ss db) = ac_assignments db \<and>
   list_all2 (touched_service (sv_id ` set ss)) (ac_services db) (ac_services (fold on_s ss db))"
proof (induction ss arbitrary: db)
  case Nil
  then show ?case by (simp add: list_all2_refl)
next
  case (Cons s ss)
  note step = service_same [of db s] service_touched [of s db]
  note rest = Cons.IH [of "on_s s db"]
  have "list_all2 (touched_service (sv_id ` set (s # ss))) (ac_services db) (ac_services (fold on_s ss (on_s s db)))"
    using list_all2_trans [OF _ step(2), of "touched_service (sv_id ` set ss)"] touched_service_trans [of "{sv_id s}"] rest
    by auto
  then show ?case using step(1) rest same_policy_trans by auto
qed

lemma sound_refresh:
  assumes raw: "ac_organizations db1 = ac_organizations db" "ac_sites db1 = ac_sites db" "ac_users db1 = ac_users db"
      "ac_services db1 = ac_services db" "ac_tokens db1 = ac_tokens db" "ac_sessions db1 = ac_sessions db"
    and policy: "access_ok db \<Longrightarrow> policy_ok db1"
    and us: "set us \<subseteq> set (ac_users db)" and ss: "set ss \<subseteq> set (ac_services db)"
    and same: "\<And>p g. access_ok db \<Longrightarrow> p \<in> principals db \<Longrightarrow> p \<notin> UserP ` set us \<union> ServiceP ` set ss \<Longrightarrow>
      principal_filter p g \<Longrightarrow>
      (g \<in> set (ac_grants db1) \<longleftrightarrow> g \<in> set (ac_grants db)) \<and>
      (g \<in> set (ac_grants db) \<longrightarrow>
         (\<forall>o'. has_role db1 (gr_role_id g) o' = has_role db (gr_role_id g) o') \<and>
         (\<forall>m. rm_role_id m = gr_role_id g \<longrightarrow> (m \<in> set (ac_permissions db1) \<longleftrightarrow> m \<in> set (ac_permissions db))))"
  shows "sound db (fold on_s ss (fold on_u us db1))" (is "sound db ?db'")
proof -
  note u = users_fold [of db1 us] and s = services_fold [of "fold on_u us db1" ss]
  have tables: "ac_organizations ?db' = ac_organizations db" "ac_sites ?db' = ac_sites db"
    "ac_roles ?db' = ac_roles db1" "ac_permissions ?db' = ac_permissions db1" "ac_grants ?db' = ac_grants db1"
    "ac_tokens ?db' = ac_tokens db"
    using u s by (simp_all add: same_policy_def raw)
  have users: "list_all2 (touched (us_id ` set us)) (ac_users db) (ac_users ?db')" using u s raw(3) by simp
  have services: "list_all2 (touched_service (sv_id ` set ss)) (ac_services db) (ac_services ?db')"
    using u s raw(4) by simp
  have first: "sessions_kept db1 (fold on_u us db1)" and second: "sessions_kept (fold on_u us db1) ?db'"
    using u s by (simp_all add: same_policy_def)
  have kept: "sessions_kept db ?db'"
    by (rule sessions_kept_trans [OF sessions_kept_cong [OF raw(6)] sessions_kept_trans [OF first second]])
  show ?thesis
  proof (rule sound_policy [OF tables(1,2) list_all2_mono [OF users touched_plain]
        list_all2_mono [OF services touched_service_grows] _ kept])
    show "list_all2 token_kept (ac_tokens db) (ac_tokens ?db')" by (simp add: tables list_all2_refl)
  next
    assume inv: "access_ok db" and "rows_grow db ?db'"
    have rows: "\<forall>x \<in> set us. user_row db1 x" using us raw(3) by (auto simp: user_row_def)
    have fine: "policy_ok (fold on_u us db1)" using u policy [OF inv] rows by simp
    have "list_all2 (touched_service (sv_id ` set ss)) (ac_services (fold on_u us db1)) (ac_services ?db')"
      using s by simp
    then have "list_all2 service_grows (ac_services (fold on_u us db1)) (ac_services ?db')"
      by (rule list_all2_mono) (rule touched_service_grows)
    then have "rows_grow (fold on_u us db1) ?db'"
      using s second by (simp add: rows_grow_def same_policy_def list_all2_refl)
    then show "policy_ok ?db'" by (rule policy_ok_same [OF _ fine]) (use s in \<open>simp_all add: same_policy_def\<close>)
  next
    fix p p' g assume inv: "access_ok db" and p: "p \<in> principals db" "p' \<in> principals ?db'" "key_of p' = key_of p"
      "principal_version p' = principal_version p" and mine: "principal_filter p g"
    have distinct: "distinct (map us_id (ac_users db))" "distinct (map sv_id (ac_services db))"
      using access_okD(1) [OF inv] by (simp_all add: keys_ok_def)
    have "p \<notin> UserP ` set us \<union> ServiceP ` set ss"
    proof
      assume "p \<in> UserP ` set us \<union> ServiceP ` set ss"
      then show False
      proof
        assume "p \<in> UserP ` set us"
        then obtain u where u: "p = UserP u" "u \<in> set us" by blast
        then obtain u' where u': "p' = UserP u'" "us_id u' = us_id u" using p(3) by (cases p') (auto simp: key_of_def)
        have "touched (us_id ` set us) u u'"
          using u u' p us by (intro match_row [OF users distinct(1)]) (auto simp: principals_def touched_def user_grows_def)
        then show False using u u' p(4) by (simp add: touched_def)
      next
        assume "p \<in> ServiceP ` set ss"
        then obtain s where s: "p = ServiceP s" "s \<in> set ss" by blast
        then obtain s' where s': "p' = ServiceP s'" "sv_id s' = sv_id s" using p(3) by (cases p') (auto simp: key_of_def)
        have "touched_service (sv_id ` set ss) s s'"
          using s s' p ss by (intro match_row [OF services distinct(2)]) (auto simp: principals_def touched_service_def service_grows_def)
        then show False using s s' p(4) by (simp add: touched_service_def)
      qed
    qed
    from same [OF inv p(1) this mine] show "(g \<in> set (ac_grants ?db') \<longleftrightarrow> g \<in> set (ac_grants db)) \<and>
      (g \<in> set (ac_grants db) \<longrightarrow>
         (\<forall>o'. has_role ?db' (gr_role_id g) o' = has_role db (gr_role_id g) o') \<and>
         (\<forall>m. rm_role_id m = gr_role_id g \<longrightarrow> (m \<in> set (ac_permissions ?db') \<longleftrightarrow> m \<in> set (ac_permissions db))))"
      unfolding has_role_def tables .
  qed
qed

end


lemma update_where_twice:
  "(\<And>x. key (f x) = key x) \<Longrightarrow>
    update_where (\<lambda>x. key x = i) g (update_where (\<lambda>x. key x = i) f xs) = update_where (\<lambda>x. key x = i) (\<lambda>x. g (f x)) xs"
  by (induction xs) auto

lemma touched_update:
  "(\<And>u. user_grows u (f u) \<and> us_auth_version u < us_auth_version (f u)) \<Longrightarrow>
    list_all2 (touched {i}) xs (update_where (\<lambda>u. us_id u = i) f xs)"
  by (rule list_all2_update_where) (auto simp: touched_def)

lemma touched_service_update:
  "(\<And>s. service_grows s (f s) \<and> sv_auth_version s < sv_auth_version (f s)) \<Longrightarrow>
    list_all2 (touched_service {i}) xs (update_where (\<lambda>s. sv_id s = i) f xs)"
  by (rule list_all2_update_where) (auto simp: touched_service_def)

lemma bump_touches:
  "user_grows u (bump_user u) \<and> us_auth_version u < us_auth_version (bump_user u)"
  "service_grows s (bump_service s) \<and> sv_auth_version s < sv_auth_version (bump_service s)"
  "user_grows u (bump_user (synced_fields db now u)) \<and> us_auth_version u < us_auth_version (bump_user (synced_fields db now u))"
  "service_grows s (bump_service (s\<lparr>sv_primary_role := r\<rparr>)) \<and>
     sv_auth_version s < sv_auth_version (bump_service (s\<lparr>sv_primary_role := r\<rparr>))"
  by (simp_all add: user_grows_def service_grows_def bump_user_def bump_service_def synced_fields_def Let_def)

lemma rows_grow_users:
  assumes "same_policy db db'" and "list_all2 user_grows (ac_users db) (ac_users db')" and "ac_services db' = ac_services db"
  shows "rows_grow db db'"
  using assms by (simp add: rows_grow_def same_policy_def list_all2_refl)

lemma policy_ok_users:
  assumes "policy_ok db" and "same_policy db db'" and "list_all2 user_grows (ac_users db) (ac_users db')"
    and "ac_services db' = ac_services db" and assigned: "\<And>a. a \<in> set (ac_assignments db') \<Longrightarrow> assignment_ok db' a"
  shows "policy_ok db'"
proof -
  note rows = rows_grow_users [OF assms(2-4)]
  have eqs: "ac_organizations db' = ac_organizations db" "ac_roles db' = ac_roles db"
    "ac_permissions db' = ac_permissions db" "ac_grants db' = ac_grants db"
    using assms(2) by (simp_all add: same_policy_def)
  show ?thesis
    using assms(1) grant_ok_mono [OF rows] assigned
    unfolding policy_ok_def catalogue_ok_def builtins_ok_def exact_def eqs by (auto simp: grant_ok_def eqs)
qed

interpretation invalidation: refresh "invalidate_user reason now" "\<lambda>s. on_service (sv_id s) bump_service"
  for reason now
proof
  fix u s db
  show "same_policy db (invalidate_user reason now u db) \<and>
      ac_services (invalidate_user reason now u db) = ac_services db"
    by (simp add: same_policy_def tables invalidate_user_kept)
  show touched: "list_all2 (touched {us_id u}) (ac_users db) (ac_users (invalidate_user reason now u db))"
    by (simp add: tables touched_update bump_touches)
  show "policy_ok (invalidate_user reason now u db)" if "policy_ok db"
  proof (rule policy_ok_same [OF rows_grow_users that])
    show "list_all2 user_grows (ac_users db) (ac_users (invalidate_user reason now u db))"
      by (rule list_all2_mono [OF touched]) (simp add: touched_def)
  qed (simp_all add: same_policy_def tables invalidate_user_kept)
  show "same_policy db (on_service (sv_id s) bump_service db) \<and> ac_users (on_service (sv_id s) bump_service db) = ac_users db \<and>
      ac_assignments (on_service (sv_id s) bump_service db) = ac_assignments db"
    by (simp add: same_policy_def tables sessions_kept_cong)
  show "list_all2 (touched_service {sv_id s}) (ac_services db) (ac_services (on_service (sv_id s) bump_service db))"
    by (simp add: tables touched_service_update bump_touches)
qed

lemma agc_tables [tables]:
  "ac_users (after_grant_change now (UserP u) db) =
     update_where (\<lambda>x. us_id x = us_id u) (\<lambda>x. bump_user (synced_fields db now x)) (ac_users db)"
  "ac_services (after_grant_change now (UserP u) db) = ac_services db"
  "ac_assignments (after_grant_change now (UserP u) db) = synced_assignments db u"
  "ac_users (after_grant_change now (ServiceP s) db) = ac_users db"
  "ac_assignments (after_grant_change now (ServiceP s) db) = ac_assignments db"
  "ac_services (after_grant_change now (ServiceP s) db) = update_where (\<lambda>x. sv_id x = sv_id s)
     (\<lambda>x. bump_service (x\<lparr>sv_primary_role := primary_role (map fst (compatibility_rows db (ServiceP s)))\<rparr>)) (ac_services db)"
  "ac_organizations (after_grant_change now p db) = ac_organizations db" "ac_sites (after_grant_change now p db) = ac_sites db"
  "ac_roles (after_grant_change now p db) = ac_roles db" "ac_permissions (after_grant_change now p db) = ac_permissions db"
  "ac_grants (after_grant_change now p db) = ac_grants db" "ac_tokens (after_grant_change now p db) = ac_tokens db"
  by (cases p; simp add: tables update_where_twice synced_fields_def Let_def)+

lemma agc_same_policy: "same_policy db (after_grant_change now p db)"
proof (cases p)
  case (UserP u)
  have "sessions_kept db (sync_user_compatibility_fields now u db)" by (rule sessions_kept_cong) (simp add: tables)
  then have "sessions_kept db (after_grant_change now p db)"
    unfolding UserP after_grant_change.simps by (rule sessions_kept_trans) (rule invalidate_user_kept)
  then show ?thesis by (simp add: same_policy_def tables)
next
  case (ServiceP s)
  then have "sessions_kept db (after_grant_change now p db)" by (intro sessions_kept_cong) (simp add: tables)
  then show ?thesis by (simp add: same_policy_def tables)
qed

lemma synced_assignments_mem:
  "a \<in> set (synced_assignments db u) \<Longrightarrow> a \<in> set (ac_assignments db) \<or>
     (ux_user_id a = us_id u \<and> ux_organization_id a = us_organization_id u \<and> site_in db (us_organization_id u) (ux_site_id a))"
  by (auto simp: synced_assignments_def Let_def split: if_split_asm)

interpretation regranting: refresh "\<lambda>u. after_grant_change now (UserP u)" "\<lambda>s. after_grant_change now (ServiceP s)"
  for now
proof
  fix u s db
  show "same_policy db (after_grant_change now (UserP u) db) \<and>
      ac_services (after_grant_change now (UserP u) db) = ac_services db"
    by (simp only: agc_same_policy tables simp_thms)
  show touched: "list_all2 (touched {us_id u}) (ac_users db) (ac_users (after_grant_change now (UserP u) db))"
    by (simp only: tables) (rule touched_update, rule bump_touches)
  show "policy_ok (after_grant_change now (UserP u) db)" if "policy_ok db" and row: "user_row db u"
  proof (rule policy_ok_users [OF that(1) agc_same_policy])
    show grows: "list_all2 user_grows (ac_users db) (ac_users (after_grant_change now (UserP u) db))"
      by (rule list_all2_mono [OF touched]) (simp add: touched_def)
    show "ac_services (after_grant_change now (UserP u) db) = ac_services db" by (simp only: tables)
    fix a assume "a \<in> set (ac_assignments (after_grant_change now (UserP u) db))"
    then have "assignment_ok db a"
      using synced_assignments_mem [of a db u] \<open>policy_ok db\<close> row
      by (auto simp: tables policy_ok_def assignment_ok_def user_row_def simp del: after_grant_change.simps)
    then show "assignment_ok (after_grant_change now (UserP u) db) a"
      by (rule assignment_ok_mono [OF rows_grow_users [OF agc_same_policy grows agc_tables(2)]])
  qed
  show "same_policy db (after_grant_change now (ServiceP s) db) \<and>
      ac_users (after_grant_change now (ServiceP s) db) = ac_users db \<and>
      ac_assignments (after_grant_change now (ServiceP s) db) = ac_assignments db"
    by (simp only: agc_same_policy tables simp_thms)
  show "list_all2 (touched_service {sv_id s}) (ac_services db) (ac_services (after_grant_change now (ServiceP s) db))"
    by (simp only: tables) (rule touched_service_update, rule bump_touches)
qed

end
