(* ===== verification/AccessControl.thy ===== *)
theory AccessControl
  imports AccessInvariant
begin

text \<open>
  Every operation on the authorization tables is \<open>sound\<close> (\<open>AccessInvariant\<close>): one lemma per handler of
  roles, grants, service accounts, tokens, sessions and users.
\<close>

subsection \<open>Roles\<close>

lemma replace_permissions_Inr:
  assumes "replace_permissions a ks db = Inr db'"
  shows "set ks \<subseteq> set ALL_PERMISSION_KEYS"
    "db' = db\<lparr>ac_permissions := filter (\<lambda>m. rm_role_id m \<noteq> ar_id a) (ac_permissions db) @
       map (\<lambda>k. \<lparr>rm_organization_id = ar_organization_id a, rm_role_id = ar_id a, rm_permission_key = k\<rparr>) (sort (remdups ks))\<rparr>"
  using assms by (auto simp: replace_permissions_def validate_permission_keys_Inr split: sum.splits)

lemma owned_role_Inr:
  "owned_role o' i db = Inr a \<Longrightarrow> a \<in> set (ac_roles db) \<and> ar_id a = i \<and> ar_organization_id a = o'"
  by (auto simp: owned_role_def split: option.splits dest: find_SomeD)

text \<open>A change of the roles and permissions that concern no built-in role and no grant keeps the policy.\<close>

lemma policy_ok_roles:
  assumes inv: "policy_ok db" and rows: "rows_grow db db'" and i: "i \<notin> {ar_id a | a. a \<in> set (ac_roles db) \<and> ar_is_system a}"
    and ids: "distinct (map ar_id (ac_roles db'))"
    and others: "\<And>a. ar_id a \<noteq> i \<Longrightarrow> a \<in> set (ac_roles db') \<longleftrightarrow> a \<in> set (ac_roles db)"
    and mine: "\<And>a. a \<in> set (ac_roles db') \<Longrightarrow> ar_id a = i \<Longrightarrow> \<not> ar_is_system a \<and> ar_compatibility_role a = None"
    and permissions: "\<And>m. m \<in> set (ac_permissions db') \<Longrightarrow>
      if rm_role_id m = i then rm_permission_key m \<in> set ALL_PERMISSION_KEYS \<and> has_role db' i (rm_organization_id m)
      else m \<in> set (ac_permissions db)"
    and kept: "\<And>m. m \<in> set (ac_permissions db) \<Longrightarrow> rm_role_id m \<noteq> i \<Longrightarrow> m \<in> set (ac_permissions db')"
    and grants: "\<And>g. g \<in> set (ac_grants db') \<Longrightarrow> g \<in> set (ac_grants db)"
    and roles: "\<And>g. g \<in> set (ac_grants db') \<Longrightarrow> gr_role_id g = i \<Longrightarrow> has_role db' i (gr_organization_id g)"
    and assigned: "ac_assignments db' = ac_assignments db"
  shows "policy_ok db'"
proof -
  have old: "catalogue_ok db" "builtins_ok db" "\<And>g. g \<in> set (ac_grants db) \<Longrightarrow> grant_ok db g"
    "\<And>a. a \<in> set (ac_assignments db) \<Longrightarrow> assignment_ok db a"
    using inv by (simp_all add: policy_ok_def)
  have still: "has_role db' j o'" if "has_role db j o'" "j \<noteq> i" for j o'
    using that others by (auto simp: has_role_def)
  have catalogue: "catalogue_ok db'"
    unfolding catalogue_ok_def
  proof (intro ballI)
    fix m assume m: "m \<in> set (ac_permissions db')"
    have "rm_permission_key m \<in> set ALL_PERMISSION_KEYS \<and> has_role db' (rm_role_id m) (rm_organization_id m)"
    proof (cases "rm_role_id m = i")
      case True
      then show ?thesis using permissions [OF m] by simp
    next
      case False
      then have "m \<in> set (ac_permissions db)" using permissions [OF m] by simp
      then have "rm_permission_key m \<in> set ALL_PERMISSION_KEYS" "has_role db (rm_role_id m) (rm_organization_id m)"
        using old(1) unfolding catalogue_ok_def has_role_def by blast+
      then show ?thesis using still False by blast
    qed
    then show "rm_permission_key m \<in> set ALL_PERMISSION_KEYS \<and>
      (\<exists>a \<in> set (ac_roles db'). ar_id a = rm_role_id m \<and> ar_organization_id a = rm_organization_id m)"
      unfolding has_role_def .
  qed
  have system: "ar_id a \<noteq> i" if "a \<in> set (ac_roles db)" "ar_is_system a" for a using that i by blast
  have same_exact: "exact db' a r = exact db a r" if "ar_id a \<noteq> i" for a r
  proof -
    have "{m \<in> set (ac_permissions db'). rm_role_id m = ar_id a} = {m \<in> set (ac_permissions db). rm_role_id m = ar_id a}"
      using permissions kept that by (auto split: if_split_asm)
    then show ?thesis by (simp add: exact_def)
  qed
  have compatible: "a \<in> set (ac_roles db) \<and> ar_id a \<noteq> i"
    if "a \<in> set (ac_roles db')" "ar_compatibility_role a \<noteq> None" for a
    using that mine [of a] others [of a] by metis
  have builtin: "\<And>o' r. o' \<in> set (ac_organizations db) \<Longrightarrow> \<exists>a \<in> set (ac_roles db).
        ar_organization_id a = og_id o' \<and> ar_compatibility_role a = Some r"
    "\<And>a r. a \<in> set (ac_roles db) \<Longrightarrow> ar_compatibility_role a = Some r \<Longrightarrow> ar_is_system a \<and> exact db a r"
    "\<And>a. a \<in> set (ac_roles db) \<Longrightarrow> ar_is_system a \<Longrightarrow> ar_compatibility_role a \<noteq> None"
    "\<And>a b. a \<in> set (ac_roles db) \<Longrightarrow> b \<in> set (ac_roles db) \<Longrightarrow> ar_organization_id a = ar_organization_id b \<Longrightarrow>
       ar_compatibility_role a = ar_compatibility_role b \<Longrightarrow> ar_compatibility_role a \<noteq> None \<Longrightarrow> a = b"
    using old(2) unfolding builtins_ok_def by blast+
  have "builtins_ok db'"
    unfolding builtins_ok_def rows_growD(1) [OF rows]
  proof (intro conjI ballI allI impI)
    fix o' r assume "o' \<in> set (ac_organizations db)"
    then obtain a where a: "a \<in> set (ac_roles db)" "ar_organization_id a = og_id o'" "ar_compatibility_role a = Some r"
      using builtin(1) by blast
    then have "a \<in> set (ac_roles db')" using builtin(2) system others by metis
    with a show "\<exists>a \<in> set (ac_roles db'). ar_organization_id a = og_id o' \<and> ar_compatibility_role a = Some r" by blast
  next
    fix a r assume "a \<in> set (ac_roles db')" "ar_compatibility_role a = Some r"
    then show "ar_is_system a" "exact db' a r" using compatible same_exact builtin(2) by (metis option.distinct(1))+
  next
    fix a assume "a \<in> set (ac_roles db')" "ar_is_system a"
    then show "ar_compatibility_role a \<noteq> None" using mine [of a] others [of a] builtin(3) by metis
  next
    fix a b assume "a \<in> set (ac_roles db')" "b \<in> set (ac_roles db')" "ar_organization_id a = ar_organization_id b"
      "ar_compatibility_role a = ar_compatibility_role b" "ar_compatibility_role a \<noteq> None"
    then show "a = b" using compatible [of a] compatible [of b] builtin(4) by metis
  qed
  moreover have "grant_ok db' g" if g: "g \<in> set (ac_grants db')" for g
  proof (rule grant_ok_mono [OF rows old(3) [OF grants [OF g]]])
    show "\<exists>a \<in> set (ac_roles db'). ar_id a = gr_role_id g \<and> ar_organization_id a = gr_organization_id g"
    proof -
      have "has_role db (gr_role_id g) (gr_organization_id g)"
        using old(3) [OF grants [OF g]] unfolding grant_ok_def has_role_def by blast
      then have "has_role db' (gr_role_id g) (gr_organization_id g)" using roles [OF g] still by metis
      then show ?thesis unfolding has_role_def .
    qed
  qed
  moreover have "assignment_ok db' a" if "a \<in> set (ac_assignments db')" for a
    using that assigned old(4) assignment_ok_mono [OF rows] by simp
  ultimately show ?thesis using catalogue ids by (simp add: policy_ok_def)
qed


lemma builtins_okD:
  assumes "builtins_ok db"
  shows "o' \<in> set (ac_organizations db) \<Longrightarrow> \<exists>a \<in> set (ac_roles db).
        ar_organization_id a = og_id o' \<and> ar_compatibility_role a = Some r"
    and "a \<in> set (ac_roles db) \<Longrightarrow> ar_compatibility_role a = Some r \<Longrightarrow> ar_is_system a \<and> exact db a r"
    and "a \<in> set (ac_roles db) \<Longrightarrow> ar_is_system a \<Longrightarrow> ar_compatibility_role a \<noteq> None"
    and "a \<in> set (ac_roles db) \<Longrightarrow> b \<in> set (ac_roles db) \<Longrightarrow> ar_organization_id a = ar_organization_id b \<Longrightarrow>
       ar_compatibility_role a = ar_compatibility_role b \<Longrightarrow> ar_compatibility_role a \<noteq> None \<Longrightarrow> a = b"
  using assms unfolding builtins_ok_def by blast+

lemma grant_role: "access_ok db \<Longrightarrow> g \<in> set (ac_grants db) \<Longrightarrow> has_role db (gr_role_id g) (gr_organization_id g)"
  using access_okD(5) unfolding grant_ok_def has_role_def by blast

lemma permission_role: "access_ok db \<Longrightarrow> m \<in> set (ac_permissions db) \<Longrightarrow> has_role db (rm_role_id m) (rm_organization_id m)"
  using access_okD(2) unfolding catalogue_ok_def has_role_def by blast

lemma has_role_id: "has_role db i o' \<Longrightarrow> i \<in> ar_id ` set (ac_roles db)"
  by (auto simp: has_role_def)

lemma sound_create_role:
  assumes made: "create_role env actor rq db = Inr db'" and fresh: "en_fresh env \<notin> ar_id ` set (ac_roles db)"
  shows "sound db db'"
proof -
  define a where "a = \<lparr>ar_id = en_fresh env, ar_organization_id = principal_org actor, ar_key = kc_key rq,
    ar_name = strip (kc_name rq), ar_description = kc_description rq, ar_is_system = False, ar_compatibility_role = None\<rparr>"
  have "replace_permissions a (kc_permission_keys rq) (db\<lparr>ac_roles := ac_roles db @ [a]\<rparr>) = Inr db'"
    using made by (auto simp: create_role_def Let_def a_def split: if_split_asm)
  from replace_permissions_Inr [OF this]
  have keys: "set (kc_permission_keys rq) \<subseteq> set ALL_PERMISSION_KEYS"
    and tables: "ac_roles db' = ac_roles db @ [a]" "ac_organizations db' = ac_organizations db" "ac_sites db' = ac_sites db"
      "ac_users db' = ac_users db" "ac_services db' = ac_services db" "ac_tokens db' = ac_tokens db"
      "ac_sessions db' = ac_sessions db" "ac_grants db' = ac_grants db" "ac_assignments db' = ac_assignments db"
      "ac_permissions db' = filter (\<lambda>m. rm_role_id m \<noteq> ar_id a) (ac_permissions db) @
        map (\<lambda>k. \<lparr>rm_organization_id = ar_organization_id a, rm_role_id = ar_id a, rm_permission_key = k\<rparr>)
          (sort (remdups (kc_permission_keys rq)))"
    by simp_all
  have id: "ar_id a \<notin> ar_id ` set (ac_roles db)" "\<And>x. x \<in> set (ac_roles db) \<Longrightarrow> ar_id x \<noteq> ar_id a" and plain: "\<not> ar_is_system a" "ar_compatibility_role a = None"
    using fresh by (simp_all add: a_def) (metis image_eqI)
  have fresh_permission: "rm_role_id m \<noteq> ar_id a" if "access_ok db" "m \<in> set (ac_permissions db)" for m
    using has_role_id [OF permission_role [OF that]] id by metis
  have fresh_grant: "gr_role_id g \<noteq> ar_id a" if "access_ok db" "g \<in> set (ac_grants db)" for g
    using has_role_id [OF grant_role [OF that]] id by metis
  have same_role: "has_role db' j o' = has_role db j o'" if "j \<noteq> ar_id a" for j o'
    using that by (auto simp: has_role_def tables)
  show ?thesis
  proof (rule sound_policy)
    show "list_all2 user_plain (ac_users db) (ac_users db')" "list_all2 service_grows (ac_services db) (ac_services db')"
      "list_all2 token_kept (ac_tokens db) (ac_tokens db')" by (simp_all add: tables list_all2_refl)
    show "sessions_kept db db'" by (rule sessions_kept_cong) (rule tables)
    assume inv: "access_ok db"
    show "policy_ok db'" if rows: "rows_grow db db'"
    proof (rule policy_ok_roles [OF access_ok_policy [OF inv] rows, of "ar_id a"])
      show "distinct (map ar_id (ac_roles db'))"
        using access_okD(1) [OF inv] id by (simp add: tables keys_ok_def)
      show "if rm_role_id m = ar_id a then rm_permission_key m \<in> set ALL_PERMISSION_KEYS \<and> has_role db' (ar_id a) (rm_organization_id m)
        else m \<in> set (ac_permissions db)" if "m \<in> set (ac_permissions db')" for m
        using that keys by (auto simp: tables has_role_def)
    qed (use id plain fresh_grant [OF inv] in \<open>auto simp: tables\<close>)
    fix p g
    show "(g \<in> set (ac_grants db') \<longleftrightarrow> g \<in> set (ac_grants db)) \<and> (g \<in> set (ac_grants db) \<longrightarrow>
         (\<forall>o'. has_role db' (gr_role_id g) o' = has_role db (gr_role_id g) o') \<and>
         (\<forall>m. rm_role_id m = gr_role_id g \<longrightarrow> (m \<in> set (ac_permissions db') \<longleftrightarrow> m \<in> set (ac_permissions db))))"
      using fresh_grant [OF inv, of g] same_role by (auto simp: tables)
  qed (simp_all add: tables)
qed

text \<open>The principals an operation on a role visits: those with a grant of it.\<close>

lemma granted_user: "principal_filter (UserP u) g \<Longrightarrow> g \<in> set gs \<Longrightarrow> us_id u \<in> set (granted_users gs)"
  by (force simp: granted_users_def List.map_filter_def)

lemma granted_service: "principal_filter (ServiceP s) g \<Longrightarrow> g \<in> set gs \<Longrightarrow> sv_id s \<in> set (granted_services gs)"
  by (force simp: granted_services_def List.map_filter_def)

definition users_with :: "uuid \<Rightarrow> access_db \<Rightarrow> user list" where
  "users_with i db = filter (\<lambda>u. us_id u \<in> set (granted_users (filter (\<lambda>g. gr_role_id g = i) (ac_grants db)))) (ac_users db)"

definition services_with :: "uuid \<Rightarrow> access_db \<Rightarrow> service_account list" where
  "services_with i db =
     filter (\<lambda>s. sv_id s \<in> set (granted_services (filter (\<lambda>g. gr_role_id g = i) (ac_grants db)))) (ac_services db)"

lemma unvisited:
  assumes "p \<in> principals db" and "p \<notin> UserP ` set (users_with i db) \<union> ServiceP ` set (services_with i db)"
    and "principal_filter p g" and "g \<in> set (ac_grants db)"
  shows "gr_role_id g \<noteq> i"
proof
  assume "gr_role_id g = i"
  then have g: "g \<in> set (filter (\<lambda>g. gr_role_id g = i) (ac_grants db))" using assms(4) by simp
  show False
  proof (cases p)
    case (UserP u)
    then show False using assms(1,2,3) granted_user [OF _ g, of u] by (auto simp: principals_def users_with_def)
  next
    case (ServiceP s)
    then show False using assms(1,2,3) granted_service [OF _ g, of s] by (auto simp: principals_def services_with_def)
  qed
qed

definition roles_kept :: "auth_role \<Rightarrow> auth_role \<Rightarrow> bool" where
  "roles_kept a b \<longleftrightarrow> ar_id b = ar_id a \<and> ar_organization_id b = ar_organization_id a \<and>
     ar_is_system b = ar_is_system a \<and> ar_compatibility_role b = ar_compatibility_role a"

lemma renamed_kept [simp]: "roles_kept a (renamed_role rq a)"
  by (simp add: roles_kept_def renamed_role_def)

lemma custom_role:
  assumes "access_ok db" and "a \<in> set (ac_roles db)" and "\<not> ar_is_system a"
  shows "ar_compatibility_role a = None"
    and "ar_id a \<notin> {ar_id b | b. b \<in> set (ac_roles db) \<and> ar_is_system b}"
proof -
  show "ar_compatibility_role a = None"
    using builtins_okD(2) [OF access_okD(3) [OF assms(1)] assms(2)] assms(3)
    by (cases "ar_compatibility_role a") auto
  have "distinct (map ar_id (ac_roles db))" using access_okD(1) [OF assms(1)] by (simp add: keys_ok_def)
  then show "ar_id a \<notin> {ar_id b | b. b \<in> set (ac_roles db) \<and> ar_is_system b}"
    using assms(2,3) by (auto simp: distinct_map dest: inj_onD)
qed


lemma visited_mem: "set (users_with i db) \<subseteq> set (ac_users db)" "set (services_with i db) \<subseteq> set (ac_services db)"
  by (auto simp: users_with_def services_with_def)

lemma invalidate_role_eq:
  "invalidate_role_principals now i db =
     fold (\<lambda>s. on_service (sv_id s) bump_service) (services_with i db)
       (fold (invalidate_user ''authorization role changed'' now) (users_with i db) db)"
  by (simp add: invalidate_role_principals_def users_with_def services_with_def Let_def)

lemma update_where_mem:
  assumes "distinct (map key xs)" and "\<And>x. key (f x) = key x" and "key y \<noteq> i"
  shows "y \<in> set (update_where (\<lambda>x. key x = i) f xs) \<longleftrightarrow> y \<in> set xs"
  using assms(2,3) by (auto simp: set_update_where)

lemma bex_update_where:
  "(\<And>x. Q (f x) = Q x) \<Longrightarrow> (\<exists>x \<in> set (update_where P f xs). Q x) \<longleftrightarrow> (\<exists>x \<in> set xs. Q x)"
  by (induction xs) auto

lemma key_eq: "distinct (map f xs) \<Longrightarrow> x \<in> set xs \<Longrightarrow> y \<in> set xs \<Longrightarrow> f x = f y \<Longrightarrow> x = y"
  by (simp add: distinct_map inj_on_def)

lemma has_role_update:
  assumes "\<And>a. ar_id (f a) = ar_id a" and "\<And>a. ar_organization_id (f a) = ar_organization_id a"
    and "ac_roles db' = update_where P f (ac_roles db)"
  shows "has_role db' j o' = has_role db j o'"
  unfolding has_role_def assms(3) by (rule bex_update_where) (simp add: assms(1,2))

lemma role_of_permission:
  assumes "access_ok db" and "m \<in> set (ac_permissions db)" and "a \<in> set (ac_roles db)" and "rm_role_id m = ar_id a"
  shows "rm_organization_id m = ar_organization_id a"
proof -
  obtain b where "b \<in> set (ac_roles db)" "ar_id b = ar_id a" "ar_organization_id b = rm_organization_id m"
    using permission_role [OF assms(1,2)] assms(4) by (auto simp: has_role_def)
  moreover have "distinct (map ar_id (ac_roles db))" using access_okD(1) [OF assms(1)] by (simp add: keys_ok_def)
  ultimately have "b = a" using key_eq assms(3) by metis
  then show ?thesis using \<open>ar_organization_id b = rm_organization_id m\<close> by simp
qed

lemma permission_known: "access_ok db \<Longrightarrow> m \<in> set (ac_permissions db) \<Longrightarrow> rm_permission_key m \<in> set ALL_PERMISSION_KEYS"
  using access_okD(2) by (simp add: catalogue_ok_def)

lemma rename_sound:
  assumes a: "a \<in> set (ac_roles db)" "\<not> ar_is_system a" and inv: "access_ok db"
    and rows: "rows_grow db db'" and roles: "ac_roles db' = update_where (\<lambda>x. ar_id x = ar_id a) (renamed_role rq) (ac_roles db)"
    and same: "ac_grants db' = ac_grants db" "ac_assignments db' = ac_assignments db"
    and permissions: "\<And>m. m \<in> set (ac_permissions db') \<Longrightarrow>
      if rm_role_id m = ar_id a then rm_permission_key m \<in> set ALL_PERMISSION_KEYS \<and> rm_organization_id m = ar_organization_id a
      else m \<in> set (ac_permissions db)"
    and kept: "\<And>m. m \<in> set (ac_permissions db) \<Longrightarrow> rm_role_id m \<noteq> ar_id a \<Longrightarrow> m \<in> set (ac_permissions db')"
  shows "policy_ok db'"
proof (rule policy_ok_roles [OF access_ok_policy [OF inv] rows custom_role(2) [OF inv a]])
  have distinct: "distinct (map ar_id (ac_roles db))" using access_okD(1) [OF inv] by (simp add: keys_ok_def)
  have key: "\<And>x. ar_id (renamed_role rq x) = ar_id x" by (simp add: renamed_role_def)
  have role: "has_role db' j o' = has_role db j o'" for j o'
    by (rule has_role_update [OF key _ roles]) (simp add: renamed_role_def)
  show "distinct (map ar_id (ac_roles db'))"
    unfolding roles map_update_where [where g = ar_id and f = "renamed_role rq", OF key] by (rule distinct)
  show "x \<in> set (ac_roles db') \<longleftrightarrow> x \<in> set (ac_roles db)" if "ar_id x \<noteq> ar_id a" for x
    unfolding roles by (rule update_where_mem [OF distinct key that])
  show "\<not> ar_is_system x \<and> ar_compatibility_role x = None" if x: "x \<in> set (ac_roles db')" "ar_id x = ar_id a" for x
  proof -
    obtain y where y: "y \<in> set (ac_roles db)" "ar_id y = ar_id a" "x = renamed_role rq y"
      using x key unfolding roles by (auto simp: set_update_where)
    then have "y = a" using distinct a(1) by (auto simp: distinct_map dest: inj_onD)
    then show ?thesis using y(3) a custom_role(1) [OF inv a] by (simp add: renamed_role_def)
  qed
  show "if rm_role_id m = ar_id a then rm_permission_key m \<in> set ALL_PERMISSION_KEYS \<and> has_role db' (ar_id a) (rm_organization_id m)
      else m \<in> set (ac_permissions db)" if "m \<in> set (ac_permissions db')" for m
    using permissions [OF that] a(1) unfolding role by (auto simp: has_role_def split: if_split_asm)
  show "m \<in> set (ac_permissions db')" if "m \<in> set (ac_permissions db)" "rm_role_id m \<noteq> ar_id a" for m
    using kept that .
  show "has_role db' (ar_id a) (gr_organization_id g)" if "g \<in> set (ac_grants db')" "gr_role_id g = ar_id a" for g
    using grant_role [OF inv, of g] that unfolding role same by simp
qed (simp_all add: same)

lemma sound_update_role:
  assumes made: "update_role env actor i rq db = Inr db'"
  shows "sound db db'"
proof -
  let ?roles = "\<lambda>a. update_where (\<lambda>x. ar_id x = ar_id a) (renamed_role rq) (ac_roles db)"
  obtain a where owned: "owned_role (principal_org actor) i db = Inr a" and custom: "\<not> ar_is_system a"
    and rest: "(case ku_permission_keys rq of None \<Rightarrow> Inr (db\<lparr>ac_roles := ?roles a\<rparr>)
      | Some ks \<Rightarrow> res_bind (replace_permissions a ks (db\<lparr>ac_roles := ?roles a\<rparr>)) (\<lambda>db2.
          Inr (invalidate_role_principals (en_now env) (ar_id a) db2))) = Inr db'"
    using made by (auto simp: update_role_def Let_def res_bind_Inr split: if_split_asm)
  have a: "a \<in> set (ac_roles db)" using owned_role_Inr [OF owned] by simp
  show ?thesis
  proof (cases "ku_permission_keys rq")
    case None
    then have db': "db' = db\<lparr>ac_roles := ?roles a\<rparr>" using rest by simp
    have role: "has_role db' j o' = has_role db j o'" for j o'
      by (rule has_role_update [of "renamed_role rq"]) (simp_all add: db' renamed_role_def)
    show ?thesis
    proof (rule sound_policy)
      show "policy_ok db'" if inv: "access_ok db" and rows: "rows_grow db db'"
        by (rule rename_sound [OF a custom inv rows])
          (use permission_known [OF inv] role_of_permission [OF inv _ a] in \<open>auto simp: db'\<close>)
    qed (simp_all add: role, simp_all add: db' list_all2_refl sessions_kept_cong)
  next
    case (Some ks)
    then obtain db2 where db2: "replace_permissions a ks (db\<lparr>ac_roles := ?roles a\<rparr>) = Inr db2"
      and db': "db' = invalidate_role_principals (en_now env) (ar_id a) db2"
      using rest by (auto simp: res_bind_Inr)
    note new = replace_permissions_Inr [OF db2]
    have "users_with (ar_id a) db2 = users_with (ar_id a) db" "services_with (ar_id a) db2 = services_with (ar_id a) db"
      by (simp_all add: new(2) users_with_def services_with_def)
    then have db'': "db' = fold (\<lambda>s. on_service (sv_id s) bump_service) (services_with (ar_id a) db)
       (fold (invalidate_user ''authorization role changed'' (en_now env)) (users_with (ar_id a) db) db2)"
      by (simp add: db' invalidate_role_eq)
    have role: "has_role db2 j o' = has_role db j o'" for j o'
      by (rule has_role_update [of "renamed_role rq"]) (simp_all add: new(2) renamed_role_def)
    show ?thesis
      unfolding db''
    proof (rule invalidation.sound_refresh [OF _ _ _ _ _ _ _ visited_mem])
      assume inv: "access_ok db"
      show "policy_ok db2"
        by (rule rename_sound [OF a custom inv])
          (use new(1) in \<open>auto simp: new(2) rows_grow_def list_all2_refl sessions_kept_cong\<close>)
    next
      fix p g assume "access_ok db" "p \<in> principals db" "principal_filter p g"
        "p \<notin> UserP ` set (users_with (ar_id a) db) \<union> ServiceP ` set (services_with (ar_id a) db)"
      then have "g \<in> set (ac_grants db) \<Longrightarrow> gr_role_id g \<noteq> ar_id a" using unvisited by blast
      then show "(g \<in> set (ac_grants db2) \<longleftrightarrow> g \<in> set (ac_grants db)) \<and> (g \<in> set (ac_grants db) \<longrightarrow>
         (\<forall>o'. has_role db2 (gr_role_id g) o' = has_role db (gr_role_id g) o') \<and>
         (\<forall>m. rm_role_id m = gr_role_id g \<longrightarrow> (m \<in> set (ac_permissions db2) \<longleftrightarrow> m \<in> set (ac_permissions db))))"
        unfolding role by (auto simp: new(2))
    qed (simp_all add: new(2))
  qed
qed

lemma sound_delete_role:
  assumes made: "delete_role env actor i db = Inr db'"
  shows "sound db db'"
proof -
  obtain a where owned: "owned_role (principal_org actor) i db = Inr a" and custom: "\<not> ar_is_system a"
    and db': "db' = fold (\<lambda>s. after_grant_change (en_now env) (ServiceP s)) (services_with (ar_id a) db)
       (fold (\<lambda>u. after_grant_change (en_now env) (UserP u)) (users_with (ar_id a) db)
         (db\<lparr>ac_grants := filter (\<lambda>g. gr_role_id g \<noteq> ar_id a) (ac_grants db),
            ac_roles := filter (\<lambda>x. ar_id x \<noteq> ar_id a) (ac_roles db),
            ac_permissions := filter (\<lambda>m. rm_role_id m \<noteq> ar_id a) (ac_permissions db)\<rparr>))"
      (is "_ = fold _ _ (fold _ _ ?db1)")
    using made unfolding delete_role_def Let_def res_bind_Inr users_with_def services_with_def
    by (auto split: if_split_asm)
  have a: "a \<in> set (ac_roles db)" using owned_role_Inr [OF owned] by simp
  have role: "has_role ?db1 j o' = has_role db j o'" if "j \<noteq> ar_id a" for j o'
    using that by (auto simp: has_role_def)
  show ?thesis
    unfolding db'
  proof (rule regranting.sound_refresh [OF _ _ _ _ _ _ _ visited_mem])
    assume inv: "access_ok db"
    show "policy_ok ?db1"
    proof (rule policy_ok_roles [OF access_ok_policy [OF inv] _ custom_role(2) [OF inv a custom]])
      show "distinct (map ar_id (ac_roles ?db1))"
        using access_okD(1) [OF inv] by (simp add: keys_ok_def distinct_map_filter)
    qed (auto simp: rows_grow_def list_all2_refl sessions_kept_cong)
  next
    fix p g assume "access_ok db" "p \<in> principals db" "principal_filter p g"
      "p \<notin> UserP ` set (users_with (ar_id a) db) \<union> ServiceP ` set (services_with (ar_id a) db)"
    then have "g \<in> set (ac_grants db) \<Longrightarrow> gr_role_id g \<noteq> ar_id a" using unvisited by blast
    then show "(g \<in> set (ac_grants ?db1) \<longleftrightarrow> g \<in> set (ac_grants db)) \<and> (g \<in> set (ac_grants db) \<longrightarrow>
       (\<forall>o'. has_role ?db1 (gr_role_id g) o' = has_role db (gr_role_id g) o') \<and>
       (\<forall>m. rm_role_id m = gr_role_id g \<longrightarrow> (m \<in> set (ac_permissions ?db1) \<longleftrightarrow> m \<in> set (ac_permissions db))))"
      using role [of "gr_role_id g"] by auto
  qed simp_all
qed

subsection \<open>Grants\<close>

lemma the_principal_Inr:
  assumes "the_principal o' kind i db = Inr p"
  shows "p \<in> principals db" and "key_of p = (kind, i)" and "principal_org p = o'"
  using assms by (auto simp: the_principal_def principals_def key_of_def split: PrincipalType.splits option.splits dest!: find_SomeD)

definition visit :: "principal \<Rightarrow> user list \<times> service_account list" where
  "visit p = (case p of UserP u \<Rightarrow> ([u], []) | ServiceP s \<Rightarrow> ([], [s]))"

lemma agc_as_folds:
  "after_grant_change now p db = fold (\<lambda>s. after_grant_change now (ServiceP s)) (snd (visit p))
     (fold (\<lambda>u. after_grant_change now (UserP u)) (fst (visit p)) db)"
  by (cases p) (simp_all add: visit_def)

lemma visit_mem: "p \<in> principals db \<Longrightarrow> set (fst (visit p)) \<subseteq> set (ac_users db)"
  "p \<in> principals db \<Longrightarrow> set (snd (visit p)) \<subseteq> set (ac_services db)"
  by (auto simp: principals_def visit_def split: principal.splits)

lemma visit_set: "UserP ` set (fst (visit p)) \<union> ServiceP ` set (snd (visit p)) = {p}"
  by (cases p) (simp_all add: visit_def)

lemma principals_distinct:
  assumes "keys_ok db" and "p \<in> principals db" and "q \<in> principals db" and "key_of p = key_of q"
  shows "p = q"
  using assms(2-) key_eq [of us_id "ac_users db"] key_eq [of sv_id "ac_services db"] assms(1)
  by (cases p; cases q) (auto simp: principals_def key_of_def keys_ok_def)

lemma grants_irrelevant:
  "principal_ok (db\<lparr>ac_grants := gs\<rparr>) = principal_ok db" "site_in (db\<lparr>ac_grants := gs\<rparr>) = site_in db"
  by (auto simp: fun_eq_iff principal_ok_def site_in_def split: PrincipalType.split)

text \<open>A change of the grants of one principal that its visit follows.\<close>

lemma sound_regrant:
  assumes p: "p \<in> principals db" and db1: "db1 = db\<lparr>ac_grants := gs\<rparr>"
    and ok: "\<And>g. access_ok db \<Longrightarrow> g \<in> set gs \<Longrightarrow> g \<in> set (ac_grants db) \<or> grant_ok db g"
    and mine: "\<And>g. access_ok db \<Longrightarrow> (g \<in> set gs) \<noteq> (g \<in> set (ac_grants db)) \<Longrightarrow> principal_filter p g"
    and exclusive: "\<And>g q. access_ok db \<Longrightarrow> g \<in> set gs \<or> g \<in> set (ac_grants db) \<Longrightarrow> q \<in> principals db \<Longrightarrow>
       principal_filter p g \<Longrightarrow> principal_filter q g \<Longrightarrow> key_of q = key_of p"
  shows "sound db (after_grant_change now p db1)"
proof (subst agc_as_folds, rule regranting.sound_refresh [OF _ _ _ _ _ _ _ visit_mem [OF p]])
  assume inv: "access_ok db"
  have same: "catalogue_ok db1 = catalogue_ok db" "builtins_ok db1 = builtins_ok db"
    "\<And>g. grant_ok db1 g = grant_ok db g" "\<And>a. assignment_ok db1 a = assignment_ok db a"
    by (simp_all add: db1 catalogue_ok_def builtins_ok_def exact_def grant_ok_def grants_irrelevant assignment_ok_def
        split: GrantScopeType.split)
  have "grant_ok db g" if "g \<in> set gs" for g using ok [OF inv that] access_okD(5) [OF inv] by blast
  then show "policy_ok db1"
    using access_ok_policy [OF inv] unfolding policy_ok_def same by (simp add: db1)
next
  fix q g assume inv: "access_ok db" and q: "q \<in> principals db" "q \<notin> UserP ` set (fst (visit p)) \<union> ServiceP ` set (snd (visit p))"
    and g: "principal_filter q g"
  have "key_of q \<noteq> key_of p" using principals_distinct [OF access_okD(1) [OF inv] q(1) p] q(2) unfolding visit_set by blast
  then have "g \<in> set gs \<longleftrightarrow> g \<in> set (ac_grants db)" using mine [OF inv, of g] exclusive [OF inv, of g q] q(1) g by argo
  then show "(g \<in> set (ac_grants db1) \<longleftrightarrow> g \<in> set (ac_grants db)) \<and> (g \<in> set (ac_grants db) \<longrightarrow>
       (\<forall>o'. has_role db1 (gr_role_id g) o' = has_role db (gr_role_id g) o') \<and>
       (\<forall>m. rm_role_id m = gr_role_id g \<longrightarrow> (m \<in> set (ac_permissions db1) \<longleftrightarrow> m \<in> set (ac_permissions db))))"
    by (simp add: db1 has_role_def)
qed (simp_all add: db1)


lemma filter_iff_key: "principal_filter p g \<longleftrightarrow>
    (case key_of p of (PrincipalType.USER, i) \<Rightarrow> gr_user_id g = Some i
     | (PrincipalType.SERVICE_ACCOUNT, i) \<Rightarrow> gr_service_account_id g = Some i)"
  by (cases p) (auto simp: key_of_def)

text \<open>A well-formed grant belongs to one principal.\<close>

lemma owner_unique:
  assumes "principal_ok db (gr_principal_type g) (gr_user_id g) (gr_service_account_id g) (gr_organization_id g)"
    and "principal_filter p g" and "principal_filter q g"
  shows "key_of q = key_of p"
  using assms by (cases p; cases q) (auto simp: principal_ok_def key_of_def split: PrincipalType.splits)

lemma the_principal_ok:
  assumes "the_principal o' kind i db = Inr p"
  shows "principal_ok db kind (if kind = PrincipalType.USER then Some i else None)
    (if kind = PrincipalType.SERVICE_ACCOUNT then Some i else None) o'"
  using assms
  by (auto simp: the_principal_def principal_ok_def split: PrincipalType.splits option.splits dest!: find_SomeD)

lemma scope_valid_Inr:
  "scope_valid o' rq db = Inr u \<Longrightarrow>
    (case gc_scope_type rq of GrantScopeType.ORGANIZATION \<Rightarrow> gc_scope_id rq = o' | GrantScopeType.SITE \<Rightarrow> site_in db o' (gc_scope_id rq))"
  by (auto simp: scope_valid_def split: GrantScopeType.splits)

lemma sound_create_grant:
  assumes made: "create_grant env actor rq db = Inr db'"
  shows "sound db db'"
proof -
  let ?g = "new_grant env actor rq"
  obtain a p where owned: "owned_role (principal_org actor) (gc_role_id rq) db = Inr a"
    and p: "the_principal (principal_org actor) (gc_principal_type rq) (gc_principal_id rq) db = Inr p"
    and scope: "scope_valid (principal_org actor) rq db = Inr ()"
    and db': "db' = after_grant_change (en_now env) p (db\<lparr>ac_grants := ac_grants db @ [?g]\<rparr>)"
    using made by (auto simp: create_grant_def Let_def res_bind_Inr split: if_split_asm)
  have ok: "grant_ok db ?g"
    using the_principal_ok [OF p] owned_role_Inr [OF owned] scope_valid_Inr [OF scope]
    unfolding grant_ok_def new_grant_def by (auto split: GrantScopeType.splits)
  show ?thesis
    unfolding db'
  proof (rule sound_regrant [OF the_principal_Inr(1) [OF p] refl])
    show "principal_filter p g" if "(g \<in> set (ac_grants db @ [?g])) \<noteq> (g \<in> set (ac_grants db))" for g
    proof -
      have "g = ?g" using that by auto
      then show ?thesis using the_principal_Inr(2) [OF p]
        by (cases "gc_principal_type rq") (auto simp: filter_iff_key new_grant_def)
    qed
    show "key_of q = key_of p" if "access_ok db" "g \<in> set (ac_grants db @ [?g]) \<or> g \<in> set (ac_grants db)"
      "principal_filter p g" "principal_filter q g" for g q
    proof -
      have "grant_ok db g" using that(2) ok access_okD(5) [OF that(1)] by auto
      then show ?thesis unfolding grant_ok_def using owner_unique that(3,4) by blast
    qed
  qed (use ok in auto)
qed

lemma delete_grant_Inr:
  assumes "delete_grant env actor i db = Inr db'"
  obtains g a k p where "g \<in> set (ac_grants db)" and "gr_organization_id g = principal_org actor" and "gr_id g = i"
    and "a \<in> set (ac_roles db)" and "ar_id a = gr_role_id g" and "or_opt (gr_user_id g) (gr_service_account_id g) = Some k"
    and "the_principal (principal_org actor) (gr_principal_type g) k db = Inr p" and "\<not> strands_organization p a g db"
    and "db' = after_grant_change (en_now env) p (db\<lparr>ac_grants := filter (\<lambda>x. x \<noteq> g) (ac_grants db)\<rparr>)"
proof -
  obtain g where g: "find (\<lambda>g. gr_id g = i \<and> gr_organization_id g = principal_org actor) (ac_grants db) = Some g"
    using assms by (auto simp: delete_grant_def Let_def split: option.splits)
  obtain a where a: "find (\<lambda>a. ar_id a = gr_role_id g) (ac_roles db) = Some a"
    using assms g by (auto simp: delete_grant_def Let_def split: option.splits)
  obtain k where k: "or_opt (gr_user_id g) (gr_service_account_id g) = Some k"
    using assms g a by (auto simp: delete_grant_def Let_def split: option.splits)
  obtain p where p: "the_principal (principal_org actor) (gr_principal_type g) k db = Inr p" "\<not> strands_organization p a g db"
    "db' = after_grant_change (en_now env) p (db\<lparr>ac_grants := filter (\<lambda>x. x \<noteq> g) (ac_grants db)\<rparr>)"
    using assms g a k by (auto simp: delete_grant_def Let_def res_bind_Inr split: if_split_asm)
  show thesis using find_SomeD [OF g] find_SomeD [OF a] k p by (intro that) auto
qed

lemma sound_delete_grant:
  assumes made: "delete_grant env actor i db = Inr db'"
  shows "sound db db'"
proof -
  obtain g a k p where g: "g \<in> set (ac_grants db)" "or_opt (gr_user_id g) (gr_service_account_id g) = Some k"
    and p: "the_principal (principal_org actor) (gr_principal_type g) k db = Inr p"
    and db': "db' = after_grant_change (en_now env) p (db\<lparr>ac_grants := filter (\<lambda>x. x \<noteq> g) (ac_grants db)\<rparr>)"
    by (rule delete_grant_Inr [OF made]) blast
  have owner: "principal_filter p g" if inv: "access_ok db"
  proof -
    have "grant_ok db g" using access_okD(5) [OF inv] g(1) by blast
    then show ?thesis using g(2) the_principal_Inr(2) [OF p]
      by (cases "gr_principal_type g") (auto simp: grant_ok_def principal_ok_def filter_iff_key)
  qed
  show ?thesis
    unfolding db'
  proof (rule sound_regrant [OF the_principal_Inr(1) [OF p] refl])
    show "principal_filter p x" if "access_ok db" "(x \<in> set (filter (\<lambda>x. x \<noteq> g) (ac_grants db))) \<noteq> (x \<in> set (ac_grants db))" for x
      using that owner g(1) by auto
    show "key_of q = key_of p" if "access_ok db" "x \<in> set (filter (\<lambda>x. x \<noteq> g) (ac_grants db)) \<or> x \<in> set (ac_grants db)"
      "principal_filter p x" "principal_filter q x" for x q
    proof -
      have "grant_ok db x" using that(2) access_okD(5) [OF that(1)] by auto
      then show ?thesis unfolding grant_ok_def using owner_unique that(3,4) by blast
    qed
  qed auto
qed

subsection \<open>Service accounts and tokens\<close>

text \<open>New rows.\<close>

lemma rows_evolveI:
  assumes "ac_organizations db' = ac_organizations db" and "set (ac_sites db) \<subseteq> set (ac_sites db')"
    and "set (ac_users db) \<subseteq> set (ac_users db')" and "set (ac_services db) \<subseteq> set (ac_services db')"
    and "set (ac_tokens db) \<subseteq> set (ac_tokens db')" and "set (ac_sessions db) \<subseteq> set (ac_sessions db')"
    and "\<And>p. access_view db' p = access_view db p"
  shows "evolves db db'"
proof -
  have "principal_evolves db db' p p" for p using assms(7) by (simp add: principal_evolves_def)
  moreover have "principals db \<subseteq> principals db'" using assms(3,4) by (auto simp: principals_def)
  ultimately show ?thesis
    using assms(1,2,5,6) token_kept_refl session_kept_refl unfolding evolves_def by (intro conjI) (assumption | blast)+
qed

lemma view_same_tables:
  assumes "ac_roles db' = ac_roles db" "ac_permissions db' = ac_permissions db" "ac_grants db' = ac_grants db"
  shows "access_view db' p = access_view db p"
  by (simp add: access_view_def permission_rows_def assms)

text \<open>Rows may only be added to the tables of sites, users, service accounts, tokens and sessions.\<close>

lemma sound_new_rows:
  assumes orgs: "ac_organizations db' = ac_organizations db"
    and sites: "ac_sites db' = ac_sites db @ xs" and users: "ac_users db' = ac_users db @ us"
    and services: "ac_services db' = ac_services db @ ss" and tokens: "ac_tokens db' = ac_tokens db @ ts"
    and sessions: "ac_sessions db' = ac_sessions db @ es"
    and same: "ac_roles db' = ac_roles db" "ac_permissions db' = ac_permissions db"
      "ac_grants db' = ac_grants db" "ac_assignments db' = ac_assignments db"
    and keys: "keys_ok db \<Longrightarrow> keys_ok db'"
    and org_ok: "\<And>u. access_ok db \<Longrightarrow> u \<in> set us \<Longrightarrow> us_organization_id u \<in> og_id ` set (ac_organizations db)"
      "\<And>s. access_ok db \<Longrightarrow> s \<in> set ss \<Longrightarrow> sv_organization_id s \<in> og_id ` set (ac_organizations db)"
    and token: "\<And>t. t \<in> set ts \<Longrightarrow> token_ok db' t" and session: "\<And>s. s \<in> set es \<Longrightarrow> session_ok db' s"
  shows "sound db db'"
  unfolding sound_def
proof (intro impI conjI)
  assume inv: "access_ok db"
  have site: "site_in db' o' i" if "site_in db o' i" for o' i using that by (auto simp: site_in_def sites)
  have principal: "principal_ok db' kind user service o'" if "principal_ok db kind user service o'" for kind user service o'
    using that by (cases kind) (auto simp: principal_ok_def users services)
  have "grant_ok db' g" if "grant_ok db g" for g
    using that site principal unfolding grant_ok_def same by (cases "gr_scope_type g") auto
  moreover have "token_ok db' t" if "token_ok db t" for t
    using that by (cases "tk_principal_type t") (auto simp: token_ok_def users services)
  moreover have "assignment_ok db' a" if "assignment_ok db a" for a
    using that site by (auto simp: assignment_ok_def users)
  moreover have "session_ok db' s" if "session_ok db s" for s using that by (auto simp: session_ok_def users)
  ultimately have mono: "\<And>g. grant_ok db g \<Longrightarrow> grant_ok db' g" "\<And>t. token_ok db t \<Longrightarrow> token_ok db' t"
    "\<And>a. assignment_ok db a \<Longrightarrow> assignment_ok db' a" "\<And>s. session_ok db s \<Longrightarrow> session_ok db' s"
    by simp_all
  show "access_ok db'"
  proof (rule access_okI)
    show "keys_ok db'" using keys access_okD(1) [OF inv] .
    show "catalogue_ok db'" using access_okD(2) [OF inv] by (simp add: catalogue_ok_def same)
    show "builtins_ok db'" using access_okD(3) [OF inv] by (simp add: builtins_ok_def exact_def same orgs)
    show "orgs_ok db'" using access_okD(4) [OF inv] org_ok [OF inv] by (auto simp: orgs_ok_def orgs users services)
    show "grant_ok db' g" if "g \<in> set (ac_grants db')" for g
      using that unfolding same by (intro mono(1) access_okD(5) [OF inv])
    show "assignment_ok db' a" if "a \<in> set (ac_assignments db')" for a
      using that unfolding same by (intro mono(3) access_okD(7) [OF inv])
    show "token_ok db' t" if "t \<in> set (ac_tokens db')" for t
      using that token mono(2) [OF access_okD(6) [OF inv]] unfolding tokens by auto
    show "session_ok db' s" if "s \<in> set (ac_sessions db')" for s
      using that session mono(4) [OF access_okD(8) [OF inv]] unfolding sessions by auto
  qed
  show "evolves db db'"
    by (rule rows_evolveI [OF orgs _ _ _ _ _ view_same_tables [OF same(1-3)]])
      (simp_all add: sites users services tokens sessions)
qed


lemma principal_org_known: "access_ok db \<Longrightarrow> p \<in> principals db \<Longrightarrow> principal_org p \<in> og_id ` set (ac_organizations db)"
  using access_okD(4) by (auto simp: orgs_ok_def principals_def)

lemma sound_create_service_account:
  assumes made: "create_service_account env actor name description db = Inr db'"
    and actor: "actor \<in> principals db" and fresh: "en_fresh env \<notin> sv_id ` set (ac_services db)"
  shows "sound db db'"
proof -
  have db': "db' = db\<lparr>ac_services := ac_services db @ [new_service env actor name description]\<rparr>"
    using made by (auto simp: create_service_account_def split: if_split_asm)
  show ?thesis
    by (rule sound_new_rows [where xs = "[]" and us = "[]" and ss = "[new_service env actor name description]"
          and ts = "[]" and es = "[]"])
      (use fresh principal_org_known [OF _ actor] in \<open>auto simp: db' keys_ok_def new_service_def\<close>)
qed

lemma owned_service_Inr:
  "owned_service o' i db = Inr s \<Longrightarrow> s \<in> set (ac_services db) \<and> sv_id s = i \<and> sv_organization_id s = o'"
  by (auto simp: owned_service_def split: option.splits dest: find_SomeD)

lemma sound_revoke_service_tokens: "sound db (revoke_service_tokens i now db)"
  unfolding revoke_service_tokens_def by (rule sound_tokens) simp

lemma sound_update_service_account:
  assumes "update_service_account env actor i rq db = Inr db'"
  shows "sound db db'"
proof -
  obtain s where "owned_service (principal_org actor) i db = Inr s"
    and db': "db' = (let db1 = on_service (sv_id s) (set_service rq) db
      in case vu_status rq of
           Some (Some v) \<Rightarrow> (let db2 = on_service (sv_id s) bump_service db1
              in if v = ServiceAccountStatus.SUSPENDED then revoke_service_tokens (sv_id s) (en_now env) db2 else db2)
         | _ \<Rightarrow> db1)"
    using assms by (auto simp: update_service_account_def res_bind_Inr Let_def split: if_split_asm option.splits)
  have one: "sound db (on_service (sv_id s) (set_service rq) db)" by (rule sound_on_service) simp
  have two: "sound x (on_service (sv_id s) bump_service x)" for x by (rule sound_on_service) simp
  show ?thesis
    unfolding db' Let_def using one two sound_trans sound_revoke_service_tokens
    by (auto split: option.split) (metis sound_trans sound_revoke_service_tokens)+
qed

lemma sound_suspend_service_account:
  assumes "suspend_service_account env actor i db = Inr db'"
  shows "sound db db'"
proof -
  have "sound db (revoke_service_tokens k (en_now env)
      (on_service k (\<lambda>x. bump_service (x\<lparr>sv_status := ServiceAccountStatus.SUSPENDED\<rparr>)) db))" for k
    by (rule sound_trans [OF sound_on_service sound_revoke_service_tokens]) simp
  then show ?thesis using assms by (auto simp: suspend_service_account_def res_bind_Inr)
qed

lemma sound_issue_token:
  assumes made: "issue_token env digest drawn p rq rotated db = Inr (db', t)"
    and p: "p \<in> principals db" and fresh: "en_fresh env \<notin> tk_id ` set (ac_tokens db)"
  shows "sound db db'"
proof -
  obtain restrictions where t: "t = new_token env digest (api_secret drawn) p rq restrictions rotated"
    and db': "db' = db\<lparr>ac_tokens := ac_tokens db @ [t]\<rparr>"
    using made by (auto simp: issue_token_def Let_def split: sum.splits)
  have "token_ok db' t" using p by (cases p) (auto simp: token_ok_def t db' new_token_def principals_def)
  then show ?thesis
    by (intro sound_new_rows [where xs = "[]" and us = "[]" and ss = "[]" and ts = "[t]" and es = "[]"])
      (use fresh in \<open>auto simp: db' keys_ok_def t new_token_def\<close>)
qed

lemma sound_rotate_token:
  assumes made: "rotate_token env digest drawn t p rq db = Inr (db', t')"
    and p: "p \<in> principals db" and fresh: "en_fresh env \<notin> tk_id ` set (ac_tokens db)"
  shows "sound db db'"
proof -
  let ?db1 = "on_token (tk_id t) (tk_revoked_at_update (\<lambda>_. Some (en_now env))) db"
  have issued: "issue_token env digest drawn p (rotation_request t rq) (Some (tk_id t)) ?db1 = Inr (db', t')"
    using made by (auto simp: rotate_token_def split: if_split_asm)
  have "map tk_id (ac_tokens ?db1) = map tk_id (ac_tokens db)" by (simp add: tables map_update_where)
  then have "tk_id ` set (ac_tokens ?db1) = tk_id ` set (ac_tokens db)" by (metis set_map)
  then have "sound ?db1 db'"
    using p fresh by (intro sound_issue_token [OF issued]) (auto simp: principals_def tables)
  moreover have "sound db ?db1" by (rule sound_on_token) simp
  ultimately show ?thesis by (rule sound_trans [rotated])
qed

lemma service_principal: "owned_service o' i db = Inr s \<Longrightarrow> ServiceP s \<in> principals db"
  using owned_service_Inr by (auto simp: principals_def)

lemma sound_create_personal_token:
  assumes "create_personal_token env digest drawn actor rq db = Inr (db', t)" and "actor \<in> principals db"
    and "en_fresh env \<notin> tk_id ` set (ac_tokens db)"
  shows "sound db db'"
  using assms by (cases actor) (auto simp: create_personal_token_def intro: sound_issue_token)

lemma sound_create_service_token:
  assumes "create_service_token env digest drawn actor account rq db = Inr (db', t)"
    and "en_fresh env \<notin> tk_id ` set (ac_tokens db)"
  shows "sound db db'"
  using assms
  by (auto simp: create_service_token_def res_bind_Inr split: if_split_asm intro: sound_issue_token service_principal)

lemma sound_rotate_personal_token:
  assumes "rotate_personal_token env digest drawn actor i rq db = Inr (db', t)" and "actor \<in> principals db"
    and "en_fresh env \<notin> tk_id ` set (ac_tokens db)"
  shows "sound db db'"
  using assms by (cases actor) (auto simp: rotate_personal_token_def res_bind_Inr intro: sound_rotate_token)

lemma sound_rotate_service_token:
  assumes "rotate_service_token env digest drawn actor account i rq db = Inr (db', t)"
    and "en_fresh env \<notin> tk_id ` set (ac_tokens db)"
  shows "sound db db'"
  using assms by (auto simp: rotate_service_token_def res_bind_Inr intro: sound_rotate_token service_principal)

lemma sound_revoke_token: "sound db (on_token i (mark_token_revoked now) db)"
  by (rule sound_on_token) simp

lemma sound_revoke_personal_token: "revoke_personal_token env actor i db = Inr db' \<Longrightarrow> sound db db'"
  by (cases actor) (auto simp: revoke_personal_token_def res_bind_Inr sound_revoke_token)

lemma sound_revoke_service_token: "revoke_service_token env actor account i db = Inr db' \<Longrightarrow> sound db db'"
  by (auto simp: revoke_service_token_def res_bind_Inr sound_revoke_token)

lemma sound_record_use: "sound db (record_use now ip p t db)"
proof -
  have "sound x (on_token (tk_id t) (touch_token now ip) x)" for x by (rule sound_on_token) simp
  moreover have "sound db (on_service (sv_id s) (sv_last_used_at_update (\<lambda>_. Some now)) db)" for s
    by (rule sound_on_service) simp
  ultimately show ?thesis by (cases p) (auto simp: record_use_def intro: sound_trans)
qed

lemma sound_resolve_session:
  "resolve_session st claims u allow now db = Inr (db', idy) \<Longrightarrow> sound db db'"
  by (auto simp: resolve_session_def split: option.splits json.splits if_split_asm
      intro!: sound_sessions sessions_kept_on_session)

lemma sound_resolve_identity:
  assumes "resolve_identity st credentials ip allow now db = Inr (db', idy)"
  shows "sound db db'"
proof -
  obtain c where c: "credentials = Some c" "c \<noteq> []" using assms by (auto simp: resolve_identity_def split: option.splits if_split_asm)
  show ?thesis
  proof (cases "starts_with ''vapi_'' c")
    case True
    then obtain p t where "authenticate_api_token (au_digest st) c ip now db = Inr (db', p, t)"
      using assms c by (auto simp: resolve_identity_def res_bind_Inr)
    then show ?thesis by (auto simp: authenticate_api_token_def sound_record_use split: option.splits if_split_asm)
  next
    case False
    then obtain claims where "resolve_claims st claims allow now db = Inr (db', idy)"
      using assms c by (auto simp: resolve_identity_def split: option.splits)
    then show ?thesis
      by (auto simp: resolve_claims_def split: option.splits if_split_asm json.splits dest: sound_resolve_session)
  qed
qed

subsection \<open>Sessions\<close>

lemma sound_create_session:
  assumes made: "create_session sid rid h u og rq now db = (db', s)"
    and u: "u \<in> set (ac_users db)" and fresh: "sid \<notin> ue_id ` set (ac_sessions db)"
  shows "sound db db'"
proof -
  let ?active = "sort_key ue_last_seen_at (active_sessions (us_id u) now db)"
  let ?n = "nat (max 0 (int (length ?active) - sp_max_concurrent_sessions (session_policy og) + 1))"
  let ?db1 = "revoke_all (take ?n ?active) ''concurrent session limit'' now db"
  have s: "s = new_session sid u (session_policy og) rq now"
    and db': "db' = ?db1\<lparr>ac_sessions := ac_sessions ?db1 @ [s], ac_refresh := ac_refresh ?db1 @ [new_refresh rid s h]\<rparr>"
    using made by (auto simp: create_session_def Let_def)
  have "sound db ?db1" by (rule sound_sessions [OF revoke_all_same revoke_all_kept])
  moreover have "sound ?db1 db'"
  proof (rule sound_new_rows [where xs = "[]" and us = "[]" and ss = "[]" and ts = "[]" and es = "[s]"])
    have "map ue_id (ac_sessions ?db1) = map ue_id (ac_sessions db)"
      using revoke_all_kept [of db "take ?n ?active" "''concurrent session limit''" now] unfolding sessions_kept_def
      by (rule all2_keys) (simp add: session_kept_def)
    then show "keys_ok ?db1 \<Longrightarrow> keys_ok db'" using fresh
      by (simp add: db' keys_ok_def s new_session_def Let_def flip: set_map)
    show "session_ok db' x" if "x \<in> set [s]" for x
      using that u by (auto simp: session_ok_def db' s new_session_def Let_def tables)
  qed (simp_all add: db')
  ultimately show ?thesis by (rule sound_trans)
qed

lemma rotate_refresh_sound: "sound db (rotate_refresh rid h stored s now db)"
proof (rule sound_sessions)
  show "same_access db (rotate_refresh rid h stored s now db)"
    by (simp add: same_access_def rotate_refresh_def Let_def tables)
  have "sessions_kept db (on_session (ue_id s) (touch_session now) db)" by (rule sessions_kept_on_session) simp
  then show "sessions_kept db (rotate_refresh rid h stored s now db)"
    by (simp add: sessions_kept_def rotate_refresh_def Let_def)
qed

lemma sound_revoke_session: "sound db (revoke_session s reason now db)"
  by (rule sound_sessions [OF revoke_session_same revoke_session_kept])

lemma sound_refresh_session: "refresh_session presented rid h now db = (db', out) \<Longrightarrow> sound db db'"
  by (auto simp: refresh_session_def Let_def sound_revoke_session rotate_refresh_sound split: option.splits if_split_asm)

lemma sound_logout: "sound db (logout_session s now db)"
  by (cases s) (simp_all add: logout_session_def sound_revoke_session)

lemma sound_logout_all: "sound db (logout_all_sessions i now db)"
  unfolding logout_all_sessions_def by (rule sound_sessions [OF revoke_user_sessions_same revoke_user_sessions_kept])

lemma sound_revoke_my_session: "revoke_my_session user o' i now db = Inr db' \<Longrightarrow> sound db db'"
  by (auto simp: revoke_my_session_def sound_revoke_session split: option.splits)


subsection \<open>Synchronized grants\<close>

lemma compatibility_row_Some:
  assumes "builtins_ok db" and "og \<in> set (ac_organizations db)"
  obtains a where "compatibility_row (og_id og) db r = Some a" and "a \<in> set (ac_roles db)"
    and "ar_organization_id a = og_id og" and "ar_compatibility_role a = Some r"
proof -
  obtain b where b: "b \<in> set (ac_roles db)" "ar_organization_id b = og_id og" "ar_compatibility_role b = Some r"
    using builtins_okD(1) [OF assms] by blast
  show ?thesis
  proof (cases "compatibility_row (og_id og) db r")
    case None
    then show ?thesis using b by (auto simp: compatibility_row_def find_None_iff)
  next
    case (Some a)
    then show ?thesis using that by (auto simp: compatibility_row_def dest: find_SomeD)
  qed
qed

lemma reset_permissions_exact:
  assumes "exact db a r"
  shows "reset_permissions o' a r db = db"
proof -
  have keys: "rm_permission_key ` {m \<in> set (ac_permissions db). rm_role_id m = ar_id a} = set (BUILTIN_ROLE_PERMISSIONS r)"
    using assms by (simp add: exact_def)
  have "filter (\<lambda>m. rm_role_id m = ar_id a \<longrightarrow> rm_permission_key m \<in> set (BUILTIN_ROLE_PERMISSIONS r)) (ac_permissions db)
      = ac_permissions db"
    using keys by (intro filter_True) blast
  moreover have "filter (\<lambda>k. k \<notin> set (map rm_permission_key (filter (\<lambda>m. rm_role_id m = ar_id a) (ac_permissions db))))
      (BUILTIN_ROLE_PERMISSIONS r) = []"
    using keys by (intro filter_False) auto
  ultimately show ?thesis by (simp add: reset_permissions_def Let_def)
qed

text \<open>Where the invariant holds, \<open>ensure_builtin_roles\<close> changes nothing.\<close>

lemma ensure_builtin_roles_noop:
  assumes "builtins_ok db" and "og \<in> set (ac_organizations db)"
  shows "ensure_builtin_roles gen (og_id og) db = db"
proof -
  have "ensure_builtin_role gen (og_id og) r db = db" for r
  proof -
    obtain a where a: "compatibility_row (og_id og) db r = Some a" "a \<in> set (ac_roles db)" "ar_compatibility_role a = Some r"
      by (rule compatibility_row_Some [OF assms])
    then have "exact db a r" using builtins_okD(2) [OF assms(1)] by blast
    then show ?thesis by (simp add: ensure_builtin_role_def a(1) reset_permissions_exact)
  qed
  then have "fold (ensure_builtin_role gen (og_id og)) rs db = db" for rs by (induction rs) simp_all
  then show ?thesis by (simp add: ensure_builtin_roles_def)
qed

definition synced_grants :: "access_env \<Rightarrow> user \<Rightarrow> uuid option \<Rightarrow> access_db \<Rightarrow> scoped_grant list" where
  "synced_grants env u creator db =
     filter (\<lambda>g. \<not> (gr_user_id g = Some (us_id u) \<and>
       gr_role_id g \<in> set (map (role_id (us_organization_id u) db) user_role_members))) (ac_grants db) @
     map (\<lambda>(i, scope). compatibility_grant u (role_id (us_organization_id u) db (us_role u)) creator (en_grants env i) scope)
       (enumerate 0 (compatibility_scopes u db))"

definition migrated :: "time \<Rightarrow> user \<Rightarrow> user" where
  "migrated now u = u\<lparr>us_authorization_migrated_at := Some now\<rparr>"

lemma sync_grants_eq:
  assumes "builtins_ok db" and "us_organization_id u \<in> og_id ` set (ac_organizations db)"
  shows "sync_user_compatibility_grants env u creator db =
    on_user (us_id u) (migrated (en_now env)) (db\<lparr>ac_grants := synced_grants env u creator db\<rparr>)"
proof -
  obtain og where og: "og \<in> set (ac_organizations db)" "us_organization_id u = og_id og" using assms(2) by blast
  show ?thesis
    unfolding sync_user_compatibility_grants_def Let_def og(2) ensure_builtin_roles_noop [OF assms(1) og(1)]
      synced_grants_def og(2) migrated_def by simp
qed

lemma enumerate_snd: "(i, x) \<in> set (enumerate n xs) \<Longrightarrow> x \<in> set xs"
  by (auto simp: enumerate_eq_zip dest: set_zip_rightD)

lemma synced_grants_mem:
  assumes policy: "policy_ok db" and u: "user_row db u" and o': "us_organization_id u \<in> og_id ` set (ac_organizations db)"
    and g: "g \<in> set (synced_grants env u creator db)"
  shows "g \<in> set (ac_grants db) \<or> (gr_user_id g = Some (us_id u) \<and> grant_ok db g)"
proof (cases "g \<in> set (ac_grants db)")
  case False
  then obtain i scope where g': "g = compatibility_grant u (role_id (us_organization_id u) db (us_role u)) creator i scope"
    and scope: "scope \<in> set (compatibility_scopes u db)"
    using g enumerate_snd unfolding synced_grants_def by fastforce
  obtain og where og: "og \<in> set (ac_organizations db)" "us_organization_id u = og_id og" using o' by blast
  obtain a where a: "compatibility_row (us_organization_id u) db (us_role u) = Some a" "a \<in> set (ac_roles db)"
    "ar_organization_id a = us_organization_id u"
    using compatibility_row_Some [of db og "us_role u"] og policy unfolding policy_ok_def by metis
  have "case fst scope of GrantScopeType.ORGANIZATION \<Rightarrow> snd scope = us_organization_id u
      | GrantScopeType.SITE \<Rightarrow> site_in db (us_organization_id u) (snd scope)"
    using scope policy by (auto simp: compatibility_scopes_def policy_ok_def assignment_ok_def split: if_split_asm)
  moreover have owner: "principal_ok db PrincipalType.USER (Some (us_id u)) None (us_organization_id u)"
    using u by (simp add: principal_ok_def user_row_def) metis
  ultimately have "grant_ok db g"
    using a owner unfolding g' grant_ok_def
    by (cases "fst scope") (auto simp: compatibility_grant_def role_id_def)
  then show ?thesis by (simp add: g' compatibility_grant_def)
qed simp

lemma synced_grants_others:
  "g \<in> set (ac_grants db) \<Longrightarrow> gr_user_id g \<noteq> Some (us_id u) \<Longrightarrow> g \<in> set (synced_grants env u creator db)"
  by (simp add: synced_grants_def)

text \<open>
  The users table, the grants and the assignments change for one user, whose version goes up.
\<close>

lemma sound_user_regrant:
  assumes u: "us_organization_id u \<in> og_id ` set (ac_organizations db)" "user_row db u"
    and tables: "ac_organizations db' = ac_organizations db" "ac_sites db' = ac_sites db"
      "ac_users db' = update_where (\<lambda>x. us_id x = us_id u) f (ac_users db)" "ac_services db' = ac_services db"
      "ac_roles db' = ac_roles db" "ac_permissions db' = ac_permissions db" "ac_tokens db' = ac_tokens db"
    and kept: "sessions_kept db db'"
    and f: "\<And>x. user_grows x (f x) \<and> us_auth_version x < us_auth_version (f x)"
    and assigned: "\<And>a. access_ok db \<Longrightarrow> a \<in> set (ac_assignments db') \<Longrightarrow> assignment_ok db a"
    and grants: "\<And>g. access_ok db \<Longrightarrow> g \<in> set (ac_grants db') \<Longrightarrow>
      g \<in> set (ac_grants db) \<or> (gr_user_id g = Some (us_id u) \<and> grant_ok db g)"
    and others: "\<And>g. g \<in> set (ac_grants db) \<Longrightarrow> gr_user_id g \<noteq> Some (us_id u) \<Longrightarrow> g \<in> set (ac_grants db')"
  shows "sound db db'"
proof (rule sound_policy [OF tables(1,2) _ _ _ kept])
  have touch: "list_all2 (touched {us_id u}) (ac_users db) (ac_users db')"
    unfolding tables by (rule touched_update) (rule f)
  show "list_all2 user_plain (ac_users db) (ac_users db')" by (rule list_all2_mono [OF touch touched_plain])
  show "list_all2 service_grows (ac_services db) (ac_services db')" "list_all2 token_kept (ac_tokens db) (ac_tokens db')"
    by (simp_all add: tables list_all2_refl)
  assume inv: "access_ok db"
  show "policy_ok db'" if rows: "rows_grow db db'"
  proof -
    have "grant_ok db' g" if g: "g \<in> set (ac_grants db')" for g
    proof (rule grant_ok_mono [OF rows])
      show ok: "grant_ok db g" using grants [OF inv g] access_okD(5) [OF inv] by blast
      then show "\<exists>a \<in> set (ac_roles db'). ar_id a = gr_role_id g \<and> ar_organization_id a = gr_organization_id g"
        unfolding tables by (simp add: grant_ok_def)
    qed
    moreover have "assignment_ok db' a" if "a \<in> set (ac_assignments db')" for a
      using assignment_ok_mono [OF rows assigned [OF inv that]] .
    ultimately show ?thesis
      using access_ok_policy [OF inv] by (simp add: policy_ok_def catalogue_ok_def builtins_ok_def exact_def tables)
  qed
  fix p p' g assume p: "p \<in> principals db" "p' \<in> principals db'" "key_of p' = key_of p"
    "principal_version p' = principal_version p" and mine: "principal_filter p g"
  have "g \<in> set (ac_grants db') \<longleftrightarrow> g \<in> set (ac_grants db)"
  proof (cases "gr_user_id g = Some (us_id u)")
    case False
    then show ?thesis using grants [OF inv] others by blast
  next
    case True
    have off: False if bad: "grant_ok db g"
    proof (cases p)
      case (UserP v)
      then have v: "us_id v = us_id u" "v \<in> set (ac_users db)" using mine True p(1) by (auto simp: principals_def)
      obtain v' where v': "p' = UserP v'" "us_id v' = us_id v" using p(3) UserP by (cases p') (auto simp: key_of_def)
      have "touched {us_id u} v v'"
        using access_okD(1) [OF inv] v v' p(2)
        by (intro match_row [OF touch, of us_id]) (auto simp: keys_ok_def touched_def user_grows_def principals_def)
      then show False using v v' UserP p(4) by (simp add: touched_def)
    next
      case (ServiceP v)
      then show False using mine True bad by (auto simp: grant_ok_def principal_ok_def split: PrincipalType.splits)
    qed
    have "g \<notin> set (ac_grants db)" using off access_okD(5) [OF inv] by blast
    moreover from this have "g \<notin> set (ac_grants db')" using off grants [OF inv] by blast
    ultimately show ?thesis by simp
  qed
  then show "(g \<in> set (ac_grants db') \<longleftrightarrow> g \<in> set (ac_grants db)) \<and> (g \<in> set (ac_grants db) \<longrightarrow>
       (\<forall>o'. has_role db' (gr_role_id g) o' = has_role db (gr_role_id g) o') \<and>
       (\<forall>m. rm_role_id m = gr_role_id g \<longrightarrow> (m \<in> set (ac_permissions db') \<longleftrightarrow> m \<in> set (ac_permissions db))))"
    by (simp add: tables has_role_def)
qed


subsection \<open>User administration\<close>

lemma owned_user_Inr:
  "owned_user i o' db = Inr u \<Longrightarrow> u \<in> set (ac_users db) \<and> us_id u = i \<and> us_organization_id u = o'"
  by (auto simp: owned_user_def split: option.splits dest: find_SomeD)

lemma sound_transition_status:
  assumes "transition_status env u actor s db = Inr db'"
  shows "sound db db'"
proof (cases "s = us_account_status u")
  case True
  then show ?thesis using assms by (simp add: transition_status_def)
next
  case False
  let ?db1 = "if s \<noteq> AccountStatus.ACTIVE then revoke_pending_credentials (us_id u) (en_now env) db
    else on_user (us_id u) bump_user db"
  have "db' = on_user (us_id u) (set_account_status s (en_now env)) ?db1"
    using assms False by (auto simp: transition_status_def res_bind_Inr Let_def split: if_split_asm)
  moreover have "sound db ?db1" using sound_pending sound_on_user [of bump_user db "us_id u"] by simp
  moreover have "sound ?db1 (on_user (us_id u) (set_account_status s (en_now env)) ?db1)" by (rule sound_on_user) simp
  ultimately show ?thesis using sound_trans by blast
qed

lemma sound_set_status: "set_status env actor i s db = Inr db' \<Longrightarrow> sound db db'"
  by (auto simp: set_status_def res_bind_Inr split: if_split_asm intro: sound_transition_status)

lemma sound_delete_user: "delete_user env actor i db = Inr db' \<Longrightarrow> sound db db'"
  by (auto simp: delete_user_def res_bind_Inr intro: sound_transition_status)

text \<open>A synchronization after a change of the user's own fields, with the version raised.\<close>

lemma synced_grants_update:
  assumes "ac_roles db' = ac_roles db" and "ac_grants db' = ac_grants db" and "ac_assignments db' = ac_assignments db"
  shows "synced_grants env u creator db' = synced_grants env u creator db"
  by (simp add: synced_grants_def role_id_def compatibility_row_def compatibility_scopes_def assms)

lemma sound_sync:
  assumes u: "u \<in> set (ac_users db)" and v: "us_id v = us_id u" "us_organization_id v = us_organization_id u"
    and h: "\<And>x. user_grows x (h x) \<and> us_auth_version (h x) = us_auth_version x"
    and assigned: "\<And>a. access_ok db \<Longrightarrow> a \<in> set as \<Longrightarrow> assignment_ok db a"
  shows "sound db (invalidate_user reason (en_now env) u
    (sync_user_compatibility_grants env v creator (on_user (us_id u) h (db\<lparr>ac_assignments := as\<rparr>))))" (is "sound db ?db'")
  unfolding sound_def
proof
  assume inv: "access_ok db"
  let ?db1 = "on_user (us_id u) h (db\<lparr>ac_assignments := as\<rparr>)"
  have org: "us_organization_id v \<in> og_id ` set (ac_organizations db)"
    using u v access_okD(4) [OF inv] by (auto simp: orgs_ok_def)
  have "builtins_ok ?db1" using access_okD(3) [OF inv] by (simp add: builtins_ok_def exact_def tables)
  then have sync: "sync_user_compatibility_grants env v creator ?db1 =
      on_user (us_id u) (migrated (en_now env)) (?db1\<lparr>ac_grants := synced_grants env v creator ?db1\<rparr>)"
    using org v sync_grants_eq [of ?db1 v env creator] by (simp add: tables)
  let ?dbA = "db\<lparr>ac_assignments := as\<rparr>"
  have gs: "synced_grants env v creator ?db1 = synced_grants env v creator ?dbA"
    by (rule synced_grants_update) (simp_all add: tables)
  have okA: "grant_ok ?dbA g = grant_ok db g" "assignment_ok ?dbA a = assignment_ok db a" for g a
    by (simp_all add: grant_ok_def principal_ok_def site_in_def assignment_ok_def split: GrantScopeType.split PrincipalType.split)
  have policy: "policy_ok ?dbA"
    using access_ok_policy [OF inv] assigned [OF inv]
    unfolding policy_ok_def okA by (simp add: catalogue_ok_def builtins_ok_def exact_def)
  have row: "user_row ?dbA v" using u v by (auto simp: user_row_def)
  have "sound db ?db'"
  proof (rule sound_user_regrant [where u = v and f = "\<lambda>x. bump_user (migrated (en_now env) (h x))"])
    show "us_organization_id v \<in> og_id ` set (ac_organizations db)" by (rule org)
    show "user_row db v" using u v by (auto simp: user_row_def)
    show "ac_users ?db' = update_where (\<lambda>x. us_id x = us_id v) (\<lambda>x. bump_user (migrated (en_now env) (h x))) (ac_users db)"
      using h unfolding sync by (simp add: tables update_where_twice migrated_def user_grows_def v)
    show "sessions_kept db ?db'"
      by (rule sessions_kept_trans [OF sessions_kept_cong invalidate_user_kept]) (simp add: sync tables)
    show "user_grows x (bump_user (migrated (en_now env) (h x))) \<and>
        us_auth_version x < us_auth_version (bump_user (migrated (en_now env) (h x)))" for x
      using h [of x] by (simp add: user_grows_def bump_user_def migrated_def)
    show "assignment_ok db a" if "access_ok db" "a \<in> set (ac_assignments ?db')" for a
      using that assigned by (simp add: sync tables)
    show "g \<in> set (ac_grants db) \<or> (gr_user_id g = Some (us_id v) \<and> grant_ok db g)" if "g \<in> set (ac_grants ?db')" for g
      using that org synced_grants_mem [OF policy row, of g env creator] okA(1) by (simp add: sync tables gs)
    show "g \<in> set (ac_grants ?db')" if "g \<in> set (ac_grants db)" "gr_user_id g \<noteq> Some (us_id v)" for g
      using that synced_grants_others [of g ?dbA v env creator] by (simp add: sync tables gs)
  qed (simp_all add: sync tables)
  with inv show "access_ok ?db' \<and> evolves db ?db'" by (simp add: sound_def)
qed

lemma sound_change_role:
  assumes "change_role env actor u r db = Inr db'" and u: "u \<in> set (ac_users db)"
  shows "sound db db'"
proof -
  obtain r' where db': "db' = invalidate_user ''role changed'' (en_now env) u
      (sync_user_compatibility_grants env (u\<lparr>us_role := r'\<rparr>) (user_actor_id actor)
        (on_user (us_id u) (us_role_update (\<lambda>_. r')) (db\<lparr>ac_assignments := ac_assignments db\<rparr>)))"
    using assms by (auto simp: change_role_def res_bind_Inr Let_def split: if_split_asm option.splits)
  show ?thesis
    unfolding db'
  proof (rule sound_sync [OF u])
    show "assignment_ok db a" if "access_ok db" "a \<in> set (ac_assignments db)" for a
      using that access_okD(7) by blast
  qed (simp_all add: user_grows_def)
qed

lemma sound_update_user:
  assumes "update_user env actor i rq db = Inr db'"
  shows "sound db db'"
proof -
  obtain u db1 db2 where u: "owned_user i (principal_org actor) db = Inr u"
    and one: "(case new_role rq u of None \<Rightarrow> Inr db | Some r \<Rightarrow> change_role env actor u r db) = Inr db1"
    and two: "(case un_is_active rq of None \<Rightarrow> Inr db1 | Some b \<Rightarrow>
        res_bind (owned_user i (principal_org actor) db1) (\<lambda>u1. transition_status env u1 actor
          (if b = Some True then AccountStatus.ACTIVE else AccountStatus.DEACTIVATED) db1)) = Inr db2"
    and three: "db' = (case un_full_name rq of None \<Rightarrow> db2 | Some n \<Rightarrow> on_user (us_id u) (us_full_name_update (\<lambda>_. n)) db2)"
    using assms unfolding update_user_def by (elim res_bind_InrE if_InrE) (blast dest: sum.inject(2) [THEN iffD1])
  have "sound db db1" using one owned_user_Inr [OF u] sound_change_role by (auto split: option.splits)
  moreover have "sound db1 db2" using two sound_transition_status by (auto simp: res_bind_Inr split: option.splits)
  moreover have "sound db2 db'" unfolding three by (auto intro: sound_on_user split: option.split)
  ultimately show ?thesis using sound_trans by blast
qed

lemma replace_assignments_Inr:
  assumes "replace_site_assignments u site_ids me db = Inr db'"
  obtains as where "db' = db\<lparr>ac_assignments := as\<rparr>"
    and "\<And>a. a \<in> set as \<Longrightarrow> a \<in> set (ac_assignments db) \<or> (ux_user_id a = us_id u \<and>
      ux_organization_id a = us_organization_id u \<and> site_in db (us_organization_id u) (ux_site_id a))"
proof -
  have sites: "list_all (\<lambda>i. \<exists>s \<in> set (ac_sites db). si_organization_id s = us_organization_id u \<and> si_id s = i) site_ids"
    and db': "db' = db\<lparr>ac_assignments := filter (\<lambda>a. ux_user_id a \<noteq> us_id u) (ac_assignments db) @
         map (\<lambda>i. \<lparr>ux_organization_id = us_organization_id u, ux_user_id = us_id u, ux_site_id = i,
                   ux_assigned_by_user_id = Some me\<rparr>) (sort (remdups site_ids))\<rparr>"
    using assms by (auto simp: replace_site_assignments_def validate_site_ids_def res_bind_Inr)
  show thesis
  proof (rule that [OF db'])
    fix a assume "a \<in> set (filter (\<lambda>a. ux_user_id a \<noteq> us_id u) (ac_assignments db) @
         map (\<lambda>i. \<lparr>ux_organization_id = us_organization_id u, ux_user_id = us_id u, ux_site_id = i,
                   ux_assigned_by_user_id = Some me\<rparr>) (sort (remdups site_ids)))"
    then show "a \<in> set (ac_assignments db) \<or> (ux_user_id a = us_id u \<and>
      ux_organization_id a = us_organization_id u \<and> site_in db (us_organization_id u) (ux_site_id a))"
      using sites by (auto simp: list_all_iff site_in_def)
  qed
qed

lemma replaced_ok:
  assumes "access_ok db" and "u \<in> set (ac_users db)"
    and "a \<in> set (ac_assignments db) \<or> (ux_user_id a = us_id u \<and>
      ux_organization_id a = us_organization_id u \<and> site_in db (us_organization_id u) (ux_site_id a))"
  shows "assignment_ok db a"
  using assms(3) access_okD(7) [OF assms(1)] assms(2) by (auto simp: assignment_ok_def)

lemma sound_set_site_access:
  assumes "set_site_access env actor i mode ids db = Inr db'"
  shows "sound db db'"
proof -
  obtain u where u: "owned_user i (principal_org actor) db = Inr u"
    using assms unfolding set_site_access_def by (rule res_bind_InrE)
  obtain db1 where one: "replace_site_assignments u (if mode = SiteAccessMode.ASSIGNED then ids else []) (principal_id actor) db = Inr db1"
    and two: "db' = invalidate_user ''site access changed'' (en_now env) u
      (sync_user_compatibility_grants env (u\<lparr>us_site_access_mode := mode\<rparr>) (user_actor_id actor)
        (on_user (us_id u) (us_site_access_mode_update (\<lambda>_. mode)) db1))"
    using assms unfolding set_site_access_def Let_def u res_bind_simps by (auto split: sum.splits simp: res_bind_Inr)
  have mem: "u \<in> set (ac_users db)" using owned_user_Inr [OF u] by simp
  obtain as where db1: "db1 = db\<lparr>ac_assignments := as\<rparr>" and as: "\<And>a. a \<in> set as \<Longrightarrow> a \<in> set (ac_assignments db) \<or> (ux_user_id a = us_id u \<and>
      ux_organization_id a = us_organization_id u \<and> site_in db (us_organization_id u) (ux_site_id a))"
    by (rule replace_assignments_Inr [OF one]) blast
  show ?thesis
    unfolding two db1 by (rule sound_sync [OF mem]) (use replaced_ok [OF _ mem] as in \<open>auto simp: user_grows_def\<close>)
qed

lemma sound_issue_link: "sound db (issue_link env u me db)"
  by (rule sound_sessions) (simp_all add: same_access_def tables sessions_kept_cong)

lemma sound_issue_invitation: "issue_invitation env actor i db = Inr db' \<Longrightarrow> sound db db'"
proof -
  have "sound db (issue_link env u me (on_user (us_id u)
      (\<lambda>x. set_account_status AccountStatus.INVITED now (clear_password x)) (revoke_pending_credentials (us_id u) now db)))"
    for u me now
  proof (rule sound_trans [OF sound_trans [OF sound_pending sound_on_user] sound_issue_link])
    show "user_plain x (set_account_status AccountStatus.INVITED now (clear_password x))" for x
      by (simp add: user_plain_def user_grows_def clear_password_def)
  qed
  then show "issue_invitation env actor i db = Inr db' \<Longrightarrow> sound db db'"
    by (auto simp: issue_invitation_def res_bind_Inr Let_def split: if_split_asm)
qed

lemma sound_issue_password_reset: "issue_password_reset env actor i db = Inr db' \<Longrightarrow> sound db db'"
  by (auto simp: issue_password_reset_def res_bind_Inr same_access_def sessions_kept_cong split: if_split_asm intro!: sound_sessions)

lemma sound_accept_invitation:
  assumes "accept_invitation h hashed full_name now db = Inr db'"
  shows "sound db db'"
proof -
  let ?f = "\<lambda>x. set_account_status AccountStatus.ACTIVE now (us_full_name_update (\<lambda>n. or_opt full_name n) (set_password hashed now x))"
  have f: "user_plain x (?f x)" for x by (simp add: user_plain_def user_grows_def set_password_def)
  have one: "sound db (on_user k ?f (revoke_pending_credentials k now db))" for k
    by (rule sound_trans [OF sound_pending sound_on_user]) (rule f)
  have two: "sound x (x\<lparr>ac_invitations := ts\<rparr>)" for x ts
    by (rule sound_sessions) (simp_all add: same_access_def sessions_kept_cong)
  show ?thesis using assms sound_trans [OF one two]
    by (auto simp: accept_invitation_def Let_def split: option.splits if_split_asm)
qed

lemma sound_complete_password_reset:
  assumes "complete_password_reset h hashed now db = Inr db'"
  shows "sound db db'"
proof -
  have one: "sound db (on_user k (set_password hashed now) (revoke_pending_credentials k now db))" for k
    by (rule sound_trans [OF sound_pending sound_on_user]) simp
  have two: "sound x (x\<lparr>ac_resets := ts\<rparr>)" for x ts
    by (rule sound_sessions) (simp_all add: same_access_def sessions_kept_cong)
  show ?thesis using assms sound_trans [OF one two]
    by (auto simp: complete_password_reset_def Let_def split: option.splits if_split_asm)
qed


text \<open>A new user, with the grants and assignments made for it.\<close>

lemma sound_new_user:
  assumes fresh: "us_id u \<notin> us_id ` set (ac_users db)"
    and org: "access_ok db \<Longrightarrow> us_organization_id u \<in> og_id ` set (ac_organizations db)"
    and tables: "ac_organizations db' = ac_organizations db" "ac_sites db' = ac_sites db"
      "ac_users db' = ac_users db @ [u']" "ac_services db' = ac_services db" "ac_tokens db' = ac_tokens db"
      "ac_roles db' = ac_roles db" "ac_permissions db' = ac_permissions db" "ac_sessions db' = ac_sessions db"
    and u': "user_grows u u'"
    and grants: "\<And>g. access_ok db \<Longrightarrow> g \<in> set (ac_grants db') \<Longrightarrow>
      g \<in> set (ac_grants db) \<or> (gr_user_id g = Some (us_id u) \<and> grant_ok (db\<lparr>ac_users := ac_users db @ [u]\<rparr>) g)"
    and others: "\<And>g. g \<in> set (ac_grants db) \<Longrightarrow> gr_user_id g \<noteq> Some (us_id u) \<Longrightarrow> g \<in> set (ac_grants db')"
    and assigned: "\<And>a. access_ok db \<Longrightarrow> a \<in> set (ac_assignments db') \<Longrightarrow>
      a \<in> set (ac_assignments db) \<or> assignment_ok (db\<lparr>ac_users := ac_users db @ [u]\<rparr>) a"
  shows "sound db db'"
  unfolding sound_def
proof (intro impI conjI)
  assume inv: "access_ok db"
  let ?db0 = "db\<lparr>ac_users := ac_users db @ [u]\<rparr>"
  have "sound db ?db0"
    by (rule sound_new_rows [where xs = "[]" and us = "[u]" and ss = "[]" and ts = "[]" and es = "[]"])
      (use fresh org in \<open>auto simp: keys_ok_def\<close>)
  then have inv0: "access_ok ?db0" using inv by (simp add: sound_def)
  have rows: "rows_grow ?db0 db'"
    using u' by (simp add: rows_grow_def tables sessions_kept_cong list_all2_refl list_all2_appendI)
  have gone: "gr_user_id g \<noteq> Some (us_id u)" if "g \<in> set (ac_grants db)" for g
    using access_okD(5) [OF inv that] fresh unfolding grant_ok_def principal_ok_def
    by (cases "gr_principal_type g") auto
  show "access_ok db'"
  proof (rule access_ok_rows [OF rows inv0])
    have "grant_ok db' g" if g: "g \<in> set (ac_grants db')" for g
    proof (rule grant_ok_mono [OF rows])
      show ok: "grant_ok ?db0 g" using grants [OF inv g] access_okD(5) [OF inv0, of g] by auto
      then show "\<exists>a \<in> set (ac_roles db'). ar_id a = gr_role_id g \<and> ar_organization_id a = gr_organization_id g"
        unfolding tables by (simp add: grant_ok_def)
    qed
    moreover have "assignment_ok db' a" if a: "a \<in> set (ac_assignments db')" for a
      using assigned [OF inv a] access_okD(7) [OF inv0, of a] by (auto intro: assignment_ok_mono [OF rows])
    ultimately show "policy_ok db'"
      using access_ok_policy [OF inv] by (simp add: policy_ok_def catalogue_ok_def builtins_ok_def exact_def tables)
  qed
  have "principal_evolves db db' p p" if p: "p \<in> principals db" for p
  proof -
    have "g \<in> set (ac_grants db') \<longleftrightarrow> g \<in> set (ac_grants db)" if mine: "principal_filter p g" for g
    proof
      assume "g \<in> set (ac_grants db')"
      then show "g \<in> set (ac_grants db)"
      proof (rule grants [OF inv, THEN disjE])
        assume new: "gr_user_id g = Some (us_id u) \<and> grant_ok ?db0 g"
        show ?thesis
        proof (cases p)
          case (UserP v)
          then show ?thesis using new mine p fresh by (auto simp: principals_def)
        next
          case (ServiceP s)
          then show ?thesis using new mine by (auto simp: grant_ok_def principal_ok_def split: PrincipalType.splits)
        qed
      qed
    qed (use others gone in blast)
    then have "access_view db' p = access_view db p" by (intro view_kept) (simp_all add: has_role_def tables)
    then show ?thesis by (simp add: principal_evolves_def)
  qed
  moreover have "principals db \<subseteq> principals db'" by (auto simp: principals_def tables)
  ultimately show "evolves db db'"
    unfolding evolves_def tables using token_kept_refl session_kept_refl by (intro conjI) (blast | simp)+
qed

lemma on_user_last:
  assumes "us_id u \<notin> us_id ` set xs"
  shows "update_where (\<lambda>x. us_id x = us_id u) f (xs @ [u]) = xs @ [f u]"
  using assms by (induction xs) auto

lemma sound_add_user:
  assumes fresh: "us_id u \<notin> us_id ` set (ac_users db)"
    and org: "access_ok db \<Longrightarrow> us_organization_id u \<in> og_id ` set (ac_organizations db)"
    and as: "\<And>a. a \<in> set as \<Longrightarrow> a \<in> set (ac_assignments db) \<or> (ux_user_id a = us_id u \<and>
      ux_organization_id a = us_organization_id u \<and> site_in db (us_organization_id u) (ux_site_id a))"
    and db1: "db1 = db\<lparr>ac_users := ac_users db @ [u], ac_assignments := as\<rparr>"
  shows "sound db (sync_user_compatibility_grants env u creator db1)" (is "sound db ?db2")
  unfolding sound_def
proof
  assume inv: "access_ok db"
  let ?db0 = "db\<lparr>ac_users := ac_users db @ [u]\<rparr>"
  have "builtins_ok db1" using access_okD(3) [OF inv] by (simp add: builtins_ok_def exact_def db1)
  then have sync: "?db2 = on_user (us_id u) (migrated (en_now env)) (db1\<lparr>ac_grants := synced_grants env u creator db1\<rparr>)"
    using org [OF inv] by (intro sync_grants_eq) (simp_all add: db1)
  have "sound db ?db0"
    by (rule sound_new_rows [where xs = "[]" and us = "[u]" and ss = "[]" and ts = "[]" and es = "[]"])
      (use fresh org in \<open>auto simp: keys_ok_def\<close>)
  then have inv0: "access_ok ?db0" using inv by (simp add: sound_def)
  have assigned: "assignment_ok ?db0 a" if "a \<in> set as" for a
    using as [OF that] access_okD(7) [OF inv0, of a] by (auto simp: assignment_ok_def site_in_def)
  have ok1: "grant_ok db1 g = grant_ok ?db0 g" "assignment_ok db1 a = assignment_ok ?db0 a" for g a
    by (simp_all add: db1 grant_ok_def principal_ok_def site_in_def assignment_ok_def split: GrantScopeType.split PrincipalType.split)
  have policy: "policy_ok db1"
    using access_ok_policy [OF inv0] assigned
    unfolding policy_ok_def ok1 by (simp add: db1 catalogue_ok_def builtins_ok_def exact_def)
  have "sound db ?db2"
  proof (rule sound_new_user [where u = u and u' = "migrated (en_now env) u"])
    show "us_id u \<notin> us_id ` set (ac_users db)" by (rule fresh)
    show "us_organization_id u \<in> og_id ` set (ac_organizations db)" by (rule org [OF inv])
    show "ac_users ?db2 = ac_users db @ [migrated (en_now env) u]"
      using on_user_last [OF fresh, of "migrated (en_now env)"] unfolding sync by (simp add: tables db1)
    show "user_grows u (migrated (en_now env) u)" by (simp add: user_grows_def migrated_def)
    show "g \<in> set (ac_grants db) \<or> (gr_user_id g = Some (us_id u) \<and> grant_ok ?db0 g)" if "g \<in> set (ac_grants ?db2)" for g
      using synced_grants_mem [OF policy, of u g env creator] that org [OF inv] ok1(1)
      unfolding sync by (auto simp: tables db1 user_row_def)
    show "g \<in> set (ac_grants ?db2)" if "g \<in> set (ac_grants db)" "gr_user_id g \<noteq> Some (us_id u)" for g
      using synced_grants_others [of g db1 u env creator] that unfolding sync by (simp add: tables db1)
    show "a \<in> set (ac_assignments db) \<or> assignment_ok ?db0 a" if "a \<in> set (ac_assignments ?db2)" for a
      using that assigned unfolding sync by (simp add: tables db1)
  qed (simp_all only: sync, simp_all add: tables db1)
  with inv show "access_ok ?db2 \<and> evolves db ?db2" by (simp add: sound_def)
qed

lemma sound_create_user:
  assumes made: "create_user env actor rq db = Inr db'" and actor: "actor \<in> principals db"
    and fresh: "en_fresh env \<notin> us_id ` set (ac_users db)"
  shows "sound db db'"
proof -
  define env0 where "env0 = access_env.truncate env"
  define initial where "initial = (if nc_is_active rq = Some False then AccountStatus.DEACTIVATED else AccountStatus.INVITED)"
  let ?new = "\<lambda>me. new_user env0 (principal_org actor) me rq initial"
  obtain me where "actor_column actor = Inr me"
    using made unfolding create_user_def by (auto simp: res_bind_Inr split: if_split_asm)
  with made have "(case replace_site_assignments (?new me) (nc_site_ids rq) me (db\<lparr>ac_users := ac_users db @ [?new me]\<rparr>) of
      Inl e \<Rightarrow> Inl (Http 422 e)
    | Inr db1 \<Rightarrow> (let db2 = sync_user_compatibility_grants env0 (?new me) (user_actor_id actor) db1
        in Inr (if initial = AccountStatus.INVITED then issue_link env (?new me) me db2 else db2))) = Inr db'"
    unfolding create_user_def Let_def env0_def [symmetric] initial_def [symmetric] by (simp split: if_split_asm)
  then obtain db1 where one: "replace_site_assignments (?new me) (nc_site_ids rq) me
      (db\<lparr>ac_users := ac_users db @ [?new me]\<rparr>) = Inr db1"
    and db': "db' = (let db2 = sync_user_compatibility_grants env0 (?new me) (user_actor_id actor) db1
      in if initial = AccountStatus.INVITED then issue_link env (?new me) me db2 else db2)"
    by (auto simp: Let_def split: sum.splits)
  let ?u = "new_user env0 (principal_org actor) me rq initial"
  let ?db0 = "db\<lparr>ac_users := ac_users db @ [?u]\<rparr>"
  have u: "us_id ?u = en_fresh env" "us_organization_id ?u = principal_org actor"
    by (simp_all add: new_user_def env0_def access_env.truncate_def)
  obtain as where db1: "db1 = ?db0\<lparr>ac_assignments := as\<rparr>" and as: "\<And>a. a \<in> set as \<Longrightarrow> a \<in> set (ac_assignments ?db0) \<or> (ux_user_id a = us_id ?u \<and>
      ux_organization_id a = us_organization_id ?u \<and> site_in ?db0 (us_organization_id ?u) (ux_site_id a))"
    by (rule replace_assignments_Inr [OF one]) blast
  have "sound db (sync_user_compatibility_grants env0 ?u (user_actor_id actor) db1)"
  proof (rule sound_add_user [where as = as])
    show "us_id ?u \<notin> us_id ` set (ac_users db)" using fresh u by simp
    show "us_organization_id ?u \<in> og_id ` set (ac_organizations db)" if "access_ok db"
      using principal_org_known [OF that actor] u by simp
  qed (use as in \<open>simp_all add: db1 site_in_def\<close>)
  then show ?thesis unfolding db' Let_def using sound_issue_link sound_trans by auto
qed


end
