(* ===== verification/AccessPolicy.thy ===== *)
theory AccessPolicy
  imports AccessControl
begin

text \<open>
  Authorization over time: the installation, the transitions of the authorization tables (every
  handler of \<^verbatim>\<open>api/v1/authorization.py\<close>, \<^verbatim>\<open>api/v1/users.py\<close> and the session handlers of
  \<^verbatim>\<open>api/v1/auth.py\<close> that change them), and what holds in every reachable state.
\<close>

subsection \<open>Installation\<close>

definition builtin_rows :: "(UserRole \<Rightarrow> uuid) \<Rightarrow> uuid \<Rightarrow> UserRole \<Rightarrow> role_permission list" where
  "builtin_rows gen o' r = map (\<lambda>k. \<lparr>rm_organization_id = o', rm_role_id = gen r, rm_permission_key = k\<rparr>)
     (sort (BUILTIN_ROLE_PERMISSIONS r))"

lemma builtin_role_simps [simp]:
  "ar_id (builtin_role i o' r) = i" "ar_organization_id (builtin_role i o' r) = o'"
  "ar_is_system (builtin_role i o' r)" "ar_compatibility_role (builtin_role i o' r) = Some r"
  by (simp_all add: builtin_role_def)

lemma ensure_builtin_role_new:
  assumes "\<And>a. a \<in> set (ac_roles db) \<Longrightarrow> ar_organization_id a = o' \<Longrightarrow> ar_compatibility_role a \<noteq> Some r"
    and "\<And>m. m \<in> set (ac_permissions db) \<Longrightarrow> rm_role_id m \<noteq> gen r"
  shows "ensure_builtin_role gen o' r db =
    db\<lparr>ac_roles := ac_roles db @ [builtin_role (gen r) o' r], ac_permissions := ac_permissions db @ builtin_rows gen o' r\<rparr>"
proof -
  have "compatibility_row o' db r = None" using assms(1) by (auto simp: compatibility_row_def find_None_iff)
  moreover have "filter (\<lambda>m. rm_role_id m = gen r) (ac_permissions db) = []" using assms(2) by (simp add: filter_empty_conv)
  moreover have "filter (\<lambda>m. rm_role_id m = gen r \<longrightarrow> rm_permission_key m \<in> set (BUILTIN_ROLE_PERMISSIONS r)) (ac_permissions db)
      = ac_permissions db" using assms(2) by (simp add: filter_True)
  moreover have none: "{x \<in> set (ac_permissions db). rm_role_id x = gen r} = {}" using assms(2) by auto
  ultimately show ?thesis
    by (simp add: none ensure_builtin_role_def reset_permissions_def Let_def builtin_rows_def)
qed

lemma ensure_builtin_fold:
  assumes "distinct rs" and "inj gen"
    and "\<And>a r. a \<in> set (ac_roles db) \<Longrightarrow> r \<in> set rs \<Longrightarrow> ar_organization_id a = o' \<Longrightarrow> ar_compatibility_role a \<noteq> Some r"
    and "\<And>m r. m \<in> set (ac_permissions db) \<Longrightarrow> r \<in> set rs \<Longrightarrow> rm_role_id m \<noteq> gen r"
  shows "fold (ensure_builtin_role gen o') rs db =
    db\<lparr>ac_roles := ac_roles db @ map (\<lambda>r. builtin_role (gen r) o' r) rs,
       ac_permissions := ac_permissions db @ concat (map (builtin_rows gen o') rs)\<rparr>"
  using assms
proof (induction rs arbitrary: db)
  case (Cons r rs)
  let ?db1 = "db\<lparr>ac_roles := ac_roles db @ [builtin_role (gen r) o' r], ac_permissions := ac_permissions db @ builtin_rows gen o' r\<rparr>"
  have one: "ensure_builtin_role gen o' r db = ?db1"
    using Cons.prems(3,4) by (intro ensure_builtin_role_new) auto
  have "fold (ensure_builtin_role gen o') rs ?db1 = ?db1\<lparr>ac_roles := ac_roles ?db1 @ map (\<lambda>r. builtin_role (gen r) o' r) rs,
       ac_permissions := ac_permissions ?db1 @ concat (map (builtin_rows gen o') rs)\<rparr>"
  proof (rule Cons.IH)
    show "ar_compatibility_role a \<noteq> Some r'" if "a \<in> set (ac_roles ?db1)" "r' \<in> set rs" "ar_organization_id a = o'" for a r'
      using that Cons.prems(1) Cons.prems(3) [of a r'] builtin_role_simps(4) [of "gen r" o' r] by fastforce
    show "rm_role_id m \<noteq> gen r'" if "m \<in> set (ac_permissions ?db1)" "r' \<in> set rs" for m r'
      using that Cons.prems(1,2,4) by (auto simp: builtin_rows_def dest: injD)
  qed (use Cons.prems in auto)
  then show ?case by (simp add: one)
qed simp

definition installed_roles :: "(UserRole \<Rightarrow> uuid) \<Rightarrow> uuid \<Rightarrow> access_db" where
  "installed_roles gen o' = (empty_access o')\<lparr>ac_roles := map (\<lambda>r. builtin_role (gen r) o' r) user_role_members,
     ac_permissions := concat (map (builtin_rows gen o') user_role_members)\<rparr>"

lemma ensure_installs: "inj gen \<Longrightarrow> ensure_builtin_roles gen o' (empty_access o') = installed_roles gen o'"
  unfolding ensure_builtin_roles_def installed_roles_def
  by (subst ensure_builtin_fold) (auto simp: empty_access_def user_role_members_def)

lemma distinct_members: "distinct user_role_members"
  by (simp add: user_role_members_def)

lemma installed_roles_ok:
  assumes "inj gen"
  shows "access_ok (installed_roles gen o')"
proof (rule access_okI)
  let ?db = "installed_roles gen o'"
  have members: "set user_role_members = UNIV" using user_role.members_complete by auto
  have roles: "set (ac_roles ?db) = range (\<lambda>r. builtin_role (gen r) o' r)" by (simp add: installed_roles_def members)
  have permissions: "set (ac_permissions ?db) = (\<Union>r. set (builtin_rows gen o' r))" by (simp add: installed_roles_def members)
  have "inj (\<lambda>r. ar_id (builtin_role (gen r) o' r))" using assms by (auto simp: inj_def)
  then have "distinct (map ar_id (ac_roles ?db))"
    using distinct_members by (simp add: installed_roles_def distinct_map comp_def inj_on_def)
  then show "keys_ok ?db" by (simp add: keys_ok_def installed_roles_def empty_access_def)
  show "catalogue_ok ?db"
    unfolding catalogue_ok_def permissions roles
    using builtin_subset by (fastforce simp: builtin_rows_def)
  have "exact ?db (builtin_role (gen r) o' r) r" for r
    unfolding exact_def permissions
    using assms by (force simp: builtin_rows_def dest: injD)
  then show "builtins_ok ?db"
    unfolding builtins_ok_def roles by (auto simp: installed_roles_def empty_access_def)
qed (simp_all add: orgs_ok_def installed_roles_def empty_access_def)

lemma run_bootstrap_ok:
  assumes "inj (en_roles env)"
  shows "access_ok (run_bootstrap env o' email hashed)"
proof -
  let ?db = "installed_roles (en_roles env) o'" and ?u = "bootstrap_admin (en_fresh env) o' email hashed"
  have "sound ?db (sync_user_compatibility_grants env ?u None (?db\<lparr>ac_users := ac_users ?db @ [?u], ac_assignments := []\<rparr>))"
    by (rule sound_add_user [where as = "[]"])
      (simp_all add: installed_roles_def empty_access_def bootstrap_admin_def)
  moreover have "?db\<lparr>ac_users := ac_users ?db @ [?u], ac_assignments := []\<rparr> = ?db\<lparr>ac_users := [?u]\<rparr>"
    by (simp add: installed_roles_def empty_access_def)
  ultimately have "sound ?db (run_bootstrap env o' email hashed)"
    by (simp add: run_bootstrap_def ensure_installs [OF assms] Let_def)
  then show ?thesis using installed_roles_ok [OF assms] by (simp add: sound_def)
qed

subsection \<open>Transitions\<close>

text \<open>The identifiers drawn for new rows are not in use.\<close>

definition fresh_rows :: "access_env \<Rightarrow> access_db \<Rightarrow> bool" where
  "fresh_rows env db \<longleftrightarrow> en_fresh env \<notin> us_id ` set (ac_users db) \<and> en_fresh env \<notin> sv_id ` set (ac_services db) \<and>
     en_fresh env \<notin> ar_id ` set (ac_roles db) \<and> en_fresh env \<notin> tk_id ` set (ac_tokens db) \<and>
     en_fresh env \<notin> gr_id ` set (ac_grants db)"

text \<open>
  One request that changes the authorization tables.  The permission guard of a request is left out:
  what is shown holds whoever may call.  \<open>actor\<close> is the authenticated principal.
\<close>

inductive access_step :: "access_db \<Rightarrow> access_db \<Rightarrow> bool" where
  role_made: "create_role env actor rq db = Inr db' \<Longrightarrow> fresh_rows env db \<Longrightarrow> access_step db db'"
| role_changed: "update_role env actor i rq' db = Inr db' \<Longrightarrow> access_step db db'"
| role_deleted: "delete_role env actor i db = Inr db' \<Longrightarrow> access_step db db'"
| grant_made: "create_grant env actor gq db = Inr db' \<Longrightarrow> fresh_rows env db \<Longrightarrow> access_step db db'"
| grant_deleted: "delete_grant env actor i db = Inr db' \<Longrightarrow> access_step db db'"
| service_made: "create_service_account env actor name description db = Inr db' \<Longrightarrow> actor \<in> principals db \<Longrightarrow>
    fresh_rows env db \<Longrightarrow> access_step db db'"
| service_changed: "update_service_account env actor i vq db = Inr db' \<Longrightarrow> access_step db db'"
| service_suspended: "suspend_service_account env actor i db = Inr db' \<Longrightarrow> access_step db db'"
| token_made: "create_personal_token env digest drawn actor tq db = Inr (db', t) \<Longrightarrow> actor \<in> principals db \<Longrightarrow>
    fresh_rows env db \<Longrightarrow> access_step db db'"
| service_token_made: "create_service_token env digest drawn actor account tq db = Inr (db', t) \<Longrightarrow>
    fresh_rows env db \<Longrightarrow> access_step db db'"
| token_rotated: "rotate_personal_token env digest drawn actor i oq db = Inr (db', t) \<Longrightarrow> actor \<in> principals db \<Longrightarrow>
    fresh_rows env db \<Longrightarrow> access_step db db'"
| service_token_rotated: "rotate_service_token env digest drawn actor account i oq db = Inr (db', t) \<Longrightarrow>
    fresh_rows env db \<Longrightarrow> access_step db db'"
| token_revoked: "revoke_personal_token env actor i db = Inr db' \<Longrightarrow> access_step db db'"
| service_token_revoked: "revoke_service_token env actor account i db = Inr db' \<Longrightarrow> access_step db db'"
| identified: "resolve_identity st credentials ip allow now db = Inr (db', idy) \<Longrightarrow> access_step db db'"
| session_opened: "create_session sid rid h u og sq now db = (db', s) \<Longrightarrow> u \<in> set (ac_users db) \<Longrightarrow>
    sid \<notin> ue_id ` set (ac_sessions db) \<Longrightarrow> access_step db db'"
| session_refreshed: "refresh_session presented rid h now db = (db', out) \<Longrightarrow> access_step db db'"
| logged_out: "db' = logout_session so now db \<Longrightarrow> access_step db db'"
| logged_out_everywhere: "db' = logout_all_sessions i now db \<Longrightarrow> access_step db db'"
| session_revoked: "revoke_my_session user o' i now db = Inr db' \<Longrightarrow> access_step db db'"
| user_invited: "create_user lenv actor uq db = Inr db' \<Longrightarrow> actor \<in> principals db \<Longrightarrow>
    en_fresh lenv \<notin> us_id ` set (ac_users db) \<Longrightarrow> access_step db db'"
| user_changed: "update_user env actor i wq db = Inr db' \<Longrightarrow> access_step db db'"
| status_set: "set_status env actor i status db = Inr db' \<Longrightarrow> access_step db db'"
| user_deleted: "delete_user env actor i db = Inr db' \<Longrightarrow> access_step db db'"
| sites_set: "set_site_access env actor i mode ids db = Inr db' \<Longrightarrow> access_step db db'"
| invited_again: "issue_invitation lenv actor i db = Inr db' \<Longrightarrow> access_step db db'"
| reset_issued: "issue_password_reset lenv actor i db = Inr db' \<Longrightarrow> access_step db db'"
| invitation_accepted: "accept_invitation h hashed full_name now db = Inr db' \<Longrightarrow> access_step db db'"
| password_reset: "complete_password_reset h hashed now db = Inr db' \<Longrightarrow> access_step db db'"
| site_added: "o' \<in> og_id ` set (ac_organizations db) \<Longrightarrow>
    db' = db\<lparr>ac_sites := ac_sites db @ [\<lparr>si_id = i, si_organization_id = o'\<rparr>]\<rparr> \<Longrightarrow> access_step db db'"

inductive access_reachable :: "access_db \<Rightarrow> bool" where
  bootstrapped: "inj (en_roles env) \<Longrightarrow> access_reachable (run_bootstrap env o' email hashed)"
| stepped: "access_reachable db \<Longrightarrow> access_step db db' \<Longrightarrow> access_reachable db'"

lemma create_user_truncate: "en_fresh (access_env.truncate lenv) = en_fresh lenv"
  by (simp add: access_env.truncate_def)

lemma sound_site: "sound db (db\<lparr>ac_sites := ac_sites db @ [s]\<rparr>)"
  by (rule sound_new_rows [where xs = "[s]" and us = "[]" and ss = "[]" and ts = "[]" and es = "[]"])
    (auto simp: keys_ok_def)

lemmas sound_rules = sound_create_role sound_update_role sound_delete_role sound_create_grant sound_delete_grant
  sound_create_service_account sound_update_service_account sound_suspend_service_account
  sound_create_personal_token sound_create_service_token sound_rotate_personal_token sound_rotate_service_token
  sound_revoke_personal_token sound_revoke_service_token sound_resolve_identity sound_create_session
  sound_refresh_session sound_revoke_my_session sound_create_user sound_update_user sound_set_status
  sound_delete_user sound_set_site_access sound_issue_invitation sound_issue_password_reset
  sound_accept_invitation sound_complete_password_reset

lemma step_sound: "access_step db db' \<Longrightarrow> sound db db'"
proof (induction rule: access_step.induct)
  case (logged_out db' so now db)
  then show ?case by (simp add: sound_logout)
next
  case (logged_out_everywhere db' i now db)
  then show ?case by (simp add: sound_logout_all)
next
  case (site_added o' db db' i)
  then show ?case by (simp add: sound_site)
qed (auto simp: fresh_rows_def intro: sound_rules)

lemma reachable_ok: "access_reachable db \<Longrightarrow> access_ok db"
proof (induction rule: access_reachable.induct)
  case (bootstrapped env o' email hashed)
  then show ?case by (rule run_bootstrap_ok)
next
  case (stepped db db')
  then show ?case using step_sound by (simp add: sound_def)
qed

lemma access_steps_evolve:
  assumes "access_step\<^sup>*\<^sup>* db db'" and "access_ok db"
  shows "access_ok db' \<and> evolves db db'"
  using assms
proof (induction rule: rtranclp_induct)
  case (step y z)
  then show ?case using step_sound [of y z] evolves_trans [of db y z] by (simp add: sound_def)
qed simp


end
