(* ===== verification/AccessProperties.thy ===== *)
theory AccessProperties
  imports AccessPolicy
begin

text \<open>
  What the authorization tables guarantee in every reachable state: they are well typed, the two
  ways the code evaluates site access agree, and credentials issued before a change of a principal's
  permissions stop working.  The witnesses run an installation, a service account with a token, a
  grant to it and a second token.
\<close>

subsection \<open>Site access\<close>

lemma granted_organization:
  assumes ok: "access_ok db" and k: "k \<in> set ALL_PERMISSION_KEYS"
  shows "granted db p (Some k) GrantScopeType.ORGANIZATION (principal_org p) \<longleftrightarrow>
    (\<exists>i. (k, GrantScopeType.ORGANIZATION, i) \<in> set (permission_rows db p))" (is "?l \<longleftrightarrow> ?r")
proof
  assume ?l
  then obtain g m where "g \<in> set (ac_grants db)" "gr_organization_id g = principal_org p" "principal_filter p g"
    "gr_scope_type g = GrantScopeType.ORGANIZATION" "m \<in> set (ac_permissions db)" "rm_role_id m = gr_role_id g"
    "rm_organization_id m = principal_org p" "rm_permission_key m = k"
    by (auto simp: granted_def carries_def)
  then show ?r using access_okD(2) [OF ok] unfolding permission_rows_iff catalogue_ok_def by metis
next
  assume ?r
  then obtain i m a g where row: "m \<in> set (ac_permissions db)" "a \<in> set (ac_roles db)" "g \<in> set (ac_grants db)"
    "rm_organization_id m = principal_org p" "ar_id a = rm_role_id m" "gr_role_id g = ar_id a"
    "gr_organization_id g = principal_org p" "principal_filter p g" "k = rm_permission_key m"
    "GrantScopeType.ORGANIZATION = gr_scope_type g"
    unfolding permission_rows_iff by blast
  then have "gr_scope_id g = principal_org p"
    using access_okD(5) [OF ok row(3)] by (auto simp: grant_ok_def split: GrantScopeType.splits)
  with row show ?l unfolding granted_def carries_def by (auto intro!: bexI [of _ g] bexI [of _ m])
qed

lemma granted_site:
  assumes ok: "access_ok db"
  shows "granted db p (Some k) GrantScopeType.SITE s \<longleftrightarrow> (k, GrantScopeType.SITE, s) \<in> set (permission_rows db p)"
    (is "?l \<longleftrightarrow> ?r")
proof
  assume ?l
  then obtain g m where "g \<in> set (ac_grants db)" "gr_organization_id g = principal_org p" "principal_filter p g"
    "gr_scope_type g = GrantScopeType.SITE" "gr_scope_id g = s" "m \<in> set (ac_permissions db)" "rm_role_id m = gr_role_id g"
    "rm_organization_id m = principal_org p" "rm_permission_key m = k"
    by (auto simp: granted_def carries_def)
  then show ?r using access_okD(2) [OF ok] unfolding permission_rows_iff catalogue_ok_def by metis
next
  assume ?r
  then show ?l unfolding permission_rows_iff granted_def carries_def by (auto, metis)
qed

lemma in_effective:
  assumes "\<not> unmigrated p"
  shows "k \<in> set (effective_permissions db p st i) \<longleftrightarrow>
    (\<exists>t j. (k, t, j) \<in> set (permission_rows db p) \<and> row_counts st i (k, t, j))"
  using assms by (force simp: effective_permissions_def Let_def)

lemma ex_scope: "(\<exists>t. P t) \<longleftrightarrow> P GrantScopeType.ORGANIZATION \<or> P GrantScopeType.SITE"
  by (metis GrantScopeType.exhaust)

lemma effective_at_site:
  assumes "access_ok db" and "\<not> unmigrated p" and k: "k \<in> set ALL_PERMISSION_KEYS" and d: "PERMISSION_BY_KEY k = Some d"
  shows "k \<in> set (effective_permissions db p (Some GrantScopeType.SITE) (Some s)) \<longleftrightarrow>
    granted db p (Some k) GrantScopeType.ORGANIZATION (principal_org p) \<or>
    (SITE_SCOPE \<in> set (pm_scopes d) \<and> granted db p (Some k) GrantScopeType.SITE s)"
proof -
  have "ORGANIZATION_SCOPE \<in> set (pm_scopes d)" using known_permission [OF k] d by auto
  then show ?thesis
    unfolding in_effective [OF assms(2)] granted_organization [OF assms(1) k] granted_site [OF assms(1)] ex_scope
    by (auto simp: row_counts_def d ORGANIZATION_SCOPE_def SITE_SCOPE_def)
qed

lemma effective_everywhere:
  assumes "access_ok db" and "\<not> unmigrated p" and k: "k \<in> set ALL_PERMISSION_KEYS"
  shows "k \<in> set (effective_permissions db p (Some GrantScopeType.ORGANIZATION) i) \<longleftrightarrow>
    granted db p (Some k) GrantScopeType.ORGANIZATION (principal_org p)"
proof -
  obtain d where "PERMISSION_BY_KEY k = Some d" "ORGANIZATION_SCOPE \<in> set (pm_scopes d)" using known_permission [OF k] .
  then show ?thesis
    unfolding in_effective [OF assms(2)] granted_organization [OF assms(1) k] ex_scope by (auto simp: row_counts_def ORGANIZATION_SCOPE_def)
qed

lemma migrated_clause:
  "\<not> unmigrated p \<Longrightarrow> PERMISSION_BY_KEY k = Some d \<Longrightarrow> site_scope_clause db p (Some k) =
     Inr (\<lambda>v. granted db p (Some k) GrantScopeType.ORGANIZATION (principal_org p) \<or>
       (SITE_SCOPE \<in> set (pm_scopes d) \<and> at_site (granted db p (Some k) GrantScopeType.SITE) v))"
  by (cases p) (auto simp: site_scope_clause_def Let_def)

lemma can_access_site_eq:
  assumes "access_ok db" and "\<not> unmigrated p" and "k \<in> set ALL_PERMISSION_KEYS"
  shows "can_access_site db p s (Some k) =
    Inr (site_in db (principal_org p) s \<and> k \<in> set (effective_permissions db p (Some GrantScopeType.SITE) (Some s)))"
proof -
  obtain d where d: "PERMISSION_BY_KEY k = Some d" using known_permission [OF assms(3)] .
  show ?thesis
    using assms(2) unfolding effective_at_site [OF assms d] can_access_site_def migrated_clause [OF assms(2) d]
    by (cases p) (auto simp: at_site_def)
qed

definition site_grants :: "access_db \<Rightarrow> principal \<Rightarrow> string \<Rightarrow> scoped_grant list" where
  "site_grants db p k = filter (\<lambda>g. gr_organization_id g = principal_org p \<and> principal_filter p g \<and>
     gr_scope_type g = GrantScopeType.SITE \<and> site_in db (principal_org p) (gr_scope_id g) \<and> carries db p (Some k) g) (ac_grants db)"

lemma migrated_ids:
  "\<not> unmigrated p \<Longrightarrow> PERMISSION_BY_KEY k = Some d \<Longrightarrow> accessible_site_ids db p (Some k) =
     Inr (if granted db p (Some k) GrantScopeType.ORGANIZATION (principal_org p) then None
          else Some (map gr_scope_id (if SITE_SCOPE \<in> set (pm_scopes d) then site_grants db p k else [])))"
  by (cases p) (auto simp: accessible_site_ids_def Let_def site_grants_def)

lemma site_grants_ids:
  "s \<in> set (map gr_scope_id (site_grants db p k)) \<longleftrightarrow>
     site_in db (principal_org p) s \<and> granted db p (Some k) GrantScopeType.SITE s"
  by (auto simp: site_grants_def granted_def)

lemma accessible_site_ids_eq:
  assumes "access_ok db" and "\<not> unmigrated p" and "k \<in> set ALL_PERMISSION_KEYS"
  shows "case accessible_site_ids db p (Some k) of Inl e \<Rightarrow> False
    | Inr None \<Rightarrow> k \<in> set (effective_permissions db p (Some GrantScopeType.ORGANIZATION) (Some (principal_org p)))
    | Inr (Some ids) \<Rightarrow>
        k \<notin> set (effective_permissions db p (Some GrantScopeType.ORGANIZATION) (Some (principal_org p))) \<and>
        (\<forall>s. s \<in> set ids \<longleftrightarrow> can_access_site db p s (Some k) = Inr True)"
proof -
  obtain d where d: "PERMISSION_BY_KEY k = Some d" using known_permission [OF assms(3)] .
  show ?thesis
    unfolding can_access_site_eq [OF assms] effective_at_site [OF assms d] effective_everywhere [OF assms]
      migrated_ids [OF assms(2) d]
    by (cases "granted db p (Some k) GrantScopeType.ORGANIZATION (principal_org p)"; cases "SITE_SCOPE \<in> set (pm_scopes d)")
      (simp_all add: site_grants_ids del: set_map)
qed

subsection \<open>Issued credentials\<close>

lemma mem_key_eq: "keys_ok db \<Longrightarrow> p \<in> principals db \<Longrightarrow> q \<in> principals db \<Longrightarrow> key_of p = key_of q \<Longrightarrow> p = q"
  by (cases p; cases q) (auto simp: principals_def key_of_def keys_ok_def dest: inj_onD simp: distinct_map)

lemma token_principalE:
  assumes "token_principal db t = Some p"
  obtains (user) u where "p = UserP u" "u \<in> set (ac_users db)" "tk_principal_type t = PrincipalType.USER"
      "tk_user_id t = Some (us_id u)" "us_auth_version u = tk_issued_auth_version t" "us_is_active u"
      "us_account_status u = AccountStatus.ACTIVE"
    | (service) s where "p = ServiceP s" "s \<in> set (ac_services db)" "tk_principal_type t = PrincipalType.SERVICE_ACCOUNT"
      "tk_service_account_id t = Some (sv_id s)" "sv_auth_version s = tk_issued_auth_version t"
      "sv_status s = ServiceAccountStatus.ACTIVE"
  using assms unfolding token_principal_def
  by (cases "tk_principal_type t")
    (auto split: option.splits if_split_asm bind_splits dest!: the_user_Some the_service_Some)

lemma token_version:
  assumes "token_principal db t = Some p"
  shows "p \<in> principals db \<and> principal_version p = tk_issued_auth_version t"
  using assms by (elim token_principalE) (auto simp: principals_def)

lemma version_bound:
  assumes ok: "access_ok db" and t: "t \<in> set (ac_tokens db)" and p: "p \<in> principals db"
    and kept: "token_kept t t'" and auth: "token_principal db' t' = Some p'" and key: "key_of p' = key_of p"
  shows "tk_issued_auth_version t' \<le> principal_version p"
  using auth
proof (cases rule: token_principalE)
  case (user u)
  then obtain v where v: "v \<in> set (ac_users db)" "us_id v = us_id u" "tk_issued_auth_version t \<le> us_auth_version v"
    using access_okD(6) [OF ok t] kept by (auto simp: token_ok_def token_kept_def)
  then have "UserP v = p"
    using key user p by (intro mem_key_eq [OF access_okD(1) [OF ok]]) (auto simp: principals_def key_of_def)
  then show ?thesis using v kept by (auto simp: token_kept_def)
next
  case (service s)
  then obtain v where v: "v \<in> set (ac_services db)" "sv_id v = sv_id s" "tk_issued_auth_version t \<le> sv_auth_version v"
    using access_okD(6) [OF ok t] kept by (auto simp: token_ok_def token_kept_def)
  then have "ServiceP v = p"
    using key service p by (intro mem_key_eq [OF access_okD(1) [OF ok]]) (auto simp: principals_def key_of_def)
  then show ?thesis using v kept by (auto simp: token_kept_def)
qed

lemma changed_version:
  assumes ev: "evolves db db'" and ok': "access_ok db'" and p: "p \<in> principals db" and p': "p' \<in> principals db'"
    and key: "key_of p' = key_of p"
    and changed: "set (effective_permissions db' p' st i) \<noteq> set (effective_permissions db p st i)"
  shows "principal_version p < principal_version p'"
proof -
  obtain q where q: "q \<in> principals db'" "principal_evolves db db' p q" using ev p by (auto simp: evolves_def)
  then have "q = p'" using key by (intro mem_key_eq [OF access_okD(1) [OF ok'] _ p']) (auto simp: principal_evolves_def)
  then show ?thesis using q effective_view changed by (metis principal_evolves_def order_le_imp_less_or_eq)
qed

lemma authenticatedE:
  assumes "authenticate_api_token digest c ip now db = Inr (db', p, t)"
  obtains "t \<in> set (ac_tokens db)" and "token_usable now ip t" and "token_principal db t = Some p"
  using assms by (auto simp: authenticate_api_token_def split: option.splits if_split_asm dest: find_SomeD)

lemma session_resolvedE:
  assumes "resolve_session st claims u allow now db = Inr (db', idy)"
  obtains "id_principal idy = UserP u" and "id_api_token idy = None"
    and "\<And>s. id_session idy = Some s \<Longrightarrow> \<exists>r \<in> set (ac_sessions db). ue_id r = ue_id s \<and>
      ue_user_id r = us_id u \<and> ue_auth_version r = us_auth_version u"
  using assms unfolding resolve_session_def
  by (fastforce split: option.splits json.splits if_split_asm dest!: find_SomeD simp: touch_session_def)

lemma claims_resolvedE:
  assumes "resolve_claims st claims allow now db = Inr (db', idy)"
  obtains u where "u \<in> set (ac_users db)" and "resolve_session st claims u allow now db = Inr (db', idy)"
  using assms unfolding resolve_claims_def
  by (auto split: option.splits json.splits if_split_asm dest!: the_user_Some)

lemma identifiedE:
  assumes "resolve_identity st c ip allow now db = Inr (db', idy)"
  obtains (token) t where "id_api_token idy = Some t" and "id_session idy = None" and "t \<in> set (ac_tokens db)"
      and "token_principal db t = Some (id_principal idy)"
    | (session) u where "u \<in> set (ac_users db)" and "id_principal idy = UserP u" and "id_api_token idy = None"
      and "\<And>s. id_session idy = Some s \<Longrightarrow> \<exists>r \<in> set (ac_sessions db). ue_id r = ue_id s \<and>
        ue_user_id r = us_id u \<and> ue_auth_version r = us_auth_version u"
proof -
  obtain cr where cr: "c = Some cr" "cr \<noteq> []"
    using assms by (auto simp: resolve_identity_def split: option.splits if_split_asm)
  show ?thesis
  proof (cases "starts_with ''vapi_'' cr")
    case True
    then obtain p t where a: "authenticate_api_token (au_digest st) cr ip now db = Inr (db', p, t)"
      "idy = \<lparr>id_principal = p, id_session = None, id_api_token = Some t\<rparr>"
      using assms cr by (auto simp: resolve_identity_def elim!: res_bind_InrE)
    from a(1) show ?thesis by (rule authenticatedE) (use a(2) in \<open>auto intro: token\<close>)
  next
    case False
    then obtain claims where "resolve_claims st claims allow now db = Inr (db', idy)"
      using assms cr by (auto simp: resolve_identity_def split: option.splits)
    then show ?thesis by (elim claims_resolvedE session_resolvedE) (rule session)
  qed
qed

lemma stale_refused:
  assumes ok: "access_ok db" and ok': "access_ok db'" and ev: "evolves db db'"
    and auth: "resolve_identity st c ip allow now db' = Inr (db'', idy)"
    and p: "p \<in> principals db" and key: "key_of (id_principal idy) = key_of p"
    and changed: "set (effective_permissions db' (id_principal idy) scope i) \<noteq> set (effective_permissions db p scope i)"
  shows "\<forall>t. id_api_token idy = Some t \<longrightarrow> tk_id t \<notin> tk_id ` set (ac_tokens db)"
    and "\<forall>s. id_session idy = Some s \<longrightarrow> ue_id s \<notin> ue_id ` set (ac_sessions db)"
proof -
  note newer = changed_version [OF ev ok' p _ key changed]
  have "(\<forall>t. id_api_token idy = Some t \<longrightarrow> tk_id t \<notin> tk_id ` set (ac_tokens db)) \<and>
      (\<forall>s. id_session idy = Some s \<longrightarrow> ue_id s \<notin> ue_id ` set (ac_sessions db))"
    using auth
  proof (cases rule: identifiedE)
    case (token t)
    have "tk_id t \<noteq> tk_id t0" if t0: "t0 \<in> set (ac_tokens db)" for t0
    proof
      assume same: "tk_id t = tk_id t0"
      obtain t1 where t1: "t1 \<in> set (ac_tokens db')" "token_kept t0 t1" using ev t0 by (auto simp: evolves_def)
      then have "t1 = t" using same token(3) access_okD(1) [OF ok'] unfolding keys_ok_def token_kept_def
        by (metis key_eq)
      then have "tk_issued_auth_version t \<le> principal_version p"
        using version_bound [OF ok t0 p _ token(4) key] t1 by simp
      then show False using newer token_version [OF token(4)] by simp
    qed
    with token show ?thesis by auto
  next
    case (session u)
    have "ue_id s \<noteq> ue_id s0" if s: "id_session idy = Some s" and s0: "s0 \<in> set (ac_sessions db)" for s s0
    proof
      assume same: "ue_id s = ue_id s0"
      obtain r where r: "r \<in> set (ac_sessions db')" "ue_id r = ue_id s" "ue_user_id r = us_id u" "ue_auth_version r = us_auth_version u"
        using session(4) [OF s] by blast
      obtain s1 where s1: "s1 \<in> set (ac_sessions db')" "session_kept s0 s1" using ev s0 by (auto simp: evolves_def)
      then have "s1 = r" using same r access_okD(1) [OF ok'] unfolding keys_ok_def session_kept_def
        by (metis key_eq)
      then have kept: "ue_user_id s0 = us_id u" "ue_auth_version s0 = us_auth_version u"
        using s1 r by (auto simp: session_kept_def)
      obtain v where v: "v \<in> set (ac_users db)" "us_id v = ue_user_id s0" "ue_auth_version s0 \<le> us_auth_version v"
        using access_okD(8) [OF ok s0] by (auto simp: session_ok_def)
      then have "UserP v = p"
        using key session(2) kept p by (intro mem_key_eq [OF access_okD(1) [OF ok]]) (auto simp: principals_def key_of_def)
      then show False using newer session v kept by (auto simp: principals_def)
    qed
    with session show ?thesis by auto
  qed
  then show "\<forall>t. id_api_token idy = Some t \<longrightarrow> tk_id t \<notin> tk_id ` set (ac_tokens db)"
    and "\<forall>s. id_session idy = Some s \<longrightarrow> ue_id s \<notin> ue_id ` set (ac_sessions db)" by auto
qed

subsection \<open>An installation and what follows\<close>

text \<open>
  A fresh installation, a service account with a token, a grant to it, and a second token: the
  states the witnesses use.
\<close>

fun sample_role_id :: "UserRole \<Rightarrow> uuid" where
  "sample_role_id UserRole.ADMINISTRATOR = 11"
| "sample_role_id UserRole.SECURITY_OPERATOR = 12"
| "sample_role_id UserRole.PENTEST_APPROVER = 13"
| "sample_role_id UserRole.REMEDIATION_OWNER = 14"
| "sample_role_id UserRole.AUDITOR = 15"
| "sample_role_id UserRole.VIEWER = 16"

lemma inj_sample_role_id: "inj sample_role_id"
proof (rule injI)
  show "x = y" if "sample_role_id x = sample_role_id y" for x y
    using that by (cases x; cases y; simp)
qed

definition sample_env :: "uuid \<Rightarrow> access_env" where
  "sample_env i = \<lparr>en_now = 0, en_roles = sample_role_id, en_grants = (\<lambda>n. 20 + n), en_fresh = i\<rparr>"

definition sample_admin :: user where
  "sample_admin = migrated 0 (bootstrap_admin 2 1 ''a@b.c'' ''h'')"

definition sample_admin_grant :: scoped_grant where
  "sample_admin_grant = compatibility_grant sample_admin 11 None 20 (GrantScopeType.ORGANIZATION, 1)"

definition sample_service :: service_account where
  "sample_service = new_service (sample_env 3) (UserP sample_admin) ''ci'' None"

definition sample_token :: "uuid \<Rightarrow> string \<Rightarrow> service_account \<Rightarrow> api_token" where
  "sample_token i drawn s = new_token (sample_env i) id (api_secret drawn) (ServiceP s)
     \<lparr>tc_name = ''ci'', tc_expires_in_days = 1, tc_ip_restrictions = []\<rparr> [] None"

definition sample_request :: grant_create where
  "sample_request = \<lparr>gc_principal_type = PrincipalType.SERVICE_ACCOUNT, gc_principal_id = 3, gc_role_id = 16,
     gc_scope_type = GrantScopeType.ORGANIZATION, gc_scope_id = 1\<rparr>"

definition sample_granted :: service_account where
  "sample_granted = bump_service sample_service"

definition sample_db :: access_db where
  "sample_db = run_bootstrap (sample_env 2) 1 ''a@b.c'' ''h''"

definition sample_before :: access_db where
  "sample_before = sample_db\<lparr>ac_services := [sample_service], ac_tokens := [sample_token 4 ''x'' sample_service]\<rparr>"

definition sample_after :: access_db where
  "sample_after = sample_db\<lparr>ac_services := [sample_granted],
     ac_grants := [sample_admin_grant, new_grant (sample_env 5) (UserP sample_admin) sample_request],
     ac_tokens := [sample_token 4 ''x'' sample_service, sample_token 6 ''y'' sample_granted]\<rparr>"

lemma sample_db_eq:
  "sample_db = (installed_roles sample_role_id 1)\<lparr>ac_users := [sample_admin], ac_grants := [sample_admin_grant]\<rparr>"
proof -
  let ?db = "installed_roles sample_role_id 1" and ?u = "bootstrap_admin 2 1 ''a@b.c'' ''h''"
  have ok: "access_ok ?db" by (rule installed_roles_ok [OF inj_sample_role_id])
  have row: "compatibility_row 1 (?db\<lparr>ac_users := [?u]\<rparr>) UserRole.ADMINISTRATOR = Some (builtin_role 11 1 UserRole.ADMINISTRATOR)"
    by (simp add: compatibility_row_def installed_roles_def user_role_members_def)
  have "sync_user_compatibility_grants (sample_env 2) ?u None (?db\<lparr>ac_users := [?u]\<rparr>) =
      on_user 2 (migrated 0) (?db\<lparr>ac_users := [?u], ac_grants := synced_grants (sample_env 2) ?u None (?db\<lparr>ac_users := [?u]\<rparr>)\<rparr>)"
    using access_okD(3) [OF ok]
    by (subst sync_grants_eq)
      (auto simp: builtins_ok_def exact_def bootstrap_admin_def installed_roles_def empty_access_def sample_env_def)
  moreover have "us_id ?u = 2" "us_organization_id ?u = 1" "us_role ?u = UserRole.ADMINISTRATOR"
    "ac_grants (?db\<lparr>ac_users := [?u]\<rparr>) = []" "en_grants (sample_env 2) 0 = 20"
    by (simp_all add: bootstrap_admin_def sample_env_def installed_roles_def empty_access_def)
  then have "synced_grants (sample_env 2) ?u None (?db\<lparr>ac_users := [?u]\<rparr>) = [sample_admin_grant]"
    by (simp add: synced_grants_def compatibility_scopes_def role_id_def row sample_admin_grant_def
      sample_admin_def migrated_def compatibility_grant_def del: One_nat_def)
  ultimately show ?thesis
    unfolding sample_db_def run_bootstrap_def
    by (simp add: sample_env_def ensure_installs [OF inj_sample_role_id] on_user_def update_where_def sample_admin_def bootstrap_admin_def)
qed

lemmas sample_rows = sample_db_eq sample_service_def sample_token_def sample_granted_def sample_admin_def
  sample_env_def new_service_def new_token_def bump_service_def migrated_def bootstrap_admin_def
  installed_roles_def empty_access_def api_secret_def

lemma sample_db_reachable: "access_reachable sample_db"
  unfolding sample_db_def by (rule bootstrapped) (simp add: sample_env_def inj_sample_role_id)

lemma sample_fields:
  "ac_services sample_db = []" "ac_tokens sample_db = []" "ac_grants sample_db = [sample_admin_grant]"
  "ac_users sample_db = [sample_admin]" "ac_sites sample_db = []" "ac_assignments sample_db = []"
  "ac_roles sample_db = map (\<lambda>r. builtin_role (sample_role_id r) 1 r) user_role_members"
  by (simp_all add: sample_db_eq installed_roles_def empty_access_def)

lemma sample_admin_fields [simp]: "us_id sample_admin = 2" "us_organization_id sample_admin = 1"
  by (simp_all add: sample_admin_def bootstrap_admin_def migrated_def)

lemma sample_service_fields [simp]: "sv_id sample_service = 3" "sv_organization_id sample_service = 1" "sv_name sample_service = ''ci''"
  "sv_status sample_service = ServiceAccountStatus.ACTIVE" "sv_auth_version sample_service = 1"
  "sv_id sample_granted = 3" "sv_organization_id sample_granted = 1" "sv_auth_version sample_granted = 2"
  "sv_status sample_granted = ServiceAccountStatus.ACTIVE" "sv_primary_role sample_service = UserRole.VIEWER"
  by (simp_all add: sample_granted_def bump_service_def sample_service_def new_service_def sample_env_def) (code_simp+)?

lemma sample_access_env_fields [simp]: "en_fresh (sample_env i) = i" "en_now (sample_env i) = 0"
  by (simp_all add: sample_env_def)

lemma sample_service_made:
  "create_service_account (sample_env 3) (UserP sample_admin) ''ci'' None sample_db = Inr (sample_db\<lparr>ac_services := [sample_service]\<rparr>)"
  by (simp add: create_service_account_def sample_fields sample_service_def)

lemma sample_issue:
  "find (\<lambda>x. sv_id x = 3 \<and> sv_organization_id x = 1) (ac_services db) = Some s \<Longrightarrow> sv_status s = ServiceAccountStatus.ACTIVE \<Longrightarrow>
   create_service_token (sample_env i) id drawn (UserP sample_admin) 3
     \<lparr>tc_name = ''ci'', tc_expires_in_days = 1, tc_ip_restrictions = []\<rparr> db =
   Inr (db\<lparr>ac_tokens := ac_tokens db @ [sample_token i drawn s]\<rparr>, sample_token i drawn s)"
  by (simp add: create_service_token_def owned_service_def issue_token_def validate_ip_restrictions_def sample_token_def Let_def)

lemma sample_grant:
  "create_grant (sample_env 5) (UserP sample_admin) sample_request sample_before =
   Inr (sample_before\<lparr>ac_services := [sample_granted],
     ac_grants := [sample_admin_grant, new_grant (sample_env 5) (UserP sample_admin) sample_request]\<rparr>)"
proof -
  have row: "owned_role 1 16 sample_before = Inr (builtin_role 16 1 UserRole.VIEWER)"
    by (simp add: owned_role_def sample_before_def sample_fields user_role_members_def)
  have account: "the_principal 1 PrincipalType.SERVICE_ACCOUNT 3 sample_before = Inr (ServiceP sample_service)"
    by (simp add: the_principal_def sample_before_def)
  let ?g = "new_grant (sample_env 5) (UserP sample_admin) sample_request"
  let ?db = "sample_before\<lparr>ac_grants := [sample_admin_grant, ?g]\<rparr>"
  have rows: "map fst (compatibility_rows ?db (ServiceP sample_service)) = [UserRole.VIEWER]"
    by (simp add: compatibility_rows_def sample_before_def sample_fields user_role_members_def new_grant_def
      sample_request_def sample_admin_grant_def compatibility_grant_def)
  have same: "bump_service (sample_service\<lparr>sv_primary_role := UserRole.VIEWER\<rparr>) = sample_granted" unfolding sample_granted_def by (simp add: sample_service_def new_service_def)
  moreover have services: "ac_services sample_before = [sample_service]" by (simp add: sample_before_def)
  ultimately have "after_grant_change 0 (ServiceP sample_service) ?db = ?db\<lparr>ac_services := [sample_granted]\<rparr>"
    by (simp add: sync_service_account_primary_role_def rows primary_role_def on_service_def same)
  moreover have "ac_grants sample_before = [sample_admin_grant]" "scope_valid 1 sample_request sample_before = Inr ()"
    by (simp_all add: sample_before_def sample_fields scope_valid_def sample_request_def require_def)
  moreover have "gc_role_id sample_request = 16" "gc_principal_type sample_request = PrincipalType.SERVICE_ACCOUNT"
    "gc_principal_id sample_request = 3" "\<not> owner_is PrincipalType.SERVICE_ACCOUNT 3 sample_admin_grant"
    by (simp_all add: sample_request_def owner_is_def sample_admin_grant_def compatibility_grant_def)
  ultimately show ?thesis using row account by (simp add: create_grant_def Let_def del: One_nat_def after_grant_change.simps)
qed

lemma sample_before_reachable: "access_reachable sample_before"
proof -
  let ?db = "sample_db\<lparr>ac_services := [sample_service]\<rparr>"
  have "access_step sample_db ?db"
    using sample_service_made
    by (rule service_made) (auto simp: principals_def sample_fields fresh_rows_def user_role_members_def sample_admin_grant_def compatibility_grant_def)
  moreover have "access_step ?db sample_before"
    using sample_issue [of ?db sample_service 4 "''x''"]
    by (intro service_token_made) (auto simp: sample_before_def fresh_rows_def sample_fields user_role_members_def sample_admin_grant_def compatibility_grant_def)
  ultimately show ?thesis using sample_db_reachable by (blast intro: stepped)
qed

lemma sample_after_steps: "access_step\<^sup>*\<^sup>* sample_before sample_after"
proof -
  let ?db = "sample_before\<lparr>ac_services := [sample_granted],
     ac_grants := [sample_admin_grant, new_grant (sample_env 5) (UserP sample_admin) sample_request]\<rparr>"
  have "access_step sample_before ?db"
    using sample_grant
    by (rule grant_made) (auto simp: fresh_rows_def sample_before_def sample_fields user_role_members_def
      sample_admin_grant_def compatibility_grant_def sample_token_def new_token_def)
  moreover have "access_step ?db sample_after"
    using sample_issue [of ?db sample_granted 6 "''y''"]
    by (intro service_token_made) (auto simp: sample_before_def sample_after_def fresh_rows_def sample_fields
      user_role_members_def sample_admin_grant_def compatibility_grant_def new_grant_def sample_token_def new_token_def)
  ultimately show ?thesis by (meson rtranclp.rtrancl_refl rtranclp.rtrancl_into_rtrancl)
qed

lemma sample_viewer_key: "''assets.read'' \<in> set (BUILTIN_ROLE_PERMISSIONS UserRole.VIEWER)"
  by code_simp

lemma sample_permissions:
  "set (effective_permissions sample_before (ServiceP sample_service) None None) = {}"
  "''assets.read'' \<in> set (effective_permissions sample_after (ServiceP sample_granted) None None)"
proof -
  have "permission_rows sample_before (ServiceP sample_service) = []"
    by (auto simp: permission_rows_def sample_before_def sample_fields sample_admin_grant_def compatibility_grant_def)
  then show "set (effective_permissions sample_before (ServiceP sample_service) None None) = {}"
    by (simp add: effective_permissions_def)
  let ?m = "\<lparr>rm_organization_id = 1, rm_role_id = 16, rm_permission_key = ''assets.read''\<rparr>"
  have "?m \<in> set (builtin_rows sample_role_id 1 UserRole.VIEWER)" using sample_viewer_key by (simp add: builtin_rows_def)
  then have m: "?m \<in> set (ac_permissions sample_after)"
    by (simp add: sample_after_def sample_db_eq installed_roles_def user_role_members_def)
  have "(''assets.read'', GrantScopeType.ORGANIZATION, 1) \<in> set (permission_rows sample_after (ServiceP sample_granted))"
    unfolding permission_rows_iff
    by (rule bexI [OF _ m], rule bexI [where x = "builtin_role 16 1 UserRole.VIEWER"],
        rule bexI [where x = "new_grant (sample_env 5) (UserP sample_admin) sample_request"])
      (simp_all add: sample_after_def sample_fields user_role_members_def new_grant_def sample_request_def)
  moreover have "row_counts None None (''assets.read'', GrantScopeType.ORGANIZATION, 1)" by code_simp
  ultimately show "''assets.read'' \<in> set (effective_permissions sample_after (ServiceP sample_granted) None None)"
    by (subst in_effective) auto
qed

definition sample_settings :: auth_settings where
  "sample_settings = \<lparr>au_env = ''production'', au_digest = id, au_decode = (\<lambda>c. None)\<rparr>"

lemma sample_identified:
  "resolve_identity sample_settings (Some ''vapi_y'') None False 0 sample_after =
    Inr (record_use 0 None (ServiceP sample_granted) (sample_token 6 ''y'' sample_granted) sample_after,
      \<lparr>id_principal = ServiceP sample_granted, id_session = None, id_api_token = Some (sample_token 6 ''y'' sample_granted)\<rparr>)"
proof -
  have secret: "tk_token_hash (sample_token i c s) = strip (''vapi_'' @ c)" for i c s
    by (simp add: sample_token_def new_token_def api_secret_def)
  have digests: "strip (''vapi_'' @ ''x'') = ''vapi_x''" "strip (''vapi_'' @ ''y'') = ''vapi_y''" "strip ''vapi_y'' = ''vapi_y''"
    by code_simp+
  have "find (\<lambda>t. tk_token_hash t = ''vapi_y'') (ac_tokens sample_after) = Some (sample_token 6 ''y'' sample_granted)"
    unfolding sample_after_def using digests by (simp add: secret)
  moreover have "token_usable 0 None (sample_token 6 ''y'' sample_granted)"
    by (simp add: token_usable_def sample_token_def new_token_def ip_is_allowed_def days_def time_simps)
  moreover have "token_principal sample_after (sample_token 6 ''y'' sample_granted) = Some (ServiceP sample_granted)"
    by (simp add: token_principal_def sample_token_def new_token_def sample_after_def the_service_def)
  moreover have "starts_with ''vapi_'' ''vapi_y''" by code_simp
  ultimately show ?thesis
    unfolding resolve_identity_def authenticate_api_token_def
    by (simp add: digests sample_settings_def)
qed

subsection \<open>Properties\<close>



text \<open>
  C14. The two evaluators agree.  For a migrated principal and a permission of the catalogue,
  \<open>can_access_site\<close> (which queries the grants) admits exactly the sites of the organization where
  \<open>effective_permissions\<close> (which collects the permissions) has the permission, and
  \<open>accessible_site_ids\<close> is \<open>None\<close> exactly for an organization-wide permission and otherwise lists
  exactly the sites \<open>can_access_site\<close> admits.
\<close>

theorem site_access_is_permission:
  assumes "access_reachable db" and "\<not> unmigrated p" and "k \<in> set ALL_PERMISSION_KEYS"
  shows "can_access_site db p s (Some k) =
      Inr (site_in db (principal_org p) s \<and>
           k \<in> set (effective_permissions db p (Some GrantScopeType.SITE) (Some s))) \<and>
    (case accessible_site_ids db p (Some k) of
       Inl e \<Rightarrow> False
     | Inr None \<Rightarrow>
         k \<in> set (effective_permissions db p (Some GrantScopeType.ORGANIZATION) (Some (principal_org p)))
     | Inr (Some ids) \<Rightarrow>
         k \<notin> set (effective_permissions db p (Some GrantScopeType.ORGANIZATION) (Some (principal_org p))) \<and>
         (\<forall>i. i \<in> set ids \<longleftrightarrow> can_access_site db p i (Some k) = Inr True))"
  using can_access_site_eq accessible_site_ids_eq reachable_ok assms by blast

theorem site_access_is_permission_witness:
  "can_access_site sample_before (ServiceP sample_service) 9 (Some ''assets.read'') = Inr False"
proof -
  have "''assets.read'' \<in> set ALL_PERMISSION_KEYS" using sample_viewer_key builtin_subset by blast
  moreover have "\<not> site_in sample_before 1 9" by (simp add: site_in_def sample_before_def sample_fields)
  ultimately show ?thesis
    using site_access_is_permission [OF sample_before_reachable, of "ServiceP sample_service" "''assets.read''" 9] by simp
qed

text \<open>
  C3. Changed authorization ends issued credentials.  Whatever requests run between two states, if a
  principal's effective permissions differ between them at any scope, a credential that still
  authenticates as it in the later state (a token, or the session of an access token) did not exist
  in the earlier one.
\<close>

theorem changed_permissions_end_credentials:
  assumes "access_reachable db" and "access_step\<^sup>*\<^sup>* db db'"
    and "resolve_identity st credentials ip allow now db' = Inr (db'', idy)"
    and "p \<in> principals db" and "key_of (id_principal idy) = key_of p"
    and "set (effective_permissions db' (id_principal idy) scope i) \<noteq> set (effective_permissions db p scope i)"
  shows "(case id_api_token idy of None \<Rightarrow> True | Some t \<Rightarrow> tk_id t \<notin> tk_id ` set (ac_tokens db)) \<and>
    (case id_session idy of None \<Rightarrow> True | Some s \<Rightarrow> ue_id s \<notin> ue_id ` set (ac_sessions db))"
  using stale_refused [OF reachable_ok [OF assms(1)] _ _ assms(3-6)] access_steps_evolve [OF assms(2) reachable_ok [OF assms(1)]]
  by (auto split: option.split)

theorem changed_permissions_end_credentials_witness:
  "tk_id (sample_token 6 ''y'' sample_granted) \<notin> tk_id ` set (ac_tokens sample_before)"
proof -
  have "ServiceP sample_service \<in> principals sample_before" by (simp add: principals_def sample_before_def)
  then show ?thesis
    using changed_permissions_end_credentials [OF sample_before_reachable sample_after_steps sample_identified,
        of "ServiceP sample_service" None None] sample_permissions
    by (force simp: key_of_def)
qed

end
