(* ===== verification/Matching.thy ===== *)
theory Matching
  imports Enums PyStrings
begin

text \<open>
  Matching of services with the affected products and versions of a CVE,
  \<^verbatim>\<open>app/intelligence/matching.py\<close>: CPE identifiers, the comparison of version texts, version ranges
  and the confidence of a match.  A row of \<open>cpe_matches_json\<close> is a JSON object.  Texts are ASCII:
  \<open>isdigit\<close> and \<open>isalnum\<close> are the ASCII classes.
\<close>

subsection \<open>CPE identifiers\<close>

record cpe =
  cp_part :: string
  cp_vendor :: string
  cp_product :: string
  cp_version :: string

text \<open>\<open>re.split\<close> at colons that no backslash precedes: the character before, the open field.\<close>

fun split_unescaped :: "bool \<Rightarrow> string \<Rightarrow> string \<Rightarrow> string list" where
  "split_unescaped escaped field [] = [field]"
| "split_unescaped escaped field (c # cs) =
     (if c = CHR '':'' \<and> \<not> escaped then field # split_unescaped False [] cs
      else split_unescaped (c = CHR 0x5C) (field @ [c]) cs)"

definition parse_cpe :: "json \<Rightarrow> cpe option" where
  "parse_cpe criteria =
     (case criteria of
        JStr s \<Rightarrow>
          if starts_with ''cpe:2.3:'' s
          then (let fields = split_on (CHR '':'') s
                in if length fields < 6 then None
                   else Some \<lparr>cp_part = fields ! 2, cp_vendor = lower (fields ! 3),
                              cp_product = lower (fields ! 4), cp_version = lower (fields ! 5)\<rparr>)
          else if starts_with ''cpe:/'' s
          then (let fields = split_unescaped False [] (remove_prefix ''cpe:/'' s)
                in if length fields < 3 then None
                   else Some \<lparr>cp_part = fields ! 0, cp_vendor = lower (fields ! 1),
                              cp_product = lower (fields ! 2),
                              cp_version = lower (if length fields > 3 then fields ! 3 else ''*'')\<rparr>)
          else None
      | _ \<Rightarrow> None)"

definition applies :: "cpe \<Rightarrow> bool" where
  "applies c \<longleftrightarrow> cp_part c = ''a'' \<or> cp_part c = ''o''"

definition cpe_product :: "string option \<Rightarrow> string option" where
  "cpe_product s =
     (case s of
        None \<Rightarrow> None
      | Some s \<Rightarrow>
          (case parse_cpe (JStr s) of
             None \<Rightarrow> None
           | Some c \<Rightarrow> if \<not> applies c then None else if cp_product c = [] then None else Some (cp_product c)))"

definition wildcard :: "string \<Rightarrow> bool" where
  "wildcard s \<longleftrightarrow> s = ''*'' \<or> s = ''-'' \<or> s = []"

definition criteria :: "json \<Rightarrow> json" where
  "criteria m = (case json_get m ''criteria'' of None \<Rightarrow> JStr [] | Some v \<Rightarrow> v)"

definition products_from_cpe_matches :: "json list \<Rightarrow> string list" where
  "products_from_cpe_matches ms =
     remdups (concat (map (\<lambda>m. case m of
        JObj _ \<Rightarrow>
          (case parse_cpe (criteria m) of
             None \<Rightarrow> []
           | Some c \<Rightarrow> if applies c \<and> \<not> wildcard (cp_product c) then [cp_product c] else [])
      | _ \<Rightarrow> []) ms))"

subsection \<open>Versions\<close>

text \<open>A component of a version: a number or a run of letters.\<close>

datatype component = Num nat | Text string

definition flush :: "string \<Rightarrow> bool \<Rightarrow> component list" where
  "flush token digits = (if token = [] then [] else [if digits then Num (digits_value token) else Text token])"

text \<open>The loop of \<open>_version_tuple\<close> with its open token and \<open>is_digit\<close>.\<close>

fun version_parts :: "string \<Rightarrow> bool \<Rightarrow> string \<Rightarrow> component list" where
  "version_parts token digits [] = flush token digits"
| "version_parts token digits (c # cs) =
     (if is_digit c then
        (if token \<noteq> [] \<and> \<not> digits then Text token # version_parts [c] True cs
         else version_parts (token @ [c]) True cs)
      else if is_alnum c then
        (if token \<noteq> [] \<and> digits then Num (digits_value token) # version_parts [c] False cs
         else version_parts (token @ [c]) False cs)
      else flush token digits @ version_parts [] False cs)"

definition version_tuple :: "string \<Rightarrow> component list" where
  "version_tuple v = version_parts [] False v"

text \<open>\<open>str(x)\<close> of a component.\<close>

fun component_str :: "component \<Rightarrow> string" where
  "component_str (Num n) = nat_str n"
| "component_str (Text s) = s"

definition three_way :: "'a :: linorder \<Rightarrow> 'a \<Rightarrow> int" where
  "three_way x y = (if x < y then -1 else if x > y then 1 else 0)"

fun component_cmp :: "component \<Rightarrow> component \<Rightarrow> int" where
  "component_cmp (Num x) (Num y) = three_way x y"
| "component_cmp (Text x) (Text y) = three_way x y"
| "component_cmp x y = three_way (component_str x) (component_str y)"

text \<open>The loop over the zipped components; when they agree, the lengths decide.\<close>

fun cmp_parts :: "component list \<Rightarrow> component list \<Rightarrow> int" where
  "cmp_parts [] [] = 0"
| "cmp_parts [] (y # ys) = -1"
| "cmp_parts (x # xs) [] = 1"
| "cmp_parts (x # xs) (y # ys) = (let d = component_cmp x y in if d \<noteq> 0 then d else cmp_parts xs ys)"

definition version_cmp :: "string \<Rightarrow> string \<Rightarrow> int" where
  "version_cmp a b = cmp_parts (version_tuple a) (version_tuple b)"

subsection \<open>Ranges and confidence\<close>

definition range_checks :: "(string \<times> (int \<Rightarrow> bool)) list" where
  "range_checks =
     [(''versionStartIncluding'', \<lambda>d. d \<ge> 0), (''versionStartExcluding'', \<lambda>d. d > 0),
      (''versionEndIncluding'', \<lambda>d. d \<le> 0), (''versionEndExcluding'', \<lambda>d. d < 0)]"

definition bound_of :: "json \<Rightarrow> string \<Rightarrow> string option" where
  "bound_of m key = (case json_get m key of Some (JStr b) \<Rightarrow> (if b = [] then None else Some b) | _ \<Rightarrow> None)"

text \<open>The loop of \<open>_version_in_range\<close> with \<open>saw_bound\<close>.\<close>

fun range_loop :: "string \<Rightarrow> json \<Rightarrow> bool \<Rightarrow> (string \<times> (int \<Rightarrow> bool)) list \<Rightarrow> bool" where
  "range_loop version m saw [] = saw"
| "range_loop version m saw ((key, ok) # checks) =
     (case bound_of m key of
        None \<Rightarrow> range_loop version m saw checks
      | Some b \<Rightarrow> if ok (version_cmp version b) then range_loop version m True checks else False)"

definition version_in_range :: "string \<Rightarrow> json \<Rightarrow> bool" where
  "version_in_range version m = range_loop version m False range_checks"

definition has_range :: "json \<Rightarrow> bool" where
  "has_range m = list_ex (\<lambda>(key, _). bound_of m key \<noteq> None) range_checks"

definition vulnerable :: "json \<Rightarrow> bool" where
  "vulnerable m = (case json_get m ''vulnerable'' of None \<Rightarrow> True | Some v \<Rightarrow> truthy v)"

text \<open>A service identity that names another part or vendor excludes the row.\<close>

definition other_vendor :: "cpe option \<Rightarrow> cpe \<Rightarrow> bool" where
  "other_vendor identity c =
     (case identity of
        None \<Rightarrow> False
      | Some i \<Rightarrow> cp_part i \<noteq> cp_part c \<or>
          (\<not> wildcard (cp_vendor i) \<and> \<not> wildcard (cp_vendor c) \<and> cp_vendor i \<noteq> cp_vendor c))"

definition same_identity :: "cpe option \<Rightarrow> cpe \<Rightarrow> bool" where
  "same_identity identity c =
     (case identity of
        None \<Rightarrow> False
      | Some i \<Rightarrow> cp_part i = cp_part c \<and> cp_vendor i = cp_vendor c \<and> cp_product i = cp_product c)"

definition version_fits :: "string \<Rightarrow> json \<Rightarrow> cpe \<Rightarrow> bool" where
  "version_fits version m c \<longleftrightarrow>
     (\<not> wildcard (cp_version c) \<and> version_cmp (lower version) (cp_version c) = 0)
     \<or> (has_range m \<and> version_in_range (lower version) m)"

definition row_confidence :: "string option \<Rightarrow> cpe option \<Rightarrow> json \<Rightarrow> cpe \<Rightarrow> MatchConfidence option" where
  "row_confidence version identity m c =
     (let confirmed = (case version of None \<Rightarrow> False | Some v \<Rightarrow> v \<noteq> [] \<and> version_fits v m c)
      in if confirmed then Some (if same_identity identity c then MatchConfidence.HIGH else MatchConfidence.MEDIUM)
         else if wildcard (cp_version c) \<and> \<not> has_range m then Some MatchConfidence.LOW
         else None)"

fun rank :: "MatchConfidence \<Rightarrow> nat" where
  "rank MatchConfidence.LOW = 1"
| "rank MatchConfidence.MEDIUM = 2"
| "rank MatchConfidence.HIGH = 3"

definition row_match :: "string \<Rightarrow> string option \<Rightarrow> cpe option \<Rightarrow> json \<Rightarrow> MatchConfidence option" where
  "row_match product version identity m =
     (if \<not> vulnerable m then None
      else case parse_cpe (criteria m) of
             None \<Rightarrow> None
           | Some c \<Rightarrow>
               if \<not> applies c \<or> cp_product c \<noteq> lower product \<or> other_vendor identity c then None
               else row_confidence version identity m c)"

definition better :: "MatchConfidence option \<Rightarrow> MatchConfidence option \<Rightarrow> MatchConfidence option" where
  "better confidence best =
     (case (confidence, best) of
        (None, _) \<Rightarrow> best
      | (Some c, None) \<Rightarrow> Some c
      | (Some c, Some b) \<Rightarrow> if rank c > rank b then Some c else Some b)"

definition match_confidence ::
  "json list \<Rightarrow> string option \<Rightarrow> string option \<Rightarrow> string option \<Rightarrow> MatchConfidence option" where
  "match_confidence ms product version service_cpe =
     (case product of
        None \<Rightarrow> None
      | Some p \<Rightarrow>
          if p = [] then None
          else
            (let identity = (case service_cpe of None \<Rightarrow> None | Some s \<Rightarrow> if s = [] then None else parse_cpe (JStr s))
             in fold (\<lambda>m. better (row_match p version identity m)) ms None))"

subsection \<open>The order of versions\<close>

instantiation component :: linorder
begin

fun less_component :: "component \<Rightarrow> component \<Rightarrow> bool" where
  "less_component (Num x) (Num y) \<longleftrightarrow> x < y"
| "less_component (Num x) (Text y) \<longleftrightarrow> True"
| "less_component (Text x) (Num y) \<longleftrightarrow> False"
| "less_component (Text x) (Text y) \<longleftrightarrow> x < y"

definition less_eq_component :: "component \<Rightarrow> component \<Rightarrow> bool" where
  "less_eq_component x y \<longleftrightarrow> x < y \<or> x = y"

instance
proof
  fix x y z :: component
  show "x < y \<longleftrightarrow> x \<le> y \<and> \<not> y \<le> x" by (cases x; cases y) (auto simp: less_eq_component_def)
  show "x \<le> x" by (simp add: less_eq_component_def)
  show "x \<le> z" if "x \<le> y" "y \<le> z" using that by (cases x; cases y; cases z) (auto simp: less_eq_component_def)
  show "x = y" if "x \<le> y" "y \<le> x" using that by (cases x; cases y) (auto simp: less_eq_component_def)
  show "x \<le> y \<or> y \<le> x" by (cases x; cases y) (auto simp: less_eq_component_def)
qed

end

text \<open>A run of letters: what the loop collects beside numbers.\<close>

definition letters :: "string \<Rightarrow> bool" where
  "letters s \<longleftrightarrow> s \<noteq> [] \<and> list_all (\<lambda>c. is_alnum c \<and> \<not> is_digit c) s"

fun component_ok :: "component \<Rightarrow> bool" where
  "component_ok (Num n) = True"
| "component_ok (Text s) = letters s"

lemma version_parts_ok:
  assumes "digits \<or> token = [] \<or> letters token"
  shows "list_all component_ok (version_parts token digits cs)"
  using assms
  by (induction token digits cs rule: version_parts.induct) (auto simp: flush_def letters_def)

lemma version_tuple_ok: "list_all component_ok (version_tuple v)"
  unfolding version_tuple_def by (rule version_parts_ok) simp

lemma hd_nat_str: "\<exists>c cs. nat_str n = c # cs \<and> is_digit c"
proof -
  have "nat_str n \<noteq> []" and "list_all is_digit (nat_str n)" using nat_str_nonempty nat_str_digits by (auto simp: list_all_iff)
  then show ?thesis by (cases "nat_str n") auto
qed

lemma digit_before_letter: "is_digit c \<Longrightarrow> is_alnum d \<Longrightarrow> \<not> is_digit d \<Longrightarrow> c < d"
  by (auto simp: is_alnum_def is_digit_def is_upper_def is_lower_def code_def less_char_def)

lemma number_before_letters: "letters s \<Longrightarrow> nat_str n < s"
  using hd_nat_str [of n] digit_before_letter by (cases s) (auto simp: letters_def)

lemma component_cmp_order:
  "component_ok x \<Longrightarrow> component_ok y \<Longrightarrow> component_cmp x y = three_way x y"
  by (cases x; cases y) (auto simp: three_way_def number_before_letters dest: number_before_letters less_not_sym)

lemma cmp_parts_order:
  "list_all component_ok xs \<Longrightarrow> list_all component_ok ys \<Longrightarrow> cmp_parts xs ys = three_way xs ys"
  by (induction xs ys rule: cmp_parts.induct) (auto simp: Let_def component_cmp_order three_way_def)

lemma version_cmp_order: "version_cmp a b = three_way (version_tuple a) (version_tuple b)"
  unfolding version_cmp_def by (rule cmp_parts_order) (rule version_tuple_ok)+

lemma three_way_signs [simp]:
  "three_way x y = 0 \<longleftrightarrow> x = y" "three_way x y < 0 \<longleftrightarrow> x < y" "three_way x y > 0 \<longleftrightarrow> x > y"
  "three_way x y \<le> 0 \<longleftrightarrow> x \<le> y" "three_way x y \<ge> 0 \<longleftrightarrow> x \<ge> y"
  by (auto simp: three_way_def)

subsection \<open>Ranges\<close>

definition bounds_met :: "string \<Rightarrow> json \<Rightarrow> bool" where
  "bounds_met version m \<longleftrightarrow>
     given (\<lambda>b. version_tuple b \<le> version_tuple version) (bound_of m ''versionStartIncluding'') \<and>
     given (\<lambda>b. version_tuple b < version_tuple version) (bound_of m ''versionStartExcluding'') \<and>
     given (\<lambda>b. version_tuple version \<le> version_tuple b) (bound_of m ''versionEndIncluding'') \<and>
     given (\<lambda>b. version_tuple version < version_tuple b) (bound_of m ''versionEndExcluding'')"

lemma version_in_range_iff: "version_in_range version m \<longleftrightarrow> has_range m \<and> bounds_met version m"
  unfolding version_in_range_def bounds_met_def has_range_def range_checks_def
  by (cases "bound_of m ''versionStartIncluding''"; cases "bound_of m ''versionStartExcluding''";
      cases "bound_of m ''versionEndIncluding''"; cases "bound_of m ''versionEndExcluding''")
    (auto simp: version_cmp_order)

lemma version_fits_iff:
  "version_fits version m c \<longleftrightarrow>
     (\<not> wildcard (cp_version c) \<and> version_tuple (lower version) = version_tuple (cp_version c)) \<or>
     (has_range m \<and> bounds_met (lower version) m)"
  by (auto simp: version_fits_def version_in_range_iff version_cmp_order)

subsection \<open>The best row\<close>

definition match_rank :: "MatchConfidence option \<Rightarrow> nat" where
  "match_rank c = (case c of None \<Rightarrow> 0 | Some y \<Rightarrow> rank y)"

lemma rank_pos [simp]: "0 < rank c"
  by (cases c) auto

lemma rank_inject [simp]: "rank c = rank d \<longleftrightarrow> c = d"
  by (cases c; cases d) auto

lemma match_rank_inject: "match_rank c = match_rank d \<longleftrightarrow> c = d"
  by (cases c; cases d) (auto simp: match_rank_def)

lemma better_props:
  "match_rank b \<le> match_rank (better c b)" "match_rank c \<le> match_rank (better c b)" "better c b = b \<or> better c b = c"
  by (auto simp: match_rank_def better_def split: option.splits)

lemma fold_better_best:
  "match_rank b \<le> match_rank (fold (\<lambda>m. better (f m)) ms b) \<and>
   (\<forall>m \<in> set ms. match_rank (f m) \<le> match_rank (fold (\<lambda>m. better (f m)) ms b)) \<and>
   (fold (\<lambda>m. better (f m)) ms b = b \<or> (\<exists>m \<in> set ms. fold (\<lambda>m. better (f m)) ms b = f m))"
proof (induction ms arbitrary: b)
  case (Cons m ms)
  show ?case using Cons.IH [of "better (f m) b"] better_props [where b = b and c = "f m"]
    by (simp, metis order_trans)
qed simp

lemma fold_better_None:
  "fold (\<lambda>m. better (f m)) ms None = Some c \<longleftrightarrow>
     (\<exists>m \<in> set ms. f m = Some c) \<and> (\<forall>m \<in> set ms. match_rank (f m) \<le> rank c)" (is "?l \<longleftrightarrow> ?r")
proof
  note best = fold_better_best [of None f ms]
  show ?r if ?l using best that by (auto simp: match_rank_def)
  show ?l if r: ?r
  proof -
    obtain m where m: "m \<in> set ms" "f m = Some c" using r by blast
    then have "rank c \<le> match_rank (fold (\<lambda>m. better (f m)) ms None)" using best by (metis match_rank_def option.simps(5))
    moreover have "match_rank (fold (\<lambda>m. better (f m)) ms None) \<le> rank c"
      using best r by (auto simp: match_rank_def)
    ultimately have "match_rank (fold (\<lambda>m. better (f m)) ms None) = match_rank (Some c)" by (simp add: match_rank_def)
    then show ?thesis by (simp only: match_rank_inject)
  qed
qed

end
