(* ===== verification/FindingStore.thy ===== *)
theory FindingStore
  imports Enums PyStrings
begin

text \<open>
  The tables of the findings inventory, \<^verbatim>\<open>app/models/finding.py\<close>, \<^verbatim>\<open>risk.py\<close>, \<^verbatim>\<open>sla.py\<close>,
  \<^verbatim>\<open>risk_acceptance.py\<close>, \<^verbatim>\<open>cve.py\<close> and what the services read of assets and services.  A table is
  the list of its rows in the order they were added.  New identifiers come from the counter
  \<open>fd_next\<close> (a \<open>uuid4\<close> that no row has).  Floats are rational numbers.
\<close>

subsection \<open>Enumerations of the decisions and remediation units\<close>

datatype FindingDecisionType = FALSE_POSITIVE | DUPLICATE | SUPPRESSION

datatype FindingDecisionStatus = ACTIVE | EXPIRED | REVOKED

datatype RemediationKeyType = CVE | PACKAGE | PRODUCT | REMEDIATION | MANUAL

datatype RemediationUnitStatus = OPEN | IN_PROGRESS | READY_FOR_VERIFICATION | RESOLVED

datatype RemediationSuggestionStatus = PENDING | ACCEPTED | REJECTED

datatype RemediationClassification = PATCH | CONFIGURATION | UPGRADE | COMPENSATING_CONTROL | REMOVE | INVESTIGATE

subsection \<open>Rows\<close>

record finding_row =
  fi_id :: uuid
  fi_organization_id :: uuid
  fi_site_id :: uuid
  fi_asset_id :: "uuid option"
  fi_service_id :: "uuid option"
  fi_scan_job_id :: "uuid option"
  fi_scanner_name :: string
  fi_scanner_finding_id :: "string option"
  fi_canonical_key :: string
  fi_finding_type :: FindingType
  fi_title :: string
  fi_description :: "string option"
  fi_severity :: Severity
  fi_cvss_score :: "rat option"
  fi_cvss_vector :: "string option"
  fi_cve_ids :: "string list"
  fi_cwe_ids :: "string list"
  fi_confidence :: int
  fi_known_exploited :: bool
  fi_epss_score :: "rat option"
  fi_epss_percentile :: "rat option"
  fi_validation_status :: ValidationStatus
  fi_evidence :: json
  fi_remediation :: "string option"
  fi_references :: "string list"
  fi_status :: FindingStatus
  fi_owner_user_id :: "uuid option"
  fi_due_at :: "time option"
  fi_current_sla :: "uuid option"
  fi_sla_started_at :: "time option"
  fi_sla_paused_at :: "time option"
  fi_sla_completed_at :: "time option"
  fi_risk_acceptance_id :: "uuid option"
  fi_false_positive_reason :: "string option"
  fi_first_seen_at :: "time option"
  fi_last_seen_at :: "time option"
  fi_last_verified_at :: "time option"
  fi_resolved_at :: "time option"
  fi_reopened_count :: int
  fi_current_score :: "uuid option"
  fi_risk_score :: "rat option"
  fi_risk_profile_version :: "int option"
  fi_risk_input_hash :: "string option"
  fi_risk_scored_at :: "time option"
  fi_created_at :: time

record change_event =
  ce_organization_id :: uuid
  ce_site_id :: uuid
  ce_asset_id :: "uuid option"
  ce_scan_job_id :: "uuid option"
  ce_event_type :: ChangeEventType
  ce_severity :: string
  ce_summary :: string

text \<open>What the services of this part read of an asset, its addresses and its services.\<close>

record asset_row =
  ax_id :: uuid
  ax_organization_id :: uuid
  ax_site_id :: uuid
  ax_internet_exposed :: bool
  ax_criticality :: AssetCriticality
  ax_identifiers :: "(IdentifierType \<times> string) list"

record service_row =
  sr_id :: uuid
  sr_asset_id :: uuid
  sr_transport :: ServiceTransport
  sr_port :: int
  sr_product :: "string option"

record risk_profile =
  rp_id :: uuid
  rp_organization_id :: uuid
  rp_name :: string
  rp_version :: int
  rp_description :: "string option"
  rp_weights :: "(string \<times> rat) list"
  rp_is_default :: bool

text \<open>\<open>FindingScoreSnapshot\<close>; a factor of the explanation is its own row.\<close>

record factor =
  fa_factor :: string
  fa_source_value :: json
  fa_normalized_value :: rat
  fa_weight :: rat
  fa_contribution :: rat

record score_snapshot =
  ss_id :: uuid
  ss_organization_id :: uuid
  ss_finding_id :: uuid
  ss_profile_id :: uuid
  ss_profile_version :: int
  ss_score :: rat
  ss_weighted_sum :: rat
  ss_positive_maximum :: rat
  ss_source_values :: "(string \<times> json) list"
  ss_factors :: "factor list"
  ss_input_hash :: string

record sla_policy =
  sp_id :: uuid
  sp_organization_id :: uuid
  sp_name :: string
  sp_description :: "string option"
  sp_priority :: int
  sp_enabled :: bool
  sp_match :: "(string \<times> json) list"
  sp_due_days :: "(string \<times> json) list"
  sp_pause :: bool

record sla_calculation =
  sk_id :: uuid
  sk_organization_id :: uuid
  sk_finding_id :: uuid
  sk_policy_id :: "uuid option"
  sk_previous_id :: "uuid option"
  sk_source :: SlaCalculationSource
  sk_started_at :: time
  sk_due_at :: time
  sk_created_by :: "uuid option"

record sla_exception =
  sx_id :: uuid
  sx_organization_id :: uuid
  sx_finding_id :: uuid
  sx_requested_due_at :: time
  sx_reason :: string
  sx_status :: SlaExceptionStatus
  sx_requested_by :: "uuid option"
  sx_reviewed_by :: "uuid option"
  sx_reviewed_at :: "time option"
  sx_review_notes :: "string option"
  sx_resulting_id :: "uuid option"

record sla_history =
  sh_organization_id :: uuid
  sh_finding_id :: uuid
  sh_event :: SlaHistoryEvent
  sh_actor :: "uuid option"

record risk_acceptance =
  ra_id :: uuid
  ra_organization_id :: uuid
  ra_finding_id :: uuid
  ra_requested_by :: "uuid option"
  ra_approved_by :: "uuid option"
  ra_reason :: string
  ra_compensating_controls :: "string option"
  ra_starts_at :: time
  ra_expires_at :: time
  ra_status :: RiskAcceptanceStatus
  ra_review_notes :: "string option"

record finding_decision =
  de_id :: uuid
  de_organization_id :: uuid
  de_finding_id :: uuid
  de_type :: FindingDecisionType
  de_status :: FindingDecisionStatus
  de_reason :: string
  de_evidence :: "json list"
  de_expires_at :: time
  de_duplicate_of :: "uuid option"
  de_previous_status :: FindingStatus
  de_created_by :: uuid
  de_revoked_by :: "uuid option"
  de_revoked_at :: "time option"

record cve_record =
  cv_id :: string
  cv_published_at :: "time option"
  cv_modified_at :: "time option"
  cv_description :: "string option"
  cv_cvss_v2 :: json
  cv_cvss_v3 :: json
  cv_cvss_v4 :: json
  cv_cwe_ids :: "string list"
  cv_cpe_matches :: "json list"
  cv_references :: "string list"
  cv_rejected :: bool

record enrichment =
  en_cve_id :: string
  en_is_kev :: bool
  en_kev_date_added :: "string option"
  en_kev_due_date :: "string option"
  en_kev_required_action :: "string option"
  en_known_ransomware_use :: bool
  en_epss_score :: "rat option"
  en_epss_percentile :: "rat option"
  en_previous_epss_score :: "rat option"

record remediation_guidance =
  gd_finding_id :: uuid
  gd_classification :: RemediationClassification
  gd_summary :: string
  gd_steps :: "(string \<times> string) list"
  gd_validation_steps :: "(string \<times> string) list"
  gd_references :: "string list"
  gd_source :: string

subsection \<open>The store\<close>

record finding_db =
  fd_next :: uuid
  fd_findings :: "finding_row list"
  fd_assets :: "asset_row list"
  fd_services :: "service_row list"
  fd_events :: "change_event list"
  fd_profiles :: "risk_profile list"
  fd_snapshots :: "score_snapshot list"
  fd_policies :: "sla_policy list"
  fd_calculations :: "sla_calculation list"
  fd_exceptions :: "sla_exception list"
  fd_history :: "sla_history list"
  fd_acceptances :: "risk_acceptance list"
  fd_decisions :: "finding_decision list"
  fd_guidance :: "remediation_guidance list"
  fd_cves :: "cve_record list"
  fd_product_index :: "(string \<times> string) list"
  fd_enrichments :: "enrichment list"

text \<open>An identifier that no row has.\<close>

definition draw :: "finding_db \<Rightarrow> uuid \<times> finding_db" where
  "draw db = (fd_next db, db\<lparr>fd_next := fd_next db + 1\<rparr>)"

definition the_finding :: "finding_db \<Rightarrow> uuid \<Rightarrow> finding_row option" where
  "the_finding db i = find (\<lambda>f. fi_id f = i) (fd_findings db)"

definition on_finding :: "uuid \<Rightarrow> (finding_row \<Rightarrow> finding_row) \<Rightarrow> finding_db \<Rightarrow> finding_db" where
  "on_finding i g db = db\<lparr>fd_findings := update_where (\<lambda>f. fi_id f = i) g (fd_findings db)\<rparr>"

definition the_calculation :: "finding_db \<Rightarrow> uuid \<Rightarrow> sla_calculation option" where
  "the_calculation db i = find (\<lambda>c. sk_id c = i) (fd_calculations db)"

definition emit :: "change_event \<Rightarrow> finding_db \<Rightarrow> finding_db" where
  "emit e db = db\<lparr>fd_events := fd_events db @ [e]\<rparr>"

text \<open>\<open>_emit\<close> of \<^verbatim>\<open>services/remediation.py\<close>: an event about a finding.\<close>

definition finding_event :: "finding_row \<Rightarrow> ChangeEventType \<Rightarrow> string \<Rightarrow> string \<Rightarrow> change_event" where
  "finding_event f kind summary severity =
     \<lparr>ce_organization_id = fi_organization_id f, ce_site_id = fi_site_id f, ce_asset_id = fi_asset_id f,
      ce_scan_job_id = fi_scan_job_id f, ce_event_type = kind, ce_severity = severity, ce_summary = summary\<rparr>"

end
