(* ===== verification/Correlation.thy ===== *)
theory Correlation
  imports Matching FindingStore
begin

text \<open>
  From CVE records to candidate findings: the NVD parser \<^verbatim>\<open>app/intelligence/nvd.py\<close> on a decoded
  document, and the correlation of discovered services in \<^verbatim>\<open>app/services/cve_correlation.py\<close>.
  \<open>datetime.fromisoformat\<close> is the argument \<open>from_iso\<close>.
\<close>

subsection \<open>The NVD document\<close>

record cve_data =
  cd_cve_id :: string
  cd_published_at :: "time option"
  cd_modified_at :: "time option"
  cd_description :: "string option"
  cd_cvss_v2 :: json
  cd_cvss_v3 :: json
  cd_cvss_v4 :: json
  cd_cwe_ids :: "string list"
  cd_cpe_matches :: "json list"
  cd_references :: "string list"
  cd_rejected :: bool

text \<open>\<open>_as_dict(value).get(key)\<close> and \<open>_as_list(value)\<close>.\<close>

definition field_of :: "json \<Rightarrow> string \<Rightarrow> json" where
  "field_of v k = (case json_get v k of None \<Rightarrow> JNull | Some w \<Rightarrow> w)"

definition as_list :: "json \<Rightarrow> json list" where
  "as_list v = (case v of JList xs \<Rightarrow> xs | _ \<Rightarrow> [])"

definition as_str :: "json \<Rightarrow> string option" where
  "as_str v = (case v of JStr s \<Rightarrow> Some s | _ \<Rightarrow> None)"

definition parse_ts :: "(string \<Rightarrow> time option) \<Rightarrow> json \<Rightarrow> time option" where
  "parse_ts from_iso v =
     (case as_str v of
        None \<Rightarrow> None
      | Some s \<Rightarrow> if s = [] then None else from_iso (concat (map (\<lambda>c. if c = CHR ''Z'' then ''+00:00'' else [c]) s)))"

fun first_text :: "json list \<Rightarrow> string option" where
  "first_text [] = None"
| "first_text (v # vs) = (case v of JStr s \<Rightarrow> Some s | _ \<Rightarrow> first_text vs)"

definition english_description :: "json list \<Rightarrow> string option" where
  "english_description ds =
     or_opt (first_text (map (\<lambda>d. field_of d ''value'') (filter (\<lambda>d. field_of d ''lang'' = JStr ''en'') ds)))
            (first_text (map (\<lambda>d. field_of d ''value'') ds))"

definition nonempty_object :: "json \<Rightarrow> bool" where
  "nonempty_object v = (case v of JObj (kv # kvs) \<Rightarrow> True | _ \<Rightarrow> False)"

definition first_cvss_data :: "json list \<Rightarrow> json" where
  "first_cvss_data ms =
     (let usable = filter (\<lambda>m. nonempty_object (field_of m ''cvssData'')) ms;
          primary = filter (\<lambda>m. field_of m ''type'' = JStr ''Primary'') usable
      in case primary @ usable of [] \<Rightarrow> JNull | m # _ \<Rightarrow> field_of m ''cvssData'')"

definition cwe_ids :: "json list \<Rightarrow> string list" where
  "cwe_ids ws =
     first_occurrences (filter (starts_with ''CWE-'')
       (List.map_filter (\<lambda>d. as_str (field_of d ''value''))
         (concat (map (\<lambda>w. as_list (field_of w ''description'')) ws))))"

definition BOUND_KEYS :: "string list" where
  "BOUND_KEYS = [''versionStartIncluding'', ''versionStartExcluding'', ''versionEndIncluding'', ''versionEndExcluding'']"

definition cpe_match_row :: "json \<Rightarrow> json option" where
  "cpe_match_row cm =
     (case field_of cm ''criteria'' of
        JStr s \<Rightarrow>
          Some (JObj ([(''criteria'', JStr s),
            (''vulnerable'', JBool (case json_get cm ''vulnerable'' of None \<Rightarrow> True | Some v \<Rightarrow> truthy v))] @
            map (\<lambda>k. (k, field_of cm k)) BOUND_KEYS))
      | _ \<Rightarrow> None)"

definition cpe_matches :: "json list \<Rightarrow> json list" where
  "cpe_matches cfgs =
     List.map_filter cpe_match_row
       (concat (map (\<lambda>node. as_list (field_of node ''cpeMatch''))
         (concat (map (\<lambda>cfg. as_list (field_of cfg ''nodes'')) cfgs))))"

definition reference_urls :: "json list \<Rightarrow> string list" where
  "reference_urls rs = first_occurrences (List.map_filter (\<lambda>r. as_str (field_of r ''url'')) rs)"

definition parse_cve :: "(string \<Rightarrow> time option) \<Rightarrow> json \<Rightarrow> cve_data option" where
  "parse_cve from_iso item =
     (let cve = field_of item ''cve''; metrics = field_of cve ''metrics''
      in case field_of cve ''id'' of
           JStr i \<Rightarrow>
             if i = [] then None
             else Some
               \<lparr>cd_cve_id = i, cd_published_at = parse_ts from_iso (field_of cve ''published''),
                cd_modified_at = parse_ts from_iso (field_of cve ''lastModified''),
                cd_description = english_description (as_list (field_of cve ''descriptions'')),
                cd_cvss_v2 = first_cvss_data (as_list (field_of metrics ''cvssMetricV2'')),
                cd_cvss_v3 = first_cvss_data
                  (if as_list (field_of metrics ''cvssMetricV31'') \<noteq> [] then as_list (field_of metrics ''cvssMetricV31'')
                   else as_list (field_of metrics ''cvssMetricV30'')),
                cd_cvss_v4 = first_cvss_data (as_list (field_of metrics ''cvssMetricV40'')),
                cd_cwe_ids = cwe_ids (as_list (field_of cve ''weaknesses'')),
                cd_cpe_matches = cpe_matches (as_list (field_of cve ''configurations'')),
                cd_references = reference_urls (as_list (field_of cve ''references'')),
                cd_rejected = (field_of cve ''vulnStatus'' = JStr ''Rejected'')\<rparr>
         | _ \<Rightarrow> None)"

definition parse_nvd :: "(string \<Rightarrow> time option) \<Rightarrow> json \<Rightarrow> cve_data list" where
  "parse_nvd from_iso doc = List.map_filter (parse_cve from_iso) (as_list (field_of doc ''vulnerabilities''))"

text \<open>\<open>isinstance(score, int | float)\<close> holds for a Boolean too.\<close>

definition cvss_base_score :: "json \<Rightarrow> rat option" where
  "cvss_base_score cvss =
     (case field_of cvss ''baseScore'' of
        JInt i \<Rightarrow> Some (of_int i) | JFloat q \<Rightarrow> Some q | JBool b \<Rightarrow> Some (if b then 1 else 0) | _ \<Rightarrow> None)"

definition cvss_vector :: "json \<Rightarrow> string option" where
  "cvss_vector cvss = as_str (field_of cvss ''vectorString'')"

subsection \<open>Discovered services and candidate findings\<close>

record parsed_service =
  ps_transport :: ServiceTransport
  ps_port :: int
  ps_product :: "string option"
  ps_version :: "string option"
  ps_cpe :: "string option"

record parsed_host =
  ph_ip :: "string option"
  ph_services :: "parsed_service list"

record parsed_finding =
  pf_scanner :: string
  pf_weakness_key :: string
  pf_finding_type :: FindingType
  pf_title :: string
  pf_severity :: Severity
  pf_target_ip :: "string option"
  pf_port :: "int option"
  pf_transport :: ServiceTransport
  pf_description :: "string option"
  pf_cvss_score :: "rat option"
  pf_cvss_vector :: "string option"
  pf_confidence :: int
  pf_cve_ids :: "string list"
  pf_cwe_ids :: "string list"
  pf_references :: "string list"
  pf_remediation :: "string option"
  pf_evidence :: json
  pf_scanner_finding_id :: "string option"

fun CONFIDENCE_SCORE :: "MatchConfidence \<Rightarrow> int" where
  "CONFIDENCE_SCORE MatchConfidence.HIGH = 90"
| "CONFIDENCE_SCORE MatchConfidence.MEDIUM = 60"
| "CONFIDENCE_SCORE MatchConfidence.LOW = 30"

definition EMITTED :: "MatchConfidence list" where
  "EMITTED = [MatchConfidence.MEDIUM, MatchConfidence.HIGH]"

definition lookup_cves_by_product :: "finding_db \<Rightarrow> string \<Rightarrow> cve_record list" where
  "lookup_cves_by_product db product =
     (let ids = map snd (filter (\<lambda>(p, _). p = lower product) (fd_product_index db))
      in filter (\<lambda>c. cv_id c \<in> set ids \<and> \<not> cv_rejected c) (fd_cves db))"

definition severity_from_score :: "rat option \<Rightarrow> Severity" where
  "severity_from_score score =
     (case score of
        None \<Rightarrow> Severity.INFO
      | Some s \<Rightarrow>
          if s \<ge> 9 then Severity.CRITICAL else if s \<ge> 7 then Severity.HIGH else if s \<ge> 4 then Severity.MEDIUM
          else if s > 0 then Severity.LOW else Severity.INFO)"

fun best_of :: "json list \<Rightarrow> rat option \<times> string option" where
  "best_of [] = (None, None)"
| "best_of (c # cs) = (case cvss_base_score c of None \<Rightarrow> best_of cs | Some s \<Rightarrow> (Some s, cvss_vector c))"

definition best_cvss :: "cve_record \<Rightarrow> rat option \<times> string option" where
  "best_cvss cve = best_of [cv_cvss_v3 cve, cv_cvss_v4 cve, cv_cvss_v2 cve]"

definition update_advice :: "string \<Rightarrow> string \<Rightarrow> string \<Rightarrow> string" where
  "update_advice cve product version =
     ''Update '' @ product @ '' to a release that is not affected by '' @ cve @
     (if version = [] then [] else '' (the running version is '' @ version @ '')'') @
     ''. Review the linked advisories for the fixed version and any interim mitigations.''"

definition finding_from_cve :: "cve_record \<Rightarrow> parsed_host \<Rightarrow> parsed_service \<Rightarrow> MatchConfidence \<Rightarrow> parsed_finding" where
  "finding_from_cve cve host svc confidence =
     (let (score, vector) = best_cvss cve; version = or_else (ps_version svc) []; product = or_else (ps_product svc) []
      in \<lparr>pf_scanner = ''cve-correlation'', pf_weakness_key = cv_id cve, pf_finding_type = FindingType.VULNERABILITY,
          pf_title = strip (cv_id cve @ '' affects '' @ product @ '' '' @ version),
          pf_severity = severity_from_score score, pf_target_ip = ph_ip host, pf_port = Some (ps_port svc),
          pf_transport = ps_transport svc, pf_description = cv_description cve, pf_cvss_score = score,
          pf_cvss_vector = vector, pf_confidence = CONFIDENCE_SCORE confidence, pf_cve_ids = [cv_id cve],
          pf_cwe_ids = cv_cwe_ids cve, pf_references = cv_references cve,
          pf_remediation = Some (update_advice (cv_id cve) product version),
          pf_evidence = JObj [(''matched_product'', JStr product), (''matched_version'', JStr version),
            (''match_confidence'', JStr (match_confidence_value confidence)),
            (''source'', JStr ''version-based CVE correlation'')],
          pf_scanner_finding_id = None\<rparr>)"

text \<open>\<open>cpe_product(svc.cpe) or svc.product\<close>, absent when empty.\<close>

definition service_product :: "parsed_service \<Rightarrow> string option" where
  "service_product svc =
     (case or_opt (cpe_product (ps_cpe svc)) (ps_product svc) of
        None \<Rightarrow> None | Some p \<Rightarrow> if p = [] then None else Some p)"

definition correlate_service :: "finding_db \<Rightarrow> parsed_host \<Rightarrow> parsed_service \<Rightarrow> parsed_finding list" where
  "correlate_service db host svc =
     (case service_product svc of
        None \<Rightarrow> []
      | Some product \<Rightarrow>
          List.map_filter (\<lambda>cve.
            case match_confidence (cv_cpe_matches cve) (Some product) (ps_version svc) (ps_cpe svc) of
              None \<Rightarrow> None
            | Some c \<Rightarrow> if c \<in> set EMITTED then Some (finding_from_cve cve host svc c) else None)
            (lookup_cves_by_product db (lower product)))"

text \<open>The cache of \<open>correlate_hosts\<close> holds what the lookup returns; the tables do not change meanwhile.\<close>

definition correlate_hosts :: "finding_db \<Rightarrow> parsed_host list \<Rightarrow> parsed_finding list" where
  "correlate_hosts db hosts =
     concat (map (\<lambda>host. if ph_ip host = None \<or> ph_ip host = Some [] then []
                         else concat (map (correlate_service db host) (ph_services host))) hosts)"

subsection \<open>Which CVEs are reported\<close>

text \<open>A row of a CVE that applies to the service and whose versions contain the running one.\<close>

definition exact_version :: "string \<Rightarrow> cpe \<Rightarrow> bool" where
  "exact_version v c \<longleftrightarrow> \<not> wildcard (cp_version c) \<and> version_tuple (lower v) = version_tuple (cp_version c)"

definition affected_row :: "string \<Rightarrow> string option \<Rightarrow> cpe option \<Rightarrow> json \<Rightarrow> bool" where
  "affected_row product version identity m \<longleftrightarrow>
     vulnerable m \<and>
     (case (parse_cpe (criteria m), version) of
        (Some c, Some v) \<Rightarrow>
          applies c \<and> cp_product c = lower product \<and> \<not> other_vendor identity c \<and> v \<noteq> [] \<and>
          (exact_version v c \<or> (has_range m \<and> bounds_met (lower v) m))
      | _ \<Rightarrow> False)"

definition service_identity :: "parsed_service \<Rightarrow> cpe option" where
  "service_identity svc = (case ps_cpe svc of None \<Rightarrow> None | Some s \<Rightarrow> if s = [] then None else parse_cpe (JStr s))"

lemma row_match_confirmed:
  "2 \<le> match_rank (row_match product version identity m) \<longleftrightarrow> affected_row product version identity m"
  by (auto simp: row_match_def row_confidence_def affected_row_def exact_version_def version_fits_iff match_rank_def Let_def
      split: option.splits)

lemma best_confirmed:
  "2 \<le> match_rank (fold (\<lambda>m. better (f m)) ms None) \<longleftrightarrow> (\<exists>m \<in> set ms. 2 \<le> match_rank (f m))"
  using fold_better_best [of None f ms] by (auto simp: match_rank_def [of None] intro: order_trans)

lemma EMITTED_rank: "(\<exists>c. m = Some c \<and> c \<in> set EMITTED) \<longleftrightarrow> 2 \<le> match_rank m"
proof (cases m)
  case (Some c)
  then show ?thesis by (cases c) (simp_all add: EMITTED_def match_rank_def)
qed (simp add: match_rank_def)

lemma match_confidence_confirmed:
  assumes "product \<noteq> []"
  shows "2 \<le> match_rank (match_confidence ms (Some product) (ps_version svc) (ps_cpe svc)) \<longleftrightarrow>
    (\<exists>m \<in> set ms. affected_row product (ps_version svc) (service_identity svc) m)"
  using assms best_confirmed [of "row_match product (ps_version svc) (service_identity svc)" ms]
  by (simp add: match_confidence_def service_identity_def row_match_confirmed Let_def)

lemma service_product_nonempty: "service_product svc = Some p \<Longrightarrow> p \<noteq> []"
  by (auto simp: service_product_def split: option.splits if_splits)

lemma lookup_member:
  "cve \<in> set (lookup_cves_by_product db product) \<longleftrightarrow>
     cve \<in> set (fd_cves db) \<and> \<not> cv_rejected cve \<and> (lower product, cv_id cve) \<in> set (fd_product_index db)"
  by (force simp: lookup_cves_by_product_def Let_def)

lemma correlate_service_member:
  assumes p: "service_product svc = Some product"
  shows "pf \<in> set (correlate_service db host svc) \<longleftrightarrow>
    (\<exists>cve c. cve \<in> set (lookup_cves_by_product db (lower product)) \<and>
       match_confidence (cv_cpe_matches cve) (Some product) (ps_version svc) (ps_cpe svc) = Some c \<and>
       c \<in> set EMITTED \<and> pf = finding_from_cve cve host svc c)"
  by (auto simp: correlate_service_def p List.map_filter_def image_iff split: option.splits if_splits)

lemma finding_from_cve_key: "pf_weakness_key (finding_from_cve cve host svc c) = cv_id cve"
  by (simp add: finding_from_cve_def Let_def split: prod.splits)

lemma reported_iff:
  assumes p: "service_product svc = Some product"
  shows "i \<in> pf_weakness_key ` set (correlate_service db host svc) \<longleftrightarrow>
    (\<exists>cve \<in> set (fd_cves db). cv_id cve = i \<and> \<not> cv_rejected cve \<and>
       (lower product, i) \<in> set (fd_product_index db) \<and>
       (\<exists>m \<in> set (cv_cpe_matches cve). affected_row product (ps_version svc) (service_identity svc) m))"
proof -
  have "i \<in> pf_weakness_key ` set (correlate_service db host svc) \<longleftrightarrow>
    (\<exists>cve \<in> set (lookup_cves_by_product db (lower product)). cv_id cve = i \<and>
       (\<exists>c. match_confidence (cv_cpe_matches cve) (Some product) (ps_version svc) (ps_cpe svc) = Some c \<and> c \<in> set EMITTED))"
    (is "?l \<longleftrightarrow> ?r")
  proof
    show ?r if l: ?l
    proof -
      obtain pf where "pf \<in> set (correlate_service db host svc)" "i = pf_weakness_key pf" using l by blast
      then show ?thesis unfolding correlate_service_member [OF p] by (metis finding_from_cve_key)
    qed
    show ?l if ?r
    proof -
      obtain cve c where c: "cve \<in> set (lookup_cves_by_product db (lower product))" "cv_id cve = i"
        "match_confidence (cv_cpe_matches cve) (Some product) (ps_version svc) (ps_cpe svc) = Some c" "c \<in> set EMITTED"
        using \<open>?r\<close> by blast
      then have "finding_from_cve cve host svc c \<in> set (correlate_service db host svc)"
        using correlate_service_member [OF p] by blast
      then show ?thesis by (rule image_eqI [rotated]) (simp add: finding_from_cve_key c(2))
    qed
  qed
  then show ?thesis
    unfolding EMITTED_rank match_confidence_confirmed [OF service_product_nonempty [OF p]] Bex_def lookup_member
    by auto
qed

end
