(* ===== verification/RiskScore.thy ===== *)
theory RiskScore
  imports FindingStore
begin

text \<open>
  Explainable risk scores, \<^verbatim>\<open>app/services/risk.py\<close>: weights and profiles, the normalized factors of
  a finding, the score and its immutable snapshot; and the presentation of
  \<^verbatim>\<open>app/services/priority.py\<close>.  The SHA-256 of the canonical JSON of the inputs is a function of
  the inputs, an argument.  Sums and products of floats are exact; \<open>round\<close> is half-to-even on the
  exact value.
\<close>

subsection \<open>Weights\<close>

text \<open>\<open>sorted(FACTOR_KEYS)\<close>.\<close>

definition FACTOR_KEYS :: "string list" where
  "FACTOR_KEYS = [''asset_criticality'', ''confidence'', ''cvss'', ''epss'', ''internet_exposure'',
     ''known_exploited'', ''severity'', ''validation'']"

definition DEFAULT_WEIGHTS :: "(string \<times> rat) list" where
  "DEFAULT_WEIGHTS = [(''severity'', 30), (''cvss'', 20), (''known_exploited'', 20), (''epss'', 10),
     (''confidence'', 10), (''validation'', 15), (''internet_exposure'', 10), (''asset_criticality'', 15)]"

definition SCORING_ALGORITHM_VERSION :: int where
  "SCORING_ALGORITHM_VERSION = 2"

fun severity_weight :: "Severity \<Rightarrow> rat" where
  "severity_weight Severity.INFO = -1"
| "severity_weight Severity.LOW = - (1 / 2)"
| "severity_weight Severity.MEDIUM = 0"
| "severity_weight Severity.HIGH = 1 / 2"
| "severity_weight Severity.CRITICAL = 1"

fun validation_weight :: "ValidationStatus \<Rightarrow> rat" where
  "validation_weight ValidationStatus.CONFIRMED_NON_EXPLOIT = -1"
| "validation_weight ValidationStatus.NOT_APPLICABLE = -1"
| "validation_weight ValidationStatus.INCONCLUSIVE = - (1 / 4)"
| "validation_weight ValidationStatus.UNVALIDATED = 0"
| "validation_weight ValidationStatus.LIKELY = 1 / 2"
| "validation_weight ValidationStatus.CONFIRMED_EXPLOITABLE = 1"

fun criticality_weight :: "AssetCriticality \<Rightarrow> rat" where
  "criticality_weight AssetCriticality.UNKNOWN = 0"
| "criticality_weight AssetCriticality.LOW = -1"
| "criticality_weight AssetCriticality.MODERATE = - (1 / 4)"
| "criticality_weight AssetCriticality.HIGH = 1 / 2"
| "criticality_weight AssetCriticality.MISSION_CRITICAL = 1"

datatype risk_error = WrongFactors "string list" "string list" | WeightRange | ZeroWeights | ProfileName
  | DecisionExpired | DecisionReason | DecisionEvidence | DuplicateTarget | DuplicateOrganization
  | UnexpectedDuplicate | ActiveDecision | NotActive | AlreadyReviewed

definition clamp :: "rat \<Rightarrow> rat" where
  "clamp x = max (-1) (min 1 x)"

definition weight_of :: "(string \<times> rat) list \<Rightarrow> string \<Rightarrow> rat" where
  "weight_of ws k = (case map_of ws k of Some v \<Rightarrow> v | None \<Rightarrow> 0)"

definition total_weight :: "(string \<times> rat) list \<Rightarrow> rat" where
  "total_weight ws = (\<Sum>(_, v) \<leftarrow> ws. \<bar>v\<bar>)"

definition validate_weights :: "(string \<times> rat) list \<Rightarrow> risk_error + (string \<times> rat) list" where
  "validate_weights ws =
     (if set (map fst ws) \<noteq> set FACTOR_KEYS
      then Inl (WrongFactors (filter (\<lambda>k. k \<notin> set (map fst ws)) FACTOR_KEYS)
                  (sort (filter (\<lambda>k. k \<notin> set FACTOR_KEYS) (map fst ws))))
      else if list_ex (\<lambda>(_, v). \<not> (-1000 \<le> v \<and> v \<le> 1000)) ws then Inl WeightRange
      else if total_weight ws \<le> 0 then Inl ZeroWeights
      else Inr ws)"

subsection \<open>Profiles\<close>

text \<open>The newest default version; the rows are ordered by version, descending.\<close>

definition newest :: "risk_profile list \<Rightarrow> risk_profile option" where
  "newest ps = (case ps of [] \<Rightarrow> None | _ \<Rightarrow> find (\<lambda>p. \<forall>q \<in> set ps. rp_version q \<le> rp_version p) ps)"

definition default_of :: "uuid \<Rightarrow> finding_db \<Rightarrow> risk_profile option" where
  "default_of org db = newest (filter (\<lambda>p. rp_organization_id p = org \<and> rp_is_default p) (fd_profiles db))"

definition vulna_default :: "uuid \<Rightarrow> uuid \<Rightarrow> risk_profile" where
  "vulna_default i org =
     \<lparr>rp_id = i, rp_organization_id = org, rp_name = ''Vulna default'', rp_version = 1,
      rp_description = Some ''Balanced local-first risk profile'', rp_weights = DEFAULT_WEIGHTS,
      rp_is_default = True\<rparr>"

definition default_profile :: "uuid \<Rightarrow> finding_db \<Rightarrow> finding_db \<times> risk_profile" where
  "default_profile org db =
     (case default_of org db of
        Some p \<Rightarrow> (db, p)
      | None \<Rightarrow>
          (let (i, db1) = draw db; p = vulna_default i org
           in (db1\<lparr>fd_profiles := fd_profiles db1 @ [p]\<rparr>, p)))"

text \<open>\<open>" ".join(name.split())\<close>.\<close>

fun words :: "string \<Rightarrow> string \<Rightarrow> string list" where
  "words w [] = (if w = [] then [] else [w])"
| "words w (c # cs) =
     (if is_blank c then (if w = [] then words [] cs else w # words [] cs) else words (w @ [c]) cs)"

definition collapse :: "string \<Rightarrow> string" where
  "collapse s = join_with '' '' (words [] s)"

definition not_default :: "uuid \<Rightarrow> risk_profile list \<Rightarrow> risk_profile list" where
  "not_default org = update_where (\<lambda>p. rp_organization_id p = org \<and> rp_is_default p) (rp_is_default_update (\<lambda>_. False))"

definition create_profile_version ::
  "uuid \<Rightarrow> string \<Rightarrow> string option \<Rightarrow> (string \<times> rat) list \<Rightarrow> bool \<Rightarrow> finding_db \<Rightarrow>
   risk_error + finding_db \<times> risk_profile" where
  "create_profile_version org name description weights make_default db =
     (let clean = collapse name
      in if clean = [] then Inl ProfileName
         else
           (let current = newest (filter (\<lambda>p. rp_organization_id p = org \<and> rp_name p = clean) (fd_profiles db));
                version = (case current of None \<Rightarrow> 1 | Some p \<Rightarrow> rp_version p + 1);
                ps = (if make_default then not_default org (fd_profiles db) else fd_profiles db)
            in res_bind (validate_weights weights) (\<lambda>ws.
                 let (i, db1) = draw db;
                     p = \<lparr>rp_id = i, rp_organization_id = org, rp_name = clean, rp_version = version,
                          rp_description = description, rp_weights = ws, rp_is_default = make_default\<rparr>
                 in Inr (db1\<lparr>fd_profiles := ps @ [p]\<rparr>, p))))"

definition activate_profile :: "risk_profile \<Rightarrow> finding_db \<Rightarrow> finding_db" where
  "activate_profile p db =
     db\<lparr>fd_profiles := update_where (\<lambda>q. rp_id q = rp_id p) (rp_is_default_update (\<lambda>_. True))
         (not_default (rp_organization_id p) (fd_profiles db))\<rparr>"

subsection \<open>Factors of a finding\<close>

definition the_asset :: "finding_db \<Rightarrow> finding_row \<Rightarrow> asset_row option" where
  "the_asset db f = Option.bind (fi_asset_id f) (\<lambda>i. find (\<lambda>a. ax_id a = i) (fd_assets db))"

definition json_rat :: "rat option \<Rightarrow> json" where
  "json_rat v = (case v of None \<Rightarrow> JNull | Some q \<Rightarrow> JFloat q)"

definition source_values :: "finding_db \<Rightarrow> finding_row \<Rightarrow> (string \<times> json) list" where
  "source_values db f =
     (let a = the_asset db f
      in [(''severity'', JStr (severity_value (fi_severity f))), (''cvss'', json_rat (fi_cvss_score f)),
          (''known_exploited'', JBool (fi_known_exploited f)), (''epss'', json_rat (fi_epss_score f)),
          (''confidence'', JInt (fi_confidence f)),
          (''validation'', JStr (validation_status_value (fi_validation_status f))),
          (''internet_exposure'', case a of None \<Rightarrow> JNull | Some a \<Rightarrow> JBool (ax_internet_exposed a)),
          (''asset_criticality'',
             case a of None \<Rightarrow> JNull | Some a \<Rightarrow> JStr (asset_criticality_value (ax_criticality a)))])"

definition normalized :: "finding_db \<Rightarrow> finding_row \<Rightarrow> (string \<times> rat) list" where
  "normalized db f =
     (let a = the_asset db f
      in [(''severity'', severity_weight (fi_severity f)),
          (''cvss'', case fi_cvss_score f of None \<Rightarrow> 0 | Some s \<Rightarrow> clamp (s / 5 - 1)),
          (''known_exploited'', if fi_known_exploited f then 1 else -1),
          (''epss'', case fi_epss_score f of None \<Rightarrow> 0 | Some s \<Rightarrow> clamp (s * 2 - 1)),
          (''confidence'', clamp (of_int (fi_confidence f) / 50 - 1)),
          (''validation'', validation_weight (fi_validation_status f)),
          (''internet_exposure'', case a of None \<Rightarrow> 0 | Some a \<Rightarrow> if ax_internet_exposed a then 1 else -1),
          (''asset_criticality'', case a of None \<Rightarrow> 0 | Some a \<Rightarrow> criticality_weight (ax_criticality a))])"

subsection \<open>Scores\<close>

text \<open>Python's \<open>round(q, n)\<close>.\<close>

definition py_round :: "nat \<Rightarrow> rat \<Rightarrow> rat" where
  "py_round n q =
     (let s = q * 10 ^ n; l = \<lfloor>s\<rfloor>; d = s - of_int l
      in of_int (if d < 1 / 2 then l else if d > 1 / 2 then l + 1 else if even l then l else l + 1) / 10 ^ n)"

text \<open>All that is hashed.\<close>

record score_document =
  dc_algorithm :: int
  dc_profile_id :: uuid
  dc_profile_version :: int
  dc_source_values :: "(string \<times> json) list"
  dc_normalized :: "(string \<times> rat) list"
  dc_weights :: "(string \<times> rat) list"

record finding_env =
  fe_digest :: "score_document \<Rightarrow> string"
  fe_sha :: "string \<Rightarrow> string"
  fe_now :: time

definition contribution :: "(string \<times> rat) list \<Rightarrow> (string \<times> rat) list \<Rightarrow> string \<Rightarrow> rat" where
  "contribution ns ws k = weight_of ns k * weight_of ws k"

definition score_factor ::
  "(string \<times> json) list \<Rightarrow> (string \<times> rat) list \<Rightarrow> (string \<times> rat) list \<Rightarrow> string \<Rightarrow> factor" where
  "score_factor vs ns ws k =
     \<lparr>fa_factor = k, fa_source_value = (case map_of vs k of Some v \<Rightarrow> v | None \<Rightarrow> JNull),
      fa_normalized_value = py_round 6 (weight_of ns k), fa_weight = weight_of ws k,
      fa_contribution = py_round 6 (contribution ns ws k)\<rparr>"

definition weighted_sum :: "(string \<times> rat) list \<Rightarrow> (string \<times> rat) list \<Rightarrow> rat" where
  "weighted_sum ns ws = (\<Sum>k \<leftarrow> FACTOR_KEYS. contribution ns ws k)"

definition score_of :: "(string \<times> rat) list \<Rightarrow> (string \<times> rat) list \<Rightarrow> rat" where
  "score_of ns ws = py_round 2 (max 0 (min 100 ((weighted_sum ns ws / total_weight ws + 1) * 50)))"

definition score_document_of :: "finding_db \<Rightarrow> finding_row \<Rightarrow> risk_profile \<Rightarrow> (string \<times> rat) list \<Rightarrow> score_document" where
  "score_document_of db f p ws =
     \<lparr>dc_algorithm = SCORING_ALGORITHM_VERSION, dc_profile_id = rp_id p, dc_profile_version = rp_version p,
      dc_source_values = source_values db f, dc_normalized = normalized db f, dc_weights = ws\<rparr>"

definition make_snapshot ::
  "finding_env \<Rightarrow> uuid \<Rightarrow> finding_db \<Rightarrow> finding_row \<Rightarrow> risk_profile \<Rightarrow> (string \<times> rat) list \<Rightarrow> score_snapshot" where
  "make_snapshot env i db f p ws =
     (let ns = normalized db f
      in \<lparr>ss_id = i, ss_organization_id = fi_organization_id f, ss_finding_id = fi_id f, ss_profile_id = rp_id p,
          ss_profile_version = rp_version p, ss_score = score_of ns ws,
          ss_weighted_sum = py_round 6 (weighted_sum ns ws), ss_positive_maximum = py_round 6 (total_weight ws),
          ss_source_values = source_values db f,
          ss_factors = map (score_factor (source_values db f) ns ws) FACTOR_KEYS,
          ss_input_hash = fe_digest env (score_document_of db f p ws)\<rparr>)"

definition scored :: "score_snapshot \<Rightarrow> time \<Rightarrow> finding_row \<Rightarrow> finding_row" where
  "scored s now f =
     f\<lparr>fi_current_score := Some (ss_id s), fi_risk_score := Some (ss_score s),
       fi_risk_profile_version := Some (ss_profile_version s), fi_risk_input_hash := Some (ss_input_hash s),
       fi_risk_scored_at := Some now\<rparr>"

definition current_snapshot :: "finding_db \<Rightarrow> finding_row \<Rightarrow> string \<Rightarrow> score_snapshot option" where
  "current_snapshot db f hash =
     (case (fi_current_score f, fi_risk_input_hash f) of
        (Some i, Some h) \<Rightarrow> if h = hash then find (\<lambda>s. ss_id s = i) (fd_snapshots db) else None
      | _ \<Rightarrow> None)"

text \<open>
  \<open>score_finding\<close> under a profile (\<open>None\<close>: the default of the organization).  The finding is the
  row with the id.
\<close>

definition score_finding ::
  "finding_env \<Rightarrow> uuid \<Rightarrow> risk_profile option \<Rightarrow> bool \<Rightarrow> finding_db \<Rightarrow> risk_error + finding_db \<times> score_snapshot option" where
  "score_finding env i profile force db =
     (case the_finding db i of
        None \<Rightarrow> Inr (db, None)
      | Some f \<Rightarrow>
          (let (db1, p) = (case profile of Some p \<Rightarrow> (db, p) | None \<Rightarrow> default_profile (fi_organization_id f) db)
           in res_bind (validate_weights (rp_weights p)) (\<lambda>ws.
                case (if force then None
                      else current_snapshot db1 f (fe_digest env (score_document_of db1 f p ws))) of
                  Some s \<Rightarrow> Inr (db1, Some s)
                | None \<Rightarrow>
                    (let (k, db2) = draw db1; s = make_snapshot env k db2 f p ws
                     in Inr (on_finding i (scored s (fe_now env)) (db2\<lparr>fd_snapshots := fd_snapshots db2 @ [s]\<rparr>),
                             Some s)))))"

subsection \<open>Presentation\<close>

definition priority_from_score :: "rat \<Rightarrow> string \<times> string" where
  "priority_from_score score =
     (if score \<ge> 75 then (''fix_now'', ''Explainable risk score is 75 or higher.'')
      else if score \<ge> 50 then (''plan'', ''Explainable risk score is between 50 and 74.'')
      else if score \<ge> 25 then (''watch'', ''Explainable risk score is between 25 and 49.'')
      else (''informational'', ''Explainable risk score is below 25.''))"

datatype priority = FIX_NOW | PLAN | WATCH | INFORMATIONAL

fun PRIORITY_ORDER :: "priority \<Rightarrow> nat" where
  "PRIORITY_ORDER FIX_NOW = 0"
| "PRIORITY_ORDER PLAN = 1"
| "PRIORITY_ORDER WATCH = 2"
| "PRIORITY_ORDER INFORMATIONAL = 3"

definition UNCERTAIN_BELOW :: int where
  "UNCERTAIN_BELOW = 45"

definition confidence_label :: "int \<Rightarrow> string" where
  "confidence_label confidence =
     (if confidence \<ge> 75 then ''high'' else if confidence \<ge> UNCERTAIN_BELOW then ''medium'' else ''low'')"

definition classify :: "Severity \<Rightarrow> int \<Rightarrow> bool \<Rightarrow> rat option \<Rightarrow> ValidationStatus \<Rightarrow> priority \<times> string" where
  "classify severity confidence known_exploited epss_score validation =
     (let epss = or_else epss_score 0
      in if severity = Severity.INFO then (INFORMATIONAL, ''Informational; no action needed.'')
         else if validation = ValidationStatus.CONFIRMED_EXPLOITABLE
         then (FIX_NOW, ''Confirmed exploitable on this system.'')
         else if validation = ValidationStatus.CONFIRMED_NON_EXPLOIT
         then (WATCH, ''Checked and found not exploitable here.'')
         else if confidence < UNCERTAIN_BELOW
         then (WATCH, ''Uncertain match (low detection confidence) - verify before acting.'')
         else if known_exploited \<and> (severity = Severity.HIGH \<or> severity = Severity.CRITICAL)
         then (FIX_NOW, ''Known to be exploited in the wild (CISA KEV).'')
         else case severity of
                Severity.CRITICAL \<Rightarrow> (FIX_NOW, ''Critical severity with confident detection.'')
              | Severity.HIGH \<Rightarrow>
                  if epss \<ge> 1 / 2 then (FIX_NOW, ''High severity with elevated exploit probability (EPSS).'')
                  else (PLAN, ''High severity - plan a fix.'')
              | Severity.MEDIUM \<Rightarrow>
                  if known_exploited \<or> epss \<ge> 1 / 2
                  then (PLAN, ''Medium severity with exploit signals - plan a fix.'')
                  else (WATCH, ''Medium severity - keep an eye on it.'')
              | _ \<Rightarrow> (WATCH, ''Low severity - watch.''))"


subsection \<open>Bounds and monotonicity of scores\<close>

definition round_int :: "rat \<Rightarrow> int" where
  "round_int s =
     (let l = \<lfloor>s\<rfloor>; d = s - of_int l
      in if d < 1 / 2 then l else if d > 1 / 2 then l + 1 else if even l then l else l + 1)"

lemma py_round_int: "py_round n q = of_int (round_int (q * 10 ^ n)) / 10 ^ n"
  by (simp add: py_round_def round_int_def Let_def)

lemma round_int_near: "\<lfloor>s\<rfloor> \<le> round_int s \<and> round_int s \<le> \<lfloor>s\<rfloor> + 1"
  by (simp add: round_int_def Let_def)

lemma round_int_fix: "round_int (of_int k) = k"
  by (simp add: round_int_def)

lemma round_int_mono:
  assumes "s \<le> t"
  shows "round_int s \<le> round_int t"
proof (cases "\<lfloor>s\<rfloor> = \<lfloor>t\<rfloor>")
  case True
  then show ?thesis using assms by (auto simp: round_int_def Let_def)
next
  case False
  then have "\<lfloor>s\<rfloor> + 1 \<le> \<lfloor>t\<rfloor>" using assms floor_mono [OF assms] by linarith
  then show ?thesis using round_int_near [of s] round_int_near [of t] by linarith
qed

lemma py_round_mono: "p \<le> q \<Longrightarrow> py_round n p \<le> py_round n q"
  by (simp add: py_round_int round_int_mono divide_right_mono mult_right_mono)

lemma py_round_fix:
  fixes k :: int
  shows "py_round n (of_int k) = of_int k"
proof -
  have "of_int k * 10 ^ n = (of_int (k * 10 ^ n) :: rat)" by simp
  then show ?thesis by (simp only: py_round_int round_int_fix) simp
qed

lemma py_round_within:
  fixes a b :: int
  assumes "of_int a \<le> q" and "q \<le> of_int b"
  shows "of_int a \<le> py_round n q \<and> py_round n q \<le> of_int b"
  using py_round_mono [OF assms(1), of n] py_round_mono [OF assms(2), of n] by (simp add: py_round_fix)

lemma score_of_range: "0 \<le> score_of ns ws \<and> score_of ns ws \<le> 100"
  using py_round_within [of 0 "max 0 (min 100 ((weighted_sum ns ws / total_weight ws + 1) * 50))" 100 2]
  by (simp add: score_of_def)

lemma weighted_sum_mono:
  assumes "\<And>k. k \<in> set FACTOR_KEYS \<Longrightarrow> contribution ns ws k \<le> contribution ns' ws k"
  shows "weighted_sum ns ws \<le> weighted_sum ns' ws"
  unfolding weighted_sum_def using assms by (intro sum_list_mono) simp

lemma total_weight_nonneg: "0 \<le> total_weight ws"
  unfolding total_weight_def by (intro sum_list_nonneg) auto

lemma score_of_mono:
  assumes "\<And>k. k \<in> set FACTOR_KEYS \<Longrightarrow> contribution ns ws k \<le> contribution ns' ws k"
  shows "score_of ns ws \<le> score_of ns' ws"
proof -
  have "weighted_sum ns ws / total_weight ws \<le> weighted_sum ns' ws / total_weight ws"
    using weighted_sum_mono [OF assms] by (intro divide_right_mono total_weight_nonneg)
  then show ?thesis unfolding score_of_def
    by (intro py_round_mono max.mono min.mono mult_right_mono add_right_mono order_refl) simp_all
qed

definition weights_ok :: "(string \<times> rat) list \<Rightarrow> bool" where
  "weights_ok ws \<longleftrightarrow> validate_weights ws = Inr ws"

lemma validate_weights_Inr: "validate_weights ws = Inr vs \<Longrightarrow> vs = ws \<and> weights_ok ws"
  by (auto simp: validate_weights_def weights_ok_def split: if_splits)

lemma default_weights_ok: "weights_ok DEFAULT_WEIGHTS"
  by code_simp

end
