(* ===== verification/Sla.thy ===== *)
theory Sla
  imports RiskScore
begin

text \<open>
  Remediation deadlines, \<^verbatim>\<open>app/services/sla.py\<close>: policies
  and their validation, deadlines as append-only calculations, exceptions, the pause during a risk
  acceptance, the sweep and the metrics.  Times carry their zone.  The metadata of history rows and
  of calculations is left out: nothing reads it.
\<close>

subsection \<open>Policies\<close>

definition DEFAULT_DUE_DAYS :: "(string \<times> json) list" where
  "DEFAULT_DUE_DAYS = [(''critical'', JInt 7), (''high'', JInt 30), (''medium'', JInt 60), (''low'', JInt 90),
     (''info'', JInt 180)]"

definition MATCH_KEYS :: "string list" where
  "MATCH_KEYS = [''severities'', ''finding_types'', ''known_exploited'', ''site_ids'', ''min_risk_score'']"

definition TERMINAL_STATUSES :: "FindingStatus list" where
  "TERMINAL_STATUSES = [FindingStatus.RESOLVED, FindingStatus.FALSE_POSITIVE, FindingStatus.DUPLICATE,
     FindingStatus.SUPPRESSED]"

datatype sla_error = DueDaysType | UnsupportedSeverities "string list" | DueDaysRange string
  | MatchType | UnsupportedMatch "string list" | MatchSeverities | EmptySeverities | MatchFindingTypes
  | EmptyFindingTypes | MatchKnownExploited | MatchSiteIds | EmptySiteIds | MatchMinRiskScore
  | NotCalculated | NotExtending | TooFar | NotPending | NoCalculation | GuidanceCount string
  | GuidanceItem string | GuidanceStep string | GuidanceReferences

definition due_days_ok :: "json \<Rightarrow> bool" where
  "due_days_ok v = (case v of JInt d \<Rightarrow> 1 \<le> d \<and> d \<le> 3650 | _ \<Rightarrow> False)"

definition check_due_days :: "string \<times> json \<Rightarrow> sla_error + string \<times> json" where
  "check_due_days e = (if due_days_ok (snd e) then Inr e else Inl (DueDaysRange (fst e)))"

definition validate_due_days :: "json \<Rightarrow> sla_error + (string \<times> json) list" where
  "validate_due_days value =
     (case value of
        JObj kvs \<Rightarrow>
          (let unknown = filter (\<lambda>k. k \<notin> set (map fst DEFAULT_DUE_DAYS)) (map fst kvs)
           in if unknown \<noteq> [] then Inl (UnsupportedSeverities (sort unknown))
              else res_bind (traverse check_due_days kvs) (\<lambda>es.
                     Inr (fold (\<lambda>(k, v). dict_set k v) es DEFAULT_DUE_DAYS)))
      | _ \<Rightarrow> Inl DueDaysType)"

text \<open>What a \<open>for\<close> over a JSON value visits; \<open>None\<close> is the \<open>TypeError\<close> of a value that is not iterable.\<close>

definition iterate :: "json \<Rightarrow> json list option" where
  "iterate v =
     (case v of
        JList xs \<Rightarrow> Some xs
      | JStr s \<Rightarrow> Some (map (\<lambda>c. JStr [c]) s)
      | JObj kvs \<Rightarrow> Some (map (JStr \<circ> fst) kvs)
      | _ \<Rightarrow> None)"

text \<open>\<open>str(item)\<close>, as far as it can be a name or a UUID.\<close>

definition item_text :: "json \<Rightarrow> string" where
  "item_text v = (case v of JStr s \<Rightarrow> s | JInt i \<Rightarrow> int_str i | _ \<Rightarrow> ''<other>'')"

definition name_set :: "sla_error \<Rightarrow> sla_error \<Rightarrow> (string \<Rightarrow> string option) \<Rightarrow> json \<Rightarrow> sla_error + json" where
  "name_set wrong none parse v =
     (case iterate v of
        None \<Rightarrow> Inl wrong
      | Some items \<Rightarrow>
          res_bind (traverse (\<lambda>x. case parse (item_text x) of None \<Rightarrow> Inl wrong | Some s \<Rightarrow> Inr s) items) (\<lambda>names.
            if names = [] then Inl none else Inr (JList (map JStr (sort (remdups names))))))"

definition enum_name :: "('a \<Rightarrow> string) \<Rightarrow> 'a list \<Rightarrow> string \<Rightarrow> string option" where
  "enum_name val members s = (if s \<in> set (map val members) then Some s else None)"

definition risk_bound :: "json \<Rightarrow> rat option" where
  "risk_bound v =
     (case v of
        JInt i \<Rightarrow> if 0 \<le> i \<and> i \<le> 100 then Some (of_int i) else None
      | JFloat q \<Rightarrow> if 0 \<le> q \<and> q \<le> 100 then Some q else None
      | _ \<Rightarrow> None)"

text \<open>One key of \<open>validate_match\<close>: absent, or its checked value.\<close>

definition match_field ::
  "(string \<times> json) list \<Rightarrow> string \<Rightarrow> (json \<Rightarrow> sla_error + json) \<Rightarrow> sla_error + (string \<times> json) list" where
  "match_field kvs k check =
     (case map_of kvs k of None \<Rightarrow> Inr [] | Some v \<Rightarrow> res_bind (check v) (\<lambda>w. Inr [(k, w)]))"

definition check_known_exploited :: "json \<Rightarrow> sla_error + json" where
  "check_known_exploited v = (case v of JBool b \<Rightarrow> Inr v | _ \<Rightarrow> Inl MatchKnownExploited)"

definition check_min_risk_score :: "json \<Rightarrow> sla_error + json" where
  "check_min_risk_score v = (case risk_bound v of Some q \<Rightarrow> Inr (JFloat q) | None \<Rightarrow> Inl MatchMinRiskScore)"

definition validate_match :: "json \<Rightarrow> sla_error + (string \<times> json) list" where
  "validate_match value =
     (case value of
        JObj kvs \<Rightarrow>
          (let unknown = filter (\<lambda>k. k \<notin> set MATCH_KEYS) (map fst kvs)
           in if unknown \<noteq> [] then Inl (UnsupportedMatch (sort unknown))
              else
                res_bind (match_field kvs ''severities''
                  (name_set MatchSeverities EmptySeverities (enum_name severity_value severity_members))) (\<lambda>a.
                res_bind (match_field kvs ''finding_types''
                  (name_set MatchFindingTypes EmptyFindingTypes (enum_name finding_type_value finding_type_members))) (\<lambda>b.
                res_bind (match_field kvs ''known_exploited'' check_known_exploited) (\<lambda>c.
                res_bind (match_field kvs ''site_ids''
                  (name_set MatchSiteIds EmptySiteIds (\<lambda>s. map_option uuid_str (uuid_parse s)))) (\<lambda>d.
                res_bind (match_field kvs ''min_risk_score'' check_min_risk_score) (\<lambda>e.
                  Inr (a @ b @ c @ d @ e)))))))
      | _ \<Rightarrow> Inl MatchType)"

definition listed :: "string \<Rightarrow> json \<Rightarrow> bool" where
  "listed s v = (case v of JList xs \<Rightarrow> JStr s \<in> set xs | _ \<Rightarrow> False)"

definition policy_matches :: "sla_policy \<Rightarrow> finding_row \<Rightarrow> bool" where
  "policy_matches p f =
     (let m = map_of (sp_match p)
      in given (listed (severity_value (fi_severity f))) (m ''severities'') \<and>
         given (listed (finding_type_value (fi_finding_type f))) (m ''finding_types'') \<and>
         given (\<lambda>v. v = JBool (fi_known_exploited f)) (m ''known_exploited'') \<and>
         given (listed (uuid_str (fi_site_id f))) (m ''site_ids'') \<and>
         given (\<lambda>v. case v of JFloat q \<Rightarrow> \<not> or_else (fi_risk_score f) 0 < q | _ \<Rightarrow> True) (m ''min_risk_score''))"

definition matching_policy :: "finding_db \<Rightarrow> finding_row \<Rightarrow> sla_policy option" where
  "matching_policy db f =
     find (\<lambda>p. policy_matches p f)
       (sort_key sp_priority (filter (\<lambda>p. sp_organization_id p = fi_organization_id f \<and> sp_enabled p) (fd_policies db)))"

subsection \<open>Deadlines\<close>

definition history :: "finding_row \<Rightarrow> SlaHistoryEvent \<Rightarrow> uuid option \<Rightarrow> finding_db \<Rightarrow> finding_db" where
  "history f event actor db =
     db\<lparr>fd_history := fd_history db @ [\<lparr>sh_organization_id = fi_organization_id f, sh_finding_id = fi_id f,
         sh_event = event, sh_actor = actor\<rparr>]\<rparr>"

text \<open>A new calculation becomes the current one of its finding.\<close>

definition establish :: "sla_calculation \<Rightarrow> (finding_row \<Rightarrow> finding_row) \<Rightarrow> finding_db \<Rightarrow> finding_db" where
  "establish c g db =
     on_finding (sk_finding_id c)
       (\<lambda>f. (g f)\<lparr>fi_current_sla := Some (sk_id c), fi_due_at := Some (sk_due_at c)\<rparr>)
       (db\<lparr>fd_calculations := fd_calculations db @ [c]\<rparr>)"

definition first_due_days :: "(string \<times> json) list \<Rightarrow> Severity \<Rightarrow> int" where
  "first_due_days kvs sev = (case map_of kvs (severity_value sev) of Some (JInt d) \<Rightarrow> d | _ \<Rightarrow> 0)"

definition new_calculation ::
  "finding_env \<Rightarrow> uuid \<Rightarrow> finding_row \<Rightarrow> sla_policy option \<Rightarrow> (string \<times> json) list \<Rightarrow> bool \<Rightarrow> uuid option \<Rightarrow> sla_calculation" where
  "new_calculation env i f policy due_days recalculate actor =
     (let started = or_else (fi_first_seen_at f) (fi_created_at f)
      in \<lparr>sk_id = i, sk_organization_id = fi_organization_id f, sk_finding_id = fi_id f,
          sk_policy_id = map_option sp_id policy,
          sk_previous_id = (if recalculate then fi_current_sla f else None),
          sk_source = (if policy = None then SlaCalculationSource.SEVERITY_FALLBACK else SlaCalculationSource.POLICY),
          sk_started_at = started, sk_due_at = started + days (first_due_days due_days (fi_severity f)),
          sk_created_by = actor\<rparr>)"

definition started_once :: "time \<Rightarrow> finding_row \<Rightarrow> finding_row" where
  "started_once t f = f\<lparr>fi_sla_started_at := Some (or_else (fi_sla_started_at f) t)\<rparr>"

text \<open>
  The first deadline; an existing one is kept.  Stored \<open>due_days\<close> that do not validate make the call
  raise.
\<close>

definition calculate_deadline ::
  "finding_env \<Rightarrow> uuid \<Rightarrow> uuid option \<Rightarrow> bool \<Rightarrow> finding_db \<Rightarrow> sla_error + finding_db" where
  "calculate_deadline env i actor recalculate db =
     (case the_finding db i of
        None \<Rightarrow> Inr db
      | Some f \<Rightarrow>
          if \<not> recalculate \<and> Option.bind (fi_current_sla f) (the_calculation db) \<noteq> None then Inr db
          else
            (let policy = matching_policy db f
             in res_bind (validate_due_days (JObj (case policy of None \<Rightarrow> [] | Some p \<Rightarrow> sp_due_days p))) (\<lambda>due_days.
                  let (k, db1) = draw db;
                      c = new_calculation env k f policy due_days recalculate actor
                  in Inr (history f SlaHistoryEvent.CALCULATED actor (establish c (started_once (sk_started_at c)) db1)))))"

subsection \<open>Exceptions\<close>

definition request_exception ::
  "finding_env \<Rightarrow> finding_row \<Rightarrow> time \<Rightarrow> string \<Rightarrow> uuid option \<Rightarrow> finding_db \<Rightarrow> sla_error + finding_db" where
  "request_exception env f requested_due_at reason actor db =
     (case (fi_current_sla f, fi_due_at f) of
        (Some _, Some due) \<Rightarrow>
          if requested_due_at \<le> due then Inl NotExtending
          else if requested_due_at > fe_now env + days 3650 then Inl TooFar
          else
            (let (i, db1) = draw db;
                 x = \<lparr>sx_id = i, sx_organization_id = fi_organization_id f, sx_finding_id = fi_id f,
                      sx_requested_due_at = requested_due_at, sx_reason = strip reason,
                      sx_status = SlaExceptionStatus.PENDING, sx_requested_by = actor, sx_reviewed_by = None,
                      sx_reviewed_at = None, sx_review_notes = None, sx_resulting_id = None\<rparr>
             in Inr (history f SlaHistoryEvent.EXCEPTION_REQUESTED actor
                  (db1\<lparr>fd_exceptions := fd_exceptions db1 @ [x]\<rparr>)))
      | _ \<Rightarrow> Inl NotCalculated)"

definition on_exception :: "uuid \<Rightarrow> (sla_exception \<Rightarrow> sla_exception) \<Rightarrow> finding_db \<Rightarrow> finding_db" where
  "on_exception i g db = db\<lparr>fd_exceptions := update_where (\<lambda>x. sx_id x = i) g (fd_exceptions db)\<rparr>"

definition review_mark :: "uuid option \<Rightarrow> time \<Rightarrow> string option \<Rightarrow> SlaExceptionStatus \<Rightarrow> uuid option \<Rightarrow> sla_exception \<Rightarrow> sla_exception" where
  "review_mark actor now notes status resulting x =
     x\<lparr>sx_reviewed_by := actor, sx_reviewed_at := Some now, sx_review_notes := notes, sx_status := status,
       sx_resulting_id := resulting\<rparr>"

definition followup ::
  "uuid \<Rightarrow> finding_row \<Rightarrow> uuid \<Rightarrow> SlaCalculationSource \<Rightarrow> time \<Rightarrow> time \<Rightarrow> uuid option \<Rightarrow> sla_calculation" where
  "followup i f previous source now due actor =
     \<lparr>sk_id = i, sk_organization_id = fi_organization_id f, sk_finding_id = fi_id f, sk_policy_id = None,
      sk_previous_id = Some previous, sk_source = source, sk_started_at = or_else (fi_sla_started_at f) now,
      sk_due_at = due, sk_created_by = actor\<rparr>"

definition decide_exception ::
  "finding_env \<Rightarrow> finding_row \<Rightarrow> sla_exception \<Rightarrow> bool \<Rightarrow> uuid option \<Rightarrow> string option \<Rightarrow> finding_db \<Rightarrow> sla_error + finding_db" where
  "decide_exception env f x approve actor notes db =
     (if sx_status x \<noteq> SlaExceptionStatus.PENDING then Inl NotPending
      else if \<not> approve
      then Inr (history f SlaHistoryEvent.EXCEPTION_REJECTED actor
             (on_exception (sx_id x) (review_mark actor (fe_now env) notes SlaExceptionStatus.REJECTED None) db))
      else case fi_current_sla f of
             None \<Rightarrow> Inl NoCalculation
           | Some previous \<Rightarrow>
               (let (k, db1) = draw db;
                    c = followup k f previous SlaCalculationSource.EXCEPTION (fe_now env) (sx_requested_due_at x) actor
                in Inr (history f SlaHistoryEvent.EXCEPTION_APPROVED actor
                     (on_exception (sx_id x) (review_mark actor (fe_now env) notes SlaExceptionStatus.APPROVED (Some k))
                       (establish c id db1)))))"

subsection \<open>The pause during a risk acceptance\<close>

text \<open>
  The loop of \<open>_pause_allowed\<close> along the previous calculations; it does not end on a cycle.
\<close>

partial_function (option) pause_walk :: "finding_db \<Rightarrow> uuid option \<Rightarrow> bool option" where
  "pause_walk db i =
     (case Option.bind i (the_calculation db) of
        None \<Rightarrow> Some False
      | Some c \<Rightarrow>
          (case sk_policy_id c of
             Some p \<Rightarrow> Some (case find (\<lambda>q. sp_id q = p) (fd_policies db) of None \<Rightarrow> False | Some q \<Rightarrow> sp_pause q)
           | None \<Rightarrow> pause_walk db (sk_previous_id c)))"

definition pause_for_risk_acceptance :: "finding_env \<Rightarrow> finding_row \<Rightarrow> finding_db \<Rightarrow> finding_db option" where
  "pause_for_risk_acceptance env f db =
     (if fi_sla_paused_at f \<noteq> None then Some db
      else map_option (\<lambda>allowed.
             if \<not> allowed then db
             else history f SlaHistoryEvent.PAUSED None
                    (on_finding (fi_id f) (fi_sla_paused_at_update (\<lambda>_. Some (fe_now env))) db))
           (pause_walk db (fi_current_sla f)))"

text \<open>\<open>max(0, int((now - paused_at).total_seconds()))\<close>.\<close>

definition pause_seconds :: "time \<Rightarrow> time \<Rightarrow> int" where
  "pause_seconds now paused_at = max 0 ((now - paused_at) div 1000000)"

definition resume_after_risk_acceptance :: "finding_env \<Rightarrow> finding_row \<Rightarrow> finding_db \<Rightarrow> finding_db" where
  "resume_after_risk_acceptance env f db =
     (case (fi_sla_paused_at f, fi_due_at f, fi_current_sla f) of
        (Some paused, Some due, Some previous) \<Rightarrow>
          (let (k, db1) = draw db;
               c = followup k f previous SlaCalculationSource.RISK_ACCEPTANCE_RESUME (fe_now env)
                     (due + seconds (pause_seconds (fe_now env) paused)) None
           in history f SlaHistoryEvent.RESUMED None (establish c (fi_sla_paused_at_update (\<lambda>_. None)) db1))
      | _ \<Rightarrow> db)"

subsection \<open>Completion, sweep and metrics\<close>

definition complete_finding :: "time \<Rightarrow> finding_row \<Rightarrow> finding_db \<Rightarrow> finding_db" where
  "complete_finding now f db =
     (if fi_current_sla f = None \<or> fi_sla_completed_at f \<noteq> None then db
      else history f SlaHistoryEvent.COMPLETED None
             (on_finding (fi_id f) (fi_sla_completed_at_update (\<lambda>_. Some now)) db))"

definition breached_before :: "finding_row \<Rightarrow> finding_db \<Rightarrow> bool" where
  "breached_before f db =
     list_ex (\<lambda>h. sh_finding_id h = fi_id f \<and> sh_event h = SlaHistoryEvent.BREACHED) (fd_history db)"

definition overdue :: "time \<Rightarrow> finding_row \<Rightarrow> bool" where
  "overdue now f \<longleftrightarrow> fi_sla_paused_at f = None \<and> (case fi_due_at f of None \<Rightarrow> False | Some d \<Rightarrow> d < now)"

text \<open>One round of the sweep; the counters of breached and completed findings.\<close>

definition sweep_one :: "time \<Rightarrow> finding_row \<Rightarrow> finding_db \<times> nat \<times> nat \<Rightarrow> finding_db \<times> nat \<times> nat" where
  "sweep_one now f st =
     (case st of (db, breached, completed) \<Rightarrow>
        if fi_status f \<in> set TERMINAL_STATUSES
        then (if fi_sla_completed_at f = None
              then (history f SlaHistoryEvent.COMPLETED None
                      (on_finding (fi_id f) (fi_sla_completed_at_update (\<lambda>_. Some (or_else (fi_resolved_at f) now))) db),
                    breached, completed + 1)
              else st)
        else if overdue now f \<and> \<not> breached_before f db
        then (history f SlaHistoryEvent.BREACHED None db, breached + 1, completed)
        else st)"

definition sweep_sla_status :: "time \<Rightarrow> uuid option \<Rightarrow> finding_db \<Rightarrow> finding_db \<times> nat \<times> nat" where
  "sweep_sla_status now org db =
     fold (sweep_one now)
       (filter (\<lambda>f. fi_current_sla f \<noteq> None \<and> given (\<lambda>o'. fi_organization_id f = o') org) (fd_findings db)) (db, 0, 0)"

record sla_metrics =
  sm_total :: nat
  sm_open :: nat
  sm_overdue :: nat
  sm_due_soon :: nat
  sm_completed :: nat
  sm_completed_on_time :: nat
  sm_on_time_percentage :: "rat option"
  sm_by_severity :: "(string \<times> nat) list"

definition metrics :: "time \<Rightarrow> uuid \<Rightarrow> uuid list option \<Rightarrow> finding_db \<Rightarrow> sla_metrics" where
  "metrics now org site_ids db =
     (let rows = filter (\<lambda>f. fi_organization_id f = org \<and> fi_due_at f \<noteq> None \<and>
                    given (\<lambda>ids. fi_site_id f \<in> set ids) site_ids) (fd_findings db);
          opened = filter (\<lambda>f. fi_status f \<notin> set TERMINAL_STATUSES) rows;
          completed = filter (\<lambda>f. fi_sla_completed_at f \<noteq> None) rows;
          on_time = filter (\<lambda>f. case (fi_sla_completed_at f, fi_due_at f) of
                        (Some c, Some d) \<Rightarrow> c \<le> d | _ \<Rightarrow> False) completed
      in \<lparr>sm_total = length rows, sm_open = length opened, sm_overdue = length (filter (overdue now) opened),
          sm_due_soon = length (filter (\<lambda>f. case fi_due_at f of None \<Rightarrow> False
             | Some d \<Rightarrow> now \<le> d \<and> d \<le> now + days 7) opened),
          sm_completed = length completed, sm_completed_on_time = length on_time,
          sm_on_time_percentage = (if completed = [] then None
             else Some (py_round 2 (of_nat (length on_time * 100) / of_nat (length completed)))),
          sm_by_severity = map (\<lambda>s. (severity_value s, length (filter (\<lambda>f. fi_severity f = s) opened))) severity_members\<rparr>)"

subsection \<open>Guidance\<close>

text \<open>The schema of the request admits texts only, so \<open>str\<close> leaves a title or an instruction as it is.\<close>

definition guidance_step :: "string \<Rightarrow> json \<Rightarrow> sla_error + string \<times> string" where
  "guidance_step field v =
     (case v of
        JObj kvs \<Rightarrow>
          if set (map fst kvs) \<noteq> {''title'', ''instruction''} then Inl (GuidanceItem field)
          else (case (map_of kvs ''title'', map_of kvs ''instruction'') of
                  (Some (JStr title), Some (JStr instruction)) \<Rightarrow>
                    (let t = strip title; s = strip instruction
                     in if t = [] \<or> s = [] \<or> length t > 255 \<or> length s > 4000
                        then Inl (GuidanceStep field) else Inr (t, s))
                | _ \<Rightarrow> Inl (GuidanceStep field))
      | _ \<Rightarrow> Inl (GuidanceItem field))"

definition validate_guidance_steps :: "json list \<Rightarrow> string \<Rightarrow> sla_error + (string \<times> string) list" where
  "validate_guidance_steps vs field =
     (if \<not> (1 \<le> length vs \<and> length vs \<le> 50) then Inl (GuidanceCount field)
      else traverse (guidance_step field) vs)"

definition clean_references :: "string list \<Rightarrow> string list" where
  "clean_references refs = sort (remdups (filter (\<lambda>s. s \<noteq> []) (map strip refs)))"

definition create_guidance ::
  "finding_row \<Rightarrow> RemediationClassification \<Rightarrow> string \<Rightarrow> json list \<Rightarrow> json list \<Rightarrow> string list \<Rightarrow> string \<Rightarrow> finding_db \<Rightarrow>
   sla_error + finding_db" where
  "create_guidance f classification summary steps validation references source db =
     (let refs = clean_references references
      in if length refs > 25 \<or> list_ex (\<lambda>s. length s > 2048) refs then Inl GuidanceReferences
         else
           res_bind (validate_guidance_steps steps ''steps'') (\<lambda>ss.
           res_bind (validate_guidance_steps validation ''validation_steps'') (\<lambda>vs.
             Inr (db\<lparr>fd_guidance := fd_guidance db @ [\<lparr>gd_finding_id = fi_id f, gd_classification = classification,
               gd_summary = strip summary, gd_steps = ss, gd_validation_steps = vs, gd_references = refs,
               gd_source = strip source\<rparr>]\<rparr>))))"


subsection \<open>Validated due days\<close>

definition due_days_valid :: "(string \<times> json) list \<Rightarrow> bool" where
  "due_days_valid kvs \<longleftrightarrow> list_all (\<lambda>(k, v). k \<in> set (map fst DEFAULT_DUE_DAYS) \<and> due_days_ok v) kvs"

lemma due_days_valid_set:
  "due_days_valid kvs \<Longrightarrow> k \<in> set (map fst DEFAULT_DUE_DAYS) \<Longrightarrow> due_days_ok v \<Longrightarrow> due_days_valid (dict_set k v kvs)"
  unfolding due_days_valid_def by (induction k v kvs rule: dict_set.induct) auto

lemma traverse_due_days: "traverse check_due_days kvs = Inr es \<longleftrightarrow> es = kvs \<and> list_all (due_days_ok \<circ> snd) kvs"
  by (induction kvs arbitrary: es) (auto simp: check_due_days_def res_bind_Inr)

lemma due_days_valid_Cons:
  "due_days_valid ((k, v) # es) \<longleftrightarrow> k \<in> set (map fst DEFAULT_DUE_DAYS) \<and> due_days_ok v \<and> due_days_valid es"
  by (simp add: due_days_valid_def)

lemma fold_due_days_valid:
  "due_days_valid es \<Longrightarrow> due_days_valid kvs \<Longrightarrow> due_days_valid (fold (\<lambda>(k, v). dict_set k v) es kvs)"
proof (induction es arbitrary: kvs)
  case (Cons e es)
  then show ?case by (cases e) (simp only: fold.simps o_apply case_prod_conv due_days_valid_Cons due_days_valid_set)
qed simp

lemma fold_due_days_keys:
  "dom (map_of kvs) \<subseteq> dom (map_of (fold (\<lambda>(k, v). dict_set k v) es kvs))"
proof (induction es arbitrary: kvs)
  case (Cons e es)
  obtain k v where e: "e = (k, v)" by (cases e)
  have "dom (map_of kvs) \<subseteq> dom (map_of (dict_set k v kvs))" by auto
  also have "\<dots> \<subseteq> dom (map_of (fold (\<lambda>(k, v). dict_set k v) (e # es) kvs))"
    using Cons.IH [of "dict_set k v kvs"] by (simp only: fold.simps o_apply e case_prod_conv)
  finally show ?case .
qed simp

lemma default_due_days_valid: "due_days_valid DEFAULT_DUE_DAYS"
  by (simp add: due_days_valid_def DEFAULT_DUE_DAYS_def due_days_ok_def)

lemma validate_due_days_Inr:
  assumes "validate_due_days v = Inr r"
  shows "due_days_valid r \<and> dom (map_of DEFAULT_DUE_DAYS) \<subseteq> dom (map_of r)"
proof -
  obtain kvs where v: "v = JObj kvs" and known: "filter (\<lambda>k. k \<notin> set (map fst DEFAULT_DUE_DAYS)) (map fst kvs) = []"
    and all: "list_all (due_days_ok \<circ> snd) kvs"
    and r: "r = fold (\<lambda>(k, v). dict_set k v) kvs DEFAULT_DUE_DAYS"
    using assms by (auto simp: validate_due_days_def Let_def res_bind_Inr traverse_due_days split: json.splits if_splits)
  have "due_days_valid kvs"
    using known all by (induction kvs) (auto simp: due_days_valid_Cons, auto simp: due_days_valid_def split: if_splits)
  then show ?thesis
    using fold_due_days_valid [OF _ default_due_days_valid] fold_due_days_keys [of DEFAULT_DUE_DAYS kvs] r by blast
qed

lemma due_days_valid_validates: "due_days_valid kvs \<Longrightarrow> \<exists>r. validate_due_days (JObj kvs) = Inr r"
proof -
  assume valid: "due_days_valid kvs"
  have "filter (\<lambda>k. k \<notin> set (map fst DEFAULT_DUE_DAYS)) (map fst kvs) = []"
    using valid by (auto simp: due_days_valid_def list_all_iff filter_empty_conv)
  moreover have "traverse check_due_days kvs = Inr kvs"
    using valid by (auto simp: traverse_due_days due_days_valid_def list_all_iff)
  ultimately show ?thesis by (simp add: validate_due_days_def Let_def)
qed

lemma severity_has_default: "severity_value s \<in> dom (map_of DEFAULT_DUE_DAYS)"
  by (cases s) (auto simp: DEFAULT_DUE_DAYS_def)

lemma first_due_days_range:
  assumes "validate_due_days v = Inr r"
  shows "1 \<le> first_due_days r s \<and> first_due_days r s \<le> 3650"
proof -
  note valid = validate_due_days_Inr [OF assms]
  obtain w where w: "map_of r (severity_value s) = Some w" using valid severity_has_default [of s] by blast
  then have "due_days_ok w" using valid map_of_SomeD [OF w] by (auto simp: due_days_valid_def list_all_iff)
  then show ?thesis using w by (auto simp: first_due_days_def due_days_ok_def split: json.splits)
qed

end
