(* ===== verification/FindingIngest.thy ===== *)
theory FindingIngest
  imports Correlation Sla Jobs
begin

text \<open>
  Normalized scanner findings enter the inventory, \<^verbatim>\<open>app/services/findings.py\<close>: the canonical key,
  deduplication, refresh and reopening of known findings, then the score and the deadline.  The
  batch is the loop over its findings; an exception of the score or of the deadline stops it.
\<close>

subsection \<open>Identity of a finding\<close>

definition id_or_dash :: "uuid option \<Rightarrow> string" where
  "id_or_dash i = (case i of None \<Rightarrow> ''-'' | Some j \<Rightarrow> uuid_str j)"

definition finding_identity :: "uuid \<Rightarrow> uuid option \<Rightarrow> uuid option \<Rightarrow> string \<Rightarrow> string \<Rightarrow> string" where
  "finding_identity org asset_id service_id scanner weakness_key =
     join_with ''|'' [uuid_str org, id_or_dash asset_id, id_or_dash service_id, scanner, weakness_key]"

definition canonical_finding_key ::
  "finding_env \<Rightarrow> uuid \<Rightarrow> uuid option \<Rightarrow> uuid option \<Rightarrow> string \<Rightarrow> string \<Rightarrow> string" where
  "canonical_finding_key env org asset_id service_id scanner weakness_key =
     fe_sha env (finding_identity org asset_id service_id scanner weakness_key)"

definition resolve_asset :: "scan_job \<Rightarrow> string option \<Rightarrow> finding_db \<Rightarrow> asset_row option" where
  "resolve_asset job ip db =
     (case ip of
        None \<Rightarrow> None
      | Some a \<Rightarrow>
          if a = [] then None
          else find (\<lambda>r. ax_organization_id r = sj_organization_id job \<and> ax_site_id r = sj_site_id job \<and>
                       (IdentifierType.IP_ADDRESS, a) \<in> set (ax_identifiers r)) (fd_assets db))"

text \<open>Transport and port are unique within an asset.\<close>

definition resolve_service ::
  "asset_row option \<Rightarrow> ServiceTransport \<Rightarrow> int option \<Rightarrow> finding_db \<Rightarrow> service_row option" where
  "resolve_service asset transport port db =
     (case (asset, port) of
        (Some r, Some p) \<Rightarrow>
          find (\<lambda>s. sr_asset_id s = ax_id r \<and> sr_transport s = transport \<and> sr_port s = p) (fd_services db)
      | _ \<Rightarrow> None)"

subsection \<open>One finding\<close>

datatype ingest_error = ScoreFailed risk_error | DeadlineFailed sla_error

record ingest_summary =
  is_seen :: nat
  is_created :: nat
  is_updated :: nat
  is_reopened :: nat
  is_events :: nat
  is_keys :: "string list"

definition record_change ::
  "scan_job \<Rightarrow> asset_row option \<Rightarrow> ChangeEventType \<Rightarrow> string \<Rightarrow> string \<Rightarrow> finding_db \<Rightarrow> finding_db" where
  "record_change job asset kind summary severity db =
     (case asset of
        None \<Rightarrow> db
      | Some r \<Rightarrow>
          emit \<lparr>ce_organization_id = sj_organization_id job, ce_site_id = sj_site_id job,
                ce_asset_id = Some (ax_id r), ce_scan_job_id = Some (sj_id job), ce_event_type = kind,
                ce_severity = severity, ce_summary = summary\<rparr> db)"

text \<open>The columns the constructor does not set take their defaults.\<close>

definition new_finding ::
  "uuid \<Rightarrow> scan_job \<Rightarrow> uuid option \<Rightarrow> uuid option \<Rightarrow> string \<Rightarrow> parsed_finding \<Rightarrow> time \<Rightarrow> finding_row" where
  "new_finding i job asset_id service_id key pf now =
     \<lparr>fi_id = i, fi_organization_id = sj_organization_id job, fi_site_id = sj_site_id job,
      fi_asset_id = asset_id, fi_service_id = service_id, fi_scan_job_id = Some (sj_id job),
      fi_scanner_name = pf_scanner pf, fi_scanner_finding_id = pf_scanner_finding_id pf, fi_canonical_key = key,
      fi_finding_type = pf_finding_type pf, fi_title = pf_title pf, fi_description = pf_description pf,
      fi_severity = pf_severity pf, fi_cvss_score = pf_cvss_score pf, fi_cvss_vector = pf_cvss_vector pf,
      fi_cve_ids = pf_cve_ids pf, fi_cwe_ids = pf_cwe_ids pf, fi_confidence = pf_confidence pf,
      fi_known_exploited = False, fi_epss_score = None, fi_epss_percentile = None,
      fi_validation_status = ValidationStatus.UNVALIDATED, fi_evidence = pf_evidence pf,
      fi_remediation = pf_remediation pf, fi_references = pf_references pf, fi_status = FindingStatus.NEW,
      fi_owner_user_id = None, fi_due_at = None, fi_current_sla = None, fi_sla_started_at = None,
      fi_sla_paused_at = None, fi_sla_completed_at = None, fi_risk_acceptance_id = None,
      fi_false_positive_reason = None, fi_first_seen_at = Some now, fi_last_seen_at = Some now,
      fi_last_verified_at = None, fi_resolved_at = None, fi_reopened_count = 0, fi_current_score = None,
      fi_risk_score = None, fi_risk_profile_version = None, fi_risk_input_hash = None,
      fi_risk_scored_at = None, fi_created_at = now\<rparr>"

text \<open>\<open>new or old\<close> on texts and on lists.\<close>

definition or_text :: "string option \<Rightarrow> string option \<Rightarrow> string option" where
  "or_text new old = (if new = None \<or> new = Some [] then old else new)"

definition or_list :: "'a list \<Rightarrow> 'a list \<Rightarrow> 'a list" where
  "or_list new old = (if new = [] then old else new)"

definition refreshed :: "scan_job \<Rightarrow> parsed_finding \<Rightarrow> time \<Rightarrow> finding_row \<Rightarrow> finding_row" where
  "refreshed job pf now f =
     f\<lparr>fi_last_seen_at := Some now, fi_severity := pf_severity pf, fi_cvss_score := pf_cvss_score pf,
       fi_evidence := pf_evidence pf, fi_description := or_text (pf_description pf) (fi_description f),
       fi_references := or_list (pf_references pf) (fi_references f), fi_title := pf_title pf,
       fi_confidence := pf_confidence pf, fi_remediation := or_text (pf_remediation pf) (fi_remediation f),
       fi_cve_ids := or_list (pf_cve_ids pf) (fi_cve_ids f), fi_cwe_ids := or_list (pf_cwe_ids pf) (fi_cwe_ids f),
       fi_scan_job_id := Some (sj_id job)\<rparr>"

definition reopened :: "finding_row \<Rightarrow> finding_row" where
  "reopened f =
     f\<lparr>fi_status := FindingStatus.REOPENED, fi_reopened_count := fi_reopened_count f + 1, fi_resolved_at := None\<rparr>"

definition observed_again :: "scan_job \<Rightarrow> parsed_finding \<Rightarrow> time \<Rightarrow> finding_row \<Rightarrow> finding_row" where
  "observed_again job pf now f =
     (if fi_status f = FindingStatus.RESOLVED then reopened (refreshed job pf now f) else refreshed job pf now f)"

definition the_key :: "finding_db \<Rightarrow> uuid \<Rightarrow> string \<Rightarrow> finding_row option" where
  "the_key db org key = find (\<lambda>f. fi_organization_id f = org \<and> fi_canonical_key f = key) (fd_findings db)"

definition noted :: "bool \<Rightarrow> nat \<Rightarrow> nat" where
  "noted b n = (if b then n + 1 else n)"

definition create_one ::
  "scan_job \<Rightarrow> asset_row option \<Rightarrow> service_row option \<Rightarrow> string \<Rightarrow> parsed_finding \<Rightarrow> time \<Rightarrow>
   finding_db \<times> ingest_summary \<Rightarrow> uuid \<times> finding_db \<times> ingest_summary" where
  "create_one job asset service key pf now st =
     (case st of (db, s) \<Rightarrow>
        (let (i, db1) = draw db;
             f = new_finding i job (map_option ax_id asset) (map_option sr_id service) key pf now;
             sev = severity_value (pf_severity pf)
         in (i, record_change job asset ChangeEventType.NEW_FINDING
                  (''New '' @ sev @ '' finding: '' @ pf_title pf) sev (db1\<lparr>fd_findings := fd_findings db1 @ [f]\<rparr>),
             s\<lparr>is_created := is_created s + 1, is_events := noted (asset \<noteq> None) (is_events s)\<rparr>)))"

definition refresh_one ::
  "scan_job \<Rightarrow> asset_row option \<Rightarrow> finding_row \<Rightarrow> parsed_finding \<Rightarrow> time \<Rightarrow>
   finding_db \<times> ingest_summary \<Rightarrow> finding_db \<times> ingest_summary" where
  "refresh_one job asset f pf now st =
     (case st of (db, s) \<Rightarrow>
        (let back = (fi_status f = FindingStatus.RESOLVED);
             db1 = on_finding (fi_id f) (observed_again job pf now) db
         in ((if back then record_change job asset ChangeEventType.FINDING_REOPENED
                (''Finding reopened: '' @ pf_title pf) (severity_value (pf_severity pf)) db1 else db1),
             s\<lparr>is_updated := is_updated s + 1, is_reopened := noted back (is_reopened s),
               is_events := noted (back \<and> asset \<noteq> None) (is_events s)\<rparr>)))"

definition upsert_one ::
  "finding_env \<Rightarrow> scan_job \<Rightarrow> parsed_finding \<Rightarrow> finding_db \<times> ingest_summary \<Rightarrow> uuid \<times> finding_db \<times> ingest_summary" where
  "upsert_one env job pf st =
     (case st of (db, s) \<Rightarrow>
        (let asset = resolve_asset job (pf_target_ip pf) db;
             service = resolve_service asset (pf_transport pf) (pf_port pf) db;
             key = canonical_finding_key env (sj_organization_id job) (map_option ax_id asset)
                     (map_option sr_id service) (pf_scanner pf) (pf_weakness_key pf);
             s1 = s\<lparr>is_keys := is_keys s @ [key]\<rparr>
         in case the_key db (sj_organization_id job) key of
              None \<Rightarrow> create_one job asset service key pf (fe_now env) (db, s1)
            | Some f \<Rightarrow> (fi_id f, refresh_one job asset f pf (fe_now env) (db, s1))))"

definition raised_as :: "('e \<Rightarrow> 'f) \<Rightarrow> 'e + 'a \<Rightarrow> 'f + 'a" where
  "raised_as g r = (case r of Inl e \<Rightarrow> Inl (g e) | Inr x \<Rightarrow> Inr x)"

definition score_and_deadline :: "finding_env \<Rightarrow> uuid \<Rightarrow> finding_db \<Rightarrow> ingest_error + finding_db" where
  "score_and_deadline env i db =
     res_bind (raised_as ScoreFailed (score_finding env i None False db)) (\<lambda>(db1, _).
       raised_as DeadlineFailed (calculate_deadline env i None False db1))"

definition ingest_one ::
  "finding_env \<Rightarrow> scan_job \<Rightarrow> parsed_finding \<Rightarrow> finding_db \<times> ingest_summary \<Rightarrow>
   ingest_error + finding_db \<times> ingest_summary" where
  "ingest_one env job pf st =
     (let (i, db, s) = upsert_one env job pf st
      in res_bind (score_and_deadline env i db) (\<lambda>db'. Inr (db', s)))"

subsection \<open>The batch\<close>

fun ingest_all ::
  "finding_env \<Rightarrow> scan_job \<Rightarrow> parsed_finding list \<Rightarrow> finding_db \<times> ingest_summary \<Rightarrow>
   ingest_error + finding_db \<times> ingest_summary" where
  "ingest_all env job [] st = Inr st"
| "ingest_all env job (pf # pfs) st = res_bind (ingest_one env job pf st) (ingest_all env job pfs)"

definition ingest_findings ::
  "finding_env \<Rightarrow> scan_job \<Rightarrow> parsed_finding list \<Rightarrow> finding_db \<Rightarrow> ingest_error + finding_db \<times> ingest_summary" where
  "ingest_findings env job parsed db =
     ingest_all env job parsed (db, \<lparr>is_seen = length parsed, is_created = 0, is_updated = 0, is_reopened = 0,
       is_events = 0, is_keys = []\<rparr>)"

end
