(* ===== verification/Remediation.thy ===== *)
theory Remediation
  imports FindingIngest
begin

text \<open>
  The workflow state of findings: verification by a rescan and risk acceptances,
  \<^verbatim>\<open>app/services/remediation.py\<close>, and the evidence-backed decisions of \<^verbatim>\<open>app/services/risk.py\<close>.
\<close>

subsection \<open>Verification\<close>

definition verified_fixed :: "time \<Rightarrow> finding_row \<Rightarrow> finding_row" where
  "verified_fixed now f = f\<lparr>fi_status := FindingStatus.RESOLVED, fi_resolved_at := Some now\<rparr>"

text \<open>One round of the loop of \<open>apply_verification\<close>.\<close>

definition verify_one ::
  "scan_job \<Rightarrow> string \<Rightarrow> string list \<Rightarrow> time \<Rightarrow> string \<Rightarrow> finding_db \<times> nat \<Rightarrow> finding_db \<times> nat" where
  "verify_one job scanner seen_keys now raw st =
     (case st of (db, n) \<Rightarrow>
        case Option.bind (uuid_parse raw) (the_finding db) of
          None \<Rightarrow> st
        | Some f \<Rightarrow>
            if fi_organization_id f \<noteq> sj_organization_id job \<or> fi_scanner_name f \<noteq> scanner then st
            else
              (let db1 = on_finding (fi_id f) (fi_last_verified_at_update (\<lambda>_. Some now)) db
               in if fi_canonical_key f \<in> set seen_keys
                     \<or> fi_status f \<in> {FindingStatus.RESOLVED, FindingStatus.RISK_ACCEPTED} then (db1, n)
                  else (emit (finding_event f ChangeEventType.FINDING_VERIFIED (''Verified fixed: '' @ fi_title f)
                                (severity_value (fi_severity f)))
                          (complete_finding now f (on_finding (fi_id f) (verified_fixed now) db1)), n + 1)))"

definition apply_verification ::
  "scan_job \<Rightarrow> string \<Rightarrow> string list \<Rightarrow> time \<Rightarrow> finding_db \<Rightarrow> finding_db \<times> nat" where
  "apply_verification job scanner seen_keys now db =
     fold (verify_one job scanner seen_keys now) (sj_verifies_finding_ids job) (db, 0)"

definition verification_namespaces :: "string \<Rightarrow> string list" where
  "verification_namespaces scanner =
     (if scanner = ''nmap'' then [''cve-correlation'', ''nmap-nse'']
      else if scanner \<in> {''nuclei'', ''testssl'', ''zap''} then [scanner] else [])"

text \<open>Seen by the job itself, or by any scan since the job started.\<close>

definition observed :: "scan_job \<Rightarrow> finding_row \<Rightarrow> bool" where
  "observed job f \<longleftrightarrow>
     fi_scan_job_id f = Some (sj_id job) \<or>
     (case (sj_started_at job, fi_last_seen_at f) of (Some s, Some t) \<Rightarrow> s \<le> t | _ \<Rightarrow> False)"

definition observed_keys :: "scan_job \<Rightarrow> string \<Rightarrow> finding_db \<Rightarrow> string list" where
  "observed_keys job namespace db =
     map fi_canonical_key (filter (\<lambda>f. fi_organization_id f = sj_organization_id job \<and>
       fi_id f \<in> set (List.map_filter uuid_parse (sj_verifies_finding_ids job)) \<and>
       fi_scanner_name f = namespace \<and> observed job f) (fd_findings db))"

definition finalize_namespace :: "scan_job \<Rightarrow> time \<Rightarrow> string \<Rightarrow> finding_db \<times> nat \<Rightarrow> finding_db \<times> nat" where
  "finalize_namespace job now namespace st =
     (case st of (db, n) \<Rightarrow>
        (let (db', k) = apply_verification job namespace (observed_keys job namespace db) now db in (db', n + k)))"

definition finalize_scanner_verification :: "scan_job \<Rightarrow> string \<Rightarrow> time \<Rightarrow> finding_db \<Rightarrow> finding_db \<times> nat" where
  "finalize_scanner_verification job scanner now db =
     fold (finalize_namespace job now) (verification_namespaces scanner) (db, 0)"

subsection \<open>Risk acceptances\<close>

definition on_acceptance :: "uuid \<Rightarrow> (risk_acceptance \<Rightarrow> risk_acceptance) \<Rightarrow> finding_db \<Rightarrow> finding_db" where
  "on_acceptance i g db = db\<lparr>fd_acceptances := update_where (\<lambda>r. ra_id r = i) g (fd_acceptances db)\<rparr>"

definition create_risk_acceptance ::
  "finding_env \<Rightarrow> finding_row \<Rightarrow> uuid option \<Rightarrow> string \<Rightarrow> string option \<Rightarrow> time option \<Rightarrow> time \<Rightarrow> finding_db \<Rightarrow> finding_db" where
  "create_risk_acceptance env f requested_by reason controls starts_at expires_at db =
     (let (i, db1) = draw db;
          r = \<lparr>ra_id = i, ra_organization_id = fi_organization_id f, ra_finding_id = fi_id f,
               ra_requested_by = requested_by, ra_approved_by = None, ra_reason = reason,
               ra_compensating_controls = controls, ra_starts_at = or_else starts_at (fe_now env),
               ra_expires_at = expires_at, ra_status = RiskAcceptanceStatus.PENDING, ra_review_notes = None\<rparr>
      in db1\<lparr>fd_acceptances := fd_acceptances db1 @ [r]\<rparr>)"

definition accepted_by :: "uuid \<Rightarrow> finding_row \<Rightarrow> finding_row" where
  "accepted_by i f = f\<lparr>fi_status := FindingStatus.RISK_ACCEPTED, fi_risk_acceptance_id := Some i\<rparr>"

text \<open>\<open>None\<close>: the walk of the pause does not return.\<close>

definition decide_risk_acceptance ::
  "finding_env \<Rightarrow> risk_acceptance \<Rightarrow> finding_row \<Rightarrow> bool \<Rightarrow> uuid option \<Rightarrow> string option \<Rightarrow> finding_db \<Rightarrow>
   finding_db option" where
  "decide_risk_acceptance env r f approve approved_by review_notes db =
     (let decided = (\<lambda>st. on_acceptance (ra_id r)
            (\<lambda>x. x\<lparr>ra_approved_by := approved_by, ra_review_notes := review_notes, ra_status := st\<rparr>) db)
      in if approve
         then pause_for_risk_acceptance env (accepted_by (ra_id r) f)
                (on_finding (fi_id f) (accepted_by (ra_id r)) (decided RiskAcceptanceStatus.ACTIVE))
         else Some (decided RiskAcceptanceStatus.REJECTED))"

definition acceptance_over :: "finding_row \<Rightarrow> finding_row" where
  "acceptance_over f = f\<lparr>fi_risk_acceptance_id := None, fi_status := FindingStatus.REOPENED\<rparr>"

text \<open>One round of \<open>expire_risk_acceptances\<close>.\<close>

definition expire_acceptance :: "finding_env \<Rightarrow> risk_acceptance \<Rightarrow> finding_db \<Rightarrow> finding_db" where
  "expire_acceptance env r db =
     (let db1 = on_acceptance (ra_id r) (ra_status_update (\<lambda>_. RiskAcceptanceStatus.EXPIRED)) db
      in case the_finding db1 (ra_finding_id r) of
           None \<Rightarrow> db1
         | Some f \<Rightarrow>
             if fi_risk_acceptance_id f \<noteq> Some (ra_id r) then db1
             else emit (finding_event f ChangeEventType.RISK_ACCEPTANCE_EXPIRED
                          (''Risk acceptance expired, finding reopened: '' @ fi_title f) ''high'')
                    (resume_after_risk_acceptance env (acceptance_over f) (on_finding (fi_id f) acceptance_over db1)))"

definition lapsed :: "time \<Rightarrow> finding_db \<Rightarrow> risk_acceptance list" where
  "lapsed now db = filter (\<lambda>r. ra_status r = RiskAcceptanceStatus.ACTIVE \<and> ra_expires_at r < now) (fd_acceptances db)"

definition expire_risk_acceptances :: "finding_env \<Rightarrow> finding_db \<Rightarrow> finding_db \<times> nat" where
  "expire_risk_acceptances env db =
     (fold (expire_acceptance env) (lapsed (fe_now env) db) db, length (lapsed (fe_now env) db))"

subsection \<open>Decisions\<close>

fun DECISION_STATUS :: "FindingDecisionType \<Rightarrow> FindingStatus" where
  "DECISION_STATUS FALSE_POSITIVE = FindingStatus.FALSE_POSITIVE"
| "DECISION_STATUS DUPLICATE = FindingStatus.DUPLICATE"
| "DECISION_STATUS SUPPRESSION = FindingStatus.SUPPRESSED"

definition active_decision :: "finding_db \<Rightarrow> uuid \<Rightarrow> finding_decision option" where
  "active_decision db i =
     find (\<lambda>d. de_finding_id d = i \<and> de_status d = FindingDecisionStatus.ACTIVE) (fd_decisions db)"

definition check_decision ::
  "finding_env \<Rightarrow> finding_row \<Rightarrow> FindingDecisionType \<Rightarrow> string \<Rightarrow> json list \<Rightarrow> time \<Rightarrow> finding_row option \<Rightarrow>
   finding_db \<Rightarrow> risk_error + unit" where
  "check_decision env f kind reason evidence expires_at duplicate_of db =
     (if expires_at \<le> fe_now env then Inl DecisionExpired
      else if strip reason = [] then Inl DecisionReason
      else if evidence = [] \<or> list_ex (\<lambda>e. \<not> nonempty_object e) evidence then Inl DecisionEvidence
      else
        res_bind
          (case (kind, duplicate_of) of
             (DUPLICATE, None) \<Rightarrow> Inl DuplicateTarget
           | (DUPLICATE, Some d) \<Rightarrow>
               if fi_id d = fi_id f then Inl DuplicateTarget
               else require (fi_organization_id d = fi_organization_id f) DuplicateOrganization
           | (_, d) \<Rightarrow> require (d = None) UnexpectedDuplicate) (\<lambda>_.
        require (active_decision db (fi_id f) = None) ActiveDecision))"

definition decided_finding :: "FindingDecisionType \<Rightarrow> string \<Rightarrow> finding_row \<Rightarrow> finding_row" where
  "decided_finding kind reason f =
     f\<lparr>fi_status := DECISION_STATUS kind,
       fi_false_positive_reason := (if kind = FALSE_POSITIVE then Some (strip reason) else fi_false_positive_reason f)\<rparr>"

definition create_finding_decision ::
  "finding_env \<Rightarrow> finding_row \<Rightarrow> FindingDecisionType \<Rightarrow> string \<Rightarrow> json list \<Rightarrow> time \<Rightarrow> finding_row option \<Rightarrow> uuid \<Rightarrow>
   finding_db \<Rightarrow> risk_error + finding_db" where
  "create_finding_decision env f kind reason evidence expires_at duplicate_of actor db =
     res_bind (check_decision env f kind reason evidence expires_at duplicate_of db) (\<lambda>_.
       let (i, db1) = draw db;
           d = \<lparr>de_id = i, de_organization_id = fi_organization_id f, de_finding_id = fi_id f, de_type = kind,
                de_status = FindingDecisionStatus.ACTIVE, de_reason = strip reason, de_evidence = evidence,
                de_expires_at = expires_at, de_duplicate_of = map_option fi_id duplicate_of,
                de_previous_status = fi_status f, de_created_by = actor, de_revoked_by = None, de_revoked_at = None\<rparr>
       in Inr (on_finding (fi_id f) (decided_finding kind reason) (db1\<lparr>fd_decisions := fd_decisions db1 @ [d]\<rparr>)))"

definition restore_decision_projection :: "finding_decision \<Rightarrow> finding_row \<Rightarrow> finding_row" where
  "restore_decision_projection d f =
     f\<lparr>fi_status := (if fi_status f = DECISION_STATUS (de_type d) then de_previous_status d else fi_status f),
       fi_false_positive_reason := (if de_type d = FALSE_POSITIVE then None else fi_false_positive_reason f)\<rparr>"

definition on_decision :: "uuid \<Rightarrow> (finding_decision \<Rightarrow> finding_decision) \<Rightarrow> finding_db \<Rightarrow> finding_db" where
  "on_decision i g db = db\<lparr>fd_decisions := update_where (\<lambda>d. de_id d = i) g (fd_decisions db)\<rparr>"

definition revoke_finding_decision ::
  "finding_env \<Rightarrow> finding_decision \<Rightarrow> uuid \<Rightarrow> finding_db \<Rightarrow> risk_error + finding_db" where
  "revoke_finding_decision env d actor db =
     (if de_status d \<noteq> FindingDecisionStatus.ACTIVE then Inl NotActive
      else Inr (on_finding (de_finding_id d) (restore_decision_projection d)
             (on_decision (de_id d) (\<lambda>x. x\<lparr>de_status := FindingDecisionStatus.REVOKED, de_revoked_by := Some actor,
               de_revoked_at := Some (fe_now env)\<rparr>) db)))"

definition expire_decision :: "finding_decision \<Rightarrow> finding_db \<Rightarrow> finding_db" where
  "expire_decision d db =
     on_finding (de_finding_id d) (restore_decision_projection d)
       (on_decision (de_id d) (de_status_update (\<lambda>_. FindingDecisionStatus.EXPIRED)) db)"

definition expiring :: "time \<Rightarrow> uuid option \<Rightarrow> finding_db \<Rightarrow> finding_decision list" where
  "expiring now org db =
     filter (\<lambda>d. de_status d = FindingDecisionStatus.ACTIVE \<and> de_expires_at d \<le> now \<and>
       given (\<lambda>o'. de_organization_id d = o') org) (fd_decisions db)"

definition expire_finding_decisions :: "time \<Rightarrow> uuid option \<Rightarrow> finding_db \<Rightarrow> finding_db \<times> nat" where
  "expire_finding_decisions now org db = (fold expire_decision (expiring now org db) db, length (expiring now org db))"

end
