(* ===== verification/FindingHandlers.thy ===== *)
theory FindingHandlers
  imports Remediation Identity
begin

text \<open>
  The requests that change findings and what belongs to them: \<^verbatim>\<open>app/api/v1/findings.py\<close>,
  \<^verbatim>\<open>risk_acceptances.py\<close> and \<^verbatim>\<open>risk.py\<close>, with the dependencies of the routes that decide
  who may call them.  A refused request leaves the store as it was.  Audit events, and the ownership
  snapshots of assets, are written elsewhere and are left out.
\<close>

text \<open>The caller, and what its permissions are read from.\<close>

record caller =
  cl_settings :: auth_settings
  cl_identity :: identity
  cl_access :: access_db

definition cl_actor :: "caller \<Rightarrow> principal" where
  "cl_actor c = id_principal (cl_identity c)"

definition allow :: "caller \<Rightarrow> string \<Rightarrow> http_error + unit" where
  "allow c key = require_permission key (cl_identity c) (cl_access c)"

definition allow_step_up :: "finding_env \<Rightarrow> caller \<Rightarrow> string \<Rightarrow> http_error + unit" where
  "allow_step_up env c key = require_step_up_permission (cl_settings c) key (cl_identity c) (fe_now env) (cl_access c)"

text \<open>A row of the caller's organization at a site where it holds the permission.\<close>

definition in_reach :: "caller \<Rightarrow> string \<Rightarrow> string \<Rightarrow> finding_row option \<Rightarrow> http_error + finding_row" where
  "in_reach c key missing f =
     (case site_scope_clause (cl_access c) (cl_actor c) (Some key) of
        Inl e \<Rightarrow> Inl (Http 500 e)
      | Inr clause \<Rightarrow>
          (case f of
             None \<Rightarrow> Inl (Http 404 missing)
           | Some f \<Rightarrow>
               if fi_organization_id f = principal_org (cl_actor c) \<and> clause (Some (fi_site_id f)) then Inr f
               else Inl (Http 404 missing)))"

definition owned_finding :: "caller \<Rightarrow> string \<Rightarrow> uuid \<Rightarrow> finding_db \<Rightarrow> http_error + finding_row" where
  "owned_finding c key i db = in_reach c key ''Finding not found'' (the_finding db i)"

definition or_500 :: "(string + 'a) \<Rightarrow> http_error + 'a" where
  "or_500 r = raised_as (Http 500) r"

definition raised_422 :: "'e + 'a \<Rightarrow> http_error + 'a" where
  "raised_422 r = raised_as (\<lambda>_. Http 422 ''invalid'') r"

definition raised_409 :: "'e + 'a \<Rightarrow> http_error + 'a" where
  "raised_409 r = raised_as (\<lambda>_. Http 409 ''conflict'') r"

definition raised_500 :: "'e + 'a \<Rightarrow> http_error + 'a" where
  "raised_500 r = raised_as (\<lambda>_. Http 500 ''error'') r"

subsection \<open>Workflow of one finding\<close>

text \<open>A field of a partial update: absent, or its value (\<open>null\<close> included).\<close>

record finding_update =
  fu_status :: "FindingStatus option option"
  fu_validation_status :: "ValidationStatus option option"
  fu_owner_user_id :: "uuid option option"
  fu_due_at :: "time option option"
  fu_false_positive_reason :: "string option option"

definition DECIDED_STATUSES :: "FindingStatus list" where
  "DECIDED_STATUSES = [FindingStatus.FALSE_POSITIVE, FindingStatus.DUPLICATE, FindingStatus.SUPPRESSED]"

definition eligible_owner :: "caller \<Rightarrow> uuid \<Rightarrow> uuid option \<Rightarrow> http_error + bool" where
  "eligible_owner c site_id owner_id =
     (case Option.bind owner_id (\<lambda>i. find (\<lambda>u. us_id u = i) (ac_users (cl_access c))) of
        None \<Rightarrow> Inr False
      | Some u \<Rightarrow>
          if us_organization_id u \<noteq> principal_org (cl_actor c) then Inr False
          else or_500 (can_access_site (cl_access c) (UserP u) site_id (Some ''findings.read'')))"

definition check_owner :: "caller \<Rightarrow> finding_row \<Rightarrow> finding_update \<Rightarrow> http_error + unit" where
  "check_owner c f p =
     (case fu_owner_user_id p of
        Some (Some i) \<Rightarrow>
          res_bind (eligible_owner c (fi_site_id f) (Some i)) (\<lambda>b.
            require b (Http 422 ''The selected owner does not have access to this finding's site''))
      | _ \<Rightarrow> Inr ())"

text \<open>The checks before the flush, in their order, and the columns that cannot be null.\<close>

definition check_update :: "caller \<Rightarrow> finding_row \<Rightarrow> finding_update \<Rightarrow> finding_db \<Rightarrow> http_error + unit" where
  "check_update c f p db =
     res_bind (require ((fu_status p = None \<and> fu_false_positive_reason p = None) \<or> active_decision db (fi_id f) = None)
       (Http 409 ''Revoke the active finding decision before changing workflow status'')) (\<lambda>_.
     res_bind (require (given (given (\<lambda>s. s \<notin> set DECIDED_STATUSES)) (fu_status p))
       (Http 422 ''Use the evidence-backed finding decisions API for this status'')) (\<lambda>_.
     res_bind (check_owner c f p) (\<lambda>_.
     res_bind (require (given (\<lambda>d. fi_current_sla f = None \<or> d = fi_due_at f) (fu_due_at p))
       (Http 409 ''Use an approved SLA exception to change a calculated deadline'')) (\<lambda>_.
       require (fu_status p \<noteq> Some None \<and> fu_validation_status p \<noteq> Some None) (Http 500 ''NOT NULL'')))))"

definition changed :: "'a option \<Rightarrow> 'a \<Rightarrow> 'a" where
  "changed new old = or_else new old"

definition updated :: "finding_update \<Rightarrow> time \<Rightarrow> finding_row \<Rightarrow> finding_row" where
  "updated p now f =
     (let st = or_else (fu_status p) None
      in f\<lparr>fi_status := or_else st (fi_status f),
           fi_resolved_at := (if st = Some FindingStatus.RESOLVED then Some now else fi_resolved_at f),
           fi_validation_status := or_else (or_else (fu_validation_status p) None) (fi_validation_status f),
           fi_owner_user_id := or_else (fu_owner_user_id p) (fi_owner_user_id f),
           fi_due_at := or_else (fu_due_at p) (fi_due_at f),
           fi_false_positive_reason := or_else (fu_false_positive_reason p) (fi_false_positive_reason f)\<rparr>)"

definition rescore :: "finding_env \<Rightarrow> uuid \<Rightarrow> risk_profile option \<Rightarrow> bool \<Rightarrow> finding_db \<Rightarrow> http_error + finding_db" where
  "rescore env i profile force db =
     res_bind (raised_500 (score_finding env i profile force db)) (\<lambda>(db1, _). Inr db1)"

definition update_finding ::
  "finding_env \<Rightarrow> caller \<Rightarrow> uuid \<Rightarrow> finding_update \<Rightarrow> finding_db \<Rightarrow> http_error + finding_db" where
  "update_finding env c i p db =
     res_bind (allow c ''findings.read'') (\<lambda>_.
     res_bind (owned_finding c ''findings.read'' i db) (\<lambda>f.
     res_bind (or_500 (has_permission (cl_access c) (cl_actor c) ''findings.manage'' (Some GrantScopeType.SITE)
        (Some (fi_site_id f)))) (\<lambda>can_manage.
     res_bind (require (can_manage \<or> fi_owner_user_id f = Some (principal_id (cl_actor c)))
        (Http 403 ''Only an operator, administrator, or the finding owner may update it'')) (\<lambda>_.
     res_bind (check_update c f p db) (\<lambda>_.
       let db1 = on_finding i (updated p (fe_now env)) db;
           db2 = (if fu_status p = Some (Some FindingStatus.RESOLVED) then complete_finding (fe_now env) f db1 else db1)
       in if fu_validation_status p = None then Inr db2 else rescore env i None False db2)))))"

subsection \<open>Bulk actions\<close>

definition BULK_ACTIONS :: "string list" where
  "BULK_ACTIONS = [''assign'', ''false_positive'', ''start_remediation'', ''triage'']"

record bulk_action =
  ba_finding_ids :: "uuid list"
  ba_action :: string
  ba_owner_user_id :: "uuid option"
  ba_false_positive_reason :: "string option"
  ba_request_id :: "string option"

definition bulk_evidence :: "bulk_action \<Rightarrow> finding_row \<Rightarrow> json list" where
  "bulk_evidence b f =
     [JObj [(''type'', JStr ''audited_api_request''),
            (''reference'', JStr (case or_text (ba_request_id b) None of
               Some r \<Rightarrow> r | None \<Rightarrow> ''finding:'' @ uuid_str (fi_id f)))]]"

definition bulk_reason :: "bulk_action \<Rightarrow> string" where
  "bulk_reason b =
     (case or_text (ba_false_positive_reason b) None of
        Some r \<Rightarrow> r | None \<Rightarrow> ''Legacy bulk false-positive workflow action'')"

definition assigned_to :: "uuid option \<Rightarrow> finding_row \<Rightarrow> finding_row" where
  "assigned_to owner f = f\<lparr>fi_owner_user_id := owner, fi_status := FindingStatus.ASSIGNED\<rparr>"

text \<open>\<open>None\<close>: the identifier is skipped.\<close>

definition bulk_one ::
  "finding_env \<Rightarrow> caller \<Rightarrow> bulk_action \<Rightarrow> finding_row \<Rightarrow> finding_db \<Rightarrow> http_error + finding_db option" where
  "bulk_one env c b f db =
     (if ba_action b = ''assign'' then
        res_bind (eligible_owner c (fi_site_id f) (ba_owner_user_id b)) (\<lambda>ok.
          Inr (if ok then Some (on_finding (fi_id f) (assigned_to (ba_owner_user_id b)) db) else None))
      else if ba_action b = ''false_positive'' then
        res_bind (raised_422 (create_finding_decision env f FALSE_POSITIVE (bulk_reason b) (bulk_evidence b f)
          (fe_now env + days 90) None (principal_id (cl_actor c)) db)) (\<lambda>db1. Inr (Some db1))
      else if ba_action b = ''start_remediation''
      then Inr (Some (on_finding (fi_id f) (fi_status_update (\<lambda>_. FindingStatus.REMEDIATION_IN_PROGRESS)) db))
      else Inr (Some (on_finding (fi_id f) (fi_status_update (\<lambda>_. FindingStatus.TRIAGE)) db)))"

record bulk_result =
  bk_updated :: "uuid list"
  bk_skipped :: nat

fun bulk_loop ::
  "finding_env \<Rightarrow> caller \<Rightarrow> bulk_action \<Rightarrow> (uuid option \<Rightarrow> bool) \<Rightarrow> uuid list \<Rightarrow> finding_db \<times> bulk_result \<Rightarrow>
   http_error + finding_db \<times> bulk_result" where
  "bulk_loop env c b clause [] st = Inr st"
| "bulk_loop env c b clause (i # is) st =
     (case st of (db, r) \<Rightarrow>
        (let skip = r\<lparr>bk_skipped := bk_skipped r + 1\<rparr>
         in case the_finding db i of
              None \<Rightarrow> bulk_loop env c b clause is (db, skip)
            | Some f \<Rightarrow>
                if fi_organization_id f \<noteq> principal_org (cl_actor c) \<or> \<not> clause (Some (fi_site_id f))
                then bulk_loop env c b clause is (db, skip)
                else
                  (case bulk_one env c b f db of
                     Inl e \<Rightarrow> Inl e
                   | Inr None \<Rightarrow> bulk_loop env c b clause is (db, skip)
                   | Inr (Some db1) \<Rightarrow>
                       bulk_loop env c b clause is (db1, r\<lparr>bk_updated := bk_updated r @ [i]\<rparr>))))"

definition bulk_update ::
  "finding_env \<Rightarrow> caller \<Rightarrow> bulk_action \<Rightarrow> finding_db \<Rightarrow> http_error + finding_db \<times> bulk_result" where
  "bulk_update env c b db =
     res_bind (allow c ''findings.read'') (\<lambda>_.
     res_bind (allow_step_up env c ''findings.manage'') (\<lambda>_.
     res_bind (require (ba_action b \<in> set BULK_ACTIONS) (Http 422 ''unknown action'')) (\<lambda>_.
     res_bind (require (ba_action b \<noteq> ''assign'' \<or> ba_owner_user_id b \<noteq> None)
       (Http 422 ''assign requires owner_user_id'')) (\<lambda>_.
     res_bind (or_500 (site_scope_clause (cl_access c) (cl_actor c) (Some ''findings.manage''))) (\<lambda>clause.
       bulk_loop env c b clause (ba_finding_ids b) (db, \<lparr>bk_updated = [], bk_skipped = 0\<rparr>))))))"

subsection \<open>Risk acceptances\<close>

definition request_risk_acceptance ::
  "finding_env \<Rightarrow> caller \<Rightarrow> uuid \<Rightarrow> string \<Rightarrow> string option \<Rightarrow> time option \<Rightarrow> time \<Rightarrow> finding_db \<Rightarrow> http_error + finding_db" where
  "request_risk_acceptance env c i reason controls starts_at expires_at db =
     res_bind (allow c ''findings.read'') (\<lambda>_.
     res_bind (allow c ''findings.manage'') (\<lambda>_.
     res_bind (require (1 \<le> length reason \<and> length reason \<le> 4000 \<and> given (\<lambda>s. length s \<le> 4000) controls)
       (Http 422 ''validation'')) (\<lambda>_.
     res_bind (owned_finding c ''findings.manage'' i db) (\<lambda>f.
       Inr (create_risk_acceptance env f (user_actor_id (cl_actor c)) reason controls starts_at expires_at db)))))"

text \<open>\<open>decide\<close>; the outer \<open>None\<close> is a request that does not return.\<close>

definition decide_acceptance ::
  "finding_env \<Rightarrow> caller \<Rightarrow> uuid \<Rightarrow> bool \<Rightarrow> string option \<Rightarrow> finding_db \<Rightarrow> (http_error + finding_db) option" where
  "decide_acceptance env c i approve notes db =
     (let missing = ''Risk acceptance not found'';
          checked =
            res_bind (allow c ''risk_acceptance.read'') (\<lambda>_.
            res_bind (allow c ''risk_acceptance.approve'') (\<lambda>_.
            case find (\<lambda>r. ra_id r = i \<and> ra_organization_id r = principal_org (cl_actor c)) (fd_acceptances db) of
              None \<Rightarrow> Inl (Http 404 missing)
            | Some r \<Rightarrow>
                res_bind (in_reach c ''risk_acceptance.approve'' missing (the_finding db (ra_finding_id r))) (\<lambda>f.
                res_bind (require (ra_status r = RiskAcceptanceStatus.PENDING)
                  (Http 409 ''Risk acceptance is not pending'')) (\<lambda>_. Inr (r, f)))))
      in case checked of
           Inl e \<Rightarrow> Some (Inl e)
         | Inr (r, f) \<Rightarrow>
             map_option Inr (decide_risk_acceptance env r f approve (Some (principal_id (cl_actor c))) notes db))"

definition run_expiry :: "finding_env \<Rightarrow> caller \<Rightarrow> finding_db \<Rightarrow> http_error + finding_db \<times> nat" where
  "run_expiry env c db =
     res_bind (allow c ''risk_acceptance.read'') (\<lambda>_.
     res_bind (allow c ''risk_acceptance.manage'') (\<lambda>_. Inr (expire_risk_acceptances env db)))"

subsection \<open>Decisions and scores\<close>

definition require_org_permission :: "caller \<Rightarrow> string \<Rightarrow> http_error + unit" where
  "require_org_permission c key =
     res_bind (or_500 (has_permission (cl_access c) (cl_actor c) key (Some GrantScopeType.ORGANIZATION)
       (Some (principal_org (cl_actor c))))) (\<lambda>b. require b (Http 403 ''Organization-wide access is required''))"

record decision_create =
  dn_type :: FindingDecisionType
  dn_reason :: string
  dn_evidence :: "json list"
  dn_expires_at :: time
  dn_duplicate_of :: "uuid option"

text \<open>\<open>FindingDecisionCreate\<close>, except for the bound on the size of the evidence.\<close>

definition decision_valid :: "decision_create \<Rightarrow> bool" where
  "decision_valid p \<longleftrightarrow>
     1 \<le> length (dn_reason p) \<and> length (dn_reason p) \<le> 8000 \<and>
     1 \<le> length (dn_evidence p) \<and> length (dn_evidence p) \<le> 100 \<and>
     (dn_type p = DUPLICATE \<longleftrightarrow> dn_duplicate_of p \<noteq> None) \<and>
     list_all (\<lambda>e. truthy (field_of e ''type'') \<and> truthy (field_of e ''reference'')) (dn_evidence p)"

definition create_decision ::
  "finding_env \<Rightarrow> caller \<Rightarrow> uuid \<Rightarrow> decision_create \<Rightarrow> finding_db \<Rightarrow> http_error + finding_db" where
  "create_decision env c i p db =
     res_bind (allow c ''findings.read'') (\<lambda>_.
     res_bind (allow_step_up env c ''findings.manage'') (\<lambda>_.
     res_bind (require (decision_valid p) (Http 422 ''validation'')) (\<lambda>_.
     res_bind (owned_finding c ''findings.manage'' i db) (\<lambda>f.
     res_bind (case dn_duplicate_of p of None \<Rightarrow> Inr None
               | Some j \<Rightarrow> res_bind (owned_finding c ''findings.manage'' j db) (\<lambda>d. Inr (Some d))) (\<lambda>duplicate.
       raised_422 (create_finding_decision env f (dn_type p) (dn_reason p) (dn_evidence p) (dn_expires_at p)
         duplicate (principal_id (cl_actor c)) db))))))"

definition revoke_decision ::
  "finding_env \<Rightarrow> caller \<Rightarrow> uuid \<Rightarrow> uuid \<Rightarrow> finding_db \<Rightarrow> http_error + finding_db" where
  "revoke_decision env c i decision_id db =
     res_bind (allow c ''findings.read'') (\<lambda>_.
     res_bind (allow_step_up env c ''findings.manage'') (\<lambda>_.
     res_bind (owned_finding c ''findings.manage'' i db) (\<lambda>_.
       case find (\<lambda>d. de_id d = decision_id) (fd_decisions db) of
         None \<Rightarrow> Inl (Http 404 ''Finding decision not found'')
       | Some d \<Rightarrow>
           if de_organization_id d \<noteq> principal_org (cl_actor c) \<or> de_finding_id d \<noteq> i
           then Inl (Http 404 ''Finding decision not found'')
           else raised_422 (revoke_finding_decision env d (principal_id (cl_actor c)) db))))"

definition expire_decisions :: "finding_env \<Rightarrow> caller \<Rightarrow> finding_db \<Rightarrow> http_error + finding_db \<times> nat" where
  "expire_decisions env c db =
     res_bind (allow c ''findings.read'') (\<lambda>_.
     res_bind (allow_step_up env c ''findings.manage'') (\<lambda>_.
     res_bind (require_org_permission c ''findings.manage'') (\<lambda>_.
       Inr (expire_finding_decisions (fe_now env) (Some (principal_org (cl_actor c))) db))))"

definition recalculate_score :: "finding_env \<Rightarrow> caller \<Rightarrow> uuid \<Rightarrow> finding_db \<Rightarrow> http_error + finding_db" where
  "recalculate_score env c i db =
     res_bind (allow c ''findings.read'') (\<lambda>_.
     res_bind (allow_step_up env c ''findings.manage'') (\<lambda>_.
     res_bind (owned_finding c ''findings.manage'' i db) (\<lambda>f. rescore env i None True db)))"

fun rescore_all :: "finding_env \<Rightarrow> risk_profile \<Rightarrow> bool \<Rightarrow> uuid list \<Rightarrow> finding_db \<Rightarrow> http_error + finding_db" where
  "rescore_all env p force [] db = Inr db"
| "rescore_all env p force (i # is) db = res_bind (rescore env i (Some p) force db) (rescore_all env p force is)"

definition findings_of :: "uuid \<Rightarrow> finding_db \<Rightarrow> uuid list" where
  "findings_of org db = map fi_id (filter (\<lambda>f. fi_organization_id f = org) (fd_findings db))"

record profile_create =
  pc_name :: string
  pc_description :: "string option"
  pc_weights :: "(string \<times> rat) list"
  pc_make_default :: bool

definition create_risk_profile ::
  "finding_env \<Rightarrow> caller \<Rightarrow> profile_create \<Rightarrow> finding_db \<Rightarrow> http_error + finding_db" where
  "create_risk_profile env c p db =
     res_bind (allow c ''findings.read'') (\<lambda>_.
     res_bind (allow_step_up env c ''findings.manage'') (\<lambda>_.
     res_bind (require (1 \<le> length (pc_name p) \<and> length (pc_name p) \<le> 255 \<and>
       given (\<lambda>s. length s \<le> 1024) (pc_description p)) (Http 422 ''validation'')) (\<lambda>_.
     res_bind (require_org_permission c ''findings.manage'') (\<lambda>_.
     res_bind (raised_422 (create_profile_version (principal_org (cl_actor c)) (pc_name p) (pc_description p)
       (pc_weights p) (pc_make_default p) db)) (\<lambda>(db1, profile).
       if pc_make_default p
       then rescore_all env profile False (findings_of (principal_org (cl_actor c)) db1) db1
       else Inr db1)))))"

definition activate_risk_profile :: "finding_env \<Rightarrow> caller \<Rightarrow> uuid \<Rightarrow> finding_db \<Rightarrow> http_error + finding_db" where
  "activate_risk_profile env c i db =
     res_bind (allow c ''findings.read'') (\<lambda>_.
     res_bind (allow_step_up env c ''findings.manage'') (\<lambda>_.
     res_bind (require_org_permission c ''findings.manage'') (\<lambda>_.
       case find (\<lambda>p. rp_id p = i) (fd_profiles db) of
         None \<Rightarrow> Inl (Http 404 ''Risk profile not found'')
       | Some p \<Rightarrow>
           if rp_organization_id p \<noteq> principal_org (cl_actor c) then Inl (Http 404 ''Risk profile not found'')
           else rescore_all env p True (findings_of (principal_org (cl_actor c)) db) (activate_profile p db))))"

end
