(* ===== verification/RemediationUnits.thy ===== *)
theory RemediationUnits
  imports FindingHandlers
begin

text \<open>
  Remediation units, \<^verbatim>\<open>app/services/risk.py\<close> and \<^verbatim>\<open>app/api/v1/risk.py\<close>: automatic grouping of findings
  by exact keys only, suggestions by shared words that someone reviews, and the requests that edit units.
  Texts are ASCII: \<open>casefold\<close> is \<open>lower\<close>.
\<close>

subsection \<open>Tables\<close>

record remediation_unit =
  ru_id :: uuid
  ru_organization_id :: uuid
  ru_site_id :: uuid
  ru_key_type :: RemediationKeyType
  ru_exact_key :: string
  ru_title :: string
  ru_description :: "string option"
  ru_status :: RemediationUnitStatus
  ru_owner_user_id :: "uuid option"
  ru_automatically_created :: bool
  ru_created_by :: "uuid option"

record unit_membership =
  um_organization_id :: uuid
  um_unit_id :: uuid
  um_finding_id :: uuid
  um_match_basis :: json
  um_added_by :: "uuid option"

record remediation_suggestion =
  rs_id :: uuid
  rs_organization_id :: uuid
  rs_site_id :: uuid
  rs_unit_id :: uuid
  rs_finding_id :: uuid
  rs_similarity :: rat
  rs_shared_tokens :: "string list"
  rs_status :: RemediationSuggestionStatus
  rs_reviewed_by :: "uuid option"
  rs_reviewed_at :: "time option"

record unit_db =
  un_next :: uuid
  un_units :: "remediation_unit list"
  un_members :: "unit_membership list"
  un_suggestions :: "remediation_suggestion list"

fun key_type_value :: "RemediationKeyType \<Rightarrow> string" where
  "key_type_value CVE = ''cve''"
| "key_type_value PACKAGE = ''package''"
| "key_type_value PRODUCT = ''product''"
| "key_type_value REMEDIATION = ''remediation''"
| "key_type_value MANUAL = ''manual''"

subsection \<open>Exact keys\<close>

definition normalize_exact :: "string \<Rightarrow> string" where
  "normalize_exact s = collapse (lower s)"

type_synonym exact_key = "RemediationKeyType \<times> string \<times> string"

definition cve_keys :: "finding_row \<Rightarrow> exact_key list" where
  "cve_keys f =
     map (\<lambda>c. (CVE, c, ''Remediate '' @ c)) (sort (remdups (map upper (filter (\<lambda>c. c \<noteq> []) (fi_cve_ids f)))))"

definition package_keys :: "finding_row \<Rightarrow> exact_key list" where
  "package_keys f =
     (case as_str (field_of (fi_evidence f) ''package'') of
        None \<Rightarrow> []
      | Some p \<Rightarrow> if normalize_exact p = [] then [] else [(PACKAGE, normalize_exact p, ''Update package '' @ strip p)])"

definition product_keys :: "finding_db \<Rightarrow> finding_row \<Rightarrow> exact_key list" where
  "product_keys db f =
     (case Option.bind (Option.bind (fi_service_id f) (\<lambda>i. find (\<lambda>s. sr_id s = i) (fd_services db))) sr_product of
        None \<Rightarrow> []
      | Some p \<Rightarrow> if normalize_exact p = [] then [] else [(PRODUCT, normalize_exact p, ''Remediate '' @ strip p)])"

definition advice_keys :: "finding_env \<Rightarrow> finding_row \<Rightarrow> exact_key list" where
  "advice_keys env f =
     (case fi_remediation f of
        None \<Rightarrow> []
      | Some r \<Rightarrow>
          if normalize_exact r = [] then [] else [(REMEDIATION, fe_sha env (normalize_exact r), take 512 r)])"

definition exact_remediation_keys :: "finding_env \<Rightarrow> finding_db \<Rightarrow> finding_row \<Rightarrow> exact_key list" where
  "exact_remediation_keys env db f =
     first_occurrences (cve_keys f @ package_keys f @ product_keys db f @ advice_keys env f)"

subsection \<open>Grouping\<close>

definition the_unit :: "unit_db \<Rightarrow> uuid \<Rightarrow> uuid \<Rightarrow> RemediationKeyType \<Rightarrow> string \<Rightarrow> remediation_unit option" where
  "the_unit udb org site kind key =
     find (\<lambda>u. ru_organization_id u = org \<and> ru_site_id u = site \<and> ru_key_type u = kind \<and> ru_exact_key u = key)
       (un_units udb)"

definition is_member :: "unit_db \<Rightarrow> uuid \<Rightarrow> uuid \<Rightarrow> bool" where
  "is_member udb u f \<longleftrightarrow> list_ex (\<lambda>m. um_unit_id m = u \<and> um_finding_id m = f) (un_members udb)"

definition new_unit ::
  "uuid \<Rightarrow> uuid \<Rightarrow> uuid \<Rightarrow> RemediationKeyType \<Rightarrow> string \<Rightarrow> string \<Rightarrow> string option \<Rightarrow> uuid option \<Rightarrow> bool \<Rightarrow> uuid option \<Rightarrow>
   remediation_unit" where
  "new_unit i org site kind key title description owner automatic actor =
     \<lparr>ru_id = i, ru_organization_id = org, ru_site_id = site, ru_key_type = kind, ru_exact_key = key, ru_title = title,
      ru_description = description, ru_status = OPEN, ru_owner_user_id = owner,
      ru_automatically_created = automatic, ru_created_by = actor\<rparr>"

definition add_unit :: "remediation_unit \<Rightarrow> unit_db \<Rightarrow> unit_db" where
  "add_unit u udb = udb\<lparr>un_next := un_next udb + 1, un_units := un_units udb @ [u]\<rparr>"

definition add_member :: "uuid \<Rightarrow> uuid \<Rightarrow> uuid \<Rightarrow> json \<Rightarrow> uuid option \<Rightarrow> unit_db \<Rightarrow> unit_db" where
  "add_member org u f basis actor udb =
     udb\<lparr>un_members := un_members udb @ [\<lparr>um_organization_id = org, um_unit_id = u, um_finding_id = f,
       um_match_basis = basis, um_added_by = actor\<rparr>]\<rparr>"

definition exact_basis :: "RemediationKeyType \<Rightarrow> string \<Rightarrow> json" where
  "exact_basis kind key =
     JObj [(''method'', JStr ''exact''), (''key_type'', JStr (key_type_value kind)), (''key'', JStr key)]"

text \<open>One key of one finding; the counters of units and of memberships created.\<close>

definition group_key ::
  "uuid option \<Rightarrow> finding_row \<Rightarrow> exact_key \<Rightarrow> unit_db \<times> nat \<times> nat \<Rightarrow> unit_db \<times> nat \<times> nat" where
  "group_key actor f k st =
     (case (k, st) of ((kind, key, title), (udb, created, memberships)) \<Rightarrow>
        (let (udb1, u, created1) =
               (case the_unit udb (fi_organization_id f) (fi_site_id f) kind key of
                  Some u \<Rightarrow> (udb, u, created)
                | None \<Rightarrow>
                    (let u = new_unit (un_next udb) (fi_organization_id f) (fi_site_id f) kind key title None None True actor
                     in (add_unit u udb, u, created + 1)))
         in if is_member udb1 (ru_id u) (fi_id f) then (udb1, created1, memberships)
            else (add_member (fi_organization_id f) (ru_id u) (fi_id f) (exact_basis kind key) actor udb1,
                  created1, memberships + 1)))"

definition auto_group_findings ::
  "finding_env \<Rightarrow> finding_db \<Rightarrow> uuid option \<Rightarrow> finding_row list \<Rightarrow> unit_db \<Rightarrow> unit_db \<times> nat \<times> nat" where
  "auto_group_findings env db actor fs udb =
     fold (\<lambda>f. fold (group_key actor f) (exact_remediation_keys env db f)) fs (udb, 0, 0)"

subsection \<open>Suggestions\<close>

text \<open>\<open>[a-z0-9][a-z0-9_.+-]+\<close>\<close>

definition token_start :: "char \<Rightarrow> bool" where
  "token_start c \<longleftrightarrow> is_lower c \<or> is_digit c"

definition tok_char :: "char \<Rightarrow> bool" where
  "tok_char c \<longleftrightarrow> token_start c \<or> c \<in> set ''_.+-''"

function token_list :: "string \<Rightarrow> string list" where
  "token_list [] = []"
| "token_list (c # cs) =
     (if token_start c \<and> cs \<noteq> [] \<and> tok_char (hd cs)
      then (c # takeWhile tok_char cs) # token_list (dropWhile tok_char cs)
      else token_list cs)"
  by pat_completeness auto
termination by (relation "measure length") (auto simp: le_imp_less_Suc length_dropWhile_le)

definition tokens :: "string \<Rightarrow> string list" where
  "tokens s = remdups (token_list (lower s))"

definition similarity :: "string list \<Rightarrow> string list \<Rightarrow> rat" where
  "similarity base candidate =
     (let union = remdups (base @ candidate)
      in if union = [] then 0
         else of_nat (length (filter (\<lambda>t. t \<in> set candidate) base)) / of_nat (length union))"

definition suggest_one ::
  "remediation_unit \<Rightarrow> string list \<Rightarrow> rat \<Rightarrow> finding_row \<Rightarrow> unit_db \<Rightarrow> unit_db" where
  "suggest_one u base threshold f udb =
     (let candidate = tokens (fi_title f @ '' '' @ or_else (fi_remediation f) []); sim = similarity base candidate
      in if sim < threshold \<or> is_member udb (ru_id u) (fi_id f) \<or>
            list_ex (\<lambda>s. rs_unit_id s = ru_id u \<and> rs_finding_id s = fi_id f) (un_suggestions udb) then udb
         else udb\<lparr>un_next := un_next udb + 1, un_suggestions := un_suggestions udb @
                [\<lparr>rs_id = un_next udb, rs_organization_id = ru_organization_id u, rs_site_id = ru_site_id u,
                  rs_unit_id = ru_id u, rs_finding_id = fi_id f, rs_similarity = py_round 4 sim,
                  rs_shared_tokens = sort (filter (\<lambda>t. t \<in> set candidate) base), rs_status = PENDING,
                  rs_reviewed_by = None, rs_reviewed_at = None\<rparr>]\<rparr>)"

definition suggest_fuzzy_memberships ::
  "remediation_unit \<Rightarrow> finding_row list \<Rightarrow> rat \<Rightarrow> unit_db \<Rightarrow> unit_db" where
  "suggest_fuzzy_memberships u fs threshold udb =
     (let base = tokens (ru_title u @ '' '' @ or_else (ru_description u) [])
      in if base = [] then udb else fold (suggest_one u base threshold) fs udb)"

definition fuzzy_basis :: "remediation_suggestion \<Rightarrow> json" where
  "fuzzy_basis s =
     JObj [(''method'', JStr ''reviewed_fuzzy_suggestion''), (''suggestion_id'', JStr (uuid_str (rs_id s))),
           (''similarity'', JFloat (rs_similarity s))]"

definition review_suggestion ::
  "remediation_suggestion \<Rightarrow> bool \<Rightarrow> uuid \<Rightarrow> time \<Rightarrow> unit_db \<Rightarrow> risk_error + unit_db" where
  "review_suggestion s accept reviewer now udb =
     (if rs_status s \<noteq> PENDING then Inl AlreadyReviewed
      else
        (let udb1 = udb\<lparr>un_suggestions := update_where (\<lambda>x. rs_id x = rs_id s)
               (\<lambda>x. x\<lparr>rs_status := (if accept then ACCEPTED else REJECTED), rs_reviewed_by := Some reviewer,
                      rs_reviewed_at := Some now\<rparr>) (un_suggestions udb)\<rparr>
         in Inr (if accept \<and> \<not> is_member udb1 (rs_unit_id s) (rs_finding_id s)
                 then add_member (rs_organization_id s) (rs_unit_id s) (rs_finding_id s) (fuzzy_basis s) (Some reviewer) udb1
                 else udb1)))"

subsection \<open>Requests\<close>

definition chosen_findings :: "caller \<Rightarrow> uuid list \<Rightarrow> finding_db \<Rightarrow> http_error + finding_row list" where
  "chosen_findings c ids db =
     (case site_scope_clause (cl_access c) (cl_actor c) (Some ''remediation.manage'') of
        Inl e \<Rightarrow> Inl (Http 500 e)
      | Inr clause \<Rightarrow>
          (let rows = filter (\<lambda>f. fi_id f \<in> set ids \<and> fi_organization_id f = principal_org (cl_actor c) \<and>
                 clause (Some (fi_site_id f))) (fd_findings db)
           in if length rows \<noteq> length (remdups ids) then Inl (Http 404 ''One or more findings were not found'')
              else Inr rows))"

definition owned_unit :: "caller \<Rightarrow> uuid \<Rightarrow> unit_db \<Rightarrow> http_error + remediation_unit" where
  "owned_unit c i udb =
     (case find (\<lambda>u. ru_id u = i) (un_units udb) of
        None \<Rightarrow> Inl (Http 404 ''Remediation unit not found'')
      | Some u \<Rightarrow>
          if ru_organization_id u \<noteq> principal_org (cl_actor c) then Inl (Http 404 ''Remediation unit not found'')
          else res_bind (require_site_access (cl_access c) (cl_actor c) (ru_site_id u) ''Remediation unit not found''
                 (Some ''remediation.manage'')) (\<lambda>_. Inr u))"

definition validate_owner :: "caller \<Rightarrow> uuid \<Rightarrow> uuid option \<Rightarrow> http_error + unit" where
  "validate_owner c site_id owner =
     (case owner of
        None \<Rightarrow> Inr ()
      | Some i \<Rightarrow>
          (let no = Http 422 ''The selected owner does not have remediation access to this site''
           in case find (\<lambda>u. us_id u = i) (ac_users (cl_access c)) of
                None \<Rightarrow> Inl no
              | Some u \<Rightarrow>
                  if us_organization_id u \<noteq> principal_org (cl_actor c) then Inl no
                  else res_bind (or_500 (can_access_site (cl_access c) (UserP u) site_id (Some ''remediation.read'')))
                         (\<lambda>b. require b no)))"

record unit_create =
  uc_site_id :: uuid
  uc_key_type :: RemediationKeyType
  uc_exact_key :: string
  uc_title :: string
  uc_description :: "string option"
  uc_owner_user_id :: "uuid option"
  uc_finding_ids :: "uuid list"

definition unit_create_valid :: "unit_create \<Rightarrow> bool" where
  "unit_create_valid p \<longleftrightarrow>
     1 \<le> length (uc_exact_key p) \<and> length (uc_exact_key p) \<le> 512 \<and> 1 \<le> length (uc_title p) \<and>
     length (uc_title p) \<le> 512 \<and> given (\<lambda>s. length s \<le> 8000) (uc_description p) \<and> length (uc_finding_ids p) \<le> 500"

definition guard_units :: "finding_env \<Rightarrow> caller \<Rightarrow> http_error + unit" where
  "guard_units env c = res_bind (allow c ''remediation.read'') (\<lambda>_. allow_step_up env c ''remediation.manage'')"

definition manual_basis :: json where
  "manual_basis = JObj [(''method'', JStr ''manual'')]"

definition create_unit ::
  "finding_env \<Rightarrow> caller \<Rightarrow> unit_create \<Rightarrow> finding_db \<Rightarrow> unit_db \<Rightarrow> http_error + unit_db" where
  "create_unit env c p db udb =
     (let org = principal_org (cl_actor c); key = normalize_exact (uc_exact_key p);
          actor = Some (principal_id (cl_actor c))
      in res_bind (guard_units env c) (\<lambda>_.
         res_bind (require (unit_create_valid p) (Http 422 ''validation'')) (\<lambda>_.
         res_bind (require_site_access (cl_access c) (cl_actor c) (uc_site_id p) ''Resource not found''
           (Some ''remediation.manage'')) (\<lambda>_.
         res_bind (chosen_findings c (uc_finding_ids p) db) (\<lambda>fs.
         res_bind (require (list_all (\<lambda>f. fi_site_id f = uc_site_id p) fs)
           (Http 422 ''All findings must belong to the unit site'')) (\<lambda>_.
         res_bind (validate_owner c (uc_site_id p) (uc_owner_user_id p)) (\<lambda>_.
         res_bind (require (the_unit udb org (uc_site_id p) (uc_key_type p) key = None)
           (Http 409 ''A remediation unit already uses this exact key'')) (\<lambda>_.
           let u = new_unit (un_next udb) org (uc_site_id p) (uc_key_type p) key (collapse (uc_title p))
                     (uc_description p) (uc_owner_user_id p) False actor
           in Inr (fold (\<lambda>f. add_member org (ru_id u) (fi_id f) manual_basis actor) fs (add_unit u udb))))))))))"

record unit_update =
  uu_title :: "string option option"
  uu_description :: "string option option"
  uu_status :: "RemediationUnitStatus option option"
  uu_owner_user_id :: "uuid option option"

definition unit_update_valid :: "unit_update \<Rightarrow> bool" where
  "unit_update_valid p \<longleftrightarrow>
     given (given (\<lambda>s. 1 \<le> length s \<and> length s \<le> 512)) (uu_title p) \<and>
     given (given (\<lambda>s. length s \<le> 8000)) (uu_description p)"

definition patched_unit :: "unit_update \<Rightarrow> remediation_unit \<Rightarrow> remediation_unit" where
  "patched_unit p u =
     u\<lparr>ru_title := or_else (or_else (uu_title p) None) (ru_title u),
       ru_description := or_else (uu_description p) (ru_description u),
       ru_status := or_else (or_else (uu_status p) None) (ru_status u),
       ru_owner_user_id := or_else (uu_owner_user_id p) (ru_owner_user_id u)\<rparr>"

text \<open>The title and the status cannot be null.\<close>

definition update_unit ::
  "finding_env \<Rightarrow> caller \<Rightarrow> uuid \<Rightarrow> unit_update \<Rightarrow> unit_db \<Rightarrow> http_error + unit_db" where
  "update_unit env c i p udb =
     res_bind (guard_units env c) (\<lambda>_.
     res_bind (require (unit_update_valid p) (Http 422 ''validation'')) (\<lambda>_.
     res_bind (owned_unit c i udb) (\<lambda>u.
     res_bind (validate_owner c (ru_site_id u) (or_else (uu_owner_user_id p) None)) (\<lambda>_.
     res_bind (require (uu_title p \<noteq> Some None \<and> uu_status p \<noteq> Some None) (Http 500 ''NOT NULL'')) (\<lambda>_.
       Inr (udb\<lparr>un_units := update_where (\<lambda>x. ru_id x = i) (patched_unit p) (un_units udb)\<rparr>))))))"

definition auto_group ::
  "finding_env \<Rightarrow> caller \<Rightarrow> uuid list \<Rightarrow> finding_db \<Rightarrow> unit_db \<Rightarrow> http_error + unit_db \<times> nat \<times> nat" where
  "auto_group env c ids db udb =
     res_bind (guard_units env c) (\<lambda>_.
     res_bind (require (1 \<le> length ids \<and> length ids \<le> 500) (Http 422 ''validation'')) (\<lambda>_.
     res_bind (chosen_findings c ids db) (\<lambda>fs.
       Inr (auto_group_findings env db (Some (principal_id (cl_actor c))) fs udb))))"

definition add_membership ::
  "finding_env \<Rightarrow> caller \<Rightarrow> uuid \<Rightarrow> uuid \<Rightarrow> finding_db \<Rightarrow> unit_db \<Rightarrow> http_error + unit_db" where
  "add_membership env c i finding_id db udb =
     res_bind (guard_units env c) (\<lambda>_.
     res_bind (owned_unit c i udb) (\<lambda>u.
     res_bind (owned_finding c ''remediation.manage'' finding_id db) (\<lambda>f.
     res_bind (require (fi_site_id f = ru_site_id u) (Http 422 ''Finding and unit must belong to one site'')) (\<lambda>_.
       Inr (if is_member udb i finding_id then udb
            else add_member (principal_org (cl_actor c)) i finding_id manual_basis (Some (principal_id (cl_actor c))) udb)))))"

definition remove_membership ::
  "finding_env \<Rightarrow> caller \<Rightarrow> uuid \<Rightarrow> uuid \<Rightarrow> unit_db \<Rightarrow> http_error + unit_db" where
  "remove_membership env c i finding_id udb =
     res_bind (guard_units env c) (\<lambda>_.
     res_bind (owned_unit c i udb) (\<lambda>u.
     res_bind (require (is_member udb i finding_id) (Http 404 ''Remediation membership not found'')) (\<lambda>_.
       Inr (udb\<lparr>un_members := filter (\<lambda>m. \<not> (um_unit_id m = i \<and> um_finding_id m = finding_id)) (un_members udb)\<rparr>))))"

definition create_suggestions ::
  "finding_env \<Rightarrow> caller \<Rightarrow> uuid \<Rightarrow> uuid list \<Rightarrow> rat \<Rightarrow> finding_db \<Rightarrow> unit_db \<Rightarrow> http_error + unit_db" where
  "create_suggestions env c i ids threshold db udb =
     res_bind (guard_units env c) (\<lambda>_.
     res_bind (require (1 \<le> length ids \<and> length ids \<le> 500 \<and> 1 / 10 \<le> threshold \<and> threshold \<le> 1)
       (Http 422 ''validation'')) (\<lambda>_.
     res_bind (owned_unit c i udb) (\<lambda>u.
     res_bind (chosen_findings c ids db) (\<lambda>fs.
     res_bind (require (list_all (\<lambda>f. fi_site_id f = ru_site_id u) fs)
       (Http 422 ''All findings must belong to the unit site'')) (\<lambda>_.
       Inr (suggest_fuzzy_memberships u fs threshold udb))))))"

definition review_suggestion_request ::
  "finding_env \<Rightarrow> caller \<Rightarrow> uuid \<Rightarrow> bool \<Rightarrow> unit_db \<Rightarrow> http_error + unit_db" where
  "review_suggestion_request env c i accept udb =
     (let missing = Http 404 ''Remediation suggestion not found''
      in res_bind (guard_units env c) (\<lambda>_.
         case find (\<lambda>s. rs_id s = i) (un_suggestions udb) of
           None \<Rightarrow> Inl missing
         | Some s \<Rightarrow>
             if rs_organization_id s \<noteq> principal_org (cl_actor c) then Inl missing
             else res_bind (require_site_access (cl_access c) (cl_actor c) (rs_site_id s) ''Resource not found''
                    (Some ''remediation.manage'')) (\<lambda>_.
                  raised_422 (review_suggestion s accept (principal_id (cl_actor c)) (fe_now env) udb))))"

subsection \<open>Grouping again changes nothing\<close>

definition grouped :: "unit_db \<Rightarrow> finding_row \<Rightarrow> exact_key \<Rightarrow> bool" where
  "grouped udb f k \<longleftrightarrow>
     (case k of (kind, key, _) \<Rightarrow>
        (case the_unit udb (fi_organization_id f) (fi_site_id f) kind key of
           None \<Rightarrow> False | Some u \<Rightarrow> is_member udb (ru_id u) (fi_id f)))"

lemma the_unit_add:
  "the_unit (add_unit u udb) org site kind key =
     (case the_unit udb org site kind key of
        Some v \<Rightarrow> Some v
      | None \<Rightarrow> if ru_organization_id u = org \<and> ru_site_id u = site \<and> ru_key_type u = kind \<and> ru_exact_key u = key
                then Some u else None)"
proof -
  have "find P (us @ [u]) = (case find P us of Some v \<Rightarrow> Some v | None \<Rightarrow> if P u then Some u else None)"
    for P and us :: "remediation_unit list" by (induction us) auto
  then show ?thesis by (simp add: the_unit_def add_unit_def)
qed

lemma is_member_add_unit [simp]: "is_member (add_unit u udb) v f = is_member udb v f"
  by (simp add: is_member_def add_unit_def)

lemma the_unit_add_member [simp]:
  "the_unit (add_member org u f basis actor udb) org' site kind key = the_unit udb org' site kind key"
  by (simp add: the_unit_def add_member_def)

lemma is_member_add_member [simp]:
  "is_member (add_member org u f basis actor udb) v g \<longleftrightarrow> is_member udb v g \<or> (v = u \<and> g = f)"
  by (auto simp: is_member_def add_member_def)

lemma group_key_grouped: "grouped (fst (group_key actor f k st)) f k"
  by (cases k; cases st)
    (auto simp: group_key_def grouped_def Let_def the_unit_add new_unit_def split: option.splits)

lemma group_key_keeps:
  assumes "grouped (fst st) g k'"
  shows "grouped (fst (group_key actor f k st)) g k'"
proof -
  obtain kind key title where k: "k = (kind, key, title)" by (cases k)
  obtain udb n m where st: "st = (udb, n, m)" by (cases st)
  have add: "grouped (add_unit u udb) g k'" for u
    using assms by (cases k') (auto simp: st grouped_def the_unit_add split: option.splits)
  have member: "grouped (add_member org u i basis actor v) g k'" if "grouped v g k'" for v org u i basis
    using that by (cases k') (auto simp: grouped_def split: option.splits)
  show ?thesis using assms add member by (auto simp: k st group_key_def Let_def split: option.splits)
qed

lemma group_key_again: "grouped udb f k \<Longrightarrow> group_key actor f k (udb, n, m) = (udb, n, m)"
  by (cases k) (auto simp: group_key_def grouped_def Let_def split: option.splits)

lemma fold_keeps: "grouped (fst st) g k \<Longrightarrow> grouped (fst (fold (group_key actor f) ks st)) g k"
  by (induction ks arbitrary: st) (simp_all add: group_key_keeps)

lemma fold_grouped: "k \<in> set ks \<Longrightarrow> grouped (fst (fold (group_key actor f) ks st)) f k"
proof (induction ks arbitrary: st)
  case (Cons a ks)
  then show ?case by (cases "k = a") (simp_all add: group_key_grouped fold_keeps)
qed simp

lemma fold_all_keeps:
  "grouped (fst st) g k \<Longrightarrow> grouped (fst (fold (\<lambda>f. fold (group_key actor f) (keys f)) fs st)) g k"
  by (induction fs arbitrary: st) (simp_all add: fold_keeps)

lemma fold_all_grouped:
  "f \<in> set fs \<Longrightarrow> k \<in> set (keys f) \<Longrightarrow> grouped (fst (fold (\<lambda>f. fold (group_key actor f) (keys f)) fs st)) f k"
proof (induction fs arbitrary: st)
  case (Cons g fs)
  then show ?case by (cases "f = g") (simp_all add: fold_grouped fold_all_keeps)
qed simp

lemma fold_again:
  "\<forall>k \<in> set ks. grouped udb f k \<Longrightarrow> fold (group_key actor f) ks (udb, n, m) = (udb, n, m)"
  by (induction ks) (auto simp: group_key_again)

lemma fold_all_again:
  "\<forall>f \<in> set fs. \<forall>k \<in> set (keys f). grouped udb f k \<Longrightarrow>
   fold (\<lambda>f. fold (group_key actor f) (keys f)) fs (udb, n, m) = (udb, n, m)"
  by (induction fs) (auto simp: fold_again)

text \<open>Automatic grouping makes every given finding a member of the unit of each of its exact keys at its
  site, and grouping the same findings again creates no unit and no membership.\<close>

theorem auto_group_is_idempotent:
  "auto_group_findings env db actor' fs (fst (auto_group_findings env db actor fs udb)) =
     (fst (auto_group_findings env db actor fs udb), 0, 0) \<and>
   list_all (\<lambda>f. list_all (grouped (fst (auto_group_findings env db actor fs udb)) f)
     (exact_remediation_keys env db f)) fs"
proof -
  have "\<forall>f \<in> set fs. \<forall>k \<in> set (exact_remediation_keys env db f).
      grouped (fst (auto_group_findings env db actor fs udb)) f k"
    using fold_all_grouped [where keys = "exact_remediation_keys env db"] unfolding auto_group_findings_def by blast
  then show ?thesis using fold_all_again by (simp add: auto_group_findings_def list_all_iff)
qed

end
