(* ===== verification/FindingInvariant.thy ===== *)
theory FindingInvariant
  imports Remediation
begin

text \<open>
  The findings inventory over time.  Every operation is a sequence of atomic \<open>change\<close>s; the
  invariant \<open>inventory_ok\<close> is kept by each of them, and so by every operation.
\<close>

subsection \<open>The invariant\<close>

text \<open>The deadline of a finding is the one of its current calculation.\<close>

definition deadline_ok :: "finding_db \<Rightarrow> finding_row \<Rightarrow> bool" where
  "deadline_ok db f \<longleftrightarrow>
     (case fi_current_sla f of
        None \<Rightarrow> True
      | Some k \<Rightarrow> (\<exists>c \<in> set (fd_calculations db).
          sk_id c = k \<and> sk_finding_id c = fi_id f \<and> fi_due_at f = Some (sk_due_at c)))"

text \<open>The score of a finding is the one of its current snapshot.\<close>

definition score_ok :: "finding_db \<Rightarrow> finding_row \<Rightarrow> bool" where
  "score_ok db f \<longleftrightarrow>
     (case fi_current_score f of
        None \<Rightarrow> fi_risk_score f = None
      | Some k \<Rightarrow> (\<exists>s \<in> set (fd_snapshots db).
          ss_id s = k \<and> ss_finding_id s = fi_id f \<and> fi_risk_score f = Some (ss_score s)))"

text \<open>A previous calculation is an earlier one of the same finding.\<close>

definition chained :: "finding_db \<Rightarrow> sla_calculation \<Rightarrow> bool" where
  "chained db c \<longleftrightarrow>
     given (\<lambda>p. p < sk_id c \<and>
       (\<exists>d \<in> set (fd_calculations db). sk_id d = p \<and> sk_finding_id d = sk_finding_id c)) (sk_previous_id c)"

definition in_range :: "score_snapshot \<Rightarrow> bool" where
  "in_range s \<longleftrightarrow> 0 \<le> ss_score s \<and> ss_score s \<le> 100"

definition dedup_keys :: "finding_db \<Rightarrow> (uuid \<times> string) list" where
  "dedup_keys db = map (\<lambda>f. (fi_organization_id f, fi_canonical_key f)) (fd_findings db)"

definition active_decisions :: "finding_db \<Rightarrow> uuid list" where
  "active_decisions db =
     map de_finding_id (filter (\<lambda>d. de_status d = FindingDecisionStatus.ACTIVE) (fd_decisions db))"

definition fresh_ids :: "finding_db \<Rightarrow> uuid list \<Rightarrow> bool" where
  "fresh_ids db is \<longleftrightarrow> distinct is \<and> list_all (\<lambda>i. i < fd_next db) is"

definition inventory_ok :: "finding_db \<Rightarrow> bool" where
  "inventory_ok db \<longleftrightarrow>
     fresh_ids db (map fi_id (fd_findings db)) \<and>
     fresh_ids db (map sk_id (fd_calculations db)) \<and>
     fresh_ids db (map ss_id (fd_snapshots db)) \<and>
     distinct (dedup_keys db) \<and> distinct (active_decisions db) \<and>
     (\<forall>f \<in> set (fd_findings db). deadline_ok db f \<and> score_ok db f) \<and>
     (\<forall>c \<in> set (fd_calculations db). chained db c) \<and>
     (\<forall>s \<in> set (fd_snapshots db). in_range s) \<and>
     (\<forall>p \<in> set (fd_profiles db). weights_ok (rp_weights p)) \<and>
     (\<forall>p \<in> set (fd_policies db). due_days_valid (sp_due_days p))"

lemma inventory_findings:
  "inventory_ok db \<Longrightarrow> distinct (map fi_id (fd_findings db))"
  by (simp add: inventory_ok_def fresh_ids_def)

lemma the_finding_Some: "the_finding db i = Some f \<Longrightarrow> f \<in> set (fd_findings db) \<and> fi_id f = i"
  by (auto simp: the_finding_def find_Some_iff)

lemma the_finding_unique:
  "distinct (map fi_id (fd_findings db)) \<Longrightarrow> f \<in> set (fd_findings db) \<Longrightarrow> the_finding db (fi_id f) = Some f"
  unfolding the_finding_def by (rule find_by_key)

subsection \<open>Atomic changes\<close>

text \<open>An edit of a finding that leaves its identity, its deadline and its score alone.\<close>

definition keeps_core :: "finding_row \<Rightarrow> finding_row \<Rightarrow> bool" where
  "keeps_core f f' \<longleftrightarrow>
     fi_id f' = fi_id f \<and> fi_organization_id f' = fi_organization_id f \<and> fi_canonical_key f' = fi_canonical_key f \<and>
     fi_current_sla f' = fi_current_sla f \<and> fi_current_score f' = fi_current_score f \<and> fi_risk_score f' = fi_risk_score f \<and>
     (fi_current_sla f \<noteq> None \<longrightarrow> fi_due_at f' = fi_due_at f)"

text \<open>Everything but the tables the invariant is about.\<close>

definition same_core :: "finding_db \<Rightarrow> finding_db \<Rightarrow> bool" where
  "same_core db db' \<longleftrightarrow>
     fd_findings db' = fd_findings db \<and> fd_profiles db' = fd_profiles db \<and> fd_snapshots db' = fd_snapshots db \<and>
     fd_policies db' = fd_policies db \<and> fd_calculations db' = fd_calculations db \<and>
     fd_decisions db' = fd_decisions db \<and> fd_next db \<le> fd_next db'"

definition previous_ok :: "finding_db \<Rightarrow> sla_calculation \<Rightarrow> bool" where
  "previous_ok db c \<longleftrightarrow>
     given (\<lambda>p. \<exists>d \<in> set (fd_calculations db). sk_id d = p \<and> sk_finding_id d = sk_finding_id c) (sk_previous_id c)"

inductive change :: "finding_db \<Rightarrow> finding_db \<Rightarrow> bool" where
  Other: "same_core db db' \<Longrightarrow> change db db'"
| Edit: "(\<And>f. f \<in> set (fd_findings db) \<Longrightarrow> fi_id f = i \<Longrightarrow> keeps_core f (g f)) \<Longrightarrow> change db (on_finding i g db)"
| Create: "fi_id f = fd_next db \<Longrightarrow> fi_current_sla f = None \<Longrightarrow> fi_current_score f = None \<Longrightarrow> fi_risk_score f = None \<Longrightarrow>
     the_key db (fi_organization_id f) (fi_canonical_key f) = None \<Longrightarrow>
     change db (db\<lparr>fd_next := fd_next db + 1, fd_findings := fd_findings db @ [f]\<rparr>)"
| Score: "ss_id s = fd_next db \<Longrightarrow> in_range s \<Longrightarrow>
     change db (on_finding (ss_finding_id s) (scored s now)
       (db\<lparr>fd_next := fd_next db + 1, fd_snapshots := fd_snapshots db @ [s]\<rparr>))"
| Deadline: "sk_id c = fd_next db \<Longrightarrow> previous_ok db c \<Longrightarrow> (\<And>f. keeps_core f (g f)) \<Longrightarrow>
     change db (establish c g (db\<lparr>fd_next := fd_next db + 1\<rparr>))"
| Profiles: "(\<And>p. p \<in> set ps \<Longrightarrow> weights_ok (rp_weights p)) \<Longrightarrow> fd_next db \<le> n \<Longrightarrow>
     change db (db\<lparr>fd_next := n, fd_profiles := ps\<rparr>)"
| Policies: "(\<And>p. p \<in> set ps \<Longrightarrow> due_days_valid (sp_due_days p)) \<Longrightarrow> fd_next db \<le> n \<Longrightarrow>
     change db (db\<lparr>fd_next := n, fd_policies := ps\<rparr>)"
| Decide: "active_decision db (de_finding_id d) = None \<Longrightarrow>
     change db (db\<lparr>fd_next := fd_next db + 1, fd_decisions := fd_decisions db @ [d]\<rparr>)"
| Close: "(\<And>d. de_status (g d) \<noteq> FindingDecisionStatus.ACTIVE \<and> de_finding_id (g d) = de_finding_id d) \<Longrightarrow>
     change db (on_decision i g db)"

subsection \<open>Changes keep the invariant\<close>

lemma fresh_ids_grow: "fresh_ids db is \<Longrightarrow> fd_next db \<le> fd_next db' \<Longrightarrow> fresh_ids db' is"
  by (auto simp: fresh_ids_def list_all_iff)

lemma fresh_ids_snoc: "fresh_ids db is \<Longrightarrow> fd_next db' = fd_next db + 1 \<Longrightarrow> fresh_ids db' (is @ [fd_next db])"
  by (auto simp: fresh_ids_def list_all_iff)

lemma deadline_ok_more:
  "deadline_ok db f \<Longrightarrow> set (fd_calculations db) \<subseteq> set (fd_calculations db') \<Longrightarrow> deadline_ok db' f"
  by (auto simp: deadline_ok_def split: option.splits)

lemma score_ok_more: "score_ok db f \<Longrightarrow> set (fd_snapshots db) \<subseteq> set (fd_snapshots db') \<Longrightarrow> score_ok db' f"
  by (auto simp: score_ok_def split: option.splits)

lemma keeps_ok:
  "keeps_core f f' \<Longrightarrow> deadline_ok db f \<Longrightarrow> deadline_ok db f'" "keeps_core f f' \<Longrightarrow> score_ok db f \<Longrightarrow> score_ok db f'"
  by (auto simp: keeps_core_def deadline_ok_def score_ok_def split: option.splits)

lemma chained_more:
  "chained db c \<Longrightarrow> set (fd_calculations db) \<subseteq> set (fd_calculations db') \<Longrightarrow> chained db' c"
  unfolding chained_def by (cases "sk_previous_id c") auto

lemma on_finding_simps [simp]:
  "fd_next (on_finding i g db) = fd_next db" "fd_calculations (on_finding i g db) = fd_calculations db"
  "fd_snapshots (on_finding i g db) = fd_snapshots db" "fd_profiles (on_finding i g db) = fd_profiles db"
  "fd_policies (on_finding i g db) = fd_policies db" "fd_decisions (on_finding i g db) = fd_decisions db"
  "fd_findings (on_finding i g db) = update_where (\<lambda>f. fi_id f = i) g (fd_findings db)"
  by (simp_all add: on_finding_def)

lemma edited_findings:
  assumes "\<And>f. f \<in> set (fd_findings db) \<Longrightarrow> fi_id f = i \<Longrightarrow>
      fi_id (g f) = fi_id f \<and> fi_organization_id (g f) = fi_organization_id f \<and> fi_canonical_key (g f) = fi_canonical_key f"
  shows "map fi_id (update_where (\<lambda>f. fi_id f = i) g (fd_findings db)) = map fi_id (fd_findings db)"
    and "map (\<lambda>f. (fi_organization_id f, fi_canonical_key f)) (update_where (\<lambda>f. fi_id f = i) g (fd_findings db)) = dedup_keys db"
  using assms by (auto simp: update_where_def dedup_keys_def)

lemma update_where_origin:
  assumes "y \<in> set (update_where P f xs)"
  obtains x where "x \<in> set xs" and "y = (if P x then f x else x)"
  using assms unfolding update_where_def by auto

lemma inventory_okI:
  assumes "fresh_ids db (map fi_id (fd_findings db))" "fresh_ids db (map sk_id (fd_calculations db))"
    "fresh_ids db (map ss_id (fd_snapshots db))" "distinct (dedup_keys db)" "distinct (active_decisions db)"
    "\<And>f. f \<in> set (fd_findings db) \<Longrightarrow> deadline_ok db f \<and> score_ok db f"
    "\<And>c. c \<in> set (fd_calculations db) \<Longrightarrow> chained db c" "\<And>s. s \<in> set (fd_snapshots db) \<Longrightarrow> in_range s"
    "\<And>p. p \<in> set (fd_profiles db) \<Longrightarrow> weights_ok (rp_weights p)"
    "\<And>p. p \<in> set (fd_policies db) \<Longrightarrow> due_days_valid (sp_due_days p)"
  shows "inventory_ok db"
  using assms by (auto simp: inventory_ok_def)

lemma inventory_okD:
  assumes "inventory_ok db"
  shows "fresh_ids db (map fi_id (fd_findings db))" "fresh_ids db (map sk_id (fd_calculations db))"
    "fresh_ids db (map ss_id (fd_snapshots db))" "distinct (dedup_keys db)" "distinct (active_decisions db)"
    "\<And>f. f \<in> set (fd_findings db) \<Longrightarrow> deadline_ok db f \<and> score_ok db f"
    "\<And>c. c \<in> set (fd_calculations db) \<Longrightarrow> chained db c" "\<And>s. s \<in> set (fd_snapshots db) \<Longrightarrow> in_range s"
    "\<And>p. p \<in> set (fd_profiles db) \<Longrightarrow> weights_ok (rp_weights p)"
    "\<And>p. p \<in> set (fd_policies db) \<Longrightarrow> due_days_valid (sp_due_days p)"
  using assms by (auto simp: inventory_ok_def)

text \<open>When only the tables of the second list change, the rest of the invariant stays.\<close>

lemma inventory_ok_findings:
  assumes ok: "inventory_ok db"
    and "fd_next db \<le> fd_next db'" "set (fd_calculations db) \<subseteq> set (fd_calculations db')"
    and "fresh_ids db' (map sk_id (fd_calculations db'))" "fresh_ids db' (map ss_id (fd_snapshots db'))"
    and "fd_decisions db' = fd_decisions db" "fd_profiles db' = fd_profiles db" "fd_policies db' = fd_policies db"
    and ids: "map fi_id (fd_findings db') = map fi_id (fd_findings db)" and "dedup_keys db' = dedup_keys db"
    and "\<And>f. f \<in> set (fd_findings db') \<Longrightarrow> deadline_ok db' f \<and> score_ok db' f"
    and "\<And>c. c \<in> set (fd_calculations db') \<Longrightarrow> chained db' c" "\<And>s. s \<in> set (fd_snapshots db') \<Longrightarrow> in_range s"
  shows "inventory_ok db'"
proof (rule inventory_okI)
  show "fresh_ids db' (map fi_id (fd_findings db'))"
    unfolding ids by (rule fresh_ids_grow [OF inventory_okD(1) [OF ok] assms(2)])
  show "distinct (active_decisions db')" using inventory_okD(5) [OF ok] assms(6) by (simp add: active_decisions_def)
qed (use assms inventory_okD [OF ok] in simp_all)

lemma edit_ok:
  assumes ok: "inventory_ok db" and keeps_core: "\<And>f. f \<in> set (fd_findings db) \<Longrightarrow> fi_id f = i \<Longrightarrow> keeps_core f (g f)"
  shows "inventory_ok (on_finding i g db)"
proof (rule inventory_ok_findings [OF ok])
  have same: "fi_id (g f) = fi_id f \<and> fi_organization_id (g f) = fi_organization_id f \<and> fi_canonical_key (g f) = fi_canonical_key f"
    if "f \<in> set (fd_findings db)" "fi_id f = i" for f using keeps_core [OF that] by (simp add: keeps_core_def)
  show "map fi_id (fd_findings (on_finding i g db)) = map fi_id (fd_findings db)"
    using edited_findings(1) [of db i g] same by simp
  show "dedup_keys (on_finding i g db) = dedup_keys db"
    using edited_findings(2) [of db i g] same by (simp add: dedup_keys_def)
  show "deadline_ok (on_finding i g db) f \<and> score_ok (on_finding i g db) f"
    if mem: "f \<in> set (fd_findings (on_finding i g db))" for f
  proof -
    obtain f0 where f0: "f0 \<in> set (fd_findings db)" and f: "f = (if fi_id f0 = i then g f0 else f0)"
      using mem unfolding on_finding_simps by (rule update_where_origin)
    have "deadline_ok db f \<and> score_ok db f"
      using inventory_okD(6) [OF ok f0] keeps_core [OF f0] keeps_ok f by auto
    then show ?thesis by (auto intro: deadline_ok_more score_ok_more)
  qed
  show "chained (on_finding i g db) c" if "c \<in> set (fd_calculations (on_finding i g db))" for c
    using inventory_okD(7) [OF ok, of c] that by (auto intro: chained_more)
qed (use inventory_okD(2,3,8) [OF ok] in \<open>auto intro: fresh_ids_grow\<close>)

subsubsection \<open>Scores and deadlines\<close>

text \<open>A fresh row joins its table and becomes the current one of its finding.\<close>

lemma keeps_identity: "keeps_core f f' \<Longrightarrow> fi_id f' = fi_id f \<and> fi_organization_id f' = fi_organization_id f \<and> fi_canonical_key f' = fi_canonical_key f"
  by (simp add: keeps_core_def)

lemma score_change_ok:
  assumes ok: "inventory_ok db" and s: "ss_id s = fd_next db" "in_range s"
  shows "inventory_ok (on_finding (ss_finding_id s) (scored s now)
    (db\<lparr>fd_next := fd_next db + 1, fd_snapshots := fd_snapshots db @ [s]\<rparr>))" (is "inventory_ok (on_finding ?i ?g ?db)")
proof (rule inventory_ok_findings [OF ok])
  show "map fi_id (fd_findings (on_finding ?i ?g ?db)) = map fi_id (fd_findings db)"
    using edited_findings(1) [of ?db ?i ?g] by (simp add: scored_def)
  show "dedup_keys (on_finding ?i ?g ?db) = dedup_keys db"
    using edited_findings(2) [of ?db ?i ?g] by (simp add: scored_def dedup_keys_def)
  show "deadline_ok (on_finding ?i ?g ?db) f \<and> score_ok (on_finding ?i ?g ?db) f"
    if mem: "f \<in> set (fd_findings (on_finding ?i ?g ?db))" for f
  proof -
    obtain f0 where f0: "f0 \<in> set (fd_findings ?db)" and f: "f = (if fi_id f0 = ?i then ?g f0 else f0)"
      using mem unfolding on_finding_simps by (rule update_where_origin)
    have old: "deadline_ok db f0" "score_ok db f0" using inventory_okD(6) [OF ok, of f0] f0 by auto
    have "deadline_ok ?db f" using deadline_ok_more [OF old(1), of ?db] f by (auto simp: deadline_ok_def scored_def split: option.splits)
    moreover have "score_ok ?db f"
      using score_ok_more [OF old(2), of ?db] f by (auto simp: score_ok_def scored_def)
    ultimately show ?thesis by (auto intro: deadline_ok_more score_ok_more)
  qed
  show "chained (on_finding ?i ?g ?db) c" if "c \<in> set (fd_calculations (on_finding ?i ?g ?db))" for c
    using inventory_okD(7) [OF ok, of c] that by (auto intro: chained_more)
  show "fresh_ids (on_finding ?i ?g ?db) (map ss_id (fd_snapshots (on_finding ?i ?g ?db)))"
    using fresh_ids_snoc [OF inventory_okD(3) [OF ok]] s(1) by simp
qed (use inventory_okD(2,8) [OF ok] s(2) in \<open>auto intro: fresh_ids_grow\<close>)

lemma deadline_change_ok:
  assumes ok: "inventory_ok db" and c: "sk_id c = fd_next db" "previous_ok db c" and g: "\<And>f. keeps_core f (g f)"
  shows "inventory_ok (establish c g (db\<lparr>fd_next := fd_next db + 1\<rparr>))" (is "inventory_ok ?db'")
proof (rule inventory_ok_findings [OF ok])
  define h where "h = (\<lambda>f. (g f)\<lparr>fi_current_sla := Some (sk_id c), fi_due_at := Some (sk_due_at c)\<rparr>)"
  define db1 where "db1 = db\<lparr>fd_next := fd_next db + 1, fd_calculations := fd_calculations db @ [c]\<rparr>"
  have db': "?db' = on_finding (sk_finding_id c) h db1" by (simp add: establish_def h_def db1_def)
  have same: "fi_id (h f) = fi_id f \<and> fi_organization_id (h f) = fi_organization_id f \<and> fi_canonical_key (h f) = fi_canonical_key f" for f
    using keeps_identity [OF g, of f] by (simp add: h_def)
  show "map fi_id (fd_findings ?db') = map fi_id (fd_findings db)"
    using edited_findings(1) [of db1 "sk_finding_id c" h] same unfolding db' by (simp add: db1_def)
  show "dedup_keys ?db' = dedup_keys db"
    using edited_findings(2) [of db1 "sk_finding_id c" h] same unfolding db' by (simp add: db1_def dedup_keys_def)
  show "deadline_ok ?db' f \<and> score_ok ?db' f" if mem: "f \<in> set (fd_findings ?db')" for f
  proof -
    obtain f0 where f0: "f0 \<in> set (fd_findings db1)" and f: "f = (if fi_id f0 = sk_finding_id c then h f0 else f0)"
      using mem unfolding db' on_finding_simps by (rule update_where_origin)
    have old: "deadline_ok db f0" "score_ok db f0" using inventory_okD(6) [OF ok, of f0] f0 by (auto simp: db1_def)
    have "deadline_ok db1 f"
      using deadline_ok_more [OF old(1), of db1] f same [of f0] by (auto simp: deadline_ok_def h_def db1_def)
    moreover have "score_ok db1 f"
      using score_ok_more [OF old(2), of db1] f g [of f0] by (auto simp: score_ok_def h_def db1_def keeps_core_def split: option.splits)
    ultimately show ?thesis unfolding db' by (auto intro: deadline_ok_more score_ok_more)
  qed
  have calcs: "fd_calculations ?db' = fd_calculations db @ [c]" unfolding db' by (simp add: db1_def)
  have ids: "fresh_ids db (map sk_id (fd_calculations db))" by (rule inventory_okD(2) [OF ok])
  show "fresh_ids ?db' (map sk_id (fd_calculations ?db'))"
    unfolding calcs unfolding db' using fresh_ids_snoc [OF ids, of db1] c(1)
    by (auto simp: db1_def intro: fresh_ids_grow)
  have new: "chained ?db' c"
    using c(2) ids unfolding chained_def previous_ok_def calcs
    by (cases "sk_previous_id c") (auto simp: fresh_ids_def list_all_iff c(1))
  have sub: "set (fd_calculations db) \<subseteq> set (fd_calculations ?db')" unfolding calcs by auto
  show "chained ?db' d" if "d \<in> set (fd_calculations ?db')" for d
  proof -
    have "d \<in> set (fd_calculations db) \<or> d = c" using that unfolding calcs by auto
    then show ?thesis using chained_more [OF inventory_okD(7) [OF ok] sub] new by blast
  qed
qed (use inventory_okD(3,8) [OF ok] in \<open>auto simp: establish_def intro: fresh_ids_grow\<close>)

subsubsection \<open>Every change\<close>

lemma dedup_the_key:
  assumes "the_key db org key = None"
  shows "(org, key) \<notin> set (dedup_keys db)"
  using assms by (auto simp: the_key_def find_None_iff dedup_keys_def)

lemma create_change_ok:
  assumes ok: "inventory_ok db" and f: "fi_id f = fd_next db" "fi_current_sla f = None" "fi_current_score f = None"
      "fi_risk_score f = None" "the_key db (fi_organization_id f) (fi_canonical_key f) = None"
  shows "inventory_ok (db\<lparr>fd_next := fd_next db + 1, fd_findings := fd_findings db @ [f]\<rparr>)"
proof (rule inventory_okI)
  let ?db' = "db\<lparr>fd_next := fd_next db + 1, fd_findings := fd_findings db @ [f]\<rparr>"
  show "fresh_ids ?db' (map fi_id (fd_findings ?db'))"
    using fresh_ids_snoc [OF inventory_okD(1) [OF ok], of ?db'] f(1) by simp
  show "distinct (dedup_keys ?db')"
    using dedup_the_key [OF f(5)] inventory_okD(4) [OF ok] by (simp add: dedup_keys_def)
  show "distinct (active_decisions ?db')" using inventory_okD(5) [OF ok] by (simp add: active_decisions_def)
  show "deadline_ok ?db' x \<and> score_ok ?db' x" if "x \<in> set (fd_findings ?db')" for x
    using that inventory_okD(6) [OF ok, of x] f(2-4)
    by (auto simp: deadline_ok_def score_ok_def split: option.splits)
qed (use inventory_okD(2,3,7,8,9,10) [OF ok] in \<open>auto simp: chained_def intro: fresh_ids_grow\<close>)

lemma active_decision_None: "active_decision db i = None \<longleftrightarrow> i \<notin> set (active_decisions db)"
  by (auto simp: active_decision_def active_decisions_def find_None_iff)

lemma closed_list:
  assumes "\<And>d. de_status (g d) \<noteq> FindingDecisionStatus.ACTIVE"
  shows "distinct (map de_finding_id (filter (\<lambda>d. de_status d = FindingDecisionStatus.ACTIVE) ds)) \<Longrightarrow>
    distinct (map de_finding_id (filter (\<lambda>d. de_status d = FindingDecisionStatus.ACTIVE) (update_where P g ds)))"
  using assms by (induction ds) (auto simp: update_where_def split: if_splits)

lemma other_tables_ok:
  assumes ok: "inventory_ok db" and "fd_findings db' = fd_findings db" "fd_snapshots db' = fd_snapshots db"
    "fd_calculations db' = fd_calculations db" "fd_next db \<le> fd_next db'" "distinct (active_decisions db')"
    "\<And>p. p \<in> set (fd_profiles db') \<Longrightarrow> weights_ok (rp_weights p)"
    "\<And>p. p \<in> set (fd_policies db') \<Longrightarrow> due_days_valid (sp_due_days p)"
  shows "inventory_ok db'"
proof (rule inventory_okI)
  show "fresh_ids db' (map fi_id (fd_findings db'))" "fresh_ids db' (map sk_id (fd_calculations db'))"
    "fresh_ids db' (map ss_id (fd_snapshots db'))"
    using inventory_okD(1,2,3) [OF ok] assms(2-5) by (auto intro: fresh_ids_grow)
  show "deadline_ok db' f \<and> score_ok db' f" if "f \<in> set (fd_findings db')" for f
    using inventory_okD(6) [OF ok, of f] that assms(2-4) by (auto intro: deadline_ok_more score_ok_more)
  show "chained db' c" if "c \<in> set (fd_calculations db')" for c
    using inventory_okD(7) [OF ok, of c] that assms(4) by (auto intro: chained_more)
qed (use inventory_okD(4,8) [OF ok] assms in \<open>auto simp: dedup_keys_def\<close>)

theorem change_ok: "change db db' \<Longrightarrow> inventory_ok db \<Longrightarrow> inventory_ok db'"
proof (induction rule: change.induct)
  case (Other db db')
  have "distinct (active_decisions db')"
    using inventory_okD(5) [OF Other.prems] Other.hyps by (simp add: active_decisions_def same_core_def)
  then show ?case
    using Other.hyps inventory_okD(9,10) [OF Other.prems]
    by (intro other_tables_ok [OF Other.prems]) (auto simp: same_core_def)
next
  case (Edit db i g)
  show ?case using Edit.prems Edit.hyps by (rule edit_ok)
next
  case (Create f db)
  show ?case using Create.prems Create.hyps by (rule create_change_ok)
next
  case (Score s db now)
  show ?case using Score.prems Score.hyps by (rule score_change_ok)
next
  case (Deadline c db g)
  show ?case using Deadline.prems Deadline.hyps by (rule deadline_change_ok)
next
  case (Profiles ps db n)
  then show ?case using inventory_okD(5,10) [OF Profiles.prems]
    by (intro other_tables_ok [OF Profiles.prems]) (auto simp: active_decisions_def)
next
  case (Policies ps db n)
  then show ?case using inventory_okD(5,9) [OF Policies.prems]
    by (intro other_tables_ok [OF Policies.prems]) (auto simp: active_decisions_def)
next
  case (Decide db d)
  have "distinct (active_decisions (db\<lparr>fd_next := fd_next db + 1, fd_decisions := fd_decisions db @ [d]\<rparr>))"
    using inventory_okD(5) [OF Decide.prems] Decide.hyps
    by (simp add: active_decision_None) (simp add: active_decisions_def)
  then show ?case using inventory_okD(9,10) [OF Decide.prems]
    by (intro other_tables_ok [OF Decide.prems]) auto
next
  case (Close g db i)
  have "distinct (active_decisions (on_decision i g db))"
    using closed_list [of g "fd_decisions db" "\<lambda>d. de_id d = i"] Close.hyps inventory_okD(5) [OF Close.prems]
    by (simp add: active_decisions_def on_decision_def)
  then show ?case using inventory_okD(9,10) [OF Close.prems]
    by (intro other_tables_ok [OF Close.prems]) (auto simp: on_decision_def)
qed

lemma changes_ok: "change\<^sup>*\<^sup>* db db' \<Longrightarrow> inventory_ok db \<Longrightarrow> inventory_ok db'"
  by (induction rule: rtranclp_induct) (auto intro: change_ok)

end
