(* ===== verification/SlaHandlers.thy ===== *)
theory SlaHandlers
  imports FindingHandlers
begin

text \<open>
  The requests of \<^verbatim>\<open>app/api/v1/sla.py\<close> that write: policies, deadlines, exceptions and guidance.
\<close>

subsection \<open>Policies\<close>

record policy_create =
  pn_name :: string
  pn_description :: "string option"
  pn_priority :: int
  pn_enabled :: bool
  pn_match :: json
  pn_due_days :: json
  pn_pause :: bool

text \<open>A field of the patch: absent, or its value, \<open>null\<close> included.\<close>

record policy_update =
  pu_name :: "string option option"
  pu_description :: "string option option"
  pu_priority :: "int option option"
  pu_enabled :: "bool option option"
  pu_match :: "json option"
  pu_due_days :: "json option"
  pu_pause :: "bool option option"

definition unique_policy_fields :: "uuid \<Rightarrow> string \<Rightarrow> int \<Rightarrow> uuid option \<Rightarrow> finding_db \<Rightarrow> http_error + unit" where
  "unique_policy_fields org name priority exclude db =
     require (\<not> list_ex (\<lambda>p. sp_organization_id p = org \<and> (sp_name p = name \<or> sp_priority p = priority) \<and>
         Some (sp_id p) \<noteq> exclude) (fd_policies db))
       (Http 409 ''SLA policy name and priority must be unique'')"

definition policy_valid :: "policy_create \<Rightarrow> bool" where
  "policy_valid p \<longleftrightarrow>
     1 \<le> length (pn_name p) \<and> length (pn_name p) \<le> 255 \<and> given (\<lambda>s. length s \<le> 1024) (pn_description p) \<and>
     1 \<le> pn_priority p \<and> pn_priority p \<le> 10000"

definition create_policy :: "finding_env \<Rightarrow> caller \<Rightarrow> policy_create \<Rightarrow> finding_db \<Rightarrow> http_error + finding_db" where
  "create_policy env c p db =
     res_bind (allow c ''sla.read'') (\<lambda>_.
     res_bind (allow_step_up env c ''sla.manage'') (\<lambda>_.
     res_bind (require (policy_valid p) (Http 422 ''validation'')) (\<lambda>_.
     res_bind (unique_policy_fields (principal_org (cl_actor c)) (strip (pn_name p)) (pn_priority p) None db) (\<lambda>_.
     res_bind (raised_422 (validate_match (pn_match p))) (\<lambda>matching.
     res_bind (raised_422 (validate_due_days (pn_due_days p))) (\<lambda>due_days.
       let (i, db1) = draw db;
           row = \<lparr>sp_id = i, sp_organization_id = principal_org (cl_actor c), sp_name = strip (pn_name p),
                  sp_description = pn_description p, sp_priority = pn_priority p, sp_enabled = pn_enabled p,
                  sp_match = matching, sp_due_days = due_days, sp_pause = pn_pause p\<rparr>
       in Inr (db1\<lparr>fd_policies := fd_policies db1 @ [row]\<rparr>)))))))"

definition policy_update_valid :: "policy_update \<Rightarrow> bool" where
  "policy_update_valid p \<longleftrightarrow>
     given (given (\<lambda>s. 1 \<le> length s \<and> length s \<le> 255)) (pu_name p) \<and>
     given (given (\<lambda>s. length s \<le> 1024)) (pu_description p) \<and>
     given (given (\<lambda>n. 1 \<le> n \<and> n \<le> 10000)) (pu_priority p)"

text \<open>\<open>str(changes.get("name", policy.name)).strip()\<close>: a \<open>null\<close> name is the text \<open>None\<close>.\<close>

definition patched_name :: "policy_update \<Rightarrow> sla_policy \<Rightarrow> string" where
  "patched_name p q =
     strip (case pu_name p of None \<Rightarrow> sp_name q | Some None \<Rightarrow> ''None'' | Some (Some s) \<Rightarrow> s)"

definition patched_policy ::
  "policy_update \<Rightarrow> string \<Rightarrow> int \<Rightarrow> (string \<times> json) list option \<Rightarrow> (string \<times> json) list option \<Rightarrow>
   sla_policy \<Rightarrow> sla_policy" where
  "patched_policy p name priority matching due_days q =
     q\<lparr>sp_name := name, sp_priority := priority,
       sp_match := or_else matching (sp_match q), sp_due_days := or_else due_days (sp_due_days q),
       sp_description := or_else (pu_description p) (sp_description q),
       sp_enabled := or_else (or_else (pu_enabled p) None) (sp_enabled q),
       sp_pause := or_else (or_else (pu_pause p) None) (sp_pause q)\<rparr>"

definition checked :: "(json \<Rightarrow> sla_error + 'a) \<Rightarrow> json option \<Rightarrow> http_error + 'a option" where
  "checked check v =
     (case v of None \<Rightarrow> Inr None | Some v \<Rightarrow> res_bind (raised_422 (check v)) (\<lambda>w. Inr (Some w)))"

definition update_policy ::
  "finding_env \<Rightarrow> caller \<Rightarrow> uuid \<Rightarrow> policy_update \<Rightarrow> finding_db \<Rightarrow> http_error + finding_db" where
  "update_policy env c i p db =
     res_bind (allow c ''sla.read'') (\<lambda>_.
     res_bind (allow_step_up env c ''sla.manage'') (\<lambda>_.
     res_bind (require (policy_update_valid p) (Http 422 ''validation'')) (\<lambda>_.
     case find (\<lambda>q. sp_id q = i \<and> sp_organization_id q = principal_org (cl_actor c)) (fd_policies db) of
       None \<Rightarrow> Inl (Http 404 ''SLA policy not found'')
     | Some q \<Rightarrow>
         res_bind (case pu_priority p of None \<Rightarrow> Inr (sp_priority q)
                   | Some None \<Rightarrow> Inl (Http 500 ''int(None)'') | Some (Some n) \<Rightarrow> Inr n) (\<lambda>priority.
         res_bind (unique_policy_fields (principal_org (cl_actor c)) (patched_name p q) priority (Some (sp_id q)) db) (\<lambda>_.
         res_bind (checked validate_match (pu_match p)) (\<lambda>matching.
         res_bind (checked validate_due_days (pu_due_days p)) (\<lambda>due_days.
         res_bind (require (pu_enabled p \<noteq> Some None \<and> pu_pause p \<noteq> Some None) (Http 500 ''NOT NULL'')) (\<lambda>_.
           Inr (db\<lparr>fd_policies := update_where (\<lambda>r. sp_id r = sp_id q)
             (patched_policy p (patched_name p q) priority matching due_days) (fd_policies db)\<rparr>)))))))))"

subsection \<open>Deadlines and exceptions\<close>

definition calculate_finding_sla :: "finding_env \<Rightarrow> caller \<Rightarrow> uuid \<Rightarrow> finding_db \<Rightarrow> http_error + finding_db" where
  "calculate_finding_sla env c i db =
     res_bind (allow c ''sla.read'') (\<lambda>_.
     res_bind (allow_step_up env c ''sla.manage'') (\<lambda>_.
     res_bind (owned_finding c ''sla.manage'' i db) (\<lambda>f.
       raised_500 (calculate_deadline env i (Some (principal_id (cl_actor c))) False db))))"

definition create_exception ::
  "finding_env \<Rightarrow> caller \<Rightarrow> uuid \<Rightarrow> time \<Rightarrow> string \<Rightarrow> finding_db \<Rightarrow> http_error + finding_db" where
  "create_exception env c i requested_due_at reason db =
     res_bind (allow c ''sla.read'') (\<lambda>_.
     res_bind (allow_step_up env c ''sla.manage'') (\<lambda>_.
     res_bind (require (10 \<le> length reason \<and> length reason \<le> 4000) (Http 422 ''validation'')) (\<lambda>_.
     res_bind (owned_finding c ''sla.manage'' i db) (\<lambda>f.
       raised_422 (request_exception env f requested_due_at reason (Some (principal_id (cl_actor c))) db)))))"

definition review_exception ::
  "finding_env \<Rightarrow> caller \<Rightarrow> uuid \<Rightarrow> bool \<Rightarrow> string option \<Rightarrow> finding_db \<Rightarrow> http_error + finding_db" where
  "review_exception env c i approve notes db =
     (let missing = ''SLA exception not found''
      in res_bind (allow c ''sla.read'') (\<lambda>_.
         res_bind (allow_step_up env c ''sla.manage'') (\<lambda>_.
         case find (\<lambda>x. sx_id x = i \<and> sx_organization_id x = principal_org (cl_actor c)) (fd_exceptions db) of
           None \<Rightarrow> Inl (Http 404 missing)
         | Some x \<Rightarrow>
             res_bind (in_reach c ''sla.manage'' missing (the_finding db (sx_finding_id x))) (\<lambda>f.
               raised_409 (decide_exception env f x approve (Some (principal_id (cl_actor c))) notes db)))))"

subsection \<open>Guidance\<close>

record guidance_create =
  gc_classification :: RemediationClassification
  gc_summary :: string
  gc_steps :: "(string \<times> string) list"
  gc_validation_steps :: "(string \<times> string) list"
  gc_references :: "string list"
  gc_source :: string

text \<open>\<open>step.model_dump()\<close>\<close>

definition dumped :: "string \<times> string \<Rightarrow> json" where
  "dumped s = JObj [(''title'', JStr (fst s)), (''instruction'', JStr (snd s))]"

definition guidance_valid :: "guidance_create \<Rightarrow> bool" where
  "guidance_valid p \<longleftrightarrow>
     1 \<le> length (gc_summary p) \<and> length (gc_summary p) \<le> 1024 \<and>
     1 \<le> length (gc_steps p) \<and> length (gc_steps p) \<le> 50 \<and>
     1 \<le> length (gc_validation_steps p) \<and> length (gc_validation_steps p) \<le> 50 \<and>
     length (gc_references p) \<le> 25 \<and> 1 \<le> length (gc_source p) \<and> length (gc_source p) \<le> 255 \<and>
     list_all (\<lambda>(t, s). 1 \<le> length t \<and> length t \<le> 255 \<and> 1 \<le> length s \<and> length s \<le> 4000)
       (gc_steps p @ gc_validation_steps p)"

definition add_guidance ::
  "finding_env \<Rightarrow> caller \<Rightarrow> uuid \<Rightarrow> guidance_create \<Rightarrow> finding_db \<Rightarrow> http_error + finding_db" where
  "add_guidance env c i p db =
     res_bind (allow c ''sla.read'') (\<lambda>_.
     res_bind (allow_step_up env c ''sla.manage'') (\<lambda>_.
     res_bind (require (guidance_valid p) (Http 422 ''validation'')) (\<lambda>_.
     res_bind (owned_finding c ''sla.manage'' i db) (\<lambda>f.
       raised_422 (create_guidance f (gc_classification p) (gc_summary p) (map dumped (gc_steps p))
         (map dumped (gc_validation_steps p)) (gc_references p) (gc_source p) db)))))"

end
