(* ===== verification/Intelligence.thy ===== *)
theory Intelligence
  imports Correlation RiskScore
begin

text \<open>
  Synchronization of the intelligence feeds, \<^verbatim>\<open>app/services/intelligence.py\<close>, with the retries of
  \<^verbatim>\<open>app/intelligence/fetchers.py\<close> and the KEV parser \<^verbatim>\<open>app/intelligence/kev.py\<close>.  The
  outcome of an HTTP request, the JSON and CSV readers and \<open>date.fromisoformat\<close> are arguments; a date is
  its ISO text.  An ingest that raises keeps what it has changed so far: its result carries the store
  and the error.
\<close>

datatype FeedSource = NVD | KEV | EPSS

datatype FeedStatus = OK | DEGRADED | FAILED | STALE | NEVER_SYNCED

subsection \<open>The KEV catalog\<close>

record kev_entry =
  ke_cve_id :: string
  ke_date_added :: "string option"
  ke_due_date :: "string option"
  ke_required_action :: "string option"
  ke_known_ransomware_use :: bool

record kev_catalog =
  kc_version :: "string option"
  kc_released :: "string option"
  kc_entries :: "kev_entry list"

definition parse_date :: "(string \<Rightarrow> string option) \<Rightarrow> json \<Rightarrow> string option" where
  "parse_date from_isodate v =
     (case as_str v of None \<Rightarrow> None | Some s \<Rightarrow> if s = [] then None else from_isodate (take 10 s))"

definition kev_item :: "(string \<Rightarrow> string option) \<Rightarrow> json \<Rightarrow> kev_entry option" where
  "kev_item from_isodate item =
     (case as_str (field_of item ''cveID'') of
        None \<Rightarrow> None
      | Some i \<Rightarrow>
          if i = [] then None
          else Some \<lparr>ke_cve_id = i, ke_date_added = parse_date from_isodate (field_of item ''dateAdded''),
                     ke_due_date = parse_date from_isodate (field_of item ''dueDate''),
                     ke_required_action = as_str (field_of item ''requiredAction''),
                     ke_known_ransomware_use = (case as_str (field_of item ''knownRansomwareCampaignUse'') of
                        None \<Rightarrow> False | Some s \<Rightarrow> lower (strip s) = ''known'')\<rparr>)"

text \<open>On the decoded document; \<open>None\<close> is the \<open>ValueError\<close> of a document that is no object.\<close>

definition parse_kev :: "(string \<Rightarrow> string option) \<Rightarrow> json \<Rightarrow> kev_catalog option" where
  "parse_kev from_isodate doc =
     (case doc of
        JObj _ \<Rightarrow>
          Some \<lparr>kc_version = as_str (field_of doc ''catalogVersion''),
                kc_released = as_str (field_of doc ''dateReleased''),
                kc_entries = List.map_filter (kev_item from_isodate) (as_list (field_of doc ''vulnerabilities''))\<rparr>
      | _ \<Rightarrow> None)"

text \<open>The rows of the EPSS file, read by \<^verbatim>\<open>app/intelligence/epss.py\<close>.\<close>

record epss_entry =
  ep_cve_id :: string
  ep_epss :: rat
  ep_percentile :: rat

subsection \<open>Enrichment of findings\<close>

definition findings_referencing :: "finding_db \<Rightarrow> string list \<Rightarrow> finding_row list" where
  "findings_referencing db ids = filter (\<lambda>f. list_ex (\<lambda>i. i \<in> set ids) (fi_cve_ids f)) (fd_findings db)"

definition the_enrichment :: "finding_db \<Rightarrow> string \<Rightarrow> enrichment option" where
  "the_enrichment db i = find (\<lambda>e. en_cve_id e = i) (fd_enrichments db)"

definition the_cve :: "finding_db \<Rightarrow> string \<Rightarrow> cve_record option" where
  "the_cve db i = find (\<lambda>c. cv_id c = i) (fd_cves db)"

text \<open>Python's \<open>max\<close> with a key: the first of the greatest.\<close>

fun first_max :: "('a \<Rightarrow> rat) \<Rightarrow> 'a list \<Rightarrow> 'a option" where
  "first_max key [] = None"
| "first_max key (x # xs) = Some (fold (\<lambda>y b. if key y > key b then y else b) xs x)"

definition epss_pairs :: "finding_db \<Rightarrow> string list \<Rightarrow> (rat \<times> rat option) list" where
  "epss_pairs db ids =
     List.map_filter (\<lambda>e. map_option (\<lambda>s. (s, en_epss_percentile e)) (en_epss_score e))
       (List.map_filter (the_enrichment db) ids)"

definition cvss_v3_of :: "finding_db \<Rightarrow> string \<Rightarrow> json option" where
  "cvss_v3_of db i = map_option cv_cvss_v3 (the_cve db i)"

definition cvss_filled :: "finding_db \<Rightarrow> finding_row \<Rightarrow> finding_row" where
  "cvss_filled db f =
     (let cvss = List.map_filter (cvss_v3_of db) (fi_cve_ids f);
          scores = List.map_filter cvss_base_score cvss;
          vectors = filter (\<lambda>v. v \<noteq> []) (List.map_filter cvss_vector cvss)
      in if fi_cvss_score f \<noteq> None then f
         else case first_max (\<lambda>s. s) scores of
                None \<Rightarrow> f
              | Some s \<Rightarrow>
                  f\<lparr>fi_cvss_score := Some s,
                    fi_cvss_vector := (case (fi_cvss_vector f, vectors) of
                       (None, v # _) \<Rightarrow> Some v | (w, _) \<Rightarrow> w)\<rparr>)"

definition epss_filled :: "finding_db \<Rightarrow> finding_row \<Rightarrow> finding_row" where
  "epss_filled db f =
     (case first_max fst (epss_pairs db (fi_cve_ids f)) of
        None \<Rightarrow> f
      | Some (s, p) \<Rightarrow> f\<lparr>fi_epss_score := Some s, fi_epss_percentile := p\<rparr>)"

definition kev_listed :: "finding_db \<Rightarrow> finding_row \<Rightarrow> bool" where
  "kev_listed db f = list_ex en_is_kev (List.map_filter (the_enrichment db) (fi_cve_ids f))"

definition enriched :: "finding_db \<Rightarrow> finding_row \<Rightarrow> finding_row" where
  "enriched db f = (cvss_filled db (epss_filled db f))\<lparr>fi_known_exploited := kev_listed db f\<rparr>"

definition intel_event :: "finding_row \<Rightarrow> ChangeEventType \<Rightarrow> string \<Rightarrow> string \<Rightarrow> change_event" where
  "intel_event f kind summary severity =
     \<lparr>ce_organization_id = fi_organization_id f, ce_site_id = fi_site_id f, ce_asset_id = fi_asset_id f,
      ce_scan_job_id = None, ce_event_type = kind, ce_severity = severity, ce_summary = summary\<rparr>"

text \<open>The dash of the message, in UTF-8.\<close>

definition EM_DASH :: string where
  "EM_DASH = [CHR 0xE2, CHR 0x80, CHR 0x94]"

definition enrichment_events :: "finding_db \<Rightarrow> string list \<Rightarrow> string list \<Rightarrow> finding_row \<Rightarrow> change_event list" where
  "enrichment_events db kev_added epss_crossed f =
     (let kev_ids = filter (\<lambda>i. i \<in> set kev_added) (fi_cve_ids f)
      in (if \<not> fi_known_exploited f \<and> kev_listed db f \<and> kev_ids \<noteq> []
          then [intel_event f ChangeEventType.CVE_ADDED_TO_KEV
                  (join_with '', '' kev_ids @ '' added to CISA KEV '' @ EM_DASH @ '' '' @ fi_title f) ''high'']
          else []) @
         (if list_ex (\<lambda>i. i \<in> set epss_crossed) (fi_cve_ids f)
          then [intel_event f ChangeEventType.EPSS_THRESHOLD_CROSSED (''EPSS threshold crossed for '' @ fi_title f)
                  (severity_value (fi_severity f))]
          else []))"

record intel_result =
  ir_db :: finding_db
  ir_events :: nat
  ir_error :: "risk_error option"

text \<open>The loop of \<open>apply_enrichment\<close> over the findings, by id; an error of the score ends it.\<close>

fun enrich_all ::
  "finding_env \<Rightarrow> string list \<Rightarrow> string list \<Rightarrow> uuid list \<Rightarrow> finding_db \<Rightarrow> nat \<Rightarrow> intel_result" where
  "enrich_all env kev_added epss_crossed [] db n = \<lparr>ir_db = db, ir_events = n, ir_error = None\<rparr>"
| "enrich_all env kev_added epss_crossed (i # is) db n =
     (case the_finding db i of
        None \<Rightarrow> enrich_all env kev_added epss_crossed is db n
      | Some f \<Rightarrow>
          (let es = enrichment_events db kev_added epss_crossed f;
               db1 = fold emit es (on_finding i (enriched db) db)
           in case score_finding env i None False db1 of
                Inl e \<Rightarrow> \<lparr>ir_db = db1, ir_events = n + length es, ir_error = Some e\<rparr>
              | Inr (db2, _) \<Rightarrow> enrich_all env kev_added epss_crossed is db2 (n + length es)))"

definition apply_enrichment ::
  "finding_env \<Rightarrow> string list \<Rightarrow> string list \<Rightarrow> string list \<Rightarrow> finding_db \<Rightarrow> intel_result" where
  "apply_enrichment env affected kev_added epss_crossed db =
     enrich_all env kev_added epss_crossed (map fi_id (findings_referencing db affected)) db 0"

subsection \<open>Ingest\<close>

definition products_of :: "finding_db \<Rightarrow> string \<Rightarrow> string list" where
  "products_of db cve = map fst (filter (\<lambda>(_, i). i = cve) (fd_product_index db))"

definition reindex_cve_products :: "string \<Rightarrow> json list \<Rightarrow> finding_db \<Rightarrow> finding_db" where
  "reindex_cve_products cve matches db =
     (let wanted = products_from_cpe_matches matches; existing = products_of db cve
      in db\<lparr>fd_product_index := filter (\<lambda>(p, i). i \<noteq> cve \<or> p \<in> set wanted) (fd_product_index db) @
              map (\<lambda>p. (p, cve)) (filter (\<lambda>p. p \<notin> set existing) wanted)\<rparr>)"

definition cve_row :: "cve_data \<Rightarrow> cve_record" where
  "cve_row c =
     \<lparr>cv_id = cd_cve_id c, cv_published_at = cd_published_at c, cv_modified_at = cd_modified_at c,
      cv_description = cd_description c, cv_cvss_v2 = cd_cvss_v2 c, cv_cvss_v3 = cd_cvss_v3 c,
      cv_cvss_v4 = cd_cvss_v4 c, cv_cwe_ids = cd_cwe_ids c, cv_cpe_matches = cd_cpe_matches c,
      cv_references = cd_references c, cv_rejected = cd_rejected c\<rparr>"

definition ingest_cve :: "cve_data \<Rightarrow> finding_db \<times> nat \<Rightarrow> finding_db \<times> nat" where
  "ingest_cve c st =
     (case st of (db, changed) \<Rightarrow>
        (case the_cve db (cd_cve_id c) of
           None \<Rightarrow>
             (reindex_cve_products (cd_cve_id c) (cd_cpe_matches c) (db\<lparr>fd_cves := fd_cves db @ [cve_row c]\<rparr>), changed + 1)
         | Some r \<Rightarrow>
             (let db1 = db\<lparr>fd_cves := update_where (\<lambda>x. cv_id x = cd_cve_id c) (\<lambda>_. cve_row c) (fd_cves db)\<rparr>
              in if cv_modified_at r \<noteq> cd_modified_at c
                 then (reindex_cve_products (cd_cve_id c) (cd_cpe_matches c) db1, changed + 1)
                 else (db1, changed))))"

definition ingest_nvd :: "finding_env \<Rightarrow> cve_data list \<Rightarrow> finding_db \<Rightarrow> nat \<times> nat \<times> intel_result" where
  "ingest_nvd env cves db =
     (let (db1, changed) = fold ingest_cve cves (db, 0)
      in (length cves, changed, apply_enrichment env (map cd_cve_id cves) [] [] db1))"

definition blank_enrichment :: "string \<Rightarrow> enrichment" where
  "blank_enrichment i =
     \<lparr>en_cve_id = i, en_is_kev = False, en_kev_date_added = None, en_kev_due_date = None,
      en_kev_required_action = None, en_known_ransomware_use = False, en_epss_score = None,
      en_epss_percentile = None, en_previous_epss_score = None\<rparr>"

text \<open>\<open>session.get\<close>, or a new row.\<close>

definition upsert_enrichment :: "string \<Rightarrow> (enrichment \<Rightarrow> enrichment) \<Rightarrow> finding_db \<Rightarrow> finding_db" where
  "upsert_enrichment i g db =
     (if the_enrichment db i = None
      then db\<lparr>fd_enrichments := fd_enrichments db @ [g (blank_enrichment i)]\<rparr>
      else db\<lparr>fd_enrichments := update_where (\<lambda>e. en_cve_id e = i) g (fd_enrichments db)\<rparr>)"

definition kev_marked :: "kev_entry \<Rightarrow> enrichment \<Rightarrow> enrichment" where
  "kev_marked k e =
     e\<lparr>en_is_kev := True, en_kev_date_added := ke_date_added k, en_kev_due_date := ke_due_date k,
       en_kev_required_action := ke_required_action k, en_known_ransomware_use := ke_known_ransomware_use k\<rparr>"

definition is_kev_now :: "finding_db \<Rightarrow> string \<Rightarrow> bool" where
  "is_kev_now db i = (case the_enrichment db i of None \<Rightarrow> False | Some e \<Rightarrow> en_is_kev e)"

definition ingest_kev_entry :: "kev_entry \<Rightarrow> finding_db \<times> string list \<Rightarrow> finding_db \<times> string list" where
  "ingest_kev_entry k st =
     (case st of (db, newly) \<Rightarrow>
        (upsert_enrichment (ke_cve_id k) (kev_marked k) db,
         if is_kev_now db (ke_cve_id k) then newly else newly @ [ke_cve_id k]))"

definition ingest_kev :: "finding_env \<Rightarrow> kev_catalog \<Rightarrow> finding_db \<Rightarrow> nat \<times> nat \<times> intel_result" where
  "ingest_kev env catalog db =
     (let (db1, newly) = fold ingest_kev_entry (kc_entries catalog) (db, [])
      in (length (kc_entries catalog), length newly,
          apply_enrichment env (map ke_cve_id (kc_entries catalog)) newly [] db1))"

definition epss_marked :: "epss_entry \<Rightarrow> enrichment \<Rightarrow> enrichment" where
  "epss_marked p e =
     e\<lparr>en_previous_epss_score := en_epss_score e, en_epss_score := Some (ep_epss p),
       en_epss_percentile := Some (ep_percentile p)\<rparr>"

definition epss_before :: "finding_db \<Rightarrow> string \<Rightarrow> rat option" where
  "epss_before db i = Option.bind (the_enrichment db i) en_epss_score"

definition crosses :: "rat \<Rightarrow> rat option \<Rightarrow> rat \<Rightarrow> bool" where
  "crosses threshold prev new \<longleftrightarrow> given (\<lambda>p. p < threshold) prev \<and> new \<ge> threshold"

definition ingest_epss_entry ::
  "rat \<Rightarrow> epss_entry \<Rightarrow> finding_db \<times> nat \<times> string list \<Rightarrow> finding_db \<times> nat \<times> string list" where
  "ingest_epss_entry threshold p st =
     (case st of (db, changed, crossed) \<Rightarrow>
        (let prev = epss_before db (ep_cve_id p)
         in (upsert_enrichment (ep_cve_id p) (epss_marked p) db,
             if prev \<noteq> Some (ep_epss p) then changed + 1 else changed,
             if crosses threshold prev (ep_epss p) then crossed @ [ep_cve_id p] else crossed)))"

text \<open>
  The last entry of a CVE wins and keeps the place of the first, so that a CVE occurs once: reading the
  rows of a chunk before it is written is reading each row before it is written.
\<close>

definition latest_entries :: "epss_entry list \<Rightarrow> epss_entry list" where
  "latest_entries es = map snd (fold (\<lambda>e. dict_set (ep_cve_id e) e) es [])"

definition ingest_epss :: "finding_env \<Rightarrow> rat \<Rightarrow> epss_entry list \<Rightarrow> finding_db \<Rightarrow> nat \<times> nat \<times> intel_result" where
  "ingest_epss env threshold entries db =
     (let items = latest_entries entries;
          (db1, changed, crossed) = fold (ingest_epss_entry threshold) items (db, 0, [])
      in (length items, changed, apply_enrichment env (map ep_cve_id items) [] crossed db1))"

subsection \<open>Fetching with retries\<close>

definition backoff_delay :: "rat \<Rightarrow> rat \<Rightarrow> nat \<Rightarrow> rat" where
  "backoff_delay base cap attempt = min (base * 2 ^ attempt) cap"

text \<open>
  The loop of \<open>fetch_with_retry\<close> from an attempt on; \<open>fetch k\<close> is the outcome of the request number
  \<open>k\<close>.  The result comes with the delays slept.
\<close>

function fetch_from ::
  "(nat \<Rightarrow> 'e + 'raw) \<Rightarrow> rat \<Rightarrow> rat \<Rightarrow> nat \<Rightarrow> nat \<Rightarrow> ('e + 'raw \<times> nat) \<times> rat list" where
  "fetch_from fetch base cap retries attempt =
     (case fetch attempt of
        Inr raw \<Rightarrow> (Inr (raw, attempt + 1), [])
      | Inl e \<Rightarrow>
          if attempt \<ge> retries then (Inl e, [])
          else (let (r, delays) = fetch_from fetch base cap retries (attempt + 1)
                in (r, backoff_delay base cap attempt # delays)))"
  by auto
termination by (relation "measure (\<lambda>(fetch, base, cap, retries, attempt). retries - attempt)") auto

declare fetch_from.simps [simp del]

definition fetch_with_retry ::
  "(nat \<Rightarrow> 'e + 'raw) \<Rightarrow> rat \<Rightarrow> rat \<Rightarrow> nat \<Rightarrow> ('e + 'raw \<times> nat) \<times> rat list" where
  "fetch_with_retry fetch base cap retries = fetch_from fetch base cap retries 0"

subsection \<open>Feed health and one synchronization\<close>

record feed_health =
  fh_source :: FeedSource
  fh_status :: FeedStatus
  fh_last_success_at :: "time option"
  fh_last_attempt_at :: "time option"
  fh_records_processed :: nat
  fh_records_changed :: nat
  fh_attempts :: nat
  fh_error :: "string option"
  fh_last_source_timestamp :: "string option"

definition blank_feed :: "FeedSource \<Rightarrow> feed_health" where
  "blank_feed s =
     \<lparr>fh_source = s, fh_status = NEVER_SYNCED, fh_last_success_at = None, fh_last_attempt_at = None,
      fh_records_processed = 0, fh_records_changed = 0, fh_attempts = 0, fh_error = None,
      fh_last_source_timestamp = None\<rparr>"

definition feed_attempt ::
  "FeedStatus \<Rightarrow> nat \<Rightarrow> time \<Rightarrow> nat \<Rightarrow> nat \<Rightarrow> string option \<Rightarrow> string option \<Rightarrow> feed_health \<Rightarrow> feed_health" where
  "feed_attempt status attempts now processed changed error source_ts h =
     (let h1 = h\<lparr>fh_status := status, fh_last_attempt_at := Some now, fh_attempts := attempts\<rparr>
      in if status \<in> {OK, DEGRADED}
         then h1\<lparr>fh_last_success_at := Some now, fh_records_processed := processed,
                 fh_records_changed := changed, fh_last_source_timestamp := source_ts, fh_error := None\<rparr>
         else h1\<lparr>fh_error := error\<rparr>)"

definition record_feed_health ::
  "FeedSource \<Rightarrow> (feed_health \<Rightarrow> feed_health) \<Rightarrow> feed_health list \<Rightarrow> feed_health list" where
  "record_feed_health s g hs =
     (if find (\<lambda>h. fh_source h = s) hs = None then hs @ [g (blank_feed s)]
      else update_where (\<lambda>h. fh_source h = s) g hs)"

text \<open>What stops a synchronization: the fetch, the parser or the ingest; its text.\<close>

datatype 'e sync_error = FetchFailed 'e | ParseFailed string | IngestFailed risk_error

record sync_summary =
  sy_status :: FeedStatus
  sy_attempts :: nat
  sy_processed :: nat
  sy_changed :: nat
  sy_events :: nat
  sy_error :: "string option"

definition failed_sync :: "string \<Rightarrow> sync_summary" where
  "failed_sync e =
     \<lparr>sy_status = FAILED, sy_attempts = 0, sy_processed = 0, sy_changed = 0, sy_events = 0, sy_error = Some e\<rparr>"

type_synonym sync_state = "finding_db \<times> feed_health list"

definition sync_failed ::
  "('e sync_error \<Rightarrow> string) \<Rightarrow> FeedSource \<Rightarrow> nat \<Rightarrow> time \<Rightarrow> 'e sync_error \<Rightarrow> sync_state \<Rightarrow> sync_state \<times> sync_summary" where
  "sync_failed text_of source retries now e st =
     ((fst st, record_feed_health source (feed_attempt FAILED (retries + 1) now 0 0 (Some (text_of e)) None) (snd st)),
      failed_sync (text_of e))"

definition sync_feed ::
  "('e sync_error \<Rightarrow> string) \<Rightarrow> FeedSource \<Rightarrow> (nat \<Rightarrow> 'e + 'raw) \<Rightarrow> ('raw \<Rightarrow> string + 'parsed) \<Rightarrow>
   ('parsed \<Rightarrow> finding_db \<Rightarrow> nat \<times> nat \<times> intel_result) \<Rightarrow> ('parsed \<Rightarrow> string option) \<Rightarrow> nat \<Rightarrow> time \<Rightarrow>
   sync_state \<Rightarrow> sync_state \<times> sync_summary" where
  "sync_feed text_of source fetch parse ingest source_ts retries now st =
     (case fst (fetch_with_retry fetch 1 30 retries) of
        Inl e \<Rightarrow> sync_failed text_of source retries now (FetchFailed e) st
      | Inr (raw, attempts) \<Rightarrow>
          (case parse raw of
             Inl e \<Rightarrow> sync_failed text_of source retries now (ParseFailed e) st
           | Inr parsed \<Rightarrow>
               (let (processed, changed, r) = ingest parsed (fst st)
                in case ir_error r of
                     Some e \<Rightarrow> sync_failed text_of source retries now (IngestFailed e) (ir_db r, snd st)
                   | None \<Rightarrow>
                       (let status = (if attempts = 1 then OK else DEGRADED)
                        in ((ir_db r, record_feed_health source
                               (feed_attempt status attempts now processed changed None (source_ts parsed)) (snd st)),
                            \<lparr>sy_status = status, sy_attempts = attempts, sy_processed = processed,
                             sy_changed = changed, sy_events = ir_events r, sy_error = None\<rparr>)))))"

definition sync_kev ::
  "finding_env \<Rightarrow> ('e sync_error \<Rightarrow> string) \<Rightarrow> (nat \<Rightarrow> 'e + 'raw) \<Rightarrow> ('raw \<Rightarrow> string + kev_catalog) \<Rightarrow> nat \<Rightarrow>
   sync_state \<Rightarrow> sync_state \<times> sync_summary" where
  "sync_kev env text_of fetch parse retries =
     sync_feed text_of KEV fetch parse (ingest_kev env) kc_released retries (fe_now env)"

text \<open>The timestamp of an NVD synchronization is \<open>now.isoformat()\<close>, an argument.\<close>

definition sync_nvd ::
  "finding_env \<Rightarrow> string \<Rightarrow> ('e sync_error \<Rightarrow> string) \<Rightarrow> (nat \<Rightarrow> 'e + 'raw) \<Rightarrow> ('raw \<Rightarrow> string + cve_data list) \<Rightarrow> nat \<Rightarrow>
   sync_state \<Rightarrow> sync_state \<times> sync_summary" where
  "sync_nvd env now_iso text_of fetch parse retries =
     sync_feed text_of NVD fetch parse (ingest_nvd env) (\<lambda>_. Some now_iso) retries (fe_now env)"

record epss_data =
  ed_score_date :: "string option"
  ed_entries :: "epss_entry list"

definition sync_epss ::
  "finding_env \<Rightarrow> rat \<Rightarrow> ('e sync_error \<Rightarrow> string) \<Rightarrow> (nat \<Rightarrow> 'e + 'raw) \<Rightarrow> ('raw \<Rightarrow> string + epss_data) \<Rightarrow> nat \<Rightarrow>
   sync_state \<Rightarrow> sync_state \<times> sync_summary" where
  "sync_epss env threshold text_of fetch parse retries =
     sync_feed text_of EPSS fetch parse (\<lambda>d. ingest_epss env threshold (ed_entries d)) ed_score_date retries (fe_now env)"

end
