(* ===== verification/FindingSteps.thy ===== *)
theory FindingSteps
  imports FindingInvariant SlaHandlers Intelligence
begin

text \<open>
  The operations on the findings inventory as sequences of atomic changes: scores, deadlines, ingest,
  verification, acceptances, decisions, feeds and the requests.
\<close>

definition progresses :: "finding_db \<Rightarrow> finding_db \<Rightarrow> bool" where
  "progresses db db' \<longleftrightarrow> (inventory_ok db \<longrightarrow> change\<^sup>*\<^sup>* db db')"

lemma progressesI: "(inventory_ok db \<Longrightarrow> change\<^sup>*\<^sup>* db db') \<Longrightarrow> progresses db db'"
  by (simp add: progresses_def)

lemma progresses_change: "(inventory_ok db \<Longrightarrow> change db db') \<Longrightarrow> progresses db db'"
  by (simp add: progresses_def r_into_rtranclp)

lemma progresses_refl [simp, intro]: "progresses db db"
  by (simp add: progresses_def)

lemma progresses_ok: "progresses db db' \<Longrightarrow> inventory_ok db \<Longrightarrow> inventory_ok db'"
  unfolding progresses_def by (blast intro: changes_ok)

lemma progresses_trans [trans]: "progresses a b \<Longrightarrow> progresses b c \<Longrightarrow> progresses a c"
  unfolding progresses_def using changes_ok by (meson rtranclp_trans)

lemma progresses_fold:
  assumes "\<And>x db. progresses db (f x db)"
  shows "progresses db (fold f xs db)"
  by (induction xs arbitrary: db) (auto intro: progresses_trans assms)

text \<open>The same for a loop that carries counters beside the store.\<close>

lemma progresses_fold_state:
  assumes "\<And>x st. progresses (sel st) (sel (f x st))"
  shows "progresses (sel st) (sel (fold f xs st))"
  by (induction xs arbitrary: st) (auto intro: progresses_trans assms)

subsection \<open>Changes outside the core\<close>

lemma progresses_other: "same_core db db' \<Longrightarrow> progresses db db'"
  by (rule progresses_change) (rule change.Other)

lemma progresses_then_other: "progresses db db1 \<Longrightarrow> same_core db1 db' \<Longrightarrow> progresses db db'"
  by (rule progresses_trans) (auto intro: progresses_other)

lemma same_core_refl [simp]: "same_core db db"
  by (simp add: same_core_def)

lemma same_core_simps [simp]:
  "same_core db (emit e db)" "same_core db (history f ev actor db)" "same_core db (on_acceptance i g' db)"
  "same_core db (on_exception i h db)" "same_core db (snd (draw db))"
  by (simp_all add: same_core_def emit_def history_def on_acceptance_def on_exception_def draw_def)

text \<open>Framing: what comes after an evolution without touching the core.\<close>

lemma progresses_frame:
  "progresses db db1 \<Longrightarrow> progresses db (emit e db1)" "progresses db db1 \<Longrightarrow> progresses db (history f ev actor db1)"
  "progresses db db1 \<Longrightarrow> progresses db (on_acceptance i g' db1)" "progresses db db1 \<Longrightarrow> progresses db (on_exception i h db1)"
  by (erule progresses_then_other, simp)+

lemma progresses_edit:
  "(\<And>f. inventory_ok db \<Longrightarrow> f \<in> set (fd_findings db) \<Longrightarrow> fi_id f = i \<Longrightarrow> keeps_core f (g f)) \<Longrightarrow> progresses db (on_finding i g db)"
  by (rule progresses_change) (rule change.Edit)

lemma progresses_edit_all: "(\<And>f. keeps_core f (g f)) \<Longrightarrow> progresses db (on_finding i g db)"
  by (rule progresses_edit)

subsection \<open>Scores\<close>

lemma newest_mem: "newest ps = Some p \<Longrightarrow> p \<in> set ps"
  unfolding newest_def by (cases ps) (simp_all del: find.simps, drule find_SomeD, simp)

lemma default_profile_evolves:
  assumes ok: "inventory_ok db" and p: "default_profile org db = (db1, p)"
  shows "change\<^sup>*\<^sup>* db db1 \<and> weights_ok (rp_weights p) \<and> fd_findings db1 = fd_findings db \<and> fd_next db \<le> fd_next db1"
proof (cases "default_of org db")
  case None
  have "change db (db\<lparr>fd_next := fd_next db + 1, fd_profiles := fd_profiles db @ [vulna_default (fd_next db) org]\<rparr>)"
    using inventory_okD(9) [OF ok] default_weights_ok by (intro change.Profiles) (auto simp: vulna_default_def)
  then show ?thesis using p None default_weights_ok
    by (auto simp: default_profile_def draw_def vulna_default_def Let_def)
next
  case (Some q)
  then have "q \<in> set (fd_profiles db)" by (auto simp: default_of_def dest: newest_mem)
  then show ?thesis using p Some inventory_okD(9) [OF ok, of q] by (auto simp: default_profile_def)
qed

lemma make_snapshot_facts:
  "ss_id (make_snapshot env i db f p ws) = i" "ss_finding_id (make_snapshot env i db f p ws) = fi_id f"
  "in_range (make_snapshot env i db f p ws)"
  using score_of_range by (simp_all add: make_snapshot_def in_range_def Let_def)

lemma score_step:
  "change db (on_finding (fi_id f) (scored (make_snapshot env (fd_next db) db' f p ws) now)
     (db\<lparr>fd_next := fd_next db + 1, fd_snapshots := fd_snapshots db @ [make_snapshot env (fd_next db) db' f p ws]\<rparr>))"
  using change.Score [of "make_snapshot env (fd_next db) db' f p ws" db now] by (simp add: make_snapshot_facts)

lemma score_finding_evolves:
  assumes "score_finding env i profile force db = Inr (db', s)"
  shows "progresses db db'"
proof (rule progressesI)
  assume ok: "inventory_ok db"
  show "change\<^sup>*\<^sup>* db db'"
  proof (cases "the_finding db i")
    case None
    then show ?thesis using assms by (simp add: score_finding_def)
  next
    case (Some f)
    obtain db1 p where p: "(case profile of Some p \<Rightarrow> (db, p) | None \<Rightarrow> default_profile (fi_organization_id f) db) = (db1, p)"
      by fastforce
    have one: "change\<^sup>*\<^sup>* db db1" using default_profile_evolves [OF ok] p by (auto split: option.splits)
    have f: "fi_id f = i" using the_finding_Some [OF Some] by simp
    show ?thesis
      using assms score_step [of db1 f env _ p _ "fe_now env"] one unfolding score_finding_def Some f
      by (auto simp: p draw_def Let_def res_bind_Inr f split: option.splits intro: rtranclp.rtrancl_into_rtrancl)
  qed
qed

lemma score_finding_total:
  assumes ok: "inventory_ok db"
  shows "\<exists>r. score_finding env i None force db = Inr r"
proof (cases "the_finding db i")
  case None
  then show ?thesis by (simp add: score_finding_def)
next
  case (Some f)
  obtain db1 p where p: "default_profile (fi_organization_id f) db = (db1, p)" by fastforce
  have "weights_ok (rp_weights p)" using default_profile_evolves [OF ok p] by simp
  then show ?thesis using p Some
    by (auto simp: score_finding_def weights_ok_def draw_def Let_def split: option.splits)
qed

subsection \<open>Deadlines\<close>

text \<open>The finding, as far as its calculations go, is a row of the store.\<close>

definition present :: "finding_db \<Rightarrow> finding_row \<Rightarrow> bool" where
  "present db f \<longleftrightarrow> (\<exists>f0 \<in> set (fd_findings db). fi_id f0 = fi_id f \<and> fi_current_sla f0 = fi_current_sla f)"

lemma present_found: "the_finding db i = Some f \<Longrightarrow> present db f"
  by (auto simp: present_def dest: the_finding_Some)

lemma current_calculation:
  assumes "inventory_ok db" and "present db f" and "fi_current_sla f = Some k"
  shows "\<exists>d \<in> set (fd_calculations db). sk_id d = k \<and> sk_finding_id d = fi_id f"
  using assms inventory_okD(6) [OF assms(1)] by (fastforce simp: present_def deadline_ok_def)

lemma establish_evolves:
  assumes "inventory_ok db \<Longrightarrow> previous_ok db c" and "\<And>f. keeps_core f (g f)" and "sk_id c = fd_next db"
  shows "progresses db (establish c g (db\<lparr>fd_next := fd_next db + 1\<rparr>))"
  using assms by (intro progresses_change change.Deadline)

lemma keeps_sla [simp]:
  "keeps_core f (started_once t f)" "keeps_core f f" "keeps_core f (f\<lparr>fi_sla_paused_at := p\<rparr>)" "keeps_core f (f\<lparr>fi_sla_completed_at := q\<rparr>)"
  by (simp_all add: keeps_core_def started_once_def)

lemma calculate_deadline_evolves:
  assumes "calculate_deadline env i actor recalculate db = Inr db'"
  shows "progresses db db'"
proof (cases "the_finding db i")
  case None
  then show ?thesis using assms by (simp add: calculate_deadline_def)
next
  case (Some f)
  have est: "progresses db (establish c (started_once (sk_started_at c)) (db\<lparr>fd_next := fd_next db + 1\<rparr>))"
    if c: "new_calculation env (fd_next db) f policy dd recalculate actor = c" for c policy dd
  proof (rule establish_evolves)
    show "previous_ok db c" if "inventory_ok db"
      using current_calculation [OF that present_found [OF Some]] c
      by (cases "fi_current_sla f") (auto simp: previous_ok_def new_calculation_def Let_def)
  qed (use c in \<open>auto simp: new_calculation_def Let_def\<close>)
  show ?thesis
    using assms Some
    by (auto simp: calculate_deadline_def draw_def Let_def res_bind_Inr split: if_splits
        intro!: progresses_frame est [simplified, OF refl])
qed

lemma calculate_deadline_total:
  assumes ok: "inventory_ok db"
  shows "\<exists>db'. calculate_deadline env i actor recalculate db = Inr db'"
proof (cases "the_finding db i")
  case None
  then show ?thesis by (simp add: calculate_deadline_def)
next
  case (Some f)
  define dd where "dd = (case matching_policy db f of None \<Rightarrow> [] | Some p \<Rightarrow> sp_due_days p)"
  have "due_days_valid dd"
  proof (cases "matching_policy db f")
    case None
    then show ?thesis by (simp add: dd_def due_days_valid_def)
  next
    case (Some p)
    then have "p \<in> set (fd_policies db)" by (auto simp: matching_policy_def dest: find_SomeD)
    then show ?thesis using Some inventory_okD(10) [OF ok, of p] by (simp add: dd_def)
  qed
  then obtain r where "validate_due_days (JObj dd) = Inr r" using due_days_valid_validates by blast
  then show ?thesis using Some by (auto simp: calculate_deadline_def dd_def draw_def Let_def)
qed

subsection \<open>Ingest\<close>

lemma progresses_record_change:
  "progresses db db1 \<Longrightarrow> progresses db (record_change job asset kind summary sev db1)"
  by (cases asset) (auto simp: record_change_def intro: progresses_frame)

lemma create_one_evolves:
  assumes "the_key db (sj_organization_id job) key = None"
  shows "progresses db (fst (snd (create_one job asset service key pf now (db, s))))"
proof -
  have "change db (db\<lparr>fd_next := fd_next db + 1, fd_findings := fd_findings db @
      [new_finding (fd_next db) job (map_option ax_id asset) (map_option sr_id service) key pf now]\<rparr>)"
    using assms by (intro change.Create) (simp_all add: new_finding_def)
  then have "progresses db (db\<lparr>fd_next := fd_next db + 1, fd_findings := fd_findings db @
      [new_finding (fd_next db) job (map_option ax_id asset) (map_option sr_id service) key pf now]\<rparr>)"
    by (rule progresses_change)
  then show ?thesis by (simp add: create_one_def draw_def Let_def progresses_record_change)
qed

lemma keeps_refreshed: "keeps_core f (observed_again job pf now f)"
  by (simp add: observed_again_def reopened_def refreshed_def keeps_core_def)

lemma refresh_one_evolves: "progresses db (fst (refresh_one job asset f pf now (db, s)))"
  by (auto simp: refresh_one_def Let_def intro!: progresses_record_change progresses_edit_all keeps_refreshed)

lemma upsert_one_evolves: "progresses db (fst (snd (upsert_one env job pf (db, s))))"
  using create_one_evolves refresh_one_evolves
  by (auto simp: upsert_one_def Let_def split: option.splits prod.splits)

lemma raised_as_Inr [simp]: "raised_as g r = Inr x \<longleftrightarrow> r = Inr x"
  by (simp add: raised_as_def split: sum.splits)

lemma score_and_deadline_evolves:
  assumes "score_and_deadline env i db = Inr db'"
  shows "progresses db db'"
  using assms unfolding score_and_deadline_def
  by (auto simp: res_bind_Inr intro: progresses_trans [OF score_finding_evolves calculate_deadline_evolves])

lemma score_and_deadline_total:
  assumes ok: "inventory_ok db"
  shows "\<exists>db'. score_and_deadline env i db = Inr db'"
proof -
  obtain db1 s where score: "score_finding env i None False db = Inr (db1, s)"
    using score_finding_total [OF ok] by (metis surj_pair)
  then have "inventory_ok db1" using progresses_ok [OF score_finding_evolves ok] by blast
  then obtain db2 where "calculate_deadline env i None False db1 = Inr db2" using calculate_deadline_total by blast
  then show ?thesis using score by (simp add: score_and_deadline_def raised_as_def)
qed

lemma ingest_one_evolves:
  assumes "ingest_one env job pf (db, s) = Inr (db', s')"
  shows "progresses db db'"
proof -
  obtain i db1 s1 where up: "upsert_one env job pf (db, s) = (i, db1, s1)" by (metis surj_pair)
  then have "progresses db db1" using upsert_one_evolves [of db env job pf s] by simp
  moreover have "progresses db1 db'" using assms up by (auto simp: ingest_one_def res_bind_Inr dest: score_and_deadline_evolves)
  ultimately show ?thesis by (rule progresses_trans)
qed

lemma ingest_one_total:
  assumes ok: "inventory_ok db"
  shows "\<exists>db' s'. ingest_one env job pf (db, s) = Inr (db', s')"
proof -
  obtain i db1 s1 where up: "upsert_one env job pf (db, s) = (i, db1, s1)" by (metis surj_pair)
  then have "inventory_ok db1" using progresses_ok [OF upsert_one_evolves [of db env job pf s] ok] by simp
  then obtain db2 where "score_and_deadline env i db1 = Inr db2" using score_and_deadline_total by blast
  then show ?thesis using up by (simp add: ingest_one_def)
qed

lemma ingest_all_evolves: "ingest_all env job pfs (db, s) = Inr (db', s') \<Longrightarrow> progresses db db'"
proof (induction pfs arbitrary: db s)
  case (Cons pf pfs)
  obtain db1 s1 where "ingest_one env job pf (db, s) = Inr (db1, s1)" and "ingest_all env job pfs (db1, s1) = Inr (db', s')"
    using Cons.prems by (auto simp: res_bind_Inr)
  then show ?case using Cons.IH ingest_one_evolves progresses_trans by blast
qed simp

lemma ingest_all_total: "inventory_ok db \<Longrightarrow> \<exists>db' s'. ingest_all env job pfs (db, s) = Inr (db', s')"
proof (induction pfs arbitrary: db s)
  case (Cons pf pfs)
  obtain db1 s1 where one: "ingest_one env job pf (db, s) = Inr (db1, s1)" using ingest_one_total [OF Cons.prems] by blast
  then have "inventory_ok db1" using progresses_ok [OF ingest_one_evolves Cons.prems] by blast
  then show ?case using Cons.IH one by simp
qed simp

lemma ingest_findings_evolves: "ingest_findings env job parsed db = Inr (db', s) \<Longrightarrow> progresses db db'"
  unfolding ingest_findings_def by (rule ingest_all_evolves)

subsection \<open>Verification, the sweep and the walk\<close>

lemma keeps_verified [simp]:
  "keeps_core f (f\<lparr>fi_last_verified_at := t\<rparr>)" "keeps_core f (verified_fixed now f)" "keeps_core f (accepted_by i f)"
  "keeps_core f (acceptance_over f)" "keeps_core f (decided_finding kind reason f)" "keeps_core f (restore_decision_projection d f)"
  "keeps_core f (fi_status_update u f)" "keeps_core f (assigned_to owner f)"
  by (simp_all add: keeps_core_def verified_fixed_def accepted_by_def acceptance_over_def decided_finding_def
      restore_decision_projection_def assigned_to_def)

lemma complete_finding_evolves: "progresses db (complete_finding now f db)"
  by (auto simp: complete_finding_def intro!: progresses_frame progresses_edit_all)

lemma verify_one_evolves: "progresses (fst st) (fst (verify_one job scanner keys now raw st))"
proof (cases st)
  case (Pair db n)
  have edit: "progresses db (on_finding i (fi_last_verified_at_update (\<lambda>_. Some now)) db)" for i
    by (rule progresses_edit_all) simp
  have fixed: "progresses db1 (on_finding i (verified_fixed now) db1)" for i db1
    by (rule progresses_edit_all) simp
  show ?thesis unfolding Pair verify_one_def
    by (auto simp: Let_def split: option.splits
        intro!: progresses_frame edit progresses_trans [OF progresses_trans [OF edit fixed] complete_finding_evolves])
qed

lemma apply_verification_evolves: "progresses db (fst (apply_verification job scanner keys now db))"
  using progresses_fold_state [of fst "verify_one job scanner keys now" "(db, 0)"] verify_one_evolves
  by (simp add: apply_verification_def)

lemma finalize_evolves: "progresses db (fst (finalize_scanner_verification job scanner now db))"
proof -
  have "progresses (fst st) (fst (finalize_namespace job now ns st))" for ns st
    using apply_verification_evolves [of "fst st"] by (auto simp: finalize_namespace_def Let_def split: prod.splits)
      (metis fst_conv)
  then show ?thesis using progresses_fold_state [of fst "finalize_namespace job now" "(db, 0)"]
    by (simp add: finalize_scanner_verification_def)
qed

lemma sweep_evolves: "progresses db (fst (sweep_sla_status now org db))"
proof -
  have "progresses (fst st) (fst (sweep_one now f st))" for f st
    by (cases st) (auto simp: sweep_one_def intro!: progresses_frame progresses_edit_all)
  then show ?thesis unfolding sweep_sla_status_def using progresses_fold_state [of fst "sweep_one now"] by fastforce
qed

subsection \<open>The pause of a risk acceptance\<close>

text \<open>Previous calculations are older, so that the walk along them ends.\<close>

lemma pause_walk_returns:
  assumes ok: "inventory_ok db"
  shows "\<exists>b. pause_walk db i = Some b"
proof (induction "or_else i 0" arbitrary: i rule: less_induct)
  case less
  show ?case
  proof (cases "Option.bind i (the_calculation db)")
    case None
    then show ?thesis by (subst pause_walk.simps) auto
  next
    case (Some c)
    then obtain k where i: "i = Some k" and c: "c \<in> set (fd_calculations db)" "sk_id c = k"
      by (auto simp: the_calculation_def bind_eq_Some_conv dest: find_SomeD)
    show ?thesis
    proof (cases "sk_policy_id c")
      case None
      have "\<exists>b. pause_walk db (sk_previous_id c) = Some b"
      proof (cases "sk_previous_id c")
        case None
        then show ?thesis by (subst pause_walk.simps) auto
      next
        case (Some p)
        then have "p < k" using inventory_okD(7) [OF ok c(1)] c(2) by (simp add: chained_def)
        then show ?thesis using less [of "Some p"] Some i by simp
      qed
      then show ?thesis using Some None by (subst pause_walk.simps) auto
    qed (subst pause_walk.simps, auto simp: Some)
  qed
qed

lemma pause_evolves:
  assumes "pause_for_risk_acceptance env f db = Some db'"
  shows "progresses db db'"
  using assms by (auto simp: pause_for_risk_acceptance_def split: if_splits intro!: progresses_frame progresses_edit_all)

lemma pause_total: "inventory_ok db \<Longrightarrow> \<exists>db'. pause_for_risk_acceptance env f db = Some db'"
  using pause_walk_returns [of db "fi_current_sla f"] by (auto simp: pause_for_risk_acceptance_def)

lemma followup_evolves:
  assumes "present db f" and "fi_current_sla f = Some p" and "\<And>x. keeps_core x (g x)"
  shows "progresses db (establish (followup (fd_next db) f p source now due actor) g (db\<lparr>fd_next := fd_next db + 1\<rparr>))"
proof (rule establish_evolves)
  show "previous_ok db (followup (fd_next db) f p source now due actor)" if "inventory_ok db"
    using current_calculation [OF that assms(1,2)] by (simp add: previous_ok_def followup_def)
qed (simp_all add: followup_def assms(3))

lemma resume_evolves:
  assumes "present db f"
  shows "progresses db (resume_after_risk_acceptance env f db)"
  using followup_evolves [OF assms]
  by (auto simp: resume_after_risk_acceptance_def draw_def Let_def split: option.splits intro!: progresses_frame)

subsection \<open>Acceptances and decisions\<close>

lemma present_edit:
  assumes f: "the_finding db i = Some f" and g: "fi_id (g f) = fi_id f" "fi_current_sla (g f) = fi_current_sla f"
  shows "present (on_finding i g db) (g f)"
proof -
  have "f \<in> set (fd_findings db)" and i: "fi_id f = i" using the_finding_Some [OF f] by auto
  then have "g f \<in> set (fd_findings (on_finding i g db))" by (auto simp: update_where_def image_iff)
  then show ?thesis by (auto simp: present_def)
qed

lemma the_finding_other: "fd_findings db' = fd_findings db \<Longrightarrow> the_finding db' i = the_finding db i"
  by (simp add: the_finding_def)

lemma fd_findings_on_acceptance [simp]: "fd_findings (on_acceptance i g db) = fd_findings db"
  by (simp add: on_acceptance_def)

lemma create_acceptance_evolves: "progresses db (create_risk_acceptance env f by reason controls starts expires db)"
  by (rule progresses_other) (simp add: create_risk_acceptance_def draw_def same_core_def)

lemma decide_acceptance_evolves:
  assumes "decide_risk_acceptance env r f approve approved_by notes db = Some db'"
  shows "progresses db db'"
proof -
  have edit: "progresses db (on_finding (fi_id f) (accepted_by (ra_id r)) (on_acceptance (ra_id r) g db))" for g
    by (rule progresses_trans [OF progresses_frame(3) [OF progresses_refl] progresses_edit_all]) simp
  show ?thesis using assms
    by (auto simp: decide_risk_acceptance_def Let_def split: if_splits
        intro!: progresses_frame dest!: pause_evolves intro: progresses_trans [OF edit])
qed

lemma decide_acceptance_total:
  assumes ok: "inventory_ok db"
  shows "\<exists>db'. decide_risk_acceptance env r f approve approved_by notes db = Some db'"
proof -
  have "inventory_ok (on_finding (fi_id f) (accepted_by (ra_id r)) (on_acceptance (ra_id r) g db))" for g
    by (rule progresses_ok [OF progresses_trans [OF progresses_frame(3) [OF progresses_refl] progresses_edit_all] ok]) simp
  then show ?thesis using pause_total by (simp add: decide_risk_acceptance_def Let_def)
qed

lemma expire_acceptance_evolves: "progresses db (expire_acceptance env r db)"
proof -
  let ?db1 = "on_acceptance (ra_id r) (ra_status_update (\<lambda>_. RiskAcceptanceStatus.EXPIRED)) db"
  have one: "progresses db ?db1" by (rule progresses_frame(3)) simp
  have edit: "progresses db (on_finding i acceptance_over ?db1)" for i
    by (rule progresses_trans [OF one progresses_edit_all]) simp
  have resumed: "progresses db (resume_after_risk_acceptance env (acceptance_over f) (on_finding (fi_id f) acceptance_over ?db1))"
    if f: "the_finding ?db1 i = Some f" for i f
  proof (rule progresses_trans [OF edit resume_evolves])
    show "present (on_finding (fi_id f) acceptance_over ?db1) (acceptance_over f)"
      using f the_finding_Some [OF f] by (intro present_edit) (auto simp: acceptance_over_def)
  qed
  show ?thesis unfolding expire_acceptance_def Let_def
    using one resumed by (auto split: option.splits intro!: progresses_frame)
qed

lemma expire_acceptances_evolves: "progresses db (fst (expire_risk_acceptances env db))"
  by (simp add: expire_risk_acceptances_def progresses_fold expire_acceptance_evolves)

lemma check_decision_active:
  "check_decision env f kind reason evidence expires duplicate db = Inr u \<Longrightarrow> active_decision db (fi_id f) = None"
  by (auto simp: check_decision_def res_bind_Inr split: if_splits)

lemma create_decision_evolves:
  assumes "create_finding_decision env f kind reason evidence expires duplicate actor db = Inr db'"
  shows "progresses db db'"
proof -
  have none: "active_decision db (fi_id f) = None"
    using assms by (auto simp: create_finding_decision_def res_bind_Inr dest: check_decision_active)
  have decide: "progresses db (db\<lparr>fd_next := fd_next db + 1, fd_decisions := fd_decisions db @ [d]\<rparr>)"
    if "de_finding_id d = fi_id f" for d
    using none that by (intro progresses_change change.Decide) simp
  show ?thesis using assms
    by (auto simp: create_finding_decision_def res_bind_Inr draw_def Let_def
        intro!: progresses_trans [OF decide [simplified] progresses_edit_all])
qed

lemma close_decision_evolves:
  assumes "\<And>d. de_status (g d) \<noteq> FindingDecisionStatus.ACTIVE \<and> de_finding_id (g d) = de_finding_id d"
  shows "progresses db (on_finding i (restore_decision_projection d) (on_decision j g db))"
proof (rule progresses_trans)
  show "progresses db (on_decision j g db)" by (intro progresses_change change.Close assms)
  show "progresses (on_decision j g db) (on_finding i (restore_decision_projection d) (on_decision j g db))"
    by (rule progresses_edit_all) simp
qed

lemma revoke_decision_evolves: "revoke_finding_decision env d actor db = Inr db' \<Longrightarrow> progresses db db'"
  by (auto simp: revoke_finding_decision_def split: if_splits intro!: close_decision_evolves)

lemma expire_decisions_evolves: "progresses db (fst (expire_finding_decisions now org db))"
proof -
  have "progresses db (expire_decision d db)" for d db
    unfolding expire_decision_def by (rule close_decision_evolves) simp
  then show ?thesis by (simp add: expire_finding_decisions_def progresses_fold)
qed

lemma decide_exception_evolves:
  assumes "present db f" and "decide_exception env f x approve actor notes db = Inr db'"
  shows "progresses db db'"
  using assms(2) followup_evolves [OF assms(1), where g = "id"]
  by (auto simp: decide_exception_def draw_def Let_def id_def split: if_splits option.splits intro!: progresses_frame)

lemma request_exception_evolves:
  "request_exception env f due reason actor db = Inr db' \<Longrightarrow> progresses db db'"
  by (auto simp: request_exception_def draw_def Let_def split: option.splits if_splits
      intro!: progresses_other simp: same_core_def history_def)

subsection \<open>Feeds\<close>

lemma keeps_enriched: "keeps_core f (enriched db f)"
  by (auto simp: enriched_def cvss_filled_def epss_filled_def keeps_core_def Let_def split: option.splits)

lemma progresses_emit_all: "progresses db db1 \<Longrightarrow> progresses db (fold emit es db1)"
  by (induction es arbitrary: db1) (auto intro: progresses_frame)

lemma enrich_all_evolves: "progresses db (ir_db (enrich_all env kev epss is db n))"
proof (induction "is" arbitrary: db n)
  case (Cons i "is")
  have one: "progresses db (fold emit es (on_finding i (enriched db) db))" for es
    by (intro progresses_emit_all progresses_edit_all keeps_enriched)
  show ?case
    by (auto simp: Let_def split: option.splits sum.splits
        intro: Cons.IH one progresses_trans [OF one progresses_trans [OF score_finding_evolves Cons.IH]])
qed simp

lemma enrich_all_total:
  "inventory_ok db \<Longrightarrow> ir_error (enrich_all env kev epss is db n) = None"
proof (induction "is" arbitrary: db n)
  case (Cons i "is")
  have ok: "inventory_ok (fold emit es (on_finding i (enriched db) db))" for es
    by (rule progresses_ok [OF progresses_emit_all [OF progresses_edit_all] Cons.prems]) (rule keeps_enriched)
  have scored: "\<exists>db2 s. score_finding env i None False (fold emit es (on_finding i (enriched db) db)) = Inr (db2, s)
      \<and> inventory_ok db2" for es
    using score_finding_total [OF ok [of es], of env i False] progresses_ok [OF score_finding_evolves ok] by fastforce
  show ?case
  proof (cases "the_finding db i")
    case None
    then show ?thesis using Cons by simp
  next
    case (Some f)
    obtain db2 s where "score_finding env i None False
        (fold emit (enrichment_events db kev epss f) (on_finding i (enriched db) db)) = Inr (db2, s)" and "inventory_ok db2"
      using scored by blast
    then show ?thesis using Some Cons.IH by (simp add: Let_def)
  qed
qed simp

lemma apply_enrichment_evolves: "progresses db (ir_db (apply_enrichment env affected kev epss db))"
  unfolding apply_enrichment_def by (rule enrich_all_evolves)

lemma upsert_enrichment_core: "same_core db (upsert_enrichment i g db)"
  by (simp add: upsert_enrichment_def same_core_def)

lemma reindex_core: "same_core db (reindex_cve_products i ms db)"
  by (simp add: reindex_cve_products_def same_core_def Let_def)

lemma ingest_kev_evolves: "progresses db (ir_db (snd (snd (ingest_kev env catalog db))))"
proof -
  have "progresses (fst st) (fst (ingest_kev_entry k st))" for k st
    by (cases st) (auto simp: ingest_kev_entry_def intro: progresses_other upsert_enrichment_core)
  then have "progresses db (fst (fold ingest_kev_entry (kc_entries catalog) (db, [])))"
    using progresses_fold_state [of fst ingest_kev_entry "(db, [])"] by simp
  then show ?thesis
    by (auto simp: ingest_kev_def split: prod.splits intro: progresses_trans [OF _ apply_enrichment_evolves])
qed

lemma ingest_epss_evolves: "progresses db (ir_db (snd (snd (ingest_epss env threshold entries db))))"
proof -
  have "progresses (fst st) (fst (ingest_epss_entry threshold p st))" for p st
    by (cases st) (auto simp: ingest_epss_entry_def Let_def intro: progresses_other upsert_enrichment_core)
  then have "progresses db (fst (fold (ingest_epss_entry threshold) (latest_entries entries) (db, 0, [])))"
    using progresses_fold_state [of fst "ingest_epss_entry threshold" "(db, 0, [])"] by simp
  then show ?thesis
    by (auto simp: ingest_epss_def Let_def split: prod.splits intro: progresses_trans [OF _ apply_enrichment_evolves])
qed

lemma ingest_cve_evolves: "progresses (fst st) (fst (ingest_cve c st))"
proof (cases st)
  case (Pair db n)
  have "same_core db (db\<lparr>fd_cves := cs\<rparr>)" for cs by (simp add: same_core_def)
  then show ?thesis unfolding Pair
    by (auto simp: ingest_cve_def Let_def split: option.splits
        intro: progresses_other progresses_then_other [OF progresses_other reindex_core])
qed

lemma ingest_nvd_evolves: "progresses db (ir_db (snd (snd (ingest_nvd env cves db))))"
proof -
  have "progresses db (fst (fold ingest_cve cves (db, 0)))"
    using progresses_fold_state [of fst ingest_cve "(db, 0)"] ingest_cve_evolves by simp
  then show ?thesis
    by (auto simp: ingest_nvd_def split: prod.splits intro: progresses_trans [OF _ apply_enrichment_evolves])
qed

lemma sync_feed_evolves:
  assumes "\<And>p db. progresses db (ir_db (snd (snd (ingest p db))))"
  shows "progresses (fst st) (fst (fst (sync_feed text_of source fetch parse ingest source_ts retries now st)))"
  using assms [of "fst st"]
  by (auto simp: sync_feed_def sync_failed_def Let_def split: sum.splits prod.splits option.splits) (metis snd_conv)+

end
