(* ===== verification/FindingLifecycle.thy ===== *)
theory FindingLifecycle
  imports FindingSteps
begin

text \<open>
  The findings inventory as a state machine: the steps are the committed operations of the services,
  of the requests and of the background tasks; a store is reachable from the empty one by such steps.
\<close>

subsection \<open>The requests\<close>

lemma raised_Inr [simp]:
  "raised_422 r = Inr x \<longleftrightarrow> r = Inr x" "raised_409 r = Inr x \<longleftrightarrow> r = Inr x" "raised_500 r = Inr x \<longleftrightarrow> r = Inr x"
  "or_500 r' = Inr x \<longleftrightarrow> r' = Inr x"
  by (simp_all add: raised_422_def raised_409_def raised_500_def or_500_def)

lemma in_reach_Inr: "in_reach c key missing f = Inr g \<Longrightarrow> f = Some g"
  by (auto simp: in_reach_def split: sum.splits option.splits if_splits)

lemma owned_finding_Inr: "owned_finding c key i db = Inr f \<Longrightarrow> the_finding db i = Some f"
  unfolding owned_finding_def by (rule in_reach_Inr)

lemma rescore_evolves: "rescore env i profile force db = Inr db' \<Longrightarrow> progresses db db'"
  by (auto simp: rescore_def res_bind_Inr intro: score_finding_evolves)

lemma rescore_all_evolves: "rescore_all env p force is db = Inr db' \<Longrightarrow> progresses db db'"
  by (induction "is" arbitrary: db) (auto simp: res_bind_Inr intro: progresses_trans rescore_evolves)

lemma updated_keeps:
  assumes "check_update c f p db = Inr u"
  shows "keeps_core f (updated p now f)"
  using assms by (cases "fu_due_at p") (auto simp: check_update_def res_bind_Inr updated_def keeps_core_def Let_def)

lemma update_finding_evolves:
  assumes "update_finding env c i p db = Inr db'"
  shows "progresses db db'"
proof -
  obtain f u where f: "the_finding db i = Some f" and check: "check_update c f p db = Inr u"
    using assms by (auto simp: update_finding_def res_bind_Inr dest: owned_finding_Inr)
  have edit: "progresses db (on_finding i (updated p (fe_now env)) db)"
  proof (rule progresses_edit)
    show "keeps_core g (updated p (fe_now env) g)" if "inventory_ok db" "g \<in> set (fd_findings db)" "fi_id g = i" for g
      using updated_keeps [OF check] the_finding_unique [OF inventory_findings [OF that(1)] that(2)] that(3) f by simp
  qed
  have complete: "progresses db (complete_finding (fe_now env) f (on_finding i (updated p (fe_now env)) db))"
    by (rule progresses_trans [OF edit complete_finding_evolves])
  show ?thesis using assms f
    by (auto simp: update_finding_def res_bind_Inr Let_def edit complete split: if_splits dest!: owned_finding_Inr
        intro: progresses_trans [OF edit rescore_evolves] progresses_trans [OF complete rescore_evolves])
qed

lemma bulk_one_evolves: "bulk_one env c b f db = Inr (Some db') \<Longrightarrow> progresses db db'"
  by (auto simp: bulk_one_def res_bind_Inr split: if_splits intro!: progresses_edit_all dest: create_decision_evolves)

lemma bulk_loop_evolves: "bulk_loop env c b clause is (db, r) = Inr (db', r') \<Longrightarrow> progresses db db'"
proof (induction "is" arbitrary: db r)
  case (Cons i "is")
  then show ?case
    by (auto simp: Let_def split: option.splits if_splits sum.splits intro: progresses_trans dest: bulk_one_evolves)
qed simp

lemma bulk_update_evolves: "bulk_update env c b db = Inr (db', r) \<Longrightarrow> progresses db db'"
  by (auto simp: bulk_update_def res_bind_Inr intro: bulk_loop_evolves)

lemma request_acceptance_evolves:
  "request_risk_acceptance env c i reason controls starts expires db = Inr db' \<Longrightarrow> progresses db db'"
  by (auto simp: request_risk_acceptance_def res_bind_Inr intro: create_acceptance_evolves)

lemma decide_request_evolves:
  assumes "decide_acceptance env c i approve notes db = Some (Inr db')"
  shows "progresses db db'"
  using assms by (auto simp: decide_acceptance_def Let_def split: sum.splits intro: decide_acceptance_evolves)

lemma decide_request_total:
  assumes ok: "inventory_ok db"
  shows "\<exists>r. decide_acceptance env c i approve notes db = Some r"
  using decide_acceptance_total [OF ok] by (auto simp: decide_acceptance_def Let_def split: sum.splits)

lemma create_profile_evolves:
  assumes "create_profile_version org name description weights make_default db = Inr (db', p)"
  shows "progresses db db'"
proof (rule progresses_change)
  assume ok: "inventory_ok db"
  have kept: "weights_ok (rp_weights q)" if "q \<in> set (not_default org (fd_profiles db))" for q
    using that inventory_okD(9) [OF ok] by (auto simp: not_default_def update_where_def)
  have weights: "weights_ok weights"
    using assms by (auto simp: create_profile_version_def Let_def res_bind_Inr split: if_splits dest: validate_weights_Inr)
  show "change db db'"
    using assms
    by (auto simp: create_profile_version_def Let_def res_bind_Inr draw_def split: if_splits
        intro!: change.Profiles dest!: validate_weights_Inr dest: kept inventory_okD(9) [OF ok])
qed

lemma activate_profile_evolves: "progresses db (activate_profile p db)"
proof (rule progresses_change)
  assume ok: "inventory_ok db"
  define ps where "ps = update_where (\<lambda>q. rp_id q = rp_id p) (rp_is_default_update (\<lambda>_. True))
    (not_default (rp_organization_id p) (fd_profiles db))"
  have "change db (db\<lparr>fd_next := fd_next db, fd_profiles := ps\<rparr>)"
    using inventory_okD(9) [OF ok] by (intro change.Profiles) (auto simp: ps_def not_default_def update_where_def)
  then show "change db (activate_profile p db)" by (simp add: activate_profile_def ps_def)
qed

lemma create_risk_profile_evolves: "create_risk_profile env c p db = Inr db' \<Longrightarrow> progresses db db'"
  by (auto simp: create_risk_profile_def res_bind_Inr split: if_splits
      intro: create_profile_evolves progresses_trans rescore_all_evolves)

lemma activate_risk_profile_evolves: "activate_risk_profile env c i db = Inr db' \<Longrightarrow> progresses db db'"
  by (auto simp: activate_risk_profile_def res_bind_Inr split: option.splits if_splits
      intro: progresses_trans [OF activate_profile_evolves rescore_all_evolves])

lemma create_policy_evolves:
  assumes "create_policy env c p db = Inr db'"
  shows "progresses db db'"
proof (rule progresses_change)
  assume ok: "inventory_ok db"
  show "change db db'"
    using assms inventory_okD(10) [OF ok]
    by (auto simp: create_policy_def res_bind_Inr draw_def Let_def intro!: change.Policies dest!: validate_due_days_Inr)
qed

lemma patched_policy_ok:
  assumes "due_days_valid (sp_due_days q)" and "checked validate_due_days v = Inr due_days"
  shows "due_days_valid (sp_due_days (patched_policy p name priority matching due_days q))"
  using assms by (auto simp: patched_policy_def checked_def res_bind_Inr split: option.splits dest: validate_due_days_Inr)

lemma update_policy_evolves:
  assumes "update_policy env c i p db = Inr db'"
  shows "progresses db db'"
proof (rule progresses_change)
  assume ok: "inventory_ok db"
  obtain j name priority matching due_days where days: "checked validate_due_days (pu_due_days p) = Inr due_days"
    and db': "db' = db\<lparr>fd_policies := update_where (\<lambda>r. sp_id r = j) (patched_policy p name priority matching due_days) (fd_policies db)\<rparr>"
    using assms by (auto simp: update_policy_def res_bind_Inr split: option.splits)
  define ps where "ps = update_where (\<lambda>r. sp_id r = j) (patched_policy p name priority matching due_days) (fd_policies db)"
  have "change db (db\<lparr>fd_next := fd_next db, fd_policies := ps\<rparr>)"
    using inventory_okD(10) [OF ok] patched_policy_ok [OF _ days]
    by (intro change.Policies) (auto simp: ps_def update_where_def)
  then show "change db db'" by (simp add: db' ps_def)
qed

lemma deadline_requests_evolve:
  "calculate_finding_sla env c i db = Inr db' \<Longrightarrow> progresses db db'"
  "create_exception env c i due reason db = Inr db' \<Longrightarrow> progresses db db'"
  by (auto simp: calculate_finding_sla_def create_exception_def res_bind_Inr
      intro: calculate_deadline_evolves request_exception_evolves)

lemma review_exception_evolves:
  assumes "review_exception env c i approve notes db = Inr db'"
  shows "progresses db db'"
  using assms by (auto simp: review_exception_def Let_def res_bind_Inr split: option.splits
      dest!: in_reach_Inr intro: decide_exception_evolves present_found)

lemma add_guidance_evolves: "add_guidance env c i p db = Inr db' \<Longrightarrow> progresses db db'"
  by (auto simp: add_guidance_def create_guidance_def res_bind_Inr Let_def same_core_def split: if_splits
      intro!: progresses_other)

lemma decision_requests_evolve:
  "create_decision env c i p db = Inr db' \<Longrightarrow> progresses db db'"
  "revoke_decision env c i j db = Inr db' \<Longrightarrow> progresses db db'"
  "expire_decisions env c db = Inr (db', n) \<Longrightarrow> progresses db db'"
  "recalculate_score env c i db = Inr db' \<Longrightarrow> progresses db db'"
  "run_expiry env c db = Inr (db', n) \<Longrightarrow> progresses db db'"
  using expire_decisions_evolves [of db "fe_now env" "Some (principal_org (cl_actor c))"] expire_acceptances_evolves [of db env]
  by (auto simp: create_decision_def revoke_decision_def expire_decisions_def recalculate_score_def run_expiry_def
      res_bind_Inr split: option.splits if_splits
      intro: create_decision_evolves revoke_decision_evolves rescore_evolves)

subsection \<open>Steps\<close>

definition empty_inventory :: finding_db where
  "empty_inventory =
     \<lparr>fd_next = 0, fd_findings = [], fd_assets = [], fd_services = [], fd_events = [], fd_profiles = [],
      fd_snapshots = [], fd_policies = [], fd_calculations = [], fd_exceptions = [], fd_history = [],
      fd_acceptances = [], fd_decisions = [], fd_guidance = [], fd_cves = [], fd_product_index = [],
      fd_enrichments = []\<rparr>"

text \<open>Other components own the assets and the services; the tasks and the feeds act without a caller.\<close>

inductive inventory_step :: "finding_db \<Rightarrow> finding_db \<Rightarrow> bool" where
  Assets: "inventory_step db (db\<lparr>fd_assets := hosts, fd_services := ports\<rparr>)"
| Ingest: "ingest_findings env job parsed db = Inr (db', s) \<Longrightarrow> inventory_step db db'"
| Verify: "finalize_scanner_verification job scanner now db = (db', n) \<Longrightarrow> inventory_step db db'"
| Sweep: "sweep_sla_status now org db = (db', n) \<Longrightarrow> inventory_step db db'"
| Expire: "expire_finding_decisions now org db = (db', m) \<Longrightarrow> inventory_step db db'"
| SyncNvd: "sync_nvd env iso_now (text_of :: string sync_error \<Rightarrow> string) (fetch :: nat \<Rightarrow> string + string) parse retries (db, feeds) = ((db', feeds'), summary) \<Longrightarrow> inventory_step db db'"
| SyncKev: "sync_kev env (text_of :: string sync_error \<Rightarrow> string) (fetch :: nat \<Rightarrow> string + string) parse' retries (db, feeds) = ((db', feeds'), summary) \<Longrightarrow> inventory_step db db'"
| SyncEpss: "sync_epss env threshold (text_of :: string sync_error \<Rightarrow> string) (fetch :: nat \<Rightarrow> string + string) parse'' retries (db, feeds) = ((db', feeds'), summary) \<Longrightarrow> inventory_step db db'"
| Update: "update_finding env c i p db = Inr db' \<Longrightarrow> inventory_step db db'"
| Bulk: "bulk_update env c b db = Inr (db', r) \<Longrightarrow> inventory_step db db'"
| Request: "request_risk_acceptance env c i reason controls starts expires db = Inr db' \<Longrightarrow> inventory_step db db'"
| Decision: "decide_acceptance env c i approve notes db = Some (Inr db') \<Longrightarrow> inventory_step db db'"
| Run_Expiry: "run_expiry env c db = Inr (db', k) \<Longrightarrow> inventory_step db db'"
| Create_Decision: "create_decision env c i d db = Inr db' \<Longrightarrow> inventory_step db db'"
| Revoke_Decision: "revoke_decision env c i j db = Inr db' \<Longrightarrow> inventory_step db db'"
| Expire_Decisions: "expire_decisions env c db = Inr (db', k) \<Longrightarrow> inventory_step db db'"
| Recalculate: "recalculate_score env c i db = Inr db' \<Longrightarrow> inventory_step db db'"
| Create_Profile: "create_risk_profile env c rp db = Inr db' \<Longrightarrow> inventory_step db db'"
| Activate_Profile: "activate_risk_profile env c i db = Inr db' \<Longrightarrow> inventory_step db db'"
| Create_Policy: "create_policy env c sp db = Inr db' \<Longrightarrow> inventory_step db db'"
| Update_Policy: "update_policy env c i pu db = Inr db' \<Longrightarrow> inventory_step db db'"
| Calculate: "calculate_finding_sla env c i db = Inr db' \<Longrightarrow> inventory_step db db'"
| Create_Exception: "create_exception env c i due reason db = Inr db' \<Longrightarrow> inventory_step db db'"
| Review_Exception: "review_exception env c i approve notes db = Inr db' \<Longrightarrow> inventory_step db db'"
| Guidance: "add_guidance env c i g db = Inr db' \<Longrightarrow> inventory_step db db'"

definition inventory_reachable :: "finding_db \<Rightarrow> bool" where
  "inventory_reachable db \<longleftrightarrow> inventory_step\<^sup>*\<^sup>* empty_inventory db"

lemma sync_evolves:
  "progresses (fst st) (fst (fst (sync_nvd env iso_now text_of fetch parse retries st)))"
  "progresses (fst st) (fst (fst (sync_kev env text_of fetch parse' retries st)))"
  "progresses (fst st) (fst (fst (sync_epss env threshold text_of fetch parse'' retries st)))"
  unfolding sync_nvd_def sync_kev_def sync_epss_def
  by (rule sync_feed_evolves ingest_nvd_evolves ingest_kev_evolves ingest_epss_evolves)+

lemma fst_eq: "p = (a, b) \<Longrightarrow> fst p = a"
  by simp

lemma step_evolves: "inventory_step db db' \<Longrightarrow> progresses db db'"
proof (induction rule: inventory_step.induct)
  case (Assets db hosts ports)
  show ?case by (rule progresses_other) (simp add: same_core_def)
next
  case (Verify job scanner now db db' n)
  then show ?case using finalize_evolves [of db job scanner now] by simp
next
  case (Sweep now org db db' n)
  then show ?case using sweep_evolves [of db now org] by simp
next
  case (Expire now org db db' m)
  then show ?case using expire_decisions_evolves [of db now org] by simp
next
  case (SyncNvd env iso_now text_of fetch parse retries db feeds db' feeds' summary)
  then show ?case using sync_evolves(1) [of "(db, feeds)" env iso_now text_of fetch parse retries] by simp
next
  case (SyncKev env text_of fetch parse' retries db feeds db' feeds' summary)
  then show ?case using sync_evolves(2) [of "(db, feeds)" env text_of fetch parse' retries] by simp
next
  case (SyncEpss env threshold text_of fetch parse'' retries db feeds db' feeds' summary)
  then show ?case using sync_evolves(3) [of "(db, feeds)" env threshold text_of fetch parse'' retries] by simp
qed (auto intro: ingest_findings_evolves update_finding_evolves bulk_update_evolves request_acceptance_evolves
    decide_request_evolves decision_requests_evolve create_risk_profile_evolves activate_risk_profile_evolves
    create_policy_evolves update_policy_evolves deadline_requests_evolve review_exception_evolves add_guidance_evolves)

lemma inventory_steps_progress: "inventory_step\<^sup>*\<^sup>* db db' \<Longrightarrow> progresses db db'"
  by (induction rule: rtranclp_induct) (auto intro: progresses_trans step_evolves)

lemma empty_inventory_ok: "inventory_ok empty_inventory"
  by (simp add: inventory_ok_def empty_inventory_def fresh_ids_def dedup_keys_def active_decisions_def)

lemma inventory_reachable_ok: "inventory_reachable db \<Longrightarrow> inventory_ok db"
  unfolding inventory_reachable_def by (rule progresses_ok [OF inventory_steps_progress empty_inventory_ok])

lemma reachable_refl: "inventory_reachable empty_inventory"
  by (simp add: inventory_reachable_def)

lemma reachable_step: "inventory_reachable db \<Longrightarrow> inventory_step db db' \<Longrightarrow> inventory_reachable db'"
  unfolding inventory_reachable_def by (rule rtranclp.rtrancl_into_rtrancl)

end
