(* ===== verification/Verification.thy ===== *)
theory Verification
  imports FindingLifecycle
begin

text \<open>
  What a verification rescan does to each finding, and what ingest does to each observation: lemmas
  that follow one row through the loops of \<^verbatim>\<open>remediation.py\<close> and \<^verbatim>\<open>findings.py\<close>.
\<close>

subsection \<open>One row through an edit\<close>

lemma find_edited:
  assumes "\<And>f. fi_id (g f) = fi_id f"
  shows "find (\<lambda>f. fi_id f = i) (update_where (\<lambda>f. fi_id f = j) g fs) =
    map_option (\<lambda>f. if i = j then g f else f) (find (\<lambda>f. fi_id f = i) fs)"
  by (induction fs) (auto simp: assms)

lemma the_finding_edited:
  "(\<And>f. fi_id (g f) = fi_id f) \<Longrightarrow>
   the_finding (on_finding j g db) i = map_option (\<lambda>f. if i = j then g f else f) (the_finding db i)"
  unfolding the_finding_def by (simp add: find_edited)

lemma the_finding_frame [simp]:
  "the_finding (emit e db) i = the_finding db i" "the_finding (history f ev actor db) i = the_finding db i"
  by (simp_all add: the_finding_def emit_def history_def)

subsection \<open>Verification\<close>

text \<open>What a verification does not touch.\<close>

definition stays :: "finding_row \<Rightarrow> finding_row \<Rightarrow> bool" where
  "stays f f' \<longleftrightarrow>
     fi_id f' = fi_id f \<and> fi_organization_id f' = fi_organization_id f \<and> fi_scanner_name f' = fi_scanner_name f \<and>
     fi_canonical_key f' = fi_canonical_key f \<and> fi_scan_job_id f' = fi_scan_job_id f \<and>
     fi_last_seen_at f' = fi_last_seen_at f"

lemma stays_refl [simp]: "stays f f"
  by (simp add: stays_def)

lemma stays_trans: "stays f g \<Longrightarrow> stays g h \<Longrightarrow> stays f h"
  by (simp add: stays_def)

definition unsettled :: "finding_row \<Rightarrow> bool" where
  "unsettled f \<longleftrightarrow> fi_status f \<noteq> FindingStatus.RESOLVED \<and> fi_status f \<noteq> FindingStatus.RISK_ACCEPTED"

definition found_fixed :: "scan_job \<Rightarrow> string \<Rightarrow> string list \<Rightarrow> finding_row \<Rightarrow> bool" where
  "found_fixed job scanner keys f \<longleftrightarrow>
     fi_organization_id f = sj_organization_id job \<and> fi_scanner_name f = scanner \<and>
     fi_canonical_key f \<notin> set keys \<and> unsettled f"

definition then_resolved :: "bool \<Rightarrow> finding_row \<Rightarrow> finding_row \<Rightarrow> bool" where
  "then_resolved b f f' \<longleftrightarrow> stays f f' \<and> fi_status f' = (if b then FindingStatus.RESOLVED else fi_status f)"

lemma the_finding_complete:
  "the_finding (complete_finding now g db) i =
     map_option (\<lambda>f. if i = fi_id g \<and> fi_current_sla g \<noteq> None \<and> fi_sla_completed_at g = None
                     then f\<lparr>fi_sla_completed_at := Some now\<rparr> else f) (the_finding db i)"
  by (auto simp: complete_finding_def the_finding_edited option.map_ident)

lemma fi_id_verified_fixed [simp]: "fi_id (verified_fixed now f) = fi_id f"
  by (simp add: verified_fixed_def)

lemma verify_one_finding:
  assumes f: "the_finding db i = Some f"
  shows "\<exists>f'. the_finding (fst (verify_one job scanner keys now raw (db, n))) i = Some f' \<and>
    then_resolved (uuid_parse raw = Some i \<and> found_fixed job scanner keys f) f f'"
proof (cases "Option.bind (uuid_parse raw) (the_finding db)")
  case None
  then show ?thesis using f by (auto simp: verify_one_def then_resolved_def)
next
  case (Some g)
  then obtain j where j: "uuid_parse raw = Some j" "the_finding db j = Some g" by (auto simp: bind_eq_Some_conv)
  have id: "fi_id g = j" using the_finding_Some [OF j(2)] by simp
  show ?thesis
  proof (cases "j = i")
    case False
    then show ?thesis using f Some j(1) id
      by (simp add: verify_one_def Let_def the_finding_edited the_finding_complete then_resolved_def)
  next
    case True
    then have "g = f" using f j(2) by simp
    then show ?thesis using f Some j True id
      by (auto simp: verify_one_def Let_def the_finding_edited the_finding_complete then_resolved_def found_fixed_def
          stays_def unsettled_def verified_fixed_def)
  qed
qed

lemma then_resolved_trans:
  assumes r1: "then_resolved (a \<and> found_fixed job scanner keys f) f f1"
    and r2: "then_resolved (b \<and> found_fixed job scanner keys f1) f1 f2"
  shows "then_resolved ((a \<or> b) \<and> found_fixed job scanner keys f) f f2"
proof -
  have "stays f f1" "stays f1 f2" using r1 r2 by (simp_all add: then_resolved_def)
  then have s: "stays f f2" and same: "fi_organization_id f1 = fi_organization_id f" "fi_scanner_name f1 = fi_scanner_name f"
    "fi_canonical_key f1 = fi_canonical_key f" by (simp_all add: stays_def)
  show ?thesis
  proof (cases "a \<and> found_fixed job scanner keys f")
    case True
    then have "fi_status f1 = FindingStatus.RESOLVED" using r1 by (simp add: then_resolved_def)
    then show ?thesis using r2 s True by (simp add: then_resolved_def)
  next
    case False
    then have "fi_status f1 = fi_status f" using r1 by (auto simp: then_resolved_def)
    then have "found_fixed job scanner keys f1 = found_fixed job scanner keys f"
      by (simp add: found_fixed_def unsettled_def same)
    then show ?thesis using r2 s False \<open>fi_status f1 = fi_status f\<close> by (auto simp: then_resolved_def)
  qed
qed

lemma verify_fold_finding:
  assumes "the_finding db i = Some f"
  shows "\<exists>f'. the_finding (fst (fold (verify_one job scanner keys now) raws (db, n))) i = Some f' \<and>
    then_resolved (i \<in> set (List.map_filter uuid_parse raws) \<and> found_fixed job scanner keys f) f f'"
  using assms
proof (induction raws arbitrary: db n f)
  case Nil
  then show ?case by (simp add: then_resolved_def map_filter_def)
next
  case (Cons raw raws)
  obtain db1 n1 where st: "verify_one job scanner keys now raw (db, n) = (db1, n1)" by fastforce
  obtain f1 where f1: "the_finding db1 i = Some f1"
    and r1: "then_resolved (uuid_parse raw = Some i \<and> found_fixed job scanner keys f) f f1"
    using verify_one_finding [OF Cons.prems, of job scanner keys now raw n] st by auto
  obtain f2 where f2: "the_finding (fst (fold (verify_one job scanner keys now) raws (db1, n1))) i = Some f2"
    and r2: "then_resolved (i \<in> set (List.map_filter uuid_parse raws) \<and> found_fixed job scanner keys f1) f1 f2"
    using Cons.IH [OF f1] by blast
  have "then_resolved (i \<in> set (List.map_filter uuid_parse (raw # raws)) \<and> found_fixed job scanner keys f) f f2"
  proof -
    have "i \<in> set (List.map_filter uuid_parse (raw # raws)) \<longleftrightarrow>
        uuid_parse raw = Some i \<or> i \<in> set (List.map_filter uuid_parse raws)"
      by (auto simp: map_filter_simps split: option.splits)
    then show ?thesis using then_resolved_trans [OF r1 r2] by simp
  qed
  then show ?case using f2 st by auto
qed

lemma observed_key:
  assumes ok: "inventory_ok db" and f: "f \<in> set (fd_findings db)" "fi_organization_id f = sj_organization_id job"
      "fi_id f \<in> set (List.map_filter uuid_parse (sj_verifies_finding_ids job))" "fi_scanner_name f = ns"
  shows "fi_canonical_key f \<in> set (observed_keys job ns db) \<longleftrightarrow> observed job f"
proof -
  have inj: "inj_on (\<lambda>f. (fi_organization_id f, fi_canonical_key f)) (set (fd_findings db))"
    using inventory_okD(4) [OF ok] by (simp add: dedup_keys_def distinct_map)
  have same: "g = f" if "g \<in> set (fd_findings db)" "fi_organization_id g = fi_organization_id f"
    "fi_canonical_key g = fi_canonical_key f" for g
    by (rule inj_onD [OF inj _ that(1) f(1)]) (simp add: that(2,3))
  have "observed job f" if "fi_canonical_key f \<in> set (observed_keys job ns db)"
  proof -
    obtain g where g: "g \<in> set (fd_findings db)" "fi_organization_id g = sj_organization_id job" "observed job g"
      "fi_canonical_key g = fi_canonical_key f" using \<open>fi_canonical_key f \<in> set (observed_keys job ns db)\<close> by (auto simp: observed_keys_def)
    then show ?thesis using same [of g] f(2) by simp
  qed
  moreover have "fi_canonical_key f \<in> set (observed_keys job ns db)" if "observed job f"
    using f that unfolding observed_keys_def by auto
  ultimately show ?thesis by blast
qed

definition verifies :: "scan_job \<Rightarrow> finding_row \<Rightarrow> bool" where
  "verifies job f \<longleftrightarrow>
     fi_organization_id f = sj_organization_id job \<and>
     fi_id f \<in> set (List.map_filter uuid_parse (sj_verifies_finding_ids job))"

lemma observed_stays: "stays f f' \<Longrightarrow> observed job f' = observed job f \<and> verifies job f' = verifies job f"
  by (simp add: stays_def observed_def verifies_def)

lemma finalize_namespace_finding:
  assumes ok: "inventory_ok db" and f: "the_finding db i = Some f"
  shows "\<exists>f'. the_finding (fst (finalize_namespace job now ns (db, n))) i = Some f' \<and>
    then_resolved (verifies job f \<and> fi_scanner_name f = ns \<and> \<not> observed job f \<and> unsettled f) f f'"
proof -
  let ?keys = "observed_keys job ns db" and ?raws = "sj_verifies_finding_ids job"
  have mem: "f \<in> set (fd_findings db)" "fi_id f = i" using the_finding_Some [OF f] by auto
  obtain f' where f': "the_finding (fst (apply_verification job ns ?keys now db)) i = Some f'"
    and r: "then_resolved (i \<in> set (List.map_filter uuid_parse ?raws) \<and> found_fixed job ns ?keys f) f f'"
    using verify_fold_finding [OF f, of job ns ?keys now ?raws 0] unfolding apply_verification_def by blast
  have "(i \<in> set (List.map_filter uuid_parse ?raws) \<and> found_fixed job ns ?keys f) =
      (verifies job f \<and> fi_scanner_name f = ns \<and> \<not> observed job f \<and> unsettled f)"
    using observed_key [OF ok mem(1)] mem(2) by (auto simp: found_fixed_def verifies_def)
  then show ?thesis using f' r by (auto simp: finalize_namespace_def Let_def split: prod.splits)
qed

lemma finalize_fold_finding:
  assumes "inventory_ok db" and "the_finding db i = Some f"
  shows "\<exists>f'. the_finding (fst (fold (finalize_namespace job now) nss (db, n))) i = Some f' \<and>
    then_resolved (verifies job f \<and> fi_scanner_name f \<in> set nss \<and> \<not> observed job f \<and> unsettled f) f f'"
  using assms
proof (induction nss arbitrary: db n f)
  case Nil
  then show ?case by (simp add: then_resolved_def)
next
  case (Cons ns nss)
  obtain db1 n1 where st: "finalize_namespace job now ns (db, n) = (db1, n1)" by fastforce
  have "db1 = fst (apply_verification job ns (observed_keys job ns db) now db)"
    using st by (auto simp: finalize_namespace_def Let_def split: prod.splits)
  then have ok1: "inventory_ok db1" using progresses_ok [OF apply_verification_evolves Cons.prems(1)] by simp
  obtain f1 where f1: "the_finding db1 i = Some f1"
    and r1: "then_resolved (verifies job f \<and> fi_scanner_name f = ns \<and> \<not> observed job f \<and> unsettled f) f f1"
    using finalize_namespace_finding [OF Cons.prems, of job now ns n] st by auto
  obtain f2 where f2: "the_finding (fst (fold (finalize_namespace job now) nss (db1, n1))) i = Some f2"
    and r2: "then_resolved (verifies job f1 \<and> fi_scanner_name f1 \<in> set nss \<and> \<not> observed job f1 \<and> unsettled f1) f1 f2"
    using Cons.IH [OF ok1 f1] by blast
  have same: "fi_scanner_name f1 = fi_scanner_name f" using r1 by (simp add: then_resolved_def stays_def)
  have "then_resolved (verifies job f \<and> fi_scanner_name f \<in> set (ns # nss) \<and> \<not> observed job f \<and> unsettled f) f f2"
    using r1 r2 observed_stays [of f f1 job] stays_trans [of f f1 f2]
    by (auto simp: then_resolved_def unsettled_def same split: if_splits)
  then show ?case using f2 st by auto
qed

lemma finalize_finding:
  assumes "inventory_ok db" and "f \<in> set (fd_findings db)"
  shows "\<exists>f'. the_finding (fst (finalize_scanner_verification job scanner now db)) (fi_id f) = Some f' \<and>
    then_resolved (verifies job f \<and> fi_scanner_name f \<in> set (verification_namespaces scanner) \<and>
      \<not> observed job f \<and> unsettled f) f f'"
  unfolding finalize_scanner_verification_def
  by (rule finalize_fold_finding [OF assms(1) the_finding_unique [OF inventory_findings [OF assms(1)] assms(2)]])

subsection \<open>Ingest keeps the surroundings\<close>

definition same_hosts :: "finding_db \<Rightarrow> finding_db \<Rightarrow> bool" where
  "same_hosts db db' \<longleftrightarrow> fd_assets db' = fd_assets db \<and> fd_services db' = fd_services db"

text \<open>An observation stays recorded: seen at the time of the ingest, and not resolved.\<close>

definition seen_again :: "time \<Rightarrow> uuid \<Rightarrow> string \<Rightarrow> finding_row \<Rightarrow> bool" where
  "seen_again now org key f \<longleftrightarrow>
     fi_organization_id f = org \<and> fi_canonical_key f = key \<and> fi_last_seen_at f = Some now \<and>
     fi_status f \<noteq> FindingStatus.RESOLVED"

definition row_kept :: "time \<Rightarrow> (finding_row \<Rightarrow> finding_row) \<Rightarrow> bool" where
  "row_kept now g \<longleftrightarrow> (\<forall>f. fi_organization_id (g f) = fi_organization_id f \<and> fi_canonical_key (g f) = fi_canonical_key f \<and>
     (fi_last_seen_at f = Some now \<and> fi_status f \<noteq> FindingStatus.RESOLVED \<longrightarrow>
      fi_last_seen_at (g f) = Some now \<and> fi_status (g f) \<noteq> FindingStatus.RESOLVED))"

text \<open>One round of the ingest: the hosts stay, keys stay, records stay.\<close>

definition carries_on :: "time \<Rightarrow> finding_db \<Rightarrow> finding_db \<Rightarrow> bool" where
  "carries_on now db db' \<longleftrightarrow>
     same_hosts db db' \<and> set (dedup_keys db) \<subseteq> set (dedup_keys db') \<and>
     (\<forall>f \<in> set (fd_findings db). \<forall>org key. seen_again now org key f \<longrightarrow> (\<exists>f' \<in> set (fd_findings db'). seen_again now org key f'))"

lemma carries_on_refl [simp]: "carries_on now db db"
  by (auto simp: carries_on_def same_hosts_def)

lemma carries_on_trans: "carries_on now a b \<Longrightarrow> carries_on now b c \<Longrightarrow> carries_on now a c"
  unfolding carries_on_def same_hosts_def by (metis subset_trans)

lemma carries_on_record:
  "carries_on now db db' \<Longrightarrow> f \<in> set (fd_findings db) \<Longrightarrow> seen_again now org key f \<Longrightarrow>
   \<exists>f' \<in> set (fd_findings db'). seen_again now org key f'"
  by (simp add: carries_on_def)

lemma carries_on_frame:
  assumes "carries_on now db db1" and "fd_findings db' = fd_findings db1" and "fd_assets db' = fd_assets db1"
    and "fd_services db' = fd_services db1"
  shows "carries_on now db db'"
  using assms by (simp add: carries_on_def same_hosts_def dedup_keys_def)

lemma carries_on_edit:
  assumes "row_kept now g"
  shows "carries_on now db (on_finding i g db)"
proof -
  have "(\<exists>f' \<in> set (fd_findings (on_finding i g db)). seen_again now org key f')"
    if f: "f \<in> set (fd_findings db)" "seen_again now org key f" for f org key
  proof
    show "seen_again now org key (if fi_id f = i then g f else f)"
      using assms f(2) by (simp add: row_kept_def seen_again_def)
    show "(if fi_id f = i then g f else f) \<in> set (fd_findings (on_finding i g db))"
      using f(1) by (auto simp: update_where_def image_iff)
  qed
  moreover have "dedup_keys (on_finding i g db) = dedup_keys db"
    using assms by (auto simp: dedup_keys_def row_kept_def update_where_def)
  ultimately show ?thesis by (auto simp: carries_on_def same_hosts_def on_finding_def)
qed

lemma row_kept_simps [simp]:
  "row_kept now (scored s t)" "row_kept now (observed_again job pf now)"
  "row_kept now (\<lambda>f. (started_once t f)\<lparr>fi_current_sla := k, fi_due_at := d\<rparr>)"
  by (auto simp: row_kept_def scored_def observed_again_def reopened_def refreshed_def started_once_def)

lemma default_profile_frame:
  "default_profile org db = (db1, p) \<Longrightarrow>
   fd_findings db1 = fd_findings db \<and> fd_assets db1 = fd_assets db \<and> fd_services db1 = fd_services db"
  by (auto simp: default_profile_def draw_def Let_def split: option.splits)

lemma score_finding_carries:
  assumes "score_finding env i None force db = Inr (db', s)"
  shows "carries_on now db db'"
proof (cases "the_finding db i")
  case None
  then show ?thesis using assms by (simp add: score_finding_def)
next
  case (Some f)
  obtain db1 p where p: "default_profile (fi_organization_id f) db = (db1, p)" by fastforce
  have one: "carries_on now db db2" if "fd_findings db2 = fd_findings db1" "fd_assets db2 = fd_assets db1"
    "fd_services db2 = fd_services db1" for db2
    using default_profile_frame [OF p] that by (intro carries_on_frame [OF carries_on_refl]) auto
  have "carries_on now db (on_finding i (scored t u) db2)" if "fd_findings db2 = fd_findings db1"
    "fd_assets db2 = fd_assets db1" "fd_services db2 = fd_services db1" for t u db2
    using carries_on_trans [OF one carries_on_edit] that by simp
  then show ?thesis using assms Some p one [of db1]
    by (auto simp: score_finding_def draw_def Let_def res_bind_Inr split: option.splits)
qed

lemma calculate_deadline_carries:
  assumes "calculate_deadline env i actor recalculate db = Inr db'"
  shows "carries_on now db db'"
proof (cases "the_finding db i")
  case None
  then show ?thesis using assms by (simp add: calculate_deadline_def)
next
  case (Some f)
  have est: "carries_on now db (establish c (started_once t) (db\<lparr>fd_next := n\<rparr>))" for c t n
    unfolding establish_def
    by (rule carries_on_trans [OF carries_on_frame [OF carries_on_refl] carries_on_edit]) simp_all
  have "carries_on now db (history f ev actor (establish c (started_once t) (db\<lparr>fd_next := n\<rparr>)))" for ev c t n
    by (rule carries_on_frame [OF est]) (simp_all add: history_def)
  then show ?thesis using assms Some
    by (auto simp: calculate_deadline_def draw_def Let_def res_bind_Inr split: if_splits)
qed

lemma score_and_deadline_carries: "score_and_deadline env i db = Inr db' \<Longrightarrow> carries_on now db db'"
  by (auto simp: score_and_deadline_def res_bind_Inr
      intro: carries_on_trans [OF score_finding_carries calculate_deadline_carries])

subsection \<open>One observation\<close>

definition observation_key :: "finding_env \<Rightarrow> scan_job \<Rightarrow> finding_db \<Rightarrow> parsed_finding \<Rightarrow> string" where
  "observation_key env job db pf =
     (let asset = resolve_asset job (pf_target_ip pf) db
      in canonical_finding_key env (sj_organization_id job) (map_option ax_id asset)
           (map_option sr_id (resolve_service asset (pf_transport pf) (pf_port pf) db)) (pf_scanner pf)
           (pf_weakness_key pf))"

lemma observation_key_same: "same_hosts db db' \<Longrightarrow> observation_key env job db' pf = observation_key env job db pf"
  by (simp add: same_hosts_def observation_key_def resolve_asset_def resolve_service_def Let_def
      cong: option.case_cong if_cong)

lemma record_change_frame [simp]:
  "fd_findings (record_change job asset kind summary sev db) = fd_findings db"
  "fd_assets (record_change job asset kind summary sev db) = fd_assets db"
  "fd_services (record_change job asset kind summary sev db) = fd_services db"
  by (simp_all add: record_change_def emit_def split: option.splits)

lemma the_key_Some: "the_key db org key = Some f \<Longrightarrow> f \<in> set (fd_findings db) \<and> fi_organization_id f = org \<and> fi_canonical_key f = key"
  by (auto simp: the_key_def dest: find_SomeD)

lemma create_one_records:
  "carries_on now db (fst (snd (create_one job asset service key pf now (db, s)))) \<and>
   (\<exists>f \<in> set (fd_findings (fst (snd (create_one job asset service key pf now (db, s))))).
      seen_again now (sj_organization_id job) key f)"
  by (auto simp: create_one_def draw_def Let_def carries_on_def same_hosts_def dedup_keys_def seen_again_def new_finding_def)

lemma refresh_one_records:
  assumes "the_key db (sj_organization_id job) key = Some f"
  shows "carries_on now db (fst (refresh_one job asset f pf now (db, s))) \<and>
    (\<exists>f' \<in> set (fd_findings (fst (refresh_one job asset f pf now (db, s)))). seen_again now (sj_organization_id job) key f')"
proof -
  define db1 where "db1 = on_finding (fi_id f) (observed_again job pf now) db"
  have carried: "carries_on now db db1" unfolding db1_def by (rule carries_on_edit) simp
  have "f \<in> set (fd_findings db)" using the_key_Some [OF assms] by simp
  then have "observed_again job pf now f \<in> set (fd_findings db1)" by (auto simp: db1_def update_where_def image_iff)
  moreover have "seen_again now (sj_organization_id job) key (observed_again job pf now f)"
    using the_key_Some [OF assms] by (auto simp: seen_again_def observed_again_def reopened_def refreshed_def)
  ultimately have there: "\<exists>f' \<in> set (fd_findings db1). seen_again now (sj_organization_id job) key f'" by blast
  define db2 where "db2 = fst (refresh_one job asset f pf now (db, s))"
  have frame: "fd_findings db2 = fd_findings db1" "fd_assets db2 = fd_assets db1" "fd_services db2 = fd_services db1"
    by (simp_all add: db2_def db1_def refresh_one_def Let_def)
  show ?thesis using carries_on_frame [OF carried frame] there frame(1) unfolding db2_def by simp
qed

lemma upsert_one_records:
  assumes "upsert_one env job pf (db, s) = (i, db', s')"
  shows "carries_on (fe_now env) db db' \<and>
    (\<exists>f \<in> set (fd_findings db'). seen_again (fe_now env) (sj_organization_id job) (observation_key env job db pf) f)"
proof (cases "the_key db (sj_organization_id job) (observation_key env job db pf)")
  case None
  then obtain asset service s0 where "create_one job asset service (observation_key env job db pf) pf (fe_now env) (db, s0) = (i, db', s')"
    using assms by (auto simp: upsert_one_def observation_key_def Let_def)
  then show ?thesis using create_one_records [of "fe_now env" db job asset service "observation_key env job db pf" pf s0] by simp
next
  case (Some f)
  then obtain asset s0 where "refresh_one job asset f pf (fe_now env) (db, s0) = (db', s')"
    using assms by (auto simp: upsert_one_def observation_key_def Let_def)
  then show ?thesis using refresh_one_records [OF Some, of "fe_now env" asset pf s0] by simp
qed

lemma ingest_one_records:
  assumes "ingest_one env job pf (db, s) = Inr (db', s')"
  shows "carries_on (fe_now env) db db' \<and>
    (\<exists>f \<in> set (fd_findings db'). seen_again (fe_now env) (sj_organization_id job) (observation_key env job db pf) f)"
proof -
  obtain i db1 s1 where up: "upsert_one env job pf (db, s) = (i, db1, s1)" by (metis surj_pair)
  have "carries_on (fe_now env) db1 db'"
    using assms up by (auto simp: ingest_one_def res_bind_Inr intro: score_and_deadline_carries)
  moreover obtain f where "f \<in> set (fd_findings db1)"
    "seen_again (fe_now env) (sj_organization_id job) (observation_key env job db pf) f" and "carries_on (fe_now env) db db1"
    using upsert_one_records [OF up] by blast
  ultimately show ?thesis by (blast intro: carries_on_trans dest: carries_on_record)
qed

lemma ingest_all_records:
  "ingest_all env job pfs (db, s) = Inr (db', s') \<Longrightarrow>
   carries_on (fe_now env) db db' \<and> (\<forall>pf \<in> set pfs. \<exists>f \<in> set (fd_findings db').
     seen_again (fe_now env) (sj_organization_id job) (observation_key env job db pf) f)"
proof (induction pfs arbitrary: db s)
  case (Cons pf pfs)
  obtain db1 s1 where one: "ingest_one env job pf (db, s) = Inr (db1, s1)" and rest: "ingest_all env job pfs (db1, s1) = Inr (db', s')"
    using Cons.prems by (auto simp: res_bind_Inr)
  note r1 = ingest_one_records [OF one] and r2 = Cons.IH [OF rest]
  have hosts: "observation_key env job db1 x = observation_key env job db x" for x
    using r1 by (auto simp: carries_on_def intro: observation_key_same)
  have "carries_on (fe_now env) db db'" using r1 r2 carries_on_trans by blast
  moreover have "\<exists>f \<in> set (fd_findings db'). seen_again (fe_now env) (sj_organization_id job) (observation_key env job db x) f"
    if "x \<in> set (pf # pfs)" for x
    using that r1 r2 hosts unfolding carries_on_def by (auto 0 4)
  ultimately show ?case by blast
qed simp

subsection \<open>A repeated batch\<close>

lemma ingest_one_repeat:
  assumes "ingest_one env job pf (db, s) = Inr (db', s')"
    and "(sj_organization_id job, observation_key env job db pf) \<in> set (dedup_keys db)"
  shows "is_created s' = is_created s"
proof -
  have "the_key db (sj_organization_id job) (observation_key env job db pf) \<noteq> None"
    using assms(2) dedup_the_key by blast
  then obtain f where "the_key db (sj_organization_id job) (observation_key env job db pf) = Some f" by blast
  then show ?thesis using assms(1)
    by (auto simp: ingest_one_def upsert_one_def observation_key_def refresh_one_def Let_def res_bind_Inr)
qed

lemma ingest_all_repeat:
  "ingest_all env job pfs (db, s) = Inr (db', s') \<Longrightarrow>
   \<forall>pf \<in> set pfs. (sj_organization_id job, observation_key env job db pf) \<in> set (dedup_keys db) \<Longrightarrow>
   is_created s' = is_created s"
proof (induction pfs arbitrary: db s)
  case (Cons pf pfs)
  obtain db1 s1 where one: "ingest_one env job pf (db, s) = Inr (db1, s1)" and rest: "ingest_all env job pfs (db1, s1) = Inr (db', s')"
    using Cons.prems(1) by (auto simp: res_bind_Inr)
  note r1 = ingest_one_records [OF one]
  have hosts: "observation_key env job db1 x = observation_key env job db x" for x
    using r1 by (auto simp: carries_on_def intro: observation_key_same)
  have "is_created s' = is_created s1"
    using Cons.IH [OF rest] Cons.prems(2) r1 unfolding carries_on_def hosts by auto
  then show ?case using ingest_one_repeat [OF one] Cons.prems(2) by simp
qed simp

lemma recorded_dedup:
  "f \<in> set (fd_findings db) \<Longrightarrow> seen_again now org key f \<Longrightarrow> (org, key) \<in> set (dedup_keys db)"
  by (auto simp: dedup_keys_def seen_again_def)

end
