(* ===== verification/FindingProperties.thy ===== *)
theory FindingProperties
  imports Verification AccessInvariant
begin

text \<open>
  What the findings inventory guarantees in every reachable state, and what its operations do, with
  witnesses on a small inventory: one ingested finding and its verification.
\<close>

subsection \<open>The record is append-only\<close>

definition extends_record :: "finding_db \<Rightarrow> finding_db \<Rightarrow> bool" where
  "extends_record db db' \<longleftrightarrow>
     (\<exists>cs ss. fd_calculations db' = fd_calculations db @ cs \<and> fd_snapshots db' = fd_snapshots db @ ss)"

lemma extends_record_trans: "extends_record a b \<Longrightarrow> extends_record b c \<Longrightarrow> extends_record a c"
  unfolding extends_record_def by (metis append.assoc)

lemma extends_record_same:
  "fd_calculations db' = fd_calculations db \<Longrightarrow> fd_snapshots db' = fd_snapshots db \<Longrightarrow> extends_record db db'"
  by (simp add: extends_record_def)

lemma change_extends: "change db db' \<Longrightarrow> extends_record db db'"
  by (induction rule: change.induct)
    (auto simp: same_core_def establish_def on_decision_def intro: extends_record_same, auto simp: extends_record_def)

lemma changes_extend: "change\<^sup>*\<^sup>* db db' \<Longrightarrow> extends_record db db'"
  by (induction rule: rtranclp_induct) (auto intro: extends_record_same extends_record_trans change_extends)

subsection \<open>Bulk actions and the caller's reach\<close>

definition reaches :: "caller \<Rightarrow> string \<Rightarrow> finding_row \<Rightarrow> bool" where
  "reaches c key f \<longleftrightarrow>
     fi_organization_id f = principal_org (cl_actor c) \<and>
     (case site_scope_clause (cl_access c) (cl_actor c) (Some key) of Inl _ \<Rightarrow> False | Inr clause \<Rightarrow> clause (Some (fi_site_id f)))"

lemma edited_elsewhere:
  "g \<in> set (fd_findings db) \<Longrightarrow> fi_id g \<noteq> i \<Longrightarrow> g \<in> set (fd_findings (on_finding i u db))"
  by (auto simp: update_where_def image_iff)

lemma bulk_one_elsewhere:
  "bulk_one env c b f db = Inr (Some db') \<Longrightarrow> g \<in> set (fd_findings db) \<Longrightarrow> fi_id g \<noteq> fi_id f \<Longrightarrow> g \<in> set (fd_findings db')"
  by (auto simp: bulk_one_def create_finding_decision_def res_bind_Inr draw_def Let_def
      simp del: on_finding_simps split: if_splits intro!: edited_elsewhere)

lemma bulk_loop_elsewhere:
  assumes "bulk_loop env c b clause is (db, r) = Inr (db', r')" and "inventory_ok db" and "g \<in> set (fd_findings db)"
    and out: "fi_organization_id g \<noteq> principal_org (cl_actor c) \<or> \<not> clause (Some (fi_site_id g))"
  shows "g \<in> set (fd_findings db')"
  using assms(1-3)
proof (induction "is" arbitrary: db r)
  case (Cons i "is")
  note g = Cons.prems(3) and ok = Cons.prems(2)
  have unique: "the_finding db i = Some f \<Longrightarrow> fi_id g = i \<Longrightarrow> g = f" for f
    using the_finding_unique [OF inventory_findings [OF ok] g] by simp
  have one: "g \<in> set (fd_findings db1) \<and> inventory_ok db1"
    if "the_finding db i = Some f" "bulk_one env c b f db = Inr (Some db1)" "fi_organization_id f = principal_org (cl_actor c)"
      "clause (Some (fi_site_id f))" for f db1
  proof
    have "fi_id g \<noteq> fi_id f" using unique [OF that(1)] the_finding_Some [OF that(1)] that(3,4) out by auto
    then show "g \<in> set (fd_findings db1)" using bulk_one_elsewhere [OF that(2) g] by simp
    show "inventory_ok db1" by (rule progresses_ok [OF bulk_one_evolves [OF that(2)] ok])
  qed
  show ?case using Cons.prems(1) one Cons.IH [OF _ ok g] Cons.IH
    by (auto simp: Let_def split: option.splits if_splits sum.splits)
qed simp

subsection \<open>A small inventory\<close>

definition sample_finding_env :: finding_env where
  "sample_finding_env = \<lparr>fe_digest = (\<lambda>d. ''digest''), fe_sha = (\<lambda>s. s), fe_now = 5000\<rparr>"

definition sample_envelope :: envelope where
  "sample_envelope =
     \<lparr>en_schema_version = 1, en_job_id = 90, en_probe_id = pb_id sample_probe, en_site_id = 3,
      en_mode = JobMode.VULNERABILITY_ASSESSMENT, en_profile_version = 1, en_policy_version = 1,
      en_not_before = 0, en_expires_at = 9000, en_targets = [''10.20.0.9''], en_workflow = [],
      en_limits = SessionLimits 60, en_credential_envelope = None\<rparr>"

definition sample_scan_job :: scan_job where
  "sample_scan_job =
     (new_job sample_env sample_probe sample_envelope sample_request [] sample_jobs)\<lparr>sj_verifies_finding_ids := [uuid_str 0]\<rparr>"

definition sample_observation :: parsed_finding where
  "sample_observation =
     \<lparr>pf_scanner = ''nuclei'', pf_weakness_key = ''exposed-panel'', pf_finding_type = FindingType.VULNERABILITY,
      pf_title = ''Exposed panel'', pf_severity = Severity.HIGH, pf_target_ip = None, pf_port = None,
      pf_transport = ServiceTransport.TCP, pf_description = None, pf_cvss_score = Some (15 / 2),
      pf_cvss_vector = None, pf_confidence = 80, pf_cve_ids = [], pf_cwe_ids = [], pf_references = [],
      pf_remediation = None, pf_evidence = JObj [], pf_scanner_finding_id = None\<rparr>"

definition sample_inventory :: finding_db where
  "sample_inventory =
     (case ingest_findings sample_finding_env sample_scan_job [sample_observation] empty_inventory of
        Inr (db, _) \<Rightarrow> db | Inl _ \<Rightarrow> empty_inventory)"

lemma sample_ingest:
  "\<exists>s. ingest_findings sample_finding_env sample_scan_job [sample_observation] empty_inventory = Inr (sample_inventory, s)"
proof -
  obtain db s where "ingest_findings sample_finding_env sample_scan_job [sample_observation] empty_inventory = Inr (db, s)"
    unfolding ingest_findings_def using ingest_all_total [OF empty_inventory_ok] by blast
  then show ?thesis by (simp add: sample_inventory_def)
qed

lemma sample_reachable: "inventory_reachable sample_inventory"
  using sample_ingest reachable_step [OF reachable_refl inventory_step.Ingest] by blast

lemma sample_inventory_rows:
  "map (\<lambda>f. (fi_id f, fi_organization_id f, fi_scanner_name f, fi_status f, fi_scan_job_id f, fi_current_sla f, fi_current_score f))
     (fd_findings sample_inventory) =
     [(0, sj_organization_id sample_scan_job, ''nuclei'', FindingStatus.NEW, Some 90, Some 3, Some 2)]"
  by code_simp

lemma sample_finding:
  obtains f where "fd_findings sample_inventory = [f]" and "fi_id f = 0" and "fi_scanner_name f = ''nuclei''"
    and "fi_organization_id f = sj_organization_id sample_scan_job" and "fi_status f = FindingStatus.NEW"
    and "fi_scan_job_id f = Some 90" and "fi_current_sla f = Some 3" and "fi_current_score f = Some 2"
proof -
  obtain f where "fd_findings sample_inventory = [f]" using sample_inventory_rows by (cases "fd_findings sample_inventory") auto
  then show ?thesis using sample_inventory_rows that by simp
qed

section \<open>Properties\<close>

text \<open>C8. In every reachable inventory the deadline shown on a finding that has an SLA calculation is the due
  date of that calculation, which exists and belongs to the finding; and no two findings of one
  organization have the same canonical key, nor a finding two active decisions.\<close>

theorem deadline_is_current_calculation:
  assumes "inventory_reachable db" and "f \<in> set (fd_findings db)" and "fi_current_sla f = Some k"
  shows "(\<exists>c \<in> set (fd_calculations db). sk_id c = k \<and> sk_finding_id c = fi_id f \<and> fi_due_at f = Some (sk_due_at c)) \<and>
    distinct (map (\<lambda>g. (fi_organization_id g, fi_canonical_key g)) (fd_findings db)) \<and>
    distinct (map de_finding_id (filter (\<lambda>d. de_status d = FindingDecisionStatus.ACTIVE) (fd_decisions db)))"
  using inventory_okD(4,5,6) [OF inventory_reachable_ok [OF assms(1)]] assms(2,3)
  by (fastforce simp: deadline_ok_def dedup_keys_def active_decisions_def)

theorem deadline_is_current_calculation_witness:
  "\<exists>f \<in> set (fd_findings sample_inventory). fi_current_sla f = Some 3 \<and>
     (\<exists>c \<in> set (fd_calculations sample_inventory). sk_id c = 3 \<and> fi_due_at f = Some (sk_due_at c))"
proof -
  obtain f where f: "fd_findings sample_inventory = [f]" "fi_current_sla f = Some 3" by (rule sample_finding)
  then show ?thesis using deadline_is_current_calculation [OF sample_reachable, of f 3] by auto
qed



text \<open>C17. After an ingest every observation is represented by exactly one finding of its canonical key, last
  seen at the time of the ingest and not resolved.\<close>

theorem observations_recorded:
  assumes "inventory_reachable db" and "ingest_findings env job parsed db = Inr (db', s)" and "pf \<in> set parsed"
  shows "(\<exists>!f. f \<in> set (fd_findings db') \<and> fi_organization_id f = sj_organization_id job \<and>
        fi_canonical_key f = observation_key env job db pf) \<and>
    (\<exists>f \<in> set (fd_findings db'). seen_again (fe_now env) (sj_organization_id job) (observation_key env job db pf) f)"
proof -
  have "inventory_ok db'" using progresses_ok [OF ingest_findings_evolves [OF assms(2)] inventory_reachable_ok [OF assms(1)]] .
  then have inj: "inj_on (\<lambda>g. (fi_organization_id g, fi_canonical_key g)) (set (fd_findings db'))"
    using inventory_okD(4) by (auto simp: dedup_keys_def distinct_map)
  have "\<exists>f \<in> set (fd_findings db'). seen_again (fe_now env) (sj_organization_id job) (observation_key env job db pf) f"
    using ingest_all_records [OF assms(2) [unfolded ingest_findings_def]] assms(3) by blast
  then show ?thesis using inj_onD [OF inj] by (fastforce simp: seen_again_def)
qed

theorem observations_recorded_witness:
  "\<exists>f \<in> set (fd_findings sample_inventory). seen_again 5000 (sj_organization_id sample_scan_job)
     (observation_key sample_finding_env sample_scan_job empty_inventory sample_observation) f"
proof -
  obtain s where "ingest_findings sample_finding_env sample_scan_job [sample_observation] empty_inventory = Inr (sample_inventory, s)"
    using sample_ingest by blast
  from observations_recorded [OF reachable_refl this, of sample_observation] show ?thesis
    by (simp add: sample_finding_env_def)
qed



text \<open>C10. When a scanner of a verification rescan finishes, a finding becomes resolved exactly when it is one
  the job verifies, that scanner produces it, neither this job nor any scan since the job started has
  observed it, and it is neither resolved nor risk-accepted; every other status stays.\<close>

theorem verification_resolves_exactly:
  assumes "inventory_reachable db" and "f \<in> set (fd_findings db)"
    and "finalize_scanner_verification job scanner now db = (db', n)"
  shows "\<exists>f' \<in> set (fd_findings db'). fi_id f' = fi_id f \<and>
    fi_status f' =
      (if verifies job f \<and> fi_scanner_name f \<in> set (verification_namespaces scanner) \<and> \<not> observed job f \<and> unsettled f
       then FindingStatus.RESOLVED else fi_status f)"
  using finalize_finding [OF inventory_reachable_ok [OF assms(1)] assms(2), of job scanner now] assms(3)
  by (auto simp: then_resolved_def dest: the_finding_Some)

theorem verification_resolves_exactly_witness:
  "\<exists>f \<in> set (fd_findings (fst (finalize_scanner_verification (sample_scan_job\<lparr>sj_id := 91\<rparr>) ''nuclei'' 6000 sample_inventory))).
     fi_id f = 0 \<and> fi_status f = FindingStatus.RESOLVED"
proof -
  let ?job = "sample_scan_job\<lparr>sj_id := 91\<rparr>"
  obtain f where f: "fd_findings sample_inventory = [f]" "fi_id f = 0" "fi_scanner_name f = ''nuclei''"
    "fi_organization_id f = sj_organization_id sample_scan_job" "fi_status f = FindingStatus.NEW" "fi_scan_job_id f = Some 90"
    by (rule sample_finding)
  have job: "sj_verifies_finding_ids sample_scan_job = [uuid_str 0]" "sj_started_at sample_scan_job = None"
    by (simp_all add: sample_scan_job_def new_job_def)
  have "uuid_parse (uuid_str 0) = Some 0" by code_simp
  then have "verifies ?job f" "\<not> observed ?job f" "unsettled f" "fi_scanner_name f \<in> set (verification_namespaces ''nuclei'')"
    using f job by (simp_all add: verifies_def observed_def unsettled_def verification_namespaces_def map_filter_simps)
  then show ?thesis
    using verification_resolves_exactly [OF sample_reachable, of f ?job "''nuclei''" 6000] f by (auto simp: prod_eq_iff)
qed

definition sample_manager :: caller where
  "sample_manager =
     \<lparr>cl_settings = \<lparr>au_env = ''test'', au_digest = (\<lambda>s. s), au_decode = (\<lambda>s. None)\<rparr>,
      cl_identity = \<lparr>id_principal = UserP (bootstrap_admin 2 8 ''a@b.c'' ''h''), id_session = None, id_api_token = None\<rparr>,
      cl_access = empty_access 8\<rparr>"

text \<open>C32. In a reachable inventory the request that approves or rejects a risk acceptance returns: the walk
  along previous SLA calculations that decides about the pause ends.\<close>

theorem acceptance_decision_returns:
  assumes "inventory_reachable db"
  shows "\<exists>r. decide_acceptance env c i approve notes db = Some r"
  by (rule decide_request_total [OF inventory_reachable_ok [OF assms]])

theorem acceptance_decision_returns_witness:
  "\<exists>r. decide_acceptance sample_finding_env sample_manager 0 True None sample_inventory = Some r"
  by (rule acceptance_decision_returns [OF sample_reachable])

text \<open>C35. In every reachable inventory the risk score of a finding lies between 0 and 100 and is the score of
  its current snapshot, which exists and belongs to the finding.\<close>

theorem scores_bounded_and_explained:
  assumes "inventory_reachable db" and "f \<in> set (fd_findings db)" and "fi_current_score f = Some k"
  shows "\<exists>s \<in> set (fd_snapshots db). ss_id s = k \<and> ss_finding_id s = fi_id f \<and>
    fi_risk_score f = Some (ss_score s) \<and> 0 \<le> ss_score s \<and> ss_score s \<le> 100"
  using inventory_okD(6,8) [OF inventory_reachable_ok [OF assms(1)]] assms(2,3)
  by (fastforce simp: score_ok_def in_range_def)

theorem scores_bounded_and_explained_witness:
  "\<exists>s \<in> set (fd_snapshots sample_inventory). ss_id s = 2 \<and> ss_finding_id s = 0 \<and> 0 \<le> ss_score s \<and> ss_score s \<le> 100"
proof -
  obtain f where f: "fd_findings sample_inventory = [f]" "fi_id f = 0" "fi_current_score f = Some 2" by (rule sample_finding)
  then show ?thesis using scores_bounded_and_explained [OF sample_reachable, of f 2] by auto
qed



text \<open>C21. A CVE is reported for a service exactly when it is not rejected, is indexed under the product of the
  service, and one of its rows applies to the product and vendor and contains the running version.\<close>

theorem cve_reported_iff_affected:
  assumes "service_product svc = Some product"
  shows "i \<in> pf_weakness_key ` set (correlate_service db host svc) \<longleftrightarrow>
    (\<exists>cve \<in> set (fd_cves db). cv_id cve = i \<and> \<not> cv_rejected cve \<and>
       (lower product, i) \<in> set (fd_product_index db) \<and>
       (\<exists>m \<in> set (cv_cpe_matches cve). affected_row product (ps_version svc) (service_identity svc) m))"
  by (rule reported_iff [OF assms])

definition sample_nginx :: "string \<Rightarrow> parsed_service" where
  "sample_nginx v =
     \<lparr>ps_transport = ServiceTransport.TCP, ps_port = 443, ps_product = Some ''Nginx'', ps_version = Some v, ps_cpe = None\<rparr>"

definition sample_cve :: cve_record where
  "sample_cve =
     \<lparr>cv_id = ''CVE-2024-1'', cv_published_at = None, cv_modified_at = None, cv_description = None, cv_cvss_v2 = JNull,
      cv_cvss_v3 = JNull, cv_cvss_v4 = JNull, cv_cwe_ids = [],
      cv_cpe_matches = [JObj [(''criteria'', JStr ''cpe:2.3:a:f5:nginx:*''), (''versionEndExcluding'', JStr ''1.20.1'')]],
      cv_references = [], cv_rejected = False\<rparr>"

definition sample_cves :: finding_db where
  "sample_cves = empty_inventory\<lparr>fd_cves := [sample_cve], fd_product_index := [(''nginx'', ''CVE-2024-1'')]\<rparr>"

lemma sample_host_eval:
  "service_product (sample_nginx ''1.9.15'') = Some ''Nginx''"
  "affected_row ''Nginx'' (Some ''1.9.15'') None (hd (cv_cpe_matches sample_cve))"
  "\<not> affected_row ''Nginx'' (Some ''1.20.1'') None (hd (cv_cpe_matches sample_cve))"
  by code_simp+

theorem cve_reported_iff_affected_witness:
  "''CVE-2024-1'' \<in> pf_weakness_key ` set (correlate_service sample_cves
     \<lparr>ph_ip = Some ''10.20.0.9'', ph_services = []\<rparr> (sample_nginx ''1.9.15''))"
proof -
  have "lower ''Nginx'' = ''nginx''" by code_simp
  then show ?thesis
    unfolding cve_reported_iff_affected [OF sample_host_eval(1)]
    using sample_host_eval(2) by (simp add: sample_cves_def sample_cve_def sample_nginx_def service_identity_def)
qed

text \<open>C38. Comparing version texts is comparing their components in a linear order, and the range check
  accepts exactly the versions within every bound given, of which there must be one.\<close>

theorem version_ranges_exact:
  "version_cmp a b = three_way (version_tuple a) (version_tuple b) \<and>
   (version_in_range v m \<longleftrightarrow> has_range m \<and> bounds_met v m)"
  by (simp add: version_cmp_order version_in_range_iff)

text \<open>C39. A bulk action changes no finding outside the caller's organization or at a site where the caller does
  not hold findings.manage.\<close>

theorem bulk_stays_in_reach:
  assumes "inventory_reachable db" and "bulk_update env c b db = Inr (db', r)"
    and "f \<in> set (fd_findings db)" and "\<not> reaches c ''findings.manage'' f"
  shows "f \<in> set (fd_findings db')"
proof -
  obtain clause where clause: "site_scope_clause (cl_access c) (cl_actor c) (Some ''findings.manage'') = Inr clause"
    and loop: "bulk_loop env c b clause (ba_finding_ids b) (db, \<lparr>bk_updated = [], bk_skipped = 0\<rparr>) = Inr (db', r)"
    using assms(2) by (auto simp: bulk_update_def res_bind_Inr or_500_def)
  have "fi_organization_id f \<noteq> principal_org (cl_actor c) \<or> \<not> clause (Some (fi_site_id f))"
    using assms(4) clause by (auto simp: reaches_def)
  then show ?thesis by (rule bulk_loop_elsewhere [OF loop inventory_reachable_ok [OF assms(1)] assms(3)])
qed

definition sample_bulk :: bulk_action where
  "sample_bulk = \<lparr>ba_finding_ids = [0], ba_action = ''triage'', ba_owner_user_id = None,
     ba_false_positive_reason = None, ba_request_id = None\<rparr>"

lemma sample_bulk_skips:
  "case bulk_update sample_finding_env sample_manager sample_bulk sample_inventory of
     Inl _ \<Rightarrow> False | Inr (db, r) \<Rightarrow> bk_updated r = [] \<and> bk_skipped r = 1"
  by code_simp

lemma sample_org: "sj_organization_id sample_scan_job \<noteq> 8"
  by code_simp

theorem bulk_stays_in_reach_witness:
  "\<exists>db' r. bulk_update sample_finding_env sample_manager sample_bulk sample_inventory = Inr (db', r) \<and>
     set (fd_findings sample_inventory) \<subseteq> set (fd_findings db')"
proof -
  obtain db' r where run: "bulk_update sample_finding_env sample_manager sample_bulk sample_inventory = Inr (db', r)"
    using sample_bulk_skips by (auto split: sum.splits)
  obtain f where f: "fd_findings sample_inventory = [f]" "fi_organization_id f = sj_organization_id sample_scan_job"
    by (rule sample_finding)
  have "\<not> reaches sample_manager ''findings.manage'' f"
    using f(2) sample_org by (simp add: reaches_def sample_manager_def cl_actor_def bootstrap_admin_def)
  then have "f \<in> set (fd_findings db')" using bulk_stays_in_reach [OF sample_reachable run] f(1) by simp
  then show ?thesis using run f(1) by auto
qed

text \<open>Under a profile that does not weigh known exploitation negatively, learning that a finding is exploited
  never lowers its score; every score is between 0 and 100.\<close>

theorem exploitation_never_lowers_score:
  assumes "0 \<le> weight_of ws ''known_exploited''"
  shows "score_of (normalized db f) ws \<le> score_of (normalized db (f\<lparr>fi_known_exploited := True\<rparr>)) ws \<and>
    0 \<le> score_of (normalized db f) ws \<and> score_of (normalized db f) ws \<le> 100"
proof -
  have "contribution (normalized db f) ws k \<le> contribution (normalized db (f\<lparr>fi_known_exploited := True\<rparr>)) ws k" for k
    using assms by (auto simp: contribution_def normalized_def weight_of_def the_asset_def Let_def)
  then show ?thesis using score_of_range by (simp add: score_of_mono)
qed

theorem exploitation_never_lowers_score_witness:
  "score_of (normalized sample_inventory f) DEFAULT_WEIGHTS
     \<le> score_of (normalized sample_inventory (f\<lparr>fi_known_exploited := True\<rparr>)) DEFAULT_WEIGHTS"
proof -
  have "0 \<le> weight_of DEFAULT_WEIGHTS ''known_exploited''" by code_simp
  from exploitation_never_lowers_score [OF this] show ?thesis by blast
qed

end
