(* ===== verification/Reconciliation.thy ===== *)
theory Reconciliation
  imports Enums PyStrings
begin

text \<open>
  Reconciliation of passively observed assets, \<^verbatim>\<open>app/services/reconciliation.py\<close>: identifiers in
  canonical form, exact-match scores, merges that can be split again, and the lifecycle of an asset in
  the inventory.  Instants stay instants in a merge snapshot instead of ISO text; Python's \<open>str\<close> of a
  decoded JSON value that is no string is the argument \<open>str_of\<close>.  Sessions do not flush before a
  query, but every query here reads rows that were flushed.
\<close>

subsection \<open>Enumerations\<close>

datatype AssetType = WORKSTATION | SERVER | NETWORK_DEVICE | PRINTER | CAMERA | PHONE | STORAGE | HYPERVISOR
  | VIRTUAL_MACHINE | CLOUD_INSTANCE | IOT | EMBEDDED | WEB_APPLICATION | UNKNOWN

fun asset_type_value :: "AssetType \<Rightarrow> string" where
  "asset_type_value AssetType.WORKSTATION = ''workstation''"
| "asset_type_value AssetType.SERVER = ''server''"
| "asset_type_value AssetType.NETWORK_DEVICE = ''network_device''"
| "asset_type_value AssetType.PRINTER = ''printer''"
| "asset_type_value AssetType.CAMERA = ''camera''"
| "asset_type_value AssetType.PHONE = ''phone''"
| "asset_type_value AssetType.STORAGE = ''storage''"
| "asset_type_value AssetType.HYPERVISOR = ''hypervisor''"
| "asset_type_value AssetType.VIRTUAL_MACHINE = ''virtual_machine''"
| "asset_type_value AssetType.CLOUD_INSTANCE = ''cloud_instance''"
| "asset_type_value AssetType.IOT = ''iot''"
| "asset_type_value AssetType.EMBEDDED = ''embedded''"
| "asset_type_value AssetType.WEB_APPLICATION = ''web_application''"
| "asset_type_value AssetType.UNKNOWN = ''unknown''"

definition asset_type_members :: "AssetType list" where
  "asset_type_members =
     [AssetType.WORKSTATION, AssetType.SERVER, AssetType.NETWORK_DEVICE, AssetType.PRINTER, AssetType.CAMERA,
      AssetType.PHONE, AssetType.STORAGE, AssetType.HYPERVISOR, AssetType.VIRTUAL_MACHINE,
      AssetType.CLOUD_INSTANCE, AssetType.IOT, AssetType.EMBEDDED, AssetType.WEB_APPLICATION, AssetType.UNKNOWN]"

interpretation asset_type: str_enum asset_type_value asset_type_members
proof
  show "distinct (map asset_type_value asset_type_members)" by (simp add: asset_type_members_def)
  show "x \<in> set asset_type_members" for x by (cases x) (simp_all add: asset_type_members_def)
qed

datatype AssetStatus = ACTIVE | INACTIVE

datatype InventoryAssetState = EXPECTED | DISCOVERED | ASSESSED | STALE | MISSING

datatype ReconciliationStatus = PENDING | AUTO_MERGED | APPROVED | REJECTED | SPLIT

subsection \<open>Tables\<close>

record inventory_asset =
  ia_id :: uuid
  ia_organization_id :: uuid
  ia_site_id :: uuid
  ia_canonical_name :: string
  ia_asset_type :: AssetType
  ia_status :: AssetStatus
  ia_operating_system :: "string option"
  ia_manufacturer :: "string option"
  ia_identity_confidence :: int
  ia_first_seen_at :: "time option"
  ia_last_seen_at :: "time option"
  ia_last_assessed_at :: "time option"

record asset_key =
  ak_asset_id :: uuid
  ak_type :: IdentifierType
  ak_value :: string
  ak_confidence :: int
  ak_first_seen_at :: "time option"
  ak_last_seen_at :: "time option"

record asset_observation =
  ob_id :: uuid
  ob_organization_id :: uuid
  ob_site_id :: uuid
  ob_connector_id :: uuid
  ob_run_id :: uuid
  ob_source_record_id :: string
  ob_observed_at :: time
  ob_identifiers :: json
  ob_attributes :: "(string \<times> json) list"
  ob_payload_hash :: string
  ob_matched_asset_id :: "uuid option"

record source_link =
  sl_organization_id :: uuid
  sl_site_id :: uuid
  sl_connector_id :: uuid
  sl_source_record_id :: string
  sl_asset_id :: uuid
  sl_first_observed_at :: time
  sl_last_observed_at :: time
  sl_identifiers :: json

record inventory_state =
  iv_organization_id :: uuid
  iv_site_id :: uuid
  iv_asset_id :: uuid
  iv_state :: InventoryAssetState
  iv_expected :: bool
  iv_discovered_at :: "time option"
  iv_assessed_at :: "time option"
  iv_last_observed_at :: "time option"
  iv_missing_since :: "time option"
  iv_stale_after_days :: int
  iv_created_at :: time

record lifecycle_event =
  le_organization_id :: uuid
  le_site_id :: uuid
  le_asset_id :: uuid
  le_previous_state :: "InventoryAssetState option"
  le_new_state :: InventoryAssetState
  le_reason :: string
  le_observation_id :: "uuid option"

text \<open>The snapshot of a merge: what the source mapping and the asset were before it.\<close>

record merge_snapshot =
  mg_prior_matched :: "uuid option"
  mg_prior_link :: "source_link option"
  mg_prior_last_seen :: "time option"
  mg_added :: "(IdentifierType \<times> string) list"
  mg_updated :: "(IdentifierType \<times> string \<times> time option) list"

datatype conflict = ImmutableConflict IdentifierType "string list" "string list" | AmbiguousCandidate

record candidate =
  rc_id :: uuid
  rc_organization_id :: uuid
  rc_site_id :: uuid
  rc_observation_id :: uuid
  rc_asset_id :: uuid
  rc_score :: int
  rc_reasons :: "(IdentifierType \<times> string list \<times> int) list"
  rc_conflicts :: "conflict list"
  rc_status :: ReconciliationStatus
  rc_snapshot :: "merge_snapshot option"
  rc_decided_by :: "uuid option"
  rc_decided_at :: "time option"
  rc_split_at :: "time option"

record asset_db =
  ad_next :: uuid
  ad_assets :: "inventory_asset list"
  ad_identifiers :: "asset_key list"
  ad_observations :: "asset_observation list"
  ad_links :: "source_link list"
  ad_states :: "inventory_state list"
  ad_events :: "lifecycle_event list"
  ad_candidates :: "candidate list"

datatype reconciliation_error = IdentifierCount | IdentifierShape | IdentifierKind | IdentifierLength
  | NoIdentifier | CandidateNotPending | ConflictsBlock | SourceGone | ScopesDiffer | BelowThreshold
  | ObservationGone | NotMerged | MappingMoved | MergedAssetGone | PriorMappingGone

definition draw_id :: "asset_db \<Rightarrow> uuid \<times> asset_db" where
  "draw_id db = (ad_next db, db\<lparr>ad_next := ad_next db + 1\<rparr>)"

definition on_asset :: "uuid \<Rightarrow> (inventory_asset \<Rightarrow> inventory_asset) \<Rightarrow> asset_db \<Rightarrow> asset_db" where
  "on_asset i u db = db\<lparr>ad_assets := update_where (\<lambda>a. ia_id a = i) u (ad_assets db)\<rparr>"

definition on_observation :: "uuid \<Rightarrow> (asset_observation \<Rightarrow> asset_observation) \<Rightarrow> asset_db \<Rightarrow> asset_db" where
  "on_observation i u db = db\<lparr>ad_observations := update_where (\<lambda>x. ob_id x = i) u (ad_observations db)\<rparr>"

definition on_candidate :: "uuid \<Rightarrow> (candidate \<Rightarrow> candidate) \<Rightarrow> asset_db \<Rightarrow> asset_db" where
  "on_candidate i u db = db\<lparr>ad_candidates := update_where (\<lambda>x. rc_id x = i) u (ad_candidates db)\<rparr>"

definition asset_of :: "asset_db \<Rightarrow> uuid \<Rightarrow> inventory_asset option" where
  "asset_of db i = find (\<lambda>a. ia_id a = i) (ad_assets db)"

definition observation_of :: "asset_db \<Rightarrow> uuid \<Rightarrow> asset_observation option" where
  "observation_of db i = find (\<lambda>x. ob_id x = i) (ad_observations db)"

definition identifiers_of :: "asset_db \<Rightarrow> uuid \<Rightarrow> asset_key list" where
  "identifiers_of db i = filter (\<lambda>r. ak_asset_id r = i) (ad_identifiers db)"

definition link_of :: "asset_db \<Rightarrow> uuid \<Rightarrow> string \<Rightarrow> source_link option" where
  "link_of db connector record_id =
     find (\<lambda>l. sl_connector_id l = connector \<and> sl_source_record_id l = record_id) (ad_links db)"

subsection \<open>Identifiers in canonical form\<close>

definition AUTO_MERGE_THRESHOLD :: int where
  "AUTO_MERGE_THRESHOLD = 95"

definition REVIEW_THRESHOLD :: int where
  "REVIEW_THRESHOLD = 70"

fun identifier_weight :: "IdentifierType \<Rightarrow> int" where
  "identifier_weight IdentifierType.AGENT_ID = 100"
| "identifier_weight IdentifierType.CLOUD_INSTANCE_ID = 100"
| "identifier_weight IdentifierType.SSH_HOST_KEY = 100"
| "identifier_weight IdentifierType.TLS_CERT_FINGERPRINT = 100"
| "identifier_weight IdentifierType.SNMP_ENGINE_ID = 100"
| "identifier_weight IdentifierType.MAC_ADDRESS = 95"
| "identifier_weight IdentifierType.FQDN = 85"
| "identifier_weight IdentifierType.SMB_NAME = 80"
| "identifier_weight IdentifierType.HOSTNAME = 75"
| "identifier_weight IdentifierType.IP_ADDRESS = 60"

definition IMMUTABLE_TYPES :: "IdentifierType list" where
  "IMMUTABLE_TYPES =
     [IdentifierType.AGENT_ID, IdentifierType.CLOUD_INSTANCE_ID, IdentifierType.SSH_HOST_KEY,
      IdentifierType.TLS_CERT_FINGERPRINT, IdentifierType.SNMP_ENGINE_ID, IdentifierType.MAC_ADDRESS]"

definition later :: "time \<Rightarrow> time \<Rightarrow> time" where
  "later first second = (if first \<ge> second then first else second)"

definition text_field :: "(json \<Rightarrow> string) \<Rightarrow> (string \<times> json) list \<Rightarrow> string \<Rightarrow> string" where
  "text_field str_of kvs k =
     (case map_of kvs k of None \<Rightarrow> [] | Some (JStr s) \<Rightarrow> s | Some v \<Rightarrow> str_of v)"

definition canonical_text :: "string \<Rightarrow> string" where
  "canonical_text s = lower (strip s)"

definition normalize_item :: "(json \<Rightarrow> string) \<Rightarrow> json \<Rightarrow> reconciliation_error + IdentifierType \<times> string" where
  "normalize_item str_of v =
     (case v of
        JObj kvs \<Rightarrow>
          (case member_of_value identifier_type_value identifier_type_members (text_field str_of kvs ''type'') of
             None \<Rightarrow> Inl IdentifierKind
           | Some kind \<Rightarrow>
               (let s = canonical_text (text_field str_of kvs ''value'')
                in if s = [] \<or> length s > 255 then Inl IdentifierLength else Inr (kind, s)))
      | _ \<Rightarrow> Inl IdentifierShape)"

definition normalize_identifiers ::
  "(json \<Rightarrow> string) \<Rightarrow> json \<Rightarrow> reconciliation_error + (IdentifierType \<times> string) list" where
  "normalize_identifiers str_of raw =
     (case raw of
        JList vs \<Rightarrow>
          if length vs > 50 then Inl IdentifierCount
          else res_bind (traverse (normalize_item str_of) vs) (\<lambda>ids.
                 if ids = [] then Inl NoIdentifier else Inr (first_occurrences ids))
      | _ \<Rightarrow> Inl IdentifierCount)"

text \<open>The stored form of normalized identifiers.\<close>

definition identifiers_json :: "(IdentifierType \<times> string) list \<Rightarrow> json" where
  "identifiers_json ids =
     JList (map (\<lambda>(kind, s). JObj [(''type'', JStr (identifier_type_value kind)), (''value'', JStr s)]) ids)"

subsection \<open>Scores\<close>

definition kinds :: "(IdentifierType \<times> string) list \<Rightarrow> IdentifierType list" where
  "kinds ids = first_occurrences (map fst ids)"

definition observed_values :: "(IdentifierType \<times> string) list \<Rightarrow> IdentifierType \<Rightarrow> string list" where
  "observed_values ids kind = map snd (filter (\<lambda>i. fst i = kind) ids)"

definition existing_values :: "asset_key list \<Rightarrow> IdentifierType \<Rightarrow> string list" where
  "existing_values rows kind = map (\<lambda>r. canonical_text (ak_value r)) (filter (\<lambda>r. ak_type r = kind) rows)"

definition matching_values :: "(IdentifierType \<times> string) list \<Rightarrow> asset_key list \<Rightarrow> IdentifierType \<Rightarrow> string list" where
  "matching_values ids rows kind =
     filter (\<lambda>s. s \<in> set (existing_values rows kind)) (observed_values ids kind)"

definition matched_kinds :: "(IdentifierType \<times> string) list \<Rightarrow> asset_key list \<Rightarrow> IdentifierType list" where
  "matched_kinds ids rows = filter (\<lambda>k. matching_values ids rows k \<noteq> []) (kinds ids)"

definition sorted_set :: "string list \<Rightarrow> string list" where
  "sorted_set xs = sort (remdups xs)"

record asset_score =
  sc_score :: int
  sc_reasons :: "(IdentifierType \<times> string list \<times> int) list"
  sc_conflicts :: "conflict list"

definition score_identifiers :: "(IdentifierType \<times> string) list \<Rightarrow> asset_key list \<Rightarrow> asset_score" where
  "score_identifiers ids rows =
     \<lparr>sc_score = fold (\<lambda>k m. max m (identifier_weight k)) (matched_kinds ids rows) 0,
      sc_reasons = map (\<lambda>k. (k, sorted_set (matching_values ids rows k), identifier_weight k)) (matched_kinds ids rows),
      sc_conflicts =
        map (\<lambda>k. ImmutableConflict k (sorted_set (observed_values ids k)) (sorted_set (existing_values rows k)))
          (filter (\<lambda>k. matching_values ids rows k = [] \<and> k \<in> set IMMUTABLE_TYPES \<and> existing_values rows k \<noteq> [])
            (kinds ids))\<rparr>"

definition score_asset ::
  "(json \<Rightarrow> string) \<Rightarrow> json \<Rightarrow> asset_key list \<Rightarrow> reconciliation_error + asset_score" where
  "score_asset str_of raw rows =
     res_bind (normalize_identifiers str_of raw) (\<lambda>ids. Inr (score_identifiers ids rows))"

subsection \<open>The lifecycle of an asset\<close>

definition note_lifecycle :: "inventory_asset \<Rightarrow> InventoryAssetState option \<Rightarrow> InventoryAssetState \<Rightarrow> string \<Rightarrow> uuid option \<Rightarrow> asset_db \<Rightarrow> asset_db" where
  "note_lifecycle a previous new_state reason observation db =
     (if previous = Some new_state then db
      else db\<lparr>ad_events := ad_events db @ [\<lparr>le_organization_id = ia_organization_id a, le_site_id = ia_site_id a,
             le_asset_id = ia_id a, le_previous_state = previous, le_new_state = new_state, le_reason = reason,
             le_observation_id = observation\<rparr>]\<rparr>)"

definition first_state :: "inventory_asset \<Rightarrow> InventoryAssetState \<Rightarrow> time \<Rightarrow> inventory_state" where
  "first_state a state now =
     \<lparr>iv_organization_id = ia_organization_id a, iv_site_id = ia_site_id a, iv_asset_id = ia_id a,
      iv_state = state, iv_expected = False, iv_discovered_at = Some now, iv_assessed_at = ia_last_assessed_at a,
      iv_last_observed_at = Some now, iv_missing_since = None, iv_stale_after_days = 30, iv_created_at = now\<rparr>"

definition observed_state :: "inventory_asset \<Rightarrow> InventoryAssetState \<Rightarrow> time \<Rightarrow> inventory_state \<Rightarrow> inventory_state" where
  "observed_state a state now s =
     s\<lparr>iv_state := state, iv_last_observed_at := Some now, iv_missing_since := None,
       iv_discovered_at := Some (or_else (iv_discovered_at s) now),
       iv_assessed_at := or_opt (ia_last_assessed_at a) (iv_assessed_at s)\<rparr>"

definition set_lifecycle :: "inventory_asset \<Rightarrow> InventoryAssetState \<Rightarrow> string \<Rightarrow> uuid option \<Rightarrow> time \<Rightarrow> asset_db \<Rightarrow> asset_db" where
  "set_lifecycle a state reason observation now db =
     (case find (\<lambda>s. iv_asset_id s = ia_id a) (ad_states db) of
        None \<Rightarrow>
          note_lifecycle a None state reason observation (db\<lparr>ad_states := ad_states db @ [first_state a state now]\<rparr>)
      | Some s \<Rightarrow>
          note_lifecycle a (Some (iv_state s)) state reason observation
            (db\<lparr>ad_states := update_where (\<lambda>x. iv_asset_id x = ia_id a) (observed_state a state now) (ad_states db)\<rparr>))"

subsection \<open>Linking an observation\<close>

definition new_source_link :: "asset_observation \<Rightarrow> uuid \<Rightarrow> source_link" where
  "new_source_link o' i =
     \<lparr>sl_organization_id = ob_organization_id o', sl_site_id = ob_site_id o', sl_connector_id = ob_connector_id o',
      sl_source_record_id = ob_source_record_id o', sl_asset_id = i, sl_first_observed_at = ob_observed_at o',
      sl_last_observed_at = ob_observed_at o', sl_identifiers = ob_identifiers o'\<rparr>"

definition relinked :: "asset_observation \<Rightarrow> uuid \<Rightarrow> source_link \<Rightarrow> source_link" where
  "relinked o' i l =
     l\<lparr>sl_asset_id := i, sl_last_observed_at := later (sl_last_observed_at l) (ob_observed_at o'),
       sl_identifiers := ob_identifiers o'\<rparr>"

definition on_link :: "asset_observation \<Rightarrow> (source_link \<Rightarrow> source_link) \<Rightarrow> asset_db \<Rightarrow> asset_db" where
  "on_link o' u db =
     db\<lparr>ad_links := update_where (\<lambda>l. sl_connector_id l = ob_connector_id o' \<and>
          sl_source_record_id l = ob_source_record_id o') u (ad_links db)\<rparr>"

definition seen :: "asset_observation \<Rightarrow> time \<Rightarrow> inventory_asset \<Rightarrow> inventory_asset" where
  "seen o' now a = a\<lparr>ia_last_seen_at := Some (later (or_else (ia_last_seen_at a) now) (ob_observed_at o'))\<rparr>"

definition link_observation :: "asset_observation \<Rightarrow> uuid \<Rightarrow> time \<Rightarrow> asset_db \<Rightarrow> asset_db" where
  "link_observation o' i now db =
     (let db1 = (case link_of db (ob_connector_id o') (ob_source_record_id o') of
                   None \<Rightarrow> db\<lparr>ad_links := ad_links db @ [new_source_link o' i]\<rparr>
                 | Some l \<Rightarrow> on_link o' (relinked o' i) db)
      in on_asset i (seen o' now) (on_observation (ob_id o') (\<lambda>x. x\<lparr>ob_matched_asset_id := Some i\<rparr>) db1))"

subsection \<open>Creating an asset from an observation\<close>

definition first_truthy :: "(json \<Rightarrow> string) \<Rightarrow> (string \<times> json) list \<Rightarrow> string list \<Rightarrow> string \<Rightarrow> string" where
  "first_truthy str_of kvs ks fallback =
     (case find (\<lambda>k. case map_of kvs k of None \<Rightarrow> False | Some v \<Rightarrow> truthy v) ks of
        None \<Rightarrow> fallback
      | Some k \<Rightarrow> text_field str_of kvs k)"

definition optional_text :: "(json \<Rightarrow> string) \<Rightarrow> (string \<times> json) list \<Rightarrow> string \<Rightarrow> string option" where
  "optional_text str_of kvs k =
     (case map_of kvs k of
        None \<Rightarrow> None
      | Some v \<Rightarrow> if truthy v then Some (take 255 (text_field str_of kvs k)) else None)"

definition observed_type :: "(json \<Rightarrow> string) \<Rightarrow> (string \<times> json) list \<Rightarrow> AssetType" where
  "observed_type str_of kvs =
     (if map_of kvs ''asset_type'' = None then AssetType.UNKNOWN
      else or_else (member_of_value asset_type_value asset_type_members (text_field str_of kvs ''asset_type''))
             AssetType.UNKNOWN)"

definition observed_name :: "(json \<Rightarrow> string) \<Rightarrow> asset_observation \<Rightarrow> string" where
  "observed_name str_of o' =
     (let s = take 255 (strip (first_truthy str_of (ob_attributes o') [''canonical_name'', ''hostname'', ''name'']
                (ob_source_record_id o')))
      in if s = [] then ''source-'' @ uuid_str (ob_id o') else s)"

definition observed_asset :: "(json \<Rightarrow> string) \<Rightarrow> uuid \<Rightarrow> asset_observation \<Rightarrow> inventory_asset" where
  "observed_asset str_of i o' =
     \<lparr>ia_id = i, ia_organization_id = ob_organization_id o', ia_site_id = ob_site_id o',
      ia_canonical_name = observed_name str_of o', ia_asset_type = observed_type str_of (ob_attributes o'),
      ia_status = AssetStatus.ACTIVE,
      ia_operating_system = optional_text str_of (ob_attributes o') ''operating_system'',
      ia_manufacturer = optional_text str_of (ob_attributes o') ''manufacturer'',
      ia_identity_confidence = 70, ia_first_seen_at = Some (ob_observed_at o'),
      ia_last_seen_at = Some (ob_observed_at o'), ia_last_assessed_at = None\<rparr>"

definition observed_identifier :: "uuid \<Rightarrow> time \<Rightarrow> IdentifierType \<times> string \<Rightarrow> asset_key" where
  "observed_identifier i t e =
     \<lparr>ak_asset_id = i, ak_type = fst e, ak_value = snd e, ak_confidence = identifier_weight (fst e),
      ak_first_seen_at = Some t, ak_last_seen_at = Some t\<rparr>"

definition create_asset_from_observation ::
  "(json \<Rightarrow> string) \<Rightarrow> asset_observation \<Rightarrow> time \<Rightarrow> asset_db \<Rightarrow> reconciliation_error + asset_db \<times> uuid" where
  "create_asset_from_observation str_of o' now db =
     res_bind (normalize_identifiers str_of (ob_identifiers o')) (\<lambda>ids.
       let (i, db1) = draw_id db;
           a = observed_asset str_of i o';
           db2 = db1\<lparr>ad_assets := ad_assets db1 @ [a],
                     ad_identifiers := ad_identifiers db1 @ map (observed_identifier i (ob_observed_at o')) ids\<rparr>
       in Inr (set_lifecycle a InventoryAssetState.DISCOVERED ''new passive source identity'' (Some (ob_id o')) now
                 (link_observation o' i now db2), i))"

subsection \<open>Merging\<close>

text \<open>
  The row of the asset under a canonical key: of several rows that differ in case or blanks the
  dictionary keeps the last.
\<close>

definition row_for :: "asset_key list \<Rightarrow> IdentifierType \<times> string \<Rightarrow> asset_key option" where
  "row_for rows e = find (\<lambda>r. ak_type r = fst e \<and> canonical_text (ak_value r) = snd e) (rev rows)"

definition same_row :: "asset_key \<Rightarrow> asset_key \<Rightarrow> bool" where
  "same_row r s \<longleftrightarrow> ak_asset_id s = ak_asset_id r \<and> ak_type s = ak_type r \<and> ak_value s = ak_value r"

definition latest :: "time option \<Rightarrow> time \<Rightarrow> time" where
  "latest prior t = (case prior of None \<Rightarrow> t | Some p \<Rightarrow> later p t)"

type_synonym identifier_changes =
  "asset_key list \<times> (IdentifierType \<times> string) list \<times> (IdentifierType \<times> string \<times> time option) list"

definition merge_identifier ::
  "asset_key list \<Rightarrow> uuid \<Rightarrow> time \<Rightarrow> IdentifierType \<times> string \<Rightarrow> identifier_changes \<Rightarrow> identifier_changes" where
  "merge_identifier existing i t e st =
     (case st of (rows, added, updated) \<Rightarrow>
        case row_for existing e of
          Some r \<Rightarrow>
            (let new = latest (ak_last_seen_at r) t
             in (update_where (same_row r) (\<lambda>s. s\<lparr>ak_last_seen_at := Some new\<rparr>) rows, added,
                 if ak_last_seen_at r = Some new then updated else updated @ [(fst e, snd e, ak_last_seen_at r)]))
        | None \<Rightarrow> (rows @ [observed_identifier i t e], added @ [e], updated))"

definition merge_observation_identifiers ::
  "(json \<Rightarrow> string) \<Rightarrow> asset_observation \<Rightarrow> uuid \<Rightarrow> asset_db \<Rightarrow> reconciliation_error + asset_db \<times>
     (IdentifierType \<times> string) list \<times> (IdentifierType \<times> string \<times> time option) list" where
  "merge_observation_identifiers str_of o' i db =
     res_bind (normalize_identifiers str_of (ob_identifiers o')) (\<lambda>ids.
       case fold (merge_identifier (identifiers_of db i) i (ob_observed_at o')) ids (ad_identifiers db, [], []) of
         (rows, added, updated) \<Rightarrow> Inr (db\<lparr>ad_identifiers := rows\<rparr>, added, updated))"

definition reconciled_state :: "inventory_asset \<Rightarrow> InventoryAssetState" where
  "reconciled_state a =
     (if ia_last_assessed_at a = None then InventoryAssetState.DISCOVERED else InventoryAssetState.ASSESSED)"

definition merged :: "merge_snapshot \<Rightarrow> ReconciliationStatus \<Rightarrow> uuid option \<Rightarrow> time \<Rightarrow> candidate \<Rightarrow> candidate" where
  "merged snapshot status actor now c =
     c\<lparr>rc_snapshot := Some snapshot, rc_status := status, rc_decided_by := actor, rc_decided_at := Some now\<rparr>"

definition check_merge ::
  "(json \<Rightarrow> string) \<Rightarrow> candidate \<Rightarrow> asset_db \<Rightarrow> reconciliation_error + asset_observation \<times> inventory_asset" where
  "check_merge str_of c db =
     res_bind (require (rc_status c = ReconciliationStatus.PENDING) CandidateNotPending) (\<lambda>_.
     res_bind (require (rc_conflicts c = []) ConflictsBlock) (\<lambda>_.
     case (observation_of db (rc_observation_id c), asset_of db (rc_asset_id c)) of
       (Some o', Some a) \<Rightarrow>
         res_bind (require (ob_organization_id o' = ia_organization_id a \<and> ob_site_id o' = ia_site_id a) ScopesDiffer) (\<lambda>_.
         res_bind (score_asset str_of (ob_identifiers o') (identifiers_of db (ia_id a))) (\<lambda>s.
         res_bind (require (sc_conflicts s = []) ConflictsBlock) (\<lambda>_.
         res_bind (require (REVIEW_THRESHOLD \<le> sc_score s) BelowThreshold) (\<lambda>_. Inr (o', a)))))
     | _ \<Rightarrow> Inl SourceGone))"

definition merge_candidate ::
  "(json \<Rightarrow> string) \<Rightarrow> candidate \<Rightarrow> ReconciliationStatus \<Rightarrow> uuid option \<Rightarrow> time \<Rightarrow> asset_db \<Rightarrow>
   reconciliation_error + asset_db" where
  "merge_candidate str_of c status actor now db =
     res_bind (check_merge str_of c db) (\<lambda>(o', a).
     res_bind (merge_observation_identifiers str_of o' (ia_id a) (link_observation o' (ia_id a) now db))
       (\<lambda>(db1, added, updated).
       let snapshot = \<lparr>mg_prior_matched = ob_matched_asset_id o',
             mg_prior_link = link_of db (ob_connector_id o') (ob_source_record_id o'),
             mg_prior_last_seen = ia_last_seen_at a, mg_added = added, mg_updated = updated\<rparr>
       in Inr (on_candidate (rc_id c) (merged snapshot status actor now)
                 (set_lifecycle a (reconciled_state a) ''passive observation reconciled'' (Some (ob_id o')) now db1))))"

subsection \<open>Reconciling an observation\<close>

definition shares_identifier :: "asset_db \<Rightarrow> (IdentifierType \<times> string) list \<Rightarrow> inventory_asset \<Rightarrow> bool" where
  "shares_identifier db ids a \<longleftrightarrow>
     list_ex (\<lambda>r. list_ex (\<lambda>e. ak_type r = fst e \<and> lower (ak_value r) = snd e) ids) (identifiers_of db (ia_id a))"

definition scored_assets ::
  "asset_observation \<Rightarrow> (IdentifierType \<times> string) list \<Rightarrow> asset_db \<Rightarrow> (inventory_asset \<times> asset_score) list" where
  "scored_assets o' ids db =
     (let assets = filter (\<lambda>a. ia_organization_id a = ob_organization_id o' \<and> ia_site_id a = ob_site_id o' \<and>
                     shares_identifier db ids a) (ad_assets db)
      in filter (\<lambda>(a, s). REVIEW_THRESHOLD \<le> sc_score s)
           (map (\<lambda>a. (a, score_identifiers ids (identifiers_of db (ia_id a)))) assets))"

text \<open>Sorted by \<open>(-score, str(id))\<close>: a stable sort by the text, then one by the score.\<close>

definition ranked :: "(inventory_asset \<times> asset_score) list \<Rightarrow> (inventory_asset \<times> asset_score) list" where
  "ranked rows = sort_key (\<lambda>(a, s). - sc_score s) (sort_key (\<lambda>(a, s). uuid_str (ia_id a)) rows)"

definition high_confidence :: "inventory_asset \<times> asset_score \<Rightarrow> bool" where
  "high_confidence r \<longleftrightarrow> AUTO_MERGE_THRESHOLD \<le> sc_score (snd r) \<and> sc_conflicts (snd r) = []"

definition new_candidate :: "asset_observation \<Rightarrow> bool \<Rightarrow> uuid \<Rightarrow> inventory_asset \<times> asset_score \<Rightarrow> candidate" where
  "new_candidate o' ambiguous i r =
     \<lparr>rc_id = i, rc_organization_id = ob_organization_id o', rc_site_id = ob_site_id o',
      rc_observation_id = ob_id o', rc_asset_id = ia_id (fst r), rc_score = sc_score (snd r),
      rc_reasons = sc_reasons (snd r),
      rc_conflicts = sc_conflicts (snd r)
        @ (if ambiguous \<and> AUTO_MERGE_THRESHOLD \<le> sc_score (snd r) then [AmbiguousCandidate] else []),
      rc_status = ReconciliationStatus.PENDING, rc_snapshot = None, rc_decided_by = None, rc_decided_at = None,
      rc_split_at = None\<rparr>"

definition propose :: "asset_observation \<Rightarrow> (inventory_asset \<times> asset_score) list \<Rightarrow> asset_db \<Rightarrow> asset_db \<times> candidate list" where
  "propose o' rows db =
     (let ambiguous = 1 < length (filter high_confidence rows);
          cs = map (\<lambda>(k, r). new_candidate o' ambiguous (ad_next db + k) r) (enumerate 0 rows)
      in (db\<lparr>ad_next := ad_next db + length rows, ad_candidates := ad_candidates db @ cs\<rparr>, cs))"

definition reconcile_observation ::
  "(json \<Rightarrow> string) \<Rightarrow> asset_observation \<Rightarrow> time \<Rightarrow> asset_db \<Rightarrow> reconciliation_error + asset_db" where
  "reconcile_observation str_of o' now db =
     res_bind (normalize_identifiers str_of (ob_identifiers o')) (\<lambda>ids.
       let rows = ranked (scored_assets o' ids db);
           (db1, cs) = propose o' rows db
       in case filter high_confidence rows of
            [(a, s)] \<Rightarrow>
              (case find (\<lambda>c. rc_asset_id c = ia_id a) cs of
                 None \<Rightarrow> Inr db1
               | Some c \<Rightarrow> merge_candidate str_of c ReconciliationStatus.AUTO_MERGED None now db1)
          | _ \<Rightarrow>
              if cs = [] then res_bind (create_asset_from_observation str_of o' now db1) (\<lambda>(db2, i). Inr db2)
              else Inr db1)"

subsection \<open>Decisions\<close>

definition reject_candidate ::
  "(json \<Rightarrow> string) \<Rightarrow> candidate \<Rightarrow> uuid option \<Rightarrow> time \<Rightarrow> asset_db \<Rightarrow> reconciliation_error + asset_db" where
  "reject_candidate str_of c actor now db =
     res_bind (require (rc_status c = ReconciliationStatus.PENDING) CandidateNotPending) (\<lambda>_.
       let db1 = on_candidate (rc_id c) (\<lambda>x. x\<lparr>rc_status := ReconciliationStatus.REJECTED, rc_decided_by := actor,
                   rc_decided_at := Some now\<rparr>) db
       in case observation_of db (rc_observation_id c) of
            None \<Rightarrow> Inl ObservationGone
          | Some o' \<Rightarrow>
              if list_ex (\<lambda>x. rc_observation_id x = ob_id o' \<and> rc_id x \<noteq> rc_id c \<and>
                   rc_status x = ReconciliationStatus.PENDING) (ad_candidates db) \<or> ob_matched_asset_id o' \<noteq> None
              then Inr db1
              else res_bind (create_asset_from_observation str_of o' now db1) (\<lambda>(db2, i). Inr db2))"

text \<open>The row the \<open>SELECT\<close> of a split finds: it compares the lower-cased value.\<close>

definition split_row :: "asset_key list \<Rightarrow> uuid \<Rightarrow> IdentifierType \<Rightarrow> string \<Rightarrow> asset_key option" where
  "split_row rows i kind s = find (\<lambda>r. ak_asset_id r = i \<and> ak_type r = kind \<and> lower (ak_value r) = s) rows"

definition remove_added ::
  "uuid \<Rightarrow> time \<Rightarrow> IdentifierType \<times> string \<Rightarrow> asset_key list \<Rightarrow> asset_key list" where
  "remove_added i t e rows =
     (case split_row rows i (fst e) (snd e) of
        None \<Rightarrow> rows
      | Some r \<Rightarrow> if ak_last_seen_at r = Some t then filter (\<lambda>s. \<not> same_row r s) rows else rows)"

definition restore_updated ::
  "uuid \<Rightarrow> time \<Rightarrow> IdentifierType \<times> string \<times> time option \<Rightarrow> asset_key list \<Rightarrow> asset_key list" where
  "restore_updated i t e rows =
     (case e of (kind, s, prior) \<Rightarrow>
        case split_row rows i kind s of
          None \<Rightarrow> rows
        | Some r \<Rightarrow>
            if ak_last_seen_at r = Some t
            then update_where (same_row r) (\<lambda>x. x\<lparr>ak_last_seen_at := prior\<rparr>) rows
            else rows)"

definition unseen :: "merge_snapshot option \<Rightarrow> asset_observation \<Rightarrow> inventory_asset \<Rightarrow> inventory_asset" where
  "unseen snapshot o' a =
     (let prior = Option.bind snapshot mg_prior_last_seen
      in if ia_last_seen_at a = Some (latest prior (ob_observed_at o')) then a\<lparr>ia_last_seen_at := prior\<rparr> else a)"

definition restored_link :: "source_link \<Rightarrow> source_link \<Rightarrow> source_link" where
  "restored_link prior l =
     l\<lparr>sl_asset_id := sl_asset_id prior, sl_first_observed_at := sl_first_observed_at prior,
       sl_last_observed_at := sl_last_observed_at prior, sl_identifiers := sl_identifiers prior\<rparr>"

definition recreated_link :: "asset_observation \<Rightarrow> source_link \<Rightarrow> source_link" where
  "recreated_link o' prior = restored_link prior (new_source_link o' (sl_asset_id prior))"

definition split_identifiers :: "merge_snapshot option \<Rightarrow> uuid \<Rightarrow> time \<Rightarrow> asset_key list \<Rightarrow> asset_key list" where
  "split_identifiers snapshot i t rows =
     (case snapshot of
        None \<Rightarrow> rows
      | Some m \<Rightarrow> fold (restore_updated i t) (mg_updated m) (fold (remove_added i t) (mg_added m) rows))"

text \<open>The source mapping after a split: what it was before the merge, or a new asset.\<close>

definition restore_mapping ::
  "(json \<Rightarrow> string) \<Rightarrow> asset_observation \<Rightarrow> merge_snapshot option \<Rightarrow> time \<Rightarrow> asset_db \<Rightarrow>
   reconciliation_error + asset_db \<times> uuid" where
  "restore_mapping str_of o' snapshot now db =
     (case Option.bind snapshot mg_prior_link of
        Some prior \<Rightarrow>
          (case asset_of db (sl_asset_id prior) of
             None \<Rightarrow> Inl PriorMappingGone
           | Some p \<Rightarrow>
               if ia_organization_id p \<noteq> ob_organization_id o' \<or> ia_site_id p \<noteq> ob_site_id o' then Inl PriorMappingGone
               else
                 (let db1 = (case link_of db (ob_connector_id o') (ob_source_record_id o') of
                               None \<Rightarrow> db\<lparr>ad_links := ad_links db @ [recreated_link o' prior]\<rparr>
                             | Some l \<Rightarrow> on_link o' (restored_link prior) db)
                  in Inr (on_observation (ob_id o')
                            (\<lambda>x. x\<lparr>ob_matched_asset_id := Option.bind snapshot mg_prior_matched\<rparr>) db1, ia_id p)))
      | None \<Rightarrow>
          create_asset_from_observation str_of (o'\<lparr>ob_matched_asset_id := None\<rparr>) now
            (on_observation (ob_id o') (\<lambda>x. x\<lparr>ob_matched_asset_id := None\<rparr>)
              (db\<lparr>ad_links := filter (\<lambda>l. \<not> (sl_connector_id l = ob_connector_id o' \<and>
                   sl_source_record_id l = ob_source_record_id o')) (ad_links db)\<rparr>)))"

definition split_candidate ::
  "(json \<Rightarrow> string) \<Rightarrow> candidate \<Rightarrow> uuid option \<Rightarrow> time \<Rightarrow> asset_db \<Rightarrow> reconciliation_error + asset_db \<times> uuid" where
  "split_candidate str_of c actor now db =
     res_bind (require (rc_status c \<in> {ReconciliationStatus.APPROVED, ReconciliationStatus.AUTO_MERGED}) NotMerged) (\<lambda>_.
     case observation_of db (rc_observation_id c) of
       None \<Rightarrow> Inl MappingMoved
     | Some o' \<Rightarrow>
         res_bind (require (ob_matched_asset_id o' = Some (rc_asset_id c)) MappingMoved) (\<lambda>_.
         case asset_of db (rc_asset_id c) of
           None \<Rightarrow> Inl MergedAssetGone
         | Some a \<Rightarrow>
             (let db1 = db\<lparr>ad_identifiers := split_identifiers (rc_snapshot c) (ia_id a) (ob_observed_at o') (ad_identifiers db)\<rparr>;
                  db2 = on_asset (ia_id a) (unseen (rc_snapshot c) o') db1
              in res_bind (restore_mapping str_of o' (rc_snapshot c) now db2) (\<lambda>(db3, i).
                   Inr (on_candidate (rc_id c) (\<lambda>x. x\<lparr>rc_status := ReconciliationStatus.SPLIT, rc_decided_by := actor,
                          rc_split_at := Some now\<rparr>) db3, i)))))"

subsection \<open>The freshness sweep\<close>

definition reference_time :: "inventory_state \<Rightarrow> time" where
  "reference_time s =
     or_else (or_opt (iv_last_observed_at s) (or_opt (iv_assessed_at s) (iv_discovered_at s))) (iv_created_at s)"

definition swept_state :: "time \<Rightarrow> inventory_state \<Rightarrow> inventory_state" where
  "swept_state now s =
     (let age = now - reference_time s
      in if age > days (iv_stale_after_days s * 2)
         then s\<lparr>iv_state := InventoryAssetState.MISSING, iv_missing_since := Some (or_else (iv_missing_since s) now)\<rparr>
         else if age > days (iv_stale_after_days s)
         then s\<lparr>iv_state := InventoryAssetState.STALE, iv_missing_since := None\<rparr>
         else if iv_assessed_at s \<noteq> None
         then s\<lparr>iv_state := InventoryAssetState.ASSESSED, iv_missing_since := None\<rparr>
         else if iv_last_observed_at s \<noteq> None \<or> iv_discovered_at s \<noteq> None
         then s\<lparr>iv_state := InventoryAssetState.DISCOVERED, iv_missing_since := None\<rparr>
         else if iv_expected s
         then s\<lparr>iv_state := InventoryAssetState.EXPECTED, iv_missing_since := None\<rparr>
         else s)"

definition freshness_event :: "inventory_state \<Rightarrow> InventoryAssetState \<Rightarrow> lifecycle_event" where
  "freshness_event s new_state =
     \<lparr>le_organization_id = iv_organization_id s, le_site_id = iv_site_id s, le_asset_id = iv_asset_id s,
      le_previous_state = Some (iv_state s), le_new_state = new_state, le_reason = ''inventory freshness policy'',
      le_observation_id = None\<rparr>"

definition sweep_inventory_states :: "uuid \<Rightarrow> time \<Rightarrow> asset_db \<Rightarrow> asset_db \<times> nat" where
  "sweep_inventory_states org now db =
     (let rows = filter (\<lambda>s. iv_organization_id s = org) (ad_states db);
          changed = filter (\<lambda>s. iv_state (swept_state now s) \<noteq> iv_state s) rows
      in (db\<lparr>ad_states := update_where (\<lambda>s. iv_organization_id s = org) (swept_state now) (ad_states db),
             ad_events := ad_events db @ map (\<lambda>s. freshness_event s (iv_state (swept_state now s))) changed\<rparr>,
          length changed))"

end
