(* ===== verification/Reconciled.thy ===== *)
theory Reconciled
  imports Reconciliation
begin

text \<open>
  What reconciliation decides: normalization is idempotent, a merge is automatic exactly when it is
  unambiguous, and a split puts back what the merge changed.
\<close>

subsection \<open>Canonical texts\<close>

lemma is_blank_lower [simp]: "is_blank (lower_char c) = is_blank c"
proof (cases "is_upper c")
  case True
  then have "code (lower_char c) = code c + 32" "65 \<le> code c" "code c \<le> 90" by (auto simp: lower_char_def is_upper_def)
  then show ?thesis by (auto simp: is_blank_def)
qed (simp add: lower_char_def)

lemma strip_lower: "strip (lower s) = lower (strip s)"
proof -
  have "dropWhile is_blank (map lower_char t) = map lower_char (dropWhile is_blank t)" for t
    by (simp add: dropWhile_map comp_def)
  then show ?thesis by (simp add: strip_def lower_def rev_map)
qed

lemma strip_strip: "strip (strip s) = strip s"
proof -
  have drop_drop: "dropWhile is_blank (dropWhile is_blank t) = dropWhile is_blank t" for t by (induction t) auto
  have "dropWhile is_blank p = p" if "dropWhile is_blank t = t" "p = rev (dropWhile is_blank (rev t))" for t p
  proof (cases p)
    case (Cons c u)
    have "t = p @ rev (takeWhile is_blank (rev t))"
      unfolding that(2) by (metis rev_append rev_rev_ident takeWhile_dropWhile_id)
    then obtain w where "t = c # w" using Cons by simp
    then have "\<not> is_blank c" using that(1) length_dropWhile_le [of is_blank w] by (auto split: if_splits)
    then show ?thesis using Cons by simp
  qed simp
  then show ?thesis by (simp add: strip_def drop_drop)
qed

lemma canonical_idem [simp]: "canonical_text (canonical_text s) = canonical_text s"
  by (simp add: canonical_text_def strip_lower strip_strip)

subsection \<open>Normalization\<close>

definition canonical_item :: "IdentifierType \<times> string \<Rightarrow> bool" where
  "canonical_item e \<longleftrightarrow> canonical_text (snd e) = snd e \<and> snd e \<noteq> [] \<and> length (snd e) \<le> 255"

definition canonical_list :: "(IdentifierType \<times> string) list \<Rightarrow> bool" where
  "canonical_list ids \<longleftrightarrow> list_all canonical_item ids \<and> distinct ids \<and> ids \<noteq> [] \<and> length ids \<le> 50"

lemma normalize_item_canonical: "normalize_item str_of v = Inr e \<Longrightarrow> canonical_item e"
  by (auto simp: normalize_item_def canonical_item_def Let_def split: json.splits option.splits if_splits)

lemma normalize_item_back:
  "canonical_item e \<Longrightarrow>
   normalize_item str_of (JObj [(''type'', JStr (identifier_type_value (fst e))), (''value'', JStr (snd e))]) = Inr e"
  by (cases e) (simp add: normalize_item_def canonical_item_def text_field_def identifier_type.lookup_val)

lemma first_occurrences_distinct: "distinct xs \<Longrightarrow> first_occurrences xs = xs"
  by (induction xs) (auto simp: filter_id_conv)

lemma length_first_occurrences: "length (first_occurrences xs) \<le> length xs"
  by (induction xs) (auto intro: le_trans [OF length_filter_le])

lemma first_occurrences_Nil [simp]: "first_occurrences xs = [] \<longleftrightarrow> xs = []"
  by (cases xs) auto

lemma normalize_canonical: "normalize_identifiers str_of raw = Inr ids \<Longrightarrow> canonical_list ids"
proof -
  assume "normalize_identifiers str_of raw = Inr ids"
  then obtain vs es where vs: "traverse (normalize_item str_of) vs = Inr es" "length vs \<le> 50" "es \<noteq> []"
      "ids = first_occurrences es"
    by (auto simp: normalize_identifiers_def res_bind_Inr split: json.splits if_splits)
  then have all: "list_all2 (\<lambda>v e. normalize_item str_of v = Inr e) vs es" by (simp add: traverse_Inr)
  then have "list_all2 (\<lambda>v e. canonical_item e) vs es" by (rule list_all2_mono) (rule normalize_item_canonical)
  then have "\<forall>e \<in> set es. canonical_item e" by (fastforce simp: list_all2_conv_all_nth in_set_conv_nth)
  moreover have "length es = length vs" using all by (simp add: list_all2_lengthD)
  ultimately show ?thesis
    using vs length_first_occurrences [of es] by (auto simp: canonical_list_def list_all_iff)
qed

lemma normalize_back: "canonical_list ids \<Longrightarrow> normalize_identifiers str_of (identifiers_json ids) = Inr ids"
proof -
  assume c: "canonical_list ids"
  then have "traverse (normalize_item str_of)
      (map (\<lambda>(kind, s). JObj [(''type'', JStr (identifier_type_value kind)), (''value'', JStr s)]) ids) = Inr ids"
    by (auto simp: traverse_Inr list_all2_conv_all_nth canonical_list_def list_all_iff case_prod_beta
        intro!: normalize_item_back)
  then show ?thesis
    using c by (simp add: normalize_identifiers_def identifiers_json_def canonical_list_def first_occurrences_distinct)
qed

subsection \<open>Scores\<close>

lemma le_fold_max: "(n :: int) \<le> fold (\<lambda>k m. max m (w k)) ks m \<longleftrightarrow> n \<le> m \<or> (\<exists>k \<in> set ks. n \<le> w k)"
  by (induction ks arbitrary: m) (auto simp: le_max_iff_disj)

text \<open>An identifier of this kind is one of the asset's.\<close>

definition agree :: "(IdentifierType \<times> string) list \<Rightarrow> asset_key list \<Rightarrow> IdentifierType \<Rightarrow> bool" where
  "agree ids rows k \<longleftrightarrow> list_ex (\<lambda>r. ak_type r = k \<and> (k, canonical_text (ak_value r)) \<in> set ids) rows"

definition names_asset :: "(IdentifierType \<times> string) list \<Rightarrow> asset_key list \<Rightarrow> int \<Rightarrow> bool" where
  "names_asset ids rows n \<longleftrightarrow> list_ex (\<lambda>k. n \<le> identifier_weight k \<and> agree ids rows k) (map fst ids)"

text \<open>Some immutable identifier differs from every one the asset has of its kind.\<close>

definition contradicts :: "(IdentifierType \<times> string) list \<Rightarrow> asset_key list \<Rightarrow> bool" where
  "contradicts ids rows \<longleftrightarrow>
     list_ex (\<lambda>k. k \<in> fst ` set ids \<and> k \<in> ak_type ` set rows \<and> \<not> agree ids rows k) IMMUTABLE_TYPES"

lemma matching_values_empty: "matching_values ids rows k = [] \<longleftrightarrow> \<not> agree ids rows k"
  by (force simp: matching_values_def observed_values_def existing_values_def filter_empty_conv list_ex_iff agree_def)

lemma score_names: "0 < n \<Longrightarrow> n \<le> sc_score (score_identifiers ids rows) \<longleftrightarrow> names_asset ids rows n"
  by (auto simp: score_identifiers_def le_fold_max matched_kinds_def kinds_def matching_values_empty names_asset_def
      list_ex_iff)

lemma existing_values_empty: "existing_values rows k = [] \<longleftrightarrow> k \<notin> ak_type ` set rows"
  by (auto simp: existing_values_def filter_empty_conv)

lemma conflicts_contradict: "sc_conflicts (score_identifiers ids rows) = [] \<longleftrightarrow> \<not> contradicts ids rows"
proof -
  have "sc_conflicts (score_identifiers ids rows) = [] \<longleftrightarrow>
      (\<forall>k \<in> fst ` set ids. agree ids rows k \<or> k \<notin> set IMMUTABLE_TYPES \<or> k \<notin> ak_type ` set rows)"
    by (simp add: score_identifiers_def kinds_def filter_empty_conv matching_values_empty existing_values_empty
        del: de_Morgan_conj) blast
  then show ?thesis unfolding contradicts_def list_ex_iff by blast
qed

subsection \<open>What the operations leave alone\<close>

lemma set_lifecycle_frame [simp]:
  "ad_next (set_lifecycle a st reason ob now db) = ad_next db"
  "ad_assets (set_lifecycle a st reason ob now db) = ad_assets db"
  "ad_identifiers (set_lifecycle a st reason ob now db) = ad_identifiers db"
  "ad_observations (set_lifecycle a st reason ob now db) = ad_observations db"
  "ad_links (set_lifecycle a st reason ob now db) = ad_links db"
  "ad_candidates (set_lifecycle a st reason ob now db) = ad_candidates db"
  by (simp_all add: set_lifecycle_def note_lifecycle_def split: option.splits)

lemma on_row_frame [simp]:
  "ad_next (on_candidate i u db) = ad_next db" "ad_assets (on_candidate i u db) = ad_assets db"
  "ad_identifiers (on_candidate i u db) = ad_identifiers db" "ad_observations (on_candidate i u db) = ad_observations db"
  "ad_links (on_candidate i u db) = ad_links db" "ad_states (on_candidate i u db) = ad_states db"
  "ad_events (on_candidate i u db) = ad_events db"
  "ad_next (on_asset i f db) = ad_next db" "ad_identifiers (on_asset i f db) = ad_identifiers db"
  "ad_observations (on_asset i f db) = ad_observations db" "ad_links (on_asset i f db) = ad_links db"
  "ad_states (on_asset i f db) = ad_states db" "ad_events (on_asset i f db) = ad_events db"
  "ad_candidates (on_asset i f db) = ad_candidates db"
  "ad_next (on_observation i g db) = ad_next db" "ad_assets (on_observation i g db) = ad_assets db"
  "ad_identifiers (on_observation i g db) = ad_identifiers db" "ad_links (on_observation i g db) = ad_links db"
  "ad_states (on_observation i g db) = ad_states db" "ad_events (on_observation i g db) = ad_events db"
  "ad_candidates (on_observation i g db) = ad_candidates db"
  by (simp_all add: on_candidate_def on_asset_def on_observation_def)

lemma link_observation_frame [simp]:
  "ad_next (link_observation o' i now db) = ad_next db"
  "ad_identifiers (link_observation o' i now db) = ad_identifiers db"
  "ad_states (link_observation o' i now db) = ad_states db"
  "ad_events (link_observation o' i now db) = ad_events db"
  "ad_candidates (link_observation o' i now db) = ad_candidates db"
  "ad_assets (link_observation o' i now db) = update_where (\<lambda>a. ia_id a = i) (seen o' now) (ad_assets db)"
  "ad_observations (link_observation o' i now db) =
     update_where (\<lambda>x. ob_id x = ob_id o') (\<lambda>x. x\<lparr>ob_matched_asset_id := Some i\<rparr>) (ad_observations db)"
  by (simp_all add: link_observation_def Let_def on_link_def on_asset_def on_observation_def split: option.splits)

lemma merge_identifiers_frame:
  "merge_observation_identifiers str_of o' i db = Inr (db', added, updated) \<Longrightarrow>
   \<exists>rows. db' = db\<lparr>ad_identifiers := rows\<rparr>"
  by (auto simp: merge_observation_identifiers_def res_bind_Inr case_prod_beta)

subsection \<open>The outcome of reconciling\<close>

text \<open>The assets of the observation's site that one of its identifiers of at least this weight names.\<close>

definition named_assets :: "asset_observation \<Rightarrow> (IdentifierType \<times> string) list \<Rightarrow> asset_db \<Rightarrow> int \<Rightarrow> inventory_asset list" where
  "named_assets o' ids db n =
     filter (\<lambda>a. ia_organization_id a = ob_organization_id o' \<and> ia_site_id a = ob_site_id o' \<and>
        shares_identifier db ids a \<and> names_asset ids (identifiers_of db (ia_id a)) n) (ad_assets db)"

text \<open>Those it names strongly and no immutable identifier contradicts.\<close>

definition certain_assets :: "asset_observation \<Rightarrow> (IdentifierType \<times> string) list \<Rightarrow> asset_db \<Rightarrow> inventory_asset list" where
  "certain_assets o' ids db =
     filter (\<lambda>a. \<not> contradicts ids (identifiers_of db (ia_id a))) (named_assets o' ids db AUTO_MERGE_THRESHOLD)"

lemma named_weaker: "m \<le> n \<Longrightarrow> names_asset ids rows n \<Longrightarrow> names_asset ids rows m"
  unfolding names_asset_def list_ex_iff by (meson order_trans)

lemma set_ranked [simp]: "set (ranked rows) = set rows"
  by (simp add: ranked_def)

lemma ranked_empty [simp]: "ranked rows = [] \<longleftrightarrow> rows = []"
  by (metis set_empty set_ranked)

lemma distinct_ranked: "distinct (map f (ranked rows)) = distinct (map f rows)"
  by (simp add: distinct_map ranked_def)

lemma scored_named:
  "map fst (scored_assets o' ids db) = named_assets o' ids db REVIEW_THRESHOLD"
  by (simp add: scored_assets_def named_assets_def Let_def filter_map comp_def score_names REVIEW_THRESHOLD_def
      conj_commute conj_left_commute)

lemma scored_member:
  "(a, s) \<in> set (scored_assets o' ids db) \<longleftrightarrow>
     a \<in> set (named_assets o' ids db REVIEW_THRESHOLD) \<and> s = score_identifiers ids (identifiers_of db (ia_id a))"
  by (auto simp: scored_assets_def named_assets_def Let_def score_names REVIEW_THRESHOLD_def)

lemma certain_member:
  "a \<in> set (certain_assets o' ids db) \<longleftrightarrow>
     (\<exists>s. (a, s) \<in> set (scored_assets o' ids db) \<and> high_confidence (a, s))"
  by (auto simp: scored_member certain_assets_def high_confidence_def conflicts_contradict named_assets_def score_names
      AUTO_MERGE_THRESHOLD_def REVIEW_THRESHOLD_def intro: named_weaker [of 70 95])

definition keys_distinct :: "asset_db \<Rightarrow> bool" where
  "keys_distinct db \<longleftrightarrow>
     distinct (map ia_id (ad_assets db)) \<and> distinct (map ob_id (ad_observations db)) \<and>
     distinct (map rc_id (ad_candidates db)) \<and>
     list_all (\<lambda>a. ia_id a < ad_next db) (ad_assets db) \<and> list_all (\<lambda>x. ob_id x < ad_next db) (ad_observations db) \<and>
     list_all (\<lambda>c. rc_id c < ad_next db) (ad_candidates db) \<and>
     list_all (\<lambda>r. ak_asset_id r < ad_next db) (ad_identifiers db)"

lemma singleton_iff: "distinct xs \<Longrightarrow> xs = [x] \<longleftrightarrow> set xs = {x}"
  by (metis card_length distinct_card distinct_singleton empty_set list.simps(15) length_0_conv length_Suc_conv
      card.empty card_insert_disjoint finite.emptyI empty_iff One_nat_def set_ConsD list.set_intros(1) singletonD)

lemma high_confidence_certain:
  assumes "keys_distinct db"
  shows "map fst (filter high_confidence (ranked (scored_assets o' ids db))) = [a] \<longleftrightarrow> certain_assets o' ids db = [a]"
proof -
  let ?rows = "ranked (scored_assets o' ids db)"
  have "distinct (ad_assets db)" using assms by (simp add: keys_distinct_def distinct_map)
  then have named: "distinct (map fst (scored_assets o' ids db))" and certain: "distinct (certain_assets o' ids db)"
    by (simp_all add: scored_named named_assets_def certain_assets_def)
  have "distinct (map fst ?rows)" using named by (simp add: distinct_ranked)
  then have high: "distinct (map fst (filter high_confidence ?rows))" by (rule distinct_map_filter)
  have "set (map fst (filter high_confidence ?rows)) = set (certain_assets o' ids db)"
    by (force simp: certain_member)
  then show ?thesis using singleton_iff [OF high] singleton_iff [OF certain] by simp
qed

lemma propose_facts:
  assumes "propose o' rows db = (db1, cs)"
  shows "db1 = db\<lparr>ad_next := ad_next db + length rows, ad_candidates := ad_candidates db @ cs\<rparr>"
    and "map rc_asset_id cs = map (ia_id \<circ> fst) rows"
    and "map rc_id cs = [ad_next db..<ad_next db + length rows]"
    and "c \<in> set cs \<Longrightarrow> rc_status c = ReconciliationStatus.PENDING \<and> rc_observation_id c = ob_id o' \<and>
      rc_organization_id c = ob_organization_id o' \<and> rc_site_id c = ob_site_id o' \<and> rc_snapshot c = None"
    and "length (filter high_confidence rows) \<le> 1 \<Longrightarrow> r \<in> set rows \<Longrightarrow>
      \<exists>c \<in> set cs. rc_asset_id c = ia_id (fst r) \<and> rc_conflicts c = sc_conflicts (snd r)"
proof -
  let ?new = "\<lambda>(k, r). new_candidate o' (1 < length (filter high_confidence rows)) (ad_next db + k) r"
  have cs: "cs = map ?new (enumerate 0 rows)"
    and "db1 = db\<lparr>ad_next := ad_next db + length rows, ad_candidates := ad_candidates db @ cs\<rparr>"
    using assms by (auto simp: propose_def Let_def)
  then show "db1 = db\<lparr>ad_next := ad_next db + length rows, ad_candidates := ad_candidates db @ cs\<rparr>" by simp
  show "map rc_asset_id cs = map (ia_id \<circ> fst) rows"
    unfolding cs by (rule nth_equalityI) (auto simp: nth_enumerate_eq new_candidate_def)
  show "map rc_id cs = [ad_next db..<ad_next db + length rows]"
    unfolding cs by (rule nth_equalityI) (auto simp: nth_enumerate_eq new_candidate_def)
  show "c \<in> set cs \<Longrightarrow> rc_status c = ReconciliationStatus.PENDING \<and> rc_observation_id c = ob_id o' \<and>
      rc_organization_id c = ob_organization_id o' \<and> rc_site_id c = ob_site_id o' \<and> rc_snapshot c = None"
    unfolding cs by (auto simp: new_candidate_def)
  show "\<exists>c \<in> set cs. rc_asset_id c = ia_id (fst r) \<and> rc_conflicts c = sc_conflicts (snd r)"
    if few: "length (filter high_confidence rows) \<le> 1" and r: "r \<in> set rows"
  proof -
    obtain k where "k < length rows" "rows ! k = r" using r by (auto simp: in_set_conv_nth)
    then have "?new (k, r) \<in> set cs" unfolding cs by (force simp: in_set_enumerate_eq)
    then show ?thesis using few by (intro bexI [of _ "?new (k, r)"]) (auto simp: new_candidate_def)
  qed
qed

lemma find_key: "distinct (map k xs) \<Longrightarrow> x \<in> set xs \<Longrightarrow> k x = i \<Longrightarrow> find (\<lambda>y. k y = i) xs = Some x"
  using find_by_key [of k xs x] by simp

lemma merge_candidate_returns:
  assumes "rc_status c = ReconciliationStatus.PENDING" and "rc_conflicts c = []"
    and "observation_of db (rc_observation_id c) = Some o'" and "asset_of db (rc_asset_id c) = Some a"
    and "ob_organization_id o' = ia_organization_id a" and "ob_site_id o' = ia_site_id a"
    and "normalize_identifiers str_of (ob_identifiers o') = Inr ids"
    and "\<not> contradicts ids (identifiers_of db (ia_id a))" and "names_asset ids (identifiers_of db (ia_id a)) REVIEW_THRESHOLD"
  shows "\<exists>db'. merge_candidate str_of c status actor now db = Inr db' \<and>
    ad_observations db' =
      update_where (\<lambda>x. ob_id x = ob_id o') (\<lambda>x. x\<lparr>ob_matched_asset_id := Some (ia_id a)\<rparr>) (ad_observations db) \<and>
    ad_assets db' = update_where (\<lambda>x. ia_id x = ia_id a) (seen o' now) (ad_assets db)"
proof -
  have "check_merge str_of c db = Inr (o', a)"
    using assms by (simp add: check_merge_def score_asset_def require_def conflicts_contradict score_names
        REVIEW_THRESHOLD_def)
  moreover obtain db1 added updated where
    "merge_observation_identifiers str_of o' (ia_id a) (link_observation o' (ia_id a) now db) = Inr (db1, added, updated)"
    using assms(7) by (simp add: merge_observation_identifiers_def case_prod_beta) (metis surj_pair)
  moreover from this obtain rows where "db1 = (link_observation o' (ia_id a) now db)\<lparr>ad_identifiers := rows\<rparr>"
    using merge_identifiers_frame by blast
  ultimately show ?thesis by (simp add: merge_candidate_def Let_def)
qed

lemma create_asset_returns:
  assumes "normalize_identifiers str_of (ob_identifiers o') = Inr ids" and "keys_distinct db"
  shows "\<exists>db'. create_asset_from_observation str_of o' now db = Inr (db', ad_next db) \<and>
    ad_assets db' = ad_assets db @ [observed_asset str_of (ad_next db) o'] \<and>
    ad_identifiers db' = ad_identifiers db @ map (observed_identifier (ad_next db) (ob_observed_at o')) ids \<and>
    ad_observations db' = update_where (\<lambda>x. ob_id x = ob_id o') (\<lambda>x. x\<lparr>ob_matched_asset_id := Some (ad_next db)\<rparr>) (ad_observations db)"
proof -
  have "update_where (\<lambda>a. ia_id a = ad_next db) (seen o' now) (ad_assets db) = ad_assets db"
    using assms(2) by (auto simp: update_where_def keys_distinct_def list_all_iff intro!: map_idI)
  moreover have "seen o' now (observed_asset str_of (ad_next db) o') = observed_asset str_of (ad_next db) o'"
    by (simp add: seen_def observed_asset_def later_def)
  ultimately show ?thesis
    using assms(1) by (simp add: create_asset_from_observation_def draw_id_def Let_def update_where_def observed_asset_def)
qed

text \<open>The decision taken for an observation, and the tables after it.\<close>

definition merged_into :: "asset_observation \<Rightarrow> uuid \<Rightarrow> asset_db \<Rightarrow> asset_db \<Rightarrow> bool" where
  "merged_into o' i db db' \<longleftrightarrow>
     observation_of db' (ob_id o') = Some (o'\<lparr>ob_matched_asset_id := Some i\<rparr>) \<and>
     map ia_id (ad_assets db') = map ia_id (ad_assets db)"

definition created_for :: "asset_observation \<Rightarrow> (IdentifierType \<times> string) list \<Rightarrow> asset_db \<Rightarrow> asset_db \<Rightarrow> bool" where
  "created_for o' ids db db' \<longleftrightarrow>
     observation_of db' (ob_id o') = Some (o'\<lparr>ob_matched_asset_id := Some (ad_next db)\<rparr>) \<and>
     map ia_id (ad_assets db') = map ia_id (ad_assets db) @ [ad_next db] \<and>
     ad_identifiers db' = ad_identifiers db @ map (observed_identifier (ad_next db) (ob_observed_at o')) ids"

definition left_for_review :: "asset_observation \<Rightarrow> inventory_asset list \<Rightarrow> asset_db \<Rightarrow> asset_db \<Rightarrow> bool" where
  "left_for_review o' named db db' \<longleftrightarrow>
     ad_assets db' = ad_assets db \<and> ad_identifiers db' = ad_identifiers db \<and> ad_links db' = ad_links db \<and>
     ad_observations db' = ad_observations db \<and>
     (\<exists>cs. ad_candidates db' = ad_candidates db @ cs \<and> set (map rc_asset_id cs) = set (map ia_id named) \<and>
       list_all (\<lambda>c. rc_status c = ReconciliationStatus.PENDING \<and> rc_observation_id c = ob_id o') cs)"

interpretation matching: row_update ob_id "ob_matched_asset_id_update f" for f
  by unfold_locales simp

lemma observation_matched:
  assumes "keys_distinct db" and "o' \<in> set (ad_observations db)"
    and "ad_observations db' = update_where (\<lambda>x. ob_id x = ob_id o') (\<lambda>x. x\<lparr>ob_matched_asset_id := m\<rparr>) (ad_observations db)"
  shows "observation_of db' (ob_id o') = Some (o'\<lparr>ob_matched_asset_id := m\<rparr>)"
  using assms find_by_key [of ob_id "ad_observations db" o']
  by (simp add: observation_of_def matching.find_hit keys_distinct_def)

lemma the_observation: "keys_distinct db \<Longrightarrow> x \<in> set (ad_observations db) \<Longrightarrow> observation_of db (ob_id x) = Some x"
  unfolding observation_of_def keys_distinct_def by (rule find_by_key) simp_all

lemma the_asset: "keys_distinct db \<Longrightarrow> a \<in> set (ad_assets db) \<Longrightarrow> asset_of db (ia_id a) = Some a"
  unfolding asset_of_def keys_distinct_def by (rule find_by_key) simp_all

lemma distinct_scored:
  assumes "keys_distinct db"
  shows "distinct (map (ia_id \<circ> fst) (ranked (scored_assets o' ids db)))"
proof -
  have "map (ia_id \<circ> fst) (scored_assets o' ids db) = map ia_id (named_assets o' ids db REVIEW_THRESHOLD)"
    by (simp only: scored_named [symmetric] map_map)
  then show ?thesis
    using assms by (simp add: distinct_ranked named_assets_def keys_distinct_def distinct_map_filter)
qed

lemma auto_merge_outcome:
  assumes ok: "keys_distinct db" and o': "o' \<in> set (ad_observations db)"
    and ids: "normalize_identifiers str_of (ob_identifiers o') = Inr ids" and certain: "certain_assets o' ids db = [a]"
  shows "\<exists>db'. reconcile_observation str_of o' now db = Inr db' \<and> merged_into o' (ia_id a) db db'"
proof -
  let ?rows = "ranked (scored_assets o' ids db)"
  obtain db1 cs where proposed: "propose o' ?rows db = (db1, cs)" by (metis surj_pair)
  obtain r where high: "filter high_confidence ?rows = [r]" and r: "fst r = a"
    using high_confidence_certain [OF ok, of o' ids a] certain by (auto simp: map_eq_Cons_conv)
  have "r \<in> set (filter high_confidence ?rows)" unfolding high by simp
  then have mem: "r \<in> set ?rows" "high_confidence r" by simp_all
  then have a: "a \<in> set (named_assets o' ids db REVIEW_THRESHOLD)"
    and s: "snd r = score_identifiers ids (identifiers_of db (ia_id a))"
    using r scored_member [of "fst r" "snd r"] by auto
  obtain c where c: "c \<in> set cs" "rc_asset_id c = ia_id a" "rc_conflicts c = []"
    using propose_facts(5) [OF proposed _ mem(1)] mem(2) high r by (auto simp: high_confidence_def)
  note facts = propose_facts(1-3) [OF proposed]
  have "distinct (map rc_asset_id cs)" unfolding facts(2) by (rule distinct_scored [OF ok])
  then have found: "find (\<lambda>x. rc_asset_id x = ia_id a) cs = Some c" by (rule find_key) (use c in simp_all)
  have db1: "observation_of db1 (rc_observation_id c) = Some o'" "asset_of db1 (rc_asset_id c) = Some a"
    "identifiers_of db1 (ia_id a) = identifiers_of db (ia_id a)"
    using the_observation [OF ok o'] the_asset [OF ok, of a] a c(2) propose_facts(4) [OF proposed c(1)]
    by (simp_all add: facts(1) observation_of_def asset_of_def identifiers_of_def named_assets_def)
  have "\<not> contradicts ids (identifiers_of db (ia_id a))" "names_asset ids (identifiers_of db (ia_id a)) REVIEW_THRESHOLD"
    "ob_organization_id o' = ia_organization_id a" "ob_site_id o' = ia_site_id a"
    using mem(2) s a by (auto simp: high_confidence_def conflicts_contradict named_assets_def)
  from merge_candidate_returns [OF _ c(3) db1(1,2) this(3,4) ids, unfolded db1(3), OF _ this(1,2)]
  obtain db' where merge: "merge_candidate str_of c ReconciliationStatus.AUTO_MERGED None now db1 = Inr db'"
    and obs: "ad_observations db' = update_where (\<lambda>x. ob_id x = ob_id o') (\<lambda>x. x\<lparr>ob_matched_asset_id := Some (ia_id a)\<rparr>) (ad_observations db1)"
    and assets: "ad_assets db' = update_where (\<lambda>x. ia_id x = ia_id a) (seen o' now) (ad_assets db1)"
    using propose_facts(4) [OF proposed c(1)] by blast
  have "reconcile_observation str_of o' now db = Inr db'"
    using ids proposed high r found merge by (cases r) (simp add: reconcile_observation_def Let_def)
  moreover have "merged_into o' (ia_id a) db db'"
    using observation_matched [OF ok o'] obs assets
    by (simp add: merged_into_def facts(1) map_update_where seen_def)
  ultimately show ?thesis by blast
qed

lemma other_outcome:
  assumes ok: "keys_distinct db" and o': "o' \<in> set (ad_observations db)"
    and ids: "normalize_identifiers str_of (ob_identifiers o') = Inr ids"
    and unclear: "\<And>a. certain_assets o' ids db \<noteq> [a]"
  shows "\<exists>db'. reconcile_observation str_of o' now db = Inr db' \<and>
    (if named_assets o' ids db REVIEW_THRESHOLD = [] then created_for o' ids db db'
     else left_for_review o' (named_assets o' ids db REVIEW_THRESHOLD) db db')"
proof -
  let ?rows = "ranked (scored_assets o' ids db)"
  obtain db1 cs where proposed: "propose o' ?rows db = (db1, cs)" by (metis surj_pair)
  note facts = propose_facts(1-3) [OF proposed]
  have "filter high_confidence ?rows \<noteq> [r]" for r
    using high_confidence_certain [OF ok, of o' ids "fst r"] unclear by auto
  then have step: "reconcile_observation str_of o' now db =
      (if cs = [] then res_bind (create_asset_from_observation str_of o' now db1) (\<lambda>(db2, i). Inr db2) else Inr db1)"
    using ids proposed by (auto simp: reconcile_observation_def Let_def split: list.splits prod.splits)
  have names: "set (map rc_asset_id cs) = set (map ia_id (named_assets o' ids db REVIEW_THRESHOLD))"
    unfolding facts(2) by (force simp: scored_named [symmetric])
  then have empty: "cs = [] \<longleftrightarrow> named_assets o' ids db REVIEW_THRESHOLD = []" by auto
  show ?thesis
  proof (cases "cs = []")
    case True
    then have db1: "db1 = db" using facts by simp
    obtain db' where "create_asset_from_observation str_of o' now db = Inr (db', ad_next db)"
      and assets: "ad_assets db' = ad_assets db @ [observed_asset str_of (ad_next db) o']"
      and keys: "ad_identifiers db' = ad_identifiers db @ map (observed_identifier (ad_next db) (ob_observed_at o')) ids"
      and obs: "ad_observations db' = update_where (\<lambda>x. ob_id x = ob_id o') (\<lambda>x. x\<lparr>ob_matched_asset_id := Some (ad_next db)\<rparr>) (ad_observations db)"
      using create_asset_returns [OF ids ok] by blast
    moreover from this have "created_for o' ids db db'"
      using observation_matched [OF ok o' obs] by (simp add: created_for_def observed_asset_def)
    ultimately show ?thesis using step True db1 empty by simp
  next
    case False
    then have "left_for_review o' (named_assets o' ids db REVIEW_THRESHOLD) db db1"
      using names propose_facts(4) [OF proposed]
      unfolding left_for_review_def facts(1) by (auto simp: list_all_iff)
    then show ?thesis using step False empty by simp
  qed
qed

end
