(* ===== verification/SplitMerge.thy ===== *)
theory SplitMerge
  imports Reconciled
begin

text \<open>
  A split undoes the merge: the identifiers a merge adds or touches are put back row by row.  The
  condition is that no two identifiers of the asset differ only in case or surrounding blanks.
\<close>

definition identifier_key :: "asset_key \<Rightarrow> IdentifierType \<times> string" where
  "identifier_key r = (ak_type r, canonical_text (ak_value r))"

definition clean_keys :: "uuid \<Rightarrow> asset_key list \<Rightarrow> bool" where
  "clean_keys i rows \<longleftrightarrow>
     distinct (map identifier_key (filter (\<lambda>r. ak_asset_id r = i) rows)) \<and>
     list_all (\<lambda>r. ak_asset_id r = i \<longrightarrow> lower (ak_value r) = canonical_text (ak_value r)) rows"

definition touch :: "uuid \<Rightarrow> time \<Rightarrow> (IdentifierType \<times> string) set \<Rightarrow> asset_key \<Rightarrow> asset_key" where
  "touch i t S r =
     (if ak_asset_id r = i \<and> identifier_key r \<in> S then r\<lparr>ak_last_seen_at := Some (latest (ak_last_seen_at r) t)\<rparr> else r)"

lemma touch_fields [simp]:
  "ak_asset_id (touch i t S r) = ak_asset_id r" "ak_type (touch i t S r) = ak_type r"
  "ak_value (touch i t S r) = ak_value r" "identifier_key (touch i t S r) = identifier_key r"
  by (simp_all add: touch_def identifier_key_def)

lemma clean_unique:
  assumes "clean_keys i rows" and "r \<in> set rows" "s \<in> set rows" "ak_asset_id r = i" "ak_asset_id s = i" "identifier_key r = identifier_key s"
  shows "r = s"
  using assms by (auto simp: clean_keys_def distinct_map dest: inj_onD)

definition known :: "uuid \<Rightarrow> asset_key list \<Rightarrow> (IdentifierType \<times> string) \<Rightarrow> bool" where
  "known i rows e \<longleftrightarrow> list_ex (\<lambda>r. ak_asset_id r = i \<and> identifier_key r = e) rows"

lemma row_for_None: "row_for (filter (\<lambda>r. ak_asset_id r = i) rows) e = None \<longleftrightarrow> \<not> known i rows e"
  by (cases e) (auto simp: row_for_def find_None_iff known_def list_ex_iff identifier_key_def)

lemma row_for_Some:
  assumes "clean_keys i rows"
  shows "row_for (filter (\<lambda>r. ak_asset_id r = i) rows) e = Some r \<longleftrightarrow> r \<in> set rows \<and> ak_asset_id r = i \<and> identifier_key r = e"
proof
  assume "row_for (filter (\<lambda>r. ak_asset_id r = i) rows) e = Some r"
  then show "r \<in> set rows \<and> ak_asset_id r = i \<and> identifier_key r = e"
    by (cases e) (auto simp: row_for_def identifier_key_def dest!: find_SomeD)
next
  assume r: "r \<in> set rows \<and> ak_asset_id r = i \<and> identifier_key r = e"
  then obtain s where s: "row_for (filter (\<lambda>r. ak_asset_id r = i) rows) e = Some s"
    using row_for_None [of i rows e] by (auto simp: known_def list_ex_iff)
  then have "s \<in> set rows \<and> ak_asset_id s = i \<and> identifier_key s = e"
    by (cases e) (auto simp: row_for_def identifier_key_def dest!: find_SomeD)
  then show "row_for (filter (\<lambda>r. ak_asset_id r = i) rows) e = Some r"
    using s clean_unique [OF assms, of s r] r by simp
qed

text \<open>What the snapshot records of an identifier that the merge touches.\<close>

definition change_of :: "uuid \<Rightarrow> time \<Rightarrow> asset_key list \<Rightarrow> IdentifierType \<times> string \<Rightarrow> (IdentifierType \<times> string \<times> time option) option" where
  "change_of i t rows e =
     (case row_for (filter (\<lambda>r. ak_asset_id r = i) rows) e of
        None \<Rightarrow> None
      | Some r \<Rightarrow> if ak_last_seen_at r = Some (latest (ak_last_seen_at r) t) then None
                  else Some (fst e, snd e, ak_last_seen_at r))"

lemma key_observed: "canonical_item e \<Longrightarrow> identifier_key (observed_identifier i t e) = e"
  by (cases e) (simp add: identifier_key_def observed_identifier_def canonical_item_def)

lemma same_row_key: "same_row r s \<Longrightarrow> identifier_key s = identifier_key r \<and> ak_asset_id s = ak_asset_id r"
  by (simp add: same_row_def identifier_key_def)

lemma touch_insert:
  assumes "clean_keys i rows" and "r \<in> set rows" "ak_asset_id r = i" "s \<in> set rows"
  shows "(if same_row r (touch i t S s) then (touch i t S s)\<lparr>ak_last_seen_at := Some (latest (ak_last_seen_at r) t)\<rparr>
          else touch i t S s) = touch i t (insert (identifier_key r) S) s"
proof (cases "same_row r (touch i t S s)")
  case True
  then have "r = s" using same_row_key [OF True] clean_unique [OF assms(1,2,4)] assms(3) by simp
  then show ?thesis using True assms(3) by (simp add: touch_def)
next
  case False
  have "s \<noteq> r" using False by (auto simp: same_row_def)
  then have "ak_asset_id s \<noteq> i \<or> identifier_key s \<noteq> identifier_key r" using clean_unique [OF assms(1,4,2)] assms(3) by auto
  then show ?thesis using False by (auto simp: touch_def)
qed

lemma merge_closed:
  assumes clean: "clean_keys i rows" and "list_all canonical_item (ids @ added)" and "list_all (\<lambda>e. \<not> known i rows e) added"
  shows "fold (merge_identifier (filter (\<lambda>r. ak_asset_id r = i) rows) i t) ids
      (map (touch i t S) rows @ map (observed_identifier i t) added, added, updated) =
    (map (touch i t (S \<union> {e \<in> set ids. known i rows e})) rows
       @ map (observed_identifier i t) (added @ filter (\<lambda>e. \<not> known i rows e) ids),
     added @ filter (\<lambda>e. \<not> known i rows e) ids, updated @ List.map_filter (change_of i t rows) ids)"
  using assms(2,3)
proof (induction ids arbitrary: S added updated)
  case (Cons e ids)
  show ?case
  proof (cases "known i rows e")
    case False
    then have "row_for (filter (\<lambda>r. ak_asset_id r = i) rows) e = None" by (simp add: row_for_None)
    then have step: "merge_identifier (filter (\<lambda>r. ak_asset_id r = i) rows) i t e
        (map (touch i t S) rows @ map (observed_identifier i t) added, added, updated) =
        (map (touch i t S) rows @ map (observed_identifier i t) (added @ [e]), added @ [e], updated)"
      and "change_of i t rows e = None"
      by (simp_all add: merge_identifier_def change_of_def)
    moreover have "{e' \<in> set (e # ids). known i rows e'} = {e' \<in> set ids. known i rows e'}" using False by auto
    ultimately show ?thesis using False Cons.prems Cons.IH [of "added @ [e]" S updated] by (simp add: map_filter_simps)
  next
    case True
    then obtain r where row: "row_for (filter (\<lambda>r. ak_asset_id r = i) rows) e = Some r"
      using row_for_None [of i rows e] by (cases "row_for (filter (\<lambda>r. ak_asset_id r = i) rows) e") auto
    then have r: "r \<in> set rows" "ak_asset_id r = i" "identifier_key r = e" by (simp_all add: row_for_Some [OF clean])
    have "\<not> same_row r (observed_identifier i t a)" if "a \<in> set added" for a
    proof
      assume "same_row r (observed_identifier i t a)"
      then have "identifier_key r = a" using same_row_key key_observed [of a i t] that Cons.prems(1) by (auto simp: list_all_iff)
      then show False using r that Cons.prems(2) by (auto simp: list_all_iff known_def list_ex_iff)
    qed
    then have "update_where (same_row r) (\<lambda>s. s\<lparr>ak_last_seen_at := Some (latest (ak_last_seen_at r) t)\<rparr>)
        (map (touch i t S) rows @ map (observed_identifier i t) added) =
        map (touch i t (insert e S)) rows @ map (observed_identifier i t) added"
      using touch_insert [OF clean r(1,2)] r(3) by (simp add: update_where_def)
    then have step: "merge_identifier (filter (\<lambda>r. ak_asset_id r = i) rows) i t e
        (map (touch i t S) rows @ map (observed_identifier i t) added, added, updated) =
        (map (touch i t (insert e S)) rows @ map (observed_identifier i t) added, added,
         updated @ List.map_filter (change_of i t rows) [e])"
      by (simp add: merge_identifier_def row change_of_def map_filter_simps Let_def)
    moreover have "insert e S \<union> {e' \<in> set ids. known i rows e'} = S \<union> {e' \<in> set (e # ids). known i rows e'}"
      using True by auto
    ultimately show ?thesis
      using True Cons.prems Cons.IH [of added "insert e S" "updated @ List.map_filter (change_of i t rows) [e]"]
      by (simp add: map_filter_simps split: option.splits)
  qed
qed (simp add: map_filter_simps)

subsection \<open>Putting back\<close>

lemma canonical_lower: "canonical_item e \<Longrightarrow> lower (snd e) = snd e"
  by (metis canonical_item_def canonical_text_def lower_lower)

lemma lower_key:
  "clean_keys i rows \<Longrightarrow> r \<in> set rows \<Longrightarrow> ak_asset_id r = i \<Longrightarrow> lower (ak_value r) = snd (identifier_key r)"
  by (auto simp: clean_keys_def list_all_iff identifier_key_def)

lemma split_row_touched:
  assumes "clean_keys i rows" and "r \<in> set rows" "ak_asset_id r = i"
  shows "split_row (map (touch i t S) rows) i (fst (identifier_key r)) (snd (identifier_key r)) = Some (touch i t S r)"
proof -
  have "(\<lambda>s. ak_asset_id s = i \<and> ak_type s = fst (identifier_key r) \<and> lower (ak_value s) = snd (identifier_key r)) (touch i t S r)"
    using lower_key [OF assms] assms(3) by (simp add: identifier_key_def)
  then obtain s' where found: "split_row (map (touch i t S) rows) i (fst (identifier_key r)) (snd (identifier_key r)) = Some s'"
    using assms(2) unfolding split_row_def by (cases "find (\<lambda>s. ak_asset_id s = i \<and> ak_type s = fst (identifier_key r) \<and>
      lower (ak_value s) = snd (identifier_key r)) (map (touch i t S) rows)") (auto simp: find_None_iff)
  then have s': "s' \<in> touch i t S ` set rows" "ak_asset_id s' = i" "ak_type s' = fst (identifier_key r)"
      "lower (ak_value s') = snd (identifier_key r)"
    using find_SomeD [OF found [unfolded split_row_def]] by simp_all
  then obtain s where "s \<in> set rows" "s' = touch i t S s" by blast
  then have s: "s \<in> set rows" "s' = touch i t S s" "ak_asset_id s = i" "ak_type s = fst (identifier_key r)"
      "lower (ak_value s) = snd (identifier_key r)"
    using s' by simp_all
  then have "identifier_key s = identifier_key r" using lower_key [OF assms(1) s(1,3)] by (simp add: identifier_key_def)
  then show ?thesis using clean_unique [OF assms(1) s(1) assms(2) s(3) assms(3)] s(2) found by simp
qed

lemma split_row_unknown:
  assumes "clean_keys i rows" and "\<not> known i rows e"
  shows "split_row (map (touch i t S) rows) i (fst e) (snd e) = None"
proof -
  have "\<not> (ak_asset_id s = i \<and> ak_type s = fst e \<and> lower (ak_value s) = snd e)" if "s \<in> set rows" for s
    using lower_key [OF assms(1) that] assms(2) that by (auto simp: known_def list_ex_iff identifier_key_def prod_eq_iff)
  then show ?thesis by (auto simp: split_row_def find_None_iff)
qed

lemma find_skip: "\<forall>x \<in> set xs. \<not> P x \<Longrightarrow> P y \<Longrightarrow> find P (xs @ y # ys) = Some y"
  by (induction xs) auto

lemma remove_one_added:
  assumes clean: "clean_keys i rows" and e: "canonical_item e" "\<not> known i rows e" "e \<notin> set es" "list_all canonical_item es"
  shows "remove_added i t e (map (touch i t S) rows @ map (observed_identifier i t) (e # es)) =
    map (touch i t S) rows @ map (observed_identifier i t) es"
proof -
  have "split_row (map (touch i t S) rows @ map (observed_identifier i t) (e # es)) i (fst e) (snd e) =
      Some (observed_identifier i t e)"
    unfolding split_row_def list.map
  proof (rule find_skip)
    show "\<forall>s \<in> set (map (touch i t S) rows). \<not> (ak_asset_id s = i \<and> ak_type s = fst e \<and> lower (ak_value s) = snd e)"
      using split_row_unknown [OF clean e(2), of t S] by (simp add: split_row_def find_None_iff)
  qed (simp add: observed_identifier_def canonical_lower [OF e(1)])
  moreover have "\<not> same_row (observed_identifier i t e) (touch i t S s)" if "s \<in> set rows" for s
    using e(2) that same_row_key [of "observed_identifier i t e" "touch i t S s"] key_observed [OF e(1), of i t]
    by (auto simp: known_def list_ex_iff observed_identifier_def)
  moreover have "\<not> same_row (observed_identifier i t e) (observed_identifier i t a)" if "a \<in> set es" for a
    using e(3,4) that same_row_key [of "observed_identifier i t e" "observed_identifier i t a"] key_observed [OF e(1), of i t]
      key_observed [of a i t] by (auto simp: list_all_iff)
  ultimately show ?thesis
    by (simp add: remove_added_def observed_identifier_def same_row_def filter_id_conv)
qed

lemma remove_all_added:
  assumes "clean_keys i rows"
  shows "list_all canonical_item es \<Longrightarrow> distinct es \<Longrightarrow> list_all (\<lambda>e. \<not> known i rows e) es \<Longrightarrow>
    fold (remove_added i t) es (map (touch i t S) rows @ map (observed_identifier i t) es) = map (touch i t S) rows"
  using remove_one_added [OF assms] by (induction es) simp_all

text \<open>The rows are as before except those whose changes are still to be restored.\<close>

lemma restore_one:
  assumes clean: "clean_keys i rows" and change: "change_of i t rows e = Some u" and "e \<notin> S"
  shows "restore_updated i t u (map (touch i t (insert e S)) rows) = map (touch i t S) rows"
proof -
  obtain r where row: "row_for (filter (\<lambda>r. ak_asset_id r = i) rows) e = Some r"
    and last: "ak_last_seen_at r \<noteq> Some (latest (ak_last_seen_at r) t)" and u: "u = (fst e, snd e, ak_last_seen_at r)"
    using change by (auto simp: change_of_def split: option.splits if_splits)
  have r: "r \<in> set rows" "ak_asset_id r = i" "identifier_key r = e" using row by (simp_all add: row_for_Some [OF clean])
  have late: "latest (ak_last_seen_at r) t = t"
    using last by (auto simp: latest_def later_def split: option.splits if_splits)
  have found: "split_row (map (touch i t (insert e S)) rows) i (fst e) (snd e) = Some (touch i t (insert e S) r)"
    using split_row_touched [OF clean r(1,2)] r(3) by simp
  have "ak_last_seen_at (touch i t (insert e S) r) = Some t" using r late by (simp add: touch_def)
  then have "restore_updated i t u (map (touch i t (insert e S)) rows) =
      update_where (same_row (touch i t (insert e S) r)) (\<lambda>x. x\<lparr>ak_last_seen_at := ak_last_seen_at r\<rparr>)
        (map (touch i t (insert e S)) rows)"
    by (simp add: restore_updated_def u found)
  moreover have "(if same_row (touch i t (insert e S) r) (touch i t (insert e S) s)
      then (touch i t (insert e S) s)\<lparr>ak_last_seen_at := ak_last_seen_at r\<rparr> else touch i t (insert e S) s) = touch i t S s"
    if "s \<in> set rows" for s
  proof (cases "s = r")
    case True
    then show ?thesis using r assms(3) by (simp add: touch_def same_row_def)
  next
    case False
    then have "\<not> (ak_asset_id s = i \<and> identifier_key s = e)" using clean_unique [OF clean that r(1)] r by auto
    moreover from this have "\<not> same_row (touch i t (insert e S) r) (touch i t (insert e S) s)"
      using same_row_key [of "touch i t (insert e S) r" "touch i t (insert e S) s"] r by auto
    ultimately show ?thesis by (auto simp: touch_def)
  qed
  ultimately show ?thesis by (simp add: update_where_def)
qed

lemma restore_all:
  assumes clean: "clean_keys i rows"
  shows "distinct ids \<Longrightarrow>
    fold (restore_updated i t) (List.map_filter (change_of i t rows) ids) (map (touch i t {e \<in> set ids. known i rows e}) rows) =
    rows"
proof (induction ids)
  case Nil
  have "touch i t {} r = r" for r by (simp add: touch_def)
  then show ?case by (simp add: map_filter_simps)
next
  case (Cons e ids)
  let ?S = "{e' \<in> set ids. known i rows e'}"
  show ?case
  proof (cases "change_of i t rows e")
    case None
    have same: "map (touch i t {e' \<in> set (e # ids). known i rows e'}) rows = map (touch i t ?S) rows"
    proof (rule map_cong [OF refl])
      fix r assume r: "r \<in> set rows"
      have "ak_last_seen_at r = Some (latest (ak_last_seen_at r) t)" if "ak_asset_id r = i" "identifier_key r = e"
        using None row_for_Some [OF clean, of e r] r that by (auto simp: change_of_def split: if_splits)
      then show "touch i t {e' \<in> set (e # ids). known i rows e'} r = touch i t ?S r" by (auto simp: touch_def)
    qed
    show ?thesis unfolding same using None Cons by (simp add: map_filter_simps)
  next
    case (Some u)
    then have "known i rows e"
      using row_for_None [of i rows e] by (auto simp: change_of_def split: option.splits)
    then have "{e' \<in> set (e # ids). known i rows e'} = insert e ?S" by auto
    then show ?thesis
      using restore_one [OF clean Some, of ?S] Cons Some by (simp add: map_filter_simps)
  qed
qed

subsection \<open>The tables after a merge\<close>

lemma touch_none: "map (touch i t {}) rows = rows"
  by (simp add: touch_def map_idI)

lemma merged_identifiers:
  assumes "clean_keys i rows" and "canonical_list ids"
  shows "fold (merge_identifier (filter (\<lambda>r. ak_asset_id r = i) rows) i t) ids (rows, [], []) =
    (map (touch i t {e \<in> set ids. known i rows e}) rows
       @ map (observed_identifier i t) (filter (\<lambda>e. \<not> known i rows e) ids),
     filter (\<lambda>e. \<not> known i rows e) ids, List.map_filter (change_of i t rows) ids)"
  using merge_closed [OF assms(1), of ids "[]" t "{}" "[]"] assms(2)
  by (simp add: canonical_list_def touch_none)

lemma split_identifiers_back:
  assumes clean: "clean_keys i rows" and ids: "canonical_list ids"
    and m: "mg_added m = filter (\<lambda>e. \<not> known i rows e) ids" "mg_updated m = List.map_filter (change_of i t rows) ids"
  shows "split_identifiers (Some m) i t
      (map (touch i t {e \<in> set ids. known i rows e}) rows
         @ map (observed_identifier i t) (filter (\<lambda>e. \<not> known i rows e) ids)) = rows"
proof -
  have "list_all canonical_item (filter (\<lambda>e. \<not> known i rows e) ids)" "distinct (filter (\<lambda>e. \<not> known i rows e) ids)"
    using ids by (simp_all add: canonical_list_def list_all_iff)
  then show ?thesis
    using remove_all_added [OF clean] restore_all [OF clean, of ids] ids
    by (simp add: split_identifiers_def m canonical_list_def list_all_iff)
qed

definition snapshot_of :: "asset_db \<Rightarrow> asset_observation \<Rightarrow> inventory_asset \<Rightarrow> (IdentifierType \<times> string) list \<Rightarrow> merge_snapshot" where
  "snapshot_of db o' a ids =
     \<lparr>mg_prior_matched = ob_matched_asset_id o',
      mg_prior_link = link_of db (ob_connector_id o') (ob_source_record_id o'),
      mg_prior_last_seen = ia_last_seen_at a,
      mg_added = filter (\<lambda>e. \<not> known (ia_id a) (ad_identifiers db) e) ids,
      mg_updated = List.map_filter (change_of (ia_id a) (ob_observed_at o') (ad_identifiers db)) ids\<rparr>"

lemma merged_tables:
  assumes "merge_candidate str_of c status actor now db = Inr db1"
    and "observation_of db (rc_observation_id c) = Some o'" and "asset_of db (rc_asset_id c) = Some a"
    and "normalize_identifiers str_of (ob_identifiers o') = Inr ids" and "clean_keys (ia_id a) (ad_identifiers db)"
  shows "ad_next db1 = ad_next db"
    and "ad_assets db1 = update_where (\<lambda>x. ia_id x = ia_id a) (seen o' now) (ad_assets db)"
    and "ad_observations db1 =
      update_where (\<lambda>x. ob_id x = ob_id o') (\<lambda>x. x\<lparr>ob_matched_asset_id := Some (ia_id a)\<rparr>) (ad_observations db)"
    and "ad_links db1 = ad_links (link_observation o' (ia_id a) now db)"
    and "ad_identifiers db1 =
      map (touch (ia_id a) (ob_observed_at o') {e \<in> set ids. known (ia_id a) (ad_identifiers db) e}) (ad_identifiers db)
        @ map (observed_identifier (ia_id a) (ob_observed_at o')) (filter (\<lambda>e. \<not> known (ia_id a) (ad_identifiers db) e) ids)"
    and "ad_candidates db1 =
      update_where (\<lambda>x. rc_id x = rc_id c) (merged (snapshot_of db o' a ids) status actor now) (ad_candidates db)"
proof -
  have "check_merge str_of c db = Inr (o', a)"
    using assms(1-3) by (auto simp: merge_candidate_def check_merge_def res_bind_Inr split: option.splits)
  moreover have "merge_observation_identifiers str_of o' (ia_id a) (link_observation o' (ia_id a) now db) =
      Inr ((link_observation o' (ia_id a) now db)\<lparr>ad_identifiers :=
             map (touch (ia_id a) (ob_observed_at o') {e \<in> set ids. known (ia_id a) (ad_identifiers db) e}) (ad_identifiers db)
               @ map (observed_identifier (ia_id a) (ob_observed_at o')) (filter (\<lambda>e. \<not> known (ia_id a) (ad_identifiers db) e) ids)\<rparr>,
           mg_added (snapshot_of db o' a ids), mg_updated (snapshot_of db o' a ids))"
    using assms(4) merged_identifiers [OF assms(5) normalize_canonical [OF assms(4)], of "ob_observed_at o'"]
    by (simp add: merge_observation_identifiers_def identifiers_of_def snapshot_of_def)
  ultimately have db1: "db1 = on_candidate (rc_id c) (merged (snapshot_of db o' a ids) status actor now)
      (set_lifecycle a (reconciled_state a) ''passive observation reconciled'' (Some (ob_id o')) now
        ((link_observation o' (ia_id a) now db)\<lparr>ad_identifiers :=
          map (touch (ia_id a) (ob_observed_at o') {e \<in> set ids. known (ia_id a) (ad_identifiers db) e}) (ad_identifiers db)
            @ map (observed_identifier (ia_id a) (ob_observed_at o')) (filter (\<lambda>e. \<not> known (ia_id a) (ad_identifiers db) e) ids)\<rparr>))"
    using assms(1) by (simp add: merge_candidate_def Let_def snapshot_of_def)
  show "ad_next db1 = ad_next db"
    and "ad_assets db1 = update_where (\<lambda>x. ia_id x = ia_id a) (seen o' now) (ad_assets db)"
    and "ad_observations db1 =
      update_where (\<lambda>x. ob_id x = ob_id o') (\<lambda>x. x\<lparr>ob_matched_asset_id := Some (ia_id a)\<rparr>) (ad_observations db)"
    and "ad_links db1 = ad_links (link_observation o' (ia_id a) now db)"
    and "ad_identifiers db1 =
      map (touch (ia_id a) (ob_observed_at o') {e \<in> set ids. known (ia_id a) (ad_identifiers db) e}) (ad_identifiers db)
        @ map (observed_identifier (ia_id a) (ob_observed_at o')) (filter (\<lambda>e. \<not> known (ia_id a) (ad_identifiers db) e) ids)"
    and "ad_candidates db1 =
      update_where (\<lambda>x. rc_id x = rc_id c) (merged (snapshot_of db o' a ids) status actor now) (ad_candidates db)"
    unfolding db1 by (simp_all add: on_candidate_def [of _ _ "set_lifecycle _ _ _ _ _ _"])
qed

subsection \<open>A split after a merge\<close>

definition links_distinct :: "asset_db \<Rightarrow> bool" where
  "links_distinct db \<longleftrightarrow> distinct (map (\<lambda>l. (sl_connector_id l, sl_source_record_id l)) (ad_links db))"

lemma link_unique:
  assumes "links_distinct db" and "link_of db n k = Some l" and "x \<in> set (ad_links db)"
    and "sl_connector_id x = n" "sl_source_record_id x = k"
  shows "x = l"
  using find_SomeD [OF assms(2) [unfolded link_of_def]] assms(1,3-5)
  by (auto simp: links_distinct_def distinct_map dest: inj_onD)

lemma seen_unseen:
  "ia_last_seen_at a = Some p \<Longrightarrow> unseen (Some (snapshot_of db o' a ids)) o'' (seen o' now a) = a"
  if "ob_observed_at o'' = ob_observed_at o'"
  using that by (simp add: unseen_def seen_def snapshot_of_def latest_def Let_def)

lemma linked:
  "ad_links (link_observation o' i now db) =
     (case link_of db (ob_connector_id o') (ob_source_record_id o') of
        None \<Rightarrow> ad_links db @ [new_source_link o' i]
      | Some l \<Rightarrow> update_where (\<lambda>x. sl_connector_id x = ob_connector_id o' \<and>
          sl_source_record_id x = ob_source_record_id o') (relinked o' i) (ad_links db))"
  by (simp add: link_observation_def Let_def on_link_def split: option.split)

lemma links_restored:
  assumes "links_distinct db" and "link_of db (ob_connector_id o') (ob_source_record_id o') = Some l"
  shows "update_where (\<lambda>x. sl_connector_id x = ob_connector_id o' \<and> sl_source_record_id x = ob_source_record_id o')
      (restored_link l) (ad_links (link_observation o' i now db)) = ad_links db"
proof -
  have "restored_link l (relinked o' i x) = x"
    if "x \<in> set (ad_links db)" "sl_connector_id x = ob_connector_id o'" "sl_source_record_id x = ob_source_record_id o'" for x
    using link_unique [OF assms that] by (simp add: restored_link_def relinked_def)
  moreover have "sl_connector_id (relinked o' i x) = sl_connector_id x" "sl_source_record_id (relinked o' i x) = sl_source_record_id x" for x
    by (simp_all add: relinked_def)
  ultimately show ?thesis using assms(2) by (auto simp: linked update_where_def intro!: map_idI)
qed

lemma links_removed:
  assumes "link_of db (ob_connector_id o') (ob_source_record_id o') = None"
  shows "filter (\<lambda>x. \<not> (sl_connector_id x = ob_connector_id o' \<and> sl_source_record_id x = ob_source_record_id o'))
      (ad_links (link_observation o' i now db)) = ad_links db"
proof -
  have "\<not> (sl_connector_id x = ob_connector_id o' \<and> sl_source_record_id x = ob_source_record_id o')"
    if "x \<in> set (ad_links db)" for x
    using assms that unfolding link_of_def find_None_iff by blast
  then show ?thesis using assms by (simp add: linked new_source_link_def filter_id_conv)
qed

lemma updated_twice:
  assumes "\<And>x. P x \<Longrightarrow> P (f x)"
  shows "update_where P g (update_where P f xs) = update_where P (g \<circ> f) xs"
  using assms by (auto simp: update_where_def)

lemma update_where_append: "update_where P f (xs @ ys) = update_where P f xs @ update_where P f ys"
  by (simp add: update_where_def)

lemma update_where_same: "(\<And>x. x \<in> set xs \<Longrightarrow> P x \<Longrightarrow> f x = x) \<Longrightarrow> update_where P f xs = xs"
  by (auto simp: update_where_def intro: map_idI)

lemma key_determines:
  "distinct (map k xs) \<Longrightarrow> find (\<lambda>x. k x = i) xs = Some y \<Longrightarrow> x \<in> set xs \<Longrightarrow> k x = i \<Longrightarrow> x = y"
  by (auto simp: distinct_map dest!: find_SomeD inj_onD)

text \<open>The source mapping before the merge can be restored: the asset of the previous link is still there.\<close>

definition prior_mapping_usable :: "asset_observation \<Rightarrow> asset_db \<Rightarrow> bool" where
  "prior_mapping_usable o' db \<longleftrightarrow>
     (case link_of db (ob_connector_id o') (ob_source_record_id o') of
        None \<Rightarrow> True
      | Some l \<Rightarrow>
          (case asset_of db (sl_asset_id l) of
             None \<Rightarrow> False
           | Some q \<Rightarrow> ia_organization_id q = ob_organization_id o' \<and> ia_site_id q = ob_site_id o'))"

text \<open>The tables after a split: those before the merge, or the observation has an asset of its own.\<close>

definition mapping_restored :: "asset_db \<Rightarrow> asset_db \<Rightarrow> bool" where
  "mapping_restored db db' \<longleftrightarrow>
     ad_assets db' = ad_assets db \<and> ad_identifiers db' = ad_identifiers db \<and>
     ad_observations db' = ad_observations db \<and> ad_links db' = ad_links db"

definition given_own_asset ::
  "(json \<Rightarrow> string) \<Rightarrow> asset_observation \<Rightarrow> (IdentifierType \<times> string) list \<Rightarrow> asset_db \<Rightarrow> asset_db \<Rightarrow> bool" where
  "given_own_asset str_of o' ids db db' \<longleftrightarrow>
     ad_assets db' = ad_assets db @ [observed_asset str_of (ad_next db) o'] \<and>
     ad_identifiers db' = ad_identifiers db @ map (observed_identifier (ad_next db) (ob_observed_at o')) ids \<and>
     ad_links db' = ad_links db @ [new_source_link o' (ad_next db)] \<and>
     ad_observations db' =
       update_where (\<lambda>x. ob_id x = ob_id o') (\<lambda>x. x\<lparr>ob_matched_asset_id := Some (ad_next db)\<rparr>) (ad_observations db)"

interpretation sighting: row_update ia_id "seen o' now" for o' now
  by unfold_locales (simp add: seen_def)

lemma still_linked:
  assumes "link_of db (ob_connector_id o') (ob_source_record_id o') = Some l"
    and "ad_links db2 = ad_links (link_observation o' i now db)"
  shows "\<exists>l'. link_of db2 (ob_connector_id o') (ob_source_record_id o') = Some l'"
proof -
  have l: "l \<in> set (ad_links db)" "sl_connector_id l = ob_connector_id o'" "sl_source_record_id l = ob_source_record_id o'"
    using find_SomeD [OF assms(1) [unfolded link_of_def]] by simp_all
  then have "relinked o' i l \<in> set (ad_links db2)" using assms by (simp add: linked set_update_where)
  moreover have "sl_connector_id (relinked o' i l) = ob_connector_id o' \<and> sl_source_record_id (relinked o' i l) = ob_source_record_id o'"
    using l by (simp add: relinked_def)
  ultimately have "link_of db2 (ob_connector_id o') (ob_source_record_id o') \<noteq> None"
    unfolding link_of_def find_None_iff by blast
  then show ?thesis by blast
qed

lemma prior_mapping_restored:
  assumes "links_distinct db" and "keys_distinct db" and "o' \<in> set (ad_observations db)"
    and prior: "link_of db (ob_connector_id o') (ob_source_record_id o') = Some l" "prior_mapping_usable o' db"
    and db2: "ad_assets db2 = ad_assets db" "ad_identifiers db2 = ad_identifiers db"
      "ad_links db2 = ad_links (link_observation o' i now db)"
      "ad_observations db2 = update_where (\<lambda>x. ob_id x = ob_id o') (\<lambda>x. x\<lparr>ob_matched_asset_id := Some i\<rparr>) (ad_observations db)"
    and m: "mg_prior_link m = Some l" "mg_prior_matched m = ob_matched_asset_id o'"
  shows "\<exists>db3. restore_mapping str_of (o'\<lparr>ob_matched_asset_id := Some i\<rparr>) (Some m) t db2 = Inr (db3, sl_asset_id l) \<and>
    mapping_restored db db3"
proof -
  obtain q where q: "asset_of db2 (sl_asset_id l) = Some q" "ia_organization_id q = ob_organization_id o'" "ia_site_id q = ob_site_id o'"
    using prior db2(1) by (auto simp: prior_mapping_usable_def asset_of_def split: option.splits)
  obtain l' where l': "link_of db2 (ob_connector_id o') (ob_source_record_id o') = Some l'"
    using still_linked [OF prior(1) db2(3)] by blast
  have id: "ia_id q = sl_asset_id l" using find_SomeD [OF q(1) [unfolded asset_of_def]] by simp
  let ?db3 = "on_observation (ob_id o') (\<lambda>x. x\<lparr>ob_matched_asset_id := ob_matched_asset_id o'\<rparr>)
    (on_link o' (restored_link l) db2)"
  have "on_link (o'\<lparr>ob_matched_asset_id := Some i\<rparr>) = on_link o'" by (simp add: on_link_def fun_eq_iff)
  then have run: "restore_mapping str_of (o'\<lparr>ob_matched_asset_id := Some i\<rparr>) (Some m) t db2 = Inr (?db3, sl_asset_id l)"
    using q l' id by (simp add: restore_mapping_def m Let_def)
  have "x = o'" if "x \<in> set (ad_observations db)" "ob_id x = ob_id o'" for x
    using assms(2,3) that by (auto simp: keys_distinct_def distinct_map dest: inj_onD)
  then have "ad_observations ?db3 = ad_observations db"
    by (simp add: on_observation_def on_link_def db2(4) updated_twice) (rule update_where_same, force)
  moreover have "ad_links ?db3 = ad_links db"
    using links_restored [OF assms(1) prior(1)] by (simp add: on_link_def db2(3))
  ultimately have "mapping_restored db ?db3" using db2(1,2) by (simp add: mapping_restored_def on_link_def)
  then show ?thesis using run by blast
qed

lemma own_asset_given:
  assumes "keys_distinct db" and ids: "normalize_identifiers str_of (ob_identifiers o') = Inr ids"
    and prior: "link_of db (ob_connector_id o') (ob_source_record_id o') = None"
    and db2: "ad_assets db2 = ad_assets db" "ad_identifiers db2 = ad_identifiers db" "ad_next db2 = ad_next db"
      "ad_links db2 = ad_links (link_observation o' i now db)"
      "ad_observations db2 = update_where (\<lambda>x. ob_id x = ob_id o') (\<lambda>x. x\<lparr>ob_matched_asset_id := Some i\<rparr>) (ad_observations db)"
    and m: "mg_prior_link m = None"
  shows "\<exists>db3. restore_mapping str_of (o'\<lparr>ob_matched_asset_id := Some i\<rparr>) (Some m) t db2 = Inr (db3, ad_next db) \<and>
    given_own_asset str_of o' ids db db3"
proof -
  let ?o = "o'\<lparr>ob_matched_asset_id := None\<rparr>"
  let ?db = "on_observation (ob_id o') (\<lambda>x. x\<lparr>ob_matched_asset_id := None\<rparr>) (db2\<lparr>ad_links := ad_links db\<rparr>)"
  have fresh: "update_where (\<lambda>a. ia_id a = ad_next db) (seen ?o t) (ad_assets db) = ad_assets db"
    using assms(1) by (auto simp: keys_distinct_def list_all_iff intro!: update_where_same)
  have run: "restore_mapping str_of (o'\<lparr>ob_matched_asset_id := Some i\<rparr>) (Some m) t db2 =
      create_asset_from_observation str_of ?o t ?db"
    using links_removed [OF prior] by (simp add: restore_mapping_def m db2(4))
  have "observed_asset str_of j ?o = observed_asset str_of j o'" for j by (simp add: observed_asset_def observed_name_def)
  moreover have "new_source_link ?o j = new_source_link o' j" for j by (simp add: new_source_link_def)
  moreover have "seen ?o t (observed_asset str_of j o') = observed_asset str_of j o'" for j
    by (simp add: seen_def observed_asset_def later_def)
  moreover have "ia_id (observed_asset str_of j o') = j" for j by (simp add: observed_asset_def)
  moreover have "link_of db' (ob_connector_id o') (ob_source_record_id o') = None" if "ad_links db' = ad_links db" for db'
    using prior that by (simp add: link_of_def)
  ultimately have "\<exists>db3. create_asset_from_observation str_of ?o t ?db = Inr (db3, ad_next db) \<and>
      given_own_asset str_of o' ids db db3"
    using ids fresh
    by (simp add: create_asset_from_observation_def draw_id_def Let_def given_own_asset_def linked db2 on_observation_def
        update_where_append updated_twice comp_def)
  then show ?thesis using run by simp
qed

interpretation merging: row_update rc_id "merged m status actor now" for m status actor now
  by unfold_locales (simp add: merged_def)

lemma split_of_merge:
  assumes ok: "keys_distinct db" and c: "c \<in> set (ad_candidates db)"
    and o': "observation_of db (rc_observation_id c) = Some o'" and a: "asset_of db (rc_asset_id c) = Some a"
    and clean: "clean_keys (ia_id a) (ad_identifiers db)" and ids: "normalize_identifiers str_of (ob_identifiers o') = Inr ids"
    and merge: "merge_candidate str_of c status actor now db = Inr db1"
    and status: "status \<in> {ReconciliationStatus.APPROVED, ReconciliationStatus.AUTO_MERGED}"
  shows "find (\<lambda>x. rc_id x = rc_id c) (ad_candidates db1) = Some (merged (snapshot_of db o' a ids) status actor now c)"
    and "split_candidate str_of (merged (snapshot_of db o' a ids) status actor now c) user t db1 =
      res_bind (restore_mapping str_of (o'\<lparr>ob_matched_asset_id := Some (ia_id a)\<rparr>) (Some (snapshot_of db o' a ids)) t
          (on_asset (ia_id a) (unseen (Some (snapshot_of db o' a ids)) (o'\<lparr>ob_matched_asset_id := Some (ia_id a)\<rparr>))
             (db1\<lparr>ad_identifiers := ad_identifiers db\<rparr>)))
        (\<lambda>(db3, i). Inr (on_candidate (rc_id c) (\<lambda>x. x\<lparr>rc_status := ReconciliationStatus.SPLIT, rc_decided_by := user,
          rc_split_at := Some t\<rparr>) db3, i))"
proof -
  let ?m = "snapshot_of db o' a ids"
  note after = merged_tables [OF merge o' a ids clean]
  have obs: "o' \<in> set (ad_observations db)" "ob_id o' = rc_observation_id c"
    using find_SomeD [OF o' [unfolded observation_of_def]] by simp_all
  have asset: "ia_id a = rc_asset_id c" using find_SomeD [OF a [unfolded asset_of_def]] by simp
  have "find (\<lambda>x. rc_id x = rc_id c) (ad_candidates db) = Some c"
    by (rule find_by_key) (use ok c in \<open>simp_all add: keys_distinct_def\<close>)
  then show "find (\<lambda>x. rc_id x = rc_id c) (ad_candidates db1) = Some (merged ?m status actor now c)"
    by (simp add: after(6) merging.find_hit)
  have "observation_of db1 (rc_observation_id c) = Some (o'\<lparr>ob_matched_asset_id := Some (ia_id a)\<rparr>)"
    using observation_matched [OF ok obs(1) after(3)] obs(2) by simp
  moreover have "asset_of db1 (rc_asset_id c) = Some (seen o' now a)"
    using a asset by (simp add: asset_of_def after(2) sighting.find_hit)
  moreover have "split_identifiers (Some ?m) (ia_id a) (ob_observed_at o') (ad_identifiers db1) = ad_identifiers db"
    unfolding after(5)
    by (rule split_identifiers_back [OF clean normalize_canonical [OF ids]]) (simp_all add: snapshot_of_def)
  ultimately show "split_candidate str_of (merged ?m status actor now c) user t db1 =
      res_bind (restore_mapping str_of (o'\<lparr>ob_matched_asset_id := Some (ia_id a)\<rparr>) (Some ?m) t
          (on_asset (ia_id a) (unseen (Some ?m) (o'\<lparr>ob_matched_asset_id := Some (ia_id a)\<rparr>))
             (db1\<lparr>ad_identifiers := ad_identifiers db\<rparr>)))
        (\<lambda>(db3, i). Inr (on_candidate (rc_id c) (\<lambda>x. x\<lparr>rc_status := ReconciliationStatus.SPLIT, rc_decided_by := user,
          rc_split_at := Some t\<rparr>) db3, i))"
    using status asset by (simp add: split_candidate_def merged_def require_def sighting.key_kept)
qed

lemma asset_restored:
  assumes "keys_distinct db" and a: "a \<in> set (ad_assets db)" "ia_last_seen_at a = Some p"
    and "ad_assets db1 = update_where (\<lambda>x. ia_id x = ia_id a) (seen o' now) (ad_assets db)"
    and "ob_observed_at o'' = ob_observed_at o'"
  shows "update_where (\<lambda>x. ia_id x = ia_id a) (unseen (Some (snapshot_of db o' a ids)) o'') (ad_assets db1) = ad_assets db"
proof -
  have "unseen (Some (snapshot_of db o' a ids)) o'' (seen o' now x) = x" if "x \<in> set (ad_assets db)" "ia_id x = ia_id a" for x
  proof -
    have "x = a" using assms(1) a(1) that by (auto simp: keys_distinct_def distinct_map dest: inj_onD)
    then show ?thesis using seen_unseen [OF assms(5) a(2)] by simp
  qed
  then show ?thesis
    by (simp add: assms(4) updated_twice sighting.key_kept) (rule update_where_same, simp)
qed

text \<open>
  Splitting a merge undoes it.  The asset's own row is restored when it had a last sighting; without one
  the merge may have stored the time of the merge, which the split does not recognize.
\<close>

lemma split_restores:
  assumes ok: "keys_distinct db" "links_distinct db" and c: "c \<in> set (ad_candidates db)"
    and o': "observation_of db (rc_observation_id c) = Some o'" and a: "asset_of db (rc_asset_id c) = Some a"
    and last: "ia_last_seen_at a = Some p" and clean: "clean_keys (ia_id a) (ad_identifiers db)"
    and usable: "prior_mapping_usable o' db" and ids: "normalize_identifiers str_of (ob_identifiers o') = Inr ids"
    and merge: "merge_candidate str_of c status actor now db = Inr db1"
    and status: "status \<in> {ReconciliationStatus.APPROVED, ReconciliationStatus.AUTO_MERGED}"
  shows "\<exists>c' db2 i. find (\<lambda>x. rc_id x = rc_id c) (ad_candidates db1) = Some c' \<and>
    split_candidate str_of c' user t db1 = Inr (db2, i) \<and>
    (if link_of db (ob_connector_id o') (ob_source_record_id o') = None
     then given_own_asset str_of o' ids db db2 else mapping_restored db db2)"
proof -
  let ?m = "snapshot_of db o' a ids"
  let ?o = "o'\<lparr>ob_matched_asset_id := Some (ia_id a)\<rparr>"
  let ?db2 = "on_asset (ia_id a) (unseen (Some ?m) ?o) (db1\<lparr>ad_identifiers := ad_identifiers db\<rparr>)"
  note after = merged_tables [OF merge o' a ids clean] and split = split_of_merge [OF ok(1) c o' a clean ids merge status]
  have obs: "o' \<in> set (ad_observations db)" using find_SomeD [OF o' [unfolded observation_of_def]] by simp
  have "a \<in> set (ad_assets db)" using find_SomeD [OF a [unfolded asset_of_def]] by simp
  then have assets: "ad_assets ?db2 = ad_assets db"
    using asset_restored [OF ok(1) _ last after(2), of ?o] by (simp add: on_asset_def)
  have tables: "ad_identifiers ?db2 = ad_identifiers db" "ad_next ?db2 = ad_next db"
    "ad_links ?db2 = ad_links (link_observation o' (ia_id a) now db)"
    "ad_observations ?db2 =
      update_where (\<lambda>x. ob_id x = ob_id o') (\<lambda>x. x\<lparr>ob_matched_asset_id := Some (ia_id a)\<rparr>) (ad_observations db)"
    using after(1,3,4) by simp_all
  show ?thesis
  proof (cases "link_of db (ob_connector_id o') (ob_source_record_id o')")
    case None
    have "mg_prior_link ?m = None" by (simp add: snapshot_of_def None)
    then obtain db3 where "restore_mapping str_of ?o (Some ?m) t ?db2 = Inr (db3, ad_next db)" "given_own_asset str_of o' ids db db3"
      using own_asset_given [OF ok(1) ids None assets tables(1,2,3,4)] by blast
    then show ?thesis using split None by (simp add: given_own_asset_def)
  next
    case (Some l)
    have "mg_prior_link ?m = Some l" "mg_prior_matched ?m = ob_matched_asset_id o'" by (simp_all add: snapshot_of_def Some)
    then obtain db3 where "restore_mapping str_of ?o (Some ?m) t ?db2 = Inr (db3, sl_asset_id l)" "mapping_restored db db3"
      using prior_mapping_restored [OF ok(2,1) obs Some usable assets tables(1,3,4)] by blast
    then show ?thesis using split Some by (simp add: mapping_restored_def)
  qed
qed

end
