(* ===== verification/ReconciliationProperties.thy ===== *)
theory ReconciliationProperties
  imports SplitMerge
begin

text \<open>
  What reconciliation guarantees, with witnesses on a small inventory: two servers known by an agent
  identifier and a name, and an observation of one of them.
\<close>

definition sample_asset :: "uuid \<Rightarrow> string \<Rightarrow> inventory_asset" where
  "sample_asset i name =
     \<lparr>ia_id = i, ia_organization_id = 9, ia_site_id = 8, ia_canonical_name = name, ia_asset_type = AssetType.SERVER,
      ia_status = AssetStatus.ACTIVE, ia_operating_system = None, ia_manufacturer = None, ia_identity_confidence = 70,
      ia_first_seen_at = Some 100, ia_last_seen_at = Some 200, ia_last_assessed_at = None\<rparr>"

definition sample_identifiers :: json where
  "sample_identifiers =
     JList [JObj [(''type'', JStr ''agent_id''), (''value'', JStr '' A1'')],
            JObj [(''type'', JStr ''ip_address''), (''value'', JStr ''10.0.0.1'')]]"

definition sample_sighting :: asset_observation where
  "sample_sighting =
     \<lparr>ob_id = 2, ob_organization_id = 9, ob_site_id = 8, ob_connector_id = 5, ob_run_id = 6,
      ob_source_record_id = ''r1'', ob_observed_at = 300, ob_identifiers = sample_identifiers, ob_attributes = [],
      ob_payload_hash = ''h'', ob_matched_asset_id = None\<rparr>"

definition sample_assets :: asset_db where
  "sample_assets =
     \<lparr>ad_next = 10, ad_assets = [sample_asset 0 ''one'', sample_asset 1 ''two''],
      ad_identifiers =
        [observed_identifier 0 200 (IdentifierType.AGENT_ID, ''a1''), observed_identifier 1 200 (IdentifierType.AGENT_ID, ''a2'')],
      ad_observations = [sample_sighting], ad_links = [], ad_states = [], ad_events = [], ad_candidates = []\<rparr>"

lemma sample_normal:
  "normalize_identifiers str_of sample_identifiers = Inr [(IdentifierType.AGENT_ID, ''a1''), (IdentifierType.IP_ADDRESS, ''10.0.0.1'')]"
  by code_simp

lemma sample_keys: "keys_distinct sample_assets"
  by code_simp

lemma sample_certain:
  "certain_assets sample_sighting [(IdentifierType.AGENT_ID, ''a1''), (IdentifierType.IP_ADDRESS, ''10.0.0.1'')]
     sample_assets = [sample_asset 0 ''one'']"
  by code_simp

text \<open>C18. Reconciling an observation always decides it: it is merged into an asset exactly when that asset is the
  only one that an identifier of weight 95 names and no immutable identifier contradicts; otherwise it
  becomes a new asset if no identifier of weight 70 names any asset of its site, and else it is left for review
  with one pending candidate per named asset and nothing else changed.\<close>

theorem reconciliation_outcome:
  assumes "keys_distinct db" and "o' \<in> set (ad_observations db)"
    and "normalize_identifiers str_of (ob_identifiers o') = Inr ids"
  shows "\<exists>db'. reconcile_observation str_of o' now db = Inr db' \<and>
    (case certain_assets o' ids db of
       [a] \<Rightarrow> merged_into o' (ia_id a) db db'
     | _ \<Rightarrow>
         if named_assets o' ids db REVIEW_THRESHOLD = [] then created_for o' ids db db'
         else left_for_review o' (named_assets o' ids db REVIEW_THRESHOLD) db db')"
proof (cases "\<exists>a. certain_assets o' ids db = [a]")
  case True
  then obtain a where a: "certain_assets o' ids db = [a]" by blast
  then show ?thesis using auto_merge_outcome [OF assms a, of now] by simp
next
  case False
  then show ?thesis using other_outcome [OF assms, of now] by (auto split: list.splits)
qed

theorem reconciliation_outcome_witness:
  "\<exists>db'. reconcile_observation (\<lambda>v. []) sample_sighting 400 sample_assets = Inr db' \<and>
     merged_into sample_sighting 0 sample_assets db'"
proof -
  have mem: "sample_sighting \<in> set (ad_observations sample_assets)" by (simp add: sample_assets_def)
  have ids: "ob_identifiers sample_sighting = sample_identifiers" by (simp add: sample_sighting_def)
  from reconciliation_outcome [OF sample_keys mem, of "\<lambda>v. []", unfolded ids, OF sample_normal, of 400]
  show ?thesis by (simp add: sample_certain) (simp add: sample_asset_def)
qed


definition sample_candidate :: candidate where
  "sample_candidate =
     \<lparr>rc_id = 3, rc_organization_id = 9, rc_site_id = 8, rc_observation_id = 2, rc_asset_id = 0, rc_score = 100,
      rc_reasons = [], rc_conflicts = [], rc_status = ReconciliationStatus.PENDING, rc_snapshot = None,
      rc_decided_by = None, rc_decided_at = None, rc_split_at = None\<rparr>"

definition sample_review :: asset_db where
  "sample_review = sample_assets\<lparr>ad_links := [new_source_link sample_sighting 1], ad_candidates := [sample_candidate]\<rparr>"


end
